(* ===== verification/Pepe_Prelude.thy ===== *)
theory Pepe_Prelude
  imports Main "HOL-Library.Word" "HOL-Library.Multiset"
begin

text \<open>
  Shared vocabulary of the development: machine integers with the checked and
  saturating operations of the Rust standard library, Unicode strings as lists
  of code points, the sequencing of fallible stateful operations (Rust's
  question-mark operator), the list operations of \<open>Vec\<close> and \<open>VecDeque\<close>, and
  the interface \<open>invariant_machine\<close> by which every stateful component lifts a
  one-step invariant to all of its runs.
\<close>

section \<open>Machine integers\<close>

type_synonym u8 = "8 word"
type_synonym u16 = "16 word"
type_synonym u32 = "32 word"
type_synonym u64 = "64 word"
type_synonym uuid = "128 word"

named_theorems word_std "unsigned readings of the standard library's checked and saturating operations"
named_theorems frames "what an effectful operation leaves unchanged"

definition checked_add_u64 :: "u64 \<Rightarrow> u64 \<Rightarrow> u64 option" where
  "checked_add_u64 a b = (if unat a + unat b < 2 ^ 64 then Some (a + b) else None)"

definition checked_sub_u64 :: "u64 \<Rightarrow> u64 \<Rightarrow> u64 option" where
  "checked_sub_u64 a b = (if b \<le> a then Some (a - b) else None)"

definition saturating_add_u64 :: "u64 \<Rightarrow> u64 \<Rightarrow> u64" where
  "saturating_add_u64 a b = (if unat a + unat b < 2 ^ 64 then a + b else - 1)"

definition saturating_sub_u64 :: "u64 \<Rightarrow> u64 \<Rightarrow> u64" where
  "saturating_sub_u64 a b = (if b \<le> a then a - b else 0)"

definition abs_diff_u64 :: "u64 \<Rightarrow> u64 \<Rightarrow> u64" where
  "abs_diff_u64 a b = (if b \<le> a then a - b else b - a)"

text \<open>\<open>u64::try_from(n).unwrap_or(u64::MAX)\<close> on a wider unsigned value.\<close>

definition u64_try_from_or_max :: "nat \<Rightarrow> u64" where
  "u64_try_from_or_max n = (if n < 2 ^ 64 then of_nat n else - 1)"

text \<open>\<open>u32::try_from(n).unwrap_or(u32::MAX)\<close>.\<close>

definition u32_try_from_or_max :: "nat \<Rightarrow> u32" where
  "u32_try_from_or_max n = (if n < 2 ^ 32 then of_nat n else - 1)"

lemma unat_u64_max [simp]: "unat (- 1 :: u64) = 2 ^ 64 - 1"
  by (simp add: unsigned_minus_1_eq_mask mask_eq_exp_minus_1)

lemma unat_u64_bound: "unat (a :: u64) < 2 ^ 64"
  using unsigned_less [of a] by simp

lemma checked_add_u64_Some [word_std]:
  "checked_add_u64 a b = Some c \<longleftrightarrow> unat a + unat b < 2 ^ 64 \<and> c = a + b"
  by (auto simp: checked_add_u64_def)

lemma checked_add_u64_None [word_std]:
  "checked_add_u64 a b = None \<longleftrightarrow> 2 ^ 64 \<le> unat a + unat b"
  by (auto simp: checked_add_u64_def)

lemma unat_add_u64: "unat a + unat b < 2 ^ 64 \<Longrightarrow> unat (a + b :: u64) = unat a + unat b"
  by (simp add: unat_word_ariths)

lemma unat_sub_u64: "b \<le> a \<Longrightarrow> unat (a - b :: u64) = unat a - unat b"
  by (rule unat_sub)

lemma unat_saturating_add_u64 [word_std]:
  "unat (saturating_add_u64 a b) = min (unat a + unat b) (2 ^ 64 - 1)"
  by (auto simp: saturating_add_u64_def unat_add_u64 min_def)

lemma unat_saturating_sub_u64 [word_std]:
  "unat (saturating_sub_u64 a b) = unat a - unat b"
  by (auto simp: saturating_sub_u64_def unat_sub_u64 word_le_nat_alt)

lemma unat_abs_diff_u64 [word_std]:
  "unat (abs_diff_u64 a b) = (if unat b \<le> unat a then unat a - unat b else unat b - unat a)"
  by (auto simp: abs_diff_u64_def unat_sub_u64 word_le_nat_alt)

lemma unat_u64_of_nat: "n < 2 ^ 64 \<Longrightarrow> unat (of_nat n :: u64) = n"
  by (simp add: unat_of_nat take_bit_eq_mod)

lemma unat_u64_try_from [word_std]: "unat (u64_try_from_or_max n) = min n (2 ^ 64 - 1)"
  by (auto simp: u64_try_from_or_max_def unat_u64_of_nat min_def)

lemma unat_u32_try_from [word_std]: "n < 2 ^ 32 \<Longrightarrow> unat (u32_try_from_or_max n) = n"
  by (simp add: u32_try_from_or_max_def unat_of_nat take_bit_eq_mod)

section \<open>Strings\<close>

text \<open>
  A Rust \<open>char\<close> is a Unicode scalar value; a \<open>String\<close> is the list of its scalar
  values. \<open>str_len\<close> is \<open>str::len\<close>, the number of UTF-8 bytes.
\<close>

type_synonym rchar = nat
type_synonym rstring = "rchar list"

definition str :: "string \<Rightarrow> rstring" where
  "str s = map of_char s"

definition char_len_utf8 :: "rchar \<Rightarrow> nat" where
  "char_len_utf8 c = (if c < 0x80 then 1 else if c < 0x800 then 2 else if c < 0x10000 then 3 else 4)"

definition str_len :: "rstring \<Rightarrow> nat" where
  "str_len s = sum_list (map char_len_utf8 s)"

text \<open>\<open>char::is_control\<close>: general category Cc.\<close>

definition is_control :: "rchar \<Rightarrow> bool" where
  "is_control c \<longleftrightarrow> c < 0x20 \<or> (0x7f \<le> c \<and> c < 0xa0)"

text \<open>\<open>char::is_whitespace\<close>: the \<open>White_Space\<close> property.\<close>

definition is_whitespace :: "rchar \<Rightarrow> bool" where
  "is_whitespace c \<longleftrightarrow> (0x09 \<le> c \<and> c \<le> 0x0d) \<or> c = 0x20 \<or> c = 0x85 \<or> c = 0xa0 \<or> c = 0x1680 \<or>
     (0x2000 \<le> c \<and> c \<le> 0x200a) \<or> c = 0x2028 \<or> c = 0x2029 \<or> c = 0x202f \<or> c = 0x205f \<or> c = 0x3000"

definition trim_start :: "rstring \<Rightarrow> rstring" where
  "trim_start s = dropWhile is_whitespace s"

definition trim :: "rstring \<Rightarrow> rstring" where
  "trim s = rev (dropWhile is_whitespace (rev (trim_start s)))"

definition has_control :: "rstring \<Rightarrow> bool" where
  "has_control s \<longleftrightarrow> list_ex is_control s"

definition is_ascii_digit :: "rchar \<Rightarrow> bool" where
  "is_ascii_digit c \<longleftrightarrow> 0x30 \<le> c \<and> c \<le> 0x39"

definition is_ascii_lowercase :: "rchar \<Rightarrow> bool" where
  "is_ascii_lowercase c \<longleftrightarrow> 0x61 \<le> c \<and> c \<le> 0x7a"

definition is_ascii_uppercase :: "rchar \<Rightarrow> bool" where
  "is_ascii_uppercase c \<longleftrightarrow> 0x41 \<le> c \<and> c \<le> 0x5a"

definition is_ascii_alphanumeric :: "rchar \<Rightarrow> bool" where
  "is_ascii_alphanumeric c \<longleftrightarrow> is_ascii_digit c \<or> is_ascii_lowercase c \<or> is_ascii_uppercase c"

definition is_ascii_graphic :: "rchar \<Rightarrow> bool" where
  "is_ascii_graphic c \<longleftrightarrow> 0x21 \<le> c \<and> c \<le> 0x7e"

lemma char_len_utf8_pos: "0 < char_len_utf8 c"
  by (simp add: char_len_utf8_def)

lemma str_len_Nil [simp]: "str_len [] = 0"
  by (simp add: str_len_def)

lemma str_len_Cons [simp]: "str_len (c # s) = char_len_utf8 c + str_len s"
  by (simp add: str_len_def)

lemma str_len_append [simp]: "str_len (s @ t) = str_len s + str_len t"
  by (simp add: str_len_def)

lemma str_len_0 [simp]: "str_len s = 0 \<longleftrightarrow> s = []"
  by (cases s) (auto simp: char_len_utf8_def)

lemma length_le_str_len: "length s \<le> str_len s"
proof (induction s)
  case (Cons c s)
  then show ?case using char_len_utf8_pos [of c] by simp
qed simp

lemma set_trim: "set (trim s) \<subseteq> set s"
proof
  fix c
  assume "c \<in> set (trim s)"
  then have "c \<in> set (trim_start s)"
    by (metis set_dropWhileD set_rev trim_def)
  then show "c \<in> set s" by (simp add: trim_start_def set_dropWhileD)
qed

lemma trim_decompose: "\<exists>pre post. s = pre @ trim s @ post"
proof -
  have front: "s = takeWhile is_whitespace s @ trim_start s"
    by (simp add: trim_start_def)
  have "rev (trim_start s) = takeWhile is_whitespace (rev (trim_start s)) @
      dropWhile is_whitespace (rev (trim_start s))"
    by simp
  then have "trim_start s = trim s @ rev (takeWhile is_whitespace (rev (trim_start s)))"
    by (metis rev_append rev_rev_ident trim_def)
  with front show ?thesis by metis
qed

lemma str_len_trim: "str_len (trim s) \<le> str_len s"
proof -
  obtain pre post where "s = pre @ trim s @ post" using trim_decompose by blast
  then have "str_len s = str_len pre + str_len (trim s) + str_len post"
    by (metis add.assoc str_len_append)
  then show ?thesis by simp
qed

lemma trim_Nil_iff: "trim s = [] \<longleftrightarrow> list_all is_whitespace s"
proof -
  have "trim s = [] \<longleftrightarrow> (\<forall>c \<in> set (trim_start s). is_whitespace c)"
    by (simp add: trim_def dropWhile_eq_Nil_conv)
  also have "\<dots> \<longleftrightarrow> (\<forall>c \<in> set s. is_whitespace c)"
  proof
    assume "\<forall>c \<in> set (trim_start s). is_whitespace c"
    moreover have "set s = set (takeWhile is_whitespace s) \<union> set (trim_start s)"
      by (metis set_append takeWhile_dropWhile_id trim_start_def)
    ultimately show "\<forall>c \<in> set s. is_whitespace c" by (auto dest: set_takeWhileD)
  qed (auto simp: trim_start_def dest: set_dropWhileD)
  finally show ?thesis by (simp add: list_all_iff)
qed

lemma trim_start_hd: "trim_start s \<noteq> [] \<Longrightarrow> \<not> is_whitespace (hd (trim_start s))"
  by (simp add: trim_start_def hd_dropWhile)

lemma trim_trim: "trim (trim s) = trim s"
proof -
  have last: "trim s \<noteq> [] \<Longrightarrow> \<not> is_whitespace (last (trim s))"
    by (metis hd_dropWhile last_rev rev_is_Nil_conv trim_def)
  have prefix: "trim_start s = trim s @ rev (takeWhile is_whitespace (rev (trim_start s)))"
    by (metis rev_append rev_rev_ident takeWhile_dropWhile_id trim_def)
  have hd: "trim s \<noteq> [] \<Longrightarrow> \<not> is_whitespace (hd (trim s))"
    by (metis append_is_Nil_conv hd_append2 prefix trim_start_hd)
  have no_front: "trim_start (trim s) = trim s"
    using hd by (cases "trim s") (auto simp: trim_start_def)
  have "dropWhile is_whitespace (rev (trim s)) = rev (trim s)"
    using last by (cases "trim s" rule: rev_cases) auto
  then show ?thesis by (simp add: trim_def [of "trim s"] no_front)
qed

section \<open>Decimal and hexadecimal numbers\<close>

text \<open>
  \<open>char::to_digit\<close> and \<open>u64::from_str_radix\<close>: an optional plus sign before at least
  one digit, and an error as soon as the accumulated value leaves the type.
\<close>

definition to_digit :: "nat \<Rightarrow> rchar \<Rightarrow> nat option" where
  "to_digit radix c =
     (let d = (if is_ascii_digit c then Some (c - 0x30)
               else if is_ascii_lowercase c then Some (c - 0x61 + 10)
               else if is_ascii_uppercase c then Some (c - 0x41 + 10)
               else None)
      in case d of None \<Rightarrow> None | Some v \<Rightarrow> if v < radix then Some v else None)"

fun accumulate_digits :: "nat \<Rightarrow> nat \<Rightarrow> rstring \<Rightarrow> nat option" where
  "accumulate_digits radix acc [] = Some acc"
| "accumulate_digits radix acc (c # cs) =
     (case to_digit radix c of
        None \<Rightarrow> None
      | Some d \<Rightarrow> if acc * radix + d < 2 ^ 64 then accumulate_digits radix (acc * radix + d) cs
                  else None)"

definition from_str_radix :: "nat \<Rightarrow> rstring \<Rightarrow> u64 option" where
  "from_str_radix radix s =
     (let digits = (case s of c # cs \<Rightarrow> if c = 0x2b \<and> cs \<noteq> [] then cs else s | [] \<Rightarrow> [])
      in if digits = [] then None else map_option of_nat (accumulate_digits radix 0 digits))"

text \<open>Rendering of a number in decimal, as \<open>Display\<close> for integers does it.\<close>

fun decimal_digits :: "nat \<Rightarrow> rstring" where
  "decimal_digits n = (if n < 10 then [0x30 + n] else decimal_digits (n div 10) @ [0x30 + n mod 10])"

declare decimal_digits.simps [simp del]

lemma decimal_digits_nonempty [simp]: "decimal_digits n \<noteq> []"
  by (subst decimal_digits.simps) simp

lemma decimal_digits_are_digits: "c \<in> set (decimal_digits n) \<Longrightarrow> is_ascii_digit c"
proof (induction n arbitrary: c rule: decimal_digits.induct)
  case (1 n)
  show ?case
  proof (cases "n < 10")
    case True
    with "1.prems" show ?thesis
      by (simp add: decimal_digits.simps [of n] is_ascii_digit_def)
  next
    case False
    have "c \<in> set (decimal_digits (n div 10)) \<or> c = 0x30 + n mod 10"
      using "1.prems" False by (simp add: decimal_digits.simps [of n]) blast
    moreover have "n mod 10 < 10" by simp
    ultimately show ?thesis using "1.IH" [OF False] by (auto simp: is_ascii_digit_def)
  qed
qed

lemma to_digit_decimal: "d < 10 \<Longrightarrow> to_digit 10 (0x30 + d) = Some d"
  by (simp add: to_digit_def is_ascii_digit_def)

lemma accumulate_digits_append:
  "accumulate_digits r a (xs @ ys) =
     (case accumulate_digits r a xs of None \<Rightarrow> None | Some b \<Rightarrow> accumulate_digits r b ys)"
  by (induction r a xs rule: accumulate_digits.induct) (auto split: option.splits)

lemma accumulate_decimal_digits:
  "n < 2 ^ 64 \<Longrightarrow> accumulate_digits 10 0 (decimal_digits n) = Some n"
proof (induction n rule: decimal_digits.induct)
  case (1 n)
  show ?case
  proof (cases "n < 10")
    case True
    then show ?thesis by (simp add: decimal_digits.simps [of n] to_digit_decimal)
  next
    case False
    have "n div 10 < 2 ^ 64" using "1.prems" by linarith
    then have front: "accumulate_digits 10 0 (decimal_digits (n div 10)) = Some (n div 10)"
      by (rule "1.IH" [OF False])
    have "n div 10 * 10 + n mod 10 = n" by simp
    moreover have "to_digit 10 (0x30 + n mod 10) = Some (n mod 10)"
      by (rule to_digit_decimal) simp
    ultimately show ?thesis using False front "1.prems"
      by (simp add: decimal_digits.simps [of n] accumulate_digits_append)
  qed
qed

lemma from_str_radix_decimal: "from_str_radix 10 (decimal_digits (unat n)) = Some n"
proof -
  have "is_ascii_digit (hd (decimal_digits (unat n)))"
    by (rule decimal_digits_are_digits [of _ "unat n"]) simp
  then have "hd (decimal_digits (unat n)) \<noteq> 0x2b" by (simp add: is_ascii_digit_def)
  then have "from_str_radix 10 (decimal_digits (unat n)) =
      map_option of_nat (accumulate_digits 10 0 (decimal_digits (unat n)))"
    by (cases "decimal_digits (unat n)") (auto simp: from_str_radix_def Let_def)
  then show ?thesis by (simp add: accumulate_decimal_digits [OF unat_u64_bound])
qed

section \<open>Operations on vectors and deques\<close>

named_theorems deque_simps "length, elements and multiset of the deque operations"

fun position :: "('a \<Rightarrow> bool) \<Rightarrow> 'a list \<Rightarrow> nat option" where
  "position P [] = None"
| "position P (x # xs) = (if P x then Some 0 else map_option Suc (position P xs))"

definition remove_at :: "nat \<Rightarrow> 'a list \<Rightarrow> 'a list" where
  "remove_at i xs = take i xs @ drop (Suc i) xs"

definition insert_at :: "nat \<Rightarrow> 'a \<Rightarrow> 'a list \<Rightarrow> 'a list" where
  "insert_at i x xs = take i xs @ x # drop i xs"

definition swap_at :: "nat \<Rightarrow> nat \<Rightarrow> 'a list \<Rightarrow> 'a list" where
  "swap_at i j xs = xs[i := xs ! j, j := xs ! i]"

lemma position_Some:
  "position P xs = Some i \<Longrightarrow> i < length xs \<and> P (xs ! i) \<and> (\<forall>j < i. \<not> P (xs ! j))"
proof (induction xs arbitrary: i)
  case (Cons x xs)
  then show ?case by (auto split: if_splits simp: nth_Cons split: nat.splits)
qed simp

lemma position_None: "position P xs = None \<longleftrightarrow> (\<forall>x \<in> set xs. \<not> P x)"
  by (induction xs) auto

lemma length_remove_at [deque_simps]: "i < length xs \<Longrightarrow> length (remove_at i xs) = length xs - 1"
  by (simp add: remove_at_def)

lemma length_insert_at [deque_simps]: "i \<le> length xs \<Longrightarrow> length (insert_at i x xs) = Suc (length xs)"
  by (simp add: insert_at_def)

lemma mset_insert_at [deque_simps]: "mset (insert_at i x xs) = add_mset x (mset xs)"
proof -
  have "mset (insert_at i x xs) = add_mset x (mset (take i xs @ drop i xs))"
    unfolding insert_at_def by (simp only: mset_append mset.simps) simp
  then show ?thesis by simp
qed

lemma mset_remove_at [deque_simps]: "i < length xs \<Longrightarrow> add_mset (xs ! i) (mset (remove_at i xs)) = mset xs"
proof -
  assume i: "i < length xs"
  have "mset xs = mset (take i xs @ xs ! i # drop (Suc i) xs)"
    using id_take_nth_drop [OF i] by metis
  then show ?thesis by (simp add: remove_at_def)
qed

lemma set_insert_at [deque_simps]: "set (insert_at i x xs) = insert x (set xs)"
  by (metis mset_insert_at set_mset_add_mset_insert set_mset_mset)

lemma set_remove_at: "set (remove_at i xs) \<subseteq> set xs"
  by (auto simp: remove_at_def dest: in_set_takeD in_set_dropD)

lemma map_remove_at: "map f (remove_at i xs) = remove_at i (map f xs)"
  by (simp add: remove_at_def take_map drop_map)

lemma map_insert_at: "map f (insert_at i x xs) = insert_at i (f x) (map f xs)"
  by (simp add: insert_at_def take_map drop_map)

lemma distinct_insert_at [deque_simps]:
  "distinct (insert_at i x xs) \<longleftrightarrow> x \<notin> set xs \<and> distinct xs"
  by (metis distinct.simps(2) mset.simps(2) mset_eq_imp_distinct_iff mset_insert_at)

lemma distinct_remove_at: "distinct xs \<Longrightarrow> distinct (remove_at i xs)"
  using set_take_disj_set_drop_if_distinct [of xs i "Suc i"] by (simp add: remove_at_def)

lemma length_swap_at [deque_simps]: "length (swap_at i j xs) = length xs"
  by (simp add: swap_at_def)

lemma mset_swap_at [deque_simps]:
  "i < length xs \<Longrightarrow> j < length xs \<Longrightarrow> mset (swap_at i j xs) = mset xs"
  by (simp add: swap_at_def mset_swap)

section \<open>Fallible operations on a state\<close>

text \<open>
  An operation takes the state and returns its result, an error on the left or a
  value on the right, with the state it leaves behind. An error keeps the changes
  made before it, as an early return does. \<open>attempt m k\<close> is \<open>let a = m?; k\<close>.
\<close>

definition attempt ::
  "('s \<Rightarrow> ('e + 'a) \<times> 's) \<Rightarrow> ('a \<Rightarrow> 's \<Rightarrow> ('e + 'b) \<times> 's) \<Rightarrow> 's \<Rightarrow> ('e + 'b) \<times> 's" where
  "attempt m k s = (case m s of (r, t) \<Rightarrow> (case r of Inl e \<Rightarrow> (Inl e, t) | Inr a \<Rightarrow> k a t))"

lemma attempt_Inl [simp]: "m s = (Inl e, t) \<Longrightarrow> attempt m k s = (Inl e, t)"
  by (simp add: attempt_def)

lemma attempt_Inr [simp]: "m s = (Inr a, t) \<Longrightarrow> attempt m k s = k a t"
  by (simp add: attempt_def)

lemma attemptE:
  assumes "attempt m k s = (r, t)"
  obtains (early) e where "m s = (Inl e, t)" and "r = Inl e"
  | (later) a u where "m s = (Inr a, u)" and "k a u = (r, t)"
  using assms by (cases "m s"; cases "fst (m s)") (auto simp: attempt_def)

lemma attempt_InrE:
  assumes "attempt m k s = (Inr b, t)"
  obtains a u where "m s = (Inr a, u)" and "k a u = (Inr b, t)"
  using assms by (auto elim: attemptE)

section \<open>Reachable states\<close>

locale invariant_machine =
  fixes initial :: "'s \<Rightarrow> bool"
    and step :: "'s \<Rightarrow> 's \<Rightarrow> bool"
    and inv :: "'s \<Rightarrow> bool"
  assumes initial_inv: "initial s \<Longrightarrow> inv s"
    and step_inv: "inv s \<Longrightarrow> step s t \<Longrightarrow> inv t"
begin

lemma steps_inv: "rtranclp step s t \<Longrightarrow> inv s \<Longrightarrow> inv t"
  by (induction rule: rtranclp.induct) (auto intro: step_inv)

lemma reachable_inv: "initial s \<Longrightarrow> rtranclp step s t \<Longrightarrow> inv t"
  by (blast intro: steps_inv initial_inv)

end

locale monotone_machine = invariant_machine initial step inv
  for initial :: "'s \<Rightarrow> bool" and step :: "'s \<Rightarrow> 's \<Rightarrow> bool" and inv :: "'s \<Rightarrow> bool" +
  fixes clock :: "'s \<Rightarrow> 'm::preorder"
  assumes step_mono: "inv s \<Longrightarrow> step s t \<Longrightarrow> clock s \<le> clock t"
begin

lemma steps_mono: "rtranclp step s t \<Longrightarrow> inv s \<Longrightarrow> clock s \<le> clock t"
proof (induction rule: rtranclp.induct)
  case (rtrancl_into_rtrancl a b c)
  then have "inv b" by (blast intro: steps_inv)
  with rtrancl_into_rtrancl show ?case by (blast intro: step_mono order_trans)
qed simp

end

end
