(* ===== verification/Core_Types.thy ===== *)
theory Core_Types
  imports Pepe_Prelude
begin

text \<open>
  The validated value types of \<open>crates/pepeaudio-core\<close>: state revisions and
  timestamps (\<open>clock.rs\<close>), Discord snowflakes (\<open>id.rs\<close>), volume percentages
  (\<open>volume.rs\<close>), HRIR preset identifiers (\<open>hrir_id.rs\<close>), gateway shards
  (\<open>shard.rs\<close>) and the command admission limits (\<open>command_rate_limit.rs\<close>).
\<close>

section \<open>Revisions and timestamps\<close>

datatype state_revision = StateRevision (revision_get: u64)

instantiation state_revision :: linorder
begin

definition less_eq_state_revision :: "state_revision \<Rightarrow> state_revision \<Rightarrow> bool" where
  "less_eq_state_revision a b \<longleftrightarrow> revision_get a \<le> revision_get b"

definition less_state_revision :: "state_revision \<Rightarrow> state_revision \<Rightarrow> bool" where
  "less_state_revision a b \<longleftrightarrow> revision_get a < revision_get b"

instance
  by standard
    (auto simp: less_eq_state_revision_def less_state_revision_def intro: state_revision.expand)

end

definition initial_revision :: state_revision where
  "initial_revision = StateRevision 0"

definition checked_next :: "state_revision \<Rightarrow> state_revision option" where
  "checked_next r = (case checked_add_u64 (revision_get r) 1 of
     Some value \<Rightarrow> Some (StateRevision value) | None \<Rightarrow> None)"

lemma checked_next_Some:
  "checked_next r = Some r' \<longleftrightarrow>
     unat (revision_get r) + 1 < 2 ^ 64 \<and> r' = StateRevision (revision_get r + 1)"
  by (auto simp: checked_next_def word_std split: option.splits)

lemma checked_next_unat:
  "checked_next r = Some r' \<Longrightarrow> unat (revision_get r') = Suc (unat (revision_get r))"
  by (auto simp: checked_next_Some unat_add_u64)

lemma checked_next_less: "checked_next r = Some r' \<Longrightarrow> r < r'"
  by (auto dest: checked_next_unat simp: less_state_revision_def word_less_nat_alt)

lemma checked_next_exhausted: "checked_next r = None \<longleftrightarrow> revision_get r = - 1"
proof -
  have "checked_next r = None \<longleftrightarrow> 2 ^ 64 \<le> unat (revision_get r) + 1"
    by (auto simp: checked_next_def word_std split: option.splits)
  also have "\<dots> \<longleftrightarrow> unat (revision_get r) = unat (- 1 :: u64)"
    using unat_u64_bound [of "revision_get r"] unfolding unat_u64_max by linarith
  finally show ?thesis by (simp only: word_unat_eq_iff)
qed

datatype unix_time_millis = UnixTimeMillis (millis_get: u64)

instantiation unix_time_millis :: linorder
begin

definition less_eq_unix_time_millis :: "unix_time_millis \<Rightarrow> unix_time_millis \<Rightarrow> bool" where
  "less_eq_unix_time_millis a b \<longleftrightarrow> millis_get a \<le> millis_get b"

definition less_unix_time_millis :: "unix_time_millis \<Rightarrow> unix_time_millis \<Rightarrow> bool" where
  "less_unix_time_millis a b \<longleftrightarrow> millis_get a < millis_get b"

instance
  by standard
    (auto simp: less_eq_unix_time_millis_def less_unix_time_millis_def intro: unix_time_millis.expand)

end

section \<open>Discord snowflakes\<close>

datatype snowflake_parse_error = Zero | InvalidDecimal

text \<open>
  The macro \<open>snowflake_id!\<close> generates three identical types; \<open>snowflake_new\<close> is
  the shared body of their constructors and \<open>snowflake_from_str\<close> of their parsers.
\<close>

datatype guild_id = GuildId (guild_get: u64)
datatype channel_id = ChannelId (channel_get: u64)
datatype user_id = UserId (user_get: u64)

definition snowflake_new :: "u64 \<Rightarrow> snowflake_parse_error + u64" where
  "snowflake_new value = (if value = 0 then Inl Zero else Inr value)"

definition snowflake_from_str :: "rstring \<Rightarrow> snowflake_parse_error + u64" where
  "snowflake_from_str text =
     (case from_str_radix 10 text of
        None \<Rightarrow> Inl InvalidDecimal
      | Some value \<Rightarrow> snowflake_new value)"

definition snowflake_display :: "u64 \<Rightarrow> rstring" where
  "snowflake_display value = decimal_digits (unat value)"

definition guild_id_new :: "u64 \<Rightarrow> snowflake_parse_error + guild_id" where
  "guild_id_new value = map_sum id GuildId (snowflake_new value)"

definition channel_id_new :: "u64 \<Rightarrow> snowflake_parse_error + channel_id" where
  "channel_id_new value = map_sum id ChannelId (snowflake_new value)"

definition user_id_new :: "u64 \<Rightarrow> snowflake_parse_error + user_id" where
  "user_id_new value = map_sum id UserId (snowflake_new value)"

definition guild_id_from_str :: "rstring \<Rightarrow> snowflake_parse_error + guild_id" where
  "guild_id_from_str text = map_sum id GuildId (snowflake_from_str text)"

lemma snowflake_roundtrip:
  "value \<noteq> 0 \<Longrightarrow> snowflake_from_str (snowflake_display value) = Inr value"
  by (simp add: snowflake_from_str_def snowflake_display_def snowflake_new_def from_str_radix_decimal)

lemma snowflake_from_str_nonzero: "snowflake_from_str text = Inr value \<Longrightarrow> value \<noteq> 0"
  by (auto simp: snowflake_from_str_def snowflake_new_def split: option.splits if_splits)

section \<open>Volume\<close>

datatype volume = Volume (volume_percent: u8)

record volume_error =
  ve_percent :: u8

definition volume_muted :: volume where "volume_muted = Volume 0"
definition volume_max :: volume where "volume_max = Volume 100"
definition volume_default :: volume where "volume_default = Volume 10"

definition volume_new :: "u8 \<Rightarrow> volume_error + volume" where
  "volume_new percent =
     (if percent \<le> volume_percent volume_max then Inr (Volume percent)
      else Inl \<lparr>ve_percent = percent\<rparr>)"

definition volume_wf :: "volume \<Rightarrow> bool" where
  "volume_wf v \<longleftrightarrow> volume_percent v \<le> 100"

lemma volume_new_wf: "volume_new p = Inr v \<Longrightarrow> volume_wf v \<and> volume_percent v = p"
  by (auto simp: volume_new_def volume_wf_def volume_max_def split: if_splits)

lemma volume_default_wf [simp]: "volume_wf volume_default"
  by (simp add: volume_wf_def volume_default_def)

section \<open>HRIR preset identifiers\<close>

datatype hrir_preset_id = HrirPresetId (hrir_as_str: rstring)

datatype hrir_preset_id_error =
  HrirEmpty | HrirTooLong nat | HrirSurroundingWhitespace | HrirControlCharacter

definition MAX_HRIR_PRESET_ID_BYTES :: nat where
  "MAX_HRIR_PRESET_ID_BYTES = 128"

definition hrir_preset_id_new :: "rstring \<Rightarrow> hrir_preset_id_error + hrir_preset_id" where
  "hrir_preset_id_new value =
     (if value = [] then Inl HrirEmpty
      else if str_len value > MAX_HRIR_PRESET_ID_BYTES then Inl (HrirTooLong (str_len value))
      else if trim value \<noteq> value then Inl HrirSurroundingWhitespace
      else if has_control value then Inl HrirControlCharacter
      else Inr (HrirPresetId value))"

definition hrir_preset_id_wf :: "hrir_preset_id \<Rightarrow> bool" where
  "hrir_preset_id_wf p \<longleftrightarrow> hrir_as_str p \<noteq> [] \<and> str_len (hrir_as_str p) \<le> 128 \<and>
     trim (hrir_as_str p) = hrir_as_str p \<and> \<not> has_control (hrir_as_str p)"

lemma hrir_preset_id_new_wf:
  "hrir_preset_id_new s = Inr p \<longleftrightarrow> p = HrirPresetId s \<and> hrir_preset_id_wf (HrirPresetId s)"
  by (auto simp: hrir_preset_id_new_def hrir_preset_id_wf_def MAX_HRIR_PRESET_ID_BYTES_def)

section \<open>Gateway shards\<close>

definition shard_id :: "guild_id \<Rightarrow> u32 \<Rightarrow> u32" where
  "shard_id guild shard_count =
     (let shifted = drop_bit 22 (guild_get guild);
          count = (ucast shard_count :: u64);
          remainder = shifted mod count
      in ucast remainder)"

lemma shard_id_unat:
  assumes "shard_count \<noteq> 0"
  shows "unat (shard_id guild shard_count) =
    (unat (guild_get guild) div 2 ^ 22) mod unat shard_count"
proof -
  let ?r = "(drop_bit 22 (guild_get guild)) mod (ucast shard_count :: u64)"
  have bound: "unat shard_count < 2 ^ 32" using unsigned_less [of shard_count] by simp
  then have count: "unat (ucast shard_count :: u64) = unat shard_count"
    by (simp add: unsigned_ucast_eq take_bit_nat_eq_self)
  have r: "unat ?r = (unat (guild_get guild) div 2 ^ 22) mod unat shard_count"
    by (simp add: unat_mod count unat_div drop_bit_eq_div)
  have "0 < unat shard_count" using assms by (simp add: unat_gt_0)
  with bound have "unat ?r < 2 ^ 32"
    using r mod_less_divisor [of "unat shard_count"] by (metis less_trans)
  then have "unat (ucast ?r :: u32) = unat ?r"
    by (simp add: unsigned_ucast_eq take_bit_nat_eq_self)
  with r show ?thesis by (simp add: shard_id_def Let_def)
qed

lemma shard_id_less: "shard_count \<noteq> 0 \<Longrightarrow> shard_id guild shard_count < shard_count"
  by (simp add: word_less_nat_alt shard_id_unat unat_gt_0)

section \<open>Command admission limits\<close>

text \<open>The window is a \<open>Duration\<close>, kept in nanoseconds.\<close>

record player_command_rate_limit =
  per_actor_per_guild :: u32
  per_guild :: u32
  window :: nat

definition player_command_rate_limit_standard :: player_command_rate_limit where
  "player_command_rate_limit_standard =
     \<lparr>per_actor_per_guild = 20, per_guild = 60, window = 60 * 10 ^ 9\<rparr>"

end
