(* ===== verification/Track_Provenance.thy ===== *)
theory Track_Provenance
  imports Core_Types
begin

text \<open>
  Public source pages of a track, \<open>crates/pepeaudio-core/src/track_provenance.rs\<close>.
  The URL parser is the third-party crate \<open>url\<close>: a parsed URL is the record
  \<open>url\<close> of the components the code reads, and the parser itself is an argument
  \<open>parse\<close> of the definitions.
\<close>

section \<open>Parsed URLs\<close>

text \<open>
  \<open>url_port\<close> is the explicit non-default port (\<open>Url::port\<close>), \<open>url_query_pairs\<close>
  the decoded query pairs, \<open>url_path_segments\<close> the path split at slashes, and
  \<open>url_string\<close> the serialization.
\<close>

record url =
  url_scheme :: rstring
  url_username :: rstring
  url_password :: "rstring option"
  url_host_str :: "rstring option"
  url_port :: "u16 option"
  url_path :: rstring
  url_path_segments :: "rstring list option"
  url_query :: "rstring option"
  url_query_pairs :: "(rstring \<times> rstring) list"
  url_fragment :: "rstring option"
  url_string :: rstring

type_synonym url_parser = "rstring \<Rightarrow> url option"

section \<open>Identifier shapes\<close>

definition MAX_PUBLIC_PAGE_URL_BYTES :: nat where "MAX_PUBLIC_PAGE_URL_BYTES = 2048"
definition MAX_APPLE_SLUG_BYTES :: nat where "MAX_APPLE_SLUG_BYTES = 512"

definition valid_spotify_id :: "rstring \<Rightarrow> bool" where
  "valid_spotify_id value \<longleftrightarrow> str_len value = 22 \<and> list_all is_ascii_alphanumeric value"

definition valid_numeric_id :: "rstring \<Rightarrow> bool" where
  "valid_numeric_id value \<longleftrightarrow> value \<noteq> [] \<and> str_len value \<le> 20 \<and> list_all is_ascii_digit value"

definition valid_apple_slug :: "rstring \<Rightarrow> bool" where
  "valid_apple_slug value \<longleftrightarrow> value \<noteq> [] \<and> str_len value \<le> MAX_APPLE_SLUG_BYTES \<and>
     value \<noteq> str ''.'' \<and> value \<noteq> str ''..'' \<and> list_all is_ascii_graphic value"

text \<open>The underscore is 0x5f, the hyphen 0x2d.\<close>

definition valid_youtube_id :: "rstring \<Rightarrow> bool" where
  "valid_youtube_id value \<longleftrightarrow> str_len value = 11 \<and>
     list_all (\<lambda>c. is_ascii_alphanumeric c \<or> c = 0x5f \<or> c = 0x2d) value"

section \<open>Paths and queries\<close>

definition segments :: "url \<Rightarrow> rstring list option" where
  "segments u = (case url_path_segments u of
     None \<Rightarrow> None
   | Some parts \<Rightarrow>
       let kept = (if parts \<noteq> [] \<and> last parts = [] then butlast parts else parts)
       in if kept \<noteq> [] \<and> list_all (\<lambda>s. s \<noteq> []) kept then Some kept else None)"

definition exact_track_path :: "url \<Rightarrow> rstring \<Rightarrow> (rstring \<Rightarrow> bool) \<Rightarrow> bool" where
  "exact_track_path u kind id_validator = (case segments u of
     None \<Rightarrow> False
   | Some parts \<Rightarrow> length parts = 2 \<and> parts ! 0 = kind \<and> id_validator (parts ! 1))"

definition exact_single_segment :: "url \<Rightarrow> rstring option" where
  "exact_single_segment u = (case segments u of
     None \<Rightarrow> None
   | Some parts \<Rightarrow> if length parts = 1 then Some (parts ! 0) else None)"

definition one_query_value :: "url \<Rightarrow> rstring \<Rightarrow> rstring option" where
  "one_query_value u expected_name = (case url_query_pairs u of
     [] \<Rightarrow> None
   | (name, value) # rest \<Rightarrow> if name \<noteq> expected_name \<or> rest \<noteq> [] then None else Some value)"

section \<open>Provider rules\<close>

datatype media_provider = Spotify | AppleMusic | YouTube | SoundCloud

definition is_playback_provider :: "media_provider \<Rightarrow> bool" where
  "is_playback_provider p \<longleftrightarrow> p = YouTube \<or> p = SoundCloud"

definition valid_spotify :: "url \<Rightarrow> bool" where
  "valid_spotify u \<longleftrightarrow> url_host_str u = Some (str ''open.spotify.com'') \<and> url_query u = None \<and>
     exact_track_path u (str ''track'') valid_spotify_id"

definition valid_apple_music :: "url \<Rightarrow> bool" where
  "valid_apple_music u =
     (if url_host_str u \<noteq> Some (str ''music.apple.com'') then False
      else case segments u of
        None \<Rightarrow> False
      | Some parts \<Rightarrow>
          if length parts \<noteq> 4 \<or> str_len (parts ! 0) \<noteq> 2 \<or> \<not> list_all is_ascii_lowercase (parts ! 0)
             \<or> \<not> valid_apple_slug (parts ! 2) \<or> \<not> valid_numeric_id (parts ! 3)
          then False
          else if parts ! 1 = str ''song'' then url_query u = None
          else if parts ! 1 = str ''album''
          then (case one_query_value u (str ''i'') of None \<Rightarrow> False | Some v \<Rightarrow> valid_numeric_id v)
          else False)"

definition valid_youtube :: "url \<Rightarrow> bool" where
  "valid_youtube u =
     (if url_host_str u \<in> {Some (str ''youtube.com''), Some (str ''www.youtube.com'')}
      then url_path u = str ''/watch'' \<and>
           (case one_query_value u (str ''v'') of None \<Rightarrow> False | Some v \<Rightarrow> valid_youtube_id v)
      else if url_host_str u = Some (str ''youtu.be'')
      then url_query u = None \<and>
           (case exact_single_segment u of None \<Rightarrow> False | Some s \<Rightarrow> valid_youtube_id s)
      else False)"

definition valid_soundcloud :: "url \<Rightarrow> bool" where
  "valid_soundcloud u \<longleftrightarrow>
     url_host_str u \<in> {Some (str ''soundcloud.com''), Some (str ''www.soundcloud.com''),
                       Some (str ''m.soundcloud.com'')} \<and>
     url_query u = None \<and>
     (case segments u of None \<Rightarrow> False
      | Some parts \<Rightarrow> length parts = 2 \<and> list_all (\<lambda>s. s \<noteq> [] \<and> str_len s \<le> 256) parts)"

section \<open>Public pages and track provenance\<close>

record public_media_page =
  page_provider :: media_provider
  page_url :: rstring

datatype public_media_page_error = InvalidUrl | ProviderMismatch | InvalidPlaybackProvider

definition page_matches_provider :: "media_provider \<Rightarrow> url \<Rightarrow> bool" where
  "page_matches_provider provider u = (case provider of
     Spotify \<Rightarrow> valid_spotify u
   | AppleMusic \<Rightarrow> valid_apple_music u
   | YouTube \<Rightarrow> valid_youtube u
   | SoundCloud \<Rightarrow> valid_soundcloud u)"

definition public_media_page_new ::
  "url_parser \<Rightarrow> media_provider \<Rightarrow> rstring \<Rightarrow> public_media_page_error + public_media_page" where
  "public_media_page_new parse provider value =
     (if value = [] \<or> str_len value > MAX_PUBLIC_PAGE_URL_BYTES \<or> has_control value
      then Inl InvalidUrl
      else case parse value of
        None \<Rightarrow> Inl InvalidUrl
      | Some u \<Rightarrow>
          if url_scheme u \<noteq> str ''https'' \<or> url_port u \<noteq> None \<or> url_username u \<noteq> [] \<or>
             url_password u \<noteq> None \<or> url_fragment u \<noteq> None
          then Inl InvalidUrl
          else if \<not> page_matches_provider provider u then Inl ProviderMismatch
          else Inr \<lparr>page_provider = provider, page_url = url_string u\<rparr>)"

record track_provenance =
  provenance_origin :: "public_media_page option"
  provenance_playback :: public_media_page

definition track_provenance_new ::
  "public_media_page option \<Rightarrow> public_media_page \<Rightarrow> public_media_page_error + track_provenance" where
  "track_provenance_new origin playback =
     (if \<not> is_playback_provider (page_provider playback) then Inl InvalidPlaybackProvider
      else Inr \<lparr>provenance_origin = origin, provenance_playback = playback\<rparr>)"

text \<open>
  The deserializers \<open>RawPublicMediaPage\<close> and \<open>RawTrackProvenance\<close> rebuild the value
  through the same constructors.
\<close>

definition track_provenance_deserialize ::
  "url_parser \<Rightarrow> (media_provider \<times> rstring) option \<Rightarrow> media_provider \<times> rstring \<Rightarrow>
     public_media_page_error + track_provenance" where
  "track_provenance_deserialize parse origin playback =
     (case (case origin of
              None \<Rightarrow> Inr None
            | Some (provider, text) \<Rightarrow> map_sum id Some (public_media_page_new parse provider text)) of
        Inl e \<Rightarrow> Inl e
      | Inr origin_page \<Rightarrow>
          (case public_media_page_new parse (fst playback) (snd playback) of
             Inl e \<Rightarrow> Inl e
           | Inr playback_page \<Rightarrow> track_provenance_new origin_page playback_page))"

section \<open>What an accepted page guarantees\<close>

text \<open>The query names an accepted page may carry: one opaque identifier, never a token.\<close>

definition carries_no_token :: "url \<Rightarrow> bool" where
  "carries_no_token u \<longleftrightarrow> url_query u = None \<or>
     (\<exists>name value. url_query_pairs u = [(name, value)] \<and> name \<in> {str ''v'', str ''i''} \<and>
        (valid_youtube_id value \<or> valid_numeric_id value))"

lemma one_query_value_Some:
  "one_query_value u n = Some v \<longleftrightarrow> url_query_pairs u = [(n, v)]"
  by (auto simp: one_query_value_def split: list.splits)

lemma page_matches_provider_no_token: "page_matches_provider p u \<Longrightarrow> carries_no_token u"
  by (auto simp: page_matches_provider_def valid_spotify_def valid_apple_music_def valid_youtube_def
      valid_soundcloud_def carries_no_token_def one_query_value_Some
      split: media_provider.splits option.splits if_splits)

lemma public_media_page_new_Inr:
  assumes "public_media_page_new parse provider text = Inr page"
  obtains u where "parse text = Some u" and "url_scheme u = str ''https''"
    and "url_port u = None" and "url_username u = []" and "url_password u = None"
    and "url_fragment u = None" and "page_matches_provider provider u"
    and "page = \<lparr>page_provider = provider, page_url = url_string u\<rparr>"
  using assms by (auto simp: public_media_page_new_def split: if_splits option.splits)

lemma track_provenance_new_Inr:
  "track_provenance_new origin playback = Inr p \<longleftrightarrow>
     is_playback_provider (page_provider playback) \<and>
     p = \<lparr>provenance_origin = origin, provenance_playback = playback\<rparr>"
  by (auto simp: track_provenance_new_def)

end
