(* ===== verification/Player_Snapshot.thy ===== *)
theory Player_Snapshot
  imports Track_Provenance
begin

text \<open>
  The public player state of \<open>crates/pepeaudio-core/src/player.rs\<close>: the snapshot
  that Discord and the dashboard share, and the validation that the cache and the
  event stream run on it.
\<close>

definition MAX_TRACK_TITLE_BYTES :: nat where "MAX_TRACK_TITLE_BYTES = 512"
definition MAX_TRACK_ARTIST_BYTES :: nat where "MAX_TRACK_ARTIST_BYTES = 256"
definition MAX_TRACK_ALBUM_BYTES :: nat where "MAX_TRACK_ALBUM_BYTES = 512"
definition MAX_SNAPSHOT_QUEUE_ITEMS :: nat where "MAX_SNAPSHOT_QUEUE_ITEMS = 100"
definition MAX_PLAYER_SNAPSHOT_JSON_BYTES :: nat where "MAX_PLAYER_SNAPSHOT_JSON_BYTES = 1048576"

datatype player_state = Disconnected | IdleConnected | Loading | Playing | Paused

datatype repeat_mode = RepeatOff | RepeatTrack | RepeatQueue

record track_snapshot =
  ts_track_id :: uuid
  ts_title :: rstring
  ts_artist :: "rstring option"
  ts_album :: "rstring option"
  ts_provenance :: "track_provenance option"
  ts_requester_user_id :: "user_id option"
  ts_duration_ms :: "u64 option"
  ts_position_ms :: u64
  ts_seekable :: bool

record player_snapshot =
  ps_guild_id :: guild_id
  ps_voice_channel_id :: "channel_id option"
  ps_revision :: state_revision
  ps_state :: player_state
  ps_current_track :: "track_snapshot option"
  ps_queued_tracks :: u32
  ps_upcoming_tracks :: "track_snapshot list"
  ps_has_previous_track :: bool
  ps_volume :: volume
  ps_repeat_mode :: repeat_mode
  ps_shuffle_enabled :: bool
  ps_hrir_preset :: "hrir_preset_id option"
  ps_spatial_audio_enabled :: bool
  ps_observed_at :: unix_time_millis

datatype player_snapshot_validation_error =
  QueueTooLarge | QueueCountMismatch | DuplicateTrackId | InvalidTitle | InvalidArtist
  | InvalidAlbum | InvalidPosition

definition player_snapshot_validation_error_field ::
  "player_snapshot_validation_error \<Rightarrow> rstring" where
  "player_snapshot_validation_error_field e = (case e of
     QueueTooLarge \<Rightarrow> str ''upcoming_tracks''
   | QueueCountMismatch \<Rightarrow> str ''upcoming_tracks''
   | DuplicateTrackId \<Rightarrow> str ''track_id''
   | InvalidTitle \<Rightarrow> str ''title''
   | InvalidArtist \<Rightarrow> str ''artist''
   | InvalidAlbum \<Rightarrow> str ''album''
   | InvalidPosition \<Rightarrow> str ''position_ms'')"

definition validate_text :: "rstring \<Rightarrow> nat \<Rightarrow> bool" where
  "validate_text value maximum_bytes \<longleftrightarrow>
     trim value \<noteq> [] \<and> str_len value \<le> maximum_bytes \<and> \<not> has_control value"

definition is_some_and :: "('a \<Rightarrow> bool) \<Rightarrow> 'a option \<Rightarrow> bool" where
  "is_some_and P x = (case x of None \<Rightarrow> False | Some v \<Rightarrow> P v)"

definition validate_track :: "track_snapshot \<Rightarrow> player_snapshot_validation_error + unit" where
  "validate_track track =
     (if \<not> validate_text (ts_title track) MAX_TRACK_TITLE_BYTES then Inl InvalidTitle
      else if is_some_and (\<lambda>v. \<not> validate_text v MAX_TRACK_ARTIST_BYTES) (ts_artist track)
      then Inl InvalidArtist
      else if is_some_and (\<lambda>v. \<not> validate_text v MAX_TRACK_ALBUM_BYTES) (ts_album track)
      then Inl InvalidAlbum
      else if is_some_and (\<lambda>d. ts_position_ms track > d) (ts_duration_ms track)
      then Inl InvalidPosition
      else Inr ())"

text \<open>The loop over the current track and the queue, with the identities seen so far.\<close>

fun validate_identities ::
  "uuid list \<Rightarrow> track_snapshot list \<Rightarrow> player_snapshot_validation_error + unit" where
  "validate_identities identities [] = Inr ()"
| "validate_identities identities (track # tracks) =
     (case validate_track track of
        Inl e \<Rightarrow> Inl e
      | Inr _ \<Rightarrow>
          if ts_track_id track \<in> set identities then Inl DuplicateTrackId
          else validate_identities (ts_track_id track # identities) tracks)"

definition option_list :: "'a option \<Rightarrow> 'a list" where
  "option_list x = (case x of None \<Rightarrow> [] | Some v \<Rightarrow> [v])"

definition snapshot_tracks :: "player_snapshot \<Rightarrow> track_snapshot list" where
  "snapshot_tracks s = option_list (ps_current_track s) @ ps_upcoming_tracks s"

definition validate_public_shape ::
  "player_snapshot \<Rightarrow> player_snapshot_validation_error + unit" where
  "validate_public_shape s =
     (if length (ps_upcoming_tracks s) > MAX_SNAPSHOT_QUEUE_ITEMS then Inl QueueTooLarge
      else if unat (ps_queued_tracks s) \<noteq> length (ps_upcoming_tracks s) then Inl QueueCountMismatch
      else validate_identities [] (snapshot_tracks s))"

section \<open>The shape the validation accepts\<close>

definition track_shape :: "track_snapshot \<Rightarrow> bool" where
  "track_shape t \<longleftrightarrow> validate_text (ts_title t) 512 \<and>
     (\<forall>a. ts_artist t = Some a \<longrightarrow> validate_text a 256) \<and>
     (\<forall>a. ts_album t = Some a \<longrightarrow> validate_text a 512) \<and>
     (\<forall>d. ts_duration_ms t = Some d \<longrightarrow> ts_position_ms t \<le> d)"

definition public_shape :: "player_snapshot \<Rightarrow> bool" where
  "public_shape s \<longleftrightarrow> length (ps_upcoming_tracks s) \<le> 100 \<and>
     unat (ps_queued_tracks s) = length (ps_upcoming_tracks s) \<and>
     (\<forall>t \<in> set (snapshot_tracks s). track_shape t) \<and>
     distinct (map ts_track_id (snapshot_tracks s))"

lemma validate_track_ok: "validate_track t = Inr u \<longleftrightarrow> track_shape t"
  by (cases "ts_artist t"; cases "ts_album t"; cases "ts_duration_ms t")
    (auto simp: validate_track_def track_shape_def is_some_and_def MAX_TRACK_TITLE_BYTES_def
      MAX_TRACK_ARTIST_BYTES_def MAX_TRACK_ALBUM_BYTES_def linorder_not_less)

lemma validate_identities_ok:
  "validate_identities seen ts = Inr u \<longleftrightarrow>
     (\<forall>t \<in> set ts. track_shape t) \<and> distinct (map ts_track_id ts) \<and>
     set seen \<inter> ts_track_id ` set ts = {}"
proof (induction seen ts rule: validate_identities.induct)
  case (2 seen t ts)
  show ?case
  proof (cases "validate_track t")
    case (Inl e)
    then have "\<not> track_shape t" using validate_track_ok [of t] by auto
    with Inl show ?thesis by simp
  next
    case (Inr v)
    then have "track_shape t" by (simp add: validate_track_ok)
    with Inr "2.IH" [OF Inr] show ?thesis by auto
  qed
qed simp

lemma validate_public_shape_ok: "validate_public_shape s = Inr u \<longleftrightarrow> public_shape s"
  by (auto simp: validate_public_shape_def public_shape_def validate_identities_ok
      MAX_SNAPSHOT_QUEUE_ITEMS_def)

lemma validate_identities_duplicate:
  assumes "\<forall>t \<in> set ts. track_shape t"
    and "\<not> (distinct (map ts_track_id ts) \<and> set seen \<inter> ts_track_id ` set ts = {})"
  shows "validate_identities seen ts = Inl DuplicateTrackId"
  using assms
proof (induction seen ts rule: validate_identities.induct)
  case (2 seen t ts)
  have "validate_track t = Inr ()" using "2.prems"(1) by (simp add: validate_track_ok)
  then show ?case using "2.IH" [of "()"] "2.prems" by auto
qed simp

end
