(* ===== verification/Core_Command.thy ===== *)
theory Core_Command
  imports Player_Snapshot
begin

text \<open>
  Player commands, their routing envelope and their validation against a snapshot:
  \<open>command.rs\<close>, \<open>command_envelope.rs\<close>, \<open>command_error.rs\<close> and \<open>command_result.rs\<close>
  of \<open>crates/pepeaudio-core\<close>.
\<close>

section \<open>Commands and validation errors\<close>

datatype player_command =
  EnqueueMedia rstring
  | Play
  | Pause
  | Stop
  | Skip
  | Previous
  | RemoveQueued uuid
  | MoveQueued uuid "uuid option"
  | Seek u64
  | SetVolume volume
  | SetRepeat repeat_mode
  | SetShuffle bool
  | SetHrir hrir_preset_id
  | SetSpatialAudio bool
  | Disconnect

datatype command_validation_error =
  InvalidMediaInput
  | GuildMismatch guild_id guild_id
  | DeadlineExpired unix_time_millis unix_time_millis
  | RevisionConflict state_revision state_revision
  | UnavailableInState string player_state
  | NoCurrentTrack string
  | NoPreviousTrack
  | QueuedTrackNotFound uuid
  | TrackNotSeekable
  | SeekPastEnd u64 u64

definition is_upcoming :: "uuid \<Rightarrow> player_snapshot \<Rightarrow> bool" where
  "is_upcoming track_id snapshot \<longleftrightarrow>
     list_ex (\<lambda>track. ts_track_id track = track_id) (ps_upcoming_tracks snapshot)"

fun command_validate_against ::
  "player_command \<Rightarrow> player_snapshot \<Rightarrow> command_validation_error + unit" where
  "command_validate_against (EnqueueMedia input) snapshot =
     (if trim input = [] \<or> str_len input > 4096 \<or> has_control input
      then Inl InvalidMediaInput else Inr ())"
| "command_validate_against Play snapshot =
     (if ps_state snapshot \<noteq> Paused
      then Inl (UnavailableInState ''play'' (ps_state snapshot)) else Inr ())"
| "command_validate_against Pause snapshot =
     (if ps_state snapshot \<noteq> Playing
      then Inl (UnavailableInState ''pause'' (ps_state snapshot)) else Inr ())"
| "command_validate_against Stop snapshot =
     (if ps_state snapshot = Disconnected
      then Inl (UnavailableInState ''stop'' (ps_state snapshot)) else Inr ())"
| "command_validate_against Skip snapshot =
     (if ps_current_track snapshot = None then Inl (NoCurrentTrack ''skip'') else Inr ())"
| "command_validate_against Previous snapshot =
     (if \<not> ps_has_previous_track snapshot then Inl NoPreviousTrack else Inr ())"
| "command_validate_against (RemoveQueued track_id) snapshot =
     (if \<not> is_upcoming track_id snapshot then Inl (QueuedTrackNotFound track_id) else Inr ())"
| "command_validate_against (MoveQueued track_id before_track_id) snapshot =
     (if \<not> is_upcoming track_id snapshot then Inl (QueuedTrackNotFound track_id)
      else case before_track_id of
        None \<Rightarrow> Inr ()
      | Some before \<Rightarrow>
          if \<not> is_upcoming before snapshot then Inl (QueuedTrackNotFound before) else Inr ())"
| "command_validate_against (Seek position_ms) snapshot =
     (case ps_current_track snapshot of
        None \<Rightarrow> Inl (NoCurrentTrack ''seek'')
      | Some track \<Rightarrow>
          if \<not> ts_seekable track then Inl TrackNotSeekable
          else case ts_duration_ms track of
            None \<Rightarrow> Inr ()
          | Some duration_ms \<Rightarrow>
              if position_ms > duration_ms then Inl (SeekPastEnd position_ms duration_ms)
              else Inr ())"
| "command_validate_against (SetVolume volume) snapshot = Inr ()"
| "command_validate_against (SetRepeat mode) snapshot = Inr ()"
| "command_validate_against (SetShuffle enabled) snapshot = Inr ()"
| "command_validate_against (SetHrir preset) snapshot = Inr ()"
| "command_validate_against (SetSpatialAudio enabled) snapshot = Inr ()"
| "command_validate_against Disconnect snapshot = Inr ()"

section \<open>Envelopes\<close>

record command_envelope =
  ce_command_id :: uuid
  ce_idempotency_key :: uuid
  ce_guild_id :: guild_id
  ce_actor_user_id :: "user_id option"
  ce_expected_revision :: state_revision
  ce_deadline :: unix_time_millis
  ce_command :: player_command

text \<open>The two fresh UUIDs are drawn by the caller of \<open>command_envelope_new\<close>.\<close>

definition command_envelope_new ::
  "uuid \<Rightarrow> uuid \<Rightarrow> guild_id \<Rightarrow> user_id option \<Rightarrow> state_revision \<Rightarrow> unix_time_millis \<Rightarrow>
     player_command \<Rightarrow> command_envelope" where
  "command_envelope_new command_id idempotency_key guild actor expected deadline command =
     \<lparr>ce_command_id = command_id, ce_idempotency_key = idempotency_key, ce_guild_id = guild,
      ce_actor_user_id = actor, ce_expected_revision = expected, ce_deadline = deadline,
      ce_command = command\<rparr>"

definition envelope_validate_against ::
  "command_envelope \<Rightarrow> player_snapshot \<Rightarrow> unix_time_millis \<Rightarrow> command_validation_error + unit" where
  "envelope_validate_against envelope snapshot now =
     (if ce_guild_id envelope \<noteq> ps_guild_id snapshot
      then Inl (GuildMismatch (ce_guild_id envelope) (ps_guild_id snapshot))
      else if now \<ge> ce_deadline envelope then Inl (DeadlineExpired (ce_deadline envelope) now)
      else if ce_expected_revision envelope \<noteq> ps_revision snapshot
      then Inl (RevisionConflict (ce_expected_revision envelope) (ps_revision snapshot))
      else command_validate_against (ce_command envelope) snapshot)"

section \<open>Command results\<close>

datatype command_result_code =
  CodeNotAuthorized | CodeRevisionConflict | CodeDeadlineExpired | CodeInvalidPlayerState
  | CodeNoCurrentTrack | CodeNoPreviousTrack | CodeQueuedTrackNotFound | CodeTrackNotSeekable
  | CodeSeekPastEnd | CodeNotConnected | CodeVoiceChannelMismatch | CodeQueueFull
  | CodeDuplicateTrack | CodeInvalidMediaInput | CodeMediaNotFound | CodeMediaUnsupported
  | CodeMediaBusy | CodeMediaFailed | CodeStateExhausted | CodeIdempotencyReplayed
  | CodeResultExpired

datatype command_result_status =
  StatusPending
  | StatusApplied state_revision
  | StatusDenied command_result_code
  | StatusRejected command_result_code "state_revision option"

record command_result =
  cr_command_id :: uuid
  cr_guild_id :: guild_id
  cr_status :: command_result_status

definition result_pending :: "uuid \<Rightarrow> guild_id \<Rightarrow> command_result" where
  "result_pending command_id guild =
     \<lparr>cr_command_id = command_id, cr_guild_id = guild, cr_status = StatusPending\<rparr>"

definition result_applied :: "uuid \<Rightarrow> guild_id \<Rightarrow> state_revision \<Rightarrow> command_result" where
  "result_applied command_id guild resulting_revision =
     \<lparr>cr_command_id = command_id, cr_guild_id = guild, cr_status = StatusApplied resulting_revision\<rparr>"

definition result_denied :: "uuid \<Rightarrow> guild_id \<Rightarrow> command_result_code \<Rightarrow> command_result" where
  "result_denied command_id guild code =
     \<lparr>cr_command_id = command_id, cr_guild_id = guild, cr_status = StatusDenied code\<rparr>"

definition result_rejected ::
  "uuid \<Rightarrow> guild_id \<Rightarrow> command_result_code \<Rightarrow> state_revision option \<Rightarrow> command_result" where
  "result_rejected command_id guild code current_revision =
     \<lparr>cr_command_id = command_id, cr_guild_id = guild,
      cr_status = StatusRejected code current_revision\<rparr>"

definition is_terminal :: "command_result \<Rightarrow> bool" where
  "is_terminal result \<longleftrightarrow> cr_status result \<noteq> StatusPending"

section \<open>What a validated command may rely on\<close>

definition command_ready :: "player_command \<Rightarrow> player_snapshot \<Rightarrow> bool" where
  "command_ready command s = (case command of
     EnqueueMedia input \<Rightarrow> validate_text input 4096
   | Play \<Rightarrow> ps_state s = Paused
   | Pause \<Rightarrow> ps_state s = Playing
   | Stop \<Rightarrow> ps_state s \<noteq> Disconnected
   | Skip \<Rightarrow> ps_current_track s \<noteq> None
   | Previous \<Rightarrow> ps_has_previous_track s
   | RemoveQueued t \<Rightarrow> t \<in> ts_track_id ` set (ps_upcoming_tracks s)
   | MoveQueued t before \<Rightarrow> t \<in> ts_track_id ` set (ps_upcoming_tracks s) \<and>
       (\<forall>b. before = Some b \<longrightarrow> b \<in> ts_track_id ` set (ps_upcoming_tracks s))
   | Seek p \<Rightarrow> (\<exists>t. ps_current_track s = Some t \<and> ts_seekable t \<and>
       (\<forall>d. ts_duration_ms t = Some d \<longrightarrow> p \<le> d))
   | _ \<Rightarrow> True)"

lemma is_upcoming_iff: "is_upcoming t s \<longleftrightarrow> t \<in> ts_track_id ` set (ps_upcoming_tracks s)"
  by (auto simp: is_upcoming_def list_ex_iff)

lemma command_validate_ok: "command_validate_against c s = Inr u \<longleftrightarrow> command_ready c s"
  by (cases c)
    (auto simp: command_ready_def is_upcoming_iff validate_text_def linorder_not_less
      split: option.splits)

lemma envelope_validate_ok:
  "envelope_validate_against e s now = Inr u \<longleftrightarrow>
     ce_guild_id e = ps_guild_id s \<and> now < ce_deadline e \<and>
     ce_expected_revision e = ps_revision s \<and> command_ready (ce_command e) s"
  by (auto simp: envelope_validate_against_def command_validate_ok linorder_not_le)

end
