(* ===== verification/Player_Model.thy ===== *)
theory Player_Model
  imports Core_Command
begin

text \<open>
  The data of one guild player, \<open>crates/pepeaudio-player/src\<close>: display metadata
  (\<open>track_metadata.rs\<close>), limits (\<open>config.rs\<close>), errors (\<open>error.rs\<close>), events and
  generations (\<open>event.rs\<close>), and the model itself (\<open>model.rs\<close>) with its snapshot.
  Instants of the monotonic clock and durations are nanoseconds (\<open>nat\<close>).
\<close>

type_synonym instant = nat
type_synonym duration = nat

section \<open>Display metadata\<close>

record queue_track_metadata =
  md_artist :: "rstring option"
  md_album :: "rstring option"
  md_provenance :: "track_provenance option"

definition metadata_default :: queue_track_metadata where
  "metadata_default = \<lparr>md_artist = None, md_album = None, md_provenance = None\<rparr>"

datatype track_metadata_field = FieldArtist | FieldAlbum

datatype track_metadata_error =
  MetaEmpty track_metadata_field
  | MetaTooLong track_metadata_field
  | MetaControlCharacter track_metadata_field

definition validated_text ::
  "track_metadata_field \<Rightarrow> rstring \<Rightarrow> nat \<Rightarrow> track_metadata_error + rstring" where
  "validated_text field raw maximum_bytes =
     (let value = trim raw in
      if value = [] then Inl (MetaEmpty field)
      else if str_len value > maximum_bytes then Inl (MetaTooLong field)
      else if has_control value then Inl (MetaControlCharacter field)
      else Inr value)"

definition builder_artist ::
  "queue_track_metadata \<Rightarrow> rstring \<Rightarrow> track_metadata_error + queue_track_metadata" where
  "builder_artist metadata value =
     (case validated_text FieldArtist value MAX_TRACK_ARTIST_BYTES of
        Inl e \<Rightarrow> Inl e | Inr text \<Rightarrow> Inr (metadata\<lparr>md_artist := Some text\<rparr>))"

definition builder_album ::
  "queue_track_metadata \<Rightarrow> rstring \<Rightarrow> track_metadata_error + queue_track_metadata" where
  "builder_album metadata value =
     (case validated_text FieldAlbum value MAX_TRACK_ALBUM_BYTES of
        Inl e \<Rightarrow> Inl e | Inr text \<Rightarrow> Inr (metadata\<lparr>md_album := Some text\<rparr>))"

definition builder_provenance :: "queue_track_metadata \<Rightarrow> track_provenance \<Rightarrow> queue_track_metadata" where
  "builder_provenance metadata value = metadata\<lparr>md_provenance := Some value\<rparr>"

text \<open>
  The fields are private, so every metadata value comes out of the builder: this is
  the invariant of the type.
\<close>

definition metadata_wf :: "queue_track_metadata \<Rightarrow> bool" where
  "metadata_wf m \<longleftrightarrow> (\<forall>a. md_artist m = Some a \<longrightarrow> validate_text a 256) \<and>
     (\<forall>a. md_album m = Some a \<longrightarrow> validate_text a 512)"

lemma validated_text_validates:
  "validated_text f raw n = Inr v \<Longrightarrow> v = trim raw \<and> validate_text v n"
  by (auto simp: validated_text_def validate_text_def Let_def trim_trim split: if_splits)

lemma metadata_default_wf [simp]: "metadata_wf metadata_default"
  by (simp add: metadata_wf_def metadata_default_def)

lemma builder_artist_wf: "metadata_wf m \<Longrightarrow> builder_artist m v = Inr m' \<Longrightarrow> metadata_wf m'"
  by (auto simp: builder_artist_def metadata_wf_def MAX_TRACK_ARTIST_BYTES_def
      dest: validated_text_validates split: sum.splits)

lemma builder_album_wf: "metadata_wf m \<Longrightarrow> builder_album m v = Inr m' \<Longrightarrow> metadata_wf m'"
  by (auto simp: builder_album_def metadata_wf_def MAX_TRACK_ALBUM_BYTES_def
      dest: validated_text_validates split: sum.splits)

lemma builder_provenance_wf: "metadata_wf m \<Longrightarrow> metadata_wf (builder_provenance m p)"
  by (simp add: builder_provenance_def metadata_wf_def)

section \<open>Limits\<close>

record player_config =
  command_capacity :: nat
  event_capacity :: nat
  max_queued_tracks :: nat
  idle_timeout :: duration

datatype player_config_error =
  ZeroCapacity string | CapacityTooLarge string nat | ZeroIdleTimeout

definition DEFAULT_IDLE_TIMEOUT :: duration where
  "DEFAULT_IDLE_TIMEOUT = 5 * 60 * 10 ^ 9"

definition non_zero :: "string \<Rightarrow> nat \<Rightarrow> player_config_error + nat" where
  "non_zero name value = (if value = 0 then Inl (ZeroCapacity name) else Inr value)"

definition player_config_new ::
  "nat \<Rightarrow> nat \<Rightarrow> nat \<Rightarrow> duration \<Rightarrow> player_config_error + player_config" where
  "player_config_new command_cap event_cap max_queued timeout =
     (if max_queued > MAX_SNAPSHOT_QUEUE_ITEMS
      then Inl (CapacityTooLarge ''max_queued_tracks'' MAX_SNAPSHOT_QUEUE_ITEMS)
      else case non_zero ''command_capacity'' command_cap of Inl e \<Rightarrow> Inl e | Inr c \<Rightarrow>
        (case non_zero ''event_capacity'' event_cap of Inl e \<Rightarrow> Inl e | Inr ev \<Rightarrow>
          (case non_zero ''max_queued_tracks'' max_queued of Inl e \<Rightarrow> Inl e | Inr m \<Rightarrow>
            if timeout = 0 then Inl ZeroIdleTimeout
            else Inr \<lparr>command_capacity = c, event_capacity = ev, max_queued_tracks = m,
                      idle_timeout = timeout\<rparr>)))"

definition player_config_default :: player_config where
  "player_config_default = \<lparr>command_capacity = 64, event_capacity = 128, max_queued_tracks = 100,
     idle_timeout = DEFAULT_IDLE_TIMEOUT\<rparr>"

definition player_config_wf :: "player_config \<Rightarrow> bool" where
  "player_config_wf c \<longleftrightarrow> 0 < command_capacity c \<and> 0 < event_capacity c \<and>
     0 < max_queued_tracks c \<and> max_queued_tracks c \<le> 100 \<and> 0 < idle_timeout c"

lemma player_config_new_wf: "player_config_new c e m t = Inr cfg \<Longrightarrow> player_config_wf cfg"
  by (auto simp: player_config_new_def player_config_wf_def non_zero_def
      MAX_SNAPSHOT_QUEUE_ITEMS_def split: if_splits)

lemma player_config_default_new:
  "player_config_new 64 128 100 DEFAULT_IDLE_TIMEOUT = Inr player_config_default"
  by (simp add: player_config_new_def player_config_default_def non_zero_def
      MAX_SNAPSHOT_QUEUE_ITEMS_def DEFAULT_IDLE_TIMEOUT_def)

lemma player_config_default_wf [simp]: "player_config_wf player_config_default"
  by (rule player_config_new_wf [OF player_config_default_new])

section \<open>Generations\<close>

datatype playback_generation = PlaybackGeneration (generation_get: u64)

instantiation playback_generation :: linorder
begin

definition less_eq_playback_generation :: "playback_generation \<Rightarrow> playback_generation \<Rightarrow> bool" where
  "less_eq_playback_generation a b \<longleftrightarrow> generation_get a \<le> generation_get b"

definition less_playback_generation :: "playback_generation \<Rightarrow> playback_generation \<Rightarrow> bool" where
  "less_playback_generation a b \<longleftrightarrow> generation_get a < generation_get b"

instance
  by standard (auto simp: less_eq_playback_generation_def less_playback_generation_def
      intro: playback_generation.expand)

end

definition playback_generation_next :: "playback_generation \<Rightarrow> playback_generation option" where
  "playback_generation_next g =
     map_option PlaybackGeneration (checked_add_u64 (generation_get g) 1)"

record playback_identity =
  pi_track_id :: uuid
  pi_generation :: playback_generation

datatype idle_generation = IdleGeneration (idle_generation_get: u64)

definition idle_generation_next :: "idle_generation \<Rightarrow> idle_generation option" where
  "idle_generation_next g = map_option IdleGeneration (checked_add_u64 (idle_generation_get g) 1)"

lemma playback_generation_next_less: "playback_generation_next g = Some g' \<Longrightarrow> g < g'"
  by (auto simp: playback_generation_next_def word_std less_playback_generation_def
      word_less_nat_alt unat_add_u64)

lemma idle_generation_next_neq: "idle_generation_next g = Some g' \<Longrightarrow> g' \<noteq> g"
proof -
  assume "idle_generation_next g = Some g'"
  then have "unat (idle_generation_get g') = Suc (unat (idle_generation_get g))"
    by (auto simp: idle_generation_next_def word_std unat_add_u64)
  then show ?thesis by auto
qed

section \<open>Tracks\<close>

text \<open>
  A playback source is an opaque locator with an optional shared guard, named here by
  the identity of the guarded allocation. Equality compares locators only.
\<close>

record playback_source =
  src_locator :: rstring
  src_lease :: "nat option"

definition playback_source_new :: "rstring \<Rightarrow> playback_source" where
  "playback_source_new locator = \<lparr>src_locator = locator, src_lease = None\<rparr>"

definition playback_source_with_lease :: "rstring \<Rightarrow> nat \<Rightarrow> playback_source" where
  "playback_source_with_lease locator guard = \<lparr>src_locator = locator, src_lease = Some guard\<rparr>"

definition playback_source_eq :: "playback_source \<Rightarrow> playback_source \<Rightarrow> bool" where
  "playback_source_eq a b \<longleftrightarrow> src_locator a = src_locator b"

record queue_track =
  qt_track_id :: uuid
  qt_title :: rstring
  qt_requester_user_id :: "user_id option"
  qt_duration_ms :: "u64 option"
  qt_seekable :: bool
  qt_source :: playback_source
  qt_metadata :: queue_track_metadata

definition queue_track_new ::
  "uuid \<Rightarrow> rstring \<Rightarrow> user_id option \<Rightarrow> u64 option \<Rightarrow> bool \<Rightarrow> playback_source \<Rightarrow> queue_track" where
  "queue_track_new track_id title requester duration_ms seekable source =
     \<lparr>qt_track_id = track_id, qt_title = title, qt_requester_user_id = requester,
      qt_duration_ms = duration_ms, qt_seekable = seekable, qt_source = source,
      qt_metadata = metadata_default\<rparr>"

definition with_metadata :: "queue_track \<Rightarrow> queue_track_metadata \<Rightarrow> queue_track" where
  "with_metadata track metadata = track\<lparr>qt_metadata := metadata\<rparr>"

definition has_valid_public_title :: "queue_track \<Rightarrow> bool" where
  "has_valid_public_title track \<longleftrightarrow> trim (qt_title track) \<noteq> [] \<and>
     str_len (qt_title track) \<le> MAX_TRACK_TITLE_BYTES \<and> \<not> has_control (qt_title track)"

definition queue_track_snapshot :: "queue_track \<Rightarrow> u64 \<Rightarrow> track_snapshot" where
  "queue_track_snapshot track position_ms =
     \<lparr>ts_track_id = qt_track_id track, ts_title = qt_title track,
      ts_artist = md_artist (qt_metadata track), ts_album = md_album (qt_metadata track),
      ts_provenance = md_provenance (qt_metadata track),
      ts_requester_user_id = qt_requester_user_id track, ts_duration_ms = qt_duration_ms track,
      ts_position_ms = position_ms, ts_seekable = qt_seekable track\<rparr>"

section \<open>The active track\<close>

record active_track =
  at_track :: queue_track
  at_generation :: playback_generation
  at_position_ms :: u64
  at_advancing_since :: "instant option"

definition active_playing :: "queue_track \<Rightarrow> playback_generation \<Rightarrow> instant \<Rightarrow> active_track" where
  "active_playing track generation now =
     \<lparr>at_track = track, at_generation = generation, at_position_ms = 0,
      at_advancing_since = Some now\<rparr>"

text \<open>\<open>Instant::elapsed\<close> saturates at zero, as subtraction on \<open>nat\<close> does.\<close>

definition current_position_ms :: "instant \<Rightarrow> active_track \<Rightarrow> u64" where
  "current_position_ms now active =
     (let elapsed = (case at_advancing_since active of
            None \<Rightarrow> 0
          | Some started \<Rightarrow> u64_try_from_or_max ((now - started) div 10 ^ 6));
          position = saturating_add_u64 (at_position_ms active) elapsed
      in case qt_duration_ms (at_track active) of
           None \<Rightarrow> position
         | Some duration_ms \<Rightarrow> min position duration_ms)"

definition active_pause :: "instant \<Rightarrow> active_track \<Rightarrow> active_track" where
  "active_pause now active =
     active\<lparr>at_position_ms := current_position_ms now active, at_advancing_since := None\<rparr>"

definition active_resume :: "instant \<Rightarrow> active_track \<Rightarrow> active_track" where
  "active_resume now active = active\<lparr>at_advancing_since := Some now\<rparr>"

definition active_seek ::
  "u64 \<Rightarrow> bool \<Rightarrow> playback_generation \<Rightarrow> instant \<Rightarrow> active_track \<Rightarrow> active_track" where
  "active_seek position_ms advancing generation now active =
     active\<lparr>at_position_ms := position_ms,
            at_advancing_since := (if advancing then Some now else None),
            at_generation := generation\<rparr>"

definition active_identity :: "active_track \<Rightarrow> playback_identity" where
  "active_identity active =
     \<lparr>pi_track_id = qt_track_id (at_track active), pi_generation = at_generation active\<rparr>"

definition active_snapshot :: "instant \<Rightarrow> active_track \<Rightarrow> track_snapshot" where
  "active_snapshot now active =
     queue_track_snapshot (at_track active) (current_position_ms now active)"

lemma current_position_le_duration:
  "qt_duration_ms (at_track a) = Some d \<Longrightarrow> current_position_ms now a \<le> d"
  by (simp add: current_position_ms_def Let_def)

lemma pause_freezes_position:
  "current_position_ms later (active_pause now a) = current_position_ms now a"
proof -
  have zero: "saturating_add_u64 p 0 = p" for p
    using unat_u64_bound [of p] by (simp add: saturating_add_u64_def)
  show ?thesis
    by (auto simp: active_pause_def current_position_ms_def [of later] zero Let_def min_absorb1
        current_position_le_duration split: option.splits)
qed

section \<open>The player model\<close>

record player_model =
  pm_guild_id :: guild_id
  pm_voice_channel_id :: "channel_id option"
  pm_revision :: state_revision
  pm_state :: player_state
  pm_current :: "active_track option"
  pm_queue :: "queue_track list"
  pm_history :: "queue_track list"
  pm_volume :: volume
  pm_repeat_mode :: repeat_mode
  pm_shuffle_enabled :: bool
  pm_hrir_preset :: "hrir_preset_id option"
  pm_spatial_audio_enabled :: bool

definition player_model_new :: "guild_id \<Rightarrow> state_revision \<Rightarrow> player_model" where
  "player_model_new guild revision =
     \<lparr>pm_guild_id = guild, pm_voice_channel_id = None, pm_revision = revision,
      pm_state = Disconnected, pm_current = None, pm_queue = [], pm_history = [],
      pm_volume = volume_default, pm_repeat_mode = RepeatOff, pm_shuffle_enabled = False,
      pm_hrir_preset = None, pm_spatial_audio_enabled = False\<rparr>"

definition is_idle_connected :: "player_model \<Rightarrow> bool" where
  "is_idle_connected m \<longleftrightarrow> pm_voice_channel_id m \<noteq> None \<and> pm_state m = IdleConnected \<and>
     pm_current m = None \<and> pm_queue m = []"

definition contains_track :: "player_model \<Rightarrow> uuid \<Rightarrow> bool" where
  "contains_track m track_id \<longleftrightarrow>
     is_some_and (\<lambda>active. qt_track_id (at_track active) = track_id) (pm_current m) \<or>
     list_ex (\<lambda>track. qt_track_id track = track_id) (pm_queue m)"

definition model_snapshot :: "instant \<Rightarrow> unix_time_millis \<Rightarrow> player_model \<Rightarrow> player_snapshot" where
  "model_snapshot now observed_at m =
     \<lparr>ps_guild_id = pm_guild_id m, ps_voice_channel_id = pm_voice_channel_id m,
      ps_revision = pm_revision m, ps_state = pm_state m,
      ps_current_track = map_option (active_snapshot now) (pm_current m),
      ps_queued_tracks = u32_try_from_or_max (length (pm_queue m)),
      ps_upcoming_tracks = map (\<lambda>track. queue_track_snapshot track 0) (pm_queue m),
      ps_has_previous_track = (pm_history m \<noteq> []), ps_volume = pm_volume m,
      ps_repeat_mode = pm_repeat_mode m, ps_shuffle_enabled = pm_shuffle_enabled m,
      ps_hrir_preset = pm_hrir_preset m, ps_spatial_audio_enabled = pm_spatial_audio_enabled m,
      ps_observed_at = observed_at\<rparr>"

section \<open>Well-formed models\<close>

definition track_wf :: "queue_track \<Rightarrow> bool" where
  "track_wf t \<longleftrightarrow> has_valid_public_title t \<and> metadata_wf (qt_metadata t)"

definition model_tracks :: "player_model \<Rightarrow> queue_track list" where
  "model_tracks m = map at_track (option_list (pm_current m)) @ pm_queue m"

definition model_track_ids :: "player_model \<Rightarrow> uuid list" where
  "model_track_ids m = map qt_track_id (model_tracks m)"

text \<open>
  The player is disconnected exactly when it has no voice channel; something is
  playing or paused exactly when there is a current track; nothing waits in the queue
  without one. \<open>Loading\<close> is never entered by the actor.
\<close>

definition phase_wf :: "player_model \<Rightarrow> bool" where
  "phase_wf m \<longleftrightarrow>
     (pm_state m = Disconnected \<longleftrightarrow> pm_voice_channel_id m = None) \<and>
     (pm_state m \<in> {Playing, Paused} \<longleftrightarrow> pm_current m \<noteq> None) \<and>
     (pm_current m = None \<longrightarrow> pm_queue m = []) \<and>
     (pm_voice_channel_id m = None \<longrightarrow> pm_history m = []) \<and>
     pm_state m \<noteq> Loading"

definition model_wf :: "player_config \<Rightarrow> player_model \<Rightarrow> bool" where
  "model_wf c m \<longleftrightarrow> phase_wf m \<and>
     length (pm_queue m) \<le> max_queued_tracks c \<and> length (pm_history m) \<le> max_queued_tracks c \<and>
     (\<forall>t \<in> set (model_tracks m) \<union> set (pm_history m). track_wf t) \<and>
     volume_wf (pm_volume m)"

lemma player_model_new_wf [simp]: "model_wf c (player_model_new g r)"
  by (simp add: model_wf_def phase_wf_def player_model_new_def model_tracks_def option_list_def)

lemma option_list_simps [simp]: "option_list None = []" "option_list (Some x) = [x]"
  by (simp_all add: option_list_def)

lemma contains_track_iff: "contains_track m i \<longleftrightarrow> i \<in> set (model_track_ids m)"
  by (cases "pm_current m")
    (auto simp: contains_track_def model_track_ids_def model_tracks_def is_some_and_def list_ex_iff)

lemma has_valid_public_title_iff: "has_valid_public_title t \<longleftrightarrow> validate_text (qt_title t) 512"
  by (simp add: has_valid_public_title_def validate_text_def MAX_TRACK_TITLE_BYTES_def)

lemma track_wf_shape:
  assumes "track_wf t" and "\<And>d. qt_duration_ms t = Some d \<Longrightarrow> p \<le> d"
  shows "track_shape (queue_track_snapshot t p)"
  using assms
  by (auto simp: track_wf_def track_shape_def queue_track_snapshot_def metadata_wf_def
      has_valid_public_title_iff)

lemma snapshot_track_ids:
  "map ts_track_id (snapshot_tracks (model_snapshot now u m)) = model_track_ids m"
  by (cases "pm_current m")
    (auto simp: snapshot_tracks_def model_snapshot_def model_track_ids_def model_tracks_def
      active_snapshot_def queue_track_snapshot_def)

lemma model_wf_track_shapes:
  assumes "model_wf c m"
  shows "\<forall>t \<in> set (snapshot_tracks (model_snapshot now u m)). track_shape t"
proof -
  have wf: "\<And>t. t \<in> set (model_tracks m) \<Longrightarrow> track_wf t" using assms by (simp add: model_wf_def)
  have "track_shape (active_snapshot now a)" if "pm_current m = Some a" for a
    unfolding active_snapshot_def
    by (rule track_wf_shape [OF wf]) (auto simp: that model_tracks_def current_position_le_duration)
  moreover have "track_shape (queue_track_snapshot t 0)" if "t \<in> set (pm_queue m)" for t
    by (rule track_wf_shape [OF wf]) (auto simp: that model_tracks_def)
  ultimately show ?thesis
    by (cases "pm_current m") (auto simp: snapshot_tracks_def model_snapshot_def)
qed

lemma model_snapshot_counts:
  assumes "model_wf c m" and "player_config_wf c"
  shows "length (ps_upcoming_tracks (model_snapshot now u m)) \<le> 100"
    and "unat (ps_queued_tracks (model_snapshot now u m)) =
      length (ps_upcoming_tracks (model_snapshot now u m))"
  using assms by (simp_all add: model_wf_def player_config_wf_def model_snapshot_def unat_u32_try_from)

lemma snapshot_validates_iff:
  assumes "model_wf c m" and "player_config_wf c"
  shows "validate_public_shape (model_snapshot now u m) =
    (if distinct (model_track_ids m) then Inr () else Inl DuplicateTrackId)"
proof (cases "distinct (model_track_ids m)")
  case True
  then show ?thesis
    using model_snapshot_counts [OF assms] model_wf_track_shapes [OF assms(1)]
    by (auto simp: validate_public_shape_ok public_shape_def snapshot_track_ids)
next
  case False
  then have "validate_identities [] (snapshot_tracks (model_snapshot now u m)) = Inl DuplicateTrackId"
    by (intro validate_identities_duplicate model_wf_track_shapes [OF assms(1)])
      (simp add: snapshot_track_ids)
  then show ?thesis
    using False model_snapshot_counts [OF assms, of now u]
    by (simp add: validate_public_shape_def MAX_SNAPSHOT_QUEUE_ITEMS_def)
qed

section \<open>Errors and events\<close>

datatype side_effect =
  EffectConnect | EffectPlay | EffectPause | EffectResume | EffectStop | EffectSeek
  | EffectSetVolume | EffectSetHrir | EffectSetSpatialAudio | EffectDisconnect

datatype player_error =
  ActorStopped
  | RevisionMismatch u64 u64
  | NotConnected
  | VoiceChannelMismatch channel_id channel_id
  | QueueFull nat
  | DuplicateTrack uuid
  | InvalidTrack string
  | InvalidCommand command_validation_error
  | SideEffect side_effect string
  | RevisionExhausted state_revision
  | IdleGenerationExhausted
  | TaskFailed string

record shutdown_report =
  sr_disconnect_error :: "string option"
  sr_final_revision :: state_revision

datatype player_event =
  StateChanged player_snapshot
  | IdleTimerArmed idle_generation duration
  | IdleTimerCancelled idle_generation
  | StaleIdleTimerIgnored idle_generation idle_generation
  | IdleDisconnected idle_generation
  | SnapshotPublicationFailed state_revision string
  | BackgroundSideEffectFailed side_effect string
  | Shutdown shutdown_report

datatype playback_end_reason = Natural | WorkerFailed | SongbirdEnded | SongbirdError

definition is_natural :: "playback_end_reason \<Rightarrow> bool" where
  "is_natural reason \<longleftrightarrow> reason = Natural"

end
