(* ===== verification/Player_Shuffle.thy ===== *)
theory Player_Shuffle
  imports Pepe_Prelude
begin

unbundle bit_operations_syntax

text \<open>
  Deterministic shuffling of a queue, \<open>crates/pepeaudio-player/src/actor/shuffle.rs\<close>:
  the SplitMix64 generator, the Fisher-Yates loop and the random insertion. The
  locale \<open>index_source\<close> is the interface the loop has to its generator; it is
  interpreted on SplitMix64.
\<close>

definition NONZERO_SEED :: u64 where
  "NONZERO_SEED = 0x9e3779b97f4a7c15"

record split_mix_64 =
  sm_state :: u64

definition split_mix_new :: "u64 \<Rightarrow> split_mix_64" where
  "split_mix_new seed = \<lparr>sm_state = seed XOR NONZERO_SEED\<rparr>"

definition split_mix_next :: "split_mix_64 \<Rightarrow> u64 \<times> split_mix_64" where
  "split_mix_next random =
     (let s = sm_state random + NONZERO_SEED;
          v0 = s;
          v1 = (v0 XOR drop_bit 30 v0) * 0xbf58476d1ce4e5b9;
          v2 = (v1 XOR drop_bit 27 v1) * 0x94d049bb133111eb
      in (v2 XOR drop_bit 31 v2, \<lparr>sm_state = s\<rparr>))"

definition split_mix_index :: "split_mix_64 \<Rightarrow> nat \<Rightarrow> nat \<times> split_mix_64" where
  "split_mix_index random upper =
     (let (value, random') = split_mix_next random in (nat (uint value mod int upper), random'))"

text \<open>The loop \<open>for upper in (2..=len).rev()\<close>.\<close>

fun shuffle_from :: "('s \<Rightarrow> nat \<Rightarrow> nat \<times> 's) \<Rightarrow> nat \<Rightarrow> 's \<Rightarrow> 'a list \<Rightarrow> 'a list" where
  "shuffle_from index upper random values =
     (if upper < 2 then values
      else let (i, random') = index random upper
           in shuffle_from index (upper - 1) random' (swap_at (upper - 1) i values))"

declare shuffle_from.simps [simp del]

definition shuffle_queue :: "'a list \<Rightarrow> u64 \<Rightarrow> 'a list" where
  "shuffle_queue queue seed = shuffle_from split_mix_index (length queue) (split_mix_new seed) queue"

definition insert_shuffled :: "'a list \<Rightarrow> 'a \<Rightarrow> u64 \<Rightarrow> 'a list" where
  "insert_shuffled queue value seed =
     (let (i, _) = split_mix_index (split_mix_new seed) (length queue + 1)
      in insert_at i value queue)"

text \<open>\<open>Uuid::as_bytes\<close> is big-endian; \<open>u64::from_le_bytes\<close> reads each half little-endian.\<close>

definition uuid_byte :: "uuid \<Rightarrow> nat \<Rightarrow> u64" where
  "uuid_byte i n = ucast (take_bit 8 (drop_bit (8 * (15 - n)) i))"

definition u64_from_le_bytes :: "u64 list \<Rightarrow> u64" where
  "u64_from_le_bytes bytes = foldr (\<lambda>b acc. b OR push_bit 8 acc) bytes 0"

definition seed_from_uuid :: "uuid \<Rightarrow> u64" where
  "seed_from_uuid i =
     (let low = u64_from_le_bytes (map (uuid_byte i) [0..<8]);
          high = u64_from_le_bytes (map (uuid_byte i) [8..<16])
      in low XOR high)"

section \<open>The loop over any source of indices\<close>

locale index_source =
  fixes index :: "'s \<Rightarrow> nat \<Rightarrow> nat \<times> 's"
  assumes index_less: "0 < upper \<Longrightarrow> fst (index random upper) < upper"
begin

lemma shuffle_from_mset:
  "upper \<le> length xs \<Longrightarrow> mset (shuffle_from index upper random xs) = mset xs"
proof (induction upper arbitrary: random xs rule: less_induct)
  case (less upper)
  show ?case
  proof (cases "upper < 2")
    case True
    then show ?thesis by (simp add: shuffle_from.simps [of _ upper])
  next
    case False
    obtain i random' where i: "index random upper = (i, random')" by (cases "index random upper")
    with False index_less [of upper random] have "i < upper" by simp
    with False less.prems have bounds: "upper - 1 < length xs" "i < length xs" by auto
    have "mset (shuffle_from index (upper - 1) random' (swap_at (upper - 1) i xs)) = mset xs"
      using less.IH [of "upper - 1" "swap_at (upper - 1) i xs"] less.prems False bounds
      by (simp add: deque_simps)
    with False i show ?thesis by (simp add: shuffle_from.simps [of _ upper])
  qed
qed

lemma insert_index_mset:
  "mset (insert_at (fst (index random (length xs + 1))) x xs) = add_mset x (mset xs)"
  by (simp add: deque_simps)

lemma insert_index_in_bounds: "fst (index random (length xs + 1)) \<le> length xs"
  using index_less [of "length xs + 1" random] by simp

end

section \<open>SplitMix64 is such a source\<close>

lemma split_mix_index_less: "0 < upper \<Longrightarrow> fst (split_mix_index random upper) < upper"
  by (simp add: split_mix_index_def nat_less_iff split: prod.split)

interpretation splitmix: index_source split_mix_index
  by unfold_locales (rule split_mix_index_less)

lemma mset_shuffle_queue: "mset (shuffle_queue queue seed) = mset queue"
  by (simp add: shuffle_queue_def splitmix.shuffle_from_mset)

lemma mset_insert_shuffled: "mset (insert_shuffled queue value seed) = add_mset value (mset queue)"
  by (simp add: insert_shuffled_def deque_simps split: prod.split)

lemma shuffle_queue_set [simp]: "set (shuffle_queue queue seed) = set queue"
  using arg_cong [OF mset_shuffle_queue, of set_mset] by simp

lemma shuffle_queue_length [simp]: "length (shuffle_queue queue seed) = length queue"
  using mset_shuffle_queue mset_eq_length by blast

lemma shuffle_queue_distinct_map [simp]:
  "distinct (map f (shuffle_queue queue seed)) \<longleftrightarrow> distinct (map f queue)"
  by (rule mset_eq_imp_distinct_iff) (simp add: mset_shuffle_queue)

lemma insert_shuffled_set [simp]: "set (insert_shuffled queue value seed) = insert value (set queue)"
  using arg_cong [OF mset_insert_shuffled, of set_mset] by simp

lemma insert_shuffled_length [simp]: "length (insert_shuffled queue value seed) = Suc (length queue)"
  using arg_cong [OF mset_insert_shuffled, of size] by simp

lemma insert_shuffled_distinct_map:
  "distinct (map f (insert_shuffled queue value seed)) \<longleftrightarrow>
     f value \<notin> f ` set queue \<and> distinct (map f queue)"
proof -
  have "mset (map f (insert_shuffled queue value seed)) = mset (f value # map f queue)"
    by (simp add: mset_insert_shuffled)
  then have "distinct (map f (insert_shuffled queue value seed)) \<longleftrightarrow> distinct (f value # map f queue)"
    by (rule mset_eq_imp_distinct_iff)
  then show ?thesis by simp
qed

text \<open>The insertion never leaves the bounds in which \<open>VecDeque::insert\<close> would panic.\<close>

lemma insert_shuffled_splits:
  "\<exists>front back. queue = front @ back \<and> insert_shuffled queue value seed = front @ value # back"
  by (metis append_take_drop_id case_prod_beta insert_at_def insert_shuffled_def)

end
