(* ===== verification/Player_Actor.thy ===== *)
theory Player_Actor
  imports Player_Model Player_Shuffle
begin

text \<open>
  The state of the guild actor and the steps all its handlers share:
  \<open>crates/pepeaudio-player/src/actor/runtime.rs\<close> (the actor's fields),
  \<open>actor/state.rs\<close> (revisions, publication, idle reconciliation) and \<open>timer.rs\<close>.

  The actor is generic in the source over a playback port and a snapshot publisher
  (\<open>ports.rs\<close>). Here both, and the two clocks, are the functions of an environment
  \<open>'w env\<close> over a world of type \<open>'w\<close>; a port call returns \<open>None\<close> for success and
  the displayed message of its error otherwise. The clocks are observations of the
  world, which changes at every awaited call. A broadcast event is appended to the
  log \<open>a_events\<close>; \<open>send\<close> never fails the sender in the source either, its result
  is discarded everywhere.
\<close>

section \<open>Ports\<close>

datatype port_call =
  PortConnect channel_id
  | PortPlay queue_track playback_generation
  | PortPause
  | PortResume
  | PortStop
  | PortSeek u64 playback_generation
  | PortSetVolume volume
  | PortSetHrir hrir_preset_id
  | PortSetSpatialAudio bool
  | PortDisconnect

record 'w env =
  env_port :: "port_call \<Rightarrow> 'w \<Rightarrow> string option \<times> 'w"
  env_publish :: "player_snapshot \<Rightarrow> 'w \<Rightarrow> string option \<times> 'w"
  env_instant :: "'w \<Rightarrow> instant"
  env_system_time :: "'w \<Rightarrow> int"
  env_sleep :: "duration \<Rightarrow> 'w \<Rightarrow> 'w"

section \<open>The idle timer\<close>

text \<open>The spawned task is the generation it will report and the instant it fires at.\<close>

record idle_timer =
  it_generation :: idle_generation
  it_task :: "(idle_generation \<times> instant) option"
  it_active :: bool

definition idle_timer_new :: idle_timer where
  "idle_timer_new = \<lparr>it_generation = IdleGeneration 0, it_task = None, it_active = False\<rparr>"

definition timer_invalidate :: "idle_timer \<Rightarrow> (player_error + unit) \<times> idle_timer" where
  "timer_invalidate timer =
     (let stopped = timer\<lparr>it_task := None, it_active := False\<rparr>
      in case idle_generation_next (it_generation stopped) of
           None \<Rightarrow> (Inl IdleGenerationExhausted, stopped)
         | Some g \<Rightarrow> (Inr (), stopped\<lparr>it_generation := g\<rparr>))"

definition timer_arm ::
  "duration \<Rightarrow> instant \<Rightarrow> idle_timer \<Rightarrow> (player_error + idle_generation) \<times> idle_timer" where
  "timer_arm timeout now timer =
     (case timer_invalidate timer of
        (Inl e, t) \<Rightarrow> (Inl e, t)
      | (Inr _, t) \<Rightarrow>
          (Inr (it_generation t),
           t\<lparr>it_active := True, it_task := Some (it_generation t, now + timeout)\<rparr>))"

definition timer_cancel :: "idle_timer \<Rightarrow> (player_error + idle_generation) \<times> idle_timer" where
  "timer_cancel timer =
     (case timer_invalidate timer of
        (Inl e, t) \<Rightarrow> (Inl e, t)
      | (Inr _, t) \<Rightarrow> (Inr (it_generation t), t))"

definition timer_mark_fired :: "idle_generation \<Rightarrow> idle_timer \<Rightarrow> idle_timer" where
  "timer_mark_fired generation timer =
     (if generation = it_generation timer then timer\<lparr>it_task := None, it_active := False\<rparr>
      else timer)"

section \<open>The actor\<close>

record 'w actor =
  a_model :: player_model
  a_world :: 'w
  a_config :: player_config
  a_timers :: "idle_generation list"
  a_idle_timer :: idle_timer
  a_events :: "player_event list"
  a_recent_idempotency :: "uuid list"
  a_playback_generation :: playback_generation

text \<open>An operation fails with a player error, or panics where the source calls \<open>expect\<close>.\<close>

datatype fault = Failed player_error | Panicked

type_synonym ('w, 'a) operation = "'w actor \<Rightarrow> (fault + 'a) \<times> 'w actor"

definition actor_new :: "guild_id \<Rightarrow> state_revision \<Rightarrow> 'w \<Rightarrow> player_config \<Rightarrow> 'w actor" where
  "actor_new guild revision world config =
     \<lparr>a_model = player_model_new guild revision, a_world = world, a_config = config,
      a_timers = [], a_idle_timer = idle_timer_new, a_events = [], a_recent_idempotency = [],
      a_playback_generation = PlaybackGeneration 0\<rparr>"

definition emit :: "player_event \<Rightarrow> 'w actor \<Rightarrow> 'w actor" where
  "emit event s = s\<lparr>a_events := a_events s @ [event]\<rparr>"

definition update_model :: "(player_model \<Rightarrow> player_model) \<Rightarrow> 'w actor \<Rightarrow> 'w actor" where
  "update_model f s = s\<lparr>a_model := f (a_model s)\<rparr>"

definition instant_now :: "'w env \<Rightarrow> 'w actor \<Rightarrow> instant" where
  "instant_now env s = env_instant env (a_world s)"

text \<open>The system time is nanoseconds since the Unix epoch, negative before it.\<close>

definition unix_now :: "'w env \<Rightarrow> 'w actor \<Rightarrow> unix_time_millis" where
  "unix_now env s =
     (let elapsed = nat (max 0 (env_system_time env (a_world s)))
      in UnixTimeMillis (u64_try_from_or_max (elapsed div 10 ^ 6)))"

definition fail :: "player_error \<Rightarrow> ('w, 'a) operation" where
  "fail e s = (Inl (Failed e), s)"

definition ask_port :: "'w env \<Rightarrow> port_call \<Rightarrow> 'w actor \<Rightarrow> string option \<times> 'w actor" where
  "ask_port env call s =
     (case env_port env call (a_world s) of (r, w) \<Rightarrow> (r, s\<lparr>a_world := w\<rparr>))"

definition call_port :: "'w env \<Rightarrow> side_effect \<Rightarrow> port_call \<Rightarrow> ('w, unit) operation" where
  "call_port env effect call s =
     (case ask_port env call s of
        (None, t) \<Rightarrow> (Inr (), t)
      | (Some message, t) \<Rightarrow> (Inl (Failed (SideEffect effect message)), t))"

definition next_playback_generation :: "('w, playback_generation) operation" where
  "next_playback_generation s =
     (case playback_generation_next (a_playback_generation s) of
        None \<Rightarrow> (Inl (Failed (TaskFailed ''playback generation is exhausted'')), s)
      | Some g \<Rightarrow> (Inr g, s\<lparr>a_playback_generation := g\<rparr>))"

section \<open>Shared steps of the handlers\<close>

definition current_snapshot :: "'w env \<Rightarrow> 'w actor \<Rightarrow> player_snapshot" where
  "current_snapshot env s = model_snapshot (instant_now env s) (unix_now env s) (a_model s)"

definition check_revision :: "state_revision \<Rightarrow> ('w, unit) operation" where
  "check_revision expected s =
     (if expected = pm_revision (a_model s) then (Inr (), s)
      else (Inl (Failed (RevisionMismatch (revision_get expected)
              (revision_get (pm_revision (a_model s))))), s))"

definition next_revision :: "('w, state_revision) operation" where
  "next_revision s =
     (case checked_next (pm_revision (a_model s)) of
        None \<Rightarrow> (Inl (Failed (RevisionExhausted (pm_revision (a_model s)))), s)
      | Some r \<Rightarrow> (Inr r, s))"

definition publish :: "'w env \<Rightarrow> player_snapshot \<Rightarrow> 'w actor \<Rightarrow> 'w actor" where
  "publish env snapshot s =
     (let s1 = emit (StateChanged snapshot) s
      in case env_publish env snapshot (a_world s1) of
           (None, w) \<Rightarrow> s1\<lparr>a_world := w\<rparr>
         | (Some message, w) \<Rightarrow>
             emit (SnapshotPublicationFailed (ps_revision snapshot) message) (s1\<lparr>a_world := w\<rparr>))"

definition arm_idle_timer :: "'w env \<Rightarrow> ('w, unit) operation" where
  "arm_idle_timer env s =
     (case timer_arm (idle_timeout (a_config s)) (instant_now env s) (a_idle_timer s) of
        (Inl e, timer) \<Rightarrow> (Inl (Failed e), s\<lparr>a_idle_timer := timer\<rparr>)
      | (Inr generation, timer) \<Rightarrow>
          (Inr (), emit (IdleTimerArmed generation (idle_timeout (a_config s)))
                     (s\<lparr>a_idle_timer := timer\<rparr>)))"

definition cancel_idle_timer :: "('w, unit) operation" where
  "cancel_idle_timer s =
     (case timer_cancel (a_idle_timer s) of
        (Inl e, timer) \<Rightarrow> (Inl (Failed e), s\<lparr>a_idle_timer := timer\<rparr>)
      | (Inr generation, timer) \<Rightarrow>
          (Inr (), emit (IdleTimerCancelled generation) (s\<lparr>a_idle_timer := timer\<rparr>)))"

definition reconcile_idle :: "'w env \<Rightarrow> bool \<Rightarrow> ('w, unit) operation" where
  "reconcile_idle env was_idle s =
     (let is_idle = is_idle_connected (a_model s)
      in if \<not> was_idle \<and> is_idle then arm_idle_timer env s
         else if was_idle \<and> \<not> is_idle \<and> it_active (a_idle_timer s) then cancel_idle_timer s
         else (Inr (), s))"

definition finish_change ::
  "'w env \<Rightarrow> bool \<Rightarrow> state_revision \<Rightarrow> ('w, player_snapshot) operation" where
  "finish_change env was_idle next s =
     attempt (reconcile_idle env was_idle)
       (\<lambda>_ u. let snapshot = current_snapshot env u in (Inr snapshot, publish env snapshot u))
       (update_model (\<lambda>m. m\<lparr>pm_revision := next\<rparr>) s)"

section \<open>Frames of the shared steps\<close>

text \<open>The revisions of the published snapshots, oldest first.\<close>

fun published_revision :: "player_event \<Rightarrow> state_revision list" where
  "published_revision (StateChanged snapshot) = [ps_revision snapshot]"
| "published_revision _ = []"

definition published_revisions :: "'w actor \<Rightarrow> state_revision list" where
  "published_revisions s = concat (map published_revision (a_events s))"

lemma published_emit: "published_revisions (emit e s) = published_revisions s @ published_revision e"
  by (simp add: published_revisions_def emit_def)

text \<open>
  \<open>same_shell s t\<close>: nothing but the model, the world, the playback generation and
  unpublished events differ between \<open>s\<close> and \<open>t\<close>.
\<close>

definition same_shell :: "'w actor \<Rightarrow> 'w actor \<Rightarrow> bool" where
  "same_shell s t \<longleftrightarrow> a_config t = a_config s \<and> a_timers t = a_timers s \<and>
     a_idle_timer t = a_idle_timer s \<and> a_recent_idempotency t = a_recent_idempotency s \<and>
     published_revisions t = published_revisions s"

lemma same_shell_refl [simp]: "same_shell s s"
  by (simp add: same_shell_def)

lemma same_shell_trans: "same_shell s t \<Longrightarrow> same_shell t u \<Longrightarrow> same_shell s u"
  by (simp add: same_shell_def)

lemma same_shell_world [simp]: "same_shell s (t\<lparr>a_world := w\<rparr>) = same_shell s t"
  by (simp add: same_shell_def published_revisions_def)

lemma same_shell_model [simp]: "same_shell s (t\<lparr>a_model := m\<rparr>) = same_shell s t"
  by (simp add: same_shell_def published_revisions_def)

lemma same_shell_generation [simp]: "same_shell s (t\<lparr>a_playback_generation := g\<rparr>) = same_shell s t"
  by (simp add: same_shell_def published_revisions_def)

lemma same_shell_emit [simp]: "published_revision e = [] \<Longrightarrow> same_shell s (emit e t) = same_shell s t"
  by (simp add: same_shell_def published_emit) (simp add: emit_def)

lemma emit_model [simp]: "a_model (emit e s) = a_model s"
  by (simp add: emit_def)

lemma update_model_simps [simp]:
  "a_model (update_model f s) = f (a_model s)" "same_shell s (update_model f t) = same_shell s t"
  by (simp_all add: update_model_def)

lemma ask_port_frame: "ask_port env c s = (r, t) \<Longrightarrow> a_model t = a_model s \<and> same_shell s t"
  by (auto simp: ask_port_def split: prod.splits)

lemma call_port_frame: "call_port env e c s = (r, t) \<Longrightarrow> a_model t = a_model s \<and> same_shell s t"
  by (auto simp: call_port_def dest: ask_port_frame split: prod.splits option.splits)

lemma call_port_fault: "call_port env e c s = (Inl x, t) \<Longrightarrow> \<exists>msg. x = Failed (SideEffect e msg)"
  by (auto simp: call_port_def split: prod.splits option.splits)

lemma next_playback_generation_frame:
  "next_playback_generation s = (r, t) \<Longrightarrow> a_model t = a_model s \<and> same_shell s t"
  by (auto simp: next_playback_generation_def split: option.splits)

lemma next_playback_generation_fault:
  "next_playback_generation s = (Inl x, t) \<Longrightarrow> \<exists>msg. x = Failed (TaskFailed msg)"
  by (auto simp: next_playback_generation_def split: option.splits)

lemma check_revision_Inr: "check_revision x s = (Inr u, t) \<longleftrightarrow> x = pm_revision (a_model s) \<and> t = s"
  by (auto simp: check_revision_def)

lemma check_revision_Inl:
  "check_revision x s = (Inl e, t) \<longleftrightarrow> x \<noteq> pm_revision (a_model s) \<and> t = s \<and>
     e = Failed (RevisionMismatch (revision_get x) (revision_get (pm_revision (a_model s))))"
  by (auto simp: check_revision_def)

lemma next_revision_Inr:
  "next_revision s = (Inr r, t) \<longleftrightarrow> checked_next (pm_revision (a_model s)) = Some r \<and> t = s"
  by (auto simp: next_revision_def split: option.splits)

lemma next_revision_Inl:
  "next_revision s = (Inl e, t) \<longleftrightarrow> checked_next (pm_revision (a_model s)) = None \<and> t = s \<and>
     e = Failed (RevisionExhausted (pm_revision (a_model s)))"
  by (auto simp: next_revision_def split: option.splits)

lemma publish_frame:
  "a_model (publish env snap s) = a_model s" "a_config (publish env snap s) = a_config s"
  "a_idle_timer (publish env snap s) = a_idle_timer s" "a_timers (publish env snap s) = a_timers s"
  "a_recent_idempotency (publish env snap s) = a_recent_idempotency s"
  "a_playback_generation (publish env snap s) = a_playback_generation s"
  "published_revisions (publish env snap s) = published_revisions s @ [ps_revision snap]"
  by (auto simp: publish_def emit_def published_revisions_def Let_def split: prod.splits option.splits)

end
