(* ===== verification/Player_Operations.thy ===== *)
theory Player_Operations
  imports Player_Actor
begin

text \<open>
  The operations of the actor, each handler with every port call and every change of
  state in the order of the source: \<open>actor/queue.rs\<close>, \<open>actor/commands.rs\<close>,
  \<open>actor/playback_end.rs\<close>, \<open>actor/voice_state.rs\<close> and the idle and shutdown
  handlers of \<open>actor/state.rs\<close> (all under \<open>crates/pepeaudio-player/src\<close>).
\<close>

section \<open>Voice connection and queue\<close>

definition initialize_connection :: "'w env \<Rightarrow> ('w, unit) operation" where
  "initialize_connection env =
     attempt (\<lambda>s. call_port env EffectSetVolume (PortSetVolume (pm_volume (a_model s))) s) (\<lambda>_.
     attempt (\<lambda>s. case pm_hrir_preset (a_model s) of
                None \<Rightarrow> (Inr (), s)
              | Some preset \<Rightarrow> call_port env EffectSetHrir (PortSetHrir preset) s) (\<lambda>_ s.
     call_port env EffectSetSpatialAudio
       (PortSetSpatialAudio (pm_spatial_audio_enabled (a_model s))) s))"

definition connect ::
  "'w env \<Rightarrow> channel_id \<Rightarrow> state_revision \<Rightarrow> ('w, player_snapshot) operation" where
  "connect env channel expected =
     attempt (check_revision expected) (\<lambda>_ s.
       case pm_voice_channel_id (a_model s) of
         Some connected \<Rightarrow>
           if connected = channel then (Inr (current_snapshot env s), s)
           else fail (VoiceChannelMismatch connected channel) s
       | None \<Rightarrow>
           attempt next_revision (\<lambda>next.
           attempt (call_port env EffectConnect (PortConnect channel)) (\<lambda>_ s.
             case initialize_connection env s of
               (Inl e, t) \<Rightarrow> (Inl e, snd (ask_port env PortDisconnect t))
             | (Inr _, t) \<Rightarrow>
                 let was_idle = is_idle_connected (a_model t)
                 in finish_change env was_idle next
                      (update_model (\<lambda>m. m\<lparr>pm_voice_channel_id := Some channel,
                                           pm_state := IdleConnected\<rparr>) t))) s)"

text \<open>Adding a track behind the current one: at a random place when shuffling.\<close>

definition queue_add :: "queue_track \<Rightarrow> player_model \<Rightarrow> player_model" where
  "queue_add track m =
     (if pm_shuffle_enabled m
      then m\<lparr>pm_queue := insert_shuffled (pm_queue m) track (seed_from_uuid (qt_track_id track))\<rparr>
      else m\<lparr>pm_queue := pm_queue m @ [track]\<rparr>)"

definition start_playing ::
  "'w env \<Rightarrow> queue_track \<Rightarrow> ('w, unit) operation" where
  "start_playing env track =
     attempt next_playback_generation (\<lambda>generation.
     attempt (call_port env EffectPlay (PortPlay track generation)) (\<lambda>_ s.
       (Inr (), update_model (\<lambda>m. m\<lparr>pm_current := Some (active_playing track generation (instant_now env s)),
                                    pm_state := Playing\<rparr>) s)))"

definition enqueue ::
  "'w env \<Rightarrow> queue_track \<Rightarrow> state_revision \<Rightarrow> ('w, player_snapshot) operation" where
  "enqueue env track expected =
     attempt (check_revision expected) (\<lambda>_ s.
       if pm_voice_channel_id (a_model s) = None then fail NotConnected s
       else if \<not> has_valid_public_title track then fail (InvalidTrack ''title'') s
       else if contains_track (a_model s) (qt_track_id track)
       then fail (DuplicateTrack (qt_track_id track)) s
       else if pm_current (a_model s) \<noteq> None \<and>
               max_queued_tracks (a_config s) \<le> length (pm_queue (a_model s))
       then fail (QueueFull (max_queued_tracks (a_config s))) s
       else attempt next_revision (\<lambda>next s.
         let was_idle = is_idle_connected (a_model s)
         in if pm_current (a_model s) = None
            then attempt (start_playing env track) (\<lambda>_. finish_change env was_idle next) s
            else finish_change env was_idle next (update_model (queue_add track) s)) s)"

text \<open>The validation loop of a batch, with the identities seen so far.\<close>

fun check_batch :: "player_model \<Rightarrow> uuid list \<Rightarrow> queue_track list \<Rightarrow> player_error + unit" where
  "check_batch m identities [] = Inr ()"
| "check_batch m identities (track # tracks) =
     (if \<not> has_valid_public_title track then Inl (InvalidTrack ''title'')
      else if contains_track m (qt_track_id track) \<or> qt_track_id track \<in> set identities
      then Inl (DuplicateTrack (qt_track_id track))
      else check_batch m (qt_track_id track # identities) tracks)"

definition enqueue_batch ::
  "'w env \<Rightarrow> queue_track list \<Rightarrow> state_revision \<Rightarrow> ('w, player_snapshot) operation" where
  "enqueue_batch env tracks expected =
     attempt (check_revision expected) (\<lambda>_ s.
       if tracks = [] then (Inr (current_snapshot env s), s)
       else if pm_voice_channel_id (a_model s) = None then fail NotConnected s
       else
         let starts_immediately = (pm_current (a_model s) = None);
             additional_queued = length tracks - (if starts_immediately then 1 else 0);
             total = length (pm_queue (a_model s)) + additional_queued
         in if \<not> total < 2 ^ 64 \<or> total > max_queued_tracks (a_config s)
            then fail (QueueFull (max_queued_tracks (a_config s))) s
            else case check_batch (a_model s) [] tracks of
              Inl e \<Rightarrow> fail e s
            | Inr _ \<Rightarrow> attempt next_revision (\<lambda>next s.
                let was_idle = is_idle_connected (a_model s)
                in if starts_immediately
                   then attempt (start_playing env (hd tracks)) (\<lambda>_ u.
                          finish_change env was_idle next
                            (update_model (fold queue_add (tl tracks)) u)) s
                   else finish_change env was_idle next
                          (update_model (fold queue_add tracks) s)) s)"

definition remove_queued :: "'w env \<Rightarrow> uuid \<Rightarrow> ('w, player_snapshot) operation" where
  "remove_queued env track_id s =
     (case position (\<lambda>track. qt_track_id track = track_id) (pm_queue (a_model s)) of
        None \<Rightarrow> fail (InvalidCommand (QueuedTrackNotFound track_id)) s
      | Some i \<Rightarrow> attempt next_revision (\<lambda>next s.
          let was_idle = is_idle_connected (a_model s)
          in finish_change env was_idle next
               (update_model (\<lambda>m. m\<lparr>pm_queue := remove_at i (pm_queue m)\<rparr>) s)) s)"

definition move_destination ::
  "queue_track list \<Rightarrow> uuid \<Rightarrow> uuid option \<Rightarrow> nat \<Rightarrow> player_error + nat" where
  "move_destination queue track_id before_track_id source_index =
     (case before_track_id of
        None \<Rightarrow> Inr (length queue - 1)
      | Some before \<Rightarrow>
          if before = track_id then Inr source_index
          else case position (\<lambda>track. qt_track_id track = before) queue of
            None \<Rightarrow> Inl (InvalidCommand (QueuedTrackNotFound before))
          | Some target_index \<Rightarrow>
              Inr (if target_index > source_index then target_index - 1 else target_index))"

definition move_queued :: "'w env \<Rightarrow> uuid \<Rightarrow> uuid option \<Rightarrow> ('w, player_snapshot) operation" where
  "move_queued env track_id before_track_id s =
     (case position (\<lambda>track. qt_track_id track = track_id) (pm_queue (a_model s)) of
        None \<Rightarrow> fail (InvalidCommand (QueuedTrackNotFound track_id)) s
      | Some source_index \<Rightarrow>
          (case move_destination (pm_queue (a_model s)) track_id before_track_id source_index of
             Inl e \<Rightarrow> fail e s
           | Inr destination_index \<Rightarrow>
               if destination_index = source_index then (Inr (current_snapshot env s), s)
               else attempt next_revision (\<lambda>next s.
                 let was_idle = is_idle_connected (a_model s)
                 in finish_change env was_idle next
                      (update_model (\<lambda>m. m\<lparr>pm_queue :=
                          insert_at destination_index (pm_queue m ! source_index)
                            (remove_at source_index (pm_queue m))\<rparr>) s)) s))"

section \<open>Commands\<close>

definition resume :: "'w env \<Rightarrow> ('w, player_snapshot) operation" where
  "resume env =
     attempt next_revision (\<lambda>next.
     attempt (call_port env EffectResume PortResume) (\<lambda>_ s.
       let was_idle = is_idle_connected (a_model s)
       in case pm_current (a_model s) of
            None \<Rightarrow> (Inl Panicked, s)
          | Some active \<Rightarrow> finish_change env was_idle next
              (update_model (\<lambda>m. m\<lparr>pm_current := Some (active_resume (instant_now env s) active),
                                   pm_state := Playing\<rparr>) s)))"

definition pause :: "'w env \<Rightarrow> ('w, player_snapshot) operation" where
  "pause env =
     attempt next_revision (\<lambda>next.
     attempt (call_port env EffectPause PortPause) (\<lambda>_ s.
       let was_idle = is_idle_connected (a_model s)
       in case pm_current (a_model s) of
            None \<Rightarrow> (Inl Panicked, s)
          | Some active \<Rightarrow> finish_change env was_idle next
              (update_model (\<lambda>m. m\<lparr>pm_current := Some (active_pause (instant_now env s) active),
                                   pm_state := Paused\<rparr>) s)))"

definition stop :: "'w env \<Rightarrow> ('w, player_snapshot) operation" where
  "stop env s =
     (let needs_change = pm_current (a_model s) \<noteq> None \<or> pm_queue (a_model s) \<noteq> [] \<or>
            pm_history (a_model s) \<noteq> []
      in if \<not> needs_change then (Inr (current_snapshot env s), s)
         else attempt next_revision (\<lambda>next.
           attempt (\<lambda>s. if pm_current (a_model s) \<noteq> None
                        then call_port env EffectStop PortStop s else (Inr (), s)) (\<lambda>_ s.
             let was_idle = is_idle_connected (a_model s)
             in finish_change env was_idle next
                  (update_model (\<lambda>m. m\<lparr>pm_current := None, pm_queue := [], pm_history := [],
                                       pm_state := IdleConnected\<rparr>) s))) s)"

definition push_history :: "queue_track \<Rightarrow> 'w actor \<Rightarrow> 'w actor" where
  "push_history track s =
     update_model (\<lambda>m.
       let kept = (if length (pm_history m) = max_queued_tracks (a_config s)
                   then drop 1 (pm_history m) else pm_history m)
       in m\<lparr>pm_history := kept @ [track]\<rparr>) s"

definition skip :: "'w env \<Rightarrow> ('w, player_snapshot) operation" where
  "skip env =
     attempt next_revision (\<lambda>next.
     attempt (\<lambda>s. case pm_queue (a_model s) of
          track # _ \<Rightarrow>
            attempt next_playback_generation (\<lambda>generation.
            attempt (call_port env EffectPlay (PortPlay track generation)) (\<lambda>_ s.
              (Inr (Some generation), s))) s
        | [] \<Rightarrow> attempt (call_port env EffectStop PortStop) (\<lambda>_ s. (Inr None, s)) s)
       (\<lambda>replacement_generation s.
          let was_idle = is_idle_connected (a_model s);
              s1 = (case pm_current (a_model s) of
                      None \<Rightarrow> s
                    | Some current \<Rightarrow>
                        push_history (at_track current) (update_model (\<lambda>m. m\<lparr>pm_current := None\<rparr>) s));
              current = (case (pm_queue (a_model s1), replacement_generation) of
                           (track # _, Some generation) \<Rightarrow>
                             Some (active_playing track generation (instant_now env s1))
                         | _ \<Rightarrow> None)
          in finish_change env was_idle next
               (update_model (\<lambda>m. m\<lparr>pm_current := current, pm_queue := drop 1 (pm_queue m),
                                    pm_state := (if current = None then IdleConnected else Playing)\<rparr>)
                  s1)))"

definition previous :: "'w env \<Rightarrow> ('w, player_snapshot) operation" where
  "previous env s =
     (if pm_history (a_model s) = [] then (Inl Panicked, s)
      else
        let previous_track = last (pm_history (a_model s));
            queued_previous = position (\<lambda>track. qt_track_id track = qt_track_id previous_track)
                                (pm_queue (a_model s));
            resulting_queue_len = length (pm_queue (a_model s))
              - (if queued_previous \<noteq> None then 1 else 0)
              + (if pm_current (a_model s) \<noteq> None then 1 else 0)
        in if resulting_queue_len > max_queued_tracks (a_config s)
           then fail (QueueFull (max_queued_tracks (a_config s))) s
           else attempt next_revision (\<lambda>next.
             attempt next_playback_generation (\<lambda>generation.
             attempt (call_port env EffectPlay (PortPlay previous_track generation)) (\<lambda>_ s.
               let was_idle = is_idle_connected (a_model s);
                   update = (\<lambda>m.
                     let without = (case queued_previous of
                           None \<Rightarrow> pm_queue m | Some i \<Rightarrow> remove_at i (pm_queue m));
                         queue = (case pm_current m of
                           None \<Rightarrow> without | Some current \<Rightarrow> at_track current # without)
                     in m\<lparr>pm_history := butlast (pm_history m), pm_queue := queue,
                          pm_current := Some (active_playing previous_track generation (instant_now env s)),
                          pm_state := Playing\<rparr>)
               in finish_change env was_idle next (update_model update s)))) s)"

definition seek :: "'w env \<Rightarrow> u64 \<Rightarrow> ('w, player_snapshot) operation" where
  "seek env position_ms =
     attempt next_revision (\<lambda>next.
     attempt next_playback_generation (\<lambda>generation.
     attempt (call_port env EffectSeek (PortSeek position_ms generation)) (\<lambda>_ s.
       let was_idle = is_idle_connected (a_model s);
           advancing = (pm_state (a_model s) = Playing)
       in case pm_current (a_model s) of
            None \<Rightarrow> (Inl Panicked, s)
          | Some active \<Rightarrow> finish_change env was_idle next
              (update_model (\<lambda>m. m\<lparr>pm_current :=
                  Some (active_seek position_ms advancing generation (instant_now env s) active)\<rparr>) s))))"

text \<open>A setting that reaches the adapter only while connected.\<close>

definition when_connected :: "'w env \<Rightarrow> side_effect \<Rightarrow> port_call \<Rightarrow> ('w, unit) operation" where
  "when_connected env effect call s =
     (if pm_voice_channel_id (a_model s) \<noteq> None then call_port env effect call s else (Inr (), s))"

definition set_volume :: "'w env \<Rightarrow> volume \<Rightarrow> ('w, player_snapshot) operation" where
  "set_volume env volume s =
     (if pm_volume (a_model s) = volume then (Inr (current_snapshot env s), s)
      else attempt next_revision (\<lambda>next.
        attempt (when_connected env EffectSetVolume (PortSetVolume volume)) (\<lambda>_ s.
          let was_idle = is_idle_connected (a_model s)
          in finish_change env was_idle next (update_model (\<lambda>m. m\<lparr>pm_volume := volume\<rparr>) s))) s)"

definition set_repeat :: "'w env \<Rightarrow> repeat_mode \<Rightarrow> ('w, player_snapshot) operation" where
  "set_repeat env mode s =
     (if pm_repeat_mode (a_model s) = mode then (Inr (current_snapshot env s), s)
      else attempt next_revision (\<lambda>next s.
        let was_idle = is_idle_connected (a_model s)
        in finish_change env was_idle next (update_model (\<lambda>m. m\<lparr>pm_repeat_mode := mode\<rparr>) s)) s)"

definition set_shuffle :: "'w env \<Rightarrow> bool \<Rightarrow> uuid \<Rightarrow> ('w, player_snapshot) operation" where
  "set_shuffle env enabled idempotency_key s =
     (if pm_shuffle_enabled (a_model s) = enabled then (Inr (current_snapshot env s), s)
      else attempt next_revision (\<lambda>next s.
        let was_idle = is_idle_connected (a_model s)
        in finish_change env was_idle next
             (update_model (\<lambda>m. m\<lparr>pm_queue := (if enabled
                                   then shuffle_queue (pm_queue m) (seed_from_uuid idempotency_key)
                                   else pm_queue m),
                                  pm_shuffle_enabled := enabled\<rparr>) s)) s)"

definition set_hrir :: "'w env \<Rightarrow> hrir_preset_id \<Rightarrow> ('w, player_snapshot) operation" where
  "set_hrir env preset s =
     (if pm_hrir_preset (a_model s) = Some preset \<and> pm_spatial_audio_enabled (a_model s)
      then (Inr (current_snapshot env s), s)
      else attempt next_revision (\<lambda>next.
        attempt (when_connected env EffectSetHrir (PortSetHrir preset)) (\<lambda>_ s.
          let was_idle = is_idle_connected (a_model s)
          in finish_change env was_idle next
               (update_model (\<lambda>m. m\<lparr>pm_hrir_preset := Some preset,
                                    pm_spatial_audio_enabled := True\<rparr>) s))) s)"

definition set_spatial :: "'w env \<Rightarrow> bool \<Rightarrow> ('w, player_snapshot) operation" where
  "set_spatial env enabled s =
     (if pm_spatial_audio_enabled (a_model s) = enabled then (Inr (current_snapshot env s), s)
      else attempt next_revision (\<lambda>next.
        attempt (when_connected env EffectSetSpatialAudio (PortSetSpatialAudio enabled)) (\<lambda>_ s.
          let was_idle = is_idle_connected (a_model s)
          in finish_change env was_idle next
               (update_model (\<lambda>m. m\<lparr>pm_spatial_audio_enabled := enabled\<rparr>) s))) s)"

definition disconnect :: "'w env \<Rightarrow> ('w, player_snapshot) operation" where
  "disconnect env s =
     (if pm_voice_channel_id (a_model s) = None then (Inr (current_snapshot env s), s)
      else attempt next_revision (\<lambda>next.
        attempt (call_port env EffectDisconnect PortDisconnect) (\<lambda>_ s.
          let was_idle = is_idle_connected (a_model s)
          in finish_change env was_idle next
               (update_model (\<lambda>m. m\<lparr>pm_voice_channel_id := None, pm_current := None,
                  pm_queue := [], pm_history := [], pm_state := Disconnected\<rparr>) s))) s)"

fun execute :: "'w env \<Rightarrow> player_command \<Rightarrow> uuid \<Rightarrow> ('w, player_snapshot) operation" where
  "execute env (EnqueueMedia _) key = fail (InvalidTrack ''media command route'')"
| "execute env Play key = resume env"
| "execute env Pause key = pause env"
| "execute env Stop key = stop env"
| "execute env Skip key = skip env"
| "execute env Previous key = previous env"
| "execute env (RemoveQueued track_id) key = remove_queued env track_id"
| "execute env (MoveQueued track_id before_track_id) key = move_queued env track_id before_track_id"
| "execute env (Seek position_ms) key = seek env position_ms"
| "execute env (SetVolume volume) key = set_volume env volume"
| "execute env (SetRepeat mode) key = set_repeat env mode"
| "execute env (SetShuffle enabled) key = set_shuffle env enabled key"
| "execute env (SetHrir preset) key = set_hrir env preset"
| "execute env (SetSpatialAudio enabled) key = set_spatial env enabled"
| "execute env Disconnect key = disconnect env"

definition IDEMPOTENCY_WINDOW :: nat where
  "IDEMPOTENCY_WINDOW = 1024"

definition remember_idempotency :: "uuid \<Rightarrow> 'w actor \<Rightarrow> 'w actor" where
  "remember_idempotency key s =
     s\<lparr>a_recent_idempotency :=
         (if length (a_recent_idempotency s) = IDEMPOTENCY_WINDOW
          then drop 1 (a_recent_idempotency s) else a_recent_idempotency s) @ [key]\<rparr>"

definition apply_command :: "'w env \<Rightarrow> command_envelope \<Rightarrow> ('w, player_snapshot) operation" where
  "apply_command env envelope s =
     (if ce_idempotency_key envelope \<in> set (a_recent_idempotency s)
      then (Inr (current_snapshot env s), s)
      else case envelope_validate_against envelope (current_snapshot env s) (unix_now env s) of
        Inl e \<Rightarrow> fail (InvalidCommand e) s
      | Inr _ \<Rightarrow>
          attempt (execute env (ce_command envelope) (ce_idempotency_key envelope))
            (\<lambda>snapshot t. (Inr snapshot, remember_idempotency (ce_idempotency_key envelope) t)) s)"

section \<open>End of playback\<close>

text \<open>The displayed error of an exhausted generation counter.\<close>

definition generation_exhausted_message :: string where
  "generation_exhausted_message =
     ''the guild player task failed: playback generation is exhausted''"

definition try_play ::
  "'w env \<Rightarrow> queue_track \<Rightarrow> 'w actor \<Rightarrow> playback_generation option \<times> 'w actor" where
  "try_play env candidate s =
     (case next_playback_generation s of
        (Inl _, t) \<Rightarrow>
          (None, emit (BackgroundSideEffectFailed EffectPlay generation_exhausted_message) t)
      | (Inr generation, t) \<Rightarrow>
          (case ask_port env (PortPlay candidate generation) t of
             (None, u) \<Rightarrow> (Some generation, u)
           | (Some message, u) \<Rightarrow> (None, emit (BackgroundSideEffectFailed EffectPlay message) u)))"

fun first_playable ::
  "'w env \<Rightarrow> queue_track list \<Rightarrow> 'w actor \<Rightarrow> active_track option \<times> queue_track list \<times> 'w actor" where
  "first_playable env [] s = (None, [], s)"
| "first_playable env (candidate # candidates) s =
     (case try_play env candidate s of
        (Some generation, t) \<Rightarrow>
          (Some (active_playing candidate generation (instant_now env t)), candidates, t)
      | (None, t) \<Rightarrow> first_playable env candidates t)"

definition replay_or_else ::
  "'w env \<Rightarrow> queue_track \<Rightarrow> queue_track list \<Rightarrow> 'w actor \<Rightarrow>
     active_track option \<times> queue_track list \<times> 'w actor" where
  "replay_or_else env finished candidates s =
     (case try_play env finished s of
        (Some generation, t) \<Rightarrow>
          (Some (active_playing finished generation (instant_now env t)), candidates, t)
      | (None, t) \<Rightarrow> first_playable env candidates (push_history finished t))"

definition after_natural_end ::
  "'w env \<Rightarrow> queue_track \<Rightarrow> queue_track list \<Rightarrow> 'w actor \<Rightarrow>
     active_track option \<times> queue_track list \<times> 'w actor" where
  "after_natural_end env finished candidates s =
     (case pm_repeat_mode (a_model s) of
        RepeatTrack \<Rightarrow> replay_or_else env finished candidates s
      | RepeatQueue \<Rightarrow>
          if candidates = [] then replay_or_else env finished candidates s
          else first_playable env (candidates @ [finished]) (push_history finished s)
      | RepeatOff \<Rightarrow> first_playable env candidates (push_history finished s))"

definition playback_ended ::
  "'w env \<Rightarrow> playback_identity \<Rightarrow> playback_end_reason \<Rightarrow> ('w, player_snapshot) operation" where
  "playback_ended env identity reason s =
     (case pm_current (a_model s) of
        None \<Rightarrow> (Inr (current_snapshot env s), s)
      | Some active \<Rightarrow>
          if active_identity active \<noteq> identity then (Inr (current_snapshot env s), s)
          else attempt next_revision (\<lambda>next s.
            let was_idle = is_idle_connected (a_model s);
                finished = at_track active;
                candidates = pm_queue (a_model s);
                s1 = update_model (\<lambda>m. m\<lparr>pm_current := None, pm_queue := []\<rparr>) s;
                (current, remaining, s2) =
                  (if is_natural reason then after_natural_end env finished candidates s1
                   else first_playable env candidates s1)
            in finish_change env was_idle next
                 (update_model (\<lambda>m. m\<lparr>pm_queue := remaining, pm_current := current,
                    pm_state := (if current = None then IdleConnected else Playing)\<rparr>) s2)) s)"

section \<open>Observed voice state\<close>

definition report_background :: "side_effect \<Rightarrow> string \<Rightarrow> 'w actor \<Rightarrow> 'w actor" where
  "report_background effect message = emit (BackgroundSideEffectFailed effect message)"

definition disconnect_best_effort :: "'w env \<Rightarrow> 'w actor \<Rightarrow> 'w actor" where
  "disconnect_best_effort env s =
     (case ask_port env PortDisconnect s of
        (None, t) \<Rightarrow> t
      | (Some message, t) \<Rightarrow> report_background EffectDisconnect message t)"

definition connect_observed_channel :: "'w env \<Rightarrow> channel_id \<Rightarrow> 'w actor \<Rightarrow> bool \<times> 'w actor" where
  "connect_observed_channel env channel s =
     (case ask_port env (PortConnect channel) s of
        (None, t) \<Rightarrow> (True, t)
      | (Some message, t) \<Rightarrow>
          (False, disconnect_best_effort env (report_background EffectConnect message t)))"

definition clear_disconnected :: "'w actor \<Rightarrow> 'w actor" where
  "clear_disconnected = update_model (\<lambda>m. m\<lparr>pm_voice_channel_id := None, pm_current := None,
     pm_queue := [], pm_history := [], pm_state := Disconnected\<rparr>)"

definition reconcile_voice_channel ::
  "'w env \<Rightarrow> channel_id option \<Rightarrow> ('w, player_snapshot) operation" where
  "reconcile_voice_channel env observed s =
     (if pm_voice_channel_id (a_model s) = observed then (Inr (current_snapshot env s), s)
      else attempt next_revision (\<lambda>next s.
        let was_idle = is_idle_connected (a_model s)
        in case observed of
             None \<Rightarrow> finish_change env was_idle next (clear_disconnected (disconnect_best_effort env s))
           | Some channel \<Rightarrow>
               (case connect_observed_channel env channel s of
                  (True, t) \<Rightarrow> finish_change env was_idle next
                    (update_model (\<lambda>m. m\<lparr>pm_voice_channel_id := Some channel,
                       pm_state := (if pm_current m = None then IdleConnected else pm_state m)\<rparr>) t)
                | (False, t) \<Rightarrow> finish_change env was_idle next (clear_disconnected t))) s)"

section \<open>Idle expiration and shutdown\<close>

definition handle_idle_expiration :: "'w env \<Rightarrow> idle_generation \<Rightarrow> 'w actor \<Rightarrow> bool \<times> 'w actor" where
  "handle_idle_expiration env expired s =
     (let current = it_generation (a_idle_timer s)
      in if expired \<noteq> current \<or> \<not> is_idle_connected (a_model s)
         then (False, emit (StaleIdleTimerIgnored expired current) s)
         else
           let s1 = s\<lparr>a_idle_timer := timer_mark_fired expired (a_idle_timer s)\<rparr>
           in case next_revision s1 of
                (Inl _, t) \<Rightarrow> (False, t)
              | (Inr next, t) \<Rightarrow>
                  (case ask_port env PortDisconnect t of
                     (Some message, u) \<Rightarrow>
                       (False, snd (arm_idle_timer env
                                 (emit (BackgroundSideEffectFailed EffectDisconnect message) u)))
                   | (None, u) \<Rightarrow>
                       let was_idle = is_idle_connected (a_model u)
                       in case finish_change env was_idle next (clear_disconnected u) of
                            (Inr _, v) \<Rightarrow> (True, emit (IdleDisconnected expired) v)
                          | (Inl _, v) \<Rightarrow> (False, v)))"

definition DISCONNECT_ATTEMPTS :: nat where "DISCONNECT_ATTEMPTS = 3"
definition DISCONNECT_RETRY_DELAY :: duration where "DISCONNECT_RETRY_DELAY = 100 * 10 ^ 6"

text \<open>The remaining attempts, with the last error; the delay only between attempts.\<close>

fun disconnect_attempts :: "'w env \<Rightarrow> nat \<Rightarrow> string option \<Rightarrow> 'w actor \<Rightarrow> string option \<times> 'w actor" where
  "disconnect_attempts env 0 last_error s = (last_error, s)"
| "disconnect_attempts env (Suc remaining) last_error s =
     (case ask_port env PortDisconnect s of
        (None, t) \<Rightarrow> (None, t)
      | (Some message, t) \<Rightarrow>
          disconnect_attempts env remaining (Some message)
            (if 0 < remaining
             then t\<lparr>a_world := env_sleep env DISCONNECT_RETRY_DELAY (a_world t)\<rparr> else t))"

definition disconnect_for_shutdown :: "'w env \<Rightarrow> 'w actor \<Rightarrow> string option \<times> 'w actor" where
  "disconnect_for_shutdown env s =
     (if pm_voice_channel_id (a_model s) = None then (None, s)
      else case disconnect_attempts env DISCONNECT_ATTEMPTS None s of
        (None, t) \<Rightarrow> (None, t)
      | (Some message, t) \<Rightarrow>
          (Some message, emit (BackgroundSideEffectFailed EffectDisconnect message) t))"

definition graceful_shutdown :: "'w env \<Rightarrow> 'w actor \<Rightarrow> shutdown_report \<times> 'w actor" where
  "graceful_shutdown env s =
     (case disconnect_for_shutdown env s of
        (Some message, t) \<Rightarrow>
          (\<lparr>sr_disconnect_error = Some message, sr_final_revision = pm_revision (a_model t)\<rparr>, t)
      | (None, t) \<Rightarrow>
          let t1 = (if it_active (a_idle_timer t) then snd (cancel_idle_timer t) else t);
              needs_change = pm_voice_channel_id (a_model t1) \<noteq> None \<or>
                pm_current (a_model t1) \<noteq> None \<or> pm_queue (a_model t1) \<noteq> [] \<or>
                pm_state (a_model t1) \<noteq> Disconnected;
              t2 = (if needs_change
                    then (case next_revision t1 of
                            (Inl _, u) \<Rightarrow> u
                          | (Inr next, u) \<Rightarrow>
                              snd (finish_change env (is_idle_connected (a_model u)) next
                                     (clear_disconnected u)))
                    else t1);
              report = \<lparr>sr_disconnect_error = None, sr_final_revision = pm_revision (a_model t2)\<rparr>
          in (report, emit (Shutdown report) t2))"

end
