(* ===== verification/Player_Moves.thy ===== *)
theory Player_Moves
  imports Player_Model
begin

text \<open>
  The abstract player: what each operation may do to the model, with ports, clocks,
  timers and events left out. The relation \<open>player_move\<close> has one rule per operation
  of the actor and does not mention the revision, which every committed change
  advances by one. The handlers are proved to refine it in the theories above.
\<close>

section \<open>Moves\<close>

definition push_history_model :: "nat \<Rightarrow> queue_track \<Rightarrow> player_model \<Rightarrow> player_model" where
  "push_history_model capacity track m =
     (let kept = (if length (pm_history m) = capacity then drop 1 (pm_history m) else pm_history m)
      in m\<lparr>pm_history := kept @ [track]\<rparr>)"

definition clear_playback :: "player_model \<Rightarrow> player_model" where
  "clear_playback m = m\<lparr>pm_current := None, pm_queue := [], pm_history := []\<rparr>"

definition clear_disconnected_model :: "player_model \<Rightarrow> player_model" where
  "clear_disconnected_model m =
     m\<lparr>pm_voice_channel_id := None, pm_current := None, pm_queue := [], pm_history := [],
       pm_state := Disconnected\<rparr>"

text \<open>
  Starting from a list of candidates: the first that plays becomes current and the
  ones before it are dropped; when none plays nothing is left.
\<close>

inductive started_from :: "queue_track list \<Rightarrow> active_track option \<Rightarrow> queue_track list \<Rightarrow> bool" where
  none: "started_from candidates None []"
| some: "candidates = dropped @ at_track active # rest \<Longrightarrow> started_from candidates (Some active) rest"

inductive_cases started_fromE: "started_from candidates current rest"

definition settle :: "active_track option \<Rightarrow> queue_track list \<Rightarrow> player_model \<Rightarrow> player_model" where
  "settle current queue m =
     m\<lparr>pm_current := current, pm_queue := queue,
       pm_state := (if current = None then IdleConnected else Playing)\<rparr>"

inductive player_move :: "player_config \<Rightarrow> player_model \<Rightarrow> player_model \<Rightarrow> bool" for c where
  connect: "pm_voice_channel_id m = None \<Longrightarrow>
    player_move c m (m\<lparr>pm_voice_channel_id := Some ch, pm_state := IdleConnected\<rparr>)"
| enqueue: "pm_voice_channel_id m \<noteq> None \<Longrightarrow> \<forall>t \<in> set tracks. track_wf t \<Longrightarrow>
    distinct (map qt_track_id tracks) \<Longrightarrow>
    set (map qt_track_id tracks) \<inter> set (model_track_ids m) = {} \<Longrightarrow>
    mset queue = mset (pm_queue m) + mset tracks \<Longrightarrow> pm_current m \<noteq> None \<Longrightarrow>
    length queue \<le> max_queued_tracks c \<Longrightarrow> player_move c m (m\<lparr>pm_queue := queue\<rparr>)"
| start: "pm_voice_channel_id m \<noteq> None \<Longrightarrow> \<forall>t \<in> set (at_track a # tracks). track_wf t \<Longrightarrow>
    distinct (map qt_track_id (at_track a # tracks)) \<Longrightarrow>
    set (map qt_track_id (at_track a # tracks)) \<inter> set (model_track_ids m) = {} \<Longrightarrow>
    mset queue = mset (pm_queue m) + mset tracks \<Longrightarrow> pm_current m = None \<Longrightarrow>
    length queue \<le> max_queued_tracks c \<Longrightarrow>
    player_move c m (m\<lparr>pm_current := Some a, pm_state := Playing, pm_queue := queue\<rparr>)"
| remove: "i < length (pm_queue m) \<Longrightarrow>
    player_move c m (m\<lparr>pm_queue := remove_at i (pm_queue m)\<rparr>)"
| reorder: "mset queue = mset (pm_queue m) \<Longrightarrow> player_move c m (m\<lparr>pm_queue := queue\<rparr>)"
| retime: "pm_current m = Some a \<Longrightarrow> at_track b = at_track a \<Longrightarrow> st \<in> {Playing, Paused} \<Longrightarrow>
    player_move c m (m\<lparr>pm_current := Some b, pm_state := st\<rparr>)"
| stop: "pm_voice_channel_id m \<noteq> None \<Longrightarrow>
    player_move c m ((clear_playback m)\<lparr>pm_state := IdleConnected\<rparr>)"
| skip: "pm_current m = Some a \<Longrightarrow> pm_queue m = at_track b # rest \<Longrightarrow>
    player_move c m (settle (Some b) rest (push_history_model (max_queued_tracks c) (at_track a) m))"
| skip_last: "pm_current m = Some a \<Longrightarrow> pm_queue m = [] \<Longrightarrow>
    player_move c m (settle None [] (push_history_model (max_queued_tracks c) (at_track a) m))"
| previous: "pm_history m = older @ [at_track b] \<Longrightarrow>
    others = (case position (\<lambda>t. qt_track_id t = qt_track_id (at_track b)) (pm_queue m) of
                None \<Rightarrow> pm_queue m | Some i \<Rightarrow> remove_at i (pm_queue m)) \<Longrightarrow>
    queue = map at_track (option_list (pm_current m)) @ others \<Longrightarrow>
    length queue \<le> max_queued_tracks c \<Longrightarrow>
    player_move c m (m\<lparr>pm_history := older, pm_queue := queue, pm_current := Some b,
      pm_state := Playing\<rparr>)"
| volume: "volume_wf v \<Longrightarrow> player_move c m (m\<lparr>pm_volume := v\<rparr>)"
| repeat: "player_move c m (m\<lparr>pm_repeat_mode := mode\<rparr>)"
| shuffle: "mset queue = mset (pm_queue m) \<Longrightarrow>
    player_move c m (m\<lparr>pm_queue := queue, pm_shuffle_enabled := enabled\<rparr>)"
| audio: "player_move c m (m\<lparr>pm_hrir_preset := preset, pm_spatial_audio_enabled := enabled\<rparr>)"
| disconnect: "player_move c m (clear_disconnected_model m)"
| ended: "pm_current m = Some a \<Longrightarrow> started_from (pm_queue m) current rest \<Longrightarrow>
    player_move c m (settle current rest m)"
| ended_history: "pm_current m = Some a \<Longrightarrow> started_from (pm_queue m) current rest \<Longrightarrow>
    player_move c m (settle current rest (push_history_model (max_queued_tracks c) (at_track a) m))"
| ended_wrapped: "pm_current m = Some a \<Longrightarrow> pm_queue m \<noteq> [] \<Longrightarrow>
    started_from (pm_queue m @ [at_track a]) current rest \<Longrightarrow>
    player_move c m (settle current rest (push_history_model (max_queued_tracks c) (at_track a) m))"
| ended_repeat: "pm_current m = Some a \<Longrightarrow> at_track b = at_track a \<Longrightarrow>
    player_move c m (settle (Some b) (pm_queue m) m)"
| rejoin: "pm_voice_channel_id m \<noteq> Some ch \<Longrightarrow>
    player_move c m (m\<lparr>pm_voice_channel_id := Some ch,
      pm_state := (if pm_current m = None then IdleConnected else pm_state m)\<rparr>)"

section \<open>Moves keep the model well formed\<close>

lemma length_push_history:
  "length (pm_history m) \<le> n \<Longrightarrow> 0 < n \<Longrightarrow> length (pm_history (push_history_model n t m)) \<le> n"
  by (auto simp: push_history_model_def Let_def)

lemma push_history_simps [simp]:
  "pm_current (push_history_model n t m) = pm_current m"
  "pm_queue (push_history_model n t m) = pm_queue m"
  "pm_state (push_history_model n t m) = pm_state m"
  "pm_volume (push_history_model n t m) = pm_volume m"
  "pm_revision (push_history_model n t m) = pm_revision m"
  "pm_guild_id (push_history_model n t m) = pm_guild_id m"
  "pm_voice_channel_id (push_history_model n t m) = pm_voice_channel_id m"
  by (simp_all add: push_history_model_def Let_def)

lemma push_history_set: "set (pm_history (push_history_model n t m)) \<subseteq> insert t (set (pm_history m))"
  by (auto simp: push_history_model_def Let_def dest: in_set_dropD)

lemma settle_simps [simp]:
  "pm_current (settle a q m) = a" "pm_queue (settle a q m) = q"
  "pm_history (settle a q m) = pm_history m" "pm_volume (settle a q m) = pm_volume m"
  "pm_revision (settle a q m) = pm_revision m" "pm_guild_id (settle a q m) = pm_guild_id m"
  "pm_voice_channel_id (settle a q m) = pm_voice_channel_id m"
  by (simp_all add: settle_def)

text \<open>A settled model is well formed when its tracks are and its queue is within bounds.\<close>

lemma settle_wf:
  assumes "model_wf c m" and "pm_current m \<noteq> None" and "started_from candidates current rest"
    and "set candidates \<subseteq> set (model_tracks m)"
    and "length candidates \<le> Suc (max_queued_tracks c)"
  shows "model_wf c (settle current rest m)"
proof -
  have cands: "set (map at_track (option_list current)) \<union> set rest \<subseteq> set candidates"
    and len: "length rest \<le> length candidates - 1"
    using assms(3) by (auto elim!: started_fromE)
  have rest: "length rest \<le> max_queued_tracks c" using len assms(5) by linarith
  have empty: "current = None \<Longrightarrow> rest = []" using assms(3) by (auto elim: started_fromE)
  show ?thesis
    using assms(1,2,4) cands rest empty
    by (auto simp: model_wf_def phase_wf_def settle_def model_tracks_def)
qed

lemma push_history_wf:
  assumes "model_wf c m" and "0 < max_queued_tracks c" and "t \<in> set (model_tracks m)"
    and "pm_voice_channel_id m \<noteq> None"
  shows "model_wf c (push_history_model (max_queued_tracks c) t m)"
proof -
  let ?m = "push_history_model (max_queued_tracks c) t m"
  have "length (pm_history ?m) \<le> max_queued_tracks c"
    using assms(1,2) by (intro length_push_history) (simp_all add: model_wf_def)
  moreover have "\<forall>u \<in> set (pm_history ?m). track_wf u"
    using push_history_set [of "max_queued_tracks c" t m] assms(1,3) by (auto simp: model_wf_def)
  ultimately show ?thesis
    using assms(1,4) by (auto simp: model_wf_def phase_wf_def model_tracks_def)
qed

lemma set_position_remove:
  "set (case position P q of None \<Rightarrow> q | Some i \<Rightarrow> remove_at i q) \<subseteq> set q"
  by (auto split: option.splits dest: subsetD [OF set_remove_at])

lemmas wf_defs = model_wf_def phase_wf_def model_tracks_def

lemma current_in_tracks: "pm_current m = Some a \<Longrightarrow> at_track a \<in> set (model_tracks m)"
  by (simp add: model_tracks_def)

lemma current_connected: "model_wf c m \<Longrightarrow> pm_current m \<noteq> None \<Longrightarrow> pm_voice_channel_id m \<noteq> None"
  by (auto simp: model_wf_def phase_wf_def)

lemma ended_pushed_wf:
  assumes "model_wf c m" and "0 < max_queued_tracks c" and "pm_current m = Some a"
    and "started_from candidates current rest" and "set candidates \<subseteq> set (model_tracks m)"
    and "length candidates \<le> Suc (max_queued_tracks c)"
  shows "model_wf c (settle current rest (push_history_model (max_queued_tracks c) (at_track a) m))"
proof (rule settle_wf [OF push_history_wf])
  show "pm_voice_channel_id m \<noteq> None" using assms(1,3) by (auto dest: current_connected)
  show "set candidates \<subseteq> set (model_tracks (push_history_model (max_queued_tracks c) (at_track a) m))"
    using assms(5) by (simp add: model_tracks_def)
qed (use assms in \<open>auto simp: current_in_tracks\<close>)

lemma skip_candidates: "pm_queue m = at_track b # rest \<Longrightarrow> started_from (pm_queue m) (Some b) rest"
  by (rule started_from.some [of _ "[]"]) simp

lemma move_wf:
  assumes "player_move c m m'" and wf: "model_wf c m" and cap: "0 < max_queued_tracks c"
  shows "model_wf c m'"
  using assms(1)
proof cases
  case (enqueue tracks queue)
  have "set queue = set (pm_queue m) \<union> set tracks"
    using arg_cong [OF enqueue(6), of set_mset] by simp
  then show ?thesis using wf enqueue by (auto simp: wf_defs)
next
  case (start a tracks queue)
  have "set queue = set (pm_queue m) \<union> set tracks"
    using arg_cong [OF start(6), of set_mset] by simp
  then show ?thesis using wf start by (auto simp: wf_defs)
next
  case (remove i)
  then show ?thesis
    using wf set_remove_at [of i "pm_queue m"]
    by (auto simp: wf_defs deque_simps remove_at_def)
next
  case (reorder queue)
  then show ?thesis
    using wf mset_eq_setD [OF reorder(2)] mset_eq_length [OF reorder(2)] by (auto simp: wf_defs)
next
  case (shuffle queue enabled)
  then show ?thesis
    using wf mset_eq_setD [OF shuffle(2)] mset_eq_length [OF shuffle(2)] by (auto simp: wf_defs)
next
  case (skip a b rest)
  show ?thesis unfolding skip(1)
    by (rule ended_pushed_wf [OF wf cap skip(2) skip_candidates [OF skip(3)]])
      (use wf in \<open>auto simp: wf_defs\<close>)
next
  case (skip_last a)
  show ?thesis unfolding skip_last(1)
    by (rule ended_pushed_wf [OF wf cap skip_last(2) started_from.none [of "[]"]]) auto
next
  case (previous older b others queue)
  have "set queue \<subseteq> set (model_tracks m)"
    using set_position_remove [where q = "pm_queue m"]
    unfolding previous(3,4) model_tracks_def by auto
  moreover have "pm_voice_channel_id m \<noteq> None" using wf previous(2) by (auto simp: wf_defs)
  ultimately show ?thesis using wf previous by (auto simp: wf_defs)
next
  case (ended a current rest)
  show ?thesis unfolding ended(1)
    by (rule settle_wf [OF wf _ ended(3)]) (use ended(2) wf in \<open>auto simp: wf_defs\<close>)
next
  case (ended_history a current rest)
  show ?thesis unfolding ended_history(1)
    by (rule ended_pushed_wf [OF wf cap ended_history(2,3)]) (use wf in \<open>auto simp: wf_defs\<close>)
next
  case (ended_wrapped a current rest)
  show ?thesis unfolding ended_wrapped(1)
    by (rule ended_pushed_wf [OF wf cap ended_wrapped(2,4)])
      (use wf ended_wrapped(2) in \<open>auto simp: wf_defs\<close>)
next
  case (ended_repeat a b)
  then show ?thesis using wf by (auto simp: wf_defs settle_def)
next
  case (retime a b st)
  then show ?thesis using wf by (auto simp: wf_defs)
qed (use wf in \<open>auto simp: wf_defs clear_playback_def clear_disconnected_model_def\<close>)

section \<open>Moves and the uniqueness of track identities\<close>

text \<open>
  Going back is the one move that can duplicate an identity: it does so when the track
  at the end of the history is the one that is playing.
\<close>

definition previous_collides :: "player_model \<Rightarrow> bool" where
  "previous_collides m \<longleftrightarrow> pm_history m \<noteq> [] \<and>
     is_some_and (\<lambda>a. qt_track_id (at_track a) = qt_track_id (last (pm_history m))) (pm_current m)"

lemma distinct_ids:
  "distinct (model_track_ids m) \<longleftrightarrow> distinct (map qt_track_id (pm_queue m)) \<and>
     (\<forall>a. pm_current m = Some a \<longrightarrow> qt_track_id (at_track a) \<notin> qt_track_id ` set (pm_queue m))"
  by (cases "pm_current m") (auto simp: model_track_ids_def model_tracks_def)

lemma started_from_distinct:
  "started_from candidates current rest \<Longrightarrow> distinct (map qt_track_id candidates) \<Longrightarrow>
     distinct (map qt_track_id rest) \<and>
     (\<forall>a. current = Some a \<longrightarrow> qt_track_id (at_track a) \<notin> qt_track_id ` set rest)"
  by (auto elim!: started_fromE)

lemma remove_first_distinct:
  assumes "distinct (map f q)"
  shows "x \<notin> f ` set (case position (\<lambda>t. f t = x) q of None \<Rightarrow> q | Some i \<Rightarrow> remove_at i q) \<and>
    distinct (map f (case position (\<lambda>t. f t = x) q of None \<Rightarrow> q | Some i \<Rightarrow> remove_at i q))"
proof (cases "position (\<lambda>t. f t = x) q")
  case None
  then have "\<forall>t \<in> set q. f t \<noteq> x" by (simp add: position_None)
  with assms None show ?thesis by auto
next
  case (Some i)
  then have i: "i < length q" "f (q ! i) = x" using position_Some by force+
  have "add_mset x (mset (map f (remove_at i q))) = mset (map f q)"
    using mset_remove_at [OF i(1)] i(2) by (metis image_mset_add_mset mset_map)
  then have "distinct (x # map f (remove_at i q))"
    using assms mset_eq_imp_distinct_iff by (metis mset.simps(2))
  with Some show ?thesis by simp
qed

lemma same_mset_map:
  assumes "mset xs = mset ys"
  shows "distinct (map f xs) \<longleftrightarrow> distinct (map f ys)" and "set xs = set ys"
proof -
  show "distinct (map f xs) \<longleftrightarrow> distinct (map f ys)"
    by (rule mset_eq_imp_distinct_iff) (simp add: assms)
  show "set xs = set ys" by (rule mset_eq_setD [OF assms])
qed

lemma move_distinct:
  assumes "player_move c m m'" and dist: "distinct (model_track_ids m)"
    and "\<not> previous_collides m"
  shows "distinct (model_track_ids m')"
  using assms(1)
proof cases
  case (enqueue tracks queue)
  then have "mset queue = mset (pm_queue m @ tracks)" by simp
  note same_mset_map(1) [OF this, of qt_track_id] same_mset_map(2) [OF this]
  then show ?thesis using dist enqueue
    by (cases "pm_current m") (auto simp: model_track_ids_def model_tracks_def)
next
  case (start a tracks queue)
  then have "mset queue = mset (pm_queue m @ tracks)" by simp
  note same_mset_map(1) [OF this, of qt_track_id] same_mset_map(2) [OF this]
  then show ?thesis using dist start
    by (auto simp: model_track_ids_def model_tracks_def)
next
  case (remove i)
  then show ?thesis
    using dist distinct_remove_at
    by (auto simp: distinct_ids map_remove_at dest: subsetD [OF set_remove_at])
next
  case (reorder queue)
  then show ?thesis using dist same_mset_map(1) [OF reorder(2), of qt_track_id] same_mset_map(2) [OF reorder(2)]
    by (auto simp: model_track_ids_def model_tracks_def)
next
  case (shuffle queue enabled)
  then show ?thesis using dist same_mset_map(1) [OF shuffle(2), of qt_track_id] same_mset_map(2) [OF shuffle(2)]
    by (auto simp: model_track_ids_def model_tracks_def)
next
  case (previous older b others queue)
  have q: "distinct (map qt_track_id (pm_queue m))"
    using dist by (auto simp: model_track_ids_def model_tracks_def)
  have "qt_track_id (at_track b) \<notin> qt_track_id ` set others \<and> distinct (map qt_track_id others)"
    unfolding previous(3) by (rule remove_first_distinct [OF q])
  moreover have "set others \<subseteq> set (pm_queue m)" unfolding previous(3) by (rule set_position_remove)
  moreover have "\<forall>a. pm_current m = Some a \<longrightarrow> qt_track_id (at_track a) \<noteq> qt_track_id (at_track b)"
    using assms(3) previous(2) by (auto simp: previous_collides_def is_some_and_def)
  ultimately show ?thesis using previous(1,4) dist
    by (cases "pm_current m") (auto simp: model_track_ids_def model_tracks_def)
next
  case (ended a current rest)
  then show ?thesis using dist started_from_distinct [OF ended(3)] by (simp add: distinct_ids)
next
  case (ended_history a current rest)
  then show ?thesis using dist started_from_distinct [OF ended_history(3)] by (simp add: distinct_ids)
next
  case (ended_wrapped a current rest)
  then show ?thesis using dist started_from_distinct [OF ended_wrapped(4)] by (simp add: distinct_ids)
next
  case (retime a b st)
  then show ?thesis using dist by (simp add: distinct_ids)
qed (use dist in \<open>auto simp: distinct_ids clear_playback_def clear_disconnected_model_def\<close>)

end
