(* ===== verification/Player_Refinement.thy ===== *)
theory Player_Refinement
  imports Player_Operations Player_Moves
begin

text \<open>
  Every handler of the actor refines one move of the abstract player. The relation
  \<open>outcome s r t\<close> is what a handler promises: it never panics; it keeps the
  configuration, the replay window and the timer mailbox; and either it leaves the
  model and the publications alone, or it commits one move under the next revision,
  keeps the idle timer in step with the model and publishes exactly that revision.
\<close>

section \<open>The idle timer follows the model\<close>

text \<open>
  The timer runs only while the player is connected and idle, and it does run then,
  unless one of the two counters that its handling needs is exhausted. A running task
  always carries the current generation.
\<close>

definition gen_exhausted :: "'w actor \<Rightarrow> bool" where
  "gen_exhausted s \<longleftrightarrow> idle_generation_next (it_generation (a_idle_timer s)) = None"

definition timer_exhausted :: "'w actor \<Rightarrow> bool" where
  "timer_exhausted s \<longleftrightarrow> checked_next (pm_revision (a_model s)) = None \<or> gen_exhausted s"

definition timer_ok :: "'w actor \<Rightarrow> bool" where
  "timer_ok s \<longleftrightarrow>
     (it_active (a_idle_timer s) \<longrightarrow> is_idle_connected (a_model s)) \<and>
     (is_idle_connected (a_model s) \<longrightarrow> it_active (a_idle_timer s) \<or> timer_exhausted s) \<and>
     (\<forall>g d. it_task (a_idle_timer s) = Some (g, d) \<longrightarrow>
        g = it_generation (a_idle_timer s) \<and> it_active (a_idle_timer s))"

section \<open>Outcomes\<close>

text \<open>A current track keeps its identity or gets a generation never handed out before.\<close>

definition fresh_current :: "'w actor \<Rightarrow> 'w actor \<Rightarrow> bool" where
  "fresh_current s t \<longleftrightarrow> a_playback_generation s \<le> a_playback_generation t \<and>
     (\<forall>b. pm_current (a_model t) = Some b \<longrightarrow>
        (\<exists>a. pm_current (a_model s) = Some a \<and> active_identity a = active_identity b) \<or>
        (a_playback_generation s < at_generation b \<and> at_generation b \<le> a_playback_generation t))"

definition quiet :: "'w actor \<Rightarrow> 'w actor \<Rightarrow> bool" where
  "quiet s t \<longleftrightarrow> a_model t = a_model s \<and> same_shell s t \<and>
     a_playback_generation s \<le> a_playback_generation t"

definition committed :: "'w actor \<Rightarrow> state_revision \<Rightarrow> 'w actor \<Rightarrow> bool" where
  "committed s next t \<longleftrightarrow> checked_next (pm_revision (a_model s)) = Some next \<and>
     (\<exists>m. player_move (a_config s) (a_model s) m \<and> a_model t = m\<lparr>pm_revision := next\<rparr>) \<and>
     a_config t = a_config s \<and> a_timers t = a_timers s \<and>
     a_recent_idempotency t = a_recent_idempotency s \<and>
     (timer_ok s \<longrightarrow> timer_ok t) \<and> (gen_exhausted s \<longrightarrow> gen_exhausted t) \<and> fresh_current s t"

definition outcome :: "'w actor \<Rightarrow> fault + player_snapshot \<Rightarrow> 'w actor \<Rightarrow> bool" where
  "outcome s r t \<longleftrightarrow> r \<noteq> Inl Panicked \<and>
     (\<forall>snap. r = Inr snap \<longrightarrow> ps_revision snap = pm_revision (a_model t)) \<and>
     (quiet s t \<or>
      (\<exists>next. committed s next t \<and>
        (if isl r then r = Inl (Failed IdleGenerationExhausted) \<and>
                       published_revisions t = published_revisions s \<and> gen_exhausted t
         else published_revisions t = published_revisions s @ [next])))"

lemma quiet_refl [simp]: "quiet s s"
  by (simp add: quiet_def)

lemma quiet_trans: "quiet s t \<Longrightarrow> quiet t u \<Longrightarrow> quiet s u"
  by (auto simp: quiet_def intro: same_shell_trans order_trans)

lemma outcome_quiet: "quiet s t \<Longrightarrow> r = Inl e \<Longrightarrow> e \<noteq> Panicked \<Longrightarrow> outcome s r t"
  by (simp add: outcome_def)

lemma outcome_here [simp]: "outcome s (Inl (Failed e)) s" "outcome s (Inr (current_snapshot env s)) s"
  by (simp_all add: outcome_def current_snapshot_def model_snapshot_def)

lemma outcome_fail: "fail e s = (r, t) \<Longrightarrow> outcome s r t"
  by (auto simp: fail_def)

lemma ask_port_quiet: "ask_port env c s = (r, t) \<Longrightarrow> quiet s t \<and>
    a_playback_generation t = a_playback_generation s"
  by (auto simp: quiet_def ask_port_def split: prod.splits)

lemma call_port_quiet: "call_port env e c s = (r, t) \<Longrightarrow> quiet s t \<and>
    a_playback_generation t = a_playback_generation s \<and> r \<noteq> Inl Panicked"
  by (auto simp: call_port_def dest: ask_port_quiet split: prod.splits option.splits)

lemma next_playback_generation_quiet:
  "next_playback_generation s = (r, t) \<Longrightarrow> quiet s t \<and> r \<noteq> Inl Panicked \<and>
     (\<forall>g. r = Inr g \<longrightarrow> a_playback_generation s < g \<and> a_playback_generation t = g)"
  by (auto simp: next_playback_generation_def quiet_def
      dest: playback_generation_next_less split: option.splits)

lemma when_connected_quiet: "when_connected env e c s = (r, t) \<Longrightarrow> quiet s t \<and>
    a_playback_generation t = a_playback_generation s \<and> r \<noteq> Inl Panicked"
  by (auto simp: when_connected_def dest: call_port_quiet split: if_splits)

lemma emit_quiet [simp]: "published_revision e = [] \<Longrightarrow> quiet s (emit e t) = quiet s t"
  by (simp add: quiet_def) (simp add: emit_def)

lemma check_revision_quiet: "check_revision x s = (r, t) \<Longrightarrow> t = s \<and> r \<noteq> Inl Panicked"
  by (auto simp: check_revision_def split: if_splits)

section \<open>Committing a change\<close>

lemma timer_invalidate_cases:
  obtains (exhausted) "idle_generation_next (it_generation t) = None"
      "timer_invalidate t = (Inl IdleGenerationExhausted, t\<lparr>it_task := None, it_active := False\<rparr>)"
    | (advanced) g where "idle_generation_next (it_generation t) = Some g" "timer_invalidate t =
        (Inr (), t\<lparr>it_task := None, it_active := False, it_generation := g\<rparr>)"
  by (cases "idle_generation_next (it_generation t)") (auto simp: timer_invalidate_def Let_def)

lemma arm_idle_timer_frame:
  assumes "arm_idle_timer env s = (r, t)"
  shows "a_model t = a_model s" "a_config t = a_config s" "a_timers t = a_timers s"
    "a_recent_idempotency t = a_recent_idempotency s"
    "a_playback_generation t = a_playback_generation s"
    "published_revisions t = published_revisions s"
    "r = Inr () \<or> r = Inl (Failed IdleGenerationExhausted)"
    "it_active (a_idle_timer t) \<or> timer_exhausted t"
    "\<forall>g d. it_task (a_idle_timer t) = Some (g, d) \<longrightarrow>
       g = it_generation (a_idle_timer t) \<and> it_active (a_idle_timer t)"
    "gen_exhausted s \<or> r \<noteq> Inr () \<Longrightarrow> gen_exhausted t"
  using assms
  by (cases "a_idle_timer s" rule: timer_invalidate_cases;
      auto simp: arm_idle_timer_def timer_arm_def emit_def published_revisions_def
        timer_exhausted_def gen_exhausted_def)+

lemma cancel_idle_timer_frame:
  assumes "cancel_idle_timer s = (r, t)"
  shows "a_model t = a_model s" "a_config t = a_config s" "a_timers t = a_timers s"
    "a_recent_idempotency t = a_recent_idempotency s"
    "a_playback_generation t = a_playback_generation s"
    "published_revisions t = published_revisions s"
    "r = Inr () \<or> r = Inl (Failed IdleGenerationExhausted)"
    "\<not> it_active (a_idle_timer t)" "it_task (a_idle_timer t) = None"
    "gen_exhausted s \<or> r \<noteq> Inr () \<Longrightarrow> gen_exhausted t"
  using assms
  by (cases "a_idle_timer s" rule: timer_invalidate_cases;
      auto simp: cancel_idle_timer_def timer_cancel_def emit_def published_revisions_def
        gen_exhausted_def)+

text \<open>The timer part of a commit, from a state whose timer followed the model before.\<close>

definition timer_was :: "bool \<Rightarrow> 'w actor \<Rightarrow> bool" where
  "timer_was was_idle s \<longleftrightarrow>
     (it_active (a_idle_timer s) \<longrightarrow> was_idle) \<and>
     (was_idle \<and> is_idle_connected (a_model s) \<longrightarrow>
        it_active (a_idle_timer s) \<or> gen_exhausted s) \<and>
     (\<forall>g d. it_task (a_idle_timer s) = Some (g, d) \<longrightarrow>
        g = it_generation (a_idle_timer s) \<and> it_active (a_idle_timer s))"

lemma reconcile_idle_frame:
  assumes "reconcile_idle env w s = (r, t)"
  shows "a_model t = a_model s" "a_config t = a_config s" "a_timers t = a_timers s"
    "a_recent_idempotency t = a_recent_idempotency s"
    "a_playback_generation t = a_playback_generation s"
    "published_revisions t = published_revisions s"
    "r = Inr () \<or> r = Inl (Failed IdleGenerationExhausted)"
    "timer_was w s \<Longrightarrow> timer_ok t"
    "gen_exhausted s \<or> r \<noteq> Inr () \<Longrightarrow> gen_exhausted t"
proof -
  consider (arm) "\<not> w" "is_idle_connected (a_model s)" "arm_idle_timer env s = (r, t)"
    | (cancel) "w" "\<not> is_idle_connected (a_model s)" "cancel_idle_timer s = (r, t)"
    | (none) "r = Inr ()" "t = s" "w = is_idle_connected (a_model s) \<or> \<not> it_active (a_idle_timer s)"
        "w \<or> \<not> is_idle_connected (a_model s)"
    using assms by (auto simp: reconcile_idle_def Let_def split: if_splits)
  note by_cases = this
  show "a_model t = a_model s" "a_config t = a_config s" "a_timers t = a_timers s"
    "a_recent_idempotency t = a_recent_idempotency s"
    "a_playback_generation t = a_playback_generation s"
    "published_revisions t = published_revisions s"
    "r = Inr () \<or> r = Inl (Failed IdleGenerationExhausted)"
    by (cases rule: by_cases; auto dest: arm_idle_timer_frame cancel_idle_timer_frame)+
  show "gen_exhausted t" if "gen_exhausted s \<or> r \<noteq> Inr ()"
    by (cases rule: by_cases)
      (use that in \<open>auto dest: arm_idle_timer_frame(10) cancel_idle_timer_frame(10)\<close>)
  show "timer_ok t" if "timer_was w s"
  proof (cases rule: by_cases)
    case arm
    then show ?thesis using arm_idle_timer_frame [OF arm(3)] by (auto simp: timer_ok_def)
  next
    case cancel
    then show ?thesis using cancel_idle_timer_frame [OF cancel(3)] by (auto simp: timer_ok_def)
  next
    case none
    then show ?thesis using that by (auto simp: timer_ok_def timer_was_def timer_exhausted_def)
  qed
qed

lemma finish_change_frame:
  assumes "finish_change env w next s = (r, t)"
  shows "a_model t = (a_model s)\<lparr>pm_revision := next\<rparr>" "a_config t = a_config s"
    "a_timers t = a_timers s" "a_recent_idempotency t = a_recent_idempotency s"
    "a_playback_generation t = a_playback_generation s"
    "(r = Inl (Failed IdleGenerationExhausted) \<and> published_revisions t = published_revisions s \<and>
        gen_exhausted t) \<or>
     (\<exists>snap. r = Inr snap \<and> ps_revision snap = next \<and>
        published_revisions t = published_revisions s @ [next])"
    "timer_was w s \<Longrightarrow> timer_ok t" "gen_exhausted s \<Longrightarrow> gen_exhausted t"
proof -
  let ?u = "update_model (\<lambda>m. m\<lparr>pm_revision := next\<rparr>) s"
  obtain x v where v: "reconcile_idle env w ?u = (x, v)" by fastforce
  note frame = reconcile_idle_frame [OF v]
  have was: "timer_was w ?u = timer_was w s"
    by (simp add: timer_was_def update_model_def is_idle_connected_def gen_exhausted_def)
  have exhausted: "gen_exhausted ?u = gen_exhausted s"
    by (simp add: update_model_def gen_exhausted_def)
  have same: "a_config ?u = a_config s" "a_timers ?u = a_timers s"
    "a_recent_idempotency ?u = a_recent_idempotency s"
    "a_playback_generation ?u = a_playback_generation s"
    "published_revisions ?u = published_revisions s"
    by (simp_all add: update_model_def published_revisions_def)
  have snap: "ps_revision (current_snapshot env v) = next"
    by (simp add: current_snapshot_def model_snapshot_def frame(1))
  have ok: "timer_ok (publish env sn v) = timer_ok v" "gen_exhausted (publish env sn v) = gen_exhausted v" for sn
    by (simp_all add: timer_ok_def timer_exhausted_def gen_exhausted_def publish_frame)
  have "x = Inr () \<Longrightarrow> r = Inr (current_snapshot env v) \<and> t = publish env (current_snapshot env v) v"
    and "x \<noteq> Inr () \<Longrightarrow> r = Inl (Failed IdleGenerationExhausted) \<and> t = v"
    using assms v frame(7) by (auto simp: finish_change_def attempt_def Let_def)
  note two = this
  show "a_model t = (a_model s)\<lparr>pm_revision := next\<rparr>" "a_config t = a_config s"
    "a_timers t = a_timers s" "a_recent_idempotency t = a_recent_idempotency s"
    "a_playback_generation t = a_playback_generation s"
    by (cases "x = Inr ()"; simp add: two publish_frame frame same)+
  show "(r = Inl (Failed IdleGenerationExhausted) \<and> published_revisions t = published_revisions s \<and>
        gen_exhausted t) \<or>
     (\<exists>snap. r = Inr snap \<and> ps_revision snap = next \<and>
        published_revisions t = published_revisions s @ [next])"
    by (cases "x = Inr ()") (simp_all add: two publish_frame frame(1-7,9) same snap)
  show "gen_exhausted t" if "gen_exhausted s"
    using frame(9) that by (cases "x = Inr ()") (simp_all add: two ok exhausted)
  show "timer_ok t" if "timer_was w s"
    using frame(8) that by (cases "x = Inr ()") (simp_all add: two ok was)
qed

lemma timer_was_commit:
  assumes "timer_ok s" and "a_idle_timer u = a_idle_timer s" and "w = is_idle_connected (a_model s)"
    and "checked_next (pm_revision (a_model s)) \<noteq> None"
  shows "timer_was w u"
  using assms by (auto simp: timer_ok_def timer_was_def timer_exhausted_def gen_exhausted_def)

lemma outcome_commit:
  assumes "finish_change env w next u = (r, t)"
    and "w = is_idle_connected (a_model s)"
    and "checked_next (pm_revision (a_model s)) = Some next"
    and "same_shell s u"
    and "player_move (a_config s) (a_model s) (a_model u)"
    and "fresh_current s u"
  shows "outcome s r t"
proof -
  note frame = finish_change_frame [OF assms(1)]
  have "timer_was w u" if "timer_ok s"
    by (rule timer_was_commit [OF that]) (use assms(2,3,4) in \<open>auto simp: same_shell_def\<close>)
  moreover have "fresh_current s t" using assms(6) by (simp add: fresh_current_def frame)
  moreover have "gen_exhausted u = gen_exhausted s"
    using assms(4) by (simp add: gen_exhausted_def same_shell_def)
  ultimately have "committed s next t"
    using assms(3,4,5) by (auto simp: committed_def frame same_shell_def)
  then show ?thesis using frame(1,6) assms(4) by (auto simp: outcome_def same_shell_def)
qed

end
