(* ===== verification/Player_Refines.thy ===== *)
theory Player_Refines
  imports Player_Refinement
begin

text \<open>
  The refinement proofs: every handler of \<open>Player_Operations\<close> has an \<open>outcome\<close>.
  The rules of the first section peel one step of a handler off; what is left of each
  proof is the move the handler makes.
\<close>

section \<open>Peeling the steps of a handler\<close>

lemma outcome_next_revision:
  assumes "attempt next_revision k s = (r, t)"
    and "\<And>n. checked_next (pm_revision (a_model s)) = Some n \<Longrightarrow> k n s = (r, t) \<Longrightarrow> outcome s r t"
  shows "outcome s r t"
  using assms by (cases rule: attemptE) (auto simp: next_revision_Inl next_revision_Inr)

lemma outcome_check_revision:
  assumes "attempt (check_revision x) k s = (r, t)"
    and "x = pm_revision (a_model s) \<Longrightarrow> k () s = (r, t) \<Longrightarrow> outcome s r t"
  shows "outcome s r t"
  using assms by (cases rule: attemptE) (auto simp: check_revision_Inl check_revision_Inr)

lemma outcome_step:
  assumes "attempt m k u = (r, t)" and "quiet s u"
    and m: "\<And>x v. m u = (x, v) \<Longrightarrow> quiet u v \<and> x \<noteq> Inl Panicked"
    and "\<And>a v. m u = (Inr a, v) \<Longrightarrow> quiet s v \<Longrightarrow> k a v = (r, t) \<Longrightarrow> outcome s r t"
  shows "outcome s r t"
  using assms(1)
proof (cases rule: attemptE)
  case (early e)
  then show ?thesis using m [OF early(1)] assms(2) by (auto intro: outcome_quiet quiet_trans)
next
  case (later a v)
  then show ?thesis using m [OF later(1)] assms(2) by (auto intro: assms(4) quiet_trans)
qed

lemma outcome_call:
  assumes "attempt (call_port env e c) k u = (r, t)" and "quiet s u"
    and "\<And>v. quiet s v \<Longrightarrow> a_playback_generation v = a_playback_generation u \<Longrightarrow>
      k () v = (r, t) \<Longrightarrow> outcome s r t"
  shows "outcome s r t"
  by (rule outcome_step [OF assms(1,2)]) (auto dest: call_port_quiet intro: assms(3))

lemma outcome_setting:
  assumes "attempt (when_connected env e c) k u = (r, t)" and "quiet s u"
    and "\<And>v. quiet s v \<Longrightarrow> k () v = (r, t) \<Longrightarrow> outcome s r t"
  shows "outcome s r t"
  by (rule outcome_step [OF assms(1,2)]) (auto dest: when_connected_quiet intro: assms(3))

lemma outcome_generation:
  assumes "attempt next_playback_generation k u = (r, t)" and "quiet s u"
    and "\<And>g v. quiet s v \<Longrightarrow> a_playback_generation s < g \<Longrightarrow> a_playback_generation v = g \<Longrightarrow>
      k g v = (r, t) \<Longrightarrow> outcome s r t"
  shows "outcome s r t"
proof (rule outcome_step [OF assms(1,2)])
  fix g v
  assume g: "next_playback_generation u = (Inr g, v)" "quiet s v" "k g v = (r, t)"
  have "a_playback_generation s \<le> a_playback_generation u" using assms(2) by (simp add: quiet_def)
  then show "outcome s r t"
    using next_playback_generation_quiet [OF g(1)] g(2,3)
    by (blast intro: assms(3) order.strict_trans1)
qed (auto dest: next_playback_generation_quiet)

lemma outcome_update:
  assumes "finish_change env w next (update_model f u) = (r, t)" and "quiet s u"
    and "checked_next (pm_revision (a_model s)) = Some next"
    and "w = is_idle_connected (a_model s)"
    and "player_move (a_config s) (a_model s) (f (a_model s))"
    and "\<And>b. pm_current (f (a_model s)) = Some b \<Longrightarrow>
      (\<exists>a. pm_current (a_model s) = Some a \<and> active_identity a = active_identity b) \<or>
      (a_playback_generation s < at_generation b \<and> at_generation b \<le> a_playback_generation u)"
  shows "outcome s r t"
proof (rule outcome_commit [OF assms(1,4,3)])
  have u: "a_model u = a_model s" "a_playback_generation s \<le> a_playback_generation u"
    using assms(2) by (simp_all add: quiet_def)
  show "same_shell s (update_model f u)" using assms(2) by (simp add: quiet_def)
  show "player_move (a_config s) (a_model s) (a_model (update_model f u))" using assms(5) u by simp
  have pg: "a_playback_generation (update_model f u) = a_playback_generation u"
    by (simp add: update_model_def)
  show "fresh_current s (update_model f u)"
    unfolding fresh_current_def pg using u assms(6) by auto
qed

lemma quietD: "quiet s t \<Longrightarrow> a_model t = a_model s" "quiet s t \<Longrightarrow> a_config t = a_config s"
  by (simp_all add: quiet_def same_shell_def)

section \<open>Settings\<close>

lemma move_unshuffle: "player_move c m (m\<lparr>pm_shuffle_enabled := enabled\<rparr>)"
  using player_move.shuffle [where queue = "pm_queue m" and m = m and enabled = enabled] by simp

lemma move_spatial: "player_move c m (m\<lparr>pm_spatial_audio_enabled := enabled\<rparr>)"
  using player_move.audio [where preset = "pm_hrir_preset m" and m = m and c = c and enabled = enabled] by simp

lemma set_volume_outcome:
  assumes "set_volume env v s = (r, t)" and "volume_wf v"
  shows "outcome s r t"
proof (cases "pm_volume (a_model s) = v")
  case True
  then show ?thesis using assms(1) by (auto simp: set_volume_def)
next
  case False
  note run = assms(1) [unfolded set_volume_def Let_def if_not_P [OF False]]
  show ?thesis
    by (rule outcome_next_revision [OF run], erule outcome_setting [OF _ quiet_refl], erule outcome_update)
      (auto simp: quietD intro: player_move.volume assms(2))
qed

lemma set_repeat_outcome:
  assumes "set_repeat env mode s = (r, t)"
  shows "outcome s r t"
proof (cases "pm_repeat_mode (a_model s) = mode")
  case True
  then show ?thesis using assms(1) by (auto simp: set_repeat_def)
next
  case False
  note run = assms(1) [unfolded set_repeat_def Let_def if_not_P [OF False]]
  show ?thesis
    by (rule outcome_next_revision [OF run], erule outcome_update)
      (auto intro: player_move.repeat)
qed

lemma set_shuffle_outcome:
  assumes "set_shuffle env enabled key s = (r, t)"
  shows "outcome s r t"
proof (cases "pm_shuffle_enabled (a_model s) = enabled")
  case True
  then show ?thesis using assms(1) by (auto simp: set_shuffle_def)
next
  case False
  note run = assms(1) [unfolded set_shuffle_def Let_def if_not_P [OF False]]
  show ?thesis
    by (rule outcome_next_revision [OF run], erule outcome_update)
      (auto simp: mset_shuffle_queue intro: player_move.shuffle move_unshuffle)
qed

lemma set_hrir_outcome:
  assumes "set_hrir env preset s = (r, t)"
  shows "outcome s r t"
proof (cases "pm_hrir_preset (a_model s) = Some preset \<and> pm_spatial_audio_enabled (a_model s)")
  case True
  then show ?thesis using assms(1) by (auto simp: set_hrir_def)
next
  case False
  note run = assms(1) [unfolded set_hrir_def Let_def if_not_P [OF False]]
  show ?thesis
    by (rule outcome_next_revision [OF run], erule outcome_setting [OF _ quiet_refl], erule outcome_update)
      (auto simp: quietD intro: player_move.audio)
qed

lemma set_spatial_outcome:
  assumes "set_spatial env enabled s = (r, t)"
  shows "outcome s r t"
proof (cases "pm_spatial_audio_enabled (a_model s) = enabled")
  case True
  then show ?thesis using assms(1) by (auto simp: set_spatial_def)
next
  case False
  note run = assms(1) [unfolded set_spatial_def Let_def if_not_P [OF False]]
  show ?thesis
    by (rule outcome_next_revision [OF run], erule outcome_setting [OF _ quiet_refl], erule outcome_update)
      (auto simp: quietD intro: move_spatial)
qed

lemma disconnect_outcome:
  assumes "disconnect env s = (r, t)"
  shows "outcome s r t"
proof (cases "pm_voice_channel_id (a_model s) = None")
  case True
  then show ?thesis using assms(1) by (auto simp: disconnect_def)
next
  case False
  note run = assms(1) [unfolded disconnect_def Let_def if_not_P [OF False]]
  show ?thesis
    by (rule outcome_next_revision [OF run], erule outcome_call [OF _ quiet_refl], erule outcome_update)
      (auto simp: quietD clear_disconnected_model_def intro: player_move.disconnect [unfolded clear_disconnected_model_def])
qed

section \<open>Transport\<close>

lemma active_identity_simps [simp]:
  "active_identity (active_resume now a) = active_identity a"
  "active_identity (active_pause now a) = active_identity a"
  "at_track (active_resume now a) = at_track a" "at_track (active_pause now a) = at_track a"
  "at_track (active_seek p adv g now a) = at_track a"
  "at_generation (active_seek p adv g now a) = g"
  "at_track (active_playing track g now) = track"
  "at_generation (active_playing track g now) = g"
  by (simp_all add: active_identity_def active_resume_def active_pause_def active_seek_def
      active_playing_def)

lemma move_seek:
  assumes "model_wf c m" and "pm_current m = Some a" and "at_track b = at_track a"
  shows "player_move c m (m\<lparr>pm_current := Some b\<rparr>)"
proof -
  have "pm_state m \<in> {Playing, Paused}" using assms by (auto simp: model_wf_def phase_wf_def)
  then have "player_move c m (m\<lparr>pm_current := Some b, pm_state := pm_state m\<rparr>)"
    by (rule player_move.retime [OF assms(2,3)])
  then show ?thesis by simp
qed

lemma resume_outcome:
  assumes "resume env s = (r, t)" and a: "pm_current (a_model s) = Some a"
  shows "outcome s r t"
  by (rule outcome_next_revision [OF assms(1) [unfolded resume_def Let_def]],
      erule outcome_call [OF _ quiet_refl], simp add: quietD a, erule outcome_update)
    (auto simp: a intro!: player_move.retime)

lemma pause_outcome:
  assumes "pause env s = (r, t)" and a: "pm_current (a_model s) = Some a"
  shows "outcome s r t"
  by (rule outcome_next_revision [OF assms(1) [unfolded pause_def Let_def]],
      erule outcome_call [OF _ quiet_refl], simp add: quietD a, erule outcome_update)
    (auto simp: a intro!: player_move.retime)

lemma seek_outcome:
  assumes "seek env p s = (r, t)" and a: "pm_current (a_model s) = Some a"
    and "model_wf (a_config s) (a_model s)"
  shows "outcome s r t"
  by (rule outcome_next_revision [OF assms(1) [unfolded seek_def Let_def]],
      erule outcome_generation [OF _ quiet_refl], erule outcome_call, assumption,
      simp add: quietD a, erule outcome_update)
    (auto simp: a intro!: move_seek [OF assms(3)])

lemma stop_outcome:
  assumes "stop env s = (r, t)" and wf: "pm_voice_channel_id (a_model s) \<noteq> None"
  shows "outcome s r t"
proof (cases "pm_current (a_model s) \<noteq> None \<or> pm_queue (a_model s) \<noteq> [] \<or> pm_history (a_model s) \<noteq> []")
  case False
  then show ?thesis using assms(1) by (auto simp: stop_def)
next
  case True
  then have False: "\<not> \<not> (pm_current (a_model s) \<noteq> None \<or> pm_queue (a_model s) \<noteq> [] \<or>
    pm_history (a_model s) \<noteq> [])" by simp
  note run = assms(1) [unfolded stop_def Let_def if_not_P [OF False]]
  note move = player_move.stop [OF wf, of "a_config s", unfolded clear_playback_def]
  show ?thesis
    by (rule outcome_next_revision [OF run], erule outcome_step [OF _ quiet_refl])
      (auto simp: quietD intro: move dest: call_port_quiet split: if_splits elim: outcome_update)
qed

section \<open>Skipping and going back\<close>

lemma update_model_compose: "update_model f (update_model g s) = update_model (\<lambda>m. f (g m)) s"
  by (simp add: update_model_def)

lemma update_model_config [simp]: "a_config (update_model f s) = a_config s"
  "a_playback_generation (update_model f s) = a_playback_generation s"
  by (simp_all add: update_model_def)

lemma push_history_alt:
  "push_history track s = update_model (push_history_model (max_queued_tracks (a_config s)) track) s"
  by (simp add: push_history_def push_history_model_def update_model_def Let_def)

lemma settle_after_take:
  "update_model (\<lambda>m. m\<lparr>pm_current := current, pm_queue := drop 1 (pm_queue m),
       pm_state := (if current = None then IdleConnected else Playing)\<rparr>)
     (push_history track (update_model (\<lambda>m. m\<lparr>pm_current := None\<rparr>) s)) =
   update_model (\<lambda>m. settle current (drop 1 (pm_queue m))
     (push_history_model (max_queued_tracks (a_config s)) track m)) s"
  by (simp add: push_history_alt update_model_def push_history_model_def settle_def Let_def)

lemma skip_outcome:
  assumes run: "skip env s = (r, t)" and a: "pm_current (a_model s) = Some a"
  shows "outcome s r t"
proof (rule outcome_next_revision [OF run [unfolded skip_def Let_def]], erule outcome_step [OF _ quiet_refl],
    goal_cases)
  case (1 n x v)
  then show ?case
    by (auto dest: call_port_quiet next_playback_generation_quiet elim!: attemptE split: list.splits
        intro: quiet_trans)
next
  case (2 n g v)
  have v: "a_model v = a_model s" "a_config v = a_config s" using 2 by (simp_all add: quietD)
  have push: "a_model (push_history tr (update_model (\<lambda>m. m\<lparr>pm_current := None\<rparr>) v)) =
      push_history_model (max_queued_tracks (a_config s)) tr ((a_model v)\<lparr>pm_current := None\<rparr>)" for tr
    by (simp add: push_history_alt v)
  show ?case
  proof (cases "pm_queue (a_model s)")
    case Nil
    then have "g = None" using 2(2) by (auto elim!: attemptE)
    then show ?thesis
      using 2 Nil player_move.skip_last [OF a Nil, of "a_config s"]
      by (auto simp: v a push settle_after_take [where current = None, simplified]
          elim!: outcome_update)
  next
    case (Cons track rest)
    then obtain h where h: "g = Some h" "a_playback_generation s < h" "h \<le> a_playback_generation v"
      using 2(2) by (auto elim!: attemptE dest!: call_port_quiet next_playback_generation_quiet)
    obtain now where "finish_change env (is_idle_connected (a_model s)) n
      (update_model (\<lambda>m. settle (Some (active_playing track h now)) (drop 1 (pm_queue m))
        (push_history_model (max_queued_tracks (a_config s)) (at_track a) m)) v) = (r, t)"
      using 2(4) by (simp add: v a push h(1) Cons settle_after_take [where current = "Some b" for b, simplified])
    then show ?thesis
      by (rule outcome_update [OF _ 2(3) 2(1)])
        (use h Cons player_move.skip [OF a, of "active_playing track h now" rest] in auto)
  qed
qed

lemma previous_length:
  assumes "queue = map at_track (option_list current) @
    (case position P q of None \<Rightarrow> q | Some i \<Rightarrow> remove_at i q)"
  shows "length queue = length q - (if position P q \<noteq> None then 1 else 0) + (if current \<noteq> None then 1 else 0)"
  using assms by (cases current; cases "position P q") (auto dest: position_Some simp: deque_simps)

lemma previous_outcome:
  assumes run: "previous env s = (r, t)" and h: "pm_history (a_model s) \<noteq> []"
  shows "outcome s r t"
proof -
  let ?m = "a_model s"
  let ?track = "last (pm_history ?m)"
  let ?index = "position (\<lambda>track. qt_track_id track = qt_track_id ?track) (pm_queue ?m)"
  let ?others = "case ?index of None \<Rightarrow> pm_queue ?m | Some i \<Rightarrow> remove_at i (pm_queue ?m)"
  let ?queue = "map at_track (option_list (pm_current ?m)) @ ?others"
  have len: "length ?queue = length (pm_queue ?m) - (if ?index \<noteq> None then 1 else 0) +
      (if pm_current ?m \<noteq> None then 1 else 0)" by (rule previous_length) simp
  note run = run [unfolded previous_def Let_def if_not_P [OF h], folded len]
  show ?thesis
  proof (cases "length ?queue > max_queued_tracks (a_config s)")
    case True
    from run [unfolded if_P [OF True]] show ?thesis by (rule outcome_fail)
  next
    case False
    have move: "player_move (a_config s) ?m (?m\<lparr>pm_history := butlast (pm_history ?m),
        pm_queue := ?queue, pm_current := Some b, pm_state := Playing\<rparr>)"
      if "at_track b = ?track" for b
      by (rule player_move.previous [where b = b and others = ?others])
        (use h False that in \<open>auto simp: linorder_not_less\<close>)
    have queue: "(case pm_current ?m of None \<Rightarrow> ?others | Some current \<Rightarrow> at_track current # ?others) = ?queue"
      by (cases "pm_current ?m") auto
    show ?thesis
      by (rule outcome_next_revision [OF run [unfolded if_not_P [OF False]]],
          erule outcome_generation [OF _ quiet_refl], erule outcome_call, assumption,
          erule outcome_update)
        (auto simp: quietD queue intro!: move)
  qed
qed

section \<open>The queue\<close>

lemma remove_queued_outcome:
  assumes run: "remove_queued env track_id s = (r, t)"
  shows "outcome s r t"
proof (cases "position (\<lambda>track. qt_track_id track = track_id) (pm_queue (a_model s))")
  case None
  with run show ?thesis by (auto simp: remove_queued_def intro: outcome_fail)
next
  case (Some i)
  from run have "attempt next_revision (\<lambda>next s. finish_change env (is_idle_connected (a_model s)) next
      (update_model (\<lambda>m. m\<lparr>pm_queue := remove_at i (pm_queue m)\<rparr>) s)) s = (r, t)"
    by (simp add: remove_queued_def Some Let_def)
  then show ?thesis
    by (rule outcome_next_revision) (erule outcome_update, use position_Some [OF Some] in
      \<open>auto intro: player_move.remove\<close>)
qed

lemma move_destination_le:
  assumes "move_destination q i before source = Inr d" and "source < length q"
  shows "d \<le> length q - 1"
  using assms by (auto simp: move_destination_def dest!: position_Some split: option.splits if_splits)

lemma mset_move:
  "i < length q \<Longrightarrow> mset (insert_at d (q ! i) (remove_at i q)) = mset q"
  by (simp add: deque_simps)

lemma move_queued_outcome:
  assumes run: "move_queued env track_id before s = (r, t)"
  shows "outcome s r t"
proof (cases "position (\<lambda>track. qt_track_id track = track_id) (pm_queue (a_model s))")
  case None
  with run show ?thesis by (auto simp: move_queued_def intro: outcome_fail)
next
  case (Some i)
  then have i: "i < length (pm_queue (a_model s))" by (simp add: position_Some)
  show ?thesis
  proof (cases "move_destination (pm_queue (a_model s)) track_id before i")
    case (Inl e)
    with Some run show ?thesis by (auto simp: move_queued_def intro: outcome_fail)
  next
    case (Inr d)
    show ?thesis
    proof (cases "d = i")
      case True
      with Some Inr run show ?thesis by (auto simp: move_queued_def)
    next
      case False
      with run have "attempt next_revision (\<lambda>next s. finish_change env (is_idle_connected (a_model s)) next
          (update_model (\<lambda>m. m\<lparr>pm_queue := insert_at d (pm_queue m ! i)
             (remove_at i (pm_queue m))\<rparr>) s)) s = (r, t)"
        by (simp add: move_queued_def Some Inr Let_def)
      then show ?thesis
        by (rule outcome_next_revision) (erule outcome_update, use i in
          \<open>auto intro!: player_move.reorder simp: mset_move\<close>)
    qed
  qed
qed

text \<open>Adding to the queue puts the track somewhere and touches nothing else.\<close>

lemma queue_add_shape:
  "\<exists>q. queue_add track m = m\<lparr>pm_queue := q\<rparr> \<and> mset q = add_mset track (mset (pm_queue m))"
  by (auto simp: queue_add_def mset_insert_shuffled)

lemma fold_queue_add_shape:
  "\<exists>q. fold queue_add tracks m = m\<lparr>pm_queue := q\<rparr> \<and> mset q = mset (pm_queue m) + mset tracks"
proof (induction tracks arbitrary: m)
  case Nil
  show ?case by (rule exI [of _ "pm_queue m"]) simp
next
  case (Cons track tracks)
  obtain q where q: "queue_add track m = m\<lparr>pm_queue := q\<rparr>" "mset q = add_mset track (mset (pm_queue m))"
    using queue_add_shape by blast
  obtain q' where "fold queue_add tracks (m\<lparr>pm_queue := q\<rparr>) = m\<lparr>pm_queue := q, pm_queue := q'\<rparr>"
    "mset q' = mset q + mset tracks" using Cons.IH [of "m\<lparr>pm_queue := q\<rparr>"] by auto
  with q show ?case by auto
qed

lemma start_playing_cases:
  assumes "start_playing env track s = (x, v)"
  obtains (failed) e where "x = Inl (Failed e)" "quiet s v"
  | (started) u g now where "x = Inr ()" "quiet s u" "a_playback_generation s < g"
      "a_playback_generation u = g"
      "v = update_model (\<lambda>m. m\<lparr>pm_current := Some (active_playing track g now), pm_state := Playing\<rparr>) u"
  using assms [unfolded start_playing_def]
proof (cases rule: attemptE)
  case (early e)
  then show thesis
    using next_playback_generation_quiet [OF early(1)] by (cases e) (auto intro: failed)
next
  case (later g u)
  note gen = next_playback_generation_quiet [OF later(1)]
  from later(2) show thesis
  proof (cases rule: attemptE)
    case (early e)
    then show thesis
      using gen call_port_quiet [OF early(1)] by (cases e) (auto intro: failed quiet_trans)
  next
    case (later a w)
    have "quiet s w" "a_playback_generation w = g"
      using gen call_port_quiet [OF later(1)] by (auto intro: quiet_trans)
    then show thesis
      using gen later(2) started [of w g "instant_now env w"] by auto
  qed
qed

lemma outcome_start:
  assumes run: "attempt (start_playing env track) k s = (r, t)"
    and "\<And>u g now. quiet s u \<Longrightarrow> a_playback_generation s < g \<Longrightarrow> a_playback_generation u = g \<Longrightarrow>
      k () (update_model (\<lambda>m. m\<lparr>pm_current := Some (active_playing track g now),
                              pm_state := Playing\<rparr>) u) = (r, t) \<Longrightarrow> outcome s r t"
  shows "outcome s r t"
  using run
proof (cases rule: attemptE)
  case (early e)
  then show ?thesis by (cases rule: start_playing_cases) (auto intro: outcome_quiet)
next
  case (later a v)
  from later(1) show ?thesis
    by (cases rule: start_playing_cases) (use later(2) in \<open>auto intro: assms(2)\<close>)
qed

lemma enqueue_outcome:
  assumes run: "enqueue env track expected s = (r, t)" and md: "metadata_wf (qt_metadata track)"
    and wf: "model_wf (a_config s) (a_model s)"
  shows "outcome s r t"
proof (rule outcome_check_revision [OF run [unfolded enqueue_def Let_def]], goal_cases)
  case 1
  note step = 1(2)
  show ?case
  proof (cases "pm_voice_channel_id (a_model s) = None \<or> \<not> has_valid_public_title track \<or>
      contains_track (a_model s) (qt_track_id track) \<or> (pm_current (a_model s) \<noteq> None \<and>
        max_queued_tracks (a_config s) \<le> length (pm_queue (a_model s)))")
    case True
    with step show ?thesis by (auto intro: outcome_fail split: if_splits)
  next
    case False
    have track: "track_wf track" using False md by (simp add: track_wf_def)
    have notin: "qt_track_id track \<notin> set (model_track_ids (a_model s))"
      using False by (simp add: contains_track_iff)
    show ?thesis
    proof (cases "pm_current (a_model s)")
      case None
      have len: "length (pm_queue (a_model s)) \<le> max_queued_tracks (a_config s)"
        using wf by (simp add: model_wf_def)
      have move: "player_move (a_config s) (a_model s) ((a_model s)\<lparr>pm_current := Some b, pm_state := Playing\<rparr>)"
        if "at_track b = track" for b
        using player_move.start [of "a_model s" b "[]" "pm_queue (a_model s)" "a_config s"] False that track
          notin None len
        by simp
      have "attempt next_revision (\<lambda>next s. attempt (start_playing env track)
          (\<lambda>_. finish_change env (is_idle_connected (a_model s)) next) s) s = (r, t)"
        using step False None by (auto simp: attempt_def next_revision_def split: option.splits)
      then show ?thesis
        by (rule outcome_next_revision) (erule outcome_start, erule outcome_update,
          auto intro!: move)
    next
      case (Some a)
      obtain q where q: "queue_add track (a_model s) = (a_model s)\<lparr>pm_queue := q\<rparr>"
        "mset q = add_mset track (mset (pm_queue (a_model s)))" using queue_add_shape by blast
      have "length q = Suc (length (pm_queue (a_model s)))" using arg_cong [OF q(2), of size] by simp
      then have move: "player_move (a_config s) (a_model s) (queue_add track (a_model s))"
        using player_move.enqueue [of "a_model s" "[track]" q "a_config s"] False track notin Some q
        by auto
      have "attempt next_revision (\<lambda>next s. finish_change env (is_idle_connected (a_model s)) next
          (update_model (queue_add track) s)) s = (r, t)"
        using step False Some by (auto simp: attempt_def next_revision_def split: option.splits)
      then show ?thesis
        by (rule outcome_next_revision) (erule outcome_update,
          auto simp: q(1) intro: move [unfolded q(1)])
    qed
  qed
qed

lemma length_of_mset: "mset q = mset xs + mset ys \<Longrightarrow> length q = length xs + length ys"
  by (metis size_mset size_union)

lemma check_batch_ok:
  "check_batch m seen tracks = Inr u \<longleftrightarrow> (\<forall>t \<in> set tracks. has_valid_public_title t) \<and>
     distinct (map qt_track_id tracks) \<and>
     set (map qt_track_id tracks) \<inter> (set seen \<union> set (model_track_ids m)) = {}"
  by (induction tracks arbitrary: seen) (auto simp: contains_track_iff)

lemma check_batch_fails: "check_batch m seen tracks = Inl e \<Longrightarrow> e \<in> {InvalidTrack ''title''} \<union> range DuplicateTrack"
  by (induction tracks arbitrary: seen) (auto split: if_splits)

lemma enqueue_batch_outcome:
  assumes run: "enqueue_batch env tracks expected s = (r, t)"
    and md: "\<forall>track \<in> set tracks. metadata_wf (qt_metadata track)"
  shows "outcome s r t"
proof (rule outcome_check_revision [OF run [unfolded enqueue_batch_def Let_def]], goal_cases)
  case 1
  note step = 1(2)
  let ?m = "a_model s" and ?limit = "max_queued_tracks (a_config s)"
  let ?total = "length (pm_queue ?m) + (length tracks - (if pm_current ?m = None then 1 else 0))"
  show ?case
  proof (cases "tracks = [] \<or> pm_voice_channel_id ?m = None \<or> \<not> ?total < 2 ^ 64 \<or> ?total > ?limit \<or>
      isl (check_batch ?m [] tracks)")
    case True
    with step show ?thesis by (auto intro: outcome_fail split: if_splits sum.splits)
  next
    case False
    then obtain u where u: "check_batch ?m [] tracks = Inr u" by (cases "check_batch ?m [] tracks") auto
    note ok = u [unfolded check_batch_ok]
    have tracks: "\<forall>t \<in> set tracks. track_wf t" using ok md by (simp add: track_wf_def)
    show ?thesis
    proof (cases "pm_current ?m")
      case None
      obtain first rest where split: "tracks = first # rest" using False by (cases tracks) auto
      have fold: "(fold queue_add rest (?m\<lparr>pm_current := Some b, pm_state := Playing\<rparr>)) =
          ?m\<lparr>pm_current := Some b, pm_state := Playing, pm_queue := q\<rparr> \<Longrightarrow>
          mset q = mset (pm_queue ?m) + mset rest \<Longrightarrow> at_track b = first \<Longrightarrow>
          player_move (a_config s) ?m (fold queue_add rest (?m\<lparr>pm_current := Some b, pm_state := Playing\<rparr>))"
        for b q
        using player_move.start [of ?m b rest q "a_config s"] False None tracks ok split
          length_of_mset [of q "pm_queue ?m" rest] by simp
      have move: "player_move (a_config s) ?m (fold queue_add rest (?m\<lparr>pm_current := Some b, pm_state := Playing\<rparr>))
          \<and> pm_current (fold queue_add rest (?m\<lparr>pm_current := Some b, pm_state := Playing\<rparr>)) = Some b"
        if "at_track b = first" for b
        using fold_queue_add_shape [of rest "?m\<lparr>pm_current := Some b, pm_state := Playing\<rparr>"] fold that
        by fastforce
      have "attempt next_revision (\<lambda>next s. attempt (start_playing env first)
          (\<lambda>_ u. finish_change env (is_idle_connected (a_model s)) next
            (update_model (fold queue_add rest) u)) s) s = (r, t)"
        using step False None u split by (auto simp: attempt_def next_revision_def split: option.splits)
      then show ?thesis
        by (rule outcome_next_revision) (erule outcome_start, simp only: update_model_compose,
          erule outcome_update, auto simp: move)
    next
      case (Some a)
      obtain q where q: "fold queue_add tracks ?m = ?m\<lparr>pm_queue := q\<rparr>"
        "mset q = mset (pm_queue ?m) + mset tracks" using fold_queue_add_shape by blast
      have move: "player_move (a_config s) ?m (fold queue_add tracks ?m)"
        using player_move.enqueue [of ?m tracks q "a_config s"] False tracks ok Some q
          length_of_mset [OF q(2)] by simp
      have "attempt next_revision (\<lambda>next s. finish_change env (is_idle_connected (a_model s)) next
          (update_model (fold queue_add tracks) s)) s = (r, t)"
        using step False Some u by (auto simp: attempt_def next_revision_def split: option.splits)
      then show ?thesis
        by (rule outcome_next_revision) (erule outcome_update,
          auto simp: q(1) intro: move [unfolded q(1)])
    qed
  qed
qed

section \<open>Connecting\<close>

lemma initialize_connection_quiet:
  "initialize_connection env s = (r, t) \<Longrightarrow> quiet s t \<and> r \<noteq> Inl Panicked"
  unfolding initialize_connection_def
  by (auto elim!: attemptE split: option.splits dest!: call_port_quiet) (blast intro: quiet_trans)+

lemma connect_outcome:
  assumes run: "connect env channel expected s = (r, t)"
    and wf: "model_wf (a_config s) (a_model s)"
  shows "outcome s r t"
proof (rule outcome_check_revision [OF run [unfolded connect_def]], goal_cases)
  case 1
  show ?case
  proof (cases "pm_voice_channel_id (a_model s)")
    case (Some connected)
    with 1(2) show ?thesis by (auto intro: outcome_fail split: if_splits)
  next
    case None
    have cur: "pm_current (a_model s) = None"
      using wf None by (cases "pm_current (a_model s)") (auto simp: model_wf_def phase_wf_def)
    note run = 1(2) [unfolded None option.case]
    show ?thesis
    proof (rule outcome_next_revision [OF run], erule outcome_call [OF _ quiet_refl], goal_cases)
      case (1 n v)
      obtain x w where w: "initialize_connection env v = (x, w)" by fastforce
      have q: "quiet s w" "x \<noteq> Inl Panicked"
        using initialize_connection_quiet [OF w] 1(2) by (auto intro: quiet_trans)
      show ?case
      proof (cases x)
        case (Inl e)
        then have "r = Inl e" "quiet w t"
          using 1(4) w ask_port_quiet [of env PortDisconnect w] by (auto simp: prod.case_eq_if)
            (metis prod.collapse)
        then show ?thesis using q Inl by (auto intro: outcome_quiet quiet_trans)
      next
        case (Inr u)
        then show ?thesis
          using 1 w q by (auto simp: Let_def quietD cur intro: player_move.connect [OF None]
              elim!: outcome_update)
      qed
    qed
  qed
qed

section \<open>The end of a track\<close>

lemma try_play_quiet:
  assumes "try_play env candidate s = (x, t)"
  shows "quiet s t" and "x = Some g \<Longrightarrow> a_playback_generation s < g \<and> g \<le> a_playback_generation t"
proof -
  obtain y u where u: "next_playback_generation s = (y, u)" by fastforce
  note gen = next_playback_generation_quiet [OF u]
  obtain z v where v: "\<And>h. y = Inr h \<Longrightarrow> ask_port env (PortPlay candidate h) u = (z, v)"
    by (cases y) fastforce+
  have both: "quiet s t \<and> (\<forall>g. x = Some g \<longrightarrow> a_playback_generation s < g \<and> g \<le> a_playback_generation t)"
  proof (cases y)
    case (Inl e)
    with assms u gen show ?thesis by (auto simp: try_play_def)
  next
    case (Inr h)
    note port = ask_port_quiet [OF v [OF Inr]]
    have "quiet s v" using gen port by (blast intro: quiet_trans)
    then show ?thesis
      using assms u v [OF Inr] gen port Inr by (auto simp: try_play_def split: option.splits)
  qed
  show "quiet s t" using both by simp
  show "a_playback_generation s < g \<and> g \<le> a_playback_generation t" if "x = Some g"
    using both that by simp
qed

lemma first_playable_started:
  assumes "first_playable env candidates s = (current, rest, t)"
  shows "quiet s t \<and> started_from candidates current rest \<and> (\<forall>b. current = Some b \<longrightarrow>
    a_playback_generation s < at_generation b \<and> at_generation b \<le> a_playback_generation t)"
  using assms
proof (induction candidates arbitrary: s)
  case Nil
  then show ?case by (auto intro: started_from.none)
next
  case (Cons candidate candidates)
  obtain x u where u: "try_play env candidate s = (x, u)" by fastforce
  note played = try_play_quiet [OF u]
  show ?case
  proof (cases x)
    case None
    then have IH: "quiet u t \<and> started_from candidates current rest \<and> (\<forall>b. current = Some b \<longrightarrow>
        a_playback_generation u < at_generation b \<and> at_generation b \<le> a_playback_generation t)"
      using Cons.prems u by (intro Cons.IH) simp
    have "a_playback_generation s \<le> a_playback_generation u" using played(1) by (simp add: quiet_def)
    moreover have "started_from (candidate # candidates) current rest"
      using IH started_from.some [of _ "candidate # dropped" for dropped] started_from.none
      by (auto elim!: started_fromE)
    ultimately show ?thesis using IH played(1) by (auto intro: quiet_trans order.strict_trans1)
  next
    case (Some g)
    with Cons.prems u have "current = Some (active_playing candidate g (instant_now env u))"
      "rest = candidates" "t = u" by auto
    then show ?thesis
      using played(1) played(2) [OF Some]
        started_from.some [of "candidate # candidates" "[]" "the current" candidates] by auto
  qed
qed

text \<open>What becomes current after a natural end, and what the history does.\<close>

definition replayed :: "queue_track \<Rightarrow> queue_track list \<Rightarrow> active_track option \<Rightarrow> queue_track list \<Rightarrow> bool" where
  "replayed finished candidates current rest \<longleftrightarrow>
     (\<exists>b. current = Some b \<and> at_track b = finished) \<and> rest = candidates"

definition ended_cases ::
  "queue_track \<Rightarrow> queue_track list \<Rightarrow> 'w actor \<Rightarrow> active_track option \<Rightarrow> queue_track list \<Rightarrow> 'w actor \<Rightarrow> bool" where
  "ended_cases finished candidates s current rest t \<longleftrightarrow> same_shell s t \<and>
     a_playback_generation s \<le> a_playback_generation t \<and>
     (\<forall>b. current = Some b \<longrightarrow>
        a_playback_generation s < at_generation b \<and> at_generation b \<le> a_playback_generation t) \<and>
     (a_model t = a_model s \<and> (replayed finished candidates current rest \<or> started_from candidates current rest) \<or>
      a_model t = push_history_model (max_queued_tracks (a_config s)) finished (a_model s) \<and>
        (started_from candidates current rest \<or>
         candidates \<noteq> [] \<and> started_from (candidates @ [finished]) current rest))"

lemma pushed_started:
  assumes "first_playable env queue (push_history finished u) = (current, rest, t)" and "quiet s u"
    and "queue = candidates \<or> candidates \<noteq> [] \<and> queue = candidates @ [finished]"
  shows "ended_cases finished candidates s current rest t"
proof -
  note started = first_playable_started [OF assms(1)]
  have "a_playback_generation s \<le> a_playback_generation u" "same_shell s u"
    using assms(2) by (simp_all add: quiet_def)
  moreover have "same_shell u (push_history finished u)" by (simp add: push_history_alt)
  ultimately show ?thesis
    using started assms(2,3)
    by (auto simp: ended_cases_def quiet_def push_history_alt same_shell_def
        intro: order_trans order.strict_trans1)
qed

lemma replay_or_else_cases:
  assumes "replay_or_else env finished candidates s = (current, rest, t)"
  shows "ended_cases finished candidates s current rest t"
proof -
  obtain x u where u: "try_play env finished s = (x, u)" by fastforce
  note played = try_play_quiet [OF u]
  show ?thesis
  proof (cases x)
    case None
    with assms u have "first_playable env candidates (push_history finished u) = (current, rest, t)"
      by (simp add: replay_or_else_def)
    then show ?thesis by (rule pushed_started [OF _ played(1)]) simp
  next
    case (Some g)
    with assms u played(1) played(2) [OF Some] show ?thesis
      by (auto simp: replay_or_else_def ended_cases_def replayed_def quiet_def)
  qed
qed

lemma after_natural_end_cases:
  assumes "after_natural_end env finished candidates s = (current, rest, t)"
  shows "ended_cases finished candidates s current rest t"
  using assms
  by (auto simp: after_natural_end_def intro: replay_or_else_cases
      pushed_started [OF _ quiet_refl] split: repeat_mode.splits if_splits)

lemma playback_ended_outcome:
  assumes run: "playback_ended env identity reason s = (r, t)"
    and wf: "model_wf (a_config s) (a_model s)"
  shows "outcome s r t"
proof (cases "is_some_and (\<lambda>a. active_identity a = identity) (pm_current (a_model s))")
  case False
  with run show ?thesis
    by (auto simp: playback_ended_def is_some_and_def split: option.splits if_splits)
next
  case True
  then obtain a where a: "pm_current (a_model s) = Some a" "active_identity a = identity"
    by (auto simp: is_some_and_def split: option.splits)
  let ?m = "a_model s"
  let ?s1 = "update_model (\<lambda>m. m\<lparr>pm_current := None, pm_queue := []\<rparr>) s"
  obtain current rest s2 where select: "(if is_natural reason
      then after_natural_end env (at_track a) (pm_queue ?m) ?s1
      else first_playable env (pm_queue ?m) ?s1) = (current, rest, s2)" by (metis prod_cases3)
  have cases: "ended_cases (at_track a) (pm_queue ?m) ?s1 current rest s2"
  proof (cases "is_natural reason")
    case True
    with select show ?thesis by (auto intro: after_natural_end_cases)
  next
    case False
    with select have "first_playable env (pm_queue ?m) ?s1 = (current, rest, s2)" by simp
    from first_playable_started [OF this] show ?thesis by (auto simp: ended_cases_def quiet_def)
  qed
  let ?u = "update_model (\<lambda>m. m\<lparr>pm_queue := rest, pm_current := current,
      pm_state := (if current = None then IdleConnected else Playing)\<rparr>) s2"
  have run': "attempt next_revision (\<lambda>next s. finish_change env (is_idle_connected (a_model s)) next ?u) s = (r, t)"
    using run a select
    by (auto simp: playback_ended_def attempt_def next_revision_def Let_def split: option.splits)
  let ?pushed = "push_history_model (max_queued_tracks (a_config s)) (at_track a) ?m"
  have same: "a_model s2 = a_model ?s1 \<Longrightarrow> a_model ?u = settle current rest ?m"
    and pushed: "a_model s2 = push_history_model (max_queued_tracks (a_config s)) (at_track a) (a_model ?s1) \<Longrightarrow>
      a_model ?u = settle current rest ?pushed"
    by (simp_all add: settle_def push_history_model_def Let_def)
  note ended = cases [unfolded ended_cases_def replayed_def update_model_config]
  from ended consider
      (repeat) b where "a_model s2 = a_model ?s1" "current = Some b" "at_track b = at_track a" "rest = pm_queue ?m"
    | (dropped) "a_model s2 = a_model ?s1" "started_from (pm_queue ?m) current rest"
    | (history) "a_model ?u = settle current rest ?pushed" "started_from (pm_queue ?m) current rest"
    | (wrapped) "a_model ?u = settle current rest ?pushed" "pm_queue ?m \<noteq> []"
        "started_from (pm_queue ?m @ [at_track a]) current rest"
    using pushed by blast
  then have move: "player_move (a_config s) ?m (a_model ?u)"
  proof cases
    case repeat
    have "player_move (a_config s) ?m (settle current rest ?m)"
      unfolding repeat(2,4) by (rule player_move.ended_repeat [OF a(1) repeat(3)])
    then show ?thesis unfolding same [OF repeat(1)] .
  next
    case dropped
    show ?thesis unfolding same [OF dropped(1)] by (rule player_move.ended [OF a(1) dropped(2)])
  next
    case history
    show ?thesis unfolding history(1) by (rule player_move.ended_history [OF a(1) history(2)])
  next
    case wrapped
    show ?thesis unfolding wrapped(1) by (rule player_move.ended_wrapped [OF a(1) wrapped(2,3)])
  qed
  have current: "pm_current (a_model ?u) = current" by simp
  have shell: "same_shell s ?u"
    using cases same_shell_trans [of s ?s1 s2] by (simp add: ended_cases_def)
  have fresh: "fresh_current s ?u"
    unfolding fresh_current_def current using cases by (simp add: ended_cases_def)
  show ?thesis
    by (rule outcome_next_revision [OF run'], erule outcome_commit [OF _ refl _ shell move fresh])
qed

section \<open>Observed voice state, expiration and shutdown\<close>

lemma disconnect_best_effort_quiet:
  "quiet s (disconnect_best_effort env s) \<and>
   a_playback_generation (disconnect_best_effort env s) = a_playback_generation s"
  by (auto simp: disconnect_best_effort_def report_background_def emit_def
      split: prod.splits option.splits dest!: ask_port_quiet)
    (simp add: quiet_def same_shell_def published_revisions_def)

lemma connect_observed_channel_quiet:
  assumes "connect_observed_channel env channel s = (x, t)"
  shows "quiet s t"
proof -
  obtain y u where u: "ask_port env (PortConnect channel) s = (y, u)" by fastforce
  have emitted: "quiet s (report_background e m u)" for e m
    using ask_port_quiet [OF u] by (simp add: report_background_def)
  show ?thesis
    using assms u ask_port_quiet [OF u] emitted disconnect_best_effort_quiet
    by (cases y) (auto simp: connect_observed_channel_def, blast intro: quiet_trans)
qed

lemma clear_disconnected_alt: "clear_disconnected = update_model clear_disconnected_model"
  by (rule ext) (simp add: clear_disconnected_def update_model_def clear_disconnected_model_def)

lemma reconcile_voice_channel_outcome:
  assumes run: "reconcile_voice_channel env observed s = (r, t)"
  shows "outcome s r t"
proof (cases "pm_voice_channel_id (a_model s) = observed")
  case True
  with run show ?thesis by (auto simp: reconcile_voice_channel_def)
next
  case False
  note run = run [unfolded reconcile_voice_channel_def Let_def if_not_P [OF False] clear_disconnected_alt]
  have cleared: "outcome s r t" if "finish_change env (is_idle_connected (a_model s)) n
      (update_model clear_disconnected_model u) = (r, t)"
    and "checked_next (pm_revision (a_model s)) = Some n" "quiet s u" for n u
    by (rule outcome_update [OF that(1,3,2) refl player_move.disconnect])
      (simp add: clear_disconnected_model_def)
  show ?thesis
  proof (rule outcome_next_revision [OF run], cases observed, goal_cases)
    case (1 n)
    then show ?case using disconnect_best_effort_quiet [of s env] by (auto intro: cleared)
  next
    case (2 n channel)
    obtain x u where u: "connect_observed_channel env channel s = (x, u)" by fastforce
    note q = connect_observed_channel_quiet [OF u]
    show ?case
    proof (cases x)
      case True
      have "finish_change env (is_idle_connected (a_model s)) n (update_model
          (\<lambda>m. m\<lparr>pm_voice_channel_id := Some channel,
               pm_state := (if pm_current m = None then IdleConnected else pm_state m)\<rparr>) u) = (r, t)"
        using 2 u True by simp
      then show ?thesis
        by (rule outcome_update [OF _ q 2(1) refl], intro player_move.rejoin)
          (use 2 \<open>pm_voice_channel_id (a_model s) \<noteq> observed\<close> in auto)
    next
      case False
      show ?thesis using 2 u False q by (auto intro: cleared)
    qed
  qed
qed

section \<open>Commands\<close>

text \<open>
  What the types of a command's fields guarantee: a volume is within its range, for
  \<open>Volume::new\<close> is its only constructor.
\<close>

definition command_wf :: "player_command \<Rightarrow> bool" where
  "command_wf command \<longleftrightarrow> (\<forall>v. command = SetVolume v \<longrightarrow> volume_wf v)"

lemma execute_outcome:
  assumes run: "execute env command key s = (r, t)"
    and wf: "model_wf (a_config s) (a_model s)" and cmd: "command_wf command"
    and ready: "command_ready command (current_snapshot env s)"
  shows "outcome s r t"
proof -
  have phase: "phase_wf (a_model s)" using wf by (simp add: model_wf_def)
  have current: "\<exists>a. pm_current (a_model s) = Some a"
    if "command \<in> {Play, Pause, Skip} \<or> (\<exists>p. command = Seek p)"
    using ready phase that
    by (auto simp: command_ready_def current_snapshot_def model_snapshot_def phase_wf_def)
  have connected: "pm_voice_channel_id (a_model s) \<noteq> None" if "command = Stop"
    using ready phase that
    by (auto simp: command_ready_def current_snapshot_def model_snapshot_def phase_wf_def)
  have history: "pm_history (a_model s) \<noteq> []" if "command = Previous"
    using ready that by (auto simp: command_ready_def current_snapshot_def model_snapshot_def)
  show ?thesis
  proof (cases command)
    case Play
    with run obtain a where "resume env s = (r, t)" "pm_current (a_model s) = Some a"
      using current by auto
    then show ?thesis by (rule resume_outcome)
  next
    case Pause
    with run obtain a where "pause env s = (r, t)" "pm_current (a_model s) = Some a"
      using current by auto
    then show ?thesis by (rule pause_outcome)
  next
    case Skip
    with run obtain a where "skip env s = (r, t)" "pm_current (a_model s) = Some a"
      using current by auto
    then show ?thesis by (rule skip_outcome)
  next
    case (Seek p)
    with run obtain a where "seek env p s = (r, t)" "pm_current (a_model s) = Some a"
      using current by auto
    then show ?thesis by (rule seek_outcome [OF _ _ wf])
  next
    case (SetVolume v)
    with run cmd show ?thesis by (auto simp: command_wf_def intro: set_volume_outcome)
  qed (use run connected history in \<open>auto intro: outcome_fail stop_outcome previous_outcome
      remove_queued_outcome move_queued_outcome set_repeat_outcome set_shuffle_outcome
      set_hrir_outcome set_spatial_outcome disconnect_outcome\<close>)
qed

text \<open>The three ways a command can go.\<close>

lemma apply_command_cases:
  assumes "apply_command env envelope s = (r, t)"
  obtains
    (replayed) "ce_idempotency_key envelope \<in> set (a_recent_idempotency s)"
      "r = Inr (current_snapshot env s)" "t = s"
  | (refused) e where "envelope_validate_against envelope (current_snapshot env s) (unix_now env s) = Inl e"
      "r = Inl (Failed (InvalidCommand e))" "t = s"
  | (failed) e where "envelope_validate_against envelope (current_snapshot env s) (unix_now env s) = Inr ()"
      "execute env (ce_command envelope) (ce_idempotency_key envelope) s = (Inl e, t)" "r = Inl e"
  | (applied) snap u where
      "envelope_validate_against envelope (current_snapshot env s) (unix_now env s) = Inr ()"
      "execute env (ce_command envelope) (ce_idempotency_key envelope) s = (Inr snap, u)"
      "r = Inr snap" "t = remember_idempotency (ce_idempotency_key envelope) u"
proof (cases "ce_idempotency_key envelope \<in> set (a_recent_idempotency s)")
  case True
  with assms show thesis by (intro replayed) (auto simp: apply_command_def)
next
  case False
  note run = assms [unfolded apply_command_def if_not_P [OF False]]
  show thesis
  proof (cases "envelope_validate_against envelope (current_snapshot env s) (unix_now env s)")
    case (Inl e)
    with run show thesis by (intro refused) (auto simp: fail_def)
  next
    case (Inr u)
    with run have "attempt (execute env (ce_command envelope) (ce_idempotency_key envelope))
        (\<lambda>snapshot t. (Inr snapshot, remember_idempotency (ce_idempotency_key envelope) t)) s = (r, t)"
      by simp
    then show thesis
    proof (cases rule: attemptE)
      case (early e)
      with Inr show thesis by (intro failed) simp_all
    next
      case (later snap u)
      with Inr show thesis by (intro applied) auto
    qed
  qed
qed

lemma remember_idempotency_frame [simp]:
  "a_model (remember_idempotency key s) = a_model s"
  "a_config (remember_idempotency key s) = a_config s"
  "a_timers (remember_idempotency key s) = a_timers s"
  "a_idle_timer (remember_idempotency key s) = a_idle_timer s"
  "a_playback_generation (remember_idempotency key s) = a_playback_generation s"
  "published_revisions (remember_idempotency key s) = published_revisions s"
  by (simp_all add: remember_idempotency_def published_revisions_def)

end
