(* ===== verification/Player_Runtime.thy ===== *)
theory Player_Runtime
  imports Player_Refines
begin

text \<open>
  The actor's loop: the requests of \<open>request.rs\<close>, their dispatch and \<open>run\<close> in
  \<open>actor/runtime.rs\<close>, as a step relation over runs. A step handles one request from
  the mailbox, one expiration from the timer mailbox, lets the timer task fire, lets
  the world change, or ends the loop when every handle is gone. The two interfaces
  \<open>invariant_machine\<close> and \<open>monotone_machine\<close> are interpreted on this machine.
\<close>

section \<open>Requests and their dispatch\<close>

datatype player_request =
  ReqConnect channel_id state_revision
  | ReqEnqueue queue_track state_revision
  | ReqEnqueueBatch "queue_track list" state_revision
  | ReqApply command_envelope
  | ReqPlaybackEnded playback_identity playback_end_reason
  | ReqReconcileVoiceChannel "channel_id option"
  | ReqSnapshot
  | ReqShutdown

datatype player_reply =
  ReplyMutation "player_error + player_snapshot"
  | ReplySnapshot player_snapshot
  | ReplyShutdown shutdown_report

text \<open>
  The reply of a request and the report when the loop must return. A panic unwinds
  the task, so it has neither.
\<close>

datatype handled = Handled player_reply "shutdown_report option" | Unwound

definition mutation_reply :: "(fault + player_snapshot) \<times> 'w actor \<Rightarrow> handled \<times> 'w actor" where
  "mutation_reply result =
     (case result of
        (Inr snapshot, t) \<Rightarrow> (Handled (ReplyMutation (Inr snapshot)) None, t)
      | (Inl (Failed e), t) \<Rightarrow> (Handled (ReplyMutation (Inl e)) None, t)
      | (Inl Panicked, t) \<Rightarrow> (Unwound, t))"

fun handle_request :: "'w env \<Rightarrow> player_request \<Rightarrow> 'w actor \<Rightarrow> handled \<times> 'w actor" where
  "handle_request env (ReqConnect channel expected) s = mutation_reply (connect env channel expected s)"
| "handle_request env (ReqEnqueue track expected) s = mutation_reply (enqueue env track expected s)"
| "handle_request env (ReqEnqueueBatch tracks expected) s =
     mutation_reply (enqueue_batch env tracks expected s)"
| "handle_request env (ReqApply envelope) s = mutation_reply (apply_command env envelope s)"
| "handle_request env (ReqPlaybackEnded identity reason) s =
     mutation_reply (playback_ended env identity reason s)"
| "handle_request env (ReqReconcileVoiceChannel channel) s =
     mutation_reply (reconcile_voice_channel env channel s)"
| "handle_request env ReqSnapshot s = (Handled (ReplySnapshot (current_snapshot env s)) None, s)"
| "handle_request env ReqShutdown s =
     (case graceful_shutdown env s of (report, t) \<Rightarrow>
        (Handled (ReplyShutdown report)
           (if sr_disconnect_error report = None then Some report else None), t))"

section \<open>The loop\<close>

datatype 'w run = Running "'w actor" | Returned shutdown_report "'w actor" | Crashed "'w actor"

fun run_actor :: "'w run \<Rightarrow> 'w actor" where
  "run_actor (Running s) = s"
| "run_actor (Returned report s) = s"
| "run_actor (Crashed s) = s"

text \<open>\<open>run\<close> publishes the initial snapshot before it enters the loop.\<close>

definition run_start :: "'w env \<Rightarrow> 'w actor \<Rightarrow> 'w run" where
  "run_start env s = Running (publish env (current_snapshot env s) s)"

definition spawned :: "'w env \<Rightarrow> guild_id \<Rightarrow> state_revision \<Rightarrow> 'w \<Rightarrow> player_config \<Rightarrow> 'w run" where
  "spawned env guild revision world config = run_start env (actor_new guild revision world config)"

definition request_turn :: "'w env \<Rightarrow> player_request \<Rightarrow> 'w actor \<Rightarrow> 'w run" where
  "request_turn env request s =
     (case handle_request env request s of
        (Unwound, t) \<Rightarrow> Crashed t
      | (Handled reply (Some report), t) \<Rightarrow> Returned report t
      | (Handled reply None, t) \<Rightarrow> Running t)"

definition shutdown_turn :: "'w env \<Rightarrow> 'w actor \<Rightarrow> 'w run" where
  "shutdown_turn env s = (case graceful_shutdown env s of (report, t) \<Rightarrow> Returned report t)"

definition expiration_turn :: "'w env \<Rightarrow> idle_generation \<Rightarrow> 'w actor \<Rightarrow> 'w run" where
  "expiration_turn env expired s =
     (case handle_idle_expiration env expired s of
        (True, t) \<Rightarrow> shutdown_turn env t
      | (False, t) \<Rightarrow> Running t)"

text \<open>The spawned timer task, once its deadline has passed, when its mailbox has room.\<close>

definition timer_ready :: "'w env \<Rightarrow> 'w actor \<Rightarrow> bool" where
  "timer_ready env s \<longleftrightarrow> a_timers s = [] \<and>
     is_some_and (\<lambda>task. snd task \<le> instant_now env s) (it_task (a_idle_timer s))"

definition timer_fires :: "'w actor \<Rightarrow> 'w actor" where
  "timer_fires s = (case it_task (a_idle_timer s) of
      None \<Rightarrow> s
    | Some (generation, _) \<Rightarrow>
        s\<lparr>a_timers := a_timers s @ [generation],
          a_idle_timer := (a_idle_timer s)\<lparr>it_task := None\<rparr>\<rparr>)"

text \<open>
  What the types of a request's fields guarantee: a track's metadata comes out of
  its builder, a command's volume is within its range.
\<close>

fun request_wf :: "player_request \<Rightarrow> bool" where
  "request_wf (ReqEnqueue track _) = metadata_wf (qt_metadata track)"
| "request_wf (ReqEnqueueBatch tracks _) = list_all (\<lambda>track. metadata_wf (qt_metadata track)) tracks"
| "request_wf (ReqApply envelope) = command_wf (ce_command envelope)"
| "request_wf _ = True"

inductive run_step :: "'w env \<Rightarrow> 'w run \<Rightarrow> 'w run \<Rightarrow> bool" for env where
  request: "request_wf request \<Longrightarrow> run_step env (Running s) (request_turn env request s)"
| expiration: "a_timers s = expired # later \<Longrightarrow>
    run_step env (Running s) (expiration_turn env expired (s\<lparr>a_timers := later\<rparr>))"
| timer: "timer_ready env s \<Longrightarrow> run_step env (Running s) (Running (timer_fires s))"
| world: "run_step env (Running s) (Running (s\<lparr>a_world := w\<rparr>))"
| closed: "run_step env (Running s) (shutdown_turn env s)"

inductive_cases run_stepE: "run_step env a b"

section \<open>What a turn may do\<close>

text \<open>
  \<open>advances s t\<close>: the model is unchanged, or one move is committed under the next
  revision; a change that is not published has exhausted the idle generation.
\<close>

definition committed_to :: "'w actor \<Rightarrow> state_revision \<Rightarrow> 'w actor \<Rightarrow> bool" where
  "committed_to s next t \<longleftrightarrow> checked_next (pm_revision (a_model s)) = Some next \<and>
     (\<exists>m. player_move (a_config s) (a_model s) m \<and> a_model t = m\<lparr>pm_revision := next\<rparr>) \<and>
     (published_revisions t = published_revisions s @ [next] \<or>
      published_revisions t = published_revisions s \<and> gen_exhausted t)"

definition advances :: "'w actor \<Rightarrow> 'w actor \<Rightarrow> bool" where
  "advances s t \<longleftrightarrow> a_config t = a_config s \<and> (timer_ok s \<longrightarrow> timer_ok t) \<and>
     (gen_exhausted s \<longrightarrow> gen_exhausted t) \<and> fresh_current s t \<and>
     (a_model t = a_model s \<and> published_revisions t = published_revisions s \<or>
      (\<exists>next. committed_to s next t))"

lemma quiet_timer: "quiet s t \<Longrightarrow> timer_ok t = timer_ok s" "quiet s t \<Longrightarrow> gen_exhausted t = gen_exhausted s"
  by (simp_all add: quiet_def same_shell_def timer_ok_def timer_exhausted_def gen_exhausted_def)

lemma fresh_same: "a_model t = a_model s \<Longrightarrow> a_playback_generation s \<le> a_playback_generation t \<Longrightarrow>
    fresh_current s t"
  by (simp add: fresh_current_def)

lemma quiet_advances: "quiet s t \<Longrightarrow> advances s t"
  using quiet_timer [of s t]
  by (auto simp: advances_def quiet_def same_shell_def intro: fresh_same)

lemma outcome_advances:
  assumes "outcome s r t"
  shows "advances s t"
proof (cases "quiet s t")
  case False
  with assms obtain n where "committed s n t" "published_revisions t = published_revisions s @ [n] \<or>
      published_revisions t = published_revisions s \<and> gen_exhausted t"
    by (auto simp: outcome_def split: if_splits)
  then show ?thesis unfolding advances_def committed_def committed_to_def by blast
qed (rule quiet_advances)

lemma apply_command_advances:
  assumes "apply_command env envelope s = (r, t)" and "model_wf (a_config s) (a_model s)"
    and "command_wf (ce_command envelope)"
  shows "advances s t \<and> r \<noteq> Inl Panicked"
  using assms(1)
proof (cases rule: apply_command_cases)
  case (failed e)
  then have "outcome s (Inl e) t"
    using execute_outcome [OF _ assms(2,3)] by (auto simp: envelope_validate_ok)
  then show ?thesis using failed(3) outcome_advances [of s "Inl e" t] by (auto simp: outcome_def)
next
  case (applied snap u)
  then have "outcome s (Inr snap) u"
    using execute_outcome [OF _ assms(2,3)] by (auto simp: envelope_validate_ok)
  then have "advances s u" by (rule outcome_advances)
  then have "advances s t"
    unfolding applied(4)
    by (auto simp: advances_def committed_to_def fresh_current_def timer_ok_def timer_exhausted_def
        gen_exhausted_def)
  then show ?thesis using applied(3) by simp
qed (auto intro: quiet_advances)

section \<open>Expiration and shutdown\<close>

lemma emit_advances [simp]: "published_revision e = [] \<Longrightarrow> advances s (emit e t) = advances s t"
  by (simp add: advances_def committed_to_def published_emit)
    (simp add: emit_def timer_ok_def timer_exhausted_def gen_exhausted_def fresh_current_def)

text \<open>The disconnecting commit both handlers end with, from a stopped or a live timer.\<close>

lemma disconnect_commit_advances:
  assumes "finish_change env w n (clear_disconnected u) = (r, t)"
    and "checked_next (pm_revision (a_model s)) = Some n" and "a_model u = a_model s"
    and "a_config u = a_config s" and "published_revisions u = published_revisions s"
    and "gen_exhausted s \<longrightarrow> gen_exhausted u" and "a_playback_generation s \<le> a_playback_generation u"
    and timer: "timer_ok s \<longrightarrow> \<not> it_active (a_idle_timer u) \<and> it_task (a_idle_timer u) = None"
  shows "advances s t"
proof -
  note frame = finish_change_frame [OF assms(1)]
  have cleared: "a_model (clear_disconnected u) = clear_disconnected_model (a_model s)"
    "a_config (clear_disconnected u) = a_config s"
    "published_revisions (clear_disconnected u) = published_revisions s"
    "a_playback_generation (clear_disconnected u) = a_playback_generation u"
    "gen_exhausted (clear_disconnected u) = gen_exhausted u"
    using assms(3-5)
    by (simp_all add: clear_disconnected_alt update_model_def published_revisions_def gen_exhausted_def)
  have "timer_ok t" if "timer_ok s"
  proof (rule frame(7))
    show "timer_was w (clear_disconnected u)"
      using timer that
      by (simp add: timer_was_def cleared(1))
        (simp add: clear_disconnected_alt update_model_def clear_disconnected_model_def is_idle_connected_def)
  qed
  moreover have "fresh_current s t"
    using assms(7) by (simp add: fresh_current_def frame cleared clear_disconnected_model_def)
  moreover have "committed_to s n t"
    using assms(2) frame(6) player_move.disconnect [of "a_config s" "a_model s"]
    by (auto simp: committed_to_def frame(1) cleared)
  ultimately show ?thesis
    using assms(6) frame(8) by (auto simp: advances_def frame cleared)
qed

lemma handle_idle_expiration_advances:
  assumes run: "handle_idle_expiration env expired s = (stopping, t)"
  shows "advances s t"
proof (cases "expired \<noteq> it_generation (a_idle_timer s) \<or> \<not> is_idle_connected (a_model s)")
  case True
  with run have "t = emit (StaleIdleTimerIgnored expired (it_generation (a_idle_timer s))) s"
    by (simp add: handle_idle_expiration_def Let_def)
  then show ?thesis by (simp add: quiet_advances)
next
  case False
  let ?u = "s\<lparr>a_idle_timer := timer_mark_fired expired (a_idle_timer s)\<rparr>"
  have fired: "it_task (a_idle_timer ?u) = None" "\<not> it_active (a_idle_timer ?u)"
    "gen_exhausted ?u = gen_exhausted s" "published_revisions ?u = published_revisions s"
    using False by (simp_all add: timer_mark_fired_def gen_exhausted_def published_revisions_def)
  have idle: "is_idle_connected (a_model s)" using False by simp
  show ?thesis
  proof (cases "checked_next (pm_revision (a_model s))")
    case None
    with run False have "t = ?u" by (simp add: handle_idle_expiration_def Let_def next_revision_def)
    then show ?thesis
      using None fired idle
      by (simp add: advances_def timer_ok_def timer_exhausted_def fresh_same)
  next
    case (Some n)
    obtain e v where v: "ask_port env PortDisconnect ?u = (e, v)" by fastforce
    note port = ask_port_quiet [OF v]
    have same: "a_model v = a_model s" "a_config v = a_config s" "a_idle_timer v = a_idle_timer ?u"
      "published_revisions v = published_revisions s" "a_playback_generation v = a_playback_generation s"
      using port fired(4) by (simp_all add: quiet_def same_shell_def)
    show ?thesis
    proof (cases e)
      case (Some message)
      let ?w = "emit (BackgroundSideEffectFailed EffectDisconnect message) v"
      obtain x where x: "arm_idle_timer env ?w = (x, t)"
        using run False Some v \<open>checked_next _ = Some n\<close>
        by (cases "arm_idle_timer env ?w") (simp add: handle_idle_expiration_def Let_def next_revision_def)
      note arm = arm_idle_timer_frame [OF x]
      have w: "a_model ?w = a_model s" "a_config ?w = a_config s" "gen_exhausted ?w = gen_exhausted s"
        "published_revisions ?w = published_revisions s"
        "a_playback_generation ?w = a_playback_generation s"
        using same fired(3) by (simp_all add: emit_def gen_exhausted_def published_revisions_def)
      then have "timer_ok t" using arm idle by (auto simp: timer_ok_def)
      then show ?thesis
        using arm(10) by (auto simp: advances_def arm(1-6) w same intro: fresh_same)
    next
      case None
      obtain r u where u: "finish_change env (is_idle_connected (a_model v)) n (clear_disconnected v) = (r, u)"
        by fastforce
      have "advances s u"
        by (rule disconnect_commit_advances [OF u Some]) (use same fired in \<open>auto simp: gen_exhausted_def\<close>)
      moreover have "t = u \<or> t = emit (IdleDisconnected expired) u"
        using run False None v u Some
        by (auto simp: handle_idle_expiration_def Let_def next_revision_def split: sum.splits)
      ultimately show ?thesis by auto
    qed
  qed
qed

lemma disconnect_attempts_quiet:
  "disconnect_attempts env n e s = (x, t) \<Longrightarrow> quiet s t \<and> a_playback_generation t = a_playback_generation s"
proof (induction n arbitrary: e s)
  case (Suc n)
  obtain y u where u: "ask_port env PortDisconnect s = (y, u)" by fastforce
  note port = ask_port_quiet [OF u]
  show ?case
  proof (cases y)
    case None
    with Suc.prems u port show ?thesis by simp
  next
    case (Some message)
    let ?u = "if 0 < n then u\<lparr>a_world := env_sleep env DISCONNECT_RETRY_DELAY (a_world u)\<rparr> else u"
    have "quiet u ?u" "a_playback_generation ?u = a_playback_generation u"
      by (auto simp: quiet_def same_shell_def published_revisions_def)
    moreover have "disconnect_attempts env n (Some message) ?u = (x, t)"
      using Suc.prems u Some by simp
    ultimately show ?thesis using Suc.IH port by (metis quiet_trans)
  qed
qed simp

lemma disconnect_for_shutdown_quiet:
  assumes "disconnect_for_shutdown env s = (x, t)"
  shows "quiet s t"
proof -
  obtain y u where u: "disconnect_attempts env DISCONNECT_ATTEMPTS None s = (y, u)" by fastforce
  show ?thesis
    using assms u disconnect_attempts_quiet [OF u]
    by (auto simp: disconnect_for_shutdown_def split: if_splits option.splits)
qed

text \<open>The state after the timer has been stopped for good.\<close>

lemma shutdown_stop_timer:
  assumes "u = (if it_active (a_idle_timer t) then snd (cancel_idle_timer t) else t)"
  shows "a_model u = a_model t" "a_config u = a_config t"
    "a_playback_generation u = a_playback_generation t"
    "published_revisions u = published_revisions t" "gen_exhausted t \<Longrightarrow> gen_exhausted u"
    "\<not> it_active (a_idle_timer u)" "timer_ok t \<Longrightarrow> it_task (a_idle_timer u) = None"
proof -
  obtain x v where v: "cancel_idle_timer t = (x, v)" by fastforce
  note cancel = cancel_idle_timer_frame [OF v]
  show "a_model u = a_model t" "a_config u = a_config t"
    "a_playback_generation u = a_playback_generation t"
    "published_revisions u = published_revisions t" "gen_exhausted t \<Longrightarrow> gen_exhausted u"
    "\<not> it_active (a_idle_timer u)"
    using assms v cancel by auto
  show "it_task (a_idle_timer u) = None" if "timer_ok t"
    using assms v cancel that by (cases "it_task (a_idle_timer t)") (auto simp: timer_ok_def)
qed

lemma graceful_shutdown_advances:
  assumes run: "graceful_shutdown env s = (report, t)" and wf: "phase_wf (a_model s)"
  shows "advances s t"
proof -
  obtain e u where u: "disconnect_for_shutdown env s = (e, u)" by fastforce
  have q: "quiet s u" by (rule disconnect_for_shutdown_quiet [OF u])
  define v where "v = (if it_active (a_idle_timer u) then snd (cancel_idle_timer u) else u)"
  note stopped = shutdown_stop_timer [OF v_def]
  have v: "a_model v = a_model s" "a_config v = a_config s" "published_revisions v = published_revisions s"
    "gen_exhausted s \<longrightarrow> gen_exhausted v" "a_playback_generation s \<le> a_playback_generation v"
    "timer_ok s \<longrightarrow> \<not> it_active (a_idle_timer v) \<and> it_task (a_idle_timer v) = None"
    using stopped q quiet_timer [OF q] by (auto simp: quiet_def same_shell_def)
  show ?thesis
  proof (cases e)
    case (Some message)
    with run u q show ?thesis by (auto simp: graceful_shutdown_def intro: quiet_advances)
  next
    case None
    show ?thesis
    proof (cases "pm_voice_channel_id (a_model s) = None \<or> checked_next (pm_revision (a_model s)) = None")
      case True
      have unchanged: "advances s v"
        using True v by (auto simp: advances_def timer_ok_def timer_exhausted_def is_idle_connected_def
            intro: fresh_same)
      have "pm_voice_channel_id (a_model s) = None \<Longrightarrow> pm_current (a_model s) = None \<and>
          pm_queue (a_model s) = [] \<and> pm_state (a_model s) = Disconnected"
        using wf by (cases "pm_current (a_model s)") (auto simp: phase_wf_def)
      then have "t = emit (Shutdown report) v"
        using True run u None v(1)
        by (auto simp: graceful_shutdown_def Let_def v_def [symmetric] next_revision_def)
      then show ?thesis using unchanged by simp
    next
      case False
      then obtain n where n: "checked_next (pm_revision (a_model s)) = Some n" by auto
      obtain r w where w: "finish_change env (is_idle_connected (a_model v)) n (clear_disconnected v) = (r, w)"
        by fastforce
      have "advances s w" by (rule disconnect_commit_advances [OF w n v])
      moreover have "t = emit (Shutdown report) w"
        using False run u None n w v(1)
        by (auto simp: graceful_shutdown_def Let_def v_def [symmetric] next_revision_def)
      ultimately show ?thesis by simp
    qed
  qed
qed

section \<open>Every step of a run\<close>

lemma mutation_reply_cases:
  assumes "mutation_reply (r, u) = (h, t)"
  shows "t = u" and "r \<noteq> Inl Panicked \<Longrightarrow> \<exists>reply. h = Handled reply None"
  using assms by (auto simp: mutation_reply_def split: sum.splits fault.splits)

lemma handle_request_advances:
  assumes run: "handle_request env request s = (h, t)"
    and wf: "model_wf (a_config s) (a_model s)" and req: "request_wf request"
  shows "advances s t \<and> h \<noteq> Unwound"
proof -
  have reply: "advances s t \<and> h \<noteq> Unwound"
    if "mutation_reply m = (h, t)" "\<And>r u. m = (r, u) \<Longrightarrow> advances s u \<and> r \<noteq> Inl Panicked" for m
    using that mutation_reply_cases [of "fst m" "snd m" h t] by (cases m) fastforce
  have fine: "outcome s r u \<Longrightarrow> advances s u \<and> r \<noteq> Inl Panicked" for r u
    by (simp add: outcome_advances) (simp add: outcome_def)
  show ?thesis
  proof (cases request)
    case (ReqConnect channel expected)
    with run show ?thesis by (auto intro!: reply fine connect_outcome wf)
  next
    case (ReqEnqueue track expected)
    with run req show ?thesis by (auto intro!: reply fine enqueue_outcome wf)
  next
    case (ReqEnqueueBatch tracks expected)
    with run req show ?thesis by (auto intro!: reply fine enqueue_batch_outcome simp: list_all_iff)
  next
    case (ReqApply envelope)
    with run req show ?thesis by (auto intro!: reply dest: apply_command_advances [OF _ wf])
  next
    case (ReqPlaybackEnded identity reason)
    with run show ?thesis by (auto intro!: reply fine playback_ended_outcome wf)
  next
    case (ReqReconcileVoiceChannel channel)
    with run show ?thesis by (auto intro!: reply fine reconcile_voice_channel_outcome)
  next
    case ReqSnapshot
    with run show ?thesis by (auto intro: quiet_advances)
  next
    case ReqShutdown
    with run wf show ?thesis
      by (auto split: prod.splits intro: graceful_shutdown_advances simp: model_wf_def)
  qed
qed

section \<open>The invariant of a run\<close>

text \<open>
  The revisions of the published snapshots grow strictly, and the last one published
  is the current one, unless the idle generation is exhausted.
\<close>

definition publications_ok :: "'w actor \<Rightarrow> bool" where
  "publications_ok s \<longleftrightarrow> sorted_wrt (<) (published_revisions s) \<and>
     (\<forall>r \<in> set (published_revisions s). r \<le> pm_revision (a_model s)) \<and>
     (gen_exhausted s \<or> published_revisions s \<noteq> [] \<and>
        last (published_revisions s) = pm_revision (a_model s))"

definition generation_ok :: "'w actor \<Rightarrow> bool" where
  "generation_ok s \<longleftrightarrow>
     (\<forall>a. pm_current (a_model s) = Some a \<longrightarrow> at_generation a \<le> a_playback_generation s)"

definition actor_inv :: "player_config \<Rightarrow> 'w actor \<Rightarrow> bool" where
  "actor_inv c s \<longleftrightarrow> player_config_wf c \<and> a_config s = c \<and> model_wf c (a_model s) \<and>
     timer_ok s \<and> publications_ok s \<and> generation_ok s"

definition run_inv :: "player_config \<Rightarrow> 'w run \<Rightarrow> bool" where
  "run_inv c r \<longleftrightarrow> actor_inv c (run_actor r) \<and> (\<forall>s. r \<noteq> Crashed s)"

definition run_revision :: "'w run \<Rightarrow> state_revision" where
  "run_revision r = pm_revision (a_model (run_actor r))"

definition run_generation :: "'w run \<Rightarrow> playback_generation" where
  "run_generation r = a_playback_generation (run_actor r)"

lemma model_wf_revision [simp]: "model_wf c (m\<lparr>pm_revision := n\<rparr>) = model_wf c m"
  by (simp add: model_wf_def phase_wf_def model_tracks_def)

lemma advances_revision: "advances s t \<Longrightarrow> pm_revision (a_model s) \<le> pm_revision (a_model t)"
  by (auto simp: advances_def committed_to_def dest: checked_next_less intro: less_imp_le)

lemma advances_generation: "advances s t \<Longrightarrow> a_playback_generation s \<le> a_playback_generation t"
  by (simp add: advances_def fresh_current_def)

lemma committed_publications:
  assumes "publications_ok s" and "committed_to s n t"
  shows "publications_ok t"
proof -
  have less: "pm_revision (a_model s) < n" and rev: "pm_revision (a_model t) = n"
    using assms(2) by (auto simp: committed_to_def dest: checked_next_less)
  then have "\<forall>r \<in> set (published_revisions s). r < n"
    using assms(1) by (auto simp: publications_ok_def)
  then show ?thesis
    using assms rev by (auto simp: publications_ok_def committed_to_def sorted_wrt_append
        intro: less_imp_le)
qed

lemma advances_inv:
  assumes adv: "advances s t" and inv: "actor_inv c s"
  shows "actor_inv c t"
proof -
  have cap: "0 < max_queued_tracks c" using inv by (simp add: actor_inv_def player_config_wf_def)
  have "model_wf c (a_model t)"
    using adv inv move_wf [OF _ _ cap]
    by (auto simp: advances_def committed_to_def actor_inv_def)
  moreover have "publications_ok t"
  proof (cases "\<exists>n. committed_to s n t")
    case True
    then show ?thesis using inv committed_publications by (auto simp: actor_inv_def)
  next
    case False
    then show ?thesis using adv inv by (auto simp: advances_def actor_inv_def publications_ok_def)
  qed
  moreover have "generation_ok t"
    using adv inv
    by (fastforce simp: advances_def fresh_current_def actor_inv_def generation_ok_def active_identity_def)
  ultimately show ?thesis using adv inv by (simp add: advances_def actor_inv_def)
qed

lemma timer_fires_advances: "timer_ready env s \<Longrightarrow> advances s (timer_fires s)"
  by (auto simp: timer_ready_def is_some_and_def timer_fires_def advances_def timer_ok_def
      timer_exhausted_def gen_exhausted_def published_revisions_def intro: fresh_same
      split: option.splits)

text \<open>A step is a sequence of such advances: an expiration may be followed by a shutdown.\<close>

lemma run_step_advances:
  assumes "run_step env a b" and "run_inv c a"
  shows "rtranclp advances (run_actor a) (run_actor b) \<and> (\<forall>s. b \<noteq> Crashed s)"
  using assms(1)
proof cases
  case (request q s)
  obtain h t where t: "handle_request env q s = (h, t)" by fastforce
  have "advances s t \<and> h \<noteq> Unwound"
    by (rule handle_request_advances [OF t _ request(3)])
      (use request(1) assms(2) in \<open>auto simp: run_inv_def actor_inv_def\<close>)
  then show ?thesis
    unfolding request(1,2) request_turn_def t by (auto split: handled.splits option.splits)
next
  case (expiration s g later)
  let ?s = "s\<lparr>a_timers := later\<rparr>"
  obtain x t where t: "handle_idle_expiration env g ?s = (x, t)" by fastforce
  have taken: "advances s ?s"
    by (auto simp: advances_def fresh_current_def timer_ok_def timer_exhausted_def
        gen_exhausted_def published_revisions_def)
  have adv: "advances ?s t" by (rule handle_idle_expiration_advances [OF t])
  have "actor_inv c s" using assms(2) expiration(1) by (simp add: run_inv_def)
  then have inv: "actor_inv c t" by (rule advances_inv [OF adv advances_inv [OF taken]])
  obtain report u where u: "graceful_shutdown env t = (report, u)" by fastforce
  have "advances t u"
    by (rule graceful_shutdown_advances [OF u]) (use inv in \<open>simp add: actor_inv_def model_wf_def\<close>)
  then have "rtranclp advances s t" "rtranclp advances s u"
    using taken adv by (auto intro: rtranclp.rtrancl_into_rtrancl)
  then show ?thesis
    unfolding expiration expiration_turn_def t shutdown_turn_def by (cases x) (auto simp: u)
next
  case (timer s)
  then show ?thesis using timer_fires_advances by auto
next
  case (world s w)
  have "quiet s (s\<lparr>a_world := w\<rparr>)" by (simp add: quiet_def)
  then show ?thesis unfolding world by (auto dest: quiet_advances)
next
  case (closed s)
  obtain report t where t: "graceful_shutdown env s = (report, t)" by fastforce
  have "advances s t"
    by (rule graceful_shutdown_advances [OF t])
      (use closed assms(2) in \<open>auto simp: run_inv_def actor_inv_def model_wf_def\<close>)
  then show ?thesis unfolding closed by (simp add: shutdown_turn_def t)
qed

lemma steps_advance_inv: "rtranclp advances s t \<Longrightarrow> actor_inv c s \<Longrightarrow> actor_inv c t"
  by (induction rule: rtranclp_induct) (auto intro: advances_inv)

lemma steps_advance_revision: "rtranclp advances s t \<Longrightarrow> pm_revision (a_model s) \<le> pm_revision (a_model t)"
  by (induction rule: rtranclp_induct) (auto dest: advances_revision)

lemma steps_advance_generation:
  "rtranclp advances s t \<Longrightarrow> a_playback_generation s \<le> a_playback_generation t"
  by (induction rule: rtranclp_induct) (auto dest: advances_generation)

lemma spawned_inv:
  assumes "player_config_wf c"
  shows "run_inv c (spawned env guild revision world c)"
proof -
  let ?s = "actor_new guild revision world c"
  have new: "published_revisions ?s = []" "timer_ok ?s" "a_model ?s = player_model_new guild revision"
    "pm_current (a_model ?s) = None"
    by (simp_all add: actor_new_def published_revisions_def timer_ok_def idle_timer_new_def
        is_idle_connected_def player_model_new_def)
  have snap: "ps_revision (current_snapshot env ?s) = revision"
    by (simp add: current_snapshot_def model_snapshot_def new(3)) (simp add: player_model_new_def)
  have "timer_ok (publish env sn ?s)" for sn
    using new(2) by (simp add: timer_ok_def timer_exhausted_def gen_exhausted_def publish_frame)
  moreover have "publications_ok (publish env (current_snapshot env ?s) ?s)"
    by (simp add: publications_ok_def publish_frame new snap) (simp add: player_model_new_def)
  moreover have "generation_ok (publish env sn ?s)" for sn
    using new(4) by (simp add: generation_ok_def publish_frame)
  moreover have "a_config ?s = c" by (simp add: actor_new_def)
  ultimately show ?thesis
    using assms by (simp add: run_inv_def spawned_def run_start_def actor_inv_def publish_frame new)
qed

section \<open>The run as a machine\<close>

definition run_initial :: "'w env \<Rightarrow> player_config \<Rightarrow> 'w run \<Rightarrow> bool" where
  "run_initial env c r \<longleftrightarrow>
     player_config_wf c \<and> (\<exists>guild revision world. r = spawned env guild revision world c)"

interpretation player_run: invariant_machine "run_initial env c" "run_step env" "run_inv c" for env c
proof unfold_locales
  show "run_inv c r" if "run_initial env c r" for r
    using that by (auto simp: run_initial_def intro: spawned_inv)
  show "run_inv c b" if "run_inv c a" "run_step env a b" for a b
    using run_step_advances [OF that(2,1)] that(1) by (auto simp: run_inv_def intro: steps_advance_inv)
qed

interpretation revision_clock: monotone_machine "run_initial env c" "run_step env" "run_inv c" run_revision
  for env c
  by unfold_locales (auto simp: run_revision_def dest: run_step_advances steps_advance_revision)

interpretation generation_clock: monotone_machine "run_initial env c" "run_step env" "run_inv c" run_generation
  for env c
  by unfold_locales (auto simp: run_generation_def dest: run_step_advances steps_advance_generation)

lemma spawned_run_inv:
  assumes "player_config_wf c" and "rtranclp (run_step env) (spawned env guild revision world c) run"
  shows "run_inv c run"
  using player_run.reachable_inv [of env c "spawned env guild revision world c"] assms
  by (auto simp: run_initial_def)

section \<open>Failed requests and superseded playbacks\<close>

text \<open>A failed mutation is a quiet step, or a commit whose idle timer could not be handled.\<close>

lemma handle_request_failed:
  assumes run: "handle_request env request s = (Handled (ReplyMutation (Inl e)) final, t)"
    and wf: "model_wf (a_config s) (a_model s)" and req: "request_wf request"
  shows "outcome s (Inl (Failed e)) t"
proof -
  have reply: "m = (Inl (Failed e), t)"
    if "mutation_reply m = (Handled (ReplyMutation (Inl e)) final, t)" for m :: "(fault + player_snapshot) \<times> 'a actor"
    using that by (auto simp: mutation_reply_def split: prod.splits sum.splits fault.splits)
  show ?thesis
  proof (cases request)
    case (ReqConnect channel expected)
    with run show ?thesis by (auto dest!: reply intro: connect_outcome wf)
  next
    case (ReqEnqueue track expected)
    with run req show ?thesis by (auto dest!: reply intro: enqueue_outcome wf)
  next
    case (ReqEnqueueBatch tracks expected)
    with run req show ?thesis by (auto dest!: reply intro: enqueue_batch_outcome simp: list_all_iff)
  next
    case (ReqApply envelope)
    with run have "apply_command env envelope s = (Inl (Failed e), t)" by (auto dest!: reply)
    then show ?thesis
    proof (cases rule: apply_command_cases)
      case (failed x)
      then show ?thesis
        using req ReqApply by (auto simp: envelope_validate_ok intro!: execute_outcome [OF _ wf])
    qed auto
  next
    case (ReqPlaybackEnded identity reason)
    with run show ?thesis by (auto dest!: reply intro: playback_ended_outcome wf)
  next
    case (ReqReconcileVoiceChannel channel)
    with run show ?thesis by (auto dest!: reply intro: reconcile_voice_channel_outcome)
  qed (use run in \<open>auto split: prod.splits\<close>)
qed

text \<open>An identity that was handed out and is not current never becomes current again.\<close>

definition is_current :: "playback_identity \<Rightarrow> player_model \<Rightarrow> bool" where
  "is_current identity m \<longleftrightarrow> is_some_and (\<lambda>a. active_identity a = identity) (pm_current m)"

definition superseded :: "playback_identity \<Rightarrow> 'w actor \<Rightarrow> bool" where
  "superseded identity s \<longleftrightarrow>
     pi_generation identity \<le> a_playback_generation s \<and> \<not> is_current identity (a_model s)"

lemma advances_superseded:
  assumes "advances s t" and old: "superseded identity s"
  shows "superseded identity t"
proof -
  have fresh: "fresh_current s t" using assms(1) by (simp add: advances_def)
  have "\<not> is_current identity (a_model t)"
  proof
    assume "is_current identity (a_model t)"
    then obtain b where b: "pm_current (a_model t) = Some b" "active_identity b = identity"
      by (auto simp: is_current_def is_some_and_def split: option.splits)
    then have "at_generation b \<le> a_playback_generation s"
      using old by (auto simp: superseded_def active_identity_def)
    then show False
      using fresh b old by (auto simp: fresh_current_def superseded_def is_current_def is_some_and_def)
  qed
  then show ?thesis using fresh old by (auto simp: superseded_def fresh_current_def)
qed

lemma steps_superseded: "rtranclp advances s t \<Longrightarrow> superseded identity s \<Longrightarrow> superseded identity t"
  by (induction rule: rtranclp_induct) (auto intro: advances_superseded)

lemma run_superseded:
  assumes "rtranclp (run_step env) a b" and "run_inv c a" and "superseded identity (run_actor a)"
  shows "superseded identity (run_actor b)"
  using assms
proof (induction rule: rtranclp_induct)
  case (step y z)
  have "run_inv c y" by (rule player_run.steps_inv [OF step.hyps(1) step.prems(1)])
  then have "rtranclp advances (run_actor y) (run_actor z)" using run_step_advances step.hyps(2) by blast
  then show ?case using step by (blast intro: steps_superseded)
qed simp

lemma playback_ended_superseded:
  "\<not> is_current identity (a_model s) \<Longrightarrow> playback_ended env identity reason s = (Inr (current_snapshot env s), s)"
  by (auto simp: playback_ended_def is_current_def is_some_and_def split: option.splits)

end
