(* ===== verification/Player_Samples.thy ===== *)
theory Player_Samples
  imports Player_Runtime
begin

text \<open>
  A concrete player for the witnesses: ports that accept or refuse calls by a given
  rule, a world that is the clock, and a run of it whose states are worked out here.
\<close>

definition scripted_env :: "(port_call \<Rightarrow> bool) \<Rightarrow> nat env" where
  "scripted_env refuses =
     \<lparr>env_port = (\<lambda>call w. (if refuses call then Some ''refused'' else None, w + 1)),
      env_publish = (\<lambda>snapshot w. (None, w)), env_instant = (\<lambda>w. w),
      env_system_time = (\<lambda>w. int w), env_sleep = (\<lambda>d w. w + d)\<rparr>"

definition calm_env :: "nat env" where
  "calm_env = scripted_env (\<lambda>_. False)"

definition sample_track :: "uuid \<Rightarrow> queue_track" where
  "sample_track i = queue_track_new i [65] None None True (playback_source_new [47])"

definition sample_config :: player_config where
  "sample_config = \<lparr>command_capacity = 8, event_capacity = 8, max_queued_tracks = 2, idle_timeout = 9\<rparr>"

definition sample_guild :: guild_id where "sample_guild = GuildId 7"
definition sample_channel :: channel_id where "sample_channel = ChannelId 5"

definition sample_envelope :: "uuid \<Rightarrow> u64 \<Rightarrow> player_command \<Rightarrow> command_envelope" where
  "sample_envelope key revision command =
     command_envelope_new 1 key sample_guild None (StateRevision revision) (UnixTimeMillis 1000) command"

lemma sample_config_simps [simp]:
  "player_config_wf sample_config" "max_queued_tracks sample_config = 2" "idle_timeout sample_config = 9"
  by (simp_all add: sample_config_def player_config_wf_def)

lemma calm_env_simps [simp]:
  "env_port calm_env call w = (None, Suc w)" "env_publish calm_env snapshot w = (None, w)"
  "env_instant calm_env w = w" "env_system_time calm_env w = int w"
  by (simp_all add: calm_env_def scripted_env_def)

lemma sample_track_simps [simp]:
  "qt_track_id (sample_track i) = i" "metadata_wf (qt_metadata (sample_track i))"
  "has_valid_public_title (sample_track i)" "qt_duration_ms (sample_track i) = None"
  "qt_metadata (sample_track i) = metadata_default" "qt_seekable (sample_track i)"
  "track_wf (sample_track i)"
  by (simp_all add: sample_track_def queue_track_new_def has_valid_public_title_def trim_def trim_start_def
      char_len_utf8_def
      is_whitespace_def str_len_def has_control_def is_control_def MAX_TRACK_TITLE_BYTES_def track_wf_def)

text \<open>The definitions a run unfolds, port by port and step by step.\<close>

lemmas run_simps = attempt_def fail_def Let_def instant_now_def unix_now_def ask_port_def call_port_def
  next_playback_generation_def playback_generation_next_def current_snapshot_def model_snapshot_def
  check_revision_def next_revision_def arm_idle_timer_def cancel_idle_timer_def
  reconcile_idle_def finish_change_def timer_arm_def timer_cancel_def timer_invalidate_def
  idle_generation_next_def is_idle_connected_def checked_next_def checked_add_u64_def
  mutation_reply_def publish_def emit_def update_model_def

lemmas handler_simps = connect_def initialize_connection_def enqueue_def start_playing_def
  active_playing_def queue_add_def contains_track_def is_some_and_def apply_command_def
  envelope_validate_against_def sample_envelope_def command_envelope_new_def playback_ended_def
  try_play_def set_repeat_def previous_def skip_def push_history_def active_identity_def
  after_natural_end_def remember_idempotency_def is_natural_def IDEMPOTENCY_WINDOW_def

definition sample_start :: "nat actor" where
  "sample_start = run_actor (spawned calm_env sample_guild (StateRevision 0) 0 sample_config)"

definition after_request :: "player_request \<Rightarrow> nat actor \<Rightarrow> nat actor" where
  "after_request request s = snd (handle_request calm_env request s)"

definition sample_connected :: "nat actor" where
  "sample_connected = after_request (ReqConnect sample_channel (StateRevision 0)) sample_start"

definition sample_playing :: "nat actor" where
  "sample_playing = after_request (ReqEnqueue (sample_track 1) (StateRevision 1)) sample_connected"

definition sample_queued :: "nat actor" where
  "sample_queued = after_request (ReqEnqueue (sample_track 2) (StateRevision 2)) sample_playing"

text \<open>The fields of these states that later steps read.\<close>

definition sample_model :: player_model where
  "sample_model = (player_model_new sample_guild (StateRevision 0))
     \<lparr>pm_voice_channel_id := Some sample_channel, pm_revision := StateRevision 1,
      pm_state := IdleConnected\<rparr>"

lemma sample_start_fields [simp]:
  "a_model sample_start = player_model_new sample_guild (StateRevision 0)"
  "a_config sample_start = sample_config" "a_world sample_start = 0" "a_timers sample_start = []"
  "a_idle_timer sample_start = idle_timer_new" "a_recent_idempotency sample_start = []"
  "a_playback_generation sample_start = PlaybackGeneration 0"
  by (simp_all add: sample_start_def spawned_def run_start_def publish_frame actor_new_def)
    (simp_all add: run_simps)

lemma sample_connected_fields [simp]:
  "a_model sample_connected = sample_model"
  "a_config sample_connected = sample_config" "a_world sample_connected = 3"
  "a_timers sample_connected = []"
  "a_idle_timer sample_connected = \<lparr>it_generation = IdleGeneration 1,
     it_task = Some (IdleGeneration 1, 12), it_active = True\<rparr>"
  "a_recent_idempotency sample_connected = []"
  "a_playback_generation sample_connected = PlaybackGeneration 0"
  by (simp_all add: sample_connected_def after_request_def handler_simps run_simps
      player_model_new_def sample_model_def idle_timer_new_def)

lemma sample_playing_fields [simp]:
  "a_model sample_playing = sample_model\<lparr>pm_revision := StateRevision 2,
     pm_current := Some (active_playing (sample_track 1) (PlaybackGeneration 1) 4), pm_state := Playing\<rparr>"
  "a_config sample_playing = sample_config" "a_world sample_playing = 4"
  "a_timers sample_playing = []"
  "a_idle_timer sample_playing = \<lparr>it_generation = IdleGeneration 2, it_task = None, it_active = False\<rparr>"
  "a_recent_idempotency sample_playing = []"
  "a_playback_generation sample_playing = PlaybackGeneration 1"
  by (simp_all add: sample_playing_def after_request_def handler_simps run_simps
      player_model_new_def sample_model_def)

lemma sample_queued_fields [simp]:
  "a_model sample_queued = sample_model\<lparr>pm_revision := StateRevision 3,
     pm_current := Some (active_playing (sample_track 1) (PlaybackGeneration 1) 4),
     pm_state := Playing, pm_queue := [sample_track 2]\<rparr>"
  "a_config sample_queued = sample_config" "a_world sample_queued = 4"
  "a_timers sample_queued = []"
  "a_idle_timer sample_queued = \<lparr>it_generation = IdleGeneration 2, it_task = None, it_active = False\<rparr>"
  "a_recent_idempotency sample_queued = []"
  "a_playback_generation sample_queued = PlaybackGeneration 1"
  by (simp_all add: sample_queued_def after_request_def handler_simps run_simps
      player_model_new_def sample_model_def)

end
