(* ===== verification/Player_Properties.thy ===== *)
theory Player_Properties
  imports Player_Samples
begin

text \<open>
  What the guild player guarantees, first for whole runs (invariants, refinement,
  ordering of the published revisions), then operation by operation.
\<close>

section \<open>Reachable runs\<close>

lemma sample_run:
  shows "rtranclp (run_step calm_env) (spawned calm_env sample_guild (StateRevision 0) 0 sample_config)
      (Running sample_start)"
    and "rtranclp (run_step calm_env) (Running sample_start) (Running sample_connected)"
    and "rtranclp (run_step calm_env) (Running sample_connected) (Running sample_playing)"
    and "rtranclp (run_step calm_env) (Running sample_playing) (Running sample_queued)"
proof -
  have turn: "rtranclp (run_step calm_env) (Running s) (Running (after_request q s))"
    if "request_wf q" "\<And>r. fst (handle_request calm_env q s) = r \<Longrightarrow> \<exists>reply. r = Handled reply None" for q s
    using that run_step.request [OF that(1), of calm_env s]
    by (auto simp: request_turn_def after_request_def split: prod.splits)
  show "rtranclp (run_step calm_env) (spawned calm_env sample_guild (StateRevision 0) 0 sample_config)
      (Running sample_start)"
    by (simp add: sample_start_def spawned_def run_start_def)
  show "rtranclp (run_step calm_env) (Running sample_start) (Running sample_connected)"
    unfolding sample_connected_def
    by (rule turn) (simp_all add: handler_simps run_simps player_model_new_def idle_timer_new_def)
  show "rtranclp (run_step calm_env) (Running sample_connected) (Running sample_playing)"
    unfolding sample_playing_def
    by (rule turn) (simp_all add: handler_simps run_simps player_model_new_def sample_model_def)
  show "rtranclp (run_step calm_env) (Running sample_playing) (Running sample_queued)"
    unfolding sample_queued_def
    by (rule turn) (simp_all add: handler_simps run_simps player_model_new_def sample_model_def)
qed

lemma sample_run_queued:
  "rtranclp (run_step calm_env) (spawned calm_env sample_guild (StateRevision 0) 0 sample_config)
     (Running sample_queued)"
  using sample_run by (meson rtranclp_trans)

text \<open>C1: In every state a run can reach the model is well formed (disconnected exactly
  without a channel, playing or paused exactly with a current track, queue and history
  within their limit, public metadata valid) and no \<open>expect\<close> of the source has panicked.\<close>

theorem reachable_model_wf:
  assumes "player_config_wf c" and "rtranclp (run_step env) (spawned env guild revision world c) run"
  shows "model_wf c (a_model (run_actor run)) \<and> (\<forall>s. run \<noteq> Crashed s)"
proof -
  have "run_inv c run" by (rule spawned_run_inv [OF assms])
  then show ?thesis by (simp add: run_inv_def actor_inv_def)
qed

lemma reachable_model_wf_witness:
  "model_wf sample_config (a_model sample_queued) \<and> pm_queue (a_model sample_queued) \<noteq> []"
  using reachable_model_wf [OF sample_config_simps(1) sample_run_queued] by simp

text \<open>C2: Every request, from a well-formed state, either leaves the model and the
  publications alone or commits exactly one move of the abstract player under the next
  revision, published once unless the idle generation is exhausted; it never panics.\<close>

theorem requests_refine_moves:
  assumes "model_wf (a_config s) (a_model s)" and "request_wf request"
    and "handle_request env request s = (h, t)"
  shows "h \<noteq> Unwound \<and>
    (a_model t = a_model s \<and> published_revisions t = published_revisions s \<or>
     (\<exists>m next. player_move (a_config s) (a_model s) m \<and>
        checked_next (pm_revision (a_model s)) = Some next \<and> a_model t = m\<lparr>pm_revision := next\<rparr> \<and>
        (published_revisions t = published_revisions s @ [next] \<or>
         published_revisions t = published_revisions s \<and> gen_exhausted t)))"
  using handle_request_advances [OF assms(3,1,2)] unfolding advances_def committed_to_def by blast

lemma requests_refine_moves_witness:
  "\<exists>m. player_move sample_config (a_model sample_playing) m \<and>
     a_model sample_queued = m\<lparr>pm_revision := StateRevision 3\<rparr>"
proof -
  obtain h where h: "handle_request calm_env (ReqEnqueue (sample_track 2) (StateRevision 2)) sample_playing =
      (h, sample_queued)" by (metis after_request_def prod.collapse sample_queued_def)
  have "model_wf (a_config sample_playing) (a_model sample_playing)"
    by (simp add: sample_model_def player_model_new_def model_wf_def phase_wf_def model_tracks_def
        active_playing_def)
  from requests_refine_moves [OF this _ h] show ?thesis
    by (auto simp: checked_next_def checked_add_u64_def sample_model_def player_model_new_def)
qed

text \<open>C3: The published snapshots carry strictly increasing revisions, none beyond the
  current one, and the last of them is the current revision, unless the idle generation
  counter is exhausted.\<close>

theorem published_revisions_increase:
  assumes "player_config_wf c" and "rtranclp (run_step env) (spawned env guild revision world c) run"
  shows "sorted_wrt (<) (published_revisions (run_actor run)) \<and>
    (\<forall>r \<in> set (published_revisions (run_actor run)). r \<le> run_revision run) \<and>
    (gen_exhausted (run_actor run) \<or> published_revisions (run_actor run) \<noteq> [] \<and>
       last (published_revisions (run_actor run)) = run_revision run)"
proof -
  have "run_inv c run" by (rule spawned_run_inv [OF assms])
  then show ?thesis by (simp add: run_inv_def actor_inv_def publications_ok_def run_revision_def)
qed

lemma published_revisions_increase_witness:
  "last (published_revisions sample_queued) = StateRevision 3"
  using published_revisions_increase [OF sample_config_simps(1) sample_run_queued]
  by (simp add: gen_exhausted_def idle_generation_next_def checked_add_u64_def run_revision_def)

text \<open>The revision of a run and its playback generation never go back, whatever is
  requested, expires or fails.\<close>

theorem revision_never_decreases:
  assumes "player_config_wf c" and "rtranclp (run_step env) (spawned env guild revision world c) a"
    and "rtranclp (run_step env) a b"
  shows "run_revision a \<le> run_revision b \<and> run_generation a \<le> run_generation b"
proof -
  have "run_inv c a" by (rule spawned_run_inv [OF assms(1,2)])
  then show ?thesis
    using revision_clock.steps_mono [OF assms(3)] generation_clock.steps_mono [OF assms(3)] by blast
qed

lemma revision_never_decreases_witness:
  "run_revision (Running sample_connected) \<le> run_revision (Running sample_queued)"
  using revision_never_decreases [OF sample_config_simps(1) rtranclp_trans [OF sample_run(1,2)]
      rtranclp_trans [OF sample_run(3,4)]] by blast

text \<open>In every reachable state the idle timer runs only while the player is connected
  and idle, and it does run then unless the revision or the idle generation is exhausted.\<close>

theorem idle_timer_follows_model:
  assumes "player_config_wf c" and "rtranclp (run_step env) (spawned env guild revision world c) run"
  shows "(it_active (a_idle_timer (run_actor run)) \<longrightarrow> is_idle_connected (a_model (run_actor run))) \<and>
    (is_idle_connected (a_model (run_actor run)) \<longrightarrow> it_active (a_idle_timer (run_actor run)) \<or>
       checked_next (run_revision run) = None \<or> gen_exhausted (run_actor run))"
proof -
  have "run_inv c run" by (rule spawned_run_inv [OF assms])
  then show ?thesis
    by (auto simp: run_inv_def actor_inv_def timer_ok_def timer_exhausted_def run_revision_def)
qed

lemma idle_timer_follows_model_witness:
  "is_idle_connected (a_model sample_connected) \<and> it_active (a_idle_timer sample_connected)"
  using idle_timer_follows_model [OF sample_config_simps(1) rtranclp_trans [OF sample_run(1,2)]]
  by simp

text \<open>C5: A mutation that fails, with any error but an exhausted idle generation, leaves the
  model, the timer, the replay window and the publications exactly as they were.\<close>

theorem failed_requests_change_nothing:
  assumes "model_wf (a_config s) (a_model s)" and "request_wf request"
    and "handle_request env request s = (Handled (ReplyMutation (Inl e)) final, t)"
    and "e \<noteq> IdleGenerationExhausted"
  shows "a_model t = a_model s \<and> a_config t = a_config s \<and> a_idle_timer t = a_idle_timer s \<and>
    a_timers t = a_timers s \<and> a_recent_idempotency t = a_recent_idempotency s \<and>
    published_revisions t = published_revisions s"
  using handle_request_failed [OF assms(3,1,2)] assms(4)
  by (auto simp: outcome_def quiet_def same_shell_def)

lemma sample_playing_wf: "model_wf (a_config sample_playing) (a_model sample_playing)"
  by (simp add: sample_model_def player_model_new_def model_wf_def phase_wf_def model_tracks_def
      active_playing_def)

lemma failed_requests_change_nothing_witness:
  "\<exists>t. handle_request calm_env (ReqEnqueue (sample_track 1) (StateRevision 2)) sample_playing =
      (Handled (ReplyMutation (Inl (DuplicateTrack 1))) None, t) \<and>
    a_model t = a_model sample_playing"
proof -
  have "handle_request calm_env (ReqEnqueue (sample_track 1) (StateRevision 2)) sample_playing =
      (Handled (ReplyMutation (Inl (DuplicateTrack 1))) None, sample_playing)"
    by (simp add: handler_simps run_simps sample_model_def player_model_new_def)
  with failed_requests_change_nothing [OF sample_playing_wf _ this] show ?thesis by simp
qed

text \<open>C4: A playback identity that was handed out and is no longer current never becomes
  current again in the run, and a report that it ended is answered with the snapshot and
  changes nothing.\<close>

theorem stale_playback_end_ignored:
  assumes "player_config_wf c" and "rtranclp (run_step env) (spawned env guild revision world c) a"
    and "rtranclp (run_step env) a b"
    and "pi_generation identity \<le> a_playback_generation (run_actor a)"
    and "\<not> is_current identity (a_model (run_actor a))"
  shows "\<not> is_current identity (a_model (run_actor b)) \<and>
    playback_ended env identity reason (run_actor b) = (Inr (current_snapshot env (run_actor b)), run_actor b)"
proof -
  have "superseded identity (run_actor b)"
    by (rule run_superseded [OF assms(3) spawned_run_inv [OF assms(1,2)]])
      (use assms(4,5) in \<open>simp add: superseded_def\<close>)
  then show ?thesis using playback_ended_superseded by (auto simp: superseded_def)
qed

lemma stale_playback_end_ignored_witness:
  "\<not> is_current \<lparr>pi_track_id = 9, pi_generation = PlaybackGeneration 1\<rparr> (a_model sample_queued)"
proof -
  have start: "rtranclp (run_step calm_env)
      (spawned calm_env sample_guild (StateRevision 0) 0 sample_config) (Running sample_playing)"
    using sample_run by (meson rtranclp_trans)
  show ?thesis
    using stale_playback_end_ignored [OF sample_config_simps(1) start sample_run(4),
        of "\<lparr>pi_track_id = 9, pi_generation = PlaybackGeneration 1\<rparr>" Natural]
    by (simp add: is_current_def is_some_and_def active_identity_def active_playing_def)
qed

section \<open>Track identities\<close>

text \<open>C6: A snapshot of a well-formed model passes the public validation exactly when its
  track identities are distinct; otherwise the validation reports the duplicate.\<close>

theorem snapshot_valid_iff_distinct:
  assumes "model_wf c m" and "player_config_wf c"
  shows "validate_public_shape (model_snapshot now observed m) =
    (if distinct (model_track_ids m) then Inr () else Inl DuplicateTrackId)"
  by (rule snapshot_validates_iff [OF assms])

lemma snapshot_valid_iff_distinct_witness:
  "validate_public_shape (model_snapshot 5 (UnixTimeMillis 1) (a_model sample_queued)) = Inr ()"
  using snapshot_valid_iff_distinct [of sample_config "a_model sample_queued" 5 "UnixTimeMillis 1"]
  by (simp add: sample_model_def player_model_new_def model_wf_def phase_wf_def model_tracks_def
        model_track_ids_def active_playing_def)

text \<open>Every request keeps the identities of the current and queued tracks distinct,
  except going back while the track at the end of the history is the one playing.\<close>

theorem requests_keep_identities_distinct:
  assumes "model_wf (a_config s) (a_model s)" and "request_wf request"
    and "handle_request env request s = (h, t)"
    and "distinct (model_track_ids (a_model s))" and "\<not> previous_collides (a_model s)"
  shows "distinct (model_track_ids (a_model t))"
proof -
  have rev: "model_track_ids (m\<lparr>pm_revision := n\<rparr>) = model_track_ids m" for m n
    by (simp add: model_track_ids_def model_tracks_def)
  have "advances s t" using handle_request_advances [OF assms(3,1,2)] by blast
  then show ?thesis
    using assms(4) move_distinct [OF _ assms(4,5)]
    by (auto simp: advances_def committed_to_def rev)
qed

lemma requests_keep_identities_distinct_witness:
  "distinct (model_track_ids (a_model sample_queued))"
proof -
  obtain h where h: "handle_request calm_env (ReqEnqueue (sample_track 2) (StateRevision 2)) sample_playing =
      (h, sample_queued)" by (metis after_request_def prod.collapse sample_queued_def)
  show ?thesis
    by (rule requests_keep_identities_distinct [OF sample_playing_wf _ h])
      (simp_all add: sample_model_def player_model_new_def model_track_ids_def model_tracks_def
        previous_collides_def active_playing_def)
qed

text \<open>
  The exception is reachable: with the queue repeated, a track ends and is appended to
  queue and history, its successor fails, and it plays again with itself in the history.
\<close>

definition sample_repeating :: "nat actor" where
  "sample_repeating = after_request (ReqApply (sample_envelope 21 3 (SetRepeat RepeatQueue))) sample_queued"

definition sample_wrapped :: "nat actor" where
  "sample_wrapped = after_request (ReqPlaybackEnded
     \<lparr>pi_track_id = 1, pi_generation = PlaybackGeneration 1\<rparr> Natural) sample_repeating"

definition sample_again :: "nat actor" where
  "sample_again = after_request (ReqPlaybackEnded
     \<lparr>pi_track_id = 2, pi_generation = PlaybackGeneration 2\<rparr> WorkerFailed) sample_wrapped"

definition sample_collided :: "nat actor" where
  "sample_collided = after_request (ReqApply (sample_envelope 22 6 Previous)) sample_again"

lemma sample_repeating_fields [simp]:
  "a_model sample_repeating = (a_model sample_queued)\<lparr>pm_revision := StateRevision 4,
     pm_repeat_mode := RepeatQueue\<rparr>"
  "a_config sample_repeating = sample_config" "a_world sample_repeating = 4"
  "a_timers sample_repeating = []" "a_idle_timer sample_repeating = a_idle_timer sample_queued"
  "a_recent_idempotency sample_repeating = [21]"
  "a_playback_generation sample_repeating = PlaybackGeneration 1"
  by (simp_all add: sample_repeating_def after_request_def handler_simps run_simps
      player_model_new_def sample_model_def less_eq_unix_time_millis_def u64_try_from_or_max_def)

lemma sample_wrapped_fields [simp]:
  "a_model sample_wrapped = (a_model sample_repeating)\<lparr>pm_revision := StateRevision 5,
     pm_current := Some (active_playing (sample_track 2) (PlaybackGeneration 2) 5),
     pm_queue := [sample_track 1], pm_history := [sample_track 1]\<rparr>"
  "a_config sample_wrapped = sample_config" "a_world sample_wrapped = 5"
  "a_timers sample_wrapped = []" "a_idle_timer sample_wrapped = a_idle_timer sample_queued"
  "a_recent_idempotency sample_wrapped = [21]"
  "a_playback_generation sample_wrapped = PlaybackGeneration 2"
  by (simp_all add: sample_wrapped_def after_request_def handler_simps run_simps
      player_model_new_def sample_model_def)

lemma sample_again_fields [simp]:
  "a_model sample_again = (a_model sample_wrapped)\<lparr>pm_revision := StateRevision 6,
     pm_current := Some (active_playing (sample_track 1) (PlaybackGeneration 3) 6), pm_queue := []\<rparr>"
  "a_config sample_again = sample_config" "a_world sample_again = 6"
  "a_timers sample_again = []" "a_idle_timer sample_again = a_idle_timer sample_queued"
  "a_recent_idempotency sample_again = [21]"
  "a_playback_generation sample_again = PlaybackGeneration 3"
  by (simp_all add: sample_again_def after_request_def handler_simps run_simps
      player_model_new_def sample_model_def)

lemma sample_collided_fields [simp]:
  "model_track_ids (a_model sample_collided) = [1, 1]"
  by (simp_all add: sample_collided_def after_request_def handler_simps run_simps
      player_model_new_def sample_model_def less_eq_unix_time_millis_def u64_try_from_or_max_def
      model_track_ids_def model_tracks_def)

lemma sample_collision_run:
  "rtranclp (run_step calm_env) (Running sample_queued) (Running sample_collided)"
proof -
  have turn: "run_step calm_env (Running s) (Running (after_request q s))"
    if "request_wf q" "\<exists>reply. fst (handle_request calm_env q s) = Handled reply None" for q s
    using that run_step.request [OF that(1), of calm_env s]
    by (auto simp: request_turn_def after_request_def split: prod.splits)
  have "run_step calm_env (Running sample_queued) (Running sample_repeating)"
    unfolding sample_repeating_def
    by (rule turn) (simp_all add: handler_simps run_simps player_model_new_def sample_model_def
        command_wf_def less_eq_unix_time_millis_def u64_try_from_or_max_def)
  moreover have "run_step calm_env (Running sample_repeating) (Running sample_wrapped)"
    unfolding sample_wrapped_def
    by (rule turn) (simp_all add: handler_simps run_simps player_model_new_def sample_model_def)
  moreover have "run_step calm_env (Running sample_wrapped) (Running sample_again)"
    unfolding sample_again_def
    by (rule turn) (simp_all add: handler_simps run_simps player_model_new_def sample_model_def)
  moreover have "run_step calm_env (Running sample_again) (Running sample_collided)"
    unfolding sample_collided_def
    by (rule turn) (simp_all add: handler_simps run_simps player_model_new_def sample_model_def
        command_wf_def less_eq_unix_time_millis_def u64_try_from_or_max_def)
  ultimately show ?thesis by (meson r_into_rtranclp rtranclp.rtrancl_into_rtrancl)
qed

text \<open>C7: That exception happens: a run with no failing port reaches a state whose snapshot
  lists the current track in its queue as well, which the public validation refuses. Going
  back does not look for the previous track in the current slot, only in the queue.\<close>

theorem previous_can_duplicate_current:
  "\<exists>run. rtranclp (run_step calm_env)
       (spawned calm_env sample_guild (StateRevision 0) 0 sample_config) run \<and>
     validate_public_shape (current_snapshot calm_env (run_actor run)) = Inl DuplicateTrackId"
proof -
  have run: "rtranclp (run_step calm_env)
      (spawned calm_env sample_guild (StateRevision 0) 0 sample_config) (Running sample_collided)"
    using sample_run_queued sample_collision_run by (meson rtranclp_trans)
  have "run_inv sample_config (Running sample_collided)"
    by (rule spawned_run_inv [OF _ run]) simp
  then have "validate_public_shape (current_snapshot calm_env sample_collided) = Inl DuplicateTrackId"
    unfolding current_snapshot_def
    by (subst snapshot_validates_iff [of sample_config]) (auto simp: run_inv_def actor_inv_def)
  with run show ?thesis by (metis run_actor.simps(1))
qed

section \<open>Commands\<close>

lemma outcome_recent: "outcome s r t \<Longrightarrow> a_recent_idempotency t = a_recent_idempotency s"
  by (auto simp: outcome_def quiet_def same_shell_def committed_def split: if_splits)

text \<open>Only an executed command adds a key, and only one the actor does not remember.\<close>

definition keys_follow :: "'w actor \<Rightarrow> 'w actor \<Rightarrow> bool" where
  "keys_follow s t \<longleftrightarrow> a_recent_idempotency t = a_recent_idempotency s \<or>
     (\<exists>key. key \<notin> set (a_recent_idempotency s) \<and>
        a_recent_idempotency t = a_recent_idempotency (remember_idempotency key s))"

lemma remember_cong:
  "a_recent_idempotency u = a_recent_idempotency s \<Longrightarrow>
     a_recent_idempotency (remember_idempotency key u) = a_recent_idempotency (remember_idempotency key s)"
  by (simp add: remember_idempotency_def)

lemma apply_command_keys:
  assumes "apply_command env envelope s = (r, t)" and "model_wf (a_config s) (a_model s)"
    and "command_wf (ce_command envelope)"
  shows "keys_follow s t"
    and "ce_idempotency_key envelope \<notin> set (a_recent_idempotency s) \<Longrightarrow> r = Inr snap \<Longrightarrow>
      a_recent_idempotency t = a_recent_idempotency (remember_idempotency (ce_idempotency_key envelope) s)"
proof -
  have executed: "a_recent_idempotency u = a_recent_idempotency s"
    if "envelope_validate_against envelope (current_snapshot env s) (unix_now env s) = Inr ()"
      "execute env (ce_command envelope) (ce_idempotency_key envelope) s = (x, u)" for x u
    using execute_outcome [OF that(2) assms(2,3)] that(1) by (auto simp: envelope_validate_ok intro: outcome_recent)
  show "keys_follow s t"
    using assms(1)
  proof (cases rule: apply_command_cases)
    case (applied snap u)
    show ?thesis
    proof (cases "ce_idempotency_key envelope \<in> set (a_recent_idempotency s)")
      case True
      with assms(1) show ?thesis by (simp add: apply_command_def keys_follow_def)
    next
      case False
      with applied(4) remember_cong [OF executed [OF applied(1,2)]] show ?thesis
        by (auto simp: keys_follow_def)
    qed
  qed (auto simp: keys_follow_def dest: executed)
  show "a_recent_idempotency t = a_recent_idempotency (remember_idempotency (ce_idempotency_key envelope) s)"
    if "ce_idempotency_key envelope \<notin> set (a_recent_idempotency s)" "r = Inr snap"
    using assms(1)
  proof (cases rule: apply_command_cases)
    case (applied snap u)
    with remember_cong [OF executed [OF applied(1,2)]] show ?thesis by simp
  qed (use that in auto)
qed

lemma ask_port_recent: "ask_port env c s = (r, t) \<Longrightarrow> a_recent_idempotency t = a_recent_idempotency s"
  by (auto dest: ask_port_frame simp: same_shell_def)

lemma emit_recent [simp]: "a_recent_idempotency (emit e s) = a_recent_idempotency s"
  by (simp add: emit_def)

lemma clear_recent [simp]: "a_recent_idempotency (clear_disconnected s) = a_recent_idempotency s"
  by (simp add: clear_disconnected_def update_model_def)

lemma graceful_shutdown_recent:
  assumes "graceful_shutdown env s = (report, t)"
  shows "a_recent_idempotency t = a_recent_idempotency s"
proof -
  obtain e u where u: "disconnect_for_shutdown env s = (e, u)" by fastforce
  have "a_recent_idempotency u = a_recent_idempotency s"
    using disconnect_for_shutdown_quiet [OF u] by (simp add: quiet_def same_shell_def)
  moreover have "a_recent_idempotency (snd (cancel_idle_timer v)) = a_recent_idempotency v" for v :: "'a actor"
    using cancel_idle_timer_frame(4) by (metis prod.collapse)
  moreover have "a_recent_idempotency (snd (finish_change env w n v)) = a_recent_idempotency v" for w n and v :: "'a actor"
    using finish_change_frame(4) by (metis prod.collapse)
  ultimately show ?thesis
    using assms u by (auto simp: graceful_shutdown_def Let_def next_revision_def split: option.splits if_splits)
qed

lemma handle_idle_expiration_recent:
  assumes "handle_idle_expiration env expired s = (x, t)"
  shows "a_recent_idempotency t = a_recent_idempotency s"
proof -
  have "a_recent_idempotency (snd (arm_idle_timer env v)) = a_recent_idempotency v" for v :: "'a actor"
    using arm_idle_timer_frame(4) by (metis prod.collapse)
  then show ?thesis
    using assms
    by (auto simp: handle_idle_expiration_def Let_def next_revision_def dest!: ask_port_recent finish_change_frame(4)
        split: if_splits option.splits prod.splits sum.splits)
qed

lemma handle_request_recent:
  assumes run: "handle_request env request s = (h, t)" and wf: "model_wf (a_config s) (a_model s)"
    and req: "request_wf request" and other: "\<forall>envelope. request \<noteq> ReqApply envelope"
  shows "a_recent_idempotency t = a_recent_idempotency s"
proof -
  have reply: "a_recent_idempotency t = a_recent_idempotency s"
    if "mutation_reply m = (h, t)" "\<And>r u. m = (r, u) \<Longrightarrow> outcome s r u" for m
    using that mutation_reply_cases(1) [of "fst m" "snd m" h t] outcome_recent by (metis prod.collapse)
  show ?thesis
  proof (cases request)
    case (ReqConnect channel expected)
    with run show ?thesis by (auto intro!: reply connect_outcome wf)
  next
    case (ReqEnqueue track expected)
    with run req show ?thesis by (auto intro!: reply enqueue_outcome wf)
  next
    case (ReqEnqueueBatch tracks expected)
    with run req show ?thesis by (auto intro!: reply enqueue_batch_outcome simp: list_all_iff)
  next
    case (ReqPlaybackEnded identity reason)
    with run show ?thesis by (auto intro!: reply playback_ended_outcome wf)
  next
    case (ReqReconcileVoiceChannel channel)
    with run show ?thesis by (auto intro!: reply reconcile_voice_channel_outcome)
  qed (use run other in \<open>auto split: prod.splits dest: graceful_shutdown_recent\<close>)
qed

text \<open>A run from \<open>a\<close> to \<open>b\<close> in which the mailbox delivers \<open>n\<close> commands, and whatever else happens between them.\<close>

inductive later_commands :: "'w env \<Rightarrow> 'w run \<Rightarrow> nat \<Rightarrow> 'w run \<Rightarrow> bool" for env a where
  none: "later_commands env a 0 a"
| command: "later_commands env a n (Running s) \<Longrightarrow> request_wf (ReqApply envelope) \<Longrightarrow>
    later_commands env a (Suc n) (request_turn env (ReqApply envelope) s)"
| request: "later_commands env a n (Running s) \<Longrightarrow> request_wf request \<Longrightarrow> \<forall>envelope. request \<noteq> ReqApply envelope \<Longrightarrow>
    later_commands env a n (request_turn env request s)"
| expiration: "later_commands env a n (Running s) \<Longrightarrow> a_timers s = expired # later \<Longrightarrow>
    later_commands env a n (expiration_turn env expired (s\<lparr>a_timers := later\<rparr>))"
| timer: "later_commands env a n (Running s) \<Longrightarrow> timer_ready env s \<Longrightarrow> later_commands env a n (Running (timer_fires s))"
| world: "later_commands env a n (Running s) \<Longrightarrow> later_commands env a n (Running (s\<lparr>a_world := w\<rparr>))"
| closed: "later_commands env a n (Running s) \<Longrightarrow> later_commands env a n (shutdown_turn env s)"

lemma later_commands_run: "later_commands env a n b \<Longrightarrow> rtranclp (run_step env) a b"
  by (induction rule: later_commands.induct) (blast intro: rtranclp.rtrancl_into_rtrancl run_step.intros)+

lemma request_turn_actor: "run_actor (request_turn env request s) = snd (handle_request env request s)"
  by (cases "handle_request env request s") (auto simp: request_turn_def split: handled.split option.split)

lemma command_turn_keys:
  assumes "model_wf (a_config s) (a_model s)" and "request_wf (ReqApply envelope)"
  shows "keys_follow s (run_actor (request_turn env (ReqApply envelope) s))"
proof -
  obtain r t where t: "apply_command env envelope s = (r, t)" by fastforce
  then have "keys_follow s t" using apply_command_keys(1) assms by fastforce
  moreover have "snd (mutation_reply (r, t)) = t" by (auto simp: mutation_reply_def split: sum.split fault.split)
  ultimately show ?thesis by (simp add: request_turn_actor t)
qed

lemma other_turns_recent:
  "model_wf (a_config s) (a_model s) \<Longrightarrow> request_wf request \<Longrightarrow> \<forall>envelope. request \<noteq> ReqApply envelope \<Longrightarrow>
     a_recent_idempotency (run_actor (request_turn env request s)) = a_recent_idempotency s"
  "a_recent_idempotency (run_actor (expiration_turn env expired (s\<lparr>a_timers := later\<rparr>))) = a_recent_idempotency s"
  "a_recent_idempotency (run_actor (shutdown_turn env s)) = a_recent_idempotency s"
  "a_recent_idempotency (timer_fires s) = a_recent_idempotency s"
proof -
  show stop: "a_recent_idempotency (run_actor (shutdown_turn env s)) = a_recent_idempotency s" for s :: "'a actor"
    by (cases "graceful_shutdown env s") (simp add: shutdown_turn_def graceful_shutdown_recent)
  show "model_wf (a_config s) (a_model s) \<Longrightarrow> request_wf request \<Longrightarrow> \<forall>envelope. request \<noteq> ReqApply envelope \<Longrightarrow>
      a_recent_idempotency (run_actor (request_turn env request s)) = a_recent_idempotency s"
    using handle_request_recent [of env request s] by (cases "handle_request env request s") (auto simp: request_turn_actor)
  show "a_recent_idempotency (run_actor (expiration_turn env expired (s\<lparr>a_timers := later\<rparr>))) = a_recent_idempotency s"
  proof (cases "handle_idle_expiration env expired (s\<lparr>a_timers := later\<rparr>)")
    case (Pair stopping t)
    from handle_idle_expiration_recent [OF this] Pair stop [of t] show ?thesis by (cases stopping) (simp_all add: expiration_turn_def)
  qed
  show "a_recent_idempotency (timer_fires s) = a_recent_idempotency s"
    by (auto simp: timer_fires_def split: option.split)
qed

text \<open>Where a key stands after it was remembered and up to \<open>n\<close> keys behind it.\<close>

definition remembered :: "uuid \<Rightarrow> nat \<Rightarrow> 'w actor \<Rightarrow> bool" where
  "remembered key n s \<longleftrightarrow> (\<exists>front rear. a_recent_idempotency s = front @ key # rear \<and> length rear \<le> n \<and>
     length front + length rear < IDEMPOTENCY_WINDOW)"

lemma remembered_first:
  assumes "length (a_recent_idempotency s) \<le> IDEMPOTENCY_WINDOW"
    and "a_recent_idempotency t = a_recent_idempotency (remember_idempotency key s)"
  shows "remembered key 0 t"
  using assms by (auto simp: remembered_def remember_idempotency_def IDEMPOTENCY_WINDOW_def split: if_splits)

lemma remembered_next:
  assumes "remembered key n s" and "keys_follow s t" and "Suc n < IDEMPOTENCY_WINDOW"
  shows "remembered key (Suc n) t"
proof -
  obtain front rear where IH: "a_recent_idempotency s = front @ key # rear" "length rear \<le> n"
    "length front + length rear < IDEMPOTENCY_WINDOW"
    using assms(1) unfolding remembered_def by blast
  consider "a_recent_idempotency t = a_recent_idempotency s"
    | k where "a_recent_idempotency t = a_recent_idempotency (remember_idempotency k s)"
    using assms(2) unfolding keys_follow_def by blast
  then show ?thesis
  proof cases
    case 1
    with IH show ?thesis unfolding remembered_def by (metis le_SucI)
  next
    case (2 k)
    show ?thesis
    proof (cases "Suc (length front + length rear) = IDEMPOTENCY_WINDOW")
      case True
      with IH(2) assms(3) obtain f fs where "front = f # fs" by (cases front) auto
      then have "a_recent_idempotency t = fs @ key # (rear @ [k])" "length fs + length (rear @ [k]) < IDEMPOTENCY_WINDOW"
        using 2 IH True by (simp_all add: remember_idempotency_def)
      then show ?thesis using IH(2) unfolding remembered_def by (metis Suc_le_mono length_append_singleton)
    next
      case False
      then have "a_recent_idempotency t = front @ key # (rear @ [k])" "length front + length (rear @ [k]) < IDEMPOTENCY_WINDOW"
        using 2 IH by (simp_all add: remember_idempotency_def)
      then show ?thesis using IH(2) unfolding remembered_def by (metis Suc_le_mono length_append_singleton)
    qed
  qed
qed

lemma remembered_later:
  assumes "later_commands env a n b" and "run_inv c a" and "remembered key 0 (run_actor a)" and "n < IDEMPOTENCY_WINDOW"
  shows "remembered key n (run_actor b)"
  using assms
proof (induction rule: later_commands.induct)
  case (command n s envelope)
  have "run_inv c (Running s)" by (rule player_run.steps_inv [OF later_commands_run [OF command.hyps(1)] command.prems(1)])
  then have "model_wf (a_config s) (a_model s)" by (auto simp: run_inv_def actor_inv_def)
  from command_turn_keys [OF this command.hyps(2)] command show ?case by (auto intro: remembered_next)
next
  case (request n s q)
  have "run_inv c (Running s)" by (rule player_run.steps_inv [OF later_commands_run [OF request.hyps(1)] request.prems(1)])
  then have "model_wf (a_config s) (a_model s)" by (auto simp: run_inv_def actor_inv_def)
  from other_turns_recent(1) [OF this request.hyps(2,3)] request show ?case by (auto simp: remembered_def)
qed (auto simp: remembered_def other_turns_recent)

text \<open>The window is never longer than it may be.\<close>

definition window_ok :: "'w run \<Rightarrow> bool" where
  "window_ok r \<longleftrightarrow> length (a_recent_idempotency (run_actor r)) \<le> IDEMPOTENCY_WINDOW"

lemma window_step:
  assumes "run_step env a b" and "run_inv c a" and "window_ok a"
  shows "window_ok b"
proof -
  have same: ?thesis if "a_recent_idempotency (run_actor b) = a_recent_idempotency (run_actor a)"
    using that assms(3) by (simp add: window_ok_def)
  show ?thesis
    using assms(1)
  proof cases
    case (request q s)
    then have wf: "model_wf (a_config s) (a_model s)" using assms(2) by (auto simp: run_inv_def actor_inv_def)
    show ?thesis
    proof (cases "\<exists>envelope. q = ReqApply envelope")
      case True
      with request command_turn_keys [OF wf, of _ env] have "keys_follow (run_actor a) (run_actor b)" by auto
      then show ?thesis using assms(3)
        by (auto simp: window_ok_def keys_follow_def remember_idempotency_def IDEMPOTENCY_WINDOW_def split: if_splits)
    next
      case False
      then have "a_recent_idempotency (run_actor b) = a_recent_idempotency (run_actor a)"
        using request(1,2) other_turns_recent(1) [OF wf request(3)] by auto
      then show ?thesis by (rule same)
    qed
  qed (use assms(3) in \<open>auto simp: window_ok_def other_turns_recent\<close>)
qed

interpretation idempotency_window: invariant_machine "run_initial env c" "run_step env" "\<lambda>r. run_inv c r \<and> window_ok r"
  for env c
proof unfold_locales
  fix r assume r: "run_initial env c r"
  then have "run_inv c r" by (auto simp: run_initial_def intro: spawned_inv)
  moreover have "a_recent_idempotency (run_actor r) = []"
    using r by (auto simp: run_initial_def spawned_def run_start_def publish_frame actor_new_def)
  ultimately show "run_inv c r \<and> window_ok r" by (simp add: window_ok_def)
next
  fix a b assume "run_inv c a \<and> window_ok a" "run_step env a b"
  then show "run_inv c b \<and> window_ok b" using window_step player_run.step_inv by blast
qed

text \<open>C8: A command is executed once: after the actor has executed it, the delivery of any command with the
  same key is answered with the current snapshot and changes nothing at all, until 1,024 more commands
  were delivered, whatever else the actor handled in the meantime; so in every run.\<close>

theorem replayed_commands_have_no_effect:
  assumes "player_config_wf c" and "rtranclp (run_step env) (spawned env guild revision world c) (Running s)"
    and "command_wf (ce_command envelope)" and "ce_idempotency_key envelope \<notin> set (a_recent_idempotency s)"
    and "handle_request env (ReqApply envelope) s = (Handled (ReplyMutation (Inr snapshot)) None, t)"
    and "later_commands env (Running t) n (Running u)" and "n < IDEMPOTENCY_WINDOW"
    and "ce_idempotency_key again = ce_idempotency_key envelope"
  shows "handle_request env (ReqApply again) u = (Handled (ReplyMutation (Inr (current_snapshot env u))) None, u)"
proof -
  have inv: "run_inv c (Running s)" "window_ok (Running s)"
    using idempotency_window.reachable_inv [of env c "spawned env guild revision world c"] assms(1,2)
    by (auto simp: run_initial_def)
  then have wf: "model_wf (a_config s) (a_model s)" by (auto simp: run_inv_def actor_inv_def)
  have applied: "apply_command env envelope s = (Inr snapshot, t)"
    using assms(5) by (auto simp: mutation_reply_def split: prod.splits sum.splits fault.splits)
  have first: "remembered (ce_idempotency_key envelope) 0 t"
    using apply_command_keys(2) [OF applied wf assms(3,4) refl] inv(2) by (auto simp: window_ok_def intro: remembered_first)
  have "request_turn env (ReqApply envelope) s = Running t" unfolding request_turn_def assms(5) by simp
  then have "run_step env (Running s) (Running t)"
    using run_step.request [of "ReqApply envelope" env s] assms(3) by simp
  then have "run_inv c (Running t)" using player_run.step_inv inv(1) by blast
  from remembered_later [OF assms(6) this _ assms(7)] first
  have "ce_idempotency_key again \<in> set (a_recent_idempotency u)" by (auto simp: remembered_def assms(8))
  then show ?thesis by (simp add: apply_command_def mutation_reply_def)
qed

lemma replayed_commands_have_no_effect_witness:
  "handle_request calm_env (ReqApply (sample_envelope 21 9 Stop)) sample_wrapped =
     (Handled (ReplyMutation (Inr (current_snapshot calm_env sample_wrapped))) None, sample_wrapped)"
proof -
  let ?first = "sample_envelope 21 3 (SetRepeat RepeatQueue)"
  have keys: "ce_idempotency_key ?first = 21" "ce_idempotency_key (sample_envelope 21 9 Stop) = 21"
    "command_wf (ce_command ?first)"
    by (simp_all add: sample_envelope_def command_envelope_new_def command_wf_def)
  have fresh: "ce_idempotency_key ?first \<notin> set (a_recent_idempotency sample_queued)" by simp
  have "\<exists>snapshot. fst (handle_request calm_env (ReqApply ?first) sample_queued) = Handled (ReplyMutation (Inr snapshot)) None"
    by (simp add: handler_simps run_simps player_model_new_def sample_model_def less_eq_unix_time_millis_def
        u64_try_from_or_max_def)
  then obtain snapshot where first: "handle_request calm_env (ReqApply ?first) sample_queued =
      (Handled (ReplyMutation (Inr snapshot)) None, sample_repeating)"
    unfolding sample_repeating_def after_request_def by (metis prod.collapse)
  let ?ended = "ReqPlaybackEnded \<lparr>pi_track_id = 1, pi_generation = PlaybackGeneration 1\<rparr> Natural"
  have "\<exists>reply. fst (handle_request calm_env ?ended sample_repeating) = Handled reply None"
    by (simp add: handler_simps run_simps player_model_new_def sample_model_def)
  then obtain reply where "handle_request calm_env ?ended sample_repeating = (Handled reply None, sample_wrapped)"
    unfolding sample_wrapped_def after_request_def by (metis prod.collapse)
  then have "request_turn calm_env ?ended sample_repeating = Running sample_wrapped" by (simp add: request_turn_def)
  then have later: "later_commands calm_env (Running sample_repeating) 0 (Running sample_wrapped)"
    using later_commands.request [OF later_commands.none, where s = sample_repeating and request = ?ended and env = calm_env] by simp
  show ?thesis
    by (rule replayed_commands_have_no_effect [OF sample_config_simps(1) sample_run_queued keys(3) fresh first later])
      (simp_all add: keys IDEMPOTENCY_WINDOW_def)
qed

text \<open>A command is executed only for its own guild, before its deadline, at the current
  revision and in a state that supports it; otherwise it fails with the validation error
  and leaves the whole actor untouched.\<close>

theorem apply_command_checks_envelope:
  assumes "ce_idempotency_key envelope \<notin> set (a_recent_idempotency s)"
    and "\<not> (ce_guild_id envelope = pm_guild_id (a_model s) \<and> unix_now env s < ce_deadline envelope \<and>
            ce_expected_revision envelope = pm_revision (a_model s) \<and>
            command_ready (ce_command envelope) (current_snapshot env s))"
  shows "\<exists>e. apply_command env envelope s = (Inl (Failed (InvalidCommand e)), s) \<and>
    envelope_validate_against envelope (current_snapshot env s) (unix_now env s) = Inl e"
proof -
  have "envelope_validate_against envelope (current_snapshot env s) (unix_now env s) \<noteq> Inr ()"
    using assms(2) by (auto simp: envelope_validate_ok current_snapshot_def model_snapshot_def)
  then obtain e where "envelope_validate_against envelope (current_snapshot env s) (unix_now env s) = Inl e"
    by (cases "envelope_validate_against envelope (current_snapshot env s) (unix_now env s)") auto
  then show ?thesis using assms(1) by (simp add: apply_command_def fail_def)
qed

lemma apply_command_checks_envelope_witness:
  "\<exists>e. apply_command calm_env (sample_envelope 30 2 Skip) sample_queued =
     (Inl (Failed (InvalidCommand e)), sample_queued)"
proof -
  have "\<not> (ce_expected_revision (sample_envelope 30 2 Skip) = pm_revision (a_model sample_queued))"
    by (simp add: sample_envelope_def command_envelope_new_def)
  with apply_command_checks_envelope [of "sample_envelope 30 2 Skip" sample_queued calm_env]
  show ?thesis by auto
qed

end
