(* ===== verification/Player_Behaviour.thy ===== *)
theory Player_Behaviour
  imports Player_Samples
begin

text \<open>
  The functional behaviour of the player's operations: what a successful operation
  does to the current track, the queue, the history and the state, and how it fails.
\<close>

section \<open>Successful operations\<close>

lemma finish_change_success:
  "finish_change env w n u = (Inr snap, t) \<Longrightarrow> a_model t = (a_model u)\<lparr>pm_revision := n\<rparr>"
  by (simp add: finish_change_frame(1))

lemma call_port_success: "call_port env e c s = (Inr x, t) \<Longrightarrow> a_model t = a_model s \<and> a_config t = a_config s"
  using call_port_quiet [of env e c s "Inr x" t] by (simp add: quietD)

lemma next_playback_generation_success:
  "next_playback_generation s = (Inr g, t) \<Longrightarrow>
     a_model t = a_model s \<and> a_config t = a_config s \<and> a_playback_generation s < g"
  using next_playback_generation_quiet [of s "Inr g" t] by (simp add: quietD)

text \<open>
  Playing an already selected track and committing: the common end of skipping and of
  going back.
\<close>

lemma skip_success:
  assumes "skip env s = (Inr snap, t)" and a: "pm_current (a_model s) = Some a"
  shows "\<exists>current n. a_model t =
      (settle current (drop 1 (pm_queue (a_model s)))
        (push_history_model (max_queued_tracks (a_config s)) (at_track a) (a_model s)))\<lparr>pm_revision := n\<rparr> \<and>
    (if pm_queue (a_model s) = [] then current = None
     else \<exists>g now. current = Some (active_playing (hd (pm_queue (a_model s))) g now) \<and>
            a_playback_generation s < g)"
proof (rule attempt_InrE [OF assms(1) [unfolded skip_def Let_def]], erule attempt_InrE, goal_cases)
  case (1 n s' g v)
  then have s': "s' = s" by (simp add: next_revision_Inr)
  have v: "a_model v = a_model s" "a_config v = a_config s"
    using 1(2) unfolding s' by (auto split: list.splits elim!: attempt_InrE
        dest!: call_port_success next_playback_generation_success)
  have push: "a_model (push_history tr (update_model (\<lambda>m. m\<lparr>pm_current := None\<rparr>) v)) =
      push_history_model (max_queued_tracks (a_config s)) tr ((a_model v)\<lparr>pm_current := None\<rparr>)" for tr
    by (simp add: push_history_alt v)
  show ?case
  proof (cases "pm_queue (a_model s)")
    case Nil
    then have "g = None" using 1(2) unfolding s' by (auto elim!: attempt_InrE)
    then show ?thesis
      using 1(3) Nil
      by (auto simp: v a push settle_after_take [where current = None, simplified]
          dest!: finish_change_success)
  next
    case (Cons track rest)
    then obtain h where h: "g = Some h" "a_playback_generation s < h"
      using 1(2) unfolding s' by (auto elim!: attempt_InrE
          dest!: call_port_success next_playback_generation_success)
    obtain now where "finish_change env (is_idle_connected (a_model s)) n
      (update_model (\<lambda>m. settle (Some (active_playing track h now)) (drop 1 (pm_queue m))
        (push_history_model (max_queued_tracks (a_config s)) (at_track a) m)) v) = (Inr snap, t)"
      using 1(3) by (simp add: v a push h(1) Cons settle_after_take [where current = "Some b" for b, simplified])
    from finish_change_success [OF this] show ?thesis
      using h Cons by (auto simp: v)
  qed
qed

lemma previous_success:
  assumes "previous env s = (Inr snap, t)"
  shows "pm_history (a_model s) \<noteq> [] \<and> (\<exists>g now n. a_playback_generation s < g \<and>
    a_model t = (a_model s)\<lparr>pm_history := butlast (pm_history (a_model s)),
      pm_queue := map at_track (option_list (pm_current (a_model s))) @
        (case position (\<lambda>u. qt_track_id u = qt_track_id (last (pm_history (a_model s)))) (pm_queue (a_model s)) of
           None \<Rightarrow> pm_queue (a_model s) | Some i \<Rightarrow> remove_at i (pm_queue (a_model s))),
      pm_current := Some (active_playing (last (pm_history (a_model s))) g now),
      pm_state := Playing, pm_revision := n\<rparr>)"
proof -
  have h: "pm_history (a_model s) \<noteq> []" using assms by (auto simp: previous_def)
  note run = assms [unfolded previous_def Let_def if_not_P [OF h]]
  have queue: "(case pm_current m of None \<Rightarrow> q | Some current \<Rightarrow> at_track current # q) =
      map at_track (option_list (pm_current m)) @ q" for m q
    by (cases "pm_current m") auto
  let ?index = "position (\<lambda>u. qt_track_id u = qt_track_id (last (pm_history (a_model s)))) (pm_queue (a_model s))"
  have "\<not> length (pm_queue (a_model s)) - (if ?index \<noteq> None then 1 else 0) +
      (if pm_current (a_model s) \<noteq> None then 1 else 0) > max_queued_tracks (a_config s)"
    using run by (auto simp: fail_def split: if_splits)
  note run = run [unfolded if_not_P [OF this]]
  show ?thesis
  proof (rule conjI [OF h], rule attempt_InrE [OF run], erule attempt_InrE, erule attempt_InrE, goal_cases)
    case (1 n s' g v x w)
    then have "s' = s" by (simp add: next_revision_Inr)
    then have w: "a_model w = a_model s" "a_playback_generation s < g"
      using next_playback_generation_success [OF 1(2)] call_port_success [OF 1(3)] by simp_all
    show ?case
      by (rule exI [of _ g], rule exI [of _ "instant_now env w"], rule exI [of _ n])
        (cases ?index; simp add: finish_change_success [OF 1(4)] w queue)
  qed
qed

section \<open>Skipping and going back\<close>

text \<open>A successful skip starts the head of the queue under a fresh generation and drops it
  from the queue, or stops when the queue is empty; the skipped track ends the history, which
  loses its oldest entry when it is full.\<close>

theorem skip_plays_next:
  assumes "skip env s = (Inr snap, t)" and "pm_current (a_model s) = Some a"
  shows "pm_queue (a_model t) = drop 1 (pm_queue (a_model s)) \<and>
    (case pm_queue (a_model s) of
       [] \<Rightarrow> pm_current (a_model t) = None \<and> pm_state (a_model t) = IdleConnected
     | track # _ \<Rightarrow> pm_state (a_model t) = Playing \<and> (\<exists>g now. a_playback_generation s < g \<and>
         pm_current (a_model t) = Some (active_playing track g now))) \<and>
    pm_history (a_model t) =
      (if length (pm_history (a_model s)) = max_queued_tracks (a_config s)
       then drop 1 (pm_history (a_model s)) else pm_history (a_model s)) @ [at_track a]"
proof (cases "pm_queue (a_model s)")
  case Nil
  then show ?thesis
    using skip_success [OF assms] by (auto simp: settle_def push_history_model_def Let_def)
next
  case (Cons track rest)
  then obtain g now n where "a_playback_generation s < g"
    "a_model t = (settle (Some (active_playing track g now)) rest
      (push_history_model (max_queued_tracks (a_config s)) (at_track a) (a_model s)))\<lparr>pm_revision := n\<rparr>"
    using skip_success [OF assms] by auto
  with Cons show ?thesis
    by (simp add: settle_def push_history_model_def Let_def) blast
qed

lemma skip_plays_next_witness:
  "pm_queue (a_model (snd (skip calm_env sample_queued))) = []"
proof -
  have "\<exists>snap t. skip calm_env sample_queued = (Inr snap, t)"
    by (simp add: handler_simps run_simps sample_model_def player_model_new_def)
  then obtain snap t where "skip calm_env sample_queued = (Inr snap, t)" by blast
  with skip_plays_next [OF this] show ?thesis by simp
qed

text \<open>Going back right after a skip undoes it: the same track is current again, from its
  start and under a fresh generation, with the queue and, unless it was full, the history
  as they were.\<close>

theorem previous_undoes_skip:
  assumes "skip env s = (Inr snap, t)" and "previous env t = (Inr snap', u)"
    and "pm_current (a_model s) = Some a" and "pm_queue (a_model s) \<noteq> []"
    and "distinct (model_track_ids (a_model s))"
  shows "(\<exists>g now. a_playback_generation t < g \<and>
      pm_current (a_model u) = Some (active_playing (at_track a) g now)) \<and>
    pm_queue (a_model u) = pm_queue (a_model s) \<and>
    (length (pm_history (a_model s)) \<noteq> max_queued_tracks (a_config s) \<longrightarrow>
       pm_history (a_model u) = pm_history (a_model s))"
proof -
  obtain track rest where queue: "pm_queue (a_model s) = track # rest"
    using assms(4) by (cases "pm_queue (a_model s)") auto
  obtain g now n where t: "a_model t = (settle (Some (active_playing track g now)) rest
      (push_history_model (max_queued_tracks (a_config s)) (at_track a) (a_model s)))\<lparr>pm_revision := n\<rparr>"
    using skip_success [OF assms(1,3)] queue by auto
  have "qt_track_id (at_track a) \<notin> qt_track_id ` set rest"
    using assms(5) by (simp add: distinct_ids assms(3) queue)
  then have "\<forall>u \<in> set rest. qt_track_id u \<noteq> qt_track_id (at_track a)" by (metis imageI)
  then have position: "position (\<lambda>u. qt_track_id u = qt_track_id (at_track a)) rest = None"
    by (simp add: position_None)
  have hist: "last (pm_history (a_model t)) = at_track a" "butlast (pm_history (a_model t)) =
      (if length (pm_history (a_model s)) = max_queued_tracks (a_config s)
       then drop 1 (pm_history (a_model s)) else pm_history (a_model s))"
    by (simp_all add: t push_history_model_def Let_def)
  have now: "pm_queue (a_model t) = rest" "pm_current (a_model t) = Some (active_playing track g now)"
    by (simp_all add: t)
  obtain h later k where h: "a_playback_generation t < h" and u: "a_model u =
      (a_model t)\<lparr>pm_history := butlast (pm_history (a_model t)), pm_queue := track # rest,
        pm_current := Some (active_playing (at_track a) h later), pm_state := Playing, pm_revision := k\<rparr>"
    using previous_success [OF assms(2)] by (simp add: hist(1) now position) blast
  show ?thesis using h by (auto simp: u hist(2) queue)
qed

lemma previous_undoes_skip_witness:
  "\<exists>snap t snap' u. skip calm_env sample_queued = (Inr snap, t) \<and> previous calm_env t = (Inr snap', u) \<and>
     pm_queue (a_model u) = [sample_track 2]"
proof -
  define t where "t = snd (skip calm_env sample_queued)"
  have skip: "\<exists>snap. skip calm_env sample_queued = (Inr snap, t)"
    by (simp add: t_def handler_simps run_simps sample_model_def player_model_new_def)
  have t: "a_model t = (a_model sample_queued)\<lparr>pm_revision := StateRevision 4, pm_queue := [],
      pm_current := Some (active_playing (sample_track 2) (PlaybackGeneration 2) 5),
      pm_history := [sample_track 1]\<rparr>"
    "a_config t = sample_config" "a_playback_generation t = PlaybackGeneration 2" "a_world t = 5"
    by (simp_all add: t_def handler_simps run_simps sample_model_def player_model_new_def)
  have "\<exists>snap' u. previous calm_env t = (Inr snap', u)"
    by (simp add: handler_simps run_simps t sample_model_def player_model_new_def)
  with skip obtain snap snap' u where run: "skip calm_env sample_queued = (Inr snap, t)"
    "previous calm_env t = (Inr snap', u)" by blast
  with previous_undoes_skip [OF run] show ?thesis
    by (auto simp: model_track_ids_def model_tracks_def active_playing_def)
qed

section \<open>The queue\<close>

lemma move_success:
  assumes "move_queued env i before s = (Inr snap, t)"
  obtains source d where "position (\<lambda>u. qt_track_id u = i) (pm_queue (a_model s)) = Some source"
    and "move_destination (pm_queue (a_model s)) i before source = Inr d"
    and "pm_queue (a_model t) = insert_at d (pm_queue (a_model s) ! source)
      (remove_at source (pm_queue (a_model s)))"
proof -
  let ?q = "pm_queue (a_model s)"
  from assms obtain source d where
    found: "position (\<lambda>u. qt_track_id u = i) ?q = Some source" "move_destination ?q i before source = Inr d"
    by (auto simp: move_queued_def fail_def split: option.splits sum.splits)
  then have source: "source < length ?q" using position_Some by fast
  show thesis
  proof (cases "d = source")
    case True
    with found assms have "t = s" by (auto simp: move_queued_def)
    moreover have "insert_at source (?q ! source) (remove_at source ?q) = ?q"
      using source by (simp add: insert_at_def remove_at_def id_take_nth_drop [symmetric])
    ultimately show thesis using that found True by simp
  next
    case False
    with found assms have "attempt next_revision (\<lambda>next s. finish_change env (is_idle_connected (a_model s)) next
          (update_model (\<lambda>m. m\<lparr>pm_queue := insert_at d (pm_queue m ! source)
             (remove_at source (pm_queue m))\<rparr>) s)) s = (Inr snap, t)"
      by (simp add: move_queued_def Let_def)
    then show thesis
      using that found by (auto simp: next_revision_Inr elim!: attempt_InrE dest!: finish_change_success)
  qed
qed

lemma filter_remove_at: "i < length xs \<Longrightarrow> \<not> P (xs ! i) \<Longrightarrow> filter P (remove_at i xs) = filter P xs"
  by (subst (2) id_take_nth_drop [of i xs]) (simp_all add: remove_at_def)

lemma filter_insert_at: "\<not> P x \<Longrightarrow> filter P (insert_at i x xs) = filter P xs"
  by (subst (2) append_take_drop_id [of i xs, symmetric], unfold filter_append)
    (simp add: insert_at_def)

lemma nth_remove_at:
  "source < length q \<Longrightarrow> target < length q \<Longrightarrow> target \<noteq> source \<Longrightarrow>
     remove_at source q ! (if target > source then target - 1 else target) = q ! target"
  by (auto simp: remove_at_def nth_append min_def)

text \<open>A successful move keeps the other tracks in their order and puts the moved one directly
  before the named track, or at the end of the queue when none is named.\<close>

theorem move_queued_places:
  assumes "move_queued env i before s = (Inr snap, t)"
  shows "filter (\<lambda>u. qt_track_id u \<noteq> i) (pm_queue (a_model t)) =
      filter (\<lambda>u. qt_track_id u \<noteq> i) (pm_queue (a_model s)) \<and>
    mset (pm_queue (a_model t)) = mset (pm_queue (a_model s)) \<and>
    (case before of
       None \<Rightarrow> qt_track_id (last (pm_queue (a_model t))) = i
     | Some b \<Rightarrow> b = i \<or> (\<exists>front x y rest. pm_queue (a_model t) = front @ x # y # rest \<and>
         qt_track_id x = i \<and> qt_track_id y = b))"
proof -
  let ?q = "pm_queue (a_model s)"
  obtain source d where source: "position (\<lambda>u. qt_track_id u = i) ?q = Some source"
    and d: "move_destination ?q i before source = Inr d"
    and q': "pm_queue (a_model t) = insert_at d (?q ! source) (remove_at source ?q)"
    by (rule move_success [OF assms])
  from source have i: "source < length ?q" "qt_track_id (?q ! source) = i" by (auto dest: position_Some)
  have order: "filter (\<lambda>u. qt_track_id u \<noteq> i) (pm_queue (a_model t)) = filter (\<lambda>u. qt_track_id u \<noteq> i) ?q"
    unfolding q' using i by (simp add: filter_insert_at filter_remove_at)
  have perm: "mset (pm_queue (a_model t)) = mset ?q" unfolding q' using i(1) by (rule mset_move)
  have place: "case before of
       None \<Rightarrow> qt_track_id (last (pm_queue (a_model t))) = i
     | Some b \<Rightarrow> b = i \<or> (\<exists>front x y rest. pm_queue (a_model t) = front @ x # y # rest \<and>
         qt_track_id x = i \<and> qt_track_id y = b)"
  proof (cases before)
    case None
    then have "d = length (remove_at source ?q)" using d i(1) by (simp add: move_destination_def deque_simps)
    then show ?thesis using None i(2) by (simp add: q' insert_at_def)
  next
    case (Some b)
    show ?thesis
    proof (cases "b = i")
      case False
      with d Some obtain target where target: "position (\<lambda>u. qt_track_id u = b) ?q = Some target"
        and dt: "d = (if target > source then target - 1 else target)"
        by (auto simp: move_destination_def split: option.splits)
      from target have b: "target < length ?q" "qt_track_id (?q ! target) = b" by (auto dest: position_Some)
      have "target \<noteq> source" using b i False by auto
      then have y: "remove_at source ?q ! d = ?q ! target" and "d < length (remove_at source ?q)"
        using nth_remove_at [OF i(1) b(1)] i(1) b(1) by (auto simp: dt deque_simps)
      then have "drop d (remove_at source ?q) = ?q ! target # drop (Suc d) (remove_at source ?q)"
        by (metis Cons_nth_drop_Suc)
      then show ?thesis using Some i(2) b(2) by (auto simp: q' insert_at_def)
    qed (simp add: Some)
  qed
  show ?thesis using order perm place by blast
qed

lemma move_queued_places_witness:
  "\<exists>snap t. move_queued calm_env 2 None sample_queued = (Inr snap, t) \<and>
     qt_track_id (last (pm_queue (a_model t))) = 2"
proof -
  have "\<exists>snap t. move_queued calm_env 2 None sample_queued = (Inr snap, t)"
    by (simp add: move_queued_def move_destination_def)
  then obtain snap t where "move_queued calm_env 2 None sample_queued = (Inr snap, t)" by blast
  with move_queued_places [OF this] show ?thesis by auto
qed

text \<open>What enqueueing does: refused with the first applicable error and no effect, or the
  track is current when nothing was playing, or it joins the queue: at its end, or when
  shuffling at some place that leaves the order of the others alone.\<close>

theorem enqueue_behaviour:
  assumes "enqueue env track expected s = (r, t)"
  shows "if expected \<noteq> pm_revision (a_model s) then t = s \<and> (\<exists>x y. r = Inl (Failed (RevisionMismatch x y)))
    else if pm_voice_channel_id (a_model s) = None then r = Inl (Failed NotConnected) \<and> t = s
    else if \<not> has_valid_public_title track then r = Inl (Failed (InvalidTrack ''title'')) \<and> t = s
    else if contains_track (a_model s) (qt_track_id track)
    then r = Inl (Failed (DuplicateTrack (qt_track_id track))) \<and> t = s
    else if pm_current (a_model s) \<noteq> None \<and> max_queued_tracks (a_config s) \<le> length (pm_queue (a_model s))
    then r = Inl (Failed (QueueFull (max_queued_tracks (a_config s)))) \<and> t = s
    else \<forall>snap. r = Inr snap \<longrightarrow>
      (if pm_current (a_model s) = None
       then pm_queue (a_model t) = pm_queue (a_model s) \<and> pm_state (a_model t) = Playing \<and>
         (\<exists>g now. a_playback_generation s < g \<and> pm_current (a_model t) = Some (active_playing track g now))
       else pm_current (a_model t) = pm_current (a_model s) \<and>
         (\<exists>front rest. pm_queue (a_model s) = front @ rest \<and> pm_queue (a_model t) = front @ track # rest \<and>
            (pm_shuffle_enabled (a_model s) \<or> rest = [])))"
proof (cases "expected \<noteq> pm_revision (a_model s) \<or> pm_voice_channel_id (a_model s) = None \<or>
    \<not> has_valid_public_title track \<or> contains_track (a_model s) (qt_track_id track) \<or>
    (pm_current (a_model s) \<noteq> None \<and> max_queued_tracks (a_config s) \<le> length (pm_queue (a_model s)))")
  case True
  with assms show ?thesis by (auto simp: enqueue_def check_revision_def fail_def attempt_def)
next
  case False
  have "if pm_current (a_model s) = None
       then pm_queue (a_model t) = pm_queue (a_model s) \<and> pm_state (a_model t) = Playing \<and>
         (\<exists>g now. a_playback_generation s < g \<and> pm_current (a_model t) = Some (active_playing track g now))
       else pm_current (a_model t) = pm_current (a_model s) \<and>
         (\<exists>front rest. pm_queue (a_model s) = front @ rest \<and> pm_queue (a_model t) = front @ track # rest \<and>
            (pm_shuffle_enabled (a_model s) \<or> rest = []))" if "r = Inr snap" for snap
  proof (cases "pm_current (a_model s)")
    case None
    with False assms that have "attempt next_revision (\<lambda>next s. attempt (start_playing env track)
          (\<lambda>_. finish_change env (is_idle_connected (a_model s)) next) s) s = (Inr snap, t)"
      by (auto simp: enqueue_def check_revision_def attempt_def next_revision_def split: option.splits)
    then obtain n u v where v: "start_playing env track s = (Inr u, v)"
      "a_model t = (a_model v)\<lparr>pm_revision := n\<rparr>"
      by (auto simp: next_revision_Inr elim!: attempt_InrE dest!: finish_change_success)
    from v(1) show ?thesis
    proof (cases rule: start_playing_cases)
      case (started w g now)
      then have "a_model t = (a_model s)\<lparr>pm_current := Some (active_playing track g now),
          pm_state := Playing, pm_revision := n\<rparr>"
        by (simp add: v(2) quietD)
      then show ?thesis using None started(3) by (simp add: exI [of _ now] exI [of _ g])
    qed simp
  next
    case (Some a)
    with False assms that have "attempt next_revision (\<lambda>next s. finish_change env
        (is_idle_connected (a_model s)) next (update_model (queue_add track) s)) s = (Inr snap, t)"
      by (auto simp: enqueue_def check_revision_def attempt_def next_revision_def split: option.splits)
    then obtain n where t: "a_model t = (queue_add track (a_model s))\<lparr>pm_revision := n\<rparr>"
      by (auto simp: next_revision_Inr elim!: attempt_InrE dest!: finish_change_success)
    obtain front rest where split: "pm_queue (a_model s) = front @ rest"
      "insert_shuffled (pm_queue (a_model s)) track (seed_from_uuid (qt_track_id track)) = front @ track # rest"
      using insert_shuffled_splits [of "pm_queue (a_model s)" track "seed_from_uuid (qt_track_id track)"]
      by (elim exE conjE)
    show ?thesis
    proof (cases "pm_shuffle_enabled (a_model s)")
      case True
      then have "pm_queue (a_model t) = front @ track # rest"
        "pm_current (a_model t) = pm_current (a_model s)"
        using split(2) by (simp_all add: t queue_add_def)
      with True split(1) show ?thesis unfolding Some by (simp only: option.distinct if_False) blast
    next
      case False
      then show ?thesis using Some by (simp add: t queue_add_def)
    qed
  qed
  with False show ?thesis by auto
qed

lemma enqueue_behaviour_witness:
  "\<exists>snap t. enqueue calm_env (sample_track 2) (StateRevision 2) sample_playing = (Inr snap, t) \<and>
     pm_queue (a_model t) = [sample_track 2]"
proof -
  have "\<exists>snap t. enqueue calm_env (sample_track 2) (StateRevision 2) sample_playing = (Inr snap, t)"
    by (simp add: handler_simps run_simps sample_model_def player_model_new_def)
  then obtain snap t where "enqueue calm_env (sample_track 2) (StateRevision 2) sample_playing = (Inr snap, t)"
    by blast
  with enqueue_behaviour [OF this] show ?thesis
    by (auto simp: sample_model_def player_model_new_def contains_track_def is_some_and_def
        active_playing_def)
qed

text \<open>A batch is added as a whole under a single new revision: all of it behind the queue in
  the given order (or, when nothing was playing, its first track current and the rest
  queued), when the queue is not being shuffled; its identities are new and distinct.\<close>

theorem enqueue_batch_adds_all:
  assumes "enqueue_batch env tracks expected s = (Inr snap, t)" and "tracks \<noteq> []"
  shows "checked_next (pm_revision (a_model s)) = Some (pm_revision (a_model t)) \<and>
    distinct (map qt_track_id tracks) \<and>
    set (map qt_track_id tracks) \<inter> set (model_track_ids (a_model s)) = {} \<and>
    (\<not> pm_shuffle_enabled (a_model s) \<longrightarrow>
      (if pm_current (a_model s) = None
       then pm_queue (a_model t) = pm_queue (a_model s) @ tl tracks \<and>
         map_option at_track (pm_current (a_model t)) = Some (hd tracks)
       else pm_queue (a_model t) = pm_queue (a_model s) @ tracks \<and>
         pm_current (a_model t) = pm_current (a_model s)))"
proof -
  let ?m = "a_model s"
  have fold: "\<not> pm_shuffle_enabled m \<Longrightarrow> fold queue_add ts m = m\<lparr>pm_queue := pm_queue m @ ts\<rparr>" for ts m
    by (induction ts arbitrary: m) (simp_all add: queue_add_def)
  have rev: "pm_shuffle_enabled (m\<lparr>pm_current := c, pm_state := st\<rparr>) = pm_shuffle_enabled m" for m c st
    by simp
  from assms obtain u where check: "check_batch ?m [] tracks = Inr u"
    by (cases "check_batch ?m [] tracks")
      (auto simp: enqueue_batch_def check_revision_def attempt_def fail_def Let_def split: if_splits)
  have run: "attempt next_revision (\<lambda>next s.
      if pm_current ?m = None
      then attempt (start_playing env (hd tracks)) (\<lambda>_ u. finish_change env (is_idle_connected (a_model s)) next
             (update_model (fold queue_add (tl tracks)) u)) s
      else finish_change env (is_idle_connected (a_model s)) next (update_model (fold queue_add tracks) s)) s
    = (Inr snap, t)"
    using assms check
    by (auto simp: enqueue_batch_def check_revision_def attempt_def next_revision_def fail_def Let_def
        split: if_splits option.splits)
  then obtain n where n: "checked_next (pm_revision ?m) = Some n"
    and body: "(if pm_current ?m = None
      then attempt (start_playing env (hd tracks)) (\<lambda>_ u. finish_change env (is_idle_connected ?m) n
             (update_model (fold queue_add (tl tracks)) u)) s
      else finish_change env (is_idle_connected ?m) n (update_model (fold queue_add tracks) s)) = (Inr snap, t)"
    by (auto simp: next_revision_Inr elim!: attempt_InrE)
  show ?thesis
  proof (cases "pm_current ?m")
    case None
    with body have "attempt (start_playing env (hd tracks)) (\<lambda>_ u. finish_change env (is_idle_connected ?m) n
             (update_model (fold queue_add (tl tracks)) u)) s = (Inr snap, t)" by simp
    then obtain x v where v: "start_playing env (hd tracks) s = (Inr x, v)"
      and t: "a_model t = (fold queue_add (tl tracks) (a_model v))\<lparr>pm_revision := n\<rparr>"
      by (auto elim!: attempt_InrE dest!: finish_change_success)
    from v obtain g now where "a_model v = ?m\<lparr>pm_current := Some (active_playing (hd tracks) g now),
        pm_state := Playing\<rparr>"
      by (cases rule: start_playing_cases) (auto simp: quietD)
    then show ?thesis
      using n None check [unfolded check_batch_ok] by (simp add: t fold)
  next
    case (Some a)
    with body have "finish_change env (is_idle_connected ?m) n (update_model (fold queue_add tracks) s) = (Inr snap, t)"
      by simp
    from finish_change_success [OF this] show ?thesis
      using n Some check [unfolded check_batch_ok] by (simp add: fold)
  qed
qed

lemma enqueue_batch_adds_all_witness:
  "\<exists>snap t. enqueue_batch calm_env [sample_track 2, sample_track 3] (StateRevision 2) sample_playing =
      (Inr snap, t) \<and> pm_queue (a_model t) = [sample_track 2, sample_track 3]"
proof -
  have "\<exists>snap t. enqueue_batch calm_env [sample_track 2, sample_track 3] (StateRevision 2) sample_playing =
      (Inr snap, t)"
    by (simp add: enqueue_batch_def handler_simps run_simps sample_model_def player_model_new_def)
  then obtain snap t where
    "enqueue_batch calm_env [sample_track 2, sample_track 3] (StateRevision 2) sample_playing = (Inr snap, t)"
    by blast
  with enqueue_batch_adds_all [OF this] show ?thesis
    by (auto simp: sample_model_def player_model_new_def)
qed

section \<open>The end of a track\<close>

lemma playback_ended_success:
  assumes "playback_ended env identity reason s = (Inr snap, t)"
    and a: "pm_current (a_model s) = Some a" "active_identity a = identity"
  obtains current rest s1 s2 n where "s1 = update_model (\<lambda>m. m\<lparr>pm_current := None, pm_queue := []\<rparr>) s"
    and "(if is_natural reason then after_natural_end env (at_track a) (pm_queue (a_model s)) s1
          else first_playable env (pm_queue (a_model s)) s1) = (current, rest, s2)"
    and "a_model t = (a_model s2)\<lparr>pm_queue := rest, pm_current := current,
      pm_state := (if current = None then IdleConnected else Playing), pm_revision := n\<rparr>"
proof -
  let ?s1 = "update_model (\<lambda>m. m\<lparr>pm_current := None, pm_queue := []\<rparr>) s"
  obtain current rest s2 where select: "(if is_natural reason
      then after_natural_end env (at_track a) (pm_queue (a_model s)) ?s1
      else first_playable env (pm_queue (a_model s)) ?s1) = (current, rest, s2)" by (metis prod_cases3)
  have "attempt next_revision (\<lambda>next s. finish_change env (is_idle_connected (a_model s)) next
      (update_model (\<lambda>m. m\<lparr>pm_queue := rest, pm_current := current,
         pm_state := (if current = None then IdleConnected else Playing)\<rparr>) s2)) s = (Inr snap, t)"
    using assms select
    by (auto simp: playback_ended_def attempt_def next_revision_def Let_def split: option.splits)
  then obtain n where "a_model t = (a_model s2)\<lparr>pm_queue := rest, pm_current := current,
      pm_state := (if current = None then IdleConnected else Playing), pm_revision := n\<rparr>"
    by (auto simp: next_revision_Inr elim!: attempt_InrE dest!: finish_change_success)
  with select that show thesis by blast
qed

text \<open>A track that ended by failure is neither repeated nor put into the history: the first
  queued track that plays replaces it, the ones before that are dropped, and with none the
  player is idle.\<close>

theorem failed_track_is_dropped:
  assumes "playback_ended env identity reason s = (Inr snap, t)"
    and "pm_current (a_model s) = Some a" and "active_identity a = identity" and "reason \<noteq> Natural"
  shows "pm_history (a_model t) = pm_history (a_model s) \<and>
    started_from (pm_queue (a_model s)) (pm_current (a_model t)) (pm_queue (a_model t)) \<and>
    pm_state (a_model t) = (if pm_current (a_model t) = None then IdleConnected else Playing)"
proof -
  obtain current rest s1 s2 n where s1: "s1 = update_model (\<lambda>m. m\<lparr>pm_current := None, pm_queue := []\<rparr>) s"
    and select: "(if is_natural reason then after_natural_end env (at_track a) (pm_queue (a_model s)) s1
          else first_playable env (pm_queue (a_model s)) s1) = (current, rest, s2)"
    and t: "a_model t = (a_model s2)\<lparr>pm_queue := rest, pm_current := current,
      pm_state := (if current = None then IdleConnected else Playing), pm_revision := n\<rparr>"
    by (rule playback_ended_success [OF assms(1-3)])
  have "first_playable env (pm_queue (a_model s)) s1 = (current, rest, s2)"
    using select assms(4) by (simp add: is_natural_def)
  then have "quiet s1 s2" "started_from (pm_queue (a_model s)) current rest"
    using first_playable_started by blast+
  then show ?thesis using quietD(1) [of s1 s2] by (simp add: t s1)
qed

lemma failed_track_is_dropped_witness:
  "\<exists>snap t. playback_ended calm_env \<lparr>pi_track_id = 1, pi_generation = PlaybackGeneration 1\<rparr> WorkerFailed
      sample_queued = (Inr snap, t) \<and> pm_history (a_model t) = []"
proof -
  let ?i = "\<lparr>pi_track_id = 1, pi_generation = PlaybackGeneration 1\<rparr>"
  have "\<exists>snap t. playback_ended calm_env ?i WorkerFailed sample_queued = (Inr snap, t)"
    by (simp add: handler_simps run_simps sample_model_def player_model_new_def)
  then obtain snap t where "playback_ended calm_env ?i WorkerFailed sample_queued = (Inr snap, t)" by blast
  with failed_track_is_dropped [OF this] show ?thesis
    by (auto simp: sample_model_def player_model_new_def active_identity_def active_playing_def)
qed

text \<open>After a natural end the repeat mode decides: without repeat the track joins the history
  and the queue moves on; repeating the queue also appends it to the queue; repeating the
  track, or a queue of one, plays it again, and moves on only if it cannot be played.\<close>

theorem natural_end_by_repeat_mode:
  assumes "playback_ended env identity Natural s = (Inr snap, t)"
    and "pm_current (a_model s) = Some a" and "active_identity a = identity"
  defines "pushed \<equiv> pm_history (push_history_model (max_queued_tracks (a_config s)) (at_track a) (a_model s))"
  shows "case pm_repeat_mode (a_model s) of
      RepeatOff \<Rightarrow> pm_history (a_model t) = pushed \<and>
        started_from (pm_queue (a_model s)) (pm_current (a_model t)) (pm_queue (a_model t))
    | RepeatQueue \<Rightarrow> pm_queue (a_model s) \<noteq> [] \<longrightarrow> pm_history (a_model t) = pushed \<and>
        started_from (pm_queue (a_model s) @ [at_track a]) (pm_current (a_model t)) (pm_queue (a_model t))
    | RepeatTrack \<Rightarrow>
        map_option at_track (pm_current (a_model t)) = Some (at_track a) \<and>
          pm_queue (a_model t) = pm_queue (a_model s) \<and> pm_history (a_model t) = pm_history (a_model s) \<or>
        pm_history (a_model t) = pushed \<and>
          started_from (pm_queue (a_model s)) (pm_current (a_model t)) (pm_queue (a_model t))"
proof -
  obtain current rest s1 s2 n where s1: "s1 = update_model (\<lambda>m. m\<lparr>pm_current := None, pm_queue := []\<rparr>) s"
    and select: "(if is_natural Natural then after_natural_end env (at_track a) (pm_queue (a_model s)) s1
          else first_playable env (pm_queue (a_model s)) s1) = (current, rest, s2)"
    and t: "a_model t = (a_model s2)\<lparr>pm_queue := rest, pm_current := current,
      pm_state := (if current = None then IdleConnected else Playing), pm_revision := n\<rparr>"
    by (rule playback_ended_success [OF assms(1-3)])
  have run: "after_natural_end env (at_track a) (pm_queue (a_model s)) s1 = (current, rest, s2)"
    using select by (simp add: is_natural_def)
  have pushed: "pm_history (a_model s2) = pushed \<and> started_from q current rest"
    if "first_playable env q (push_history (at_track a) u) = (current, rest, s2)" "quiet s1 u" for q u
  proof -
    have "quiet (push_history (at_track a) u) s2" "started_from q current rest"
      using first_playable_started [OF that(1)] by blast+
    then have "a_model s2 = push_history_model (max_queued_tracks (a_config s1)) (at_track a) (a_model s1)"
      using quietD [OF that(2)] by (simp add: quietD(1) push_history_alt)
    then show ?thesis
      using \<open>started_from q current rest\<close>
      by (simp add: pushed_def s1) (simp add: push_history_model_def Let_def)
  qed
  obtain x u where u: "try_play env (at_track a) s1 = (x, u)" by fastforce
  have q: "quiet s1 u" by (rule try_play_quiet [OF u])
  have replayed: "map_option at_track current = Some (at_track a) \<and> rest = pm_queue (a_model s) \<and>
      pm_history (a_model s2) = pm_history (a_model s) \<or>
      pm_history (a_model s2) = pushed \<and> started_from (pm_queue (a_model s)) current rest"
    if "replay_or_else env (at_track a) (pm_queue (a_model s)) s1 = (current, rest, s2)"
  proof (cases x)
    case None
    with that u have "first_playable env (pm_queue (a_model s)) (push_history (at_track a) u) = (current, rest, s2)"
      by (simp add: replay_or_else_def)
    then show ?thesis using pushed q by blast
  next
    case (Some g)
    with that u q show ?thesis by (auto simp: replay_or_else_def quietD s1)
  qed
  have mode: "pm_repeat_mode (a_model s1) = pm_repeat_mode (a_model s)" by (simp add: s1)
  show ?thesis
    using run pushed [OF _ quiet_refl] replayed
    by (cases "pm_repeat_mode (a_model s)") (auto simp: after_natural_end_def mode t split: if_splits)
qed

lemma natural_end_by_repeat_mode_witness:
  "\<exists>snap t. playback_ended calm_env \<lparr>pi_track_id = 1, pi_generation = PlaybackGeneration 1\<rparr> Natural
      sample_queued = (Inr snap, t) \<and> pm_history (a_model t) = [sample_track 1]"
proof -
  let ?i = "\<lparr>pi_track_id = 1, pi_generation = PlaybackGeneration 1\<rparr>"
  have "\<exists>snap t. playback_ended calm_env ?i Natural sample_queued = (Inr snap, t)"
    by (simp add: handler_simps run_simps sample_model_def player_model_new_def)
  then obtain snap t where "playback_ended calm_env ?i Natural sample_queued = (Inr snap, t)" by blast
  with natural_end_by_repeat_mode [OF this] show ?thesis
    by (auto simp: sample_model_def player_model_new_def active_identity_def active_playing_def
        push_history_model_def)
qed

end
