(* ===== verification/Player_Lifecycle.thy ===== *)
theory Player_Lifecycle
  imports Player_Behaviour
begin

text \<open>
  The player's lifecycle: positions while playing and paused, observed disconnections,
  the expiration of the idle timer and the graceful shutdown.
\<close>

section \<open>Positions\<close>

text \<open>After a successful pause the reported position no longer depends on the clock: it is
  the position the track had at the moment of the pause, within its duration.\<close>

theorem pause_freezes:
  assumes "pause env s = (Inr snap, t)"
  shows "\<exists>a b now. pm_current (a_model s) = Some a \<and> pm_current (a_model t) = Some b \<and>
    pm_state (a_model t) = Paused \<and> at_track b = at_track a \<and>
    (\<forall>later. current_position_ms later b = current_position_ms now a) \<and>
    (\<forall>d. qt_duration_ms (at_track a) = Some d \<longrightarrow> current_position_ms now a \<le> d)"
proof (rule attempt_InrE [OF assms [unfolded pause_def Let_def]], erule attempt_InrE, goal_cases)
  case (1 n s' x v)
  then have v: "a_model v = a_model s" using call_port_success [OF 1(2)] by (simp add: next_revision_Inr)
  from 1(3) obtain a where a: "pm_current (a_model v) = Some a"
    by (cases "pm_current (a_model v)") auto
  with 1(3) have "finish_change env (is_idle_connected (a_model v)) n (update_model (\<lambda>m.
      m\<lparr>pm_current := Some (active_pause (instant_now env v) a), pm_state := Paused\<rparr>) v) = (Inr snap, t)"
    by simp
  from finish_change_success [OF this] show ?case
    using a v pause_freezes_position current_position_le_duration
    by (intro exI [of _ a] exI [of _ "active_pause (instant_now env v) a"] exI [of _ "instant_now env v"]) auto
qed

lemma pause_freezes_witness:
  "\<exists>snap t b. pause calm_env sample_playing = (Inr snap, t) \<and> pm_current (a_model t) = Some b \<and>
     at_track b = sample_track 1"
proof -
  have "\<exists>snap t. pause calm_env sample_playing = (Inr snap, t)"
    by (simp add: pause_def run_simps sample_model_def player_model_new_def)
  then obtain snap t where "pause calm_env sample_playing = (Inr snap, t)" by blast
  with pause_freezes [OF this] show ?thesis by (auto simp: active_playing_def)
qed

section \<open>Observed voice state\<close>

text \<open>When the voice connection is observed to be gone, everything played or queued is
  cleared under the next revision, whether or not the adapter's own cleanup succeeds.\<close>

theorem observed_disconnect_clears:
  assumes "pm_voice_channel_id (a_model s) \<noteq> None"
    and "checked_next (pm_revision (a_model s)) = Some n"
    and "reconcile_voice_channel env None s = (r, t)"
  shows "a_model t = (a_model s)\<lparr>pm_voice_channel_id := None, pm_current := None, pm_queue := [],
    pm_history := [], pm_state := Disconnected, pm_revision := n\<rparr>"
proof -
  have run: "finish_change env (is_idle_connected (a_model s)) n
      (clear_disconnected (disconnect_best_effort env s)) = (r, t)"
    using assms by (auto simp: reconcile_voice_channel_def attempt_def next_revision_def)
  have "a_model (disconnect_best_effort env s) = a_model s"
    using disconnect_best_effort_quiet quietD(1) by blast
  then show ?thesis
    by (simp add: finish_change_frame(1) [OF run] clear_disconnected_def)
qed

lemma observed_disconnect_clears_witness:
  "pm_queue (a_model (snd (reconcile_voice_channel (scripted_env (\<lambda>call. call = PortDisconnect)) None
     sample_queued))) = []"
proof -
  let ?env = "scripted_env (\<lambda>call. call = PortDisconnect)"
  obtain r t where "reconcile_voice_channel ?env None sample_queued = (r, t)" by fastforce
  with observed_disconnect_clears [OF _ _ this, of "StateRevision 4"] show ?thesis
    by (simp add: sample_model_def checked_next_def checked_add_u64_def)
qed

section \<open>The idle timer\<close>

text \<open>An expiration disconnects the player only if it carries the current timer generation
  and the player is still connected and idle; any other expiration changes neither the
  model nor the timer.\<close>

theorem idle_expiration_needs_current_generation:
  assumes "handle_idle_expiration env expired s = (stopped, t)"
  shows "if expired = it_generation (a_idle_timer s) \<and> is_idle_connected (a_model s)
    then stopped \<longrightarrow> (\<exists>n. checked_next (pm_revision (a_model s)) = Some n \<and>
      a_model t = (clear_disconnected_model (a_model s))\<lparr>pm_revision := n\<rparr>)
    else \<not> stopped \<and> a_model t = a_model s \<and> a_idle_timer t = a_idle_timer s \<and> a_world t = a_world s"
proof (cases "expired = it_generation (a_idle_timer s) \<and> is_idle_connected (a_model s)")
  case False
  with assms show ?thesis by (auto simp: handle_idle_expiration_def Let_def emit_def)
next
  case True
  let ?u = "s\<lparr>a_idle_timer := timer_mark_fired expired (a_idle_timer s)\<rparr>"
  have "\<exists>n. checked_next (pm_revision (a_model s)) = Some n \<and>
      a_model t = (clear_disconnected_model (a_model s))\<lparr>pm_revision := n\<rparr>" if stopped
  proof (cases "checked_next (pm_revision (a_model s))")
    case None
    with assms True that show ?thesis by (simp add: handle_idle_expiration_def Let_def next_revision_def)
  next
    case (Some n)
    obtain e v where v: "ask_port env PortDisconnect ?u = (e, v)" by fastforce
    have model: "a_model v = a_model s" using ask_port_frame [OF v] by simp
    obtain r w where w: "finish_change env (is_idle_connected (a_model v)) n (clear_disconnected v) = (r, w)"
      by fastforce
    have "t = emit (IdleDisconnected expired) w"
      using assms True Some v w that
      by (auto simp: handle_idle_expiration_def Let_def next_revision_def split: option.splits sum.splits)
    then show ?thesis
      using Some by (simp add: finish_change_frame(1) [OF w] clear_disconnected_alt model)
  qed
  with True show ?thesis by simp
qed

lemma idle_expiration_needs_current_generation_witness:
  "a_model (snd (handle_idle_expiration calm_env (IdleGeneration 0) sample_connected)) =
     a_model sample_connected"
proof -
  obtain stopped t where "handle_idle_expiration calm_env (IdleGeneration 0) sample_connected = (stopped, t)"
    by fastforce
  with idle_expiration_needs_current_generation [OF this] show ?thesis by simp
qed

section \<open>Shutdown\<close>

text \<open>A graceful shutdown that cannot confirm the disconnection keeps the model, so that it
  can be retried; one that can leaves a disconnected, empty player whose timer is stopped,
  unless the revision is exhausted. The report carries the final revision either way.\<close>

theorem graceful_shutdown_outcome:
  assumes "graceful_shutdown env s = (report, t)" and "phase_wf (a_model s)"
  shows "sr_final_revision report = pm_revision (a_model t) \<and>
    (if sr_disconnect_error report \<noteq> None then a_model t = a_model s
     else a_model t = a_model s \<and> (pm_voice_channel_id (a_model s) = None \<or>
            checked_next (pm_revision (a_model s)) = None) \<or>
          (\<exists>n. checked_next (pm_revision (a_model s)) = Some n \<and>
             a_model t = (clear_disconnected_model (a_model s))\<lparr>pm_revision := n\<rparr>))"
proof -
  obtain e u where u: "disconnect_for_shutdown env s = (e, u)" by fastforce
  have model: "a_model u = a_model s" using disconnect_for_shutdown_quiet [OF u] by (rule quietD)
  show ?thesis
  proof (cases e)
    case (Some message)
    with assms u model show ?thesis by (auto simp: graceful_shutdown_def)
  next
    case None
    define v where "v = (if it_active (a_idle_timer u) then snd (cancel_idle_timer u) else u)"
    have v: "a_model v = a_model s" using shutdown_stop_timer(1) [OF v_def] model by simp
    have gone: "pm_voice_channel_id (a_model s) = None \<Longrightarrow> pm_current (a_model s) = None \<and>
        pm_queue (a_model s) = [] \<and> pm_state (a_model s) = Disconnected"
      using assms(2) by (cases "pm_current (a_model s)") (auto simp: phase_wf_def)
    show ?thesis
    proof (cases "pm_voice_channel_id (a_model s) = None \<or> checked_next (pm_revision (a_model s)) = None")
      case True
      with assms(1) u None v gone have "t = emit (Shutdown report) v \<and> report =
          \<lparr>sr_disconnect_error = None, sr_final_revision = pm_revision (a_model v)\<rparr>"
        by (auto simp: graceful_shutdown_def Let_def v_def [symmetric] next_revision_def)
      then show ?thesis using True v by auto
    next
      case False
      then obtain n where n: "checked_next (pm_revision (a_model s)) = Some n" by auto
      obtain r w where w: "finish_change env (is_idle_connected (a_model v)) n (clear_disconnected v) = (r, w)"
        by fastforce
      have "t = emit (Shutdown report) w \<and> report =
          \<lparr>sr_disconnect_error = None, sr_final_revision = pm_revision (a_model w)\<rparr>"
        using False assms(1) u None n w v
        by (auto simp: graceful_shutdown_def Let_def v_def [symmetric] next_revision_def)
      moreover have "a_model w = (clear_disconnected_model (a_model s))\<lparr>pm_revision := n\<rparr>"
        by (simp add: finish_change_frame(1) [OF w] clear_disconnected_alt v)
      ultimately show ?thesis using n by auto
    qed
  qed
qed

lemma graceful_shutdown_outcome_witness:
  "\<exists>report t. graceful_shutdown (scripted_env (\<lambda>call. call = PortDisconnect)) sample_queued = (report, t) \<and>
     a_model t = a_model sample_queued"
proof -
  let ?env = "scripted_env (\<lambda>call. call = PortDisconnect)"
  obtain report t where run: "graceful_shutdown ?env sample_queued = (report, t)" by fastforce
  have error: "sr_disconnect_error report \<noteq> None"
    using run by (auto simp: graceful_shutdown_def disconnect_for_shutdown_def DISCONNECT_ATTEMPTS_def
        numeral_3_eq_3 ask_port_def scripted_env_def sample_model_def split: prod.splits)
  have "phase_wf (a_model sample_queued)"
    by (simp add: phase_wf_def sample_model_def player_model_new_def)
  with graceful_shutdown_outcome [OF run] error run show ?thesis by auto
qed

end
