(* ===== verification/Media_Capacity.thy ===== *)
theory Media_Capacity
  imports Pepe_Prelude "HOL-Library.AList"
begin

text \<open>
  Process-local accounting of the managed media root,
  \<open>crates/pepeaudio-media/src/capacity.rs\<close>. The shared state behind the mutex is a
  record, the hash map of committed files an association list with distinct keys, and
  every method a function of that state (a method holds the lock for all it does). The
  start validates the managed directories (\<open>janitor/paths.rs\<close>) and scans them. The
  accounting machine at the end runs them in any order over any number of reservations.
\<close>

section \<open>State and reservations\<close>

record capacity_limits =
  maximum_bytes :: u64
  maximum_entries :: nat

record 'p capacity_state =
  charged_bytes :: u64
  entries :: "('p \<times> u64) list"
  reservations :: nat

record capacity_reservation =
  res_charged :: u64
  res_active :: bool

text \<open>The operating system's own errors behind the last five are not modelled.\<close>

datatype store_error =
  CapacityExceeded | CapacityUnavailable | Accounting | StoreUnsafeObject | ObjectInUse
  | StorePrepare | Allocate | StoreWrite | StoreCommit | Cleanup

record capacity_usage =
  used_bytes :: u64
  reserved_bytes :: u64
  usage_maximum_bytes :: u64
  managed_files :: nat
  usage_reservations :: nat
  usage_maximum_entries :: nat

definition fits :: "u64 \<Rightarrow> u64 \<Rightarrow> u64 \<Rightarrow> bool" where
  "fits current additional maximum =
     (case checked_add_u64 current additional of None \<Rightarrow> False | Some new \<Rightarrow> new \<le> maximum)"

definition capacity_usage_of :: "capacity_limits \<Rightarrow> 'p capacity_state \<Rightarrow> capacity_usage" where
  "capacity_usage_of limits s =
     (let used = sum_list (map snd (entries s))
      in \<lparr>used_bytes = used, reserved_bytes = saturating_sub_u64 (charged_bytes s) used,
          usage_maximum_bytes = maximum_bytes limits, managed_files = length (entries s),
          usage_reservations = reservations s, usage_maximum_entries = maximum_entries limits\<rparr>)"

text \<open>The tracker without limits (\<open>unmetered\<close>) is \<open>None\<close>.\<close>

definition reserve ::
  "capacity_limits option \<Rightarrow> u64 \<Rightarrow> 'p capacity_state \<Rightarrow>
     (store_error + capacity_reservation) \<times> 'p capacity_state" where
  "reserve tracker requested s =
     (case tracker of
        None \<Rightarrow> (Inl CapacityUnavailable, s)
      | Some limits \<Rightarrow>
          if min (length (entries s) + reservations s) (2 ^ 64 - 1) \<ge> maximum_entries limits \<or>
             \<not> fits (charged_bytes s) requested (maximum_bytes limits)
          then (Inl CapacityExceeded, s)
          else (Inr \<lparr>res_charged = requested, res_active = True\<rparr>,
                s\<lparr>charged_bytes := charged_bytes s + requested, reservations := reservations s + 1\<rparr>))"

definition removed :: "'p \<Rightarrow> 'p capacity_state \<Rightarrow> 'p capacity_state" where
  "removed path s =
     (case map_of (entries s) path of
        None \<Rightarrow> s
      | Some bytes \<Rightarrow> s\<lparr>entries := AList.delete path (entries s),
                         charged_bytes := saturating_sub_u64 (charged_bytes s) bytes\<rparr>)"

type_synonym 'p accounting = "capacity_reservation \<times> 'p capacity_state"

definition ensure :: "capacity_limits \<Rightarrow> u64 \<Rightarrow> 'p accounting \<Rightarrow> (store_error + unit) \<times> 'p accounting" where
  "ensure limits requested a =
     (case a of (r, s) \<Rightarrow>
        if requested \<le> res_charged r then (Inr (), r, s)
        else let additional = requested - res_charged r
             in if \<not> fits (charged_bytes s) additional (maximum_bytes limits)
                then (Inl CapacityExceeded, r, s)
                else (Inr (), r\<lparr>res_charged := requested\<rparr>,
                      s\<lparr>charged_bytes := charged_bytes s + additional\<rparr>))"

definition commit :: "'p \<Rightarrow> u64 \<Rightarrow> 'p accounting \<Rightarrow> (store_error + unit) \<times> 'p accounting" where
  "commit path actual a =
     (case a of (r, s) \<Rightarrow>
        if \<not> res_active r \<or> actual = 0 \<or> actual > res_charged r then (Inl Accounting, r, s)
        else if map_of (entries s) path \<noteq> None \<or> reservations s = 0 then (Inl Accounting, r, s)
        else case Option.bind (checked_sub_u64 (charged_bytes s) (res_charged r))
                    (\<lambda>value. checked_add_u64 value actual) of
          None \<Rightarrow> (Inl Accounting, r, s)
        | Some charged \<Rightarrow>
            (Inr (), r\<lparr>res_active := False\<rparr>,
             s\<lparr>charged_bytes := charged, reservations := reservations s - 1,
               entries := AList.update path actual (entries s)\<rparr>))"

definition retain_failed_file :: "'p \<Rightarrow> 'p accounting \<Rightarrow> 'p accounting" where
  "retain_failed_file path a =
     (case a of (r, s) \<Rightarrow>
        if \<not> res_active r then (r, s)
        else let s1 = (if reservations s > 0 then s\<lparr>reservations := reservations s - 1\<rparr> else s)
             in if map_of (entries s1) path \<noteq> None then (r\<lparr>res_active := False\<rparr>, s1)
                else (r\<lparr>res_active := False\<rparr>,
                      s1\<lparr>entries := AList.update path (res_charged r) (entries s1)\<rparr>))"

text \<open>\<open>Drop for CapacityReservation\<close>.\<close>

definition drop_reservation :: "'p accounting \<Rightarrow> 'p capacity_state" where
  "drop_reservation a =
     (case a of (r, s) \<Rightarrow>
        if \<not> res_active r then s
        else s\<lparr>charged_bytes := saturating_sub_u64 (charged_bytes s) (res_charged r),
               reservations := reservations s - 1\<rparr>)"

section \<open>The startup scan\<close>

text \<open>
  What the file system says about one directory entry: its path, its name if that is
  valid UTF-8, its kind and length (\<open>None\<close> when it cannot be inspected), and its
  canonical path with the parent of that path (\<open>None\<close> likewise).
\<close>

record 'p dir_entry =
  de_path :: 'p
  de_name :: "rstring option"
  de_metadata :: "(bool \<times> bool \<times> u64) option"
  de_canonical :: "('p \<times> 'p option) option"

datatype janitor_error =
  InvalidPolicy | InvalidCapacity | CapacityScanLimitExceeded | UnsafeManagedEntry
  | CapacityAccountingOverflow | CapacityExceededAtStartup | Prepare | UnsafeRoot
  | UnsafeManagedDirectory rstring | LeaseRegistryRootMismatch | ReadDirectory | InvalidInterval

definition is_lower_hex :: "rchar \<Rightarrow> bool" where
  "is_lower_hex c \<longleftrightarrow> is_ascii_digit c \<or> (0x61 \<le> c \<and> c \<le> 0x66)"

definition strip_suffix :: "rstring \<Rightarrow> rstring \<Rightarrow> rstring option" where
  "strip_suffix suffix s =
     (if length suffix \<le> length s \<and> drop (length s - length suffix) s = suffix
      then Some (take (length s - length suffix) s) else None)"

definition is_managed_name :: "rstring option \<Rightarrow> bool \<Rightarrow> bool" where
  "is_managed_name name in_staging =
     (case name of
        None \<Rightarrow> False
      | Some n \<Rightarrow> (case (if in_staging then strip_suffix (str ''.part'') n else Some n) of
            None \<Rightarrow> False
          | Some identifier \<Rightarrow> str_len identifier = 32 \<and> list_all is_lower_hex identifier))"

type_synonym 'p scan = "('p \<times> u64) list \<times> u64"

definition scan_entry ::
  "'p \<Rightarrow> bool \<Rightarrow> nat \<Rightarrow> 'p dir_entry \<Rightarrow> 'p scan \<Rightarrow> janitor_error + 'p scan" where
  "scan_entry directory in_staging limit entry acc =
     (case acc of (seen, charged) \<Rightarrow>
        if length seen \<ge> limit then Inl CapacityScanLimitExceeded
        else if \<not> is_managed_name (de_name entry) in_staging then Inl UnsafeManagedEntry
        else case de_metadata entry of
          None \<Rightarrow> Inl UnsafeManagedEntry
        | Some (is_file, is_link, len) \<Rightarrow>
            if \<not> is_file \<or> is_link then Inl UnsafeManagedEntry
            else (case de_canonical entry of
              None \<Rightarrow> Inl UnsafeManagedEntry
            | Some (canonical, parent) \<Rightarrow>
                if canonical \<noteq> de_path entry \<or> parent \<noteq> Some directory then Inl UnsafeManagedEntry
                else (case checked_add_u64 charged len of
                  None \<Rightarrow> Inl CapacityAccountingOverflow
                | Some new \<Rightarrow>
                    if map_of seen canonical \<noteq> None then Inl UnsafeManagedEntry
                    else Inr (AList.update canonical len seen, new))))"

text \<open>The entries a reader yields, \<open>None\<close> for one that cannot be read.\<close>

fun scan_directory ::
  "'p \<Rightarrow> bool \<Rightarrow> nat \<Rightarrow> 'p dir_entry option list \<Rightarrow> 'p scan \<Rightarrow> janitor_error + 'p scan" where
  "scan_directory directory in_staging limit [] acc = Inr acc"
| "scan_directory directory in_staging limit (None # rest) acc = Inl ReadDirectory"
| "scan_directory directory in_staging limit (Some entry # rest) acc =
     (case scan_entry directory in_staging limit entry acc of
        Inl e \<Rightarrow> Inl e
      | Inr acc' \<Rightarrow> scan_directory directory in_staging limit rest acc')"

section \<open>The managed directories\<close>

text \<open>Metadata as (is a directory, is a link); \<open>None\<close> where a call fails.\<close>

record 'p managed_paths =
  root :: 'p
  staging :: 'p
  objects :: 'p

record 'p dir_views =
  dv_metadata :: "'p \<Rightarrow> (bool \<times> bool) option"
  dv_canonicalize :: "'p \<Rightarrow> 'p option"
  dv_parent :: "'p \<Rightarrow> 'p option"

definition validate_directory :: "'p dir_views \<Rightarrow> 'p \<Rightarrow> 'p \<Rightarrow> bool" where
  "validate_directory fs path expected =
     (case dv_metadata fs path of
        None \<Rightarrow> False
      | Some (is_dir, is_link) \<Rightarrow> is_dir \<and> \<not> is_link \<and> dv_canonicalize fs path = Some expected)"

definition validate_paths :: "'p dir_views \<Rightarrow> 'p managed_paths \<Rightarrow> janitor_error + unit" where
  "validate_paths fs paths =
     (if \<not> validate_directory fs (root paths) (root paths) then Inl UnsafeRoot
      else if \<not> validate_directory fs (staging paths) (staging paths)
        then Inl (UnsafeManagedDirectory (str ''staging''))
      else if \<not> validate_directory fs (objects paths) (objects paths)
        then Inl (UnsafeManagedDirectory (str ''objects''))
      else if dv_parent fs (staging paths) \<noteq> Some (root paths) \<or> dv_parent fs (objects paths) \<noteq> Some (root paths)
        then Inl UnsafeRoot
      else Inr ())"

section \<open>The start of the tracker\<close>

text \<open>The listings of the two directories come with what the file system says of the paths.\<close>

definition initialize ::
  "'p dir_views \<Rightarrow> 'p managed_paths \<Rightarrow> 'p dir_entry option list \<Rightarrow> 'p dir_entry option list \<Rightarrow> u64 \<Rightarrow> nat \<Rightarrow>
     janitor_error + capacity_limits \<times> 'p capacity_state" where
  "initialize fs paths staging_entries object_entries max_bytes max_entries =
     (if max_bytes = 0 \<or> max_entries = 0 then Inl InvalidCapacity
      else case validate_paths fs paths of Inl e \<Rightarrow> Inl e | Inr _ \<Rightarrow>
      (case scan_directory (staging paths) True max_entries staging_entries ([], 0) of
        Inl e \<Rightarrow> Inl e
      | Inr acc \<Rightarrow> (case scan_directory (objects paths) False max_entries object_entries acc of
          Inl e \<Rightarrow> Inl e
        | Inr (files, charged) \<Rightarrow>
            if length files > max_entries then Inl CapacityScanLimitExceeded
            else if charged > max_bytes then Inl CapacityExceededAtStartup
            else Inr (\<lparr>maximum_bytes = max_bytes, maximum_entries = max_entries\<rparr>,
                      \<lparr>charged_bytes = charged, entries = files, reservations = 0\<rparr>))))"

section \<open>The books are balanced\<close>

definition file_bytes :: "('p \<times> u64) list \<Rightarrow> nat" where
  "file_bytes files = sum_list (map (unat \<circ> snd) files)"

definition held_bytes :: "capacity_reservation list \<Rightarrow> nat" where
  "held_bytes rs = sum_list (map (\<lambda>r. if res_active r then unat (res_charged r) else 0) rs)"

definition active_count :: "capacity_reservation list \<Rightarrow> nat" where
  "active_count rs = length (filter res_active rs)"

definition capacity_inv :: "capacity_limits \<Rightarrow> 'p capacity_state \<times> capacity_reservation list \<Rightarrow> bool" where
  "capacity_inv limits m \<longleftrightarrow> (case m of (s, rs) \<Rightarrow>
     file_bytes (entries s) + held_bytes rs \<le> unat (charged_bytes s) \<and>
     charged_bytes s \<le> maximum_bytes limits \<and>
     reservations s = active_count rs \<and>
     length (entries s) + reservations s \<le> maximum_entries limits \<and>
     distinct (map fst (entries s)))"

lemma fits_iff: "fits a b c \<longleftrightarrow> unat a + unat b \<le> unat c"
  using unat_u64_bound [of c]
  by (auto simp: fits_def checked_add_u64_def word_le_nat_alt unat_add_u64)

lemma file_bytes_simps [simp]:
  "file_bytes [] = 0" "file_bytes ((p, b) # files) = unat b + file_bytes files"
  by (simp_all add: file_bytes_def)

lemma file_bytes_update_new:
  "map_of files p = None \<Longrightarrow> file_bytes (AList.update p b files) = file_bytes files + unat b \<and>
     length (AList.update p b files) = Suc (length files)"
  by (induction files) (auto split: if_splits)

lemma file_bytes_delete:
  assumes "distinct (map fst files)" and "map_of files p = Some b"
  shows "unat b + file_bytes (AList.delete p files) = file_bytes files \<and>
    Suc (length (AList.delete p files)) = length files"
  using assms
proof (induction files)
  case (Cons entry files)
  obtain q c where entry: "entry = (q, c)" by (cases entry)
  show ?case
  proof (cases "q = p")
    case True
    with Cons.prems(1) entry have "AList.delete p files = files" by (simp add: AList.delete_idem)
    then show ?thesis using Cons.prems entry True by (simp add: AList.delete_simps)
  next
    case False
    then show ?thesis using Cons entry by (auto simp: AList.delete_simps)
  qed
qed simp

lemma distinct_keys_update: "distinct (map fst files) \<Longrightarrow> distinct (map fst (AList.update p b files))"
  by (rule distinct_update)

lemma distinct_keys_delete: "distinct (map fst files) \<Longrightarrow> distinct (map fst (AList.delete p files))"
  by (simp add: AList.distinct_delete)

lemma held_bytes_simps [simp]:
  "held_bytes [] = 0" "held_bytes (rs @ [r]) = held_bytes rs + (if res_active r then unat (res_charged r) else 0)"
  "active_count [] = 0" "active_count (rs @ [r]) = active_count rs + (if res_active r then 1 else 0)"
  by (simp_all add: held_bytes_def active_count_def)

text \<open>Replacing or dropping one reservation of the list.\<close>

lemma held_bytes_take:
  assumes "i < length rs"
  shows "held_bytes rs = (if res_active (rs ! i) then unat (res_charged (rs ! i)) else 0) + held_bytes (remove_at i rs)"
    and "held_bytes (rs[i := r]) = (if res_active r then unat (res_charged r) else 0) + held_bytes (remove_at i rs)"
    and "active_count rs = (if res_active (rs ! i) then 1 else 0) + active_count (remove_at i rs)"
    and "active_count (rs[i := r]) = (if res_active r then 1 else 0) + active_count (remove_at i rs)"
proof -
  let ?h = "\<lambda>r. if res_active r then unat (res_charged r) else 0"
  note here = id_take_nth_drop [OF assms] and there = upd_conv_take_nth_drop [OF assms, of r]
  show "held_bytes rs = ?h (rs ! i) + held_bytes (remove_at i rs)"
    by (subst here) (simp add: held_bytes_def remove_at_def)
  show "held_bytes (rs[i := r]) = ?h r + held_bytes (remove_at i rs)"
    by (simp add: there held_bytes_def remove_at_def)
  show "active_count rs = (if res_active (rs ! i) then 1 else 0) + active_count (remove_at i rs)"
    by (subst here) (simp add: active_count_def remove_at_def)
  show "active_count (rs[i := r]) = (if res_active r then 1 else 0) + active_count (remove_at i rs)"
    by (simp add: there active_count_def remove_at_def)
qed

section \<open>The accounting machine\<close>

text \<open>
  Steps of any interleaving of calls: \<open>on_reservation\<close> runs an operation on the i-th
  reservation alive.
\<close>

definition on_reservation ::
  "('p accounting \<Rightarrow> 'p accounting) \<Rightarrow> nat \<Rightarrow> 'p capacity_state \<times> capacity_reservation list \<Rightarrow>
     'p capacity_state \<times> capacity_reservation list" where
  "on_reservation f i m =
     (case m of (s, rs) \<Rightarrow> case f (rs ! i, s) of (r, t) \<Rightarrow> (t, rs[i := r]))"

inductive capacity_step ::
  "capacity_limits \<Rightarrow> 'p capacity_state \<times> capacity_reservation list \<Rightarrow>
     'p capacity_state \<times> capacity_reservation list \<Rightarrow> bool" for limits where
  reserve: "reserve (Some limits) requested s = (Inr r, t) \<Longrightarrow> capacity_step limits (s, rs) (t, rs @ [r])"
| ensure: "i < length rs \<Longrightarrow>
    capacity_step limits (s, rs) (on_reservation (\<lambda>a. snd (ensure limits requested a)) i (s, rs))"
| commit: "i < length rs \<Longrightarrow>
    capacity_step limits (s, rs) (on_reservation (\<lambda>a. snd (commit path actual a)) i (s, rs))"
| retain: "i < length rs \<Longrightarrow>
    capacity_step limits (s, rs) (on_reservation (retain_failed_file path) i (s, rs))"
| dropped: "i < length rs \<Longrightarrow>
    capacity_step limits (s, rs) (drop_reservation (rs ! i, s), remove_at i rs)"
| deleted: "capacity_step limits (s, rs) (removed path s, rs)"

inductive_cases capacity_stepE: "capacity_step limits m n"

definition capacity_start :: "capacity_limits \<Rightarrow> 'p capacity_state \<times> capacity_reservation list \<Rightarrow> bool" where
  "capacity_start limits m \<longleftrightarrow> snd m = [] \<and>
     (\<exists>fs paths staging_entries object_entries.
        initialize fs paths staging_entries object_entries
          (maximum_bytes limits) (maximum_entries limits) = Inr (limits, fst m))"

section \<open>Every step keeps the books balanced\<close>

lemma reserve_inv:
  assumes "reserve (Some limits) n s = (Inr r, t)" and "capacity_inv limits (s, rs)"
    and "maximum_entries limits < 2 ^ 64"
  shows "capacity_inv limits (t, rs @ [r])"
proof -
  have checks: "length (entries s) + reservations s < maximum_entries limits"
    "fits (charged_bytes s) n (maximum_bytes limits)"
    and r: "r = \<lparr>res_charged = n, res_active = True\<rparr>"
    and t: "t = s\<lparr>charged_bytes := charged_bytes s + n, reservations := reservations s + 1\<rparr>"
    using assms(1,3) by (auto simp: reserve_def min_def split: if_splits)
  then have "unat (charged_bytes s + n) = unat (charged_bytes s) + unat n"
    using unat_u64_bound [of "maximum_bytes limits"] by (simp add: fits_iff unat_add_u64)
  then show ?thesis
    using assms(2) checks by (simp add: capacity_inv_def r t fits_iff word_le_nat_alt)
qed

lemma ensure_inv:
  assumes "capacity_inv limits (s, rs)" and i: "i < length rs"
    and step: "snd (ensure limits n (rs ! i, s)) = (r, t)"
  shows "capacity_inv limits (t, rs[i := r])"
proof (cases "n \<le> res_charged (rs ! i) \<or>
    \<not> fits (charged_bytes s) (n - res_charged (rs ! i)) (maximum_bytes limits)")
  case True
  then have "r = rs ! i" "t = s" using step by (auto simp: ensure_def Let_def split: if_splits)
  then show ?thesis using assms(1) by simp
next
  case False
  have r: "r = (rs ! i)\<lparr>res_charged := n\<rparr>"
    and t: "t = s\<lparr>charged_bytes := charged_bytes s + (n - res_charged (rs ! i))\<rparr>"
    using step False by (simp_all add: ensure_def Let_def)
  have more: "unat (n - res_charged (rs ! i)) = unat n - unat (res_charged (rs ! i))"
    using False by (intro unat_sub_u64) (simp add: linorder_not_le less_imp_le)
  have room: "unat (charged_bytes s) + unat (n - res_charged (rs ! i)) \<le> unat (maximum_bytes limits)"
    using False by (simp add: fits_iff)
  then have "unat (charged_bytes s + (n - res_charged (rs ! i))) =
      unat (charged_bytes s) + (unat n - unat (res_charged (rs ! i)))"
    using unat_u64_bound [of "maximum_bytes limits"] more by (simp add: unat_add_u64)
  moreover have "unat (res_charged (rs ! i)) \<le> unat n" using False by (simp add: word_le_nat_alt)
  ultimately show ?thesis
    using assms(1) room more held_bytes_take [OF i]
    by (cases "res_active (rs ! i)") (auto simp: capacity_inv_def r t word_le_nat_alt)
qed

lemma commit_inv:
  assumes "capacity_inv limits (s, rs)" and i: "i < length rs"
    and step: "snd (commit path n (rs ! i, s)) = (r, t)"
  shows "capacity_inv limits (t, rs[i := r])"
proof (cases "r = rs ! i \<and> t = s")
  case True
  then show ?thesis using assms(1) by simp
next
  case False
  let ?c = "res_charged (rs ! i)"
  from step False have ok: "res_active (rs ! i)" "n \<le> ?c" "map_of (entries s) path = None" "0 < reservations s"
    and "?c \<le> charged_bytes s"
    and sum: "unat (charged_bytes s - ?c) + unat n < 2 ^ 64"
    and r: "r = (rs ! i)\<lparr>res_active := False\<rparr>"
    and t: "t = s\<lparr>charged_bytes := charged_bytes s - ?c + n, reservations := reservations s - 1,
      entries := AList.update path n (entries s)\<rparr>"
    by (auto simp: commit_def checked_sub_u64_def checked_add_u64_def Let_def linorder_not_less
        split: if_splits)
  then have "unat (charged_bytes s - ?c + n) = unat (charged_bytes s) - unat ?c + unat n"
    by (simp add: unat_add_u64 unat_sub_u64)
  moreover have "unat n \<le> unat ?c" "unat ?c \<le> unat (charged_bytes s)"
    using ok(2) \<open>?c \<le> charged_bytes s\<close> by (simp_all add: word_le_nat_alt)
  ultimately show ?thesis
    using assms(1) ok held_bytes_take [OF i] file_bytes_update_new [OF ok(3), of n]
    by (auto simp: capacity_inv_def r t word_le_nat_alt distinct_keys_update)
qed

lemma retain_inv:
  assumes "capacity_inv limits (s, rs)" and i: "i < length rs"
    and step: "retain_failed_file path (rs ! i, s) = (r, t)"
  shows "capacity_inv limits (t, rs[i := r])"
proof (cases "res_active (rs ! i)")
  case False
  then have "r = rs ! i" "t = s" using step by (simp_all add: retain_failed_file_def)
  then show ?thesis using assms(1) by simp
next
  case True
  note take = held_bytes_take [OF i]
  have pos: "0 < reservations s" using assms(1) True take(3) by (simp add: capacity_inv_def)
  have r: "r = (rs ! i)\<lparr>res_active := False\<rparr>"
    using step True by (auto simp: retain_failed_file_def Let_def split: if_splits)
  show ?thesis
  proof (cases "map_of (entries s) path")
    case None
    then have t: "t = s\<lparr>reservations := reservations s - 1,
        entries := AList.update path (res_charged (rs ! i)) (entries s)\<rparr>"
      using step True pos by (simp add: retain_failed_file_def Let_def)
    show ?thesis
      using assms(1) True take file_bytes_update_new [OF None, of "res_charged (rs ! i)"] pos
      by (auto simp: capacity_inv_def r t distinct_keys_update)
  next
    case (Some b)
    then have t: "t = s\<lparr>reservations := reservations s - 1\<rparr>"
      using step True pos by (simp add: retain_failed_file_def Let_def)
    show ?thesis using assms(1) True take pos by (auto simp: capacity_inv_def r t)
  qed
qed

lemma drop_inv:
  assumes "capacity_inv limits (s, rs)" and i: "i < length rs"
  shows "capacity_inv limits (drop_reservation (rs ! i, s), remove_at i rs)"
proof (cases "res_active (rs ! i)")
  case True
  let ?c = "res_charged (rs ! i)"
  have "unat (saturating_sub_u64 (charged_bytes s) ?c) = unat (charged_bytes s) - unat ?c"
    by (rule word_std)
  then show ?thesis
    using assms(1) True held_bytes_take [OF i]
    by (auto simp: capacity_inv_def drop_reservation_def word_le_nat_alt)
next
  case False
  then show ?thesis
    using assms(1) held_bytes_take [OF i] by (auto simp: capacity_inv_def drop_reservation_def)
qed

lemma removed_inv:
  assumes "capacity_inv limits (s, rs)"
  shows "capacity_inv limits (removed path s, rs)"
proof (cases "map_of (entries s) path")
  case None
  then show ?thesis using assms by (simp add: removed_def)
next
  case (Some b)
  have dist: "distinct (map fst (entries s))" using assms by (simp add: capacity_inv_def)
  have "unat (saturating_sub_u64 (charged_bytes s) b) = unat (charged_bytes s) - unat b"
    by (rule word_std)
  then show ?thesis
    using assms Some file_bytes_delete [OF dist Some]
    by (auto simp: capacity_inv_def removed_def word_le_nat_alt distinct_keys_delete)
qed

section \<open>The machine as an instance\<close>

lemma scan_entry_books:
  assumes "scan_entry directory in_staging limit entry (files, charged) = Inr (files', charged')"
    and "file_bytes files = unat charged" and "distinct (map fst files)"
  shows "file_bytes files' = unat charged' \<and> distinct (map fst files')"
proof -
  from assms(1) obtain path n where new: "map_of files path = None" "unat charged + unat n < 2 ^ 64"
    "files' = AList.update path n files" "charged' = charged + n"
    by (auto simp: scan_entry_def word_std split: if_splits option.splits)
  then show ?thesis
    using assms(2,3) file_bytes_update_new [OF new(1), of n]
    by (simp add: unat_add_u64 distinct_keys_update)
qed

lemma scan_directory_books:
  assumes "scan_directory directory in_staging limit listing (files, charged) = Inr (files', charged')"
    and "file_bytes files = unat charged" and "distinct (map fst files)"
  shows "file_bytes files' = unat charged' \<and> distinct (map fst files')"
  using assms
proof (induction listing arbitrary: files charged)
  case (Cons entry listing)
  from Cons.prems(1) obtain e f c where step: "entry = Some e"
    "scan_entry directory in_staging limit e (files, charged) = Inr (f, c)"
    "scan_directory directory in_staging limit listing (f, c) = Inr (files', charged')"
    by (cases entry) (auto split: sum.splits)
  show ?case
    using Cons.IH [OF step(3)] scan_entry_books [OF step(2) Cons.prems(2,3)] by blast
qed simp

lemma initialize_inv:
  assumes "initialize fs paths ss os b n = Inr (limits, s)"
  shows "capacity_inv limits (s, []) \<and> limits = \<lparr>maximum_bytes = b, maximum_entries = n\<rparr>"
proof -
  have valid: "validate_paths fs paths = Inr ()"
    using assms by (auto simp: initialize_def split: if_splits sum.splits)
  from assms obtain f c where first: "scan_directory (staging paths) True n ss ([], 0) = Inr (f, c)"
    by (auto simp: initialize_def split: if_splits sum.splits)
  with assms obtain files charged where second: "scan_directory (objects paths) False n os (f, c) = Inr (files, charged)"
    by (auto simp: initialize_def split: if_splits sum.splits)
  have "file_bytes f = unat c \<and> distinct (map fst f)" by (rule scan_directory_books [OF first]) simp_all
  then have "file_bytes files = unat charged \<and> distinct (map fst files)"
    by (intro scan_directory_books [OF second]) simp_all
  then show ?thesis
    using assms valid first second
    by (auto simp: initialize_def capacity_inv_def split: if_splits)
qed

lemma capacity_step_inv:
  assumes "capacity_step limits m n" and inv: "capacity_inv limits m" and small: "maximum_entries limits < 2 ^ 64"
  shows "capacity_inv limits n"
  using assms(1)
proof cases
  case (reserve requested s r t rs)
  then show ?thesis using reserve_inv inv small by blast
next
  case (ensure i rs s requested)
  then show ?thesis using ensure_inv inv by (auto simp: on_reservation_def split: prod.splits)
next
  case (commit i rs s path actual)
  then show ?thesis using commit_inv inv by (auto simp: on_reservation_def split: prod.splits)
next
  case (retain i rs s path)
  then show ?thesis using retain_inv inv by (auto simp: on_reservation_def split: prod.splits)
next
  case (dropped i rs s)
  then show ?thesis using drop_inv [of limits s rs i] inv by simp
next
  case (deleted s rs path)
  then show ?thesis using removed_inv [of limits s rs path] inv by simp
qed

interpretation capacity: invariant_machine "capacity_start limits" "capacity_step limits"
  "\<lambda>m. maximum_entries limits < 2 ^ 64 \<longrightarrow> capacity_inv limits m" for limits
proof unfold_locales
  show "maximum_entries limits < 2 ^ 64 \<longrightarrow> capacity_inv limits m" if "capacity_start limits m"
    for m :: "'a capacity_state \<times> capacity_reservation list"
    using that by (cases m) (auto simp: capacity_start_def dest: initialize_inv [THEN conjunct1])
qed (use capacity_step_inv in blast)

section \<open>The hard limit\<close>

lemma sum_words: "sum_list (map unat (ws :: u64 list)) < 2 ^ 64 \<Longrightarrow> unat (sum_list ws) = sum_list (map unat ws)"
  by (induction ws) (auto simp: unat_add_u64)

text \<open>C30: Whatever calls interleave, the bytes of the managed files and of the live reservations
  never exceed what is charged, the charge never exceeds the configured maximum, files and
  reservations never exceed the entry limit, and the reported usage is the true sum.\<close>

theorem capacity_never_exceeded:
  assumes "capacity_start limits m" and "maximum_entries limits < 2 ^ 64"
    and "rtranclp (capacity_step limits) m (s, rs)"
  shows "file_bytes (entries s) + held_bytes rs \<le> unat (charged_bytes s) \<and>
    charged_bytes s \<le> maximum_bytes limits \<and>
    length (entries s) + active_count rs \<le> maximum_entries limits \<and>
    reservations s = active_count rs \<and>
    unat (used_bytes (capacity_usage_of limits s)) = file_bytes (entries s)"
proof -
  have inv: "capacity_inv limits (s, rs)"
    using capacity.reachable_inv [OF assms(1,3)] assms(2) by blast
  then have "file_bytes (entries s) < 2 ^ 64"
    using unat_u64_bound [of "charged_bytes s"] by (simp add: capacity_inv_def)
  then have "unat (used_bytes (capacity_usage_of limits s)) = file_bytes (entries s)"
    by (simp add: capacity_usage_of_def Let_def file_bytes_def sum_words)
  with inv show ?thesis by (simp add: capacity_inv_def)
qed

definition sample_limits :: capacity_limits where
  "sample_limits = \<lparr>maximum_bytes = 100, maximum_entries = 2\<rparr>"

definition sample_views :: "nat dir_views" where
  "sample_views = \<lparr>dv_metadata = (\<lambda>_. Some (True, False)), dv_canonicalize = Some, dv_parent = (\<lambda>_. Some 0)\<rparr>"

definition sample_managed :: "nat managed_paths" where
  "sample_managed = \<lparr>root = 0, staging = 1, objects = 2\<rparr>"

lemma capacity_never_exceeded_witness:
  "\<exists>s rs. rtranclp (capacity_step sample_limits) (\<lparr>charged_bytes = 0, entries = [], reservations = 0\<rparr>, [])
      (s, rs) \<and> entries s = [(7 :: nat, 30)] \<and> charged_bytes s \<le> 100"
proof -
  let ?m = "(\<lparr>charged_bytes = 0, entries = [] :: (nat \<times> u64) list, reservations = 0\<rparr>, [])"
  have start: "capacity_start sample_limits ?m"
    unfolding capacity_start_def
    by (intro conjI, simp, rule exI [of _ sample_views], rule exI [of _ sample_managed], rule exI [of _ "[]"],
        rule exI [of _ "[]"])
      (simp add: initialize_def validate_paths_def validate_directory_def sample_views_def sample_managed_def sample_limits_def)
  let ?r = "\<lparr>res_charged = 60, res_active = True\<rparr>"
  let ?s = "\<lparr>charged_bytes = 60, entries = [] :: (nat \<times> u64) list, reservations = 1\<rparr>"
  have "capacity_step sample_limits ?m (?s, [] @ [?r])"
    by (rule capacity_step.reserve [of _ 60]) (simp add: reserve_def fits_def checked_add_u64_def sample_limits_def)
  moreover have "capacity_step sample_limits (?s, [?r])
      (\<lparr>charged_bytes = 30, entries = [(7, 30)], reservations = 0\<rparr>, [?r\<lparr>res_active := False\<rparr>])"
    using capacity_step.commit [of 0 "[?r]" sample_limits ?s 7 30]
    by (simp add: on_reservation_def commit_def checked_sub_u64_def checked_add_u64_def)
  ultimately have "rtranclp (capacity_step sample_limits) ?m
      (\<lparr>charged_bytes = 30, entries = [(7, 30)], reservations = 0\<rparr>, [?r\<lparr>res_active := False\<rparr>])"
    by (simp add: rtranclp.rtrancl_into_rtrancl)
  with capacity_never_exceeded [OF start _ this] show ?thesis by (auto simp: sample_limits_def)
qed

end
