(* ===== verification/Media_Lease.thy ===== *)
theory Media_Lease
  imports Media_Capacity
begin

text \<open>
  Lifetime leases of managed media objects against their deletion,
  \<open>crates/pepeaudio-media/src/lease.rs\<close>. The registry is the hash map behind the mutex;
  acquiring a lease and beginning a deletion are each one critical section. The lease
  machine runs them in any order over the tokens and permits alive: a
  \<open>ManagedMediaLease\<close> is a reference-counted token whose last clone releases it.
\<close>

section \<open>The registry\<close>

datatype registry_state = Leased nat | Deleting

datatype lease_error = Inspect | UnsafeObject | DeletionInProgress | LeaseCountExhausted

type_synonym 'p registry = "'p \<Rightarrow> registry_state option"

text \<open>What the file system says of the object at a path; \<open>None\<close> where it cannot be read.\<close>

record 'p object_view =
  ov_metadata :: "(bool \<times> bool) option"
  ov_canonical :: "('p \<times> 'p option \<times> rstring option) option"

definition is_managed_object_name :: "rstring option \<Rightarrow> bool" where
  "is_managed_object_name name =
     (case name of None \<Rightarrow> False
      | Some identifier \<Rightarrow> str_len identifier = 32 \<and> list_all is_lower_hex identifier)"

definition acquire ::
  "'p \<Rightarrow> 'p object_view \<Rightarrow> 'p registry \<Rightarrow> (lease_error + 'p) \<times> 'p registry" where
  "acquire directory view registry =
     (case ov_metadata view of
        None \<Rightarrow> (Inl Inspect, registry)
      | Some (is_file, is_link) \<Rightarrow>
          if \<not> is_file \<or> is_link then (Inl UnsafeObject, registry)
          else (case ov_canonical view of
            None \<Rightarrow> (Inl Inspect, registry)
          | Some (canonical, parent, name) \<Rightarrow>
              if parent \<noteq> Some directory \<or> \<not> is_managed_object_name name then (Inl UnsafeObject, registry)
              else (case registry canonical of
                Some (Leased holders) \<Rightarrow>
                  if holders + 1 < 2 ^ 64 then (Inr canonical, registry(canonical \<mapsto> Leased (holders + 1)))
                  else (Inl LeaseCountExhausted, registry)
              | Some Deleting \<Rightarrow> (Inl DeletionInProgress, registry)
              | None \<Rightarrow> (Inr canonical, registry(canonical \<mapsto> Leased 1)))))"

definition protects :: "'p registry \<Rightarrow> 'p \<Rightarrow> bool" where
  "protects registry path \<longleftrightarrow> registry path \<noteq> None"

text \<open>A permit is the path it holds.\<close>

definition begin_deletion :: "'p \<Rightarrow> 'p registry \<Rightarrow> ('p \<times> 'p registry) option" where
  "begin_deletion path registry =
     (if registry path \<noteq> None then None else Some (path, registry(path \<mapsto> Deleting)))"

definition drop_token :: "'p \<Rightarrow> 'p registry \<Rightarrow> 'p registry" where
  "drop_token path registry =
     (case registry path of
        Some (Leased holders) \<Rightarrow>
          if holders = 1 then registry(path := None) else registry(path \<mapsto> Leased (holders - 1))
      | Some Deleting \<Rightarrow> registry
      | None \<Rightarrow> registry)"

definition drop_permit :: "'p \<Rightarrow> 'p registry \<Rightarrow> 'p registry" where
  "drop_permit path registry =
     (if registry path = Some Deleting then registry(path := None) else registry)"

text \<open>\<open>ManagedDeletionPermit::removed\<close> releases the charge (there is none for an unmetered
  tracker), then the permit is dropped.\<close>

definition permit_removed ::
  "'p \<Rightarrow> 'p registry \<times> 'p capacity_state option \<Rightarrow> 'p registry \<times> 'p capacity_state option" where
  "permit_removed path st = (case st of (registry, capacity) \<Rightarrow>
     (drop_permit path registry, map_option (removed path) capacity))"

section \<open>The lease machine\<close>

record 'p lease_system =
  ls_registry :: "'p registry"
  ls_tokens :: "'p list"
  ls_permits :: "'p list"

definition lease_start :: "'p lease_system \<Rightarrow> bool" where
  "lease_start s \<longleftrightarrow> s = \<lparr>ls_registry = (\<lambda>_. None), ls_tokens = [], ls_permits = []\<rparr>"

inductive lease_step :: "'p lease_system \<Rightarrow> 'p lease_system \<Rightarrow> bool" where
  acquired: "acquire directory view (ls_registry s) = (Inr path, registry) \<Longrightarrow>
    lease_step s (s\<lparr>ls_registry := registry, ls_tokens := path # ls_tokens s\<rparr>)"
| released: "path \<in> set (ls_tokens s) \<Longrightarrow>
    lease_step s (s\<lparr>ls_registry := drop_token path (ls_registry s), ls_tokens := remove1 path (ls_tokens s)\<rparr>)"
| deleting: "begin_deletion path (ls_registry s) = Some (permit, registry) \<Longrightarrow>
    lease_step s (s\<lparr>ls_registry := registry, ls_permits := permit # ls_permits s\<rparr>)"
| finished: "path \<in> set (ls_permits s) \<Longrightarrow>
    lease_step s (s\<lparr>ls_registry := drop_permit path (ls_registry s), ls_permits := remove1 path (ls_permits s)\<rparr>)"

inductive_cases lease_stepE: "lease_step s t"

text \<open>The registry counts exactly the tokens alive, and marks exactly the permits alive.\<close>

definition lease_inv :: "'p lease_system \<Rightarrow> bool" where
  "lease_inv s \<longleftrightarrow> distinct (ls_permits s) \<and> set (ls_permits s) \<inter> set (ls_tokens s) = {} \<and>
     (\<forall>p. ls_registry s p =
        (if p \<in> set (ls_permits s) then Some Deleting
         else if p \<in> set (ls_tokens s) then Some (Leased (count_list (ls_tokens s) p)) else None))"

lemma acquire_Inr:
  assumes "acquire directory view registry = (Inr path, registry')"
  shows "registry path = None \<and> registry' = registry(path \<mapsto> Leased 1) \<or>
    (\<exists>n. registry path = Some (Leased n) \<and> n + 1 < 2 ^ 64 \<and> registry' = registry(path \<mapsto> Leased (n + 1)))"
  using assms
  by (auto simp: acquire_def split: option.splits if_splits prod.splits registry_state.splits)

lemma count_list_pos: "p \<in> set xs \<longleftrightarrow> 0 < count_list xs p"
  by (induction xs) auto

lemma count_list_remove1: "count_list (remove1 p xs) q = (if q = p then count_list xs q - 1 else count_list xs q)"
  by (induction xs) (auto simp: count_list_pos)

lemma set_remove1_count: "q \<in> set (remove1 p xs) \<longleftrightarrow> (if q = p then 1 < count_list xs p else q \<in> set xs)"
  by (auto simp: count_list_pos count_list_remove1)

lemma lease_step_inv:
  assumes "lease_step s t" and inv: "lease_inv s"
  shows "lease_inv t"
  using assms(1)
proof cases
  case (acquired directory view path registry)
  have "registry = (ls_registry s)(path \<mapsto> Leased (Suc (count_list (ls_tokens s) path))) \<and>
      path \<notin> set (ls_permits s)"
    using acquire_Inr [OF acquired(2)] inv
    by (auto simp: lease_inv_def count_list_0_iff split: if_splits)
  then show ?thesis using inv by (auto simp: acquired(1) lease_inv_def count_list_0_iff)
next
  case (released path)
  then have reg: "ls_registry s path = Some (Leased (count_list (ls_tokens s) path))"
    "path \<notin> set (ls_permits s)"
    using inv by (auto simp: lease_inv_def)
  show ?thesis
    using inv reg released(2)
    by (auto simp: released(1) lease_inv_def drop_token_def count_list_remove1 set_remove1_count
        count_list_pos)
next
  case (deleting path permit registry)
  then have "path \<notin> set (ls_permits s)" "path \<notin> set (ls_tokens s)"
    using inv by (auto simp: lease_inv_def begin_deletion_def split: if_splits)
  then show ?thesis
    using inv deleting(2) by (auto simp: deleting(1) lease_inv_def begin_deletion_def split: if_splits)
next
  case (finished path)
  then have "path \<notin> set (ls_tokens s)" "ls_registry s path = Some Deleting"
    using inv by (auto simp: lease_inv_def)
  then show ?thesis
    using inv by (auto simp: finished(1) lease_inv_def drop_permit_def distinct_remove1)
qed

interpretation lease_machine: invariant_machine lease_start lease_step lease_inv
proof unfold_locales
  show "lease_inv s" if "lease_start s" for s :: "'a lease_system"
    using that by (auto simp: lease_start_def lease_inv_def)
qed (rule lease_step_inv)

text \<open>C31: In every interleaving of acquisitions, releases and deletions, no object has a lease and
  a deletion permit at the same time, at most one permit exists for an object, and the
  registry protects exactly the objects that have one or the other.\<close>

theorem leases_exclude_deletion:
  assumes "lease_start s" and "rtranclp lease_step s t"
  shows "set (ls_tokens t) \<inter> set (ls_permits t) = {} \<and> distinct (ls_permits t) \<and>
    (protects (ls_registry t) path \<longleftrightarrow> path \<in> set (ls_tokens t) \<or> path \<in> set (ls_permits t))"
  using lease_machine.reachable_inv [OF assms] by (auto simp: lease_inv_def protects_def)

definition sample_view :: "nat object_view" where
  "sample_view = \<lparr>ov_metadata = Some (True, False), ov_canonical = Some (5, Some 1, Some (replicate 32 97))\<rparr>"

lemma leases_exclude_deletion_witness:
  "\<exists>t. rtranclp lease_step \<lparr>ls_registry = (\<lambda>_. None), ls_tokens = [], ls_permits = []\<rparr> t \<and>
     ls_tokens t = [5 :: nat] \<and> ls_permits t = [6] \<and> protects (ls_registry t) 6"
proof -
  let ?s = "\<lparr>ls_registry = (\<lambda>_. None), ls_tokens = [], ls_permits = []\<rparr> :: nat lease_system"
  let ?t = "\<lparr>ls_registry = [5 \<mapsto> Leased 1], ls_tokens = [5], ls_permits = []\<rparr> :: nat lease_system"
  let ?u = "\<lparr>ls_registry = [5 \<mapsto> Leased 1, 6 \<mapsto> Deleting], ls_tokens = [5], ls_permits = [6]\<rparr> :: nat lease_system"
  have "str_len (replicate 32 97) = 32"
    by (simp add: str_len_def char_len_utf8_def sum_list_replicate)
  then have "acquire 1 sample_view (ls_registry ?s) = (Inr 5, [5 \<mapsto> Leased 1])"
    by (simp add: acquire_def sample_view_def is_managed_object_name_def is_lower_hex_def list_all_iff)
  from lease_step.acquired [OF this] have "lease_step ?s ?t" by simp
  moreover have "begin_deletion 6 (ls_registry ?t) = Some (6, [5 \<mapsto> Leased 1, 6 \<mapsto> Deleting])"
    by (simp add: begin_deletion_def)
  from lease_step.deleting [OF this] have "lease_step ?t ?u" by simp
  ultimately have run: "rtranclp lease_step ?s ?u" by (simp add: rtranclp.rtrancl_into_rtrancl)
  have "lease_start ?s" by (simp add: lease_start_def)
  from leases_exclude_deletion [OF this run, of 6] run show ?thesis by auto
qed

text \<open>A deletion can begin exactly on an object that is neither leased nor already being
  deleted, and while it is under way every attempt to lease the object fails.\<close>

theorem deletion_blocks_leases:
  assumes "begin_deletion path registry = Some (permit, registry')"
  shows "permit = path \<and> \<not> protects registry path \<and>
    begin_deletion path registry' = None \<and>
    (\<forall>directory view result registry''. acquire directory view registry' = (result, registry'') \<longrightarrow>
       result \<noteq> Inr path) \<and>
    drop_permit path registry' = registry"
  using assms
  by (auto simp: begin_deletion_def protects_def drop_permit_def fun_upd_idem_iff
      dest: acquire_Inr split: if_splits)

lemma deletion_blocks_leases_witness:
  "begin_deletion (5 :: nat) [5 \<mapsto> Deleting] = None"
  using deletion_blocks_leases [of 5 "\<lambda>_ :: nat. None" 5 "[5 \<mapsto> Deleting]"]
  by (simp add: begin_deletion_def)

end
