(* ===== verification/Media_Janitor.thy ===== *)
theory Media_Janitor
  imports Media_Lease "HOL-Library.Product_Lexorder"
begin

text \<open>
  The janitor of the managed media root, \<open>crates/pepeaudio-media/src/janitor\<close>: the
  policy (\<open>model.rs\<close>), removal
  planning (\<open>planning.rs\<close>), and the bounded scan that applies a plan (\<open>scan.rs\<close>,
  \<open>runtime.rs\<close>). A \<open>SystemTime\<close> is an integer and a \<open>Duration\<close> a natural number of
  nanoseconds; a path is of any linearly ordered type. What the file system answers to
  one call is an argument.
\<close>

section \<open>Policy and report\<close>

record janitor_policy =
  staging_ttl :: nat
  object_ttl :: nat
  minimum_object_retention :: nat
  max_total_bytes :: u64
  max_entries_per_scan :: nat
  dry_run :: bool

definition seconds :: "nat \<Rightarrow> nat" where
  "seconds n = n * 1000000000"

definition default_policy :: janitor_policy where
  "default_policy =
     \<lparr>staging_ttl = seconds 3600, object_ttl = seconds (7 * 24 * 3600),
      minimum_object_retention = seconds 300, max_total_bytes = 10 * 1024 * 1024 * 1024,
      max_entries_per_scan = 4096, dry_run = False\<rparr>"

definition validate_policy :: "janitor_policy \<Rightarrow> janitor_error + janitor_policy" where
  "validate_policy p =
     (if staging_ttl p = 0 \<or> object_ttl p = 0 \<or> minimum_object_retention p = 0 \<or>
         minimum_object_retention p > object_ttl p \<or> max_total_bytes p = 0 \<or> max_entries_per_scan p = 0
      then Inl InvalidPolicy else Inr p)"

datatype removal_reason = StagingExpired | ObjectExpired | Capacity

record 'p janitor_removal =
  rem_path :: 'p
  rem_size_bytes :: u64
  rem_reason :: removal_reason

datatype skip_reason =
  ActivelyLeased | UnmanagedName | LinkOrReparsePoint | NonRegularFile | InspectionFailed
  | OutsideManagedDirectory | ChangedDuringScan | RemovalFailed

record 'p janitor_report =
  rep_dry_run :: bool
  scanned_entries :: nat
  scan_limit_reached :: bool
  observed_files :: nat
  observed_bytes :: u64
  retained_observed_bytes :: u64
  removals :: "'p janitor_removal list"
  skipped :: "('p \<times> skip_reason) list"

definition observed_excess_bytes :: "'p janitor_report \<Rightarrow> janitor_policy \<Rightarrow> u64" where
  "observed_excess_bytes r p = saturating_sub_u64 (retained_observed_bytes r) (max_total_bytes p)"

section \<open>Planning\<close>

datatype managed_kind = Staging | Object

record 'p candidate =
  cand_path :: 'p
  cand_kind :: managed_kind
  size_bytes :: u64
  modified :: int
  leased :: bool

record plan =
  plan_index :: nat
  plan_reason :: removal_reason

definition old_enough :: "int \<Rightarrow> int \<Rightarrow> nat \<Rightarrow> bool" where
  "old_enough now modified_at minimum_age =
     (modified_at \<le> now \<and> nat (now - modified_at) \<ge> minimum_age)"

definition expiry_reason :: "janitor_policy \<Rightarrow> int \<Rightarrow> 'p candidate \<Rightarrow> removal_reason option" where
  "expiry_reason policy now c =
     (if leased c then None
      else case cand_kind c of
        Staging \<Rightarrow> if old_enough now (modified c) (staging_ttl policy) then Some StagingExpired else None
      | Object \<Rightarrow> if old_enough now (modified c) (object_ttl policy) then Some ObjectExpired else None)"

text \<open>The loop over the candidates with their indices, and the loop over the sorted quota
  candidates.\<close>

fun expire ::
  "janitor_policy \<Rightarrow> int \<Rightarrow> (nat \<times> 'p candidate) list \<Rightarrow> plan list \<times> bool list \<times> u64 \<Rightarrow>
     plan list \<times> bool list \<times> u64" where
  "expire policy now [] st = st"
| "expire policy now ((i, c) # rest) (plans, planned, retained) =
     expire policy now rest
       (case expiry_reason policy now c of
          None \<Rightarrow> (plans, planned, retained)
        | Some reason \<Rightarrow>
            (plans @ [\<lparr>plan_index = i, plan_reason = reason\<rparr>], planned[i := True],
             saturating_sub_u64 retained (size_bytes c)))"

fun evict ::
  "u64 \<Rightarrow> (nat \<times> 'p candidate) list \<Rightarrow> plan list \<times> u64 \<Rightarrow> plan list \<times> u64" where
  "evict maximum [] st = st"
| "evict maximum ((i, c) # rest) (plans, retained) =
     (if retained \<le> maximum then (plans, retained)
      else evict maximum rest
        (plans @ [\<lparr>plan_index = i, plan_reason = Capacity\<rparr>], saturating_sub_u64 retained (size_bytes c)))"

definition evictable :: "janitor_policy \<Rightarrow> int \<Rightarrow> 'p candidate \<Rightarrow> bool" where
  "evictable policy now c \<longleftrightarrow> \<not> leased c \<and> cand_kind c = Object \<and>
     old_enough now (modified c) (minimum_object_retention policy)"

definition quota_candidates ::
  "janitor_policy \<Rightarrow> int \<Rightarrow> bool list \<Rightarrow> 'p :: linorder candidate list \<Rightarrow> (nat \<times> 'p candidate) list" where
  "quota_candidates policy now planned cs =
     sort_key (\<lambda>(i, c). (modified c, cand_path c))
       (filter (\<lambda>(i, c). \<not> planned ! i \<and> evictable policy now c) (enumerate 0 cs))"

definition plan_removals ::
  "'p :: linorder candidate list \<Rightarrow> janitor_policy \<Rightarrow> int \<Rightarrow> u64 \<Rightarrow> plan list" where
  "plan_removals cs policy now observed =
     (case expire policy now (enumerate 0 cs) ([], replicate (length cs) False, observed) of
        (plans, planned, retained) \<Rightarrow>
          fst (evict (max_total_bytes policy) (quota_candidates policy now planned cs) (plans, retained)))"

text \<open>The bytes a list of plans frees.\<close>

definition freed :: "'p candidate list \<Rightarrow> plan list \<Rightarrow> nat" where
  "freed cs plans = sum_list (map (\<lambda>p. unat (size_bytes (cs ! plan_index p))) plans)"

text \<open>What makes one plan permissible.\<close>

definition plan_ok :: "janitor_policy \<Rightarrow> int \<Rightarrow> 'p candidate list \<Rightarrow> plan \<Rightarrow> bool" where
  "plan_ok policy now cs p \<longleftrightarrow> plan_index p < length cs \<and>
     (let c = cs ! plan_index p in \<not> leased c \<and>
        (case plan_reason p of
           StagingExpired \<Rightarrow> cand_kind c = Staging \<and> old_enough now (modified c) (staging_ttl policy)
         | ObjectExpired \<Rightarrow> cand_kind c = Object \<and> old_enough now (modified c) (object_ttl policy)
         | Capacity \<Rightarrow> cand_kind c = Object \<and> old_enough now (modified c) (minimum_object_retention policy)))"

lemma freed_simps [simp]:
  "freed cs [] = 0" "freed cs (ps @ qs) = freed cs ps + freed cs qs"
  "freed cs (p # ps) = unat (size_bytes (cs ! plan_index p)) + freed cs ps"
  by (simp_all add: freed_def)

lemma unat_saturating_sub: "unat (saturating_sub_u64 a b) = unat a - unat b"
  by (rule word_std)

text \<open>The first loop: the plans it makes are those of the expired candidates, in order.\<close>

definition expired_plans :: "janitor_policy \<Rightarrow> int \<Rightarrow> (nat \<times> 'p candidate) list \<Rightarrow> plan list" where
  "expired_plans policy now ics =
     List.map_filter (\<lambda>(i, c). map_option (\<lambda>r. \<lparr>plan_index = i, plan_reason = r\<rparr>) (expiry_reason policy now c)) ics"

lemma expired_plans_simps [simp]:
  "expired_plans policy now [] = []"
  "expired_plans policy now ((i, c) # rest) =
     (case expiry_reason policy now c of
        None \<Rightarrow> expired_plans policy now rest
      | Some r \<Rightarrow> \<lparr>plan_index = i, plan_reason = r\<rparr> # expired_plans policy now rest)"
  by (auto simp: expired_plans_def List.map_filter_simps split: option.splits)

lemma expire_spec:
  assumes "\<forall>(i, c) \<in> set ics. i < length planned \<and> cs ! i = c"
    and "expire policy now ics (plans, planned, retained) = (plans', planned', retained')"
  shows "plans' = plans @ expired_plans policy now ics \<and> length planned' = length planned \<and>
    (\<forall>i < length planned. planned' ! i \<longleftrightarrow> planned ! i \<or> i \<in> plan_index ` set (expired_plans policy now ics)) \<and>
    unat retained' = unat retained - freed cs (expired_plans policy now ics)"
  using assms
proof (induction ics arbitrary: plans planned retained)
  case (Cons ic ics)
  obtain i c where ic: "ic = (i, c)" by (cases ic)
  show ?case
  proof (cases "expiry_reason policy now c")
    case None
    with Cons.prems have "\<forall>(j, d) \<in> set ics. j < length planned \<and> cs ! j = d"
      "expire policy now ics (plans, planned, retained) = (plans', planned', retained')"
      by (auto simp: ic)
    from Cons.IH [OF this] None show ?thesis by (simp add: ic)
  next
    case (Some r)
    with Cons.prems ic have rest: "expire policy now ics (plans @ [\<lparr>plan_index = i, plan_reason = r\<rparr>],
        planned[i := True], saturating_sub_u64 retained (size_bytes c)) = (plans', planned', retained')"
      by simp
    have "\<forall>(j, d) \<in> set ics. j < length (planned[i := True]) \<and> cs ! j = d" using Cons.prems(1) by auto
    from Cons.IH [OF this rest] show ?thesis
      using Cons.prems(1) Some
      by (auto simp: ic unat_saturating_sub nth_list_update)
  qed
qed simp

definition capacity_plans :: "(nat \<times> 'p candidate) list \<Rightarrow> plan list" where
  "capacity_plans ics = map (\<lambda>ic. \<lparr>plan_index = fst ic, plan_reason = Capacity\<rparr>) ics"

lemma capacity_plans_simps [simp]:
  "capacity_plans [] = []"
  "capacity_plans (ic # ics) = \<lparr>plan_index = fst ic, plan_reason = Capacity\<rparr> # capacity_plans ics"
  "length (capacity_plans ics) = length ics"
  "take k (capacity_plans ics) = capacity_plans (take k ics)"
  "map plan_index (capacity_plans ics) = map fst ics"
  "plan_index ` set (capacity_plans ics) = fst ` set ics"
  by (simp_all add: capacity_plans_def take_map image_image)

lemma capacity_plans_mem:
  "p \<in> set (capacity_plans ics) \<longleftrightarrow> plan_reason p = Capacity \<and> plan_index p \<in> fst ` set ics"
  by (cases p) (auto simp: capacity_plans_def image_iff)

text \<open>The second loop takes the shortest prefix that brings the total under the maximum.\<close>

lemma evict_spec:
  assumes "\<forall>(i, c) \<in> set ics. cs ! i = c"
    and "evict maximum ics (plans, retained) = (plans', retained')"
  shows "\<exists>n \<le> length ics. plans' = plans @ capacity_plans (take n ics) \<and>
    (\<forall>k < n. unat maximum < unat retained - freed cs (capacity_plans (take k ics))) \<and>
    (n = length ics \<or>
     unat retained - freed cs (capacity_plans (take n ics)) \<le> unat maximum)"
  using assms
proof (induction ics arbitrary: plans retained)
  case (Cons ic ics)
  obtain i c where ic: "ic = (i, c)" by (cases ic)
  show ?case
  proof (cases "retained \<le> maximum")
    case True
    with Cons.prems(2) show ?thesis by (auto simp: ic word_le_nat_alt intro: exI [of _ 0])
  next
    case False
    have "\<forall>(i, c) \<in> set ics. cs ! i = c" and i: "cs ! i = c" using Cons.prems(1) ic by auto
    with Cons.IH [OF this(1), of "plans @ [\<lparr>plan_index = i, plan_reason = Capacity\<rparr>]"
        "saturating_sub_u64 retained (size_bytes c)"] Cons.prems(2) False ic
    obtain n where n: "n \<le> length ics"
      "plans' = (plans @ [\<lparr>plan_index = i, plan_reason = Capacity\<rparr>]) @
        capacity_plans (take n ics)"
      "\<forall>k < n. unat maximum < unat (saturating_sub_u64 retained (size_bytes c)) -
        freed cs (capacity_plans (take k ics))"
      "n = length ics \<or> unat (saturating_sub_u64 retained (size_bytes c)) -
        freed cs (capacity_plans (take n ics)) \<le> unat maximum"
      by auto
    show ?thesis
    proof (intro exI [of _ "Suc n"] conjI allI impI)
      fix k assume "k < Suc n"
      then show "unat maximum < unat retained -
          freed cs (capacity_plans (take k (ic # ics)))"
        using n(3) False i by (cases k) (auto simp: ic unat_saturating_sub word_le_nat_alt)
    qed (use n i in \<open>auto simp: ic unat_saturating_sub\<close>)
  qed
qed simp


section \<open>What a plan guarantees\<close>

lemma expired_plans_mem:
  "p \<in> set (expired_plans policy now ics) \<longleftrightarrow>
     (\<exists>(i, c) \<in> set ics. expiry_reason policy now c = Some (plan_reason p) \<and> plan_index p = i)"
  by (induction ics) (auto split: option.splits)

lemma expired_plans_distinct:
  "distinct (map fst ics) \<Longrightarrow> distinct (map plan_index (expired_plans policy now ics))"
  by (induction ics) (auto simp: expired_plans_mem rev_image_eqI split: option.splits)

lemma plan_eta [simp]: "\<lparr>plan_index = plan_index p, plan_reason = plan_reason p\<rparr> = p"
  by (cases p) simp

lemma expiry_reason_ok:
  assumes "i < length cs" and "expiry_reason policy now (cs ! i) = Some r"
  shows "plan_ok policy now cs \<lparr>plan_index = i, plan_reason = r\<rparr>"
  using assms
  by (auto simp: plan_ok_def expiry_reason_def Let_def split: if_splits managed_kind.splits)

text \<open>The whole plan: the expired candidates, then a prefix of the quota candidates.\<close>

lemma plan_removals_split:
  obtains planned n where
    "plan_removals cs policy now observed = expired_plans policy now (enumerate 0 cs) @
       capacity_plans (take n (quota_candidates policy now planned cs))"
    and "\<forall>i < length cs. planned ! i \<longleftrightarrow> i \<in> plan_index ` set (expired_plans policy now (enumerate 0 cs))"
    and "n \<le> length (quota_candidates policy now planned cs)"
    and "\<forall>k < n. unat (max_total_bytes policy) < unat observed -
       freed cs (expired_plans policy now (enumerate 0 cs) @
         capacity_plans (take k (quota_candidates policy now planned cs)))"
    and "n = length (quota_candidates policy now planned cs) \<or>
       unat observed - freed cs (plan_removals cs policy now observed) \<le> unat (max_total_bytes policy)"
proof -
  let ?ics = "enumerate 0 cs"
  obtain plans planned retained where
    ex: "expire policy now ?ics ([], replicate (length cs) False, observed) = (plans, planned, retained)"
    by (metis prod_cases3)
  obtain plans' retained' where
    ev: "evict (max_total_bytes policy) (quota_candidates policy now planned cs) (plans, retained) = (plans', retained')"
    by (metis surj_pair)
  have ics: "\<forall>(i, c) \<in> set ?ics. i < length (replicate (length cs) False) \<and> cs ! i = c"
    by (auto simp: in_set_enumerate_eq)
  have "set (quota_candidates policy now planned cs) \<subseteq> set ?ics" by (auto simp: quota_candidates_def)
  with ics have qs: "\<forall>(i, c) \<in> set (quota_candidates policy now planned cs). cs ! i = c" by auto
  note first = expire_spec [OF ics ex]
  have all: "plan_removals cs policy now observed = plans'" by (simp add: plan_removals_def ex ev)
  obtain n where n: "n \<le> length (quota_candidates policy now planned cs)"
    "plans' = plans @ capacity_plans (take n (quota_candidates policy now planned cs))"
    "\<forall>k < n. unat (max_total_bytes policy) < unat retained -
       freed cs (capacity_plans (take k (quota_candidates policy now planned cs)))"
    "n = length (quota_candidates policy now planned cs) \<or>
       unat retained - freed cs (capacity_plans (take n (quota_candidates policy now planned cs))) \<le> unat (max_total_bytes policy)"
    using evict_spec [OF qs ev] by blast
  show ?thesis
    by (rule that [where planned = planned and n = n]) (use first n all in \<open>simp_all add: diff_diff_left\<close>)
qed

lemma quota_candidates_mem:
  "(i, c) \<in> set (quota_candidates policy now planned cs) \<longleftrightarrow>
     i < length cs \<and> c = cs ! i \<and> \<not> planned ! i \<and> evictable policy now c"
  by (auto simp: quota_candidates_def in_set_enumerate_eq)

lemma quota_candidates_distinct: "distinct (map fst (quota_candidates policy now planned cs))"
proof -
  have "distinct (map fst (filter P (enumerate 0 cs)))" for P
    by (simp add: distinct_map_filter)
  moreover have "mset (map fst (quota_candidates policy now planned cs)) =
      mset (map fst (filter (\<lambda>(i, c). \<not> planned ! i \<and> evictable policy now c) (enumerate 0 cs)))"
    by (simp add: quota_candidates_def)
  ultimately show ?thesis by (metis mset_eq_imp_distinct_iff)
qed

lemma expiry_reason_not_capacity: "expiry_reason policy now c \<noteq> Some Capacity"
  by (cases "cand_kind c") (auto simp: expiry_reason_def)

lemma plans_ok:
  "(\<forall>p \<in> set (plan_removals cs policy now observed). plan_ok policy now cs p) \<and>
   distinct (map plan_index (plan_removals cs policy now observed))"
proof -
  let ?ics = "enumerate 0 cs"
  obtain planned n where
    all: "plan_removals cs policy now observed = expired_plans policy now ?ics @
       capacity_plans (take n (quota_candidates policy now planned cs))"
    and planned: "\<forall>i < length cs. planned ! i \<longleftrightarrow> i \<in> plan_index ` set (expired_plans policy now ?ics)"
    by (rule plan_removals_split)
  have expired: "plan_ok policy now cs p" if "p \<in> set (expired_plans policy now ?ics)" for p
    using that expiry_reason_ok [of "plan_index p" cs policy now "plan_reason p"]
    by (auto simp: expired_plans_mem in_set_enumerate_eq)
  have capacity: "plan_ok policy now cs \<lparr>plan_index = i, plan_reason = Capacity\<rparr> \<and> \<not> planned ! i \<and> i < length cs"
    if "i \<in> fst ` set (take n (quota_candidates policy now planned cs))" for i
    using that
    by (auto simp: quota_candidates_mem plan_ok_def evictable_def Let_def dest!: in_set_takeD)
  have "plan_ok policy now cs p" if "p \<in> set (capacity_plans (take n (quota_candidates policy now planned cs)))" for p
    using that capacity plan_eta [of p] by (metis capacity_plans_mem)
  moreover have "distinct (map fst (take n (quota_candidates policy now planned cs)))"
    by (simp add: take_map [symmetric] quota_candidates_distinct)
  moreover have "distinct (map plan_index (expired_plans policy now ?ics))"
    by (rule expired_plans_distinct) simp
  moreover have "plan_index ` set (expired_plans policy now ?ics) \<inter>
      fst ` set (take n (quota_candidates policy now planned cs)) = {}"
    using capacity planned by blast
  ultimately show ?thesis
    using expired by (simp add: all) blast
qed

text \<open>Every planned removal is permissible, whatever the scan saw: it names a candidate of the
  scan that no lease protects, of the kind its reason says and at least as old as the
  policy demands for that reason; and no candidate is planned twice.\<close>

theorem plans_are_permissible:
  "(\<forall>p \<in> set (plan_removals cs policy now observed). plan_ok policy now cs p) \<and>
   distinct (map plan_index (plan_removals cs policy now observed))"
  by (rule plans_ok)

text \<open>An expired staging file, a young object and an old, large one, with room for ten bytes.\<close>

definition sample_candidates :: "nat candidate list" where
  "sample_candidates =
     [\<lparr>cand_path = 1, cand_kind = Staging, size_bytes = 4, modified = 0, leased = False\<rparr>,
      \<lparr>cand_path = 2, cand_kind = Object, size_bytes = 5, modified = 99, leased = False\<rparr>,
      \<lparr>cand_path = 3, cand_kind = Object, size_bytes = 9, modified = 70, leased = False\<rparr>]"

definition sample_policy :: janitor_policy where
  "sample_policy =
     \<lparr>staging_ttl = 50, object_ttl = 60, minimum_object_retention = 10, max_total_bytes = 10,
      max_entries_per_scan = 8, dry_run = False\<rparr>"

lemma sample_plan:
  "plan_removals sample_candidates sample_policy 100 18 =
     [\<lparr>plan_index = 0, plan_reason = StagingExpired\<rparr>, \<lparr>plan_index = 2, plan_reason = Capacity\<rparr>]"
  by (simp add: plan_removals_def sample_candidates_def sample_policy_def expiry_reason_def old_enough_def
      quota_candidates_def evictable_def saturating_sub_u64_def)

lemma plans_are_permissible_witness:
  "plan_ok sample_policy 100 sample_candidates \<lparr>plan_index = 2, plan_reason = Capacity\<rparr>"
  using plans_are_permissible [of sample_candidates sample_policy 100 18] by (simp add: sample_plan)

text \<open>A plan does what the budget needs and no more: after it the scanned bytes fit the budget,
  or every old enough, unleased object is planned; each eviction was still needed when it
  was chosen; and evictions take the oldest objects first, by path among equals.\<close>

theorem plan_meets_budget:
  assumes "plans = plan_removals cs policy now observed"
  shows "(unat observed - freed cs plans \<le> unat (max_total_bytes policy) \<or>
      (\<forall>i < length cs. evictable policy now (cs ! i) \<longrightarrow> i \<in> plan_index ` set plans)) \<and>
    (\<forall>front p rear. plans = front @ p # rear \<and> plan_reason p = Capacity \<longrightarrow>
       unat (max_total_bytes policy) < unat observed - freed cs front) \<and>
    (\<forall>p \<in> set plans. \<forall>i < length cs.
       plan_reason p = Capacity \<and> evictable policy now (cs ! i) \<and> i \<notin> plan_index ` set plans \<longrightarrow>
       (modified (cs ! plan_index p), cand_path (cs ! plan_index p)) \<le> (modified (cs ! i), cand_path (cs ! i)))"
proof -
  let ?ics = "enumerate 0 cs"
  let ?exp = "expired_plans policy now ?ics"
  obtain planned n where
    all: "plans = ?exp @ capacity_plans (take n (quota_candidates policy now planned cs))"
    and planned: "\<forall>i < length cs. planned ! i \<longleftrightarrow> i \<in> plan_index ` set ?exp"
    and n: "n \<le> length (quota_candidates policy now planned cs)"
    and needed: "\<forall>k < n. unat (max_total_bytes policy) < unat observed -
       freed cs (?exp @ capacity_plans (take k (quota_candidates policy now planned cs)))"
    and done_: "n = length (quota_candidates policy now planned cs) \<or>
       unat observed - freed cs plans \<le> unat (max_total_bytes policy)"
    unfolding assms by (rule plan_removals_split)
  let ?q = "quota_candidates policy now planned cs"
  have not_cap: "plan_reason p \<noteq> Capacity" if "p \<in> set ?exp" for p
    using that expiry_reason_not_capacity by (fastforce simp: expired_plans_mem)
  have member: "i \<in> plan_index ` set plans \<or> (i, cs ! i) \<in> set ?q"
    if "i < length cs" "evictable policy now (cs ! i)" for i
    using that planned by (auto simp: all quota_candidates_mem)
  have fits: "unat observed - freed cs plans \<le> unat (max_total_bytes policy) \<or>
      (\<forall>i < length cs. evictable policy now (cs ! i) \<longrightarrow> i \<in> plan_index ` set plans)"
  proof (cases "n = length ?q")
    case True
    then have "i \<in> plan_index ` set plans" if "(i, cs ! i) \<in> set ?q" for i
      using that by (auto simp: all image_Un intro: rev_image_eqI)
    with member show ?thesis by blast
  qed (use done_ in blast)
  have minimal: "unat (max_total_bytes policy) < unat observed - freed cs front"
    if split: "plans = front @ p # rear" and cap: "plan_reason p = Capacity" for front p rear
  proof -
    have nth: "plans ! length front = p" using split by simp
    have "length ?exp \<le> length front"
    proof (rule ccontr)
      assume "\<not> length ?exp \<le> length front"
      then have "p \<in> set ?exp" using nth by (auto simp: all nth_append)
      with not_cap cap show False by blast
    qed
    moreover have "length front < length plans" using split by simp
    ultimately obtain k where k: "length front = length ?exp + k" "k < n"
      using n by (auto simp: all dest: le_Suc_ex)
    have "front = take (length front) plans" using split by simp
    also have "\<dots> = ?exp @ capacity_plans (take k ?q)" using k by (simp add: all min_def)
    finally show ?thesis using needed k(2) by simp
  qed
  have oldest: "(modified (cs ! plan_index p), cand_path (cs ! plan_index p)) \<le> (modified (cs ! i), cand_path (cs ! i))"
    if p: "p \<in> set plans" "plan_reason p = Capacity" and i: "i < length cs" "evictable policy now (cs ! i)"
      "i \<notin> plan_index ` set plans" for p i
  proof -
    let ?key = "\<lambda>(i :: nat, c). (modified c, cand_path c)"
    have sorted: "sorted (map ?key ?q)" by (simp add: quota_candidates_def)
    obtain j c where jc: "(j, c) \<in> set (take n ?q)" "plan_index p = j"
      using p not_cap by (auto simp: all capacity_plans_mem)
    then have c: "c = cs ! j" using in_set_takeD [OF jc(1)] by (simp add: quota_candidates_mem)
    have q: "?q = take n ?q @ drop n ?q" by simp
    have "(i, cs ! i) \<in> set ?q" using member i by blast
    moreover have "(i, cs ! i) \<notin> set (take n ?q)"
      using i(3) by (auto simp: all image_Un intro: rev_image_eqI)
    ultimately have "(i, cs ! i) \<in> set (drop n ?q)" by (metis Un_iff q set_append)
    with sorted jc(1) have "?key (j, c) \<le> ?key (i, cs ! i)"
      by (metis (no_types, lifting) image_eqI list.set_map map_append q sorted_append)
    then show ?thesis by (simp add: jc(2) c)
  qed
  show ?thesis using fits minimal oldest by blast
qed

lemma plan_meets_budget_witness:
  "unat (18 :: u64) - freed sample_candidates (plan_removals sample_candidates sample_policy 100 18) \<le> 10"
  using plan_meets_budget [where cs = sample_candidates and policy = sample_policy and now = 100 and observed = 18, OF refl]
  by (simp add: sample_plan) (simp add: sample_candidates_def sample_policy_def)

end
