(* ===== verification/Media_Cleanup.thy ===== *)
theory Media_Cleanup
  imports Media_Janitor "HOL-Library.Sublist"
begin

text \<open>
  The bounded scan of the managed directories and the removal of what the plan names,
  \<open>crates/pepeaudio-media/src/janitor/scan.rs\<close>, and the entry points of
  \<open>runtime.rs\<close>. What the file system answers about an entry, and what other tasks do to
  the lease registry and the capacity ledger while the janitor awaits a call, are
  arguments: any answer and any interference is covered.
\<close>

section \<open>Inspecting one entry\<close>

text \<open>Metadata as (is a link, is a regular file, length, modification time); \<open>None\<close> where a call fails.\<close>

type_synonym file_metadata = "bool \<times> bool \<times> u64 \<times> int option"

record 'p scanned_entry =
  se_path :: 'p
  se_name :: "rstring option"
  se_metadata :: "file_metadata option"
  se_canonical :: "('p \<times> 'p option) option"
  se_registry :: "'p registry"

definition scan_managed_name :: "managed_kind \<Rightarrow> rstring option \<Rightarrow> bool" where
  "scan_managed_name kind name =
     (case name of
        None \<Rightarrow> False
      | Some n \<Rightarrow>
          (case (case kind of Staging \<Rightarrow> strip_suffix (str ''.part'') n | Object \<Rightarrow> Some n) of
             None \<Rightarrow> False
           | Some identifier \<Rightarrow> str_len identifier = 32 \<and> list_all is_lower_hex identifier))"

definition add_skip :: "'p \<Rightarrow> skip_reason \<Rightarrow> 'p janitor_report \<Rightarrow> 'p janitor_report" where
  "add_skip path reason report = report\<lparr>skipped := skipped report @ [(path, reason)]\<rparr>"

definition inspect_entry ::
  "managed_kind \<Rightarrow> 'p \<Rightarrow> 'p scanned_entry \<Rightarrow> 'p candidate list \<Rightarrow> 'p janitor_report \<Rightarrow>
     'p candidate list \<times> 'p janitor_report" where
  "inspect_entry kind directory entry candidates report =
     (let path = se_path entry; skipping = (\<lambda>reason. (candidates, add_skip path reason report))
      in if \<not> scan_managed_name kind (se_name entry) then skipping UnmanagedName
         else case se_metadata entry of
           None \<Rightarrow> skipping InspectionFailed
         | Some (is_link, is_file, len, modified_at) \<Rightarrow>
             if is_link then skipping LinkOrReparsePoint
             else if \<not> is_file then skipping NonRegularFile
             else (case se_canonical entry of
               None \<Rightarrow> skipping InspectionFailed
             | Some (canonical, parent) \<Rightarrow>
                 if parent \<noteq> Some directory \<or> canonical \<noteq> path then skipping OutsideManagedDirectory
                 else (case modified_at of
                   None \<Rightarrow> skipping InspectionFailed
                 | Some time \<Rightarrow>
                     (candidates @ [\<lparr>cand_path = canonical, cand_kind = kind, size_bytes = len,
                                     modified = time,
                                     leased = (kind = Object \<and> protects (se_registry entry) canonical)\<rparr>],
                      report))))"

section \<open>The scan\<close>

text \<open>A directory with the reads still to come: an entry, or \<open>None\<close> for a read that fails; the
  end of the list is the end of the directory. The array of two directories is a pair.\<close>

record 'p directory_scan =
  ds_kind :: managed_kind
  ds_directory :: 'p
  ds_entries :: "'p scanned_entry option list"
  ds_exhausted :: bool

type_synonym 'p scans = "'p directory_scan \<times> 'p directory_scan"

definition scan_at :: "'p scans \<Rightarrow> nat \<Rightarrow> 'p directory_scan" where
  "scan_at ds i = (if i = 0 then fst ds else snd ds)"

definition set_scan :: "'p scans \<Rightarrow> nat \<Rightarrow> 'p directory_scan \<Rightarrow> 'p scans" where
  "set_scan ds i d = (if i = 0 then (d, snd ds) else (fst ds, d))"

definition any_open :: "'p scans \<Rightarrow> bool" where
  "any_open ds \<longleftrightarrow> \<not> ds_exhausted (fst ds) \<or> \<not> ds_exhausted (snd ds)"

definition next_directory :: "'p scans \<Rightarrow> nat \<Rightarrow> nat" where
  "next_directory ds cursor =
     (if ds_exhausted (scan_at ds cursor) then (cursor + 1) mod 2 else cursor)"

definition scan_remaining :: "'p directory_scan \<Rightarrow> nat" where
  "scan_remaining d = length (ds_entries d) + (if ds_exhausted d then 0 else 1)"

definition scans_remaining :: "'p scans \<Rightarrow> nat" where
  "scans_remaining ds = scan_remaining (fst ds) + scan_remaining (snd ds)"

function scan_loop ::
  "nat \<Rightarrow> 'p scans \<Rightarrow> nat \<Rightarrow> 'p candidate list \<Rightarrow> 'p janitor_report \<Rightarrow>
     janitor_error + 'p scans \<times> 'p candidate list \<times> 'p janitor_report" where
  "scan_loop limit ds cursor candidates report =
     (if scanned_entries report < limit \<and> any_open ds then
        let index = next_directory ds cursor; d = scan_at ds index
        in case ds_entries d of
             [] \<Rightarrow> scan_loop limit (set_scan ds index (d\<lparr>ds_exhausted := True\<rparr>)) ((index + 1) mod 2)
                    candidates report
           | None # _ \<Rightarrow> Inl ReadDirectory
           | Some entry # rest \<Rightarrow>
               (case inspect_entry (ds_kind d) (ds_directory d) entry candidates
                      (report\<lparr>scanned_entries := scanned_entries report + 1\<rparr>) of
                  (candidates', report') \<Rightarrow>
                    scan_loop limit (set_scan ds index (d\<lparr>ds_entries := rest\<rparr>)) ((index + 1) mod 2)
                      candidates' report')
      else Inr (ds, candidates, report))"
  by pat_completeness auto

text \<open>Each turn reads an entry or closes a directory; only a cursor outside the array could choose
  a closed directory, and the next cursor is inside.\<close>

termination
  by (relation "measures [\<lambda>(limit, ds, cursor, candidates, report). scans_remaining ds,
      \<lambda>(limit, ds, cursor, candidates, report). if cursor < 2 then 0 else 1]")
    (auto simp: any_open_def next_directory_def scan_at_def set_scan_def scans_remaining_def
      scan_remaining_def less_2_cases_iff mod_2_eq_odd split: if_splits)

declare scan_loop.simps [simp del]

definition scan_candidates ::
  "'p managed_paths \<Rightarrow> 'p scanned_entry option list option \<Rightarrow> 'p scanned_entry option list option \<Rightarrow>
     janitor_policy \<Rightarrow> 'p janitor_report \<Rightarrow>
     janitor_error + 'p candidate list \<times> bool \<times> 'p janitor_report" where
  "scan_candidates paths staging_reads object_reads policy report =
     (case (staging_reads, object_reads) of
        (Some reads, Some reads') \<Rightarrow>
          (case scan_loop (max_entries_per_scan policy)
                  (\<lparr>ds_kind = Staging, ds_directory = staging paths, ds_entries = reads, ds_exhausted = False\<rparr>,
                   \<lparr>ds_kind = Object, ds_directory = objects paths, ds_entries = reads', ds_exhausted = False\<rparr>)
                  0 [] report of
             Inl e \<Rightarrow> Inl e
           | Inr (ds, candidates, report') \<Rightarrow>
               Inr (candidates,
                    scanned_entries report' = max_entries_per_scan policy \<and> any_open ds, report'))
      | _ \<Rightarrow> Inl ReadDirectory)"

section \<open>Applying a plan\<close>

type_synonym 'p ledgers = "'p registry \<times> 'p capacity_state option"

text \<open>What one planned removal meets: what other tasks do before its turn and while its file is
  being removed, the answers about the file, and whether removing it succeeds.\<close>

record 'p turn =
  turn_before :: "'p ledgers \<Rightarrow> 'p ledgers"
  turn_metadata :: "file_metadata option"
  turn_canonical :: "'p option"
  turn_removes :: bool
  turn_during :: "'p ledgers \<Rightarrow> 'p ledgers"

definition verify_unchanged ::
  "('p \<Rightarrow> 'p option) \<Rightarrow> 'p candidate \<Rightarrow> 'p \<Rightarrow> int \<Rightarrow> nat \<Rightarrow> 'p turn \<Rightarrow> skip_reason + unit" where
  "verify_unchanged parent c directory now minimum_age w =
     (if parent (cand_path c) \<noteq> Some directory then Inl OutsideManagedDirectory
      else case turn_metadata w of
        None \<Rightarrow> Inl ChangedDuringScan
      | Some (is_link, is_file, len, modified_at) \<Rightarrow>
          if is_link then Inl LinkOrReparsePoint
          else if \<not> is_file then Inl NonRegularFile
          else (case (turn_canonical w, modified_at) of
            (Some canonical, Some time) \<Rightarrow>
              if canonical \<noteq> cand_path c \<or> len \<noteq> size_bytes c \<or> time \<noteq> modified c \<or>
                 \<not> old_enough now time minimum_age
              then Inl ChangedDuringScan else Inr ()
          | _ \<Rightarrow> Inl ChangedDuringScan))"

definition removal :: "'p candidate \<Rightarrow> removal_reason \<Rightarrow> 'p janitor_removal" where
  "removal c reason = \<lparr>rem_path = cand_path c, rem_size_bytes = size_bytes c, rem_reason = reason\<rparr>"

definition add_removal :: "'p janitor_removal \<Rightarrow> 'p janitor_report \<Rightarrow> 'p janitor_report" where
  "add_removal r report = report\<lparr>removals := removals report @ [r]\<rparr>"

definition candidate_directory :: "'p managed_paths \<Rightarrow> 'p candidate \<Rightarrow> 'p" where
  "candidate_directory paths c = (case cand_kind c of Staging \<Rightarrow> staging paths | Object \<Rightarrow> objects paths)"

fun minimum_age :: "janitor_policy \<Rightarrow> removal_reason \<Rightarrow> nat" where
  "minimum_age policy StagingExpired = staging_ttl policy"
| "minimum_age policy ObjectExpired = object_ttl policy"
| "minimum_age policy Capacity = minimum_object_retention policy"

definition apply_plan ::
  "('p \<Rightarrow> 'p option) \<Rightarrow> 'p managed_paths \<Rightarrow> 'p candidate list \<Rightarrow> janitor_policy \<Rightarrow> int \<Rightarrow> plan \<Rightarrow> 'p turn \<Rightarrow>
     'p ledgers \<times> 'p janitor_report \<Rightarrow> 'p ledgers \<times> 'p janitor_report" where
  "apply_plan parent paths cs policy now p w st =
     (case st of (ledgers, report) \<Rightarrow>
       let c = cs ! plan_index p; path = cand_path c; (registry, capacity) = turn_before w ledgers
       in if dry_run policy then
            ((registry, capacity),
             if protects registry path then add_skip path ActivelyLeased report
             else add_removal (removal c (plan_reason p)) report)
          else case verify_unchanged parent c (candidate_directory paths c) now
                      (minimum_age policy (plan_reason p)) w of
            Inl reason \<Rightarrow> ((registry, capacity), add_skip path reason report)
          | Inr _ \<Rightarrow>
              (case begin_deletion path registry of
                 None \<Rightarrow> ((registry, capacity), add_skip path ActivelyLeased report)
               | Some (permit, registry') \<Rightarrow>
                   let (registry'', capacity') = turn_during w (registry', capacity)
                   in if turn_removes w
                      then (permit_removed permit (registry'', capacity'),
                            add_removal (removal c (plan_reason p)) report)
                      else ((drop_permit permit registry'', capacity'),
                            add_skip path RemovalFailed report)))"

fun apply_plans ::
  "('p \<Rightarrow> 'p option) \<Rightarrow> 'p managed_paths \<Rightarrow> 'p candidate list \<Rightarrow> janitor_policy \<Rightarrow> int \<Rightarrow> (plan \<Rightarrow> 'p turn) \<Rightarrow>
     plan list \<Rightarrow> 'p ledgers \<times> 'p janitor_report \<Rightarrow> 'p ledgers \<times> 'p janitor_report" where
  "apply_plans parent paths cs policy now world [] st = st"
| "apply_plans parent paths cs policy now world (p # ps) st =
     apply_plans parent paths cs policy now world ps (apply_plan parent paths cs policy now p (world p) st)"

fun saturating_sum :: "u64 list \<Rightarrow> u64 \<Rightarrow> u64" where
  "saturating_sum [] acc = acc"
| "saturating_sum (x # xs) acc = saturating_sum xs (saturating_add_u64 acc x)"

fun skip_leased :: "'p candidate list \<Rightarrow> 'p janitor_report \<Rightarrow> 'p janitor_report" where
  "skip_leased [] report = report"
| "skip_leased (c # cs) report =
     skip_leased cs (if leased c then add_skip (cand_path c) ActivelyLeased report else report)"

definition empty_report :: "janitor_policy \<Rightarrow> 'p janitor_report" where
  "empty_report policy =
     \<lparr>rep_dry_run = dry_run policy, scanned_entries = 0, scan_limit_reached = False, observed_files = 0,
      observed_bytes = 0, retained_observed_bytes = 0, removals = [], skipped = []\<rparr>"

text \<open>The surroundings of one run.\<close>

record 'p surroundings =
  sur_fs :: "'p dir_views"
  sur_staging :: "'p scanned_entry option list option"
  sur_objects :: "'p scanned_entry option list option"
  sur_world :: "plan \<Rightarrow> 'p turn"

definition run_scan ::
  "'p :: linorder surroundings \<Rightarrow> 'p managed_paths \<Rightarrow> janitor_policy \<Rightarrow> int \<Rightarrow> 'p ledgers \<Rightarrow>
     (janitor_error + 'p janitor_report) \<times> 'p ledgers" where
  "run_scan sur paths policy now ledgers =
     (case validate_paths (sur_fs sur) paths of
        Inl e \<Rightarrow> (Inl e, ledgers)
      | Inr _ \<Rightarrow>
          (case scan_candidates paths (sur_staging sur) (sur_objects sur) policy (empty_report policy) of
             Inl e \<Rightarrow> (Inl e, ledgers)
           | Inr (candidates, limit_reached, report) \<Rightarrow>
               let observed = saturating_sum (map size_bytes candidates) 0;
                   report1 = skip_leased candidates
                     (report\<lparr>scan_limit_reached := limit_reached, observed_files := length candidates,
                            observed_bytes := observed\<rparr>);
                   (ledgers', report2) =
                     apply_plans (dv_parent (sur_fs sur)) paths candidates policy now (sur_world sur)
                       (plan_removals candidates policy now observed) (ledgers, report1)
               in (Inr (report2\<lparr>retained_observed_bytes :=
                          saturating_sub_u64 (observed_bytes report2)
                            (saturating_sum (map rem_size_bytes (removals report2)) 0)\<rparr>), ledgers')))"

section \<open>Entry points\<close>

record 'p download_janitor =
  dj_paths :: "'p managed_paths"
  dj_policy :: janitor_policy

text \<open>The directories are prepared before (\<open>ManagedPaths::prepare\<close>); the registry is known by its root.\<close>

definition with_clock_and_registry ::
  "janitor_error + 'p managed_paths \<Rightarrow> janitor_policy \<Rightarrow> 'p \<Rightarrow> janitor_error + 'p download_janitor" where
  "with_clock_and_registry prepared policy registry_root =
     (case validate_policy policy of
        Inl e \<Rightarrow> Inl e
      | Inr policy' \<Rightarrow>
          (case prepared of
             Inl e \<Rightarrow> Inl e
           | Inr paths \<Rightarrow>
               if registry_root \<noteq> root paths then Inl LeaseRegistryRootMismatch
               else Inr \<lparr>dj_paths = paths, dj_policy = policy'\<rparr>))"

definition run_janitor ::
  "'p :: linorder download_janitor \<Rightarrow> 'p surroundings \<Rightarrow> int \<Rightarrow> 'p ledgers \<Rightarrow>
     (janitor_error + 'p janitor_report) \<times> 'p ledgers" where
  "run_janitor j sur now = run_scan sur (dj_paths j) (dj_policy j) now"

definition run_for_admission ::
  "'p :: linorder download_janitor \<Rightarrow> u64 \<Rightarrow> 'p surroundings \<Rightarrow> int \<Rightarrow> 'p ledgers \<Rightarrow>
     (janitor_error + 'p janitor_report) \<times> 'p ledgers" where
  "run_for_admission j requested sur now =
     run_scan sur (dj_paths j)
       ((dj_policy j)\<lparr>max_total_bytes := saturating_sub_u64 (max_total_bytes (dj_policy j)) requested\<rparr>) now"

section \<open>What a scan sees\<close>

text \<open>The candidate made of a safe entry.\<close>

definition candidate_of :: "managed_kind \<Rightarrow> 'p \<Rightarrow> 'p scanned_entry \<Rightarrow> 'p candidate \<Rightarrow> bool" where
  "candidate_of kind directory e c \<longleftrightarrow> scan_managed_name kind (se_name e) \<and>
     (\<exists>len time. se_metadata e = Some (False, True, len, Some time) \<and>
        se_canonical e = Some (se_path e, Some directory) \<and>
        c = \<lparr>cand_path = se_path e, cand_kind = kind, size_bytes = len, modified = time,
             leased = (kind = Object \<and> protects (se_registry e) (se_path e))\<rparr>)"

lemma inspect_entry_cases:
  assumes "inspect_entry kind directory e cs r = (cs', r')"
  obtains (candidate) c where "candidate_of kind directory e c" "cs' = cs @ [c]" "r' = r"
    | (skip) why where "cs' = cs" "r' = add_skip (se_path e) why r"
  using assms
  by (auto simp: inspect_entry_def Let_def candidate_of_def split: if_splits option.splits prod.splits)

definition entries_left :: "'p scans \<Rightarrow> nat" where
  "entries_left ds = length (ds_entries (fst ds)) + length (ds_entries (snd ds))"

definition closed_empty :: "'p scans \<Rightarrow> bool" where
  "closed_empty ds \<longleftrightarrow> (\<forall>d \<in> {fst ds, snd ds}. ds_exhausted d \<longrightarrow> ds_entries d = [])"

definition from_scans :: "'p scans \<Rightarrow> 'p candidate \<Rightarrow> bool" where
  "from_scans ds c \<longleftrightarrow> (\<exists>d \<in> {fst ds, snd ds}. \<exists>e. Some e \<in> set (ds_entries d) \<and>
     candidate_of (ds_kind d) (ds_directory d) e c)"

lemma set_scan_closed:
  assumes "closed_empty ds" and "ds_entries (scan_at ds i) = []"
  shows "closed_empty (set_scan ds i ((scan_at ds i)\<lparr>ds_exhausted := True\<rparr>))"
    and "entries_left (set_scan ds i ((scan_at ds i)\<lparr>ds_exhausted := True\<rparr>)) = entries_left ds"
    and "from_scans (set_scan ds i ((scan_at ds i)\<lparr>ds_exhausted := True\<rparr>)) c \<longleftrightarrow> from_scans ds c"
  using assms
  by (auto simp: closed_empty_def set_scan_def scan_at_def entries_left_def from_scans_def split: if_splits)

lemma set_scan_read:
  assumes "closed_empty ds" and "ds_entries (scan_at ds i) = Some e # rest"
  shows "closed_empty (set_scan ds i ((scan_at ds i)\<lparr>ds_entries := rest\<rparr>))"
    and "Suc (entries_left (set_scan ds i ((scan_at ds i)\<lparr>ds_entries := rest\<rparr>))) = entries_left ds"
    and "from_scans (set_scan ds i ((scan_at ds i)\<lparr>ds_entries := rest\<rparr>)) c \<Longrightarrow> from_scans ds c"
    and "candidate_of (ds_kind (scan_at ds i)) (ds_directory (scan_at ds i)) e c \<Longrightarrow> from_scans ds c"
  using assms
  by (auto simp: closed_empty_def set_scan_def scan_at_def entries_left_def from_scans_def split: if_splits)

lemma add_skip_simps [simp]:
  "scanned_entries (add_skip path why r) = scanned_entries r"
  "skipped (add_skip path why r) = skipped r @ [(path, why)]"
  "removals (add_skip path why r) = removals r"
  "observed_bytes (add_skip path why r) = observed_bytes r"
  by (simp_all add: add_skip_def)

lemma scan_loop_spec:
  assumes "scan_loop limit ds cursor cs r = Inr (ds', cs', r')"
    and "scanned_entries r \<le> limit" and "closed_empty ds"
  shows "scanned_entries r' \<le> limit \<and> (scanned_entries r' = limit \<or> \<not> any_open ds') \<and> closed_empty ds' \<and>
    scanned_entries r' + entries_left ds' = scanned_entries r + entries_left ds \<and>
    length cs' + length (skipped r') + scanned_entries r = length cs + length (skipped r) + scanned_entries r' \<and>
    removals r' = removals r \<and> (\<forall>c \<in> set cs'. c \<in> set cs \<or> from_scans ds c)"
  using assms
proof (induction limit ds cursor cs r rule: scan_loop.induct)
  case (1 limit ds cursor cs r)
  show ?case
  proof (cases "scanned_entries r < limit \<and> any_open ds")
    case False
    with "1.prems" show ?thesis by (subst (asm) scan_loop.simps) auto
  next
    case going: True
    define i where "i = next_directory ds cursor"
    define d where "d = scan_at ds i"
    note loop = "1.prems"(1) [unfolded scan_loop.simps [of limit ds cursor] if_P [OF going] Let_def, folded i_def, folded d_def]
    show ?thesis
    proof (cases "ds_entries d")
      case Nil
      note closed = set_scan_closed [OF "1.prems"(3) Nil [unfolded d_def], folded d_def]
      have "scan_loop limit (set_scan ds i (d\<lparr>ds_exhausted := True\<rparr>)) ((i + 1) mod 2) cs r = Inr (ds', cs', r')"
        using loop by (simp add: Nil)
      from "1.IH"(1) [OF going i_def d_def Nil this "1.prems"(2) closed(1)] show ?thesis
        by (simp add: closed(2,3))
    next
      case (Cons x rest)
      with loop obtain e where e: "x = Some e" by (cases x) auto
      note Cons = Cons [unfolded e]
      note read = set_scan_read [OF "1.prems"(3) Cons [unfolded d_def], folded d_def]
      obtain cs1 r1 where step: "inspect_entry (ds_kind d) (ds_directory d) e cs
          (r\<lparr>scanned_entries := scanned_entries r + 1\<rparr>) = (cs1, r1)" by (metis surj_pair)
      have rest: "scan_loop limit (set_scan ds i (d\<lparr>ds_entries := rest\<rparr>)) ((i + 1) mod 2) cs1 r1 = Inr (ds', cs', r')"
        using loop step by (simp add: Cons)
      have one: "scanned_entries r1 = Suc (scanned_entries r) \<and> removals r1 = removals r \<and>
          length cs1 + length (skipped r1) = Suc (length cs + length (skipped r)) \<and>
          (\<forall>c \<in> set cs1. c \<in> set cs \<or> from_scans ds c)"
        using step by (cases rule: inspect_entry_cases) (auto intro: read(4))
      then have "scanned_entries r1 \<le> limit" using going by simp
      from "1.IH"(2) [OF going i_def d_def Cons refl step [symmetric] rest this read(1)] show ?thesis
        using one read(2,3) by auto
    qed
  qed
qed

text \<open>A scan reads at most the configured number of entries and accounts for each as exactly one
  candidate or one diagnostic; without the limit flag it has read both directories to
  their ends; and every candidate is a regular file with a managed name that is canonically
  a direct child of its managed directory, marked as leased exactly when the registry
  protected it.\<close>

theorem scan_is_bounded_and_safe:
  assumes "scan_candidates paths (Some staging_reads) (Some object_reads) policy (empty_report policy) =
      Inr (candidates, limit_reached, report)"
  shows "scanned_entries report \<le> max_entries_per_scan policy \<and>
    length candidates + length (skipped report) = scanned_entries report \<and>
    (\<not> limit_reached \<longrightarrow> scanned_entries report = length staging_reads + length object_reads) \<and>
    (\<forall>c \<in> set candidates. \<exists>e. Some e \<in> set staging_reads \<and> candidate_of Staging (staging paths) e c \<or>
       Some e \<in> set object_reads \<and> candidate_of Object (objects paths) e c)"
proof -
  let ?ds = "(\<lparr>ds_kind = Staging, ds_directory = staging paths, ds_entries = staging_reads, ds_exhausted = False\<rparr>,
     \<lparr>ds_kind = Object, ds_directory = objects paths, ds_entries = object_reads, ds_exhausted = False\<rparr>)"
  obtain ds' where loop: "scan_loop (max_entries_per_scan policy) ?ds 0 [] (empty_report policy) =
      Inr (ds', candidates, report)"
    and flag: "limit_reached \<longleftrightarrow> scanned_entries report = max_entries_per_scan policy \<and> any_open ds'"
    using assms by (auto simp: scan_candidates_def split: sum.splits)
  have start: "scanned_entries (empty_report policy) \<le> max_entries_per_scan policy" "closed_empty ?ds"
    by (simp_all add: empty_report_def closed_empty_def)
  note spec = scan_loop_spec [OF loop start]
  have "entries_left ds' = 0" if "\<not> limit_reached"
    using spec flag that by (auto simp: any_open_def closed_empty_def entries_left_def)
  then show ?thesis
    using spec by (auto simp: empty_report_def entries_left_def from_scans_def)
qed

definition sample_entry :: "nat scanned_entry" where
  "sample_entry =
     \<lparr>se_path = 7, se_name = Some (replicate 32 97), se_metadata = Some (False, True, 50, Some 0),
      se_canonical = Some (7, Some 1), se_registry = (\<lambda>_. None)\<rparr>"

definition sample_paths :: "nat managed_paths" where
  "sample_paths = \<lparr>root = 0, staging = 2, objects = 1\<rparr>"

definition sample_candidate :: "nat candidate" where
  "sample_candidate =
     \<lparr>cand_path = 7, cand_kind = Object, size_bytes = 50, modified = 0, leased = False\<rparr>"

lemma sample_scan:
  "scan_candidates sample_paths (Some []) (Some [Some sample_entry]) sample_policy (empty_report sample_policy) =
     Inr ([sample_candidate], False, (empty_report sample_policy)\<lparr>scanned_entries := 1\<rparr>)"
proof -
  have "str_len (replicate 32 97) = 32"
    by (simp add: str_len_def char_len_utf8_def sum_list_replicate)
  then have "inspect_entry Object 1 sample_entry [] r = ([sample_candidate], r)" for r
    by (simp add: inspect_entry_def sample_entry_def sample_candidate_def scan_managed_name_def
        is_lower_hex_def list_all_iff protects_def)
  then show ?thesis
    by (simp add: scan_candidates_def scan_loop.simps any_open_def next_directory_def scan_at_def set_scan_def
        sample_paths_def sample_policy_def empty_report_def)
qed

lemma scan_is_bounded_and_safe_witness:
  "\<exists>e. Some e \<in> {Some sample_entry} \<and> candidate_of Object 1 e sample_candidate"
  using scan_is_bounded_and_safe [OF sample_scan] by (auto simp: sample_paths_def)

section \<open>What a run removes\<close>

lemma subseq_set: "subseq xs ys \<Longrightarrow> set xs \<subseteq> set ys"
  by (auto dest: list_emb_set)

lemma subseq_distinct: "subseq xs ys \<Longrightarrow> distinct ys \<Longrightarrow> distinct xs"
  by (simp add: subseqs_distinctD flip: in_set_subseqs)

lemma skip_leased_frame:
  "removals (skip_leased cs r) = removals r \<and> observed_bytes (skip_leased cs r) = observed_bytes r"
  by (induction cs arbitrary: r) auto

lemma saturating_sum_unat:
  "unat (saturating_sum xs acc) = min (2 ^ 64 - 1) (unat acc + sum_list (map unat xs))"
proof (induction xs arbitrary: acc)
  case Nil
  show ?case using unat_u64_bound [of acc] by simp
next
  case (Cons x xs)
  show ?case using Cons [of "saturating_add_u64 acc x"] by (simp add: word_std min_def)
qed

text \<open>The effect of one planned removal on the report.\<close>

definition removes :: "('p \<Rightarrow> 'p option) \<Rightarrow> 'p managed_paths \<Rightarrow> 'p candidate list \<Rightarrow> janitor_policy \<Rightarrow> int \<Rightarrow>
    plan \<Rightarrow> 'p turn \<Rightarrow> 'p ledgers \<Rightarrow> bool" where
  "removes parent paths cs policy now p w ledgers \<longleftrightarrow>
     (let c = cs ! plan_index p
      in \<not> protects (fst (turn_before w ledgers)) (cand_path c) \<and>
         (dry_run policy \<or> turn_removes w \<and>
            verify_unchanged parent c (candidate_directory paths c) now (minimum_age policy (plan_reason p)) w = Inr ()))"

lemma apply_plan_report:
  assumes "apply_plan parent paths cs policy now p w (ledgers, r) = (ledgers', r')"
  shows "if removes parent paths cs policy now p w ledgers
    then r' = add_removal (removal (cs ! plan_index p) (plan_reason p)) r
    else \<exists>why. r' = add_skip (cand_path (cs ! plan_index p)) why r"
  using assms
  by (auto simp: apply_plan_def removes_def Let_def begin_deletion_def protects_def
      split: prod.splits if_splits sum.splits)

lemma apply_plans_report:
  assumes "apply_plans parent paths cs policy now world ps (ledgers, r) = (ledgers', r')"
  shows "\<exists>gone. subseq gone ps \<and>
    removals r' = removals r @ map (\<lambda>p. removal (cs ! plan_index p) (plan_reason p)) gone \<and>
    length (skipped r') + length gone = length (skipped r) + length ps \<and>
    observed_bytes r' = observed_bytes r \<and>
    (\<forall>p \<in> set gone. \<exists>before. removes parent paths cs policy now p (world p) before)"
  using assms
proof (induction ps arbitrary: ledgers r)
  case (Cons p ps)
  obtain l1 r1 where one: "apply_plan parent paths cs policy now p (world p) (ledgers, r) = (l1, r1)"
    by (metis surj_pair)
  with Cons.prems have "apply_plans parent paths cs policy now world ps (l1, r1) = (ledgers', r')" by simp
  from Cons.IH [OF this] obtain gone where rest: "subseq gone ps"
    "removals r' = removals r1 @ map (\<lambda>p. removal (cs ! plan_index p) (plan_reason p)) gone"
    "length (skipped r') + length gone = length (skipped r1) + length ps"
    "observed_bytes r' = observed_bytes r1"
    "\<forall>p \<in> set gone. \<exists>before. removes parent paths cs policy now p (world p) before" by blast
  show ?case
  proof (cases "removes parent paths cs policy now p (world p) ledgers")
    case True
    with apply_plan_report [OF one] rest show ?thesis
      by (cases ledgers) (intro exI [of _ "p # gone"], auto simp: add_removal_def)
  next
    case False
    with apply_plan_report [OF one] rest show ?thesis
      by (intro exI [of _ gone]) (auto intro: list_emb_Cons)
  qed
qed simp

text \<open>Whatever other tasks do meanwhile, a run removes only files its scan saw, each at most once:
  none that a lease protected when scanned or when removed, each unchanged since the scan and
  old enough for its reason at both times; the bytes it reports as retained are those it
  saw less those it removed; and every plan ends in a removal or a diagnostic.\<close>

theorem run_removes_only_permissible:
  assumes "run_scan sur paths policy now ledgers = (Inr report, ledgers')"
    and "scan_candidates paths (sur_staging sur) (sur_objects sur) policy (empty_report policy) =
      Inr (candidates, limit_reached, scanned)"
  shows "\<exists>gone. removals report = map (\<lambda>p. removal (candidates ! plan_index p) (plan_reason p)) gone \<and>
    distinct (map plan_index gone) \<and>
    (\<forall>p \<in> set gone. plan_ok policy now candidates p \<and>
       (\<exists>before. removes (dv_parent (sur_fs sur)) paths candidates policy now p (sur_world sur p) before)) \<and>
    unat (retained_observed_bytes report) =
      min (2 ^ 64 - 1) (sum_list (map (unat \<circ> size_bytes) candidates)) -
      min (2 ^ 64 - 1) (sum_list (map (unat \<circ> rem_size_bytes) (removals report)))"
proof -
  let ?observed = "saturating_sum (map size_bytes candidates) 0"
  let ?plans = "plan_removals candidates policy now ?observed"
  let ?r1 = "skip_leased candidates (scanned\<lparr>scan_limit_reached := limit_reached,
    observed_files := length candidates, observed_bytes := ?observed\<rparr>)"
  obtain l2 r2 where applied: "apply_plans (dv_parent (sur_fs sur)) paths candidates policy now (sur_world sur)
      ?plans (ledgers, ?r1) = (l2, r2)" by (metis surj_pair)
  have report: "report = r2\<lparr>retained_observed_bytes := saturating_sub_u64 (observed_bytes r2)
      (saturating_sum (map rem_size_bytes (removals r2)) 0)\<rparr>"
    using assms(1) by (auto simp: run_scan_def assms(2) applied Let_def split: sum.splits)
  have "removals scanned = []"
    using assms(2) scan_loop_spec by (force simp: scan_candidates_def empty_report_def closed_empty_def
        split: option.splits sum.splits)
  with apply_plans_report [OF applied] obtain gone where gone: "subseq gone ?plans"
    "removals r2 = map (\<lambda>p. removal (candidates ! plan_index p) (plan_reason p)) gone"
    "observed_bytes r2 = ?observed"
    "\<forall>p \<in> set gone. \<exists>before. removes (dv_parent (sur_fs sur)) paths candidates policy now p (sur_world sur p) before"
    by (auto simp: skip_leased_frame)
  have ok: "\<forall>p \<in> set ?plans. plan_ok policy now candidates p" "distinct (map plan_index ?plans)"
    using plans_ok by blast+
  have "set gone \<subseteq> set ?plans" using gone(1) by (rule subseq_set)
  moreover have "distinct (map plan_index gone)"
    using subseq_distinct [OF subseq_map [OF gone(1)] ok(2)] .
  ultimately show ?thesis
    using gone ok(1)
    by (intro exI [of _ gone]) (auto simp: report saturating_sum_unat unat_saturating_sub o_def)
qed

definition sample_surroundings :: "nat surroundings" where
  "sample_surroundings =
     \<lparr>sur_fs = \<lparr>dv_metadata = (\<lambda>_. Some (True, False)), dv_canonicalize = Some,
                dv_parent = (\<lambda>p. Some (if p = 7 then 1 else 0))\<rparr>,
      sur_staging = Some [], sur_objects = Some [Some sample_entry],
      sur_world = (\<lambda>_. \<lparr>turn_before = (\<lambda>x. x), turn_metadata = Some (False, True, 50, Some 0),
                      turn_canonical = Some 7, turn_removes = True, turn_during = (\<lambda>x. x)\<rparr>)\<rparr>"

lemma sample_cleanup:
  "fst (run_scan sample_surroundings sample_paths sample_policy 100 (\<lambda>_. None, None)) =
     Inr ((empty_report sample_policy)\<lparr>scanned_entries := 1, observed_files := 1, observed_bytes := 50,
       removals := [removal sample_candidate ObjectExpired]\<rparr>)"
proof -
  have scan: "scan_candidates sample_paths (sur_staging sample_surroundings) (sur_objects sample_surroundings)
      sample_policy (empty_report sample_policy) =
      Inr ([sample_candidate], False, (empty_report sample_policy)\<lparr>scanned_entries := 1\<rparr>)"
    using sample_scan by (simp add: sample_surroundings_def)
  have "validate_paths (sur_fs sample_surroundings) sample_paths = Inr ()"
    by (simp add: validate_paths_def validate_directory_def sample_surroundings_def sample_paths_def)
  moreover have "plan_removals [sample_candidate] sample_policy 100 50 =
      [\<lparr>plan_index = 0, plan_reason = ObjectExpired\<rparr>]"
    by (simp add: plan_removals_def sample_candidate_def sample_policy_def expiry_reason_def old_enough_def
        quota_candidates_def evictable_def saturating_sub_u64_def)
  ultimately show ?thesis
    by (simp add: run_scan_def scan Let_def saturating_add_u64_def)
      (simp add: apply_plan_def verify_unchanged_def sample_surroundings_def sample_candidate_def sample_paths_def
        sample_policy_def candidate_directory_def old_enough_def begin_deletion_def permit_removed_def
        drop_permit_def empty_report_def add_removal_def removal_def saturating_add_u64_def saturating_sub_u64_def)
qed

lemma run_removes_only_permissible_witness:
  "\<exists>gone. [removal sample_candidate ObjectExpired] =
     map (\<lambda>p. removal ([sample_candidate] ! plan_index p) (plan_reason p)) gone \<and>
     (\<forall>p \<in> set gone. plan_ok sample_policy 100 [sample_candidate] p)"
proof -
  obtain ledgers' where run: "run_scan sample_surroundings sample_paths sample_policy 100 (\<lambda>_. None, None) =
      (Inr ((empty_report sample_policy)\<lparr>scanned_entries := 1, observed_files := 1, observed_bytes := 50,
         removals := [removal sample_candidate ObjectExpired]\<rparr>), ledgers')"
    using sample_cleanup by (metis prod.collapse)
  have "scan_candidates sample_paths (sur_staging sample_surroundings) (sur_objects sample_surroundings)
      sample_policy (empty_report sample_policy) =
      Inr ([sample_candidate], False, (empty_report sample_policy)\<lparr>scanned_entries := 1\<rparr>)"
    using sample_scan by (simp add: sample_surroundings_def)
  from run_removes_only_permissible [OF run this] obtain gone where
    "[removal sample_candidate ObjectExpired] =
       map (\<lambda>p. removal ([sample_candidate] ! plan_index p) (plan_reason p)) gone"
    "\<forall>p \<in> set gone. plan_ok sample_policy 100 [sample_candidate] p" by fastforce
  then show ?thesis by (intro exI [of _ gone] conjI)
qed

end
