(* ===== verification/Media_Url_Policy.thy ===== *)
theory Media_Url_Policy
  imports Track_Provenance
begin

unbundle bit_operations_syntax

text \<open>
  The network policy applied to every media URL and every redirect hop,
  \<open>crates/pepeaudio-media/src/policy.rs\<close>. The URL parser and its \<open>join\<close> are the
  third-party crate \<open>url\<close>, the resolver is the trait \<open>DnsResolver\<close>; both are arguments.
  The address predicates of the standard library are written out.
\<close>

section \<open>Addresses\<close>

datatype ipv4_addr = Ipv4 u8 u8 u8 u8
datatype ipv6_addr = Ipv6 u16 u16 u16 u16 u16 u16 u16 u16
datatype ip_addr = V4 ipv4_addr | V6 ipv6_addr

fun v4_is_private :: "ipv4_addr \<Rightarrow> bool" where
  "v4_is_private (Ipv4 a b c d) \<longleftrightarrow> a = 10 \<or> (a = 172 \<and> 16 \<le> b \<and> b \<le> 31) \<or> (a = 192 \<and> b = 168)"

fun v4_is_documentation :: "ipv4_addr \<Rightarrow> bool" where
  "v4_is_documentation (Ipv4 a b c d) \<longleftrightarrow> (a = 192 \<and> b = 0 \<and> c = 2) \<or>
     (a = 198 \<and> b = 51 \<and> c = 100) \<or> (a = 203 \<and> b = 0 \<and> c = 113)"

fun forbidden_v4 :: "ipv4_addr \<Rightarrow> bool" where
  "forbidden_v4 (Ipv4 first second third fourth) \<longleftrightarrow>
     (first = 0 \<and> second = 0 \<and> third = 0 \<and> fourth = 0) \<or>
     first = 127 \<or>
     v4_is_private (Ipv4 first second third fourth) \<or>
     (first = 169 \<and> second = 254) \<or>
     (224 \<le> first \<and> first \<le> 239) \<or>
     (first = 255 \<and> second = 255 \<and> third = 255 \<and> fourth = 255) \<or>
     v4_is_documentation (Ipv4 first second third fourth) \<or>
     first = 0 \<or>
     (first = 100 \<and> 64 \<le> second \<and> second \<le> 127) \<or>
     (first = 198 \<and> (second = 18 \<or> second = 19)) \<or>
     (first = 192 \<and> second = 0) \<or>
     (first = 192 \<and> second = 88 \<and> third = 99) \<or>
     first \<ge> 240"

text \<open>\<open>u16::to_be_bytes\<close>, and the IPv4 address in two segments.\<close>

definition high_byte :: "u16 \<Rightarrow> u8" where "high_byte s = ucast (drop_bit 8 s)"
definition low_byte :: "u16 \<Rightarrow> u8" where "low_byte s = ucast s"

definition embedded_v4 :: "u16 \<Rightarrow> u16 \<Rightarrow> ipv4_addr" where
  "embedded_v4 s t = Ipv4 (high_byte s) (low_byte s) (high_byte t) (low_byte t)"

fun to_ipv4_mapped :: "ipv6_addr \<Rightarrow> ipv4_addr option" where
  "to_ipv4_mapped (Ipv6 s0 s1 s2 s3 s4 s5 s6 s7) =
     (if s0 = 0 \<and> s1 = 0 \<and> s2 = 0 \<and> s3 = 0 \<and> s4 = 0 \<and> s5 = 0xffff then Some (embedded_v4 s6 s7)
      else None)"

fun forbidden_v6 :: "ipv6_addr \<Rightarrow> bool" where
  "forbidden_v6 (Ipv6 s0 s1 s2 s3 s4 s5 s6 s7) \<longleftrightarrow>
     (case to_ipv4_mapped (Ipv6 s0 s1 s2 s3 s4 s5 s6 s7) of
        Some mapped \<Rightarrow> forbidden_v4 mapped
      | None \<Rightarrow>
          let ipv4_compatible = (s0 = 0 \<and> s1 = 0 \<and> s2 = 0 \<and> s3 = 0 \<and> s4 = 0 \<and> s5 = 0);
              nat64_well_known = (s0 = 0x0064 \<and> s1 = 0xff9b \<and> s2 = 0 \<and> s3 = 0 \<and> s4 = 0 \<and> s5 = 0)
          in (ipv4_compatible \<and> s6 = 0 \<and> s7 = 0) \<or>
             (ipv4_compatible \<and> s6 = 0 \<and> s7 = 1) \<or>
             (s0 AND 0xff00) = 0xff00 \<or>
             (s0 AND 0xfe00) = 0xfc00 \<or>
             (s0 AND 0xffc0) = 0xfe80 \<or>
             (s0 AND 0xffc0) = 0xfec0 \<or>
             (s0 = 0x2001 \<and> s1 = 0x0db8) \<or>
             (s0 = 0x0100 \<and> s1 = 0 \<and> s2 = 0 \<and> s3 = 0) \<or>
             ipv4_compatible \<or>
             (nat64_well_known \<and> forbidden_v4 (embedded_v4 s6 s7)) \<or>
             (s0 = 0x0064 \<and> s1 = 0xff9b \<and> s2 = 1) \<or>
             (s0 = 0x2002 \<and> forbidden_v4 (embedded_v4 s1 s2)) \<or>
             (s0 = 0x2001 \<and> s1 = 0) \<or>
             (s0 = 0x2001 \<and> s1 = 2) \<or>
             (s0 = 0x2001 \<and> (s1 AND 0xfff0) = 0x0020))"

fun is_forbidden_ip :: "ip_addr \<Rightarrow> bool" where
  "is_forbidden_ip (V4 address) = forbidden_v4 address"
| "is_forbidden_ip (V6 address) = forbidden_v6 address"

section \<open>URLs\<close>

datatype host = HostIpv4 ipv4_addr | HostIpv6 ipv6_addr | HostDomain rstring

record http_url = url +
  url_host :: "host option"
  url_port_or_known_default :: "u16 option"

datatype url_policy_error =
  TooLong nat | Malformed | UnsupportedScheme | UserInfo | Fragment | MissingAuthority
  | EmptyDnsAnswer | TooManyDnsAnswers | ForbiddenAddress | Dns | DnsTimeout nat | InsecureRedirect

definition MAX_DNS_ADDRESSES :: nat where "MAX_DNS_ADDRESSES = 32"

text \<open>\<open>TokioDnsResolver\<close> keeps one answer more than the limit, so that an excess shows.\<close>

definition tokio_resolve :: "'a list option \<Rightarrow> url_policy_error + 'a list" where
  "tokio_resolve lookup =
     (case lookup of None \<Rightarrow> Inl Dns | Some addresses \<Rightarrow> Inr (take (MAX_DNS_ADDRESSES + 1) addresses))"

record url_guard =
  max_url_bytes :: nat
  dns_timeout :: nat

text \<open>
  What the guard asks of its surroundings: the parser, the join of a base with a
  location, whether a deadline exists at all, and the answer of the resolver, \<open>None\<close>
  when the deadline passes first.
\<close>

record url_services =
  svc_parse :: "rstring \<Rightarrow> http_url option"
  svc_join :: "http_url \<Rightarrow> rstring \<Rightarrow> http_url option"
  svc_deadline :: "nat \<Rightarrow> bool"
  svc_resolve :: "rstring \<Rightarrow> (url_policy_error + ip_addr list) option"

text \<open>The code points of colon, slash, backslash, question mark, hash and at sign.\<close>

definition is_slash :: "rchar \<Rightarrow> bool" where "is_slash c \<longleftrightarrow> c = 0x2f \<or> c = 0x5c"
definition ends_authority :: "rchar \<Rightarrow> bool" where
  "ends_authority c \<longleftrightarrow> is_slash c \<or> c = 0x3f \<or> c = 0x23"

definition authority_has_userinfo :: "rstring \<Rightarrow> bool" where
  "authority_has_userinfo rest \<longleftrightarrow>
     0x40 \<in> set (takeWhile (\<lambda>c. \<not> ends_authority c) (dropWhile is_slash rest))"

definition raw_has_userinfo_marker :: "rstring \<Rightarrow> bool" where
  "raw_has_userinfo_marker raw =
     (if 0x3a \<in> set raw then authority_has_userinfo (tl (dropWhile (\<lambda>c. c \<noteq> 0x3a) raw))
      else if take 2 raw = [0x2f, 0x2f] \<or> take 2 raw = [0x5c, 0x5c] then authority_has_userinfo raw
      else False)"

definition validate_parsed :: "url_guard \<Rightarrow> http_url \<Rightarrow> url_policy_error + unit" where
  "validate_parsed guard u =
     (if str_len (url_string u) > max_url_bytes guard then Inl (TooLong (max_url_bytes guard))
      else if url_scheme u \<noteq> str ''http'' \<and> url_scheme u \<noteq> str ''https'' then Inl UnsupportedScheme
      else if url_username u \<noteq> [] \<or> url_password u \<noteq> None then Inl UserInfo
      else if url_fragment u \<noteq> None then Inl Fragment
      else if url_host u = None \<or> url_port_or_known_default u = None then Inl MissingAuthority
      else Inr ())"

definition parse_url :: "url_services \<Rightarrow> url_guard \<Rightarrow> rstring \<Rightarrow> url_policy_error + http_url" where
  "parse_url svc guard raw =
     (if str_len raw > max_url_bytes guard then Inl (TooLong (max_url_bytes guard))
      else if raw_has_userinfo_marker raw then Inl UserInfo
      else case svc_parse svc raw of
        None \<Rightarrow> Inl Malformed
      | Some u \<Rightarrow> (case validate_parsed guard u of Inl e \<Rightarrow> Inl e | Inr _ \<Rightarrow> Inr u))"

definition join_url ::
  "url_services \<Rightarrow> url_guard \<Rightarrow> http_url \<Rightarrow> rstring \<Rightarrow> url_policy_error + rstring" where
  "join_url svc guard base location =
     (if str_len location > max_url_bytes guard then Inl (TooLong (max_url_bytes guard))
      else if raw_has_userinfo_marker location then Inl UserInfo
      else case svc_join svc base location of
        None \<Rightarrow> Inl Malformed
      | Some joined \<Rightarrow> (case validate_parsed guard joined of
          Inl e \<Rightarrow> Inl e
        | Inr _ \<Rightarrow>
            if url_scheme base = str ''https'' \<and> url_scheme joined = str ''http''
            then Inl InsecureRedirect else Inr (url_string joined)))"

section \<open>Approval\<close>

record approved_url =
  ap_url :: http_url
  ap_domain :: "rstring option"
  ap_addresses :: "(ip_addr \<times> u16) list"

text \<open>\<open>filter(|address| unique.insert(*address))\<close>: the first occurrences.\<close>

fun unique_from :: "'a list \<Rightarrow> 'a list \<Rightarrow> 'a list" where
  "unique_from seen [] = []"
| "unique_from seen (x # xs) =
     (if x \<in> set seen then unique_from seen xs else x # unique_from (x # seen) xs)"

definition host_addresses ::
  "url_services \<Rightarrow> url_guard \<Rightarrow> host option \<Rightarrow> url_policy_error + rstring option \<times> ip_addr list" where
  "host_addresses svc guard h =
     (case h of
        Some (HostIpv4 address) \<Rightarrow> Inr (None, [V4 address])
      | Some (HostIpv6 address) \<Rightarrow> Inr (None, [V6 address])
      | Some (HostDomain domain) \<Rightarrow>
          if domain = [] then Inl MissingAuthority
          else if \<not> svc_deadline svc (dns_timeout guard) then Inl (DnsTimeout (dns_timeout guard))
          else (case svc_resolve svc domain of
            None \<Rightarrow> Inl (DnsTimeout (dns_timeout guard))
          | Some (Inl e) \<Rightarrow> Inl e
          | Some (Inr answers) \<Rightarrow> Inr (Some domain, answers))
      | None \<Rightarrow> Inl MissingAuthority)"

definition approve :: "url_services \<Rightarrow> url_guard \<Rightarrow> rstring \<Rightarrow> url_policy_error + approved_url" where
  "approve svc guard raw =
     (case parse_url svc guard raw of Inl e \<Rightarrow> Inl e | Inr u \<Rightarrow>
       (case url_port_or_known_default u of None \<Rightarrow> Inl MissingAuthority | Some port \<Rightarrow>
         (case host_addresses svc guard (url_host u) of Inl e \<Rightarrow> Inl e | Inr (domain, answers) \<Rightarrow>
           let addresses = unique_from [] answers
           in if addresses = [] then Inl EmptyDnsAnswer
              else if length addresses > MAX_DNS_ADDRESSES then Inl TooManyDnsAnswers
              else if list_ex is_forbidden_ip addresses then Inl ForbiddenAddress
              else Inr \<lparr>ap_url = u, ap_domain = domain,
                         ap_addresses = map (\<lambda>address. (address, port)) addresses\<rparr>)))"

section \<open>Unique answers\<close>

lemma set_unique_from: "set (unique_from seen xs) = set xs - set seen"
  by (induction xs arbitrary: seen) auto

lemma distinct_unique_from: "distinct (unique_from seen xs)"
  by (induction xs arbitrary: seen) (auto simp: set_unique_from)

section \<open>The blocked ranges\<close>

text \<open>An IPv4 address as a number, and the special-purpose ranges by their bounds.\<close>

fun v4_number :: "ipv4_addr \<Rightarrow> nat" where
  "v4_number (Ipv4 a b c d) = ((unat a * 256 + unat b) * 256 + unat c) * 256 + unat d"

definition cidr :: "nat \<Rightarrow> nat \<Rightarrow> nat \<Rightarrow> nat \<Rightarrow> nat \<Rightarrow> nat \<times> nat" where
  "cidr a b c d bits = (let base = ((a * 256 + b) * 256 + c) * 256 + d in (base, base + 2 ^ (32 - bits) - 1))"

definition v4_special_ranges :: "(nat \<times> nat) list" where
  "v4_special_ranges =
     [cidr 0 0 0 0 8, cidr 10 0 0 0 8, cidr 100 64 0 0 10, cidr 127 0 0 0 8, cidr 169 254 0 0 16,
      cidr 172 16 0 0 12, cidr 192 0 0 0 16, cidr 192 88 99 0 24, cidr 192 168 0 0 16,
      cidr 198 18 0 0 15, cidr 198 51 100 0 24, cidr 203 0 113 0 24, cidr 224 0 0 0 4,
      cidr 240 0 0 0 4]"

lemma u8_less: "unat (x :: u8) < 256"
  using unsigned_less [of x] by simp

text \<open>Each range, over the octets as numbers.\<close>

definition in_cidr :: "nat \<times> nat \<Rightarrow> nat \<Rightarrow> bool" where
  "in_cidr block n \<longleftrightarrow> fst block \<le> n \<and> n \<le> snd block"

lemma cidr_block:
  assumes "((k * 256 + l) * 256 + m) * 256 = base * unit" and "2 ^ (32 - bits) = width * unit"
    and "r < unit" and "0 < width"
  shows "in_cidr (cidr k l m 0 bits) (h * unit + r) \<longleftrightarrow> base \<le> h \<and> h < base + width"
proof -
  have unit: "0 < unit" using assms(3) by simp
  then have "(h * unit + r) div unit = h" using assms(3) by simp
  then have "base * unit \<le> h * unit + r \<longleftrightarrow> base \<le> h"
    and "h * unit + r < (base + width) * unit \<longleftrightarrow> h < base + width"
    using less_eq_div_iff_mult_less_eq [OF unit, of base "h * unit + r"]
      div_less_iff_less_mult [OF unit, of "h * unit + r" "base + width"] by simp_all
  moreover have "x \<le> base * unit + width * unit - 1 \<longleftrightarrow> x < (base + width) * unit" for x
  proof -
    have "0 < base * unit + width * unit" using unit assms(4) by simp
    then show ?thesis by (simp only: distrib_right) linarith
  qed
  ultimately show ?thesis
    using assms(1,2) by (simp add: in_cidr_def cidr_def Let_def)
qed

lemma pair_block:
  assumes "b < 256" and "l + width \<le> (256 :: nat)"
  shows "k * 256 + l \<le> a * 256 + b \<and> a * 256 + b < k * 256 + l + width \<longleftrightarrow> a = k \<and> l \<le> b \<and> b < l + width"
proof -
  consider "Suc a \<le> k" | "a = k" | "Suc k \<le> a" by linarith
  then show ?thesis
  proof cases
    case 1
    then have "Suc a * 256 \<le> k * 256" by (rule mult_le_mono1)
    then show ?thesis using assms 1 by auto
  next
    case 3
    then have "Suc k * 256 \<le> a * 256" by (rule mult_le_mono1)
    then show ?thesis using assms 3 by auto
  qed auto
qed

lemma in_cidr_simps:
  assumes "a < 256" and "b < 256" and "c < 256" and "d < (256 :: nat)"
  defines "n \<equiv> ((a * 256 + b) * 256 + c) * 256 + d"
  shows "in_cidr (cidr k 0 0 0 8) n \<longleftrightarrow> a = k"
    and "in_cidr (cidr k 0 0 0 4) n \<longleftrightarrow> k \<le> a \<and> a < k + 16"
    and "l < 256 \<Longrightarrow> in_cidr (cidr k l 0 0 16) n \<longleftrightarrow> a = k \<and> b = l"
    and "l + 2 \<le> 256 \<Longrightarrow> in_cidr (cidr k l 0 0 15) n \<longleftrightarrow> a = k \<and> l \<le> b \<and> b < l + 2"
    and "l + 16 \<le> 256 \<Longrightarrow> in_cidr (cidr k l 0 0 12) n \<longleftrightarrow> a = k \<and> l \<le> b \<and> b < l + 16"
    and "l + 64 \<le> 256 \<Longrightarrow> in_cidr (cidr k l 0 0 10) n \<longleftrightarrow> a = k \<and> l \<le> b \<and> b < l + 64"
    and "l < 256 \<Longrightarrow> m < 256 \<Longrightarrow> in_cidr (cidr k l m 0 24) n \<longleftrightarrow> a = k \<and> b = l \<and> c = m"
proof -
  have n8: "n = a * 2 ^ 24 + ((b * 256 + c) * 256 + d)" and r8: "(b * 256 + c) * 256 + d < 2 ^ 24"
    and n16: "n = (a * 256 + b) * 2 ^ 16 + (c * 256 + d)" and r16: "c * 256 + d < 2 ^ 16"
    and n24: "n = ((a * 256 + b) * 256 + c) * 2 ^ 8 + d" and r24: "d < 2 ^ 8"
    using assms(1-4) by (simp_all add: n_def)
  show "in_cidr (cidr k 0 0 0 8) n \<longleftrightarrow> a = k"
    unfolding n8 by (subst cidr_block [of _ _ _ k "2 ^ 24" _ 1, OF _ _ r8]) auto
  show "in_cidr (cidr k 0 0 0 4) n \<longleftrightarrow> k \<le> a \<and> a < k + 16"
    unfolding n8 by (subst cidr_block [of _ _ _ k "2 ^ 24" _ 16, OF _ _ r8]) auto
  show "in_cidr (cidr k l 0 0 16) n \<longleftrightarrow> a = k \<and> b = l" if "l < 256"
    unfolding n16
    by (subst cidr_block [of _ _ _ "k * 256 + l" "2 ^ 16" _ 1, OF _ _ r16])
      (use pair_block [OF assms(2), of l 1 k a] that in auto)
  show "in_cidr (cidr k l 0 0 15) n \<longleftrightarrow> a = k \<and> l \<le> b \<and> b < l + 2" if "l + 2 \<le> 256"
    unfolding n16
    by (subst cidr_block [of _ _ _ "k * 256 + l" "2 ^ 16" _ 2, OF _ _ r16])
      (use pair_block [OF assms(2), of l 2 k a] that in auto)
  show "in_cidr (cidr k l 0 0 12) n \<longleftrightarrow> a = k \<and> l \<le> b \<and> b < l + 16" if "l + 16 \<le> 256"
    unfolding n16
    by (subst cidr_block [of _ _ _ "k * 256 + l" "2 ^ 16" _ 16, OF _ _ r16])
      (use pair_block [OF assms(2), of l 16 k a] that in auto)
  show "in_cidr (cidr k l 0 0 10) n \<longleftrightarrow> a = k \<and> l \<le> b \<and> b < l + 64" if "l + 64 \<le> 256"
    unfolding n16
    by (subst cidr_block [of _ _ _ "k * 256 + l" "2 ^ 16" _ 64, OF _ _ r16])
      (use pair_block [OF assms(2), of l 64 k a] that in auto)
  show "in_cidr (cidr k l m 0 24) n \<longleftrightarrow> a = k \<and> b = l \<and> c = m" if "l < 256" "m < 256"
    unfolding n24
    by (subst cidr_block [of _ _ _ "(k * 256 + l) * 256 + m" "2 ^ 8" _ 1, OF _ _ r24])
      (use pair_block [OF assms(3), of m 1 "k * 256 + l" "a * 256 + b"]
         pair_block [OF assms(2), of l 1 k a] that in auto)
qed

lemma v4_conditions:
  fixes a b c d :: nat
  shows "(a = 0 \<and> b = 0 \<and> c = 0 \<and> d = 0 \<or>
     a = 127 \<or> a = 10 \<or> a = 172 \<and> 16 \<le> b \<and> b \<le> 31 \<or> a = 192 \<and> b = 168 \<or>
     a = 169 \<and> b = 254 \<or> 224 \<le> a \<and> a \<le> 239 \<or>
     a = 255 \<and> b = 255 \<and> c = 255 \<and> d = 255 \<or>
     a = 192 \<and> b = 0 \<and> c = 2 \<or> a = 198 \<and> b = 51 \<and> c = 100 \<or> a = 203 \<and> b = 0 \<and> c = 113 \<or>
     a = 0 \<or> a = 100 \<and> 64 \<le> b \<and> b \<le> 127 \<or> a = 198 \<and> (b = 18 \<or> b = 19) \<or>
     a = 192 \<and> b = 0 \<or> a = 192 \<and> b = 88 \<and> c = 99 \<or> 240 \<le> a) =
    (a = 0 \<or> a = 10 \<or> a = 100 \<and> 64 \<le> b \<and> b < 128 \<or> a = 127 \<or> a = 169 \<and> b = 254 \<or>
     a = 172 \<and> 16 \<le> b \<and> b < 32 \<or> a = 192 \<and> b = 0 \<or> a = 192 \<and> b = 88 \<and> c = 99 \<or>
     a = 192 \<and> b = 168 \<or> a = 198 \<and> 18 \<le> b \<and> b < 20 \<or> a = 198 \<and> b = 51 \<and> c = 100 \<or>
     a = 203 \<and> b = 0 \<and> c = 113 \<or> 224 \<le> a \<and> a < 240 \<or> 240 \<le> a)"
  by (rule iffI; elim disjE; simp; linarith?)

text \<open>The IPv4 addresses refused are exactly those of the fourteen special-purpose ranges
  of the block list, compared as numbers.\<close>

theorem forbidden_v4_is_blocklist:
  "forbidden_v4 address \<longleftrightarrow>
     list_ex (\<lambda>block. in_cidr block (v4_number address)) v4_special_ranges"
proof (cases address)
  case (Ipv4 a b c d)
  have octets: "x = y \<longleftrightarrow> unat x = unat y" "x \<le> y \<longleftrightarrow> unat x \<le> unat y" for x y :: u8
    by (simp_all add: word_unat_eq_iff word_le_nat_alt)
  note bounds = u8_less [of a] u8_less [of b] u8_less [of c] u8_less [of d]
  define n where "n = ((unat a * 256 + unat b) * 256 + unat c) * 256 + unat d"
  note blocks = in_cidr_simps [OF bounds, folded n_def]
  have "list_ex (\<lambda>block. in_cidr block (v4_number address)) v4_special_ranges \<longleftrightarrow>
      unat a = 0 \<or> unat a = 10 \<or> (unat a = 100 \<and> 64 \<le> unat b \<and> unat b < 128) \<or> unat a = 127 \<or>
      (unat a = 169 \<and> unat b = 254) \<or> (unat a = 172 \<and> 16 \<le> unat b \<and> unat b < 32) \<or>
      (unat a = 192 \<and> unat b = 0) \<or> (unat a = 192 \<and> unat b = 88 \<and> unat c = 99) \<or>
      (unat a = 192 \<and> unat b = 168) \<or> (unat a = 198 \<and> 18 \<le> unat b \<and> unat b < 20) \<or>
      (unat a = 198 \<and> unat b = 51 \<and> unat c = 100) \<or> (unat a = 203 \<and> unat b = 0 \<and> unat c = 113) \<or>
      (224 \<le> unat a \<and> unat a < 240) \<or> 240 \<le> unat a"
    unfolding Ipv4 v4_special_ranges_def v4_number.simps n_def [symmetric]
    using bounds(1) by (simp add: blocks)
  moreover have "forbidden_v4 address \<longleftrightarrow>
      (unat a = 0 \<and> unat b = 0 \<and> unat c = 0 \<and> unat d = 0 \<or>
     unat a = 127 \<or> unat a = 10 \<or> unat a = 172 \<and> 16 \<le> unat b \<and> unat b \<le> 31 \<or> unat a = 192 \<and> unat b = 168 \<or>
     unat a = 169 \<and> unat b = 254 \<or> 224 \<le> unat a \<and> unat a \<le> 239 \<or>
     unat a = 255 \<and> unat b = 255 \<and> unat c = 255 \<and> unat d = 255 \<or>
     unat a = 192 \<and> unat b = 0 \<and> unat c = 2 \<or> unat a = 198 \<and> unat b = 51 \<and> unat c = 100 \<or> unat a = 203 \<and> unat b = 0 \<and> unat c = 113 \<or>
     unat a = 0 \<or> unat a = 100 \<and> 64 \<le> unat b \<and> unat b \<le> 127 \<or> unat a = 198 \<and> (unat b = 18 \<or> unat b = 19) \<or>
     unat a = 192 \<and> unat b = 0 \<or> unat a = 192 \<and> unat b = 88 \<and> unat c = 99 \<or> 240 \<le> unat a)"
    unfolding Ipv4 forbidden_v4.simps v4_is_private.simps v4_is_documentation.simps octets by simp
  ultimately show ?thesis by (simp only: v4_conditions)
qed

section \<open>What an approval guarantees\<close>

lemma validate_parsed_ok:
  "validate_parsed guard u = Inr x \<longleftrightarrow> str_len (url_string u) \<le> max_url_bytes guard \<and>
     (url_scheme u = str ''http'' \<or> url_scheme u = str ''https'') \<and> url_username u = [] \<and>
     url_password u = None \<and> url_fragment u = None \<and> url_host u \<noteq> None \<and>
     url_port_or_known_default u \<noteq> None"
  by (simp add: validate_parsed_def linorder_not_less)

lemma parse_url_ok:
  "parse_url svc guard raw = Inr u \<longleftrightarrow> str_len raw \<le> max_url_bytes guard \<and>
     \<not> raw_has_userinfo_marker raw \<and> svc_parse svc raw = Some u \<and> validate_parsed guard u = Inr ()"
  by (auto simp: parse_url_def split: option.splits sum.splits if_splits)

definition literal_addresses :: "host \<Rightarrow> ip_addr list" where
  "literal_addresses h = (case h of HostIpv4 a \<Rightarrow> [V4 a] | HostIpv6 a \<Rightarrow> [V6 a] | HostDomain _ \<Rightarrow> [])"

text \<open>C37: An approved URL is plain http or https without credentials or fragment, and every
  address it may be fetched from is one inspected for this very hop: the literal of the URL
  or an answer of the resolver, at most thirty-two, distinct, none in a blocked range.\<close>

theorem approved_addresses_are_inspected:
  assumes "approve svc guard raw = Inr ap"
  shows "(url_scheme (ap_url ap) = str ''http'' \<or> url_scheme (ap_url ap) = str ''https'') \<and>
    url_username (ap_url ap) = [] \<and> url_password (ap_url ap) = None \<and> url_fragment (ap_url ap) = None \<and>
    ap_addresses ap \<noteq> [] \<and> length (ap_addresses ap) \<le> MAX_DNS_ADDRESSES \<and> distinct (ap_addresses ap) \<and>
    (\<forall>(address, port) \<in> set (ap_addresses ap). \<not> is_forbidden_ip address \<and>
       url_port_or_known_default (ap_url ap) = Some port \<and>
       (\<exists>h. url_host (ap_url ap) = Some h \<and> (address \<in> set (literal_addresses h) \<or>
          (\<exists>domain answers. h = HostDomain domain \<and> svc_resolve svc domain = Some (Inr answers) \<and>
             address \<in> set answers))))"
proof -
  from assms obtain u where u: "parse_url svc guard raw = Inr u"
    by (auto simp: approve_def split: sum.splits)
  with assms obtain port where port: "url_port_or_known_default u = Some port"
    by (auto simp: approve_def split: option.splits)
  with assms u obtain domain answers where answers: "host_addresses svc guard (url_host u) = Inr (domain, answers)"
    by (auto simp: approve_def split: sum.splits)
  let ?addresses = "unique_from [] answers"
  have checks: "?addresses \<noteq> []" "length ?addresses \<le> MAX_DNS_ADDRESSES" "\<not> list_ex is_forbidden_ip ?addresses"
    and ap: "ap = \<lparr>ap_url = u, ap_domain = domain, ap_addresses = map (\<lambda>address. (address, port)) ?addresses\<rparr>"
    using assms u port answers by (auto simp: approve_def Let_def split: if_splits)
  have origin: "\<exists>h. url_host u = Some h \<and> (address \<in> set (literal_addresses h) \<or>
        (\<exists>domain answers. h = HostDomain domain \<and> svc_resolve svc domain = Some (Inr answers) \<and>
           address \<in> set answers))" if "address \<in> set answers" for address
    using answers that
    by (auto simp: host_addresses_def literal_addresses_def split: option.splits host.splits
        if_splits sum.splits)
  have "validate_parsed guard u = Inr ()" using u by (simp add: parse_url_ok)
  moreover have "distinct (ap_addresses ap)"
    by (simp add: ap distinct_map distinct_unique_from inj_on_def)
  moreover have "\<forall>(address, p) \<in> set (ap_addresses ap). \<not> is_forbidden_ip address \<and> p = port \<and>
      address \<in> set answers"
    using checks(3) by (auto simp: ap set_unique_from list_ex_iff)
  ultimately show ?thesis
    using checks(1,2) port origin by (fastforce simp: validate_parsed_ok ap)
qed

definition sample_url :: http_url where
  "sample_url = \<lparr>url_scheme = str ''https'', url_username = [], url_password = None,
     url_host_str = Some (str ''a.b''), url_port = None, url_path = [47],
     url_path_segments = Some [[]], url_query = None, url_query_pairs = [], url_fragment = None,
     url_string = [97], url_host = Some (HostDomain (str ''a.b'')),
     url_port_or_known_default = Some 443\<rparr>"

definition sample_services :: url_services where
  "sample_services = \<lparr>svc_parse = (\<lambda>_. Some sample_url), svc_join = (\<lambda>_ _. Some sample_url),
     svc_deadline = (\<lambda>_. True),
     svc_resolve = (\<lambda>_. Some (Inr [V4 (Ipv4 8 8 8 8), V4 (Ipv4 8 8 4 4), V4 (Ipv4 8 8 8 8)]))\<rparr>"

definition sample_guard :: url_guard where
  "sample_guard = \<lparr>max_url_bytes = 100, dns_timeout = 1\<rparr>"

lemmas sample_approval_simps = approve_def parse_url_def join_url_def validate_parsed_def
  host_addresses_def raw_has_userinfo_marker_def sample_services_def sample_guard_def sample_url_def
  str_def char_len_utf8_def Let_def MAX_DNS_ADDRESSES_def

lemma approved_addresses_are_inspected_witness:
  "\<exists>ap. approve sample_services sample_guard [97] = Inr ap \<and>
     length (ap_addresses ap) = 2 \<and> distinct (ap_addresses ap)"
proof -
  let ?result = "approve sample_services sample_guard [97]"
  have "\<not> isl ?result" "length (ap_addresses (projr ?result)) = 2"
    by (simp_all add: sample_approval_simps)
  then have "?result = Inr (projr ?result)" "length (ap_addresses (projr ?result)) = 2"
    by (cases ?result; simp)+
  then show ?thesis using approved_addresses_are_inspected by metis
qed

text \<open>A redirect is followed only to a URL that passes the same syntactic policy, and never
  from https to http.\<close>

theorem redirects_never_downgrade:
  assumes "join_url svc guard base location = Inr target"
  shows "\<exists>joined. svc_join svc base location = Some joined \<and> target = url_string joined \<and>
    (url_scheme joined = str ''http'' \<or> url_scheme joined = str ''https'') \<and>
    (url_scheme base = str ''https'' \<longrightarrow> url_scheme joined = str ''https'') \<and>
    url_username joined = [] \<and> url_password joined = None \<and> url_fragment joined = None \<and>
    str_len target \<le> max_url_bytes guard"
  using assms
  by (auto simp: join_url_def validate_parsed_ok split: if_splits option.splits sum.splits)

lemma redirects_never_downgrade_witness:
  "\<exists>target. join_url sample_services sample_guard sample_url [97] = Inr target \<and>
     str_len target \<le> 100"
proof -
  have "\<not> isl (join_url sample_services sample_guard sample_url [97])"
    by (simp add: sample_approval_simps)
  then obtain target where target: "join_url sample_services sample_guard sample_url [97] = Inr target"
    by (cases "join_url sample_services sample_guard sample_url [97]") auto
  show ?thesis using redirects_never_downgrade [OF target] target by (auto simp: sample_guard_def)
qed

text \<open>Credentials in the authority of a raw URL are found whatever slashes introduce it: a
  scheme, a colon, slashes of either kind and a part with an at sign before the next
  delimiter are always refused.\<close>

theorem userinfo_marker_found:
  assumes "0x3a \<notin> set scheme" and "\<forall>c \<in> set slashes. is_slash c"
    and "\<forall>c \<in> set user. \<not> ends_authority c" and "0x40 \<in> set user"
  shows "raw_has_userinfo_marker (scheme @ [0x3a] @ slashes @ user @ rest) \<and>
    parse_url svc guard (scheme @ [0x3a] @ slashes @ user @ rest) \<noteq> Inr u"
proof -
  obtain c cs where user: "user = c # cs" using assms(4) by (cases user) auto
  have "\<not> is_slash c" using assms(3) user by (auto simp: ends_authority_def)
  then have "dropWhile is_slash (slashes @ user @ rest) = user @ rest"
    using assms(2) user by (simp add: dropWhile_append2)
  moreover have "takeWhile (\<lambda>c. \<not> ends_authority c) (user @ rest) =
      user @ takeWhile (\<lambda>c. \<not> ends_authority c) rest"
    using assms(3) by (simp add: takeWhile_append2)
  moreover have "tl (dropWhile (\<lambda>c. c \<noteq> 0x3a) (scheme @ [0x3a] @ slashes @ user @ rest)) =
      slashes @ user @ rest"
    using assms(1) by (subst dropWhile_append2) auto
  ultimately have "raw_has_userinfo_marker (scheme @ [0x3a] @ slashes @ user @ rest)"
    using assms(4) by (simp add: raw_has_userinfo_marker_def authority_has_userinfo_def)
  then show ?thesis by (simp add: parse_url_ok)
qed

lemma userinfo_marker_found_witness: "raw_has_userinfo_marker (str ''http:///u@h/'')"
  using userinfo_marker_found [of "str ''http''" "str ''///''" "str ''u@h''" "str ''/''"]
  by (simp add: str_def is_slash_def ends_authority_def of_char_def)

end
