(* ===== verification/Media_Site.thy ===== *)
theory Media_Site
  imports Media_Url_Policy
begin

text \<open>
  Provider pages, media requests and the headers a provider may ask for:
  \<open>crates/pepeaudio-media/src/site/model.rs\<close>, \<open>model.rs\<close> and \<open>headers.rs\<close>. The URL
  parser is the third-party crate \<open>url\<close>, an argument; a path is a string.
\<close>

section \<open>Providers\<close>

text \<open>The question mark operator: a successful result means every step succeeded.\<close>

lemma question_mark:
  "(case r of Inl e \<Rightarrow> Inl (g e) | Inr x \<Rightarrow> f x) = Inr y \<longleftrightarrow> (\<exists>x. r = Inr x \<and> f x = Inr y)"
  "(case m of None \<Rightarrow> Inl d | Some x \<Rightarrow> f x) = Inr y \<longleftrightarrow> (\<exists>x. m = Some x \<and> f x = Inr y)"
  "(if b then Inl d else z) = Inr y \<longleftrightarrow> \<not> b \<and> z = Inr y"
  by (auto split: sum.splits option.splits)

text \<open>\<open>Result::ok\<close>.\<close>

definition result_ok :: "'e + 'a \<Rightarrow> 'a option" where
  "result_ok r = (case r of Inl _ \<Rightarrow> None | Inr x \<Rightarrow> Some x)"

lemma result_ok_Some [simp]: "result_ok r = Some x \<longleftrightarrow> r = Inr x"
  by (simp add: result_ok_def split: sum.splits)

lemma result_ok_None [simp]: "result_ok r = None \<longleftrightarrow> (\<exists>e. r = Inl e)"
  by (simp add: result_ok_def split: sum.splits)

datatype site_provider = SiteYouTube | SiteSoundCloud

datatype process_error =
  ProcInvalidConfig | ProcSpawn | ProcPipe | ProcTimeout | ProcOutputTooLarge | ProcExit "int option"
  | ProcMediaUnavailable | ProcInvalidProbe | ProcNoAudioStream | ProcMissingStdout | ProcLifecycle

datatype site_error =
  SiteInvalidConfig | UnsupportedToolVersion | SiteInvalidUrl | PlaylistTooLarge nat | InvalidMetadata
  | UnsupportedStream | DurationLimit | UnsafeHeader | InvalidSearch | NoSearchMatch | SiteProcess process_error

fun site_error_from_process :: "process_error \<Rightarrow> site_error" where
  "site_error_from_process ProcMediaUnavailable = UnsupportedStream"
| "site_error_from_process e = SiteProcess e"

definition HARD_MAX_PLAYLIST_ITEMS :: nat where "HARD_MAX_PLAYLIST_ITEMS = 100"
definition MAX_PAGE_URL_BYTES :: nat where "MAX_PAGE_URL_BYTES = 4096"

definition trim_end_dots :: "rstring \<Rightarrow> rstring" where
  "trim_end_dots host = rev (dropWhile (\<lambda>c. c = 0x2e) (rev host))"

definition ends_with :: "rstring \<Rightarrow> rstring \<Rightarrow> bool" where
  "ends_with s suffix \<longleftrightarrow> length suffix \<le> length s \<and> drop (length s - length suffix) s = suffix"

fun accepts_page_host :: "site_provider \<Rightarrow> rstring \<Rightarrow> bool" where
  "accepts_page_host SiteYouTube host =
     (trim_end_dots host \<in> {str ''youtube.com'', str ''www.youtube.com'', str ''m.youtube.com'',
        str ''music.youtube.com'', str ''youtu.be''})"
| "accepts_page_host SiteSoundCloud host =
     (trim_end_dots host \<in> {str ''soundcloud.com'', str ''www.soundcloud.com'', str ''m.soundcloud.com'',
        str ''on.soundcloud.com''})"

fun accepts_media_host :: "site_provider \<Rightarrow> rstring \<Rightarrow> bool" where
  "accepts_media_host SiteYouTube host =
     (trim_end_dots host = str ''googlevideo.com'' \<or> ends_with (trim_end_dots host) (str ''.googlevideo.com''))"
| "accepts_media_host SiteSoundCloud host =
     (trim_end_dots host = str ''sndcdn.com'' \<or> ends_with (trim_end_dots host) (str ''.sndcdn.com''))"

fun extractor_allowlist :: "site_provider \<Rightarrow> rstring" where
  "extractor_allowlist SiteYouTube = str ''youtube.*,end''"
| "extractor_allowlist SiteSoundCloud = str ''soundcloud.*,end''"

fun search_prefix :: "site_provider \<Rightarrow> rstring" where
  "search_prefix SiteYouTube = str ''ytsearch5:''"
| "search_prefix SiteSoundCloud = str ''scsearch5:''"

fun single_search_prefix :: "site_provider \<Rightarrow> rstring" where
  "single_search_prefix SiteYouTube = str ''ytsearch1:''"
| "single_search_prefix SiteSoundCloud = str ''scsearch1:''"

fun format_selector :: "site_provider \<Rightarrow> rstring" where
  "format_selector SiteYouTube = str ''bestaudio[protocol=https][vcodec=none][acodec!=none]''"
| "format_selector SiteSoundCloud = str ''bestaudio[protocol=http][vcodec=none][acodec!=none]''"

type_synonym http_parser = "rstring \<Rightarrow> http_url option"

text \<open>The checks shared by pages, media URLs and header origins.\<close>

definition plain_https :: "http_url \<Rightarrow> bool" where
  "plain_https u \<longleftrightarrow> url_scheme u = str ''https'' \<and> url_username u = [] \<and> url_password u = None \<and>
     url_port_or_known_default u = Some 443"

definition classify :: "http_parser \<Rightarrow> rstring \<Rightarrow> site_error + site_provider option" where
  "classify parse raw =
     (if str_len raw > MAX_PAGE_URL_BYTES \<or> has_control raw then Inl SiteInvalidUrl
      else case parse raw of
        None \<Rightarrow> Inl SiteInvalidUrl
      | Some u \<Rightarrow>
          if \<not> plain_https u \<or> url_fragment u \<noteq> None then Inl SiteInvalidUrl
          else (case url_host_str u of
            None \<Rightarrow> Inl SiteInvalidUrl
          | Some host \<Rightarrow> Inr (find (\<lambda>provider. accepts_page_host provider host) [SiteYouTube, SiteSoundCloud])))"

definition nonempty_segments :: "http_url \<Rightarrow> rstring list option" where
  "nonempty_segments u = map_option (filter (\<lambda>part. part \<noteq> [])) (url_path_segments u)"

definition youtube_id_char :: "rchar \<Rightarrow> bool" where
  "youtube_id_char c \<longleftrightarrow> is_ascii_alphanumeric c \<or> c = 0x5f \<or> c = 0x2d"

definition site_youtube_id :: "rstring \<Rightarrow> bool" where
  "site_youtube_id s \<longleftrightarrow> str_len s = 11 \<and> list_all youtube_id_char s"

definition is_single_item_url :: "http_parser \<Rightarrow> site_provider \<Rightarrow> rstring \<Rightarrow> site_error + bool" where
  "is_single_item_url parse provider raw =
     (case parse raw of
        None \<Rightarrow> Inl SiteInvalidUrl
      | Some u \<Rightarrow>
          if list_ex (\<lambda>(name, _). name = str ''list'') (url_query_pairs u) then Inr False
          else (case nonempty_segments u of
            None \<Rightarrow> Inl SiteInvalidUrl
          | Some parts \<Rightarrow> Inr (case provider of
              SiteYouTube \<Rightarrow>
                url_host_str u = Some (str ''youtu.be'') \<and> length parts = 1 \<or>
                parts = [str ''watch''] \<and>
                list_ex (\<lambda>(name, value). name = str ''v'' \<and> site_youtube_id value) (url_query_pairs u)
            | SiteSoundCloud \<Rightarrow>
                url_host_str u = Some (str ''on.soundcloud.com'') \<or> length parts = 2)))"

section \<open>Extractor configuration and search\<close>

record yt_dlp_config =
  yt_executable :: rstring
  deno_executable :: rstring
  deno_directory :: rstring
  maximum_track_duration :: nat
  maximum_playlist_items :: nat

definition yt_dlp_validate :: "yt_dlp_config \<Rightarrow> site_error + unit" where
  "yt_dlp_validate c =
     (if yt_executable c = [] \<or> deno_executable c = [] \<or> deno_directory c = [] \<or>
         maximum_track_duration c = 0 \<or> maximum_playlist_items c = 0 \<or>
         maximum_playlist_items c > HARD_MAX_PLAYLIST_ITEMS
      then Inl SiteInvalidConfig else Inr ())"

record site_reference =
  sr_provider :: site_provider
  sr_page_url :: rstring
  sr_title :: "rstring option"
  sr_artist :: "rstring option"
  sr_duration_ms :: "u64 option"

record site_collection =
  sc_title :: "rstring option"
  sc_entries :: "site_reference list"
  sc_source_item_count :: "nat option"
  sc_skipped_items :: nat
  sc_truncated :: bool

record site_search =
  ss_query :: rstring
  ss_expected_title :: rstring
  ss_expected_artists :: "rstring list"
  ss_preferred_duration_ms :: "u64 option"
  ss_isrc :: "rstring option"

definition valid_text :: "rstring \<Rightarrow> nat \<Rightarrow> bool" where
  "valid_text value maximum \<longleftrightarrow> trim value \<noteq> [] \<and> str_len value \<le> maximum \<and> \<not> has_control value"

definition valid_isrc :: "rstring \<Rightarrow> bool" where
  "valid_isrc value \<longleftrightarrow> str_len value = 12 \<and> list_all is_ascii_alphanumeric value"

definition site_search_new ::
  "rstring \<Rightarrow> rstring \<Rightarrow> rstring list \<Rightarrow> u64 option \<Rightarrow> rstring option \<Rightarrow> site_error + site_search" where
  "site_search_new query title artists preferred isrc =
     (if \<not> valid_text query 256 \<or> \<not> valid_text title 200 \<or> length artists > 16 \<or>
         list_ex (\<lambda>artist. \<not> valid_text artist 200) artists \<or>
         (case isrc of None \<Rightarrow> False | Some value \<Rightarrow> \<not> valid_isrc value)
      then Inl InvalidSearch
      else Inr \<lparr>ss_query = query, ss_expected_title = title, ss_expected_artists = artists,
                ss_preferred_duration_ms = preferred, ss_isrc = isrc\<rparr>)"

section \<open>Safe headers\<close>

datatype safe_header_name = UserAgent | Referer | Origin | Accept | AcceptLanguage

type_synonym safe_headers = "(safe_header_name \<times> rstring) list"

definition MAX_HEADER_VALUE_BYTES :: nat where "MAX_HEADER_VALUE_BYTES = 512"

definition to_ascii_lowercase :: "rstring \<Rightarrow> rstring" where
  "to_ascii_lowercase s = map (\<lambda>c. if is_ascii_uppercase c then c + 0x20 else c) s"

definition allowed_name :: "rstring \<Rightarrow> safe_header_name option" where
  "allowed_name name =
     (if name = str ''user-agent'' then Some UserAgent
      else if name = str ''referer'' then Some Referer
      else if name = str ''origin'' then Some Origin
      else if name = str ''accept'' then Some Accept
      else if name = str ''accept-language'' then Some AcceptLanguage
      else None)"

definition validate_value :: "rstring \<Rightarrow> site_error + unit" where
  "validate_value value =
     (if value = [] \<or> str_len value > MAX_HEADER_VALUE_BYTES \<or> has_control value then Inl UnsafeHeader
      else Inr ())"

definition validate_provider_origin :: "http_parser \<Rightarrow> rstring \<Rightarrow> site_provider \<Rightarrow> site_error + unit" where
  "validate_provider_origin parse value provider =
     (case parse value of
        None \<Rightarrow> Inl UnsafeHeader
      | Some u \<Rightarrow>
          if \<not> plain_https u \<or>
             \<not> accepts_page_host provider (case url_host_str u of None \<Rightarrow> [] | Some host \<Rightarrow> host)
          then Inl UnsafeHeader else Inr ())"

definition is_credential_header :: "rstring \<Rightarrow> bool" where
  "is_credential_header name \<longleftrightarrow>
     name \<in> {str ''cookie'', str ''authorization'', str ''proxy-authorization'', str ''host''}"

text \<open>The loop of \<open>from_ytdlp\<close> over the entries of the map, in their order.\<close>

fun from_ytdlp ::
  "http_parser \<Rightarrow> site_provider \<Rightarrow> (rstring \<times> rstring) list \<Rightarrow> safe_headers \<Rightarrow> site_error + safe_headers" where
  "from_ytdlp parse provider [] headers = Inr headers"
| "from_ytdlp parse provider ((raw_name, value) # rest) headers =
     (let normalized = to_ascii_lowercase (trim raw_name)
      in if is_credential_header normalized then Inl UnsafeHeader
         else case allowed_name normalized of
           None \<Rightarrow> from_ytdlp parse provider rest headers
         | Some name \<Rightarrow>
             (case validate_value value of
                Inl e \<Rightarrow> Inl e
              | Inr _ \<Rightarrow>
                  (case (if name = Referer \<or> name = Origin
                         then validate_provider_origin parse value provider else Inr ()) of
                     Inl e \<Rightarrow> Inl e
                   | Inr _ \<Rightarrow>
                       if list_ex (\<lambda>(existing, _). existing = name) headers then Inl UnsafeHeader
                       else from_ytdlp parse provider rest (headers @ [(name, value)]))))"

definition safe_header :: "http_parser \<Rightarrow> site_provider \<Rightarrow> safe_header_name \<times> rstring \<Rightarrow> bool" where
  "safe_header parse provider header \<longleftrightarrow>
     (case header of (name, value) \<Rightarrow> validate_value value = Inr () \<and>
        (name = Referer \<or> name = Origin \<longrightarrow> validate_provider_origin parse value provider = Inr ()))"

declare from_ytdlp.simps(2) [simp del]

lemma from_ytdlp_accepted:
  assumes "\<not> is_credential_header (to_ascii_lowercase (trim raw_name))"
    and "allowed_name (to_ascii_lowercase (trim raw_name)) = Some name" and "validate_value v = Inr ()"
    and "name = Referer \<or> name = Origin \<longrightarrow> validate_provider_origin parse v provider = Inr ()"
  shows "from_ytdlp parse provider ((raw_name, v) # raw) headers =
    (if list_ex (\<lambda>(existing, _). existing = name) headers then Inl UnsafeHeader
     else from_ytdlp parse provider raw (headers @ [(name, v)]))"
proof -
  have "(if name = Referer \<or> name = Origin then validate_provider_origin parse v provider else Inr ()) = Inr ()"
    using assms(4) by simp
  then show ?thesis by (simp only: from_ytdlp.simps Let_def assms if_False option.case sum.case)
qed

lemma from_ytdlp_safe:
  assumes "from_ytdlp parse provider raw headers = Inr headers'"
    and "distinct (map fst headers)" and "\<forall>h \<in> set headers. safe_header parse provider h"
  shows "distinct (map fst headers') \<and> (\<forall>h \<in> set headers'. safe_header parse provider h) \<and>
    (\<forall>(name, value) \<in> set raw. \<not> is_credential_header (to_ascii_lowercase (trim name))) \<and>
    (\<forall>(name, value) \<in> set headers'. (name, value) \<in> set headers \<or>
       (\<exists>raw_name. (raw_name, value) \<in> set raw \<and> allowed_name (to_ascii_lowercase (trim raw_name)) = Some name))"
  using assms
proof (induction raw arbitrary: headers)
  case (Cons entry raw)
  obtain raw_name v where entry: "entry = (raw_name, v)" by (cases entry)
  let ?n = "to_ascii_lowercase (trim raw_name)"
  have ok: "\<not> is_credential_header ?n" using Cons.prems(1) by (auto simp: entry from_ytdlp.simps(2) Let_def split: if_splits)
  show ?case
  proof (cases "allowed_name ?n")
    case None
    with ok Cons.prems(1) have "from_ytdlp parse provider raw headers = Inr headers'"
      by (simp add: entry from_ytdlp.simps(2) Let_def)
    from Cons.IH [OF this Cons.prems(2,3)] ok show ?thesis by (auto simp: entry)
  next
    case (Some name)
    have val_ok: "validate_value v = Inr ()"
    proof (rule ccontr)
      assume "validate_value v \<noteq> Inr ()"
      then obtain e where "validate_value v = Inl e" by (cases "validate_value v") auto
      then have "from_ytdlp parse provider (entry # raw) headers = Inl e"
        by (simp only: entry from_ytdlp.simps Let_def ok Some if_False option.case sum.case)
      with Cons.prems(1) show False by simp
    qed
    have origin: "name = Referer \<or> name = Origin \<longrightarrow> validate_provider_origin parse v provider = Inr ()"
    proof (intro impI, rule ccontr)
      assume name: "name = Referer \<or> name = Origin" and "validate_provider_origin parse v provider \<noteq> Inr ()"
      then obtain e where "validate_provider_origin parse v provider = Inl e"
        by (cases "validate_provider_origin parse v provider") auto
      then have "from_ytdlp parse provider (entry # raw) headers = Inl e"
        by (simp only: entry from_ytdlp.simps Let_def ok Some val_ok name if_False if_True option.case sum.case)
      with Cons.prems(1) show False by simp
    qed
    note step = from_ytdlp_accepted [OF ok Some val_ok origin, of raw headers, folded entry]
    from Cons.prems(1) step have seen: "\<not> list_ex (\<lambda>(existing, _). existing = name) headers"
      and rest: "from_ytdlp parse provider raw (headers @ [(name, v)]) = Inr headers'"
      by (auto split: if_splits)
    then have fresh: "name \<notin> fst ` set headers" by (auto simp: list_ex_iff)
    have new_names: "distinct (map fst (headers @ [(name, v)]))" using Cons.prems(2) fresh by simp
    have new_safe: "\<forall>h \<in> set (headers @ [(name, v)]). safe_header parse provider h"
      using Cons.prems(3) val_ok origin by (simp add: safe_header_def)
    note ih = Cons.IH [OF rest new_names new_safe]
    have "(n, w) \<in> set headers \<or>
        (\<exists>r. (r, w) \<in> set (entry # raw) \<and> allowed_name (to_ascii_lowercase (trim r)) = Some n)"
      if "(n, w) \<in> set headers'" for n w
    proof -
      from ih that have "(n, w) \<in> set (headers @ [(name, v)]) \<or>
          (\<exists>r. (r, w) \<in> set raw \<and> allowed_name (to_ascii_lowercase (trim r)) = Some n)" by blast
      then show ?thesis
      proof (elim disjE exE conjE)
        assume "(n, w) \<in> set (headers @ [(name, v)])"
        then have "(n, w) \<in> set headers \<or> n = name \<and> w = v" by auto
        with Some show ?thesis by (metis entry list.set_intros(1))
      qed auto
    qed
    with ih ok show ?thesis unfolding entry list.set by blast
  qed
qed simp

text \<open>No credential of the extractor reaches a request: a header set with a cookie, an
  authorization or a host header is refused whole, and what passes has at most one header of
  each of the five names, with a short printable value, an origin or referer only on a page
  host of the provider.\<close>

theorem provider_headers_are_safe:
  assumes "from_ytdlp parse provider raw [] = Inr headers"
  shows "distinct (map fst headers) \<and>
    (\<forall>(name, value) \<in> set raw. \<not> is_credential_header (to_ascii_lowercase (trim name))) \<and>
    (\<forall>(name, value) \<in> set headers. value \<noteq> [] \<and> str_len value \<le> 512 \<and> \<not> has_control value \<and>
       (\<exists>raw_name. (raw_name, value) \<in> set raw \<and> allowed_name (to_ascii_lowercase (trim raw_name)) = Some name) \<and>
       (name = Referer \<or> name = Origin \<longrightarrow>
          (\<exists>u. parse value = Some u \<and> plain_https u \<and>
             (\<exists>host. url_host_str u = Some host \<and> accepts_page_host provider host))))"
proof -
  have empty: "\<not> accepts_page_host provider []" by (cases provider) (simp_all add: trim_end_dots_def str_def)
  show ?thesis
    using from_ytdlp_safe [OF assms] empty
    by (fastforce simp: safe_header_def validate_value_def validate_provider_origin_def MAX_HEADER_VALUE_BYTES_def
        split: if_splits option.splits)
qed

lemma provider_headers_are_safe_witness:
  "from_ytdlp (\<lambda>_. None) SiteYouTube [(str ''Range'', str ''x''), (str ''User-Agent'', str ''agent'')] [] =
     Inr [(UserAgent, str ''agent'')] \<and> \<not> has_control (str ''agent'')"
proof -
  have "from_ytdlp (\<lambda>_. None) SiteYouTube [(str ''Range'', str ''x''), (str ''User-Agent'', str ''agent'')] [] =
     Inr [(UserAgent, str ''agent'')]"
    by (simp add: from_ytdlp.simps(2) str_def to_ascii_lowercase_def is_ascii_uppercase_def trim_def trim_start_def is_whitespace_def
        is_credential_header_def allowed_name_def validate_value_def MAX_HEADER_VALUE_BYTES_def str_len_def
        char_len_utf8_def has_control_def is_control_def)
  with provider_headers_are_safe [OF this] show ?thesis by simp
qed

section \<open>Media requests\<close>

record resolved_site_media =
  rs_url :: rstring
  rs_provider :: site_provider
  rs_headers :: safe_headers

record discord_attachment =
  da_url :: rstring
  da_filename :: rstring
  da_content_type :: "rstring option"
  da_declared_size_bytes :: "u64 option"

datatype media_request =
  DirectUrl rstring | DiscordAttachment discord_attachment | ResolvedSite resolved_site_media

datatype media_source_kind = KindDirectUrl | KindDiscordAttachment | KindResolvedSite

fun request_url :: "media_request \<Rightarrow> rstring" where
  "request_url (DirectUrl u) = u"
| "request_url (DiscordAttachment a) = da_url a"
| "request_url (ResolvedSite s) = rs_url s"

fun source_kind :: "media_request \<Rightarrow> media_source_kind" where
  "source_kind (DirectUrl u) = KindDirectUrl"
| "source_kind (DiscordAttachment a) = KindDiscordAttachment"
| "source_kind (ResolvedSite s) = KindResolvedSite"

fun declared_size :: "media_request \<Rightarrow> u64 option" where
  "declared_size (DiscordAttachment a) = da_declared_size_bytes a"
| "declared_size _ = None"

fun request_headers :: "media_request \<Rightarrow> safe_headers" where
  "request_headers (ResolvedSite s) = rs_headers s"
| "request_headers _ = []"

fun uses_open_range :: "media_request \<Rightarrow> bool" where
  "uses_open_range (ResolvedSite s) = (rs_provider s = SiteYouTube)"
| "uses_open_range _ = False"

fun allows_host :: "media_request \<Rightarrow> rstring \<Rightarrow> bool" where
  "allows_host (ResolvedSite s) host = accepts_media_host (rs_provider s) host"
| "allows_host _ host = True"

end
