(* ===== verification/Media_Parse.thy ===== *)
theory Media_Parse
  imports Media_Site
begin

text \<open>
  What is taken from the metadata of the extractor, \<open>crates/pepeaudio-media/src/site/parse.rs\<close>.
  The JSON reader is third-party code: the functions start from its result, \<open>None\<close> for
  input it refuses. The type of the duration stands for \<open>f64\<close>, and \<open>secs\<close> for
  \<open>Duration::try_from_secs_f64\<close>, in nanoseconds.
\<close>

section \<open>Raw metadata\<close>

datatype 'f raw_info = RawInfo
  (ri_kind: "rstring option") (ri_title: "rstring option") (ri_id: "rstring option") (ri_url: "rstring option")
  (ri_webpage_url: "rstring option") (ri_artist: "rstring option") (ri_album: "rstring option")
  (ri_uploader: "rstring option") (ri_channel: "rstring option") (ri_entries: "'f raw_info option list option")
  (ri_playlist_count: "nat option") (ri_duration: "'f option") (ri_protocol: "rstring option")
  (ri_vcodec: "rstring option") (ri_acodec: "rstring option") (ri_is_live: "bool option")
  (ri_live_status: "rstring option") (ri_http_headers: "(rstring \<times> rstring) list")

text \<open>What the crate \<open>url\<close> and the standard library answer.\<close>

record 'f site_env =
  se_parse :: http_parser
  se_without_query :: "http_url \<Rightarrow> rstring"
  se_secs :: "'f \<Rightarrow> nat option"

definition or_else :: "'a option \<Rightarrow> 'a option \<Rightarrow> 'a option" where
  "or_else x y = (case x of None \<Rightarrow> y | Some v \<Rightarrow> Some v)"

definition clean_title :: "rstring \<Rightarrow> rstring option" where
  "clean_title value =
     (let kept = take 120 (filter (\<lambda>c. \<not> is_control c) value)
      in if trim kept = [] then None else Some kept)"

section \<open>References\<close>

definition validated_reference :: "'f site_env \<Rightarrow> site_provider \<Rightarrow> rstring \<Rightarrow> site_error + site_reference" where
  "validated_reference env provider raw =
     (case classify (se_parse env) raw of
        Inl e \<Rightarrow> Inl e
      | Inr found \<Rightarrow>
          if found \<noteq> Some provider then Inl InvalidMetadata
          else Inr \<lparr>sr_provider = provider, sr_page_url = raw, sr_title = None, sr_artist = None,
                    sr_duration_ms = None\<rparr>)"

definition finite_duration_ms :: "'f site_env \<Rightarrow> 'f \<Rightarrow> u64 option" where
  "finite_duration_ms env seconds =
     (case se_secs env seconds of
        None \<Rightarrow> None
      | Some nanos \<Rightarrow> if nanos div 1000000 < 2 ^ 64 then Some (of_nat (nanos div 1000000)) else None)"

definition youtube_watch_url :: "rstring \<Rightarrow> rstring" where
  "youtube_watch_url identifier = str ''https://www.youtube.com/watch?v='' @ identifier"

definition described ::
  "'f site_env \<Rightarrow> 'f raw_info \<Rightarrow> site_reference \<Rightarrow> site_reference" where
  "described env raw reference =
     reference\<lparr>sr_title := Option.bind (ri_title raw) clean_title,
       sr_artist := Option.bind (or_else (ri_artist raw) (or_else (ri_uploader raw) (ri_channel raw))) clean_title,
       sr_duration_ms := Option.bind (ri_duration raw) (finite_duration_ms env)\<rparr>"

definition reference_from_raw ::
  "'f site_env \<Rightarrow> 'f raw_info \<Rightarrow> site_provider \<Rightarrow> site_error + site_reference" where
  "reference_from_raw env raw provider =
     (case Option.bind (or_else (ri_webpage_url raw) (ri_url raw))
             (\<lambda>u. result_ok (validated_reference env provider u)) of
        Some reference \<Rightarrow> Inr (described env raw reference)
      | None \<Rightarrow>
          if provider = SiteYouTube then
            (case ri_id raw of
               None \<Rightarrow> Inl InvalidMetadata
             | Some identifier \<Rightarrow>
                 if site_youtube_id identifier then
                   (case validated_reference env provider (youtube_watch_url identifier) of
                      Inl e \<Rightarrow> Inl e
                    | Inr reference \<Rightarrow> Inr (described env raw reference))
                 else Inl InvalidMetadata)
          else Inl InvalidMetadata)"

section \<open>Collections\<close>

text \<open>The \<open>filter_map\<close> over the entries, with its count of skipped ones.\<close>

fun keep_references ::
  "'f site_env \<Rightarrow> site_provider \<Rightarrow> 'f raw_info option list \<Rightarrow> site_reference list \<times> nat" where
  "keep_references env provider [] = ([], 0)"
| "keep_references env provider (entry # rest) =
     (case (keep_references env provider rest,
            Option.bind entry (\<lambda>raw. result_ok (reference_from_raw env raw provider))) of
        ((kept, skipped), Some reference) \<Rightarrow> (reference # kept, skipped)
      | ((kept, skipped), None) \<Rightarrow> (kept, skipped + 1))"

definition finish_collection ::
  "rstring option \<Rightarrow> site_reference list \<Rightarrow> nat option \<Rightarrow> nat \<Rightarrow> bool \<Rightarrow> bool \<Rightarrow> site_error + site_collection" where
  "finish_collection title refs source_items skipped_count truncated empty_is_no_match =
     (if refs = [] then
        Inl (if empty_is_no_match then NoSearchMatch
             else if skipped_count \<ge> 1 then UnsupportedStream else InvalidMetadata)
      else Inr \<lparr>sc_title = Option.bind title clean_title, sc_entries = refs,
                sc_source_item_count = source_items, sc_skipped_items = skipped_count,
                sc_truncated = truncated\<rparr>)"

definition collection_with_empty_error ::
  "'f site_env \<Rightarrow> 'f raw_info option \<Rightarrow> site_provider \<Rightarrow> rstring \<Rightarrow> nat \<Rightarrow> bool \<Rightarrow> site_error + site_collection" where
  "collection_with_empty_error env json provider original_url maximum empty_is_no_match =
     (case json of
        None \<Rightarrow> Inl InvalidMetadata
      | Some raw \<Rightarrow>
          if ri_kind raw = Some (str ''playlist'') \<or> ri_entries raw \<noteq> None then
            (case ri_entries raw of
               None \<Rightarrow> Inl InvalidMetadata
             | Some items \<Rightarrow>
                 let observed = length items;
                     truncated = (observed > maximum \<or>
                       (case ri_playlist_count raw of None \<Rightarrow> False | Some n \<Rightarrow> n > maximum));
                     source_items = or_else (ri_playlist_count raw) (if truncated then None else Some observed);
                     (refs, skipped_count) = keep_references env provider (take maximum items)
                 in finish_collection (ri_title raw) refs source_items skipped_count truncated empty_is_no_match)
          else (case validated_reference env provider original_url of
            Inl e \<Rightarrow> Inl e
          | Inr reference \<Rightarrow>
              Inr \<lparr>sc_title = Option.bind (ri_title raw) clean_title, sc_entries = [reference],
                   sc_source_item_count = Some 1, sc_skipped_items = 0, sc_truncated = False\<rparr>))"

definition collection ::
  "'f site_env \<Rightarrow> 'f raw_info option \<Rightarrow> site_provider \<Rightarrow> rstring \<Rightarrow> nat \<Rightarrow> site_error + site_collection" where
  "collection env json provider original_url maximum =
     collection_with_empty_error env json provider original_url maximum False"

definition search_collection ::
  "'f site_env \<Rightarrow> 'f raw_info option \<Rightarrow> site_provider \<Rightarrow> rstring \<Rightarrow> nat \<Rightarrow> site_error + site_collection" where
  "search_collection env json provider original_url maximum =
     collection_with_empty_error env json provider original_url maximum True"

section \<open>Resolved tracks\<close>

definition validate_media_url :: "'f site_env \<Rightarrow> rstring \<Rightarrow> site_provider \<Rightarrow> site_error + unit" where
  "validate_media_url env raw provider =
     (case se_parse env raw of
        None \<Rightarrow> Inl UnsupportedStream
      | Some u \<Rightarrow>
          if \<not> plain_https u \<or> url_fragment u \<noteq> None \<or>
             \<not> accepts_media_host provider (case url_host_str u of None \<Rightarrow> [] | Some host \<Rightarrow> host)
          then Inl UnsupportedStream else Inr ())"

definition canonical_youtube_page ::
  "'f site_env \<Rightarrow> rstring option \<Rightarrow> rstring \<Rightarrow> site_error + rstring" where
  "canonical_youtube_page env identifier candidate =
     (case se_parse env candidate of
        None \<Rightarrow> Inl InvalidMetadata
      | Some u \<Rightarrow>
          (let given = (case identifier of Some i \<Rightarrow> if site_youtube_id i then Some i else None | None \<Rightarrow> None);
               found = (case url_host_str u of
                   Some host \<Rightarrow>
                     if host = str ''youtu.be'' then
                       (case url_path_segments u of
                          Some (first # _) \<Rightarrow> if site_youtube_id first then Some first else None
                        | _ \<Rightarrow> None)
                     else if accepts_page_host SiteYouTube host then
                       map_option snd (find (\<lambda>(name, v). name = str ''v'' \<and> site_youtube_id v) (url_query_pairs u))
                     else None
                 | None \<Rightarrow> None)
           in case or_else given found of
                None \<Rightarrow> Inl InvalidMetadata
              | Some i \<Rightarrow> Inr (youtube_watch_url i)))"

definition canonical_soundcloud_page :: "'f site_env \<Rightarrow> rstring \<Rightarrow> site_error + rstring" where
  "canonical_soundcloud_page env candidate =
     (case se_parse env candidate of
        None \<Rightarrow> Inl InvalidMetadata
      | Some u \<Rightarrow>
          (case classify (se_parse env) candidate of
             Inl e \<Rightarrow> Inl e
           | Inr found \<Rightarrow>
               if found \<noteq> Some SiteSoundCloud \<or> url_host_str u = Some (str ''on.soundcloud.com'') \<or>
                  (case nonempty_segments u of None \<Rightarrow> True | Some parts \<Rightarrow> length parts \<noteq> 2)
               then Inl InvalidMetadata
               else Inr (se_without_query env u)))"

fun canonical_page_url ::
  "'f site_env \<Rightarrow> site_provider \<Rightarrow> rstring option \<Rightarrow> rstring \<Rightarrow> site_error + rstring" where
  "canonical_page_url env SiteYouTube identifier candidate = canonical_youtube_page env identifier candidate"
| "canonical_page_url env SiteSoundCloud identifier candidate = canonical_soundcloud_page env candidate"

record site_resolved_track =
  srt_title :: rstring
  srt_artist :: "rstring option"
  srt_album :: "rstring option"
  srt_provider :: site_provider
  srt_page_url :: rstring
  srt_duration_ms :: u64
  srt_request :: media_request

definition streamable :: "'f raw_info \<Rightarrow> bool" where
  "streamable raw \<longleftrightarrow> ri_is_live raw \<noteq> Some True \<and>
     ri_live_status raw \<in> {None, Some (str ''not_live''), Some (str ''was_live'')} \<and>
     ri_protocol raw \<in> {Some (str ''http''), Some (str ''https'')} \<and>
     ri_vcodec raw = Some (str ''none'') \<and> ri_acodec raw \<notin> {None, Some (str ''none'')}"

definition resolved_info ::
  "'f site_env \<Rightarrow> 'f raw_info \<Rightarrow> site_reference \<Rightarrow> yt_dlp_config \<Rightarrow> site_error + site_resolved_track" where
  "resolved_info env raw reference config =
     (let provider = sr_provider reference
      in if \<not> streamable raw then Inl UnsupportedStream
         else case Option.bind (ri_duration raw) (se_secs env) of
           None \<Rightarrow> Inl InvalidMetadata
         | Some nanos \<Rightarrow>
             if nanos = 0 \<or> nanos > maximum_track_duration config then Inl DurationLimit
             else if nanos div 1000000 \<ge> 2 ^ 64 then Inl DurationLimit
             else (case ri_url raw of
               None \<Rightarrow> Inl UnsupportedStream
             | Some u \<Rightarrow> (case validate_media_url env u provider of
                 Inl e \<Rightarrow> Inl e
               | Inr _ \<Rightarrow> (case from_ytdlp (se_parse env) provider (ri_http_headers raw) [] of
                   Inl e \<Rightarrow> Inl e
                 | Inr headers \<Rightarrow>
                     (case canonical_page_url env provider (ri_id raw)
                             (case ri_webpage_url raw of Some w \<Rightarrow> w | None \<Rightarrow> sr_page_url reference) of
                        Inl e \<Rightarrow> Inl e
                      | Inr page \<Rightarrow> (case Option.bind (ri_title raw) clean_title of
                          None \<Rightarrow> Inl InvalidMetadata
                        | Some title \<Rightarrow>
                            Inr \<lparr>srt_title = title,
                              srt_artist = Option.bind (or_else (or_else (ri_artist raw) (ri_uploader raw))
                                (ri_channel raw)) clean_title,
                              srt_album = Option.bind (ri_album raw) clean_title,
                              srt_provider = provider, srt_page_url = page,
                              srt_duration_ms = of_nat (nanos div 1000000),
                              srt_request = ResolvedSite \<lparr>rs_url = u, rs_provider = provider,
                                rs_headers = headers\<rparr>\<rparr>))))))"

definition resolved ::
  "'f site_env \<Rightarrow> 'f raw_info option \<Rightarrow> site_reference \<Rightarrow> yt_dlp_config \<Rightarrow> site_error + site_resolved_track" where
  "resolved env json reference config =
     (case json of None \<Rightarrow> Inl InvalidMetadata | Some raw \<Rightarrow> resolved_info env raw reference config)"

text \<open>\<open>entries.into_iter().flatten().next()\<close>: the first entry that is present.\<close>

fun first_present :: "'a option list \<Rightarrow> 'a option" where
  "first_present [] = None"
| "first_present (None # rest) = first_present rest"
| "first_present (Some x # rest) = Some x"

definition resolved_search ::
  "'f site_env \<Rightarrow> 'f raw_info option \<Rightarrow> site_provider \<Rightarrow> yt_dlp_config \<Rightarrow> site_error + site_resolved_track" where
  "resolved_search env json provider config =
     (case json of
        None \<Rightarrow> Inl InvalidMetadata
      | Some raw0 \<Rightarrow>
          (case (if ri_kind raw0 = Some (str ''playlist'') \<or> ri_entries raw0 \<noteq> None
                 then Option.bind (ri_entries raw0) first_present else Some raw0) of
             None \<Rightarrow> Inl NoSearchMatch
           | Some raw \<Rightarrow>
               (case reference_from_raw env raw provider of
                  Inl e \<Rightarrow> Inl e
                | Inr reference \<Rightarrow> resolved_info env raw reference config)))"

section \<open>What passes\<close>

lemma clean_title_ok:
  assumes "clean_title s = Some t"
  shows "length t \<le> 120 \<and> \<not> has_control t \<and> trim t \<noteq> []"
  using assms
  by (auto simp: clean_title_def Let_def has_control_def list_ex_iff dest: in_set_takeD split: if_splits)

text \<open>A track is safe to fetch for a provider.\<close>

definition track_safe :: "'f site_env \<Rightarrow> yt_dlp_config \<Rightarrow> site_resolved_track \<Rightarrow> bool" where
  "track_safe env config track \<longleftrightarrow>
     length (srt_title track) \<le> 120 \<and> \<not> has_control (srt_title track) \<and> trim (srt_title track) \<noteq> [] \<and>
     unat (srt_duration_ms track) \<le> maximum_track_duration config div 1000000 \<and>
     (\<exists>u v headers raw_headers host. srt_request track =
         ResolvedSite \<lparr>rs_url = u, rs_provider = srt_provider track, rs_headers = headers\<rparr> \<and>
       from_ytdlp (se_parse env) (srt_provider track) raw_headers [] = Inr headers \<and>
       se_parse env u = Some v \<and> plain_https v \<and> url_fragment v = None \<and>
       url_host_str v = Some host \<and> accepts_media_host (srt_provider track) host)"

lemma media_host_empty: "\<not> accepts_media_host provider []"
  by (cases provider) (simp_all add: trim_end_dots_def ends_with_def str_def)

lemma resolved_info_safe:
  assumes "resolved_info env raw reference config = Inr track"
  shows "track_safe env config track \<and> srt_provider track = sr_provider reference \<and> streamable raw"
proof -
  have live: "streamable raw"
    by (rule ccontr) (use assms in \<open>simp add: resolved_info_def\<close>)
  obtain nanos where nanos: "Option.bind (ri_duration raw) (se_secs env) = Some nanos"
    using assms live by (cases "Option.bind (ri_duration raw) (se_secs env)") (auto simp: resolved_info_def)
  have range: "nanos \<le> maximum_track_duration config" "nanos div 1000000 < 2 ^ 64"
    using assms live nanos by (auto simp: resolved_info_def Let_def split: if_splits)
  obtain u where u: "ri_url raw = Some u"
    using assms live nanos by (cases "ri_url raw") (auto simp: resolved_info_def Let_def split: if_splits)
  obtain headers where headers: "from_ytdlp (se_parse env) (sr_provider reference) (ri_http_headers raw) [] = Inr headers"
    and media: "validate_media_url env u (sr_provider reference) = Inr ()"
    using assms live nanos u by (auto simp: resolved_info_def Let_def split: if_splits sum.splits)
  obtain title where title: "Option.bind (ri_title raw) clean_title = Some title"
    using assms live nanos u headers media
    by (auto simp: resolved_info_def Let_def split: if_splits sum.splits option.splits)
  from assms live nanos u headers media title have track:
    "srt_title track = title" "srt_provider track = sr_provider reference"
    "srt_duration_ms track = of_nat (nanos div 1000000)"
    "srt_request track = ResolvedSite \<lparr>rs_url = u, rs_provider = sr_provider reference, rs_headers = headers\<rparr>"
    by (auto simp: resolved_info_def Let_def split: if_splits sum.splits)
  have "unat (of_nat (nanos div 1000000) :: u64) = nanos div 1000000"
    using range(2) by (simp add: unsigned_of_nat take_bit_nat_eq_self)
  moreover have "nanos div 1000000 \<le> maximum_track_duration config div 1000000"
    using range(1) by (rule div_le_mono)
  moreover obtain v host where "se_parse env u = Some v" "plain_https v" "url_fragment v = None"
    "url_host_str v = Some host" "accepts_media_host (sr_provider reference) host"
    using media media_host_empty by (auto simp: validate_media_url_def split: option.splits if_splits)
  moreover have "length title \<le> 120 \<and> \<not> has_control title \<and> trim title \<noteq> []"
    using title clean_title_ok by (auto simp: bind_eq_Some_conv)
  ultimately show ?thesis
    using headers live by (auto simp: track_safe_def track)
qed

lemma validated_reference_ok:
  "validated_reference env provider raw = Inr r \<Longrightarrow> sr_provider r = provider \<and> sr_page_url r = raw \<and>
     classify (se_parse env) raw = Inr (Some provider)"
  by (auto simp: validated_reference_def split: sum.splits if_splits)

lemma reference_from_raw_ok:
  assumes "reference_from_raw env raw provider = Inr r"
  shows "sr_provider r = provider \<and> classify (se_parse env) (sr_page_url r) = Inr (Some provider)"
  using assms
  by (auto simp: reference_from_raw_def described_def bind_eq_Some_conv dest!: validated_reference_ok
      split: option.splits sum.splits if_splits)

lemma keep_references_ok:
  assumes "keep_references env provider items = (refs, dropped)"
  shows "length refs + dropped = length items \<and>
    (\<forall>r \<in> set refs. sr_provider r = provider \<and> classify (se_parse env) (sr_page_url r) = Inr (Some provider))"
  using assms
proof (induction items arbitrary: refs dropped)
  case (Cons entry items)
  obtain kept n where rest: "keep_references env provider items = (kept, n)" by (metis surj_pair)
  show ?case
    using Cons.prems Cons.IH [OF rest]
    by (auto simp: rest bind_eq_Some_conv dest!: reference_from_raw_ok split: option.splits sum.splits)
qed simp

text \<open>Whatever the extractor prints, a collection holds at most the requested number of
  references, all of them pages of the asked provider, at least one; every item looked at
  is either kept or counted as skipped; and what was left unread is marked as truncated.\<close>

theorem collection_is_bounded:
  assumes "collection env (Some raw) provider original maximum = Inr c"
    and "ri_entries raw = Some items"
  shows "sc_entries c \<noteq> [] \<and> length (sc_entries c) + sc_skipped_items c = min maximum (length items) \<and>
    (length items > maximum \<longrightarrow> sc_truncated c) \<and>
    (\<forall>r \<in> set (sc_entries c). sr_provider r = provider \<and>
       classify (se_parse env) (sr_page_url r) = Inr (Some provider))"
proof -
  obtain refs dropped where kept: "keep_references env provider (take maximum items) = (refs, dropped)"
    by (metis surj_pair)
  from assms have "refs \<noteq> [] \<and> sc_entries c = refs \<and> sc_skipped_items c = dropped \<and>
      (length items > maximum \<longrightarrow> sc_truncated c)"
    by (auto simp: collection_def collection_with_empty_error_def kept finish_collection_def Let_def split: if_splits)
  with keep_references_ok [OF kept] show ?thesis by (simp add: min.commute)
qed

text \<open>Whatever the extractor prints, a track it resolves is one stream of the asked provider:
  not live, sound without video, no longer than allowed, fetched over https without
  credentials from a media host of the provider with headers that passed the filter, under
  a short printable title.\<close>

theorem resolved_track_is_safe:
  assumes "resolved_search env json provider config = Inr track"
  shows "srt_provider track = provider \<and> track_safe env config track"
proof -
  obtain raw reference where "reference_from_raw env raw provider = Inr reference"
    "resolved_info env raw reference config = Inr track"
    using assms by (auto simp: resolved_search_def split: option.splits sum.splits)
  then show ?thesis using resolved_info_safe reference_from_raw_ok by metis
qed

section \<open>Samples\<close>

text \<open>A parser that knows one page and one media URL, by their first letter.\<close>

definition sample_page :: http_url where
  "sample_page =
     \<lparr>url_scheme = str ''https'', url_username = [], url_password = None,
      url_host_str = Some (str ''youtu.be''), url_port = None, url_path = [],
      url_path_segments = Some [replicate 11 0x61], url_query = None, url_query_pairs = [],
      url_fragment = None, url_string = [0x70], url_host = None, url_port_or_known_default = Some 443\<rparr>"

definition sample_site_env :: "nat site_env" where
  "sample_site_env =
     \<lparr>se_parse = (\<lambda>raw. if raw = [0x70] then Some sample_page
        else if raw = [0x6d] then Some (sample_page\<lparr>url_host_str := Some (str ''googlevideo.com'')\<rparr>) else None),
      se_without_query = url_string, se_secs = (\<lambda>s. Some (s * 1000000000))\<rparr>"

definition sample_raw :: "nat raw_info" where
  "sample_raw = RawInfo None (Some (str ''A'')) (Some (replicate 11 0x61)) (Some [0x6d]) (Some [0x70]) None None None
     None None None (Some 3) (Some (str ''https'')) (Some (str ''none'')) (Some (str ''opus'')) None None []"

definition sample_yt_config :: yt_dlp_config where
  "sample_yt_config = \<lparr>yt_executable = [1], deno_executable = [1], deno_directory = [1],
     maximum_track_duration = 10000000000, maximum_playlist_items = 5\<rparr>"

lemmas sample_site_defs = sample_page_def sample_site_env_def sample_raw_def sample_yt_config_def

lemma sample_text [simp]:
  "str_len [c] = char_len_utf8 c" "has_control [c] \<longleftrightarrow> is_control c"
  "trim (str ''A'') = str ''A''" "trim_end_dots (str ''youtu.be'') = str ''youtu.be''"
  "trim_end_dots (str ''googlevideo.com'') = str ''googlevideo.com''"
  by (simp_all add: str_len_def has_control_def trim_def trim_start_def is_whitespace_def trim_end_dots_def str_def)

lemma str_inject [simp]: "str s = str t \<longleftrightarrow> s = t"
  by (auto simp: str_def inj_map_eq_map [OF inj_of_char])

lemma sample_classify: "classify (se_parse sample_site_env) [0x70] = Inr (Some SiteYouTube)"
  by (simp add: classify_def sample_site_defs MAX_PAGE_URL_BYTES_def char_len_utf8_def is_control_def plain_https_def)

lemma collection_is_bounded_witness:
  "\<exists>c. collection sample_site_env (Some (RawInfo (Some (str ''playlist'')) None None None None None None None None
       (Some [Some sample_raw, None, Some sample_raw]) None None None None None None None [])) SiteYouTube [0x70] 2 = Inr c \<and>
     length (sc_entries c) + sc_skipped_items c = 2 \<and> sc_truncated c"
proof -
  let ?raw = "RawInfo (Some (str ''playlist'')) None None None None None None None None
     (Some [Some sample_raw, None, Some sample_raw]) None None None None None None None []"
  have "validated_reference sample_site_env SiteYouTube [0x70] =
      Inr \<lparr>sr_provider = SiteYouTube, sr_page_url = [0x70], sr_title = None, sr_artist = None, sr_duration_ms = None\<rparr>"
    by (simp add: validated_reference_def sample_classify)
  then have "\<exists>c. collection sample_site_env (Some ?raw) SiteYouTube [0x70] 2 = Inr c"
    by (simp add: collection_def collection_with_empty_error_def reference_from_raw_def or_else_def finish_collection_def
        result_ok_def numeral_2_eq_2 sample_raw_def)
  then obtain c where c: "collection sample_site_env (Some ?raw) SiteYouTube [0x70] 2 = Inr c" ..
  from collection_is_bounded [OF c] show ?thesis by (simp add: c)
qed

lemma sample_resolved:
  "\<exists>track. resolved_search sample_site_env (Some sample_raw) SiteYouTube sample_yt_config = Inr track \<and>
     srt_title track = [0x41] \<and> srt_artist track = None"
proof -
  have ref: "validated_reference sample_site_env SiteYouTube [0x70] =
      Inr \<lparr>sr_provider = SiteYouTube, sr_page_url = [0x70], sr_title = None, sr_artist = None, sr_duration_ms = None\<rparr>"
    by (simp add: validated_reference_def sample_classify)
  have media: "validate_media_url sample_site_env [0x6d] SiteYouTube = Inr ()"
    by (simp add: validate_media_url_def sample_site_defs plain_https_def)
  have page: "canonical_youtube_page sample_site_env (Some (replicate 11 0x61)) [0x70] =
      Inr (youtube_watch_url (replicate 11 0x61))"
    by (simp add: canonical_youtube_page_def sample_site_defs site_youtube_id_def str_len_def sum_list_replicate
        char_len_utf8_def youtube_id_char_def is_ascii_alphanumeric_def is_ascii_lowercase_def list_all_iff or_else_def)
  have title: "clean_title (str ''A'') = Some (str ''A'')"
  proof -
    have "str ''A'' = [0x41]" by (simp add: str_def)
    then show ?thesis
      by (simp add: clean_title_def is_control_def trim_def trim_start_def is_whitespace_def)
  qed
  have raw: "streamable sample_raw" "ri_duration sample_raw = Some 3" "ri_url sample_raw = Some [0x6d]"
    "ri_webpage_url sample_raw = Some [0x70]" "ri_id sample_raw = Some (replicate 11 0x61)"
    "ri_title sample_raw = Some (str ''A'')" "ri_http_headers sample_raw = []" "ri_entries sample_raw = None"
    "ri_kind sample_raw = None" "ri_artist sample_raw = None" "ri_uploader sample_raw = None" "ri_channel sample_raw = None"
    by (simp_all add: sample_raw_def streamable_def)
  have limits: "se_secs sample_site_env 3 = Some 3000000000" "maximum_track_duration sample_yt_config = 10000000000"
    by (simp_all add: sample_site_env_def sample_yt_config_def)
  have "\<exists>track. resolved_info sample_site_env sample_raw reference sample_yt_config = Inr track \<and>
      srt_title track = [0x41] \<and> srt_artist track = None"
    if "sr_provider reference = SiteYouTube" for reference
    by (simp add: resolved_info_def raw limits that media page title or_else_def) (simp add: str_def)
  moreover have "reference_from_raw sample_site_env sample_raw SiteYouTube =
      Inr (described sample_site_env sample_raw \<lparr>sr_provider = SiteYouTube, sr_page_url = [0x70],
        sr_title = None, sr_artist = None, sr_duration_ms = None\<rparr>)"
    by (simp add: reference_from_raw_def raw or_else_def result_ok_def ref)
  ultimately show ?thesis by (simp add: resolved_search_def raw described_def)
qed

lemma resolved_track_is_safe_witness:
  "\<exists>track. resolved_search sample_site_env (Some sample_raw) SiteYouTube sample_yt_config = Inr track \<and>
     track_safe sample_site_env sample_yt_config track"
  using sample_resolved resolved_track_is_safe by blast

end
