(* ===== verification/Media_Matching.thy ===== *)
theory Media_Matching
  imports Media_Parse
begin

text \<open>
  The choice among search results, \<open>crates/pepeaudio-media/src/site/matching.rs\<close>. The Unicode
  tables behind \<open>char::to_lowercase\<close> and \<open>char::is_alphanumeric\<close> are arguments. Strings are
  lists of code points; the source cuts them only at the ASCII brackets, so its byte
  offsets are offsets of code points here. Scores are natural numbers: the bound proved
  below keeps every one far inside \<open>u16\<close>.
\<close>

section \<open>Tokens\<close>

record unicode =
  uc_lowercase :: "rchar \<Rightarrow> rstring"
  uc_alphanumeric :: "rchar \<Rightarrow> bool"

text \<open>\<open>split_whitespace\<close>: the maximal runs without white space.\<close>

fun split_runs :: "rstring \<Rightarrow> rstring \<Rightarrow> rstring list" where
  "split_runs run [] = [run]"
| "split_runs run (c # cs) = (if is_whitespace c then run # split_runs [] cs else split_runs (run @ [c]) cs)"

definition split_whitespace :: "rstring \<Rightarrow> rstring list" where
  "split_whitespace s = filter (\<lambda>run. run \<noteq> []) (split_runs [] s)"

fun join :: "rstring \<Rightarrow> rstring list \<Rightarrow> rstring" where
  "join sep [] = []"
| "join sep [x] = x"
| "join sep (x # y # rest) = x @ sep @ join sep (y # rest)"

definition normalize :: "unicode \<Rightarrow> rstring \<Rightarrow> rstring" where
  "normalize u s =
     join [0x20] (split_whitespace
       (map (\<lambda>c. if uc_alphanumeric u c then c else 0x20) (concat (map (uc_lowercase u) s))))"

text \<open>\<open>windows(n).position(..)\<close> for a needle that is not empty.\<close>

fun find_window :: "'a list \<Rightarrow> 'a list \<Rightarrow> nat option" where
  "find_window needle [] = None"
| "find_window needle (x # xs) =
     (if take (length needle) (x # xs) = needle then Some 0 else map_option Suc (find_window needle xs))"

definition contains_seq :: "'a list \<Rightarrow> 'a list \<Rightarrow> bool" where
  "contains_seq hay needle \<longleftrightarrow> needle = [] \<or> find_window needle hay \<noteq> None"

definition is_ascii :: "rstring \<Rightarrow> bool" where
  "is_ascii s \<longleftrightarrow> list_all (\<lambda>c. c < 0x80) s"

definition phrase_present :: "rstring \<Rightarrow> rstring \<Rightarrow> bool" where
  "phrase_present hay phrase =
     (if is_ascii phrase then contains_seq ([0x20] @ hay @ [0x20]) ([0x20] @ phrase @ [0x20])
      else contains_seq hay phrase)"

lemma find_window_Some:
  "find_window needle xs = Some i \<Longrightarrow> needle \<noteq> [] \<Longrightarrow> i + length needle \<le> length xs \<and>
     take (length needle) (drop i xs) = needle"
proof (induction needle xs arbitrary: i rule: find_window.induct)
  case (2 needle x xs)
  show ?case
  proof (cases "take (length needle) (x # xs) = needle")
    case True
    then have "length needle \<le> Suc (length xs)" by (metis length_Cons length_take min.cobounded1)
    with True "2.prems" show ?thesis by simp
  next
    case False
    with "2.prems" obtain j where "i = Suc j" "find_window needle xs = Some j" by auto
    with "2.IH" [OF False] "2.prems" show ?thesis by simp
  qed
qed simp

definition token_overlap :: "rstring \<Rightarrow> rstring \<Rightarrow> nat" where
  "token_overlap expected candidate =
     (let e = remdups (split_whitespace expected); c = remdups (split_whitespace candidate)
      in if e = [] \<or> c = [] then 0
         else let common = length (filter (\<lambda>t. t \<in> set c) e) * 2;
                  share = common * 100 div (length e + length c)
              in if share < 2 ^ 16 then share else 100)"

section \<open>Titles\<close>

definition VISUAL_PRESENTATION_MARKERS :: "rstring list list" where
  "VISUAL_PRESENTATION_MARKERS =
     [[str ''official'', str ''music'', str ''video''], [str ''official'', str ''lyric'', str ''video''],
      [str ''official'', str ''visualizer''], [str ''official'', str ''video''],
      [str ''lyric'', str ''video''], [str ''lyrics''], [str ''visualizer'']]"

definition PRESENTATION_MARKERS :: "rstring list list" where
  "PRESENTATION_MARKERS =
     [[str ''official'', str ''music'', str ''video''], [str ''official'', str ''lyric'', str ''video''],
      [str ''official'', str ''visualizer''], [str ''official'', str ''video''], [str ''official'', str ''audio''],
      [str ''lyric'', str ''video''], [str ''lyrics''], [str ''visualizer'']]"

lemma drained_shorter:
  assumes "find_window marker tokens = Some p" and "marker \<noteq> []"
  shows "length (take p tokens @ drop (p + length marker) tokens) < length tokens"
  using find_window_Some [OF assms] assms(2) by (cases marker) auto

text \<open>The loop that drains one marker; a marker is not empty (\<open>windows(0)\<close> would panic).\<close>

function remove_marker :: "'a list \<Rightarrow> 'a list \<Rightarrow> 'a list" where
  "remove_marker marker tokens =
     (case find_window marker tokens of
        None \<Rightarrow> tokens
      | Some p \<Rightarrow> if marker = [] then tokens
                 else remove_marker marker (take p tokens @ drop (p + length marker) tokens))"
  by pat_completeness auto
termination
  by (relation "measure (\<lambda>(marker, tokens). length tokens)") (auto simp del: length_append dest: drained_shorter)

declare remove_marker.simps [simp del]

lemma remove_marker_none: "marker \<noteq> [] \<Longrightarrow> find_window marker (remove_marker marker tokens) = None"
proof (induction marker tokens rule: remove_marker.induct)
  case (1 marker tokens)
  then show ?case
    by (subst remove_marker.simps) (auto split: option.splits)
qed

definition canonical_token :: "rstring \<Rightarrow> rstring" where
  "canonical_token t = (if t = str ''ft'' \<or> t = str ''featuring'' then str ''feat'' else t)"

definition is_artist_credit :: "unicode \<Rightarrow> rstring list \<Rightarrow> rstring \<Rightarrow> bool" where
  "is_artist_credit u artists content =
     (case split_whitespace (normalize u content) of
        [] \<Rightarrow> False
      | marker # parts \<Rightarrow>
          if marker \<notin> {str ''with'', str ''feat'', str ''featuring'', str ''ft''} then False
          else let credited = join [0x20] parts
               in credited \<noteq> [] \<and>
                  list_ex (\<lambda>artist. phrase_present credited artist \<or> phrase_present artist credited \<or>
                     token_overlap artist credited \<ge> 70) (map (normalize u) artists))"

text \<open>The offsets of the next bracket and of the bracket that closes it. The source passes a cursor
  and adds it; here the string is the part after the cursor.\<close>

definition next_group :: "rstring \<Rightarrow> (nat \<times> nat) option" where
  "next_group s =
     (case position (\<lambda>c. c = 0x28 \<or> c = 0x5b) s of
        None \<Rightarrow> None
      | Some opening \<Rightarrow>
          let closing_character = (if s ! opening = 0x28 then 0x29 else 0x5d)
          in map_option (\<lambda>j. (opening, opening + 1 + j))
               (position (\<lambda>c. c = closing_character) (drop (opening + 1) s)))"

lemma position_less: "position P xs = Some i \<Longrightarrow> i < length xs"
  by (induction xs arbitrary: i) (auto split: if_splits)

lemma next_group_less: "next_group s = Some (opening, closing) \<Longrightarrow> opening < closing \<and> closing < length s"
  by (auto simp: next_group_def Let_def dest!: position_less split: option.splits)

function strip_artist_credit_groups :: "unicode \<Rightarrow> rstring list \<Rightarrow> rstring \<Rightarrow> rstring" where
  "strip_artist_credit_groups u artists s =
     (case next_group s of
        None \<Rightarrow> s
      | Some (opening, closing) \<Rightarrow>
          take opening s @
          (if is_artist_credit u artists (take (closing - (opening + 1)) (drop (opening + 1) s)) then [0x20]
           else take (closing + 1 - opening) (drop opening s)) @
          strip_artist_credit_groups u artists (drop (closing + 1) s))"
  by pat_completeness auto
termination
  by (relation "measure (\<lambda>(u, artists, s). length s)") (auto dest: next_group_less)

declare strip_artist_credit_groups.simps [simp del]

definition normalize_title :: "unicode \<Rightarrow> rstring \<Rightarrow> rstring list \<Rightarrow> rstring" where
  "normalize_title u s artists =
     (let canonical = map canonical_token (split_whitespace (normalize u (strip_artist_credit_groups u artists s)));
          semantic = fold remove_marker PRESENTATION_MARKERS canonical
      in if semantic = [] then join [0x20] canonical else join [0x20] semantic)"

definition has_visual_presentation_marker :: "unicode \<Rightarrow> rstring \<Rightarrow> bool" where
  "has_visual_presentation_marker u s =
     list_ex (\<lambda>marker. find_window marker (split_whitespace (normalize u s)) \<noteq> None) VISUAL_PRESENTATION_MARKERS"

text \<open>The last three qualifiers are Japanese, by their code points.\<close>

definition QUALIFIERS :: "rstring list" where
  "QUALIFIERS =
     map str [''live'', ''cover'', ''remix'', ''karaoke'', ''instrumental'', ''nightcore'', ''slowed'', ''sped up'',
       ''radio edit'', ''tribute'', ''impersonator'', ''teaser'', ''acoustic'', ''demo'', ''re recorded'',
       ''remaster'', ''remastered'', ''extended''] @
     [[0x6b4c, 0x3063, 0x3066, 0x307f, 0x305f], [0x30ab, 0x30d0, 0x30fc], [0x30e9, 0x30a4, 0x30d6]]"

definition qualifier_conflict :: "rstring \<Rightarrow> rstring \<Rightarrow> bool" where
  "qualifier_conflict expected candidate =
     list_ex (\<lambda>q. phrase_present candidate q \<noteq> phrase_present expected q) QUALIFIERS"

section \<open>Scores\<close>

definition MINIMUM_SCORE :: nat where "MINIMUM_SCORE = 55"
definition MAXIMUM_CANDIDATES_TO_RESOLVE :: nat where "MAXIMUM_CANDIDATES_TO_RESOLVE = 3"
definition DURATION_TOLERANCE_MS :: u64 where "DURATION_TOLERANCE_MS = 15000"

definition duration_matches :: "u64 option \<Rightarrow> u64 \<Rightarrow> bool" where
  "duration_matches preferred actual =
     (case preferred of None \<Rightarrow> True | Some p \<Rightarrow> abs_diff_u64 p actual \<le> DURATION_TOLERANCE_MS)"

definition artist_score :: "unicode \<Rightarrow> rstring \<Rightarrow> rstring list \<Rightarrow> nat option" where
  "artist_score u candidate_context artists =
     (if artists = [] then Some 10
      else let matched = min 2 (length (filter (\<lambda>artist. artist \<noteq> [] \<and>
                 list_all (\<lambda>token. phrase_present candidate_context token) (split_whitespace artist))
               (map (normalize u) artists)))
           in if matched > 0 then Some (matched * 15) else None)"

definition or_empty :: "rstring option \<Rightarrow> rstring" where
  "or_empty s = (case s of None \<Rightarrow> [] | Some x \<Rightarrow> x)"

definition title_score :: "rstring \<Rightarrow> rstring \<Rightarrow> nat" where
  "title_score expected title =
     (if title = expected then 65
      else if phrase_present title expected \<or> phrase_present expected title then 55
      else token_overlap expected title * 55 div 100)"

text \<open>\<open>None\<close> for a duration out of tolerance.\<close>

definition duration_score :: "u64 option \<Rightarrow> u64 option \<Rightarrow> nat option" where
  "duration_score preferred actual =
     (case (preferred, actual) of
        (Some e, Some a) \<Rightarrow>
          if \<not> duration_matches (Some e) a then None
          else if abs_diff_u64 e a \<le> max (e div 20) 5000 then Some 15
          else Some 5
      | _ \<Rightarrow> Some 0)"

definition candidate_score :: "unicode \<Rightarrow> site_reference \<Rightarrow> site_search \<Rightarrow> nat option" where
  "candidate_score u candidate search =
     (case sr_title candidate of
        None \<Rightarrow> None
      | Some raw_title \<Rightarrow>
          let title = normalize_title u raw_title (ss_expected_artists search);
              expected = normalize_title u (ss_expected_title search) (ss_expected_artists search)
          in if qualifier_conflict expected title then None
             else if title_score expected title < 30 then None
             else
               let candidate_context = normalize u (raw_title @ [0x20] @ or_empty (sr_artist candidate));
                   expected_context =
                     normalize u (ss_expected_title search @ [0x20] @ join [0x20] (ss_expected_artists search))
               in if qualifier_conflict expected_context candidate_context then None
                  else (case artist_score u candidate_context (ss_expected_artists search) of
                    None \<Rightarrow> None
                  | Some for_artist \<Rightarrow>
                      (case duration_score (ss_preferred_duration_ms search) (sr_duration_ms candidate) of
                         None \<Rightarrow> None
                       | Some for_duration \<Rightarrow>
                           let penalty = (if has_visual_presentation_marker u raw_title then 10 else 0)
                           in Some (title_score expected title + for_artist + for_duration - penalty))))"

definition scored_candidates ::
  "unicode \<Rightarrow> site_reference list \<Rightarrow> site_search \<Rightarrow> (nat \<times> site_reference) list" where
  "scored_candidates u candidates search =
     List.map_filter (\<lambda>c. map_option (\<lambda>score. (score, c)) (candidate_score u c search)) candidates"

definition ranked_candidates ::
  "unicode \<Rightarrow> site_reference list \<Rightarrow> site_search \<Rightarrow> site_error + site_reference list" where
  "ranked_candidates u candidates search =
     (let scored = sort_key (\<lambda>(score, _). - int score) (scored_candidates u candidates search)
      in case scored of
           [] \<Rightarrow> Inl NoSearchMatch
         | (best, _) # _ \<Rightarrow>
             if best < MINIMUM_SCORE then Inl NoSearchMatch
             else Inr (map snd (take MAXIMUM_CANDIDATES_TO_RESOLVE
                    (filter (\<lambda>(score, _). score \<ge> MINIMUM_SCORE) scored))))"

definition resolved_matches :: "unicode \<Rightarrow> site_resolved_track \<Rightarrow> site_search \<Rightarrow> bool" where
  "resolved_matches u candidate search =
     (case candidate_score u
             \<lparr>sr_provider = srt_provider candidate, sr_page_url = srt_page_url candidate,
              sr_title = Some (srt_title candidate), sr_artist = srt_artist candidate,
              sr_duration_ms = Some (srt_duration_ms candidate)\<rparr> search of
        None \<Rightarrow> False
      | Some score \<Rightarrow> score \<ge> MINIMUM_SCORE)"

section \<open>Bounds of the scores\<close>

lemma token_overlap_le: "token_overlap expected candidate \<le> 100"
proof -
  let ?e = "remdups (split_whitespace expected)" and ?c = "remdups (split_whitespace candidate)"
  let ?n = "length (filter (\<lambda>t. t \<in> set ?c) ?e)"
  have "?n = card (set (filter (\<lambda>t. t \<in> set ?c) ?e))"
    by (intro distinct_card [symmetric] distinct_filter distinct_remdups)
  also have "\<dots> \<le> card (set ?c)" by (intro card_mono) auto
  also have "\<dots> = length ?c" by (rule distinct_card) simp
  finally have "?n \<le> length ?c" .
  moreover have "?n \<le> length ?e" by (rule length_filter_le)
  moreover have "n * 2 * 100 \<le> 100 * (e + c)" if "n \<le> c" "n \<le> e" for n e c :: nat
    using that by simp
  ultimately have "?n * 2 * 100 \<le> 100 * (length ?e + length ?c)" by blast
  then have "?n * 2 * 100 div (length ?e + length ?c) \<le> 100 * (length ?e + length ?c) div (length ?e + length ?c)"
    by (rule div_le_mono)
  also have "100 * m div m \<le> 100" for m :: nat by (cases "m = 0") simp_all
  finally have "?n * 2 * 100 div (length ?e + length ?c) \<le> 100" .
  then show ?thesis by (simp add: token_overlap_def Let_def)
qed

lemma title_score_le: "title_score expected title \<le> 65"
proof -
  have "token_overlap expected title * 55 div 100 \<le> 100 * 55 div 100"
    by (intro div_le_mono mult_le_mono1 token_overlap_le)
  then show ?thesis by (simp add: title_score_def)
qed

lemma artist_score_le: "artist_score u context artists = Some n \<Longrightarrow> n \<le> 30"
  by (auto simp: artist_score_def Let_def split: if_splits)

lemma duration_score_le: "duration_score preferred actual = Some n \<Longrightarrow> n \<le> 15"
  by (auto simp: duration_score_def split: option.splits if_splits)

text \<open>What a scored candidate satisfies.\<close>

definition plausible :: "unicode \<Rightarrow> site_search \<Rightarrow> site_reference \<Rightarrow> bool" where
  "plausible u search c \<longleftrightarrow> (\<exists>raw_title. sr_title c = Some raw_title \<and>
     (let artists = ss_expected_artists search
      in (\<forall>q \<in> set QUALIFIERS.
            phrase_present (normalize_title u raw_title artists) q \<longleftrightarrow>
            phrase_present (normalize_title u (ss_expected_title search) artists) q) \<and>
         (artists = [] \<or> (\<exists>artist \<in> set artists. \<forall>token \<in> set (split_whitespace (normalize u artist)).
            phrase_present (normalize u (raw_title @ [0x20] @ or_empty (sr_artist c))) token)))) \<and>
     (\<forall>e a. ss_preferred_duration_ms search = Some e \<and> sr_duration_ms c = Some a \<longrightarrow>
        unat (abs_diff_u64 e a) \<le> 15000)"

lemma artist_score_some:
  assumes "artist_score u context artists = Some n"
  shows "artists = [] \<or> (\<exists>artist \<in> set artists. \<forall>token \<in> set (split_whitespace (normalize u artist)).
    phrase_present context token)"
proof (rule ccontr)
  assume "\<not> ?thesis"
  then have none: "artists \<noteq> []"
    "\<forall>artist \<in> set artists. \<exists>token \<in> set (split_whitespace (normalize u artist)). \<not> phrase_present context token"
    by blast+
  then have "filter (\<lambda>artist. artist \<noteq> [] \<and> list_all (\<lambda>token. phrase_present context token)
      (split_whitespace artist)) (map (normalize u) artists) = []"
    by (auto simp: filter_empty_conv list_all_iff)
  with assms none(1) show False by (simp add: artist_score_def)
qed

lemma candidate_score_some:
  assumes "candidate_score u c search = Some n"
  shows "plausible u search c \<and> n \<le> 110"
proof -
  obtain raw where raw: "sr_title c = Some raw"
    using assms by (cases "sr_title c") (auto simp: candidate_score_def)
  let ?artists = "ss_expected_artists search"
  let ?title = "normalize_title u raw ?artists"
  let ?expected = "normalize_title u (ss_expected_title search) ?artists"
  let ?described = "normalize u (raw @ [0x20] @ or_empty (sr_artist c))"
  have q: "\<not> qualifier_conflict ?expected ?title"
    by (rule ccontr) (use assms raw in \<open>simp add: candidate_score_def Let_def\<close>)
  obtain a d where parts: "artist_score u ?described ?artists = Some a"
    "duration_score (ss_preferred_duration_ms search) (sr_duration_ms c) = Some d"
    "n \<le> title_score ?expected ?title + a + d"
    using assms raw q by (auto simp: candidate_score_def Let_def split: if_splits option.splits)
  have "unat (abs_diff_u64 e x) \<le> 15000"
    if "ss_preferred_duration_ms search = Some e" "sr_duration_ms c = Some x" for e x
    using parts(2) that
    by (auto simp: duration_score_def duration_matches_def DURATION_TOLERANCE_MS_def word_le_nat_alt split: if_splits)
  then have "plausible u search c"
    using q artist_score_some [OF parts(1)] raw
    by (auto simp: plausible_def qualifier_conflict_def list_ex_iff Let_def)
  moreover have "n \<le> 110"
    using parts(3) title_score_le [of ?expected ?title] artist_score_le [OF parts(1)] duration_score_le [OF parts(2)]
    by linarith
  ultimately show ?thesis ..
qed

section \<open>The ranking\<close>

lemma scored_mem:
  "(n, c) \<in> set (scored_candidates u candidates search) \<longleftrightarrow> c \<in> set candidates \<and> candidate_score u c search = Some n"
  by (force simp: scored_candidates_def List.map_filter_def)

lemma ranking_spec:
  assumes "ranked_candidates u candidates search = Inr chosen"
  defines "scored \<equiv> sort_key (\<lambda>(score, _). - int score) (scored_candidates u candidates search)"
  shows "chosen = map snd (take 3 (filter (\<lambda>(score, _). 55 \<le> score) scored)) \<and> chosen \<noteq> []"
proof -
  obtain best c rest where scored: "scored = (best, c) # rest"
    using assms(1) unfolding scored_def [symmetric] ranked_candidates_def Let_def
    by (cases scored) auto
  have "55 \<le> best" "chosen = map snd (take 3 (filter (\<lambda>(score, _). 55 \<le> score) scored))"
    using assms(1) scored
    by (auto simp: ranked_candidates_def Let_def scored_def [symmetric] MINIMUM_SCORE_def
        MAXIMUM_CANDIDATES_TO_RESOLVE_def split: if_splits)
  then show ?thesis by (simp add: scored)
qed

text \<open>The ranking returns at most three of the candidates, best first, each scoring at least the
  minimum, and leaves out no better one. Each agrees with the request on every
  version qualifier (live, cover, remix and the others), names a requested artist, and lies
  within fifteen seconds of the wanted length when both are known.\<close>

theorem ranked_candidates_are_plausible:
  assumes "ranked_candidates u candidates search = Inr chosen"
  shows "chosen \<noteq> [] \<and> length chosen \<le> 3 \<and>
    (\<forall>c \<in> set chosen. c \<in> set candidates \<and> plausible u search c \<and>
       (\<exists>n. candidate_score u c search = Some n \<and> 55 \<le> n \<and> n \<le> 110)) \<and>
    sorted_wrt (\<lambda>a b. the (candidate_score u b search) \<le> the (candidate_score u a search)) chosen \<and>
    (\<forall>c \<in> set candidates. \<forall>n. candidate_score u c search = Some n \<and> 55 \<le> n \<and> c \<notin> set chosen \<longrightarrow>
       length chosen = 3 \<and> (\<forall>b \<in> set chosen. n \<le> the (candidate_score u b search)))"
proof -
  define scored where "scored = sort_key (\<lambda>(score, _). - int score) (scored_candidates u candidates search)"
  define good where "good = filter (\<lambda>(score, _). 55 \<le> score) scored"
  have chosen: "chosen = map snd (take 3 good)" "chosen \<noteq> []"
    using ranking_spec [OF assms] unfolding good_def scored_def by blast+
  have mem: "(n, c) \<in> set good \<longleftrightarrow> 55 \<le> n \<and> c \<in> set candidates \<and> candidate_score u c search = Some n" for n c
    by (auto simp: good_def scored_def scored_mem)
  have sorted: "sorted_wrt (\<lambda>x y. fst y \<le> fst x) good"
  proof -
    have "sorted (map (\<lambda>(score, _). - int score) scored)" by (simp add: scored_def)
    then have "sorted_wrt (\<lambda>x y. fst y \<le> fst x) scored"
      by (simp add: sorted_map case_prod_beta)
    then show ?thesis by (simp add: good_def sorted_wrt_filter)
  qed
  have score: "the (candidate_score u (snd x) search) = fst x" if "x \<in> set good" for x
    using that mem [of "fst x" "snd x"] by simp
  have in_good: "x \<in> set good" if "x \<in> set (take 3 good)" for x
    using that by (rule in_set_takeD)
  have each: "c \<in> set candidates \<and> plausible u search c \<and> (\<exists>n. candidate_score u c search = Some n \<and> 55 \<le> n \<and> n \<le> 110)"
    if "c \<in> set chosen" for c
  proof -
    from that obtain n where "(n, c) \<in> set good" by (auto simp: chosen(1) dest: in_good)
    then show ?thesis using candidate_score_some by (auto simp: mem)
  qed
  have "sorted_wrt (\<lambda>x y. fst y \<le> fst x) (take 3 good)" using sorted by (rule sorted_wrt_take)
  then have order: "sorted_wrt (\<lambda>a b. the (candidate_score u b search) \<le> the (candidate_score u a search)) chosen"
    using score [OF in_good]
    by (fastforce simp: chosen(1) sorted_wrt_map elim!: sorted_wrt_mono_rel [rotated])
  have rest: "length chosen = 3 \<and> (\<forall>b \<in> set chosen. n \<le> the (candidate_score u b search))"
    if c: "c \<in> set candidates" "candidate_score u c search = Some n" "55 \<le> n" "c \<notin> set chosen" for c n
  proof -
    have "(n, c) \<in> set good" using c mem by blast
    moreover have "(n, c) \<notin> set (take 3 good)" using c(4) by (force simp: chosen(1))
    ultimately have out: "(n, c) \<in> set (drop 3 good)" by (metis Un_iff append_take_drop_id set_append)
    then have "3 < length good" by (cases "3 < length good") auto
    moreover have "n \<le> the (candidate_score u (snd b) search)" if b: "b \<in> set (take 3 good)" for b
    proof -
      have "sorted_wrt (\<lambda>x y. fst y \<le> fst x) (take 3 good @ drop 3 good)"
        using sorted by (simp only: append_take_drop_id)
      then have "n \<le> fst b" using b out unfolding sorted_wrt_append by fastforce
      then show ?thesis using score [OF in_good [OF b]] by simp
    qed
    ultimately show ?thesis by (auto simp: chosen(1))
  qed
  show ?thesis using chosen each order rest by (auto simp: chosen(1))
qed

text \<open>An ASCII table, one candidate whose title is the requested one.\<close>

definition ascii_table :: unicode where
  "ascii_table = \<lparr>uc_lowercase = (\<lambda>c. [if is_ascii_uppercase c then c + 0x20 else c]),
     uc_alphanumeric = is_ascii_alphanumeric\<rparr>"

definition sample_search :: site_search where
  "sample_search = \<lparr>ss_query = [0x41], ss_expected_title = [0x41], ss_expected_artists = [],
     ss_preferred_duration_ms = Some 180000, ss_isrc = None\<rparr>"

definition sample_reference :: site_reference where
  "sample_reference = \<lparr>sr_provider = SiteYouTube, sr_page_url = [0x70], sr_title = Some [0x61], sr_artist = None,
     sr_duration_ms = Some 181000\<rparr>"

lemma qualifier_conflict_refl [simp]: "\<not> qualifier_conflict s s"
  by (simp add: qualifier_conflict_def list_ex_iff)

lemma sample_normalize:
  "normalize ascii_table [0x41] = [0x61]" "normalize ascii_table [0x61] = [0x61]"
  "normalize ascii_table [0x61, 0x20] = [0x61]" "normalize ascii_table [0x41, 0x20] = [0x61]"
  by (simp_all add: normalize_def ascii_table_def is_ascii_uppercase_def is_ascii_alphanumeric_def
      is_ascii_lowercase_def is_ascii_digit_def split_whitespace_def is_whitespace_def)

lemma sample_words: "split_whitespace [0x61] = [[0x61]]"
  by (simp add: split_whitespace_def is_whitespace_def)

lemma sample_markers:
  "\<forall>marker \<in> set PRESENTATION_MARKERS \<union> set VISUAL_PRESENTATION_MARKERS. find_window marker [[0x61]] = None"
proof -
  have "find_window marker [[0x61]] = None" if "[0x61] \<notin> set marker" "marker \<noteq> []" for marker :: "rstring list"
    using that by (cases marker) auto
  then show ?thesis
    by (auto simp: PRESENTATION_MARKERS_def VISUAL_PRESENTATION_MARKERS_def str_def simp del: find_window.simps)
qed

lemma sample_title: "c = 0x41 \<or> c = 0x61 \<Longrightarrow> normalize_title ascii_table [c] [] = [0x61]"
proof -
  assume c: "c = 0x41 \<or> c = 0x61"
  have "strip_artist_credit_groups ascii_table [] [c] = [c]"
    using c by (auto simp: strip_artist_credit_groups.simps next_group_def)
  moreover have "fold remove_marker PRESENTATION_MARKERS [[0x61]] = [[0x61]]"
    using sample_markers
    by (intro fold_invariant [of PRESENTATION_MARKERS "\<lambda>m. m \<in> set PRESENTATION_MARKERS" "\<lambda>x. x = [[0x61]]"])
      (simp_all add: remove_marker.simps [of _ "[[0x61]]"] del: find_window.simps)
  moreover have "canonical_token [0x61] = [0x61]" by (simp add: canonical_token_def str_def)
  ultimately show ?thesis using c by (auto simp: normalize_title_def sample_normalize sample_words)
qed

lemma sample_no_marker: "c = 0x41 \<or> c = 0x61 \<Longrightarrow> \<not> has_visual_presentation_marker ascii_table [c]"
  using sample_markers
  by (auto simp: has_visual_presentation_marker_def sample_normalize sample_words list_ex_iff simp del: find_window.simps)

lemma sample_score: "candidate_score ascii_table sample_reference sample_search = Some 90"
  by (simp add: candidate_score_def sample_reference_def sample_search_def sample_title title_score_def sample_normalize
      or_empty_def artist_score_def duration_score_def duration_matches_def DURATION_TOLERANCE_MS_def
      abs_diff_u64_def max_def sample_no_marker)

lemma ranked_candidates_are_plausible_witness:
  "ranked_candidates ascii_table [sample_reference] sample_search = Inr [sample_reference] \<and>
     plausible ascii_table sample_search sample_reference"
proof -
  have "ranked_candidates ascii_table [sample_reference] sample_search = Inr [sample_reference]"
    by (simp add: ranked_candidates_def scored_candidates_def List.map_filter_simps sample_score MINIMUM_SCORE_def
        MAXIMUM_CANDIDATES_TO_RESOLVE_def)
  from ranked_candidates_are_plausible [OF this] this show ?thesis by simp
qed

end
