(* ===== verification/Media_Extractor.thy ===== *)
theory Media_Extractor
  imports Media_Matching "HOL-Library.Product_Lexorder"
begin

text \<open>
  The extractor client, \<open>crates/pepeaudio-media/src/site/command.rs\<close>, \<open>site/client.rs\<close>
  and the command record of \<open>tools/spec.rs\<close>. Running a tool is an argument: it answers a
  command with a process error or with its standard output, already read as text for the
  version checks and as JSON for the others.
\<close>

section \<open>Commands\<close>

record command_spec =
  cs_program :: rstring
  cs_arguments :: "rstring list"
  cs_deno_directory :: "rstring option"
  cs_classify_unavailable_media :: bool

definition command_spec_new :: "rstring \<Rightarrow> rstring list \<Rightarrow> command_spec" where
  "command_spec_new program arguments =
     \<lparr>cs_program = program, cs_arguments = arguments, cs_deno_directory = None,
      cs_classify_unavailable_media = False\<rparr>"

definition with_deno_directory :: "rstring \<Rightarrow> command_spec \<Rightarrow> command_spec" where
  "with_deno_directory directory c = c\<lparr>cs_deno_directory := Some directory\<rparr>"

definition classify_unavailable_media :: "command_spec \<Rightarrow> command_spec" where
  "classify_unavailable_media c = c\<lparr>cs_classify_unavailable_media := True\<rparr>"

definition specification_of :: "yt_dlp_config \<Rightarrow> rstring list \<Rightarrow> command_spec" where
  "specification_of config arguments =
     with_deno_directory (deno_directory config) (command_spec_new (yt_executable config) arguments)"

text \<open>\<open>Path::join\<close> of a directory and a plain name.\<close>

definition base_arguments :: "yt_dlp_config \<Rightarrow> site_provider \<Rightarrow> rstring list" where
  "base_arguments config provider =
     map str [''--ignore-config'', ''--no-config-locations'', ''--no-plugin-dirs'', ''--no-remote-components'',
       ''--no-cookies'', ''--cache-dir''] @
     [deno_directory config @ str ''/yt-dlp-cache''] @
     map str [''--no-exec'', ''--quiet'', ''--no-warnings'', ''--no-progress'', ''--color'', ''no_color'',
       ''--socket-timeout'', ''10'', ''--retries'', ''1'', ''--extractor-retries'', ''1'', ''--no-wait-for-video'',
       ''--js-runtimes''] @
     [str ''deno:'' @ deno_executable config, str ''--use-extractors'', extractor_allowlist provider]"

definition discover :: "yt_dlp_config \<Rightarrow> site_provider \<Rightarrow> rstring \<Rightarrow> nat \<Rightarrow> command_spec" where
  "discover config provider input maximum_plus_one =
     specification_of config (base_arguments config provider @
       [str ''--flat-playlist'', str ''--playlist-items'', str ''1:'' @ decimal_digits maximum_plus_one,
        str ''--dump-single-json'', str ''--skip-download'', str ''--'', input])"

definition resolve_spec :: "yt_dlp_config \<Rightarrow> site_reference \<Rightarrow> command_spec" where
  "resolve_spec config reference =
     classify_unavailable_media (specification_of config (base_arguments config (sr_provider reference) @
       [str ''--no-playlist'', str ''--format'', format_selector (sr_provider reference),
        str ''--dump-single-json'', str ''--skip-download'', str ''--'', sr_page_url reference]))"

definition search_spec :: "yt_dlp_config \<Rightarrow> site_provider \<Rightarrow> rstring \<Rightarrow> command_spec" where
  "search_spec config provider query = discover config provider (search_prefix provider @ query) 5"

definition resolve_query_spec :: "yt_dlp_config \<Rightarrow> site_provider \<Rightarrow> rstring \<Rightarrow> command_spec" where
  "resolve_query_spec config provider query =
     classify_unavailable_media (specification_of config (base_arguments config provider @
       [str ''--no-playlist'', str ''--playlist-items'', str ''1'', str ''--format'', format_selector provider,
        str ''--dump-single-json'', str ''--skip-download'', str ''--'', single_search_prefix provider @ query]))"

definition ytdlp_version_spec :: "yt_dlp_config \<Rightarrow> command_spec" where
  "ytdlp_version_spec config =
     with_deno_directory (deno_directory config) (command_spec_new (yt_executable config) [str ''--version''])"

definition deno_version_spec :: "yt_dlp_config \<Rightarrow> command_spec" where
  "deno_version_spec config =
     with_deno_directory (deno_directory config) (command_spec_new (deno_executable config) [str ''--version''])"

section \<open>The client\<close>

record output_limits =
  ol_timeout :: nat
  ol_max_stdout_bytes :: nat
  ol_max_stderr_bytes :: nat

definition discovery_limits :: output_limits where
  "discovery_limits = \<lparr>ol_timeout = 60 * 10 ^ 9, ol_max_stdout_bytes = 4 * 1024 * 1024, ol_max_stderr_bytes = 64 * 1024\<rparr>"

definition resolve_limits :: output_limits where
  "resolve_limits = \<lparr>ol_timeout = 45 * 10 ^ 9, ol_max_stdout_bytes = 2 * 1024 * 1024, ol_max_stderr_bytes = 64 * 1024\<rparr>"

definition version_limits :: output_limits where
  "version_limits = \<lparr>ol_timeout = 5 * 10 ^ 9, ol_max_stdout_bytes = 4 * 1024, ol_max_stderr_bytes = 4 * 1024\<rparr>"

record 'f yt_dlp_client =
  yc_config :: yt_dlp_config
  yc_env :: "'f site_env"
  yc_unicode :: unicode
  yc_run :: "command_spec \<Rightarrow> output_limits \<Rightarrow> process_error + 'f raw_info option"
  yc_run_text :: "command_spec \<Rightarrow> output_limits \<Rightarrow> process_error + rstring option"

text \<open>A run whose process error becomes a site error, then what reads its output.\<close>

definition run_then ::
  "'f yt_dlp_client \<Rightarrow> command_spec \<Rightarrow> output_limits \<Rightarrow> ('f raw_info option \<Rightarrow> site_error + 'a) \<Rightarrow> site_error + 'a" where
  "run_then c spec limits reading =
     (case yc_run c spec limits of Inl e \<Rightarrow> Inl (site_error_from_process e) | Inr json \<Rightarrow> reading json)"

definition supported_provider :: "'f yt_dlp_client \<Rightarrow> rstring \<Rightarrow> site_error + site_provider" where
  "supported_provider c raw =
     (case classify (se_parse (yc_env c)) raw of
        Inl e \<Rightarrow> Inl e
      | Inr None \<Rightarrow> Inl SiteInvalidUrl
      | Inr (Some provider) \<Rightarrow> Inr provider)"

definition discover_url :: "'f yt_dlp_client \<Rightarrow> rstring \<Rightarrow> nat \<Rightarrow> site_error + site_collection" where
  "discover_url c raw maximum_items =
     (if maximum_items = 0 \<or> maximum_items > maximum_playlist_items (yc_config c) then Inl SiteInvalidConfig
      else case supported_provider c raw of
        Inl e \<Rightarrow> Inl e
      | Inr provider \<Rightarrow>
          run_then c (discover (yc_config c) provider raw (min (2 ^ 64 - 1) (maximum_items + 1))) discovery_limits
            (\<lambda>json. collection (yc_env c) json provider raw maximum_items))"

definition client_is_single_item_url :: "'f yt_dlp_client \<Rightarrow> rstring \<Rightarrow> site_error + bool" where
  "client_is_single_item_url c raw =
     (case supported_provider c raw of
        Inl e \<Rightarrow> Inl e
      | Inr provider \<Rightarrow> is_single_item_url (se_parse (yc_env c)) provider raw)"

definition client_resolve :: "'f yt_dlp_client \<Rightarrow> site_reference \<Rightarrow> site_error + site_resolved_track" where
  "client_resolve c reference =
     run_then c (resolve_spec (yc_config c) reference) resolve_limits
       (\<lambda>json. resolved (yc_env c) json reference (yc_config c))"

definition resolve_page :: "'f yt_dlp_client \<Rightarrow> rstring \<Rightarrow> site_error + site_resolved_track" where
  "resolve_page c raw =
     (case supported_provider c raw of
        Inl e \<Rightarrow> Inl e
      | Inr provider \<Rightarrow>
          (case is_single_item_url (se_parse (yc_env c)) provider raw of
             Inl e \<Rightarrow> Inl e
           | Inr single \<Rightarrow>
               if \<not> single then Inl SiteInvalidUrl
               else client_resolve c \<lparr>sr_provider = provider, sr_page_url = raw, sr_title = None, sr_artist = None,
                      sr_duration_ms = None\<rparr>))"

definition resolve_first_result :: "'f yt_dlp_client \<Rightarrow> site_provider \<Rightarrow> rstring \<Rightarrow> site_error + site_resolved_track" where
  "resolve_first_result c provider query =
     run_then c (resolve_query_spec (yc_config c) provider query) resolve_limits
       (\<lambda>json. resolved_search (yc_env c) json provider (yc_config c))"

text \<open>The loop over the two providers.\<close>

fun first_of_providers :: "'f yt_dlp_client \<Rightarrow> rstring \<Rightarrow> site_provider list \<Rightarrow> site_error + site_resolved_track" where
  "first_of_providers c query [] = Inl NoSearchMatch"
| "first_of_providers c query (provider # rest) =
     (case resolve_first_result c provider query of
        Inr track \<Rightarrow> Inr track
      | Inl e \<Rightarrow> if e = NoSearchMatch \<or> e = UnsupportedStream then first_of_providers c query rest else Inl e)"

definition resolve_query :: "'f yt_dlp_client \<Rightarrow> rstring \<Rightarrow> site_error + site_resolved_track" where
  "resolve_query c query =
     (if trim query = [] \<or> str_len query > 256 \<or> has_control query then Inl InvalidSearch
      else first_of_providers c query [SiteYouTube, SiteSoundCloud])"

fun first_resolvable ::
  "'f yt_dlp_client \<Rightarrow> site_search \<Rightarrow> site_reference list \<Rightarrow> site_error + site_resolved_track" where
  "first_resolvable c search [] = Inl NoSearchMatch"
| "first_resolvable c search (reference # rest) =
     (case client_resolve c reference of
        Inr track \<Rightarrow>
          if duration_matches (ss_preferred_duration_ms search) (srt_duration_ms track) then Inr track
          else first_resolvable c search rest
      | Inl e \<Rightarrow> if e = NoSearchMatch \<or> e = UnsupportedStream then first_resolvable c search rest else Inl e)"

definition search_provider :: "'f yt_dlp_client \<Rightarrow> site_search \<Rightarrow> site_provider \<Rightarrow> site_error + site_resolved_track" where
  "search_provider c search provider =
     run_then c (search_spec (yc_config c) provider (ss_query search)) resolve_limits
       (\<lambda>json. case search_collection (yc_env c) json provider (search_prefix provider @ ss_query search) 5 of
          Inl e \<Rightarrow> Inl e
        | Inr found \<Rightarrow>
            (case ranked_candidates (yc_unicode c) (sc_entries found) search of
               Inl e \<Rightarrow> Inl e
             | Inr candidates \<Rightarrow> first_resolvable c search candidates))"

definition resolve_search :: "'f yt_dlp_client \<Rightarrow> site_search \<Rightarrow> site_error + site_resolved_track" where
  "resolve_search c search =
     (let on_soundcloud =
            (case search_provider c search SiteSoundCloud of
               Inr track \<Rightarrow> Inr track
             | Inl e \<Rightarrow> if e = NoSearchMatch \<or> e = UnsupportedStream then Inl NoSearchMatch else Inl e);
          on_youtube =
            (case search_provider c search SiteYouTube of
               Inr track \<Rightarrow> Inr track
             | Inl e \<Rightarrow> if e = NoSearchMatch \<or> e = UnsupportedStream then on_soundcloud else Inl e)
      in case resolve_first_result c SiteYouTube (ss_query search) of
           Inr track \<Rightarrow> if resolved_matches (yc_unicode c) track search then Inr track else on_youtube
         | Inl e \<Rightarrow>
             if e = UnsupportedStream then on_youtube
             else if e = NoSearchMatch then on_soundcloud
             else Inl e)"

section \<open>Tool versions\<close>

definition first_line :: "rstring \<Rightarrow> rstring option" where
  "first_line s =
     (if s = [] then None
      else let line = takeWhile (\<lambda>c. c \<noteq> 0x0a) s
           in Some (if 0x0a \<in> set s \<and> line \<noteq> [] \<and> last line = 0x0d then butlast line else line))"

fun split_on :: "rchar \<Rightarrow> rstring \<Rightarrow> rstring \<Rightarrow> rstring list" where
  "split_on sep run [] = [run]"
| "split_on sep run (c # cs) = (if c = sep then run # split_on sep [] cs else split_on sep (run @ [c]) cs)"

definition parse_u32 :: "rstring \<Rightarrow> nat option" where
  "parse_u32 s =
     (case from_str_radix 10 s of None \<Rightarrow> None | Some v \<Rightarrow> if unat v < 2 ^ 32 then Some (unat v) else None)"

definition parse_version :: "rstring \<Rightarrow> (nat \<times> nat \<times> nat) option" where
  "parse_version s =
     (case split_on 0x2e [] (trim s) of
        [a, b, c] \<Rightarrow>
          (case (parse_u32 a, parse_u32 b, parse_u32 c) of
             (Some x, Some y, Some z) \<Rightarrow> Some (x, y, z)
           | _ \<Rightarrow> None)
      | _ \<Rightarrow> None)"

definition at_least :: "nat \<times> nat \<times> nat \<Rightarrow> nat \<times> nat \<times> nat \<Rightarrow> bool" where
  "at_least version minimum \<longleftrightarrow> minimum \<le> version"

definition verify_ytdlp_version :: "rstring option \<Rightarrow> site_error + unit" where
  "verify_ytdlp_version output =
     (case Option.bind (Option.bind output first_line) parse_version of
        None \<Rightarrow> Inl UnsupportedToolVersion
      | Some version \<Rightarrow> if at_least version (2026, 8, 19) then Inr () else Inl UnsupportedToolVersion)"

definition strip_prefix :: "rstring \<Rightarrow> rstring \<Rightarrow> rstring option" where
  "strip_prefix prefix s =
     (if take (length prefix) s = prefix then Some (drop (length prefix) s) else None)"

definition verify_deno_version :: "rstring option \<Rightarrow> site_error + unit" where
  "verify_deno_version output =
     (case Option.bind (Option.bind (Option.bind (Option.bind output first_line) (strip_prefix (str ''deno '')))
             (\<lambda>line. case split_whitespace line of [] \<Rightarrow> None | word # _ \<Rightarrow> Some word)) parse_version of
        None \<Rightarrow> Inl UnsupportedToolVersion
      | Some version \<Rightarrow> if at_least version (2, 3, 0) then Inr () else Inl UnsupportedToolVersion)"

definition verify_tools :: "'f yt_dlp_client \<Rightarrow> site_error + unit" where
  "verify_tools c =
     (case yc_run_text c (ytdlp_version_spec (yc_config c)) version_limits of
        Inl e \<Rightarrow> Inl (site_error_from_process e)
      | Inr output \<Rightarrow>
          (case verify_ytdlp_version output of
             Inl e \<Rightarrow> Inl e
           | Inr _ \<Rightarrow>
               (case yc_run_text c (deno_version_spec (yc_config c)) version_limits of
                  Inl e \<Rightarrow> Inl (site_error_from_process e)
                | Inr text \<Rightarrow> verify_deno_version text)))"

section \<open>Where the input stands among the arguments\<close>

text \<open>What a user types is the last argument of the extractor, behind the end-of-options marker; the
  arguments before it depend only on the configuration, the provider and the requested length, and
  switch user configuration, cookies, plugins and the execution hook off.\<close>

lemma user_input_is_never_an_option:
  "\<exists>discovering querying resolving.
     (\<forall>input provider n. cs_arguments (discover config provider input n) = discovering provider n @ [str ''--'', input]) \<and>
     (\<forall>query provider. cs_arguments (resolve_query_spec config provider query) =
        querying provider @ [str ''--'', single_search_prefix provider @ query]) \<and>
     (\<forall>reference. cs_arguments (resolve_spec config reference) =
        resolving (sr_provider reference) @ [str ''--'', sr_page_url reference]) \<and>
     (\<forall>provider n. \<forall>before \<in> {discovering provider n, querying provider, resolving provider}.
        set (map str [''--ignore-config'', ''--no-cookies'', ''--no-plugin-dirs'', ''--no-exec'']) \<subseteq> set before)"
proof -
  let ?b = "base_arguments config"
  let ?d = "\<lambda>provider n. ?b provider @ [str ''--flat-playlist'', str ''--playlist-items'',
    str ''1:'' @ decimal_digits n, str ''--dump-single-json'', str ''--skip-download'']"
  let ?q = "\<lambda>provider. ?b provider @ [str ''--no-playlist'', str ''--playlist-items'', str ''1'', str ''--format'',
    format_selector provider, str ''--dump-single-json'', str ''--skip-download'']"
  let ?r = "\<lambda>provider. ?b provider @ [str ''--no-playlist'', str ''--format'', format_selector provider,
    str ''--dump-single-json'', str ''--skip-download'']"
  have safe: "set (map str [''--ignore-config'', ''--no-cookies'', ''--no-plugin-dirs'', ''--no-exec'']) \<subseteq>
      set (?b provider @ rest)" for provider rest
    by (simp add: base_arguments_def)
  have f4: "\<forall>before \<in> {?d provider n, ?q provider, ?r provider}.
      set (map str [''--ignore-config'', ''--no-cookies'', ''--no-plugin-dirs'', ''--no-exec'']) \<subseteq> set before" for provider n
    using safe by blast
  have f1: "cs_arguments (discover config provider input n) = ?d provider n @ [str ''--'', input]" for input provider n
    by (simp add: discover_def specification_of_def with_deno_directory_def command_spec_new_def)
  have f2: "cs_arguments (resolve_query_spec config provider query) =
      ?q provider @ [str ''--'', single_search_prefix provider @ query]" for query provider
    by (simp add: resolve_query_spec_def classify_unavailable_media_def specification_of_def with_deno_directory_def
        command_spec_new_def)
  have f3: "cs_arguments (resolve_spec config reference) =
      ?r (sr_provider reference) @ [str ''--'', sr_page_url reference]" for reference
    by (simp add: resolve_spec_def classify_unavailable_media_def specification_of_def with_deno_directory_def
        command_spec_new_def)
  show ?thesis
    by (intro exI [of _ ?d] exI [of _ ?q] exI [of _ ?r] conjI allI; (rule f1 | rule f2 | rule f3 | rule f4))
qed

lemma user_input_is_never_an_option_witness:
  "\<exists>before. cs_arguments (discover sample_yt_config SiteYouTube (str ''--exec=rm'') 2) = before @ [str ''--'', str ''--exec=rm'']"
  using user_input_is_never_an_option [of sample_yt_config] by blast

section \<open>What a search resolves to\<close>

lemma run_then_ok:
  "run_then c spec limits reading = Inr x \<longleftrightarrow> (\<exists>json. yc_run c spec limits = Inr json \<and> reading json = Inr x)"
  by (auto simp: run_then_def split: sum.splits)

lemma client_resolve_safe:
  "client_resolve c reference = Inr track \<Longrightarrow>
     track_safe (yc_env c) (yc_config c) track \<and> srt_provider track = sr_provider reference"
  by (auto simp: client_resolve_def run_then_ok resolved_def dest!: resolved_info_safe split: option.splits)

lemma resolve_first_safe:
  "resolve_first_result c provider query = Inr track \<Longrightarrow>
     track_safe (yc_env c) (yc_config c) track \<and> srt_provider track = provider"
  by (auto simp: resolve_first_result_def run_then_ok resolved_search_def question_mark
      dest!: resolved_info_safe reference_from_raw_ok)

lemma first_resolvable_ok:
  "first_resolvable c search refs = Inr track \<Longrightarrow> \<exists>reference \<in> set refs. client_resolve c reference = Inr track \<and>
     duration_matches (ss_preferred_duration_ms search) (srt_duration_ms track)"
  by (induction refs) (auto split: sum.splits if_splits)

definition found_by_search :: "'f yt_dlp_client \<Rightarrow> site_search \<Rightarrow> site_resolved_track \<Rightarrow> bool" where
  "found_by_search c search track \<longleftrightarrow>
     duration_matches (ss_preferred_duration_ms search) (srt_duration_ms track) \<and>
     (\<exists>reference. sr_provider reference = srt_provider track \<and> plausible (yc_unicode c) search reference)"

lemma ranking_plausible:
  assumes "ranked_candidates u candidates search = Inr chosen" and "c \<in> set chosen"
  shows "plausible u search c"
proof -
  note chosen = ranking_spec [OF assms(1), THEN conjunct1]
  with assms(2) obtain n where "(n, c) \<in> set (scored_candidates u candidates search)"
    by (auto simp: chosen dest!: in_set_takeD)
  then show ?thesis using candidate_score_some by (auto simp: scored_mem)
qed

lemma search_provider_ok:
  assumes "search_provider c search provider = Inr track"
  shows "track_safe (yc_env c) (yc_config c) track \<and> found_by_search c search track"
proof -
  obtain refs candidates where "ranked_candidates (yc_unicode c) refs search = Inr candidates"
    "first_resolvable c search candidates = Inr track"
    using assms by (auto simp: search_provider_def run_then_ok question_mark)
  then show ?thesis
    using first_resolvable_ok ranking_plausible client_resolve_safe unfolding found_by_search_def by metis
qed

text \<open>A search for a known track answers only with a track that is safe to fetch and that
  matches the request: it scores at least the minimum itself, or its search result was plausible and
  its length is within tolerance. A failure of the tool or of the security checks is
  passed on, never answered by trying the other provider.\<close>

theorem resolve_search_matches:
  "(\<forall>track. resolve_search c search = Inr track \<longrightarrow> track_safe (yc_env c) (yc_config c) track \<and>
      (resolved_matches (yc_unicode c) track search \<or> found_by_search c search track)) \<and>
   (\<forall>e. resolve_first_result c SiteYouTube (ss_query search) = Inl e \<and> e \<noteq> NoSearchMatch \<and> e \<noteq> UnsupportedStream \<longrightarrow>
      resolve_search c search = Inl e)"
proof (intro conjI allI impI)
  fix track
  assume "resolve_search c search = Inr track"
  then consider "resolve_first_result c SiteYouTube (ss_query search) = Inr track"
      "resolved_matches (yc_unicode c) track search"
    | provider where "search_provider c search provider = Inr track"
    by (auto simp: resolve_search_def Let_def split: sum.split_asm if_split_asm)
  then have "track_safe (yc_env c) (yc_config c) track \<and>
      (resolved_matches (yc_unicode c) track search \<or> found_by_search c search track)"
  proof cases
    case 1
    then show ?thesis using resolve_first_safe by blast
  next
    case 2
    then show ?thesis using search_provider_ok by blast
  qed
  then show "track_safe (yc_env c) (yc_config c) track"
    and "resolved_matches (yc_unicode c) track search \<or> found_by_search c search track" by blast+
qed (auto simp: resolve_search_def)

text \<open>A client whose tool answers every query with the sample track.\<close>

definition sample_client :: "nat yt_dlp_client" where
  "sample_client = \<lparr>yc_config = sample_yt_config, yc_env = sample_site_env, yc_unicode = ascii_table,
     yc_run = (\<lambda>spec limits. Inr (Some sample_raw)), yc_run_text = (\<lambda>spec limits. Inl ProcTimeout)\<rparr>"

definition sample_open_search :: site_search where
  "sample_open_search = sample_search\<lparr>ss_preferred_duration_ms := None\<rparr>"

lemma resolve_search_matches_witness:
  "\<exists>track. resolve_search sample_client sample_open_search = Inr track \<and>
     track_safe sample_site_env sample_yt_config track"
proof -
  obtain track where track: "resolved_search sample_site_env (Some sample_raw) SiteYouTube sample_yt_config = Inr track"
    "srt_title track = [0x41]" "srt_artist track = None"
    using sample_resolved by blast
  have "candidate_score ascii_table
      \<lparr>sr_provider = srt_provider track, sr_page_url = srt_page_url track, sr_title = Some [0x41], sr_artist = None,
       sr_duration_ms = Some (srt_duration_ms track)\<rparr> sample_open_search = Some 75"
    using sample_no_marker [of "0x41"]
    by (simp add: candidate_score_def sample_open_search_def sample_search_def sample_title title_score_def
        sample_normalize or_empty_def artist_score_def duration_score_def)
  then have "resolve_search sample_client sample_open_search = Inr track"
    using track
    by (simp add: resolve_search_def resolve_first_result_def run_then_def sample_client_def resolved_matches_def
        MINIMUM_SCORE_def)
  then show ?thesis
    using resolve_search_matches [of sample_client sample_open_search] by (simp add: sample_client_def)
qed

end
