(* ===== verification/Media_Fetch.thy ===== *)
theory Media_Fetch
  imports Media_Site Media_Lease
begin

text \<open>
  The bounded downloader, \<open>crates/pepeaudio-media/src/fetch/fetcher.rs\<close>, over the store of
  \<open>store.rs\<close>. The network, the clock and the file system are arguments: what each hop,
  each chunk of the body and each file operation answers. The ledger of the managed root is
  the accounting state of \<open>Media_Capacity\<close>; what other tasks do to it between two awaits is
  the interleaving of that theory's machine.
\<close>

section \<open>Errors and limits\<close>

datatype fetch_error =
  FetchUrl url_policy_error | InvalidLimits | AdmissionCapacityExceeded | DownloadLimitExceedsCapacity
  | DeclaredSizeTooLarge | MissingLocation | RedirectLimit | RedirectLoop | UnapprovedSiteHost | HttpStatus u16
  | ContentLengthTooLarge | DownloadTooLarge | EmptyBody | LengthMismatch | RedirectTimeout | DownloadTimeout
  | Transport | Body | FetchStore store_error

record fetch_limits =
  fl_max_url_bytes :: nat
  fl_max_redirects :: nat
  fl_max_download_bytes :: u64
  fl_redirect_timeout :: nat
  fl_download_timeout :: nat
  fl_dns_timeout :: nat
  fl_connect_timeout :: nat

definition fetch_limits_default :: fetch_limits where
  "fetch_limits_default =
     \<lparr>fl_max_url_bytes = 4096, fl_max_redirects = 5, fl_max_download_bytes = 100 * 1024 * 1024,
      fl_redirect_timeout = 20 * 10 ^ 9, fl_download_timeout = 120 * 10 ^ 9, fl_dns_timeout = 5 * 10 ^ 9,
      fl_connect_timeout = 10 * 10 ^ 9\<rparr>"

definition validate_limits :: "fetch_limits \<Rightarrow> fetch_error + unit" where
  "validate_limits l =
     (if fl_max_url_bytes l = 0 \<or> fl_max_download_bytes l = 0 \<or> fl_redirect_timeout l = 0 \<or>
         fl_download_timeout l = 0 \<or> fl_dns_timeout l = 0 \<or> fl_connect_timeout l = 0
      then Inl InvalidLimits else Inr ())"

text \<open>\<open>DownloadStore::new\<close> takes a metered registry only; \<open>MediaFetcher::new\<close> a limit the store can hold.\<close>

definition download_store_new :: "capacity_limits option \<Rightarrow> store_error + capacity_limits" where
  "download_store_new tracker = (case tracker of None \<Rightarrow> Inl CapacityUnavailable | Some limits \<Rightarrow> Inr limits)"

definition fetcher_new :: "capacity_limits \<Rightarrow> fetch_limits \<Rightarrow> fetch_error + fetch_limits" where
  "fetcher_new store l =
     (case validate_limits l of
        Inl e \<Rightarrow> Inl e
      | Inr _ \<Rightarrow> if fl_max_download_bytes l > maximum_bytes store then Inl DownloadLimitExceedsCapacity else Inr l)"

section \<open>Redirects\<close>

record 'b http_response =
  hr_status :: u16
  hr_location :: "rstring option"
  hr_content_length :: "u64 option"
  hr_content_type :: "rstring option"
  hr_body :: 'b

text \<open>One hop: the services of the URL policy, whether approval ends in time, whether time is left
  for the request, and the answer of the transport, \<open>None\<close> when the deadline passes first.\<close>

record 'b hop =
  hop_services :: url_services
  hop_approves_in_time :: bool
  hop_time_left :: bool
  hop_get :: "approved_url \<Rightarrow> safe_headers \<Rightarrow> bool \<Rightarrow> (fetch_error + 'b http_response) option"

definition is_redirect :: "u16 \<Rightarrow> bool" where
  "is_redirect status \<longleftrightarrow> status \<in> {301, 302, 303, 307, 308}"

definition fetch_guard :: "fetch_limits \<Rightarrow> url_guard" where
  "fetch_guard l = \<lparr>max_url_bytes = fl_max_url_bytes l, dns_timeout = fl_dns_timeout l\<rparr>"

text \<open>What one hop comes to: the end with a response, or the next URL to visit.\<close>

datatype 'b hop_end = Arrived "'b http_response" rstring | Onward rstring rstring

definition one_hop ::
  "fetch_limits \<Rightarrow> media_request \<Rightarrow> 'b hop \<Rightarrow> rstring list \<Rightarrow> nat \<Rightarrow> rstring \<Rightarrow> fetch_error + 'b hop_end" where
  "one_hop l request h visited redirect_count current =
     (if \<not> hop_approves_in_time h then Inl RedirectTimeout
      else case approve (hop_services h) (fetch_guard l) current of
        Inl e \<Rightarrow> Inl (FetchUrl e)
      | Inr approved \<Rightarrow>
          (case url_host_str (ap_url approved) of
             None \<Rightarrow> Inl Transport
           | Some host \<Rightarrow>
               if \<not> allows_host request host then Inl UnapprovedSiteHost
               else let canonical = url_string (ap_url approved)
               in if canonical \<in> set visited then Inl RedirectLoop
                  else if \<not> hop_time_left h then Inl RedirectTimeout
                  else (case hop_get h approved (request_headers request) (uses_open_range request) of
                    None \<Rightarrow> Inl RedirectTimeout
                  | Some (Inl e) \<Rightarrow> Inl e
                  | Some (Inr response) \<Rightarrow>
                      if is_redirect (hr_status response) then
                        if redirect_count \<ge> fl_max_redirects l then Inl RedirectLimit
                        else (case hr_location response of
                          None \<Rightarrow> Inl MissingLocation
                        | Some location \<Rightarrow>
                            (case join_url (hop_services h) (fetch_guard l) (ap_url approved) location of
                               Inl e \<Rightarrow> Inl (FetchUrl e)
                             | Inr target \<Rightarrow> Inr (Onward canonical target)))
                      else if \<not> (200 \<le> hr_status response \<and> hr_status response < 300)
                      then Inl (HttpStatus (hr_status response))
                      else Inr (Arrived response canonical))))"

lemma one_hop_onward:
  "one_hop l request h visited redirect_count current = Inr (Onward canonical target) \<Longrightarrow>
     redirect_count < fl_max_redirects l"
  by (auto simp: one_hop_def Let_def split: if_split_asm sum.split_asm option.split_asm)

text \<open>The loop; the n-th hop is \<open>hops n\<close>.\<close>

function follow_redirects ::
  "fetch_limits \<Rightarrow> media_request \<Rightarrow> (nat \<Rightarrow> 'b hop) \<Rightarrow> rstring list \<Rightarrow> nat \<Rightarrow> rstring \<Rightarrow>
     fetch_error + 'b http_response \<times> rstring" where
  "follow_redirects l request hops visited redirect_count current =
     (case one_hop l request (hops redirect_count) visited redirect_count current of
        Inl e \<Rightarrow> Inl e
      | Inr (Arrived response canonical) \<Rightarrow> Inr (response, canonical)
      | Inr (Onward canonical target) \<Rightarrow>
          follow_redirects l request hops (canonical # visited) (redirect_count + 1) target)"
  by pat_completeness auto
termination
  by (relation "measure (\<lambda>(l, request, hops, visited, n, current). fl_max_redirects l - n)")
    (auto dest: one_hop_onward)

declare follow_redirects.simps [simp del]

section \<open>The body\<close>

datatype write_outcome = Written | WriteFailed | WriteTimeout

text \<open>A chunk with its length and the outcome of writing it, a failing body, or a deadline; the end
  of the list is the end of the stream.\<close>

datatype body_event = Chunk nat write_outcome | BodyFailed | BodyTimeout

fun download_loop ::
  "capacity_limits \<Rightarrow> fetch_limits \<Rightarrow> body_event list \<Rightarrow> u64 \<Rightarrow> 'p accounting \<Rightarrow> (fetch_error + u64) \<times> 'p accounting" where
  "download_loop store l [] got a = (Inr got, a)"
| "download_loop store l (BodyTimeout # rest) got a = (Inl DownloadTimeout, a)"
| "download_loop store l (BodyFailed # rest) got a = (Inl Body, a)"
| "download_loop store l (Chunk len outcome # rest) got a =
     (if len \<ge> 2 ^ 64 then (Inl DownloadTooLarge, a)
      else case checked_add_u64 got (of_nat len) of
        None \<Rightarrow> (Inl DownloadTooLarge, a)
      | Some total_bytes \<Rightarrow>
          if total_bytes > fl_max_download_bytes l then (Inl DownloadTooLarge, a)
          else (case ensure store (max total_bytes 1) a of
            (Inl e, a') \<Rightarrow> (Inl (FetchStore e), a')
          | (Inr _, a') \<Rightarrow>
              (case outcome of
                 WriteTimeout \<Rightarrow> (Inl DownloadTimeout, a')
               | WriteFailed \<Rightarrow> (Inl (FetchStore StoreWrite), a')
               | Written \<Rightarrow> download_loop store l rest total_bytes a')))"

section \<open>The partial file\<close>

datatype open_outcome = Opened | AlreadyExists | OpenFailed

text \<open>\<open>DownloadStore::begin\<close>: the directories, then at most eight fresh names. A name stands for its
  staging and its final path.\<close>

fun begin_attempts :: "nat \<Rightarrow> (('p \<times> 'p) \<times> open_outcome) list \<Rightarrow> store_error + 'p \<times> 'p" where
  "begin_attempts (Suc n) ((paths, Opened) # rest) = Inr paths"
| "begin_attempts (Suc n) ((paths, AlreadyExists) # rest) = begin_attempts n rest"
| "begin_attempts (Suc n) ((paths, OpenFailed) # rest) = Inl Allocate"
| "begin_attempts n attempts = Inl Allocate"

definition begin_partial :: "bool \<Rightarrow> (('p \<times> 'p) \<times> open_outcome) list \<Rightarrow> store_error + 'p \<times> 'p" where
  "begin_partial directories_ready attempts =
     (if \<not> directories_ready then Inl StorePrepare else begin_attempts 8 attempts)"

datatype commit_outcome = CommitTimeout | FlushFailed | RenameFailed | Renamed

text \<open>\<open>PartialDownload::commit\<close> under its deadline: the file is renamed before the ledger is told.\<close>

definition partial_commit ::
  "'p \<Rightarrow> u64 \<Rightarrow> commit_outcome \<Rightarrow> 'p accounting \<Rightarrow> (fetch_error + unit) \<times> 'p accounting" where
  "partial_commit final got outcome a =
     (case outcome of
        CommitTimeout \<Rightarrow> (Inl DownloadTimeout, a)
      | FlushFailed \<Rightarrow> (Inl (FetchStore StoreCommit), a)
      | RenameFailed \<Rightarrow> (Inl (FetchStore StoreCommit), a)
      | Renamed \<Rightarrow> (case commit final got a of
          (Inl e, a') \<Rightarrow> (Inl (FetchStore e), a')
        | (Inr _, a') \<Rightarrow> (Inr (), a')))"

text \<open>\<open>Drop for PartialDownload\<close> of an uncommitted download, which knows the file that could not be
  removed if there is one, followed by the drop of its reservation.\<close>

definition drop_partial :: "'p option \<Rightarrow> 'p accounting \<Rightarrow> 'p capacity_state" where
  "drop_partial left_over a =
     drop_reservation (case left_over of None \<Rightarrow> a | Some path \<Rightarrow> retain_failed_file path a)"

section \<open>A whole fetch\<close>

record 'p downloaded_media =
  dm_path :: 'p
  dm_final_url :: rstring
  dm_size_bytes :: u64
  dm_content_type :: "rstring option"
  dm_source_kind :: media_source_kind

record 'p fetch_env =
  fe_deadlines :: "bool \<times> bool"
  fe_hops :: "nat \<Rightarrow> body_event list hop"
  fe_begin :: "(bool \<times> (('p \<times> 'p) \<times> open_outcome) list) option"
  fe_commit :: commit_outcome
  fe_cleanup :: bool
  fe_left_over :: "'p option"

definition admission_error :: "store_error \<Rightarrow> fetch_error" where
  "admission_error e = (if e = CapacityExceeded then AdmissionCapacityExceeded else FetchStore e)"

definition exceeds :: "u64 option \<Rightarrow> u64 \<Rightarrow> bool" where
  "exceeds got maximum = (case got of None \<Rightarrow> False | Some n \<Rightarrow> n > maximum)"

text \<open>The part of \<open>fetch\<close> that owns the partial file.\<close>

definition fetch_body ::
  "capacity_limits \<Rightarrow> fetch_limits \<Rightarrow> 'p fetch_env \<Rightarrow> body_event list \<Rightarrow> u64 option \<Rightarrow> 'p \<Rightarrow> 'p accounting \<Rightarrow>
     (fetch_error + u64) \<times> 'p accounting" where
  "fetch_body store l env body content_length final a =
     (case download_loop store l body 0 a of
        (Inl e, a') \<Rightarrow> (Inl e, a')
      | (Inr got, a') \<Rightarrow>
          if got = 0 then (Inl EmptyBody, a')
          else if content_length \<noteq> None \<and> content_length \<noteq> Some got then (Inl LengthMismatch, a')
          else (case partial_commit final got (fe_commit env) a' of
            (Inl e, a'') \<Rightarrow> (Inl e, a'')
          | (Inr _, a'') \<Rightarrow> (Inr got, a'')))"

text \<open>From the response on: the length is reserved, the partial file is begun, filled and
  committed; a failing download is cleaned up.\<close>

definition fetch_response ::
  "capacity_limits \<Rightarrow> fetch_limits \<Rightarrow> 'p fetch_env \<Rightarrow> media_request \<Rightarrow> body_event list http_response \<Rightarrow>
     rstring \<Rightarrow> 'p accounting \<Rightarrow> (fetch_error + 'p downloaded_media) \<times> 'p capacity_state" where
  "fetch_response store l env request response final_url a =
     (if exceeds (hr_content_length response) (fl_max_download_bytes l)
      then (Inl ContentLengthTooLarge, drop_reservation a)
      else (case (case hr_content_length response of
                    None \<Rightarrow> (Inr (), a)
                  | Some n \<Rightarrow> ensure store (max n 1) a) of
        (Inl e, b) \<Rightarrow> (Inl (FetchStore e), drop_reservation b)
      | (Inr _, b) \<Rightarrow>
          if \<not> snd (fe_deadlines env) then (Inl InvalidLimits, drop_reservation b)
          else (case fe_begin env of
            None \<Rightarrow> (Inl DownloadTimeout, drop_reservation b)
          | Some (directories_ready, attempts) \<Rightarrow>
              (case begin_partial directories_ready attempts of
                 Inl e \<Rightarrow> (Inl (FetchStore e), drop_reservation b)
               | Inr (partial_path, final_path) \<Rightarrow>
                   (case fetch_body store l env (hr_body response) (hr_content_length response) final_path b of
                      (Inr got, c) \<Rightarrow>
                        (Inr \<lparr>dm_path = final_path, dm_final_url = final_url, dm_size_bytes = got,
                              dm_content_type = hr_content_type response,
                              dm_source_kind = source_kind request\<rparr>, drop_reservation c)
                    | (Inl e, c) \<Rightarrow>
                        (Inl (if fe_cleanup env then e else FetchStore Cleanup),
                         drop_partial (fe_left_over env) c))))))"

definition initial_reservation :: "fetch_limits \<Rightarrow> media_request \<Rightarrow> u64" where
  "initial_reservation l request =
     max (case declared_size request of Some n \<Rightarrow> n | None \<Rightarrow> fl_max_download_bytes l) 1"

definition fetch ::
  "capacity_limits \<Rightarrow> fetch_limits \<Rightarrow> 'p fetch_env \<Rightarrow> media_request \<Rightarrow> 'p capacity_state \<Rightarrow>
     (fetch_error + 'p downloaded_media) \<times> 'p capacity_state" where
  "fetch store l env request s =
     (if exceeds (declared_size request) (fl_max_download_bytes l) then (Inl DeclaredSizeTooLarge, s)
      else (case reserve (Some store) (initial_reservation l request) s of
        (Inl e, t) \<Rightarrow> (Inl (admission_error e), t)
      | (Inr r, t) \<Rightarrow>
          if \<not> fst (fe_deadlines env) then (Inl InvalidLimits, drop_reservation (r, t))
          else (case follow_redirects l request (fe_hops env) [] 0 (request_url request) of
            Inl e \<Rightarrow> (Inl e, drop_reservation (r, t))
          | Inr (response, final_url) \<Rightarrow> fetch_response store l env request response final_url (r, t))))"

section \<open>Discarding an object\<close>

text \<open>What the file system answers \<open>discard_object\<close>: kind and length before and after the permit,
  the canonical path with its parent, the canonical path again, and whether the removal succeeds.\<close>

record 'p discard_view =
  dis_metadata :: "(bool \<times> bool \<times> u64) option"
  dis_canonical :: "('p \<times> 'p option) option"
  dis_verified :: "(bool \<times> bool \<times> u64) option"
  dis_canonical_again :: "'p option"
  dis_removes :: bool

definition discard_object ::
  "'p \<Rightarrow> 'p \<Rightarrow> 'p discard_view \<Rightarrow> 'p registry \<times> 'p capacity_state option \<Rightarrow>
     (store_error + unit) \<times> 'p registry \<times> 'p capacity_state option" where
  "discard_object directory path view st = (case st of (registry, capacity) \<Rightarrow>
     (case dis_metadata view of
        None \<Rightarrow> (Inl Cleanup, st)
      | Some (is_file, is_link, len) \<Rightarrow>
          if \<not> is_file \<or> is_link then (Inl StoreUnsafeObject, st)
          else (case dis_canonical view of
            None \<Rightarrow> (Inl Cleanup, st)
          | Some (canonical, parent) \<Rightarrow>
              if parent \<noteq> Some directory \<or> canonical \<noteq> path then (Inl StoreUnsafeObject, st)
              else (case begin_deletion canonical registry of
                None \<Rightarrow> (Inl ObjectInUse, st)
              | Some (permit, held) \<Rightarrow>
                  let released = (drop_permit permit held, capacity)
                  in (case dis_verified view of
                    None \<Rightarrow> (Inl Cleanup, released)
                  | Some (still_file, now_link, new_len) \<Rightarrow>
                      if \<not> still_file \<or> now_link \<or> new_len \<noteq> len then (Inl StoreUnsafeObject, released)
                      else (case dis_canonical_again view of
                        None \<Rightarrow> (Inl Cleanup, released)
                      | Some again \<Rightarrow>
                          if again \<noteq> canonical then (Inl StoreUnsafeObject, released)
                          else if \<not> dis_removes view then (Inl Cleanup, released)
                          else (Inr (), permit_removed permit (held, capacity))))))))"

lemma begun_and_dropped: "begin_deletion path registry = Some (permit, held) \<Longrightarrow>
    permit = path \<and> registry path = None \<and> drop_permit permit held = registry"
  by (auto simp: begin_deletion_def drop_permit_def split: if_split_asm)

text \<open>Discarding an object never touches a leased or already vanishing one, leaves no deletion
  mark behind whichever check fails, and releases the object's charge exactly when the file was
  removed.\<close>

theorem discard_is_guarded:
  "fst (snd (discard_object directory path view (registry, capacity))) = registry \<and>
   snd (snd (discard_object directory path view (registry, capacity))) =
     (if fst (discard_object directory path view (registry, capacity)) = Inr () then map_option (removed path) capacity
      else capacity) \<and>
   (protects registry path \<longrightarrow> fst (discard_object directory path view (registry, capacity)) \<noteq> Inr ())"
  by (auto simp: discard_object_def Let_def permit_removed_def protects_def dest!: begun_and_dropped
      split: option.split)

lemma discard_is_guarded_witness:
  "protects [3 :: nat \<mapsto> Leased 1] 3 \<and> fst (discard_object 0 3
     \<lparr>dis_metadata = Some (True, False, 5), dis_canonical = Some (3, Some 0), dis_verified = Some (True, False, 5),
       dis_canonical_again = Some 3, dis_removes = True\<rparr> ([3 :: nat \<mapsto> Leased 1], None)) \<noteq> Inr ()"
  using discard_is_guarded [of 0 3 "\<lparr>dis_metadata = Some (True, False, 5), dis_canonical = Some (3, Some 0),
       dis_verified = Some (True, False, 5), dis_canonical_again = Some 3, dis_removes = True\<rparr>" "[3 :: nat \<mapsto> Leased 1]" None]
  by (simp add: protects_def)

section \<open>A fetch against the books\<close>

text \<open>What an operation on one reservation does, as steps of the accounting machine in which the
  other reservations \<open>rs\<close> stay.\<close>

definition on_books :: "capacity_limits \<Rightarrow> 'p accounting \<Rightarrow> 'p accounting \<Rightarrow> bool" where
  "on_books store a b \<longleftrightarrow>
     (\<forall>rs. rtranclp (capacity_step store) (snd a, rs @ [fst a]) (snd b, rs @ [fst b]))"

lemma on_books_refl [simp, intro]: "on_books store a a"
  by (simp add: on_books_def)

lemma on_books_trans: "on_books store a b \<Longrightarrow> on_books store b c \<Longrightarrow> on_books store a c"
  unfolding on_books_def by (meson rtranclp_trans)

lemma on_reservation_last:
  "on_reservation f (length rs) (s, rs @ [r]) = (snd (f (r, s)), rs @ [fst (f (r, s))])"
  by (simp add: on_reservation_def split: prod.splits)

lemma on_books_step:
  assumes "\<And>s rs i. i < length rs \<Longrightarrow> capacity_step store (s, rs) (on_reservation f i (s, rs))"
  shows "on_books store a (f a)"
  unfolding on_books_def
proof
  fix rs
  show "rtranclp (capacity_step store) (snd a, rs @ [fst a]) (snd (f a), rs @ [fst (f a)])"
    using assms [of "length rs" "rs @ [fst a]" "snd a"] by (simp add: on_reservation_last r_into_rtranclp)
qed

lemma on_books_ensure: "on_books store a (snd (ensure store n a))"
  by (rule on_books_step) (rule capacity_step.ensure)

lemma on_books_commit: "on_books store a (snd (commit path n a))"
  by (rule on_books_step) (rule capacity_step.commit)

lemma on_books_retain: "on_books store a (retain_failed_file path a)"
  by (rule on_books_step) (rule capacity_step.retain)

lemma on_books_download_loop: "on_books store a (snd (download_loop store l body got a))"
proof (induction store l body got a rule: download_loop.induct)
  case (4 store l len outcome rest got a)
  show ?case
  proof (cases "2 ^ 64 \<le> len \<or> checked_add_u64 got (of_nat len) = None \<or>
      the (checked_add_u64 got (of_nat len)) > fl_max_download_bytes l")
    case True
    then show ?thesis by (auto split: option.splits)
  next
    case False
    then obtain total_bytes where total: "checked_add_u64 got (of_nat len) = Some total_bytes"
      "\<not> total_bytes > fl_max_download_bytes l" "\<not> 2 ^ 64 \<le> len" by auto
    obtain res b where step: "ensure store (max total_bytes 1) a = (res, b)" by (rule prod.exhaust)
    have books: "on_books store a b" using on_books_ensure [of store a "max total_bytes 1"] step by simp
    show ?thesis
    proof (cases "outcome = Written \<and> res = Inr ()")
      case True
      have "on_books store b (snd (download_loop store l rest total_bytes b))"
        using "4.IH" [OF total(3,1,2) step [symmetric]] True by simp
      then show ?thesis using total step True on_books_trans [OF books] by simp
    next
      case False
      then show ?thesis
        using total step books by (cases res; cases outcome) auto
    qed
  qed
qed auto

lemma on_books_partial_commit: "on_books store a (snd (partial_commit path n outcome a))"
  using on_books_commit [of store a path n]
  by (cases outcome; cases "commit path n a"; cases "fst (commit path n a)") (auto simp: partial_commit_def)

lemma on_books_fetch_body: "on_books store a (snd (fetch_body store l env body len path a))"
proof -
  obtain res b where loop: "download_loop store l body 0 a = (res, b)" by (rule prod.exhaust)
  have first: "on_books store a b" using on_books_download_loop [of store a l body 0] loop by simp
  show ?thesis
  proof (cases res)
    case (Inl e)
    then show ?thesis using loop first by (simp add: fetch_body_def)
  next
    case (Inr got)
    obtain res' c where last: "partial_commit path got (fe_commit env) b = (res', c)" by (rule prod.exhaust)
    have "on_books store b c" using on_books_partial_commit [of store b path got "fe_commit env"] last by simp
    then show ?thesis
      using loop last first Inr on_books_trans [OF first] by (cases res') (auto simp: fetch_body_def)
  qed
qed

lemma remove_at_last: "remove_at (length rs) (rs @ [r]) = rs"
  by (simp add: remove_at_def)

lemma books_closed:
  assumes "on_books store a b"
  shows "rtranclp (capacity_step store) (snd a, rs @ [fst a]) (drop_reservation b, rs)"
proof -
  have "capacity_step store (snd b, rs @ [fst b]) (drop_reservation b, rs)"
    using capacity_step.dropped [of "length rs" "rs @ [fst b]" store "snd b"] by (simp add: remove_at_last)
  then show ?thesis using assms unfolding on_books_def by (meson rtranclp.rtrancl_into_rtrancl)
qed

lemma books_closed_partial:
  assumes "on_books store a b"
  shows "rtranclp (capacity_step store) (snd a, rs @ [fst a]) (drop_partial left_over b, rs)"
proof (cases left_over)
  case None
  then show ?thesis using books_closed [OF assms] by (simp add: drop_partial_def)
next
  case (Some path)
  then show ?thesis
    using books_closed [OF on_books_trans [OF assms on_books_retain]] by (simp add: drop_partial_def)
qed

lemma on_books_fetch_response:
  "rtranclp (capacity_step store) (snd a, rs @ [fst a])
     (snd (fetch_response store l env request response final_url a), rs)"
proof (cases "exceeds (hr_content_length response) (fl_max_download_bytes l)")
  case True
  then show ?thesis using books_closed [OF on_books_refl] by (simp add: fetch_response_def)
next
  case no_excess: False
  obtain res b where grown: "(case hr_content_length response of None \<Rightarrow> (Inr (), a)
      | Some n \<Rightarrow> ensure store (max n 1) a) = (res, b)" by (rule prod.exhaust)
  have books: "on_books store a b"
    using grown on_books_ensure [of store a] by (cases "hr_content_length response") (auto, metis snd_conv)
  note closed = books_closed [OF books, of rs]
  show ?thesis
  proof (cases "\<exists>got partial_path final_path directories_ready attempts. res = Inr () \<and> snd (fe_deadlines env) \<and>
      fe_begin env = Some (directories_ready, attempts) \<and>
      begin_partial directories_ready attempts = Inr (partial_path, final_path)")
    case True
    then obtain partial_path final_path directories_ready attempts where ready: "res = Inr ()"
      "snd (fe_deadlines env)" "fe_begin env = Some (directories_ready, attempts)"
      "begin_partial directories_ready attempts = Inr (partial_path, final_path)" by blast
    obtain out c where body: "fetch_body store l env (hr_body response) (hr_content_length response) final_path b =
        (out, c)" by (rule prod.exhaust)
    have "on_books store a c"
      using on_books_trans [OF books] on_books_fetch_body body by (metis snd_conv)
    then show ?thesis
      using no_excess grown ready body books_closed [of store a c rs] books_closed_partial [of store a c rs]
      by (cases out) (simp_all add: fetch_response_def)
  next
    case False
    then show ?thesis
      using no_excess grown closed
      by (cases res) (auto simp: fetch_response_def split: option.splits sum.splits)
  qed
qed

text \<open>C38: Whatever the network, the clock and the file system answer, a fetch is a sequence of steps
  of the accounting machine that ends with its own reservation settled and every other one untouched,
  so that the limits of the managed root hold during and after it.\<close>

theorem fetch_settles_its_reservation:
  "rtranclp (capacity_step store) (s, rs) (snd (fetch store l env request s), rs)"
proof (cases "exceeds (declared_size request) (fl_max_download_bytes l)")
  case False
  show ?thesis
  proof (cases "reserve (Some store) (initial_reservation l request) s")
    case (Pair res t)
    show ?thesis
    proof (cases res)
      case (Inl e)
      then have "t = s" using Pair by (auto simp: reserve_def split: if_split_asm)
      then show ?thesis using False Pair Inl by (simp add: fetch_def)
    next
      case (Inr r)
      have start: "capacity_step store (s, rs) (t, rs @ [r])"
        using capacity_step.reserve Pair Inr by metis
      have "rtranclp (capacity_step store) (t, rs @ [r]) (snd (fetch store l env request s), rs)"
        using False Pair Inr books_closed [OF on_books_refl, of store "(r, t)" rs]
          on_books_fetch_response [of store "(r, t)" rs]
        by (auto simp: fetch_def split: sum.splits)
      with start show ?thesis by (rule converse_rtranclp_into_rtranclp)
    qed
  qed
qed (simp add: fetch_def)

section \<open>Redirects are bounded and inspected\<close>

definition arrives_at ::
  "fetch_limits \<Rightarrow> media_request \<Rightarrow> 'b hop \<Rightarrow> 'b http_response \<Rightarrow> rstring \<Rightarrow> bool" where
  "arrives_at l request h response canonical \<longleftrightarrow>
     (\<exists>current approved host. approve (hop_services h) (fetch_guard l) current = Inr approved \<and>
        canonical = url_string (ap_url approved) \<and> url_host_str (ap_url approved) = Some host \<and>
        allows_host request host \<and>
        hop_get h approved (request_headers request) (uses_open_range request) = Some (Inr response) \<and>
        200 \<le> hr_status response \<and> hr_status response < 300)"

lemma one_hop_arrived:
  "one_hop l request h visited n current = Inr (Arrived response canonical) \<Longrightarrow>
     arrives_at l request h response canonical"
  unfolding arrives_at_def one_hop_def Let_def
  by (auto split: if_split_asm sum.split_asm option.split_asm)

lemma follow_redirects_arrives:
  assumes "follow_redirects l request hops visited n current = Inr (response, canonical)" and "n \<le> fl_max_redirects l"
  shows "\<exists>k \<le> fl_max_redirects l. arrives_at l request (hops k) response canonical"
  using assms
proof (induction l request hops visited n current rule: follow_redirects.induct)
  case (1 l request hops visited n current)
  show ?case
  proof (cases "one_hop l request (hops n) visited n current")
    case (Inl e)
    then show ?thesis using "1.prems"(1) by (simp add: follow_redirects.simps [of l request hops visited n])
  next
    case (Inr hop_end)
    show ?thesis
    proof (cases hop_end)
      case (Arrived r c)
      then show ?thesis
        using "1.prems" Inr one_hop_arrived [of l request "hops n" visited n current]
        by (auto simp: follow_redirects.simps [of l request hops visited n])
    next
      case (Onward c target)
      have "n + 1 \<le> fl_max_redirects l" using one_hop_onward Inr Onward by fastforce
      moreover have "follow_redirects l request hops (c # visited) (n + 1) target = Inr (response, canonical)"
        using "1.prems"(1) Inr Onward by (simp add: follow_redirects.simps [of l request hops visited n])
      ultimately show ?thesis using "1.IH" [OF Inr Onward] by blast
    qed
  qed
qed

lemma follow_redirects_local:
  assumes "\<forall>k \<le> fl_max_redirects l. hops k = hops' k" and "n \<le> fl_max_redirects l"
  shows "follow_redirects l request hops visited n current = follow_redirects l request hops' visited n current"
  using assms
proof (induction l request hops visited n current rule: follow_redirects.induct)
  case (1 l request hops visited n current)
  have same: "hops n = hops' n" using "1.prems" by simp
  show ?case
  proof (cases "one_hop l request (hops n) visited n current")
    case (Inl e)
    then show ?thesis using same by (simp add: follow_redirects.simps [of l request _ visited n])
  next
    case (Inr hop_end)
    show ?thesis
    proof (cases hop_end)
      case (Arrived r c)
      then show ?thesis using same Inr by (simp add: follow_redirects.simps [of l request _ visited n])
    next
      case (Onward c target)
      have "n + 1 \<le> fl_max_redirects l" using one_hop_onward Inr Onward by fastforce
      then show ?thesis
        using "1.IH" [OF Inr Onward "1.prems"(1)] Inr Onward same
        by (simp add: follow_redirects.simps [of l request _ visited n])
    qed
  qed
qed

text \<open>C40: However the servers redirect, the outcome is decided by the first \<open>max_redirects + 1\<close> hops,
  whatever would come after them.\<close>

theorem redirects_end:
  assumes "\<forall>k \<le> fl_max_redirects l. hops k = hops' k"
  shows "follow_redirects l request hops [] 0 current = follow_redirects l request hops' [] 0 current"
  by (rule follow_redirects_local [OF assms]) simp

section \<open>What a fetch delivers\<close>

fun body_bytes :: "body_event list \<Rightarrow> nat" where
  "body_bytes [] = 0"
| "body_bytes (Chunk n w # rest) = n + body_bytes rest"
| "body_bytes (_ # rest) = body_bytes rest"

lemma download_loop_limit:
  assumes "fst (download_loop store l body got a) = Inr n" and "got \<le> fl_max_download_bytes l"
  shows "n \<le> fl_max_download_bytes l \<and> unat n = unat got + body_bytes body"
  using assms
proof (induction store l body got a rule: download_loop.induct)
  case (4 store l len outcome rest got a)
  then obtain total_bytes res b where step: "\<not> 2 ^ 64 \<le> len" "checked_add_u64 got (of_nat len) = Some total_bytes"
    "\<not> total_bytes > fl_max_download_bytes l" "ensure store (max total_bytes 1) a = (Inr res, b)" "outcome = Written"
    "fst (download_loop store l rest total_bytes b) = Inr n"
    by (auto split: if_split_asm option.split_asm prod.split_asm sum.split_asm write_outcome.split_asm)
  have "n \<le> fl_max_download_bytes l \<and>
      unat n = unat total_bytes + body_bytes rest"
    using "4.IH" [OF step(1-3) step(4) [symmetric] refl step(5)] step(3,6) by simp
  moreover have "unat (of_nat len :: u64) = len" using step(1) by (simp add: unat_of_nat)
  then have "unat total_bytes = unat got + len"
    using step(2) by (auto simp: checked_add_u64_def unat_add_u64 split: if_split_asm)
  ultimately show ?case by simp
qed auto

lemma commit_Inr:
  assumes "commit path n a = (Inr u, b)"
  shows "map_of (entries (snd b)) path = Some n \<and> \<not> res_active (fst b)"
  using assms
  by (cases a) (auto simp: commit_def update_conv' split: if_split_asm option.split_asm)

lemma fetch_body_Inr:
  assumes "fetch_body store l env body len path a = (Inr n, b)"
  shows "n \<noteq> 0 \<and> n \<le> fl_max_download_bytes l \<and> unat n = body_bytes body \<and> (len = None \<or> len = Some n) \<and>
    map_of (entries (snd b)) path = Some n \<and> \<not> res_active (fst b)"
proof -
  obtain c where parts: "download_loop store l body 0 a = (Inr n, c)" "n \<noteq> 0" "len = None \<or> len = Some n"
    "partial_commit path n (fe_commit env) c = (Inr (), b)"
    using assms by (auto simp: fetch_body_def split: if_split_asm prod.split_asm sum.split_asm)
  have committed: "commit path n c = (Inr (), b)"
    using parts(4) by (auto simp: partial_commit_def split: commit_outcome.split_asm prod.split_asm sum.split_asm)
  show ?thesis
    using parts commit_Inr [OF committed] download_loop_limit [of store l body 0 a n] by auto
qed

lemma drop_settled: "\<not> res_active (fst a) \<Longrightarrow> drop_reservation a = snd a"
  by (cases a) (simp add: drop_reservation_def)

lemma fetch_response_Inr:
  assumes "fetch_response store l env request response final_url a = (Inr d, t)"
  shows "dm_size_bytes d \<noteq> 0 \<and> dm_size_bytes d \<le> fl_max_download_bytes l \<and>
    unat (dm_size_bytes d) = body_bytes (hr_body response) \<and>
    (hr_content_length response = None \<or> hr_content_length response = Some (dm_size_bytes d)) \<and>
    dm_final_url d = final_url \<and> dm_source_kind d = source_kind request \<and>
    map_of (entries t) (dm_path d) = Some (dm_size_bytes d)"
proof -
  obtain n b c final_path where body: "fetch_body store l env (hr_body response) (hr_content_length response) final_path b = (Inr n, c)"
    and d: "d = \<lparr>dm_path = final_path, dm_final_url = final_url, dm_size_bytes = n,
      dm_content_type = hr_content_type response, dm_source_kind = source_kind request\<rparr>"
    and t: "t = drop_reservation c"
    using assms
    by (auto simp: fetch_response_def split: if_split_asm prod.split_asm sum.split_asm option.split_asm)
  show ?thesis using fetch_body_Inr [OF body] by (simp add: d t drop_settled)
qed

text \<open>A fetch that succeeds delivers a committed file of exactly the bytes of the body: not empty,
  within the download limit, of the length the server announced, from a response whose every
  hop passed the URL policy and, for a resolved site, whose host belongs to that site.\<close>

theorem fetched_media_is_accounted:
  assumes "fetch store l env request s = (Inr d, t)"
  shows "\<exists>k response. k \<le> fl_max_redirects l \<and>
    arrives_at l request (fe_hops env k) response (dm_final_url d) \<and>
    dm_size_bytes d \<noteq> 0 \<and> dm_size_bytes d \<le> fl_max_download_bytes l \<and>
    unat (dm_size_bytes d) = body_bytes (hr_body response) \<and>
    (hr_content_length response = None \<or> hr_content_length response = Some (dm_size_bytes d)) \<and>
    dm_source_kind d = source_kind request \<and>
    map_of (entries t) (dm_path d) = Some (dm_size_bytes d)"
proof -
  obtain a response final_url where path: "follow_redirects l request (fe_hops env) [] 0 (request_url request) =
      Inr (response, final_url)" "fetch_response store l env request response final_url a = (Inr d, t)"
    using assms by (auto simp: fetch_def split: if_split_asm prod.split_asm sum.split_asm)
  show ?thesis
    using follow_redirects_arrives [OF path(1)] fetch_response_Inr [OF path(2)] by auto
qed

definition sample_hop :: "body_event list hop" where
  "sample_hop = \<lparr>hop_services = sample_services, hop_approves_in_time = True, hop_time_left = True,
     hop_get = (\<lambda>_ _ _. Some (Inr \<lparr>hr_status = 200, hr_location = None, hr_content_length = Some 5,
       hr_content_type = None, hr_body = [Chunk 2 Written, Chunk 3 Written]\<rparr>))\<rparr>"

definition sample_env :: "nat fetch_env" where
  "sample_env = \<lparr>fe_deadlines = (True, True), fe_hops = (\<lambda>_. sample_hop),
     fe_begin = Some (True, [((1, 2), AlreadyExists), ((3, 4), Opened)]), fe_commit = Renamed,
     fe_cleanup = True, fe_left_over = None\<rparr>"

lemma redirects_end_witness:
  "follow_redirects fetch_limits_default (DirectUrl [97]) (\<lambda>_. sample_hop) [] 0 [97] =
     follow_redirects fetch_limits_default (DirectUrl [97])
       (\<lambda>k. if k \<le> 5 then sample_hop else sample_hop\<lparr>hop_time_left := False\<rparr>) [] 0 [97]"
  by (rule redirects_end) (simp add: fetch_limits_default_def)

lemma fetched_media_is_accounted_witness:
  "\<exists>d t. fetch \<lparr>maximum_bytes = 10 ^ 9, maximum_entries = 2\<rparr> fetch_limits_default sample_env (DirectUrl [97])
     \<lparr>charged_bytes = 0, entries = [], reservations = 0\<rparr> = (Inr d, t) \<and> dm_size_bytes d = 5 \<and>
     map_of (entries t) (dm_path d) = Some (dm_size_bytes d)"
proof -
  let ?f = "fetch \<lparr>maximum_bytes = 10 ^ 9, maximum_entries = 2\<rparr> fetch_limits_default sample_env (DirectUrl [97])
     \<lparr>charged_bytes = 0, entries = [], reservations = 0\<rparr>"
  have arrived: "follow_redirects fetch_limits_default (DirectUrl [97]) (fe_hops sample_env) [] 0 [97] =
      Inr (\<lparr>hr_status = 200, hr_location = None, hr_content_length = Some 5, hr_content_type = None,
        hr_body = [Chunk 2 Written, Chunk 3 Written]\<rparr>, [97])"
    by (subst follow_redirects.simps)
      (simp add: one_hop_def fetch_guard_def fetch_limits_default_def sample_env_def sample_hop_def is_redirect_def
        sample_approval_simps)
  have begun: "begin_partial True [((1, 2), AlreadyExists), ((3, 4), Opened)] = Inr (3 :: nat, 4)"
    by (simp add: begin_partial_def eval_nat_numeral)
  have "\<not> isl (fst ?f)" "dm_size_bytes (projr (fst ?f)) = 5"
    by (simp_all add: fetch_def arrived [simplified fetch_limits_default_def sample_env_def, simplified] exceeds_def reserve_def initial_reservation_def fits_def checked_add_u64_def
        checked_sub_u64_def fetch_limits_default_def sample_env_def fetch_response_def ensure_def begun [simplified]
        fetch_body_def partial_commit_def commit_def max_def Let_def word_le_nat_alt)
  then obtain d t where "?f = (Inr d, t)" "dm_size_bytes d = 5"
    by (cases ?f; cases "fst ?f") auto
  with fetched_media_is_accounted [OF this(1)] show ?thesis by blast
qed

end
