(* ===== verification/Valkey_Store.thy ===== *)
theory Valkey_Store
  imports Core_Command
begin

text \<open>
  The command side of the Valkey adapter: keys (\<open>crates/pepeaudio-storage/src/valkey/keys.rs\<close>),
  idempotency leases (\<open>dedupe.rs\<close>), command results (\<open>command_results.rs\<close>), admission
  (\<open>command_admission.rs\<close>), the consumer (\<open>commands.rs\<close>) and bot presence (\<open>presence.rs\<close>), with
  the errors of \<open>error.rs\<close>. The Lua scripts are translated statement by statement; each runs
  atomically in the server. The server is a parameter: the commands the scripts and the
  adapter send it, over its state \<open>'s\<close>. So are the JSON encodings and the text of a UUID.
\<close>

section \<open>Errors\<close>

datatype storage_error =
  Database | Valkey | Json | CorruptData string string | InvalidIdentifier string string
  | DurationOutOfRange string | StorageCapacityExceeded string | RateLimited string nat

section \<open>Keys\<close>

definition keyspace_new :: "rstring \<Rightarrow> storage_error + rstring" where
  "keyspace_new prefix =
     (if prefix \<noteq> [] \<and> str_len prefix \<le> 64 \<and>
         list_all (\<lambda>c. is_ascii_alphanumeric c \<or> c = 0x3a \<or> c = 0x2d \<or> c = 0x5f) prefix
      then Inr prefix
      else Inl (InvalidIdentifier ''Valkey keyspace''
                 ''must be 1-64 ASCII letters, digits, colons, underscores, or hyphens''))"

abbreviation guild_text :: "guild_id \<Rightarrow> rstring" where
  "guild_text guild \<equiv> snowflake_display (guild_get guild)"

abbreviation user_text :: "user_id \<Rightarrow> rstring" where
  "user_text user \<equiv> snowflake_display (user_get user)"

definition snapshot_key :: "rstring \<Rightarrow> guild_id \<Rightarrow> rstring" where
  "snapshot_key ks guild = ks @ str '':player:'' @ guild_text guild @ str '':snapshot''"

definition snapshot_revision_key :: "rstring \<Rightarrow> guild_id \<Rightarrow> rstring" where
  "snapshot_revision_key ks guild = ks @ str '':player:'' @ guild_text guild @ str '':snapshot:revision''"

definition snapshot_event_key :: "rstring \<Rightarrow> guild_id \<Rightarrow> rstring" where
  "snapshot_event_key ks guild = ks @ str '':evt:guild:'' @ guild_text guild"

definition snapshot_event_pattern :: "rstring \<Rightarrow> rstring" where
  "snapshot_event_pattern ks = ks @ str '':evt:guild:*''"

definition command_stream_key :: "rstring \<Rightarrow> u32 \<Rightarrow> rstring" where
  "command_stream_key ks shard = ks @ str '':cmd:shard:'' @ decimal_digits (unat shard)"

definition dedupe_key :: "rstring \<Rightarrow> (uuid \<Rightarrow> rstring) \<Rightarrow> guild_id \<Rightarrow> uuid \<Rightarrow> rstring" where
  "dedupe_key ks uuid_text guild key = ks @ str '':processed:'' @ guild_text guild @ str '':'' @ uuid_text key"

definition command_result_key :: "rstring \<Rightarrow> (uuid \<Rightarrow> rstring) \<Rightarrow> guild_id \<Rightarrow> uuid \<Rightarrow> rstring" where
  "command_result_key ks uuid_text guild command_id =
     ks @ str '':cmd-result:'' @ guild_text guild @ str '':'' @ uuid_text command_id"

definition actor_rate_key :: "rstring \<Rightarrow> guild_id \<Rightarrow> user_id \<Rightarrow> rstring" where
  "actor_rate_key ks guild user =
     ks @ str '':rate:player-command:guild:'' @ guild_text guild @ str '':actor:'' @ user_text user"

definition guild_rate_key :: "rstring \<Rightarrow> guild_id \<Rightarrow> rstring" where
  "guild_rate_key ks guild = ks @ str '':rate:player-command:guild:'' @ guild_text guild @ str '':all''"

definition bot_presence_key :: "rstring \<Rightarrow> guild_id \<Rightarrow> rstring" where
  "bot_presence_key ks guild = ks @ str '':bot-presence:'' @ guild_text guild"

text \<open>The number in a key ends at its colon.\<close>

lemma decimal_no_colon: "0x3a \<notin> set (decimal_digits n)"
  using decimal_digits_are_digits [of "0x3a" n] by (auto simp: is_ascii_digit_def)

lemma snowflake_display_inject: "snowflake_display a = snowflake_display b \<longleftrightarrow> a = b"
  unfolding snowflake_display_def by (metis from_str_radix_decimal option.inject)

lemma colon_split:
  assumes "x @ 0x3a # y = x' @ 0x3a # y'" and "0x3a \<notin> set x" and "0x3a \<notin> set x'"
  shows "x = x' \<and> y = y'"
  using assms
proof (induction x arbitrary: x')
  case Nil
  then show ?case by (cases x') auto
next
  case (Cons c x)
  then show ?case by (cases x') auto
qed

lemma str_Cons [simp]: "str (c # cs) = of_char c # str cs" and str_Nil [simp]: "str [] = []"
  by (simp_all add: str_def)

lemma snowflake_no_colon: "0x3a \<notin> set (snowflake_display n)"
  by (simp add: snowflake_display_def decimal_no_colon)

lemma guild_text_colon:
  "guild_text g @ 0x3a # x = guild_text g' @ 0x3a # x' \<longleftrightarrow> g = g' \<and> x = x'"
  using colon_split [of "guild_text g" x "guild_text g'" x'] snowflake_no_colon
  by (auto simp: snowflake_display_inject guild_id.expand)

lemma command_result_key_inject:
  "inj uuid_text \<Longrightarrow>
     command_result_key ks uuid_text g c = command_result_key ks uuid_text g' c' \<longleftrightarrow> g = g' \<and> c = c'"
  by (simp add: command_result_key_def guild_text_colon inj_eq)

lemma dedupe_key_inject:
  "inj uuid_text \<Longrightarrow> dedupe_key ks uuid_text g k = dedupe_key ks uuid_text g' k' \<longleftrightarrow> g = g' \<and> k = k'"
  by (simp add: dedupe_key_def guild_text_colon inj_eq)

text \<open>The families of keys differ in the character after the keyspace or soon after it.\<close>

lemma result_key_not_dedupe [simp]:
  "command_result_key ks u g c \<noteq> dedupe_key ks u g' k" "dedupe_key ks u g' k \<noteq> command_result_key ks u g c"
  by (simp_all add: command_result_key_def dedupe_key_def)

lemma rate_keys_differ [simp]:
  "actor_rate_key ks g user \<noteq> guild_rate_key ks g'" "guild_rate_key ks g' \<noteq> actor_rate_key ks g user"
proof -
  show *: "actor_rate_key ks g user \<noteq> guild_rate_key ks g'"
  proof
    assume "actor_rate_key ks g user = guild_rate_key ks g'"
    then have "guild_text g @ 0x3a # str ''actor:'' @ user_text user = guild_text g' @ 0x3a # str ''all''"
      by (simp add: actor_rate_key_def guild_rate_key_def)
    then show False unfolding guild_text_colon by simp
  qed
  then show "guild_rate_key ks g' \<noteq> actor_rate_key ks g user" by (simp add: eq_commute)
qed

section \<open>The server and the encodings\<close>

record 's valkey =
  vk_type :: "'s \<Rightarrow> rstring \<Rightarrow> string"
  vk_get :: "'s \<Rightarrow> rstring \<Rightarrow> rstring option"
  vk_set_px :: "rstring \<Rightarrow> rstring \<Rightarrow> nat \<Rightarrow> 's \<Rightarrow> 's"
  vk_del :: "rstring \<Rightarrow> 's \<Rightarrow> nat \<times> 's"
  vk_pexpire :: "rstring \<Rightarrow> nat \<Rightarrow> 's \<Rightarrow> 's"
  vk_exists :: "'s \<Rightarrow> rstring \<Rightarrow> bool"
  vk_time :: "'s \<Rightarrow> nat \<times> nat"
  vk_hmget :: "'s \<Rightarrow> rstring \<Rightarrow> rstring option \<times> rstring option"
  vk_hset :: "rstring \<Rightarrow> int \<Rightarrow> int \<Rightarrow> 's \<Rightarrow> 's"
  vk_pttl :: "'s \<Rightarrow> rstring \<Rightarrow> int"
  vk_pexpireat :: "rstring \<Rightarrow> int \<Rightarrow> 's \<Rightarrow> 's"
  vk_xlen :: "'s \<Rightarrow> rstring \<Rightarrow> nat"
  vk_xadd :: "rstring \<Rightarrow> rstring \<Rightarrow> 's \<Rightarrow> rstring \<times> 's"
  vk_xack :: "rstring \<Rightarrow> rstring \<Rightarrow> rstring \<Rightarrow> 's \<Rightarrow> nat \<times> 's"
  vk_xdel :: "rstring \<Rightarrow> rstring \<Rightarrow> 's \<Rightarrow> 's"

text \<open>\<open>cd_fields\<close> is what \<open>cjson.decode\<close> finds under \<open>command_id\<close>, \<open>guild_id\<close> and \<open>status\<close>,
  \<open>None\<close> when it raises an error; \<open>cd_tonumber\<close> is Lua's \<open>tonumber\<close> of a hash field where that is
  an integer.\<close>

record codec =
  cd_uuid :: "uuid \<Rightarrow> rstring"
  cd_result :: "command_result \<Rightarrow> rstring"
  cd_parse_result :: "rstring \<Rightarrow> command_result option"
  cd_fields :: "rstring \<Rightarrow> (rstring \<times> rstring \<times> rstring) option"
  cd_envelope :: "command_envelope \<Rightarrow> rstring"
  cd_parse_envelope :: "rstring \<Rightarrow> command_envelope option"
  cd_tonumber :: "rstring \<Rightarrow> int option"

record 's valkey_store =
  vs_server :: "'s valkey"
  vs_codec :: codec
  vs_keyspace :: rstring

text \<open>A request may be lost before the server sees it, or its answer after the server has acted.\<close>

datatype request_fault = NoFault | LostBefore | LostAfter

definition invoke :: "request_fault \<Rightarrow> ('s \<Rightarrow> 'a \<times> 's) \<Rightarrow> 's \<Rightarrow> (storage_error + 'a) \<times> 's" where
  "invoke f script s =
     (case f of
        NoFault \<Rightarrow> (case script s of (a, t) \<Rightarrow> (Inr a, t))
      | LostBefore \<Rightarrow> (Inl Valkey, s)
      | LostAfter \<Rightarrow> (Inl Valkey, snd (script s)))"

text \<open>A request that reads only.\<close>

definition ask_server :: "request_fault \<Rightarrow> 'a \<Rightarrow> storage_error + 'a" where
  "ask_server f a = (if f = NoFault then Inr a else Inl Valkey)"

definition duration_millis :: "nat \<Rightarrow> string \<Rightarrow> storage_error + nat" where
  "duration_millis duration operation =
     (let millis = duration div 10 ^ 6
      in if millis \<ge> 2 ^ 64 \<or> millis = 0 then Inl (DurationOutOfRange operation) else Inr millis)"

definition duration_millis_usize :: "nat \<Rightarrow> string \<Rightarrow> storage_error + nat" where
  "duration_millis_usize duration operation =
     (let millis = duration div 10 ^ 6 in if millis \<ge> 2 ^ 64 then Inl (DurationOutOfRange operation) else Inr millis)"

section \<open>Idempotency leases\<close>

datatype dedupe_claim = Acquired | InProgress | Completed

definition lease_value :: "codec \<Rightarrow> uuid \<Rightarrow> rstring" where
  "lease_value cd token = str ''lease:'' @ cd_uuid cd token"

definition claim_script :: "'s valkey \<Rightarrow> rstring \<Rightarrow> rstring \<Rightarrow> nat \<Rightarrow> 's \<Rightarrow> int \<times> 's" where
  "claim_script vk key lease ttl s =
     (case vk_get vk s key of
        None \<Rightarrow> (1, vk_set_px vk key lease ttl s)
      | Some current \<Rightarrow> if current = str ''done'' then (3, s) else (2, s))"

definition complete_script :: "'s valkey \<Rightarrow> rstring \<Rightarrow> rstring \<Rightarrow> nat \<Rightarrow> 's \<Rightarrow> int \<times> 's" where
  "complete_script vk key lease retention s =
     (if vk_get vk s key \<noteq> Some lease then (0, s)
      else (1, vk_set_px vk key (str ''done'') retention s))"

definition release_script :: "'s valkey \<Rightarrow> rstring \<Rightarrow> rstring \<Rightarrow> 's \<Rightarrow> int \<times> 's" where
  "release_script vk key lease s =
     (if vk_get vk s key \<noteq> Some lease then (0, s)
      else (case vk_del vk key s of (n, t) \<Rightarrow> (int n, t)))"

definition decode_claim :: "int \<Rightarrow> storage_error + dedupe_claim" where
  "decode_claim status =
     (if status = 1 then Inr Acquired else if status = 2 then Inr InProgress
      else if status = 3 then Inr Completed
      else Inl (CorruptData ''idempotency'' ''claim_status''))"

definition answer :: "('a \<Rightarrow> storage_error + 'b) \<Rightarrow> (storage_error + 'a) \<times> 's \<Rightarrow> (storage_error + 'b) \<times> 's" where
  "answer decode r = (case r of (Inl e, s) \<Rightarrow> (Inl e, s) | (Inr a, s) \<Rightarrow> (decode a, s))"

definition claim_idempotency ::
  "'s valkey_store \<Rightarrow> request_fault \<Rightarrow> guild_id \<Rightarrow> uuid \<Rightarrow> uuid \<Rightarrow> nat \<Rightarrow> 's \<Rightarrow> (storage_error + dedupe_claim) \<times> 's" where
  "claim_idempotency vs f guild key token lease_ttl s =
     (case duration_millis lease_ttl ''idempotency lease'' of
        Inl e \<Rightarrow> (Inl e, s)
      | Inr lease_ms \<Rightarrow>
          answer decode_claim
            (invoke f (claim_script (vs_server vs) (dedupe_key (vs_keyspace vs) (cd_uuid (vs_codec vs)) guild key)
                         (lease_value (vs_codec vs) token) lease_ms) s))"

definition complete_idempotency ::
  "'s valkey_store \<Rightarrow> request_fault \<Rightarrow> guild_id \<Rightarrow> uuid \<Rightarrow> uuid \<Rightarrow> nat \<Rightarrow> 's \<Rightarrow> (storage_error + bool) \<times> 's" where
  "complete_idempotency vs f guild key token retention s =
     (case duration_millis retention ''idempotency retention'' of
        Inl e \<Rightarrow> (Inl e, s)
      | Inr retention_ms \<Rightarrow>
          answer (\<lambda>completed. Inr (completed = 1))
            (invoke f (complete_script (vs_server vs) (dedupe_key (vs_keyspace vs) (cd_uuid (vs_codec vs)) guild key)
                         (lease_value (vs_codec vs) token) retention_ms) s))"

definition release_idempotency ::
  "'s valkey_store \<Rightarrow> request_fault \<Rightarrow> guild_id \<Rightarrow> uuid \<Rightarrow> uuid \<Rightarrow> 's \<Rightarrow> (storage_error + bool) \<times> 's" where
  "release_idempotency vs f guild key token s =
     answer (\<lambda>released. Inr (released = 1))
       (invoke f (release_script (vs_server vs) (dedupe_key (vs_keyspace vs) (cd_uuid (vs_codec vs)) guild key)
                    (lease_value (vs_codec vs) token)) s)"

section \<open>Command results\<close>

datatype command_result_write = ResultStored | ResultUnchanged | ResultConflict

datatype command_completion = CompletionStored | CompletionUnchanged | LeaseLost | CompletionConflict

text \<open>The check both scripts make of the record they would replace: is it this command's pending
  marker? \<open>None\<close> when decoding it raises an error.\<close>

definition replaceable :: "codec \<Rightarrow> rstring \<Rightarrow> rstring \<Rightarrow> rstring option \<Rightarrow> bool option" where
  "replaceable cd command_id guild current =
     (case current of
        None \<Rightarrow> Some True
      | Some text_value \<Rightarrow>
          (case cd_fields cd text_value of
             None \<Rightarrow> None
           | Some (its_id, its_guild, status) \<Rightarrow>
               Some (\<not> (its_id \<noteq> command_id \<or> its_guild \<noteq> guild \<or> status \<noteq> str ''pending''))))"

definition store_terminal_script ::
  "'s valkey \<Rightarrow> codec \<Rightarrow> rstring \<Rightarrow> rstring \<Rightarrow> nat \<Rightarrow> rstring \<Rightarrow> rstring \<Rightarrow> 's \<Rightarrow> int option \<times> 's" where
  "store_terminal_script vk cd key encoded retention command_id guild s =
     (let current = vk_get vk s key
      in if current = Some encoded then (Some 2, vk_pexpire vk key retention s)
         else (case replaceable cd command_id guild current of
           None \<Rightarrow> (None, s)
         | Some True \<Rightarrow> (Some 1, vk_set_px vk key encoded retention s)
         | Some False \<Rightarrow> (Some 3, s)))"

definition complete_with_result_script ::
  "'s valkey \<Rightarrow> codec \<Rightarrow> rstring \<Rightarrow> rstring \<Rightarrow> rstring \<Rightarrow> rstring \<Rightarrow> nat \<Rightarrow> nat \<Rightarrow> rstring \<Rightarrow> rstring \<Rightarrow> 's \<Rightarrow>
     int option \<times> 's" where
  "complete_with_result_script vk cd dedupe key lease encoded idempotency_ms result_ms command_id guild s =
     (if vk_get vk s dedupe \<noteq> Some lease then (Some 0, s)
      else let current = vk_get vk s key
      in if current = Some encoded
         then (Some 2, vk_pexpire vk key result_ms (vk_set_px vk dedupe (str ''done'') idempotency_ms s))
         else (case replaceable cd command_id guild current of
           None \<Rightarrow> (None, s)
         | Some True \<Rightarrow>
             (Some 1, vk_set_px vk dedupe (str ''done'') idempotency_ms (vk_set_px vk key encoded result_ms s))
         | Some False \<Rightarrow> (Some 3, s)))"

definition validate_identity :: "command_result \<Rightarrow> guild_id \<Rightarrow> uuid \<Rightarrow> storage_error + unit" where
  "validate_identity result guild command_id =
     (if cr_guild_id result \<noteq> guild \<or> cr_command_id result \<noteq> command_id
      then Inl (CorruptData ''command result'' ''identity'') else Inr ())"

definition require_terminal :: "command_result \<Rightarrow> storage_error + unit" where
  "require_terminal result =
     (if is_terminal result then Inr () else Inl (CorruptData ''command result'' ''terminal_status''))"

definition corrupt_status :: storage_error where
  "corrupt_status = CorruptData ''command result'' ''write_status''"

definition decode_write :: "int option \<Rightarrow> storage_error + command_result_write" where
  "decode_write status =
     (case status of
        None \<Rightarrow> Inl Valkey
      | Some n \<Rightarrow> if n = 1 then Inr ResultStored else if n = 2 then Inr ResultUnchanged
                  else if n = 3 then Inr ResultConflict else Inl corrupt_status)"

definition decode_completion :: "int option \<Rightarrow> storage_error + command_completion" where
  "decode_completion status =
     (case status of
        None \<Rightarrow> Inl Valkey
      | Some n \<Rightarrow> if n = 0 then Inr LeaseLost else if n = 1 then Inr CompletionStored
                  else if n = 2 then Inr CompletionUnchanged else if n = 3 then Inr CompletionConflict
                  else Inl corrupt_status)"

abbreviation result_key :: "'s valkey_store \<Rightarrow> guild_id \<Rightarrow> uuid \<Rightarrow> rstring" where
  "result_key vs \<equiv> command_result_key (vs_keyspace vs) (cd_uuid (vs_codec vs))"

abbreviation lease_key :: "'s valkey_store \<Rightarrow> guild_id \<Rightarrow> uuid \<Rightarrow> rstring" where
  "lease_key vs \<equiv> dedupe_key (vs_keyspace vs) (cd_uuid (vs_codec vs))"

definition get_command_result ::
  "'s valkey_store \<Rightarrow> request_fault \<Rightarrow> guild_id \<Rightarrow> uuid \<Rightarrow> 's \<Rightarrow> storage_error + command_result option" where
  "get_command_result vs f guild command_id s =
     (case ask_server f (vk_get (vs_server vs) s (result_key vs guild command_id)) of
        Inl e \<Rightarrow> Inl e
      | Inr None \<Rightarrow> Inr None
      | Inr (Some encoded) \<Rightarrow>
          (case cd_parse_result (vs_codec vs) encoded of
             None \<Rightarrow> Inl Json
           | Some result \<Rightarrow>
               (case validate_identity result guild command_id of
                  Inl e \<Rightarrow> Inl e
                | Inr _ \<Rightarrow> Inr (Some result))))"

definition store_command_result ::
  "'s valkey_store \<Rightarrow> request_fault \<Rightarrow> command_result \<Rightarrow> nat \<Rightarrow> 's \<Rightarrow> (storage_error + command_result_write) \<times> 's" where
  "store_command_result vs f result retention s =
     (case require_terminal result of
        Inl e \<Rightarrow> (Inl e, s)
      | Inr _ \<Rightarrow>
          (case duration_millis retention ''command result retention'' of
             Inl e \<Rightarrow> (Inl e, s)
           | Inr retention_ms \<Rightarrow>
               answer decode_write
                 (invoke f (store_terminal_script (vs_server vs) (vs_codec vs)
                              (result_key vs (cr_guild_id result) (cr_command_id result))
                              (cd_result (vs_codec vs) result) retention_ms
                              (cd_uuid (vs_codec vs) (cr_command_id result)) (guild_text (cr_guild_id result))) s)))"

definition complete_command ::
  "'s valkey_store \<Rightarrow> request_fault \<Rightarrow> uuid \<Rightarrow> uuid \<Rightarrow> command_result \<Rightarrow> nat \<Rightarrow> nat \<Rightarrow> 's \<Rightarrow>
     (storage_error + command_completion) \<times> 's" where
  "complete_command vs f key token result idempotency_retention result_retention s =
     (case require_terminal result of
        Inl e \<Rightarrow> (Inl e, s)
      | Inr _ \<Rightarrow>
          (case duration_millis idempotency_retention ''command idempotency completion retention'' of
             Inl e \<Rightarrow> (Inl e, s)
           | Inr idempotency_ms \<Rightarrow>
               (case duration_millis result_retention ''command result retention'' of
                  Inl e \<Rightarrow> (Inl e, s)
                | Inr result_ms \<Rightarrow>
                    answer decode_completion
                      (invoke f (complete_with_result_script (vs_server vs) (vs_codec vs)
                                   (lease_key vs (cr_guild_id result) key)
                                   (result_key vs (cr_guild_id result) (cr_command_id result))
                                   (lease_value (vs_codec vs) token) (cd_result (vs_codec vs) result)
                                   idempotency_ms result_ms
                                   (cd_uuid (vs_codec vs) (cr_command_id result)) (guild_text (cr_guild_id result))) s))))"

section \<open>Admission\<close>

datatype command_enqueue = Enqueued rstring | AlreadyPending

definition COMMAND_STREAM_CAPACITY :: nat where "COMMAND_STREAM_CAPACITY = 100000"

fun first_wrong_type :: "'s valkey \<Rightarrow> 's \<Rightarrow> nat \<Rightarrow> (rstring \<times> string) list \<Rightarrow> nat option" where
  "first_wrong_type vk s i [] = None"
| "first_wrong_type vk s i ((key, expected) # rest) =
     (if vk_type vk s key \<noteq> ''none'' \<and> vk_type vk s key \<noteq> expected then Some i
      else first_wrong_type vk s (i + 1) rest)"

text \<open>The counter of a window, zero unless it is a whole count of this very window.\<close>

definition read_counter :: "'s valkey \<Rightarrow> codec \<Rightarrow> 's \<Rightarrow> int \<Rightarrow> int \<Rightarrow> rstring \<Rightarrow> int \<times> int" where
  "read_counter vk cd s window_ms window_end_ms key =
     (let (stored_count, stored_reset) = vk_hmget vk s key;
          ttl_ms = vk_pttl vk s key
      in case (Option.bind stored_count (cd_tonumber cd), Option.bind stored_reset (cd_tonumber cd)) of
           (Some counted, Some reset_at_ms) \<Rightarrow>
             if counted \<ge> 0 \<and> reset_at_ms = window_end_ms \<and> ttl_ms > 0 \<and> ttl_ms \<le> window_ms
             then (counted, reset_at_ms) else (0, window_end_ms)
         | _ \<Rightarrow> (0, window_end_ms))"

definition now_ms_of :: "nat \<times> nat \<Rightarrow> int" where
  "now_ms_of server_time = int (fst server_time) * 1000 + int (snd server_time div 1000)"

definition window_end_of :: "int \<Rightarrow> int \<Rightarrow> int" where
  "window_end_of now_ms window_ms = (now_ms div window_ms + 1) * window_ms"

definition retry_seconds :: "int \<Rightarrow> int \<Rightarrow> int" where
  "retry_seconds retry_at now_ms =
     (let seconds = - ((now_ms - retry_at) div 1000);
          at_least_one = (if seconds < 1 then 1 else seconds)
      in if at_least_one > 60 then 60 else at_least_one)"

record admission_request =
  ar_stream :: rstring
  ar_result :: rstring
  ar_actor_rate :: rstring
  ar_guild_rate :: rstring
  ar_envelope :: rstring
  ar_pending :: rstring
  ar_retention_ms :: nat
  ar_per_actor :: int
  ar_per_guild :: int
  ar_window_ms :: int

definition admit_and_enqueue_script ::
  "'s valkey \<Rightarrow> codec \<Rightarrow> admission_request \<Rightarrow> 's \<Rightarrow> (int \<times> rstring) \<times> 's" where
  "admit_and_enqueue_script vk cd r s =
     (case first_wrong_type vk s 1
             [(ar_stream r, ''stream''), (ar_result r, ''string''), (ar_actor_rate r, ''hash''), (ar_guild_rate r, ''hash'')] of
        Some i \<Rightarrow> ((5, decimal_digits i), s)
      | None \<Rightarrow>
          let current = vk_get vk s (ar_result r)
          in if current \<noteq> None \<and> current \<noteq> Some (ar_pending r) then ((2, str ''0''), s)
             else if current = Some (ar_pending r) then ((6, str ''0''), s)
             else if vk_xlen vk s (ar_stream r) \<ge> COMMAND_STREAM_CAPACITY then ((3, str ''0''), s)
             else let now_ms = now_ms_of (vk_time vk s);
                      window_end_ms = window_end_of now_ms (ar_window_ms r);
                      (actor_count, actor_reset_at) = read_counter vk cd s (ar_window_ms r) window_end_ms (ar_actor_rate r);
                      (guild_count, guild_reset_at) = read_counter vk cd s (ar_window_ms r) window_end_ms (ar_guild_rate r);
                      actor_blocked = actor_count \<ge> ar_per_actor r;
                      guild_blocked = guild_count \<ge> ar_per_guild r
             in if actor_blocked \<or> guild_blocked then
                  let retry_at = (if actor_blocked then actor_reset_at else 0);
                      retry_at = (if guild_blocked \<and> guild_reset_at > retry_at then guild_reset_at else retry_at)
                  in ((4, decimal_digits (nat (retry_seconds retry_at now_ms))), s)
                else
                  let s = vk_hset vk (ar_actor_rate r) (actor_count + 1) actor_reset_at s;
                      s = vk_pexpireat vk (ar_actor_rate r) actor_reset_at s;
                      s = vk_hset vk (ar_guild_rate r) (guild_count + 1) guild_reset_at s;
                      s = vk_pexpireat vk (ar_guild_rate r) guild_reset_at s;
                      s = vk_set_px vk (ar_result r) (ar_pending r) (ar_retention_ms r) s;
                      (entry_id, s) = vk_xadd vk (ar_stream r) (ar_envelope r) s
                  in ((1, entry_id), s))"

definition decode_response :: "int \<times> rstring \<Rightarrow> storage_error + command_enqueue" where
  "decode_response response =
     (case response of (status, content) \<Rightarrow>
        if status = 1 \<and> content \<noteq> [] then Inr (Enqueued content)
        else if status = 2 then Inl (CorruptData ''command result'' ''pending_conflict'')
        else if status = 3 then Inl (StorageCapacityExceeded ''shard command stream'')
        else if status = 4 then
          (case from_str_radix 10 content of
             Some seconds \<Rightarrow>
               if 1 \<le> seconds \<and> seconds \<le> 60
               then Inl (RateLimited ''player command admission'' (unat seconds * 10 ^ 9))
               else Inl (CorruptData ''command admission'' ''retry_after'')
           | None \<Rightarrow> Inl (CorruptData ''command admission'' ''retry_after''))
        else if status = 5 then Inl (CorruptData ''command admission'' ''key_type'')
        else if status = 6 then Inr AlreadyPending
        else Inl (CorruptData ''command admission'' ''script_response''))"

definition enqueue_command ::
  "'s valkey_store \<Rightarrow> request_fault \<Rightarrow> command_envelope \<Rightarrow> u32 \<Rightarrow> nat \<Rightarrow> 's \<Rightarrow> (storage_error + command_enqueue) \<times> 's" where
  "enqueue_command vs f envelope shard_total result_retention s =
     (if shard_total = 0 then (Inl (InvalidIdentifier ''shard total'' ''must be non-zero''), s)
      else case ce_actor_user_id envelope of
        None \<Rightarrow> (Inl (InvalidIdentifier ''command actor'' ''must identify an authenticated user''), s)
      | Some actor \<Rightarrow>
          let cd = vs_codec vs; guild = ce_guild_id envelope;
              owner = shard_id guild shard_total;
              encoded = cd_envelope cd envelope;
              pending = cd_result cd (result_pending (ce_command_id envelope) guild);
              policy = player_command_rate_limit_standard
          in case duration_millis_usize result_retention ''command result retention'' of
               Inl e \<Rightarrow> (Inl e, s)
             | Inr retention_ms \<Rightarrow>
                 (case duration_millis_usize (window policy) ''player command rate window'' of
                    Inl e \<Rightarrow> (Inl e, s)
                  | Inr window_ms \<Rightarrow>
                      if retention_ms = 0 \<or> window_ms = 0 then (Inl (DurationOutOfRange ''command admission''), s)
                      else answer decode_response
                        (invoke f (admit_and_enqueue_script (vs_server vs) cd
                           \<lparr>ar_stream = command_stream_key (vs_keyspace vs) owner,
                            ar_result = result_key vs guild (ce_command_id envelope),
                            ar_actor_rate = actor_rate_key (vs_keyspace vs) guild actor,
                            ar_guild_rate = guild_rate_key (vs_keyspace vs) guild,
                            ar_envelope = encoded, ar_pending = pending, ar_retention_ms = retention_ms,
                            ar_per_actor = int (unat (per_actor_per_guild policy)),
                            ar_per_guild = int (unat (per_guild policy)), ar_window_ms = int window_ms\<rparr>) s)))"

section \<open>The consumer\<close>

record received_command =
  rc_entry_id :: rstring
  rc_envelope :: command_envelope

text \<open>An entry as the server delivers it, with the text of its \<open>envelope\<close> field if it has one.\<close>

record received_entry =
  re_entry_id :: rstring
  re_envelope :: "rstring option"

definition validate_consumer_name :: "string \<Rightarrow> rstring \<Rightarrow> storage_error + unit" where
  "validate_consumer_name kind name =
     (if name = [] \<or> str_len name > 128 \<or> has_control name
      then Inl (InvalidIdentifier kind ''must be 1-128 characters without control characters'') else Inr ())"

definition split_once :: "rchar \<Rightarrow> rstring \<Rightarrow> (rstring \<times> rstring) option" where
  "split_once c s =
     (if c \<in> set s then Some (takeWhile (\<lambda>x. x \<noteq> c) s, tl (dropWhile (\<lambda>x. x \<noteq> c) s)) else None)"

definition validate_stream_id :: "rstring \<Rightarrow> storage_error + unit" where
  "validate_stream_id s =
     (if s = str ''0'' \<or> s = str ''0-0'' \<or>
         (case split_once 0x2d s of
            None \<Rightarrow> False
          | Some (left, right) \<Rightarrow>
              left \<noteq> [] \<and> right \<noteq> [] \<and> list_all is_ascii_digit left \<and> list_all is_ascii_digit right)
      then Inr ()
      else Inl (InvalidIdentifier ''stream entry ID'' ''must be zero or a numeric milliseconds-sequence pair''))"

definition ack_and_delete_script :: "'s valkey \<Rightarrow> rstring \<Rightarrow> rstring \<Rightarrow> rstring \<Rightarrow> 's \<Rightarrow> nat \<times> 's" where
  "ack_and_delete_script vk stream group_name entry_id s =
     (case vk_xack vk stream group_name entry_id s of
        (acknowledged, t) \<Rightarrow> (acknowledged, if acknowledged = 1 then vk_xdel vk stream entry_id t else t))"

definition acknowledge_command ::
  "'s valkey_store \<Rightarrow> request_fault \<Rightarrow> u32 \<Rightarrow> rstring \<Rightarrow> rstring \<Rightarrow> 's \<Rightarrow> (storage_error + bool) \<times> 's" where
  "acknowledge_command vs f shard group_name entry_id s =
     (case validate_consumer_name ''consumer group'' group_name of
        Inl e \<Rightarrow> (Inl e, s)
      | Inr _ \<Rightarrow>
          (case validate_stream_id entry_id of
             Inl e \<Rightarrow> (Inl e, s)
           | Inr _ \<Rightarrow>
               answer (\<lambda>n. Inr (n = 1))
                 (invoke f (ack_and_delete_script (vs_server vs) (command_stream_key (vs_keyspace vs) shard) group_name entry_id) s)))"

text \<open>An entry that does not decode is acknowledged and deleted, so that it cannot hold up its
  batch; a failure to do that fails the batch. \<open>faults\<close> are those of the discards, in order.\<close>

definition decode_stream_id :: "codec \<Rightarrow> received_entry \<Rightarrow> storage_error + received_command" where
  "decode_stream_id cd entry =
     (case re_envelope entry of
        None \<Rightarrow> Inl (CorruptData ''shard_command'' ''envelope'')
      | Some encoded \<Rightarrow>
          (case cd_parse_envelope cd encoded of
             None \<Rightarrow> Inl Json
           | Some envelope \<Rightarrow> Inr \<lparr>rc_entry_id = re_entry_id entry, rc_envelope = envelope\<rparr>))"

fun decode_or_discard ::
  "'s valkey_store \<Rightarrow> rstring \<Rightarrow> rstring \<Rightarrow> (rstring \<Rightarrow> request_fault) \<Rightarrow> received_entry list \<Rightarrow>
     received_command list \<Rightarrow> 's \<Rightarrow>
     (storage_error + received_command list) \<times> 's" where
  "decode_or_discard vs stream group_name faults [] commands s = (Inr commands, s)"
| "decode_or_discard vs stream group_name faults (entry # rest) commands s =
     (case decode_stream_id (vs_codec vs) entry of
        Inr command \<Rightarrow> decode_or_discard vs stream group_name faults rest (commands @ [command]) s
      | Inl _ \<Rightarrow>
          (case invoke (faults (re_entry_id entry))
                  (ack_and_delete_script (vs_server vs) stream group_name (re_entry_id entry)) s of
             (Inl e, t) \<Rightarrow> (Inl e, t)
           | (Inr _, t) \<Rightarrow> decode_or_discard vs stream group_name faults rest commands t))"

text \<open>The blocking read and the claim of abandoned entries, over what the server replies: the claim
  answers the next cursor, the entries moved to this consumer and the identifiers deleted before.\<close>

definition read_commands ::
  "'s valkey_store \<Rightarrow> (rstring \<Rightarrow> request_fault) \<Rightarrow> u32 \<Rightarrow> rstring \<Rightarrow> rstring \<Rightarrow> nat \<Rightarrow> nat \<Rightarrow>
     (rstring \<Rightarrow> nat \<Rightarrow> nat \<Rightarrow> 's \<Rightarrow> (storage_error + received_entry list option) \<times> 's) \<Rightarrow> 's \<Rightarrow>
     (storage_error + received_command list) \<times> 's" where
  "read_commands vs faults shard group_name consumer limit block xread s =
     (case validate_consumer_name ''consumer group'' group_name of Inl e \<Rightarrow> (Inl e, s) | Inr _ \<Rightarrow>
       (case validate_consumer_name ''consumer'' consumer of Inl e \<Rightarrow> (Inl e, s) | Inr _ \<Rightarrow>
         (case duration_millis_usize block ''command stream block'' of Inl e \<Rightarrow> (Inl e, s) | Inr block_ms \<Rightarrow>
           let stream = command_stream_key (vs_keyspace vs) shard
           in (case xread stream (max limit 1) block_ms s of
             (Inl e, t) \<Rightarrow> (Inl e, t)
           | (Inr None, t) \<Rightarrow> (Inr [], t)
           | (Inr (Some entries), t) \<Rightarrow> decode_or_discard vs stream group_name faults entries [] t))))"

record claim_batch =
  cb_next_start :: rstring
  cb_commands :: "received_command list"
  cb_deleted_entry_ids :: "rstring list"

definition claim_abandoned_commands ::
  "'s valkey_store \<Rightarrow> (rstring \<Rightarrow> request_fault) \<Rightarrow> u32 \<Rightarrow> rstring \<Rightarrow> rstring \<Rightarrow> nat \<Rightarrow> rstring \<Rightarrow> nat \<Rightarrow>
     (rstring \<Rightarrow> nat \<Rightarrow> rstring \<Rightarrow> nat \<Rightarrow> 's \<Rightarrow>
        (storage_error + rstring \<times> received_entry list \<times> rstring list) \<times> 's) \<Rightarrow> 's \<Rightarrow>
     (storage_error + claim_batch) \<times> 's" where
  "claim_abandoned_commands vs faults shard group_name consumer minimum_idle start limit xautoclaim s =
     (case validate_consumer_name ''consumer group'' group_name of Inl e \<Rightarrow> (Inl e, s) | Inr _ \<Rightarrow>
       (case validate_consumer_name ''consumer'' consumer of Inl e \<Rightarrow> (Inl e, s) | Inr _ \<Rightarrow>
         (case validate_stream_id start of Inl e \<Rightarrow> (Inl e, s) | Inr _ \<Rightarrow>
           (case duration_millis_usize minimum_idle ''command claim idle'' of Inl e \<Rightarrow> (Inl e, s) | Inr idle_ms \<Rightarrow>
             let stream = command_stream_key (vs_keyspace vs) shard
             in (case xautoclaim stream idle_ms start (max limit 1) s of
               (Inl e, t) \<Rightarrow> (Inl e, t)
             | (Inr (next_start, entries, deleted), t) \<Rightarrow>
                 (case decode_or_discard vs stream group_name faults entries [] t of
                    (Inl e, u) \<Rightarrow> (Inl e, u)
                  | (Inr commands, u) \<Rightarrow>
                      (Inr \<lparr>cb_next_start = next_start, cb_commands = commands, cb_deleted_entry_ids = deleted\<rparr>, u)))))))"

section \<open>Presence\<close>

definition validate_instance :: "rstring \<Rightarrow> storage_error + unit" where
  "validate_instance name =
     (if name \<noteq> [] \<and> str_len name \<le> 64 \<and>
         list_all (\<lambda>c. is_ascii_alphanumeric c \<or> c = 0x2d \<or> c = 0x5f \<or> c = 0x2e) name
      then Inr ()
      else Inl (InvalidIdentifier ''presence instance''
                 ''must be 1-64 ASCII letters, digits, dots, underscores, or hyphens''))"

text \<open>\<open>reply\<close> is what the server answers to the SET.\<close>

definition refresh_bot_presence ::
  "'s valkey_store \<Rightarrow> request_fault \<Rightarrow> rstring option \<Rightarrow> guild_id \<Rightarrow> rstring \<Rightarrow> nat \<Rightarrow> 's \<Rightarrow> (storage_error + unit) \<times> 's" where
  "refresh_bot_presence vs f reply guild instance_id ttl s =
     (case validate_instance instance_id of
        Inl e \<Rightarrow> (Inl e, s)
      | Inr _ \<Rightarrow>
          (case duration_millis ttl ''bot presence'' of
             Inl e \<Rightarrow> (Inl e, s)
           | Inr ttl_ms \<Rightarrow>
               answer (\<lambda>response. if response = Some (str ''OK'') then Inr ()
                                  else Inl (CorruptData ''bot_presence'' ''set_response''))
                 (invoke f (\<lambda>s. (reply, vk_set_px (vs_server vs) (bot_presence_key (vs_keyspace vs) guild) instance_id ttl_ms s)) s)))"

definition clear_if_owner_script :: "'s valkey \<Rightarrow> rstring \<Rightarrow> rstring \<Rightarrow> 's \<Rightarrow> nat \<times> 's" where
  "clear_if_owner_script vk key instance_id s =
     (if vk_get vk s key = Some instance_id then vk_del vk key s else (0, s))"

definition clear_bot_presence ::
  "'s valkey_store \<Rightarrow> request_fault \<Rightarrow> guild_id \<Rightarrow> rstring \<Rightarrow> 's \<Rightarrow> (storage_error + bool) \<times> 's" where
  "clear_bot_presence vs f guild instance_id s =
     (case validate_instance instance_id of
        Inl e \<Rightarrow> (Inl e, s)
      | Inr _ \<Rightarrow>
          answer (\<lambda>deleted. Inr (deleted = 1))
            (invoke f (clear_if_owner_script (vs_server vs) (bot_presence_key (vs_keyspace vs) guild) instance_id) s))"

definition is_bot_present :: "'s valkey_store \<Rightarrow> request_fault \<Rightarrow> guild_id \<Rightarrow> 's \<Rightarrow> storage_error + bool" where
  "is_bot_present vs f guild s =
     ask_server f (vk_exists (vs_server vs) s (bot_presence_key (vs_keyspace vs) guild))"

end
