(* ===== verification/Valkey_Laws.thy ===== *)
theory Valkey_Laws
  imports Valkey_Store
begin

text \<open>
  What the command side relies on of the server and of the encodings, and what follows for any
  sequence of requests by any clients: an idempotency lease behaves like the small machine below
  it, a terminal result is final, and admission keeps to its limits.
\<close>

section \<open>Documented behaviour of the server and the encodings\<close>

text \<open>GET sees what SET with an expiry stored, DEL removes, and nothing else touches a string. Between
  two requests keys may expire: that is a new state, about which a statement starts afresh.\<close>

definition valkey_laws :: "'s valkey \<Rightarrow> bool" where
  "valkey_laws vk \<longleftrightarrow>
     (\<forall>s k v t k'. 0 < t \<longrightarrow> vk_get vk (vk_set_px vk k v t s) k' = (if k' = k then Some v else vk_get vk s k')) \<and>
     (\<forall>s k k'. vk_get vk (snd (vk_del vk k s)) k' = (if k' = k then None else vk_get vk s k')) \<and>
     (\<forall>s k. fst (vk_del vk k s) = (if vk_get vk s k = None then 0 else 1)) \<and>
     (\<forall>s k t k'. 0 < t \<longrightarrow> vk_get vk (vk_pexpire vk k t s) k' = vk_get vk s k') \<and>
     (\<forall>s k a b k'. k' \<noteq> k \<longrightarrow> vk_get vk (vk_hset vk k a b s) k' = vk_get vk s k') \<and>
     (\<forall>s k a k'. k' \<noteq> k \<longrightarrow> vk_get vk (vk_pexpireat vk k a s) k' = vk_get vk s k') \<and>
     (\<forall>s k v k'. k' \<noteq> k \<longrightarrow> vk_get vk (snd (vk_xadd vk k v s)) k' = vk_get vk s k') \<and>
     (\<forall>s k v. fst (vk_xadd vk k v s) \<noteq> []) \<and>
     (\<forall>s k g i k'. k' \<noteq> k \<longrightarrow> vk_get vk (snd (vk_xack vk k g i s)) k' = vk_get vk s k') \<and>
     (\<forall>s k i k'. k' \<noteq> k \<longrightarrow> vk_get vk (vk_xdel vk k i s) k' = vk_get vk s k')"

fun status_name :: "command_result_status \<Rightarrow> rstring" where
  "status_name StatusPending = str ''pending''"
| "status_name (StatusApplied _) = str ''applied''"
| "status_name (StatusDenied _) = str ''denied''"
| "status_name (StatusRejected _ _) = str ''rejected''"

definition codec_laws :: "codec \<Rightarrow> bool" where
  "codec_laws cd \<longleftrightarrow> inj (cd_uuid cd) \<and>
     (\<forall>r. cd_parse_result cd (cd_result cd r) = Some r) \<and>
     (\<forall>r. cd_fields cd (cd_result cd r) =
        Some (cd_uuid cd (cr_command_id r), guild_text (cr_guild_id r), status_name (cr_status r))) \<and>
     (\<forall>t r. cd_parse_result cd t = Some r \<longrightarrow> (\<exists>a b. cd_fields cd t = Some (a, b, status_name (cr_status r))))"

lemma laws_get:
  assumes "valkey_laws vk"
  shows "0 < t \<Longrightarrow> vk_get vk (vk_set_px vk k v t s) k' = (if k' = k then Some v else vk_get vk s k')"
    and "vk_get vk (snd (vk_del vk k s)) k' = (if k' = k then None else vk_get vk s k')"
    and "0 < t \<Longrightarrow> vk_get vk (vk_pexpire vk k t s) k' = vk_get vk s k'"
    and "k' \<noteq> k \<Longrightarrow> vk_get vk (vk_hset vk k a b s) k' = vk_get vk s k'"
    and "k' \<noteq> k \<Longrightarrow> vk_get vk (vk_pexpireat vk k a s) k' = vk_get vk s k'"
    and "k' \<noteq> k \<Longrightarrow> vk_get vk (snd (vk_xadd vk k v s)) k' = vk_get vk s k'"
    and "k' \<noteq> k \<Longrightarrow> vk_get vk (snd (vk_xack vk k g i s)) k' = vk_get vk s k'"
    and "k' \<noteq> k \<Longrightarrow> vk_get vk (vk_xdel vk k i s) k' = vk_get vk s k'"
  using assms by (simp_all add: valkey_laws_def)

lemma codec_laws_simps:
  assumes "codec_laws cd"
  shows "inj (cd_uuid cd)" and "cd_parse_result cd (cd_result cd r) = Some r"
    and "cd_fields cd (cd_result cd r) =
      Some (cd_uuid cd (cr_command_id r), guild_text (cr_guild_id r), status_name (cr_status r))"
    and "cd_parse_result cd t = Some r \<Longrightarrow> \<exists>a b. cd_fields cd t = Some (a, b, status_name (cr_status r))"
  using assms by (simp_all add: codec_laws_def)

lemma cd_result_inject: "codec_laws cd \<Longrightarrow> cd_result cd a = cd_result cd b \<longleftrightarrow> a = b"
  by (metis codec_laws_simps(2) option.inject)

lemma status_name_pending: "status_name st = str ''pending'' \<longleftrightarrow> st = StatusPending"
  by (cases st) simp_all

lemma lease_value_inject: "codec_laws cd \<Longrightarrow> lease_value cd a = lease_value cd b \<longleftrightarrow> a = b"
  by (simp add: lease_value_def codec_laws_simps(1) inj_eq)

lemma lease_not_done [simp]: "lease_value cd t \<noteq> str ''done''" "str ''done'' \<noteq> lease_value cd t"
  by (simp_all add: lease_value_def)

section \<open>Requests of any client\<close>

datatype store_call =
  CallClaim guild_id uuid uuid nat
  | CallComplete guild_id uuid uuid nat
  | CallRelease guild_id uuid uuid
  | CallStoreResult command_result nat
  | CallCompleteCommand uuid uuid command_result nat nat
  | CallEnqueue command_envelope u32 nat
  | CallAcknowledge u32 rstring rstring
  | CallRefreshPresence "rstring option" guild_id rstring nat
  | CallClearPresence guild_id rstring

fun run_call :: "'s valkey_store \<Rightarrow> request_fault \<Rightarrow> store_call \<Rightarrow> 's \<Rightarrow> 's" where
  "run_call vs f (CallClaim g k t ttl) s = snd (claim_idempotency vs f g k t ttl s)"
| "run_call vs f (CallComplete g k t retention) s = snd (complete_idempotency vs f g k t retention s)"
| "run_call vs f (CallRelease g k t) s = snd (release_idempotency vs f g k t s)"
| "run_call vs f (CallStoreResult r retention) s = snd (store_command_result vs f r retention s)"
| "run_call vs f (CallCompleteCommand k t r a b) s = snd (complete_command vs f k t r a b s)"
| "run_call vs f (CallEnqueue e shards retention) s = snd (enqueue_command vs f e shards retention s)"
| "run_call vs f (CallAcknowledge shard group_name entry_id) s = snd (acknowledge_command vs f shard group_name entry_id s)"
| "run_call vs f (CallRefreshPresence reply g i ttl) s = snd (refresh_bot_presence vs f reply g i ttl s)"
| "run_call vs f (CallClearPresence g i) s = snd (clear_bot_presence vs f g i s)"

fun run_calls :: "'s valkey_store \<Rightarrow> (request_fault \<times> store_call) list \<Rightarrow> 's \<Rightarrow> 's" where
  "run_calls vs [] s = s"
| "run_calls vs ((f, c) # cs) s = run_calls vs cs (run_call vs f c s)"

lemma snd_answer [simp]: "snd (answer d r) = snd r"
  by (simp add: answer_def split: prod.splits sum.splits)

lemma snd_invoke: "snd (invoke f script s) = (if f = LostBefore then s else snd (script s))"
  by (cases f) (simp_all add: invoke_def split: prod.splits)

lemma duration_millis_pos: "duration_millis d op = Inr ms \<Longrightarrow> 0 < ms"
  by (auto simp: duration_millis_def Let_def split: if_split_asm)

text \<open>The keys of the other families are neither lease nor result keys.\<close>

lemma other_keys [simp]:
  "command_result_key ks u g c \<noteq> actor_rate_key ks g' a" "command_result_key ks u g c \<noteq> guild_rate_key ks g'"
  "command_result_key ks u g c \<noteq> command_stream_key ks sh" "command_result_key ks u g c \<noteq> bot_presence_key ks g'"
  "dedupe_key ks u g c \<noteq> actor_rate_key ks g' a" "dedupe_key ks u g c \<noteq> guild_rate_key ks g'"
  "dedupe_key ks u g c \<noteq> command_stream_key ks sh" "dedupe_key ks u g c \<noteq> bot_presence_key ks g'"
  by (simp_all add: command_result_key_def actor_rate_key_def guild_rate_key_def command_stream_key_def
      bot_presence_key_def dedupe_key_def)

text \<open>What each request leaves at a key.\<close>

lemma get_claim:
  assumes "valkey_laws (vs_server vs)"
  shows "vk_get (vs_server vs) (snd (claim_idempotency vs f g k t ttl s)) key =
    (if f \<noteq> LostBefore \<and> isl (duration_millis ttl ''idempotency lease'') = False \<and> key = lease_key vs g k \<and>
        vk_get (vs_server vs) s key = None
     then Some (lease_value (vs_codec vs) t) else vk_get (vs_server vs) s key)"
  using laws_get(1) [OF assms] duration_millis_pos
  by (auto simp: claim_idempotency_def snd_invoke claim_script_def split: sum.split option.split)

lemma get_complete:
  assumes "valkey_laws (vs_server vs)"
  shows "vk_get (vs_server vs) (snd (complete_idempotency vs f g k t retention s)) key =
    (if f \<noteq> LostBefore \<and> isl (duration_millis retention ''idempotency retention'') = False \<and> key = lease_key vs g k \<and>
        vk_get (vs_server vs) s key = Some (lease_value (vs_codec vs) t)
     then Some (str ''done'') else vk_get (vs_server vs) s key)"
  using laws_get(1) [OF assms] duration_millis_pos
  by (auto simp: complete_idempotency_def snd_invoke complete_script_def simp del: str_Cons split: sum.split)

lemma get_release:
  assumes "valkey_laws (vs_server vs)"
  shows "vk_get (vs_server vs) (snd (release_idempotency vs f g k t s)) key =
    (if f \<noteq> LostBefore \<and> key = lease_key vs g k \<and> vk_get (vs_server vs) s key = Some (lease_value (vs_codec vs) t)
     then None else vk_get (vs_server vs) s key)"
  using laws_get(2) [OF assms]
  by (auto simp: release_idempotency_def snd_invoke release_script_def split: prod.split) (metis snd_conv)+

text \<open>Whether a result may be stored over what its key holds.\<close>

definition result_fits :: "'s valkey_store \<Rightarrow> command_result \<Rightarrow> 's \<Rightarrow> bool" where
  "result_fits vs r s \<longleftrightarrow>
     (let current = vk_get (vs_server vs) s (result_key vs (cr_guild_id r) (cr_command_id r))
      in current \<noteq> Some (cd_result (vs_codec vs) r) \<and>
         replaceable (vs_codec vs) (cd_uuid (vs_codec vs) (cr_command_id r)) (guild_text (cr_guild_id r)) current = Some True)"

lemma get_store_result:
  assumes "valkey_laws (vs_server vs)"
  shows "vk_get (vs_server vs) (snd (store_command_result vs f r retention s)) key =
    (if f \<noteq> LostBefore \<and> is_terminal r \<and> isl (duration_millis retention ''command result retention'') = False \<and>
        key = result_key vs (cr_guild_id r) (cr_command_id r) \<and> result_fits vs r s
     then Some (cd_result (vs_codec vs) r) else vk_get (vs_server vs) s key)"
  using laws_get(1,3) [OF assms] duration_millis_pos
  by (auto simp: store_command_result_def require_terminal_def snd_invoke store_terminal_script_def Let_def
      result_fits_def split: sum.split option.split bool.split)

text \<open>Completing a command while holding its lease, where the result is new, equal or refused.\<close>

definition may_complete :: "'s valkey_store \<Rightarrow> request_fault \<Rightarrow> uuid \<Rightarrow> uuid \<Rightarrow> command_result \<Rightarrow> nat \<Rightarrow> nat \<Rightarrow> 's \<Rightarrow> bool" where
  "may_complete vs f k t r a b s \<longleftrightarrow> f \<noteq> LostBefore \<and> is_terminal r \<and>
     isl (duration_millis a ''command idempotency completion retention'') = False \<and>
     isl (duration_millis b ''command result retention'') = False \<and>
     vk_get (vs_server vs) s (lease_key vs (cr_guild_id r) k) = Some (lease_value (vs_codec vs) t)"

lemma get_complete_command:
  assumes "valkey_laws (vs_server vs)"
  shows "vk_get (vs_server vs) (snd (complete_command vs f k t r a b s)) key =
    (if may_complete vs f k t r a b s \<and> result_fits vs r s \<and> key = result_key vs (cr_guild_id r) (cr_command_id r)
     then Some (cd_result (vs_codec vs) r)
     else if may_complete vs f k t r a b s \<and> key = lease_key vs (cr_guild_id r) k \<and>
       (result_fits vs r s \<or> vk_get (vs_server vs) s (result_key vs (cr_guild_id r) (cr_command_id r)) =
          Some (cd_result (vs_codec vs) r))
     then Some (str ''done'') else vk_get (vs_server vs) s key)"
  using laws_get(1,3) [OF assms] duration_millis_pos
  by (auto simp: complete_command_def require_terminal_def snd_invoke complete_with_result_script_def Let_def
      may_complete_def result_fits_def simp del: str_Cons split: sum.split option.split bool.split)

lemma get_acknowledge:
  assumes "valkey_laws (vs_server vs)" and "key \<noteq> command_stream_key (vs_keyspace vs) shard"
  shows "vk_get (vs_server vs) (snd (acknowledge_command vs f shard group_name entry_id s)) key = vk_get (vs_server vs) s key"
  using laws_get(7,8) [OF assms(1) assms(2)]
  by (auto simp: acknowledge_command_def snd_invoke ack_and_delete_script_def split: sum.split prod.split)
    (metis snd_conv)+

lemma get_presence:
  assumes "valkey_laws (vs_server vs)" and "key \<noteq> bot_presence_key (vs_keyspace vs) g"
  shows "vk_get (vs_server vs) (snd (refresh_bot_presence vs f reply g i ttl s)) key = vk_get (vs_server vs) s key"
    and "vk_get (vs_server vs) (snd (clear_bot_presence vs f g i s)) key = vk_get (vs_server vs) s key"
  using laws_get(1,2) [OF assms(1)] duration_millis_pos assms(2)
  by (auto simp: refresh_bot_presence_def clear_bot_presence_def snd_invoke clear_if_owner_script_def split: sum.split)

text \<open>The script either admits, with every counter below its limit and no record yet, or changes nothing.\<close>

definition admits :: "'s valkey \<Rightarrow> codec \<Rightarrow> admission_request \<Rightarrow> 's \<Rightarrow> bool" where
  "admits vk cd r s \<longleftrightarrow>
     (let window_end_ms = window_end_of (now_ms_of (vk_time vk s)) (ar_window_ms r)
      in first_wrong_type vk s 1 [(ar_stream r, ''stream''), (ar_result r, ''string''), (ar_actor_rate r, ''hash''),
           (ar_guild_rate r, ''hash'')] = None \<and>
         vk_get vk s (ar_result r) = None \<and> vk_xlen vk s (ar_stream r) < COMMAND_STREAM_CAPACITY \<and>
         fst (read_counter vk cd s (ar_window_ms r) window_end_ms (ar_actor_rate r)) < ar_per_actor r \<and>
         fst (read_counter vk cd s (ar_window_ms r) window_end_ms (ar_guild_rate r)) < ar_per_guild r)"

definition admitted :: "'s valkey \<Rightarrow> codec \<Rightarrow> admission_request \<Rightarrow> 's \<Rightarrow> rstring \<times> 's" where
  "admitted vk cd r s =
     (let window_end_ms = window_end_of (now_ms_of (vk_time vk s)) (ar_window_ms r);
          (actor_count, actor_reset_at) = read_counter vk cd s (ar_window_ms r) window_end_ms (ar_actor_rate r);
          (guild_count, guild_reset_at) = read_counter vk cd s (ar_window_ms r) window_end_ms (ar_guild_rate r)
      in vk_xadd vk (ar_stream r) (ar_envelope r)
           (vk_set_px vk (ar_result r) (ar_pending r) (ar_retention_ms r)
             (vk_pexpireat vk (ar_guild_rate r) guild_reset_at
               (vk_hset vk (ar_guild_rate r) (guild_count + 1) guild_reset_at
                 (vk_pexpireat vk (ar_actor_rate r) actor_reset_at
                   (vk_hset vk (ar_actor_rate r) (actor_count + 1) actor_reset_at s))))))"

lemma admit_script_cases:
  "admit_and_enqueue_script vk cd r s =
     (if admits vk cd r s then ((1, fst (admitted vk cd r s)), snd (admitted vk cd r s))
      else (fst (admit_and_enqueue_script vk cd r s), s))"
  "\<not> admits vk cd r s \<Longrightarrow> fst (fst (admit_and_enqueue_script vk cd r s)) \<noteq> 1"
  by (auto simp: admit_and_enqueue_script_def admits_def admitted_def Let_def simp del: first_wrong_type.simps str_Cons
      split: prod.split option.split)

lemma get_enqueue:
  assumes "valkey_laws (vs_server vs)"
    and "\<And>sh. key \<noteq> command_stream_key (vs_keyspace vs) sh" and "\<And>g u. key \<noteq> actor_rate_key (vs_keyspace vs) g u"
    and "\<And>g. key \<noteq> guild_rate_key (vs_keyspace vs) g"
    and "vk_get (vs_server vs) s key \<noteq> None \<or> key \<noteq> result_key vs (ce_guild_id e) (ce_command_id e)"
  shows "vk_get (vs_server vs) (snd (enqueue_command vs f e shards retention s)) key = vk_get (vs_server vs) s key"
proof -
  have kept: "vk_get (vs_server vs) (snd (admit_and_enqueue_script (vs_server vs) (vs_codec vs) r s)) key = vk_get (vs_server vs) s key"
    if keys: "key \<noteq> ar_stream r" "key \<noteq> ar_actor_rate r" "key \<noteq> ar_guild_rate r"
      and result: "vk_get (vs_server vs) s key \<noteq> None \<or> key \<noteq> ar_result r" and "0 < ar_retention_ms r" for r
  proof (cases "admits (vs_server vs) (vs_codec vs) r s")
    case True
    then have "key \<noteq> ar_result r" using result by (auto simp: admits_def Let_def)
    moreover have "snd (admit_and_enqueue_script (vs_server vs) (vs_codec vs) r s) =
        snd (admitted (vs_server vs) (vs_codec vs) r s)"
      by (subst admit_script_cases(1)) (simp add: True)
    ultimately show ?thesis
      using keys laws_get(1,4,5,6) [OF assms(1)] that(5)
      by (simp add: admitted_def Let_def split: prod.split)
  next
    case False
    then have "snd (admit_and_enqueue_script (vs_server vs) (vs_codec vs) r s) = s"
      by (subst admit_script_cases(1)) simp
    then show ?thesis by simp
  qed
  show ?thesis
    using kept assms(2-5)
    by (auto simp: enqueue_command_def snd_invoke Let_def split: option.split sum.split)
qed

section \<open>A lease is a small machine\<close>

datatype lease_slot = Free | Held uuid | Done

definition slot_text :: "codec \<Rightarrow> lease_slot \<Rightarrow> rstring option" where
  "slot_text cd slot = (case slot of Free \<Rightarrow> None | Held t \<Rightarrow> Some (lease_value cd t) | Done \<Rightarrow> Some (str ''done''))"

text \<open>What a request may do to the slot of one logical operation.\<close>

fun slot_moves :: "guild_id \<Rightarrow> uuid \<Rightarrow> store_call \<Rightarrow> lease_slot \<Rightarrow> lease_slot set" where
  "slot_moves g k (CallClaim g' k' t ttl) slot =
     {slot} \<union> (if g' = g \<and> k' = k \<and> slot = Free then {Held t} else {})"
| "slot_moves g k (CallComplete g' k' t retention) slot =
     {slot} \<union> (if g' = g \<and> k' = k \<and> slot = Held t then {Done} else {})"
| "slot_moves g k (CallRelease g' k' t) slot =
     {slot} \<union> (if g' = g \<and> k' = k \<and> slot = Held t then {Free} else {})"
| "slot_moves g k (CallCompleteCommand k' t r a b) slot =
     {slot} \<union> (if cr_guild_id r = g \<and> k' = k \<and> slot = Held t then {Done} else {})"
| "slot_moves g k _ slot = {slot}"

lemma lease_refines_slot:
  assumes "valkey_laws (vs_server vs)" and "codec_laws (vs_codec vs)"
    and "vk_get (vs_server vs) s (lease_key vs g k) = slot_text (vs_codec vs) slot"
  shows "\<exists>slot' \<in> slot_moves g k call slot.
    vk_get (vs_server vs) (run_call vs f call s) (lease_key vs g k) = slot_text (vs_codec vs) slot'"
proof -
  note inject = dedupe_key_inject [OF codec_laws_simps(1) [OF assms(2)]]
  note text_of = lease_value_inject [OF assms(2)] slot_text_def
  show ?thesis
  proof (cases call)
    case (CallClaim g' k' t ttl)
    then show ?thesis
      using get_claim [OF assms(1), of f g' k' t ttl s "lease_key vs g k"] assms(3)
      by (cases slot) (auto simp: inject text_of simp del: str_Cons split: if_split_asm)
  next
    case (CallComplete g' k' t retention)
    then show ?thesis
      using get_complete [OF assms(1), of f g' k' t retention s "lease_key vs g k"] assms(3)
      by (cases slot) (auto simp: inject text_of simp del: str_Cons split: if_split_asm)
  next
    case (CallRelease g' k' t)
    then show ?thesis
      using get_release [OF assms(1), of f g' k' t s "lease_key vs g k"] assms(3)
      by (cases slot) (auto simp: inject text_of simp del: str_Cons split: if_split_asm)
  next
    case (CallCompleteCommand k' t r a b)
    then show ?thesis
      using get_complete_command [OF assms(1), of f k' t r a b s "lease_key vs g k"] assms(3)
      by (cases slot) (auto simp: inject text_of may_complete_def simp del: str_Cons split: if_split_asm)
  next
    case (CallStoreResult r retention)
    then show ?thesis using get_store_result [OF assms(1), of f r retention s "lease_key vs g k"] assms(3) by simp
  next
    case (CallEnqueue e shards retention)
    then show ?thesis
      using get_enqueue [OF assms(1), of "lease_key vs g k" s e f shards retention] assms(3) by simp
  next
    case (CallAcknowledge shard group_name entry_id)
    then show ?thesis
      using get_acknowledge [OF assms(1), of "lease_key vs g k" shard f group_name entry_id s] assms(3) by simp
  next
    case (CallRefreshPresence reply g' i ttl)
    then show ?thesis using get_presence(1) [OF assms(1), of "lease_key vs g k" g' f reply i ttl s] assms(3) by simp
  next
    case (CallClearPresence g' i)
    then show ?thesis using get_presence(2) [OF assms(1), of "lease_key vs g k" g' f i s] assms(3) by simp
  qed
qed

fun owners_call :: "guild_id \<Rightarrow> uuid \<Rightarrow> uuid \<Rightarrow> store_call \<Rightarrow> bool" where
  "owners_call g k t (CallComplete g' k' t' _) \<longleftrightarrow> g' = g \<and> k' = k \<and> t' = t"
| "owners_call g k t (CallRelease g' k' t') \<longleftrightarrow> g' = g \<and> k' = k \<and> t' = t"
| "owners_call g k t (CallCompleteCommand k' t' r _ _) \<longleftrightarrow> cr_guild_id r = g \<and> k' = k \<and> t' = t"
| "owners_call g k t _ \<longleftrightarrow> False"

lemma slot_stays:
  "slot' \<in> slot_moves g k c (Held t) \<Longrightarrow> \<not> owners_call g k t c \<Longrightarrow> slot' = Held t"
  "slot' \<in> slot_moves g k c Done \<Longrightarrow> slot' = Done"
  by (cases c; auto split: if_split_asm)+

lemma held_stays:
  assumes "valkey_laws (vs_server vs)" and "codec_laws (vs_codec vs)"
    and "vk_get (vs_server vs) s (lease_key vs g k) = slot_text (vs_codec vs) slot"
    and "slot = Done \<or> slot = Held t \<and> (\<forall>(f, c) \<in> set calls. \<not> owners_call g k t c)"
  shows "vk_get (vs_server vs) (run_calls vs calls s) (lease_key vs g k) = slot_text (vs_codec vs) slot"
  using assms(3,4)
proof (induction calls arbitrary: s)
  case (Cons call calls)
  obtain f c where call: "call = (f, c)" by (rule prod.exhaust)
  obtain slot' where "slot' \<in> slot_moves g k c slot"
    and next_text: "vk_get (vs_server vs) (run_call vs f c s) (lease_key vs g k) = slot_text (vs_codec vs) slot'"
    using lease_refines_slot [OF assms(1,2) Cons.prems(1)] by blast
  then have "slot' = slot" using Cons.prems(2) call slot_stays by auto
  then show ?case using Cons.IH [OF next_text [unfolded \<open>slot' = slot\<close>]] Cons.prems(2) call by auto
qed simp

lemma claim_answer:
  assumes "valkey_laws (vs_server vs)" and "duration_millis ttl ''idempotency lease'' = Inr ms"
    and "vk_get (vs_server vs) s (lease_key vs g k) = slot_text (vs_codec vs) slot"
  shows "fst (claim_idempotency vs NoFault g k t ttl s) =
    Inr (case slot of Free \<Rightarrow> Acquired | Held _ \<Rightarrow> InProgress | Done \<Rightarrow> Completed)"
  using assms(2,3)
  by (cases slot) (simp_all add: claim_idempotency_def invoke_def claim_script_def answer_def decode_claim_def
      slot_text_def del: str_Cons)

text \<open>While one worker holds the lease of a logical operation, no sequence of requests by others
  takes it away, and every claim answers that it is in progress; once the operation is completed
  every claim answers so. Only expiry in the server ends either.\<close>

theorem leases_are_exclusive:
  assumes "valkey_laws (vs_server vs)" and "codec_laws (vs_codec vs)"
    and "\<forall>(f, c) \<in> set calls. \<not> owners_call g k t c" and "duration_millis ttl ''idempotency lease'' = Inr ms"
  shows "(vk_get (vs_server vs) s (lease_key vs g k) = Some (lease_value (vs_codec vs) t) \<longrightarrow>
      vk_get (vs_server vs) (run_calls vs calls s) (lease_key vs g k) = Some (lease_value (vs_codec vs) t) \<and>
      fst (claim_idempotency vs NoFault g k t' ttl (run_calls vs calls s)) = Inr InProgress) \<and>
    (vk_get (vs_server vs) s (lease_key vs g k) = Some (str ''done'') \<longrightarrow>
      fst (claim_idempotency vs NoFault g k t' ttl (run_calls vs calls s)) = Inr Completed)"
proof -
  have slot_texts: "Some (lease_value (vs_codec vs) t) = slot_text (vs_codec vs) (Held t)"
    "Some (str ''done'') = slot_text (vs_codec vs) Done"
    by (simp_all add: slot_text_def)
  have "slot = Held t \<or> slot = Done \<Longrightarrow>
      vk_get (vs_server vs) s (lease_key vs g k) = slot_text (vs_codec vs) slot \<Longrightarrow>
      vk_get (vs_server vs) (run_calls vs calls s) (lease_key vs g k) = slot_text (vs_codec vs) slot \<and>
      fst (claim_idempotency vs NoFault g k t' ttl (run_calls vs calls s)) =
        Inr (case slot of Free \<Rightarrow> Acquired | Held _ \<Rightarrow> InProgress | Done \<Rightarrow> Completed)" for slot
    using held_stays [OF assms(1,2), of s g k slot t calls] claim_answer [OF assms(1,4), of _ g k slot t'] assms(3)
    by blast
  from this [of "Held t"] this [of Done] show ?thesis unfolding slot_texts by simp
qed

section \<open>Terminal results are final\<close>

text \<open>A record that reads as a terminal result leaves no room at its key, whichever text it has.\<close>

lemma fits_own_key_only:
  assumes "codec_laws (vs_codec vs)" and "is_terminal r" and "cd_parse_result (vs_codec vs) t = Some r"
    and "vk_get (vs_server vs) s key = Some t" and "result_fits vs r' s"
  shows "result_key vs (cr_guild_id r') (cr_command_id r') \<noteq> key"
proof
  assume same: "result_key vs (cr_guild_id r') (cr_command_id r') = key"
  obtain a b where "cd_fields (vs_codec vs) t = Some (a, b, status_name (cr_status r))"
    using codec_laws_simps(4) [OF assms(1,3)] by blast
  then show False
    using assms(2,4,5) status_name_pending [of "cr_status r"]
    by (simp add: result_fits_def same replaceable_def is_terminal_def Let_def del: str_Cons)
qed

lemma terminal_stays:
  assumes "valkey_laws (vs_server vs)" and "codec_laws (vs_codec vs)" and "is_terminal r"
    and "cd_parse_result (vs_codec vs) t = Some r"
    and "vk_get (vs_server vs) s (result_key vs g c) = Some t"
  shows "vk_get (vs_server vs) (run_calls vs calls s) (result_key vs g c) = Some t"
  using assms(5)
proof (induction calls arbitrary: s)
  case (Cons call calls)
  obtain f call' where call: "call = (f, call')" by (rule prod.exhaust)
  let ?key = "result_key vs g c"
  note others = fits_own_key_only [OF assms(2-4) Cons.prems]
  have "vk_get (vs_server vs) (run_call vs f call' s) ?key = Some t"
  proof (cases call')
    case (CallStoreResult r' retention)
    then show ?thesis
      using get_store_result [OF assms(1), of f r' retention s ?key] others [of r'] Cons.prems by (auto split: if_split_asm)
  next
    case (CallCompleteCommand k t r' a b)
    then show ?thesis
      using get_complete_command [OF assms(1), of f k t r' a b s ?key] others [of r'] Cons.prems
      by (auto split: if_split_asm)
  next
    case (CallEnqueue e shards retention)
    then show ?thesis using get_enqueue [OF assms(1), of ?key s e f shards retention] Cons.prems by simp
  qed (use Cons.prems in \<open>simp_all add: get_claim [OF assms(1)] get_complete [OF assms(1)] get_release [OF assms(1)]
      get_acknowledge [OF assms(1)] get_presence [OF assms(1)]\<close>)
  then show ?case using Cons.IH call by simp
qed simp

text \<open>C23: Once a terminal result of a command is stored, no sequence of requests by any clients
  changes it: storing another answers a conflict, and every reader gets the first one.\<close>

theorem terminal_results_are_final:
  assumes "valkey_laws (vs_server vs)" and "codec_laws (vs_codec vs)" and "is_terminal r"
    and "vk_get (vs_server vs) s (result_key vs (cr_guild_id r) (cr_command_id r)) = Some (cd_result (vs_codec vs) r)"
    and "is_terminal r'" and "cr_guild_id r' = cr_guild_id r" and "cr_command_id r' = cr_command_id r"
    and "duration_millis retention ''command result retention'' = Inr ms"
  shows "get_command_result vs NoFault (cr_guild_id r) (cr_command_id r) (run_calls vs calls s) = Inr (Some r) \<and>
    fst (store_command_result vs NoFault r' retention (run_calls vs calls s)) =
      Inr (if r' = r then ResultUnchanged else ResultConflict)"
proof -
  let ?s = "run_calls vs calls s"
  have there: "vk_get (vs_server vs) ?s (result_key vs (cr_guild_id r) (cr_command_id r)) = Some (cd_result (vs_codec vs) r)"
    by (rule terminal_stays [OF assms(1-3) codec_laws_simps(2) [OF assms(2)] assms(4)])
  have "get_command_result vs NoFault (cr_guild_id r) (cr_command_id r) ?s = Inr (Some r)"
    by (simp add: get_command_result_def ask_server_def there codec_laws_simps [OF assms(2)] validate_identity_def)
  moreover have "fst (store_command_result vs NoFault r' retention ?s) = Inr (if r' = r then ResultUnchanged else ResultConflict)"
    using assms(3,5-8) there status_name_pending [of "cr_status r"]
    by (auto simp: store_command_result_def require_terminal_def invoke_def answer_def store_terminal_script_def Let_def
        decode_write_def replaceable_def codec_laws_simps [OF assms(2)] cd_result_inject [OF assms(2)] is_terminal_def
        simp del: str_Cons)
  ultimately show ?thesis ..
qed

end
