(* ===== verification/Valkey_Admission.thy ===== *)
theory Valkey_Admission
  imports Valkey_Laws
begin

text \<open>
  Admission of player commands over the server's documented behaviour: what one request decides,
  and how many a window lets through.
\<close>

section \<open>One request\<close>

text \<open>The request the adapter makes for an envelope of an authenticated actor.\<close>

definition request_of :: "'s valkey_store \<Rightarrow> command_envelope \<Rightarrow> user_id \<Rightarrow> u32 \<Rightarrow> nat \<Rightarrow> admission_request" where
  "request_of vs e actor shard_total retention =
     \<lparr>ar_stream = command_stream_key (vs_keyspace vs) (shard_id (ce_guild_id e) shard_total),
      ar_result = result_key vs (ce_guild_id e) (ce_command_id e),
      ar_actor_rate = actor_rate_key (vs_keyspace vs) (ce_guild_id e) actor,
      ar_guild_rate = guild_rate_key (vs_keyspace vs) (ce_guild_id e),
      ar_envelope = cd_envelope (vs_codec vs) e,
      ar_pending = cd_result (vs_codec vs) (result_pending (ce_command_id e) (ce_guild_id e)),
      ar_retention_ms = retention div 10 ^ 6, ar_per_actor = 20, ar_per_guild = 60, ar_window_ms = 60000\<rparr>"

lemma enqueue_command_script:
  assumes "shard_total \<noteq> 0" and "ce_actor_user_id e = Some actor"
    and "duration_millis retention ''command result retention'' = Inr ms"
  shows "enqueue_command vs f e shard_total retention s =
    answer decode_response (invoke f (admit_and_enqueue_script (vs_server vs) (vs_codec vs)
      (request_of vs e actor shard_total retention)) s)"
proof -
  have "retention div 10 ^ 6 < 2 ^ 64" "retention div 10 ^ 6 \<noteq> 0"
    using assms(3) by (auto simp: duration_millis_def Let_def split: if_split_asm)
  then show ?thesis
    using assms(1,2)
    by (simp add: enqueue_command_def duration_millis_usize_def request_of_def Let_def
        player_command_rate_limit_standard_def)
qed

text \<open>The counters the script sees.\<close>

definition window_end_now :: "'s valkey \<Rightarrow> 's \<Rightarrow> int" where
  "window_end_now vk s = window_end_of (now_ms_of (vk_time vk s)) 60000"

definition counter_now :: "'s valkey_store \<Rightarrow> 's \<Rightarrow> rstring \<Rightarrow> int" where
  "counter_now vs s key =
     fst (read_counter (vs_server vs) (vs_codec vs) s 60000 (window_end_now (vs_server vs) s) key)"

lemma window_end_bounds:
  "now_ms_of t < window_end_of (now_ms_of t) 60000" "window_end_of (now_ms_of t) 60000 \<le> now_ms_of t + 60000"
  by (simp_all add: window_end_of_def now_ms_of_def)

lemma counter_reset: "snd (read_counter vk cd s w e key) = e"
  by (auto simp: read_counter_def Let_def split: prod.split option.split)

lemma retry_seconds_range: "1 \<le> retry_seconds a b \<and> retry_seconds a b \<le> 60"
  by (simp add: retry_seconds_def Let_def)

lemma decode_rate_limited:
  assumes "1 \<le> n" and "n \<le> 60"
  shows "decode_response (4, decimal_digits (nat n)) =
    Inl (RateLimited ''player command admission'' (nat n * 10 ^ 9))"
proof -
  have small: "nat n < 2 ^ 64" using assms by simp
  have unat: "unat (of_nat (nat n) :: u64) = nat n" using assms by (simp add: unat_of_nat del: of_nat_nat)
  then have "from_str_radix 10 (decimal_digits (nat n)) = Some (of_nat (nat n))"
    using from_str_radix_decimal [of "of_nat (nat n)"] by simp
  moreover have "1 \<le> (of_nat (nat n) :: u64)" "(of_nat (nat n) :: u64) \<le> 60"
    using unat assms by (simp_all add: word_le_nat_alt)
  ultimately show ?thesis using unat by (simp add: decode_response_def del: of_nat_nat)
qed

lemma refusals:
  assumes "\<not> admits vk cd r s"
  shows "(\<exists>n. 1 \<le> n \<and> n \<le> 60 \<and> fst (admit_and_enqueue_script vk cd r s) = (4, decimal_digits (nat n)) \<and>
      (let window_end_ms = window_end_of (now_ms_of (vk_time vk s)) (ar_window_ms r)
       in ar_per_actor r \<le> fst (read_counter vk cd s (ar_window_ms r) window_end_ms (ar_actor_rate r)) \<or>
          ar_per_guild r \<le> fst (read_counter vk cd s (ar_window_ms r) window_end_ms (ar_guild_rate r)))) \<or>
    fst (fst (admit_and_enqueue_script vk cd r s)) \<in> {2, 3, 5, 6}"
proof (cases "fst (fst (admit_and_enqueue_script vk cd r s)) \<in> {2, 3, 5, 6}")
  case False
  then show ?thesis
    using assms retry_seconds_range
    by (auto simp: admit_and_enqueue_script_def admits_def Let_def not_less simp del: first_wrong_type.simps str_Cons
        split: prod.splits option.splits if_split_asm)
qed simp

text \<open>An authenticated command is either admitted, atomically: it had no record yet, both counters of
  this window were below their limits of 20 and 60, and it has its pending record now; or the
  request changed nothing. A refusal for rate asks for a delay of 1 to 60 seconds and is only
  given when a limit is reached.\<close>

theorem admission_decision:
  assumes "valkey_laws (vs_server vs)" and "shard_total \<noteq> 0" and "ce_actor_user_id e = Some actor"
    and "duration_millis retention ''command result retention'' = Inr ms"
    and "enqueue_command vs NoFault e shard_total retention s = (outcome, t)"
  shows "case outcome of
      Inr (Enqueued entry_id) \<Rightarrow>
        vk_get (vs_server vs) s (result_key vs (ce_guild_id e) (ce_command_id e)) = None \<and>
        vk_get (vs_server vs) t (result_key vs (ce_guild_id e) (ce_command_id e)) =
          Some (cd_result (vs_codec vs) (result_pending (ce_command_id e) (ce_guild_id e))) \<and>
        counter_now vs s (actor_rate_key (vs_keyspace vs) (ce_guild_id e) actor) < 20 \<and>
        counter_now vs s (guild_rate_key (vs_keyspace vs) (ce_guild_id e)) < 60
    | Inl (RateLimited what delay) \<Rightarrow>
        t = s \<and> 10 ^ 9 \<le> delay \<and> delay \<le> 60 * 10 ^ 9 \<and>
        (20 \<le> counter_now vs s (actor_rate_key (vs_keyspace vs) (ce_guild_id e) actor) \<or>
         60 \<le> counter_now vs s (guild_rate_key (vs_keyspace vs) (ce_guild_id e)))
    | _ \<Rightarrow> t = s"
proof -
  let ?r = "request_of vs e actor shard_total retention"
  let ?script = "admit_and_enqueue_script (vs_server vs) (vs_codec vs) ?r s"
  have run: "(outcome, t) = answer decode_response (Inr (fst ?script), snd ?script)"
    using assms(5) enqueue_command_script [OF assms(2-4), of vs NoFault s]
    by (simp add: invoke_def split: prod.splits)
  have pos: "0 < retention div 10 ^ 6" using duration_millis_pos [OF assms(4)] assms(4)
    by (auto simp: duration_millis_def Let_def split: if_split_asm)
  show ?thesis
  proof (cases "admits (vs_server vs) (vs_codec vs) ?r s")
    case True
    have script: "fst ?script = (1, fst (admitted (vs_server vs) (vs_codec vs) ?r s))"
      "snd ?script = snd (admitted (vs_server vs) (vs_codec vs) ?r s)"
      by (subst admit_script_cases(1), simp add: True)+
    have "fst (admitted (vs_server vs) (vs_codec vs) ?r s) \<noteq> []"
      using assms(1) by (simp add: admitted_def Let_def valkey_laws_def split: prod.split)
    then obtain entry_id where enqueued: "outcome = Inr (Enqueued entry_id)" "t = snd (admitted (vs_server vs) (vs_codec vs) ?r s)"
      using run script by (auto simp: answer_def decode_response_def)
    have "vk_get (vs_server vs) t (ar_result ?r) = Some (ar_pending ?r)"
      using laws_get(1,6) [OF assms(1)] pos
      by (simp add: enqueued admitted_def Let_def request_of_def split: prod.split)
    then show ?thesis
      using True enqueued(1)
      by (simp add: admits_def request_of_def Let_def counter_now_def window_end_now_def)
  next
    case False
    have kept: "snd ?script = s" and code: "fst (fst ?script) \<noteq> 1"
      using admit_script_cases(2) [OF False] by (subst admit_script_cases(1), simp add: False)+
    then have "t = s" using run by (simp add: answer_def split: sum.splits)
    show ?thesis
    proof (cases "fst (fst ?script) \<in> {2, 3, 5, 6}")
      case True
      then show ?thesis
        using run \<open>t = s\<close> by (cases "fst ?script") (auto simp: answer_def decode_response_def)
    next
      case False
      then obtain n where n: "1 \<le> n" "n \<le> 60" "fst ?script = (4, decimal_digits (nat n))"
        and blocked: "20 \<le> counter_now vs s (actor_rate_key (vs_keyspace vs) (ce_guild_id e) actor) \<or>
          60 \<le> counter_now vs s (guild_rate_key (vs_keyspace vs) (ce_guild_id e))"
        using refusals [OF \<open>\<not> admits (vs_server vs) (vs_codec vs) ?r s\<close>]
        by (auto simp: request_of_def Let_def counter_now_def window_end_now_def)
      have "outcome = Inl (RateLimited ''player command admission'' (nat n * 10 ^ 9))"
        using run n by (simp add: answer_def decode_rate_limited)
      moreover have "1 \<le> nat n" "nat n \<le> 60" using n(1,2) by linarith+
      ultimately show ?thesis using blocked \<open>t = s\<close> by simp
    qed
  qed
qed

section \<open>A window of requests\<close>

text \<open>Hashes, expiry and the clock as documented: HMGET sees what HSET wrote, PTTL the time left until
  the PEXPIREAT, the clock stands still within a script, and other keys are not concerned.\<close>

definition counter_laws :: "'s valkey \<Rightarrow> codec \<Rightarrow> bool" where
  "counter_laws vk cd \<longleftrightarrow>
     (\<forall>s k a b. Option.bind (fst (vk_hmget vk (vk_hset vk k a b s) k)) (cd_tonumber cd) = Some a \<and>
        Option.bind (snd (vk_hmget vk (vk_hset vk k a b s) k)) (cd_tonumber cd) = Some b) \<and>
     (\<forall>s k a b k'. k' \<noteq> k \<longrightarrow> vk_hmget vk (vk_hset vk k a b s) k' = vk_hmget vk s k' \<and>
        vk_pttl vk (vk_hset vk k a b s) k' = vk_pttl vk s k') \<and>
     (\<forall>s k at k'. now_ms_of (vk_time vk s) < at \<longrightarrow>
        vk_hmget vk (vk_pexpireat vk k at s) k' = vk_hmget vk s k' \<and>
        vk_pttl vk (vk_pexpireat vk k at s) k' = (if k' = k then at - now_ms_of (vk_time vk s) else vk_pttl vk s k')) \<and>
     (\<forall>s k v n k'. k' \<noteq> k \<longrightarrow> vk_hmget vk (vk_set_px vk k v n s) k' = vk_hmget vk s k' \<and>
        vk_pttl vk (vk_set_px vk k v n s) k' = vk_pttl vk s k') \<and>
     (\<forall>s k v k'. k' \<noteq> k \<longrightarrow> vk_hmget vk (snd (vk_xadd vk k v s)) k' = vk_hmget vk s k' \<and>
        vk_pttl vk (snd (vk_xadd vk k v s)) k' = vk_pttl vk s k') \<and>
     (\<forall>s k a b. vk_time vk (vk_hset vk k a b s) = vk_time vk s) \<and>
     (\<forall>s k at. vk_time vk (vk_pexpireat vk k at s) = vk_time vk s) \<and>
     (\<forall>s k v n. vk_time vk (vk_set_px vk k v n s) = vk_time vk s) \<and>
     (\<forall>s k v. vk_time vk (snd (vk_xadd vk k v s)) = vk_time vk s)"

lemma rate_key_other [simp]:
  "actor_rate_key ks g u \<noteq> command_stream_key ks sh" "guild_rate_key ks g \<noteq> command_stream_key ks sh"
  "actor_rate_key ks g u \<noteq> command_result_key ks t g' c" "guild_rate_key ks g \<noteq> command_result_key ks t g' c"
  by (simp_all add: actor_rate_key_def guild_rate_key_def command_stream_key_def command_result_key_def)

text \<open>The state an admission leaves, read back: both counters of the window are one higher.\<close>

lemma admitted_counters:
  assumes laws: "counter_laws (vs_server vs) (vs_codec vs)"
    and nonneg: "0 \<le> counter_now vs s (guild_rate_key (vs_keyspace vs) g)"
      "0 \<le> counter_now vs s (actor_rate_key (vs_keyspace vs) g actor)"
    and r: "r = request_of vs e actor shard_total retention" and g: "g = ce_guild_id e"
    and t: "t = snd (admitted (vs_server vs) (vs_codec vs) r s)"
  shows "window_end_now (vs_server vs) t = window_end_now (vs_server vs) s"
    and "counter_now vs t (guild_rate_key (vs_keyspace vs) g) = counter_now vs s (guild_rate_key (vs_keyspace vs) g) + 1"
    and "counter_now vs t (actor_rate_key (vs_keyspace vs) g actor) = counter_now vs s (actor_rate_key (vs_keyspace vs) g actor) + 1"
proof -
  let ?vk = "vs_server vs" and ?cd = "vs_codec vs" and ?ks = "vs_keyspace vs"
  let ?now = "now_ms_of (vk_time ?vk s)" and ?e = "window_end_now ?vk s"
  let ?a = "actor_rate_key ?ks g actor" and ?gk = "guild_rate_key ?ks g"
  have bounds: "?now < ?e" "?e \<le> ?now + 60000"
    using window_end_bounds by (simp_all add: window_end_now_def)
  define s1 where "s1 = vk_pexpireat ?vk ?a ?e (vk_hset ?vk ?a (counter_now vs s ?a + 1) ?e s)"
  define s2 where "s2 = vk_pexpireat ?vk ?gk ?e (vk_hset ?vk ?gk (counter_now vs s ?gk + 1) ?e s1)"
  define s3 where "s3 = vk_set_px ?vk (ar_result r) (ar_pending r) (ar_retention_ms r) s2"
  have t: "t = snd (vk_xadd ?vk (ar_stream r) (ar_envelope r) s3)"
    unfolding t s3_def s2_def s1_def admitted_def r g counter_now_def window_end_now_def request_of_def Let_def
    by (auto simp: counter_reset split: prod.split) (metis counter_reset fst_conv snd_conv)+
  note laws' = laws [unfolded counter_laws_def]
  have times: "vk_time ?vk s1 = vk_time ?vk s" "vk_time ?vk s2 = vk_time ?vk s" "vk_time ?vk s3 = vk_time ?vk s"
    "vk_time ?vk t = vk_time ?vk s" "vk_time ?vk (vk_hset ?vk ?a (counter_now vs s ?a + 1) ?e s) = vk_time ?vk s"
    "vk_time ?vk (vk_hset ?vk ?gk (counter_now vs s ?gk + 1) ?e s1) = vk_time ?vk s"
    using laws' by (simp_all add: s1_def s2_def s3_def t)
  then show same_end: "window_end_now ?vk t = ?e" by (simp add: window_end_now_def)
  have keys: "ar_stream r = command_stream_key ?ks (shard_id g shard_total)"
    "ar_result r = result_key vs g (ce_command_id e)"
    by (simp_all add: r g request_of_def)
  have actor_there: "vk_hmget ?vk t ?a = vk_hmget ?vk (vk_hset ?vk ?a (counter_now vs s ?a + 1) ?e s) ?a"
    "vk_pttl ?vk t ?a = ?e - ?now"
    using laws' bounds times by (simp_all add: t s3_def s2_def s1_def keys)
  have guild_there: "vk_hmget ?vk t ?gk = vk_hmget ?vk (vk_hset ?vk ?gk (counter_now vs s ?gk + 1) ?e s1) ?gk"
    "vk_pttl ?vk t ?gk = ?e - ?now"
    using laws' bounds times by (simp_all add: t s3_def s2_def keys)
  have read: "counter_now vs t key = n"
    if "vk_hmget ?vk t key = vk_hmget ?vk (vk_hset ?vk key n ?e u) key" "vk_pttl ?vk t key = ?e - ?now" "0 \<le> n" for key n u
  proof -
    have "Option.bind (fst (vk_hmget ?vk (vk_hset ?vk key n ?e u) key)) (cd_tonumber ?cd) = Some n"
      "Option.bind (snd (vk_hmget ?vk (vk_hset ?vk key n ?e u) key)) (cd_tonumber ?cd) = Some ?e"
      using laws' by simp_all
    then show ?thesis
      using that bounds by (simp add: counter_now_def read_counter_def same_end Let_def split_def)
  qed
  show "counter_now vs t ?gk = counter_now vs s ?gk + 1"
    by (rule read [OF guild_there]) (use nonneg in simp)
  show "counter_now vs t ?a = counter_now vs s ?a + 1"
    by (rule read [OF actor_there]) (use nonneg in simp)
qed

lemma admitted_other_counter:
  assumes laws: "counter_laws (vs_server vs) (vs_codec vs)" and r: "r = request_of vs e actor shard_total retention"
    and "key \<noteq> ar_stream r" and "key \<noteq> ar_result r" and "key \<noteq> ar_actor_rate r" and "key \<noteq> ar_guild_rate r"
  shows "counter_now vs (snd (admitted (vs_server vs) (vs_codec vs) r s)) key = counter_now vs s key"
proof -
  let ?vk = "vs_server vs"
  let ?now = "now_ms_of (vk_time ?vk s)" and ?e = "window_end_of (now_ms_of (vk_time ?vk s)) 60000"
  have "?now < ?e" by (rule window_end_bounds)
  then show ?thesis
    using laws [unfolded counter_laws_def] assms(3-6)
    by (simp add: admitted_def counter_now_def window_end_now_def read_counter_def [of _ _ _ _ _ key] counter_reset
        Let_def split_def r request_of_def)
qed

lemma actor_rate_key_inject: "actor_rate_key ks g u = actor_rate_key ks g u' \<longleftrightarrow> u = u'"
  by (auto simp: actor_rate_key_def snowflake_display_inject user_id.expand)

lemma counter_nonneg: "0 \<le> counter_now vs s key"
  by (auto simp: counter_now_def read_counter_def Let_def split: prod.split option.split)

definition was_enqueued :: "storage_error + command_enqueue \<Rightarrow> bool" where
  "was_enqueued outcome = (case outcome of Inr (Enqueued _) \<Rightarrow> True | _ \<Rightarrow> False)"

text \<open>What one request of the guild does to its counters.\<close>

lemma enqueue_counters:
  assumes "counter_laws (vs_server vs) (vs_codec vs)" and "valkey_laws (vs_server vs)" and "shard_total \<noteq> 0"
    and "ce_actor_user_id e = Some actor" and "ce_guild_id e = g"
    and "duration_millis retention ''command result retention'' = Inr ms"
    and run: "enqueue_command vs NoFault e shard_total retention s = (outcome, t)"
  shows "window_end_now (vs_server vs) t = window_end_now (vs_server vs) s \<and>
    (if was_enqueued outcome then
       counter_now vs s (guild_rate_key (vs_keyspace vs) g) < 60 \<and>
       counter_now vs s (actor_rate_key (vs_keyspace vs) g actor) < 20 \<and>
       counter_now vs t (guild_rate_key (vs_keyspace vs) g) = counter_now vs s (guild_rate_key (vs_keyspace vs) g) + 1 \<and>
       (\<forall>user. counter_now vs t (actor_rate_key (vs_keyspace vs) g user) =
          counter_now vs s (actor_rate_key (vs_keyspace vs) g user) + (if user = actor then 1 else 0))
     else t = s)"
proof (cases "was_enqueued outcome")
  case False
  have "t = s"
    using admission_decision [OF assms(2-4,6) run] False
    by (auto simp: was_enqueued_def split: sum.splits command_enqueue.splits storage_error.splits)
  then show ?thesis using False by simp
next
  case True
  let ?r = "request_of vs e actor shard_total retention"
  let ?script = "admit_and_enqueue_script (vs_server vs) (vs_codec vs) ?r s"
  have limits: "counter_now vs s (actor_rate_key (vs_keyspace vs) g actor) < 20"
    "counter_now vs s (guild_rate_key (vs_keyspace vs) g) < 60"
    using admission_decision [OF assms(2-4,6) run] True assms(5)
    by (auto simp: was_enqueued_def split: sum.splits command_enqueue.splits)
  have answered: "(outcome, t) = answer decode_response (Inr (fst ?script), snd ?script)"
    using run enqueue_command_script [OF assms(3,4,6), of vs NoFault s] by (simp add: invoke_def split: prod.splits)
  have "admits (vs_server vs) (vs_codec vs) ?r s"
  proof (rule ccontr)
    assume "\<not> admits (vs_server vs) (vs_codec vs) ?r s"
    then have "fst (fst ?script) \<noteq> 1" by (rule admit_script_cases(2))
    then show False
      using answered True
      by (cases "fst ?script") (auto simp: answer_def decode_response_def was_enqueued_def
          split: if_split_asm option.split_asm)
  qed
  then have "snd ?script = snd (admitted (vs_server vs) (vs_codec vs) ?r s)"
    by (subst admit_script_cases(1)) simp
  then have t: "t = snd (admitted (vs_server vs) (vs_codec vs) ?r s)"
    using answered by (simp add: answer_def)
  note counters = admitted_counters [OF assms(1) counter_nonneg counter_nonneg refl assms(5) [symmetric] t]
  have others: "counter_now vs t (actor_rate_key (vs_keyspace vs) g user) = counter_now vs s (actor_rate_key (vs_keyspace vs) g user)"
    if "user \<noteq> actor" for user
    unfolding t by (rule admitted_other_counter [OF assms(1) refl])
      (use that assms(5) in \<open>simp_all add: request_of_def actor_rate_key_inject\<close>)
  show ?thesis using True limits counters others by auto
qed

section \<open>The limits of a window\<close>

text \<open>Requests of one guild, each after a gap in which anything may happen that neither ends the window
  nor touches the counters of the guild.\<close>

type_synonym 's request = "('s \<Rightarrow> 's) \<times> command_envelope"

definition keeps_window :: "'s valkey_store \<Rightarrow> guild_id \<Rightarrow> ('s \<Rightarrow> 's) \<Rightarrow> bool" where
  "keeps_window vs g gap \<longleftrightarrow>
     (\<forall>s. window_end_now (vs_server vs) (gap s) = window_end_now (vs_server vs) s \<and>
        counter_now vs (gap s) (guild_rate_key (vs_keyspace vs) g) = counter_now vs s (guild_rate_key (vs_keyspace vs) g) \<and>
        (\<forall>user. counter_now vs (gap s) (actor_rate_key (vs_keyspace vs) g user) =
           counter_now vs s (actor_rate_key (vs_keyspace vs) g user)))"

fun admissions :: "'s valkey_store \<Rightarrow> u32 \<Rightarrow> nat \<Rightarrow> (user_id \<Rightarrow> bool) \<Rightarrow> 's request list \<Rightarrow> 's \<Rightarrow> nat" where
  "admissions vs shard_total retention by_whom [] s = 0"
| "admissions vs shard_total retention by_whom ((gap, e) # rest) s =
     (case enqueue_command vs NoFault e shard_total retention (gap s) of
        (outcome, t) \<Rightarrow>
          (if was_enqueued outcome \<and> (case ce_actor_user_id e of None \<Rightarrow> False | Some u \<Rightarrow> by_whom u) then 1 else 0) +
          admissions vs shard_total retention by_whom rest t)"

text \<open>C28: Within one window a guild gets at most 60 commands admitted, and each of its members at most
  20, however the requests interleave and whatever else happens between them.\<close>

theorem admissions_within_limits:
  assumes "counter_laws (vs_server vs) (vs_codec vs)" and "valkey_laws (vs_server vs)" and "shard_total \<noteq> 0"
    and "duration_millis retention ''command result retention'' = Inr ms"
    and "\<forall>(gap, e) \<in> set requests. keeps_window vs g gap \<and> ce_guild_id e = g \<and> ce_actor_user_id e \<noteq> None"
  shows "int (admissions vs shard_total retention (\<lambda>_. True) requests s) +
      counter_now vs s (guild_rate_key (vs_keyspace vs) g) \<le> max 60 (counter_now vs s (guild_rate_key (vs_keyspace vs) g)) \<and>
    int (admissions vs shard_total retention (\<lambda>u. u = user) requests s) +
      counter_now vs s (actor_rate_key (vs_keyspace vs) g user) \<le> max 20 (counter_now vs s (actor_rate_key (vs_keyspace vs) g user))"
  using assms(5)
proof (induction requests arbitrary: s)
  case (Cons request requests)
  obtain gap e where request: "request = (gap, e)" by (rule prod.exhaust)
  obtain actor where e: "ce_actor_user_id e = Some actor" "ce_guild_id e = g" and gap: "keeps_window vs g gap"
    using Cons.prems request by auto
  obtain outcome t where run: "enqueue_command vs NoFault e shard_total retention (gap s) = (outcome, t)"
    by (rule prod.exhaust)
  note one = enqueue_counters [OF assms(1-3) e assms(4) run]
  note before = gap [unfolded keeps_window_def, rule_format, of s]
  have rest: "int (admissions vs shard_total retention (\<lambda>_. True) requests t) +
      counter_now vs t (guild_rate_key (vs_keyspace vs) g) \<le> max 60 (counter_now vs t (guild_rate_key (vs_keyspace vs) g)) \<and>
    int (admissions vs shard_total retention (\<lambda>u. u = user) requests t) +
      counter_now vs t (actor_rate_key (vs_keyspace vs) g user) \<le> max 20 (counter_now vs t (actor_rate_key (vs_keyspace vs) g user))"
    using Cons.IH Cons.prems by simp
  show ?case
    using one rest before run e(1) by (cases "was_enqueued outcome") (auto simp: request)
qed simp

end
