(* ===== verification/Valkey_Samples.thy ===== *)
theory Valkey_Samples
  imports Valkey_Admission
begin

text \<open>
  A server and encodings of which the documented behaviour holds: maps for the strings, the
  hashes and their expiry, a clock that stands still. They instantiate the parameters of the
  Valkey theories, to show that what is assumed of them can hold, and at concrete requests.
\<close>

section \<open>A server\<close>

record memory =
  mem_strings :: "rstring \<Rightarrow> rstring option"
  mem_hashes :: "rstring \<Rightarrow> (int \<times> int) option"
  mem_expiry :: "rstring \<Rightarrow> int option"
  mem_clock :: "nat \<times> nat"

definition number_text :: "int \<Rightarrow> rstring" where
  "number_text n = (if 0 \<le> n then [nat n] else [nat (- n), 0])"

definition text_number :: "rstring \<Rightarrow> int option" where
  "text_number t = (case t of [n] \<Rightarrow> Some (int n) | [n, _] \<Rightarrow> Some (- int n) | _ \<Rightarrow> None)"

lemma text_number_text [simp]: "text_number (number_text n) = Some n"
  by (simp add: number_text_def text_number_def)

definition memory_server :: "memory valkey" where
  "memory_server =
     \<lparr>vk_type = (\<lambda>s k. if mem_strings s k = None then ''none'' else ''string''), vk_get = mem_strings,
      vk_set_px = (\<lambda>k v _ s. s\<lparr>mem_strings := (mem_strings s)(k \<mapsto> v)\<rparr>),
      vk_del = (\<lambda>k s. (if mem_strings s k = None then 0 else 1, s\<lparr>mem_strings := (mem_strings s)(k := None)\<rparr>)),
      vk_pexpire = (\<lambda>_ _ s. s), vk_exists = (\<lambda>s k. mem_strings s k \<noteq> None), vk_time = mem_clock,
      vk_hmget = (\<lambda>s k. (map_option (number_text \<circ> fst) (mem_hashes s k), map_option (number_text \<circ> snd) (mem_hashes s k))),
      vk_hset = (\<lambda>k a b s. s\<lparr>mem_hashes := (mem_hashes s)(k \<mapsto> (a, b))\<rparr>),
      vk_pttl = (\<lambda>s k. case mem_expiry s k of None \<Rightarrow> -1 | Some at \<Rightarrow> at - now_ms_of (mem_clock s)),
      vk_pexpireat = (\<lambda>k at s. s\<lparr>mem_expiry := (mem_expiry s)(k \<mapsto> at)\<rparr>),
      vk_xlen = (\<lambda>_ _. 0), vk_xadd = (\<lambda>_ _ s. (str ''1-0'', s)), vk_xack = (\<lambda>_ _ _ s. (1, s)), vk_xdel = (\<lambda>_ _ s. s)\<rparr>"

lemma memory_laws: "valkey_laws memory_server"
  by (simp add: valkey_laws_def memory_server_def)

section \<open>Encodings\<close>

definition all_codes :: "command_result_code list" where
  "all_codes = [CodeNotAuthorized, CodeRevisionConflict, CodeDeadlineExpired, CodeInvalidPlayerState,
     CodeNoCurrentTrack, CodeNoPreviousTrack, CodeQueuedTrackNotFound, CodeTrackNotSeekable, CodeSeekPastEnd,
     CodeNotConnected, CodeVoiceChannelMismatch, CodeQueueFull, CodeDuplicateTrack, CodeInvalidMediaInput,
     CodeMediaNotFound, CodeMediaUnsupported, CodeMediaBusy, CodeMediaFailed, CodeStateExhausted,
     CodeIdempotencyReplayed, CodeResultExpired]"

definition code_number :: "command_result_code \<Rightarrow> nat" where
  "code_number c = length (takeWhile (\<lambda>d. d \<noteq> c) all_codes)"

lemma code_number_code: "all_codes ! code_number c = c"
  by (cases c) (simp_all add: code_number_def all_codes_def)

fun status_text :: "command_result_status \<Rightarrow> rstring" where
  "status_text StatusPending = [0]"
| "status_text (StatusApplied r) = [1, unat (revision_get r)]"
| "status_text (StatusDenied c) = [2, code_number c]"
| "status_text (StatusRejected c None) = [3, code_number c]"
| "status_text (StatusRejected c (Some r)) = [4, code_number c, unat (revision_get r)]"

definition text_status :: "rstring \<Rightarrow> command_result_status" where
  "text_status t = (case t of
     [Suc 0, r] \<Rightarrow> StatusApplied (StateRevision (of_nat r))
   | [kind, c] \<Rightarrow> if kind = 2 then StatusDenied (all_codes ! c) else StatusRejected (all_codes ! c) None
   | [_, c, r] \<Rightarrow> StatusRejected (all_codes ! c) (Some (StateRevision (of_nat r)))
   | _ \<Rightarrow> StatusPending)"

lemma text_status_text: "text_status (status_text st) = st"
  by (cases st rule: status_text.cases) (simp_all add: text_status_def code_number_code)

definition result_text :: "command_result \<Rightarrow> rstring" where
  "result_text r = unat (cr_command_id r) # unat (guild_get (cr_guild_id r)) # status_text (cr_status r)"

definition text_result :: "rstring \<Rightarrow> command_result option" where
  "text_result t = (case t of
     c # g # rest \<Rightarrow> Some \<lparr>cr_command_id = of_nat c, cr_guild_id = GuildId (of_nat g), cr_status = text_status rest\<rparr>
   | _ \<Rightarrow> None)"

lemma text_result_text [simp]: "text_result (result_text r) = Some r"
  by (cases r) (simp add: text_result_def result_text_def text_status_text)

definition sample_codec :: codec where
  "sample_codec =
     \<lparr>cd_uuid = (\<lambda>u. [unat u]), cd_result = result_text, cd_parse_result = text_result,
      cd_fields = (\<lambda>t. map_option (\<lambda>r. ([unat (cr_command_id r)], guild_text (cr_guild_id r), status_name (cr_status r)))
        (text_result t)),
      cd_envelope = (\<lambda>e. [unat (ce_command_id e)]), cd_parse_envelope = (\<lambda>_. None), cd_tonumber = text_number\<rparr>"

lemma sample_codec_laws: "codec_laws sample_codec"
  by (auto simp: codec_laws_def sample_codec_def inj_def word_unat_eq_iff)

lemma memory_counter_laws: "counter_laws memory_server sample_codec"
  by (auto simp: counter_laws_def memory_server_def sample_codec_def split: option.split)

definition sample_store :: "memory valkey_store" where
  "sample_store = \<lparr>vs_server = memory_server, vs_codec = sample_codec, vs_keyspace = str ''p''\<rparr>"

lemma sample_store_laws:
  "valkey_laws (vs_server sample_store)" "codec_laws (vs_codec sample_store)"
  "counter_laws (vs_server sample_store) (vs_codec sample_store)"
  by (simp_all add: sample_store_def memory_laws sample_codec_laws memory_counter_laws)

definition empty_memory :: memory where
  "empty_memory = \<lparr>mem_strings = (\<lambda>_. None), mem_hashes = (\<lambda>_. None), mem_expiry = (\<lambda>_. None), mem_clock = (100, 0)\<rparr>"

definition sample_command :: "nat \<Rightarrow> command_envelope" where
  "sample_command n =
     command_envelope_new (of_nat n) 9 (GuildId 5) (Some (UserId 7)) initial_revision (UnixTimeMillis 1000) Stop"

section \<open>Witnesses\<close>

lemma leases_are_exclusive_witness:
  "\<exists>s. vk_get memory_server s (lease_key sample_store (GuildId 5) 9) = Some (lease_value sample_codec 1) \<and>
     fst (claim_idempotency sample_store NoFault (GuildId 5) 9 2 (10 ^ 9)
       (run_calls sample_store [(LostAfter, CallRelease (GuildId 5) 9 3), (NoFault, CallClaim (GuildId 5) 9 2 (10 ^ 9))] s)) =
     Inr InProgress"
proof -
  let ?s = "snd (claim_idempotency sample_store NoFault (GuildId 5) 9 1 (10 ^ 9) empty_memory)"
  have held: "vk_get (vs_server sample_store) ?s (lease_key sample_store (GuildId 5) 9) = Some (lease_value (vs_codec sample_store) 1)"
    unfolding get_claim [OF sample_store_laws(1)]
    by (simp add: duration_millis_def) (simp add: sample_store_def memory_server_def empty_memory_def)
  have "duration_millis (10 ^ 9) ''idempotency lease'' = Inr 1000" by (simp add: duration_millis_def)
  from leases_are_exclusive [OF sample_store_laws(1,2) _ this, of
      "[(LostAfter, CallRelease (GuildId 5) 9 3), (NoFault, CallClaim (GuildId 5) 9 2 (10 ^ 9))]" "GuildId 5" 9 1 ?s 2]
  show ?thesis using held by (intro exI [of _ ?s]) (simp add: sample_store_def)
qed

lemma terminal_results_are_final_witness:
  "\<exists>s. get_command_result sample_store NoFault (GuildId 5) 1 s =
     Inr (Some (result_applied 1 (GuildId 5) initial_revision))"
proof -
  let ?r = "result_applied 1 (GuildId 5) initial_revision"
  let ?s = "snd (store_command_result sample_store NoFault ?r (10 ^ 9) empty_memory)"
  have fields: "cr_guild_id ?r = GuildId 5" "cr_command_id ?r = 1" "is_terminal ?r"
    by (simp_all add: result_applied_def is_terminal_def)
  have "result_fits sample_store ?r empty_memory"
    by (simp add: result_fits_def sample_store_def memory_server_def empty_memory_def replaceable_def)
  then have stored: "vk_get (vs_server sample_store) ?s (result_key sample_store (cr_guild_id ?r) (cr_command_id ?r)) =
      Some (cd_result (vs_codec sample_store) ?r)"
    unfolding get_store_result [OF sample_store_laws(1)] by (simp add: fields duration_millis_def)
  have "duration_millis (10 ^ 9) ''command result retention'' = Inr 1000" by (simp add: duration_millis_def)
  from terminal_results_are_final [OF sample_store_laws(1,2) fields(3) stored fields(3) refl refl this, of "[]"]
  show ?thesis by (intro exI [of _ ?s]) (simp add: fields)
qed

lemma sample_command_fields [simp]:
  "ce_guild_id (sample_command n) = GuildId 5" "ce_actor_user_id (sample_command n) = Some (UserId 7)"
  "ce_command_id (sample_command n) = of_nat n"
  by (simp_all add: sample_command_def command_envelope_new_def)

lemma admission_decision_witness:
  "\<exists>outcome t. enqueue_command sample_store NoFault (sample_command 1) 1 (10 ^ 9) empty_memory = (outcome, t) \<and>
     (case outcome of Inr (Enqueued _) \<Rightarrow>
        vk_get memory_server t (result_key sample_store (GuildId 5) 1) =
          Some (cd_result sample_codec (result_pending 1 (GuildId 5))) | _ \<Rightarrow> t = empty_memory)"
proof -
  obtain outcome t where run: "enqueue_command sample_store NoFault (sample_command 1) 1 (10 ^ 9) empty_memory = (outcome, t)"
    by (rule prod.exhaust)
  have ms: "duration_millis (10 ^ 9) ''command result retention'' = Inr 1000" by (simp add: duration_millis_def)
  from admission_decision [OF sample_store_laws(1) _ _ ms run, of "UserId 7"] run
  show ?thesis
    by (intro exI [of _ outcome] exI [of _ t])
      (auto simp: sample_store_def split: sum.splits command_enqueue.splits storage_error.splits)
qed

lemma admissions_within_limits_witness:
  "int (admissions sample_store 1 (10 ^ 9) (\<lambda>_. True) (map (\<lambda>n. (id, sample_command n)) [0..<100]) empty_memory) \<le> 60"
proof -
  have ms: "duration_millis (10 ^ 9) ''command result retention'' = Inr 1000" by (simp add: duration_millis_def)
  have none: "counter_now sample_store empty_memory key = 0" for key
    by (simp add: counter_now_def read_counter_def sample_store_def memory_server_def empty_memory_def)
  have gaps: "\<forall>(gap, e) \<in> set (map (\<lambda>n. (id, sample_command n)) [0..<100]).
      keeps_window sample_store (GuildId 5) gap \<and> ce_guild_id e = GuildId 5 \<and> ce_actor_user_id e \<noteq> None"
    by (auto simp: keeps_window_def)
  from admissions_within_limits [OF sample_store_laws(3,1) _ ms gaps, of 1 empty_memory "UserId 7"]
  show ?thesis by (simp add: none del: upt_Suc)
qed

end
