(* ===== verification/Command_Dispatch.thy ===== *)
theory Command_Dispatch
  imports Valkey_Store
begin

text \<open>
  The per-shard command dispatcher, \<open>crates/pepeaudio-runtime/src/guild_command_dispatcher.rs\<close>.
  Commands of one guild run one after another in one task, commands of
  different guilds in parallel; the tasks are those of a \<open>JoinSet\<close>, which finish in any order.
\<close>

section \<open>The dispatcher\<close>

abbreviation rc_guild :: "received_command \<Rightarrow> guild_id" where
  "rc_guild c \<equiv> ce_guild_id (rc_envelope c)"

definition MAX_CONCURRENT_GUILDS :: nat where "MAX_CONCURRENT_GUILDS = 32"

text \<open>A task is its guild with the commands it was given; \<open>tasks\<close> are those not joined yet.\<close>

record dispatcher =
  d_buffer_limit :: nat
  d_buffered :: nat
  d_queues :: "guild_id \<Rightarrow> received_command list option"
  d_ready :: "guild_id list"
  d_active :: "guild_id set"
  d_tasks :: "(guild_id \<times> received_command list) list"

definition dispatcher_new :: "nat \<Rightarrow> dispatcher" where
  "dispatcher_new buffer_limit =
     \<lparr>d_buffer_limit = buffer_limit, d_buffered = 0, d_queues = (\<lambda>_. None), d_ready = [], d_active = {},
      d_tasks = []\<rparr>"

function spawn_ready :: "dispatcher \<Rightarrow> dispatcher" where
  "spawn_ready d =
     (if length (d_tasks d) < MAX_CONCURRENT_GUILDS then
        (case d_ready d of
           [] \<Rightarrow> d
         | guild # rest \<Rightarrow>
             let d1 = d\<lparr>d_ready := rest\<rparr>
             in if guild \<in> d_active d1 then spawn_ready d1
                else (case d_queues d1 guild of
                  None \<Rightarrow> spawn_ready d1
                | Some commands \<Rightarrow>
                    let d2 = d1\<lparr>d_queues := (d_queues d1)(guild \<mapsto> [])\<rparr>
                    in if commands = [] then spawn_ready d2
                       else spawn_ready (d2\<lparr>d_active := insert guild (d_active d2),
                                            d_tasks := d_tasks d2 @ [(guild, commands)]\<rparr>)))
      else d)"
  by pat_completeness auto
termination
  by (relation "measure (\<lambda>d. length (d_ready d))") auto

declare spawn_ready.simps [simp del]

definition queue_of :: "dispatcher \<Rightarrow> guild_id \<Rightarrow> received_command list" where
  "queue_of d guild = (case d_queues d guild of None \<Rightarrow> [] | Some queue \<Rightarrow> queue)"

definition saturating_add_usize :: "nat \<Rightarrow> nat \<Rightarrow> nat" where
  "saturating_add_usize a b = min (a + b) (2 ^ 64 - 1)"

definition enqueue_one :: "received_command \<Rightarrow> dispatcher \<Rightarrow> dispatcher" where
  "enqueue_one command d =
     (let guild = rc_guild command; queue = queue_of d guild;
          needs_ready_entry = (queue = [] \<and> guild \<notin> d_active d)
      in d\<lparr>d_queues := (d_queues d)(guild \<mapsto> queue @ [command]),
           d_buffered := saturating_add_usize (d_buffered d) 1,
           d_ready := (if needs_ready_entry then d_ready d @ [guild] else d_ready d)\<rparr>)"

definition dispatch_enqueue :: "received_command list \<Rightarrow> dispatcher \<Rightarrow> dispatcher" where
  "dispatch_enqueue commands d = spawn_ready (fold enqueue_one commands d)"

text \<open>A completed task is the guild with the number of commands processed, or a failed join.\<close>

definition dispatch_finish :: "(unit + guild_id \<times> nat) option \<Rightarrow> dispatcher \<Rightarrow> bool \<times> dispatcher" where
  "dispatch_finish completed d =
     (case completed of
        None \<Rightarrow> (False, d)
      | Some (Inl _) \<Rightarrow> (False, d)
      | Some (Inr (guild, processed)) \<Rightarrow>
          let d1 = d\<lparr>d_active := d_active d - {guild}, d_buffered := d_buffered d - processed\<rparr>;
              d2 = (if queue_of d1 guild \<noteq> [] then d1\<lparr>d_ready := d_ready d1 @ [guild]\<rparr>
                    else d1\<lparr>d_queues := (d_queues d1)(guild := None)\<rparr>)
          in (True, spawn_ready d2))"

text \<open>Joining the i-th task that has finished takes it from the set.\<close>

definition join_task :: "nat \<Rightarrow> dispatcher \<Rightarrow> (guild_id \<times> nat) \<times> dispatcher" where
  "join_task i d =
     (let (guild, commands) = d_tasks d ! i
      in ((guild, length commands), d\<lparr>d_tasks := remove_at i (d_tasks d)\<rparr>))"

definition complete_task :: "nat \<Rightarrow> dispatcher \<Rightarrow> bool \<times> dispatcher" where
  "complete_task i d = (case join_task i d of (completed, d') \<Rightarrow> dispatch_finish (Some (Inr completed)) d')"

definition has_active :: "dispatcher \<Rightarrow> bool" where
  "has_active d \<longleftrightarrow> d_tasks d \<noteq> []"

definition dispatch_is_full :: "dispatcher \<Rightarrow> bool" where
  "dispatch_is_full d \<longleftrightarrow> d_buffered d \<ge> d_buffer_limit d"

definition available_capacity :: "dispatcher \<Rightarrow> nat" where
  "available_capacity d = d_buffer_limit d - d_buffered d"

section \<open>The invariant\<close>

definition queued_total :: "(guild_id \<Rightarrow> received_command list option) \<Rightarrow> nat" where
  "queued_total queues = (\<Sum>guild \<in> dom queues. length (the (queues guild)))"

definition running_total :: "(guild_id \<times> received_command list) list \<Rightarrow> nat" where
  "running_total tasks = sum_list (map (length \<circ> snd) tasks)"

definition running_of :: "dispatcher \<Rightarrow> guild_id \<Rightarrow> received_command list" where
  "running_of d guild = concat (map snd (filter (\<lambda>t. fst t = guild) (d_tasks d)))"

definition disp_inv :: "dispatcher \<Rightarrow> bool" where
  "disp_inv d \<longleftrightarrow>
     finite (dom (d_queues d)) \<and> distinct (map fst (d_tasks d)) \<and> d_active d = set (map fst (d_tasks d)) \<and>
     length (d_tasks d) \<le> MAX_CONCURRENT_GUILDS \<and> distinct (d_ready d) \<and>
     set (d_ready d) = {guild. queue_of d guild \<noteq> [] \<and> guild \<notin> d_active d} \<and>
     d_buffered d = queued_total (d_queues d) + running_total (d_tasks d)"

lemma queue_of_simps [simp]:
  "queue_of (d\<lparr>d_ready := r\<rparr>) g = queue_of d g" "queue_of (d\<lparr>d_active := a\<rparr>) g = queue_of d g"
  "queue_of (d\<lparr>d_tasks := t\<rparr>) g = queue_of d g" "queue_of (d\<lparr>d_buffered := n\<rparr>) g = queue_of d g"
  by (simp_all add: queue_of_def)

lemma queued_total_update:
  assumes "finite (dom q)"
  shows "queued_total (q(g \<mapsto> l)) + (case q g of None \<Rightarrow> 0 | Some k \<Rightarrow> length k) = queued_total q + length l"
proof -
  have "queued_total (q(g \<mapsto> l)) = length l + (\<Sum>h \<in> dom q - {g}. length (the (q h)))"
    unfolding queued_total_def using assms by (simp add: sum.insert_remove)
  moreover have "queued_total q = (case q g of None \<Rightarrow> 0 | Some k \<Rightarrow> length k) + (\<Sum>h \<in> dom q - {g}. length (the (q h)))"
  proof (cases "q g")
    case None
    then have "dom q - {g} = dom q" by auto
    then show ?thesis using None by (simp add: queued_total_def)
  next
    case (Some k)
    then have "g \<in> dom q" by auto
    then show ?thesis unfolding queued_total_def using assms Some by (simp add: sum.remove [of _ g])
  qed
  ultimately show ?thesis by simp
qed

lemma queued_total_drop:
  assumes "finite (dom q)" and "(case q g of None \<Rightarrow> [] | Some k \<Rightarrow> k) = []"
  shows "queued_total (q(g := None)) = queued_total q"
proof (cases "q g")
  case None
  then show ?thesis by (simp add: fun_upd_idem)
next
  case (Some k)
  then have "g \<in> dom q" by auto
  then show ?thesis
    unfolding queued_total_def using assms Some by (simp add: sum.remove [of "dom q" g])
qed

text \<open>What is underway for a guild, in order: its task, then its queue.\<close>

definition underway :: "dispatcher \<Rightarrow> guild_id \<Rightarrow> received_command list" where
  "underway d guild = running_of d guild @ queue_of d guild"

lemma running_of_inactive: "guild \<notin> set (map fst (d_tasks d)) \<Longrightarrow> running_of d guild = []"
proof -
  assume "guild \<notin> set (map fst (d_tasks d))"
  then have "filter (\<lambda>t. fst t = guild) (d_tasks d) = []" by (auto simp: filter_empty_conv)
  then show ?thesis by (simp add: running_of_def)
qed

text \<open>One task started: what \<open>spawn_ready\<close> does to the guild at the head of the ready list.\<close>

definition start_task :: "guild_id \<Rightarrow> guild_id list \<Rightarrow> dispatcher \<Rightarrow> dispatcher" where
  "start_task guild rest d =
     d\<lparr>d_ready := rest, d_queues := (d_queues d)(guild \<mapsto> []), d_active := insert guild (d_active d),
       d_tasks := d_tasks d @ [(guild, queue_of d guild)]\<rparr>"

lemma spawn_ready_step:
  assumes "disp_inv d"
  shows "spawn_ready d =
    (if length (d_tasks d) < MAX_CONCURRENT_GUILDS then
       (case d_ready d of [] \<Rightarrow> d | guild # rest \<Rightarrow> spawn_ready (start_task guild rest d)) else d)"
proof (cases "d_ready d")
  case (Cons guild rest)
  then have "queue_of d guild \<noteq> []" "guild \<notin> d_active d" using assms by (auto simp: disp_inv_def)
  then show ?thesis
    using Cons
    by (subst spawn_ready.simps)
      (auto simp: start_task_def queue_of_def Let_def split: option.splits)
qed (subst spawn_ready.simps, simp)

lemma start_task_inv:
  assumes inv: "disp_inv d" and ready: "d_ready d = guild # rest" and "length (d_tasks d) < MAX_CONCURRENT_GUILDS"
  shows "disp_inv (start_task guild rest d)" and "underway (start_task guild rest d) = underway d"
proof -
  have nonempty: "queue_of d guild \<noteq> []" and idle: "guild \<notin> d_active d" "guild \<notin> set rest"
    using inv ready by (auto simp: disp_inv_def)
  then obtain queue where queue: "d_queues d guild = Some queue" "queue_of d guild = queue"
    by (auto simp: queue_of_def split: option.splits)
  have fresh: "guild \<notin> set (map fst (d_tasks d))" using inv idle by (simp add: disp_inv_def)
  have total: "queued_total ((d_queues d)(guild \<mapsto> [])) + length queue = queued_total (d_queues d)"
    using queued_total_update [of "d_queues d" guild "[]"] inv queue by (simp add: disp_inv_def)
  have waiting: "insert guild (set rest) = {g. queue_of d g \<noteq> [] \<and> g \<notin> d_active d}"
    using inv ready by (simp add: disp_inv_def)
  have "queue_of (start_task guild rest d) g = (if g = guild then [] else queue_of d g)" for g
    by (simp add: start_task_def queue_of_def)
  then have ready_set: "set rest = {g. queue_of (start_task guild rest d) g \<noteq> [] \<and> g \<notin> insert guild (d_active d)}"
    using waiting idle(2) by auto
  show "disp_inv (start_task guild rest d)"
    unfolding disp_inv_def
    using inv ready fresh total assms(3) ready_set queue
    by (simp add: disp_inv_def start_task_def running_total_def queue_of_def)
  show "underway (start_task guild rest d) = underway d"
    using running_of_inactive [OF fresh] queue
    by (intro ext) (auto simp: underway_def start_task_def running_of_def queue_of_def)
qed

lemma spawn_ready_inv:
  assumes "disp_inv d"
  shows "disp_inv (spawn_ready d) \<and> underway (spawn_ready d) = underway d \<and>
    (d_ready (spawn_ready d) = [] \<or> length (d_tasks (spawn_ready d)) = MAX_CONCURRENT_GUILDS) \<and>
    d_buffer_limit (spawn_ready d) = d_buffer_limit d \<and> d_buffered (spawn_ready d) = d_buffered d"
  using assms
proof (induction "length (d_ready d)" arbitrary: d)
  case 0
  then show ?case by (simp add: spawn_ready_step)
next
  case (Suc n)
  then obtain guild rest where ready: "d_ready d = guild # rest" by (cases "d_ready d") auto
  show ?case
  proof (cases "length (d_tasks d) < MAX_CONCURRENT_GUILDS")
    case True
    have "n = length (d_ready (start_task guild rest d))" using Suc.hyps(2) ready by (simp add: start_task_def)
    note rest = Suc.hyps(1) [OF this start_task_inv(1) [OF Suc.prems ready True]]
    have "spawn_ready d = spawn_ready (start_task guild rest d)"
      using True ready by (simp add: spawn_ready_step [OF Suc.prems])
    then show ?thesis
      using rest start_task_inv(2) [OF Suc.prems ready True] by (simp add: start_task_def)
  next
    case False
    then have "length (d_tasks d) = MAX_CONCURRENT_GUILDS" using Suc.prems by (simp add: disp_inv_def)
    moreover have "spawn_ready d = d" using False by (simp add: spawn_ready_step [OF Suc.prems])
    ultimately show ?thesis using Suc.prems by simp
  qed
qed

lemma enqueue_one_inv:
  assumes "disp_inv d" and "d_buffered d + 1 < 2 ^ 64"
  shows "disp_inv (enqueue_one c d) \<and> d_buffered (enqueue_one c d) = d_buffered d + 1 \<and>
    underway (enqueue_one c d) = (underway d)(rc_guild c := underway d (rc_guild c) @ [c]) \<and>
    d_buffer_limit (enqueue_one c d) = d_buffer_limit d"
proof -
  let ?g = "rc_guild c"
  have "queued_total ((d_queues d)(?g \<mapsto> queue_of d ?g @ [c])) = queued_total (d_queues d) + 1"
    using queued_total_update [of "d_queues d" ?g "queue_of d ?g @ [c]"] assms(1)
    by (auto simp: disp_inv_def queue_of_def split: option.splits)
  moreover have "distinct (d_ready d) \<and> set (d_ready d) = {g. queue_of d g \<noteq> [] \<and> g \<notin> d_active d}"
    using assms(1) by (simp add: disp_inv_def)
  ultimately show ?thesis
    using assms
    by (auto simp: disp_inv_def enqueue_one_def Let_def saturating_add_usize_def queue_of_def underway_def
        running_of_def fun_eq_iff)
qed

lemma fold_enqueue_inv:
  assumes "disp_inv d" and "d_buffered d + length cs < 2 ^ 64"
  shows "disp_inv (fold enqueue_one cs d) \<and> d_buffered (fold enqueue_one cs d) = d_buffered d + length cs \<and>
    underway (fold enqueue_one cs d) = (\<lambda>g. underway d g @ filter (\<lambda>c. rc_guild c = g) cs) \<and>
    d_buffer_limit (fold enqueue_one cs d) = d_buffer_limit d"
  using assms
proof (induction cs arbitrary: d)
  case (Cons c cs)
  have one: "disp_inv (enqueue_one c d)" "d_buffered (enqueue_one c d) = d_buffered d + 1"
    "underway (enqueue_one c d) = (underway d)(rc_guild c := underway d (rc_guild c) @ [c])"
    "d_buffer_limit (enqueue_one c d) = d_buffer_limit d"
    using enqueue_one_inv [of d c] Cons.prems by simp_all
  show ?case using Cons.IH [of "enqueue_one c d"] one Cons.prems by (simp add: fun_eq_iff)
qed simp

lemma dispatch_enqueue_inv:
  assumes "disp_inv d" and "d_buffered d + length cs < 2 ^ 64"
  shows "disp_inv (dispatch_enqueue cs d)"
    and "underway (dispatch_enqueue cs d) = (\<lambda>g. underway d g @ filter (\<lambda>c. rc_guild c = g) cs)"
    and "d_buffered (dispatch_enqueue cs d) = d_buffered d + length cs"
    and "d_ready (dispatch_enqueue cs d) = [] \<or> length (d_tasks (dispatch_enqueue cs d)) = MAX_CONCURRENT_GUILDS"
    and "d_buffer_limit (dispatch_enqueue cs d) = d_buffer_limit d"
  using fold_enqueue_inv [OF assms] spawn_ready_inv [of "fold enqueue_one cs d"]
  by (simp_all add: dispatch_enqueue_def)

lemma complete_task_inv:
  assumes inv: "disp_inv d" and i: "i < length (d_tasks d)" and task: "d_tasks d ! i = (guild, commands)"
  obtains d' where "complete_task i d = (True, d')" and "disp_inv d'" and "d_buffer_limit d' = d_buffer_limit d"
    and "d_buffered d = d_buffered d' + length commands"
    and "underway d = (underway d')(guild := commands @ underway d' guild)"
    and "d_ready d' = [] \<or> length (d_tasks d') = MAX_CONCURRENT_GUILDS"
proof -
  define d1 where "d1 = d\<lparr>d_tasks := remove_at i (d_tasks d), d_active := d_active d - {guild},
    d_buffered := d_buffered d - length commands\<rparr>"
  define d2 where "d2 = (if queue_of d1 guild \<noteq> [] then d1\<lparr>d_ready := d_ready d1 @ [guild]\<rparr>
    else d1\<lparr>d_queues := (d_queues d1)(guild := None)\<rparr>)"
  have split: "d_tasks d = take i (d_tasks d) @ (guild, commands) # drop (Suc i) (d_tasks d)"
    using i task by (metis id_take_nth_drop)
  have keys: "map fst (d_tasks d) = map fst (take i (d_tasks d)) @ guild # map fst (drop (Suc i) (d_tasks d))"
    by (subst split) simp
  have others: "distinct (map fst (remove_at i (d_tasks d)))" "guild \<notin> set (map fst (remove_at i (d_tasks d)))"
    "set (map fst (remove_at i (d_tasks d))) = d_active d - {guild}"
    using inv unfolding disp_inv_def keys remove_at_def by auto
  have running: "running_total (d_tasks d) = length commands + running_total (remove_at i (d_tasks d))"
    by (subst split) (simp add: running_total_def remove_at_def)
  have same_queue: "queue_of d2 g = queue_of d g" for g
    by (auto simp: d2_def d1_def queue_of_def split: option.splits)
  have sums: "queued_total (d_queues d2) = queued_total (d_queues d)"
    using queued_total_drop [of "d_queues d" guild] inv
    by (auto simp: d2_def d1_def disp_inv_def queue_of_def)
  have fields: "d_tasks d2 = remove_at i (d_tasks d)" "d_active d2 = d_active d - {guild}"
    "d_buffered d2 = d_buffered d - length commands" "d_buffer_limit d2 = d_buffer_limit d"
    "finite (dom (d_queues d2))" "d_ready d2 = d_ready d @ (if queue_of d guild \<noteq> [] then [guild] else [])"
    using inv by (auto simp: d2_def d1_def disp_inv_def)
  have member: "guild \<in> d_active d" using others(3) inv keys by (auto simp: disp_inv_def)
  have "set (d_ready d2) = {g. queue_of d2 g \<noteq> [] \<and> g \<notin> d_active d2}" "distinct (d_ready d2)"
    using inv member by (auto simp: fields same_queue disp_inv_def)
  moreover have "length (remove_at i (d_tasks d)) \<le> MAX_CONCURRENT_GUILDS"
    using inv i unfolding disp_inv_def remove_at_def by auto
  ultimately have inv2: "disp_inv d2"
    using inv others running sums by (simp add: disp_inv_def fields)
  have order: "underway d = (underway d2)(guild := commands @ underway d2 guild)"
  proof
    fix g
    have "running_of d g = (if g = guild then commands else []) @ running_of d2 g"
    proof (cases "g = guild")
      case True
      have "guild \<notin> fst ` set (take i (d_tasks d))" "guild \<notin> fst ` set (drop (Suc i) (d_tasks d))"
        using others(2) by (auto simp: remove_at_def)
      then have "filter (\<lambda>t. fst t = guild) (take i (d_tasks d)) = []"
        "filter (\<lambda>t. fst t = guild) (drop (Suc i) (d_tasks d)) = []"
        unfolding filter_empty_conv by force+
      then have "running_of d guild = commands"
        unfolding running_of_def by (subst split) (simp only: filter_append filter.simps fst_conv if_True simp_thms
            append_Nil append_Nil2 list.map concat.simps snd_conv)
      moreover have "running_of d2 guild = []" by (rule running_of_inactive) (use others(2) fields in simp)
      ultimately show ?thesis using True by simp
    next
      case False
      then show ?thesis unfolding running_of_def fields by (subst split) (simp add: remove_at_def)
    qed
    then show "underway d g = ((underway d2)(guild := commands @ underway d2 guild)) g"
      by (simp add: underway_def same_queue)
  qed
  have result: "complete_task i d = (True, spawn_ready d2)"
    by (simp add: complete_task_def join_task_def task dispatch_finish_def Let_def d2_def d1_def)
  note spawned = spawn_ready_inv [OF inv2]
  have "d_buffered d = d_buffered d2 + length commands"
    using inv running by (simp add: fields(3) disp_inv_def)
  then show thesis
    by (intro that [OF result]) (use spawned order fields(4) in \<open>simp_all only:\<close>)
qed

section \<open>The dispatcher as a machine\<close>

text \<open>Batches arrive and tasks finish in any order. The history keeps what was received and what the
  finished tasks had processed; a batch has to fit in memory.\<close>

record dispatch_history =
  dh_dispatcher :: dispatcher
  dh_received :: "received_command list"
  dh_finished :: "received_command list"

definition dispatch_start :: "nat \<Rightarrow> dispatch_history \<Rightarrow> bool" where
  "dispatch_start limit h \<longleftrightarrow> h = \<lparr>dh_dispatcher = dispatcher_new limit, dh_received = [], dh_finished = []\<rparr>"

inductive dispatch_step :: "dispatch_history \<Rightarrow> dispatch_history \<Rightarrow> bool" where
  received: "d_buffered (dh_dispatcher h) + length cs < 2 ^ 64 \<Longrightarrow>
    dispatch_step h (h\<lparr>dh_dispatcher := dispatch_enqueue cs (dh_dispatcher h), dh_received := dh_received h @ cs\<rparr>)"
| finished: "i < length (d_tasks (dh_dispatcher h)) \<Longrightarrow> d_tasks (dh_dispatcher h) ! i = (guild, cs) \<Longrightarrow>
    complete_task i (dh_dispatcher h) = (True, d) \<Longrightarrow>
    dispatch_step h (h\<lparr>dh_dispatcher := d, dh_finished := dh_finished h @ cs\<rparr>)"

inductive_cases dispatch_stepE: "dispatch_step h k"

definition history_inv :: "dispatch_history \<Rightarrow> bool" where
  "history_inv h \<longleftrightarrow> disp_inv (dh_dispatcher h) \<and>
     (d_ready (dh_dispatcher h) = [] \<or> length (d_tasks (dh_dispatcher h)) = MAX_CONCURRENT_GUILDS) \<and>
     d_buffered (dh_dispatcher h) + length (dh_finished h) = length (dh_received h) \<and>
     (\<forall>g. filter (\<lambda>c. rc_guild c = g) (dh_received h) =
        filter (\<lambda>c. rc_guild c = g) (dh_finished h) @ underway (dh_dispatcher h) g)"

lemma dispatcher_new_inv: "disp_inv (dispatcher_new limit)" "underway (dispatcher_new limit) = (\<lambda>_. [])"
  by (simp_all add: disp_inv_def dispatcher_new_def queue_of_def queued_total_def running_total_def
      underway_def running_of_def fun_eq_iff)

lemma history_start: "dispatch_start limit h \<Longrightarrow> history_inv h"
  by (simp add: dispatch_start_def history_inv_def dispatcher_new_inv) (simp add: dispatcher_new_def)

lemma history_step:
  assumes "history_inv h" and "dispatch_step h k"
  shows "history_inv k"
  using assms(2)
proof cases
  case (received cs)
  then show ?thesis
    using assms(1) dispatch_enqueue_inv [of "dh_dispatcher h" cs] by (simp add: history_inv_def)
next
  case (finished i guild cs d)
  let ?d = "dh_dispatcher h"
  have inv: "disp_inv ?d" using assms(1) by (simp add: history_inv_def)
  obtain d' where run: "complete_task i ?d = (True, d')" "disp_inv d'"
    "d_buffered ?d = d_buffered d' + length cs"
    "underway ?d = (underway d')(guild := cs @ underway d' guild)"
    "d_ready d' = [] \<or> length (d_tasks d') = MAX_CONCURRENT_GUILDS"
    by (rule complete_task_inv [OF inv finished(2,3)])
  have same: "d' = d" using run(1) finished(4) by simp
  have parts: "filter (\<lambda>c. rc_guild c = g) (dh_received h) =
      filter (\<lambda>c. rc_guild c = g) (dh_finished h) @ ((underway d)(guild := cs @ underway d guild)) g" for g
    using assms(1) run(4) same unfolding history_inv_def by metis
  have "c \<in> set cs \<Longrightarrow> rc_guild c = guild" for c
    using arg_cong [OF parts [of guild], of set] by auto
  then have "filter (\<lambda>c. rc_guild c = g) cs = (if g = guild then cs else [])" for g
    by (auto simp: filter_empty_conv)
  then have "filter (\<lambda>c. rc_guild c = g) (dh_received h) =
      filter (\<lambda>c. rc_guild c = g) (dh_finished h @ cs) @ underway d g" for g
    using parts [of g] by simp
  then show ?thesis
    using assms(1) run finished(1) same by (simp add: history_inv_def)
qed

interpretation dispatch: invariant_machine "dispatch_start limit" dispatch_step history_inv for limit
  by unfold_locales (auto intro: history_start history_step)

lemma queued_total_0: "finite (dom q) \<Longrightarrow> (\<And>g. (case q g of None \<Rightarrow> [] | Some k \<Rightarrow> k) = []) \<Longrightarrow> queued_total q = 0"
proof -
  assume "finite (dom q)" and empty: "\<And>g. (case q g of None \<Rightarrow> [] | Some k \<Rightarrow> k) = []"
  have "length (the (q g)) = 0" if "g \<in> dom q" for g using empty [of g] that by auto
  then show ?thesis unfolding queued_total_def by (rule sum.neutral [rule_format])
qed

text \<open>C9: For every guild the commands are processed one task at a time and in the order they were
  received, none lost and none twice; at most thirty-two guilds run at once, a guild waits only
  while all slots are taken, the buffer counts exactly what is not finished, and as long as
  anything is buffered a task is running.\<close>

theorem guild_commands_in_order:
  assumes "dispatch_start limit h" and "rtranclp dispatch_step h k"
  shows "filter (\<lambda>c. rc_guild c = guild) (dh_received k) =
      filter (\<lambda>c. rc_guild c = guild) (dh_finished k) @
        running_of (dh_dispatcher k) guild @ queue_of (dh_dispatcher k) guild \<and>
    distinct (map fst (d_tasks (dh_dispatcher k))) \<and>
    length (d_tasks (dh_dispatcher k)) \<le> MAX_CONCURRENT_GUILDS \<and>
    (queue_of (dh_dispatcher k) guild \<noteq> [] \<longrightarrow> guild \<in> fst ` set (d_tasks (dh_dispatcher k)) \<or>
       length (d_tasks (dh_dispatcher k)) = MAX_CONCURRENT_GUILDS) \<and>
    d_buffered (dh_dispatcher k) + length (dh_finished k) = length (dh_received k) \<and>
    (d_tasks (dh_dispatcher k) = [] \<longrightarrow> d_buffered (dh_dispatcher k) = 0)"
proof -
  let ?d = "dh_dispatcher k"
  have inv: "history_inv k" using dispatch.reachable_inv [OF assms] .
  then have disp: "disp_inv ?d"
    and order: "filter (\<lambda>c. rc_guild c = guild) (dh_received k) = filter (\<lambda>c. rc_guild c = guild) (dh_finished k) @ underway ?d guild"
    and count: "d_buffered ?d + length (dh_finished k) = length (dh_received k)"
    and busy: "d_ready ?d = [] \<or> length (d_tasks ?d) = MAX_CONCURRENT_GUILDS"
    by (simp_all add: history_inv_def)
  have waiting: "d_ready ?d = [] \<Longrightarrow> queue_of ?d g \<noteq> [] \<Longrightarrow> g \<in> fst ` set (d_tasks ?d)" for g
    using disp by (auto simp: disp_inv_def)
  have idle: "d_buffered ?d = 0" if none: "d_tasks ?d = []"
  proof -
    have "d_ready ?d = []" using busy none by (auto simp: MAX_CONCURRENT_GUILDS_def)
    then have "queue_of ?d g = []" for g using waiting [of g] none by auto
    then have "queued_total (d_queues ?d) = 0"
      using queued_total_0 [of "d_queues ?d"] disp by (simp add: disp_inv_def queue_of_def)
    then show ?thesis using disp none by (simp add: disp_inv_def running_total_def)
  qed
  show ?thesis
    using disp order count waiting [of guild] busy idle by (auto simp: disp_inv_def underway_def)
qed

definition dispatched_sample :: "nat \<Rightarrow> nat \<Rightarrow> received_command" where
  "dispatched_sample guild n =
     \<lparr>rc_entry_id = [of_nat n], rc_envelope = command_envelope_new 0 0 (GuildId (of_nat guild)) None initial_revision
        (UnixTimeMillis 0) Stop\<rparr>"

lemma guild_commands_in_order_witness:
  "\<exists>k. rtranclp dispatch_step \<lparr>dh_dispatcher = dispatcher_new 64, dh_received = [], dh_finished = []\<rparr> k \<and>
     length (d_tasks (dh_dispatcher k)) \<le> 32 \<and> length (dh_received k) = 2"
proof -
  let ?h = "\<lparr>dh_dispatcher = dispatcher_new 64, dh_received = [], dh_finished = []\<rparr>"
  let ?cs = "[dispatched_sample 1 0, dispatched_sample 2 1]"
  let ?k = "?h\<lparr>dh_dispatcher := dispatch_enqueue ?cs (dh_dispatcher ?h), dh_received := dh_received ?h @ ?cs\<rparr>"
  have "dispatch_step ?h ?k"
    by (rule dispatch_step.received) (simp add: dispatcher_new_def)
  then have steps: "rtranclp dispatch_step ?h ?k" by simp
  have "dispatch_start 64 ?h" by (simp add: dispatch_start_def)
  from guild_commands_in_order [OF this steps] have "length (d_tasks (dh_dispatcher ?k)) \<le> 32"
    by (simp add: MAX_CONCURRENT_GUILDS_def)
  with steps show ?thesis by (intro exI [of _ ?k]) simp
qed

end
