(* ===== verification/Command_Worker.thy ===== *)
theory Command_Worker
  imports Valkey_Laws Command_Dispatch Player_Model
begin

text \<open>
  Processing of one received command, \<open>crates/pepeaudio-runtime/src/command_loop.rs\<close>, with the
  outcome mapping of \<open>command_outcome.rs\<close>, the authorization result of \<open>command_authorization.rs\<close>
  and the worker configuration and execution of \<open>command_worker.rs\<close>. The store is the Valkey
  adapter; before each request the other clients may have acted.
\<close>

section \<open>Outcomes\<close>

definition outcome_applied :: "uuid \<Rightarrow> guild_id \<Rightarrow> guild_id \<Rightarrow> state_revision \<Rightarrow> command_result" where
  "outcome_applied command_id guild snapshot_guild revision =
     (if snapshot_guild = guild then result_applied command_id guild revision
      else result_rejected command_id guild CodeInvalidPlayerState None)"

fun validation_rejection :: "command_validation_error \<Rightarrow> command_result_code \<times> state_revision option" where
  "validation_rejection (RevisionConflict expected actual) = (CodeRevisionConflict, Some actual)"
| "validation_rejection (Core_Command.DeadlineExpired deadline now) = (CodeDeadlineExpired, None)"
| "validation_rejection (NoCurrentTrack command) = (CodeNoCurrentTrack, None)"
| "validation_rejection NoPreviousTrack = (CodeNoPreviousTrack, None)"
| "validation_rejection (QueuedTrackNotFound track) = (CodeQueuedTrackNotFound, None)"
| "validation_rejection TrackNotSeekable = (CodeTrackNotSeekable, None)"
| "validation_rejection (SeekPastEnd requested duration_ms) = (CodeSeekPastEnd, None)"
| "validation_rejection InvalidMediaInput = (CodeInvalidMediaInput, None)"
| "validation_rejection (GuildMismatch command_guild snapshot_guild) = (CodeInvalidPlayerState, None)"
| "validation_rejection (UnavailableInState command state) = (CodeInvalidPlayerState, None)"

fun rejection_code :: "player_error \<Rightarrow> (command_result_code \<times> state_revision option) option" where
  "rejection_code (RevisionMismatch expected actual) = Some (CodeRevisionConflict, Some (StateRevision actual))"
| "rejection_code NotConnected = Some (CodeNotConnected, None)"
| "rejection_code (VoiceChannelMismatch expected actual) = Some (CodeVoiceChannelMismatch, None)"
| "rejection_code (QueueFull capacity) = Some (CodeQueueFull, None)"
| "rejection_code (DuplicateTrack track) = Some (CodeDuplicateTrack, None)"
| "rejection_code (InvalidCommand e) = Some (validation_rejection e)"
| "rejection_code (RevisionExhausted current) = Some (CodeStateExhausted, None)"
| "rejection_code IdleGenerationExhausted = Some (CodeStateExhausted, None)"
| "rejection_code ActorStopped = None"
| "rejection_code (InvalidTrack reason) = None"
| "rejection_code (SideEffect operation message) = None"
| "rejection_code (TaskFailed message) = None"

definition outcome_rejected :: "uuid \<Rightarrow> guild_id \<Rightarrow> player_error \<Rightarrow> command_result option" where
  "outcome_rejected command_id guild e =
     map_option (\<lambda>(code, current). result_rejected command_id guild code current) (rejection_code e)"

section \<open>The worker\<close>

datatype command_authorization = AuthAllowed | AuthDenied | AuthRetryableFailure

datatype command_execution_error =
  ExecPlayer player_error | ExecRejected command_result_code | ExecRetryable

text \<open>\<open>PlayerDirectory::execute\<close>: the player of this process, if there is one, applies the envelope.\<close>

definition directory_execute ::
  "unit + 'player option \<Rightarrow> ('player \<Rightarrow> command_envelope \<Rightarrow> player_error + player_snapshot) \<Rightarrow> command_envelope \<Rightarrow>
     command_execution_error + player_snapshot" where
  "directory_execute player apply_command envelope =
     (case player of
        Inl _ \<Rightarrow> Inl ExecRetryable
      | Inr None \<Rightarrow> Inl ExecRetryable
      | Inr (Some handle) \<Rightarrow> map_sum ExecPlayer id (apply_command handle envelope))"

record command_worker_config =
  wc_shards :: "nat \<times> nat"
  wc_group :: rstring
  wc_consumer :: rstring
  wc_batch_size :: nat
  wc_block :: nat
  wc_claim_idle :: nat
  wc_lease_ttl :: nat
  wc_completion_retention :: nat
  wc_retry_delay :: nat

datatype runtime_error =
  EventSubscription storage_error | CommandBus storage_error | PresenceStore storage_error | PresenceStopped
  | PresenceTimedOut string | RuntimeTask | CommandWorkerStopped nat | RequiredTaskStopped string
  | InvalidWorkerConfig string | InvalidPresenceConfig

definition valid_name :: "rstring \<Rightarrow> bool" where
  "valid_name name \<longleftrightarrow> name \<noteq> [] \<and> str_len name \<le> 128 \<and> \<not> has_control name"

definition worker_config_validate :: "command_worker_config \<Rightarrow> runtime_error + unit" where
  "worker_config_validate c =
     (if fst (wc_shards c) \<ge> snd (wc_shards c) then Inl (InvalidWorkerConfig ''shard range must be non-empty'')
      else if \<not> valid_name (wc_group c) \<or> \<not> valid_name (wc_consumer c)
      then Inl (InvalidWorkerConfig ''group and consumer must be 1-128 printable characters'')
      else if wc_batch_size c = 0 \<or> wc_batch_size c > 1000
      then Inl (InvalidWorkerConfig ''batch size must be between 1 and 1000'')
      else if 0 \<in> set [wc_block c, wc_claim_idle c, wc_lease_ttl c, wc_completion_retention c, wc_retry_delay c]
      then Inl (InvalidWorkerConfig ''worker durations must be non-zero'')
      else if wc_lease_ttl c \<le> wc_block c
      then Inl (InvalidWorkerConfig ''processing lease must exceed the stream block duration'')
      else Inr ())"

text \<open>The surroundings of one processing: the fault of each request and what the others do before it
  (the read, the claim, the write of the outcome, the acknowledgement), the clock in
  milliseconds, the authorizer, the fresh lease token and the execution.\<close>

datatype request_point = AtRead | AtClaim | AtOutcome | AtAcknowledge

record 's processing_env =
  pe_fault :: "request_point \<Rightarrow> request_fault"
  pe_others :: "request_point \<Rightarrow> 's \<Rightarrow> 's"
  pe_now_ms :: nat
  pe_authorize :: "command_envelope \<Rightarrow> command_authorization"
  pe_lease_token :: uuid
  pe_execute :: "command_envelope \<Rightarrow> command_execution_error + player_snapshot"

text \<open>What a processing did: whether the command was executed, and whether its entry was acknowledged.\<close>

record processing =
  pr_executed :: bool
  pr_acknowledged :: bool

definition command_deadline_expired :: "nat \<Rightarrow> unix_time_millis \<Rightarrow> bool" where
  "command_deadline_expired now_ms deadline \<longleftrightarrow> u64_try_from_or_max now_ms \<ge> millis_get deadline"

definition send_acknowledge ::
  "'s valkey_store \<Rightarrow> command_worker_config \<Rightarrow> u32 \<Rightarrow> 's processing_env \<Rightarrow> rstring \<Rightarrow> 's \<Rightarrow> 's" where
  "send_acknowledge vs config shard w entry_id s =
     snd (acknowledge_command vs (pe_fault w AtAcknowledge) shard (wc_group config) entry_id (pe_others w AtAcknowledge s))"

definition store_result_and_acknowledge ::
  "'s valkey_store \<Rightarrow> command_worker_config \<Rightarrow> u32 \<Rightarrow> 's processing_env \<Rightarrow> rstring \<Rightarrow> command_result \<Rightarrow> 's \<Rightarrow>
     bool \<times> 's" where
  "store_result_and_acknowledge vs config shard w entry_id result s =
     (case store_command_result vs (pe_fault w AtOutcome) result (wc_completion_retention config) (pe_others w AtOutcome s) of
        (Inr ResultStored, t) \<Rightarrow> (True, send_acknowledge vs config shard w entry_id t)
      | (Inr ResultUnchanged, t) \<Rightarrow> (True, send_acknowledge vs config shard w entry_id t)
      | (_, t) \<Rightarrow> (False, t))"

definition complete_with_result_and_acknowledge ::
  "'s valkey_store \<Rightarrow> command_worker_config \<Rightarrow> u32 \<Rightarrow> 's processing_env \<Rightarrow> rstring \<Rightarrow> uuid \<Rightarrow> command_result \<Rightarrow> 's \<Rightarrow>
     bool \<times> 's" where
  "complete_with_result_and_acknowledge vs config shard w entry_id key result s =
     (case complete_command vs (pe_fault w AtOutcome) key (pe_lease_token w) result (wc_completion_retention config)
             (wc_completion_retention config) (pe_others w AtOutcome s) of
        (Inr CompletionStored, t) \<Rightarrow> (True, send_acknowledge vs config shard w entry_id t)
      | (Inr CompletionUnchanged, t) \<Rightarrow> (True, send_acknowledge vs config shard w entry_id t)
      | (_, t) \<Rightarrow> (False, t))"

abbreviation not_executed :: "bool \<times> 's \<Rightarrow> processing \<times> 's" where
  "not_executed r \<equiv> (\<lparr>pr_executed = False, pr_acknowledged = fst r\<rparr>, snd r)"

abbreviation executed :: "bool \<times> 's \<Rightarrow> processing \<times> 's" where
  "executed r \<equiv> (\<lparr>pr_executed = True, pr_acknowledged = fst r\<rparr>, snd r)"

definition terminal_of ::
  "uuid \<Rightarrow> guild_id \<Rightarrow> command_execution_error + player_snapshot \<Rightarrow> command_result option" where
  "terminal_of command_id guild outcome =
     (case outcome of
        Inr snapshot \<Rightarrow> Some (outcome_applied command_id guild (ps_guild_id snapshot) (ps_revision snapshot))
      | Inl (ExecPlayer e) \<Rightarrow> outcome_rejected command_id guild e
      | Inl (ExecRejected code) \<Rightarrow> Some (result_rejected command_id guild code None)
      | Inl ExecRetryable \<Rightarrow> None)"

text \<open>The last part: the claim and what follows from it.\<close>

definition claim_and_execute ::
  "'s valkey_store \<Rightarrow> command_worker_config \<Rightarrow> u32 \<Rightarrow> 's processing_env \<Rightarrow> received_command \<Rightarrow> 's \<Rightarrow> processing \<times> 's" where
  "claim_and_execute vs config shard w received s =
     (let envelope = rc_envelope received; guild = ce_guild_id envelope; command_id = ce_command_id envelope;
          key = ce_idempotency_key envelope; entry = rc_entry_id received
      in case claim_idempotency vs (pe_fault w AtClaim) guild key (pe_lease_token w) (wc_lease_ttl config)
                (pe_others w AtClaim s) of
           (Inr Completed, t) \<Rightarrow>
             not_executed (store_result_and_acknowledge vs config shard w entry
               (result_rejected command_id guild CodeIdempotencyReplayed None) t)
         | (Inr InProgress, t) \<Rightarrow> not_executed (False, t)
         | (Inl _, t) \<Rightarrow> not_executed (False, t)
         | (Inr Acquired, t) \<Rightarrow>
             (case terminal_of command_id guild (pe_execute w envelope) of
                Some result \<Rightarrow> executed (complete_with_result_and_acknowledge vs config shard w entry key result t)
              | None \<Rightarrow> executed (False,
                  snd (release_idempotency vs (pe_fault w AtOutcome) guild key (pe_lease_token w) (pe_others w AtOutcome t)))))"

definition process_command ::
  "'s valkey_store \<Rightarrow> command_worker_config \<Rightarrow> u32 \<Rightarrow> 's processing_env \<Rightarrow> received_command \<Rightarrow> 's \<Rightarrow> processing \<times> 's" where
  "process_command vs config shard w received s =
     (let envelope = rc_envelope received; guild = ce_guild_id envelope; command_id = ce_command_id envelope;
          entry = rc_entry_id received; s0 = pe_others w AtRead s
      in case get_command_result vs (pe_fault w AtRead) guild command_id s0 of
           Inl _ \<Rightarrow> not_executed (False, s0)
         | Inr None \<Rightarrow>
             not_executed (store_result_and_acknowledge vs config shard w entry
               (result_rejected command_id guild CodeResultExpired None) s0)
         | Inr (Some result) \<Rightarrow>
             if is_terminal result then not_executed (True, send_acknowledge vs config shard w entry s0)
             else if command_deadline_expired (pe_now_ms w) (ce_deadline envelope) then
               not_executed (store_result_and_acknowledge vs config shard w entry
                 (result_rejected command_id guild CodeDeadlineExpired None) s0)
             else (case pe_authorize w envelope of
               AuthDenied \<Rightarrow>
                 not_executed (store_result_and_acknowledge vs config shard w entry
                   (result_denied command_id guild CodeNotAuthorized) s0)
             | AuthRetryableFailure \<Rightarrow> not_executed (False, s0)
             | AuthAllowed \<Rightarrow> claim_and_execute vs config shard w received s0))"

section \<open>Acknowledged means answered\<close>

text \<open>Some terminal result of the command is what any reader gets.\<close>

definition answered :: "'s valkey_store \<Rightarrow> guild_id \<Rightarrow> uuid \<Rightarrow> 's \<Rightarrow> bool" where
  "answered vs guild command_id s \<longleftrightarrow>
     (\<exists>r. is_terminal r \<and> cr_guild_id r = guild \<and> cr_command_id r = command_id \<and>
        get_command_result vs NoFault guild command_id s = Inr (Some r))"

lemma get_command_result_Some:
  "get_command_result vs f g c s = Inr (Some r) \<longleftrightarrow> f = NoFault \<and> cr_guild_id r = g \<and> cr_command_id r = c \<and>
     (\<exists>t. vk_get (vs_server vs) s (result_key vs g c) = Some t \<and> cd_parse_result (vs_codec vs) t = Some r)"
  by (auto simp: get_command_result_def ask_server_def validate_identity_def split: sum.splits option.splits if_split_asm)

lemma answered_iff:
  "answered vs g c s \<longleftrightarrow> (\<exists>r t. is_terminal r \<and> cr_guild_id r = g \<and> cr_command_id r = c \<and>
     vk_get (vs_server vs) s (result_key vs g c) = Some t \<and> cd_parse_result (vs_codec vs) t = Some r)"
  by (auto simp: answered_def get_command_result_Some)

lemma answered_stays:
  assumes "valkey_laws (vs_server vs)" and "codec_laws (vs_codec vs)" and "answered vs g c s"
  shows "answered vs g c (run_calls vs calls s)"
  using assms(3) terminal_stays [OF assms(1,2)] unfolding answered_iff by metis

lemma send_acknowledge_answered:
  assumes "valkey_laws (vs_server vs)" and "codec_laws (vs_codec vs)" and "answered vs g c s"
    and "pe_others w AtAcknowledge = run_calls vs calls"
  shows "answered vs g c (send_acknowledge vs config shard w entry_id s)"
  using answered_stays [OF assms(1-3), of calls]
  by (simp add: send_acknowledge_def assms(4) answered_iff get_acknowledge [OF assms(1)])

lemma answer_Inr:
  "answer d (invoke f script s) = (Inr b, t) \<Longrightarrow>
     f = NoFault \<and> t = snd (script s) \<and> d (fst (script s)) = Inr b"
  by (cases f) (auto simp: answer_def invoke_def split: prod.splits)

lemma stored_result_answers:
  assumes "valkey_laws (vs_server vs)" and "codec_laws (vs_codec vs)"
    and "store_command_result vs f r retention s = (Inr write, t)" and "write = ResultStored \<or> write = ResultUnchanged"
  shows "answered vs (cr_guild_id r) (cr_command_id r) t"
proof -
  have terminal: "is_terminal r"
    using assms(3) by (auto simp: store_command_result_def require_terminal_def split: if_split_asm)
  obtain ms where ms: "duration_millis retention ''command result retention'' = Inr ms" "0 < ms"
    using assms(3) terminal duration_millis_pos
    by (auto simp: store_command_result_def require_terminal_def split: sum.split_asm)
  have "vk_get (vs_server vs) t (result_key vs (cr_guild_id r) (cr_command_id r)) = Some (cd_result (vs_codec vs) r)"
    using assms(3,4) terminal ms laws_get(1,3) [OF assms(1) ms(2)]
    by (auto simp: store_command_result_def require_terminal_def store_terminal_script_def Let_def decode_write_def
        dest!: answer_Inr split: if_split_asm option.split_asm bool.split_asm)
  then show ?thesis using terminal codec_laws_simps(2) [OF assms(2)] by (auto simp: answered_iff)
qed

lemma completion_answers:
  assumes "valkey_laws (vs_server vs)" and "codec_laws (vs_codec vs)"
    and "complete_command vs f key token r a b s = (Inr completion, t)"
    and "completion = CompletionStored \<or> completion = CompletionUnchanged"
  shows "answered vs (cr_guild_id r) (cr_command_id r) t \<and>
    vk_get (vs_server vs) t (lease_key vs (cr_guild_id r) key) = Some (str ''done'')"
proof -
  have terminal: "is_terminal r"
    using assms(3) by (auto simp: complete_command_def require_terminal_def split: if_split_asm)
  obtain ma mb where ms: "duration_millis a ''command idempotency completion retention'' = Inr ma" "0 < ma"
    "duration_millis b ''command result retention'' = Inr mb" "0 < mb"
    using assms(3) terminal duration_millis_pos
    by (auto simp: complete_command_def require_terminal_def split: sum.split_asm)
  have "vk_get (vs_server vs) t (result_key vs (cr_guild_id r) (cr_command_id r)) = Some (cd_result (vs_codec vs) r) \<and>
      vk_get (vs_server vs) t (lease_key vs (cr_guild_id r) key) = Some (str ''done'')"
    using assms(3,4) terminal ms laws_get(1) [OF assms(1) ms(2)] laws_get(1,3) [OF assms(1) ms(4)]
    by (auto simp: complete_command_def require_terminal_def complete_with_result_script_def Let_def decode_completion_def
        simp del: str_Cons dest!: answer_Inr split: if_split_asm option.split_asm bool.split_asm)
  then show ?thesis using terminal codec_laws_simps(2) [OF assms(2)] by (auto simp: answered_iff)
qed

lemma result_fields [simp]:
  "cr_guild_id (result_rejected c g code current) = g" "cr_command_id (result_rejected c g code current) = c"
  "cr_guild_id (result_denied c g code) = g" "cr_command_id (result_denied c g code) = c"
  by (simp_all add: result_rejected_def result_denied_def)

lemma terminal_of_fields: "terminal_of c g outcome = Some r \<Longrightarrow> cr_guild_id r = g \<and> cr_command_id r = c"
  by (auto simp: terminal_of_def outcome_applied_def outcome_rejected_def result_applied_def
      split: sum.split_asm command_execution_error.split_asm if_split_asm)

text \<open>C10: A command's entry is acknowledged only when a terminal result of the command is there for every
  reader, whatever requests fail and whatever the other clients do in between.\<close>

theorem acknowledged_means_answered:
  assumes "valkey_laws (vs_server vs)" and "codec_laws (vs_codec vs)"
    and "pe_others w AtAcknowledge = run_calls vs calls"
    and "process_command vs config shard w received s = (did, t)" and "pr_acknowledged did"
  shows "answered vs (ce_guild_id (rc_envelope received)) (ce_command_id (rc_envelope received)) t"
proof -
  note acked = send_acknowledge_answered [OF assms(1,2) _ assms(3)]
  have stored: "answered vs (cr_guild_id r) (cr_command_id r) u"
    if "store_result_and_acknowledge vs config shard w entry_id r v = (True, u)" for entry_id r u v
    using that acked stored_result_answers [OF assms(1,2)]
    by (auto simp: store_result_and_acknowledge_def split: prod.split_asm sum.split_asm command_result_write.split_asm)
  have completed: "answered vs (cr_guild_id r) (cr_command_id r) u"
    if "complete_with_result_and_acknowledge vs config shard w entry_id key r v = (True, u)" for entry_id key r u v
    using that acked completion_answers [OF assms(1,2)]
    by (auto simp: complete_with_result_and_acknowledge_def split: prod.split_asm sum.split_asm command_completion.split_asm)
  let ?g = "ce_guild_id (rc_envelope received)" and ?c = "ce_command_id (rc_envelope received)"
  have reject: "answered vs ?g ?c t"
    if "(\<lparr>pr_executed = False, pr_acknowledged = fst a\<rparr>, snd a) = (did, t)"
      "a = store_result_and_acknowledge vs config shard w entry_id r v" "cr_guild_id r = ?g" "cr_command_id r = ?c" for a entry_id r v
  proof -
    have "fst a" "snd a = t" using that(1) assms(5) by auto
    then have "store_result_and_acknowledge vs config shard w entry_id r v = (True, t)"
      using that(2) by (simp add: prod_eq_iff)
    then show ?thesis using stored that(3,4) by metis
  qed
  have claimed: "answered vs ?g ?c t" if run: "claim_and_execute vs config shard w received v = (did, t)" for v
  proof -
    obtain claim u where claim: "claim_idempotency vs (pe_fault w AtClaim) ?g (ce_idempotency_key (rc_envelope received))
        (pe_lease_token w) (wc_lease_ttl config) (pe_others w AtClaim v) = (claim, u)" by (rule prod.exhaust)
    show ?thesis
    proof (cases claim)
      case (Inl e)
      then show ?thesis using run claim assms(5) by (auto simp: claim_and_execute_def Let_def)
    next
      case (Inr verdict)
      show ?thesis
      proof (cases verdict)
        case Acquired
        show ?thesis
        proof (cases "terminal_of ?c ?g (pe_execute w (rc_envelope received))")
          case None
          then show ?thesis using run claim assms(5) Inr Acquired by (auto simp: claim_and_execute_def Let_def)
        next
          case (Some r)
          obtain sent v' where last: "complete_with_result_and_acknowledge vs config shard w (rc_entry_id received)
              (ce_idempotency_key (rc_envelope received)) r u = (sent, v')" by (rule prod.exhaust)
          have "sent" "v' = t"
            using run claim assms(5) Inr Acquired Some last by (auto simp: claim_and_execute_def Let_def)
          then show ?thesis using completed [of _ _ r u t] last terminal_of_fields [OF Some] by simp
        qed
      next
        case InProgress
        then show ?thesis using run claim assms(5) Inr by (auto simp: claim_and_execute_def Let_def)
      next
        case Completed
        then show ?thesis using run claim Inr reject [OF _ refl] by (simp add: claim_and_execute_def Let_def)
      qed
    qed
  qed
  let ?s = "pe_others w AtRead s"
  show ?thesis
  proof (cases "get_command_result vs (pe_fault w AtRead) ?g ?c ?s")
    case (Inl e)
    then show ?thesis using assms(4,5) by (auto simp: process_command_def Let_def)
  next
    case (Inr found)
    show ?thesis
    proof (cases found)
      case None
      then show ?thesis
        using assms(4) Inr reject [OF _ refl] by (simp add: process_command_def Let_def)
    next
      case (Some r)
      show ?thesis
      proof (cases "is_terminal r")
        case True
        have "answered vs ?g ?c ?s"
          using Inr Some True by (auto simp: answered_iff get_command_result_Some)
        then show ?thesis using assms(4) Inr Some True acked by (auto simp: process_command_def Let_def)
      next
        case False
        then show ?thesis
          using assms(4,5) Inr Some reject [OF _ refl] claimed
          by (auto simp: process_command_def Let_def split: if_split_asm command_authorization.split_asm)
      qed
    qed
  qed
qed

section \<open>Executed under the lease, once\<close>

lemma acquired_from_free:
  "claim_idempotency vs f g k t ttl s = (Inr Acquired, u) \<Longrightarrow> vk_get (vs_server vs) s (lease_key vs g k) = None"
  by (auto simp: claim_idempotency_def claim_script_def decode_claim_def dest!: answer_Inr
      split: sum.split_asm option.split_asm if_split_asm)

lemma executed_claims:
  assumes "claim_and_execute vs config shard w received s = (did, t)" and "pr_executed did"
  shows "\<exists>u. claim_idempotency vs (pe_fault w AtClaim) (rc_guild received) (ce_idempotency_key (rc_envelope received))
      (pe_lease_token w) (wc_lease_ttl config) (pe_others w AtClaim s) = (Inr Acquired, u) \<and>
    (pr_acknowledged did \<longrightarrow> (\<exists>r. terminal_of (ce_command_id (rc_envelope received)) (rc_guild received)
         (pe_execute w (rc_envelope received)) = Some r \<and>
       complete_with_result_and_acknowledge vs config shard w (rc_entry_id received)
         (ce_idempotency_key (rc_envelope received)) r u = (True, t)))"
proof -
  obtain claim u where claim: "claim_idempotency vs (pe_fault w AtClaim) (rc_guild received)
      (ce_idempotency_key (rc_envelope received)) (pe_lease_token w) (wc_lease_ttl config) (pe_others w AtClaim s) = (claim, u)"
    by (rule prod.exhaust)
  have "claim = Inr Acquired"
    using assms claim by (auto simp: claim_and_execute_def Let_def split: sum.split_asm dedupe_claim.split_asm)
  then show ?thesis
    using assms claim by (auto simp: claim_and_execute_def Let_def prod_eq_iff split: option.split_asm)
qed

lemma executed_guards:
  assumes "process_command vs config shard w received s = (did, t)" and "pr_executed did"
  shows "pe_authorize w (rc_envelope received) = AuthAllowed \<and>
    \<not> command_deadline_expired (pe_now_ms w) (ce_deadline (rc_envelope received)) \<and>
    (\<exists>r. get_command_result vs NoFault (rc_guild received) (ce_command_id (rc_envelope received)) (pe_others w AtRead s) =
       Inr (Some r) \<and> \<not> is_terminal r) \<and>
    claim_and_execute vs config shard w received (pe_others w AtRead s) = (did, t)"
proof -
  obtain r where read: "get_command_result vs (pe_fault w AtRead) (rc_guild received)
      (ce_command_id (rc_envelope received)) (pe_others w AtRead s) = Inr (Some r)"
    using assms by (auto simp: process_command_def Let_def split: sum.split_asm option.split_asm)
  then have "pe_fault w AtRead = NoFault" by (simp add: get_command_result_Some)
  then show ?thesis
    using assms read by (auto simp: process_command_def Let_def split: if_split_asm command_authorization.split_asm)
qed

text \<open>A command is executed only for an authorized actor, before its deadline, while its result is
  pending and its operation is leased to this very processing, with nobody holding or having
  completed it before.\<close>

theorem execution_is_guarded:
  assumes "process_command vs config shard w received s = (did, t)" and "pr_executed did"
  shows "pe_authorize w (rc_envelope received) = AuthAllowed \<and>
    \<not> command_deadline_expired (pe_now_ms w) (ce_deadline (rc_envelope received)) \<and>
    (\<exists>r. get_command_result vs NoFault (rc_guild received) (ce_command_id (rc_envelope received)) (pe_others w AtRead s) =
       Inr (Some r) \<and> \<not> is_terminal r) \<and>
    vk_get (vs_server vs) (pe_others w AtClaim (pe_others w AtRead s))
      (lease_key vs (rc_guild received) (ce_idempotency_key (rc_envelope received))) = None"
  using executed_guards [OF assms] executed_claims [of vs config shard w received "pe_others w AtRead s" did t] assms(2)
  by (auto dest: acquired_from_free)

lemma done_stays:
  assumes "valkey_laws (vs_server vs)" and "codec_laws (vs_codec vs)"
    and "vk_get (vs_server vs) s (lease_key vs g k) = Some (str ''done'')"
  shows "vk_get (vs_server vs) (run_calls vs calls s) (lease_key vs g k) = Some (str ''done'')"
  using held_stays [OF assms(1,2), of s g k Done undefined calls] assms(3) by (simp add: slot_text_def)

text \<open>C11: Once a processing has executed a command and acknowledged it, no later processing of a
  command with the same idempotency key executes it again, whoever runs it and whatever requests
  come in between, until the completion mark expires.\<close>

theorem completed_commands_run_once:
  assumes "valkey_laws (vs_server vs)" and "codec_laws (vs_codec vs)"
    and "process_command vs config shard w received s = (did, t)" and "pr_executed did" and "pr_acknowledged did"
    and "pe_others w AtAcknowledge = run_calls vs calls"
    and "rc_guild again = rc_guild received"
    and "ce_idempotency_key (rc_envelope again) = ce_idempotency_key (rc_envelope received)"
    and "pe_others w' AtRead = run_calls vs calls'" and "pe_others w' AtClaim = run_calls vs calls''"
    and "process_command vs config' shard' w' again (run_calls vs between t) = (did', t')"
  shows "\<not> pr_executed did'"
proof
  assume twice: "pr_executed did'"
  let ?key = "lease_key vs (rc_guild received) (ce_idempotency_key (rc_envelope received))"
  note keep = done_stays [OF assms(1,2)]
  obtain u r where finish: "complete_with_result_and_acknowledge vs config shard w (rc_entry_id received)
      (ce_idempotency_key (rc_envelope received)) r u = (True, t)" and "cr_guild_id r = rc_guild received"
    using executed_claims [OF conjunct2 [OF conjunct2 [OF conjunct2 [OF executed_guards [OF assms(3,4)]]]] assms(4)]
      assms(5) terminal_of_fields by blast
  obtain completion v where v: "complete_command vs (pe_fault w AtOutcome) (ce_idempotency_key (rc_envelope received))
      (pe_lease_token w) r (wc_completion_retention config) (wc_completion_retention config) (pe_others w AtOutcome u) =
      (Inr completion, v)" "completion = CompletionStored \<or> completion = CompletionUnchanged"
    and t: "t = send_acknowledge vs config shard w (rc_entry_id received) v"
    using finish
    by (auto simp: complete_with_result_and_acknowledge_def split: prod.split_asm sum.split_asm command_completion.split_asm)
  have "vk_get (vs_server vs) v ?key = Some (str ''done'')"
    using completion_answers [OF assms(1,2) v] \<open>cr_guild_id r = rc_guild received\<close> by simp
  then have "vk_get (vs_server vs) t ?key = Some (str ''done'')"
    using keep by (simp add: t send_acknowledge_def assms(6) get_acknowledge [OF assms(1)] del: str_Cons)
  then have "vk_get (vs_server vs) (pe_others w' AtClaim (pe_others w' AtRead (run_calls vs between t))) ?key =
      Some (str ''done'')"
    unfolding assms(9,10) by (intro keep)
  moreover have "vk_get (vs_server vs) (pe_others w' AtClaim (pe_others w' AtRead (run_calls vs between t))) ?key = None"
    using executed_guards [OF assms(11) twice]
      executed_claims [of vs config' shard' w' again "pe_others w' AtRead (run_calls vs between t)" did' t'] twice
      acquired_from_free assms(7,8) by metis
  ultimately show False by simp
qed

end
