(* ===== verification/Command_Samples.thy ===== *)
theory Command_Samples
  imports Valkey_Samples Command_Worker
begin

text \<open>Concrete processings against the sample server.\<close>

definition sample_worker :: command_worker_config where
  "sample_worker = \<lparr>wc_shards = (0, 1), wc_group = str ''g'', wc_consumer = str ''c'', wc_batch_size = 8,
     wc_block = 10 ^ 9, wc_claim_idle = 10 ^ 9, wc_lease_ttl = 2 * 10 ^ 9, wc_completion_retention = 10 ^ 9,
     wc_retry_delay = 10 ^ 9\<rparr>"

definition sample_processing :: "memory processing_env" where
  "sample_processing = \<lparr>pe_fault = (\<lambda>_. NoFault), pe_others = (\<lambda>_ s. s), pe_now_ms = 10,
     pe_authorize = (\<lambda>_. AuthAllowed), pe_lease_token = 3, pe_execute = (\<lambda>_. Inl (ExecRejected CodeQueueFull))\<rparr>"

definition sample_received :: received_command where
  "sample_received = \<lparr>rc_entry_id = str ''1-0'', rc_envelope = sample_command 1\<rparr>"

definition pending_memory :: memory where
  "pending_memory = empty_memory\<lparr>mem_strings :=
     [result_key sample_store (GuildId 5) 1 \<mapsto> result_text (result_pending 1 (GuildId 5))]\<rparr>"

lemma sample_command_more:
  "ce_idempotency_key (sample_command n) = 9" "ce_deadline (sample_command n) = UnixTimeMillis 1000"
  by (simp_all add: sample_command_def command_envelope_new_def)

lemma sample_processed:
  "fst (process_command sample_store sample_worker 0 sample_processing sample_received pending_memory) =
     \<lparr>pr_executed = True, pr_acknowledged = True\<rparr>"
proof -
  have read: "get_command_result sample_store NoFault (GuildId 5) 1 pending_memory = Inr (Some (result_pending 1 (GuildId 5)))"
    by (simp add: get_command_result_Some)
      (simp add: pending_memory_def sample_store_def memory_server_def sample_codec_def result_pending_def)
  have "lease_key sample_store (GuildId 5) 9 \<noteq> result_key sample_store (GuildId 5) 1" by simp
  then have free: "vk_get memory_server pending_memory (lease_key sample_store (GuildId 5) 9) = None"
    by (simp add: pending_memory_def memory_server_def empty_memory_def)
  let ?claimed = "vk_set_px memory_server (lease_key sample_store (GuildId 5) 9) (lease_value sample_codec 3) 2000 pending_memory"
  have claim: "claim_idempotency sample_store NoFault (GuildId 5) 9 3 (2 * 10 ^ 9) pending_memory = (Inr Acquired, ?claimed)"
    using free by (simp add: claim_idempotency_def duration_millis_def invoke_def claim_script_def answer_def
        decode_claim_def sample_store_def)
  let ?r = "result_rejected 1 (GuildId 5) CodeQueueFull None"
  have there: "vk_get memory_server ?claimed (result_key sample_store (GuildId 5) 1) = Some (result_text (result_pending 1 (GuildId 5)))"
    "vk_get memory_server ?claimed (lease_key sample_store (GuildId 5) 9) = Some (lease_value sample_codec 3)"
    by (simp_all add: pending_memory_def memory_server_def)
  have "result_text (result_pending 1 (GuildId 5)) \<noteq> result_text ?r"
    by (simp add: result_text_def result_pending_def result_rejected_def)
  then have "fst (complete_command sample_store NoFault 9 3 ?r (10 ^ 9) (10 ^ 9) ?claimed) = Inr CompletionStored"
    using there
    by (simp add: complete_command_def require_terminal_def is_terminal_def duration_millis_def invoke_def
        complete_with_result_script_def Let_def sample_store_def answer_def decode_completion_def replaceable_def
        sample_codec_def result_pending_def) (simp add: result_rejected_def)
  then obtain v where completed: "complete_command sample_store NoFault 9 3 ?r (10 ^ 9) (10 ^ 9) ?claimed = (Inr CompletionStored, v)"
    by (metis prod.collapse)
  show ?thesis
    using read claim completed
    by (simp add: process_command_def claim_and_execute_def complete_with_result_and_acknowledge_def sample_processing_def
        sample_received_def sample_worker_def sample_command_more terminal_of_def command_deadline_expired_def
        is_terminal_def Let_def) (simp add: result_pending_def u64_try_from_or_max_def)
qed

lemma sample_processed_run:
  obtains t where "process_command sample_store sample_worker 0 sample_processing sample_received pending_memory =
    (\<lparr>pr_executed = True, pr_acknowledged = True\<rparr>, t)"
  using sample_processed by (metis prod.collapse)

lemma sample_calm: "pe_others sample_processing p = run_calls sample_store []"
  by (simp add: sample_processing_def fun_eq_iff)

lemma acknowledged_means_answered_witness:
  "\<exists>t. process_command sample_store sample_worker 0 sample_processing sample_received pending_memory =
     (\<lparr>pr_executed = True, pr_acknowledged = True\<rparr>, t) \<and> answered sample_store (GuildId 5) 1 t"
proof -
  obtain t where run: "process_command sample_store sample_worker 0 sample_processing sample_received pending_memory =
    (\<lparr>pr_executed = True, pr_acknowledged = True\<rparr>, t)" by (rule sample_processed_run)
  from acknowledged_means_answered [OF sample_store_laws(1,2) sample_calm run] run
  show ?thesis by (simp add: sample_received_def)
qed

lemma execution_is_guarded_witness:
  "vk_get memory_server pending_memory (lease_key sample_store (GuildId 5) 9) = None"
proof -
  obtain t where run: "process_command sample_store sample_worker 0 sample_processing sample_received pending_memory =
    (\<lparr>pr_executed = True, pr_acknowledged = True\<rparr>, t)" by (rule sample_processed_run)
  from execution_is_guarded [OF run] show ?thesis
    by (simp add: sample_processing_def sample_received_def sample_command_more) (simp add: sample_store_def)
qed

lemma completed_commands_run_once_witness:
  "\<exists>t. \<not> pr_executed (fst (process_command sample_store sample_worker 0 (sample_processing\<lparr>pe_lease_token := 4\<rparr>) sample_received t)) \<and>
     t = snd (process_command sample_store sample_worker 0 sample_processing sample_received pending_memory)"
proof -
  obtain t where run: "process_command sample_store sample_worker 0 sample_processing sample_received pending_memory =
    (\<lparr>pr_executed = True, pr_acknowledged = True\<rparr>, t)" by (rule sample_processed_run)
  obtain did t' where again: "process_command sample_store sample_worker 0 (sample_processing\<lparr>pe_lease_token := 4\<rparr>) sample_received
      (run_calls sample_store [] t) = (did, t')" by (rule prod.exhaust)
  have calm: "pe_others (sample_processing\<lparr>pe_lease_token := 4\<rparr>) p = run_calls sample_store []" for p
    by (simp add: sample_processing_def fun_eq_iff)
  from completed_commands_run_once [OF sample_store_laws(1,2) run _ _ sample_calm refl refl calm calm again] again run
  show ?thesis by (intro exI [of _ t]) simp
qed

end
