(* ===== verification/Command_Shard.thy ===== *)
theory Command_Shard
  imports Command_Worker
begin

text \<open>
  The consumer loop of one shard, \<open>crates/pepeaudio-runtime/src/command_dispatch.rs\<close>: each iteration
  reaps finished tasks, waits while the buffer is full, claims abandoned commands and reads new
  ones. What the store answers, which tasks finish, the shutdown signal and the timers are the
  surroundings of an iteration. The loop is a refinement of the dispatcher's machine.
\<close>

section \<open>Waiting\<close>

datatype wait_outcome = Ready | Shutdown | TaskFailure

text \<open>A join hands over the i-th task of the set (none, where there is no such task), or the error of a
  task that panicked.\<close>

datatype join_event = JoinedTask nat | JoinFailed

datatype wait_event = ShutdownSignal bool | TaskJoined join_event | Elapsed

fun finish_join :: "join_event \<Rightarrow> dispatcher \<Rightarrow> bool \<times> dispatcher" where
  "finish_join (JoinedTask i) d = (if i < length (d_tasks d) then complete_task i d else dispatch_finish None d)"
| "finish_join JoinFailed d = dispatch_finish (Some (Inl ())) d"

fun reap_finished :: "join_event list \<Rightarrow> dispatcher \<Rightarrow> bool \<times> dispatcher" where
  "reap_finished [] d = (True, d)"
| "reap_finished (e # es) d = (case finish_join e d of (True, d') \<Rightarrow> reap_finished es d' | (False, d') \<Rightarrow> (False, d'))"

fun wait_for_completion :: "wait_event \<Rightarrow> dispatcher \<Rightarrow> wait_outcome \<times> dispatcher" where
  "wait_for_completion (ShutdownSignal requested) d = (if requested then Shutdown else Ready, d)"
| "wait_for_completion (TaskJoined e) d =
     (case finish_join e d of (True, d') \<Rightarrow> (Ready, d') | (False, d') \<Rightarrow> (TaskFailure, d'))"
| "wait_for_completion Elapsed d = (Ready, d)"

text \<open>\<open>None\<close> while the loop still waits after the events given.\<close>

fun wait_for_capacity :: "wait_event list \<Rightarrow> dispatcher \<Rightarrow> (wait_outcome \<times> dispatcher) option" where
  "wait_for_capacity es d =
     (if \<not> dispatch_is_full d then Some (Ready, d)
      else case es of
        [] \<Rightarrow> None
      | e # rest \<Rightarrow>
          (case wait_for_completion e d of
             (Ready, d') \<Rightarrow> wait_for_capacity rest d'
           | (outcome, d') \<Rightarrow> Some (outcome, d')))"

fun wait_for_retry :: "wait_event list \<Rightarrow> dispatcher \<Rightarrow> (wait_outcome \<times> dispatcher) option" where
  "wait_for_retry [] d = None"
| "wait_for_retry (Elapsed # es) d = Some (Ready, d)"
| "wait_for_retry (e # es) d =
     (case wait_for_completion e d of
        (Ready, d') \<Rightarrow> wait_for_retry es d'
      | (outcome, d') \<Rightarrow> Some (outcome, d'))"

declare wait_for_capacity.simps [simp del]

section \<open>One iteration\<close>

text \<open>A request races with the shutdown signal.\<close>

datatype 'a raced = SignalFirst bool | Answered 'a

record shard_env =
  se_shutdown :: bool
  se_reaped :: "join_event list"
  se_capacity :: "wait_event list"
  se_claim :: "rstring \<Rightarrow> nat \<Rightarrow> (storage_error + claim_batch) raced"
  se_read :: "nat \<Rightarrow> (storage_error + received_command list) raced"
  se_retry :: "wait_event list"

definition shard_buffer_limit :: "command_worker_config \<Rightarrow> nat" where
  "shard_buffer_limit config = max (min (wc_batch_size config * 2) (2 ^ 64 - 1)) MAX_CONCURRENT_GUILDS"

datatype shard_end = Returned dispatcher | Continued rstring dispatcher

definition after_retry :: "wait_event list \<Rightarrow> rstring \<Rightarrow> dispatcher \<Rightarrow> shard_end option" where
  "after_retry es cursor d =
     (case wait_for_retry es d of
        None \<Rightarrow> None
      | Some (Ready, d') \<Rightarrow> Some (Continued cursor d')
      | Some (_, d') \<Rightarrow> Some (Returned d'))"

definition read_step :: "command_worker_config \<Rightarrow> shard_env \<Rightarrow> rstring \<Rightarrow> dispatcher \<Rightarrow> shard_end option" where
  "read_step config w cursor d =
     (if dispatch_is_full d then Some (Continued cursor d)
      else case se_read w (min (available_capacity d) (wc_batch_size config)) of
        SignalFirst requested \<Rightarrow> Some (if requested then Returned d else Continued cursor d)
      | Answered (Inr commands) \<Rightarrow> Some (Continued cursor (dispatch_enqueue commands d))
      | Answered (Inl e) \<Rightarrow> after_retry (se_retry w) cursor d)"

definition shard_iteration :: "command_worker_config \<Rightarrow> shard_env \<Rightarrow> rstring \<times> dispatcher \<Rightarrow> shard_end option" where
  "shard_iteration config w st =
     (case st of (cursor, d0) \<Rightarrow>
        if se_shutdown w then Some (Returned d0)
        else case reap_finished (se_reaped w) d0 of
          (False, d) \<Rightarrow> Some (Returned d)
        | (True, d) \<Rightarrow>
            if dispatch_is_full d then
              (case wait_for_capacity (se_capacity w) d of
                 None \<Rightarrow> None
               | Some (Ready, d') \<Rightarrow> Some (Continued cursor d')
               | Some (_, d') \<Rightarrow> Some (Returned d'))
            else (case se_claim w cursor (min (available_capacity d) (wc_batch_size config)) of
              SignalFirst requested \<Rightarrow> Some (if requested then Returned d else Continued cursor d)
            | Answered (Inl e) \<Rightarrow> after_retry (se_retry w) cursor d
            | Answered (Inr batch) \<Rightarrow>
                read_step config w (cb_next_start batch) (dispatch_enqueue (cb_commands batch) d)))"

fun end_dispatcher :: "shard_end \<Rightarrow> dispatcher" where
  "end_dispatcher (Returned d) = d"
| "end_dispatcher (Continued cursor d) = d"

section \<open>The loop within the dispatcher's machine\<close>

text \<open>One history leads to another by steps of the dispatcher, with the buffer within its limit.\<close>

definition leads :: "dispatch_history \<Rightarrow> dispatcher \<Rightarrow> bool" where
  "leads h d \<longleftrightarrow> (\<exists>k. rtranclp dispatch_step h k \<and> dh_dispatcher k = d \<and>
     d_buffer_limit d = d_buffer_limit (dh_dispatcher h) \<and> d_buffered d \<le> d_buffer_limit d)"

definition within_limit :: "dispatch_history \<Rightarrow> bool" where
  "within_limit h \<longleftrightarrow> history_inv h \<and> d_buffered (dh_dispatcher h) \<le> d_buffer_limit (dh_dispatcher h) \<and>
     d_buffer_limit (dh_dispatcher h) < 2 ^ 64"

lemma leadsE:
  assumes "leads h d" and "within_limit h"
  obtains k where "rtranclp dispatch_step h k" and "dh_dispatcher k = d" and "within_limit k"
    and "d_buffer_limit d = d_buffer_limit (dh_dispatcher h)"
  using assms dispatch.steps_inv unfolding leads_def within_limit_def by metis

lemma leads_refl: "within_limit h \<Longrightarrow> leads h (dh_dispatcher h)"
  unfolding leads_def within_limit_def by blast

lemma leads_trans:
  assumes "leads h d" and "within_limit h" and "\<And>k. dh_dispatcher k = d \<Longrightarrow> within_limit k \<Longrightarrow> leads k d'"
  shows "leads h d'"
proof -
  obtain k where k: "rtranclp dispatch_step h k" "dh_dispatcher k = d" "within_limit k"
    "d_buffer_limit d = d_buffer_limit (dh_dispatcher h)" by (rule leadsE [OF assms(1,2)])
  obtain j where "rtranclp dispatch_step k j" "dh_dispatcher j = d'" "d_buffer_limit d' = d_buffer_limit d"
    "d_buffered d' \<le> d_buffer_limit d'"
    using assms(3) [OF k(2,3)] k(2) unfolding leads_def by auto
  then show ?thesis unfolding leads_def using k(1,4) by (metis rtranclp_trans)
qed

lemma finish_join_leads:
  assumes "within_limit h" and "finish_join e (dh_dispatcher h) = (ok, d)"
  shows "leads h d"
proof (cases e)
  case JoinFailed
  then show ?thesis using assms(2) leads_refl [OF assms(1)] by (simp add: dispatch_finish_def)
next
  case (JoinedTask i)
  show ?thesis
  proof (cases "i < length (d_tasks (dh_dispatcher h))")
    case False
    then show ?thesis using JoinedTask assms(2) leads_refl [OF assms(1)] by (simp add: dispatch_finish_def)
  next
    case True
    obtain guild cs where task: "d_tasks (dh_dispatcher h) ! i = (guild, cs)" by (rule prod.exhaust)
    have inv: "disp_inv (dh_dispatcher h)" using assms(1) by (simp add: within_limit_def history_inv_def)
    obtain d' where run: "complete_task i (dh_dispatcher h) = (True, d')"
      "d_buffer_limit d' = d_buffer_limit (dh_dispatcher h)" "d_buffered (dh_dispatcher h) = d_buffered d' + length cs"
      by (rule complete_task_inv [OF inv True task])
    have "d' = d" using run(1) assms(2) JoinedTask True by simp
    then show ?thesis
      using dispatch_step.finished [OF True task run(1)] run assms(1)
      unfolding leads_def within_limit_def
      by (intro exI [of _ "h\<lparr>dh_dispatcher := d', dh_finished := dh_finished h @ cs\<rparr>"]) auto
  qed
qed

lemma enqueue_leads:
  assumes "within_limit h" and "length cs \<le> available_capacity (dh_dispatcher h)"
  shows "leads h (dispatch_enqueue cs (dh_dispatcher h))"
proof -
  let ?d = "dh_dispatcher h"
  have fits: "d_buffered ?d + length cs \<le> d_buffer_limit ?d" "d_buffered ?d + length cs < 2 ^ 64"
    and inv: "disp_inv ?d"
    using assms by (auto simp: within_limit_def available_capacity_def history_inv_def)
  note done_inv = dispatch_enqueue_inv [OF inv fits(2)]
  show ?thesis
    unfolding leads_def
    using dispatch_step.received [OF fits(2)] done_inv fits(1)
    by (intro exI [of _ "h\<lparr>dh_dispatcher := dispatch_enqueue cs ?d, dh_received := dh_received h @ cs\<rparr>"]) auto
qed

lemma wait_for_completion_leads:
  assumes "within_limit h" and "wait_for_completion e (dh_dispatcher h) = (outcome, d)"
  shows "leads h d"
  using assms leads_refl [OF assms(1)] finish_join_leads [OF assms(1)]
  by (cases e) (auto split: prod.split_asm bool.split_asm)

lemma reap_finished_leads:
  "within_limit h \<Longrightarrow> reap_finished es (dh_dispatcher h) = (ok, d) \<Longrightarrow> leads h d"
proof (induction es arbitrary: h)
  case Nil
  then show ?case using leads_refl by auto
next
  case (Cons e es)
  obtain ok' d' where first: "finish_join e (dh_dispatcher h) = (ok', d')" by (rule prod.exhaust)
  have "leads h d'" by (rule finish_join_leads [OF Cons.prems(1) first])
  then show ?case
    using Cons first by (cases ok') (auto intro: leads_trans)
qed

lemma wait_for_capacity_leads:
  "within_limit h \<Longrightarrow> wait_for_capacity es (dh_dispatcher h) = Some (outcome, d) \<Longrightarrow> leads h d"
proof (induction es arbitrary: h)
  case Nil
  then show ?case using leads_refl by (auto simp: wait_for_capacity.simps split: if_split_asm)
next
  case (Cons e es)
  obtain o' d' where first: "wait_for_completion e (dh_dispatcher h) = (o', d')" by (rule prod.exhaust)
  have leads: "leads h d'" by (rule wait_for_completion_leads [OF Cons.prems(1) first])
  show ?case
  proof (cases "dispatch_is_full (dh_dispatcher h) \<and> o' = Ready")
    case True
    then have "wait_for_capacity es d' = Some (outcome, d)"
      using Cons.prems(2) first by (simp add: wait_for_capacity.simps [of "e # es"])
    then show ?thesis using leads_trans [OF leads Cons.prems(1)] Cons.IH by blast
  next
    case False
    then show ?thesis
      using Cons.prems first leads leads_refl [OF Cons.prems(1)]
      by (cases o') (auto simp: wait_for_capacity.simps [of "e # es"] split: if_split_asm)
  qed
qed

lemma wait_for_retry_leads:
  "within_limit h \<Longrightarrow> wait_for_retry es (dh_dispatcher h) = Some (outcome, d) \<Longrightarrow> leads h d"
proof (induction es arbitrary: h)
  case (Cons e es)
  obtain o' d' where first: "wait_for_completion e (dh_dispatcher h) = (o', d')" by (rule prod.exhaust)
  have leads: "leads h d'" by (rule wait_for_completion_leads [OF Cons.prems(1) first])
  have step: "wait_for_retry (e # es) (dh_dispatcher h) =
      (if e = Elapsed then Some (Ready, dh_dispatcher h) else case o' of Ready \<Rightarrow> wait_for_retry es d' | _ \<Rightarrow> Some (o', d'))"
    using first by (cases e; cases o') auto
  show ?case
  proof (cases "e \<noteq> Elapsed \<and> o' = Ready")
    case True
    then have "wait_for_retry es d' = Some (outcome, d)" using Cons.prems(2) step by simp
    then show ?thesis using leads_trans [OF leads Cons.prems(1)] Cons.IH by blast
  next
    case False
    then show ?thesis
      using Cons.prems step leads leads_refl [OF Cons.prems(1)] by (cases o') (auto split: if_split_asm)
  qed
qed simp

lemma after_retry_leads:
  "within_limit h \<Longrightarrow> after_retry es cursor (dh_dispatcher h) = Some r \<Longrightarrow> leads h (end_dispatcher r)"
  using wait_for_retry_leads [of h es]
  by (auto simp: after_retry_def split: option.split_asm prod.split_asm wait_outcome.split_asm)

text \<open>The store answers no more than it was asked for.\<close>

definition bounded_answers :: "shard_env \<Rightarrow> bool" where
  "bounded_answers w \<longleftrightarrow>
     (\<forall>cursor n batch. se_claim w cursor n = Answered (Inr batch) \<longrightarrow> length (cb_commands batch) \<le> n) \<and>
     (\<forall>n commands. se_read w n = Answered (Inr commands) \<longrightarrow> length commands \<le> n)"

lemma read_step_leads:
  assumes "within_limit h" and "bounded_answers w" and "read_step config w cursor (dh_dispatcher h) = Some r"
  shows "leads h (end_dispatcher r)"
proof -
  have "length commands \<le> available_capacity (dh_dispatcher h)"
    if "se_read w (min (available_capacity (dh_dispatcher h)) (wc_batch_size config)) = Answered (Inr commands)" for commands
    using assms(2) that unfolding bounded_answers_def by fastforce
  then show ?thesis
    using assms(3) leads_refl [OF assms(1)] enqueue_leads [OF assms(1)] after_retry_leads [OF assms(1)]
    by (auto simp: read_step_def split: if_split_asm raced.split_asm sum.split_asm)
qed

text \<open>C29: An iteration of a shard's loop, whatever the store answers within the counts it was asked for,
  whichever tasks finish and whenever shutdown comes, is a sequence of steps of the dispatcher
  and never lets the buffer exceed its limit.\<close>

theorem shard_iteration_refines_dispatch:
  assumes "within_limit h" and "bounded_answers w"
    and "shard_iteration config w (cursor, dh_dispatcher h) = Some r"
  shows "\<exists>k. rtranclp dispatch_step h k \<and> dh_dispatcher k = end_dispatcher r \<and> within_limit k"
proof -
  obtain ok d where reaped: "reap_finished (se_reaped w) (dh_dispatcher h) = (ok, d)" by (rule prod.exhaust)
  have first: "leads h d" by (rule reap_finished_leads [OF assms(1) reaped])
  have then_more: "leads k (end_dispatcher r)"
    if k: "dh_dispatcher k = d" "within_limit k" and going: "\<not> se_shutdown w" "ok" for k
  proof (cases "dispatch_is_full d")
    case True
    then show ?thesis
      using assms(3) reaped going wait_for_capacity_leads [OF k(2), of "se_capacity w"] k(1)
      by (auto simp: shard_iteration_def split: option.split_asm prod.split_asm wait_outcome.split_asm)
  next
    case False
    let ?n = "min (available_capacity d) (wc_batch_size config)"
    show ?thesis
    proof (cases "se_claim w cursor ?n")
      case (SignalFirst requested)
      then show ?thesis
        using assms(3) reaped going False leads_refl [OF k(2)] k(1)
        by (auto simp: shard_iteration_def split: if_split_asm)
    next
      case (Answered answered)
      show ?thesis
      proof (cases answered)
        case (Inl e)
        then show ?thesis
          using assms(3) reaped going False Answered after_retry_leads [OF k(2)] k(1)
          by (simp add: shard_iteration_def)
      next
        case (Inr batch)
        then have "length (cb_commands batch) \<le> available_capacity (dh_dispatcher k)"
          using assms(2) Answered k(1) unfolding bounded_answers_def by fastforce
        then have "leads k (dispatch_enqueue (cb_commands batch) (dh_dispatcher k))" by (rule enqueue_leads [OF k(2)])
        moreover have "read_step config w (cb_next_start batch) (dispatch_enqueue (cb_commands batch) d) = Some r"
          using assms(3) reaped going False Answered Inr by (simp add: shard_iteration_def)
        ultimately show ?thesis
          using leads_trans [OF _ k(2)] read_step_leads [OF _ assms(2)] k(1) by metis
      qed
    qed
  qed
  have "leads h (end_dispatcher r)"
  proof (cases "se_shutdown w")
    case True
    then show ?thesis using assms(3) leads_refl [OF assms(1)] by (auto simp: shard_iteration_def)
  next
    case False
    show ?thesis
    proof (cases ok)
      case True
      then show ?thesis using leads_trans [OF first assms(1)] then_more False by blast
    next
      case False
      then show ?thesis using assms(3) reaped first leads_refl [OF assms(1)]
        by (auto simp: shard_iteration_def split: if_split_asm)
    qed
  qed
  then show ?thesis by (rule leadsE [OF _ assms(1)]) blast
qed

definition sample_shard_env :: shard_env where
  "sample_shard_env = \<lparr>se_shutdown = False, se_reaped = [], se_capacity = [],
     se_claim = (\<lambda>cursor n. Answered (Inr \<lparr>cb_next_start = str ''0-0'', cb_commands = [], cb_deleted_entry_ids = []\<rparr>)),
     se_read = (\<lambda>n. Answered (Inr (take n [dispatched_sample 1 0, dispatched_sample 2 1]))), se_retry = []\<rparr>"

lemma shard_iteration_refines_dispatch_witness:
  "\<exists>k. rtranclp dispatch_step \<lparr>dh_dispatcher = dispatcher_new 64, dh_received = [], dh_finished = []\<rparr> k \<and> within_limit k"
proof -
  let ?h = "\<lparr>dh_dispatcher = dispatcher_new 64, dh_received = [], dh_finished = []\<rparr>"
  let ?config = "\<lparr>wc_shards = (0, 1), wc_group = [], wc_consumer = [], wc_batch_size = 32, wc_block = 1, wc_claim_idle = 1,
    wc_lease_ttl = 2, wc_completion_retention = 1, wc_retry_delay = 1\<rparr>"
  have start: "within_limit ?h"
    using history_start [of 64 ?h] by (simp add: within_limit_def dispatch_start_def dispatcher_new_def)
  have bounded: "bounded_answers sample_shard_env" by (auto simp: bounded_answers_def sample_shard_env_def)
  obtain r where "shard_iteration ?config sample_shard_env (str ''0-0'', dh_dispatcher ?h) = Some r"
    by (cases "shard_iteration ?config sample_shard_env (str ''0-0'', dh_dispatcher ?h)")
      (auto simp: shard_iteration_def sample_shard_env_def read_step_def dispatch_is_full_def dispatcher_new_def
        split: if_split_asm)
  from shard_iteration_refines_dispatch [OF start bounded this] show ?thesis by blast
qed

end
