(* ===== verification/Valkey_Snapshots.thy ===== *)
theory Valkey_Snapshots
  imports Valkey_Laws
begin

text \<open>
  The published player snapshots in Valkey, \<open>crates/pepeaudio-storage/src/valkey/snapshots.rs\<close>: a
  body that may expire, beside a revision watermark that never goes back. The server, the JSON
  encodings and the collation Lua compares strings with are parameters.
\<close>

section \<open>Revisions as sortable keys\<close>

definition zero_padded :: "nat \<Rightarrow> nat \<Rightarrow> rstring" where
  "zero_padded width n = replicate (width - length (decimal_digits n)) 0x30 @ decimal_digits n"

definition revision_sort_key :: "state_revision \<Rightarrow> rstring" where
  "revision_sort_key revision = zero_padded 20 (unat (revision_get revision))"

definition parse_revision_sort_key :: "rstring \<Rightarrow> storage_error + state_revision" where
  "parse_revision_sort_key key =
     (if str_len key \<noteq> 20 \<or> \<not> list_all is_ascii_digit key
      then Inl (CorruptData ''player_snapshot_revision'' ''revision'')
      else (case from_str_radix 10 key of
              Some revision \<Rightarrow> Inr (StateRevision revision)
            | None \<Rightarrow> Inl (CorruptData ''player_snapshot_revision'' ''revision'')))"

text \<open>The order of texts by their bytes, which is that of their code points.\<close>

fun text_le :: "rstring \<Rightarrow> rstring \<Rightarrow> bool" where
  "text_le [] _ = True"
| "text_le (_ # _) [] = False"
| "text_le (a # as) (b # bs) = (a < b \<or> a = b \<and> text_le as bs)"

fun digits_value :: "rstring \<Rightarrow> nat" where
  "digits_value [] = 0"
| "digits_value (c # cs) = (c - 0x30) * 10 ^ length cs + digits_value cs"

lemma digits_value_append: "digits_value (xs @ ys) = digits_value xs * 10 ^ length ys + digits_value ys"
  by (induction xs) (simp_all add: power_add algebra_simps)

lemma digits_value_less: "list_all is_ascii_digit xs \<Longrightarrow> digits_value xs < 10 ^ length xs"
proof (induction xs)
  case (Cons c cs)
  then have "c - 0x30 \<le> 9" and tail: "digits_value cs < 10 ^ length cs" by (auto simp: is_ascii_digit_def)
  then have "(c - 0x30) * 10 ^ length cs \<le> 9 * 10 ^ length cs" by (intro mult_right_mono) auto
  then show ?case using tail by (simp only: digits_value.simps list.size power_Suc add_Suc_right add_0_right)
qed simp

lemma text_le_digits:
  assumes "list_all is_ascii_digit xs" and "list_all is_ascii_digit ys" and "length xs = length ys"
  shows "text_le xs ys \<longleftrightarrow> digits_value xs \<le> digits_value ys"
  using assms
proof (induction xs ys rule: text_le.induct)
  case (3 a as b bs)
  let ?n = "length bs"
  have sizes: "digits_value as < 10 ^ ?n" "digits_value bs < 10 ^ ?n"
    using "3.prems" digits_value_less [of as] digits_value_less [of bs] by simp_all
  have digits: "0x30 \<le> a" "0x30 \<le> b" using "3.prems" by (auto simp: is_ascii_digit_def)
  have below: "x * 10 ^ ?n + u < y * 10 ^ ?n + v" if "x < y" "u < 10 ^ ?n" for x y u v :: nat
  proof -
    have "Suc x * 10 ^ ?n \<le> y * 10 ^ ?n" using that(1) by (intro mult_right_mono) auto
    then show ?thesis using that(2) by simp
  qed
  consider "a < b" | "b < a" | "a = b" by linarith
  then show ?case
  proof cases
    case 1
    then have "digits_value (a # as) < digits_value (b # bs)"
      using below [of "a - 0x30" "b - 0x30" "digits_value as" "digits_value bs"] sizes digits "3.prems"(3) by simp
    then show ?thesis using 1 by simp
  next
    case 2
    then have "digits_value (b # bs) < digits_value (a # as)"
      using below [of "b - 0x30" "a - 0x30" "digits_value bs" "digits_value as"] sizes digits "3.prems"(3) by simp
    then show ?thesis using 2 by simp
  next
    case 3
    then show ?thesis using "3.IH" "3.prems" by auto
  qed
qed auto

lemma decimal_digits_value: "digits_value (decimal_digits n) = n"
proof (induction n rule: decimal_digits.induct)
  case (1 n)
  then show ?case by (cases "n < 10") (simp_all add: decimal_digits.simps [of n] digits_value_append)
qed

lemma length_decimal_digits: "n < 10 ^ k \<Longrightarrow> 0 < k \<Longrightarrow> length (decimal_digits n) \<le> k"
proof (induction n arbitrary: k rule: decimal_digits.induct)
  case (1 n)
  show ?case
  proof (cases "n < 10")
    case False
    then obtain m where k: "k = Suc m" using "1.prems" by (cases k) auto
    with False "1.prems" have "n div 10 < 10 ^ m" and "0 < m" by (cases m; auto)+
    then have "length (decimal_digits (n div 10)) \<le> m" by (rule "1.IH" [OF False])
    then show ?thesis using False k by (simp add: decimal_digits.simps [of n])
  qed (use "1.prems" in \<open>simp add: decimal_digits.simps [of n]\<close>)
qed

lemma revision_fits: "length (decimal_digits (unat (revision_get r))) \<le> 20"
  by (rule length_decimal_digits) (use unat_u64_bound [of "revision_get r"] in auto)

lemma sort_key_digits: "list_all is_ascii_digit (revision_sort_key r)"
  using decimal_digits_are_digits by (auto simp: revision_sort_key_def zero_padded_def list_all_iff is_ascii_digit_def)

lemma sort_key_length: "length (revision_sort_key r) = 20"
  using revision_fits [of r] by (simp add: revision_sort_key_def zero_padded_def)

lemma digits_value_zeros [simp]: "digits_value (replicate n 0x30) = 0"
  by (induction n) simp_all

lemma sort_key_value: "digits_value (revision_sort_key r) = unat (revision_get r)"
  by (simp add: revision_sort_key_def zero_padded_def digits_value_append decimal_digits_value)

lemma digits_str_len: "list_all is_ascii_digit xs \<Longrightarrow> str_len xs = length xs"
  by (induction xs) (auto simp: is_ascii_digit_def char_len_utf8_def)

lemma accumulate_zeros: "accumulate_digits 10 0 (replicate n 0x30 @ xs) = accumulate_digits 10 0 xs"
  by (induction n) (simp_all add: to_digit_def is_ascii_digit_def)

lemma parse_sort_key [simp]: "parse_revision_sort_key (revision_sort_key r) = Inr r"
proof -
  have "accumulate_digits 10 0 (revision_sort_key r) = Some (unat (revision_get r))"
    using accumulate_decimal_digits [OF unat_u64_bound [of "revision_get r"]]
    by (simp only: revision_sort_key_def zero_padded_def accumulate_zeros)
  moreover obtain c cs where "revision_sort_key r = c # cs" and "is_ascii_digit c"
    using sort_key_length [of r] sort_key_digits [of r] by (cases "revision_sort_key r") auto
  ultimately have "from_str_radix 10 (revision_sort_key r) = Some (revision_get r)"
    by (auto simp: from_str_radix_def is_ascii_digit_def)
  then show ?thesis
    using sort_key_digits [of r] by (simp add: parse_revision_sort_key_def digits_str_len sort_key_length)
qed

lemma sort_key_order: "text_le (revision_sort_key a) (revision_sort_key b) \<longleftrightarrow> a \<le> b"
  by (simp add: text_le_digits sort_key_digits sort_key_length sort_key_value less_eq_state_revision_def word_le_nat_alt)

lemma sort_key_inject: "revision_sort_key a = revision_sort_key b \<longleftrightarrow> a = b"
  by (metis parse_sort_key sum.inject(2))

section \<open>The store\<close>

datatype snapshot_write = SnapshotStored | SnapshotStale

record 's snapshot_store = "'s valkey_store" +
  ss_set :: "rstring \<Rightarrow> rstring \<Rightarrow> 's \<Rightarrow> 's"
  ss_strlen :: "'s \<Rightarrow> rstring \<Rightarrow> nat"
  ss_publish :: "rstring \<Rightarrow> rstring \<Rightarrow> 's \<Rightarrow> 's"
  ss_collate_le :: "rstring \<Rightarrow> rstring \<Rightarrow> bool"
  ss_encode :: "player_snapshot \<Rightarrow> rstring option"
  ss_decode :: "rstring \<Rightarrow> player_snapshot option"
  ss_encode_event :: "guild_id \<Rightarrow> state_revision \<Rightarrow> rstring option"

abbreviation body_key :: "('s, 'z) snapshot_store_scheme \<Rightarrow> guild_id \<Rightarrow> rstring" where
  "body_key ss \<equiv> snapshot_key (vs_keyspace ss)"

abbreviation watermark_key :: "('s, 'z) snapshot_store_scheme \<Rightarrow> guild_id \<Rightarrow> rstring" where
  "watermark_key ss \<equiv> snapshot_revision_key (vs_keyspace ss)"

text \<open>GET of a key that is not a string raises an error, which ends a script.\<close>

definition get_string :: "'s valkey \<Rightarrow> 's \<Rightarrow> rstring \<Rightarrow> rstring option option" where
  "get_string vk s key =
     (if vk_type vk s key = ''none'' \<or> vk_type vk s key = ''string'' then Some (vk_get vk s key) else None)"

definition put_snapshot_script ::
  "'s snapshot_store \<Rightarrow> rstring \<Rightarrow> rstring \<Rightarrow> rstring \<Rightarrow> rstring \<Rightarrow> rstring \<Rightarrow> nat \<Rightarrow> rstring \<Rightarrow> 's \<Rightarrow> int option \<times> 's" where
  "put_snapshot_script ss body watermark channel revision encoded ttl_ms event s =
     (case get_string (vs_server ss) s watermark of
        None \<Rightarrow> (None, s)
      | Some current \<Rightarrow>
          if (case current of None \<Rightarrow> False | Some stored \<Rightarrow> ss_collate_le ss revision stored) then (Some 0, s)
          else (Some 1, ss_publish ss channel event
                 (ss_set ss watermark revision (vk_set_px (vs_server ss) body encoded ttl_ms s))))"

definition get_snapshot_script :: "'s snapshot_store \<Rightarrow> rstring \<Rightarrow> nat \<Rightarrow> 's \<Rightarrow> nat \<times> rstring" where
  "get_snapshot_script ss key maximum s =
     (if vk_type (vs_server ss) s key = ''none'' then (0, [])
      else if vk_type (vs_server ss) s key \<noteq> ''string'' then (3, [])
      else if ss_strlen ss s key > maximum then (1, [])
      else (2, case vk_get (vs_server ss) s key of None \<Rightarrow> [] | Some encoded \<Rightarrow> encoded))"

definition snapshot_shape_error :: "player_snapshot_validation_error \<Rightarrow> storage_error" where
  "snapshot_shape_error e = CorruptData ''player_snapshot'' (map char_of (player_snapshot_validation_error_field e))"

definition decode_snapshot :: "'s snapshot_store \<Rightarrow> guild_id \<Rightarrow> rstring \<Rightarrow> storage_error + player_snapshot" where
  "decode_snapshot ss guild encoded =
     (if str_len encoded > MAX_PLAYER_SNAPSHOT_JSON_BYTES then Inl (CorruptData ''player_snapshot'' ''encoded_size'')
      else (case ss_decode ss encoded of
              None \<Rightarrow> Inl Json
            | Some snapshot \<Rightarrow>
                if ps_guild_id snapshot \<noteq> guild then Inl (CorruptData ''player_snapshot'' ''guild_id'')
                else (case validate_public_shape snapshot of
                        Inl e \<Rightarrow> Inl (snapshot_shape_error e)
                      | Inr _ \<Rightarrow> Inr snapshot)))"

definition get_snapshot ::
  "'s snapshot_store \<Rightarrow> request_fault \<Rightarrow> guild_id \<Rightarrow> 's \<Rightarrow> storage_error + player_snapshot option" where
  "get_snapshot ss f guild s =
     (case ask_server f (get_snapshot_script ss (body_key ss guild) MAX_PLAYER_SNAPSHOT_JSON_BYTES s) of
        Inl e \<Rightarrow> Inl e
      | Inr (status, encoded) \<Rightarrow>
          if status = 0 then Inr None
          else if status = 1 then Inl (CorruptData ''player_snapshot'' ''encoded_size'')
          else if status = 2 then map_sum id Some (decode_snapshot ss guild encoded)
          else if status = 3 then Inl (CorruptData ''player_snapshot'' ''key_type'')
          else Inl (CorruptData ''player_snapshot'' ''read_status''))"

definition get_snapshot_revision ::
  "'s snapshot_store \<Rightarrow> request_fault \<Rightarrow> guild_id \<Rightarrow> 's \<Rightarrow> storage_error + state_revision option" where
  "get_snapshot_revision ss f guild s =
     (case ask_server f (get_string (vs_server ss) s (watermark_key ss guild)) of
        Inl e \<Rightarrow> Inl e
      | Inr None \<Rightarrow> Inl Valkey
      | Inr (Some None) \<Rightarrow> Inr None
      | Inr (Some (Some encoded)) \<Rightarrow> map_sum id Some (parse_revision_sort_key encoded))"

definition invalidate_snapshot ::
  "'s snapshot_store \<Rightarrow> request_fault \<Rightarrow> guild_id \<Rightarrow> 's \<Rightarrow> (storage_error + unit) \<times> 's" where
  "invalidate_snapshot ss f guild s =
     answer (\<lambda>_. Inr ()) (invoke f (vk_del (vs_server ss) (body_key ss guild)) s)"

definition put_snapshot_if_newer ::
  "'s snapshot_store \<Rightarrow> request_fault \<Rightarrow> player_snapshot \<Rightarrow> nat \<Rightarrow> 's \<Rightarrow> (storage_error + snapshot_write) \<times> 's" where
  "put_snapshot_if_newer ss f snapshot ttl s =
     (case duration_millis ttl ''snapshot TTL'' of
        Inl e \<Rightarrow> (Inl e, s)
      | Inr ttl_ms \<Rightarrow>
      (case validate_public_shape snapshot of
        Inl e \<Rightarrow> (Inl (snapshot_shape_error e), s)
      | Inr _ \<Rightarrow>
      (case ss_encode ss snapshot of
        None \<Rightarrow> (Inl Json, s)
      | Some encoded \<Rightarrow>
          if str_len encoded > MAX_PLAYER_SNAPSHOT_JSON_BYTES then (Inl (StorageCapacityExceeded ''player snapshot''), s)
          else (case ss_encode_event ss (ps_guild_id snapshot) (ps_revision snapshot) of
                  None \<Rightarrow> (Inl Json, s)
                | Some event \<Rightarrow>
                    answer (\<lambda>stored. case stored of None \<Rightarrow> Inl Valkey
                                     | Some n \<Rightarrow> Inr (if n = 1 then SnapshotStored else SnapshotStale))
                      (invoke f (put_snapshot_script ss (body_key ss (ps_guild_id snapshot))
                                   (watermark_key ss (ps_guild_id snapshot))
                                   (snapshot_event_key (vs_keyspace ss) (ps_guild_id snapshot))
                                   (revision_sort_key (ps_revision snapshot)) encoded ttl_ms event) s)))))"

section \<open>Documented behaviour\<close>

text \<open>Beside the laws of the command side: SET without expiry, PUBLISH, the type and the length of
  strings; texts of twenty digits compare by their characters in any collation; decoding undoes
  encoding.\<close>

definition snapshot_laws :: "'s snapshot_store \<Rightarrow> bool" where
  "snapshot_laws ss \<longleftrightarrow> valkey_laws (vs_server ss) \<and>
     (\<forall>s k v k'. vk_get (vs_server ss) (ss_set ss k v s) k' = (if k' = k then Some v else vk_get (vs_server ss) s k')) \<and>
     (\<forall>s c e k. vk_get (vs_server ss) (ss_publish ss c e s) k = vk_get (vs_server ss) s k) \<and>
     (\<forall>s k. vk_type (vs_server ss) s k = ''string'' \<longleftrightarrow> vk_get (vs_server ss) s k \<noteq> None) \<and>
     (\<forall>s k t. vk_get (vs_server ss) s k = Some t \<longrightarrow> ss_strlen ss s k = str_len t) \<and>
     (\<forall>a b. length a = 20 \<and> length b = 20 \<and> list_all is_ascii_digit a \<and> list_all is_ascii_digit b \<longrightarrow>
        ss_collate_le ss a b = text_le a b) \<and>
     (\<forall>p t. ss_encode ss p = Some t \<longrightarrow> ss_decode ss t = Some p)"

lemma snapshot_laws_simps:
  assumes "snapshot_laws ss"
  shows "valkey_laws (vs_server ss)"
    and "vk_get (vs_server ss) (ss_set ss k v s) k' = (if k' = k then Some v else vk_get (vs_server ss) s k')"
    and "vk_get (vs_server ss) (ss_publish ss c e s) k = vk_get (vs_server ss) s k"
    and "vk_type (vs_server ss) s k = ''string'' \<longleftrightarrow> vk_get (vs_server ss) s k \<noteq> None"
    and "vk_get (vs_server ss) s k = Some t \<Longrightarrow> ss_strlen ss s k = str_len t"
    and "ss_collate_le ss (revision_sort_key a) (revision_sort_key b) \<longleftrightarrow> a \<le> b"
    and "ss_encode ss p = Some t \<Longrightarrow> ss_decode ss t = Some p"
  using assms
  by (simp_all add: snapshot_laws_def sort_key_length sort_key_digits sort_key_order)

section \<open>The keys of the snapshots\<close>

lemma snapshot_keys [simp]:
  "snapshot_key ks g = snapshot_key ks g' \<longleftrightarrow> g = g'"
  "snapshot_revision_key ks g = snapshot_revision_key ks g' \<longleftrightarrow> g = g'"
  "snapshot_key ks g \<noteq> snapshot_revision_key ks g'" "snapshot_revision_key ks g' \<noteq> snapshot_key ks g"
  by (auto simp: snapshot_key_def snapshot_revision_key_def guild_text_colon snowflake_display_inject guild_id.expand)

lemma snapshot_other_keys [simp]:
  "snapshot_key ks g \<noteq> command_result_key ks u g' c" "snapshot_key ks g \<noteq> dedupe_key ks u g' c"
  "snapshot_key ks g \<noteq> actor_rate_key ks g' a" "snapshot_key ks g \<noteq> guild_rate_key ks g'"
  "snapshot_key ks g \<noteq> command_stream_key ks sh" "snapshot_key ks g \<noteq> bot_presence_key ks g'"
  "snapshot_revision_key ks g \<noteq> command_result_key ks u g' c" "snapshot_revision_key ks g \<noteq> dedupe_key ks u g' c"
  "snapshot_revision_key ks g \<noteq> actor_rate_key ks g' a" "snapshot_revision_key ks g \<noteq> guild_rate_key ks g'"
  "snapshot_revision_key ks g \<noteq> command_stream_key ks sh" "snapshot_revision_key ks g \<noteq> bot_presence_key ks g'"
  by (simp_all add: snapshot_key_def snapshot_revision_key_def command_result_key_def actor_rate_key_def
      guild_rate_key_def command_stream_key_def bot_presence_key_def dedupe_key_def)

lemmas snapshot_other_keys_sym [simp] = snapshot_other_keys [THEN not_sym]

section \<open>What requests leave\<close>

text \<open>A put that reaches the server with a revision above the watermark.\<close>

definition encoded_of :: "'s snapshot_store \<Rightarrow> player_snapshot \<Rightarrow> nat \<Rightarrow> rstring option" where
  "encoded_of ss p ttl =
     (if isl (duration_millis ttl ''snapshot TTL'') \<or> \<not> public_shape p \<or> ss_encode_event ss (ps_guild_id p) (ps_revision p) = None
      then None
      else (case ss_encode ss p of None \<Rightarrow> None
            | Some t \<Rightarrow> if str_len t \<le> MAX_PLAYER_SNAPSHOT_JSON_BYTES then Some t else None))"

definition newer :: "'s snapshot_store \<Rightarrow> player_snapshot \<Rightarrow> 's \<Rightarrow> bool" where
  "newer ss p s \<longleftrightarrow>
     (case get_string (vs_server ss) s (watermark_key ss (ps_guild_id p)) of
        None \<Rightarrow> False
      | Some None \<Rightarrow> True
      | Some (Some stored) \<Rightarrow> \<not> ss_collate_le ss (revision_sort_key (ps_revision p)) stored)"

lemma shape_cases: "validate_public_shape p = Inr u \<longleftrightarrow> public_shape p" "validate_public_shape p = Inl e \<Longrightarrow> \<not> public_shape p"
  by (metis validate_public_shape_ok old.unit.exhaust) (metis validate_public_shape_ok sum.distinct(1))

lemma get_put:
  assumes "snapshot_laws ss"
  shows "vk_get (vs_server ss) (snd (put_snapshot_if_newer ss f p ttl s)) key =
    (case encoded_of ss p ttl of
       None \<Rightarrow> vk_get (vs_server ss) s key
     | Some t \<Rightarrow>
         if f = LostBefore \<or> \<not> newer ss p s then vk_get (vs_server ss) s key
         else if key = watermark_key ss (ps_guild_id p) then Some (revision_sort_key (ps_revision p))
         else if key = body_key ss (ps_guild_id p) then Some t
         else vk_get (vs_server ss) s key)"
proof -
  note laws = laws_get(1) [OF snapshot_laws_simps(1) [OF assms]] snapshot_laws_simps(2,3) [OF assms]
  show ?thesis
    using duration_millis_pos shape_cases
    by (auto simp: put_snapshot_if_newer_def encoded_of_def newer_def snd_invoke put_snapshot_script_def laws
        split: sum.split option.split)
qed

lemma put_answer:
  assumes "snapshot_laws ss" and "fst (put_snapshot_if_newer ss f p ttl s) = Inr w"
  shows "\<exists>t. encoded_of ss p ttl = Some t" and "f = NoFault"
    and "get_string (vs_server ss) s (watermark_key ss (ps_guild_id p)) \<noteq> None"
  using assms(2) shape_cases
  by (auto simp: put_snapshot_if_newer_def encoded_of_def answer_def invoke_def put_snapshot_script_def
      split: sum.split_asm option.split_asm request_fault.split_asm if_split_asm prod.split_asm)

lemma get_invalidate:
  assumes "snapshot_laws ss"
  shows "vk_get (vs_server ss) (snd (invalidate_snapshot ss f g s)) key =
    (if f \<noteq> LostBefore \<and> key = body_key ss g then None else vk_get (vs_server ss) s key)"
  using laws_get(2) [OF snapshot_laws_simps(1) [OF assms]]
  by (auto simp: invalidate_snapshot_def snd_invoke)

section \<open>Snapshots never go back\<close>

text \<open>The requests of any client; a body may also expire.\<close>

datatype snapshot_call =
  PutSnapshot player_snapshot nat
  | InvalidateSnapshot guild_id
  | BodyExpires guild_id
  | OtherCall store_call

fun run_snapshot_call :: "'s snapshot_store \<Rightarrow> request_fault \<Rightarrow> snapshot_call \<Rightarrow> 's \<Rightarrow> 's" where
  "run_snapshot_call ss f (PutSnapshot p ttl) s = snd (put_snapshot_if_newer ss f p ttl s)"
| "run_snapshot_call ss f (InvalidateSnapshot g) s = snd (invalidate_snapshot ss f g s)"
| "run_snapshot_call ss f (BodyExpires g) s = snd (vk_del (vs_server ss) (body_key ss g) s)"
| "run_snapshot_call ss f (OtherCall c) s = run_call (valkey_store.truncate ss) f c s"

fun run_snapshot_calls :: "'s snapshot_store \<Rightarrow> (request_fault \<times> snapshot_call) list \<Rightarrow> 's \<Rightarrow> 's" where
  "run_snapshot_calls ss [] s = s"
| "run_snapshot_calls ss ((f, c) # cs) s = run_snapshot_calls ss cs (run_snapshot_call ss f c s)"

lemma truncate_fields [simp]:
  "vs_server (valkey_store.truncate ss) = vs_server ss" "vs_codec (valkey_store.truncate ss) = vs_codec ss"
  "vs_keyspace (valkey_store.truncate ss) = vs_keyspace ss"
  by (simp_all add: valkey_store.truncate_def)

lemma other_calls_keep:
  assumes "valkey_laws (vs_server ss)" and "key = body_key ss g \<or> key = watermark_key ss g"
  shows "vk_get (vs_server ss) (run_call (valkey_store.truncate ss) f c s) key = vk_get (vs_server ss) s key"
proof -
  let ?vs = "valkey_store.truncate ss"
  have laws: "valkey_laws (vs_server ?vs)" using assms(1) by simp
  have enqueue: "vk_get (vs_server ?vs) (snd (enqueue_command ?vs f e shards retention s)) key = vk_get (vs_server ?vs) s key"
    for e shards retention
    by (rule get_enqueue [OF laws]) (use assms(2) in auto)
  show ?thesis
    using assms(2) enqueue get_claim [OF laws] get_complete [OF laws] get_release [OF laws] get_store_result [OF laws]
      get_complete_command [OF laws] get_acknowledge [OF laws] get_presence [OF laws]
    by (cases c) auto
qed

definition stored_revision :: "'s snapshot_store \<Rightarrow> guild_id \<Rightarrow> 's \<Rightarrow> state_revision option" where
  "stored_revision ss g s =
     (case vk_get (vs_server ss) s (watermark_key ss g) of
        None \<Rightarrow> None
      | Some t \<Rightarrow> (case parse_revision_sort_key t of Inl _ \<Rightarrow> None | Inr r \<Rightarrow> Some r))"

text \<open>Watermark and body belong together: the watermark is a revision, the body a valid snapshot of
  this guild at that revision.\<close>

definition snapshot_consistent :: "'s snapshot_store \<Rightarrow> guild_id \<Rightarrow> 's \<Rightarrow> bool" where
  "snapshot_consistent ss g s \<longleftrightarrow>
     (case vk_get (vs_server ss) s (watermark_key ss g) of
        None \<Rightarrow> vk_get (vs_server ss) s (body_key ss g) = None
      | Some t \<Rightarrow> \<exists>r. t = revision_sort_key r \<and>
          (\<forall>b. vk_get (vs_server ss) s (body_key ss g) = Some b \<longrightarrow>
             str_len b \<le> MAX_PLAYER_SNAPSHOT_JSON_BYTES \<and>
             (\<exists>p. ss_decode ss b = Some p \<and> ps_guild_id p = g \<and> ps_revision p = r \<and> public_shape p)))"

definition stored_at_least :: "'s snapshot_store \<Rightarrow> guild_id \<Rightarrow> state_revision \<Rightarrow> 's \<Rightarrow> bool" where
  "stored_at_least ss g r s \<longleftrightarrow> (\<exists>r'. stored_revision ss g s = Some r' \<and> r \<le> r')"

lemma same_watermark:
  assumes "vk_get (vs_server ss) t (watermark_key ss g) = vk_get (vs_server ss) s (watermark_key ss g)"
  shows "stored_revision ss g t = stored_revision ss g s"
  using assms by (simp add: stored_revision_def)

lemma consistent_kept:
  assumes "snapshot_consistent ss g s"
    and "vk_get (vs_server ss) t (watermark_key ss g) = vk_get (vs_server ss) s (watermark_key ss g)"
    and "vk_get (vs_server ss) t (body_key ss g) = vk_get (vs_server ss) s (body_key ss g) \<or>
      vk_get (vs_server ss) t (body_key ss g) = None"
  shows "snapshot_consistent ss g t \<and> (\<forall>r. stored_revision ss g s = Some r \<longrightarrow> stored_at_least ss g r t)"
  using assms(1,3) same_watermark [OF assms(2)]
  by (auto simp: snapshot_consistent_def stored_at_least_def assms(2) split: option.split_asm option.split)

lemma stored_revision_key:
  "vk_get (vs_server ss) s (watermark_key ss g) = Some (revision_sort_key r) \<Longrightarrow> stored_revision ss g s = Some r"
  by (simp add: stored_revision_def)

lemma consistent_stored:
  "snapshot_consistent ss g s \<Longrightarrow> stored_revision ss g s = Some r \<longleftrightarrow>
     vk_get (vs_server ss) s (watermark_key ss g) = Some (revision_sort_key r)"
  by (auto simp: snapshot_consistent_def stored_revision_def split: option.split_asm)

lemma newer_consistent:
  assumes "snapshot_laws ss" and "snapshot_consistent ss g s" and "ps_guild_id p = g" and "newer ss p s"
    and "stored_revision ss g s = Some r"
  shows "r < ps_revision p"
  using assms(4) assms(5) [unfolded consistent_stored [OF assms(2)]] snapshot_laws_simps(6) [OF assms(1)]
  by (auto simp: newer_def get_string_def assms(3) split: if_split_asm)

lemma stale_consistent:
  assumes "snapshot_laws ss" and "snapshot_consistent ss g s" and "ps_guild_id p = g" and "\<not> newer ss p s"
    and "get_string (vs_server ss) s (watermark_key ss g) \<noteq> None"
  shows "stored_at_least ss g (ps_revision p) s"
proof -
  have "vk_get (vs_server ss) s (watermark_key ss g) \<noteq> None" and
    old: "\<And>t. vk_get (vs_server ss) s (watermark_key ss g) = Some t \<Longrightarrow> ss_collate_le ss (revision_sort_key (ps_revision p)) t"
    using assms(4,5) by (auto simp: newer_def get_string_def assms(3) split: option.split_asm if_split_asm)
  then obtain r where "vk_get (vs_server ss) s (watermark_key ss g) = Some (revision_sort_key r)"
    using assms(2) by (auto simp: snapshot_consistent_def split: option.split_asm)
  with old show ?thesis
    by (auto simp: stored_at_least_def stored_revision_key snapshot_laws_simps(6) [OF assms(1)])
qed

lemma encoded_valid:
  assumes "snapshot_laws ss" and "encoded_of ss p ttl = Some t"
  shows "public_shape p" and "str_len t \<le> MAX_PLAYER_SNAPSHOT_JSON_BYTES" and "ss_decode ss t = Some p"
  using assms(2) snapshot_laws_simps(7) [OF assms(1)]
  by (auto simp: encoded_of_def split: if_split_asm option.split_asm)

text \<open>One request keeps watermark and body together and never lowers the watermark.\<close>

lemma put_consistent:
  assumes "snapshot_laws ss" and "snapshot_consistent ss g s"
  shows "snapshot_consistent ss g (snd (put_snapshot_if_newer ss f p ttl s)) \<and>
    (\<forall>r. stored_revision ss g s = Some r \<longrightarrow> stored_at_least ss g r (snd (put_snapshot_if_newer ss f p ttl s)))"
proof (cases "encoded_of ss p ttl \<noteq> None \<and> f \<noteq> LostBefore \<and> newer ss p s \<and> ps_guild_id p = g")
  case True
  then obtain t where t: "encoded_of ss p ttl = Some t" and p: "f \<noteq> LostBefore" "newer ss p s" "ps_guild_id p = g" by auto
  let ?s = "snd (put_snapshot_if_newer ss f p ttl s)"
  have now: "vk_get (vs_server ss) ?s (watermark_key ss g) = Some (revision_sort_key (ps_revision p))"
      "vk_get (vs_server ss) ?s (body_key ss g) = Some t"
    using p by (simp_all add: get_put [OF assms(1)] t)
  then have "snapshot_consistent ss g ?s"
    using encoded_valid [OF assms(1) t] p(3) by (auto simp: snapshot_consistent_def)
  moreover have "stored_at_least ss g r ?s" if "stored_revision ss g s = Some r" for r
    using newer_consistent [OF assms p(3,2) that] stored_revision_key [OF now(1)] by (auto simp: stored_at_least_def)
  ultimately show ?thesis by blast
next
  case False
  then have "vk_get (vs_server ss) (snd (put_snapshot_if_newer ss f p ttl s)) key = vk_get (vs_server ss) s key"
    if "key = body_key ss g \<or> key = watermark_key ss g" for key
    using that by (auto simp: get_put [OF assms(1)] split: option.split)
  then show ?thesis using consistent_kept [OF assms(2)] by blast
qed

lemma call_consistent:
  assumes "snapshot_laws ss" and "snapshot_consistent ss g s"
  shows "snapshot_consistent ss g (run_snapshot_call ss f c s) \<and>
    (\<forall>r. stored_revision ss g s = Some r \<longrightarrow> stored_at_least ss g r (run_snapshot_call ss f c s))"
proof (cases c)
  case (PutSnapshot p ttl)
  then show ?thesis using put_consistent [OF assms] by simp
next
  case (InvalidateSnapshot g')
  then show ?thesis
    by (intro consistent_kept [OF assms(2)]) (auto simp: get_invalidate [OF assms(1)])
next
  case (BodyExpires g')
  then show ?thesis
    by (intro consistent_kept [OF assms(2)]) (auto simp: laws_get(2) [OF snapshot_laws_simps(1) [OF assms(1)]])
next
  case (OtherCall call)
  then show ?thesis
    by (intro consistent_kept [OF assms(2)])
      (auto simp: other_calls_keep [OF snapshot_laws_simps(1) [OF assms(1)]])
qed

lemma calls_consistent:
  assumes "snapshot_laws ss"
  shows "snapshot_consistent ss g s \<Longrightarrow> snapshot_consistent ss g (run_snapshot_calls ss calls s) \<and>
    (\<forall>r. stored_at_least ss g r s \<longrightarrow> stored_at_least ss g r (run_snapshot_calls ss calls s))"
proof (induction calls arbitrary: s)
  case (Cons call calls)
  obtain f c where call: "call = (f, c)" by (rule prod.exhaust)
  have step: "stored_at_least ss g r s \<Longrightarrow> stored_at_least ss g r (run_snapshot_call ss f c s)" for r
    using call_consistent [OF assms Cons.prems, of f c] by (auto simp: stored_at_least_def intro: order_trans)
  show ?case
    using Cons.IH [of "run_snapshot_call ss f c s"] call_consistent [OF assms Cons.prems, of f c] step call by auto
qed simp

lemma put_accounts:
  assumes "snapshot_laws ss" and "snapshot_consistent ss g s" and "ps_guild_id p = g"
    and "fst (put_snapshot_if_newer ss f p ttl s) = Inr w"
  shows "stored_at_least ss g (ps_revision p) (snd (put_snapshot_if_newer ss f p ttl s))"
proof -
  obtain t where t: "encoded_of ss p ttl = Some t" using put_answer(1) [OF assms(1,4)] by blast
  note ok = put_answer(2,3) [OF assms(1,4)]
  show ?thesis
  proof (cases "newer ss p s")
    case True
    then have "vk_get (vs_server ss) (snd (put_snapshot_if_newer ss f p ttl s)) (watermark_key ss g) =
        Some (revision_sort_key (ps_revision p))"
      using assms(3) ok(1) by (auto simp: get_put [OF assms(1)] t)
    then show ?thesis by (simp add: stored_at_least_def stored_revision_key)
  next
    case False
    then have "stored_at_least ss g (ps_revision p) s"
      using stale_consistent [OF assms(1-3)] ok(2) assms(3) by simp
    then obtain r where r: "stored_revision ss g s = Some r" "ps_revision p \<le> r" by (auto simp: stored_at_least_def)
    then have "stored_at_least ss g r (snd (put_snapshot_if_newer ss f p ttl s))" using put_consistent [OF assms(1,2)] by blast
    then show ?thesis using r(2) by (auto simp: stored_at_least_def intro: order_trans)
  qed
qed

lemma get_snapshot_Some:
  assumes "snapshot_laws ss" and "get_snapshot ss f g s = Inr (Some q)"
  shows "\<exists>b. vk_get (vs_server ss) s (body_key ss g) = Some b \<and> decode_snapshot ss g b = Inr q"
  using assms(2) snapshot_laws_simps(4) [OF assms(1), of s "body_key ss g"]
  by (auto simp: get_snapshot_def ask_server_def get_snapshot_script_def map_sum_def split: if_split_asm sum.split_asm)

lemma decode_snapshot_ok:
  assumes "decode_snapshot ss g b = Inr q"
  shows "ss_decode ss b = Some q \<and> ps_guild_id q = g \<and> public_shape q"
proof -
  obtain p where p: "ss_decode ss b = Some p" and "ps_guild_id p = g"
    and "(case validate_public_shape p of Inl e \<Rightarrow> Inl (snapshot_shape_error e) | Inr _ \<Rightarrow> Inr p) = (Inr q :: storage_error + _)"
    using assms by (auto simp: decode_snapshot_def split: if_split_asm option.split_asm)
  then show ?thesis using shape_cases [of p] by (auto split: sum.split_asm)
qed

text \<open>C24: Whatever the clients request and whenever bodies expire, the revision watermark of a guild
  never goes back, a put that is answered has it cover the revision it offered, and a reader gets
  nothing or a valid snapshot of this guild at exactly the watermark's revision.\<close>

theorem snapshots_never_go_back:
  assumes "snapshot_laws ss" and "snapshot_consistent ss g s"
    and "fst (put_snapshot_if_newer ss f p ttl s) = Inr w" and "ps_guild_id p = g"
  shows "let t = run_snapshot_calls ss calls (snd (put_snapshot_if_newer ss f p ttl s))
    in (\<exists>r. get_snapshot_revision ss NoFault g t = Inr (Some r) \<and> ps_revision p \<le> r \<and>
         (\<forall>r0. stored_revision ss g s = Some r0 \<longrightarrow> r0 \<le> r) \<and>
         (\<forall>q. get_snapshot ss NoFault g t = Inr (Some q) \<longrightarrow> ps_revision q = r \<and> ps_guild_id q = g \<and> public_shape q))"
proof -
  let ?s = "snd (put_snapshot_if_newer ss f p ttl s)"
  let ?t = "run_snapshot_calls ss calls ?s"
  have put: "snapshot_consistent ss g ?s" and kept: "\<And>r. stored_revision ss g s = Some r \<Longrightarrow> stored_at_least ss g r ?s"
    using put_consistent [OF assms(1,2)] by auto
  have cons: "snapshot_consistent ss g ?t" and more: "\<And>r. stored_at_least ss g r ?s \<Longrightarrow> stored_at_least ss g r ?t"
    using calls_consistent [OF assms(1) put] by auto
  have "stored_at_least ss g (ps_revision p) ?t" using put_accounts [OF assms(1,2,4,3)] by (rule more)
  then obtain r where r: "stored_revision ss g ?t = Some r" "ps_revision p \<le> r" by (auto simp: stored_at_least_def)
  then have key: "vk_get (vs_server ss) ?t (watermark_key ss g) = Some (revision_sort_key r)"
    by (simp add: consistent_stored [OF cons])
  then have "get_snapshot_revision ss NoFault g ?t = Inr (Some r)"
    using snapshot_laws_simps(4) [OF assms(1), of ?t "watermark_key ss g"]
    by (simp add: get_snapshot_revision_def ask_server_def get_string_def)
  moreover have "r0 \<le> r" if "stored_revision ss g s = Some r0" for r0
    using more [OF kept [OF that]] r(1) by (auto simp: stored_at_least_def)
  moreover have "ps_revision q = r \<and> ps_guild_id q = g \<and> public_shape q" if got: "get_snapshot ss NoFault g ?t = Inr (Some q)" for q
  proof -
    obtain b where b: "vk_get (vs_server ss) ?t (body_key ss g) = Some b" "decode_snapshot ss g b = Inr q"
      using get_snapshot_Some [OF assms(1) got] by blast
    note q = decode_snapshot_ok [OF b(2)]
    then show ?thesis using cons key b(1) by (simp add: snapshot_consistent_def sort_key_inject)
  qed
  ultimately show ?thesis using r(2) by (auto simp: Let_def)
qed

end
