(* ===== verification/Snapshot_Worker.thy ===== *)
theory Snapshot_Worker
  imports Valkey_Snapshots
begin

text \<open>
  The publication of player snapshots, \<open>crates/pepeaudio-runtime/src/snapshot_worker.rs\<close> and
  \<open>snapshot_publisher.rs\<close>: one worker per guild behind a mailbox of one snapshot where the newest
  wins, retries with growing delays, and a final write at shutdown. A poll of a worker is one step;
  what has completed when it happens (a write, a timeout, a delay) comes with the step.
\<close>

section \<open>A worker\<close>

record snapshot_worker_settings =
  initial_backoff :: nat
  maximum_backoff :: nat
  write_timeout :: nat

definition snapshot_worker_settings_default :: snapshot_worker_settings where
  "snapshot_worker_settings_default =
     \<lparr>initial_backoff = 100 * 10 ^ 6, maximum_backoff = 30 * 10 ^ 9, write_timeout = 10 * 10 ^ 9\<rparr>"

datatype snapshot_worker_error = FinalWriteFailed | FinalWriteTimedOut

text \<open>Where the task is suspended: in \<open>wait_for_new_snapshot\<close>, at the write of the loop, in
  \<open>wait_for_retry\<close>, at the write of \<open>flush_on_shutdown\<close>.\<close>

datatype worker_phase =
  Waiting | Writing player_snapshot | Retrying player_snapshot | Flushing player_snapshot
  | Finished "snapshot_worker_error option"

text \<open>The watch channel: its value, whether the receiver has seen it, whether all senders are gone.\<close>

record mailbox =
  mb_latest :: "player_snapshot option"
  mb_unseen :: bool
  mb_closed :: bool

record snapshot_worker =
  sw_mailbox :: mailbox
  sw_phase :: worker_phase
  sw_confirmed :: "state_revision option"
  sw_backoff :: nat

definition is_confirmed :: "state_revision \<Rightarrow> state_revision option \<Rightarrow> bool" where
  "is_confirmed revision confirmed = is_some_and (\<lambda>confirmed_one. revision \<le> confirmed_one) confirmed"

text \<open>\<open>borrow_and_update\<close>.\<close>

definition seen :: "mailbox \<Rightarrow> mailbox" where
  "seen mb = mb\<lparr>mb_unseen := False\<rparr>"

definition latest_newer :: "mailbox \<Rightarrow> state_revision option \<Rightarrow> player_snapshot option" where
  "latest_newer mb confirmed =
     (case mb_latest mb of
        None \<Rightarrow> None
      | Some snapshot \<Rightarrow> if is_confirmed (ps_revision snapshot) confirmed then None else Some snapshot)"

text \<open>\<open>flush_on_shutdown\<close> up to its write.\<close>

definition flush_on_shutdown :: "bool \<Rightarrow> snapshot_worker \<Rightarrow> snapshot_worker" where
  "flush_on_shutdown shutdown w =
     (if \<not> shutdown then w\<lparr>sw_phase := Finished None\<rparr>
      else (let w' = w\<lparr>sw_mailbox := seen (sw_mailbox w)\<rparr>
            in case latest_newer (sw_mailbox w) (sw_confirmed w) of
                 None \<Rightarrow> w'\<lparr>sw_phase := Finished None\<rparr>
               | Some snapshot \<Rightarrow> w'\<lparr>sw_phase := Flushing snapshot\<rparr>))"

text \<open>The head of the loop with a snapshot at hand.\<close>

definition take_up :: "player_snapshot \<Rightarrow> snapshot_worker \<Rightarrow> snapshot_worker" where
  "take_up snapshot w =
     w\<lparr>sw_phase := if is_confirmed (ps_revision snapshot) (sw_confirmed w) then Waiting else Writing snapshot\<rparr>"

text \<open>A poll of \<open>wait_for_new_snapshot\<close>: the shutdown goes first.\<close>

definition wait_for_new_snapshot :: "bool \<Rightarrow> snapshot_worker \<Rightarrow> snapshot_worker" where
  "wait_for_new_snapshot shutdown w =
     (if shutdown then flush_on_shutdown shutdown w
      else if mb_unseen (sw_mailbox w)
      then (let w' = w\<lparr>sw_mailbox := seen (sw_mailbox w)\<rparr>
            in case mb_latest (sw_mailbox w) of
                 None \<Rightarrow> w'\<lparr>sw_phase := Waiting\<rparr>
               | Some snapshot \<Rightarrow> take_up snapshot w')
      else if mb_closed (sw_mailbox w) then flush_on_shutdown shutdown w
      else w\<lparr>sw_phase := Waiting\<rparr>)"

text \<open>What came of a write: \<open>None\<close> is the timeout.\<close>

definition after_write ::
  "snapshot_worker_settings \<Rightarrow> bool \<Rightarrow> player_snapshot \<Rightarrow> (storage_error + snapshot_write) option \<Rightarrow>
     snapshot_worker \<Rightarrow> snapshot_worker" where
  "after_write settings shutdown snapshot result w =
     (case result of
        Some (Inr _) \<Rightarrow>
          (let w' = w\<lparr>sw_confirmed := Some (ps_revision snapshot), sw_backoff := initial_backoff settings,
                      sw_mailbox := seen (sw_mailbox w)\<rparr>
           in case latest_newer (sw_mailbox w') (sw_confirmed w') of
                Some latest \<Rightarrow> take_up latest w'
              | None \<Rightarrow> wait_for_new_snapshot shutdown w')
      | _ \<Rightarrow> w\<lparr>sw_phase := Retrying snapshot\<rparr>)"

definition after_final_write :: "(storage_error + snapshot_write) option \<Rightarrow> snapshot_worker_error option" where
  "after_final_write result =
     (case result of
        None \<Rightarrow> Some FinalWriteTimedOut
      | Some (Inl _) \<Rightarrow> Some FinalWriteFailed
      | Some (Inr _) \<Rightarrow> None)"

text \<open>A poll of \<open>wait_for_retry\<close> and what follows it.\<close>

definition snapshot_wait_for_retry :: "snapshot_worker_settings \<Rightarrow> bool \<Rightarrow> bool \<Rightarrow> player_snapshot \<Rightarrow> snapshot_worker \<Rightarrow> snapshot_worker" where
  "snapshot_wait_for_retry settings shutdown elapsed snapshot w =
     (if shutdown then flush_on_shutdown shutdown w
      else if elapsed
      then take_up (case mb_latest (sw_mailbox w) of Some latest \<Rightarrow> latest | None \<Rightarrow> snapshot)
             (w\<lparr>sw_mailbox := seen (sw_mailbox w),
                sw_backoff := min (sw_backoff w * 2) (maximum_backoff settings)\<rparr>)
      else if mb_unseen (sw_mailbox w) then w\<lparr>sw_mailbox := seen (sw_mailbox w)\<rparr>
      else if mb_closed (sw_mailbox w) then flush_on_shutdown shutdown w
      else w)"

text \<open>What has completed when the worker is polled. A write that timed out may have reached the server.\<close>

datatype completion = Nothing | WriteEnded request_fault | WriteTimedOut request_fault | DelayElapsed

definition store_write_outcome ::
  "'s snapshot_store \<Rightarrow> nat \<Rightarrow> completion \<Rightarrow> player_snapshot \<Rightarrow> 's \<Rightarrow>
     (storage_error + snapshot_write) option option \<times> 's" where
  "store_write_outcome ss ttl done_now snapshot s =
     (case done_now of
        WriteEnded f \<Rightarrow> (case put_snapshot_if_newer ss f snapshot ttl s of (r, t) \<Rightarrow> (Some (Some r), t))
      | WriteTimedOut f \<Rightarrow> (Some None, snd (put_snapshot_if_newer ss f snapshot ttl s))
      | _ \<Rightarrow> (None, s))"

definition poll_worker ::
  "'s snapshot_store \<Rightarrow> nat \<Rightarrow> snapshot_worker_settings \<Rightarrow> bool \<Rightarrow> completion \<Rightarrow> snapshot_worker \<Rightarrow> 's \<Rightarrow>
     snapshot_worker \<times> 's" where
  "poll_worker ss ttl settings shutdown done_now w s =
     (case sw_phase w of
        Waiting \<Rightarrow> (wait_for_new_snapshot shutdown w, s)
      | Writing snapshot \<Rightarrow>
          (case store_write_outcome ss ttl done_now snapshot s of (outcome, t) \<Rightarrow>
             if shutdown then (flush_on_shutdown shutdown w, t)
             else (case outcome of
                     None \<Rightarrow> (w, t)
                   | Some result \<Rightarrow> (after_write settings shutdown snapshot result w, t)))
      | Retrying snapshot \<Rightarrow> (snapshot_wait_for_retry settings shutdown (done_now = DelayElapsed) snapshot w, s)
      | Flushing snapshot \<Rightarrow>
          (case store_write_outcome ss ttl done_now snapshot s of (outcome, t) \<Rightarrow>
             (case outcome of
                None \<Rightarrow> (w, t)
              | Some result \<Rightarrow> (w\<lparr>sw_phase := Finished (after_final_write result)\<rparr>, t)))
      | Finished _ \<Rightarrow> (w, s))"

section \<open>The supervisor\<close>

datatype snapshot_publish_error = PublishGuildMismatch | PublishSupervisorClosed

datatype snapshot_supervisor_error = InvalidTtl | WorkerPanicked | FinalFlushFailed | FinalFlushTimedOut

text \<open>\<open>sp_drained\<close>: the shutdown has taken the registrations out of the map; the tasks live on.\<close>

record 's snapshot_publication =
  sp_ttl :: nat
  sp_settings :: snapshot_worker_settings
  sp_closing :: bool
  sp_shutdown :: bool
  sp_drained :: bool
  sp_workers :: "guild_id \<Rightarrow> snapshot_worker option"
  sp_store :: 's

definition publication_start ::
  "nat \<Rightarrow> snapshot_worker_settings \<Rightarrow> 's \<Rightarrow> snapshot_supervisor_error + 's snapshot_publication" where
  "publication_start ttl settings s =
     (if ttl = 0 then Inl InvalidTtl
      else Inr \<lparr>sp_ttl = ttl, sp_settings = settings, sp_closing = False, sp_shutdown = False, sp_drained = False,
                sp_workers = (\<lambda>_. None), sp_store = s\<rparr>)"

definition new_worker :: "snapshot_worker_settings \<Rightarrow> snapshot_worker" where
  "new_worker settings =
     \<lparr>sw_mailbox = \<lparr>mb_latest = None, mb_unseen = False, mb_closed = False\<rparr>, sw_phase = Waiting,
      sw_confirmed = None, sw_backoff = initial_backoff settings\<rparr>"

text \<open>\<open>publisher\<close>: registers a worker for the guild unless there is one.\<close>

definition publication_publisher ::
  "guild_id \<Rightarrow> 's snapshot_publication \<Rightarrow> (snapshot_publish_error + guild_id) \<times> 's snapshot_publication" where
  "publication_publisher guild s =
     (if sp_closing s then (Inl PublishSupervisorClosed, s)
      else (case sp_workers s guild of
              Some _ \<Rightarrow> (Inr guild, s)
            | None \<Rightarrow> (Inr guild, s\<lparr>sp_workers := (sp_workers s)(guild \<mapsto> new_worker (sp_settings s))\<rparr>)))"

definition latest_revision :: "guild_id \<Rightarrow> 's snapshot_publication \<Rightarrow> state_revision option" where
  "latest_revision guild s =
     (if sp_drained s then None
      else (case sp_workers s guild of
              None \<Rightarrow> None
            | Some w \<Rightarrow> map_option ps_revision (mb_latest (sw_mailbox w))))"

definition worker_closed :: "snapshot_worker \<Rightarrow> bool" where
  "worker_closed w \<longleftrightarrow> (case sw_phase w of Finished _ \<Rightarrow> True | _ \<Rightarrow> False)"

definition send_if_newer :: "player_snapshot \<Rightarrow> mailbox \<Rightarrow> mailbox" where
  "send_if_newer snapshot mb =
     (if (case mb_latest mb of None \<Rightarrow> True | Some queued \<Rightarrow> ps_revision snapshot > ps_revision queued)
      then mb\<lparr>mb_latest := Some snapshot, mb_unseen := True\<rparr> else mb)"

text \<open>\<open>publish\<close> of the publisher of a guild, under the read half of the gate: no shutdown is
  signalled between its checks. A publisher exists only for a registered guild.\<close>

definition publication_publish ::
  "guild_id \<Rightarrow> player_snapshot \<Rightarrow> 's snapshot_publication \<Rightarrow> (snapshot_publish_error + unit) \<times> 's snapshot_publication" where
  "publication_publish guild snapshot s =
     (if ps_guild_id snapshot \<noteq> guild then (Inl PublishGuildMismatch, s)
      else (case sp_workers s guild of
              None \<Rightarrow> (Inl PublishSupervisorClosed, s)
            | Some w \<Rightarrow>
                if sp_closing s \<or> worker_closed w then (Inl PublishSupervisorClosed, s)
                else (Inr (), s\<lparr>sp_workers := (sp_workers s)
                        (guild \<mapsto> w\<lparr>sw_mailbox := send_if_newer snapshot (sw_mailbox w)\<rparr>)\<rparr>)))"

text \<open>\<open>shutdown\<close> in its steps: publishing closes; behind the write half of the gate the registrations
  are drained and the workers told; then each task is awaited.\<close>

definition close_publishing :: "'s snapshot_publication \<Rightarrow> 's snapshot_publication" where
  "close_publishing s = s\<lparr>sp_closing := True\<rparr>"

definition signal_shutdown :: "'s snapshot_publication \<Rightarrow> 's snapshot_publication" where
  "signal_shutdown s = s\<lparr>sp_drained := True, sp_shutdown := True\<rparr>"

datatype join_result = Joined "snapshot_worker_error option" | JoinPanicked

definition shutdown_outcome :: "join_result list \<Rightarrow> snapshot_supervisor_error + unit" where
  "shutdown_outcome results =
     (if JoinPanicked \<in> set results then Inl WorkerPanicked
      else if Joined (Some FinalWriteTimedOut) \<in> set results then Inl FinalFlushTimedOut
      else if Joined (Some FinalWriteFailed) \<in> set results then Inl FinalFlushFailed
      else Inr ())"

section \<open>Runs\<close>

datatype publication_event =
  OpenPublisher guild_id
  | Publish guild_id player_snapshot
  | PollWorker guild_id completion
  | SendersDropped guild_id
  | ClosePublishing
  | SignalShutdown
  | OtherClient request_fault snapshot_call

definition update_worker :: "guild_id \<Rightarrow> snapshot_worker \<Rightarrow> 's snapshot_publication \<Rightarrow> 's snapshot_publication" where
  "update_worker guild w s = s\<lparr>sp_workers := (sp_workers s)(guild \<mapsto> w)\<rparr>"

fun publication_step :: "'s snapshot_store \<Rightarrow> publication_event \<Rightarrow> 's snapshot_publication \<Rightarrow> 's snapshot_publication" where
  "publication_step ss (OpenPublisher g) s = snd (publication_publisher g s)"
| "publication_step ss (Publish g p) s = snd (publication_publish g p s)"
| "publication_step ss (PollWorker g c) s =
     (case sp_workers s g of
        None \<Rightarrow> s
      | Some w \<Rightarrow>
          (case poll_worker ss (sp_ttl s) (sp_settings s) (sp_shutdown s) c w (sp_store s) of
             (w', t) \<Rightarrow> (update_worker g w' s)\<lparr>sp_store := t\<rparr>))"
| "publication_step ss (SendersDropped g) s =
     (case sp_workers s g of
        None \<Rightarrow> s
      | Some w \<Rightarrow> update_worker g (w\<lparr>sw_mailbox := (sw_mailbox w)\<lparr>mb_closed := True\<rparr>\<rparr>) s)"
| "publication_step ss ClosePublishing s = close_publishing s"
| "publication_step ss SignalShutdown s = (if sp_closing s then signal_shutdown s else s)"
| "publication_step ss (OtherClient f c) s = s\<lparr>sp_store := run_snapshot_call ss f c (sp_store s)\<rparr>"

fun publication_run :: "'s snapshot_store \<Rightarrow> publication_event list \<Rightarrow> 's snapshot_publication \<Rightarrow> 's snapshot_publication" where
  "publication_run ss [] s = s"
| "publication_run ss (e # es) s = publication_run ss es (publication_step ss e s)"

section \<open>What a worker keeps\<close>

text \<open>What is confirmed is in the store; what is at hand belongs to the guild; and a worker that has
  finished without an error, while its mailbox was open, did so at shutdown with the newest stored.\<close>

definition worker_inv :: "'s snapshot_store \<Rightarrow> guild_id \<Rightarrow> bool \<Rightarrow> snapshot_worker \<Rightarrow> 's \<Rightarrow> bool" where
  "worker_inv ss g shutdown w s \<longleftrightarrow>
     (\<forall>c. sw_confirmed w = Some c \<longrightarrow> stored_at_least ss g c s) \<and>
     (\<forall>p. mb_latest (sw_mailbox w) = Some p \<longrightarrow> ps_guild_id p = g) \<and>
     (case sw_phase w of
        Waiting \<Rightarrow> \<not> mb_unseen (sw_mailbox w) \<longrightarrow>
          (\<forall>q. mb_latest (sw_mailbox w) = Some q \<longrightarrow> is_confirmed (ps_revision q) (sw_confirmed w))
      | Writing p \<Rightarrow> ps_guild_id p = g
      | Retrying p \<Rightarrow> ps_guild_id p = g
      | Flushing p \<Rightarrow> shutdown \<and> mb_latest (sw_mailbox w) = Some p
      | Finished r \<Rightarrow> \<not> mb_closed (sw_mailbox w) \<longrightarrow>
          shutdown \<and> (r = None \<longrightarrow> (\<forall>q. mb_latest (sw_mailbox w) = Some q \<longrightarrow> stored_at_least ss g (ps_revision q) s)))"

lemma is_confirmed_at_least:
  assumes "is_confirmed r confirmed" and "\<And>c. confirmed = Some c \<Longrightarrow> stored_at_least ss g c s"
  shows "stored_at_least ss g r s"
  using assms by (auto simp: is_confirmed_def is_some_and_def stored_at_least_def split: option.split_asm intro: order_trans)

lemma seen_fields [simp]: "mb_latest (seen mb) = mb_latest mb" "mb_closed (seen mb) = mb_closed mb" "mb_unseen (seen mb) = False"
  by (simp_all add: seen_def)

lemma worker_inv_mono:
  assumes "worker_inv ss g shutdown w s" and "\<And>r. stored_at_least ss g r s \<Longrightarrow> stored_at_least ss g r t"
  shows "worker_inv ss g shutdown w t"
  using assms by (auto simp: worker_inv_def split: worker_phase.split)

lemma worker_inv_basics:
  assumes "worker_inv ss g shutdown w s"
  shows "sw_confirmed w = Some c \<Longrightarrow> stored_at_least ss g c s" and "mb_latest (sw_mailbox w) = Some p \<Longrightarrow> ps_guild_id p = g"
  using assms by (simp_all add: worker_inv_def)

lemma flush_inv:
  assumes "worker_inv ss g shutdown w s" and "shutdown \<or> mb_closed (sw_mailbox w)"
  shows "worker_inv ss g shutdown (flush_on_shutdown shutdown w) s"
proof -
  have known: "stored_at_least ss g (ps_revision q) s" if "is_confirmed (ps_revision q) (sw_confirmed w)" for q
    by (rule is_confirmed_at_least [OF that worker_inv_basics(1) [OF assms(1)]])
  show ?thesis
    using assms known
    by (cases "latest_newer (sw_mailbox w) (sw_confirmed w)")
      (auto simp: worker_inv_def flush_on_shutdown_def latest_newer_def Let_def split: if_split_asm option.split_asm)
qed

lemma take_up_inv:
  assumes "\<And>c. sw_confirmed w = Some c \<Longrightarrow> stored_at_least ss g c s"
    and "\<And>p. mb_latest (sw_mailbox w) = Some p \<Longrightarrow> ps_guild_id p = g" and "ps_guild_id snapshot = g"
    and "mb_latest (sw_mailbox w) = Some snapshot \<or> mb_latest (sw_mailbox w) = None"
  shows "worker_inv ss g shutdown (take_up snapshot w) s"
proof (cases "is_confirmed (ps_revision snapshot) (sw_confirmed w)")
  case True
  then have "\<forall>q. mb_latest (sw_mailbox w) = Some q \<longrightarrow> is_confirmed (ps_revision q) (sw_confirmed w)"
    using assms(4) by auto
  then show ?thesis using True assms(1,2) by (simp add: worker_inv_def take_up_def)
next
  case False
  then show ?thesis using assms(1-3) by (simp add: worker_inv_def take_up_def)
qed

lemma wait_inv:
  assumes "worker_inv ss g shutdown w s"
    and "\<not> mb_unseen (sw_mailbox w) \<Longrightarrow>
      (\<forall>q. mb_latest (sw_mailbox w) = Some q \<longrightarrow> is_confirmed (ps_revision q) (sw_confirmed w))"
  shows "worker_inv ss g shutdown (wait_for_new_snapshot shutdown w) s"
proof -
  have fields: "\<And>c. sw_confirmed w = Some c \<Longrightarrow> stored_at_least ss g c s"
    "\<And>p. mb_latest (sw_mailbox w) = Some p \<Longrightarrow> ps_guild_id p = g"
    by (erule worker_inv_basics [OF assms(1)])+
  show ?thesis
  proof (cases "shutdown \<or> \<not> mb_unseen (sw_mailbox w) \<and> mb_closed (sw_mailbox w)")
    case True
    then show ?thesis using flush_inv [OF assms(1)] by (auto simp: wait_for_new_snapshot_def)
  next
    case False
    let ?w = "w\<lparr>sw_mailbox := seen (sw_mailbox w)\<rparr>"
    show ?thesis
    proof (cases "mb_unseen (sw_mailbox w)")
      case True
      show ?thesis
      proof (cases "mb_latest (sw_mailbox w)")
        case None
        then show ?thesis using True False fields by (simp add: wait_for_new_snapshot_def worker_inv_def)
      next
        case (Some p)
        have "worker_inv ss g shutdown (take_up p ?w) s" by (rule take_up_inv) (use Some fields in auto)
        then show ?thesis using True False Some by (simp add: wait_for_new_snapshot_def Let_def)
      qed
    qed (use assms(2) False fields in \<open>simp add: wait_for_new_snapshot_def worker_inv_def\<close>)
  qed
qed

lemma after_write_inv:
  assumes "worker_inv ss g shutdown w s" and "sw_phase w = Writing snapshot"
    and "\<And>v. result = Some (Inr v) \<Longrightarrow> stored_at_least ss g (ps_revision snapshot) s"
  shows "worker_inv ss g shutdown (after_write settings shutdown snapshot result w) s"
proof (cases "\<exists>v. result = Some (Inr v)")
  case True
  let ?w = "w\<lparr>sw_confirmed := Some (ps_revision snapshot), sw_backoff := initial_backoff settings, sw_mailbox := seen (sw_mailbox w)\<rparr>"
  have stored: "stored_at_least ss g (ps_revision snapshot) s" and
    fields: "\<And>p. mb_latest (sw_mailbox w) = Some p \<Longrightarrow> ps_guild_id p = g" "ps_guild_id snapshot = g"
    using True assms by (auto simp: worker_inv_def)
  have inv: "worker_inv ss g shutdown ?w s"
    using assms(1,2) stored by (auto simp: worker_inv_def)
  show ?thesis
  proof (cases "latest_newer (sw_mailbox ?w) (sw_confirmed ?w)")
    case None
    then have "is_confirmed (ps_revision q) (Some (ps_revision snapshot))" if "mb_latest (sw_mailbox w) = Some q" for q
      using that by (auto simp: latest_newer_def split: if_split_asm)
    then have "worker_inv ss g shutdown (wait_for_new_snapshot shutdown ?w) s"
      by (intro wait_inv [OF inv]) simp
    then show ?thesis using True None by (auto simp: after_write_def Let_def)
  next
    case (Some latest)
    then have "mb_latest (sw_mailbox w) = Some latest" by (auto simp: latest_newer_def split: if_split_asm option.split_asm)
    then have "worker_inv ss g shutdown (take_up latest ?w) s"
      by (intro take_up_inv) (use stored fields in auto)
    then show ?thesis using True Some by (auto simp: after_write_def Let_def)
  qed
next
  case False
  then have "after_write settings shutdown snapshot result w = w\<lparr>sw_phase := Retrying snapshot\<rparr>"
    by (auto simp: after_write_def split: option.split sum.split)
  then show ?thesis using assms(1,2) by (auto simp: worker_inv_def)
qed

lemma retry_inv:
  assumes "worker_inv ss g shutdown w s" and "sw_phase w = Retrying snapshot"
  shows "worker_inv ss g shutdown (snapshot_wait_for_retry settings shutdown elapsed snapshot w) s"
proof -
  have fields: "\<And>c. sw_confirmed w = Some c \<Longrightarrow> stored_at_least ss g c s"
    "\<And>p. mb_latest (sw_mailbox w) = Some p \<Longrightarrow> ps_guild_id p = g" "ps_guild_id snapshot = g"
    using assms by (auto simp: worker_inv_def)
  consider (flush) "shutdown \<or> \<not> elapsed \<and> \<not> mb_unseen (sw_mailbox w) \<and> mb_closed (sw_mailbox w)"
    | (elapsed) "\<not> shutdown" "elapsed"
    | (other) "\<not> shutdown" "\<not> elapsed" "\<not> (\<not> mb_unseen (sw_mailbox w) \<and> mb_closed (sw_mailbox w))" by blast
  then show ?thesis
  proof cases
    case flush
    then show ?thesis using flush_inv [OF assms(1)] by (auto simp: snapshot_wait_for_retry_def)
  next
    case elapsed
    then show ?thesis
      by (simp add: snapshot_wait_for_retry_def) (rule take_up_inv; use fields in \<open>auto split: option.split\<close>)
  next
    case other
    then show ?thesis using assms by (auto simp: snapshot_wait_for_retry_def worker_inv_def)
  qed
qed

text \<open>The store as a write leaves it.\<close>

lemma write_outcome_store:
  assumes "snapshot_laws ss" and "snapshot_consistent ss g s" and "ps_guild_id p = g"
    and "store_write_outcome ss ttl c p s = (outcome, t)"
  shows "snapshot_consistent ss g t" and "\<And>r. stored_at_least ss g r s \<Longrightarrow> stored_at_least ss g r t"
    and "outcome = Some (Some (Inr v)) \<Longrightarrow> stored_at_least ss g (ps_revision p) t"
proof -
  have "t = s \<or> (\<exists>f. t = snd (put_snapshot_if_newer ss f p ttl s))"
    and answered: "outcome = Some (Some (Inr v)) \<Longrightarrow>
      \<exists>f. fst (put_snapshot_if_newer ss f p ttl s) = Inr v \<and> t = snd (put_snapshot_if_newer ss f p ttl s)"
    using assms(4) by (auto simp: store_write_outcome_def split: completion.split_asm prod.split_asm) (metis fst_conv snd_conv)+
  then show "snapshot_consistent ss g t" and "\<And>r. stored_at_least ss g r s \<Longrightarrow> stored_at_least ss g r t"
    using put_consistent [OF assms(1,2)] assms(2) by (fastforce simp: stored_at_least_def intro: order_trans)+
  show "stored_at_least ss g (ps_revision p) t" if "outcome = Some (Some (Inr v))"
    using put_accounts [OF assms(1-3)] answered [OF that] by blast
qed

lemma poll_inv:
  assumes "snapshot_laws ss" and "snapshot_consistent ss g s" and "worker_inv ss g shutdown w s"
    and "poll_worker ss ttl settings shutdown c w s = (w', t)"
  shows "worker_inv ss g shutdown w' t" and "snapshot_consistent ss g t"
    and "\<And>r. stored_at_least ss g r s \<Longrightarrow> stored_at_least ss g r t"
proof -
  have "worker_inv ss g shutdown w' t \<and> snapshot_consistent ss g t \<and> (\<forall>r. stored_at_least ss g r s \<longrightarrow> stored_at_least ss g r t)"
  proof (cases "sw_phase w")
    case Waiting
    then show ?thesis
      using assms(2-4) wait_inv [OF assms(3)] by (auto simp: poll_worker_def worker_inv_def)
  next
    case (Writing p)
    have p: "ps_guild_id p = g" using assms(3) Writing by (simp add: worker_inv_def)
    obtain outcome t' where out: "store_write_outcome ss ttl c p s = (outcome, t')" by (rule prod.exhaust)
    note store = write_outcome_store [OF assms(1,2) p out]
    have inv: "worker_inv ss g shutdown w t'" by (rule worker_inv_mono [OF assms(3) store(2)])
    show ?thesis
      using assms(4) out store flush_inv [OF inv] after_write_inv [OF inv Writing] inv
      by (auto simp: poll_worker_def Writing split: if_split_asm option.split_asm)
  next
    case (Retrying p)
    then show ?thesis
      using assms(2-4) retry_inv [OF assms(3) Retrying] by (auto simp: poll_worker_def)
  next
    case (Flushing p)
    have p: "ps_guild_id p = g" using assms(3) Flushing by (simp add: worker_inv_def)
    obtain outcome t' where out: "store_write_outcome ss ttl c p s = (outcome, t')" by (rule prod.exhaust)
    note store = write_outcome_store [OF assms(1,2) p out]
    have inv: "worker_inv ss g shutdown w t'" by (rule worker_inv_mono [OF assms(3) store(2)])
    show ?thesis
    proof (cases outcome)
      case None
      then show ?thesis using assms(4) out store inv Flushing by (auto simp: poll_worker_def)
    next
      case (Some result)
      then have w': "w' = w\<lparr>sw_phase := Finished (after_final_write result)\<rparr>" "t = t'"
        using assms(4) out Flushing by (auto simp: poll_worker_def)
      have "stored_at_least ss g (ps_revision p) t'" if "after_final_write result = None"
        using that store(3) Some by (auto simp: after_final_write_def split: option.split_asm sum.split_asm)
      then show ?thesis using inv store Flushing by (auto simp: w' worker_inv_def)
    qed
  next
    case (Finished r)
    then show ?thesis using assms(2-4) by (auto simp: poll_worker_def)
  qed
  then show "worker_inv ss g shutdown w' t" and "snapshot_consistent ss g t"
    and "\<And>r. stored_at_least ss g r s \<Longrightarrow> stored_at_least ss g r t" by auto
qed

text \<open>Whatever a worker does, the store of any guild stays consistent and never goes back.\<close>

lemma put_any:
  assumes "snapshot_laws ss" and "snapshot_consistent ss g s"
  shows "snapshot_consistent ss g (snd (put_snapshot_if_newer ss f p ttl s)) \<and>
    (\<forall>r. stored_at_least ss g r s \<longrightarrow> stored_at_least ss g r (snd (put_snapshot_if_newer ss f p ttl s)))"
  using put_consistent [OF assms, of f p ttl] by (fastforce simp: stored_at_least_def intro: order_trans)

lemma call_any:
  assumes "snapshot_laws ss" and "snapshot_consistent ss g s"
  shows "snapshot_consistent ss g (run_snapshot_call ss f c s) \<and>
    (\<forall>r. stored_at_least ss g r s \<longrightarrow> stored_at_least ss g r (run_snapshot_call ss f c s))"
  using call_consistent [OF assms, of f c] by (fastforce simp: stored_at_least_def intro: order_trans)

lemma poll_store:
  assumes "snapshot_laws ss" and "snapshot_consistent ss g s"
    and "poll_worker ss ttl settings shutdown c w s = (w', t)"
  shows "snapshot_consistent ss g t \<and> (\<forall>r. stored_at_least ss g r s \<longrightarrow> stored_at_least ss g r t)"
proof -
  have "t = s \<or> (\<exists>f p. t = snd (put_snapshot_if_newer ss f p ttl s))"
    using assms(3)
    by (auto simp: poll_worker_def store_write_outcome_def split: worker_phase.split_asm completion.split_asm prod.split_asm
        if_split_asm option.split_asm) (metis snd_conv)+
  then show ?thesis using put_any [OF assms(1,2)] assms(2) by blast
qed

section \<open>What a run keeps\<close>

definition publication_inv :: "'s snapshot_store \<Rightarrow> guild_id \<Rightarrow> 's snapshot_publication \<Rightarrow> bool" where
  "publication_inv ss g s \<longleftrightarrow> snapshot_consistent ss g (sp_store s) \<and> (sp_shutdown s \<longrightarrow> sp_closing s) \<and>
     (\<forall>w. sp_workers s g = Some w \<longrightarrow> worker_inv ss g (sp_shutdown s) w (sp_store s))"

text \<open>The mailbox of a guild holds a revision or a newer one.\<close>

definition mailbox_covers :: "guild_id \<Rightarrow> state_revision \<Rightarrow> 's snapshot_publication \<Rightarrow> bool" where
  "mailbox_covers g r s \<longleftrightarrow>
     (\<exists>w q. sp_workers s g = Some w \<and> mb_latest (sw_mailbox w) = Some q \<and> r \<le> ps_revision q)"

lemma publish_inv:
  assumes "publication_inv ss g s"
  shows "publication_inv ss g (snd (publication_publish g' p s))"
proof (cases "sp_workers s g'")
  case None
  then show ?thesis using assms by (auto simp: publication_publish_def)
next
  case (Some w)
  have "worker_inv ss g (sp_shutdown s) (w\<lparr>sw_mailbox := send_if_newer p (sw_mailbox w)\<rparr>) (sp_store s)"
    if "g' = g" "ps_guild_id p = g" "\<not> sp_closing s" "\<not> worker_closed w"
  proof -
    have "worker_inv ss g (sp_shutdown s) w (sp_store s)" and "\<not> sp_shutdown s"
      using assms Some that by (auto simp: publication_inv_def)
    then show ?thesis
      using that(2,4)
      by (cases "sw_phase w") (auto simp: worker_inv_def send_if_newer_def worker_closed_def split: option.split_asm)
  qed
  then show ?thesis
    using assms Some by (auto simp: publication_publish_def publication_inv_def)
qed

lemma step_inv:
  assumes "snapshot_laws ss" and "publication_inv ss g s"
  shows "publication_inv ss g (publication_step ss e s)"
proof (cases e)
  case (OpenPublisher g')
  have "worker_inv ss g (sp_shutdown s) (new_worker settings) (sp_store s)" for settings
    by (simp add: worker_inv_def new_worker_def)
  then show ?thesis
    using assms(2) OpenPublisher by (auto simp: publication_publisher_def publication_inv_def split: option.split)
next
  case (Publish g' p)
  then show ?thesis using publish_inv [OF assms(2)] by simp
next
  case (PollWorker g' c)
  show ?thesis
  proof (cases "sp_workers s g'")
    case None
    then show ?thesis using PollWorker assms(2) by simp
  next
    case (Some w)
    obtain w' t where poll: "poll_worker ss (sp_ttl s) (sp_settings s) (sp_shutdown s) c w (sp_store s) = (w', t)"
      by (rule prod.exhaust)
    have cons: "snapshot_consistent ss g (sp_store s)" using assms(2) by (simp add: publication_inv_def)
    have store: "snapshot_consistent ss g t \<and> (\<forall>r. stored_at_least ss g r (sp_store s) \<longrightarrow> stored_at_least ss g r t)"
      using poll_store [OF assms(1) cons poll] .
    have mine: "worker_inv ss g (sp_shutdown s) w' t" if "g' = g"
      using poll_inv(1) [OF assms(1) cons _ poll] assms(2) Some that by (auto simp: publication_inv_def)
    show ?thesis
      using assms(2) PollWorker Some poll store mine
      by (auto simp: publication_inv_def update_worker_def intro: worker_inv_mono)
  qed
next
  case (SendersDropped g')
  have "worker_inv ss g sh (w\<lparr>sw_mailbox := (sw_mailbox w)\<lparr>mb_closed := True\<rparr>\<rparr>) t" if "worker_inv ss g sh w t" for sh w t
    using that by (cases "sw_phase w") (auto simp: worker_inv_def)
  then show ?thesis
    using assms(2) SendersDropped by (auto simp: publication_inv_def update_worker_def split: option.split)
next
  case ClosePublishing
  then show ?thesis using assms(2) by (auto simp: publication_inv_def close_publishing_def)
next
  case SignalShutdown
  have "worker_inv ss g True w t" if "worker_inv ss g sh w t" for sh w t
    using that by (cases "sw_phase w") (auto simp: worker_inv_def)
  then show ?thesis
    using assms(2) SignalShutdown by (auto simp: publication_inv_def signal_shutdown_def)
next
  case (OtherClient f c)
  then show ?thesis
    using assms(2) call_any [OF assms(1)] by (auto simp: publication_inv_def intro: worker_inv_mono)
qed

lemma run_inv:
  "snapshot_laws ss \<Longrightarrow> publication_inv ss g s \<Longrightarrow> publication_inv ss g (publication_run ss es s)"
  by (induction es arbitrary: s) (simp_all add: step_inv)

text \<open>A worker never changes what is in its mailbox.\<close>

named_theorems mailbox_kept "functions of the worker that leave the content of the mailbox"

lemma flush_mailbox [mailbox_kept]: "mb_latest (sw_mailbox (flush_on_shutdown shutdown w)) = mb_latest (sw_mailbox w)"
  by (simp add: flush_on_shutdown_def Let_def split: option.split)

lemma take_up_mailbox [mailbox_kept]: "sw_mailbox (take_up p w) = sw_mailbox w"
  by (simp add: take_up_def)

lemma wait_mailbox [mailbox_kept]: "mb_latest (sw_mailbox (wait_for_new_snapshot shutdown w)) = mb_latest (sw_mailbox w)"
  by (simp add: wait_for_new_snapshot_def Let_def mailbox_kept split: option.split)

lemma after_write_mailbox [mailbox_kept]:
  "mb_latest (sw_mailbox (after_write settings shutdown p result w)) = mb_latest (sw_mailbox w)"
  by (simp add: after_write_def Let_def mailbox_kept split: option.split sum.split)

lemma retry_mailbox [mailbox_kept]:
  "mb_latest (sw_mailbox (snapshot_wait_for_retry settings shutdown elapsed p w)) = mb_latest (sw_mailbox w)"
  by (simp add: snapshot_wait_for_retry_def mailbox_kept)

lemma poll_mailbox:
  "mb_latest (sw_mailbox (fst (poll_worker ss ttl settings shutdown c w s))) = mb_latest (sw_mailbox w)"
  by (simp add: poll_worker_def mailbox_kept split: worker_phase.split prod.split option.split)

lemma step_covers:
  assumes "mailbox_covers g r s"
  shows "mailbox_covers g r (publication_step ss e s)"
proof -
  obtain w q where w: "sp_workers s g = Some w" "mb_latest (sw_mailbox w) = Some q" "r \<le> ps_revision q"
    using assms by (auto simp: mailbox_covers_def)
  show ?thesis
  proof (cases e)
    case (Publish g' p)
    then show ?thesis
      using w by (auto simp: mailbox_covers_def publication_publish_def send_if_newer_def split: option.split)
  next
    case (PollWorker g' c)
    then show ?thesis
      using w poll_mailbox [of ss "sp_ttl s" "sp_settings s" "sp_shutdown s" c w "sp_store s"]
      by (auto simp: mailbox_covers_def update_worker_def split: option.split prod.split)
  qed (use w in \<open>auto simp: mailbox_covers_def publication_publisher_def update_worker_def close_publishing_def
      signal_shutdown_def split: option.split\<close>)
qed

lemma run_covers: "mailbox_covers g r s \<Longrightarrow> mailbox_covers g r (publication_run ss es s)"
  by (induction es arbitrary: s) (simp_all add: step_covers)

lemma publish_covers:
  assumes "fst (publication_publish g p s) = Inr ()"
  shows "mailbox_covers g (ps_revision p) (snd (publication_publish g p s))" and "ps_guild_id p = g"
  using assms
  by (auto simp: mailbox_covers_def publication_publish_def send_if_newer_def split: if_split_asm option.split_asm option.split)

lemma start_inv:
  assumes "publication_start ttl settings st = Inr s" and "snapshot_consistent ss g st"
  shows "publication_inv ss g s"
  using assms by (auto simp: publication_start_def publication_inv_def split: if_split_asm)

text \<open>C25: A snapshot that a publisher has accepted is not lost by a shutdown: whatever the polls, the
  publications, the failed or repeated writes and the other clients in between, once the shutdown is
  signalled and the guild's worker has ended without an error, its revision is in the store, or a
  newer one. Of the results of the workers the shutdown answers with success only if all are without
  an error.\<close>

theorem accepted_snapshots_survive_shutdown:
  assumes "snapshot_laws ss" and "snapshot_consistent ss g st" and "publication_start ttl settings st = Inr s0"
    and "fst (publication_publish g p (publication_run ss before s0)) = Inr ()"
    and "s = publication_run ss after (snd (publication_publish g p (publication_run ss before s0)))"
    and "sp_workers s g = Some w" and "sw_phase w = Finished r" and "\<not> mb_closed (sw_mailbox w)"
    and "shutdown_outcome results = Inr ()" and "Joined r \<in> set results"
  shows "stored_at_least ss g (ps_revision p) (sp_store s)"
proof -
  have inv: "publication_inv ss g s"
    unfolding assms(5) by (intro run_inv publish_inv start_inv [OF assms(3,2)] assms(1))
  have "mailbox_covers g (ps_revision p) s"
    unfolding assms(5) by (intro run_covers publish_covers(1) assms(4))
  then obtain q where q: "mb_latest (sw_mailbox w) = Some q" "ps_revision p \<le> ps_revision q"
    using assms(6) by (auto simp: mailbox_covers_def)
  have "r = None"
    using assms(9,10) by (cases r; cases "the r") (auto simp: shutdown_outcome_def split: if_split_asm)
  then have "stored_at_least ss g (ps_revision q) (sp_store s)"
    using inv assms(6-8) q by (auto simp: publication_inv_def worker_inv_def)
  then show ?thesis using q(2) by (auto simp: stored_at_least_def intro: order_trans)
qed

section \<open>The newest snapshot gets stored\<close>

text \<open>A snapshot at hand is never newer than the mailbox, and the delay stays in its bounds.\<close>

definition hand_inv :: "snapshot_worker_settings \<Rightarrow> snapshot_worker \<Rightarrow> bool" where
  "hand_inv settings w \<longleftrightarrow>
     sw_backoff w \<le> max (initial_backoff settings) (maximum_backoff settings) \<and>
     (case sw_phase w of
        Writing p \<Rightarrow> \<not> is_confirmed (ps_revision p) (sw_confirmed w) \<and>
          (\<exists>q. mb_latest (sw_mailbox w) = Some q \<and> ps_revision p \<le> ps_revision q)
      | Retrying p \<Rightarrow> \<not> is_confirmed (ps_revision p) (sw_confirmed w) \<and>
          (\<exists>q. mb_latest (sw_mailbox w) = Some q \<and> ps_revision p \<le> ps_revision q)
      | _ \<Rightarrow> True)"

lemma flush_hand: "hand_inv settings w \<Longrightarrow> hand_inv settings (flush_on_shutdown shutdown w)"
  by (simp add: hand_inv_def flush_on_shutdown_def Let_def split: option.split)

lemma wait_hand:
  assumes "hand_inv settings w"
  shows "hand_inv settings (wait_for_new_snapshot shutdown w)"
proof (cases "shutdown \<or> \<not> mb_unseen (sw_mailbox w) \<and> mb_closed (sw_mailbox w)")
  case True
  then show ?thesis using flush_hand [OF assms] by (auto simp: wait_for_new_snapshot_def)
next
  case False
  then show ?thesis
    using assms by (auto simp: wait_for_new_snapshot_def Let_def hand_inv_def take_up_def split: option.split)
qed

lemma wait_any_phase: "wait_for_new_snapshot shutdown (w\<lparr>sw_phase := x\<rparr>) = wait_for_new_snapshot shutdown w"
  by (simp add: wait_for_new_snapshot_def flush_on_shutdown_def latest_newer_def take_up_def Let_def split: option.split)

lemma poll_hand:
  assumes "hand_inv settings w" and "poll_worker ss ttl settings shutdown c w s = (w', t)"
  shows "hand_inv settings w'"
proof (cases "sw_phase w")
  case Waiting
  then show ?thesis using assms wait_hand by (auto simp: poll_worker_def)
next
  case (Writing p)
  let ?w = "w\<lparr>sw_confirmed := Some (ps_revision p), sw_backoff := initial_backoff settings, sw_mailbox := seen (sw_mailbox w)\<rparr>"
  have "hand_inv settings (after_write settings shutdown p result w)" for result
  proof (cases "\<exists>v. result = Some (Inr v)")
    case True
    have "hand_inv settings (?w\<lparr>sw_phase := Waiting\<rparr>)" using assms(1) Writing by (simp add: hand_inv_def)
    then have "hand_inv settings (wait_for_new_snapshot shutdown (?w\<lparr>sw_phase := Waiting\<rparr>))" by (rule wait_hand)
    then have "hand_inv settings (wait_for_new_snapshot shutdown ?w)" by (simp only: wait_any_phase)
    moreover have "hand_inv settings (take_up latest ?w)" if "latest_newer (sw_mailbox ?w) (sw_confirmed ?w) = Some latest" for latest
      using that by (auto simp: hand_inv_def take_up_def latest_newer_def split: option.split_asm if_split_asm)
    ultimately show ?thesis using True by (auto simp: after_write_def Let_def split: option.split)
  next
    case False
    then have "after_write settings shutdown p result w = w\<lparr>sw_phase := Retrying p\<rparr>"
      by (auto simp: after_write_def split: option.split sum.split)
    then show ?thesis using assms(1) Writing by (simp add: hand_inv_def)
  qed
  then show ?thesis
    using assms Writing flush_hand by (auto simp: poll_worker_def split: prod.split_asm option.split_asm if_split_asm)
next
  case (Retrying p)
  have "hand_inv settings (snapshot_wait_for_retry settings shutdown e p w)" for e
  proof (cases "shutdown \<or> \<not> e \<and> \<not> mb_unseen (sw_mailbox w) \<and> mb_closed (sw_mailbox w)")
    case True
    then show ?thesis using flush_hand [OF assms(1)] by (auto simp: snapshot_wait_for_retry_def)
  next
    case False
    then show ?thesis using assms(1) Retrying by (auto simp: snapshot_wait_for_retry_def hand_inv_def take_up_def)
  qed
  then show ?thesis using assms(2) Retrying by (auto simp: poll_worker_def)
qed (use assms in \<open>auto simp: poll_worker_def hand_inv_def split: prod.split_asm option.split_asm\<close>)

text \<open>The newest is confirmed, or about to be written.\<close>

definition settling :: "player_snapshot \<Rightarrow> snapshot_worker \<Rightarrow> bool" where
  "settling q w \<longleftrightarrow> is_confirmed (ps_revision q) (sw_confirmed w) \<or> sw_phase w = Writing q"

fun at_hand :: "worker_phase \<Rightarrow> player_snapshot option" where
  "at_hand (Writing p) = Some p" | "at_hand (Retrying p) = Some p" | "at_hand (Flushing p) = Some p"
| "at_hand Waiting = None" | "at_hand (Finished r) = None"

lemma take_up_settles: "settling q (take_up q w)"
  by (simp add: settling_def take_up_def)

lemma elapsed_poll:
  assumes "worker_inv ss g False w s" and "hand_inv settings w" and "\<not> mb_closed (sw_mailbox w)"
    and "mb_latest (sw_mailbox w) = Some q" and "poll_worker ss ttl settings False DelayElapsed w s = (w', t)"
  shows "settling q w' \<or> sw_phase w' = sw_phase w \<and> (\<exists>p. sw_phase w = Writing p)"
proof (cases "sw_phase w")
  case Waiting
  then have w': "w' = wait_for_new_snapshot False w" using assms(5) by (simp add: poll_worker_def)
  show ?thesis
  proof (cases "mb_unseen (sw_mailbox w)")
    case True
    then show ?thesis using assms(4) take_up_settles by (simp add: w' wait_for_new_snapshot_def Let_def)
  next
    case False
    then show ?thesis
      using assms(1,3,4) Waiting by (simp add: w' wait_for_new_snapshot_def worker_inv_def settling_def)
  qed
next
  case (Writing p)
  then show ?thesis using assms(5) by (simp add: poll_worker_def store_write_outcome_def)
next
  case (Retrying p)
  then show ?thesis using assms(4,5) take_up_settles by (auto simp: poll_worker_def snapshot_wait_for_retry_def)
qed (use assms(1,3) in \<open>auto simp: worker_inv_def\<close>)

lemma written_poll:
  assumes "hand_inv settings w" and "\<not> mb_closed (sw_mailbox w)" and "mb_latest (sw_mailbox w) = Some q"
    and "sw_phase w = Writing p" and "fst (put_snapshot_if_newer ss NoFault p ttl s) = Inr v"
    and "poll_worker ss ttl settings False (WriteEnded NoFault) w s = (w', t)"
  shows "settling q w'" and "p = q \<Longrightarrow> is_confirmed (ps_revision q) (sw_confirmed w')"
proof -
  let ?w = "w\<lparr>sw_confirmed := Some (ps_revision p), sw_backoff := initial_backoff settings, sw_mailbox := seen (sw_mailbox w)\<rparr>"
  have w': "w' = (case latest_newer (sw_mailbox ?w) (sw_confirmed ?w) of
      Some latest \<Rightarrow> take_up latest ?w | None \<Rightarrow> wait_for_new_snapshot False ?w)"
    using assms(4-6) by (auto simp: poll_worker_def store_write_outcome_def after_write_def Let_def split: prod.split_asm)
  have newer: "latest_newer (sw_mailbox ?w) (sw_confirmed ?w) =
      (if is_confirmed (ps_revision q) (Some (ps_revision p)) then None else Some q)"
    using assms(3) by (simp add: latest_newer_def)
  have waits: "wait_for_new_snapshot False ?w = ?w\<lparr>sw_phase := Waiting\<rparr>"
    using assms(2) by (simp add: wait_for_new_snapshot_def)
  show "settling q w'"
    unfolding w' newer waits using take_up_settles by (auto simp: settling_def)
  show "is_confirmed (ps_revision q) (sw_confirmed w')" if "p = q"
    unfolding w' newer waits using that by (auto simp: is_confirmed_def is_some_and_def)
qed

lemma confirmed_poll:
  assumes "hand_inv settings w" and "mb_latest (sw_mailbox w) = Some q"
    and "is_confirmed (ps_revision q) (sw_confirmed w)"
    and "poll_worker ss ttl settings False c w s = (w', t)"
  shows "is_confirmed (ps_revision q) (sw_confirmed w')"
proof -
  have idle: "\<not> (\<exists>p. sw_phase w = Writing p)" "\<not> (\<exists>p. sw_phase w = Retrying p)"
    using assms(1-3) by (auto simp: hand_inv_def is_confirmed_def is_some_and_def split: option.split_asm intro: order_trans)
  then show ?thesis
    using assms(3,4)
    by (cases "sw_phase w") (auto simp: poll_worker_def wait_for_new_snapshot_def flush_on_shutdown_def take_up_def Let_def
        split: option.split_asm prod.split_asm if_split_asm)
qed

lemma settling_poll:
  assumes "hand_inv settings w" and "\<not> mb_closed (sw_mailbox w)" and "mb_latest (sw_mailbox w) = Some q" and "settling q w"
    and "\<And>t. \<exists>v. fst (put_snapshot_if_newer ss NoFault q ttl t) = Inr v"
    and "poll_worker ss ttl settings False (WriteEnded NoFault) w s = (w', t)"
  shows "is_confirmed (ps_revision q) (sw_confirmed w')"
  using assms(4) unfolding settling_def
proof
  assume "is_confirmed (ps_revision q) (sw_confirmed w)"
  then show ?thesis by (rule confirmed_poll [OF assms(1,3) _ assms(6)])
next
  assume "sw_phase w = Writing q"
  moreover obtain v where "fst (put_snapshot_if_newer ss NoFault q ttl s) = Inr v" using assms(5) by blast
  ultimately show ?thesis using written_poll(2) [OF assms(1-3) _ _ assms(6)] by simp
qed

lemma poll_closed: "mb_closed (sw_mailbox (fst (poll_worker ss ttl settings shutdown c w s))) = mb_closed (sw_mailbox w)"
  by (simp add: poll_worker_def flush_on_shutdown_def take_up_def wait_for_new_snapshot_def after_write_def
      snapshot_wait_for_retry_def Let_def split: worker_phase.split prod.split option.split sum.split)

lemma poll_event:
  assumes "sp_workers s g = Some w"
    and "poll_worker ss (sp_ttl s) (sp_settings s) (sp_shutdown s) c w (sp_store s) = (w', t)"
  shows "publication_step ss (PollWorker g c) s = (update_worker g w' s)\<lparr>sp_store := t\<rparr>"
  using assms by simp

text \<open>Settings and time to live stay, and every worker of a run has its hand in order.\<close>

definition hands_inv :: "snapshot_worker_settings \<Rightarrow> 's snapshot_publication \<Rightarrow> bool" where
  "hands_inv settings s \<longleftrightarrow> sp_settings s = settings \<and> (\<forall>g w. sp_workers s g = Some w \<longrightarrow> hand_inv settings w)"

lemma send_hand:
  assumes "hand_inv settings w"
  shows "hand_inv settings (w\<lparr>sw_mailbox := send_if_newer p (sw_mailbox w)\<rparr>)"
proof (cases "mb_latest (sw_mailbox w)")
  case (Some q)
  show ?thesis
  proof (cases "ps_revision p > ps_revision q")
    case True
    have "ps_revision r \<le> ps_revision p" if "ps_revision r \<le> ps_revision q" for r
      using that True by simp
    then show ?thesis using assms Some True by (auto simp: hand_inv_def send_if_newer_def split: worker_phase.split_asm worker_phase.split)
  next
    case False
    then show ?thesis using assms Some by (simp add: send_if_newer_def)
  qed
next
  case None
  then show ?thesis
    using assms by (auto simp: hand_inv_def send_if_newer_def split: worker_phase.split_asm worker_phase.split)
qed

lemma close_hand: "hand_inv settings w \<Longrightarrow> hand_inv settings (w\<lparr>sw_mailbox := (sw_mailbox w)\<lparr>mb_closed := b\<rparr>\<rparr>)"
  by (cases "sw_phase w") (auto simp: hand_inv_def)

lemma step_hands:
  assumes "hands_inv settings s"
  shows "hands_inv settings (publication_step ss e s)"
proof (cases e)
  case (PollWorker g c)
  show ?thesis
  proof (cases "sp_workers s g")
    case None
    then show ?thesis using assms PollWorker by simp
  next
    case (Some w)
    obtain w' t where poll: "poll_worker ss (sp_ttl s) (sp_settings s) (sp_shutdown s) c w (sp_store s) = (w', t)"
      by (rule prod.exhaust)
    have "sp_settings s = settings" and "hand_inv settings w" using assms Some by (auto simp: hands_inv_def)
    then have "hand_inv settings w'" using poll_hand [of settings w] poll by metis
    then show ?thesis using assms PollWorker Some poll by (auto simp: hands_inv_def update_worker_def)
  qed
next
  case (OpenPublisher g)
  have "hand_inv settings (new_worker settings)" by (simp add: hand_inv_def new_worker_def)
  then show ?thesis using assms OpenPublisher by (auto simp: hands_inv_def publication_publisher_def split: option.split)
qed (use assms send_hand close_hand in \<open>auto simp: hands_inv_def publication_publish_def update_worker_def
    close_publishing_def signal_shutdown_def split: option.split\<close>)

lemma run_hands: "hands_inv settings s \<Longrightarrow> hands_inv settings (publication_run ss es s)"
  by (induction es arbitrary: s) (simp_all add: step_hands)

text \<open>One poll of a worker while it is not shut down.\<close>

lemma one_poll:
  assumes "snapshot_laws ss" and "publication_inv ss g s" and "hands_inv settings s" and "\<not> sp_shutdown s"
    and "sp_workers s g = Some w" and "\<not> mb_closed (sw_mailbox w)" and "mb_latest (sw_mailbox w) = Some q"
  obtains w' t where "poll_worker ss (sp_ttl s) settings False c w (sp_store s) = (w', t)"
    and "publication_step ss (PollWorker g c) s = (update_worker g w' s)\<lparr>sp_store := t\<rparr>"
    and "hand_inv settings w" and "worker_inv ss g False w (sp_store s)"
    and "\<not> mb_closed (sw_mailbox w')" and "mb_latest (sw_mailbox w') = Some q"
    and "publication_inv ss g ((update_worker g w' s)\<lparr>sp_store := t\<rparr>)"
    and "hands_inv settings ((update_worker g w' s)\<lparr>sp_store := t\<rparr>)"
proof -
  have settings: "sp_settings s = settings" using assms(3) by (simp add: hands_inv_def)
  obtain w' t where poll: "poll_worker ss (sp_ttl s) settings False c w (sp_store s) = (w', t)" by (rule prod.exhaust)
  have step: "publication_step ss (PollWorker g c) s = (update_worker g w' s)\<lparr>sp_store := t\<rparr>"
    by (rule poll_event [OF assms(5)]) (use poll settings assms(4) in simp)
  show ?thesis
    using that [OF poll step] assms(2,3,4,5,6,7) step_inv [OF assms(1,2), of "PollWorker g c"]
      step_hands [OF assms(3), of ss "PollWorker g c"] poll_mailbox [of ss "sp_ttl s" settings False c w "sp_store s"]
      poll_closed [of ss "sp_ttl s" settings False c w "sp_store s"] poll
    by (auto simp: step hands_inv_def publication_inv_def simp del: publication_step.simps)
qed

text \<open>C26: The newest snapshot of a guild gets stored once writes succeed again: from any state of a run
  that is not shutting down, whatever failed before, the elapsed delay and two successful writes of the
  guild's worker are enough to have it in the store; and the delay it waits never exceeds the larger
  of the two configured bounds.\<close>

theorem newest_snapshot_gets_stored:
  assumes "snapshot_laws ss" and "snapshot_consistent ss g st" and "publication_start ttl settings st = Inr s0"
    and "s = publication_run ss es s0" and "\<not> sp_shutdown s"
    and "sp_workers s g = Some w" and "\<not> mb_closed (sw_mailbox w)" and "mb_latest (sw_mailbox w) = Some q"
    and "\<forall>p. p = q \<or> at_hand (sw_phase w) = Some p \<longrightarrow> (\<forall>t. \<exists>v. fst (put_snapshot_if_newer ss NoFault p (sp_ttl s) t) = Inr v)"
  shows "stored_at_least ss g (ps_revision q) (sp_store (publication_run ss
      [PollWorker g DelayElapsed, PollWorker g (WriteEnded NoFault), PollWorker g (WriteEnded NoFault)] s)) \<and>
    sw_backoff w \<le> max (initial_backoff settings) (maximum_backoff settings)"
proof -
  have inv: "publication_inv ss g s" unfolding assms(4) by (rule run_inv [OF assms(1) start_inv [OF assms(3,2)]])
  have "hands_inv settings s0" using assms(3) by (auto simp: publication_start_def hands_inv_def split: if_split_asm)
  then have hands: "hands_inv settings s" unfolding assms(4) by (rule run_hands)
  have writes: "\<exists>v. fst (put_snapshot_if_newer ss NoFault q (sp_ttl s) t) = Inr v" for t using assms(9) by blast
  obtain w1 t1 where 1: "poll_worker ss (sp_ttl s) settings False DelayElapsed w (sp_store s) = (w1, t1)"
      "publication_step ss (PollWorker g DelayElapsed) s = (update_worker g w1 s)\<lparr>sp_store := t1\<rparr>"
      "hand_inv settings w" "worker_inv ss g False w (sp_store s)" "\<not> mb_closed (sw_mailbox w1)"
      "mb_latest (sw_mailbox w1) = Some q" "publication_inv ss g ((update_worker g w1 s)\<lparr>sp_store := t1\<rparr>)"
      "hands_inv settings ((update_worker g w1 s)\<lparr>sp_store := t1\<rparr>)"
    by (rule one_poll [OF assms(1) inv hands assms(5-8)])
  let ?s1 = "(update_worker g w1 s)\<lparr>sp_store := t1\<rparr>"
  have s1: "\<not> sp_shutdown ?s1" "sp_workers ?s1 g = Some w1" "sp_ttl ?s1 = sp_ttl s" "sp_store ?s1 = t1"
    using assms(5) by (simp_all add: update_worker_def)
  obtain w2 t2 where 2: "poll_worker ss (sp_ttl ?s1) settings False (WriteEnded NoFault) w1 (sp_store ?s1) = (w2, t2)"
      "publication_step ss (PollWorker g (WriteEnded NoFault)) ?s1 = (update_worker g w2 ?s1)\<lparr>sp_store := t2\<rparr>"
      "hand_inv settings w1" "worker_inv ss g False w1 (sp_store ?s1)" "\<not> mb_closed (sw_mailbox w2)"
      "mb_latest (sw_mailbox w2) = Some q" "publication_inv ss g ((update_worker g w2 ?s1)\<lparr>sp_store := t2\<rparr>)"
      "hands_inv settings ((update_worker g w2 ?s1)\<lparr>sp_store := t2\<rparr>)"
    by (rule one_poll [OF assms(1) 1(7,8) s1(1,2) 1(5,6)])
  let ?s2 = "(update_worker g w2 ?s1)\<lparr>sp_store := t2\<rparr>"
  have s2: "\<not> sp_shutdown ?s2" "sp_workers ?s2 g = Some w2" "sp_ttl ?s2 = sp_ttl s" "sp_store ?s2 = t2"
    using assms(5) by (simp_all add: update_worker_def)
  obtain w3 t3 where 3: "poll_worker ss (sp_ttl ?s2) settings False (WriteEnded NoFault) w2 (sp_store ?s2) = (w3, t3)"
      "publication_step ss (PollWorker g (WriteEnded NoFault)) ?s2 = (update_worker g w3 ?s2)\<lparr>sp_store := t3\<rparr>"
      "hand_inv settings w2" "publication_inv ss g ((update_worker g w3 ?s2)\<lparr>sp_store := t3\<rparr>)"
    by (rule one_poll [OF assms(1) 2(7,8) s2(1,2) 2(5,6)])
  have "settling q w2"
    using elapsed_poll [OF 1(4,3) assms(7,8) 1(1)]
  proof
    assume "settling q w1"
    then show ?thesis
      using settling_poll [OF 2(3) 1(5,6) _ writes 2(1) [unfolded s1]] by (simp add: settling_def)
  next
    assume "sw_phase w1 = sw_phase w \<and> (\<exists>p. sw_phase w = Writing p)"
    then obtain p where p: "sw_phase w1 = Writing p" "sw_phase w = Writing p" by auto
    then obtain v where "fst (put_snapshot_if_newer ss NoFault p (sp_ttl s) t1) = Inr v" using assms(9) by force
    then show ?thesis using written_poll(1) [OF 2(3) 1(5,6) p(1) _ 2(1) [unfolded s1]] by simp
  qed
  then have confirmed: "is_confirmed (ps_revision q) (sw_confirmed w3)"
    using settling_poll [OF 3(3) 2(5,6) _ writes 3(1) [unfolded s2]] by simp
  have kept: "worker_inv ss g False w3 t3"
    using 3(4) assms(5) by (simp add: publication_inv_def update_worker_def)
  have "stored_at_least ss g (ps_revision q) t3"
    by (rule is_confirmed_at_least [OF confirmed worker_inv_basics(1) [OF kept]])
  then show ?thesis
    using 1(3) by (simp add: 1(2) 2(2) 3(2) hand_inv_def del: publication_step.simps)
qed

end
