(* ===== verification/Snapshot_Samples.thy ===== *)
theory Snapshot_Samples
  imports Snapshot_Worker Valkey_Samples
begin

text \<open>The sample server with an encoding of snapshots, and a publication on it.\<close>

definition blank_snapshot :: "guild_id \<Rightarrow> state_revision \<Rightarrow> player_snapshot" where
  "blank_snapshot g r =
     \<lparr>ps_guild_id = g, ps_voice_channel_id = None, ps_revision = r, ps_state = Disconnected,
      ps_current_track = None, ps_queued_tracks = 0, ps_upcoming_tracks = [], ps_has_previous_track = False,
      ps_volume = volume_default, ps_repeat_mode = RepeatOff, ps_shuffle_enabled = False, ps_hrir_preset = None,
      ps_spatial_audio_enabled = False, ps_observed_at = UnixTimeMillis 0\<rparr>"

definition memory_snapshots :: "memory snapshot_store" where
  "memory_snapshots = valkey_store.extend sample_store
     \<lparr>ss_set = (\<lambda>k v s. s\<lparr>mem_strings := (mem_strings s)(k \<mapsto> v)\<rparr>),
      ss_strlen = (\<lambda>s k. case mem_strings s k of None \<Rightarrow> 0 | Some t \<Rightarrow> str_len t),
      ss_publish = (\<lambda>_ _ s. s), ss_collate_le = text_le,
      ss_encode = (\<lambda>p. if p = blank_snapshot (ps_guild_id p) (ps_revision p)
        then Some [unat (guild_get (ps_guild_id p)), unat (revision_get (ps_revision p))] else None),
      ss_decode = (\<lambda>t. case t of [g, r] \<Rightarrow> Some (blank_snapshot (GuildId (of_nat g)) (StateRevision (of_nat r))) | _ \<Rightarrow> None),
      ss_encode_event = (\<lambda>g r. Some [])\<rparr>"

lemma memory_snapshots_fields [simp]:
  "vs_server memory_snapshots = memory_server" "vs_keyspace memory_snapshots = str ''p''"
  "vs_codec memory_snapshots = sample_codec"
  by (simp_all add: memory_snapshots_def valkey_store.extend_def sample_store_def)

lemma memory_snapshot_laws: "snapshot_laws memory_snapshots"
  unfolding snapshot_laws_def
  by (auto simp: memory_laws) (auto simp: memory_server_def memory_snapshots_def valkey_store.extend_def split: if_split_asm)

lemma empty_consistent: "snapshot_consistent memory_snapshots g empty_memory"
  by (simp add: snapshot_consistent_def memory_server_def empty_memory_def)

lemma blank_shape: "public_shape (blank_snapshot g r)"
  by (simp add: public_shape_def blank_snapshot_def snapshot_tracks_def option_list_def)

lemma blank_fields [simp]: "ps_guild_id (blank_snapshot g r) = g" "ps_revision (blank_snapshot g r) = r"
  by (simp_all add: blank_snapshot_def)

lemma blank_validates: "validate_public_shape (blank_snapshot g r) = Inr ()"
  by (simp add: validate_public_shape_ok blank_shape)

lemma sample_put_answers:
  assumes "duration_millis ttl ''snapshot TTL'' = Inr ms"
  shows "\<exists>v. fst (put_snapshot_if_newer memory_snapshots NoFault (blank_snapshot g r) ttl t) = Inr v"
proof -
  have get: "get_string memory_server t key \<noteq> None" for key
    by (simp add: get_string_def memory_server_def)
  have encode: "ss_encode memory_snapshots (blank_snapshot g r) = Some [unat (guild_get g), unat (revision_get r)]"
    "ss_encode_event memory_snapshots g r = Some []"
    by (simp_all add: memory_snapshots_def valkey_store.extend_def)
  have small: "str_len [unat (guild_get g), unat (revision_get r)] \<le> MAX_PLAYER_SNAPSHOT_JSON_BYTES"
    by (simp add: char_len_utf8_def MAX_PLAYER_SNAPSHOT_JSON_BYTES_def)
  obtain c where "get_string memory_server t (watermark_key memory_snapshots g) = Some c" using get by blast
  then show ?thesis
    using assms small
    by (simp add: put_snapshot_if_newer_def blank_validates encode answer_def invoke_def put_snapshot_script_def)
qed

lemma sample_ttl: "duration_millis 1000000000 ''snapshot TTL'' = Inr 1000"
  by (simp add: duration_millis_def)

section \<open>Witnesses\<close>

lemma snapshots_never_go_back_witness:
  "\<exists>r. get_snapshot_revision memory_snapshots NoFault (GuildId 5) (run_snapshot_calls memory_snapshots
      [(NoFault, PutSnapshot (blank_snapshot (GuildId 5) (StateRevision 1)) 1000000000)]
      (snd (put_snapshot_if_newer memory_snapshots NoFault (blank_snapshot (GuildId 5) (StateRevision 2)) 1000000000 empty_memory))) =
    Inr (Some r) \<and> StateRevision 2 \<le> r"
proof -
  obtain w where "fst (put_snapshot_if_newer memory_snapshots NoFault (blank_snapshot (GuildId 5) (StateRevision 2)) 1000000000
      empty_memory) = Inr w"
    using sample_put_answers [OF sample_ttl] by blast
  from snapshots_never_go_back [OF memory_snapshot_laws empty_consistent this, of "GuildId 5"
      "[(NoFault, PutSnapshot (blank_snapshot (GuildId 5) (StateRevision 1)) 1000000000)]"]
  show ?thesis by (auto simp: Let_def)
qed

definition sample_publication :: "memory snapshot_publication" where
  "sample_publication =
     \<lparr>sp_ttl = 1000000000, sp_settings = snapshot_worker_settings_default, sp_closing = False, sp_shutdown = False,
      sp_drained = False, sp_workers = (\<lambda>_. None), sp_store = empty_memory\<rparr>"

lemma sample_publication_start:
  "publication_start 1000000000 snapshot_worker_settings_default empty_memory = Inr sample_publication"
  by (simp add: publication_start_def sample_publication_def)

lemmas publication_simps = publication_publisher_def publication_publish_def new_worker_def send_if_newer_def
  worker_closed_def update_worker_def close_publishing_def signal_shutdown_def poll_worker_def
  wait_for_new_snapshot_def flush_on_shutdown_def latest_newer_def is_confirmed_def is_some_and_def take_up_def
  store_write_outcome_def after_final_write_def seen_def

lemma accepted_snapshots_survive_shutdown_witness:
  "\<exists>s. stored_at_least memory_snapshots (GuildId 5) (StateRevision 3) (sp_store (s :: memory snapshot_publication))"
proof -
  let ?g = "GuildId 5" and ?p = "blank_snapshot (GuildId 5) (StateRevision 3)"
  let ?s1 = "publication_run memory_snapshots [OpenPublisher ?g] sample_publication"
  let ?s = "publication_run memory_snapshots [ClosePublishing, SignalShutdown, PollWorker ?g Nothing,
      PollWorker ?g (WriteEnded NoFault)] (snd (publication_publish ?g ?p ?s1))"
  have accepted: "fst (publication_publish ?g ?p ?s1) = Inr ()"
    by (simp add: sample_publication_def publication_simps)
  obtain v where v: "fst (put_snapshot_if_newer memory_snapshots NoFault ?p 1000000000 empty_memory) = Inr v"
    using sample_put_answers [OF sample_ttl] by blast
  obtain t where put: "put_snapshot_if_newer memory_snapshots NoFault ?p 1000000000 empty_memory = (Inr v, t)"
    using v by (metis prod.collapse)
  define w where "w = the (sp_workers ?s ?g)"
  have "sp_workers ?s ?g = Some w" "sw_phase w = Finished None" "\<not> mb_closed (sw_mailbox w)"
    by (simp_all add: w_def sample_publication_def publication_simps put)
  from accepted_snapshots_survive_shutdown [OF memory_snapshot_laws empty_consistent sample_publication_start accepted
      refl this, of "[Joined None]"]
  show ?thesis by (auto simp: shutdown_outcome_def)
qed

lemma newest_snapshot_gets_stored_witness:
  "stored_at_least memory_snapshots (GuildId 5) (StateRevision 3) (sp_store (publication_run memory_snapshots
     [PollWorker (GuildId 5) DelayElapsed, PollWorker (GuildId 5) (WriteEnded NoFault), PollWorker (GuildId 5) (WriteEnded NoFault)]
     (publication_run memory_snapshots [OpenPublisher (GuildId 5), Publish (GuildId 5) (blank_snapshot (GuildId 5) (StateRevision 3)),
        PollWorker (GuildId 5) Nothing, PollWorker (GuildId 5) (WriteEnded LostBefore)] sample_publication)))"
proof -
  let ?g = "GuildId 5" and ?p = "blank_snapshot (GuildId 5) (StateRevision 3)"
  let ?s = "publication_run memory_snapshots [OpenPublisher ?g, Publish ?g ?p, PollWorker ?g Nothing,
      PollWorker ?g (WriteEnded LostBefore)] sample_publication"
  have ttl: "sp_ttl ?s = 1000000000" "\<not> sp_shutdown ?s"
    by (simp_all add: sample_publication_def publication_simps after_write_def split: prod.split)
  have "\<exists>e. put_snapshot_if_newer memory_snapshots LostBefore ?p 1000000000 empty_memory = (Inl e, empty_memory)"
    unfolding put_snapshot_if_newer_def sample_ttl by (auto simp: blank_validates invoke_def answer_def split: option.split)
  then obtain e where put: "put_snapshot_if_newer memory_snapshots LostBefore ?p 1000000000 empty_memory = (Inl e, empty_memory)"
    by blast
  define w where "w = the (sp_workers ?s ?g)"
  have w: "sp_workers ?s ?g = Some w" "\<not> mb_closed (sw_mailbox w)" "mb_latest (sw_mailbox w) = Some ?p"
      "sw_phase w = Retrying ?p"
    by (simp_all add: w_def sample_publication_def publication_simps put after_write_def)
  have writes: "\<forall>p. p = ?p \<or> at_hand (sw_phase w) = Some p \<longrightarrow>
      (\<forall>t. \<exists>v. fst (put_snapshot_if_newer memory_snapshots NoFault p (sp_ttl ?s) t) = Inr v)"
    unfolding ttl w(4) using sample_put_answers [OF sample_ttl] by auto
  from newest_snapshot_gets_stored [OF memory_snapshot_laws empty_consistent sample_publication_start refl ttl(2)
      w(1-3) writes]
  show ?thesis by simp
qed

end
