(* ===== verification/Postgres_Rows.thy ===== *)
theory Postgres_Rows
  imports Valkey_Store
begin

text \<open>
  The durable data and their rows: \<open>crates/pepeaudio-storage/src/model.rs\<close> and
  \<open>postgres/rows.rs\<close>, with the statements of \<open>postgres/guild_settings.rs\<close>,
  \<open>postgres/playlists.rs\<close> and \<open>postgres/hrir_presets.rs\<close> over the tables they name. Columns of
  SMALLINT, INTEGER and BIGINT are integers with their range written out; points in time are numbers.
  The CHECK and foreign key constraints of the schema are a parameter, a predicate on the row to be written.
\<close>

section \<open>The data\<close>

datatype settings_revision = SettingsRevision (settings_revision_get: u64)

definition settings_revision_initial :: settings_revision where
  "settings_revision_initial = SettingsRevision 0"

datatype control_policy = SameVoiceChannel | DjOnly | ManageGuild

fun control_policy_as_db :: "control_policy \<Rightarrow> rstring" where
  "control_policy_as_db SameVoiceChannel = str ''same_voice_channel''"
| "control_policy_as_db DjOnly = str ''dj_only''"
| "control_policy_as_db ManageGuild = str ''manage_guild''"

definition control_policy_from_db :: "rstring \<Rightarrow> control_policy option" where
  "control_policy_from_db t =
     (if t = str ''same_voice_channel'' then Some SameVoiceChannel
      else if t = str ''dj_only'' then Some DjOnly
      else if t = str ''manage_guild'' then Some ManageGuild else None)"

record guild_settings =
  gs_guild_id :: guild_id
  gs_volume :: volume
  gs_idle_disconnect :: nat
  gs_control_policy :: control_policy
  gs_dj_role_id :: "u64 option"
  gs_default_hrir_preset_id :: "hrir_preset_id option"
  gs_spatial_audio_enabled :: bool
  gs_revision :: settings_revision
  gs_created_at :: int
  gs_updated_at :: int

datatype hrir_channel_layout = Hesuvi7 | Hesuvi14

fun channel_layout_as_db :: "hrir_channel_layout \<Rightarrow> rstring" where
  "channel_layout_as_db Hesuvi7 = str ''hesuvi_7''"
| "channel_layout_as_db Hesuvi14 = str ''hesuvi_14''"

definition channel_layout_from_db :: "rstring \<Rightarrow> hrir_channel_layout option" where
  "channel_layout_from_db t =
     (if t = str ''hesuvi_7'' then Some Hesuvi7 else if t = str ''hesuvi_14'' then Some Hesuvi14 else None)"

record hrir_preset_metadata =
  hp_preset_id :: hrir_preset_id
  hp_owner_guild_id :: "guild_id option"
  hp_display_name :: rstring
  hp_description :: "rstring option"
  hp_storage_key :: rstring
  hp_sha256_hex :: rstring
  hp_sample_rate :: u32
  hp_channel_layout :: hrir_channel_layout
  hp_file_size_bytes :: u64
  hp_license_name :: "rstring option"
  hp_license_url :: "rstring option"
  hp_attribution :: "rstring option"
  hp_created_at :: int

datatype playlist_visibility = Private | GuildVisible

fun visibility_as_db :: "playlist_visibility \<Rightarrow> rstring" where
  "visibility_as_db Private = str ''private''"
| "visibility_as_db GuildVisible = str ''guild''"

definition visibility_from_db :: "rstring \<Rightarrow> playlist_visibility option" where
  "visibility_from_db t =
     (if t = str ''private'' then Some Private else if t = str ''guild'' then Some GuildVisible else None)"

record playlist =
  pl_playlist_id :: uuid
  pl_guild_id :: guild_id
  pl_owner_user_id :: user_id
  pl_name :: rstring
  pl_description :: "rstring option"
  pl_visibility :: playlist_visibility
  pl_revision :: settings_revision
  pl_created_at :: int
  pl_updated_at :: int

datatype track_source_kind = DirectUrl | ManagedUpload

fun source_kind_as_db :: "track_source_kind \<Rightarrow> rstring" where
  "source_kind_as_db DirectUrl = str ''direct_url''"
| "source_kind_as_db ManagedUpload = str ''managed_upload''"

definition source_kind_from_db :: "rstring \<Rightarrow> track_source_kind option" where
  "source_kind_from_db t =
     (if t = str ''direct_url'' then Some DirectUrl
      else if t = str ''managed_upload'' then Some ManagedUpload else None)"

record playlist_track =
  pt_track_id :: uuid
  pt_position :: u32
  pt_source_kind :: track_source_kind
  pt_source_reference :: rstring
  pt_title :: rstring
  pt_duration_ms :: "u64 option"
  pt_added_by_user_id :: user_id
  pt_created_at :: int

lemma as_db_from_db [simp]:
  "control_policy_from_db (control_policy_as_db policy) = Some policy"
  "channel_layout_from_db (channel_layout_as_db layout) = Some layout"
  "visibility_from_db (visibility_as_db visibility) = Some visibility"
  "source_kind_from_db (source_kind_as_db kind) = Some kind"
proof -
  show "control_policy_from_db (control_policy_as_db policy) = Some policy"
    by (cases policy) (simp_all add: control_policy_from_db_def)
  show "channel_layout_from_db (channel_layout_as_db layout) = Some layout"
    by (cases layout) (simp_all add: channel_layout_from_db_def)
  show "visibility_from_db (visibility_as_db visibility) = Some visibility"
    by (cases visibility) (simp_all add: visibility_from_db_def)
  show "source_kind_from_db (source_kind_as_db kind) = Some kind"
    by (cases kind) (simp_all add: source_kind_from_db_def)
qed

section \<open>Integers of the database\<close>

definition corrupt :: "string \<Rightarrow> string \<Rightarrow> storage_error" where
  "corrupt entity field = CorruptData entity field"

definition checked_i64 :: "nat \<Rightarrow> string \<Rightarrow> string \<Rightarrow> storage_error + int" where
  "checked_i64 n entity field = (if n < 2 ^ 63 then Inr (int n) else Inl (corrupt entity field))"

definition checked_i32 :: "nat \<Rightarrow> string \<Rightarrow> string \<Rightarrow> storage_error + int" where
  "checked_i32 n entity field = (if n < 2 ^ 31 then Inr (int n) else Inl (corrupt entity field))"

text \<open>\<open>u64::try_from\<close> and \<open>u32::try_from\<close> of a signed column.\<close>

definition unsigned_column :: "int \<Rightarrow> string \<Rightarrow> string \<Rightarrow> storage_error + nat" where
  "unsigned_column n entity field = (if 0 \<le> n then Inr (nat n) else Inl (corrupt entity field))"

definition row_revision :: "int \<Rightarrow> string \<Rightarrow> storage_error + settings_revision" where
  "row_revision n entity = map_sum id (\<lambda>v. SettingsRevision (of_nat v)) (unsigned_column n entity ''revision'')"

definition parse_guild_id :: "rstring \<Rightarrow> string \<Rightarrow> string \<Rightarrow> storage_error + guild_id" where
  "parse_guild_id t entity field =
     (case snowflake_from_str t of Inl _ \<Rightarrow> Inl (corrupt entity field) | Inr v \<Rightarrow> Inr (GuildId v))"

definition parse_user_id :: "rstring \<Rightarrow> string \<Rightarrow> string \<Rightarrow> storage_error + user_id" where
  "parse_user_id t entity field =
     (case snowflake_from_str t of Inl _ \<Rightarrow> Inl (corrupt entity field) | Inr v \<Rightarrow> Inr (UserId v))"

definition parse_nonzero_u64 :: "rstring \<Rightarrow> string \<Rightarrow> string \<Rightarrow> storage_error + u64" where
  "parse_nonzero_u64 t entity field =
     (case from_str_radix 10 t of
        None \<Rightarrow> Inl (corrupt entity field)
      | Some parsed \<Rightarrow> if parsed = 0 then Inl (corrupt entity field) else Inr parsed)"

text \<open>\<open>Option::map(f).transpose()\<close>.\<close>

definition transpose :: "('a \<Rightarrow> 'e + 'b) \<Rightarrow> 'a option \<Rightarrow> 'e + 'b option" where
  "transpose f x = (case x of None \<Rightarrow> Inr None | Some v \<Rightarrow> map_sum id Some (f v))"

definition then_do :: "'e + 'a \<Rightarrow> ('a \<Rightarrow> 'e + 'b) \<Rightarrow> 'e + 'b" where
  "then_do x f = (case x of Inl e \<Rightarrow> Inl e | Inr a \<Rightarrow> f a)"

lemma then_do_simps [simp]: "then_do (Inl e) f = Inl e" "then_do (Inr a) f = f a"
  by (simp_all add: then_do_def)

lemma transpose_simps [simp]: "transpose f None = Inr None" "transpose f (Some v) = map_sum id Some (f v)"
  by (simp_all add: transpose_def)

section \<open>Rows\<close>

record guild_settings_row =
  gr_guild_id :: rstring
  gr_volume_percent :: int
  gr_idle_disconnect_seconds :: int
  gr_control_policy :: rstring
  gr_dj_role_id :: "rstring option"
  gr_default_hrir_preset_id :: "rstring option"
  gr_spatial_audio_enabled :: bool
  gr_revision :: int
  gr_created_at :: int
  gr_updated_at :: int

definition guild_settings_try_from :: "guild_settings_row \<Rightarrow> storage_error + guild_settings" where
  "guild_settings_try_from row =
     then_do (parse_guild_id (gr_guild_id row) ''guild_settings'' ''guild_id'') (\<lambda>guild.
     then_do (if 0 \<le> gr_volume_percent row \<and> gr_volume_percent row < 256
              then (case volume_new (of_int (gr_volume_percent row)) of
                      Inl _ \<Rightarrow> Inl (corrupt ''guild_settings'' ''volume_percent'') | Inr v \<Rightarrow> Inr v)
              else Inl (corrupt ''guild_settings'' ''volume_percent'')) (\<lambda>volume.
     then_do (unsigned_column (gr_idle_disconnect_seconds row) ''guild_settings'' ''idle_disconnect_seconds'') (\<lambda>idle.
     then_do (case control_policy_from_db (gr_control_policy row) of
                None \<Rightarrow> Inl (corrupt ''guild_settings'' ''control_policy'') | Some p \<Rightarrow> Inr p) (\<lambda>policy.
     then_do (transpose (\<lambda>t. parse_nonzero_u64 t ''guild_settings'' ''dj_role_id'') (gr_dj_role_id row)) (\<lambda>dj_role.
     then_do (case transpose hrir_preset_id_new (gr_default_hrir_preset_id row) of
                Inl _ \<Rightarrow> Inl (corrupt ''guild_settings'' ''default_hrir_preset_id'') | Inr p \<Rightarrow> Inr p) (\<lambda>preset.
     then_do (row_revision (gr_revision row) ''guild_settings'') (\<lambda>revision.
       Inr \<lparr>gs_guild_id = guild, gs_volume = volume, gs_idle_disconnect = idle * 10 ^ 9,
            gs_control_policy = policy, gs_dj_role_id = dj_role, gs_default_hrir_preset_id = preset,
            gs_spatial_audio_enabled = gr_spatial_audio_enabled row, gs_revision = revision,
            gs_created_at = gr_created_at row, gs_updated_at = gr_updated_at row\<rparr>)))))))"

record hrir_preset_row =
  hr_preset_id :: rstring
  hr_owner_guild_id :: "rstring option"
  hr_display_name :: rstring
  hr_description :: "rstring option"
  hr_storage_key :: rstring
  hr_sha256_hex :: rstring
  hr_sample_rate :: int
  hr_channel_layout :: rstring
  hr_file_size_bytes :: int
  hr_license_name :: "rstring option"
  hr_license_url :: "rstring option"
  hr_attribution :: "rstring option"
  hr_created_at :: int

definition hrir_preset_try_from :: "hrir_preset_row \<Rightarrow> storage_error + hrir_preset_metadata" where
  "hrir_preset_try_from row =
     then_do (case hrir_preset_id_new (hr_preset_id row) of
                Inl _ \<Rightarrow> Inl (corrupt ''hrir_preset'' ''preset_id'') | Inr p \<Rightarrow> Inr p) (\<lambda>preset.
     then_do (transpose (\<lambda>t. parse_guild_id t ''hrir_preset'' ''owner_guild_id'') (hr_owner_guild_id row)) (\<lambda>owner.
     then_do (unsigned_column (hr_sample_rate row) ''hrir_preset'' ''sample_rate'') (\<lambda>rate.
     then_do (case channel_layout_from_db (hr_channel_layout row) of
                None \<Rightarrow> Inl (corrupt ''hrir_preset'' ''channel_layout'') | Some l \<Rightarrow> Inr l) (\<lambda>layout.
     then_do (unsigned_column (hr_file_size_bytes row) ''hrir_preset'' ''file_size_bytes'') (\<lambda>file_size.
       Inr \<lparr>hp_preset_id = preset, hp_owner_guild_id = owner, hp_display_name = hr_display_name row,
            hp_description = hr_description row, hp_storage_key = hr_storage_key row,
            hp_sha256_hex = hr_sha256_hex row, hp_sample_rate = of_nat rate, hp_channel_layout = layout,
            hp_file_size_bytes = of_nat file_size, hp_license_name = hr_license_name row,
            hp_license_url = hr_license_url row, hp_attribution = hr_attribution row,
            hp_created_at = hr_created_at row\<rparr>)))))"

record playlist_row =
  plr_playlist_id :: uuid
  plr_guild_id :: rstring
  plr_owner_user_id :: rstring
  plr_name :: rstring
  plr_description :: "rstring option"
  plr_visibility :: rstring
  plr_revision :: int
  plr_created_at :: int
  plr_updated_at :: int

definition playlist_try_from :: "playlist_row \<Rightarrow> storage_error + playlist" where
  "playlist_try_from row =
     then_do (parse_guild_id (plr_guild_id row) ''playlist'' ''guild_id'') (\<lambda>guild.
     then_do (parse_user_id (plr_owner_user_id row) ''playlist'' ''owner_user_id'') (\<lambda>owner.
     then_do (case visibility_from_db (plr_visibility row) of
                None \<Rightarrow> Inl (corrupt ''playlist'' ''visibility'') | Some v \<Rightarrow> Inr v) (\<lambda>visibility.
     then_do (row_revision (plr_revision row) ''playlist'') (\<lambda>revision.
       Inr \<lparr>pl_playlist_id = plr_playlist_id row, pl_guild_id = guild, pl_owner_user_id = owner,
            pl_name = plr_name row, pl_description = plr_description row, pl_visibility = visibility,
            pl_revision = revision, pl_created_at = plr_created_at row, pl_updated_at = plr_updated_at row\<rparr>))))"

record playlist_track_row =
  ptr_track_id :: uuid
  ptr_position :: int
  ptr_source_kind :: rstring
  ptr_source_reference :: rstring
  ptr_title :: rstring
  ptr_duration_ms :: "int option"
  ptr_added_by_user_id :: rstring
  ptr_created_at :: int

definition playlist_track_try_from :: "playlist_track_row \<Rightarrow> storage_error + playlist_track" where
  "playlist_track_try_from row =
     then_do (unsigned_column (ptr_position row) ''playlist_track'' ''position'') (\<lambda>position.
     then_do (case source_kind_from_db (ptr_source_kind row) of
                None \<Rightarrow> Inl (corrupt ''playlist_track'' ''source_kind'') | Some k \<Rightarrow> Inr k) (\<lambda>kind.
     then_do (transpose (\<lambda>v. unsigned_column v ''playlist_track'' ''duration_ms'') (ptr_duration_ms row)) (\<lambda>duration.
     then_do (parse_user_id (ptr_added_by_user_id row) ''playlist_track'' ''added_by_user_id'') (\<lambda>user.
       Inr \<lparr>pt_track_id = ptr_track_id row, pt_position = of_nat position, pt_source_kind = kind,
            pt_source_reference = ptr_source_reference row, pt_title = ptr_title row,
            pt_duration_ms = map_option of_nat duration, pt_added_by_user_id = user,
            pt_created_at = ptr_created_at row\<rparr>))))"

end
