(* ===== verification/Postgres_Store.thy ===== *)
theory Postgres_Store
  imports Postgres_Rows
begin

text \<open>
  The PostgreSQL repositories of \<open>crates/pepeaudio-storage/src/postgres\<close>: guild settings with
  optimistic revisions, the catalog of HRIR presets and playlists with their ordered tracks. Each
  statement is one atomic step on the tables; a transaction is one step that commits or leaves
  everything as it was. A request may be lost before the database sees it or its answer afterwards.
\<close>

section \<open>Tables and statements\<close>

record database =
  db_settings :: "rstring \<Rightarrow> guild_settings_row option"
  db_presets :: "rstring \<Rightarrow> hrir_preset_row option"
  db_playlists :: "uuid \<Rightarrow> playlist_row option"
  db_tracks :: "(uuid \<times> playlist_track_row) list"

text \<open>What the constraints of the schema accept beside the primary keys.\<close>

record schema =
  sc_settings :: "database \<Rightarrow> guild_settings_row \<Rightarrow> bool"
  sc_preset :: "database \<Rightarrow> hrir_preset_row \<Rightarrow> bool"
  sc_playlist :: "playlist_row \<Rightarrow> bool"
  sc_track :: "playlist_track_row \<Rightarrow> bool"

definition run_query :: "request_fault \<Rightarrow> (database \<Rightarrow> ('a \<times> database) option) \<Rightarrow> database \<Rightarrow>
    (storage_error + 'a) \<times> database" where
  "run_query f q db =
     (case q db of
        None \<Rightarrow> (Inl Database, db)
      | Some (a, db') \<Rightarrow>
          (case f of NoFault \<Rightarrow> (Inr a, db') | LostBefore \<Rightarrow> (Inl Database, db) | LostAfter \<Rightarrow> (Inl Database, db')))"

definition then_convert :: "('a \<Rightarrow> storage_error + 'b) \<Rightarrow> (storage_error + 'a) \<times> database \<Rightarrow> (storage_error + 'b) \<times> database" where
  "then_convert g r = (then_do (fst r) g, snd r)"

section \<open>Guild settings\<close>

definition duration_seconds :: "nat \<Rightarrow> storage_error + int" where
  "duration_seconds duration = checked_i32 (duration div 10 ^ 9) ''guild_settings'' ''idle_disconnect_seconds''"

definition get_guild_settings :: "request_fault \<Rightarrow> guild_id \<Rightarrow> database \<Rightarrow> (storage_error + guild_settings option) \<times> database" where
  "get_guild_settings f guild db =
     then_convert (transpose guild_settings_try_from) (run_query f (\<lambda>db. Some (db_settings db (guild_text guild), db)) db)"

text \<open>The columns a write binds; the database sets the two times.\<close>

definition bound_settings :: "guild_settings \<Rightarrow> int \<Rightarrow> int \<Rightarrow> int \<Rightarrow> int \<Rightarrow> guild_settings_row" where
  "bound_settings settings idle revision created updated =
     \<lparr>gr_guild_id = guild_text (gs_guild_id settings), gr_volume_percent = uint (volume_percent (gs_volume settings)),
      gr_idle_disconnect_seconds = idle, gr_control_policy = control_policy_as_db (gs_control_policy settings),
      gr_dj_role_id = map_option snowflake_display (gs_dj_role_id settings),
      gr_default_hrir_preset_id = map_option hrir_as_str (gs_default_hrir_preset_id settings),
      gr_spatial_audio_enabled = gs_spatial_audio_enabled settings, gr_revision = revision,
      gr_created_at = created, gr_updated_at = updated\<rparr>"

definition insert_settings :: "schema \<Rightarrow> guild_settings_row \<Rightarrow> database \<Rightarrow> (guild_settings_row option \<times> database) option" where
  "insert_settings sc row db =
     (case db_settings db (gr_guild_id row) of
        Some _ \<Rightarrow> Some (None, db)
      | None \<Rightarrow> if sc_settings sc db row
                then Some (Some row, db\<lparr>db_settings := (db_settings db)(gr_guild_id row \<mapsto> row)\<rparr>) else None)"

definition create_guild_settings ::
  "schema \<Rightarrow> request_fault \<Rightarrow> request_fault \<Rightarrow> int \<Rightarrow> guild_settings \<Rightarrow> database \<Rightarrow> (storage_error + guild_settings) \<times> database" where
  "create_guild_settings sc f f' now defaults db =
     (case duration_seconds (gs_idle_disconnect defaults) of Inl e \<Rightarrow> (Inl e, db) | Inr idle \<Rightarrow>
     (case checked_i64 (unat (settings_revision_get (gs_revision defaults))) ''guild_settings'' ''revision'' of
        Inl e \<Rightarrow> (Inl e, db) | Inr revision \<Rightarrow>
     (case run_query f (insert_settings sc (bound_settings defaults idle revision now now)) db of
        (Inl e, db') \<Rightarrow> (Inl e, db')
      | (Inr (Some row), db') \<Rightarrow> (guild_settings_try_from row, db')
      | (Inr None, db') \<Rightarrow>
          then_convert (\<lambda>found. case found of None \<Rightarrow> Inl (corrupt ''guild_settings'' ''guild_id'') | Some s \<Rightarrow> Inr s)
            (get_guild_settings f' (gs_guild_id defaults) db'))))"

definition update_settings :: "schema \<Rightarrow> guild_settings \<Rightarrow> int \<Rightarrow> int \<Rightarrow> int \<Rightarrow> database \<Rightarrow>
    (guild_settings_row option \<times> database) option" where
  "update_settings sc settings idle expected now db =
     (case db_settings db (guild_text (gs_guild_id settings)) of
        None \<Rightarrow> Some (None, db)
      | Some old \<Rightarrow>
          if gr_revision old \<noteq> expected then Some (None, db)
          else (let row = bound_settings settings idle (gr_revision old + 1) (gr_created_at old) now
                in if gr_revision row < 2 ^ 63 \<and> sc_settings sc db row
                   then Some (Some row, db\<lparr>db_settings := (db_settings db)(gr_guild_id row \<mapsto> row)\<rparr>) else None))"

definition update_guild_settings ::
  "schema \<Rightarrow> request_fault \<Rightarrow> int \<Rightarrow> guild_settings \<Rightarrow> settings_revision \<Rightarrow> database \<Rightarrow>
     (storage_error + guild_settings option) \<times> database" where
  "update_guild_settings sc f now settings expected_revision db =
     (case duration_seconds (gs_idle_disconnect settings) of Inl e \<Rightarrow> (Inl e, db) | Inr idle \<Rightarrow>
     (case checked_i64 (unat (settings_revision_get expected_revision)) ''guild_settings'' ''revision'' of
        Inl e \<Rightarrow> (Inl e, db) | Inr expected \<Rightarrow>
     then_convert (transpose guild_settings_try_from) (run_query f (update_settings sc settings idle expected now) db)))"

section \<open>HRIR presets\<close>

definition bound_preset :: "hrir_preset_metadata \<Rightarrow> int \<Rightarrow> int \<Rightarrow> int \<Rightarrow> hrir_preset_row" where
  "bound_preset preset rate file_size now =
     \<lparr>hr_preset_id = hrir_as_str (hp_preset_id preset), hr_owner_guild_id = map_option guild_text (hp_owner_guild_id preset),
      hr_display_name = hp_display_name preset, hr_description = hp_description preset,
      hr_storage_key = hp_storage_key preset, hr_sha256_hex = hp_sha256_hex preset, hr_sample_rate = rate,
      hr_channel_layout = channel_layout_as_db (hp_channel_layout preset), hr_file_size_bytes = file_size,
      hr_license_name = hp_license_name preset, hr_license_url = hp_license_url preset,
      hr_attribution = hp_attribution preset, hr_created_at = now\<rparr>"

text \<open>The upsert of a global preset: a guild's own preset of that name is not touched, and what was
  curated of its license is kept. The answer is the number of rows affected.\<close>

definition upsert_preset :: "schema \<Rightarrow> hrir_preset_row \<Rightarrow> database \<Rightarrow> (nat \<times> database) option" where
  "upsert_preset sc row db =
     (case db_presets db (hr_preset_id row) of
        None \<Rightarrow> if sc_preset sc db row
                then Some (1, db\<lparr>db_presets := (db_presets db)(hr_preset_id row \<mapsto> row)\<rparr>) else None
      | Some old \<Rightarrow>
          if hr_owner_guild_id old \<noteq> None then Some (0, db)
          else (let new = old\<lparr>hr_display_name := hr_display_name row, hr_description := hr_description row,
                              hr_storage_key := hr_storage_key row, hr_sha256_hex := hr_sha256_hex row,
                              hr_sample_rate := hr_sample_rate row, hr_channel_layout := hr_channel_layout row,
                              hr_file_size_bytes := hr_file_size_bytes row\<rparr>
                in if sc_preset sc db new
                   then Some (1, db\<lparr>db_presets := (db_presets db)(hr_preset_id row \<mapsto> new)\<rparr>) else None))"

fun upsert_presets :: "schema \<Rightarrow> int \<Rightarrow> hrir_preset_metadata list \<Rightarrow> rstring list \<Rightarrow> database \<Rightarrow>
    storage_error + rstring list \<times> database" where
  "upsert_presets sc now [] installed db = Inr (installed, db)"
| "upsert_presets sc now (preset # presets) installed db =
     (if hp_owner_guild_id preset \<noteq> None then Inl (corrupt ''hrir_preset'' ''owner_guild_id'')
      else then_do (checked_i64 (unat (hp_file_size_bytes preset)) ''hrir_preset'' ''file_size_bytes'') (\<lambda>file_size.
           then_do (checked_i32 (unat (hp_sample_rate preset)) ''hrir_preset'' ''sample_rate'') (\<lambda>rate.
             case upsert_preset sc (bound_preset preset rate file_size now) db of
               None \<Rightarrow> Inl Database
             | Some (affected, db') \<Rightarrow>
                 if affected \<noteq> 1 then Inl (corrupt ''hrir_preset'' ''preset_id'')
                 else upsert_presets sc now presets (installed @ [hrir_as_str (hp_preset_id preset)]) db')))"

definition delete_global_presets_except :: "rstring list \<Rightarrow> database \<Rightarrow> database" where
  "delete_global_presets_except installed db =
     db\<lparr>db_presets := (\<lambda>key. case db_presets db key of
          None \<Rightarrow> None
        | Some row \<Rightarrow> if hr_owner_guild_id row = None \<and> key \<notin> set installed then None else Some row)\<rparr>"

text \<open>What a transaction leaves: its fault is that of the commit.\<close>

definition commit_transaction :: "request_fault \<Rightarrow> storage_error + 'a \<times> database \<Rightarrow> database \<Rightarrow> (storage_error + 'a) \<times> database" where
  "commit_transaction f r db =
     (case r of
        Inl e \<Rightarrow> (Inl e, db)
      | Inr (a, db') \<Rightarrow>
          (case f of NoFault \<Rightarrow> (Inr a, db') | LostBefore \<Rightarrow> (Inl Database, db) | LostAfter \<Rightarrow> (Inl Database, db')))"

definition synchronize_global_hrir_presets ::
  "schema \<Rightarrow> request_fault \<Rightarrow> int \<Rightarrow> hrir_preset_metadata list \<Rightarrow> database \<Rightarrow> (storage_error + unit) \<times> database" where
  "synchronize_global_hrir_presets sc f now presets db =
     commit_transaction f (then_do (upsert_presets sc now presets [] db)
                 (\<lambda>(installed, db'). Inr ((), delete_global_presets_except installed db'))) db"

definition get_hrir_preset :: "request_fault \<Rightarrow> hrir_preset_id \<Rightarrow> database \<Rightarrow> (storage_error + hrir_preset_metadata option) \<times> database" where
  "get_hrir_preset f preset db =
     then_convert (transpose hrir_preset_try_from) (run_query f (\<lambda>db. Some (db_presets db (hrir_as_str preset), db)) db)"

definition insert_hrir_preset ::
  "schema \<Rightarrow> request_fault \<Rightarrow> int \<Rightarrow> hrir_preset_metadata \<Rightarrow> database \<Rightarrow> (storage_error + hrir_preset_metadata) \<times> database" where
  "insert_hrir_preset sc f now preset db =
     (case checked_i64 (unat (hp_file_size_bytes preset)) ''hrir_preset'' ''file_size_bytes'' of Inl e \<Rightarrow> (Inl e, db) | Inr file_size \<Rightarrow>
     (case checked_i32 (unat (hp_sample_rate preset)) ''hrir_preset'' ''sample_rate'' of Inl e \<Rightarrow> (Inl e, db) | Inr rate \<Rightarrow>
     then_convert hrir_preset_try_from
       (run_query f (\<lambda>db. let row = bound_preset preset rate file_size now
                          in if db_presets db (hr_preset_id row) = None \<and> sc_preset sc db row
                             then Some (row, db\<lparr>db_presets := (db_presets db)(hr_preset_id row \<mapsto> row)\<rparr>) else None) db)))"

definition delete_hrir_preset :: "request_fault \<Rightarrow> hrir_preset_id \<Rightarrow> guild_id \<Rightarrow> database \<Rightarrow> (storage_error + bool) \<times> database" where
  "delete_hrir_preset f preset guild db =
     run_query f (\<lambda>db. case db_presets db (hrir_as_str preset) of
          None \<Rightarrow> Some (False, db)
        | Some row \<Rightarrow>
            if hr_owner_guild_id row = Some (guild_text guild)
            then Some (True, db\<lparr>db_presets := (db_presets db)(hrir_as_str preset := None)\<rparr>) else Some (False, db)) db"

section \<open>Playlists\<close>

definition bound_playlist :: "playlist \<Rightarrow> int \<Rightarrow> int \<Rightarrow> playlist_row" where
  "bound_playlist p revision now =
     \<lparr>plr_playlist_id = pl_playlist_id p, plr_guild_id = guild_text (pl_guild_id p),
      plr_owner_user_id = user_text (pl_owner_user_id p), plr_name = pl_name p, plr_description = pl_description p,
      plr_visibility = visibility_as_db (pl_visibility p), plr_revision = revision,
      plr_created_at = now, plr_updated_at = now\<rparr>"

definition bound_track :: "playlist_track \<Rightarrow> int \<Rightarrow> int option \<Rightarrow> int \<Rightarrow> playlist_track_row" where
  "bound_track t place duration now =
     \<lparr>ptr_track_id = pt_track_id t, ptr_position = place, ptr_source_kind = source_kind_as_db (pt_source_kind t),
      ptr_source_reference = pt_source_reference t, ptr_title = pt_title t, ptr_duration_ms = duration,
      ptr_added_by_user_id = user_text (pt_added_by_user_id t), ptr_created_at = now\<rparr>"

definition insert_track_row :: "schema \<Rightarrow> uuid \<Rightarrow> playlist_track_row \<Rightarrow> database \<Rightarrow> database option" where
  "insert_track_row sc owner row db =
     (if list_ex (\<lambda>(owner', row'). ptr_track_id row' = ptr_track_id row \<or>
           owner' = owner \<and> ptr_position row' = ptr_position row) (db_tracks db) \<or>
         db_playlists db owner = None \<or> \<not> sc_track sc row
      then None else Some (db\<lparr>db_tracks := db_tracks db @ [(owner, row)]\<rparr>))"

fun insert_tracks :: "schema \<Rightarrow> int \<Rightarrow> uuid \<Rightarrow> nat \<Rightarrow> playlist_track list \<Rightarrow> database \<Rightarrow> storage_error + database" where
  "insert_tracks sc now owner expected_position [] db = Inr db"
| "insert_tracks sc now owner expected_position (t # ts) db =
     (if unat (pt_position t) \<noteq> expected_position then Inl (corrupt ''playlist_track'' ''position'')
      else then_do (checked_i32 (unat (pt_position t)) ''playlist_track'' ''position'') (\<lambda>place.
           then_do (transpose (\<lambda>v. checked_i64 (unat v) ''playlist_track'' ''duration_ms'') (pt_duration_ms t)) (\<lambda>duration.
             case insert_track_row sc owner (bound_track t place duration now) db of
               None \<Rightarrow> Inl Database
             | Some db' \<Rightarrow> insert_tracks sc now owner (expected_position + 1) ts db')))"

definition create_playlist ::
  "schema \<Rightarrow> request_fault \<Rightarrow> int \<Rightarrow> playlist \<Rightarrow> playlist_track list \<Rightarrow> database \<Rightarrow> (storage_error + playlist) \<times> database" where
  "create_playlist sc f now p tracks db =
     then_convert playlist_try_from
       (commit_transaction f
         (then_do (checked_i64 (unat (settings_revision_get (pl_revision p))) ''playlist'' ''revision'') (\<lambda>revision.
            let row = bound_playlist p revision now
            in if db_playlists db (pl_playlist_id p) \<noteq> None \<or> \<not> sc_playlist sc row then Inl Database
               else then_do (insert_tracks sc now (pl_playlist_id p) 0 tracks
                       (db\<lparr>db_playlists := (db_playlists db)(pl_playlist_id p \<mapsto> row)\<rparr>)) (\<lambda>db'. Inr (row, db')))) db)"

definition delete_tracks :: "uuid \<Rightarrow> database \<Rightarrow> database" where
  "delete_tracks owner db = db\<lparr>db_tracks := filter (\<lambda>(owner', _). owner' \<noteq> owner) (db_tracks db)\<rparr>"

definition replace_playlist_tracks ::
  "schema \<Rightarrow> request_fault \<Rightarrow> int \<Rightarrow> uuid \<Rightarrow> settings_revision \<Rightarrow> playlist_track list \<Rightarrow> database \<Rightarrow>
     (storage_error + playlist option) \<times> database" where
  "replace_playlist_tracks sc f now owner expected_revision tracks db =
     then_convert (transpose playlist_try_from)
       (commit_transaction f
         (then_do (checked_i64 (unat (settings_revision_get expected_revision)) ''playlist'' ''revision'') (\<lambda>expected.
            case db_playlists db owner of
              None \<Rightarrow> Inr (None, db)
            | Some old \<Rightarrow>
                if plr_revision old \<noteq> expected then Inr (None, db)
                else (let row = old\<lparr>plr_revision := plr_revision old + 1, plr_updated_at := now\<rparr>
                      in if plr_revision row \<ge> 2 ^ 63 \<or> \<not> sc_playlist sc row then Inl Database
                         else then_do (insert_tracks sc now owner 0 tracks
                                 (delete_tracks owner (db\<lparr>db_playlists := (db_playlists db)(owner \<mapsto> row)\<rparr>)))
                                 (\<lambda>db'. Inr (Some row, db'))))) db)"

text \<open>The tracks of a playlist in their order; \<open>collect\<close> stops at the first row that does not convert.\<close>

fun convert_all :: "('a \<Rightarrow> 'e + 'b) \<Rightarrow> 'a list \<Rightarrow> 'e + 'b list" where
  "convert_all g [] = Inr []"
| "convert_all g (x # xs) = then_do (g x) (\<lambda>y. then_do (convert_all g xs) (\<lambda>ys. Inr (y # ys)))"

text \<open>A query finds the rows of a table in whatever order the database scans them; \<open>ORDER BY\<close> sorts what it found.\<close>

type_synonym table_scan = "playlist_track_row list \<Rightarrow> playlist_track_row list"

definition track_rows :: "table_scan \<Rightarrow> uuid \<Rightarrow> database \<Rightarrow> playlist_track_row list" where
  "track_rows scan owner db =
     sort_key ptr_position (scan (map snd (filter (\<lambda>(owner', _). owner' = owner) (db_tracks db))))"

definition get_playlist ::
  "table_scan \<Rightarrow> request_fault \<Rightarrow> request_fault \<Rightarrow> (database \<Rightarrow> database) \<Rightarrow> uuid \<Rightarrow> database \<Rightarrow>
     (storage_error + (playlist \<times> playlist_track list) option) \<times> database" where
  "get_playlist scan f f' between owner db =
     (case run_query f (\<lambda>db. Some (db_playlists db owner, db)) db of
        (Inl e, db') \<Rightarrow> (Inl e, db')
      | (Inr None, db') \<Rightarrow> (Inr None, db')
      | (Inr (Some row), db') \<Rightarrow>
          then_convert (\<lambda>rows. then_do (convert_all playlist_track_try_from rows) (\<lambda>tracks.
                                then_do (playlist_try_from row) (\<lambda>p. Inr (Some (p, tracks)))))
            (run_query f' (\<lambda>db. Some (track_rows scan owner db, db)) (between db')))"

text \<open>The listings, over the rows in the order the database sorts them.\<close>

definition list_playlists :: "guild_id \<Rightarrow> user_id \<Rightarrow> playlist_row list \<Rightarrow> storage_error + playlist list" where
  "list_playlists guild viewer rows =
     convert_all playlist_try_from
       (filter (\<lambda>row. plr_guild_id row = guild_text guild \<and>
          (plr_visibility row = str ''guild'' \<or> plr_owner_user_id row = user_text viewer)) rows)"

definition list_hrir_presets :: "guild_id \<Rightarrow> hrir_preset_row list \<Rightarrow> storage_error + hrir_preset_metadata list" where
  "list_hrir_presets guild rows =
     convert_all hrir_preset_try_from
       (filter (\<lambda>row. hr_owner_guild_id row = None \<or> hr_owner_guild_id row = Some (guild_text guild)) rows)"

section \<open>What is stored reads back\<close>

definition settings_wf :: "guild_settings \<Rightarrow> bool" where
  "settings_wf s \<longleftrightarrow> guild_get (gs_guild_id s) \<noteq> 0 \<and> volume_wf (gs_volume s) \<and> gs_idle_disconnect s mod 10 ^ 9 = 0 \<and>
     gs_dj_role_id s \<noteq> Some 0 \<and> (\<forall>p. gs_default_hrir_preset_id s = Some p \<longrightarrow> hrir_preset_id_wf p)"

lemma parse_guild_text [simp]: "guild_get g \<noteq> 0 \<Longrightarrow> parse_guild_id (guild_text g) entity field = Inr g"
  by (simp add: parse_guild_id_def snowflake_roundtrip)

lemma parse_user_text [simp]: "user_get u \<noteq> 0 \<Longrightarrow> parse_user_id (user_text u) entity field = Inr u"
  by (simp add: parse_user_id_def snowflake_roundtrip)

lemma parse_role_text [simp]: "r \<noteq> 0 \<Longrightarrow> parse_nonzero_u64 (snowflake_display r) entity field = Inr r"
  by (simp add: parse_nonzero_u64_def snowflake_display_def from_str_radix_decimal)

lemma parse_hrir_text [simp]: "hrir_preset_id_wf p \<Longrightarrow> hrir_preset_id_new (hrir_as_str p) = Inr p"
  by (simp add: hrir_preset_id_new_wf)

lemma checked_columns:
  "checked_i64 n e f = Inr i \<Longrightarrow> 0 \<le> i \<and> nat i = n \<and> n < 2 ^ 63"
  "checked_i32 n e f = Inr i \<Longrightarrow> 0 \<le> i \<and> nat i = n \<and> n < 2 ^ 31"
  by (auto simp: checked_i64_def checked_i32_def split: if_split_asm)

lemma volume_column:
  assumes "volume_wf v"
  shows "volume_new (volume_percent v) = Inr v"
  using assms by (simp add: volume_new_def volume_wf_def volume_max_def)

lemma uint_u8_bound: "uint (x :: u8) < 256"
  using uint_lt2p [of x] by simp

lemma bound_settings_convert:
  assumes "settings_wf s" and "duration_seconds (gs_idle_disconnect s) = Inr idle"
    and "0 \<le> revision"
  shows "guild_settings_try_from (bound_settings s idle revision created updated) =
    Inr (s\<lparr>gs_revision := SettingsRevision (of_nat (nat revision)), gs_created_at := created, gs_updated_at := updated\<rparr>)"
proof -
  have idle: "0 \<le> idle" "nat idle = gs_idle_disconnect s div 10 ^ 9"
    using checked_columns(2) [OF assms(2) [unfolded duration_seconds_def]] by simp_all
  have whole: "gs_idle_disconnect s div 10 ^ 9 * 10 ^ 9 = gs_idle_disconnect s"
    using assms(1) mod_0_imp_dvd [of "gs_idle_disconnect s" "10 ^ 9"] by (simp add: settings_wf_def)
  show ?thesis
    using assms(1,3) idle whole
    by (cases "gs_dj_role_id s"; cases "gs_default_hrir_preset_id s")
      (simp_all add: guild_settings_try_from_def bound_settings_def settings_wf_def volume_column uint_u8_bound
        unsigned_column_def row_revision_def)
qed

lemma volume_new_in: "volume_new p = Inr v \<Longrightarrow> v = Volume p"
  by (auto simp: volume_new_def split: if_split_asm)

text \<open>What a statement that matched a row has written.\<close>

lemma update_settings_row:
  assumes "settings_wf s" and "duration_seconds (gs_idle_disconnect s) = Inr idle"
    and "update_settings sc s idle (int (unat r)) now db = Some (Some row, db')"
  shows "\<exists>old. db_settings db (guild_text (gs_guild_id s)) = Some old \<and> gr_revision old = int (unat r) \<and>
    gr_revision row = int (unat r) + 1 \<and> gr_revision row < 2 ^ 63 \<and> gr_guild_id row = guild_text (gs_guild_id s) \<and>
    guild_settings_try_from row = Inr (s\<lparr>gs_revision := SettingsRevision (r + 1),
       gs_created_at := gr_created_at old, gs_updated_at := now\<rparr>) \<and>
    db' = db\<lparr>db_settings := (db_settings db)(guild_text (gs_guild_id s) \<mapsto> row)\<rparr>"
proof -
  obtain old where old: "db_settings db (guild_text (gs_guild_id s)) = Some old" "gr_revision old = int (unat r)"
      "row = bound_settings s idle (int (unat r) + 1) (gr_created_at old) now" "gr_revision row < 2 ^ 63"
      "db' = db\<lparr>db_settings := (db_settings db)(guild_text (gs_guild_id s) \<mapsto> row)\<rparr>"
    using assms(3) by (auto simp: update_settings_def bound_settings_def Let_def split: option.split_asm if_split_asm)
  have "of_nat (nat (int (unat r) + 1)) = r + 1" by (simp add: nat_add_distrib)
  then show ?thesis
    using bound_settings_convert [OF assms(1,2), of "int (unat r) + 1"] old by (auto simp: bound_settings_def)
qed

lemma update_cases:
  assumes "update_guild_settings sc f now s expected db = (outcome, db')" and "settings_wf s"
  obtains (same) "db' = db" "\<And>u. outcome \<noteq> Inr (Some u)"
    | (applied) old row where "db_settings db (guild_text (gs_guild_id s)) = Some old"
        "gr_revision old = int (unat (settings_revision_get expected))" "gr_revision row = gr_revision old + 1"
        "gr_revision row < 2 ^ 63" "gr_guild_id row = guild_text (gs_guild_id s)" "f \<noteq> LostBefore"
        "guild_settings_try_from row = Inr (s\<lparr>gs_revision := SettingsRevision (settings_revision_get expected + 1),
           gs_created_at := gr_created_at old, gs_updated_at := now\<rparr>)"
        "db' = db\<lparr>db_settings := (db_settings db)(guild_text (gs_guild_id s) \<mapsto> row)\<rparr>"
        "outcome = (if f = NoFault then Inr (Some (s\<lparr>gs_revision := SettingsRevision (settings_revision_get expected + 1),
           gs_created_at := gr_created_at old, gs_updated_at := now\<rparr>)) else Inl Database)"
proof (cases "duration_seconds (gs_idle_disconnect s)")
  case (Inl e)
  then have "db' = db" "\<And>u. outcome \<noteq> Inr (Some u)" using assms(1) by (auto simp: update_guild_settings_def)
  then show ?thesis by (rule same)
next
  case (Inr idle)
  show ?thesis
  proof (cases "checked_i64 (unat (settings_revision_get expected)) ''guild_settings'' ''revision''")
    case (Inl e)
    then have "db' = db" "\<And>u. outcome \<noteq> Inr (Some u)" using assms(1) Inr by (auto simp: update_guild_settings_def)
    then show ?thesis by (rule same)
  next
    case e: (Inr e)
    have e': "e = int (unat (settings_revision_get expected))" using e by (auto simp: checked_i64_def split: if_split_asm)
    let ?q = "update_settings sc s idle e now"
    have run: "then_convert (transpose guild_settings_try_from) (run_query f ?q db) = (outcome, db')"
      using assms(1) Inr e by (simp add: update_guild_settings_def)
    show ?thesis
    proof (cases "\<exists>row db1. ?q db = Some (Some row, db1) \<and> f \<noteq> LostBefore")
      case True
      then obtain row db1 where q: "?q db = Some (Some row, db1)" and f: "f \<noteq> LostBefore" by blast
      obtain old where old: "db_settings db (guild_text (gs_guild_id s)) = Some old"
        "gr_revision old = int (unat (settings_revision_get expected))"
        "gr_revision row = int (unat (settings_revision_get expected)) + 1"
        "gr_revision row < 2 ^ 63" "gr_guild_id row = guild_text (gs_guild_id s)"
        "guild_settings_try_from row = Inr (s\<lparr>gs_revision := SettingsRevision (settings_revision_get expected + 1),
           gs_created_at := gr_created_at old, gs_updated_at := now\<rparr>)"
        "db1 = db\<lparr>db_settings := (db_settings db)(guild_text (gs_guild_id s) \<mapsto> row)\<rparr>"
        using update_settings_row [OF assms(2) Inr q [unfolded e']] by blast
      show ?thesis
        using applied [OF old(1,2) _ old(4,5) f old(6)] old(2,3,7) run q f
        by (cases f) (auto simp: then_convert_def run_query_def old(6))
    next
      case False
      have "db' = db \<and> (\<forall>u. outcome \<noteq> Inr (Some u))"
      proof (cases "?q db")
        case None
        then show ?thesis using run by (auto simp: then_convert_def run_query_def)
      next
        case (Some r)
        obtain found db1 where r: "r = (found, db1)" by (rule prod.exhaust)
        have "found = None \<Longrightarrow> db1 = db"
          using Some r by (auto simp: update_settings_def Let_def split: option.split_asm if_split_asm)
        then show ?thesis
          using False Some r run by (cases f; cases found) (auto simp: then_convert_def run_query_def)
      qed
      then show ?thesis using same by blast
    qed
  qed
qed

text \<open>An update of guild settings applies only at the revision it expects: then the next read
  gives back every value written, at the next revision and with its first time of creation. At any
  other revision, or without a row, nothing changes.\<close>

theorem settings_updates_are_optimistic:
  assumes "settings_wf s" and "gs_guild_id s = g"
    and "update_guild_settings sc NoFault now s expected db = (Inr r, db')"
  shows "case r of
      None \<Rightarrow> db' = db \<and> (\<forall>old. db_settings db (guild_text g) = Some old \<longrightarrow>
        gr_revision old \<noteq> int (unat (settings_revision_get expected)))
    | Some s' \<Rightarrow> (\<exists>old. db_settings db (guild_text g) = Some old \<and>
        gr_revision old = int (unat (settings_revision_get expected)) \<and>
        s' = s\<lparr>gs_revision := SettingsRevision (settings_revision_get expected + 1),
               gs_created_at := gr_created_at old, gs_updated_at := now\<rparr> \<and>
        fst (get_guild_settings NoFault g db') = Inr (Some s') \<and>
        (\<forall>key. key \<noteq> guild_text g \<longrightarrow> db_settings db' key = db_settings db key))"
  using assms(3,1)
proof (cases rule: update_cases)
  case same
  then have "r = None" by auto
  moreover have "gr_revision old \<noteq> int (unat (settings_revision_get expected))"
    if "db_settings db (guild_text g) = Some old" for old
    using assms(2,3) same \<open>r = None\<close> that
    by (auto simp: update_guild_settings_def then_convert_def run_query_def update_settings_def Let_def
        checked_i64_def map_sum_def split: sum.split_asm if_split_asm option.split_asm prod.split_asm)
  ultimately show ?thesis using same by simp
next
  case (applied old row)
  then show ?thesis
    using assms(2) by (auto simp: get_guild_settings_def then_convert_def run_query_def)
qed

theorem created_settings_read_back:
  assumes "settings_wf s" and "db_settings db (guild_text (gs_guild_id s)) = None"
    and "create_guild_settings sc NoFault f now s db = (Inr s', db')"
  shows "s' = s\<lparr>gs_created_at := now, gs_updated_at := now\<rparr>"
    and "fst (get_guild_settings NoFault (gs_guild_id s) db') = Inr (Some s')"
proof -
  obtain idle e where idle: "duration_seconds (gs_idle_disconnect s) = Inr idle"
    and e: "checked_i64 (unat (settings_revision_get (gs_revision s))) ''guild_settings'' ''revision'' = Inr e"
    using assms(3) by (auto simp: create_guild_settings_def split: sum.split_asm)
  let ?row = "bound_settings s idle e now now"
  have e': "e = int (unat (settings_revision_get (gs_revision s)))" using e by (auto simp: checked_i64_def split: if_split_asm)
  have key: "gr_guild_id ?row = guild_text (gs_guild_id s)" by (simp add: bound_settings_def)
  have conv: "guild_settings_try_from ?row = Inr (s\<lparr>gs_created_at := now, gs_updated_at := now\<rparr>)"
    using bound_settings_convert [OF assms(1) idle, of e] by (simp add: e')
  show "s' = s\<lparr>gs_created_at := now, gs_updated_at := now\<rparr>"
    and "fst (get_guild_settings NoFault (gs_guild_id s) db') = Inr (Some s')"
    using assms(2,3) conv
    by (auto simp: create_guild_settings_def idle e run_query_def insert_settings_def key get_guild_settings_def
        then_convert_def split: if_split_asm)
qed

definition track_row :: "int \<Rightarrow> playlist_track \<Rightarrow> playlist_track_row" where
  "track_row now t = bound_track t (int (unat (pt_position t))) (map_option (int \<circ> unat) (pt_duration_ms t)) now"

lemma checked_i32_value: "checked_i32 n e f = Inr i \<Longrightarrow> i = int n"
  and checked_i64_value: "checked_i64 n e f = Inr i \<Longrightarrow> i = int n"
  by (auto simp: checked_i32_def checked_i64_def split: if_split_asm)

lemma inserted_tracks:
  assumes "insert_tracks sc now owner n ts db = Inr db'"
  shows "db' = db\<lparr>db_tracks := db_tracks db @ map (\<lambda>t. (owner, track_row now t)) ts\<rparr> \<and>
    map (unat \<circ> pt_position) ts = [n..<n + length ts]"
  using assms
proof (induction ts arbitrary: n db)
  case (Cons t ts)
  obtain place duration db1 where pos: "unat (pt_position t) = n"
    and place: "checked_i32 (unat (pt_position t)) ''playlist_track'' ''position'' = Inr place"
    and duration: "transpose (\<lambda>v. checked_i64 (unat v) ''playlist_track'' ''duration_ms'') (pt_duration_ms t) = Inr duration"
    and row: "insert_track_row sc owner (bound_track t place duration now) db = Some db1"
    and rest: "insert_tracks sc now owner (n + 1) ts db1 = Inr db'"
    using Cons.prems by (auto simp: then_do_def split: if_split_asm sum.split_asm option.split_asm)
  have "place = int (unat (pt_position t))" using place by (rule checked_i32_value)
  moreover have "duration = map_option (int \<circ> unat) (pt_duration_ms t)"
    using duration by (auto simp: transpose_def map_sum_def dest: checked_i64_value split: option.split_asm sum.split_asm)
  ultimately have "bound_track t place duration now = track_row now t" by (simp add: track_row_def)
  then have "db1 = db\<lparr>db_tracks := db_tracks db @ [(owner, track_row now t)]\<rparr>"
    using row by (auto simp: insert_track_row_def split: if_split_asm)
  then show ?case using Cons.IH [OF rest] pos by (simp add: upt_rec)
qed simp

lemma track_row_converts:
  assumes "user_get (pt_added_by_user_id t) \<noteq> 0"
  shows "playlist_track_try_from (track_row now t) = Inr (t\<lparr>pt_created_at := now\<rparr>)"
  using assms
  by (cases "pt_duration_ms t")
    (simp_all add: playlist_track_try_from_def track_row_def bound_track_def unsigned_column_def)

lemma convert_all_map:
  "(\<And>x. x \<in> set xs \<Longrightarrow> g (h x) = Inr (k x)) \<Longrightarrow> convert_all g (map h xs) = Inr (map k xs)"
  by (induction xs) simp_all

text \<open>What is relied on of a scan: it finds every row, once.\<close>

definition finds_all :: "table_scan \<Rightarrow> bool" where
  "finds_all scan \<longleftrightarrow> (\<forall>rows. mset (scan rows) = mset rows)"

lemma sort_scanned:
  assumes "finds_all scan" and "sorted (map key rows)" and "distinct (map key rows)"
  shows "sort_key key (scan rows) = rows"
proof (rule map_sorted_distinct_set_unique [where f = key])
  have scanned: "mset (scan rows) = mset rows" using assms(1) by (simp add: finds_all_def)
  then have rows: "set (scan rows) = set rows" by (rule mset_eq_setD)
  then show "set (sort_key key (scan rows)) = set rows" by simp
  show "inj_on key (set (sort_key key (scan rows)) \<union> set rows)" using assms(3) rows by (simp add: distinct_map)
  have "mset (map key (sort_key key (scan rows))) = mset (map key rows)" using scanned by simp
  then show "distinct (map key (sort_key key (scan rows)))" using assms(3) mset_eq_imp_distinct_iff by blast
qed (use assms in simp_all)

lemma own_track_rows:
  assumes "finds_all scan" and "\<And>o' row. (o', row) \<in> set (db_tracks db) \<Longrightarrow> o' \<noteq> owner"
    and "map (unat \<circ> pt_position) ts = [0..<length ts]"
  shows "track_rows scan owner (db\<lparr>db_tracks := db_tracks db @ map (\<lambda>t. (owner, track_row now t)) ts\<rparr>) = map (track_row now) ts"
proof -
  have others: "filter (\<lambda>(o', _). o' = owner) (db_tracks db) = []"
    using assms(2) by (auto simp: filter_empty_conv)
  have places: "map ptr_position (map (track_row now) ts) = map int [0..<length ts]"
    unfolding assms(3) [symmetric] by (simp add: track_row_def bound_track_def)
  have "sorted (map ptr_position (map (track_row now) ts))" unfolding places by (simp add: sorted_map_mono mono_onI)
  moreover have "distinct (map ptr_position (map (track_row now) ts))" unfolding places by (simp add: distinct_map)
  ultimately have "sort_key ptr_position (scan (map (track_row now) ts)) = map (track_row now) ts" by (rule sort_scanned [OF assms(1)])
  then show ?thesis by (simp add: track_rows_def others filter_map o_def)
qed

definition playlist_wf :: "playlist \<Rightarrow> bool" where
  "playlist_wf p \<longleftrightarrow> guild_get (pl_guild_id p) \<noteq> 0 \<and> user_get (pl_owner_user_id p) \<noteq> 0"

lemma bound_playlist_converts:
  assumes "playlist_wf p" and "0 \<le> revision"
  shows "playlist_try_from (bound_playlist p revision now) =
    Inr (p\<lparr>pl_revision := SettingsRevision (of_nat (nat revision)), pl_created_at := now, pl_updated_at := now\<rparr>)"
  using assms by (simp add: playlist_try_from_def bound_playlist_def playlist_wf_def row_revision_def unsigned_column_def)

text \<open>What a creation that the database carried out leaves.\<close>

definition reads_back :: "int \<Rightarrow> playlist \<Rightarrow> playlist_track list \<Rightarrow> database \<Rightarrow> bool" where
  "reads_back now p tracks db \<longleftrightarrow>
     (\<forall>scan. finds_all scan \<longrightarrow> fst (get_playlist scan NoFault NoFault id (pl_playlist_id p) db) =
        Inr (Some (p\<lparr>pl_created_at := now, pl_updated_at := now\<rparr>, map (\<lambda>t. t\<lparr>pt_created_at := now\<rparr>) tracks)))"

lemma created_playlist:
  assumes "playlist_wf p" and "\<forall>t \<in> set tracks. user_get (pt_added_by_user_id t) \<noteq> 0"
    and "\<forall>(owner, row) \<in> set (db_tracks db). db_playlists db owner \<noteq> None"
    and "checked_i64 (unat (settings_revision_get (pl_revision p))) ''playlist'' ''revision'' = Inr revision"
    and new: "db_playlists db (pl_playlist_id p) = None"
    and tracks: "insert_tracks sc now (pl_playlist_id p) 0 tracks
      (db\<lparr>db_playlists := (db_playlists db)(pl_playlist_id p \<mapsto> bound_playlist p revision now)\<rparr>) = Inr db'"
  shows "playlist_try_from (bound_playlist p revision now) = Inr (p\<lparr>pl_created_at := now, pl_updated_at := now\<rparr>)"
    and "reads_back now p tracks db'" and "map (unat \<circ> pt_position) tracks = [0..<length tracks]"
proof -
  have "revision = int (unat (settings_revision_get (pl_revision p)))" using assms(4) by (rule checked_i64_value)
  then show converted: "playlist_try_from (bound_playlist p revision now) = Inr (p\<lparr>pl_created_at := now, pl_updated_at := now\<rparr>)"
    using bound_playlist_converts [OF assms(1), of revision now] by simp
  note inserted = inserted_tracks [OF tracks]
  then show "map (unat \<circ> pt_position) tracks = [0..<length tracks]" by simp
  have others: "\<And>owner row. (owner, row) \<in> set (db_tracks db) \<Longrightarrow> owner \<noteq> pl_playlist_id p"
    using assms(3) new by fastforce
  have rows: "track_rows scan (pl_playlist_id p) db' = map (track_row now) tracks" if "finds_all scan" for scan
    using own_track_rows [OF that, of "db\<lparr>db_playlists := (db_playlists db)(pl_playlist_id p \<mapsto> bound_playlist p revision now)\<rparr>"
        "pl_playlist_id p" tracks now] others inserted by simp
  have "convert_all playlist_track_try_from (map (track_row now) tracks) = Inr (map (\<lambda>t. t\<lparr>pt_created_at := now\<rparr>) tracks)"
    by (rule convert_all_map) (use assms(2) track_row_converts in auto)
  moreover have "db_playlists db' (pl_playlist_id p) = Some (bound_playlist p revision now)"
    using inserted by simp
  ultimately show "reads_back now p tracks db'"
    by (simp add: reads_back_def get_playlist_def run_query_def then_convert_def rows converted)
qed

text \<open>C36: The creation of a playlist is all or nothing. When it succeeds the answer is the given playlist with
  the time of its creation, and it reads back so, with all its tracks in their order, however the
  database scans its table; the tracks were numbered from zero. When it fails nothing has changed,
  unless only the answer of the commit was lost: then it is the database error that is answered and
  the playlist is stored the same.\<close>

theorem playlists_read_back:
  assumes "playlist_wf p" and "\<forall>t \<in> set tracks. user_get (pt_added_by_user_id t) \<noteq> 0"
    and "\<forall>(owner, row) \<in> set (db_tracks db). db_playlists db owner \<noteq> None"
    and "create_playlist sc f now p tracks db = (outcome, db')"
  shows "case outcome of
      Inr p' \<Rightarrow> p' = p\<lparr>pl_created_at := now, pl_updated_at := now\<rparr> \<and> reads_back now p tracks db' \<and>
        map (unat \<circ> pt_position) tracks = [0..<length tracks]
    | Inl e \<Rightarrow> db' = db \<or>
        f = LostAfter \<and> e = Database \<and> reads_back now p tracks db' \<and> map (unat \<circ> pt_position) tracks = [0..<length tracks]"
proof (cases "\<exists>e. outcome = Inl e \<and> db' = db")
  case False
  obtain revision db1 where ran: "checked_i64 (unat (settings_revision_get (pl_revision p))) ''playlist'' ''revision'' = Inr revision"
      "db_playlists db (pl_playlist_id p) = None"
      "insert_tracks sc now (pl_playlist_id p) 0 tracks
        (db\<lparr>db_playlists := (db_playlists db)(pl_playlist_id p \<mapsto> bound_playlist p revision now)\<rparr>) = Inr db1"
      "(outcome, db') = then_convert playlist_try_from (commit_transaction f (Inr (bound_playlist p revision now, db1)) db)"
    using assms(4) False
    by (auto simp: create_playlist_def then_convert_def commit_transaction_def Let_def then_do_def
        split: sum.split_asm if_split_asm)
  note made = created_playlist [OF assms(1-3) ran(1-3)]
  show ?thesis
    using ran(4) made False by (cases f) (auto simp: then_convert_def commit_transaction_def)
qed (auto split: sum.split)

section \<open>Synchronizing the global presets\<close>

text \<open>How a row may change: owned rows and rows of other names not at all, global ones only outside
  what was curated.\<close>

definition preset_kept :: "hrir_preset_row option \<Rightarrow> hrir_preset_row option \<Rightarrow> bool" where
  "preset_kept before after \<longleftrightarrow>
     (case before of
        None \<Rightarrow> is_some_and (\<lambda>row. hr_owner_guild_id row = None) after \<or> after = None
      | Some old \<Rightarrow>
          if hr_owner_guild_id old \<noteq> None then after = Some old
          else is_some_and (\<lambda>row. hr_owner_guild_id row = None \<and> hr_license_name row = hr_license_name old \<and>
                 hr_license_url row = hr_license_url old \<and> hr_attribution row = hr_attribution old \<and>
                 hr_created_at row = hr_created_at old) after)"

lemma preset_kept_refl: "is_some_and (\<lambda>row. True) r \<or> r = None \<Longrightarrow> preset_kept r r"
  by (cases r) (auto simp: preset_kept_def is_some_and_def)

lemma preset_kept_trans: "preset_kept a b \<Longrightarrow> preset_kept b c \<Longrightarrow> preset_kept a c"
  by (auto simp: preset_kept_def is_some_and_def split: option.split_asm if_split_asm)

lemma upsert_one:
  assumes "upsert_preset sc row db = Some (1, db')" and "hr_owner_guild_id row = None"
  shows "preset_kept (db_presets db key) (db_presets db' key)"
    and "is_some_and (\<lambda>row. hr_owner_guild_id row = None) (db_presets db' (hr_preset_id row))"
    and "key \<noteq> hr_preset_id row \<Longrightarrow> db_presets db' key = db_presets db key"
  using assms
  by (auto simp: upsert_preset_def Let_def preset_kept_def is_some_and_def split: option.split_asm option.split if_split_asm)

lemma upserted_presets:
  assumes "upsert_presets sc now presets installed db = Inr (installed', db')"
  shows "installed' = installed @ map (hrir_as_str \<circ> hp_preset_id) presets"
    and "preset_kept (db_presets db key) (db_presets db' key)"
    and "\<forall>p \<in> set presets. is_some_and (\<lambda>row. hr_owner_guild_id row = None) (db_presets db' (hrir_as_str (hp_preset_id p)))"
  using assms
proof (induction presets arbitrary: installed db key)
  case Nil
  { case 1 then show ?case by simp }
  { case 2 then show ?case by (simp add: preset_kept_refl is_some_and_def split: option.split) }
  { case 3 then show ?case by simp }
next
  case (Cons p ps)
  have step: "\<exists>row db1. upsert_preset sc row db = Some (1, db1) \<and> hr_owner_guild_id row = None \<and>
      hr_preset_id row = hrir_as_str (hp_preset_id p) \<and>
      upsert_presets sc now ps (installed @ [hrir_as_str (hp_preset_id p)]) db1 = Inr (installed', db')"
    if prem: "upsert_presets sc now (p # ps) installed db = Inr (installed', db')" for installed db
  proof -
    obtain size_column rate db1 where row: "upsert_preset sc (bound_preset p rate size_column now) db = Some (1, db1)"
      and "hp_owner_guild_id p = None"
      and rest: "upsert_presets sc now ps (installed @ [hrir_as_str (hp_preset_id p)]) db1 = Inr (installed', db')"
      using prem by (auto simp: then_do_def split: if_split_asm sum.split_asm option.split_asm prod.split_asm)
    then show ?thesis by (intro exI [of _ "bound_preset p rate size_column now"]) (simp add: bound_preset_def)
  qed
  { case 1 then show ?case using step [OF 1] Cons.IH(1) by fastforce }
  { case 2
    then obtain row db1 where "upsert_preset sc row db = Some (1, db1)" "hr_owner_guild_id row = None"
      "upsert_presets sc now ps (installed @ [hrir_as_str (hp_preset_id p)]) db1 = Inr (installed', db')"
      using step by blast
    then show ?case using preset_kept_trans [OF upsert_one(1) Cons.IH(2)] by blast }
  { case 3
    then obtain row db1 where one: "upsert_preset sc row db = Some (1, db1)" "hr_owner_guild_id row = None"
      "hr_preset_id row = hrir_as_str (hp_preset_id p)"
      and rest: "upsert_presets sc now ps (installed @ [hrir_as_str (hp_preset_id p)]) db1 = Inr (installed', db')"
      using step by blast
    have "is_some_and (\<lambda>row. hr_owner_guild_id row = None) (db_presets db1 (hrir_as_str (hp_preset_id p)))"
      using upsert_one(2) [OF one(1,2)] one(3) by simp
    then have "is_some_and (\<lambda>row. hr_owner_guild_id row = None) (db_presets db' (hrir_as_str (hp_preset_id p)))"
      using Cons.IH(2) [OF rest, of "hrir_as_str (hp_preset_id p)"]
      by (auto simp: is_some_and_def preset_kept_def split: option.split_asm)
    then show ?case using Cons.IH(3) [OF rest] by simp }
qed

text \<open>Synchronizing the catalog installs exactly the given presets as the global ones: what is not
  among them is removed, presets of guilds are untouched, what was curated of a preset's license is
  kept; and a synchronization that fails changes nothing unless only its answer was lost.\<close>

theorem synchronization_installs_exactly:
  assumes "synchronize_global_hrir_presets sc f now presets db = (outcome, db')"
  shows "case outcome of
      Inr _ \<Rightarrow> (\<forall>key. is_some_and (\<lambda>row. hr_owner_guild_id row = None) (db_presets db' key) \<longleftrightarrow>
          key \<in> (hrir_as_str \<circ> hp_preset_id) ` set presets) \<and>
        (\<forall>key row. db_presets db key = Some row \<longrightarrow> hr_owner_guild_id row \<noteq> None \<longrightarrow> db_presets db' key = Some row) \<and>
        (\<forall>key row row'. db_presets db key = Some row \<longrightarrow> db_presets db' key = Some row' \<longrightarrow>
          hr_license_name row' = hr_license_name row \<and> hr_license_url row' = hr_license_url row \<and>
          hr_attribution row' = hr_attribution row)
    | Inl _ \<Rightarrow> f \<noteq> LostAfter \<longrightarrow> db' = db"
proof (cases "upsert_presets sc now presets [] db")
  case (Inl e)
  then show ?thesis using assms by (auto simp: synchronize_global_hrir_presets_def commit_transaction_def)
next
  case (Inr r)
  obtain installed db1 where r: "r = (installed, db1)" by (rule prod.exhaust)
  note up = upserted_presets [OF Inr [unfolded r]]
  show ?thesis
  proof (cases "f = NoFault")
    case True
    then have outcome: "outcome = Inr ()" and db': "db' = delete_global_presets_except installed db1"
      using assms Inr r by (auto simp: synchronize_global_hrir_presets_def commit_transaction_def)
    have after: "db_presets db' key = (case db_presets db1 key of None \<Rightarrow> None
        | Some row \<Rightarrow> if hr_owner_guild_id row = None \<and> key \<notin> set installed then None else Some row)" for key
      by (simp add: db' delete_global_presets_except_def)
    have exact: "is_some_and (\<lambda>row. hr_owner_guild_id row = None) (db_presets db' key) \<longleftrightarrow>
        key \<in> (hrir_as_str \<circ> hp_preset_id) ` set presets" for key
    proof (cases "db_presets db1 key")
      case None
      then show ?thesis using up(3) by (fastforce simp: after is_some_and_def)
    next
      case (Some row)
      have "hr_owner_guild_id row = None" if "key \<in> (hrir_as_str \<circ> hp_preset_id) ` set presets"
        using up(3) that Some by (fastforce simp: is_some_and_def)
      then show ?thesis using Some up(1) by (auto simp: after is_some_and_def)
    qed
    have untouched: "db_presets db' key = Some row"
      if "db_presets db key = Some row" "hr_owner_guild_id row \<noteq> None" for key row
      using up(2) [of key] that by (auto simp: after preset_kept_def)
    have curated: "hr_license_name row' = hr_license_name row \<and> hr_license_url row' = hr_license_url row \<and>
        hr_attribution row' = hr_attribution row"
      if rows: "db_presets db key = Some row" "db_presets db' key = Some row'" for key row row'
    proof -
      have "db_presets db1 key = Some row'"
        using rows(2) by (simp add: after split: option.split_asm if_split_asm)
      then have "preset_kept (Some row) (Some row')" using up(2) [of key] rows(1) by simp
      then show ?thesis by (auto simp: preset_kept_def is_some_and_def split: if_split_asm)
    qed
    show ?thesis unfolding outcome sum.case using exact untouched curated by blast
  next
    case False
    then show ?thesis
      using assms Inr r by (cases f) (auto simp: synchronize_global_hrir_presets_def commit_transaction_def)
  qed
qed

end
