(* ===== verification/Settings_Worker.thy ===== *)
theory Settings_Worker
  imports Postgres_Store
begin

text \<open>
  Durable player settings, \<open>crates/pepeaudio-runtime/src/settings_model.rs\<close>,
  \<open>settings_publisher.rs\<close>, \<open>settings_worker.rs\<close> and \<open>settings_persistence.rs\<close>: the write of the newest
  values with optimistic revisions, the worker of a guild with its retries, and the supervisor with
  its shutdown. The branch a \<open>select\<close> without bias takes among the ready ones comes with the step.
\<close>

section \<open>Values and updates\<close>

record player_settings =
  st_volume :: volume
  st_hrir_preset :: hrir_preset_id
  st_spatial_audio_enabled :: bool

definition settings_from_snapshot :: "player_snapshot \<Rightarrow> player_settings option" where
  "settings_from_snapshot p =
     map_option (\<lambda>preset. \<lparr>st_volume = ps_volume p, st_hrir_preset = preset,
                            st_spatial_audio_enabled = ps_spatial_audio_enabled p\<rparr>) (ps_hrir_preset p)"

definition settings_from_guild :: "guild_settings \<Rightarrow> player_settings option" where
  "settings_from_guild s =
     map_option (\<lambda>preset. \<lparr>st_volume = gs_volume s, st_hrir_preset = preset,
                            st_spatial_audio_enabled = gs_spatial_audio_enabled s\<rparr>) (gs_default_hrir_preset_id s)"

record settings_update =
  su_actor_revision :: state_revision
  su_settings :: player_settings

section \<open>Writing the newest values\<close>

datatype settings_worker_error = Repository | Conflict | FinalSettingsWriteFailed

definition matches_desired :: "guild_settings \<Rightarrow> player_settings \<Rightarrow> bool" where
  "matches_desired current desired \<longleftrightarrow>
     gs_volume current = st_volume desired \<and> gs_default_hrir_preset_id current = Some (st_hrir_preset desired) \<and>
     gs_spatial_audio_enabled current = st_spatial_audio_enabled desired"

definition with_desired :: "guild_settings \<Rightarrow> player_settings \<Rightarrow> guild_settings" where
  "with_desired current desired =
     current\<lparr>gs_volume := st_volume desired, gs_default_hrir_preset_id := Some (st_hrir_preset desired),
             gs_spatial_audio_enabled := st_spatial_audio_enabled desired\<rparr>"

text \<open>The surroundings of a write: the constraints, and for each request its fault, the time of the
  database and what other clients did before it.\<close>

record write_env =
  we_schema :: schema
  we_fault :: "nat \<Rightarrow> request_fault"
  we_now :: "nat \<Rightarrow> int"
  we_others :: "nat \<Rightarrow> database \<Rightarrow> database"

fun persist_rounds ::
  "write_env \<Rightarrow> guild_id \<Rightarrow> player_settings \<Rightarrow> nat \<Rightarrow> nat \<Rightarrow> guild_settings \<Rightarrow> database \<Rightarrow>
     (settings_worker_error + guild_settings) \<times> nat \<times> database" where
  "persist_rounds env guild desired 0 i current db = (Inl Conflict, i, db)"
| "persist_rounds env guild desired (Suc rounds) i current db =
     (if matches_desired current desired then (Inr current, i, db)
      else (case update_guild_settings (we_schema env) (we_fault env i) (we_now env i) (with_desired current desired)
                   (gs_revision current) (we_others env i db) of
          (Inl _, db') \<Rightarrow> (Inl Repository, i + 1, db')
        | (Inr (Some updated), db') \<Rightarrow> (Inr updated, i + 1, db')
        | (Inr None, db') \<Rightarrow>
            (case get_guild_settings (we_fault env (i + 1)) guild (we_others env (i + 1) db') of
               (Inr (Some newer), db'') \<Rightarrow> persist_rounds env guild desired rounds (i + 2) newer db''
             | (_, db'') \<Rightarrow> (Inl Repository, i + 2, db''))))"

definition persist_latest ::
  "write_env \<Rightarrow> guild_id \<Rightarrow> guild_settings \<Rightarrow> player_settings \<Rightarrow> database \<Rightarrow>
     (settings_worker_error + guild_settings) \<times> nat \<times> database" where
  "persist_latest env guild seed desired db =
     (if gs_guild_id seed = guild then persist_rounds env guild desired 8 0 seed db
      else (case get_guild_settings (we_fault env 0) guild (we_others env 0 db) of
              (Inr (Some current), db') \<Rightarrow> persist_rounds env guild desired 8 1 current db'
            | (_, db') \<Rightarrow> (Inl Repository, 1, db')))"

section \<open>The worker of a guild\<close>

record settings_worker_config =
  sc_write_timeout :: nat
  sc_initial_retry :: nat
  sc_maximum_retry :: nat

definition settings_worker_config_default :: settings_worker_config where
  "settings_worker_config_default =
     \<lparr>sc_write_timeout = 10 * 10 ^ 9, sc_initial_retry = 100 * 10 ^ 6, sc_maximum_retry = 30 * 10 ^ 9\<rparr>"

datatype settings_phase =
  SettingsIdle | SettingsWriting settings_update | SettingsRetrying settings_update
  | SettingsFlushing settings_update | SettingsEnded "settings_worker_error option"

record settings_worker =
  wk_durable :: guild_settings
  wk_pending :: "settings_update option"
  wk_mail_unseen :: bool
  wk_shutdown_unseen :: bool
  wk_phase :: settings_phase
  wk_current :: guild_settings
  wk_retry :: nat

datatype settings_choice = TakeMailbox | TakeShutdown | TakeSleep

text \<open>\<open>Some\<close> the row a write returned, \<open>None\<close> when it failed or timed out.\<close>

datatype settings_completion = Chosen settings_choice | SettingsWritten "guild_settings option"

definition loop_head :: "settings_worker \<Rightarrow> settings_worker" where
  "loop_head w =
     w\<lparr>wk_mail_unseen := False,
       wk_phase := case wk_pending w of None \<Rightarrow> SettingsIdle | Some update \<Rightarrow> SettingsWriting update\<rparr>"

definition settings_written :: "settings_worker_config \<Rightarrow> settings_update \<Rightarrow> guild_settings \<Rightarrow> settings_worker \<Rightarrow> settings_worker" where
  "settings_written config update updated w =
     loop_head
       (w\<lparr>wk_current := updated, wk_retry := sc_initial_retry config, wk_durable := updated,
          wk_pending := (if map_option su_actor_revision (wk_pending w) = Some (su_actor_revision update)
                         then None else wk_pending w),
          wk_mail_unseen := True\<rparr>)"

definition retry_doubled :: "settings_worker_config \<Rightarrow> settings_worker \<Rightarrow> settings_worker" where
  "retry_doubled config w = w\<lparr>wk_retry := min (wk_retry w * 2) (sc_maximum_retry config)\<rparr>"

definition poll_settings_worker ::
  "settings_worker_config \<Rightarrow> bool \<Rightarrow> settings_completion \<Rightarrow> settings_worker \<Rightarrow> settings_worker" where
  "poll_settings_worker config shutdown c w =
     (case wk_phase w of
        SettingsIdle \<Rightarrow>
          (if c = Chosen TakeMailbox \<and> wk_mail_unseen w then loop_head w
           else if c = Chosen TakeShutdown \<and> wk_shutdown_unseen w
           then (let w = w\<lparr>wk_shutdown_unseen := False\<rparr>
                 in if shutdown then w\<lparr>wk_phase := SettingsEnded None\<rparr> else loop_head w)
           else w)
      | SettingsWriting update \<Rightarrow>
          (case c of
             SettingsWritten (Some updated) \<Rightarrow> settings_written config update updated w
           | SettingsWritten None \<Rightarrow>
               if shutdown then w\<lparr>wk_phase := SettingsEnded (Some FinalSettingsWriteFailed)\<rparr>
               else w\<lparr>wk_phase := SettingsRetrying update\<rparr>
           | Chosen _ \<Rightarrow> w)
      | SettingsRetrying update \<Rightarrow>
          (if c = Chosen TakeSleep \<or> c = Chosen TakeMailbox \<and> wk_mail_unseen w
           then loop_head (retry_doubled config w)
           else if c = Chosen TakeShutdown \<and> wk_shutdown_unseen w
           then (let w = w\<lparr>wk_shutdown_unseen := False\<rparr>
                 in if shutdown
                    then (case wk_pending w of
                            Some latest \<Rightarrow> w\<lparr>wk_phase := SettingsFlushing latest\<rparr>
                          | None \<Rightarrow> w\<lparr>wk_phase := SettingsEnded None\<rparr>)
                    else loop_head (retry_doubled config w))
           else w)
      | SettingsFlushing update \<Rightarrow>
          (case c of
             SettingsWritten (Some _) \<Rightarrow> w\<lparr>wk_phase := SettingsEnded None\<rparr>
           | SettingsWritten None \<Rightarrow> w\<lparr>wk_phase := SettingsEnded (Some FinalSettingsWriteFailed)\<rparr>
           | Chosen _ \<Rightarrow> w)
      | SettingsEnded _ \<Rightarrow> w)"

section \<open>Publishers\<close>

datatype settings_publish_error = SettingsGuildMismatch | SettingsSupervisorClosed

record settings_publisher =
  sb_guild_id :: guild_id
  sb_initial :: player_settings
  sb_armed :: bool
  sb_persist_initial :: bool
  sb_last_accepted :: player_settings

definition new_settings_publisher :: "guild_id \<Rightarrow> player_settings \<Rightarrow> bool \<Rightarrow> settings_publisher" where
  "new_settings_publisher guild initial persist_initial =
     \<lparr>sb_guild_id = guild, sb_initial = initial, sb_armed = False, sb_persist_initial = persist_initial,
      sb_last_accepted = initial\<rparr>"

definition settings_queue :: "settings_update \<Rightarrow> settings_worker \<Rightarrow> settings_worker" where
  "settings_queue update w =
     (if (case wk_pending w of None \<Rightarrow> True | Some current \<Rightarrow> su_actor_revision update > su_actor_revision current)
      then w\<lparr>wk_pending := Some update, wk_mail_unseen := True\<rparr> else w)"

definition settings_closed :: "bool \<Rightarrow> settings_worker \<Rightarrow> bool" where
  "settings_closed closing w \<longleftrightarrow> closing \<or> (case wk_phase w of SettingsEnded _ \<Rightarrow> True | _ \<Rightarrow> False)"

definition settings_publish ::
  "bool \<Rightarrow> player_snapshot \<Rightarrow> settings_publisher \<Rightarrow> settings_worker \<Rightarrow>
     (settings_publish_error + unit) \<times> settings_publisher \<times> settings_worker" where
  "settings_publish closing snapshot b w =
     (if ps_guild_id snapshot \<noteq> sb_guild_id b then (Inl SettingsGuildMismatch, b, w)
      else if settings_closed closing w then (Inl SettingsSupervisorClosed, b, w)
      else (case settings_from_snapshot snapshot of
              None \<Rightarrow> (Inr (), b, w)
            | Some settings \<Rightarrow>
                let update = \<lparr>su_actor_revision = ps_revision snapshot, su_settings = settings\<rparr>
                in if \<not> sb_armed b
                   then (if settings = sb_initial b
                         then (if sb_persist_initial b
                               then (Inr (), b\<lparr>sb_armed := True, sb_last_accepted := settings, sb_persist_initial := False\<rparr>,
                                     settings_queue update w)
                               else (Inr (), b\<lparr>sb_armed := True, sb_last_accepted := settings\<rparr>, w))
                         else (Inr (), b, w))
                   else if settings = sb_last_accepted b then (Inr (), b, w)
                   else (Inr (), b\<lparr>sb_last_accepted := settings\<rparr>, settings_queue update w)))"

text \<open>The publisher that feeds both paths.\<close>

datatype persistent_publish_error = RealtimeUnavailable | SettingsUnavailable | BothUnavailable

definition persistent_publish :: "'e + unit \<Rightarrow> settings_publish_error + unit \<Rightarrow> persistent_publish_error + unit" where
  "persistent_publish primary settings =
     (case (isl primary, isl settings) of
        (False, False) \<Rightarrow> Inr ()
      | (True, False) \<Rightarrow> Inl RealtimeUnavailable
      | (False, True) \<Rightarrow> Inl SettingsUnavailable
      | (True, True) \<Rightarrow> Inl BothUnavailable)"

section \<open>The supervisor\<close>

record settings_supervisor =
  sv_config :: settings_worker_config
  sv_closing :: bool
  sv_shutdown :: bool
  sv_workers :: "guild_id \<Rightarrow> settings_worker option"

definition settings_start :: "settings_worker_config \<Rightarrow> settings_supervisor" where
  "settings_start config = \<lparr>sv_config = config, sv_closing = False, sv_shutdown = False, sv_workers = (\<lambda>_. None)\<rparr>"

text \<open>\<open>begin_shutdown\<close> tells every receiver there is.\<close>

definition begin_shutdown :: "settings_supervisor \<Rightarrow> settings_supervisor" where
  "begin_shutdown s =
     s\<lparr>sv_closing := True, sv_shutdown := True,
       sv_workers := (\<lambda>g. map_option (\<lambda>w. w\<lparr>wk_shutdown_unseen := True\<rparr>) (sv_workers s g))\<rparr>"

text \<open>\<open>publisher\<close> in its two steps: the check that the supervisor is open, and what follows it under the
  lock, where a new receiver of the shutdown takes its present value as seen.\<close>

definition settings_admit :: "guild_id \<Rightarrow> guild_settings \<Rightarrow> settings_supervisor \<Rightarrow> settings_publish_error + unit" where
  "settings_admit guild seed s =
     (if gs_guild_id seed \<noteq> guild then Inl SettingsGuildMismatch
      else if sv_closing s then Inl SettingsSupervisorClosed else Inr ())"

definition new_settings_worker :: "settings_worker_config \<Rightarrow> guild_settings \<Rightarrow> settings_worker" where
  "new_settings_worker config seed =
     \<lparr>wk_durable = seed, wk_pending = None, wk_mail_unseen = False, wk_shutdown_unseen = False,
      wk_phase = SettingsIdle, wk_current = seed, wk_retry = sc_initial_retry config\<rparr>"

definition worker_view :: "settings_worker \<Rightarrow> guild_settings \<times> player_settings option" where
  "worker_view w = (wk_durable w, map_option su_settings (wk_pending w))"

definition settings_register ::
  "guild_id \<Rightarrow> guild_settings \<Rightarrow> player_settings \<Rightarrow> settings_supervisor \<Rightarrow> settings_publisher \<times> settings_supervisor" where
  "settings_register guild seed initial s =
     (case sv_workers s guild of
        Some w \<Rightarrow>
          (let (durable, pending) = worker_view w;
               current = (case pending of Some p \<Rightarrow> Some p | None \<Rightarrow> settings_from_guild durable)
           in (new_settings_publisher guild initial (current \<noteq> Some initial), s))
      | None \<Rightarrow>
          (new_settings_publisher guild initial (settings_from_guild seed \<noteq> Some initial),
           s\<lparr>sv_workers := (sv_workers s)(guild \<mapsto> new_settings_worker (sv_config s) seed)\<rparr>))"

definition settings_latest :: "guild_id \<Rightarrow> settings_supervisor \<Rightarrow> (guild_settings \<times> player_settings option) option" where
  "settings_latest guild s = map_option worker_view (sv_workers s guild)"

datatype settings_supervisor_error =
  MonitorClosed | MonitorPanicked | SettingsWorkerStopped guild_id | SettingsFinalWriteFailed guild_id
  | SettingsWorkerPanicked guild_id

text \<open>What the task of a worker makes of its end; \<open>None\<close> is a panic.\<close>

definition settings_task_result ::
  "guild_id \<Rightarrow> bool \<Rightarrow> settings_worker_error option option \<Rightarrow> settings_supervisor_error + unit" where
  "settings_task_result guild closing ended =
     (case ended of
        None \<Rightarrow> Inl (SettingsWorkerPanicked guild)
      | Some None \<Rightarrow> if closing then Inr () else Inl (SettingsWorkerStopped guild)
      | Some (Some FinalSettingsWriteFailed) \<Rightarrow> Inl (SettingsFinalWriteFailed guild)
      | Some (Some _) \<Rightarrow> Inl (SettingsWorkerStopped guild))"

fun settings_shutdown_outcome :: "(settings_supervisor_error + unit) option list \<Rightarrow> settings_supervisor_error + unit" where
  "settings_shutdown_outcome [] = Inr ()"
| "settings_shutdown_outcome (None # rest) = Inl MonitorPanicked"
| "settings_shutdown_outcome (Some (Inl e) # rest) = Inl e"
| "settings_shutdown_outcome (Some (Inr _) # rest) = settings_shutdown_outcome rest"

section \<open>A write changes only what the player controls\<close>

lemma try_from_wf:
  assumes "guild_settings_try_from row = Inr s"
  shows "settings_wf s" and "gs_created_at s = gr_created_at row"
    and "int (unat (settings_revision_get (gs_revision s))) = gr_revision row \<or> gr_revision row \<ge> 2 ^ 64"
proof -
  have guild: "parse_guild_id t e f = Inr g \<Longrightarrow> guild_get g \<noteq> 0" for t e f g
    by (auto simp: parse_guild_id_def dest: snowflake_from_str_nonzero split: sum.split_asm)
  have role: "parse_nonzero_u64 t e f = Inr v \<Longrightarrow> v \<noteq> 0" for t e f v
    by (auto simp: parse_nonzero_u64_def split: option.split_asm if_split_asm)
  have preset: "hrir_preset_id_new t = Inr v \<Longrightarrow> hrir_preset_id_wf v" for t v
    by (auto simp: hrir_preset_id_new_wf)
  have vol: "volume_new x = Inr v \<Longrightarrow> volume_wf v" for x v
    by (auto dest: volume_new_wf)
  show "settings_wf s"
    using assms
    by (auto simp: guild_settings_try_from_def then_do_def settings_wf_def transpose_def map_sum_def
        dest: guild role preset vol split: sum.split_asm if_split_asm option.split_asm)
  show "gs_created_at s = gr_created_at row"
    using assms by (auto simp: guild_settings_try_from_def then_do_def split: sum.split_asm if_split_asm option.split_asm)
  show "int (unat (settings_revision_get (gs_revision s))) = gr_revision row \<or> gr_revision row \<ge> 2 ^ 64"
    using assms
    by (auto simp: guild_settings_try_from_def then_do_def row_revision_def unsigned_column_def uint_word_of_int
        split: sum.split_asm if_split_asm option.split_asm)
qed

text \<open>The rows hold their own guild, at a revision a BIGINT can have.\<close>

definition rows_in_place :: "guild_id \<Rightarrow> database \<Rightarrow> bool" where
  "rows_in_place g db \<longleftrightarrow>
     (\<forall>row. db_settings db (guild_text g) = Some row \<longrightarrow> gr_guild_id row = guild_text g \<and> gr_revision row < 2 ^ 63)"

text \<open>What other clients are relied on for: a row keeps existing, its revision never goes back, and a
  row whose revision stayed is the row it was, as every update of the repository has it.\<close>

definition disciplined :: "guild_id \<Rightarrow> (nat \<Rightarrow> database \<Rightarrow> database) \<Rightarrow> bool" where
  "disciplined g others \<longleftrightarrow>
     (\<forall>i db row. db_settings db (guild_text g) = Some row \<longrightarrow>
        (\<exists>row'. db_settings (others i db) (guild_text g) = Some row' \<and> gr_revision row \<le> gr_revision row' \<and>
           (gr_revision row' = gr_revision row \<longrightarrow> row' = row))) \<and>
     (\<forall>i db. rows_in_place g db \<longrightarrow> rows_in_place g (others i db))"

definition coherent :: "guild_id \<Rightarrow> guild_settings \<Rightarrow> database \<Rightarrow> bool" where
  "coherent g current db \<longleftrightarrow> settings_wf current \<and> gs_guild_id current = g \<and> rows_in_place g db \<and>
     (\<exists>row. db_settings db (guild_text g) = Some row \<and> int (unat (settings_revision_get (gs_revision current))) \<le> gr_revision row \<and>
        (gr_revision row = int (unat (settings_revision_get (gs_revision current))) \<longrightarrow>
           guild_settings_try_from row = Inr current))"

lemma disciplined_coherent:
  assumes "disciplined g others" and "coherent g current db"
  shows "coherent g current (others i db)"
  using assms unfolding disciplined_def coherent_def by fastforce

text \<open>The values of the row that players do not control.\<close>

definition shared_values :: "guild_id \<Rightarrow> database \<Rightarrow> (control_policy \<times> u64 option \<times> nat \<times> int) option" where
  "shared_values g db =
     (case db_settings db (guild_text g) of
        None \<Rightarrow> None
      | Some row \<Rightarrow>
          (case guild_settings_try_from row of
             Inl _ \<Rightarrow> None
           | Inr s \<Rightarrow> Some (gs_control_policy s, gs_dj_role_id s, gs_idle_disconnect s, gs_created_at s)))"

definition desired_wf :: "player_settings \<Rightarrow> bool" where
  "desired_wf d \<longleftrightarrow> volume_wf (st_volume d) \<and> hrir_preset_id_wf (st_hrir_preset d)"

lemma with_desired_wf: "settings_wf s \<Longrightarrow> desired_wf d \<Longrightarrow> settings_wf (with_desired s d)"
  by (simp add: settings_wf_def desired_wf_def with_desired_def)

lemma update_keeps_shared:
  assumes "coherent g current db" and "desired_wf desired"
    and "update_guild_settings sc f now (with_desired current desired) (gs_revision current) db = (outcome, db')"
  shows "shared_values g db' = shared_values g db" and "outcome = Inr (Some u) \<Longrightarrow> matches_desired u desired"
    and "outcome = Inr None \<Longrightarrow> rows_in_place g db'"
proof -
  have wf: "settings_wf (with_desired current desired)" and guild: "gs_guild_id (with_desired current desired) = g"
    using assms(1,2) with_desired_wf by (auto simp: coherent_def with_desired_def)
  have "shared_values g db' = shared_values g db \<and> (outcome = Inr (Some u) \<longrightarrow> matches_desired u desired) \<and>
      (outcome = Inr None \<longrightarrow> rows_in_place g db')"
    using assms(3) wf
  proof (cases rule: update_cases)
    case same
    then show ?thesis using assms(1) by (auto simp: coherent_def)
  next
    case (applied old row)
    then have "guild_settings_try_from old = Inr current"
      using assms(1) guild by (auto simp: coherent_def)
    then have "gr_created_at old = gs_created_at current" "guild_settings_try_from old = Inr current"
      using try_from_wf(2) by auto
    then show ?thesis
      using applied guild by (auto simp: shared_values_def with_desired_def matches_desired_def)
  qed
  then show "shared_values g db' = shared_values g db" and "outcome = Inr (Some u) \<Longrightarrow> matches_desired u desired"
    and "outcome = Inr None \<Longrightarrow> rows_in_place g db'" by auto
qed

lemma get_settings_found:
  assumes "get_guild_settings f g db = (outcome, db')"
  shows "db' = db" and "outcome = Inr (Some s) \<Longrightarrow> \<exists>row. db_settings db (guild_text g) = Some row \<and> guild_settings_try_from row = Inr s"
  using assms
  by (cases f; auto simp: get_guild_settings_def then_convert_def run_query_def transpose_def map_sum_def
      split: option.split_asm sum.split_asm)+

lemma found_coherent:
  assumes "rows_in_place g db" and "get_guild_settings f g db = (Inr (Some s), db')"
  shows "coherent g s db'"
proof -
  obtain row where row: "db_settings db (guild_text g) = Some row" "guild_settings_try_from row = Inr s"
    using get_settings_found [OF assms(2)] by blast
  have place: "gr_guild_id row = guild_text g" "gr_revision row < 2 ^ 63" using assms(1) row(1) by (auto simp: rows_in_place_def)
  have "gs_guild_id s = g"
    using row(2) unfolding guild_settings_try_from_def place(1)
    by (auto simp: then_do_def parse_guild_id_def snowflake_from_str_def snowflake_display_def from_str_radix_decimal
        snowflake_new_def split: sum.split_asm if_split_asm option.split_asm)
  moreover have "int (unat (settings_revision_get (gs_revision s))) = gr_revision row"
    using try_from_wf(3) [OF row(2)] place(2) by simp
  ultimately show ?thesis
    using assms(1) row try_from_wf(1) [OF row(2)] get_settings_found(1) [OF assms(2)] by (auto simp: coherent_def)
qed

lemma rounds_keep_shared:
  assumes "disciplined g (we_others env)" and "desired_wf desired"
    and "\<And>i db. P i (shared_values g db) \<Longrightarrow> P (Suc i) (shared_values g (we_others env i db))"
  shows "coherent g current db \<Longrightarrow> P i (shared_values g db) \<Longrightarrow>
    persist_rounds env g desired n i current db = (r, j, db') \<Longrightarrow>
    P j (shared_values g db') \<and> (\<forall>u. r = Inr u \<longrightarrow> matches_desired u desired)"
proof (induction n arbitrary: i current db)
  case (Suc n)
  show ?case
  proof (cases "matches_desired current desired")
    case True
    then show ?thesis using Suc.prems by auto
  next
    case False
    have coh: "coherent g current (we_others env i db)"
      by (rule disciplined_coherent [OF assms(1) Suc.prems(1)])
    obtain outcome db1 where up: "update_guild_settings (we_schema env) (we_fault env i) (we_now env i)
        (with_desired current desired) (gs_revision current) (we_others env i db) = (outcome, db1)" by (rule prod.exhaust)
    note kept = update_keeps_shared [OF coh assms(2) up]
    have P1: "P (Suc i) (shared_values g db1)" using assms(3) [OF Suc.prems(2)] kept(1) by simp
    show ?thesis
    proof (cases outcome)
      case (Inl e)
      then show ?thesis using Suc.prems(3) False up P1 by auto
    next
      case (Inr found)
      show ?thesis
      proof (cases found)
        case (Some u)
        then show ?thesis using Suc.prems(3) False up P1 Inr kept(2) by auto
      next
        case None
        obtain got db2 where get: "get_guild_settings (we_fault env (Suc i)) g (we_others env (Suc i) db1) = (got, db2)"
          by (rule prod.exhaust)
        have P2: "P (Suc (Suc i)) (shared_values g db2)"
          using assms(3) [OF P1] get_settings_found(1) [OF get] by simp
        show ?thesis
        proof (cases "\<exists>newer. got = Inr (Some newer)")
          case True
          then obtain newer where newer: "got = Inr (Some newer)" by blast
          have "rows_in_place g (we_others env (Suc i) db1)"
            using kept(3) Inr None assms(1) by (simp add: disciplined_def)
          then have "coherent g newer db2" using found_coherent get [unfolded newer] by blast
          then show ?thesis
            using Suc.IH [of newer db2 "Suc (Suc i)"] P2 Suc.prems(3) False up Inr None get newer by auto
        next
          case nothing: False
          then show ?thesis
            using Suc.prems(3) False up Inr None get P2 by (auto split: sum.split_asm option.split_asm)
        qed
      qed
    qed
  qed
qed auto

text \<open>Whatever happens to its requests and whatever the other clients write between them, storing
  the player's settings changes only what players control: policy, DJ role, idle time and time of
  creation are at the end as the others alone have left them; and a write that succeeds returns a
  row with exactly the wanted values.\<close>

theorem settings_writes_never_clobber:
  assumes "disciplined g (we_others env)" and "desired_wf desired" and "rows_in_place g db"
    and "\<And>i db. P i (shared_values g db) \<Longrightarrow> P (Suc i) (shared_values g (we_others env i db))"
    and "gs_guild_id seed = g \<longrightarrow> coherent g seed db" and "P 0 (shared_values g db)"
    and "persist_latest env g seed desired db = (r, n, db')"
  shows "P n (shared_values g db') \<and> (\<forall>u. r = Inr u \<longrightarrow> matches_desired u desired)"
proof (cases "gs_guild_id seed = g")
  case True
  then show ?thesis
    using rounds_keep_shared [of g env desired P, OF assms(1,2,4)] assms(5-7) by (simp add: persist_latest_def)
next
  case False
  obtain got db1 where get: "get_guild_settings (we_fault env 0) g (we_others env 0 db) = (got, db1)" by (rule prod.exhaust)
  have P1: "P (Suc 0) (shared_values g db1)"
    using assms(4) [OF assms(6)] get_settings_found(1) [OF get] by simp
  show ?thesis
  proof (cases "\<exists>newer. got = Inr (Some newer)")
    case True
    then obtain newer where newer: "got = Inr (Some newer)" by blast
    have "rows_in_place g (we_others env 0 db)" using assms(1,3) by (simp add: disciplined_def)
    then have "coherent g newer db1" using found_coherent get [unfolded newer] by blast
    then show ?thesis
      using rounds_keep_shared [of g env desired P, OF assms(1,2,4)] P1 assms(7) False get newer
      by (simp add: persist_latest_def)
  next
    case nothing: False
    then show ?thesis
      using assms(7) False get P1 by (auto simp: persist_latest_def split: sum.split_asm option.split_asm)
  qed
qed

section \<open>Runs of the supervisor\<close>

record settings_run =
  sr_supervisor :: settings_supervisor
  sr_admitted :: "(guild_id \<times> guild_settings) list"
  sr_publishers :: "guild_id \<Rightarrow> settings_publisher option"

datatype settings_event =
  AdmitPublisher guild_id guild_settings
  | RegisterPublisher guild_id guild_settings player_settings
  | PublishSettings guild_id player_snapshot
  | PollSettings guild_id settings_completion
  | BeginSettingsShutdown

definition put_worker :: "guild_id \<Rightarrow> settings_worker \<Rightarrow> settings_supervisor \<Rightarrow> settings_supervisor" where
  "put_worker g w s = s\<lparr>sv_workers := (sv_workers s)(g \<mapsto> w)\<rparr>"

fun settings_step :: "settings_event \<Rightarrow> settings_run \<Rightarrow> settings_run" where
  "settings_step (AdmitPublisher g seed) s =
     (case settings_admit g seed (sr_supervisor s) of
        Inl _ \<Rightarrow> s | Inr _ \<Rightarrow> s\<lparr>sr_admitted := (g, seed) # sr_admitted s\<rparr>)"
| "settings_step (RegisterPublisher g seed initial) s =
     (if (g, seed) \<notin> set (sr_admitted s) then s
      else (case settings_register g seed initial (sr_supervisor s) of
              (b, sv) \<Rightarrow> s\<lparr>sr_supervisor := sv, sr_publishers := (sr_publishers s)(g \<mapsto> b)\<rparr>))"
| "settings_step (PublishSettings g p) s =
     (case (sr_publishers s g, sv_workers (sr_supervisor s) g) of
        (Some b, Some w) \<Rightarrow>
          (case settings_publish (sv_closing (sr_supervisor s)) p b w of
             (_, b', w') \<Rightarrow> s\<lparr>sr_supervisor := put_worker g w' (sr_supervisor s),
                              sr_publishers := (sr_publishers s)(g \<mapsto> b')\<rparr>)
      | _ \<Rightarrow> s)"
| "settings_step (PollSettings g c) s =
     (case sv_workers (sr_supervisor s) g of
        None \<Rightarrow> s
      | Some w \<Rightarrow> s\<lparr>sr_supervisor := put_worker g
            (poll_settings_worker (sv_config (sr_supervisor s)) (sv_shutdown (sr_supervisor s)) c w) (sr_supervisor s)\<rparr>)"
| "settings_step BeginSettingsShutdown s = s\<lparr>sr_supervisor := begin_shutdown (sr_supervisor s)\<rparr>"

fun settings_steps :: "settings_event list \<Rightarrow> settings_run \<Rightarrow> settings_run" where
  "settings_steps [] s = s"
| "settings_steps (e # es) s = settings_steps es (settings_step e s)"

definition settings_run_start :: "settings_worker_config \<Rightarrow> settings_run" where
  "settings_run_start config =
     \<lparr>sr_supervisor = settings_start config, sr_admitted = [], sr_publishers = (\<lambda>_. None)\<rparr>"

end
