(* ===== verification/Settings_Durability.thy ===== *)
theory Settings_Durability
  imports Settings_Worker
begin

text \<open>
  The settings path down to the database: runs of the supervisor of
  \<open>crates/pepeaudio-runtime/src/settings_persistence.rs\<close> in which the answers a worker gets are those of
  its own \<open>persist_latest\<close> on the tables, other clients write in between, and a seed is a row that was
  read. The run follows the row of one guild; the writes of other guilds are among the other clients.
\<close>

section \<open>Runs with the database\<close>

record stored_run =
  sd_run :: settings_run
  sd_db :: database

datatype stored_event =
  Supervised settings_event
  | SeedLoaded request_fault
  | WorkerWrote write_env
  | ClientWrote "database \<Rightarrow> database"

text \<open>The steps that need no database: not the admission of a seed nor the answer of a write.\<close>

definition without_database :: "guild_id \<Rightarrow> settings_event \<Rightarrow> bool" where
  "without_database g e =
     (case e of AdmitPublisher g' _ \<Rightarrow> g' \<noteq> g | PollSettings g' (SettingsWritten _) \<Rightarrow> g' \<noteq> g | _ \<Rightarrow> True)"

definition settings_being_written :: "settings_worker \<Rightarrow> settings_update option" where
  "settings_being_written w =
     (case wk_phase w of SettingsWriting u \<Rightarrow> Some u | SettingsFlushing u \<Rightarrow> Some u | _ \<Rightarrow> None)"

definition write_answer :: "settings_worker_error + guild_settings \<Rightarrow> settings_completion" where
  "write_answer r = SettingsWritten (case r of Inl _ \<Rightarrow> None | Inr row \<Rightarrow> Some row)"

abbreviation stored_worker :: "guild_id \<Rightarrow> stored_run \<Rightarrow> settings_worker option" where
  "stored_worker g s \<equiv> sv_workers (sr_supervisor (sd_run s)) g"

fun stored_step :: "guild_id \<Rightarrow> stored_event \<Rightarrow> stored_run \<Rightarrow> stored_run" where
  "stored_step g (Supervised e) s =
     (if without_database g e then s\<lparr>sd_run := settings_step e (sd_run s)\<rparr> else s)"
| "stored_step g (SeedLoaded f) s =
     (case get_guild_settings f g (sd_db s) of
        (Inr (Some seed), db) \<Rightarrow> s\<lparr>sd_run := settings_step (AdmitPublisher g seed) (sd_run s), sd_db := db\<rparr>
      | (_, db) \<Rightarrow> s\<lparr>sd_db := db\<rparr>)"
| "stored_step g (WorkerWrote env) s =
     (case stored_worker g s of
        None \<Rightarrow> s
      | Some w \<Rightarrow>
          (case settings_being_written w of
             None \<Rightarrow> s
           | Some u \<Rightarrow>
               (case persist_latest env g (wk_current w) (su_settings u) (sd_db s) of
                  (r, _, db) \<Rightarrow> s\<lparr>sd_run := settings_step (PollSettings g (write_answer r)) (sd_run s), sd_db := db\<rparr>)))"
| "stored_step g (ClientWrote h) s = s\<lparr>sd_db := h (sd_db s)\<rparr>"

fun stored_steps :: "guild_id \<Rightarrow> stored_event list \<Rightarrow> stored_run \<Rightarrow> stored_run" where
  "stored_steps g [] s = s"
| "stored_steps g (e # es) s = stored_steps g es (stored_step g e s)"

definition stored_start :: "settings_worker_config \<Rightarrow> database \<Rightarrow> stored_run" where
  "stored_start config db = \<lparr>sd_run = settings_run_start config, sd_db = db\<rparr>"

text \<open>No idle worker takes the shutdown while its mailbox holds something it has not seen.\<close>

definition mailbox_preferred :: "guild_id \<Rightarrow> stored_event \<Rightarrow> stored_run \<Rightarrow> bool" where
  "mailbox_preferred g e s =
     (case (e, stored_worker g s) of
        (Supervised (PollSettings g' (Chosen TakeShutdown)), Some w) \<Rightarrow>
          \<not> (g' = g \<and> wk_phase w = SettingsIdle \<and> wk_mail_unseen w)
      | _ \<Rightarrow> True)"

fun mailbox_first :: "guild_id \<Rightarrow> stored_event list \<Rightarrow> stored_run \<Rightarrow> bool" where
  "mailbox_first g [] s = True"
| "mailbox_first g (e # es) s = (mailbox_preferred g e s \<and> mailbox_first g es (stored_step g e s))"

fun revisions_of :: "guild_id \<Rightarrow> stored_event list \<Rightarrow> state_revision list" where
  "revisions_of g [] = []"
| "revisions_of g (e # es) =
     (case e of
        Supervised (PublishSettings g' p) \<Rightarrow> if g' = g then ps_revision p # revisions_of g es else revisions_of g es
      | _ \<Rightarrow> revisions_of g es)"

section \<open>What is relied on\<close>

text \<open>The part of the row that players control, and the same part of settings.\<close>

definition values_of :: "guild_settings \<Rightarrow> volume \<times> hrir_preset_id option \<times> bool" where
  "values_of s = (gs_volume s, gs_default_hrir_preset_id s, gs_spatial_audio_enabled s)"

definition wanted :: "player_settings \<Rightarrow> volume \<times> hrir_preset_id option \<times> bool" where
  "wanted d = (st_volume d, Some (st_hrir_preset d), st_spatial_audio_enabled d)"

definition own_values :: "guild_id \<Rightarrow> database \<Rightarrow> (volume \<times> hrir_preset_id option \<times> bool) option" where
  "own_values g db =
     (case db_settings db (guild_text g) of
        None \<Rightarrow> None
      | Some row \<Rightarrow> (case guild_settings_try_from row of Inl _ \<Rightarrow> None | Inr s \<Rightarrow> Some (values_of s)))"

text \<open>How a row may move on: it stays, its revision never goes back, and at the same revision it is the same row.\<close>

definition later :: "guild_id \<Rightarrow> database \<Rightarrow> database \<Rightarrow> bool" where
  "later g db db' \<longleftrightarrow>
     (\<forall>row. db_settings db (guild_text g) = Some row \<longrightarrow>
        (\<exists>row'. db_settings db' (guild_text g) = Some row' \<and> gr_revision row \<le> gr_revision row' \<and>
           (gr_revision row' = gr_revision row \<longrightarrow> row' = row))) \<and>
     (rows_in_place g db \<longrightarrow> rows_in_place g db')"

text \<open>Other clients update rows as the repository does and leave the values of the player to its worker.\<close>

definition client_ok :: "guild_id \<Rightarrow> (database \<Rightarrow> database) \<Rightarrow> bool" where
  "client_ok g h \<longleftrightarrow>
     (\<forall>db. later g db (h db) \<and> (\<forall>v. own_values g db = Some v \<longrightarrow> own_values g (h db) = Some v))"

text \<open>A request of the worker that fails has not changed the database.\<close>

definition env_ok :: "guild_id \<Rightarrow> write_env \<Rightarrow> bool" where
  "env_ok g env \<longleftrightarrow> (\<forall>i. client_ok g (we_others env i) \<and> we_fault env i \<noteq> LostAfter)"

definition event_ok :: "guild_id \<Rightarrow> stored_event \<Rightarrow> bool" where
  "event_ok g e =
     (case e of
        ClientWrote h \<Rightarrow> client_ok g h
      | WorkerWrote env \<Rightarrow> env_ok g env
      | Supervised (PublishSettings _ p) \<Rightarrow> (\<forall>d. settings_from_snapshot p = Some d \<longrightarrow> desired_wf d)
      | _ \<Rightarrow> True)"

lemma matches_wanted: "matches_desired s d \<longleftrightarrow> values_of s = wanted d"
  by (auto simp: matches_desired_def values_of_def wanted_def)

lemma from_guild_wanted: "settings_from_guild s = Some d \<longleftrightarrow> values_of s = wanted d"
  by (cases d) (auto simp: settings_from_guild_def values_of_def wanted_def)

lemma later_refl [simp]: "later g db db"
  by (simp add: later_def)

lemma later_trans: "later g a b \<Longrightarrow> later g b c \<Longrightarrow> later g a c"
  unfolding later_def by fastforce

lemma later_coherent: "later g db db' \<Longrightarrow> coherent g s db \<Longrightarrow> coherent g s db'"
  unfolding later_def coherent_def by fastforce

section \<open>What a write leaves\<close>

lemma update_stores:
  assumes "coherent g current db" and "desired_wf d" and "f \<noteq> LostAfter"
    and "update_guild_settings sc f now (with_desired current d) (gs_revision current) db = (outcome, db')"
  shows "later g db db'"
    and "outcome = Inr (Some u) \<Longrightarrow> coherent g u db' \<and> own_values g db' = Some (values_of u) \<and> matches_desired u d"
    and "(\<And>u. outcome \<noteq> Inr (Some u)) \<Longrightarrow> db' = db"
proof -
  have wf: "settings_wf (with_desired current d)" and guild: "gs_guild_id (with_desired current d) = g"
    using assms(1,2) with_desired_wf by (auto simp: coherent_def with_desired_def)
  have "later g db db' \<and>
      (outcome = Inr (Some u) \<longrightarrow> coherent g u db' \<and> own_values g db' = Some (values_of u) \<and> matches_desired u d) \<and>
      ((\<forall>u. outcome \<noteq> Inr (Some u)) \<longrightarrow> db' = db)"
    using assms(4) wf
  proof (cases rule: update_cases)
    case same
    then show ?thesis by simp
  next
    case (applied old row)
    then have f: "f = NoFault" using assms(3) by (cases f) auto
    have rev: "int (unat (settings_revision_get (gs_revision current) + 1)) = gr_revision row"
      using try_from_wf(3) [OF applied(7)] applied(4) by simp
    have after: "rows_in_place g db'" "db_settings db' (guild_text g) = Some row"
      using applied guild by (simp_all add: rows_in_place_def)
    have "later g db db'"
      using applied guild after by (auto simp: later_def)
    moreover have "coherent g u db' \<and> own_values g db' = Some (values_of u) \<and> matches_desired u d" if "outcome = Inr (Some u)"
    proof -
      have u: "guild_settings_try_from row = Inr u" using applied that f by auto
      moreover have "gs_guild_id u = g" "matches_desired u d" "int (unat (settings_revision_get (gs_revision u))) = gr_revision row"
        using applied that f guild rev by (auto simp: matches_desired_def with_desired_def)
      ultimately show ?thesis using try_from_wf(1) [OF u] after by (auto simp: coherent_def own_values_def)
    qed
    ultimately show ?thesis using applied f by auto
  qed
  then show "later g db db'"
    and "outcome = Inr (Some u) \<Longrightarrow> coherent g u db' \<and> own_values g db' = Some (values_of u) \<and> matches_desired u d"
    and "(\<And>u. outcome \<noteq> Inr (Some u)) \<Longrightarrow> db' = db" by auto
qed

text \<open>Where a write succeeds the returned row is that of the database and has the wanted values; where
  it fails the values of the player are what they were.\<close>

definition write_leaves :: "guild_id \<Rightarrow> player_settings \<Rightarrow> database \<Rightarrow> settings_worker_error + guild_settings \<Rightarrow> database \<Rightarrow> bool" where
  "write_leaves g d db r db' \<longleftrightarrow> later g db db' \<and>
     (case r of
        Inl _ \<Rightarrow> own_values g db' = own_values g db
      | Inr u \<Rightarrow> coherent g u db' \<and> own_values g db' = Some (values_of u) \<and> matches_desired u d)"

lemma found_values:
  assumes "get_guild_settings f g db = (Inr (Some s), db')"
  shows "db' = db" and "own_values g db = Some (values_of s)"
  using get_settings_found [OF assms] by (auto simp: own_values_def)

lemma rounds_store:
  assumes env: "env_ok g env" and d: "desired_wf d"
  shows "coherent g current db \<Longrightarrow> own_values g db = Some (values_of current) \<Longrightarrow>
    persist_rounds env g d n i current db = (r, j, db') \<Longrightarrow> write_leaves g d db r db'"
proof (induction n arbitrary: i current db)
  case (Suc n)
  show ?case
  proof (cases "matches_desired current d")
    case True
    then show ?thesis using Suc.prems by (auto simp: write_leaves_def)
  next
    case False
    let ?db = "we_others env i db"
    have others: "later g a (we_others env k a)" "own_values g a = Some v \<Longrightarrow> own_values g (we_others env k a) = Some v"
        "we_fault env k \<noteq> LostAfter" for a k v
      using env unfolding env_ok_def client_ok_def by blast+
    note coh = later_coherent [OF others(1) Suc.prems(1), of i] and vals = others(2) [OF Suc.prems(2), of i]
    obtain outcome db1 where up: "update_guild_settings (we_schema env) (we_fault env i) (we_now env i)
        (with_desired current d) (gs_revision current) ?db = (outcome, db1)" by (rule prod.exhaust)
    note stores = update_stores [OF coh d others(3) up]
    have later1: "later g db db1" using later_trans [OF others(1) stores(1)] .
    show ?thesis
    proof (cases "\<exists>u. outcome = Inr (Some u)")
      case True
      then show ?thesis using Suc.prems(3) False up stores(2) later1 by (auto simp: write_leaves_def)
    next
      case unstored: False
      then have db1: "db1 = ?db" using stores(3) by blast
      let ?db' = "we_others env (Suc i) db1"
      have vals': "own_values g ?db' = Some (values_of current)" using vals others(2) by (simp add: db1)
      obtain got db2 where get: "get_guild_settings (we_fault env (Suc i)) g ?db' = (got, db2)" by (rule prod.exhaust)
      have db2: "db2 = ?db'" using get_settings_found(1) [OF get] .
      have later2: "later g db db2" unfolding db2 using later_trans [OF later1 others(1)] .
      show ?thesis
      proof (cases "outcome = Inr None \<and> (\<exists>newer. got = Inr (Some newer))")
        case True
        then obtain newer where newer: "got = Inr (Some newer)" by blast
        have "rows_in_place g ?db'"
          using coh others(1) by (auto simp: db1 later_def coherent_def)
        then have "coherent g newer db2" using found_coherent get [unfolded newer] by blast
        moreover have "own_values g db2 = Some (values_of newer)"
          using found_values [OF get [unfolded newer]] by simp
        moreover have "persist_rounds env g d n (Suc (Suc i)) newer db2 = (r, j, db')"
          using Suc.prems(3) False True up get newer by simp
        ultimately have "write_leaves g d db2 r db'" by (rule Suc.IH)
        then show ?thesis
          using later_trans [OF later2] vals' Suc.prems(2) by (auto simp: write_leaves_def db2 split: sum.splits)
      next
        case stop: False
        then show ?thesis
          using Suc.prems(2,3) False unstored up get vals vals' later1 later2 db2
          by (auto simp: write_leaves_def db1 split: sum.splits option.splits)
      qed
    qed
  qed
qed (auto simp: write_leaves_def)

lemma persist_stores:
  assumes "env_ok g env" and "desired_wf d" and "coherent g current db" and "own_values g db = Some (values_of current)"
    and "persist_latest env g current d db = (r, j, db')"
  shows "write_leaves g d db r db'"
proof -
  have "gs_guild_id current = g" using assms(3) by (simp add: coherent_def)
  then show ?thesis using rounds_store [OF assms(1-4)] assms(5) by (simp add: persist_latest_def)
qed

section \<open>The worker and its row\<close>

text \<open>The value a worker stands for, as a new publisher takes it, and the same in the terms of the row.\<close>

definition worker_value :: "settings_worker \<Rightarrow> player_settings option" where
  "worker_value w =
     (case wk_pending w of Some u \<Rightarrow> Some (su_settings u) | None \<Rightarrow> settings_from_guild (wk_durable w))"

definition worker_values :: "settings_worker \<Rightarrow> volume \<times> hrir_preset_id option \<times> bool" where
  "worker_values w = (case wk_pending w of Some u \<Rightarrow> wanted (su_settings u) | None \<Rightarrow> values_of (wk_durable w))"

lemma worker_value_values: "worker_value w = Some d \<Longrightarrow> worker_values w = wanted d"
  by (auto simp: worker_value_def worker_values_def from_guild_wanted split: option.splits)

text \<open>What is being written is what is pending, unless something newer is.\<close>

definition pending_after :: "settings_update \<Rightarrow> settings_worker \<Rightarrow> bool" where
  "pending_after u w \<longleftrightarrow> desired_wf (su_settings u) \<and>
     (\<exists>u'. wk_pending w = Some u' \<and> (u' = u \<or> su_actor_revision u < su_actor_revision u'))"

definition phase_inv :: "bool \<Rightarrow> settings_worker \<Rightarrow> bool" where
  "phase_inv shutdown w \<longleftrightarrow>
     (case wk_phase w of
        SettingsIdle \<Rightarrow> wk_mail_unseen w \<or> wk_pending w = None
      | SettingsWriting u \<Rightarrow> pending_after u w
      | SettingsRetrying u \<Rightarrow> pending_after u w
      | SettingsFlushing u \<Rightarrow> shutdown \<and> desired_wf (su_settings u) \<and> wk_pending w = Some u
      | SettingsEnded _ \<Rightarrow> True)"

definition row_inv :: "guild_id \<Rightarrow> database \<Rightarrow> settings_worker \<Rightarrow> bool" where
  "row_inv g db w \<longleftrightarrow>
     (case wk_phase w of
        SettingsEnded None \<Rightarrow> own_values g db = Some (worker_values w)
      | SettingsEnded (Some _) \<Rightarrow> True
      | _ \<Rightarrow> coherent g (wk_current w) db \<and> wk_durable w = wk_current w \<and> own_values g db = Some (values_of (wk_current w)))"

definition settings_worker_inv :: "guild_id \<Rightarrow> bool \<Rightarrow> database \<Rightarrow> settings_worker \<Rightarrow> bool" where
  "settings_worker_inv g shutdown db w \<longleftrightarrow>
     (\<forall>u. wk_pending w = Some u \<longrightarrow> desired_wf (su_settings u)) \<and> phase_inv shutdown w \<and> row_inv g db w"

definition publisher_inv :: "settings_worker \<Rightarrow> settings_publisher \<Rightarrow> bool" where
  "publisher_inv w b \<longleftrightarrow>
     (if sb_armed b then worker_value w = Some (sb_last_accepted b)
      else \<not> sb_persist_initial b \<longrightarrow> worker_value w = Some (sb_initial b))"

lemma loop_head_inv:
  assumes "\<forall>u. wk_pending w = Some u \<longrightarrow> desired_wf (su_settings u)"
    and "coherent g (wk_current w) db" "wk_durable w = wk_current w" "own_values g db = Some (values_of (wk_current w))"
  shows "settings_worker_inv g shutdown db (loop_head w)"
  using assms by (auto simp: settings_worker_inv_def loop_head_def phase_inv_def row_inv_def pending_after_def split: option.split)

lemma loop_head_value [simp]: "worker_value (loop_head w) = worker_value w"
  by (simp add: worker_value_def loop_head_def split: option.split)

text \<open>A poll without a write.\<close>

lemma poll_chosen_inv:
  assumes "settings_worker_inv g shutdown db w"
    and "\<not> (a = TakeShutdown \<and> wk_phase w = SettingsIdle \<and> wk_mail_unseen w)"
  shows "settings_worker_inv g shutdown db (poll_settings_worker config shutdown (Chosen a) w)"
proof (cases "wk_phase w")
  case SettingsIdle
  have heads: "settings_worker_inv g shutdown db (loop_head w)" "settings_worker_inv g shutdown db (loop_head (w\<lparr>wk_shutdown_unseen := False\<rparr>))"
    by (rule loop_head_inv; use assms(1) SettingsIdle in \<open>simp add: settings_worker_inv_def row_inv_def\<close>)+
  have "settings_worker_inv g shutdown db (w\<lparr>wk_shutdown_unseen := False, wk_phase := SettingsEnded None\<rparr>)" if "a = TakeShutdown"
    using assms SettingsIdle that by (auto simp: settings_worker_inv_def phase_inv_def row_inv_def worker_values_def)
  then show ?thesis using heads assms(1) SettingsIdle by (cases shutdown) (simp_all add: poll_settings_worker_def Let_def)
next
  case (SettingsRetrying u)
  have heads: "settings_worker_inv g shutdown db (loop_head (retry_doubled config w))"
      "settings_worker_inv g shutdown db (loop_head (retry_doubled config (w\<lparr>wk_shutdown_unseen := False\<rparr>)))"
    by (rule loop_head_inv; use assms(1) SettingsRetrying in \<open>simp add: settings_worker_inv_def row_inv_def retry_doubled_def\<close>)+
  have "settings_worker_inv g shutdown db (w\<lparr>wk_shutdown_unseen := False, wk_phase := SettingsFlushing p\<rparr>)"
    if "shutdown" "wk_pending w = Some p" for p
    using assms(1) SettingsRetrying that by (auto simp: settings_worker_inv_def phase_inv_def row_inv_def)
  moreover have "wk_pending w \<noteq> None"
    using assms(1) SettingsRetrying by (auto simp: settings_worker_inv_def phase_inv_def pending_after_def)
  ultimately show ?thesis
    using heads assms(1) SettingsRetrying by (auto simp: poll_settings_worker_def Let_def split: option.split)
qed (use assms(1) in \<open>simp_all add: poll_settings_worker_def\<close>)

lemma poll_chosen_value [simp]:
  "wk_pending (poll_settings_worker config shutdown (Chosen a) w) = wk_pending w"
  "worker_value (poll_settings_worker config shutdown (Chosen a) w) = worker_value w"
  by (auto simp: poll_settings_worker_def Let_def worker_value_def loop_head_def retry_doubled_def
      split: settings_phase.split option.split)

text \<open>The end of a write, with what the write leaves.\<close>

lemma poll_written:
  assumes inv: "settings_worker_inv g shutdown db w" and u: "settings_being_written w = Some u"
    and leaves: "write_leaves g (su_settings u) db r db'"
  shows "settings_worker_inv g shutdown db' (poll_settings_worker config shutdown (write_answer r) w)" (is "settings_worker_inv _ _ _ ?w")
    and "worker_value (poll_settings_worker config shutdown (write_answer r) w) = worker_value w"
    and "wk_pending (poll_settings_worker config shutdown (write_answer r) w) \<in> {None, wk_pending w}"
proof -
  have after: "later g db db'" using leaves by (simp add: write_leaves_def)
  have "settings_worker_inv g shutdown db' ?w \<and> worker_value ?w = worker_value w \<and> wk_pending ?w \<in> {None, wk_pending w}"
  proof (cases "wk_phase w")
    case (SettingsWriting u')
    then have w: "wk_phase w = SettingsWriting u" using u by (simp add: settings_being_written_def)
    obtain p where p: "wk_pending w = Some p" "p = u \<or> su_actor_revision u < su_actor_revision p"
      using inv w by (auto simp: settings_worker_inv_def phase_inv_def pending_after_def)
    show ?thesis
    proof (cases r)
      case (Inl e)
      then show ?thesis
        using inv w leaves later_coherent [OF after]
        by (auto simp: poll_settings_worker_def write_answer_def settings_worker_inv_def phase_inv_def row_inv_def
            write_leaves_def pending_after_def worker_value_def)
    next
      case (Inr row)
      have stored: "coherent g row db'" "own_values g db' = Some (values_of row)" "settings_from_guild row = Some (su_settings u)"
        using leaves Inr by (simp_all add: write_leaves_def matches_wanted from_guild_wanted)
      have poll: "?w = settings_written config u row w"
        using w Inr by (simp add: poll_settings_worker_def write_answer_def)
      have "settings_worker_inv g shutdown db' (settings_written config u row w)"
        unfolding settings_written_def by (rule loop_head_inv) (use inv stored in \<open>simp_all add: settings_worker_inv_def\<close>)
      moreover have "worker_value (settings_written config u row w) = worker_value w"
        using p stored(3) by (auto simp: settings_written_def worker_value_def loop_head_def)
      moreover have "wk_pending (settings_written config u row w) \<in> {None, wk_pending w}"
        by (simp add: settings_written_def loop_head_def)
      ultimately show ?thesis unfolding poll by blast
    qed
  next
    case (SettingsFlushing u')
    then show ?thesis
      using inv u leaves
      by (cases r) (auto simp: settings_being_written_def poll_settings_worker_def write_answer_def settings_worker_inv_def phase_inv_def
          row_inv_def write_leaves_def worker_values_def worker_value_def matches_wanted)
  qed (use u in \<open>simp_all add: settings_being_written_def\<close>)
  then show "settings_worker_inv g shutdown db' ?w" and "worker_value ?w = worker_value w" and "wk_pending ?w \<in> {None, wk_pending w}"
    by auto
qed

text \<open>A publication.\<close>

lemma queue_value:
  assumes "\<And>u. wk_pending w = Some u \<Longrightarrow> su_actor_revision u < r"
  shows "settings_queue \<lparr>su_actor_revision = r, su_settings = d\<rparr> w =
    w\<lparr>wk_pending := Some \<lparr>su_actor_revision = r, su_settings = d\<rparr>, wk_mail_unseen := True\<rparr>"
  using assms by (auto simp: settings_queue_def split: option.split)

lemma queue_inv:
  assumes "settings_worker_inv g shutdown db w" and "\<not> settings_closed closing w" and "shutdown \<longrightarrow> closing" and "desired_wf d"
    and "\<And>u. wk_pending w = Some u \<Longrightarrow> su_actor_revision u < r"
  shows "settings_worker_inv g shutdown db (w\<lparr>wk_pending := Some \<lparr>su_actor_revision = r, su_settings = d\<rparr>, wk_mail_unseen := True\<rparr>)"
  using assms
  by (cases "wk_phase w")
    (auto simp: settings_worker_inv_def phase_inv_def row_inv_def settings_closed_def pending_after_def intro: less_trans)

lemma settings_publish_inv:
  assumes inv: "settings_worker_inv g shutdown db w" "publisher_inv w b" and "shutdown \<longrightarrow> closing"
    and wf: "\<And>d. settings_from_snapshot p = Some d \<Longrightarrow> desired_wf d"
    and newer: "\<And>u. wk_pending w = Some u \<Longrightarrow> su_actor_revision u < ps_revision p"
    and pub: "settings_publish closing p b w = (answered, b', w')"
  shows "settings_worker_inv g shutdown db w'" and "publisher_inv w' b'"
    and "wk_pending w' = wk_pending w \<or> map_option su_actor_revision (wk_pending w') = Some (ps_revision p)"
proof -
  have queued: "settings_worker_inv g shutdown db (settings_queue \<lparr>su_actor_revision = ps_revision p, su_settings = d\<rparr> w)"
      "worker_value (settings_queue \<lparr>su_actor_revision = ps_revision p, su_settings = d\<rparr> w) = Some d"
    if "settings_from_snapshot p = Some d" "\<not> settings_closed closing w" for d
    using queue_inv [OF inv(1) that(2) assms(3) wf [OF that(1)] newer] queue_value [of w "ps_revision p", OF newer]
    by (simp_all add: worker_value_def)
  show "settings_worker_inv g shutdown db w'" and "publisher_inv w' b'"
    using pub inv queued
    by (auto simp: settings_publish_def Let_def publisher_inv_def split: if_split_asm option.split_asm)
  show "wk_pending w' = wk_pending w \<or> map_option su_actor_revision (wk_pending w') = Some (ps_revision p)"
    using pub queue_value [of w "ps_revision p", OF newer]
    by (auto simp: settings_publish_def Let_def split: if_split_asm option.split_asm)
qed

lemma publish_accepts:
  assumes "settings_publish closing p b w = (Inr (), b', w')" and "settings_from_snapshot p = Some d" and "sb_armed b'"
  shows "sb_last_accepted b' = d"
  using assms by (auto simp: settings_publish_def Let_def split: if_split_asm)

section \<open>Runs keep the row in step\<close>

definition stored_inv :: "guild_id \<Rightarrow> state_revision list \<Rightarrow> stored_run \<Rightarrow> bool" where
  "stored_inv g coming s \<longleftrightarrow>
     (sv_shutdown (sr_supervisor (sd_run s)) \<longrightarrow> sv_closing (sr_supervisor (sd_run s))) \<and> rows_in_place g (sd_db s) \<and>
     (case stored_worker g s of
        None \<Rightarrow> sr_publishers (sd_run s) g = None \<and>
          (\<forall>seed. (g, seed) \<in> set (sr_admitted (sd_run s)) \<longrightarrow>
             coherent g seed (sd_db s) \<and> own_values g (sd_db s) = Some (values_of seed))
      | Some w \<Rightarrow> settings_worker_inv g (sv_shutdown (sr_supervisor (sd_run s))) (sd_db s) w \<and>
          (\<forall>b. sr_publishers (sd_run s) g = Some b \<longrightarrow> publisher_inv w b) \<and>
          (\<forall>u r. wk_pending w = Some u \<longrightarrow> r \<in> set coming \<longrightarrow> su_actor_revision u < r))"

text \<open>A move of the database that leaves the row to the player keeps the invariant.\<close>

lemma worker_inv_later:
  assumes "later g db db'" and "\<And>v. own_values g db = Some v \<Longrightarrow> own_values g db' = Some v" and "settings_worker_inv g shutdown db w"
  shows "settings_worker_inv g shutdown db' w"
  using assms(2,3) later_coherent [OF assms(1)]
  by (auto simp: settings_worker_inv_def row_inv_def split: settings_phase.splits option.splits)

lemma stored_inv_client:
  assumes "client_ok g h" and "stored_inv g coming s"
  shows "stored_inv g coming (s\<lparr>sd_db := h (sd_db s)\<rparr>)"
proof -
  have later: "later g (sd_db s) (h (sd_db s))"
    and vals: "\<And>v. own_values g (sd_db s) = Some v \<Longrightarrow> own_values g (h (sd_db s)) = Some v"
    using assms(1) unfolding client_ok_def by blast+
  then have "rows_in_place g (h (sd_db s))" using assms(2) by (simp add: later_def stored_inv_def)
  then show ?thesis
    using assms(2) later_coherent [OF later] vals worker_inv_later [OF later vals]
    by (auto simp: stored_inv_def split: option.splits)
qed

text \<open>What concerns other guilds is out of sight.\<close>

definition event_guild :: "settings_event \<Rightarrow> guild_id option" where
  "event_guild e =
     (case e of AdmitPublisher g _ \<Rightarrow> Some g | RegisterPublisher g _ _ \<Rightarrow> Some g | PublishSettings g _ \<Rightarrow> Some g
      | PollSettings g _ \<Rightarrow> Some g | BeginSettingsShutdown \<Rightarrow> None)"

lemma foreign_step:
  assumes "event_guild e = Some g'" and "g' \<noteq> g"
  shows "sv_workers (sr_supervisor (settings_step e r)) g = sv_workers (sr_supervisor r) g"
    and "sr_publishers (settings_step e r) g = sr_publishers r g"
    and "(g, seed) \<in> set (sr_admitted (settings_step e r)) \<longleftrightarrow> (g, seed) \<in> set (sr_admitted r)"
    and "sv_closing (sr_supervisor (settings_step e r)) = sv_closing (sr_supervisor r)"
    and "sv_shutdown (sr_supervisor (settings_step e r)) = sv_shutdown (sr_supervisor r)"
  using assms
  by (cases e; auto simp: event_guild_def settings_register_def put_worker_def Let_def split: sum.split option.split prod.split)+

lemma register_inv:
  assumes "stored_inv g coming s"
  shows "stored_inv g coming (s\<lparr>sd_run := settings_step (RegisterPublisher g seed initial) (sd_run s)\<rparr>)"
proof (cases "(g, seed) \<in> set (sr_admitted (sd_run s))")
  case True
  show ?thesis
  proof (cases "stored_worker g s")
    case None
    let ?w = "new_settings_worker (sv_config (sr_supervisor (sd_run s))) seed"
    have seed: "coherent g seed (sd_db s)" "own_values g (sd_db s) = Some (values_of seed)"
      using assms None True by (auto simp: stored_inv_def)
    have "settings_worker_inv g shutdown (sd_db s) ?w" for shutdown
      using seed by (simp add: settings_worker_inv_def phase_inv_def row_inv_def new_settings_worker_def)
    moreover have "publisher_inv ?w (new_settings_publisher g initial (settings_from_guild seed \<noteq> Some initial))"
      by (simp add: publisher_inv_def new_settings_publisher_def worker_value_def new_settings_worker_def)
    moreover have "wk_pending ?w = None" by (simp add: new_settings_worker_def)
    ultimately show ?thesis using assms None True by (simp add: stored_inv_def settings_register_def)
  next
    case (Some w)
    have "publisher_inv w (new_settings_publisher g initial (worker_value w \<noteq> Some initial))"
      by (simp add: publisher_inv_def new_settings_publisher_def)
    moreover have "(case map_option su_settings (wk_pending w) of Some p \<Rightarrow> Some p | None \<Rightarrow> settings_from_guild (wk_durable w)) =
        worker_value w"
      by (simp add: worker_value_def split: option.split)
    ultimately show ?thesis
      using assms Some True by (simp add: stored_inv_def settings_register_def worker_view_def)
  qed
qed (use assms in simp)

lemma publish_step_inv:
  assumes inv: "stored_inv g (ps_revision p # coming) s" and wf: "\<And>d. settings_from_snapshot p = Some d \<Longrightarrow> desired_wf d"
    and newer: "\<forall>r \<in> set coming. ps_revision p < r"
  shows "stored_inv g coming (s\<lparr>sd_run := settings_step (PublishSettings g p) (sd_run s)\<rparr>)"
proof (cases "sr_publishers (sd_run s) g = None \<or> stored_worker g s = None")
  case True
  then have "settings_step (PublishSettings g p) (sd_run s) = sd_run s" by (auto split: option.split)
  then show ?thesis using inv by (auto simp: stored_inv_def split: option.splits)
next
  case False
  then obtain b w where bw: "sr_publishers (sd_run s) g = Some b" "stored_worker g s = Some w" by auto
  let ?closing = "sv_closing (sr_supervisor (sd_run s))"
  obtain answered b' w' where pub: "settings_publish ?closing p b w = (answered, b', w')" by (rule prod_cases3)
  have w: "settings_worker_inv g (sv_shutdown (sr_supervisor (sd_run s))) (sd_db s) w" "publisher_inv w b"
      "sv_shutdown (sr_supervisor (sd_run s)) \<longrightarrow> ?closing" "\<And>u. wk_pending w = Some u \<Longrightarrow> su_actor_revision u < ps_revision p"
    using inv bw by (auto simp: stored_inv_def)
  note after = settings_publish_inv(1-3) [OF w(1-3) wf w(4) pub]
  have "su_actor_revision u < r" if "wk_pending w' = Some u" "r \<in> set coming" for u r
    using after(3) that newer inv bw by (auto simp: stored_inv_def)
  then show ?thesis
    using inv bw pub after(1,2) by (simp add: stored_inv_def put_worker_def)
qed

lemma poll_step_inv:
  assumes inv: "stored_inv g coming s" and "mailbox_preferred g (Supervised (PollSettings g (Chosen a))) s"
  shows "stored_inv g coming (s\<lparr>sd_run := settings_step (PollSettings g (Chosen a)) (sd_run s)\<rparr>)"
proof (cases "stored_worker g s")
  case (Some w)
  let ?sv = "sr_supervisor (sd_run s)"
  have "\<not> (a = TakeShutdown \<and> wk_phase w = SettingsIdle \<and> wk_mail_unseen w)"
    using assms(2) Some by (auto simp: mailbox_preferred_def)
  then have "settings_worker_inv g (sv_shutdown ?sv) (sd_db s) (poll_settings_worker (sv_config ?sv) (sv_shutdown ?sv) (Chosen a) w)"
    using inv Some by (intro poll_chosen_inv) (simp_all add: stored_inv_def)
  then show ?thesis
    using inv Some by (simp add: stored_inv_def put_worker_def publisher_inv_def)
qed (use inv in simp)

lemma shutdown_step_inv:
  assumes "stored_inv g coming s"
  shows "stored_inv g coming (s\<lparr>sd_run := settings_step BeginSettingsShutdown (sd_run s)\<rparr>)"
proof -
  have "settings_worker_inv g sh db w \<Longrightarrow> settings_worker_inv g True db (w\<lparr>wk_shutdown_unseen := True\<rparr>)" for sh db w
    by (cases "wk_phase w") (auto simp: settings_worker_inv_def phase_inv_def row_inv_def pending_after_def worker_values_def split: option.splits)
  moreover have "worker_value (w\<lparr>wk_shutdown_unseen := True\<rparr>) = worker_value w" for w
    by (simp add: worker_value_def split: option.split)
  then have "publisher_inv w b \<Longrightarrow> publisher_inv (w\<lparr>wk_shutdown_unseen := True\<rparr>) b" for w b
    by (simp add: publisher_inv_def)
  ultimately show ?thesis
    using assms by (auto simp: stored_inv_def begin_shutdown_def split: option.splits)
qed

lemma seed_step_inv:
  assumes "stored_inv g coming s"
  shows "stored_inv g coming (stored_step g (SeedLoaded f) s)"
proof -
  obtain got db where get: "get_guild_settings f g (sd_db s) = (got, db)" by (rule prod.exhaust)
  have db: "db = sd_db s" using get_settings_found(1) [OF get] .
  show ?thesis
  proof (cases "\<exists>seed. got = Inr (Some seed)")
    case True
    then obtain seed where seed: "got = Inr (Some seed)" by blast
    have "coherent g seed (sd_db s)" "own_values g (sd_db s) = Some (values_of seed)"
      using found_coherent get [unfolded seed] found_values(2) [OF get [unfolded seed]] assms db by (auto simp: stored_inv_def)
    then show ?thesis
      using assms get seed db by (auto simp: stored_inv_def split: sum.split option.splits)
  next
    case False
    then show ?thesis using assms get db by (auto split: sum.split option.split)
  qed
qed

lemma write_step_inv:
  assumes inv: "stored_inv g coming s" and env: "env_ok g env"
  shows "stored_inv g coming (stored_step g (WorkerWrote env) s)"
proof (cases "\<exists>w u. stored_worker g s = Some w \<and> settings_being_written w = Some u")
  case True
  then obtain w u where w: "stored_worker g s = Some w" "settings_being_written w = Some u" by blast
  let ?sv = "sr_supervisor (sd_run s)"
  have winv: "settings_worker_inv g (sv_shutdown ?sv) (sd_db s) w" using inv w by (simp add: stored_inv_def)
  have wf: "desired_wf (su_settings u)" "coherent g (wk_current w) (sd_db s)"
      "own_values g (sd_db s) = Some (values_of (wk_current w))"
    using winv w(2)
    by (auto simp: settings_worker_inv_def settings_being_written_def phase_inv_def row_inv_def pending_after_def split: settings_phase.splits)
  obtain r j db where persist: "persist_latest env g (wk_current w) (su_settings u) (sd_db s) = (r, j, db)" by (rule prod_cases3)
  have leaves: "write_leaves g (su_settings u) (sd_db s) r db" by (rule persist_stores [OF env wf persist])
  have place: "rows_in_place g db"
    using leaves inv by (simp add: write_leaves_def later_def stored_inv_def)
  note poll = poll_written [OF winv w(2) leaves, of "sv_config ?sv"]
  have "publisher_inv w b \<Longrightarrow> publisher_inv (poll_settings_worker (sv_config ?sv) (sv_shutdown ?sv) (write_answer r) w) b" for b
    using poll(2) by (simp add: publisher_inv_def)
  then show ?thesis
    using inv w persist place poll by (auto simp: stored_inv_def put_worker_def)
qed (use inv in \<open>auto split: option.split\<close>)

lemma stored_step_inv:
  assumes inv: "stored_inv g (revisions_of g (e # es)) s" and ok: "event_ok g e" and "mailbox_preferred g e s"
    and sorted: "sorted_wrt (<) (revisions_of g (e # es))"
  shows "stored_inv g (revisions_of g es) (stored_step g e s)"
proof (cases e)
  case (Supervised x)
  show ?thesis
  proof (cases "event_guild x = Some g \<or> event_guild x = None")
    case own: True
    show ?thesis
    proof (cases x)
      case (RegisterPublisher g' seed initial)
      then show ?thesis using register_inv [of g "revisions_of g es" s] inv own Supervised
        by (simp add: event_guild_def without_database_def)
    next
      case (PublishSettings g' p)
      then show ?thesis using publish_step_inv [of g p "revisions_of g es" s] inv own ok sorted Supervised
        by (simp add: event_guild_def without_database_def event_ok_def)
    next
      case (PollSettings g' c)
      then show ?thesis using poll_step_inv [of g "revisions_of g es" s] inv own assms(3) Supervised
        by (cases c) (simp_all add: event_guild_def without_database_def)
    next
      case BeginSettingsShutdown
      then show ?thesis using shutdown_step_inv [of g "revisions_of g es" s] inv Supervised
        by (simp add: without_database_def)
    qed (use inv own Supervised in \<open>simp add: event_guild_def without_database_def\<close>)
  next
    case False
    then obtain g' where g': "event_guild x = Some g'" "g' \<noteq> g" by auto
    have "revisions_of g (e # es) = revisions_of g es"
      using g' Supervised by (auto simp: event_guild_def split: settings_event.split)
    then show ?thesis using inv foreign_step [OF g'] Supervised by (simp add: stored_inv_def split: option.splits)
  qed
next
  case (SeedLoaded f)
  then show ?thesis using seed_step_inv [of g "revisions_of g es" s f] inv by simp
next
  case (WorkerWrote env)
  then show ?thesis using write_step_inv [of g "revisions_of g es" s env] inv ok by (simp add: event_ok_def)
next
  case (ClientWrote h)
  then show ?thesis using stored_inv_client [of g h "revisions_of g es" s] inv ok by (simp add: event_ok_def)
qed

lemma stored_steps_inv:
  "stored_inv g (revisions_of g es) s \<Longrightarrow> \<forall>e \<in> set es. event_ok g e \<Longrightarrow> mailbox_first g es s \<Longrightarrow>
    sorted_wrt (<) (revisions_of g es) \<Longrightarrow> stored_inv g [] (stored_steps g es s)"
proof (induction es arbitrary: s)
  case (Cons e es)
  have "sorted_wrt (<) (revisions_of g es)"
    using Cons.prems(4) by (auto split: stored_event.splits settings_event.splits if_split_asm)
  then show ?case using Cons.IH [of "stored_step g e s"] stored_step_inv Cons.prems by simp
qed simp

section \<open>What was accepted last is what is stored\<close>

lemma stored_steps_append: "stored_steps g (xs @ ys) s = stored_steps g ys (stored_steps g xs s)"
  by (induction xs arbitrary: s) simp_all

lemma mailbox_first_append:
  "mailbox_first g (xs @ ys) s \<longleftrightarrow> mailbox_first g xs s \<and> mailbox_first g ys (stored_steps g xs s)"
  by (induction xs arbitrary: s) simp_all

text \<open>A snapshot is accepted when its publication succeeds and the publisher is armed after it.\<close>

definition accepts_settings :: "guild_id \<Rightarrow> player_snapshot \<Rightarrow> settings_run \<Rightarrow> bool" where
  "accepts_settings g p s \<longleftrightarrow>
     (case (sr_publishers s g, sv_workers (sr_supervisor s) g) of
        (Some b, Some w) \<Rightarrow>
          (case settings_publish (sv_closing (sr_supervisor s)) p b w of (answered, b', _) \<Rightarrow> answered = Inr () \<and> sb_armed b')
      | _ \<Rightarrow> False)"

definition changes_publisher :: "guild_id \<Rightarrow> stored_event \<Rightarrow> bool" where
  "changes_publisher g e =
     (case e of
        Supervised (PublishSettings g' _) \<Rightarrow> g' = g | Supervised (RegisterPublisher g' _ _) \<Rightarrow> g' = g | _ \<Rightarrow> False)"

lemma publisher_kept:
  assumes "\<not> changes_publisher g e"
  shows "sr_publishers (sd_run (stored_step g e s)) g = sr_publishers (sd_run s) g"
proof (cases e)
  case (Supervised x)
  have "sr_publishers (settings_step x r) g = sr_publishers r g" for r
    using assms Supervised
    by (cases x) (auto simp: changes_publisher_def settings_register_def Let_def split: sum.split option.split prod.split)
  then show ?thesis using Supervised by simp
next
  case (SeedLoaded f)
  then show ?thesis by (auto split: sum.split option.split prod.split)
next
  case (WorkerWrote env)
  then show ?thesis by (auto split: option.split prod.split)
qed simp

lemma publisher_kept_steps:
  "\<forall>e \<in> set es. \<not> changes_publisher g e \<Longrightarrow> sr_publishers (sd_run (stored_steps g es s)) g = sr_publishers (sd_run s) g"
proof (induction es arbitrary: s)
  case (Cons e es)
  have "sr_publishers (sd_run (stored_step g e s)) g = sr_publishers (sd_run s) g"
    using Cons.prems by (intro publisher_kept) simp
  moreover have "sr_publishers (sd_run (stored_steps g es (stored_step g e s))) g = sr_publishers (sd_run (stored_step g e s)) g"
    using Cons.prems by (intro Cons.IH) simp
  ultimately show ?case by simp
qed simp

lemma accepted_publisher:
  assumes "accepts_settings g p (sd_run s)" and "settings_from_snapshot p = Some d"
  shows "\<exists>b. sr_publishers (sd_run (stored_step g (Supervised (PublishSettings g p)) s)) g = Some b \<and>
    sb_armed b \<and> sb_last_accepted b = d"
proof -
  obtain b w where bw: "sr_publishers (sd_run s) g = Some b" "stored_worker g s = Some w"
    using assms(1) by (auto simp: accepts_settings_def split: option.split_asm)
  obtain answered b' w' where pub: "settings_publish (sv_closing (sr_supervisor (sd_run s))) p b w = (answered, b', w')"
    by (rule prod_cases3)
  have ok: "answered = Inr ()" "sb_armed b'" using assms(1) bw pub by (auto simp: accepts_settings_def)
  moreover have "sb_last_accepted b' = d" by (rule publish_accepts [OF pub [unfolded ok(1)] assms(2) ok(2)])
  ultimately show ?thesis using bw pub by (simp add: without_database_def)
qed


end
