(* ===== verification/Settings_Samples.thy ===== *)
theory Settings_Samples
  imports Settings_Durability
begin

text \<open>
  Concrete runs of the settings supervisor: what is assumed of the surroundings of a write can hold,
  and two ways a shutdown goes wrong.
\<close>

section \<open>Sample data\<close>

definition sample_settings :: guild_settings where
  "sample_settings =
     \<lparr>gs_guild_id = GuildId 5, gs_volume = Volume 75, gs_idle_disconnect = 300 * 10 ^ 9,
      gs_control_policy = SameVoiceChannel, gs_dj_role_id = None,
      gs_default_hrir_preset_id = Some (HrirPresetId (str ''a'')), gs_spatial_audio_enabled = False,
      gs_revision = SettingsRevision 0, gs_created_at = 0, gs_updated_at = 0\<rparr>"

definition values_at :: "u8 \<Rightarrow> player_settings" where
  "values_at percent =
     \<lparr>st_volume = Volume percent, st_hrir_preset = HrirPresetId (str ''a''), st_spatial_audio_enabled = False\<rparr>"

definition snapshot_at :: "u64 \<Rightarrow> u8 \<Rightarrow> player_snapshot" where
  "snapshot_at r percent =
     \<lparr>ps_guild_id = GuildId 5, ps_voice_channel_id = None, ps_revision = StateRevision r, ps_state = Disconnected,
      ps_current_track = None, ps_queued_tracks = 0, ps_upcoming_tracks = [], ps_has_previous_track = False,
      ps_volume = Volume percent, ps_repeat_mode = RepeatOff, ps_shuffle_enabled = False,
      ps_hrir_preset = Some (HrirPresetId (str ''a'')), ps_spatial_audio_enabled = False,
      ps_observed_at = UnixTimeMillis 0\<rparr>"

lemma sample_settings_wf: "settings_wf sample_settings"
  by (simp add: settings_wf_def sample_settings_def volume_wf_def hrir_preset_id_wf_def trim_def trim_start_def
      is_whitespace_def has_control_def is_control_def char_len_utf8_def)

text \<open>A publisher armed at 75 percent with a change to 40 published.\<close>

definition armed_events :: "settings_event list" where
  "armed_events =
     [AdmitPublisher (GuildId 5) sample_settings, RegisterPublisher (GuildId 5) sample_settings (values_at 75),
      PublishSettings (GuildId 5) (snapshot_at 1 75)]"

lemmas settings_run_simps = settings_run_start_def settings_start_def settings_admit_def settings_register_def
  settings_from_guild_def new_settings_worker_def new_settings_publisher_def settings_publish_def settings_closed_def
  settings_from_snapshot_def put_worker_def settings_queue_def poll_settings_worker_def begin_shutdown_def
  loop_head_def settings_written_def sample_settings_def values_at_def snapshot_at_def

lemma armed_state:
  "settings_steps armed_events (settings_run_start config) =
     \<lparr>sr_supervisor = \<lparr>sv_config = config, sv_closing = False, sv_shutdown = False,
        sv_workers = [GuildId 5 \<mapsto> new_settings_worker config sample_settings]\<rparr>,
      sr_admitted = [(GuildId 5, sample_settings)],
      sr_publishers = [GuildId 5 \<mapsto> \<lparr>sb_guild_id = GuildId 5, sb_initial = values_at 75, sb_armed = True,
        sb_persist_initial = False, sb_last_accepted = values_at 75\<rparr>]\<rparr>"
  by (simp add: armed_events_def settings_run_simps)

definition quiet_env :: write_env where
  "quiet_env = \<lparr>we_schema = \<lparr>sc_settings = (\<lambda>_ _. True), sc_preset = (\<lambda>_ _. True), sc_playlist = (\<lambda>_. True), sc_track = (\<lambda>_. True)\<rparr>,
     we_fault = (\<lambda>_. NoFault), we_now = (\<lambda>_. 7), we_others = (\<lambda>_ db. db)\<rparr>"

definition sample_database :: database where
  "sample_database = \<lparr>db_settings = [guild_text (GuildId 5) \<mapsto> bound_settings sample_settings 300 0 0 0],
     db_presets = (\<lambda>_. None), db_playlists = (\<lambda>_. None), db_tracks = []\<rparr>"

lemma sample_row: "guild_settings_try_from (bound_settings sample_settings 300 0 0 0) = Inr sample_settings"
proof -
  have idle: "duration_seconds (gs_idle_disconnect sample_settings) = Inr 300"
    by (simp add: duration_seconds_def checked_i32_def sample_settings_def)
  show ?thesis
    using bound_settings_convert [OF sample_settings_wf idle, of 0 0 0] by (simp add: sample_settings_def)
qed

lemma settings_writes_never_clobber_witness:
  "\<exists>r n db. persist_latest quiet_env (GuildId 5) sample_settings (values_at 40) sample_database = (r, n, db) \<and>
     shared_values (GuildId 5) db = Some (SameVoiceChannel, None, 300 * 10 ^ 9, 0)"
proof -
  let ?shared = "Some (SameVoiceChannel, None, 300 * 10 ^ 9, 0)"
  obtain r n db where run: "persist_latest quiet_env (GuildId 5) sample_settings (values_at 40) sample_database = (r, n, db)"
    by (rule prod_cases3)
  have disciplined: "disciplined (GuildId 5) (we_others quiet_env)"
    by (simp add: disciplined_def quiet_env_def)
  have desired: "desired_wf (values_at 40)"
    by (simp add: desired_wf_def values_at_def volume_wf_def hrir_preset_id_wf_def trim_def trim_start_def
        is_whitespace_def has_control_def is_control_def char_len_utf8_def)
  have place: "rows_in_place (GuildId 5) sample_database"
    by (simp add: rows_in_place_def sample_database_def bound_settings_def) (simp add: sample_settings_def)
  have coherent: "coherent (GuildId 5) sample_settings sample_database"
    using place sample_settings_wf sample_row
    by (simp add: coherent_def sample_database_def) (simp add: sample_settings_def bound_settings_def)
  have start: "shared_values (GuildId 5) sample_database = ?shared"
    using sample_row by (simp add: shared_values_def sample_database_def) (simp add: sample_settings_def)
  have steps: "\<And>i d. shared_values (GuildId 5) d = ?shared \<Longrightarrow> shared_values (GuildId 5) (we_others quiet_env i d) = ?shared"
    by (simp add: quiet_env_def)
  from settings_writes_never_clobber [OF disciplined desired place, of "\<lambda>_ v. v = ?shared", OF steps _ start run] coherent run
  show ?thesis by auto
qed

lemma settings_updates_are_optimistic_witness:
  "\<exists>r db. update_guild_settings (we_schema quiet_env) NoFault 7 (with_desired sample_settings (values_at 40)) (SettingsRevision 0)
      sample_database = (Inr (Some r), db) \<and> fst (get_guild_settings NoFault (GuildId 5) db) = Inr (Some r)"
proof -
  let ?s = "with_desired sample_settings (values_at 40)"
  have wf: "settings_wf ?s"
    by (rule with_desired_wf [OF sample_settings_wf])
      (simp add: desired_wf_def values_at_def volume_wf_def hrir_preset_id_wf_def trim_def trim_start_def
        is_whitespace_def has_control_def is_control_def char_len_utf8_def)
  have guild: "gs_guild_id ?s = GuildId 5" by (simp add: with_desired_def sample_settings_def)
  have "\<exists>r db. update_guild_settings (we_schema quiet_env) NoFault 7 ?s (SettingsRevision 0) sample_database = (Inr (Some r), db)"
  proof -
    have idle: "duration_seconds (gs_idle_disconnect ?s) = Inr 300"
      by (simp add: duration_seconds_def checked_i32_def sample_settings_def with_desired_def)
    have row: "\<exists>row db. update_settings (we_schema quiet_env) ?s 300 0 7 sample_database = Some (Some row, db)"
      by (simp add: update_settings_def guild sample_database_def bound_settings_def Let_def quiet_env_def)
    then obtain row db where row: "update_settings (we_schema quiet_env) ?s 300 0 7 sample_database = Some (Some row, db)" by blast
    have "\<exists>r. guild_settings_try_from row = Inr r"
      using update_settings_row [OF wf idle, of "we_schema quiet_env" 0 7 sample_database row db] row by auto
    then show ?thesis
      using row idle by (auto simp: update_guild_settings_def checked_i64_def then_convert_def run_query_def)
  qed
  then obtain r db where up: "update_guild_settings (we_schema quiet_env) NoFault 7 ?s (SettingsRevision 0) sample_database = (Inr (Some r), db)"
    by blast
  from settings_updates_are_optimistic [OF wf guild up] up show ?thesis by auto
qed

section \<open>Runs with the database\<close>

lemma settings_steps_append: "settings_steps (xs @ ys) s = settings_steps ys (settings_steps xs s)"
  by (induction xs arbitrary: s) simp_all

text \<open>The row after a write of 40 percent to the sample database.\<close>

definition row_at_40 :: guild_settings where
  "row_at_40 = (with_desired sample_settings (values_at 40))\<lparr>gs_revision := SettingsRevision 1, gs_updated_at := 7\<rparr>"

definition database_at_40 :: database where
  "database_at_40 = sample_database\<lparr>db_settings := (db_settings sample_database)(guild_text (GuildId 5) \<mapsto>
     bound_settings (with_desired sample_settings (values_at 40)) 300 1 0 7)\<rparr>"

lemma values_at_wf: "p \<le> 100 \<Longrightarrow> desired_wf (values_at p)"
  by (simp add: desired_wf_def values_at_def volume_wf_def hrir_preset_id_wf_def trim_def trim_start_def
      is_whitespace_def has_control_def is_control_def char_len_utf8_def)

lemma row_at_40_converts:
  "guild_settings_try_from (bound_settings (with_desired sample_settings (values_at 40)) 300 1 0 7) = Inr row_at_40"
proof -
  have "duration_seconds (gs_idle_disconnect (with_desired sample_settings (values_at 40))) = Inr 300"
    by (simp add: duration_seconds_def checked_i32_def sample_settings_def with_desired_def)
  from bound_settings_convert [OF with_desired_wf [OF sample_settings_wf values_at_wf] this, of 1 0 7] show ?thesis
    by (simp add: row_at_40_def sample_settings_def with_desired_def)
qed

text \<open>An update that reaches the database, whatever becomes of its answer.\<close>

lemma sample_update:
  assumes "f \<noteq> LostBefore"
  shows "update_guild_settings (we_schema quiet_env) f 7 (with_desired sample_settings (values_at 40)) (gs_revision sample_settings)
      sample_database = (if f = NoFault then Inr (Some row_at_40) else Inl Database, database_at_40)"
proof -
  let ?s = "with_desired sample_settings (values_at 40)"
  have idle: "duration_seconds (gs_idle_disconnect ?s) = Inr 300"
    by (simp add: duration_seconds_def checked_i32_def sample_settings_def with_desired_def)
  have revision: "checked_i64 (unat (settings_revision_get (gs_revision sample_settings))) ''guild_settings'' ''revision'' = Inr 0"
    by (simp add: checked_i64_def sample_settings_def)
  have guild: "gs_guild_id ?s = GuildId 5" by (simp add: sample_settings_def with_desired_def)
  have "update_settings (we_schema quiet_env) ?s 300 0 7 sample_database =
      Some (Some (bound_settings ?s 300 1 0 7), database_at_40)"
    by (simp add: update_settings_def guild sample_database_def bound_settings_def Let_def quiet_env_def database_at_40_def)
  then show ?thesis
    using assms by (cases f) (simp_all add: update_guild_settings_def idle revision then_convert_def run_query_def row_at_40_converts)
qed

lemma sample_unmatched: "\<not> matches_desired sample_settings (values_at 40)" "matches_desired sample_settings (values_at 75)"
  by (simp_all add: matches_desired_def sample_settings_def values_at_def)

text \<open>An environment whose every answer is lost.\<close>

definition lost_env :: write_env where
  "lost_env = quiet_env\<lparr>we_fault := \<lambda>_. LostAfter\<rparr>"

lemma sample_writes:
  "persist_latest quiet_env (GuildId 5) sample_settings (values_at 40) sample_database = (Inr row_at_40, 1, database_at_40)"
  "persist_latest lost_env (GuildId 5) sample_settings (values_at 40) sample_database = (Inl Repository, 1, database_at_40)"
  "persist_latest quiet_env (GuildId 5) sample_settings (values_at 75) db = (Inr sample_settings, 0, db)"
proof -
  have 8: "(8 :: nat) = Suc 7" by simp
  have guild: "gs_guild_id sample_settings = GuildId 5" by (simp add: sample_settings_def)
  have env: "we_fault quiet_env i = NoFault" "we_now quiet_env i = 7" "we_others quiet_env i d = d"
    "we_fault lost_env i = LostAfter" "we_now lost_env i = 7" "we_others lost_env i d = d" "we_schema lost_env = we_schema quiet_env" for i d
    by (simp_all add: quiet_env_def lost_env_def)
  show "persist_latest quiet_env (GuildId 5) sample_settings (values_at 40) sample_database = (Inr row_at_40, 1, database_at_40)"
    "persist_latest lost_env (GuildId 5) sample_settings (values_at 40) sample_database = (Inl Repository, 1, database_at_40)"
    "persist_latest quiet_env (GuildId 5) sample_settings (values_at 75) db = (Inr sample_settings, 0, db)"
    by (simp_all only: persist_latest_def guild 8 persist_rounds.simps if_True refl)
      (simp_all add: env sample_unmatched sample_update)
qed

lemma sample_read: "get_guild_settings NoFault (GuildId 5) sample_database = (Inr (Some sample_settings), sample_database)"
    "get_guild_settings NoFault (GuildId 5) database_at_40 = (Inr (Some row_at_40), database_at_40)"
  using sample_row row_at_40_converts
  by (simp_all add: get_guild_settings_def then_convert_def run_query_def sample_database_def database_at_40_def)

text \<open>The publisher armed at 75 percent, as a run with the database; then a change to 40 and the shutdown.\<close>

definition seeded_events :: "stored_event list" where
  "seeded_events =
     [SeedLoaded NoFault, Supervised (RegisterPublisher (GuildId 5) sample_settings (values_at 75)),
      Supervised (PublishSettings (GuildId 5) (snapshot_at 1 75))]"

definition written_events :: "write_env \<Rightarrow> stored_event list" where
  "written_events env = [Supervised (PollSettings (GuildId 5) (Chosen TakeMailbox)), WorkerWrote env]"

definition shutdown_events :: "stored_event list" where
  "shutdown_events = [Supervised BeginSettingsShutdown, Supervised (PollSettings (GuildId 5) (Chosen TakeShutdown))]"

lemma seeded_state:
  "stored_steps (GuildId 5) seeded_events (stored_start config sample_database) =
     \<lparr>sd_run = settings_steps armed_events (settings_run_start config), sd_db = sample_database\<rparr>"
  unfolding armed_state
  by (simp add: seeded_events_def stored_start_def sample_read without_database_def settings_run_simps)

text \<open>The worker after a change to 40 percent was published and written.\<close>

definition running_worker :: "settings_phase \<Rightarrow> settings_update option \<Rightarrow> bool \<Rightarrow> guild_settings \<Rightarrow> settings_worker" where
  "running_worker ph pending told row =
     \<lparr>wk_durable = row, wk_pending = pending, wk_mail_unseen = False, wk_shutdown_unseen = told, wk_phase = ph,
      wk_current = row, wk_retry = sc_initial_retry settings_worker_config_default\<rparr>"

definition running :: "settings_worker \<Rightarrow> bool \<Rightarrow> u8 \<Rightarrow> database \<Rightarrow> stored_run" where
  "running w closing accepted db =
     \<lparr>sd_run = \<lparr>sr_supervisor = \<lparr>sv_config = settings_worker_config_default, sv_closing = closing, sv_shutdown = closing,
          sv_workers = [GuildId 5 \<mapsto> w]\<rparr>,
        sr_admitted = [(GuildId 5, sample_settings)],
        sr_publishers = [GuildId 5 \<mapsto> \<lparr>sb_guild_id = GuildId 5, sb_initial = values_at 75, sb_armed = True,
          sb_persist_initial = False, sb_last_accepted = values_at accepted\<rparr>]\<rparr>,
      sd_db = db\<rparr>"

abbreviation change :: "u64 \<Rightarrow> u8 \<Rightarrow> stored_event" where
  "change r p \<equiv> Supervised (PublishSettings (GuildId 5) (snapshot_at r p))"

abbreviation update_at :: "u64 \<Rightarrow> u8 \<Rightarrow> settings_update" where
  "update_at r p \<equiv> \<lparr>su_actor_revision = StateRevision r, su_settings = values_at p\<rparr>"

lemma snapshot_at_settings [simp]:
  "settings_from_snapshot (snapshot_at r p) = Some (values_at p)" "ps_guild_id (snapshot_at r p) = GuildId 5"
  "ps_revision (snapshot_at r p) = StateRevision r" "values_at p = values_at q \<longleftrightarrow> p = q"
  by (auto simp: settings_from_snapshot_def snapshot_at_def values_at_def)

lemmas running_simps = running_def running_worker_def settings_publish_def settings_closed_def settings_queue_def
  put_worker_def poll_settings_worker_def begin_shutdown_def loop_head_def settings_written_def retry_doubled_def
  write_answer_def settings_being_written_def without_database_def sample_writes

abbreviation seeded :: stored_run where
  "seeded \<equiv> stored_steps (GuildId 5) seeded_events (stored_start settings_worker_config_default sample_database)"

lemma seeded_running: "seeded = running (running_worker SettingsIdle None False sample_settings) False 75 sample_database"
  unfolding seeded_state armed_state by (simp add: running_simps new_settings_worker_def)

lemma change_read:
  "stored_steps (GuildId 5) [change 2 40, Supervised (PollSettings (GuildId 5) (Chosen TakeMailbox))] seeded =
     running (running_worker (SettingsWriting (update_at 2 40)) (Some (update_at 2 40)) False sample_settings) False 40 sample_database"
  unfolding seeded_running by (simp add: running_simps)

lemma change_written:
  "stored_steps (GuildId 5) (change 2 40 # written_events quiet_env) seeded =
     running (running_worker SettingsIdle None False row_at_40) False 40 database_at_40"
  "stored_steps (GuildId 5) (change 2 40 # written_events lost_env) seeded =
     running (running_worker (SettingsRetrying (update_at 2 40)) (Some (update_at 2 40)) False sample_settings) False 40 database_at_40"
  using change_read by (simp_all add: written_events_def) (simp_all add: running_simps)

lemma shut_down:
  "stored_steps (GuildId 5) shutdown_events (running (running_worker SettingsIdle None False row) False p db) =
     running (running_worker (SettingsEnded None) None False row) True p db"
  by (simp add: shutdown_events_def running_simps fun_eq_iff)

lemma running_parts [simp]:
  "stored_worker (GuildId 5) (running w closing p db) = Some w" "sd_db (running w closing p db) = db"
  "wk_phase (running_worker ph pending told row) = ph"
  by (simp_all add: running_def running_worker_def)

lemma sample_in_place: "rows_in_place (GuildId 5) sample_database"
  by (simp add: rows_in_place_def sample_database_def bound_settings_def) (simp add: sample_settings_def)

lemma quiet_ok: "env_ok (GuildId 5) quiet_env"
  by (simp add: env_ok_def client_ok_def quiet_env_def)

lemma seeded_ok:
  "\<forall>e \<in> set seeded_events. event_ok (GuildId 5) e"
  "mailbox_first (GuildId 5) seeded_events (stored_start settings_worker_config_default sample_database)"
  "revisions_of (GuildId 5) (seeded_events @ es) = StateRevision 1 # revisions_of (GuildId 5) es"
  using values_at_wf [of 75] by (simp_all add: seeded_events_def event_ok_def mailbox_preferred_def split: option.split)

lemma seeded_accepts: "accepts_settings (GuildId 5) (snapshot_at 2 40) (sd_run seeded)"
  unfolding seeded_running by (simp add: accepts_settings_def running_simps)


section \<open>Three ways to lose what was accepted\<close>

text \<open>Without a preference for the mailbox accepted settings can be lost: the shutdown finds them
  queued and unseen, the idle worker takes the shutdown instead and ends, and both its task and the
  supervisor report success although the database still has the old values.\<close>

theorem shutdown_can_lose_settings:
  "accepts_settings (GuildId 5) (snapshot_at 2 40) (sd_run seeded) \<and>
   (\<exists>w. stored_worker (GuildId 5) (stored_steps (GuildId 5) (change 2 40 # shutdown_events) seeded) = Some w \<and>
      wk_phase w = SettingsEnded None \<and> wk_pending w = Some (update_at 2 40)) \<and>
   settings_shutdown_outcome [Some (settings_task_result (GuildId 5) True (Some None))] = Inr () \<and>
   fst (get_guild_settings NoFault (GuildId 5) (sd_db (stored_steps (GuildId 5) (change 2 40 # shutdown_events) seeded))) =
     Inr (Some sample_settings) \<and> \<not> matches_desired sample_settings (values_at 40)"
  using seeded_accepts
  by (simp add: sample_unmatched settings_task_result_def) (simp add: seeded_running shutdown_events_def running_simps sample_read)

definition taken_back :: "stored_event list" where
  "taken_back = [change 2 40] @ written_events lost_env @ [change 3 75] @ written_events quiet_env @ shutdown_events"


text \<open>A worker that took the raised flag as seen when it subscribed is never told of the shutdown again.\<close>

definition deaf :: "guild_id \<Rightarrow> settings_run \<Rightarrow> bool" where
  "deaf g s \<longleftrightarrow> sv_closing (sr_supervisor s) \<and>
     (\<exists>w. sv_workers (sr_supervisor s) g = Some w \<and> wk_phase w = SettingsIdle \<and> \<not> wk_mail_unseen w \<and> \<not> wk_shutdown_unseen w)"

lemma deaf_step:
  assumes "deaf g s" and "e \<noteq> BeginSettingsShutdown"
  shows "deaf g (settings_step e s)"
proof (cases e)
  case (PublishSettings g' p)
  then show ?thesis
    using assms(1) by (auto simp: deaf_def put_worker_def settings_publish_def settings_closed_def
        split: option.split prod.split)
next
  case (RegisterPublisher g' seed initial)
  then show ?thesis
    using assms(1) by (auto simp: deaf_def settings_register_def Let_def split: option.split prod.split)
qed (use assms in \<open>auto simp: deaf_def put_worker_def poll_settings_worker_def settings_admit_def
    split: option.split sum.split\<close>)

lemma deaf_steps: "deaf g s \<Longrightarrow> BeginSettingsShutdown \<notin> set es \<Longrightarrow> deaf g (settings_steps es s)"
proof (induction es arbitrary: s)
  case (Cons e es)
  then have "deaf g (settings_step e s)" by (intro deaf_step) auto
  then show ?case using Cons by simp
qed simp

text \<open>A publisher that was admitted before the shutdown and registers after it leaves a worker
  the shutdown waits for without end: the new worker takes the raised flag as seen, no publication
  reaches it any more, and no step of the run ever ends it.\<close>

theorem late_registration_hangs_shutdown:
  "\<exists>before. sv_shutdown (sr_supervisor (settings_steps before (settings_run_start config))) \<and>
     sv_workers (sr_supervisor (settings_steps before (settings_run_start config))) (GuildId 5) \<noteq> None \<and>
     (\<forall>after. BeginSettingsShutdown \<in> set after \<or>
        map_option wk_phase (sv_workers (sr_supervisor (settings_steps (before @ after) (settings_run_start config))) (GuildId 5)) =
          Some SettingsIdle)"
proof -
  let ?before = "[AdmitPublisher (GuildId 5) sample_settings, BeginSettingsShutdown,
     RegisterPublisher (GuildId 5) sample_settings (values_at 75)]"
  let ?s = "settings_steps ?before (settings_run_start config)"
  have "sv_shutdown (sr_supervisor ?s)" and deaf: "deaf (GuildId 5) ?s"
    by (simp_all add: deaf_def settings_run_simps)
  moreover have "map_option wk_phase (sv_workers (sr_supervisor (settings_steps (?before @ after) (settings_run_start config))) (GuildId 5)) =
      Some SettingsIdle" if "BeginSettingsShutdown \<notin> set after" for after
    using deaf_steps [OF deaf that] unfolding settings_steps_append deaf_def by auto
  moreover have "sv_workers (sr_supervisor ?s) (GuildId 5) \<noteq> None" using deaf unfolding deaf_def by auto
  ultimately show ?thesis by (intro exI [of _ ?before]) blast
qed

end
