(* ===== verification/Postgres_Samples.thy ===== *)
theory Postgres_Samples
  imports Settings_Samples
begin

text \<open>A playlist and a catalog on a small database.\<close>

definition empty_database :: database where
  "empty_database = \<lparr>db_settings = (\<lambda>_. None), db_presets = (\<lambda>_. None), db_playlists = (\<lambda>_. None), db_tracks = []\<rparr>"

definition sample_playlist :: playlist where
  "sample_playlist =
     \<lparr>pl_playlist_id = 3, pl_guild_id = GuildId 5, pl_owner_user_id = UserId 7, pl_name = str ''mix'',
      pl_description = None, pl_visibility = Private, pl_revision = SettingsRevision 0, pl_created_at = 0, pl_updated_at = 0\<rparr>"

definition sample_playlist_track :: "u32 \<Rightarrow> playlist_track" where
  "sample_playlist_track n =
     \<lparr>pt_track_id = ucast n + 10, pt_position = n, pt_source_kind = DirectUrl, pt_source_reference = str ''u'',
      pt_title = str ''t'', pt_duration_ms = Some 1000, pt_added_by_user_id = UserId 7, pt_created_at = 0\<rparr>"

lemma playlists_read_back_witness:
  "\<exists>p db. create_playlist (we_schema quiet_env) NoFault 7 sample_playlist [sample_playlist_track 0, sample_playlist_track 1]
      empty_database = (Inr p, db) \<and>
    fst (get_playlist rev NoFault NoFault id 3 db) = Inr (Some (p, map (\<lambda>t. t\<lparr>pt_created_at := 7\<rparr>)
      [sample_playlist_track 0, sample_playlist_track 1]))"
proof -
  let ?ts = "[sample_playlist_track 0, sample_playlist_track 1]"
  have wf: "playlist_wf sample_playlist" by (simp add: playlist_wf_def sample_playlist_def)
  have users: "\<forall>t \<in> set ?ts. user_get (pt_added_by_user_id t) \<noteq> 0" by (simp add: sample_playlist_track_def)
  have tracks: "\<forall>(owner, row) \<in> set (db_tracks empty_database). db_playlists empty_database owner \<noteq> None"
    by (simp add: empty_database_def)
  have revision: "checked_i64 (unat (settings_revision_get (pl_revision sample_playlist))) ''playlist'' ''revision'' = Inr 0"
    by (simp add: checked_i64_def sample_playlist_def)
  have "\<exists>p db. create_playlist (we_schema quiet_env) NoFault 7 sample_playlist ?ts empty_database = (Inr p, db)"
    using bound_playlist_converts [OF wf, of 0 7]
    by (simp add: create_playlist_def revision commit_transaction_def then_convert_def Let_def quiet_env_def empty_database_def
        checked_i32_def checked_i64_def insert_track_row_def sample_playlist_track_def bound_track_def sample_playlist_def)
  then obtain p db where created: "create_playlist (we_schema quiet_env) NoFault 7 sample_playlist ?ts empty_database = (Inr p, db)"
    by blast
  have scan: "finds_all rev" by (simp add: finds_all_def)
  from playlists_read_back [OF wf users tracks created] created scan show ?thesis
    by (intro exI [of _ p] exI [of _ db]) (simp add: reads_back_def sample_playlist_def)
qed

definition sample_preset :: hrir_preset_metadata where
  "sample_preset =
     \<lparr>hp_preset_id = HrirPresetId (str ''a''), hp_owner_guild_id = None, hp_display_name = str ''A'', hp_description = None,
      hp_storage_key = str ''a.wav'', hp_sha256_hex = [], hp_sample_rate = 48000, hp_channel_layout = Hesuvi14,
      hp_file_size_bytes = 100, hp_license_name = None, hp_license_url = None, hp_attribution = None, hp_created_at = 0\<rparr>"

lemma synchronization_installs_exactly_witness:
  "\<exists>db. synchronize_global_hrir_presets (we_schema quiet_env) NoFault 7 [sample_preset] empty_database = (Inr (), db) \<and>
     (\<forall>key. is_some_and (\<lambda>row. hr_owner_guild_id row = None) (db_presets db key) \<longleftrightarrow> key = str ''a'')"
proof -
  have "\<exists>db. synchronize_global_hrir_presets (we_schema quiet_env) NoFault 7 [sample_preset] empty_database = (Inr (), db)"
    by (simp add: synchronize_global_hrir_presets_def commit_transaction_def sample_preset_def checked_i64_def checked_i32_def
        upsert_preset_def empty_database_def quiet_env_def)
  then obtain db where sync: "synchronize_global_hrir_presets (we_schema quiet_env) NoFault 7 [sample_preset] empty_database = (Inr (), db)"
    by blast
  from synchronization_installs_exactly [OF sync] show ?thesis
    by (intro exI [of _ db] conjI sync) (simp add: sample_preset_def)
qed

end
