(* ===== verification/Guild_Presence.thy ===== *)
theory Guild_Presence
  imports Valkey_Samples
begin

text \<open>
  The owner of the gateway-presence leases, \<open>crates/pepeaudio-runtime/src/guild_presence.rs\<close>: an actor
  that handles one command at a time and, between commands, a heartbeat that refreshes every guild it
  owns. A heartbeat is the set of guilds it still has to refresh; its requests complete in any order.
\<close>

section \<open>The actor\<close>

definition CLEAR_CONCURRENCY :: nat where "CLEAR_CONCURRENCY = 32"
definition HEARTBEAT_CONCURRENCY :: nat where "HEARTBEAT_CONCURRENCY = 128"

datatype presence_error = PresenceStopped | PresenceStoreFailed storage_error | PresenceTimedOut string | InvalidPresenceConfig

definition valid_instance :: "rstring \<Rightarrow> bool" where
  "valid_instance name \<longleftrightarrow> name \<noteq> [] \<and> str_len name \<le> 64 \<and>
     list_all (\<lambda>c. is_ascii_alphanumeric c \<or> c = 0x2d \<or> c = 0x5f \<or> c = 0x2e) name"

record 's presence =
  pr_instance :: rstring
  pr_ttl :: nat
  pr_guilds :: "guild_id set"
  pr_heartbeat :: "guild_id set option"
  pr_running :: bool
  pr_store :: 's

definition presence_start :: "rstring \<Rightarrow> nat \<Rightarrow> nat \<Rightarrow> 's \<Rightarrow> presence_error + 's presence" where
  "presence_start instance_id ttl heartbeat s =
     (if heartbeat = 0 \<or> ttl = 0 \<or> heartbeat \<ge> ttl then Inl InvalidPresenceConfig
      else if \<not> valid_instance instance_id then Inl InvalidPresenceConfig
      else Inr \<lparr>pr_instance = instance_id, pr_ttl = ttl, pr_guilds = {}, pr_heartbeat = None, pr_running = True, pr_store = s\<rparr>)"

text \<open>What becomes of a request of the actor: it ends, with a fault and with the server's reply, or it times
  out after having reached the server or not.\<close>

datatype request_end = Ends request_fault "rstring option" | TimesOut request_fault "rstring option"

fun end_fault :: "request_end \<Rightarrow> request_fault" where
  "end_fault (Ends f _) = f" | "end_fault (TimesOut f _) = f"

fun end_reply :: "request_end \<Rightarrow> rstring option" where
  "end_reply (Ends _ reply) = reply" | "end_reply (TimesOut _ reply) = reply"

definition timed :: "request_end \<Rightarrow> string \<Rightarrow> storage_error + 'a \<Rightarrow> presence_error + unit" where
  "timed ending operation r =
     (case ending of
        TimesOut _ _ \<Rightarrow> Inl (PresenceTimedOut operation)
      | Ends _ _ \<Rightarrow> (case r of Inl e \<Rightarrow> Inl (PresenceStoreFailed e) | Inr _ \<Rightarrow> Inr ()))"

definition handle_present ::
  "'s valkey_store \<Rightarrow> request_end \<Rightarrow> guild_id \<Rightarrow> 's presence \<Rightarrow> (presence_error + unit) \<times> 's presence" where
  "handle_present vs ending guild p =
     (case refresh_bot_presence vs (end_fault ending) (end_reply ending) guild (pr_instance p) (pr_ttl p) (pr_store p) of
        (r, t) \<Rightarrow> (timed ending ''present'' r, p\<lparr>pr_guilds := insert guild (pr_guilds p), pr_store := t\<rparr>))"

text \<open>The heartbeat is stopped and joined before the lease is cleared.\<close>

definition handle_absent ::
  "'s valkey_store \<Rightarrow> request_end \<Rightarrow> guild_id \<Rightarrow> 's presence \<Rightarrow> (presence_error + unit) \<times> 's presence" where
  "handle_absent vs ending guild p =
     (case clear_bot_presence vs (end_fault ending) guild (pr_instance p) (pr_store p) of
        (r, t) \<Rightarrow> (timed ending ''absent'' r,
          p\<lparr>pr_guilds := pr_guilds p - {guild}, pr_heartbeat := None, pr_store := t\<rparr>))"

text \<open>\<open>clear_all\<close>: the leases in the order their requests are served.\<close>

fun clear_all :: "'s valkey_store \<Rightarrow> rstring \<Rightarrow> (guild_id \<times> request_end) list \<Rightarrow> 's \<Rightarrow> 's" where
  "clear_all vs instance_id [] s = s"
| "clear_all vs instance_id ((guild, ending) # rest) s =
     clear_all vs instance_id rest (snd (clear_bot_presence vs (end_fault ending) guild instance_id s))"

definition handle_shutdown :: "'s valkey_store \<Rightarrow> (guild_id \<times> request_end) list \<Rightarrow> 's presence \<Rightarrow> 's presence" where
  "handle_shutdown vs order p =
     p\<lparr>pr_heartbeat := None, pr_running := False, pr_store := clear_all vs (pr_instance p) order (pr_store p)\<rparr>"

definition heartbeat_tick :: "'s presence \<Rightarrow> 's presence" where
  "heartbeat_tick p = (if pr_heartbeat p = None then p\<lparr>pr_heartbeat := Some (pr_guilds p)\<rparr> else p)"

text \<open>One of the refreshes of the running heartbeat; after the last the task is joined.\<close>

definition heartbeat_refresh :: "'s valkey_store \<Rightarrow> request_end \<Rightarrow> guild_id \<Rightarrow> 's presence \<Rightarrow> 's presence" where
  "heartbeat_refresh vs ending guild p =
     (case pr_heartbeat p of
        None \<Rightarrow> p
      | Some left \<Rightarrow>
          if guild \<notin> left then p
          else p\<lparr>pr_heartbeat := Some (left - {guild}),
                 pr_store := snd (refresh_bot_presence vs (end_fault ending) (end_reply ending) guild (pr_instance p)
                   (pr_ttl p) (pr_store p))\<rparr>)"

definition heartbeat_join :: "'s presence \<Rightarrow> 's presence" where
  "heartbeat_join p = (if pr_heartbeat p = Some {} then p\<lparr>pr_heartbeat := None\<rparr> else p)"

section \<open>Runs\<close>

datatype presence_event =
  Present guild_id request_end | Absent guild_id request_end | ShutdownPresence "(guild_id \<times> request_end) list"
  | Tick | Refresh guild_id request_end | Join | OtherClientCall request_fault store_call

fun presence_step :: "'s valkey_store \<Rightarrow> presence_event \<Rightarrow> 's presence \<Rightarrow> 's presence" where
  "presence_step vs (Present g r) p = (if pr_running p then snd (handle_present vs r g p) else p)"
| "presence_step vs (Absent g r) p = (if pr_running p then snd (handle_absent vs r g p) else p)"
| "presence_step vs (ShutdownPresence order) p = (if pr_running p then handle_shutdown vs order p else p)"
| "presence_step vs Tick p = (if pr_running p then heartbeat_tick p else p)"
| "presence_step vs (Refresh g r) p = heartbeat_refresh vs r g p"
| "presence_step vs Join p = heartbeat_join p"
| "presence_step vs (OtherClientCall f c) p = p\<lparr>pr_store := run_call vs f c (pr_store p)\<rparr>"

fun presence_run :: "'s valkey_store \<Rightarrow> presence_event list \<Rightarrow> 's presence \<Rightarrow> 's presence" where
  "presence_run vs [] p = p"
| "presence_run vs (e # es) p = presence_run vs es (presence_step vs e p)"

text \<open>The other clients are other instances.\<close>

fun foreign :: "rstring \<Rightarrow> presence_event \<Rightarrow> bool" where
  "foreign me (OtherClientCall f c) \<longleftrightarrow> (\<forall>reply g i ttl. c = CallRefreshPresence reply g i ttl \<longrightarrow> i \<noteq> me)"
| "foreign me _ \<longleftrightarrow> True"

section \<open>No lease comes back\<close>

definition lease_of :: "'s valkey_store \<Rightarrow> guild_id \<Rightarrow> 's \<Rightarrow> rstring option" where
  "lease_of vs g s = vk_get (vs_server vs) s (bot_presence_key (vs_keyspace vs) g)"

lemma presence_key_inject [simp]: "bot_presence_key ks g = bot_presence_key ks g' \<longleftrightarrow> g = g'"
  by (auto simp: bot_presence_key_def snowflake_display_inject guild_id.expand)

lemma valid_instance_validates: "valid_instance i \<Longrightarrow> validate_instance i = Inr ()"
  by (simp add: valid_instance_def validate_instance_def)

lemma lease_refresh:
  assumes "valkey_laws (vs_server vs)"
  shows "lease_of vs g (snd (refresh_bot_presence vs f reply g' i ttl s)) = lease_of vs g s \<or>
    g' = g \<and> lease_of vs g (snd (refresh_bot_presence vs f reply g' i ttl s)) = Some i"
  using laws_get(1) [OF assms] duration_millis_pos
  by (auto simp: lease_of_def refresh_bot_presence_def snd_invoke split: sum.split)

lemma lease_clear:
  assumes "valkey_laws (vs_server vs)" and "valid_instance i"
  shows "lease_of vs g (snd (clear_bot_presence vs f g' i s)) =
    (if g' = g \<and> f \<noteq> LostBefore \<and> lease_of vs g s = Some i then None else lease_of vs g s)"
  using laws_get(2) [OF assms(1)] valid_instance_validates [OF assms(2)]
  by (auto simp: lease_of_def clear_bot_presence_def snd_invoke clear_if_owner_script_def)

lemma lease_other_calls:
  assumes "valkey_laws (vs_server vs)" and "\<And>reply g i ttl. c = CallRefreshPresence reply g i ttl \<Longrightarrow> i \<noteq> me"
    and "lease_of vs g s \<noteq> Some me"
  shows "lease_of vs g (run_call vs f c s) \<noteq> Some me"
proof (cases c)
  case (CallRefreshPresence reply g' i ttl)
  then show ?thesis using lease_refresh [OF assms(1), of g f reply g' i ttl s] assms(2,3) by auto
next
  case (CallClearPresence g' i)
  have "lease_of vs g (snd (clear_bot_presence vs f g' i s)) = lease_of vs g s \<or>
      lease_of vs g (snd (clear_bot_presence vs f g' i s)) = None"
    using laws_get(2) [OF assms(1)]
    by (auto simp: lease_of_def clear_bot_presence_def snd_invoke clear_if_owner_script_def split: sum.split)
  then show ?thesis using CallClearPresence assms(3) by auto
next
  case (CallEnqueue e shards retention)
  have "lease_of vs g (snd (enqueue_command vs f e shards retention s)) = lease_of vs g s"
    unfolding lease_of_def
    by (rule get_enqueue [OF assms(1)]) (auto simp: bot_presence_key_def command_stream_key_def actor_rate_key_def
        guild_rate_key_def command_result_key_def)
  then show ?thesis using CallEnqueue assms(3) by simp
qed (use assms(3) get_claim [OF assms(1)] get_complete [OF assms(1)] get_release [OF assms(1)] get_store_result [OF assms(1)]
    get_complete_command [OF assms(1)] get_acknowledge [OF assms(1)]
    in \<open>auto simp: lease_of_def bot_presence_key_def command_stream_key_def dedupe_key_def command_result_key_def split: if_split_asm\<close>)

text \<open>A heartbeat refreshes only guilds that are owned.\<close>

definition presence_inv :: "rstring \<Rightarrow> 's presence \<Rightarrow> bool" where
  "presence_inv me p \<longleftrightarrow> pr_instance p = me \<and> valid_instance me \<and>
     (\<forall>left. pr_heartbeat p = Some left \<longrightarrow> left \<subseteq> pr_guilds p)"

lemma presence_step_inv: "presence_inv me p \<Longrightarrow> presence_inv me (presence_step vs e p)"
  by (cases e) (auto simp: presence_inv_def handle_present_def handle_absent_def handle_shutdown_def heartbeat_tick_def
      heartbeat_refresh_def heartbeat_join_def split: prod.split option.split)

lemma presence_run_inv: "presence_inv me p \<Longrightarrow> presence_inv me (presence_run vs es p)"
  by (induction es arbitrary: p) (simp_all add: presence_step_inv)

definition lease_gone :: "'s valkey_store \<Rightarrow> guild_id \<Rightarrow> 's presence \<Rightarrow> bool" where
  "lease_gone vs g p \<longleftrightarrow> g \<notin> pr_guilds p \<and> lease_of vs g (pr_store p) \<noteq> Some (pr_instance p)"

lemma clear_all_gone:
  assumes "valkey_laws (vs_server vs)" and "valid_instance i" and "lease_of vs g s \<noteq> Some i"
  shows "lease_of vs g (clear_all vs i order s) \<noteq> Some i"
  using assms(3)
proof (induction order arbitrary: s)
  case (Cons one order)
  obtain g' r where one: "one = (g', r)" by (rule prod.exhaust)
  have "lease_of vs g (snd (clear_bot_presence vs (end_fault r) g' i s)) \<noteq> Some i"
    using Cons.prems by (simp add: lease_clear [OF assms(1,2)])
  then show ?case using Cons.IH one by simp
qed simp

lemma gone_stays:
  assumes "valkey_laws (vs_server vs)" and "presence_inv me p" and "lease_gone vs g p" and "foreign me e"
    and "\<And>r. e \<noteq> Present g r"
  shows "lease_gone vs g (presence_step vs e p)"
proof -
  have me: "pr_instance p = me" "valid_instance me" using assms(2) by (simp_all add: presence_inv_def)
  have refreshed: "lease_of vs g (snd (refresh_bot_presence vs f reply g' me ttl (pr_store p))) \<noteq> Some me" if "g' \<noteq> g" for f reply g' ttl
    using lease_refresh [OF assms(1), of g f reply g' me ttl "pr_store p"] that assms(3) me by (auto simp: lease_gone_def)
  show ?thesis
  proof (cases e)
    case (Present g' r)
    then have "g' \<noteq> g" using assms(5) by auto
    then show ?thesis
      using Present assms(3) refreshed [of g' "end_fault r" "end_reply r" "pr_ttl p"] me
      by (auto simp: lease_gone_def handle_present_def split: prod.split)
  next
    case (Absent g' r)
    then show ?thesis
      using assms(3) lease_clear [OF assms(1) me(2), of g "end_fault r" g' "pr_store p"] me
      by (auto simp: lease_gone_def handle_absent_def split: prod.split)
  next
    case (ShutdownPresence order)
    then show ?thesis
      using assms(3) clear_all_gone [OF assms(1) me(2)] me by (auto simp: lease_gone_def handle_shutdown_def)
  next
    case (Refresh g' r)
    have "g' \<noteq> g" if "pr_heartbeat p = Some left" "g' \<in> left" for left
      using that assms(2,3) by (auto simp: presence_inv_def lease_gone_def)
    then show ?thesis
      using Refresh assms(3) refreshed [of g' "end_fault r" "end_reply r" "pr_ttl p"] me
      by (auto simp: lease_gone_def heartbeat_refresh_def split: option.split)
  next
    case (OtherClientCall f c)
    have "\<And>reply g i ttl. c = CallRefreshPresence reply g i ttl \<Longrightarrow> i \<noteq> me" using assms(4) OtherClientCall by auto
    then show ?thesis
      using OtherClientCall lease_other_calls [OF assms(1)] assms(3) me by (auto simp: lease_gone_def)
  qed (use assms(3) in \<open>auto simp: lease_gone_def heartbeat_tick_def heartbeat_join_def\<close>)
qed

text \<open>Once leaving a guild was answered with success, its presence lease is not this instance's
  until the guild is joined again: no heartbeat, running or later, no shutdown and no other instance
  brings it back, whatever becomes of their requests.\<close>

theorem cleared_presence_stays_cleared:
  assumes "valkey_laws (vs_server vs)" and "presence_start me ttl heartbeat s = Inr p0"
    and "handle_absent vs ending g (presence_run vs before p0) = (Inr (), p)"
    and "\<forall>e \<in> set after. foreign me e \<and> (\<forall>r. e \<noteq> Present g r)"
  shows "lease_of vs g (pr_store (presence_run vs after p)) \<noteq> Some me"
proof -
  let ?p1 = "presence_run vs before p0"
  have "presence_inv me p0"
    using assms(2) by (auto simp: presence_start_def presence_inv_def split: if_split_asm)
  then have inv1: "presence_inv me ?p1" by (rule presence_run_inv)
  have p: "p = snd (handle_absent vs ending g ?p1)" using assms(3) by simp
  have inv: "presence_inv me p"
    using inv1 unfolding p by (auto simp: presence_inv_def handle_absent_def split: prod.split)
  have me: "pr_instance ?p1 = me" "valid_instance me" using inv1 by (simp_all add: presence_inv_def)
  obtain reply where ending: "ending = Ends NoFault reply"
    using assms(3) me valid_instance_validates [OF me(2)]
    by (cases ending; cases "end_fault ending")
      (auto simp: handle_absent_def timed_def clear_bot_presence_def invoke_def answer_def split: prod.split_asm)
  have "lease_gone vs g p"
    using lease_clear [OF assms(1) me(2), of g NoFault g "pr_store ?p1"] me
    unfolding p ending by (auto simp: lease_gone_def handle_absent_def split: prod.split if_split_asm)
  then have "lease_gone vs g (presence_run vs after p) \<and> presence_inv me (presence_run vs after p)"
    using inv assms(4)
  proof (induction after arbitrary: p)
    case (Cons e after)
    then show ?case using gone_stays [OF assms(1), of me p g e] presence_step_inv [of me p vs e] by simp
  qed simp
  then show ?thesis by (auto simp: lease_gone_def presence_inv_def)
qed

lemma cleared_presence_stays_cleared_witness:
  "\<exists>p. lease_of sample_store (GuildId 5) (pr_store (presence_run sample_store
      [Tick, OtherClientCall NoFault (CallRefreshPresence (Some (str ''OK'')) (GuildId 5) (str ''b'') 1000000000)] p)) \<noteq> Some (str ''a'')"
proof -
  let ?r = "Ends NoFault (Some (str ''OK''))"
  let ?p0 = "\<lparr>pr_instance = str ''a'', pr_ttl = 2000000000, pr_guilds = {}, pr_heartbeat = None, pr_running = True,
      pr_store = empty_memory\<rparr>"
  let ?p1 = "presence_run sample_store [Present (GuildId 5) ?r] ?p0"
  have start: "presence_start (str ''a'') 2000000000 1000000000 empty_memory = Inr ?p0"
    by (simp add: presence_start_def valid_instance_def char_len_utf8_def is_ascii_alphanumeric_def is_ascii_lowercase_def
        is_ascii_digit_def is_ascii_uppercase_def)
  obtain p where absent: "handle_absent sample_store ?r (GuildId 5) ?p1 = (Inr (), p)"
  proof -
    have "valid_instance (pr_instance ?p1)"
      using start by (simp add: presence_start_def handle_present_def split: if_split_asm prod.split)
    then have "fst (handle_absent sample_store ?r (GuildId 5) ?p1) = Inr ()"
      using valid_instance_validates
      by (simp add: handle_absent_def clear_bot_presence_def invoke_def answer_def timed_def split: prod.split)
    then show ?thesis using that by (metis prod.collapse)
  qed
  from cleared_presence_stays_cleared [OF sample_store_laws(1) start absent, of
      "[Tick, OtherClientCall NoFault (CallRefreshPresence (Some (str ''OK'')) (GuildId 5) (str ''b'') 1000000000)]"]
  show ?thesis by (intro exI [of _ p]) simp
qed

end
