(* ===== verification/Bot_Lifecycle.thy ===== *)
theory Bot_Lifecycle
  imports Guild_Presence Valkey_Snapshots "HOL-Library.Finite_Map"
begin

text \<open>
  Which guilds this process advertises, \<open>crates/pepeaudio-bot/src/guild_lifecycle_actor.rs\<close>: the gateway
  says which guilds each shard owns; the actor invalidates the snapshot of a guild it gains, then has its
  presence advertised, and has the presence of a guild it lost withdrawn, retrying what fails. Hash sets and
  maps are finite sets and maps; the order in which one is iterated is a parameter. The tasks of a chunk of
  invalidations run concurrently: the chunk is served in any order.
\<close>

section \<open>The actor\<close>

definition MAX_PARALLEL_INVALIDATIONS :: nat where "MAX_PARALLEL_INVALIDATIONS = 32"

datatype advertisement_stage = NeedsInvalidation | NeedsPresence | Advertised

datatype guild_lifecycle_error = GuildLifecycleError

type_synonym owned_guilds = "(u32, guild_id fset) fmap"

record lifecycle_state =
  ls_owned :: owned_guilds
  ls_advertisements :: "(guild_id, advertisement_stage) fmap"
  ls_pending_absence :: "guild_id fset"

definition lifecycle_default :: lifecycle_state where
  "lifecycle_default = \<lparr>ls_owned = fmempty, ls_advertisements = fmempty, ls_pending_absence = {||}\<rparr>"

text \<open>What the actor calls: the snapshot store, the presence actor, and the iteration of a hash set.\<close>

record 'w lifecycle_ports =
  lp_invalidate :: "guild_id \<Rightarrow> 'w \<Rightarrow> (guild_lifecycle_error + unit) \<times> 'w"
  lp_present :: "guild_id \<Rightarrow> 'w \<Rightarrow> (presence_error + unit) \<times> 'w"
  lp_absent :: "guild_id \<Rightarrow> 'w \<Rightarrow> (presence_error + unit) \<times> 'w"
  lp_iterate :: "'w \<Rightarrow> guild_id fset \<Rightarrow> guild_id list"

definition is_desired :: "lifecycle_state \<Rightarrow> guild_id \<Rightarrow> bool" where
  "is_desired state guild \<longleftrightarrow> fBex (fmran (ls_owned state)) (\<lambda>guilds. guild |\<in>| guilds)"

text \<open>\<open>apply_desired_state\<close>, over the affected guilds in the order they are iterated.\<close>

definition apply_desired_one :: "guild_id \<Rightarrow> lifecycle_state \<Rightarrow> guild_id list \<times> lifecycle_state" where
  "apply_desired_one guild state =
     (if is_desired state guild
      then ([], state\<lparr>ls_pending_absence := ls_pending_absence state |-| {|guild|},
                 ls_advertisements :=
                   (if fmlookup (ls_advertisements state) guild = None
                    then fmupd guild NeedsInvalidation (ls_advertisements state) else ls_advertisements state)\<rparr>)
      else (if fmlookup (ls_advertisements state) guild \<noteq> None then [guild] else [],
            state\<lparr>ls_advertisements := fmdrop guild (ls_advertisements state),
                  ls_pending_absence := finsert guild (ls_pending_absence state)\<rparr>))"

fun apply_desired_state :: "guild_id list \<Rightarrow> lifecycle_state \<Rightarrow> guild_id list \<times> lifecycle_state" where
  "apply_desired_state [] state = ([], state)"
| "apply_desired_state (guild # affected) state =
     (case apply_desired_one guild state of (removed, state1) \<Rightarrow>
        (case apply_desired_state affected state1 of (later, state2) \<Rightarrow> (removed @ later, state2)))"

definition owned_or_default :: "lifecycle_state \<Rightarrow> u32 \<Rightarrow> guild_id fset" where
  "owned_or_default state shard = (case fmlookup (ls_owned state) shard of None \<Rightarrow> {||} | Some guilds \<Rightarrow> guilds)"

definition reconcile_shard ::
  "(guild_id fset \<Rightarrow> guild_id list) \<Rightarrow> u32 \<Rightarrow> guild_id fset \<Rightarrow> lifecycle_state \<Rightarrow>
   (guild_id fset \<times> guild_id list) \<times> lifecycle_state" where
  "reconcile_shard iterate shard guilds state =
     (let affected = owned_or_default state shard |\<union>| guilds;
          state1 = state\<lparr>ls_owned := (if guilds = {||} then fmdrop shard (ls_owned state)
                                      else fmupd shard guilds (ls_owned state))\<rparr>
      in case apply_desired_state (iterate affected) state1 of (removed, state2) \<Rightarrow> ((affected, removed), state2))"

definition lifecycle_present :: "u32 \<Rightarrow> guild_id \<Rightarrow> lifecycle_state \<Rightarrow> guild_id fset \<times> lifecycle_state" where
  "lifecycle_present shard guild state =
     (let state1 = state\<lparr>ls_owned := fmupd shard (finsert guild (owned_or_default state shard)) (ls_owned state)\<rparr>
      in ({|guild|}, snd (apply_desired_state [guild] state1)))"

definition lifecycle_absent ::
  "u32 \<Rightarrow> guild_id \<Rightarrow> lifecycle_state \<Rightarrow> (guild_id fset \<times> bool) \<times> lifecycle_state" where
  "lifecycle_absent shard guild state =
     (let state1 = (case fmlookup (ls_owned state) shard of
                      None \<Rightarrow> state
                    | Some guilds \<Rightarrow>
                        state\<lparr>ls_owned := (if guilds |-| {|guild|} = {||} then fmdrop shard (ls_owned state)
                                           else fmupd shard (guilds |-| {|guild|}) (ls_owned state))\<rparr>)
      in case apply_desired_state [guild] state1 of
           (removed, state2) \<Rightarrow> (({|guild|}, List.member removed guild), state2))"

definition lifecycle_pending :: "lifecycle_state \<Rightarrow> guild_id fset" where
  "lifecycle_pending state =
     ffilter (\<lambda>guild. fmlookup (ls_advertisements state) guild \<noteq> Some Advertised) (fmdom (ls_advertisements state))
       |\<union>| ls_pending_absence state"

definition owned_on_shard :: "(guild_id fset \<Rightarrow> guild_id list) \<Rightarrow> u32 \<Rightarrow> lifecycle_state \<Rightarrow> guild_id list" where
  "owned_on_shard iterate shard state =
     (case fmlookup (ls_owned state) shard of None \<Rightarrow> [] | Some guilds \<Rightarrow> iterate guilds)"

section \<open>Reconciliation\<close>

fun invalidate_chunk :: "'w lifecycle_ports \<Rightarrow> guild_id list \<Rightarrow> 'w \<Rightarrow> guild_id list \<times> 'w" where
  "invalidate_chunk ports [] w = ([], w)"
| "invalidate_chunk ports (guild # chunk) w =
     (case lp_invalidate ports guild w of (r, w1) \<Rightarrow>
        (case invalidate_chunk ports chunk w1 of (succeeded, w2) \<Rightarrow>
           (case r of Inr _ \<Rightarrow> guild # succeeded | Inl _ \<Rightarrow> succeeded, w2)))"

function invalidate_all :: "'w lifecycle_ports \<Rightarrow> guild_id list \<Rightarrow> 'w \<Rightarrow> guild_id list \<times> 'w" where
  "invalidate_all ports guilds w =
     (if guilds = [] then ([], w)
      else let chunk = fset_of_list (take MAX_PARALLEL_INVALIDATIONS guilds)
        in case invalidate_chunk ports (lp_iterate ports w chunk) w of (succeeded, w1) \<Rightarrow>
             (case invalidate_all ports (drop MAX_PARALLEL_INVALIDATIONS guilds) w1 of
                (later, w2) \<Rightarrow> (succeeded @ later, w2)))"
  by auto

termination
  by (relation "measure (\<lambda>(ports, guilds, w). length guilds)") (auto simp: MAX_PARALLEL_INVALIDATIONS_def)

declare invalidate_all.simps [simp del]

fun mark_invalidated :: "guild_id list \<Rightarrow> lifecycle_state \<Rightarrow> lifecycle_state" where
  "mark_invalidated [] state = state"
| "mark_invalidated (guild # guilds) state =
     mark_invalidated guilds (state\<lparr>ls_advertisements := fmupd guild NeedsPresence (ls_advertisements state)\<rparr>)"

fun advertise_all :: "'w lifecycle_ports \<Rightarrow> guild_id list \<Rightarrow> lifecycle_state \<times> 'w \<Rightarrow> lifecycle_state \<times> 'w" where
  "advertise_all ports [] (state, w) = (state, w)"
| "advertise_all ports (guild # guilds) (state, w) =
     (case lp_present ports guild w of (r, w1) \<Rightarrow>
        advertise_all ports guilds
          (case r of
             Inr _ \<Rightarrow> state\<lparr>ls_advertisements := fmupd guild Advertised (ls_advertisements state)\<rparr>
           | Inl _ \<Rightarrow> state, w1))"

fun withdraw_all :: "'w lifecycle_ports \<Rightarrow> guild_id list \<Rightarrow> lifecycle_state \<times> 'w \<Rightarrow> lifecycle_state \<times> 'w" where
  "withdraw_all ports [] (state, w) = (state, w)"
| "withdraw_all ports (guild # guilds) (state, w) =
     (case lp_absent ports guild w of (r, w1) \<Rightarrow>
        withdraw_all ports guilds
          (case r of
             Inr _ \<Rightarrow> state\<lparr>ls_pending_absence := ls_pending_absence state |-| {|guild|}\<rparr>
           | Inl _ \<Rightarrow> state, w1))"

text \<open>What is still to be done for a guild after a round.\<close>

definition unsettled :: "lifecycle_state \<Rightarrow> guild_id \<Rightarrow> bool" where
  "unsettled state guild \<longleftrightarrow>
     (if is_desired state guild then fmlookup (ls_advertisements state) guild \<noteq> Some Advertised
      else guild |\<in>| ls_pending_absence state)"

definition in_stage :: "advertisement_stage \<Rightarrow> lifecycle_state \<Rightarrow> guild_id \<Rightarrow> bool" where
  "in_stage stage state guild \<longleftrightarrow> fmlookup (ls_advertisements state) guild = Some stage"

definition reconcile_round ::
  "'w lifecycle_ports \<Rightarrow> guild_id fset \<Rightarrow> lifecycle_state \<times> 'w \<Rightarrow> guild_id fset \<times> lifecycle_state \<times> 'w" where
  "reconcile_round ports affected sw =
     (case sw of (state, w) \<Rightarrow>
      case invalidate_all ports (List.filter (in_stage NeedsInvalidation state) (lp_iterate ports w affected)) w of
        (succeeded, w1) \<Rightarrow>
      let state1 = mark_invalidated succeeded state in
      case advertise_all ports (List.filter (in_stage NeedsPresence state1) (lp_iterate ports w1 affected)) (state1, w1) of
        (state2, w2) \<Rightarrow>
      case withdraw_all ports (List.filter (\<lambda>g. g |\<in>| ls_pending_absence state2) (lp_iterate ports w2 affected)) (state2, w2) of
        (state3, w3) \<Rightarrow> (ffilter (unsettled state3) affected, state3, w3))"

text \<open>Two delays, so at most three rounds. The delays themselves change nothing here.\<close>

fun retry_rounds ::
  "'w lifecycle_ports \<Rightarrow> nat list \<Rightarrow> guild_id fset \<times> lifecycle_state \<times> 'w \<Rightarrow> guild_id fset \<times> lifecycle_state \<times> 'w" where
  "retry_rounds ports [] (left, sw) = (left, sw)"
| "retry_rounds ports (delay # delays) (left, sw) =
     (if left = {||} then (left, sw) else retry_rounds ports delays (reconcile_round ports left sw))"

definition retry_short_delays :: "nat list" where "retry_short_delays = [40, 120]"

definition round_result :: "guild_id fset \<Rightarrow> guild_lifecycle_error + unit" where
  "round_result left = (if left = {||} then Inr () else Inl GuildLifecycleError)"

definition reconcile_with_retries ::
  "'w lifecycle_ports \<Rightarrow> guild_id fset \<Rightarrow> nat list \<Rightarrow> lifecycle_state \<times> 'w \<Rightarrow>
   (guild_lifecycle_error + unit) \<times> lifecycle_state \<times> 'w" where
  "reconcile_with_retries ports affected delays sw =
     (case retry_rounds ports delays (reconcile_round ports affected sw) of (left, sw1) \<Rightarrow> (round_result left, sw1))"

definition reconcile_once ::
  "'w lifecycle_ports \<Rightarrow> guild_id fset \<Rightarrow> lifecycle_state \<times> 'w \<Rightarrow> (guild_lifecycle_error + unit) \<times> lifecycle_state \<times> 'w" where
  "reconcile_once ports affected sw =
     (case reconcile_round ports affected sw of (left, sw1) \<Rightarrow> (round_result left, sw1))"

section \<open>The loop\<close>

datatype lifecycle_command =
    ReconcileShard u32 "guild_id fset"
  | LifecyclePresent u32 guild_id
  | LifecycleAbsent u32 guild_id
  | LifecycleOwned u32
  | LifecycleShutdown
  | BackgroundTick

datatype lifecycle_reply =
    ShardReconciliation "guild_id list" "guild_lifecycle_error + unit"
  | PresentReply "guild_lifecycle_error + unit"
  | GuildAbsence bool "guild_lifecycle_error + unit"
  | OwnedReply "guild_id list"
  | ShutdownReply
  | NoReply

record 'w lifecycle_actor =
  la_state :: lifecycle_state
  la_world :: 'w
  la_running :: bool

definition lifecycle_handle ::
  "'w lifecycle_ports \<Rightarrow> lifecycle_command \<Rightarrow> 'w lifecycle_actor \<Rightarrow> lifecycle_reply \<times> 'w lifecycle_actor" where
  "lifecycle_handle ports command a =
     (let state = la_state a; w = la_world a;
          settle = (\<lambda>affected state1. reconcile_with_retries ports affected retry_short_delays (state1, w));
          keep = (\<lambda>(state2, w2). a\<lparr>la_state := state2, la_world := w2\<rparr>)
      in case command of
           ReconcileShard shard guilds \<Rightarrow>
             (case reconcile_shard (lp_iterate ports w) shard guilds state of ((affected, removed), state1) \<Rightarrow>
              case settle affected state1 of (update, sw) \<Rightarrow> (ShardReconciliation removed update, keep sw))
         | LifecyclePresent shard guild \<Rightarrow>
             (case lifecycle_present shard guild state of (affected, state1) \<Rightarrow>
              case settle affected state1 of (update, sw) \<Rightarrow> (PresentReply update, keep sw))
         | LifecycleAbsent shard guild \<Rightarrow>
             (case lifecycle_absent shard guild state of ((affected, no_longer_owned), state1) \<Rightarrow>
              case settle affected state1 of (update, sw) \<Rightarrow> (GuildAbsence no_longer_owned update, keep sw))
         | LifecycleOwned shard \<Rightarrow> (OwnedReply (owned_on_shard (lp_iterate ports w) shard state), a)
         | LifecycleShutdown \<Rightarrow> (ShutdownReply, a\<lparr>la_running := False\<rparr>)
         | BackgroundTick \<Rightarrow>
             (if lifecycle_pending state = {||} then (NoReply, a)
              else (NoReply, keep (snd (reconcile_once ports (lifecycle_pending state) (state, w))))))"

definition lifecycle_step :: "'w lifecycle_ports \<Rightarrow> lifecycle_command \<Rightarrow> 'w lifecycle_actor \<Rightarrow> 'w lifecycle_actor" where
  "lifecycle_step ports command a = (if la_running a then snd (lifecycle_handle ports command a) else a)"

fun lifecycle_run :: "'w lifecycle_ports \<Rightarrow> lifecycle_command list \<Rightarrow> 'w lifecycle_actor \<Rightarrow> 'w lifecycle_actor" where
  "lifecycle_run ports [] a = a"
| "lifecycle_run ports (c # cs) a = lifecycle_run ports cs (lifecycle_step ports c a)"

definition lifecycle_start :: "'w \<Rightarrow> 'w lifecycle_actor" where
  "lifecycle_start w = \<lparr>la_state = lifecycle_default, la_world = w, la_running = True\<rparr>"

section \<open>What the bookkeeping keeps\<close>

lemma is_desired_cong: "ls_owned state = ls_owned state' \<Longrightarrow> is_desired state g = is_desired state' g"
  by (simp add: is_desired_def)

text \<open>A guild is kept for advertisement exactly when some shard owns it, and never awaits withdrawal then.\<close>

definition desire_kept :: "lifecycle_state \<Rightarrow> guild_id \<Rightarrow> bool" where
  "desire_kept state g \<longleftrightarrow>
     (is_desired state g \<longleftrightarrow> fmlookup (ls_advertisements state) g \<noteq> None) \<and>
     (g |\<in>| ls_pending_absence state \<longrightarrow> \<not> is_desired state g)"

lemma apply_one_owned [simp]: "ls_owned (snd (apply_desired_one g state)) = ls_owned state"
  by (simp add: apply_desired_one_def)

lemma apply_one_desired [simp]: "is_desired (snd (apply_desired_one g state)) = is_desired state"
  by (rule ext) (simp add: is_desired_def)

lemma apply_one_kept: "desire_kept (snd (apply_desired_one g state)) h \<longleftrightarrow> g = h \<or> desire_kept state h"
  by (auto simp: desire_kept_def) (auto simp: apply_desired_one_def is_desired_def split: if_split_asm)

lemma apply_one_advertisement:
  "fmlookup (ls_advertisements (snd (apply_desired_one g state))) h =
     (if g \<noteq> h then fmlookup (ls_advertisements state) h
      else if \<not> is_desired state g then None
      else if fmlookup (ls_advertisements state) g = None then Some NeedsInvalidation
      else fmlookup (ls_advertisements state) g)"
  by (auto simp: apply_desired_one_def)

lemma apply_one_pending:
  "h |\<in>| ls_pending_absence (snd (apply_desired_one g state)) \<longleftrightarrow>
     (if g = h then \<not> is_desired state g else h |\<in>| ls_pending_absence state)"
  by (auto simp: apply_desired_one_def)

lemma snd_apply_Cons:
  "snd (apply_desired_state (g # gs) state) = snd (apply_desired_state gs (snd (apply_desired_one g state)))"
  by (simp split: prod.split)

lemma apply_desired [simp]: "is_desired (snd (apply_desired_state gs state)) = is_desired state"
  by (induction gs arbitrary: state) (simp, simp add: snd_apply_Cons del: apply_desired_state.simps)

lemma apply_kept: "desire_kept (snd (apply_desired_state gs state)) h \<longleftrightarrow> h \<in> set gs \<or> desire_kept state h"
  by (induction gs arbitrary: state) (simp, auto simp: snd_apply_Cons apply_one_kept simp del: apply_desired_state.simps)

lemma apply_advertisement:
  "fmlookup (ls_advertisements (snd (apply_desired_state gs state))) h =
     (if h \<notin> set gs then fmlookup (ls_advertisements state) h
      else if \<not> is_desired state h then None
      else if fmlookup (ls_advertisements state) h = None then Some NeedsInvalidation
      else fmlookup (ls_advertisements state) h)"
  by (induction gs arbitrary: state)
    (simp, auto simp: snd_apply_Cons apply_one_advertisement simp del: apply_desired_state.simps)

lemma apply_pending:
  "h |\<in>| ls_pending_absence (snd (apply_desired_state gs state)) \<longleftrightarrow>
     (if h \<in> set gs then \<not> is_desired state h else h |\<in>| ls_pending_absence state)"
  by (induction gs arbitrary: state)
    (simp, auto simp: snd_apply_Cons apply_one_pending simp del: apply_desired_state.simps)

text \<open>What gains or loses an owner is affected.\<close>

lemma fmran_fmupd: "fBex (fmran (fmupd k v m)) P \<longleftrightarrow> P v \<or> fBex (fmran (fmdrop k m)) P"
proof -
  have "fmran (fmupd k v m) = finsert v (fmran (fmdrop k m))"
    by (rule fset_eqI) (simp only: fmlookup_ran_iff finsert_iff, auto)
  then show ?thesis by simp
qed

lemma desired_split:
  "is_desired state g \<longleftrightarrow> g |\<in>| owned_or_default state shard \<or>
     fBex (fmran (fmdrop shard (ls_owned state))) (\<lambda>guilds. g |\<in>| guilds)"
proof (cases "fmlookup (ls_owned state) shard")
  case None
  then have "fmdrop shard (ls_owned state) = ls_owned state" by (intro fmap_ext) auto
  then show ?thesis using None by (simp add: is_desired_def owned_or_default_def)
next
  case (Some guilds)
  then have "fmupd shard guilds (ls_owned state) = ls_owned state" by (intro fmap_ext) auto
  then show ?thesis using Some fmran_fmupd [of shard guilds "ls_owned state"]
    by (simp add: is_desired_def owned_or_default_def)
qed

lemma desired_after_upd:
  "is_desired (state\<lparr>ls_owned := fmupd shard guilds (ls_owned state)\<rparr>) g \<longleftrightarrow>
     g |\<in>| guilds \<or> fBex (fmran (fmdrop shard (ls_owned state))) (\<lambda>guilds. g |\<in>| guilds)"
  by (simp add: is_desired_def fmran_fmupd)

lemma desired_after_drop:
  "is_desired (state\<lparr>ls_owned := fmdrop shard (ls_owned state)\<rparr>) g \<longleftrightarrow>
     fBex (fmran (fmdrop shard (ls_owned state))) (\<lambda>guilds. g |\<in>| guilds)"
  by (simp add: is_desired_def)

definition ports_iterate :: "'w lifecycle_ports \<Rightarrow> bool" where
  "ports_iterate ports \<longleftrightarrow> (\<forall>w guilds. set (lp_iterate ports w guilds) = fset guilds)"

lemma iterates: "ports_iterate ports \<Longrightarrow> set (lp_iterate ports w guilds) = fset guilds"
  by (simp add: ports_iterate_def)

section \<open>What a round does\<close>

lemma invalidate_chunk_subset: "invalidate_chunk ports gs w = (done_now, w1) \<Longrightarrow> set done_now \<subseteq> set gs"
proof (induction gs arbitrary: w done_now w1)
  case (Cons g gs)
  obtain r w2 where call: "lp_invalidate ports g w = (r, w2)" by (rule prod.exhaust)
  obtain later w3 where rest: "invalidate_chunk ports gs w2 = (later, w3)" by (rule prod.exhaust)
  show ?case using Cons.prems Cons.IH [OF rest] call rest by (cases r) auto
qed simp

text \<open>What holds of every invalidation of a chunk, whatever its order, holds of all of them.\<close>

lemma invalidate_all_induct [consumes 2, case_names Nil Chunk]:
  assumes "ports_iterate ports" and "invalidate_all ports guilds w = (done_now, w1)"
    and "\<And>w. P [] [] w w"
    and "\<And>gs chunk w one w1 later w2. set chunk = set (take MAX_PARALLEL_INVALIDATIONS gs) \<Longrightarrow>
       invalidate_chunk ports chunk w = (one, w1) \<Longrightarrow> P (drop MAX_PARALLEL_INVALIDATIONS gs) later w1 w2 \<Longrightarrow>
       P gs (one @ later) w w2"
  shows "P guilds done_now w w1"
  using assms(2)
proof (induction guilds arbitrary: w done_now w1 rule: measure_induct_rule [where f = length])
  case (less guilds)
  show ?case
  proof (cases "guilds = []")
    case True
    then show ?thesis using less.prems assms(3) by (simp add: invalidate_all.simps)
  next
    case False
    let ?chunk = "fset_of_list (take MAX_PARALLEL_INVALIDATIONS guilds)"
    obtain one w2 where one: "invalidate_chunk ports (lp_iterate ports w ?chunk) w = (one, w2)" by (rule prod.exhaust)
    obtain later w3 where later: "invalidate_all ports (drop MAX_PARALLEL_INVALIDATIONS guilds) w2 = (later, w3)"
      by (rule prod.exhaust)
    have result: "done_now = one @ later" "w1 = w3"
      using less.prems one later False by (simp_all add: invalidate_all.simps [of ports guilds] Let_def)
    have "length (drop MAX_PARALLEL_INVALIDATIONS guilds) < length guilds"
      using False by (simp add: MAX_PARALLEL_INVALIDATIONS_def)
    from less.IH [OF this later] have "P (drop MAX_PARALLEL_INVALIDATIONS guilds) later w2 w3" .
    moreover have "set (lp_iterate ports w ?chunk) = set (take MAX_PARALLEL_INVALIDATIONS guilds)"
      using iterates [OF assms(1)] by (simp add: fset_of_list.rep_eq)
    ultimately show ?thesis using assms(4) one result by blast
  qed
qed

lemma set_take_drop: "set (take n gs) \<union> set (drop n gs) = set gs"
  by (metis append_take_drop_id set_append)

lemma invalidate_all_subset:
  assumes "ports_iterate ports" and "invalidate_all ports guilds w = (done_now, w1)"
  shows "set done_now \<subseteq> set guilds"
  using assms
proof (induction rule: invalidate_all_induct)
  case (Chunk gs chunk w one w1 later w2)
  then show ?case using invalidate_chunk_subset [OF Chunk(2)] set_take_drop [of MAX_PARALLEL_INVALIDATIONS gs] by auto
qed simp

lemma mark_invalidated_fields [simp]:
  "ls_owned (mark_invalidated gs state) = ls_owned state"
  "ls_pending_absence (mark_invalidated gs state) = ls_pending_absence state"
  "fmlookup (ls_advertisements (mark_invalidated gs state)) g =
     (if g \<in> set gs then Some NeedsPresence else fmlookup (ls_advertisements state) g)"
  by (induction gs arbitrary: state) auto

lemma advertise_all_fields:
  "advertise_all ports gs (state, w) = (state1, w1) \<Longrightarrow>
     ls_owned state1 = ls_owned state \<and> ls_pending_absence state1 = ls_pending_absence state \<and>
     (fmlookup (ls_advertisements state1) g = fmlookup (ls_advertisements state) g \<or>
      g \<in> set gs \<and> fmlookup (ls_advertisements state1) g = Some Advertised)"
proof (induction gs arbitrary: state w)
  case (Cons h gs)
  obtain r w2 where call: "lp_present ports h w = (r, w2)" by (rule prod.exhaust)
  show ?case
    using Cons.prems Cons.IH [of "case r of Inr _ \<Rightarrow> state\<lparr>ls_advertisements := fmupd h Advertised (ls_advertisements state)\<rparr> | Inl _ \<Rightarrow> state" w2]
    by (auto simp: call split: sum.split_asm if_split_asm)
qed simp

lemma withdraw_all_fields:
  "withdraw_all ports gs (state, w) = (state1, w1) \<Longrightarrow>
     ls_owned state1 = ls_owned state \<and> ls_advertisements state1 = ls_advertisements state \<and>
     (g |\<in>| ls_pending_absence state1 \<longrightarrow> g |\<in>| ls_pending_absence state) \<and>
     (g \<notin> set gs \<longrightarrow> g |\<in>| ls_pending_absence state \<longrightarrow> g |\<in>| ls_pending_absence state1)"
proof (induction gs arbitrary: state w)
  case (Cons h gs)
  obtain r w2 where call: "lp_absent ports h w = (r, w2)" by (rule prod.exhaust)
  show ?case
    using Cons.prems Cons.IH [of "case r of Inr _ \<Rightarrow> state\<lparr>ls_pending_absence := ls_pending_absence state |-| {|h|}\<rparr> | Inl _ \<Rightarrow> state" w2]
    by (auto simp: call split: sum.split_asm)
qed simp

text \<open>The four states of a round, taken apart once.\<close>

lemma reconcile_round_cases:
  assumes "reconcile_round ports affected (state, w) = (left, state3, w3)" and "ports_iterate ports"
  obtains done_now w1 state2 w2 where
    "invalidate_all ports (List.filter (in_stage NeedsInvalidation state) (lp_iterate ports w affected)) w = (done_now, w1)"
    "\<And>g. g \<in> set done_now \<Longrightarrow> g |\<in>| affected \<and> in_stage NeedsInvalidation state g"
    "advertise_all ports (List.filter (in_stage NeedsPresence (mark_invalidated done_now state)) (lp_iterate ports w1 affected))
       (mark_invalidated done_now state, w1) = (state2, w2)"
    "withdraw_all ports (List.filter (\<lambda>g. g |\<in>| ls_pending_absence state2) (lp_iterate ports w2 affected)) (state2, w2) = (state3, w3)"
    "left = ffilter (unsettled state3) affected"
proof -
  obtain done_now w1 where one:
    "invalidate_all ports (List.filter (in_stage NeedsInvalidation state) (lp_iterate ports w affected)) w = (done_now, w1)"
    by (rule prod.exhaust)
  obtain state2 w2 where two:
    "advertise_all ports (List.filter (in_stage NeedsPresence (mark_invalidated done_now state)) (lp_iterate ports w1 affected))
       (mark_invalidated done_now state, w1) = (state2, w2)" by (rule prod.exhaust)
  have "set done_now \<subseteq> set (List.filter (in_stage NeedsInvalidation state) (lp_iterate ports w affected))"
    using invalidate_all_subset [OF assms(2) one] .
  then have "\<And>g. g \<in> set done_now \<Longrightarrow> g |\<in>| affected \<and> in_stage NeedsInvalidation state g"
    by (auto simp: iterates [OF assms(2)])
  then show thesis
    using that [OF one _ two] assms(1) one two by (auto simp: reconcile_round_def Let_def split: prod.split_asm)
qed

lemma reconcile_round_state:
  assumes "reconcile_round ports affected (state, w) = (left, state1, w1)" and "ports_iterate ports"
  shows "ls_owned state1 = ls_owned state" and "left = ffilter (unsettled state1) affected"
    and "desire_kept state g \<Longrightarrow> desire_kept state1 g"
    and "g |\<notin>| affected \<Longrightarrow> unsettled state1 g = unsettled state g"
proof -
  obtain done_now w2 state2 w3 where round:
    "\<And>g. g \<in> set done_now \<Longrightarrow> g |\<in>| affected \<and> in_stage NeedsInvalidation state g"
    "advertise_all ports (List.filter (in_stage NeedsPresence (mark_invalidated done_now state)) (lp_iterate ports w2 affected))
       (mark_invalidated done_now state, w2) = (state2, w3)"
    "withdraw_all ports (List.filter (\<lambda>g. g |\<in>| ls_pending_absence state2) (lp_iterate ports w3 affected)) (state2, w3) = (state1, w1)"
    "left = ffilter (unsettled state1) affected"
    using reconcile_round_cases [OF assms] by metis
  note fields = advertise_all_fields [OF round(2)] withdraw_all_fields [OF round(3)]
  show owned: "ls_owned state1 = ls_owned state" using fields [of g] by simp
  show "left = ffilter (unsettled state1) affected" by (rule round(4))
  have desired: "is_desired state1 g = is_desired state g" by (rule is_desired_cong [OF owned])
  show "desire_kept state g \<Longrightarrow> desire_kept state1 g"
    using fields [of g] round(1) [of g] desired
    by (auto simp: desire_kept_def in_stage_def split: if_split_asm)
  show "g |\<notin>| affected \<Longrightarrow> unsettled state1 g = unsettled state g"
    using fields [of g] round(1) [of g] desired iterates [OF assms(2)]
    by (auto simp: unsettled_def split: if_split_asm)
qed

text \<open>Rounds over what is left: all that was affected is settled unless it is still left.\<close>

lemma retry_rounds_state:
  assumes "retry_rounds ports delays (left, state, w) = (left1, state1, w1)" and "ports_iterate ports"
    and "\<And>g. g |\<in>| affected \<Longrightarrow> unsettled state g \<longleftrightarrow> g |\<in>| left"
  shows "ls_owned state1 = ls_owned state \<and> (desire_kept state h \<longrightarrow> desire_kept state1 h) \<and>
    (\<forall>g. g |\<in>| affected \<longrightarrow> unsettled state1 g \<longrightarrow> g |\<in>| left1)"
  using assms(1,3)
proof (induction delays arbitrary: left state w)
  case (Cons delay delays)
  show ?case
  proof (cases "left = {||}")
    case False
    obtain left2 state2 w2 where round: "reconcile_round ports left (state, w) = (left2, state2, w2)"
      by (metis prod.exhaust)
    note facts = reconcile_round_state [OF round assms(2)]
    have "unsettled state2 g \<longleftrightarrow> g |\<in>| left2" if "g |\<in>| affected" for g
      using facts(2) facts(4) [of g] Cons.prems(2) [OF that] by auto
    then show ?thesis
      using Cons.IH [of left2 state2 w2] Cons.prems(1) False round facts(1) facts(3) [of h] by auto
  qed (use Cons.prems in auto)
qed auto

lemma reconcile_with_retries_state:
  assumes "reconcile_with_retries ports affected delays (state, w) = (r, state1, w1)" and "ports_iterate ports"
  shows "ls_owned state1 = ls_owned state" and "desire_kept state h \<Longrightarrow> desire_kept state1 h"
    and "r = Inr () \<Longrightarrow> g |\<in>| affected \<Longrightarrow> \<not> unsettled state1 g"
proof -
  obtain left2 state2 w2 where round: "reconcile_round ports affected (state, w) = (left2, state2, w2)"
    by (metis prod.exhaust)
  obtain left3 state3 w3 where rounds: "retry_rounds ports delays (left2, state2, w2) = (left3, state3, w3)"
    by (metis prod.exhaust)
  note facts = reconcile_round_state [OF round assms(2)]
  have "\<And>g. g |\<in>| affected \<Longrightarrow> unsettled state2 g \<longleftrightarrow> g |\<in>| left2" using facts(2) by auto
  note more_rounds = retry_rounds_state [OF rounds assms(2) this, simplified]
  have final: "state1 = state3" "r = round_result left3"
    using assms(1) round rounds by (auto simp: reconcile_with_retries_def)
  show "ls_owned state1 = ls_owned state" using more_rounds facts(1) final by simp
  show "desire_kept state h \<Longrightarrow> desire_kept state1 h" using more_rounds [of affected h] facts(3) [of h] final by auto
  show "r = Inr () \<Longrightarrow> g |\<in>| affected \<Longrightarrow> \<not> unsettled state1 g"
    using more_rounds final by (auto simp: round_result_def split: if_split_asm)
qed

section \<open>What the gateway said\<close>

text \<open>The guilds each shard owns by the gateway's commands alone.\<close>

fun gateway_event :: "lifecycle_command \<Rightarrow> (u32 \<Rightarrow> guild_id fset) \<Rightarrow> u32 \<Rightarrow> guild_id fset" where
  "gateway_event (ReconcileShard shard guilds) view = view(shard := guilds)"
| "gateway_event (LifecyclePresent shard guild) view = view(shard := finsert guild (view shard))"
| "gateway_event (LifecycleAbsent shard guild) view = view(shard := view shard |-| {|guild|})"
| "gateway_event _ view = view"

lemma owned_or_default_upd:
  "owned_or_default (state\<lparr>ls_owned := fmupd shard guilds owned\<rparr>) =
     (owned_or_default (state\<lparr>ls_owned := owned\<rparr>))(shard := guilds)"
  "owned_or_default (state\<lparr>ls_owned := fmdrop shard owned\<rparr>) =
     (owned_or_default (state\<lparr>ls_owned := owned\<rparr>))(shard := {||})"
  by (auto simp: owned_or_default_def fun_eq_iff)

lemma desired_iff_view: "is_desired state g \<longleftrightarrow> (\<exists>shard. g |\<in>| owned_or_default state shard)"
proof
  assume "is_desired state g"
  then obtain guilds shard where "fmlookup (ls_owned state) shard = Some guilds" "g |\<in>| guilds"
    unfolding is_desired_def by (meson fBexE fmlookup_ran_iff)
  then show "\<exists>shard. g |\<in>| owned_or_default state shard" by (intro exI [of _ shard]) (simp add: owned_or_default_def)
next
  assume "\<exists>shard. g |\<in>| owned_or_default state shard"
  then obtain guilds shard where "fmlookup (ls_owned state) shard = Some guilds" "g |\<in>| guilds"
    by (auto simp: owned_or_default_def split: option.split_asm)
  from fmranI [OF this(1)] this(2) show "is_desired state g" unfolding is_desired_def by (rule rev_fBexI)
qed

lemma owned_or_default_cong: "ls_owned state = ls_owned state' \<Longrightarrow> owned_or_default state = owned_or_default state'"
  by (simp add: owned_or_default_def fun_eq_iff)

lemma apply_owned [simp]: "ls_owned (snd (apply_desired_state gs state)) = ls_owned state"
  by (induction gs arbitrary: state) (simp, simp add: snd_apply_Cons del: apply_desired_state.simps)

text \<open>Each command first brings the bookkeeping up to date: owners, then the affected guilds.\<close>

definition commanded :: "'w lifecycle_ports \<Rightarrow> 'w \<Rightarrow> lifecycle_command \<Rightarrow> lifecycle_state \<Rightarrow> guild_id fset \<times> lifecycle_state" where
  "commanded ports w command state =
     (case command of
        ReconcileShard shard guilds \<Rightarrow>
          (case reconcile_shard (lp_iterate ports w) shard guilds state of ((affected, _), state1) \<Rightarrow> (affected, state1))
      | LifecyclePresent shard guild \<Rightarrow> lifecycle_present shard guild state
      | LifecycleAbsent shard guild \<Rightarrow>
          (case lifecycle_absent shard guild state of ((affected, _), state1) \<Rightarrow> (affected, state1))
      | BackgroundTick \<Rightarrow> (lifecycle_pending state, state)
      | _ \<Rightarrow> ({||}, state))"

lemma apply_gives:
  assumes "\<And>g. desire_kept state g"
    and "\<And>g. g \<notin> set gs \<Longrightarrow> is_desired (state\<lparr>ls_owned := owned\<rparr>) g = is_desired state g"
    and "state1 = snd (apply_desired_state gs (state\<lparr>ls_owned := owned\<rparr>))"
  shows "desire_kept state1 g"
    and "fmlookup (ls_advertisements state1) g =
      (if \<not> is_desired state1 g then None
       else if fmlookup (ls_advertisements state) g = None then Some NeedsInvalidation
       else fmlookup (ls_advertisements state) g)"
    and "g |\<in>| ls_pending_absence state1 \<longleftrightarrow>
      \<not> is_desired state1 g \<and> (g |\<in>| ls_pending_absence state \<or> g \<in> set gs \<or> fmlookup (ls_advertisements state) g \<noteq> None)"
  using assms(1) [of g] assms(2) [of g]
  by (auto simp: assms(3) apply_kept desire_kept_def apply_advertisement apply_pending)

lemma commanded_reduces:
  assumes "commanded ports w command state = (affected, state1)" and "ports_iterate ports"
    and "\<not> command \<in> {LifecycleShutdown, BackgroundTick} \<and> (\<forall>shard. command \<noteq> LifecycleOwned shard)"
  shows "\<exists>gs owned. set gs = fset affected \<and> state1 = snd (apply_desired_state gs (state\<lparr>ls_owned := owned\<rparr>)) \<and>
    owned_or_default (state\<lparr>ls_owned := owned\<rparr>) = gateway_event command (owned_or_default state) \<and>
    (\<forall>g. g \<notin> set gs \<longrightarrow> is_desired (state\<lparr>ls_owned := owned\<rparr>) g = is_desired state g)"
proof -
  have same: "is_desired (state\<lparr>ls_owned := owned\<rparr>) g = is_desired state g"
    if "owned_or_default (state\<lparr>ls_owned := owned\<rparr>) = (owned_or_default state)(shard := guilds)"
      "g |\<in>| guilds \<longleftrightarrow> g |\<in>| owned_or_default state shard" for owned shard guilds g
    using that by (simp add: desired_iff_view) (metis fun_upd_apply)
  have self: "owned_or_default (state\<lparr>ls_owned := ls_owned state\<rparr>) = owned_or_default state"
    by (rule owned_or_default_cong) simp
  show ?thesis
  proof (cases command)
    case (ReconcileShard shard guilds)
    define owned where "owned = (if guilds = {||} then fmdrop shard (ls_owned state) else fmupd shard guilds (ls_owned state))"
    have view: "owned_or_default (state\<lparr>ls_owned := owned\<rparr>) = (owned_or_default state)(shard := guilds)"
      by (simp add: owned_def owned_or_default_upd self)
    have "affected = owned_or_default state shard |\<union>| guilds"
      "state1 = snd (apply_desired_state (lp_iterate ports w affected) (state\<lparr>ls_owned := owned\<rparr>))"
      using assms(1) ReconcileShard
      by (auto simp: commanded_def reconcile_shard_def Let_def owned_def [symmetric] split: prod.split_asm)
    then show ?thesis using ReconcileShard view same [OF view] iterates [OF assms(2)]
      by (intro exI [of _ "lp_iterate ports w affected"] exI [of _ owned]) auto
  next
    case (LifecyclePresent shard guild)
    define owned where "owned = fmupd shard (finsert guild (owned_or_default state shard)) (ls_owned state)"
    have view: "owned_or_default (state\<lparr>ls_owned := owned\<rparr>) =
        (owned_or_default state)(shard := finsert guild (owned_or_default state shard))"
      by (simp add: owned_def owned_or_default_upd self)
    have "affected = {|guild|}" "state1 = snd (apply_desired_state [guild] (state\<lparr>ls_owned := owned\<rparr>))"
      using assms(1) LifecyclePresent by (simp_all add: commanded_def lifecycle_present_def Let_def owned_def)
    then show ?thesis using LifecyclePresent view same [OF view]
      by (intro exI [of _ "[guild]"] exI [of _ owned]) auto
  next
    case (LifecycleAbsent shard guild)
    define owned where "owned = (case fmlookup (ls_owned state) shard of
        None \<Rightarrow> ls_owned state
      | Some guilds \<Rightarrow> if guilds |-| {|guild|} = {||} then fmdrop shard (ls_owned state)
                       else fmupd shard (guilds |-| {|guild|}) (ls_owned state))"
    have view: "owned_or_default (state\<lparr>ls_owned := owned\<rparr>) =
        (owned_or_default state)(shard := owned_or_default state shard |-| {|guild|})"
    proof (cases "fmlookup (ls_owned state) shard")
      case None
      then have "owned_or_default state shard = {||}" "owned = ls_owned state" by (simp_all add: owned_or_default_def owned_def)
      then show ?thesis by (simp add: self fun_eq_iff)
    next
      case (Some guilds)
      then have "owned_or_default state shard = guilds" by (simp add: owned_or_default_def)
      then show ?thesis using Some by (auto simp: owned_def owned_or_default_upd self fun_eq_iff)
    qed
    have *: "(case fmlookup (ls_owned state) shard of
                None \<Rightarrow> state
              | Some guilds \<Rightarrow>
                  state\<lparr>ls_owned := (if guilds |-| {|guild|} = {||} then fmdrop shard (ls_owned state)
                                     else fmupd shard (guilds |-| {|guild|}) (ls_owned state))\<rparr>) = state\<lparr>ls_owned := owned\<rparr>"
      by (simp add: owned_def split: option.split)
    have "lifecycle_absent shard guild state =
        (case apply_desired_state [guild] (state\<lparr>ls_owned := owned\<rparr>) of
           (removed, state2) \<Rightarrow> (({|guild|}, List.member removed guild), state2))"
      unfolding lifecycle_absent_def Let_def * ..
    then have "affected = {|guild|}" "state1 = snd (apply_desired_state [guild] (state\<lparr>ls_owned := owned\<rparr>))"
      using assms(1) LifecycleAbsent by (simp_all add: commanded_def split: prod.split_asm)
    then show ?thesis using LifecycleAbsent view same [OF view]
      by (intro exI [of _ "[guild]"] exI [of _ owned]) auto
  qed (use assms(3) in auto)
qed

lemma commanded_state:
  assumes "commanded ports w command state = (affected, state1)" and "ports_iterate ports"
    and "\<And>g. desire_kept state g"
  shows "owned_or_default state1 = gateway_event command (owned_or_default state)"
    and "desire_kept state1 g"
    and "fmlookup (ls_advertisements state1) g =
      (if \<not> is_desired state1 g then None
       else if fmlookup (ls_advertisements state) g = None then Some NeedsInvalidation
       else fmlookup (ls_advertisements state) g)"
    and "g |\<in>| ls_pending_absence state1 \<longleftrightarrow>
      \<not> is_desired state1 g \<and> (g |\<in>| ls_pending_absence state \<or> g |\<in>| affected \<or> fmlookup (ls_advertisements state) g \<noteq> None)"
proof -
  have "owned_or_default state1 = gateway_event command (owned_or_default state) \<and> desire_kept state1 g \<and>
    fmlookup (ls_advertisements state1) g =
      (if \<not> is_desired state1 g then None
       else if fmlookup (ls_advertisements state) g = None then Some NeedsInvalidation
       else fmlookup (ls_advertisements state) g) \<and>
    (g |\<in>| ls_pending_absence state1 \<longleftrightarrow>
      \<not> is_desired state1 g \<and> (g |\<in>| ls_pending_absence state \<or> g |\<in>| affected \<or> fmlookup (ls_advertisements state) g \<noteq> None))"
  proof (cases "command \<in> {LifecycleShutdown, BackgroundTick} \<or> (\<exists>shard. command = LifecycleOwned shard)")
    case True
    then have "state1 = state" and "gateway_event command (owned_or_default state) = owned_or_default state"
      and "g |\<in>| affected \<Longrightarrow> g |\<in>| ls_pending_absence state \<or> fmlookup (ls_advertisements state) g \<noteq> None"
      using assms(1) by (auto simp: commanded_def lifecycle_pending_def fmlookup_dom_iff)
    then show ?thesis using assms(3) [of g] by (auto simp: desire_kept_def)
  next
    case False
    then obtain gs owned where reduced: "set gs = fset affected"
      "state1 = snd (apply_desired_state gs (state\<lparr>ls_owned := owned\<rparr>))"
      "owned_or_default (state\<lparr>ls_owned := owned\<rparr>) = gateway_event command (owned_or_default state)"
      "\<And>g. g \<notin> set gs \<Longrightarrow> is_desired (state\<lparr>ls_owned := owned\<rparr>) g = is_desired state g"
      using commanded_reduces [OF assms(1,2)] by blast
    have "owned_or_default state1 = gateway_event command (owned_or_default state)"
      using reduced(3) owned_or_default_cong [of state1 "state\<lparr>ls_owned := owned\<rparr>"] reduced(2) by simp
    then show ?thesis using apply_gives [OF assms(3) reduced(4,2), of g] reduced(1) by simp
  qed
  then show "owned_or_default state1 = gateway_event command (owned_or_default state)" and "desire_kept state1 g"
    and "fmlookup (ls_advertisements state1) g =
      (if \<not> is_desired state1 g then None
       else if fmlookup (ls_advertisements state) g = None then Some NeedsInvalidation
       else fmlookup (ls_advertisements state) g)"
    and "g |\<in>| ls_pending_absence state1 \<longleftrightarrow>
      \<not> is_desired state1 g \<and> (g |\<in>| ls_pending_absence state \<or> g |\<in>| affected \<or> fmlookup (ls_advertisements state) g \<noteq> None)"
    by blast+
qed

text \<open>A step is its bookkeeping and then rounds over what it affects.\<close>

lemma once_is_no_retry: "reconcile_once ports affected sw = reconcile_with_retries ports affected [] sw"
  by (simp add: reconcile_once_def reconcile_with_retries_def split: prod.split)

lemma step_reduces:
  assumes "la_running a" and "commanded ports (la_world a) command (la_state a) = (affected, state1)"
  shows "(\<exists>delays r. reconcile_with_retries ports affected delays (state1, la_world a) =
      (r, la_state (lifecycle_step ports command a), la_world (lifecycle_step ports command a))) \<or>
    state1 = la_state a \<and> la_state (lifecycle_step ports command a) = la_state a \<and>
    la_world (lifecycle_step ports command a) = la_world a"
proof (cases command)
  case BackgroundTick
  show ?thesis
  proof (cases "lifecycle_pending (la_state a) = {||}")
    case False
    obtain r state2 w2 where "reconcile_with_retries ports affected [] (la_state a, la_world a) = (r, state2, w2)"
      by (metis prod.exhaust)
    then show ?thesis using assms BackgroundTick False
      by (auto simp: lifecycle_step_def lifecycle_handle_def Let_def commanded_def once_is_no_retry)
  qed (use assms BackgroundTick in \<open>simp add: lifecycle_step_def lifecycle_handle_def Let_def commanded_def\<close>)
qed (use assms in \<open>auto simp: lifecycle_step_def lifecycle_handle_def Let_def commanded_def split: prod.split prod.split_asm\<close>)

text \<open>
  What the actor does to the services it calls, seen from a claim \<open>Q\<close> about the bookkeeping and the world:
  enough that each call keeps it at the stage at which the actor makes it. \<open>M\<close> is what an
  invalidation leaves behind until the bookkeeping records it.
\<close>

locale lifecycle_invariant =
  fixes ports :: "'w lifecycle_ports"
    and Q :: "lifecycle_state \<Rightarrow> 'w \<Rightarrow> bool"
    and M :: "guild_id \<Rightarrow> 'w \<Rightarrow> bool"
  assumes bookkeeping: "Q state w \<Longrightarrow> \<forall>g. desire_kept state g \<Longrightarrow> \<forall>g. desire_kept state1 g \<Longrightarrow>
      \<forall>g. fmlookup (ls_advertisements state1) g =
        (if \<not> is_desired state1 g then None
         else if fmlookup (ls_advertisements state) g = None then Some NeedsInvalidation
         else fmlookup (ls_advertisements state) g) \<Longrightarrow>
      \<forall>g. g |\<in>| ls_pending_absence state \<and> \<not> is_desired state1 g \<longrightarrow> g |\<in>| ls_pending_absence state1 \<Longrightarrow>
      \<forall>g. fmlookup (ls_advertisements state) g \<noteq> None \<and> fmlookup (ls_advertisements state1) g = None \<longrightarrow>
        g |\<in>| ls_pending_absence state1 \<Longrightarrow> Q state1 w"
    and invalidate_keeps: "Q state w \<Longrightarrow> lp_invalidate ports g w = (r, w1) \<Longrightarrow> Q state w1"
    and invalidate_marks: "lp_invalidate ports g w = (Inr (), w1) \<Longrightarrow> M g w1"
    and mark_stays: "M h w \<Longrightarrow> lp_invalidate ports g w = (r, w1) \<Longrightarrow> M h w1"
    and mark_recorded: "Q state w \<Longrightarrow> M g w \<Longrightarrow> fmlookup (ls_advertisements state) g \<noteq> None \<Longrightarrow>
      \<not> in_stage Advertised state g \<Longrightarrow> Q (state\<lparr>ls_advertisements := fmupd g NeedsPresence (ls_advertisements state)\<rparr>) w"
    and present_failed: "Q state w \<Longrightarrow> in_stage NeedsPresence state g \<or> in_stage Advertised state g \<Longrightarrow>
      lp_present ports g w = (Inl e, w1) \<Longrightarrow> Q state w1"
    and present_done: "Q state w \<Longrightarrow> in_stage NeedsPresence state g \<or> in_stage Advertised state g \<Longrightarrow>
      lp_present ports g w = (Inr (), w1) \<Longrightarrow>
      Q (state\<lparr>ls_advertisements := fmupd g Advertised (ls_advertisements state)\<rparr>) w1"
    and absent_failed: "Q state w \<Longrightarrow> fmlookup (ls_advertisements state) g = None \<Longrightarrow>
      lp_absent ports g w = (Inl e, w1) \<Longrightarrow> Q state w1"
    and absent_done: "Q state w \<Longrightarrow> fmlookup (ls_advertisements state) g = None \<Longrightarrow>
      lp_absent ports g w = (Inr (), w1) \<Longrightarrow>
      Q (state\<lparr>ls_pending_absence := ls_pending_absence state |-| {|g|}\<rparr>) w1"
begin

lemma chunk_keeps:
  "invalidate_chunk ports gs w = (done_now, w1) \<Longrightarrow>
     (Q state w \<longrightarrow> Q state w1) \<and> (M h w \<or> h \<in> set done_now \<longrightarrow> M h w1)"
proof (induction gs arbitrary: w done_now w1)
  case (Cons g gs)
  obtain r w2 where call: "lp_invalidate ports g w = (r, w2)" by (rule prod.exhaust)
  obtain later w3 where rest: "invalidate_chunk ports gs w2 = (later, w3)" by (rule prod.exhaust)
  have result: "w1 = w3" "done_now = (case r of Inr _ \<Rightarrow> g # later | Inl _ \<Rightarrow> later)"
    using Cons.prems call rest by auto
  have "M g w2" if "r = Inr ()" using invalidate_marks call that by blast
  then show ?case
    using Cons.IH [OF rest] result invalidate_keeps [OF _ call] mark_stays [OF _ call] by (cases r) auto
qed simp

lemma invalidations_keep:
  assumes "ports_iterate ports" and "invalidate_all ports gs w = (done_now, w1)" and "Q state w"
  shows "Q state w1" and "h \<in> set done_now \<Longrightarrow> M h w1"
proof -
  have "(Q state w \<longrightarrow> Q state w1) \<and> (M h w \<or> h \<in> set done_now \<longrightarrow> M h w1)"
    using assms(1,2)
  proof (induction rule: invalidate_all_induct)
    case (Chunk gs chunk w one w1 later w2)
    show ?case using chunk_keeps [OF Chunk(2), of state h] Chunk(3) by auto
  qed simp
  then show "Q state w1" and "h \<in> set done_now \<Longrightarrow> M h w1" using assms(3) by auto
qed

lemma marks_recorded:
  assumes "Q state w" and "\<And>g. g \<in> set gs \<Longrightarrow> M g w \<and> fmlookup (ls_advertisements state) g \<noteq> None \<and> \<not> in_stage Advertised state g"
  shows "Q (mark_invalidated gs state) w"
  using assms
proof (induction gs arbitrary: state)
  case (Cons g gs)
  have "Q (state\<lparr>ls_advertisements := fmupd g NeedsPresence (ls_advertisements state)\<rparr>) w"
    using Cons.prems by (intro mark_recorded) auto
  then show ?case using Cons.prems(2) by (auto simp: in_stage_def intro!: Cons.IH split: if_split_asm)
qed simp

lemma advertising_keeps:
  assumes "Q state w" and "\<And>g. g \<in> set gs \<Longrightarrow> in_stage NeedsPresence state g \<or> in_stage Advertised state g"
    and "advertise_all ports gs (state, w) = (state1, w1)"
  shows "Q state1 w1"
  using assms
proof (induction gs arbitrary: state w)
  case (Cons g gs)
  obtain r w2 where call: "lp_present ports g w = (r, w2)" by (rule prod.exhaust)
  show ?case
  proof (cases r)
    case (Inl e)
    then have "Q state w2" using Cons.prems(1,2) call by (auto intro: present_failed)
    then show ?thesis using Cons.IH [of state w2] Cons.prems(2,3) call Inl by auto
  next
    case (Inr u)
    let ?state = "state\<lparr>ls_advertisements := fmupd g Advertised (ls_advertisements state)\<rparr>"
    have "Q ?state w2" using Cons.prems(1,2) call Inr by (auto intro: present_done)
    then show ?thesis using Cons.IH [of ?state w2] Cons.prems(2,3) call Inr by (auto simp: in_stage_def)
  qed
qed simp

lemma withdrawing_keeps:
  assumes "Q state w" and "\<And>g. g \<in> set gs \<Longrightarrow> fmlookup (ls_advertisements state) g = None"
    and "withdraw_all ports gs (state, w) = (state1, w1)"
  shows "Q state1 w1"
  using assms
proof (induction gs arbitrary: state w)
  case (Cons g gs)
  obtain r w2 where call: "lp_absent ports g w = (r, w2)" by (rule prod.exhaust)
  show ?case
  proof (cases r)
    case (Inl e)
    then have "Q state w2" using Cons.prems(1,2) call by (auto intro: absent_failed)
    then show ?thesis using Cons.IH [of state w2] Cons.prems(2,3) call Inl by auto
  next
    case (Inr u)
    let ?state = "state\<lparr>ls_pending_absence := ls_pending_absence state |-| {|g|}\<rparr>"
    have "Q ?state w2" using Cons.prems(1,2) call Inr by (auto intro: absent_done)
    then show ?thesis using Cons.IH [of ?state w2] Cons.prems(2,3) call Inr by auto
  qed
qed simp

lemma round_keeps:
  assumes "Q state w" and "\<forall>g. desire_kept state g" and "ports_iterate ports"
    and "reconcile_round ports affected (state, w) = (left, state1, w1)"
  shows "Q state1 w1"
proof -
  obtain done_now w2 state2 w3 where round:
    "invalidate_all ports (List.filter (in_stage NeedsInvalidation state) (lp_iterate ports w affected)) w = (done_now, w2)"
    "\<And>g. g \<in> set done_now \<Longrightarrow> g |\<in>| affected \<and> in_stage NeedsInvalidation state g"
    "advertise_all ports (List.filter (in_stage NeedsPresence (mark_invalidated done_now state)) (lp_iterate ports w2 affected))
       (mark_invalidated done_now state, w2) = (state2, w3)"
    "withdraw_all ports (List.filter (\<lambda>g. g |\<in>| ls_pending_absence state2) (lp_iterate ports w3 affected)) (state2, w3) = (state1, w1)"
    using reconcile_round_cases [OF assms(4,3)] by metis
  have "Q (mark_invalidated done_now state) w2"
    using invalidations_keep [OF assms(3) round(1) assms(1)] round(2) by (intro marks_recorded) (auto simp: in_stage_def)
  then have two: "Q state2 w3" by (rule advertising_keeps [OF _ _ round(3)]) auto
  have "fmlookup (ls_advertisements state2) g = None" if "g |\<in>| ls_pending_absence state2" for g
    using that advertise_all_fields [OF round(3), of g] assms(2) round(2) [of g]
    by (fastforce simp: desire_kept_def in_stage_def)
  then show ?thesis by (intro withdrawing_keeps [OF two _ round(4)]) auto
qed

lemma rounds_keep:
  assumes "Q state w" and "\<forall>g. desire_kept state g" and "ports_iterate ports"
    and "retry_rounds ports delays (left, state, w) = (left1, state1, w1)"
  shows "Q state1 w1"
  using assms(1,2,4)
proof (induction delays arbitrary: left state w)
  case (Cons delay delays)
  obtain left2 state2 w2 where round: "reconcile_round ports left (state, w) = (left2, state2, w2)" by (metis prod.exhaust)
  have "Q state2 w2" using round_keeps [OF Cons.prems(1,2) assms(3) round] .
  moreover have "\<forall>g. desire_kept state2 g" using reconcile_round_state(3) [OF round assms(3)] Cons.prems(2) by blast
  ultimately show ?case using Cons.IH [of state2 w2 left2] Cons.prems round by (auto split: if_split_asm)
qed auto

lemma step_keeps:
  assumes "Q (la_state a) (la_world a)" and "\<forall>g. desire_kept (la_state a) g" and "ports_iterate ports"
  shows "Q (la_state (lifecycle_step ports command a)) (la_world (lifecycle_step ports command a)) \<and>
    (\<forall>g. desire_kept (la_state (lifecycle_step ports command a)) g)"
proof (cases "la_running a")
  case True
  let ?b = "lifecycle_step ports command a"
  obtain affected state1 where commanded: "commanded ports (la_world a) command (la_state a) = (affected, state1)"
    by (rule prod.exhaust)
  have "\<And>g. desire_kept (la_state a) g" using assms(2) by blast
  note books = commanded_state [OF commanded assms(3) this]
  have one: "\<forall>g. desire_kept state1 g" using books(2) by blast
  have two: "Q state1 (la_world a)"
    by (rule bookkeeping [OF assms(1,2) one]) (use books(3,4) in auto)
  show ?thesis
  proof (cases "\<exists>delays r. reconcile_with_retries ports affected delays (state1, la_world a) = (r, la_state ?b, la_world ?b)")
    case True
    then obtain delays r where
      retries: "reconcile_with_retries ports affected delays (state1, la_world a) = (r, la_state ?b, la_world ?b)" by blast
    obtain left state2 w2 where round: "reconcile_round ports affected (state1, la_world a) = (left, state2, w2)"
      by (metis prod.exhaust)
    have "Q state2 w2" "\<forall>g. desire_kept state2 g"
      using round_keeps [OF two one assms(3) round] reconcile_round_state(3) [OF round assms(3)] one by blast+
    then have "Q (la_state ?b) (la_world ?b)"
      using retries round by (auto simp: reconcile_with_retries_def split: prod.split_asm intro: rounds_keep [OF _ _ assms(3)])
    then show ?thesis using reconcile_with_retries_state(2) [OF retries assms(3)] one by blast
  next
    case False
    then show ?thesis using step_reduces [OF True commanded] two one by auto
  qed
qed (use assms in \<open>simp add: lifecycle_step_def\<close>)

lemma run_keeps:
  assumes "Q (la_state a) (la_world a)" and "\<forall>g. desire_kept (la_state a) g" and "ports_iterate ports"
  shows "Q (la_state (lifecycle_run ports cs a)) (la_world (lifecycle_run ports cs a)) \<and>
    (\<forall>g. desire_kept (la_state (lifecycle_run ports cs a)) g)"
  using assms(1,2)
proof (induction cs arbitrary: a)
  case (Cons c cs)
  then show ?case using step_keeps [OF Cons.prems assms(3), of c] by simp
qed simp

end

section \<open>A guild is advertised only after its snapshot was invalidated\<close>

text \<open>The calls of the actor, the latest first, with the answers.\<close>

datatype lifecycle_call = InvalidateCall guild_id bool | PresentCall guild_id | AbsentCall guild_id

definition traced :: "'w lifecycle_ports \<Rightarrow> ('w \<times> lifecycle_call list) lifecycle_ports" where
  "traced ports = \<lparr>
     lp_invalidate = (\<lambda>g (w, calls). case lp_invalidate ports g w of (r, w1) \<Rightarrow> (r, w1, InvalidateCall g (r = Inr ()) # calls)),
     lp_present = (\<lambda>g (w, calls). case lp_present ports g w of (r, w1) \<Rightarrow> (r, w1, PresentCall g # calls)),
     lp_absent = (\<lambda>g (w, calls). case lp_absent ports g w of (r, w1) \<Rightarrow> (r, w1, AbsentCall g # calls)),
     lp_iterate = (\<lambda>(w, calls). lp_iterate ports w)\<rparr>"

text \<open>Its snapshot was invalidated since its presence was last withdrawn.\<close>

fun freshly_invalidated :: "guild_id \<Rightarrow> lifecycle_call list \<Rightarrow> bool" where
  "freshly_invalidated g [] \<longleftrightarrow> False"
| "freshly_invalidated g (InvalidateCall h ok # calls) \<longleftrightarrow> h = g \<and> ok \<or> freshly_invalidated g calls"
| "freshly_invalidated g (AbsentCall h # calls) \<longleftrightarrow> h \<noteq> g \<and> freshly_invalidated g calls"
| "freshly_invalidated g (PresentCall h # calls) \<longleftrightarrow> freshly_invalidated g calls"

fun advertised_fresh :: "lifecycle_call list \<Rightarrow> bool" where
  "advertised_fresh [] \<longleftrightarrow> True"
| "advertised_fresh (PresentCall g # calls) \<longleftrightarrow> freshly_invalidated g calls \<and> advertised_fresh calls"
| "advertised_fresh (_ # calls) \<longleftrightarrow> advertised_fresh calls"

definition calls_fresh :: "lifecycle_state \<Rightarrow> 'w \<times> lifecycle_call list \<Rightarrow> bool" where
  "calls_fresh state w \<longleftrightarrow> advertised_fresh (snd w) \<and>
     (\<forall>g. in_stage NeedsPresence state g \<or> in_stage Advertised state g \<longrightarrow> freshly_invalidated g (snd w))"

lemmas traced_simps = traced_def calls_fresh_def in_stage_def

interpretation call_trace: lifecycle_invariant "traced ports" calls_fresh "\<lambda>g w. freshly_invalidated g (snd w)"
  for ports :: "'w lifecycle_ports"
proof unfold_locales
  fix state state1 and w :: "'w \<times> lifecycle_call list"
  assume "calls_fresh state w" and "\<forall>g. fmlookup (ls_advertisements state1) g =
    (if \<not> is_desired state1 g then None
     else if fmlookup (ls_advertisements state) g = None then Some NeedsInvalidation
     else fmlookup (ls_advertisements state) g)"
  then show "calls_fresh state1 w" by (auto simp: calls_fresh_def in_stage_def split: if_split_asm)
qed (auto simp: traced_simps split: prod.split_asm if_split_asm)

lemma traced_iterates: "ports_iterate ports \<Longrightarrow> ports_iterate (traced ports)"
  by (auto simp: ports_iterate_def traced_def)

lemma default_kept: "desire_kept lifecycle_default g"
  by (simp add: desire_kept_def lifecycle_default_def is_desired_def)

text \<open>C32: Whatever the gateway reports, in whatever order, and whichever calls fail, the presence of a guild is
  asked for only when the guild's snapshot was invalidated since its presence was last withdrawn: a dashboard
  that sees the guild as present cannot read the state an earlier process left behind.\<close>

theorem advertised_only_after_invalidation:
  assumes "ports_iterate ports"
  shows "advertised_fresh (snd (la_world (lifecycle_run (traced ports) commands (lifecycle_start (w, [])))))"
proof -
  have "calls_fresh (la_state (lifecycle_start (w, []))) (la_world (lifecycle_start (w, [])))"
    by (simp add: calls_fresh_def lifecycle_start_def lifecycle_default_def in_stage_def)
  from call_trace.run_keeps [OF this _ traced_iterates [OF assms], of commands]
  show ?thesis by (simp add: default_kept lifecycle_start_def calls_fresh_def)
qed

section \<open>Presence and ownership\<close>

text \<open>The services of the running bot: the Valkey snapshots and the presence actor on the same server. Before a
  call is served the presence actor may do anything else, heartbeats included; only this actor sends it
  presences and absences. What happens before each call, and how it ends, are the world's.\<close>

record 's gateway_world =
  gw_presence :: "'s presence"
  gw_before :: "nat \<Rightarrow> presence_event list"
  gw_ends :: "nat \<Rightarrow> request_end"
  gw_calls :: nat

fun of_this_actor :: "presence_event \<Rightarrow> bool" where
  "of_this_actor (Present g r) \<longleftrightarrow> True" | "of_this_actor (Absent g r) \<longleftrightarrow> True" | "of_this_actor _ \<longleftrightarrow> False"

definition reach_call :: "'s valkey_store \<Rightarrow> 's gateway_world \<Rightarrow> 's gateway_world \<times> request_end" where
  "reach_call vs w =
     (w\<lparr>gw_presence := presence_run vs (List.filter (\<lambda>e. \<not> of_this_actor e) (gw_before w (gw_calls w))) (gw_presence w),
        gw_calls := gw_calls w + 1\<rparr>, gw_ends w (gw_calls w))"

definition ask_presence ::
  "'s valkey_store \<Rightarrow> (request_end \<Rightarrow> 's presence \<Rightarrow> (presence_error + unit) \<times> 's presence) \<Rightarrow>
   's gateway_world \<Rightarrow> (presence_error + unit) \<times> 's gateway_world" where
  "ask_presence vs request w =
     (case reach_call vs w of (w1, ending) \<Rightarrow>
        if \<not> pr_running (gw_presence w1) then (Inl PresenceStopped, w1)
        else case request ending (gw_presence w1) of (r, p) \<Rightarrow> (r, w1\<lparr>gw_presence := p\<rparr>))"

definition invalidate_via :: "'s snapshot_store \<Rightarrow> guild_id \<Rightarrow> 's gateway_world \<Rightarrow> (guild_lifecycle_error + unit) \<times> 's gateway_world" where
  "invalidate_via ss guild w =
     (case reach_call (valkey_store.truncate ss) w of (w1, ending) \<Rightarrow>
      case invalidate_snapshot ss (end_fault ending) guild (pr_store (gw_presence w1)) of (r, s) \<Rightarrow>
        (case r of Inl _ \<Rightarrow> Inl GuildLifecycleError | Inr _ \<Rightarrow> Inr (),
         w1\<lparr>gw_presence := (gw_presence w1)\<lparr>pr_store := s\<rparr>\<rparr>))"

definition gateway_ports :: "'s snapshot_store \<Rightarrow> (guild_id fset \<Rightarrow> guild_id list) \<Rightarrow> 's gateway_world lifecycle_ports" where
  "gateway_ports ss iterate = \<lparr>
     lp_invalidate = invalidate_via ss,
     lp_present = (\<lambda>guild. ask_presence (valkey_store.truncate ss) (\<lambda>ending. handle_present (valkey_store.truncate ss) ending guild)),
     lp_absent = (\<lambda>guild. ask_presence (valkey_store.truncate ss) (\<lambda>ending. handle_absent (valkey_store.truncate ss) ending guild)),
     lp_iterate = (\<lambda>_. iterate)\<rparr>"

text \<open>What is advertised is what the presence actor holds; what is neither kept nor awaits withdrawal it does not.\<close>

definition presence_agrees :: "lifecycle_state \<Rightarrow> 's gateway_world \<Rightarrow> bool" where
  "presence_agrees state w \<longleftrightarrow>
     (\<forall>g. in_stage Advertised state g \<longrightarrow> g \<in> pr_guilds (gw_presence w)) \<and>
     (\<forall>g. fmlookup (ls_advertisements state) g = None \<and> g |\<notin>| ls_pending_absence state \<longrightarrow> g \<notin> pr_guilds (gw_presence w))"

lemma other_events_guilds:
  "pr_guilds (presence_run vs (List.filter (\<lambda>e. \<not> of_this_actor e) es) p) = pr_guilds p"
proof (induction es arbitrary: p)
  case (Cons e es)
  then show ?case
    by (cases e) (auto simp: handle_shutdown_def heartbeat_tick_def heartbeat_refresh_def heartbeat_join_def split: option.split)
qed simp

lemma reach_call_guilds: "reach_call vs w = (w1, ending) \<Longrightarrow> pr_guilds (gw_presence w1) = pr_guilds (gw_presence w)"
  by (auto simp: reach_call_def other_events_guilds)

lemma present_guilds:
  assumes "lp_present (gateway_ports ss iterate) g w = (r, w1)"
  shows "pr_guilds (gw_presence w1) = pr_guilds (gw_presence w) \<and> r \<noteq> Inr () \<or>
    pr_guilds (gw_presence w1) = insert g (pr_guilds (gw_presence w))"
  using assms
  by (auto simp: gateway_ports_def ask_presence_def handle_present_def split: prod.split_asm if_split_asm dest: reach_call_guilds)

lemma absent_guilds:
  assumes "lp_absent (gateway_ports ss iterate) g w = (r, w1)"
  shows "pr_guilds (gw_presence w1) = pr_guilds (gw_presence w) \<and> r \<noteq> Inr () \<or>
    pr_guilds (gw_presence w1) = pr_guilds (gw_presence w) - {g}"
  using assms
  by (auto simp: gateway_ports_def ask_presence_def handle_absent_def split: prod.split_asm if_split_asm dest: reach_call_guilds)

lemma invalidate_guilds:
  assumes "lp_invalidate (gateway_ports ss iterate) g w = (r, w1)"
  shows "pr_guilds (gw_presence w1) = pr_guilds (gw_presence w)"
  using assms by (auto simp: gateway_ports_def invalidate_via_def split: prod.split_asm dest: reach_call_guilds)

interpretation gateway: lifecycle_invariant "gateway_ports ss iterate" presence_agrees "\<lambda>_ _. True"
  for ss :: "'s snapshot_store" and iterate
proof unfold_locales
  fix state w g e w1
  assume *: "presence_agrees state w" "in_stage NeedsPresence state g \<or> in_stage Advertised state g"
    "lp_present (gateway_ports ss iterate) g w = (Inl e, w1)"
  show "presence_agrees state w1"
    using present_guilds [OF *(3)] *(1,2) by (auto simp: presence_agrees_def in_stage_def)
next
  fix state w g w1
  assume *: "presence_agrees state w" "in_stage NeedsPresence state g \<or> in_stage Advertised state g"
    "lp_present (gateway_ports ss iterate) g w = (Inr (), w1)"
  show "presence_agrees (state\<lparr>ls_advertisements := fmupd g Advertised (ls_advertisements state)\<rparr>) w1"
    using present_guilds [OF *(3)] *(1,2) by (auto simp: presence_agrees_def in_stage_def split: if_split_asm)
next
  fix state w g e w1
  assume *: "presence_agrees state w" "fmlookup (ls_advertisements state) g = None"
    "lp_absent (gateway_ports ss iterate) g w = (Inl e, w1)"
  show "presence_agrees state w1"
    using absent_guilds [OF *(3)] *(1,2) by (auto simp: presence_agrees_def in_stage_def)
next
  fix state w g w1
  assume *: "presence_agrees state w" "fmlookup (ls_advertisements state) g = None"
    "lp_absent (gateway_ports ss iterate) g w = (Inr (), w1)"
  show "presence_agrees (state\<lparr>ls_pending_absence := ls_pending_absence state |-| {|g|}\<rparr>) w1"
    using absent_guilds [OF *(3)] *(1,2) by (auto simp: presence_agrees_def in_stage_def)
next
  fix state w g r w1
  assume *: "presence_agrees state w" "lp_invalidate (gateway_ports ss iterate) g w = (r, w1)"
  show "presence_agrees state w1" using invalidate_guilds [OF *(2)] *(1) by (simp add: presence_agrees_def)
next
  fix state state1 w
  assume *: "presence_agrees state w"
    "\<forall>g. fmlookup (ls_advertisements state1) g =
      (if \<not> is_desired state1 g then None
       else if fmlookup (ls_advertisements state) g = None then Some NeedsInvalidation
       else fmlookup (ls_advertisements state) g)"
    "\<forall>g. g |\<in>| ls_pending_absence state \<and> \<not> is_desired state1 g \<longrightarrow> g |\<in>| ls_pending_absence state1"
    "\<forall>g. fmlookup (ls_advertisements state) g \<noteq> None \<and> fmlookup (ls_advertisements state1) g = None \<longrightarrow>
      g |\<in>| ls_pending_absence state1"
  show "presence_agrees state1 w"
    unfolding presence_agrees_def
  proof (intro conjI allI impI)
    fix g assume "in_stage Advertised state1 g"
    then show "g \<in> pr_guilds (gw_presence w)"
      using * by (auto simp: in_stage_def presence_agrees_def split: if_split_asm)
  next
    fix g assume "fmlookup (ls_advertisements state1) g = None \<and> g |\<notin>| ls_pending_absence state1"
    then show "g \<notin> pr_guilds (gw_presence w)"
      using *(2) [rule_format, of g] *(3,4) [rule_format, of g] *(1)
      by (cases "fmlookup (ls_advertisements state) g") (auto simp: presence_agrees_def split: if_split_asm)
  qed
qed (auto simp: presence_agrees_def in_stage_def)

section \<open>What holds when nothing is pending\<close>

text \<open>The gateway's view after commands, those after a shutdown unheard.\<close>

fun gateway_view :: "lifecycle_command list \<Rightarrow> (u32 \<Rightarrow> guild_id fset) \<Rightarrow> u32 \<Rightarrow> guild_id fset" where
  "gateway_view [] view = view"
| "gateway_view (c # cs) view = (if c = LifecycleShutdown then view else gateway_view cs (gateway_event c view))"

lemma step_view:
  assumes "la_running a" and "ports_iterate ports" and "\<forall>g. desire_kept (la_state a) g"
  shows "owned_or_default (la_state (lifecycle_step ports c a)) = gateway_event c (owned_or_default (la_state a))"
    and "la_running (lifecycle_step ports c a) \<longleftrightarrow> c \<noteq> LifecycleShutdown"
    and "\<forall>g. desire_kept (la_state (lifecycle_step ports c a)) g"
proof -
  obtain affected state1 where commanded: "commanded ports (la_world a) c (la_state a) = (affected, state1)"
    by (rule prod.exhaust)
  have "\<And>g. desire_kept (la_state a) g" using assms(3) by blast
  note books = commanded_state [OF commanded assms(2) this]
  show "owned_or_default (la_state (lifecycle_step ports c a)) = gateway_event c (owned_or_default (la_state a))"
    using step_reduces [OF assms(1) commanded] books(1) reconcile_with_retries_state(1) [OF _ assms(2)] owned_or_default_cong
    by metis
  show "\<forall>g. desire_kept (la_state (lifecycle_step ports c a)) g"
    using step_reduces [OF assms(1) commanded] books(2) reconcile_with_retries_state(2) [OF _ assms(2)] by metis
  show "la_running (lifecycle_step ports c a) \<longleftrightarrow> c \<noteq> LifecycleShutdown"
    using assms(1) by (cases c) (auto simp: lifecycle_step_def lifecycle_handle_def Let_def split: prod.split)
qed

lemma run_view:
  assumes "ports_iterate ports" and "\<forall>g. desire_kept (la_state a) g"
  shows "owned_or_default (la_state (lifecycle_run ports cs a)) =
    (if la_running a then gateway_view cs (owned_or_default (la_state a)) else owned_or_default (la_state a)) \<and>
    (\<forall>g. desire_kept (la_state (lifecycle_run ports cs a)) g)"
  using assms(2)
proof (induction cs arbitrary: a)
  case (Cons c cs)
  show ?case
  proof (cases "la_running a")
    case True
    note step = step_view [OF True assms(1) Cons.prems, of c]
    show ?thesis using Cons.IH [OF step(3)] step(1,2) True by auto
  qed (use Cons in \<open>simp add: lifecycle_step_def\<close>)
qed simp

lemma running_without_shutdown:
  "LifecycleShutdown \<notin> set cs \<Longrightarrow> la_running (lifecycle_run ports cs a) = la_running a"
proof (induction cs arbitrary: a)
  case (Cons c cs)
  then have "la_running (lifecycle_step ports c a) = la_running a"
    by (cases c) (auto simp: lifecycle_step_def lifecycle_handle_def Let_def split: prod.split)
  then show ?case using Cons by simp
qed simp

lemma start_view: "owned_or_default (la_state (lifecycle_start w)) = (\<lambda>_. {||})" "la_running (lifecycle_start w)"
  "\<forall>g. desire_kept (la_state (lifecycle_start w)) g"
  by (simp_all add: lifecycle_start_def lifecycle_default_def owned_or_default_def fun_eq_iff desire_kept_def is_desired_def)

lemma quiet_agreement:
  assumes "\<And>guilds. set (iterate guilds) = fset guilds" and "pr_guilds (gw_presence w) = {}"
    and "a = lifecycle_run (gateway_ports ss iterate) commands (lifecycle_start w)"
  shows "\<forall>g. desire_kept (la_state a) g" and "presence_agrees (la_state a) (la_world a)"
    and "owned_or_default (la_state a) = gateway_view commands (\<lambda>_. {||})"
proof -
  have iterate: "ports_iterate (gateway_ports ss iterate)" using assms(1) by (simp add: ports_iterate_def gateway_ports_def)
  have "presence_agrees (la_state (lifecycle_start w)) (la_world (lifecycle_start w))"
    using assms(2) by (simp add: presence_agrees_def lifecycle_start_def lifecycle_default_def in_stage_def)
  from gateway.run_keeps [OF this start_view(3) iterate, of commands]
  show "\<forall>g. desire_kept (la_state a) g" and "presence_agrees (la_state a) (la_world a)" by (simp_all add: assms(3))
  show "owned_or_default (la_state a) = gateway_view commands (\<lambda>_. {||})"
    using run_view [OF iterate start_view(3), of commands w] start_view(1,2) [of w] assms(3) by simp
qed

lemma quiet_guilds:
  assumes "\<forall>g. desire_kept state g" and "presence_agrees state w" and "lifecycle_pending state = {||}"
  shows "pr_guilds (gw_presence w) = (\<Union>shard. fset (owned_or_default state shard))"
proof -
  have quiet: "ls_pending_absence state = {||}"
    "\<And>g. fmlookup (ls_advertisements state) g = None \<or> in_stage Advertised state g"
    using assms(3) by (auto simp: lifecycle_pending_def in_stage_def fmlookup_dom_iff)
  have "g \<in> pr_guilds (gw_presence w) \<longleftrightarrow> is_desired state g" for g
    using assms(1,2) quiet(1) quiet(2) [of g] by (auto simp: presence_agrees_def desire_kept_def in_stage_def)
  then show ?thesis by (auto simp: desired_iff_view)
qed

text \<open>When the lifecycle actor has nothing pending, the guilds whose presence leases the bot keeps alive are
  exactly those the gateway's commands left to its shards, after any commands, failures and
  heartbeats.\<close>

theorem quiet_presence_is_ownership:
  assumes "\<And>guilds. set (iterate guilds) = fset guilds"
    and "pr_guilds (gw_presence w) = {}"
    and "a = lifecycle_run (gateway_ports ss iterate) commands (lifecycle_start w)"
    and "lifecycle_pending (la_state a) = {||}"
  shows "pr_guilds (gw_presence (la_world a)) = (\<Union>shard. fset (gateway_view commands (\<lambda>_. {||}) shard))"
  using quiet_guilds [OF quiet_agreement(1,2) [OF assms(1-3)] assms(4)] quiet_agreement(3) [OF assms(1-3)] by simp

section \<open>Progress\<close>

text \<open>In a world of which \<open>good\<close> holds every call succeeds, and it goes on holding.\<close>

definition services_answer :: "'w lifecycle_ports \<Rightarrow> ('w \<Rightarrow> bool) \<Rightarrow> bool" where
  "services_answer ports good \<longleftrightarrow>
     (\<forall>w g. good w \<longrightarrow> (\<exists>w1. lp_invalidate ports g w = (Inr (), w1) \<and> good w1) \<and>
        (\<exists>w1. lp_present ports g w = (Inr (), w1) \<and> good w1) \<and> (\<exists>w1. lp_absent ports g w = (Inr (), w1) \<and> good w1))"

lemma chunk_answers:
  assumes "services_answer ports good"
  shows "good w \<Longrightarrow> invalidate_chunk ports gs w = (done_now, w1) \<Longrightarrow> set done_now = set gs \<and> good w1"
proof (induction gs arbitrary: w done_now w1)
  case (Cons g gs)
  obtain w2 where call: "lp_invalidate ports g w = (Inr (), w2)" "good w2"
    using assms Cons.prems(1) unfolding services_answer_def by blast
  obtain later w3 where rest: "invalidate_chunk ports gs w2 = (later, w3)" by (rule prod.exhaust)
  show ?case using Cons.IH [OF call(2) rest] Cons.prems(2) call(1) rest by auto
qed simp

lemma invalidations_answer:
  assumes "services_answer ports good" and "ports_iterate ports" and "good w"
    and "invalidate_all ports gs w = (done_now, w1)"
  shows "set done_now = set gs" and "good w1"
proof -
  have "good w \<longrightarrow> set done_now = set gs \<and> good w1" using assms(2,4)
  proof (induction rule: invalidate_all_induct)
    case (Chunk gs chunk w one w1 later w2)
    show ?case using chunk_answers [OF assms(1) _ Chunk(2)] Chunk(1,3) set_take_drop [of MAX_PARALLEL_INVALIDATIONS gs] by auto
  qed simp
  then show "set done_now = set gs" and "good w1" using assms(3) by auto
qed

lemma advertising_answers:
  assumes "services_answer ports good"
  shows "good w \<Longrightarrow> advertise_all ports gs (state, w) = (state1, w1) \<Longrightarrow>
     good w1 \<and> fmlookup (ls_advertisements state1) g =
       (if g \<in> set gs then Some Advertised else fmlookup (ls_advertisements state) g)"
proof (induction gs arbitrary: state w)
  case (Cons h gs)
  obtain w2 where call: "lp_present ports h w = (Inr (), w2)" "good w2"
    using assms Cons.prems(1) unfolding services_answer_def by blast
  show ?case using Cons.IH [OF call(2)] Cons.prems(2) call(1) by auto
qed simp

lemma withdrawing_answers:
  assumes "services_answer ports good"
  shows "good w \<Longrightarrow> withdraw_all ports gs (state, w) = (state1, w1) \<Longrightarrow>
     good w1 \<and> (g |\<in>| ls_pending_absence state1 \<longleftrightarrow> g |\<in>| ls_pending_absence state \<and> g \<notin> set gs)"
proof (induction gs arbitrary: state w)
  case (Cons h gs)
  obtain w2 where call: "lp_absent ports h w = (Inr (), w2)" "good w2"
    using assms Cons.prems(1) unfolding services_answer_def by blast
  show ?case using Cons.IH [OF call(2)] Cons.prems(2) call(1) by auto
qed simp

lemma round_settles:
  assumes "services_answer ports good" and "ports_iterate ports" and "good w" and "\<forall>g. desire_kept state g"
    and "reconcile_round ports affected (state, w) = (left, state1, w1)"
  shows "left = {||}" and "good w1" and "g |\<in>| affected \<Longrightarrow> \<not> unsettled state1 g"
proof -
  obtain done_now w2 state2 w3 where round:
    "invalidate_all ports (List.filter (in_stage NeedsInvalidation state) (lp_iterate ports w affected)) w = (done_now, w2)"
    "advertise_all ports (List.filter (in_stage NeedsPresence (mark_invalidated done_now state)) (lp_iterate ports w2 affected))
       (mark_invalidated done_now state, w2) = (state2, w3)"
    "withdraw_all ports (List.filter (\<lambda>g. g |\<in>| ls_pending_absence state2) (lp_iterate ports w3 affected)) (state2, w3) = (state1, w1)"
    "left = ffilter (unsettled state1) affected"
    using reconcile_round_cases [OF assms(5,2)] by metis
  note one = invalidations_answer [OF assms(1,2,3) round(1)]
  note two = advertising_answers [OF assms(1) one(2) round(2)]
  note three = withdrawing_answers [OF assms(1) conjunct1 [OF two] round(3)]
  show "good w1" using three by blast
  have "is_desired state1 g = is_desired state g" for g
    using reconcile_round_state(1) [OF assms(5,2)] by (rule is_desired_cong)
  moreover have "fmlookup (ls_advertisements state1) g = Some Advertised"
    if affected: "g |\<in>| affected" and desired: "is_desired state g" for g
  proof -
    obtain stage where "fmlookup (ls_advertisements state) g = Some stage"
      using desired assms(4) by (auto simp: desire_kept_def)
    then show ?thesis using two [of g] withdraw_all_fields [OF round(3)] one(1) iterates [OF assms(2)] affected
      by (cases stage) (auto simp: in_stage_def)
  qed
  moreover have "g |\<notin>| ls_pending_absence state1" if "g |\<in>| affected" for g
    using three [of g] iterates [OF assms(2)] that by auto
  ultimately have settled: "\<not> unsettled state1 g" if "g |\<in>| affected" for g using that by (auto simp: unsettled_def)
  then show "g |\<in>| affected \<Longrightarrow> \<not> unsettled state1 g" .
  show "left = {||}" using settled round(4) by auto
qed

lemma tick_settles:
  assumes "services_answer ports good" and "ports_iterate ports" and "good (la_world a)" and "la_running a"
    and "\<forall>g. desire_kept (la_state a) g"
  shows "lifecycle_pending (la_state (lifecycle_step ports BackgroundTick a)) = {||}"
proof (cases "lifecycle_pending (la_state a) = {||}")
  case False
  let ?state = "la_state a"
  obtain left state1 w1 where round:
    "reconcile_round ports (lifecycle_pending ?state) (?state, la_world a) = (left, state1, w1)" by (metis prod.exhaust)
  have after: "la_state (lifecycle_step ports BackgroundTick a) = state1"
    using assms(4) False round by (simp add: lifecycle_step_def lifecycle_handle_def Let_def reconcile_once_def)
  have kept: "desire_kept state1 g" for g using reconcile_round_state(3) [OF round assms(2)] assms(5) by blast
  have settled: "\<not> unsettled state1 g" for g
  proof (cases "g |\<in>| lifecycle_pending ?state")
    case True
    then show ?thesis using round_settles(3) [OF assms(1,2,3,5) round] by blast
  next
    case False
    then have "\<not> unsettled ?state g" using assms(5)
      by (auto simp: unsettled_def lifecycle_pending_def desire_kept_def fmlookup_dom_iff)
    then show ?thesis using reconcile_round_state(4) [OF round assms(2) False] by simp
  qed
  have "g |\<notin>| lifecycle_pending state1" for g
    using kept [of g] settled [of g] by (auto simp: unsettled_def lifecycle_pending_def desire_kept_def fmlookup_dom_iff)
  then show ?thesis using after by auto
qed (use assms(4) in \<open>simp add: lifecycle_step_def lifecycle_handle_def Let_def\<close>)

text \<open>The gateway's services answer from now on: the presence actor runs and stays up, and requests succeed.\<close>

definition gateway_answers :: "'s gateway_world \<Rightarrow> bool" where
  "gateway_answers w \<longleftrightarrow>
     pr_running (gw_presence w) \<and> valid_instance (pr_instance (gw_presence w)) \<and>
     duration_millis (pr_ttl (gw_presence w)) ''bot presence'' = Inr (pr_ttl (gw_presence w) div 10 ^ 6) \<and>
     (\<forall>n \<ge> gw_calls w. gw_ends w n = Ends NoFault (Some (str ''OK''))) \<and>
     (\<forall>n \<ge> gw_calls w. \<forall>order. ShutdownPresence order \<notin> set (gw_before w n))"

lemma other_events_running:
  "(\<And>order. ShutdownPresence order \<notin> set es) \<Longrightarrow>
     pr_running (presence_run vs (List.filter (\<lambda>e. \<not> of_this_actor e) es) p) = pr_running p \<and>
     pr_instance (presence_run vs (List.filter (\<lambda>e. \<not> of_this_actor e) es) p) = pr_instance p \<and>
     pr_ttl (presence_run vs (List.filter (\<lambda>e. \<not> of_this_actor e) es) p) = pr_ttl p"
proof (induction es arbitrary: p)
  case (Cons e es)
  then show ?case
    by (cases e) (auto simp: heartbeat_tick_def heartbeat_refresh_def heartbeat_join_def split: option.split)
qed simp

lemma gateway_services_answer: "services_answer (gateway_ports ss iterate) gateway_answers"
proof -
  have "(\<exists>w1. lp_invalidate (gateway_ports ss iterate) g w = (Inr (), w1) \<and> gateway_answers w1) \<and>
      (\<exists>w1. lp_present (gateway_ports ss iterate) g w = (Inr (), w1) \<and> gateway_answers w1) \<and>
      (\<exists>w1. lp_absent (gateway_ports ss iterate) g w = (Inr (), w1) \<and> gateway_answers w1)" if good: "gateway_answers w" for w g
  proof -
    let ?vs = "valkey_store.truncate ss"
    obtain w1 where reached: "reach_call ?vs w = (w1, Ends NoFault (Some (str ''OK'')))" "gateway_answers w1"
      using good other_events_running [of "gw_before w (gw_calls w)" ?vs "gw_presence w"]
      by (auto simp: reach_call_def gateway_answers_def)
    have kept: "gateway_answers (w1\<lparr>gw_presence := p\<rparr>)"
      if "pr_running p = pr_running (gw_presence w1)" "pr_instance p = pr_instance (gw_presence w1)"
        "pr_ttl p = pr_ttl (gw_presence w1)" for p
      using reached(2) that by (simp add: gateway_answers_def)
    have checks: "validate_instance (pr_instance (gw_presence w1)) = Inr ()"
      "duration_millis (pr_ttl (gw_presence w1)) ''bot presence'' = Inr (pr_ttl (gw_presence w1) div 10 ^ 6)"
      "pr_running (gw_presence w1)"
      using reached(2) valid_instance_validates by (auto simp: gateway_answers_def)
    show ?thesis using checks
      by (auto simp: gateway_ports_def invalidate_via_def ask_presence_def reached(1) invalidate_snapshot_def invoke_def answer_def
          handle_present_def handle_absent_def refresh_bot_presence_def clear_bot_presence_def timed_def
          split: prod.split intro!: kept)
  qed
  then show ?thesis by (simp add: services_answer_def)
qed

text \<open>However badly calls failed before, once the services answer again one tick of the background
  interval brings the guilds whose presence is kept alive into agreement with what the gateway reported.\<close>

theorem background_tick_settles:
  assumes "\<And>guilds. set (iterate guilds) = fset guilds"
    and "pr_guilds (gw_presence w) = {}"
    and "a = lifecycle_run (gateway_ports ss iterate) commands (lifecycle_start w)"
    and "LifecycleShutdown \<notin> set commands" and "gateway_answers (la_world a)"
    and "b = lifecycle_step (gateway_ports ss iterate) BackgroundTick a"
  shows "lifecycle_pending (la_state b) = {||} \<and>
    pr_guilds (gw_presence (la_world b)) = (\<Union>shard. fset (gateway_view commands (\<lambda>_. {||}) shard))"
proof -
  let ?ports = "gateway_ports ss iterate"
  have iterate: "ports_iterate ?ports" using assms(1) by (simp add: ports_iterate_def gateway_ports_def)
  note a = quiet_agreement [OF assms(1-3)]
  have running: "la_running a"
    unfolding assms(3) running_without_shutdown [OF assms(4)] by (rule start_view(2))
  from tick_settles [OF gateway_services_answer iterate assms(5) running a(1)]
  have quiet: "lifecycle_pending (la_state b) = {||}" by (simp add: assms(6))
  note view = step_view [OF running iterate a(1), of BackgroundTick]
  have "presence_agrees (la_state b) (la_world b)"
    using gateway.step_keeps [OF a(2,1) iterate, of BackgroundTick] by (simp add: assms(6))
  from quiet_guilds [OF _ this quiet] view(1,3) a(3) quiet show ?thesis by (simp add: assms(6))
qed

end
