(* ===== verification/Bot_Samples.thy ===== *)
theory Bot_Samples
  imports Bot_Lifecycle Snapshot_Samples
begin

text \<open>A bot on the sample server, whose hash sets are iterated in ascending order.\<close>

section \<open>One guild joined\<close>

definition ascending :: "guild_id fset \<Rightarrow> guild_id list" where
  "ascending guilds = map GuildId (sorted_list_of_set (guild_get ` fset guilds))"

lemma set_ascending [simp]: "set (ascending guilds) = fset guilds"
  by (auto simp: ascending_def image_image)

lemma ascending_one [simp]: "ascending {|g|} = [g]" "ascending {||} = []"
  by (simp_all add: ascending_def)

definition sample_presence :: "memory presence" where
  "sample_presence = \<lparr>pr_instance = str ''a'', pr_ttl = 2000000000, pr_guilds = {}, pr_heartbeat = None, pr_running = True,
     pr_store = empty_memory\<rparr>"

definition sample_gateway :: "memory gateway_world" where
  "sample_gateway = \<lparr>gw_presence = sample_presence, gw_before = (\<lambda>_. [Tick]), gw_ends = (\<lambda>_. Ends NoFault (Some (str ''OK''))),
     gw_calls = 0\<rparr>"

abbreviation sample_services :: "memory gateway_world lifecycle_ports" where
  "sample_services \<equiv> gateway_ports memory_snapshots ascending"

lemma sample_iterates: "ports_iterate sample_services"
  by (simp add: ports_iterate_def gateway_ports_def)

lemma sample_instance: "valid_instance (str ''a'')"
  by (simp add: valid_instance_def char_len_utf8_def is_ascii_alphanumeric_def is_ascii_lowercase_def)

lemma sample_gateway_answers: "gateway_answers sample_gateway"
  using sample_instance by (simp add: gateway_answers_def sample_gateway_def sample_presence_def duration_millis_def Let_def)

lemma advertised_only_after_invalidation_witness:
  "advertised_fresh (snd (la_world (lifecycle_run (traced sample_services)
     [LifecyclePresent 0 (GuildId 5), LifecycleAbsent 0 (GuildId 5), LifecyclePresent 1 (GuildId 5)]
     (lifecycle_start (sample_gateway, [])))))"
  by (rule advertised_only_after_invalidation [OF sample_iterates])

definition joined :: "memory gateway_world lifecycle_actor" where
  "joined = lifecycle_run sample_services [LifecyclePresent 0 (GuildId 5)] (lifecycle_start sample_gateway)"

lemma joined_pending: "lifecycle_pending (la_state joined) = {||}"
proof -
  let ?state = "snd (lifecycle_present 0 (GuildId 5) lifecycle_default)"
  obtain affected state1 where commanded:
    "commanded sample_services sample_gateway (LifecyclePresent 0 (GuildId 5)) lifecycle_default = (affected, state1)"
    by (rule prod.exhaust)
  have kept: "\<forall>g. desire_kept state1 g"
    using commanded_state(2) [OF commanded sample_iterates] default_kept by blast
  obtain left state2 w2 where round: "reconcile_round sample_services affected (state1, sample_gateway) = (left, state2, w2)"
    by (metis prod.exhaust)
  note settled = round_settles [OF gateway_services_answer sample_iterates sample_gateway_answers kept round]
  have state: "la_state joined = state2"
    using commanded round settled(1)
    by (auto simp: joined_def lifecycle_start_def lifecycle_step_def lifecycle_handle_def Let_def commanded_def
        reconcile_with_retries_def retry_short_delays_def)
  have "g |\<notin>| lifecycle_pending state2" for g
  proof -
    have kept2: "desire_kept state2 g" using reconcile_round_state(3) [OF round sample_iterates] kept by blast
    have "\<not> unsettled state2 g"
    proof (cases "g |\<in>| affected")
      case False
      then have "\<not> unsettled state1 g" using commanded
        by (auto simp: commanded_def lifecycle_present_def Let_def unsettled_def apply_desired_one_def is_desired_def lifecycle_default_def
            owned_or_default_def split: if_split_asm)
      then show ?thesis using reconcile_round_state(4) [OF round sample_iterates False] by simp
    qed (rule settled(3))
    then show ?thesis using kept2 by (auto simp: unsettled_def lifecycle_pending_def desire_kept_def fmlookup_dom_iff)
  qed
  then show ?thesis using state by auto
qed

lemma quiet_presence_is_ownership_witness:
  "pr_guilds (gw_presence (la_world joined)) = {GuildId 5}"
proof -
  have "pr_guilds (gw_presence (la_world joined)) =
      (\<Union>shard. fset (gateway_view [LifecyclePresent 0 (GuildId 5)] (\<lambda>_. {||}) shard))"
    by (rule quiet_presence_is_ownership [OF set_ascending _ joined_def joined_pending])
      (simp add: sample_gateway_def sample_presence_def)
  also have "\<dots> = {GuildId 5}" by (auto split: if_split_asm)
  finally show ?thesis .
qed

text \<open>The first three calls are lost.\<close>

definition late_gateway :: "memory gateway_world" where
  "late_gateway = sample_gateway\<lparr>gw_ends := (\<lambda>n. if n < 3 then TimesOut LostBefore None else Ends NoFault (Some (str ''OK'')))\<rparr>"

definition unserved :: "memory gateway_world lifecycle_actor" where
  "unserved = lifecycle_run sample_services [LifecyclePresent 0 (GuildId 5)] (lifecycle_start late_gateway)"

lemma invalidate_few:
  "invalidate_all sample_services [] w = ([], w)"
  "invalidate_all sample_services [g] w =
     (case invalidate_via memory_snapshots g w of (r, w1) \<Rightarrow> (case r of Inr _ \<Rightarrow> [g] | Inl _ \<Rightarrow> [], w1))"
  by (simp_all add: invalidate_all.simps MAX_PARALLEL_INVALIDATIONS_def gateway_ports_def split: prod.split)

lemma filter_one: "ffilter P {|g|} = (if P g then {|g|} else {||})"
  by auto

lemma unserved_state:
  "gw_calls (la_world unserved) = 3" "lifecycle_pending (la_state unserved) = {|GuildId 5|}"
  "gateway_answers (la_world unserved)"
  unfolding unserved_def
  by (simp_all add: late_gateway_def sample_gateway_def sample_presence_def lifecycle_start_def lifecycle_default_def
      lifecycle_step_def lifecycle_handle_def Let_def lifecycle_present_def owned_or_default_def apply_desired_one_def
      is_desired_def fmran_fmupd reconcile_with_retries_def reconcile_round_def retry_short_delays_def
      invalidate_few [unfolded gateway_ports_def] gateway_ports_def filter_one in_stage_def invalidate_via_def
      reach_call_def invalidate_snapshot_def invoke_def answer_def unsettled_def round_result_def lifecycle_pending_def
      heartbeat_tick_def gateway_answers_def
      sample_instance [unfolded str_def, simplified] duration_millis_def)

lemma background_tick_settles_witness:
  "pr_guilds (gw_presence (la_world (lifecycle_step sample_services BackgroundTick unserved))) = {GuildId 5}"
proof -
  have "lifecycle_pending (la_state (lifecycle_step sample_services BackgroundTick unserved)) = {||} \<and>
      pr_guilds (gw_presence (la_world (lifecycle_step sample_services BackgroundTick unserved))) =
      (\<Union>shard. fset (gateway_view [LifecyclePresent 0 (GuildId 5)] (\<lambda>_. {||}) shard))"
    by (rule background_tick_settles [OF set_ascending _ unserved_def _ unserved_state(3) refl])
      (simp_all add: late_gateway_def sample_gateway_def sample_presence_def)
  then show ?thesis by (auto split: if_split_asm)
qed

end
