(* ===== verification/Bot_Registry.thy ===== *)
theory Bot_Registry
  imports Core_Types
begin

text \<open>
  The registry of guild players, \<open>crates/pepeaudio-bot/src/registry.rs\<close>, as a machine: each task in
  \<open>get_or_create\<close> or \<open>remove_and_shutdown\<close> advances from one of its awaits to the next, in any
  interleaving with the others, with the deaths of actors and with \<open>shutdown_all\<close>. A lock of
  the table is held weakly: it lives as long as a task refers to it.
\<close>

section \<open>Answers of a player\<close>

definition SHUTDOWN_CONCURRENCY :: nat where "SHUTDOWN_CONCURRENCY = 16"

datatype registry_error = ActorBusy | FactoryNotConfigured | FactoryError rstring | ShutdownError rstring

definition registry_error_display :: "registry_error \<Rightarrow> rstring" where
  "registry_error_display e =
     (case e of
        ActorBusy \<Rightarrow> str ''player actor did not answer its health check''
      | FactoryNotConfigured \<Rightarrow> str ''player factory is not configured''
      | FactoryError detail \<Rightarrow> str ''player factory failed: '' @ detail
      | ShutdownError detail \<Rightarrow> str ''player shutdown failed: '' @ detail)"

text \<open>The health check is a snapshot under a timeout.\<close>

datatype health = Answers | HealthStopped | HealthFails rstring | HealthTimesOut

definition live_player :: "'h option \<Rightarrow> health \<Rightarrow> registry_error + 'h option" where
  "live_player player answer =
     (case player of
        None \<Rightarrow> Inr None
      | Some h \<Rightarrow>
          (case answer of
             Answers \<Rightarrow> Inr (Some h)
           | HealthStopped \<Rightarrow> Inr None
           | HealthFails e \<Rightarrow> Inl (ShutdownError e)
           | HealthTimesOut \<Rightarrow> Inl ActorBusy))"

text \<open>A report carries the error of the voice disconnection, if there was one.\<close>

datatype stop_answer = Reported "rstring option" | StopActorStopped | StopFails rstring | StopTimesOut

definition completed_shutdown :: "rstring option \<Rightarrow> registry_error + unit" where
  "completed_shutdown disconnect_error = (case disconnect_error of Some e \<Rightarrow> Inl (ShutdownError e) | None \<Rightarrow> Inr ())"

definition shutdown_player :: "stop_answer \<Rightarrow> registry_error + unit" where
  "shutdown_player answer =
     (case answer of
        StopTimesOut \<Rightarrow> Inl (ShutdownError (str ''player cleanup timed out''))
      | Reported report \<Rightarrow> completed_shutdown report
      | StopActorStopped \<Rightarrow> Inr ()
      | StopFails e \<Rightarrow> Inl (ShutdownError e))"

section \<open>The machine\<close>

datatype wish = GetOrCreate | RemoveAndShutdown

datatype task_phase =
    Waiting | Looking | Probing nat | Clearing | Creating | Inserting nat | Stopping nat | Restoring nat registry_error

record registry_task =
  rt_guild :: guild_id
  rt_lock :: nat
  rt_wish :: wish
  rt_phase :: task_phase

datatype task_result = GotPlayer nat | Removed bool | TaskFailed registry_error

record player_registry =
  rg_players :: "guild_id \<rightharpoonup> nat"
  rg_locks :: "guild_id \<rightharpoonup> nat"
  rg_locked :: "nat set"
  rg_tasks :: "nat \<rightharpoonup> registry_task"
  rg_results :: "nat \<rightharpoonup> task_result"
  rg_actors :: "nat \<rightharpoonup> guild_id"
  rg_live :: "nat set"
  rg_drained :: "nat set"
  rg_next_lock :: nat
  rg_next_actor :: nat

definition registry_new :: player_registry where
  "registry_new = \<lparr>rg_players = Map.empty, rg_locks = Map.empty, rg_locked = {}, rg_tasks = Map.empty, rg_results = Map.empty,
     rg_actors = Map.empty, rg_live = {}, rg_drained = {}, rg_next_lock = 0, rg_next_actor = 0\<rparr>"

definition strong :: "player_registry \<Rightarrow> nat \<Rightarrow> bool" where
  "strong s lock \<longleftrightarrow> (\<exists>i t. rg_tasks s i = Some t \<and> rt_lock t = lock)"

text \<open>\<open>operation_lock\<close>: locks nobody refers to are dropped from the table first.\<close>

definition operation_lock :: "guild_id \<Rightarrow> player_registry \<Rightarrow> nat \<times> player_registry" where
  "operation_lock guild s =
     (let kept = (\<lambda>g. case rg_locks s g of None \<Rightarrow> None | Some l \<Rightarrow> if strong s l then Some l else None)
      in case kept guild of
           Some l \<Rightarrow> (l, s\<lparr>rg_locks := kept\<rparr>)
         | None \<Rightarrow> (rg_next_lock s, s\<lparr>rg_locks := kept(guild \<mapsto> rg_next_lock s), rg_next_lock := rg_next_lock s + 1\<rparr>))"

definition begin_task :: "nat \<Rightarrow> guild_id \<Rightarrow> wish \<Rightarrow> player_registry \<Rightarrow> player_registry" where
  "begin_task i guild wish' s =
     (if rg_tasks s i \<noteq> None then s
      else case operation_lock guild s of
        (l, s1) \<Rightarrow> s1\<lparr>rg_tasks := (rg_tasks s1)(i \<mapsto> \<lparr>rt_guild = guild, rt_lock = l, rt_wish = wish', rt_phase = Waiting\<rparr>)\<rparr>)"

definition move_on :: "nat \<Rightarrow> registry_task \<Rightarrow> task_phase \<Rightarrow> player_registry \<Rightarrow> player_registry" where
  "move_on i t phase s = s\<lparr>rg_tasks := (rg_tasks s)(i \<mapsto> t\<lparr>rt_phase := phase\<rparr>)\<rparr>"

text \<open>The guard and then the reference to the lock are dropped.\<close>

definition finish_task :: "nat \<Rightarrow> registry_task \<Rightarrow> task_result \<Rightarrow> player_registry \<Rightarrow> player_registry" where
  "finish_task i t result s =
     s\<lparr>rg_tasks := (rg_tasks s)(i := None), rg_locked := rg_locked s - {rt_lock t}, rg_results := (rg_results s)(i \<mapsto> result)\<rparr>"

definition acquire_lock :: "nat \<Rightarrow> registry_task \<Rightarrow> player_registry \<Rightarrow> player_registry" where
  "acquire_lock i t s =
     (if rt_phase t = Waiting \<and> rt_lock t \<notin> rg_locked s
      then (move_on i t Looking s)\<lparr>rg_locked := insert (rt_lock t) (rg_locked s)\<rparr> else s)"

definition look_up :: "nat \<Rightarrow> registry_task \<Rightarrow> player_registry \<Rightarrow> player_registry" where
  "look_up i t s =
     (if rt_phase t \<noteq> Looking then s
      else case rt_wish t of
        GetOrCreate \<Rightarrow>
          (case rg_players s (rt_guild t) of None \<Rightarrow> move_on i t Clearing s | Some h \<Rightarrow> move_on i t (Probing h) s)
      | RemoveAndShutdown \<Rightarrow>
          (case rg_players s (rt_guild t) of
             None \<Rightarrow> finish_task i t (Removed False) s
           | Some h \<Rightarrow> (move_on i t (Stopping h) s)\<lparr>rg_players := (rg_players s)(rt_guild t := None)\<rparr>))"

text \<open>A health check finds the actor stopped only when it has stopped.\<close>

definition probed :: "nat \<Rightarrow> registry_task \<Rightarrow> health \<Rightarrow> player_registry \<Rightarrow> player_registry" where
  "probed i t answer s =
     (case rt_phase t of
        Probing h \<Rightarrow>
          (if answer = HealthStopped \<and> h \<in> rg_live s then s
           else case live_player (Some h) answer of
             Inl e \<Rightarrow> finish_task i t (TaskFailed e) s
           | Inr (Some h) \<Rightarrow> finish_task i t (GotPlayer h) s
           | Inr None \<Rightarrow> move_on i t Clearing s)
      | _ \<Rightarrow> s)"

definition clear_entry :: "nat \<Rightarrow> registry_task \<Rightarrow> player_registry \<Rightarrow> player_registry" where
  "clear_entry i t s =
     (if rt_phase t = Clearing
      then (move_on i t Creating s)\<lparr>rg_players := (rg_players s)(rt_guild t := None)\<rparr> else s)"

definition created :: "nat \<Rightarrow> registry_task \<Rightarrow> registry_error + unit \<Rightarrow> player_registry \<Rightarrow> player_registry" where
  "created i t answer s =
     (if rt_phase t \<noteq> Creating then s
      else case answer of
        Inl e \<Rightarrow> finish_task i t (TaskFailed e) s
      | Inr _ \<Rightarrow>
          (move_on i t (Inserting (rg_next_actor s)) s)\<lparr>
             rg_actors := (rg_actors s)(rg_next_actor s \<mapsto> rt_guild t), rg_live := insert (rg_next_actor s) (rg_live s),
             rg_next_actor := rg_next_actor s + 1\<rparr>)"

definition insert_player :: "nat \<Rightarrow> registry_task \<Rightarrow> player_registry \<Rightarrow> player_registry" where
  "insert_player i t s =
     (case rt_phase t of
        Inserting h \<Rightarrow> finish_task i t (GotPlayer h) (s\<lparr>rg_players := (rg_players s)(rt_guild t \<mapsto> h)\<rparr>)
      | _ \<Rightarrow> s)"

text \<open>An actor whose shutdown is reported without an error, or that is found stopped, has stopped.\<close>

definition stopped :: "nat \<Rightarrow> registry_task \<Rightarrow> stop_answer \<Rightarrow> player_registry \<Rightarrow> player_registry" where
  "stopped i t answer s =
     (case rt_phase t of
        Stopping h \<Rightarrow>
          (case shutdown_player answer of
             Inr _ \<Rightarrow> finish_task i t (Removed True) (s\<lparr>rg_live := rg_live s - {h}\<rparr>)
           | Inl e \<Rightarrow> move_on i t (Restoring h e) s)
      | _ \<Rightarrow> s)"

definition restore_player :: "nat \<Rightarrow> registry_task \<Rightarrow> player_registry \<Rightarrow> player_registry" where
  "restore_player i t s =
     (case rt_phase t of
        Restoring h e \<Rightarrow> finish_task i t (TaskFailed e) (s\<lparr>rg_players := (rg_players s)(rt_guild t \<mapsto> h)\<rparr>)
      | _ \<Rightarrow> s)"

definition drain_players :: "player_registry \<Rightarrow> player_registry" where
  "drain_players s = s\<lparr>rg_players := Map.empty, rg_drained := rg_drained s \<union> ran (rg_players s)\<rparr>"

datatype registry_event =
    Begin nat guild_id wish | AcquireLock nat | LookUp nat | Probed nat health | ClearEntry nat
  | Created nat "registry_error + unit" | InsertPlayer nat | Stopped nat stop_answer | RestorePlayer nat
  | ActorDies nat | ShutdownAll

definition on_task :: "nat \<Rightarrow> (registry_task \<Rightarrow> player_registry \<Rightarrow> player_registry) \<Rightarrow> player_registry \<Rightarrow> player_registry" where
  "on_task i f s = (case rg_tasks s i of None \<Rightarrow> s | Some t \<Rightarrow> f t s)"

fun registry_step :: "registry_event \<Rightarrow> player_registry \<Rightarrow> player_registry" where
  "registry_step (Begin i guild wish') s = begin_task i guild wish' s"
| "registry_step (AcquireLock i) s = on_task i (acquire_lock i) s"
| "registry_step (LookUp i) s = on_task i (look_up i) s"
| "registry_step (Probed i answer) s = on_task i (\<lambda>t. probed i t answer) s"
| "registry_step (ClearEntry i) s = on_task i (clear_entry i) s"
| "registry_step (Created i answer) s = on_task i (\<lambda>t. created i t answer) s"
| "registry_step (InsertPlayer i) s = on_task i (insert_player i) s"
| "registry_step (Stopped i answer) s = on_task i (\<lambda>t. stopped i t answer) s"
| "registry_step (RestorePlayer i) s = on_task i (restore_player i) s"
| "registry_step (ActorDies h) s = s\<lparr>rg_live := rg_live s - {h}\<rparr>"
| "registry_step ShutdownAll s = drain_players s"

text \<open>What \<open>shutdown_all\<close> reports: the cleanup tasks in the order they are joined, until the last or until
  the budget is spent.\<close>

datatype cleanup = CleanedUp | CleanupFailed guild_id registry_error | CleanupPanicked rstring | BudgetSpent

definition first_error :: "registry_error option \<Rightarrow> registry_error \<Rightarrow> registry_error option" where
  "first_error current e = (case current of None \<Rightarrow> Some e | Some e' \<Rightarrow> Some e')"

fun shutdown_loop :: "registry_error option \<Rightarrow> cleanup list \<Rightarrow> registry_error option" where
  "shutdown_loop found [] = found"
| "shutdown_loop found (CleanedUp # cs) = shutdown_loop found cs"
| "shutdown_loop found (CleanupFailed g e # cs) =
     shutdown_loop (first_error found
       (ShutdownError (str ''guild '' @ snowflake_display (guild_get g) @ str '': '' @ registry_error_display e))) cs"
| "shutdown_loop found (CleanupPanicked e # cs) =
     shutdown_loop (first_error found (ShutdownError (str ''cleanup task failed: '' @ e))) cs"
| "shutdown_loop found (BudgetSpent # cs) =
     first_error found (ShutdownError (str ''player cleanup exceeded the process shutdown budget''))"

definition shutdown_all_result :: "cleanup list \<Rightarrow> registry_error + unit" where
  "shutdown_all_result cs = (case shutdown_loop None cs of None \<Rightarrow> Inr () | Some e \<Rightarrow> Inl e)"

section \<open>Exclusion\<close>

definition active :: "registry_task \<Rightarrow> bool" where
  "active t \<longleftrightarrow> rt_phase t \<noteq> Waiting"

definition locks_inv :: "player_registry \<Rightarrow> bool" where
  "locks_inv s \<longleftrightarrow>
     (\<forall>i t. rg_tasks s i = Some t \<longrightarrow> rg_locks s (rt_guild t) = Some (rt_lock t)) \<and>
     (\<forall>g l. rg_locks s g = Some l \<longrightarrow> l < rg_next_lock s) \<and>
     (\<forall>g h l. rg_locks s g = Some l \<longrightarrow> rg_locks s h = Some l \<longrightarrow> g = h) \<and>
     (\<forall>i t. rg_tasks s i = Some t \<longrightarrow> active t \<longrightarrow> rt_lock t \<in> rg_locked s) \<and>
     (\<forall>i j t u. rg_tasks s i = Some t \<longrightarrow> rg_tasks s j = Some u \<longrightarrow> active t \<longrightarrow> active u \<longrightarrow> rt_lock t = rt_lock u \<longrightarrow> i = j)"

lemma same_guild_same_lock:
  assumes "locks_inv s" and "rg_tasks s i = Some t" and "rg_tasks s j = Some u"
  shows "rt_lock t = rt_lock u \<longleftrightarrow> rt_guild t = rt_guild u"
  using assms unfolding locks_inv_def by (metis option.inject)

lemma active_unique:
  assumes "locks_inv s" and "rg_tasks s i = Some t" and "rg_tasks s j = Some u" and "active t" and "active u"
    and "rt_guild t = rt_guild u"
  shows "i = j"
  using assms same_guild_same_lock [OF assms(1-3)] unfolding locks_inv_def by blast

lemma locks_inv_cong:
  assumes "locks_inv s" and "rg_tasks s' = rg_tasks s" and "rg_locks s' = rg_locks s" and "rg_locked s' = rg_locked s"
    and "rg_next_lock s' = rg_next_lock s"
  shows "locks_inv s'"
  using assms by (simp add: locks_inv_def)

lemma locks_move_on:
  assumes "locks_inv s" and "rg_tasks s i = Some t" and "active t" and "phase \<noteq> Waiting"
  shows "locks_inv (move_on i t phase s)"
proof -
  let ?t = "t\<lparr>rt_phase := phase\<rparr>"
  have "rg_tasks (move_on i t phase s) j = Some u \<longleftrightarrow> (if j = i then u = ?t else rg_tasks s j = Some u)" for j u
    by (auto simp: move_on_def)
  then show ?thesis using assms
    by (simp add: locks_inv_def move_on_def active_def split: if_split) (metis (no_types, lifting) option.inject)
qed

lemma locks_finish:
  assumes "locks_inv s" and "rg_tasks s i = Some t" and "active t"
  shows "locks_inv (finish_task i t r s)"
proof -
  have "rt_lock u \<noteq> rt_lock t" if "rg_tasks s j = Some u" "active u" "j \<noteq> i" for j u
    using assms that unfolding locks_inv_def by blast
  then show ?thesis using assms by (auto simp: locks_inv_def finish_task_def split: if_split_asm)
qed

lemma locks_acquire:
  assumes "locks_inv s" and "rg_tasks s i = Some t"
  shows "locks_inv (acquire_lock i t s)"
proof (cases "rt_phase t = Waiting \<and> rt_lock t \<notin> rg_locked s")
  case True
  then have "rt_lock u \<noteq> rt_lock t" if "rg_tasks s j = Some u" "active u" for j u
    using assms(1) that unfolding locks_inv_def by metis
  then show ?thesis using assms True
    by (auto simp: locks_inv_def acquire_lock_def move_on_def active_def split: if_split_asm)
next
  case False
  then have "acquire_lock i t s = s" by (auto simp: acquire_lock_def)
  then show ?thesis using assms by simp
qed

lemma locks_new_task:
  assumes "locks_inv s" and "rg_tasks s i = None" and "rg_locks s' g = Some l"
    and tasks: "rg_tasks s' = (rg_tasks s)(i \<mapsto> \<lparr>rt_guild = g, rt_lock = l, rt_wish = w, rt_phase = Waiting\<rparr>)"
    and locked: "rg_locked s' = rg_locked s"
    and kept: "\<And>j t. rg_tasks s j = Some t \<Longrightarrow> rg_locks s' (rt_guild t) = Some (rt_lock t)"
    and bound: "\<And>h l. rg_locks s' h = Some l \<Longrightarrow> l < rg_next_lock s'"
    and injective: "\<And>h h' l. rg_locks s' h = Some l \<Longrightarrow> rg_locks s' h' = Some l \<Longrightarrow> h = h'"
  shows "locks_inv s'"
  unfolding locks_inv_def
proof (intro conjI allI impI)
  fix j t assume "rg_tasks s' j = Some t"
  then show "rg_locks s' (rt_guild t) = Some (rt_lock t)" using kept assms(3) by (auto simp: tasks split: if_split_asm)
next
  fix j t assume "rg_tasks s' j = Some t" "active t"
  then show "rt_lock t \<in> rg_locked s'"
    using assms(1) unfolding locks_inv_def by (auto simp: tasks locked active_def split: if_split_asm)
next
  fix j k t u assume *: "rg_tasks s' j = Some t" "rg_tasks s' k = Some u" "active t" "active u" "rt_lock t = rt_lock u"
  then have "rg_tasks s j = Some t" "rg_tasks s k = Some u" by (auto simp: tasks active_def split: if_split_asm)
  then show "j = k" using *(3-5) assms(1) unfolding locks_inv_def by blast
qed (fact bound, fact injective)

lemma locks_begin:
  assumes "locks_inv s"
  shows "locks_inv (begin_task i g w s)"
proof (cases "rg_tasks s i = None")
  case True
  define keep where "keep = (\<lambda>g. case rg_locks s g of None \<Rightarrow> None | Some l \<Rightarrow> if strong s l then Some l else None)"
  let ?n = "rg_next_lock s"
  have kept: "keep (rt_guild t) = Some (rt_lock t)" if "rg_tasks s j = Some t" for j t
    using assms that by (auto simp: keep_def locks_inv_def strong_def)
  have sub: "rg_locks s h = Some l" if "keep h = Some l" for h l
    using that by (auto simp: keep_def split: option.split_asm if_split_asm)
  have bound: "l < ?n" if "keep h = Some l" for h l using sub [OF that] assms unfolding locks_inv_def by blast
  have injective: "h = h'" if "keep h = Some l" "keep h' = Some l" for h h' l
    using sub [OF that(1)] sub [OF that(2)] assms unfolding locks_inv_def by blast
  show ?thesis
  proof (cases "keep g")
    case None
    have s': "begin_task i g w s = s\<lparr>rg_locks := keep(g \<mapsto> ?n), rg_next_lock := ?n + 1,
        rg_tasks := (rg_tasks s)(i \<mapsto> \<lparr>rt_guild = g, rt_lock = ?n, rt_wish = w, rt_phase = Waiting\<rparr>)\<rparr>"
      using True None by (simp add: begin_task_def operation_lock_def Let_def keep_def [symmetric])
    have one: "(keep(g \<mapsto> ?n)) (rt_guild t) = Some (rt_lock t)" if "rg_tasks s j = Some t" for j t
      using kept [OF that] None by auto
    have two: "l < ?n + 1" if "(keep(g \<mapsto> ?n)) h = Some l" for h l
      using that bound [of h l] by (simp split: if_split_asm)
    have three: "h = h'" if "(keep(g \<mapsto> ?n)) h = Some l" "(keep(g \<mapsto> ?n)) h' = Some l" for h h' l
      using that bound [of h l] bound [of h' l] injective [of h l h'] by (simp split: if_split_asm)
    show ?thesis unfolding s'
      by (rule locks_new_task [OF assms True, where l = ?n and g = g and w = w]) 
        (simp, simp, simp, simp del: fun_upd_apply, erule one, simp del: fun_upd_apply,
          drule two, simp,
          simp del: fun_upd_apply, erule (1) three)
  next
    case (Some l)
    have s': "begin_task i g w s = s\<lparr>rg_locks := keep,
        rg_tasks := (rg_tasks s)(i \<mapsto> \<lparr>rt_guild = g, rt_lock = l, rt_wish = w, rt_phase = Waiting\<rparr>)\<rparr>"
      using True Some by (simp add: begin_task_def operation_lock_def Let_def keep_def [symmetric])
    show ?thesis unfolding s'
      by (rule locks_new_task [OF assms True, where l = l and g = g and w = w]) 
        (simp add: Some, simp, simp, simp, erule kept, simp, erule bound, simp, erule (1) injective)
  qed
qed (use assms in \<open>simp add: begin_task_def\<close>)

section \<open>One live player per guild\<close>

fun phase_ok :: "player_registry \<Rightarrow> guild_id \<Rightarrow> task_phase \<Rightarrow> bool" where
  "phase_ok s g (Probing h) \<longleftrightarrow> rg_actors s h = Some g \<and> (rg_players s g = Some h \<or> rg_players s g = None)"
| "phase_ok s g Clearing \<longleftrightarrow> (\<forall>h. rg_players s g = Some h \<longrightarrow> h \<notin> rg_live s)"
| "phase_ok s g Creating \<longleftrightarrow> rg_players s g = None"
| "phase_ok s g (Inserting h) \<longleftrightarrow> rg_players s g = None \<and> rg_actors s h = Some g"
| "phase_ok s g (Stopping h) \<longleftrightarrow> rg_players s g = None \<and> rg_actors s h = Some g"
| "phase_ok s g (Restoring h e) \<longleftrightarrow> rg_players s g = None \<and> rg_actors s h = Some g"
| "phase_ok s g _ \<longleftrightarrow> True"

fun carries :: "task_phase \<Rightarrow> nat \<Rightarrow> bool" where
  "carries (Inserting h) h' \<longleftrightarrow> h = h'"
| "carries (Stopping h) h' \<longleftrightarrow> h = h'"
| "carries (Restoring h e) h' \<longleftrightarrow> h = h'"
| "carries _ h' \<longleftrightarrow> False"

definition players_inv :: "player_registry \<Rightarrow> bool" where
  "players_inv s \<longleftrightarrow>
     (\<forall>h \<in> rg_live s. rg_actors s h \<noteq> None) \<and>
     (\<forall>h g. rg_actors s h = Some g \<longrightarrow> h < rg_next_actor s) \<and>
     (\<forall>g h. rg_players s g = Some h \<longrightarrow> rg_actors s h = Some g) \<and>
     (\<forall>i t. rg_tasks s i = Some t \<longrightarrow> phase_ok s (rt_guild t) (rt_phase t)) \<and>
     (\<forall>h g. h \<in> rg_live s \<longrightarrow> h \<notin> rg_drained s \<longrightarrow> rg_actors s h = Some g \<longrightarrow>
        rg_players s g = Some h \<or> (\<exists>i t. rg_tasks s i = Some t \<and> rt_guild t = g \<and> carries (rt_phase t) h))"

lemma players_invD:
  assumes "players_inv s"
  shows "h \<in> rg_live s \<Longrightarrow> rg_actors s h \<noteq> None" and "rg_actors s h = Some g \<Longrightarrow> h < rg_next_actor s"
    and "rg_players s g = Some h \<Longrightarrow> rg_actors s h = Some g"
    and "rg_tasks s i = Some t \<Longrightarrow> phase_ok s (rt_guild t) (rt_phase t)"
    and "h \<in> rg_live s \<Longrightarrow> h \<notin> rg_drained s \<Longrightarrow> rg_actors s h = Some g \<Longrightarrow>
        rg_players s g = Some h \<or> (\<exists>i t. rg_tasks s i = Some t \<and> rt_guild t = g \<and> carries (rt_phase t) h)"
  using assms unfolding players_inv_def by blast+

text \<open>A task that changes what the registry knows of its guild is the only active one there.\<close>

lemma others_phase_ok:
  assumes "locks_inv s" and "players_inv s" and "rg_tasks s i = Some t" and "active t"
    and "rg_tasks s j = Some u" and "j \<noteq> i"
    and "\<And>g. g \<noteq> rt_guild t \<Longrightarrow> rg_players s' g = rg_players s g"
    and "\<And>h g. rg_actors s h = Some g \<Longrightarrow> rg_actors s' h = Some g"
    and "\<And>h. h \<in> rg_live s' \<Longrightarrow> h \<in> rg_live s \<or> rg_actors s h = None"
  shows "phase_ok s' (rt_guild u) (rt_phase u)"
proof (cases "active u")
  case True
  then have "rt_guild u \<noteq> rt_guild t" using active_unique [OF assms(1,3,5,4)] assms(6) by metis
  then have same: "rg_players s' (rt_guild u) = rg_players s (rt_guild u)" by (rule assms(7))
  have "h \<notin> rg_live s'" if "rg_players s (rt_guild u) = Some h" "h \<notin> rg_live s" for h
    using assms(9) [of h] players_invD(3) [OF assms(2) that(1)] that(2) by auto
  then show ?thesis using players_invD(4) [OF assms(2,5)] same assms(8)
    by (cases "rt_phase u") auto
qed (simp add: active_def)

lemma players_moved:
  assumes "locks_inv s" and "players_inv s" and "rg_tasks s i = Some t" and "active t"
    and tasks: "\<And>j. j \<noteq> i \<Longrightarrow> rg_tasks s' j = rg_tasks s j"
    and self: "\<And>u. rg_tasks s' i = Some u \<Longrightarrow> rt_guild u = rt_guild t \<and> phase_ok s' (rt_guild t) (rt_phase u)"
    and players: "\<And>g. g \<noteq> rt_guild t \<Longrightarrow> rg_players s' g = rg_players s g"
      "\<And>h. rg_players s' (rt_guild t) = Some h \<Longrightarrow> rg_actors s' h = Some (rt_guild t)"
    and actors: "\<And>h g. rg_actors s h = Some g \<Longrightarrow> rg_actors s' h = Some g"
      "\<And>h g. rg_actors s' h = Some g \<Longrightarrow> h < rg_next_actor s'"
    and live: "\<And>h. h \<in> rg_live s' \<Longrightarrow> h \<in> rg_live s \<or> rg_actors s h = None \<and> rg_actors s' h = Some (rt_guild t)"
    and drained: "rg_drained s' = rg_drained s"
    and placed: "\<And>h. h \<in> rg_live s' \<Longrightarrow> rg_actors s' h = Some (rt_guild t) \<Longrightarrow>
      h \<in> rg_live s \<longrightarrow> h \<notin> rg_drained s \<longrightarrow> rg_players s (rt_guild t) = Some h \<or> carries (rt_phase t) h \<Longrightarrow>
      h \<notin> rg_drained s \<Longrightarrow> rg_players s' (rt_guild t) = Some h \<or> (\<exists>u. rg_tasks s' i = Some u \<and> carries (rt_phase u) h)"
  shows "players_inv s'"
  unfolding players_inv_def
proof (intro conjI ballI allI impI)
  fix h assume "h \<in> rg_live s'"
  then show "rg_actors s' h \<noteq> None" using live [of h] players_invD(1) [OF assms(2), of h] actors(1) by (metis option.collapse option.discI)
next
  fix h g assume "rg_actors s' h = Some g"
  then show "h < rg_next_actor s'" by (rule actors(2))
next
  fix g h assume *: "rg_players s' g = Some h"
  show "rg_actors s' h = Some g"
  proof (cases "g = rt_guild t")
    case True then show ?thesis using players(2) * by simp
  next
    case False then show ?thesis using players(1) [OF False] * players_invD(3) [OF assms(2)] actors(1) by simp
  qed
next
  fix j u assume *: "rg_tasks s' j = Some u"
  show "phase_ok s' (rt_guild u) (rt_phase u)"
  proof (cases "j = i")
    case True then show ?thesis using self * by simp
  next
    case False
    then have "rg_tasks s j = Some u" using tasks * by simp
    then show ?thesis
      by (rule others_phase_ok [OF assms(1-4) _ False]) (metis players(1), metis actors(1), metis live)
  qed
next
  fix h g assume *: "h \<in> rg_live s'" "h \<notin> rg_drained s'" "rg_actors s' h = Some g"
  show "rg_players s' g = Some h \<or> (\<exists>j u. rg_tasks s' j = Some u \<and> rt_guild u = g \<and> carries (rt_phase u) h)"
  proof (cases "g = rt_guild t")
    case True
    have "rg_players s (rt_guild t) = Some h \<or> carries (rt_phase t) h" if was: "h \<in> rg_live s" "h \<notin> rg_drained s"
    proof -
      obtain g' where "rg_actors s h = Some g'" using players_invD(1) [OF assms(2) was(1)] by blast
      then have "rg_actors s h = Some (rt_guild t)" using actors(1) *(3) True by fastforce
      from players_invD(5) [OF assms(2) was this] show ?thesis
      proof
        assume "\<exists>j u. rg_tasks s j = Some u \<and> rt_guild u = rt_guild t \<and> carries (rt_phase u) h"
        then obtain j u where u: "rg_tasks s j = Some u" "rt_guild u = rt_guild t" "carries (rt_phase u) h" by blast
        then have "active u" by (cases "rt_phase u") (auto simp: active_def)
        then have "j = i" using active_unique [OF assms(1) u(1) assms(3) _ assms(4)] u(2) by simp
        then show ?thesis using u assms(3) by simp
      qed simp
    qed
    then have "rg_players s' (rt_guild t) = Some h \<or> (\<exists>u. rg_tasks s' i = Some u \<and> carries (rt_phase u) h)"
      by (intro placed) (use * True drained in simp_all)
    then show ?thesis using self True by blast
  next
    case False
    then have was: "h \<in> rg_live s" using live [OF *(1)] *(3) by auto
    then obtain g' where "rg_actors s h = Some g'" using players_invD(1) [OF assms(2)] by blast
    then have "rg_actors s h = Some g" using actors(1) *(3) by fastforce
    from players_invD(5) [OF assms(2) was _ this] *(2) drained
    have "rg_players s g = Some h \<or> (\<exists>j u. rg_tasks s j = Some u \<and> rt_guild u = g \<and> carries (rt_phase u) h)" by simp
    then show ?thesis
    proof
      assume "\<exists>j u. rg_tasks s j = Some u \<and> rt_guild u = g \<and> carries (rt_phase u) h"
      then obtain j u where u: "rg_tasks s j = Some u" "rt_guild u = g" "carries (rt_phase u) h" by blast
      then have "j \<noteq> i" using False assms(3) by auto
      then have "rg_tasks s' j = Some u" using tasks u(1) by simp
      then show ?thesis using u by blast
    qed (use players(1) [OF False] in simp)
  qed
qed

definition registry_inv :: "player_registry \<Rightarrow> bool" where
  "registry_inv s \<longleftrightarrow> locks_inv s \<and> players_inv s"

text \<open>A task that waits, or has just got the lock, has done nothing yet.\<close>

lemma players_waiting:
  assumes "players_inv s" and "rg_players s' = rg_players s" and "rg_actors s' = rg_actors s" and "rg_live s' = rg_live s"
    and "rg_drained s' = rg_drained s" and "rg_next_actor s' = rg_next_actor s"
    and tasks: "rg_tasks s' = (rg_tasks s)(i \<mapsto> u)" and "rt_phase u = Waiting \<or> rt_phase u = Looking"
    and "\<And>t. rg_tasks s i = Some t \<Longrightarrow> \<not> active t"
  shows "players_inv s'"
proof -
  have phases: "phase_ok s' g p = phase_ok s g p" for g p by (cases p) (simp_all add: assms(2-4))
  have "phase_ok s (rt_guild v) (rt_phase v)" if "rg_tasks s' j = Some v" for j v
    using that assms(8) players_invD(4) [OF assms(1)] by (auto simp: tasks split: if_split_asm)
  note phase = this
  have carried: "\<exists>j v. rg_tasks s' j = Some v \<and> rt_guild v = g \<and> carries (rt_phase v) h"
    if "rg_tasks s j = Some v" "rt_guild v = g" "carries (rt_phase v) h" for j v g h
  proof -
    have "active v" using that(3) by (cases "rt_phase v") (auto simp: active_def)
    then have "j \<noteq> i" using that(1) assms(9) by auto
    then show ?thesis using that by (auto simp: tasks)
  qed
  show ?thesis
    unfolding players_inv_def assms(2-6) phases
  proof (intro conjI ballI allI impI)
    fix h g assume *: "h \<in> rg_live s" "h \<notin> rg_drained s" "rg_actors s h = Some g"
    from players_invD(5) [OF assms(1) *]
    show "rg_players s g = Some h \<or> (\<exists>j v. rg_tasks s' j = Some v \<and> rt_guild v = g \<and> carries (rt_phase v) h)"
      using carried by blast
  next
    fix h assume "h \<in> rg_live s"
    then show "rg_actors s h \<noteq> None" by (rule players_invD(1) [OF assms(1)])
  next
    fix h g assume "rg_actors s h = Some g"
    then show "h < rg_next_actor s" by (rule players_invD(2) [OF assms(1)])
  next
    fix h g assume "rg_players s g = Some h"
    then show "rg_actors s h = Some g" by (rule players_invD(3) [OF assms(1)])
  next
    fix j v assume "rg_tasks s' j = Some v"
    then show "phase_ok s (rt_guild v) (rt_phase v)" by (rule phase)
  qed
qed

lemma inv_acquire:
  assumes "registry_inv s" and "rg_tasks s i = Some t"
  shows "registry_inv (acquire_lock i t s)"
proof (cases "rt_phase t = Waiting \<and> rt_lock t \<notin> rg_locked s")
  case True
  have "players_inv (acquire_lock i t s)"
    by (rule players_waiting [where i = i and u = "t\<lparr>rt_phase := Looking\<rparr>" and s = s])
      (use True assms in \<open>auto simp: registry_inv_def acquire_lock_def move_on_def active_def\<close>)
  then show ?thesis using assms locks_acquire unfolding registry_inv_def by blast
next
  case False
  then have "acquire_lock i t s = s" by (auto simp: acquire_lock_def)
  then show ?thesis using assms by simp
qed

lemma inv_begin:
  assumes "registry_inv s"
  shows "registry_inv (begin_task i g w s)"
proof (cases "rg_tasks s i = None")
  case True
  obtain l s1 where lock: "operation_lock g s = (l, s1)" by (rule prod.exhaust)
  then have same: "rg_players s1 = rg_players s" "rg_actors s1 = rg_actors s" "rg_live s1 = rg_live s"
    "rg_drained s1 = rg_drained s" "rg_next_actor s1 = rg_next_actor s" "rg_tasks s1 = rg_tasks s"
    by (auto simp: operation_lock_def Let_def split: option.split_asm)
  have "players_inv (begin_task i g w s)"
    by (rule players_waiting [where i = i and u = "\<lparr>rt_guild = g, rt_lock = l, rt_wish = w, rt_phase = Waiting\<rparr>" and s = s])
      (use assms True in \<open>simp_all add: registry_inv_def begin_task_def lock same\<close>)
  then show ?thesis using assms locks_begin unfolding registry_inv_def by blast
qed (use assms in \<open>simp add: begin_task_def\<close>)

text \<open>An active task moves on or finishes.\<close>

lemma inv_move_on:
  assumes "registry_inv s" and "rg_tasks s i = Some t" and "active t" and "phase \<noteq> Waiting"
    and "rg_tasks s' = (rg_tasks s)(i \<mapsto> t\<lparr>rt_phase := phase\<rparr>)" and "rg_locks s' = rg_locks s" and "rg_locked s' = rg_locked s"
    and "rg_next_lock s' = rg_next_lock s"
    and "players_inv s'"
  shows "registry_inv s'"
proof -
  have "locks_inv s'"
    by (rule locks_inv_cong [OF locks_move_on [OF _ assms(2-4)]])
      (use assms(1) in \<open>simp_all add: registry_inv_def assms(5-8) move_on_def\<close>)
  then show ?thesis using assms(9) by (simp add: registry_inv_def)
qed

lemma inv_look_up:
  assumes "registry_inv s" and "rg_tasks s i = Some t"
  shows "registry_inv (look_up i t s)"
proof (cases "rt_phase t = Looking")
  case True
  have inv: "locks_inv s" "players_inv s" using assms(1) by (simp_all add: registry_inv_def)
  have act: "active t" using True by (simp add: active_def)
  note moved = players_moved [OF inv assms(2) act]
  show ?thesis
  proof (cases "rt_wish t")
    case GetOrCreate
    show ?thesis
    proof (cases "rg_players s (rt_guild t)")
      case None
      then have s': "look_up i t s = move_on i t Clearing s" using True GetOrCreate by (simp add: look_up_def)
      show ?thesis unfolding s'
        by (rule inv_move_on [OF assms(1,2) act, where phase = Clearing], simp_all add: move_on_def)
          (rule moved, use None players_invD [OF inv(2)] True in \<open>auto simp: move_on_def\<close>)
    next
      case (Some h)
      then have s': "look_up i t s = move_on i t (Probing h) s" using True GetOrCreate by (simp add: look_up_def)
      show ?thesis unfolding s'
        by (rule inv_move_on [OF assms(1,2) act, where phase = "Probing h"], simp_all add: move_on_def)
          (rule moved, use Some players_invD [OF inv(2)] True in \<open>auto simp: move_on_def\<close>)
    qed
  next
    case RemoveAndShutdown
    show ?thesis
    proof (cases "rg_players s (rt_guild t)")
      case None
      then have s': "look_up i t s = finish_task i t (Removed False) s" using True RemoveAndShutdown by (simp add: look_up_def)
      have "players_inv (finish_task i t (Removed False) s)"
        by (rule moved) (use None players_invD [OF inv(2)] True in \<open>auto simp: finish_task_def\<close>)
      then show ?thesis unfolding s' registry_inv_def using locks_finish [OF inv(1) assms(2) act] by blast
    next
      case (Some h)
      then have s': "look_up i t s = (move_on i t (Stopping h) s)\<lparr>rg_players := (rg_players s)(rt_guild t := None)\<rparr>"
        using True RemoveAndShutdown by (simp add: look_up_def)
      show ?thesis unfolding s'
        by (rule inv_move_on [OF assms(1,2) act, where phase = "Stopping h"], simp_all add: move_on_def)
          (rule moved, use Some players_invD [OF inv(2)] True in \<open>auto simp: move_on_def\<close>)
    qed
  qed
qed (use assms in \<open>simp add: look_up_def\<close>)

lemma inv_finish:
  assumes "registry_inv s" and "rg_tasks s i = Some t" and "active t"
    and "players_inv (finish_task i t r s')"
    and "rg_tasks s' = rg_tasks s" and "rg_locks s' = rg_locks s" and "rg_locked s' = rg_locked s" and "rg_next_lock s' = rg_next_lock s"
  shows "registry_inv (finish_task i t r s')"
proof -
  have "locks_inv s'" by (rule locks_inv_cong [OF _ assms(5-8)]) (use assms(1) in \<open>simp add: registry_inv_def\<close>)
  then have "locks_inv (finish_task i t r s')" by (rule locks_finish) (use assms(2,3,5) in simp_all)
  then show ?thesis using assms(4) by (simp add: registry_inv_def)
qed

lemma inv_probed:
  assumes "registry_inv s" and "rg_tasks s i = Some t"
  shows "registry_inv (probed i t answer s)"
proof (cases "\<exists>h. rt_phase t = Probing h \<and> \<not> (answer = HealthStopped \<and> h \<in> rg_live s)")
  case True
  then obtain h where h: "rt_phase t = Probing h" "\<not> (answer = HealthStopped \<and> h \<in> rg_live s)" by blast
  have inv: "locks_inv s" "players_inv s" using assms(1) by (simp_all add: registry_inv_def)
  have act: "active t" using h by (simp add: active_def)
  note moved = players_moved [OF inv assms(2) act]
  have here: "phase_ok s (rt_guild t) (Probing h)" using players_invD(4) [OF inv(2) assms(2)] h(1) by simp
  have finished: "registry_inv (finish_task i t r s)" for r
    by (rule inv_finish [OF assms act], rule moved) (use players_invD [OF inv(2)] h in \<open>auto simp: finish_task_def\<close>)
  show ?thesis
  proof (cases answer)
    case HealthStopped
    then have s': "probed i t answer s = move_on i t Clearing s" using h by (simp add: probed_def live_player_def)
    show ?thesis unfolding s'
      by (rule inv_move_on [OF assms act, where phase = Clearing], simp_all add: move_on_def)
        (rule moved, use players_invD [OF inv(2)] h here HealthStopped in \<open>auto simp: move_on_def\<close>)
  qed (use h finished in \<open>simp_all add: probed_def live_player_def\<close>)
next
  case False
  then have "probed i t answer s = s" by (auto simp: probed_def split: task_phase.split)
  then show ?thesis using assms by simp
qed

lemma inv_clear_entry:
  assumes "registry_inv s" and "rg_tasks s i = Some t"
  shows "registry_inv (clear_entry i t s)"
proof (cases "rt_phase t = Clearing")
  case True
  have inv: "locks_inv s" "players_inv s" using assms(1) by (simp_all add: registry_inv_def)
  have act: "active t" using True by (simp add: active_def)
  have here: "phase_ok s (rt_guild t) Clearing" using players_invD(4) [OF inv(2) assms(2)] True by simp
  have s': "clear_entry i t s = (move_on i t Creating s)\<lparr>rg_players := (rg_players s)(rt_guild t := None)\<rparr>"
    using True by (simp add: clear_entry_def)
  show ?thesis unfolding s'
    by (rule inv_move_on [OF assms act, where phase = Creating], simp_all add: move_on_def)
      (rule players_moved [OF inv assms(2) act], use players_invD [OF inv(2)] True here in \<open>auto simp: move_on_def\<close>)
qed (use assms in \<open>simp add: clear_entry_def\<close>)

lemma inv_created:
  assumes "registry_inv s" and "rg_tasks s i = Some t"
  shows "registry_inv (created i t answer s)"
proof (cases "rt_phase t = Creating")
  case True
  have inv: "locks_inv s" "players_inv s" using assms(1) by (simp_all add: registry_inv_def)
  have act: "active t" using True by (simp add: active_def)
  note moved = players_moved [OF inv assms(2) act]
  have here: "rg_players s (rt_guild t) = None" using players_invD(4) [OF inv(2) assms(2)] True by simp
  have new: "rg_actors s (rg_next_actor s) = None" using players_invD(2) [OF inv(2), of "rg_next_actor s"] by fastforce
  show ?thesis
  proof (cases answer)
    case (Inl e)
    have "registry_inv (finish_task i t (TaskFailed e) s)"
      by (rule inv_finish [OF assms act], rule moved) (use players_invD [OF inv(2)] True in \<open>auto simp: finish_task_def\<close>)
    then show ?thesis using True Inl by (simp add: created_def)
  next
    case (Inr u)
    let ?s = "(move_on i t (Inserting (rg_next_actor s)) s)\<lparr>rg_actors := (rg_actors s)(rg_next_actor s \<mapsto> rt_guild t),
        rg_live := insert (rg_next_actor s) (rg_live s), rg_next_actor := rg_next_actor s + 1\<rparr>"
    have "players_inv ?s"
    proof (rule moved)
      fix h g assume "rg_actors ?s h = Some g"
      then show "h < rg_next_actor ?s" using players_invD(2) [OF inv(2), of h g] by (auto split: if_split_asm)
    qed (use players_invD(3) [OF inv(2)] True here new in \<open>auto simp: move_on_def\<close>)
    then have "registry_inv ?s"
      by (intro inv_move_on [OF assms act, where phase = "Inserting (rg_next_actor s)"]) (simp_all add: move_on_def)
    then show ?thesis using True Inr by (simp add: created_def)
  qed
qed (use assms in \<open>simp add: created_def\<close>)

lemma inv_insert:
  assumes "registry_inv s" and "rg_tasks s i = Some t"
  shows "registry_inv (insert_player i t s)"
proof (cases "\<exists>h. rt_phase t = Inserting h")
  case True
  then obtain h where h: "rt_phase t = Inserting h" by blast
  have inv: "locks_inv s" "players_inv s" using assms(1) by (simp_all add: registry_inv_def)
  have act: "active t" using h by (simp add: active_def)
  have here: "rg_players s (rt_guild t) = None" "rg_actors s h = Some (rt_guild t)"
    using players_invD(4) [OF inv(2) assms(2)] h by simp_all
  let ?s = "s\<lparr>rg_players := (rg_players s)(rt_guild t \<mapsto> h)\<rparr>"
  have "registry_inv (finish_task i t (GotPlayer h) ?s)"
    by (rule inv_finish [OF assms act], rule players_moved [OF inv assms(2) act])
      (use players_invD(2,3) [OF inv(2)] h here in \<open>auto simp: finish_task_def\<close>)
  then show ?thesis using h by (simp add: insert_player_def)
next
  case False
  then have "insert_player i t s = s" by (auto simp: insert_player_def split: task_phase.split)
  then show ?thesis using assms by simp
qed

lemma inv_stopped:
  assumes "registry_inv s" and "rg_tasks s i = Some t"
  shows "registry_inv (stopped i t answer s)"
proof (cases "\<exists>h. rt_phase t = Stopping h")
  case True
  then obtain h where h: "rt_phase t = Stopping h" by blast
  have inv: "locks_inv s" "players_inv s" using assms(1) by (simp_all add: registry_inv_def)
  have act: "active t" using h by (simp add: active_def)
  note moved = players_moved [OF inv assms(2) act]
  have here: "rg_players s (rt_guild t) = None" "rg_actors s h = Some (rt_guild t)"
    using players_invD(4) [OF inv(2) assms(2)] h by simp_all
  show ?thesis
  proof (cases "shutdown_player answer")
    case (Inr u)
    let ?s = "s\<lparr>rg_live := rg_live s - {h}\<rparr>"
    have "registry_inv (finish_task i t (Removed True) ?s)"
      by (rule inv_finish [OF assms act], rule moved)
        (use players_invD(2,3) [OF inv(2)] h here in \<open>auto simp: finish_task_def\<close>)
    then show ?thesis using h Inr by (simp add: stopped_def)
  next
    case (Inl e)
    then have s': "stopped i t answer s = move_on i t (Restoring h e) s" using h by (simp add: stopped_def)
    show ?thesis unfolding s'
      by (rule inv_move_on [OF assms act, where phase = "Restoring h e"], simp_all add: move_on_def)
        (rule moved, use players_invD(2,3) [OF inv(2)] h here in \<open>auto simp: move_on_def\<close>)
  qed
next
  case False
  then have "stopped i t answer s = s" by (auto simp: stopped_def split: task_phase.split)
  then show ?thesis using assms by simp
qed

lemma inv_restore:
  assumes "registry_inv s" and "rg_tasks s i = Some t"
  shows "registry_inv (restore_player i t s)"
proof (cases "\<exists>h e. rt_phase t = Restoring h e")
  case True
  then obtain h e where h: "rt_phase t = Restoring h e" by blast
  have inv: "locks_inv s" "players_inv s" using assms(1) by (simp_all add: registry_inv_def)
  have act: "active t" using h by (simp add: active_def)
  have here: "rg_players s (rt_guild t) = None" "rg_actors s h = Some (rt_guild t)"
    using players_invD(4) [OF inv(2) assms(2)] h by simp_all
  let ?s = "s\<lparr>rg_players := (rg_players s)(rt_guild t \<mapsto> h)\<rparr>"
  have "registry_inv (finish_task i t (TaskFailed e) ?s)"
    by (rule inv_finish [OF assms act], rule players_moved [OF inv assms(2) act])
      (use players_invD(2,3) [OF inv(2)] h here in \<open>auto simp: finish_task_def\<close>)
  then show ?thesis using h by (simp add: restore_player_def)
next
  case False
  then have "restore_player i t s = s" by (auto simp: restore_player_def split: task_phase.split)
  then show ?thesis using assms by simp
qed

lemma inv_environment:
  assumes "registry_inv s"
  shows "registry_inv (s\<lparr>rg_live := rg_live s - {h}\<rparr>)" and "registry_inv (drain_players s)"
proof -
  have inv: "locks_inv s" "players_inv s" using assms by (simp_all add: registry_inv_def)
  have "phase_ok (s\<lparr>rg_live := rg_live s - {h}\<rparr>) g p" if "phase_ok s g p" for g p using that by (cases p) auto
  then have "players_inv (s\<lparr>rg_live := rg_live s - {h}\<rparr>)"
    using inv(2) by (simp add: players_inv_def)
  moreover have "locks_inv (s\<lparr>rg_live := rg_live s - {h}\<rparr>)" by (rule locks_inv_cong [OF inv(1)]) simp_all
  ultimately show "registry_inv (s\<lparr>rg_live := rg_live s - {h}\<rparr>)" by (simp add: registry_inv_def)
  have "phase_ok (drain_players s) g p" if "phase_ok s g p" for g p
    using that by (cases p) (auto simp: drain_players_def)
  then have "players_inv (drain_players s)"
    using inv(2) by (auto simp: players_inv_def drain_players_def ran_def)
  moreover have "locks_inv (drain_players s)" by (rule locks_inv_cong [OF inv(1)]) (simp_all add: drain_players_def)
  ultimately show "registry_inv (drain_players s)" by (simp add: registry_inv_def)
qed

lemmas registry_ops = inv_acquire inv_look_up inv_probed inv_clear_entry inv_created inv_insert inv_stopped inv_restore

lemma registry_step_inv: "registry_inv s \<Longrightarrow> registry_inv (registry_step e s)"
  by (cases e) (auto simp: on_task_def inv_begin inv_environment registry_ops split: option.split)

lemma registry_new_inv: "registry_inv registry_new"
  by (simp add: registry_inv_def locks_inv_def players_inv_def registry_new_def)

interpretation registry_machine: invariant_machine "\<lambda>s. s = registry_new" "\<lambda>s t. \<exists>e. t = registry_step e s" registry_inv
  by unfold_locales (auto simp: registry_new_inv registry_step_inv)

lemma carried_has_no_entry:
  assumes "registry_inv s" and "rg_tasks s i = Some t" and "carries (rt_phase t) h"
  shows "active t" and "rg_players s (rt_guild t) = None"
  using assms(3) players_invD(4) [of s i t] assms(1,2)
  by (cases "rt_phase t"; simp add: registry_inv_def active_def)+

definition registry_run :: "registry_event list \<Rightarrow> player_registry" where
  "registry_run events = fold registry_step events registry_new"

lemma run_reachable: "rtranclp (\<lambda>s t. \<exists>e. t = registry_step e s) registry_new (registry_run events)"
proof (induction events rule: rev_induct)
  case (snoc e events)
  have "registry_run (events @ [e]) = registry_step e (registry_run events)" by (simp add: registry_run_def)
  then show ?case using snoc by (metis (mono_tags, lifting) rtranclp.rtrancl_into_rtrancl)
qed (simp add: registry_run_def)

lemma live_players_placed:
  assumes "rtranclp (\<lambda>s t. \<exists>e. t = registry_step e s) registry_new s"
  shows "\<forall>h h' g. h \<in> rg_live s - rg_drained s \<longrightarrow> h' \<in> rg_live s - rg_drained s \<longrightarrow>
      rg_actors s h = Some g \<longrightarrow> rg_actors s h' = Some g \<longrightarrow> h = h'"
    and "\<forall>h g. h \<in> rg_live s - rg_drained s \<longrightarrow> rg_actors s h = Some g \<longrightarrow>
      rg_players s g = Some h \<or> (\<exists>!i. \<exists>t. rg_tasks s i = Some t \<and> rt_guild t = g \<and> active t)"
proof -
  have inv: "registry_inv s" by (rule registry_machine.reachable_inv [OF refl assms])
  then have parts: "locks_inv s" "players_inv s" by (simp_all add: registry_inv_def)
  have placed: "rg_players s g = Some h \<or>
      rg_players s g = None \<and> (\<exists>i t. rg_tasks s i = Some t \<and> rt_guild t = g \<and> active t \<and> carries (rt_phase t) h)"
    if "h \<in> rg_live s - rg_drained s" "rg_actors s h = Some g" for h g
    using players_invD(5) [OF parts(2)] that carried_has_no_entry [OF inv] by (metis DiffE)
  show "\<forall>h h' g. h \<in> rg_live s - rg_drained s \<longrightarrow> h' \<in> rg_live s - rg_drained s \<longrightarrow>
      rg_actors s h = Some g \<longrightarrow> rg_actors s h' = Some g \<longrightarrow> h = h'"
  proof (intro allI impI)
    fix h h' g
    assume *: "h \<in> rg_live s - rg_drained s" "h' \<in> rg_live s - rg_drained s" "rg_actors s h = Some g" "rg_actors s h' = Some g"
    show "h = h'"
    proof (cases "rg_players s g")
      case None
      obtain i t j u where "rg_tasks s i = Some t" "rt_guild t = g" "active t" "carries (rt_phase t) h"
        "rg_tasks s j = Some u" "rt_guild u = g" "active u" "carries (rt_phase u) h'"
        using placed [OF *(1,3)] placed [OF *(2,4)] None by auto
      moreover from this have "i = j" using active_unique [OF parts(1)] by metis
      ultimately have "carries (rt_phase t) h" "carries (rt_phase t) h'" by auto
      then show ?thesis by (cases "rt_phase t") auto
    qed (use placed [OF *(1,3)] placed [OF *(2,4)] in auto)
  qed
  show "\<forall>h g. h \<in> rg_live s - rg_drained s \<longrightarrow> rg_actors s h = Some g \<longrightarrow>
      rg_players s g = Some h \<or> (\<exists>!i. \<exists>t. rg_tasks s i = Some t \<and> rt_guild t = g \<and> active t)"
    using placed active_unique [OF parts(1)] by metis
qed

text \<open>C33: In every state the registry can reach, by any interleaving of its operations with the deaths of actors,
  no guild has two live players, but for players that a shutdown of the whole registry has taken
  over; and a live player is in the map, or in the hands of the one task that works on its guild, so a failed
  cleanup never loses it.\<close>

theorem one_live_player_per_guild:
  assumes "s = registry_run events" and "h \<in> rg_live s - rg_drained s" and "rg_actors s h = Some g"
  shows "(\<forall>h'. h' \<in> rg_live s - rg_drained s \<and> rg_actors s h' = Some g \<longrightarrow> h' = h) \<and>
    (rg_players s g = Some h \<or> (\<exists>!i. \<exists>t. rg_tasks s i = Some t \<and> rt_guild t = g \<and> active t))"
  using live_players_placed [OF run_reachable [of events]] assms by blast

lemma one_live_player_per_guild_witness:
  "\<exists>s :: player_registry. rg_players s (GuildId 5) = Some 0 \<and> 0 \<in> rg_live s \<and>
     (\<forall>h'. h' \<in> rg_live s - rg_drained s \<and> rg_actors s h' = Some (GuildId 5) \<longrightarrow> h' = 0)"
proof -
  let ?events = "[Begin 7 (GuildId 5) GetOrCreate, AcquireLock 7, LookUp 7, ClearEntry 7, Created 7 (Inr ()), InsertPlayer 7]"
  let ?s = "registry_run ?events"
  let ?t = "\<lambda>phase. \<lparr>rt_guild = GuildId 5, rt_lock = 0, rt_wish = GetOrCreate, rt_phase = phase\<rparr>"
  let ?at = "\<lambda>phase. registry_new\<lparr>rg_locks := [GuildId 5 \<mapsto> 0], rg_next_lock := 1, rg_locked := {0}, rg_tasks := [7 \<mapsto> ?t phase]\<rparr>"
  have "registry_step (Begin 7 (GuildId 5) GetOrCreate) registry_new = (?at Waiting)\<lparr>rg_locked := {}\<rparr>"
    by (simp add: begin_task_def operation_lock_def registry_new_def Let_def)
  moreover have "registry_step (AcquireLock 7) ((?at Waiting)\<lparr>rg_locked := {}\<rparr>) = ?at Looking"
    by (simp add: on_task_def acquire_lock_def move_on_def registry_new_def)
  moreover have "registry_step (LookUp 7) (?at Looking) = ?at Clearing"
    by (simp add: on_task_def look_up_def move_on_def registry_new_def)
  moreover have "registry_step (ClearEntry 7) (?at Clearing) = ?at Creating"
    by (simp add: on_task_def clear_entry_def move_on_def registry_new_def)
  moreover have "registry_step (Created 7 (Inr ())) (?at Creating) =
      (?at (Inserting 0))\<lparr>rg_actors := [0 \<mapsto> GuildId 5], rg_live := {0}, rg_next_actor := 1\<rparr>"
    by (simp add: on_task_def created_def move_on_def registry_new_def)
  ultimately have "?s = registry_step (InsertPlayer 7)
      ((?at (Inserting 0))\<lparr>rg_actors := [0 \<mapsto> GuildId 5], rg_live := {0}, rg_next_actor := 1\<rparr>)"
    by (simp add: registry_run_def del: registry_step.simps)
  then have results: "rg_players ?s (GuildId 5) = Some 0" "0 \<in> rg_live ?s" "0 \<notin> rg_drained ?s" "rg_actors ?s 0 = Some (GuildId 5)"
    by (simp_all add: on_task_def insert_player_def finish_task_def registry_new_def)
  then have member: "0 \<in> rg_live ?s - rg_drained ?s" by simp
  show ?thesis
    by (rule exI [of _ ?s], intro conjI)
      (rule results(1), rule results(2), rule conjunct1 [OF one_live_player_per_guild [OF refl member results(4)]])
qed

end
