(* ===== verification/Component_Id.thy ===== *)
theory Component_Id
  imports Core_Types
begin

text \<open>
  The signed identifiers of Discord components, \<open>crates/pepeaudio-bot/src/component_id.rs\<close>. HMAC-SHA256 (of
  the UTF-8 bytes of a string) and the unpadded URL-safe base64 encoding are parameters; all that is
  assumed of them is that decoding undoes encoding, that an encoding has no dot, and that it is no longer
  than hexadecimal would be.
\<close>

section \<open>Dotted strings\<close>

fun split_char :: "rchar \<Rightarrow> rstring \<Rightarrow> rstring list" where
  "split_char sep [] = [[]]"
| "split_char sep (c # cs) =
     (if c = sep then [] # split_char sep cs
      else (case split_char sep cs of part # parts \<Rightarrow> (c # part) # parts | [] \<Rightarrow> [[c]]))"

lemma split_char_nonempty [simp]: "split_char sep s \<noteq> []"
  by (induction s) (auto split: list.split)

lemma split_char_one: "sep \<notin> set s \<Longrightarrow> split_char sep s = [s]"
  by (induction s) auto

lemma split_char_append: "sep \<notin> set s \<Longrightarrow> split_char sep (s @ sep # t) = s # split_char sep t"
  by (induction s) auto

text \<open>\<open>value.rsplitn(2, sep)\<close>: what follows the last separator and what precedes it.\<close>

definition rsplit_once :: "rchar \<Rightarrow> rstring \<Rightarrow> (rstring \<times> rstring) option" where
  "rsplit_once sep s =
     (if sep \<notin> set s then None
      else Some (rev (takeWhile (\<lambda>c. c \<noteq> sep) (rev s)), rev (drop 1 (dropWhile (\<lambda>c. c \<noteq> sep) (rev s)))))"

lemma rsplit_once_append: "sep \<notin> set t \<Longrightarrow> rsplit_once sep (s @ sep # t) = Some (t, s)"
proof -
  assume free: "sep \<notin> set t"
  have reversed: "rev (s @ sep # t) = rev t @ sep # rev s" by simp
  have "takeWhile (\<lambda>c. c \<noteq> sep) (rev t @ sep # rev s) = rev t"
    "dropWhile (\<lambda>c. c \<noteq> sep) (rev t @ sep # rev s) = sep # rev s"
    using free by (auto simp: takeWhile_append dropWhile_append)
  then show ?thesis by (simp add: rsplit_once_def reversed)
qed

lemma rsplit_once_Some:
  assumes "rsplit_once sep v = Some (t, s)"
  shows "v = s @ sep # t" and "sep \<notin> set t"
proof -
  let ?P = "\<lambda>c. c \<noteq> sep"
  have t: "t = rev (takeWhile ?P (rev v))" and s: "s = rev (drop 1 (dropWhile ?P (rev v)))" and mem: "sep \<in> set (rev v)"
    using assms by (auto simp: rsplit_once_def split: if_split_asm)
  from mem have "dropWhile ?P (rev v) \<noteq> []" and "\<not> ?P (hd (dropWhile ?P (rev v)))"
    using hd_dropWhile [of ?P "rev v"] by (auto simp: dropWhile_eq_Nil_conv)
  then have "dropWhile ?P (rev v) = sep # drop 1 (dropWhile ?P (rev v))" by (cases "dropWhile ?P (rev v)") auto
  then have "rev v = takeWhile ?P (rev v) @ sep # drop 1 (dropWhile ?P (rev v))" by (metis takeWhile_dropWhile_id)
  then show "v = s @ sep # t" unfolding s t by (metis append.assoc append_Cons append_Nil rev.simps(2) rev_append rev_rev_ident)
  show "sep \<notin> set t" unfolding t by (auto dest: set_takeWhileD)
qed

section \<open>Hexadecimal\<close>

text \<open>The formatting \<open>{:x}\<close>.\<close>

definition hex_digit :: "nat \<Rightarrow> rchar" where
  "hex_digit d = (if d < 10 then 0x30 + d else 0x61 + (d - 10))"

fun hex_digits :: "nat \<Rightarrow> rstring" where
  "hex_digits n = (if n < 16 then [hex_digit n] else hex_digits (n div 16) @ [hex_digit (n mod 16)])"

declare hex_digits.simps [simp del]

lemma hex_digits_nonempty [simp]: "hex_digits n \<noteq> []"
  by (subst hex_digits.simps) simp

lemma to_digit_hex: "d < 16 \<Longrightarrow> to_digit 16 (hex_digit d) = Some d"
  by (simp add: to_digit_def hex_digit_def is_ascii_digit_def is_ascii_lowercase_def Let_def)

lemma hex_digits_range: "c \<in> set (hex_digits n) \<Longrightarrow> 0x30 \<le> c \<and> c \<le> 0x66"
proof (induction n rule: hex_digits.induct)
  case (1 n)
  have "0x30 \<le> hex_digit d \<and> hex_digit d \<le> 0x66" if "d < 16" for d using that by (simp add: hex_digit_def)
  then show ?case using 1 by (cases "n < 16") (auto simp: hex_digits.simps [of n])
qed

lemma accumulate_hex_digits: "n < 2 ^ 64 \<Longrightarrow> accumulate_digits 16 0 (hex_digits n) = Some n"
proof (induction n rule: hex_digits.induct)
  case (1 n)
  show ?case
  proof (cases "n < 16")
    case True
    then show ?thesis using "1.prems" by (simp add: hex_digits.simps [of n] to_digit_hex)
  next
    case False
    have "n div 16 < 2 ^ 64" using "1.prems" by linarith
    then have front: "accumulate_digits 16 0 (hex_digits (n div 16)) = Some (n div 16)" by (rule "1.IH" [OF False])
    have "n div 16 * 16 + n mod 16 = n" by simp
    moreover have "to_digit 16 (hex_digit (n mod 16)) = Some (n mod 16)" by (rule to_digit_hex) simp
    ultimately show ?thesis using False front "1.prems"
      by (simp add: hex_digits.simps [of n] accumulate_digits_append)
  qed
qed

lemma from_str_radix_hex: "from_str_radix 16 (hex_digits (unat n)) = Some n"
proof -
  have "hd (hex_digits (unat n)) \<in> set (hex_digits (unat n))" by simp
  then have "hd (hex_digits (unat n)) \<noteq> 0x2b" using hex_digits_range [of "hd (hex_digits (unat n))" "unat n"] by linarith
  then have "from_str_radix 16 (hex_digits (unat n)) = map_option of_nat (accumulate_digits 16 0 (hex_digits (unat n)))"
    by (cases "hex_digits (unat n)") (auto simp: from_str_radix_def Let_def)
  then show ?thesis by (simp add: accumulate_hex_digits [OF unat_u64_bound])
qed

lemma length_hex_digits: "0 < k \<Longrightarrow> n < 16 ^ k \<Longrightarrow> length (hex_digits n) \<le> k"
proof (induction n arbitrary: k rule: hex_digits.induct)
  case (1 n)
  show ?case
  proof (cases "n < 16")
    case False
    then obtain j where k: "k = Suc j" "0 < j" using "1.prems" by (cases k; cases "k - 1") auto
    have "n div 16 < 16 ^ j" using "1.prems"(2) k by (simp add: less_mult_imp_div_less mult.commute)
    then show ?thesis using "1.IH" [OF False k(2)] False k by (simp add: hex_digits.simps [of n])
  qed (use "1.prems" in \<open>simp add: hex_digits.simps [of n]\<close>)
qed

section \<open>The codec\<close>

definition PREFIX :: rstring where "PREFIX = str ''pa1''"
definition TAG_BYTES :: nat where "TAG_BYTES = 10"

datatype component_action =
  ActPlayPause | ActPrevious | ActSkip | ActStop | ActRepeat | ActShuffle | ActSpatial | ActVolume | ActHrir

fun action_code :: "component_action \<Rightarrow> rstring" where
  "action_code ActPlayPause = str ''p''"
| "action_code ActPrevious = str ''b''"
| "action_code ActSkip = str ''n''"
| "action_code ActStop = str ''x''"
| "action_code ActRepeat = str ''r''"
| "action_code ActShuffle = str ''s''"
| "action_code ActSpatial = str ''a''"
| "action_code ActVolume = str ''v''"
| "action_code ActHrir = str ''h''"

definition action_parse :: "rstring \<Rightarrow> component_action option" where
  "action_parse value_text =
     (if value_text = str ''p'' then Some ActPlayPause
      else if value_text = str ''b'' then Some ActPrevious
      else if value_text = str ''n'' then Some ActSkip
      else if value_text = str ''x'' then Some ActStop
      else if value_text = str ''r'' then Some ActRepeat
      else if value_text = str ''s'' then Some ActShuffle
      else if value_text = str ''a'' then Some ActSpatial
      else if value_text = str ''v'' then Some ActVolume
      else if value_text = str ''h'' then Some ActHrir
      else None)"

record decoded_component_id =
  dc_action :: component_action
  dc_guild_id :: guild_id
  dc_revision :: state_revision

datatype component_id_error = WeakKey | CidTooLong | CidMalformed | UnsupportedVersion | UnknownAction | BadSignature

record component_crypto =
  cy_hmac :: "u8 list \<Rightarrow> rstring \<Rightarrow> u8 list"
  cy_encode :: "u8 list \<Rightarrow> rstring"
  cy_decode :: "rstring \<Rightarrow> u8 list option"

definition crypto_laws :: "component_crypto \<Rightarrow> bool" where
  "crypto_laws cy \<longleftrightarrow>
     (\<forall>key s. length (cy_hmac cy key s) = 32) \<and>
     (\<forall>bytes. cy_decode cy (cy_encode cy bytes) = Some bytes) \<and>
     (\<forall>bytes. 0x2e \<notin> set (cy_encode cy bytes)) \<and>
     (\<forall>bytes. str_len (cy_encode cy bytes) \<le> 2 * length bytes)"

record component_id_codec =
  cc_key :: "u8 list"

definition component_codec_new :: "u8 list \<Rightarrow> component_id_error + component_id_codec" where
  "component_codec_new key = (if length key < 32 then Inl WeakKey else Inr \<lparr>cc_key = key\<rparr>)"

definition component_tag :: "component_crypto \<Rightarrow> component_id_codec \<Rightarrow> rstring \<Rightarrow> u8 list" where
  "component_tag cy codec body = take TAG_BYTES (cy_hmac cy (cc_key codec) body)"

definition component_body :: "component_action \<Rightarrow> guild_id \<Rightarrow> state_revision \<Rightarrow> rstring" where
  "component_body action guild revision =
     PREFIX @ 0x2e # action_code action @ 0x2e # hex_digits (unat (guild_get guild)) @ 0x2e #
       hex_digits (unat (revision_get revision))"

definition component_encode ::
  "component_crypto \<Rightarrow> component_id_codec \<Rightarrow> component_action \<Rightarrow> guild_id \<Rightarrow> state_revision \<Rightarrow> rstring" where
  "component_encode cy codec action guild revision =
     (let body = component_body action guild revision
      in body @ 0x2e # cy_encode cy (component_tag cy codec body))"

text \<open>The fields of an authenticated body.\<close>

definition decode_fields :: "rstring \<Rightarrow> component_id_error + decoded_component_id" where
  "decode_fields body =
     (case split_char 0x2e body of
        [prefix, action_text, guild_text', revision_text] \<Rightarrow>
          (if prefix \<noteq> PREFIX then Inl UnsupportedVersion
           else case action_parse action_text of
             None \<Rightarrow> Inl UnknownAction
           | Some action \<Rightarrow>
               (case from_str_radix 16 guild_text' of
                  None \<Rightarrow> Inl CidMalformed
                | Some g \<Rightarrow>
                    (case guild_id_new g of
                       Inl _ \<Rightarrow> Inl CidMalformed
                     | Inr guild \<Rightarrow>
                         (case from_str_radix 16 revision_text of
                            None \<Rightarrow> Inl CidMalformed
                          | Some r \<Rightarrow> Inr \<lparr>dc_action = action, dc_guild_id = guild, dc_revision = StateRevision r\<rparr>))))
      | _ \<Rightarrow> Inl CidMalformed)"

definition component_decode ::
  "component_crypto \<Rightarrow> component_id_codec \<Rightarrow> rstring \<Rightarrow> component_id_error + decoded_component_id" where
  "component_decode cy codec value_text =
     (if str_len value_text > 100 then Inl CidTooLong
      else case rsplit_once 0x2e value_text of
        None \<Rightarrow> Inl CidMalformed
      | Some (tag, body) \<Rightarrow>
          (case cy_decode cy tag of
             None \<Rightarrow> Inl CidMalformed
           | Some decoded \<Rightarrow>
               if length decoded \<noteq> TAG_BYTES then Inl CidMalformed
               else if decoded \<noteq> take (length decoded) (cy_hmac cy (cc_key codec) body) then Inl BadSignature
               else decode_fields body))"

section \<open>What an identifier carries\<close>

lemma action_roundtrip [simp]: "action_parse (action_code a) = Some a"
  by (cases a) (simp_all add: action_parse_def str_def)

lemma action_code_one: "\<exists>c. action_code a = [c] \<and> 0x61 \<le> c \<and> c \<le> 0x7a"
  by (cases a) (simp_all add: str_def)

lemma no_dot [simp]: "0x2e \<notin> set PREFIX" "0x2e \<notin> set (action_code a)" "0x2e \<notin> set (hex_digits n)"
proof -
  show "0x2e \<notin> set PREFIX" by (simp add: PREFIX_def str_def)
  show "0x2e \<notin> set (action_code a)" using action_code_one [of a] by auto
  show "0x2e \<notin> set (hex_digits n)" using hex_digits_range by fastforce
qed

lemma decode_fields_body:
  assumes "guild_get guild \<noteq> 0"
  shows "decode_fields (component_body action guild revision) =
    Inr \<lparr>dc_action = action, dc_guild_id = guild, dc_revision = revision\<rparr>"
proof -
  have "split_char 0x2e (component_body action guild revision) =
      [PREFIX, action_code action, hex_digits (unat (guild_get guild)), hex_digits (unat (revision_get revision))]"
    by (simp add: component_body_def split_char_append split_char_one)
  then show ?thesis using assms
    by (simp add: decode_fields_def from_str_radix_hex guild_id_new_def snowflake_new_def)
qed

lemma str_len_ascii: "(\<And>c. c \<in> set s \<Longrightarrow> c < 0x80) \<Longrightarrow> str_len s = length s"
  by (induction s) (simp_all add: str_len_def char_len_utf8_def)

lemma hex_length: "str_len (hex_digits (unat (n :: u64))) \<le> 16"
proof -
  have "c < 0x80" if "c \<in> set (hex_digits (unat n))" for c using hex_digits_range [OF that] by linarith
  then have "str_len (hex_digits (unat n)) = length (hex_digits (unat n))" by (rule str_len_ascii)
  moreover have "length (hex_digits (unat n)) \<le> 16" by (rule length_hex_digits) (use unat_u64_bound [of n] in simp_all)
  ultimately show ?thesis by simp
qed

lemma body_length: "str_len (component_body action guild revision) \<le> 39"
proof -
  have "str_len (action_code action) = 1"
    using action_code_one [of action] by (auto simp: str_len_def char_len_utf8_def)
  moreover have "str_len PREFIX = 3" by (simp add: PREFIX_def str_def str_len_def char_len_utf8_def)
  moreover have "str_len (0x2e # s) = 1 + str_len s" for s by (simp add: str_len_def char_len_utf8_def)
  ultimately show ?thesis
    using hex_length [of "guild_get guild"] hex_length [of "revision_get revision"]
    by (simp add: component_body_def str_len_append)
qed

lemma tag_length: "crypto_laws cy \<Longrightarrow> length (component_tag cy codec body) = 10"
  by (simp add: component_tag_def crypto_laws_def TAG_BYTES_def)

lemma component_decode_encode:
  assumes "crypto_laws cy" and "guild_get guild \<noteq> 0"
  shows "str_len (component_encode cy codec action guild revision) < 100"
    and "component_decode cy codec (component_encode cy codec action guild revision) =
      Inr \<lparr>dc_action = action, dc_guild_id = guild, dc_revision = revision\<rparr>"
proof -
  let ?body = "component_body action guild revision"
  let ?tag = "component_tag cy codec ?body"
  note laws = assms(1) [unfolded crypto_laws_def]
  have "str_len (cy_encode cy ?tag) \<le> 2 * length ?tag" using laws by blast
  then have "str_len (cy_encode cy ?tag) \<le> 20" by (simp add: tag_length [OF assms(1)])
  moreover have "str_len (0x2e # s) = 1 + str_len s" for s by (simp add: str_len_def char_len_utf8_def)
  ultimately have short: "str_len (component_encode cy codec action guild revision) < 100"
    using body_length [of action guild revision] by (simp add: component_encode_def Let_def str_len_append)
  have "rsplit_once 0x2e (component_encode cy codec action guild revision) = Some (cy_encode cy ?tag, ?body)"
    using laws by (simp add: component_encode_def Let_def rsplit_once_append)
  then have "component_decode cy codec (component_encode cy codec action guild revision) = decode_fields ?body"
    using laws short tag_length [OF assms(1), of codec ?body]
    by (simp add: component_decode_def TAG_BYTES_def) (simp add: component_tag_def TAG_BYTES_def)
  then show "component_decode cy codec (component_encode cy codec action guild revision) =
      Inr \<lparr>dc_action = action, dc_guild_id = guild, dc_revision = revision\<rparr>"
    using decode_fields_body [OF assms(2)] by simp
  show "str_len (component_encode cy codec action guild revision) < 100" by (rule short)
qed

text \<open>C35: Every component identifier of the bot fits Discord's limit of 100 bytes and is decoded to
  the action, guild and revision it was made for.\<close>

theorem component_ids_read_back:
  assumes "crypto_laws cy" and "guild_get guild \<noteq> 0"
  shows "str_len (component_encode cy codec action guild revision) < 100 \<and>
    component_decode cy codec (component_encode cy codec action guild revision) =
      Inr \<lparr>dc_action = action, dc_guild_id = guild, dc_revision = revision\<rparr>"
  using component_decode_encode [OF assms] by blast

text \<open>An identifier is accepted only when it ends in the truncated HMAC, under the codec's key, of exactly the
  text that precedes it, and it then means what that text says.\<close>

lemma accepted_ids_are_authentic:
  assumes "component_decode cy codec value_text = Inr d"
  shows "\<exists>body tag a g r. value_text = body @ 0x2e # tag \<and> str_len value_text \<le> 100 \<and>
    cy_decode cy tag = Some (take TAG_BYTES (cy_hmac cy (cc_key codec) body)) \<and>
    split_char 0x2e body = [PREFIX, a, g, r] \<and> action_parse a = Some (dc_action d) \<and>
    from_str_radix 16 g = Some (guild_get (dc_guild_id d)) \<and> guild_get (dc_guild_id d) \<noteq> 0 \<and>
    from_str_radix 16 r = Some (revision_get (dc_revision d))"
proof -
  obtain tag body decoded where parts: "str_len value_text \<le> 100" "rsplit_once 0x2e value_text = Some (tag, body)"
    "cy_decode cy tag = Some decoded" "length decoded = TAG_BYTES"
    "decoded = take (length decoded) (cy_hmac cy (cc_key codec) body)" "decode_fields body = Inr d"
    using assms by (auto simp: component_decode_def split: if_split_asm option.split_asm prod.split_asm)
  have value_parts: "value_text = body @ 0x2e # tag" using rsplit_once_Some(1) [OF parts(2)] .
  obtain prefix a g r where fields: "split_char 0x2e body = [prefix, a, g, r]" "prefix = PREFIX"
    "action_parse a = Some (dc_action d)" "from_str_radix 16 g = Some (guild_get (dc_guild_id d))"
    "guild_get (dc_guild_id d) \<noteq> 0" "from_str_radix 16 r = Some (revision_get (dc_revision d))"
    using parts(6)
    by (auto simp: decode_fields_def guild_id_new_def snowflake_new_def
        split: list.split_asm if_split_asm option.split_asm sum.split_asm)
  have "cy_decode cy tag = Some (take TAG_BYTES (cy_hmac cy (cc_key codec) body))" using parts(3-5) by simp
  then show ?thesis using value_parts fields parts(1) by blast
qed

end
