(* ===== verification/Bot_Access.thy ===== *)
theory Bot_Access
  imports Component_Id Command_Worker Postgres_Store
begin

text \<open>
  Who may control a player from Discord and from the dashboard: \<open>permissions.rs\<close>,
  \<open>guild_policy.rs\<close>, \<open>voice_facts.rs\<close>, \<open>web_authorizer.rs\<close>, \<open>interaction.rs\<close> and
  \<open>component_dispatch.rs\<close> of \<open>crates/pepeaudio-bot/src\<close>. The gateway cache is the
  parameter; what it grants a member (\<open>member_permissions\<close>) is a field of the cached guild.
\<close>

section \<open>The gateway cache\<close>

record cached_member =
  cm_user_id :: u64
  cm_roles :: "u64 list"

record voice_state =
  vt_channel_id :: "u64 option"
  vt_member :: "cached_member option"

record cached_guild =
  cg_voice_states :: "u64 \<rightharpoonup> voice_state"
  cg_members :: "u64 \<rightharpoonup> cached_member"
  cg_manages :: "cached_member \<Rightarrow> bool"

record discord_cache =
  dk_guild :: "u64 \<rightharpoonup> cached_guild"
  dk_current_user :: u64

section \<open>Control policies\<close>

record guild_control_policy =
  gp_control :: control_policy
  gp_dj_role_id :: "u64 option"

definition guild_control_policy_default :: guild_control_policy where
  "guild_control_policy_default = \<lparr>gp_control = SameVoiceChannel, gp_dj_role_id = None\<rparr>"

definition has_dj_role :: "guild_control_policy \<Rightarrow> u64 list \<Rightarrow> bool" where
  "has_dj_role policy roles =
     (case gp_dj_role_id policy of None \<Rightarrow> False | Some configured \<Rightarrow> List.member roles configured)"

definition allows_control :: "guild_control_policy \<Rightarrow> bool \<Rightarrow> bool \<Rightarrow> bool" where
  "allows_control policy manages_guild dj =
     (case gp_control policy of
        SameVoiceChannel \<Rightarrow> True
      | DjOnly \<Rightarrow> manages_guild \<or> dj
      | ManageGuild \<Rightarrow> manages_guild)"

datatype guild_policy_error = GuildPolicyError

definition postgres_policy :: "request_fault \<Rightarrow> database \<Rightarrow> guild_id \<Rightarrow> guild_policy_error + guild_control_policy" where
  "postgres_policy f db guild =
     (case fst (get_guild_settings f guild db) of
        Inl _ \<Rightarrow> Inl GuildPolicyError
      | Inr None \<Rightarrow> Inr guild_control_policy_default
      | Inr (Some item) \<Rightarrow> Inr \<lparr>gp_control = gs_control_policy item, gp_dj_role_id = gs_dj_role_id item\<rparr>)"

record voice_context =
  vc_actor_user_id :: user_id
  vc_actor_voice_channel_id :: "channel_id option"
  vc_bot_voice_channel_id :: "channel_id option"
  vc_has_manage_guild :: bool
  vc_has_dj_role :: bool

text \<open>\<open>ControlPolicy\<close> of \<open>permissions.rs\<close>.\<close>

datatype voice_control_policy = ActorInVoice | InSameVoiceChannel | PrivilegedSameVoiceChannel

datatype voice_policy_error = ActorNotInVoice | DifferentVoiceChannel | MissingPrivilege

definition authorize_voice_control :: "voice_context \<Rightarrow> voice_control_policy \<Rightarrow> voice_policy_error + channel_id" where
  "authorize_voice_control context' policy =
     (case vc_actor_voice_channel_id context' of
        None \<Rightarrow> Inl ActorNotInVoice
      | Some actor \<Rightarrow>
          (if \<not> (case vc_bot_voice_channel_id context' of None \<Rightarrow> policy = ActorInVoice | Some its \<Rightarrow> its = actor)
           then Inl DifferentVoiceChannel
           else if policy = PrivilegedSameVoiceChannel \<and> \<not> (vc_has_manage_guild context' \<or> vc_has_dj_role context')
           then Inl MissingPrivilege
           else Inr actor))"

definition authorize_guild_control :: "voice_context \<Rightarrow> guild_control_policy \<Rightarrow> voice_policy_error + channel_id" where
  "authorize_guild_control context' policy =
     (case authorize_voice_control context' InSameVoiceChannel of
        Inl e \<Rightarrow> Inl e
      | Inr channel \<Rightarrow>
          if allows_control policy (vc_has_manage_guild context') (vc_has_dj_role context') then Inr channel
          else Inl MissingPrivilege)"

section \<open>Facts from the cache\<close>

datatype current_voice_facts_error = GuildUnavailable | MemberUnavailable | InvalidSnowflake

definition current_cached_member :: "cached_guild \<Rightarrow> u64 \<Rightarrow> cached_member option \<Rightarrow> cached_member option" where
  "current_cached_member guild actor voice_state_member =
     (case cg_members guild actor of Some member' \<Rightarrow> Some member' | None \<Rightarrow> voice_state_member)"

definition core_channel :: "u64 option \<Rightarrow> current_voice_facts_error + channel_id option" where
  "core_channel channel =
     (case channel of
        None \<Rightarrow> Inr None
      | Some c \<Rightarrow> (case channel_id_new c of Inl _ \<Rightarrow> Inl InvalidSnowflake | Inr id' \<Rightarrow> Inr (Some id')))"

definition voice_channel :: "cached_guild \<Rightarrow> u64 \<Rightarrow> u64 option" where
  "voice_channel guild user = (case cg_voice_states guild user of None \<Rightarrow> None | Some state \<Rightarrow> vt_channel_id state)"

definition current_voice_context ::
  "discord_cache \<Rightarrow> u64 \<Rightarrow> u64 \<Rightarrow> guild_control_policy \<Rightarrow> current_voice_facts_error + voice_context" where
  "current_voice_context cache guild_id' actor policy =
     (case dk_guild cache guild_id' of
        None \<Rightarrow> Inl GuildUnavailable
      | Some guild \<Rightarrow>
          (case current_cached_member guild actor
                  (case cg_voice_states guild actor of None \<Rightarrow> None | Some state \<Rightarrow> vt_member state) of
             None \<Rightarrow> Inl MemberUnavailable
           | Some member' \<Rightarrow>
               (case core_channel (voice_channel guild actor) of
                  Inl e \<Rightarrow> Inl e
                | Inr actor_channel \<Rightarrow>
                    (case core_channel (voice_channel guild (dk_current_user cache)) of
                       Inl e \<Rightarrow> Inl e
                     | Inr bot_channel \<Rightarrow>
                         (case user_id_new actor of
                            Inl _ \<Rightarrow> Inl InvalidSnowflake
                          | Inr user \<Rightarrow>
                              Inr \<lparr>vc_actor_user_id = user, vc_actor_voice_channel_id = actor_channel,
                                   vc_bot_voice_channel_id = bot_channel, vc_has_manage_guild = cg_manages guild member',
                                   vc_has_dj_role = has_dj_role policy (cm_roles member')\<rparr>)))))"

section \<open>The dashboard's authorizer\<close>

datatype cached_facts = FactsAvailable bool "u64 list" | FactsDenied | FactsUnavailable

definition cached_voice_facts :: "discord_cache \<Rightarrow> u64 \<Rightarrow> u64 \<Rightarrow> bool \<Rightarrow> cached_facts" where
  "cached_voice_facts cache guild_id' actor allow_absent_bot =
     (case dk_guild cache guild_id' of
        None \<Rightarrow> FactsUnavailable
      | Some guild \<Rightarrow>
          (case cg_voice_states guild actor of
             None \<Rightarrow> FactsDenied
           | Some actor_state \<Rightarrow>
               (case vt_channel_id actor_state of
                  None \<Rightarrow> FactsDenied
                | Some actor_channel \<Rightarrow>
                    (let bot_channel = voice_channel guild (dk_current_user cache) in
                     if bot_channel = None \<and> \<not> allow_absent_bot then FactsDenied
                     else if (case bot_channel of None \<Rightarrow> False | Some b \<Rightarrow> actor_channel \<noteq> b) then FactsDenied
                     else (case current_cached_member guild actor (vt_member actor_state) of
                             None \<Rightarrow> FactsUnavailable
                           | Some member' \<Rightarrow> FactsAvailable (cg_manages guild member') (cm_roles member'))))))"

fun is_enqueue_media :: "player_command \<Rightarrow> bool" where
  "is_enqueue_media (EnqueueMedia _) = True" | "is_enqueue_media _ = False"

definition dashboard_authorize ::
  "discord_cache \<Rightarrow> request_fault \<Rightarrow> database \<Rightarrow> u32 \<Rightarrow> u32 \<times> u32 \<Rightarrow> command_envelope \<Rightarrow> command_authorization" where
  "dashboard_authorize cache f db shard_total owned envelope =
     (let shard = shard_id (ce_guild_id envelope) shard_total in
      if \<not> (fst owned \<le> shard \<and> shard < snd owned) then AuthDenied
      else case ce_actor_user_id envelope of
        None \<Rightarrow> AuthDenied
      | Some actor \<Rightarrow>
          (case cached_voice_facts cache (guild_get (ce_guild_id envelope)) (user_get actor) (is_enqueue_media (ce_command envelope)) of
             FactsDenied \<Rightarrow> AuthDenied
           | FactsUnavailable \<Rightarrow> AuthRetryableFailure
           | FactsAvailable manages_guild roles \<Rightarrow>
               (case fst (get_guild_settings f (ce_guild_id envelope) db) of
                  Inl _ \<Rightarrow> AuthRetryableFailure
                | Inr settings \<Rightarrow>
                    (let dj = (case settings of
                                 None \<Rightarrow> False
                               | Some item \<Rightarrow> (case gs_dj_role_id item of None \<Rightarrow> False | Some role \<Rightarrow> List.member roles role));
                         privileged = manages_guild \<or> dj in
                     if ce_command envelope = Stop \<or> ce_command envelope = Disconnect
                     then (if privileged then AuthAllowed else AuthDenied)
                     else case (case settings of None \<Rightarrow> SameVoiceChannel | Some item \<Rightarrow> gs_control_policy item) of
                            SameVoiceChannel \<Rightarrow> AuthAllowed
                          | DjOnly \<Rightarrow> (if privileged then AuthAllowed else AuthDenied)
                          | ManageGuild \<Rightarrow> (if manages_guild then AuthAllowed else AuthDenied)))))"

section \<open>Component interactions\<close>

datatype interaction_input = ButtonInput | SelectInput rstring

datatype interaction_map_error = GuildMismatchError | StaleRevision | InputKindMismatch | InvalidValue

definition HRIR_OFF_VALUE :: rstring where "HRIR_OFF_VALUE = str ''pepeaudio:hrir:off''"

text \<open>\<open>str::parse::<u8>\<close>: the digits accumulate, so they leave \<open>u8\<close> exactly when the number they denote does.\<close>

definition parse_u8 :: "rstring \<Rightarrow> u8 option" where
  "parse_u8 s = (case from_str_radix 10 s of None \<Rightarrow> None | Some n \<Rightarrow> if unat n < 2 ^ 8 then Some (ucast n) else None)"

definition map_action :: "component_action \<Rightarrow> interaction_input \<Rightarrow> player_snapshot \<Rightarrow> interaction_map_error + player_command" where
  "map_action action input snapshot =
     (case (action, input) of
        (ActPlayPause, ButtonInput) \<Rightarrow> Inr (if ps_state snapshot = Playing then Pause else Play)
      | (ActPrevious, ButtonInput) \<Rightarrow> Inr Previous
      | (ActSkip, ButtonInput) \<Rightarrow> Inr Skip
      | (ActStop, ButtonInput) \<Rightarrow> Inr Stop
      | (ActRepeat, ButtonInput) \<Rightarrow>
          Inr (SetRepeat (case ps_repeat_mode snapshot of RepeatOff \<Rightarrow> RepeatTrack | RepeatTrack \<Rightarrow> RepeatQueue | RepeatQueue \<Rightarrow> RepeatOff))
      | (ActShuffle, ButtonInput) \<Rightarrow> Inr (SetShuffle (\<not> ps_shuffle_enabled snapshot))
      | (ActSpatial, ButtonInput) \<Rightarrow> Inr (SetSpatialAudio (\<not> ps_spatial_audio_enabled snapshot))
      | (ActVolume, SelectInput chosen) \<Rightarrow>
          (case parse_u8 chosen of
             None \<Rightarrow> Inl InvalidValue
           | Some percent \<Rightarrow> (case volume_new percent of Inl _ \<Rightarrow> Inl InvalidValue | Inr v \<Rightarrow> Inr (SetVolume v)))
      | (ActHrir, SelectInput chosen) \<Rightarrow>
          (if chosen = HRIR_OFF_VALUE then Inr (SetSpatialAudio False)
           else case hrir_preset_id_new chosen of Inl _ \<Rightarrow> Inl InvalidValue | Inr preset \<Rightarrow> Inr (SetHrir preset))
      | _ \<Rightarrow> Inl InputKindMismatch)"

definition map_interaction ::
  "uuid \<times> uuid \<Rightarrow> decoded_component_id \<Rightarrow> interaction_input \<Rightarrow> user_id \<Rightarrow> player_snapshot \<Rightarrow> unix_time_millis \<Rightarrow>
   interaction_map_error + command_envelope" where
  "map_interaction ids decoded input actor snapshot deadline =
     (if dc_guild_id decoded \<noteq> ps_guild_id snapshot then Inl GuildMismatchError
      else if dc_revision decoded \<noteq> ps_revision snapshot then Inl StaleRevision
      else case map_action (dc_action decoded) input snapshot of
        Inl e \<Rightarrow> Inl e
      | Inr command \<Rightarrow>
          Inr (command_envelope_new (fst ids) (snd ids) (dc_guild_id decoded) (Some actor) (dc_revision decoded) deadline command))"

datatype component_kind = ButtonKind | StringSelectKind "rstring list" | OtherKind

datatype component_dispatch_error =
  InvalidComponent | GuildOnly | VoicePolicy | NoPlayer | StaleOrInvalid | PlayerUnavailable

definition interaction_input_of :: "component_kind \<Rightarrow> component_dispatch_error + interaction_input" where
  "interaction_input_of kind =
     (case kind of
        ButtonKind \<Rightarrow> Inr ButtonInput
      | StringSelectKind chosen \<Rightarrow> (if length chosen = 1 then Inr (SelectInput (hd chosen)) else Inl InvalidComponent)
      | OtherKind \<Rightarrow> Inl InvalidComponent)"

record component_interaction =
  ci_custom_id :: rstring
  ci_guild_id :: "u64 option"
  ci_user_id :: u64
  ci_kind :: component_kind

text \<open>\<open>command_deadline\<close>, from the clock's milliseconds.\<close>

definition command_deadline :: "nat \<Rightarrow> unix_time_millis" where
  "command_deadline now = UnixTimeMillis (saturating_add_u64 (u64_try_from_or_max now) 30000)"

definition dispatch_voice_context ::
  "discord_cache \<Rightarrow> request_fault \<Rightarrow> database \<Rightarrow> component_interaction \<Rightarrow>
   component_dispatch_error + voice_context \<times> guild_control_policy" where
  "dispatch_voice_context cache f db component =
     (case ci_guild_id component of
        None \<Rightarrow> Inl GuildOnly
      | Some g \<Rightarrow>
          (case guild_id_new g of
             Inl _ \<Rightarrow> Inl InvalidComponent
           | Inr guild \<Rightarrow>
               (case postgres_policy f db guild of
                  Inl _ \<Rightarrow> Inl PlayerUnavailable
                | Inr policy \<Rightarrow>
                    (case current_voice_context cache g (ci_user_id component) policy of
                       Inl _ \<Rightarrow> Inl VoicePolicy
                     | Inr voice \<Rightarrow> Inr (voice, policy)))))"

text \<open>\<open>apply_component\<close> up to the command it sends to the player. The registry answers with the snapshot of
  a guild's player, if there is one.\<close>

definition component_command ::
  "component_crypto \<Rightarrow> component_id_codec \<Rightarrow> discord_cache \<Rightarrow> request_fault \<Rightarrow> database \<Rightarrow>
   (guild_id \<Rightarrow> (player_error + player_snapshot) option) \<Rightarrow> uuid \<times> uuid \<Rightarrow> nat \<Rightarrow> component_interaction \<Rightarrow>
   component_dispatch_error + command_envelope" where
  "component_command cy codec cache f db player ids now component =
     (case component_decode cy codec (ci_custom_id component) of
        Inl _ \<Rightarrow> Inl InvalidComponent
      | Inr decoded \<Rightarrow>
      (case ci_guild_id component of
        None \<Rightarrow> Inl GuildOnly
      | Some g \<Rightarrow>
      if g \<noteq> guild_get (dc_guild_id decoded) then Inl InvalidComponent
      else case player (dc_guild_id decoded) of
        None \<Rightarrow> Inl NoPlayer
      | Some (Inl _) \<Rightarrow> Inl PlayerUnavailable
      | Some (Inr snapshot) \<Rightarrow>
      (case dispatch_voice_context cache f db component of
        Inl e \<Rightarrow> Inl e
      | Inr (voice, policy) \<Rightarrow>
      if ps_voice_channel_id snapshot \<noteq> vc_actor_voice_channel_id voice then Inl VoicePolicy
      else case (if dc_action decoded = ActStop then authorize_voice_control voice PrivilegedSameVoiceChannel
                 else authorize_guild_control voice policy) of
        Inl _ \<Rightarrow> Inl VoicePolicy
      | Inr _ \<Rightarrow>
      (case interaction_input_of (ci_kind component) of
        Inl e \<Rightarrow> Inl e
      | Inr input \<Rightarrow>
      (case map_interaction ids decoded input (vc_actor_user_id voice) snapshot (command_deadline now) of
        Inl _ \<Rightarrow> Inl StaleOrInvalid
      | Inr envelope \<Rightarrow> Inr envelope)))))"

datatype component_apply_outcome = Applied | PanelRefreshFailed

text \<open>The whole of \<open>apply_component\<close>: the player's answer to the command, then whether the panel could be
  built and the message edited.\<close>

definition apply_component ::
  "component_dispatch_error + command_envelope \<Rightarrow> (command_envelope \<Rightarrow> player_error + player_snapshot) \<Rightarrow>
   (player_snapshot \<Rightarrow> bool) \<Rightarrow> component_dispatch_error + component_apply_outcome" where
  "apply_component command apply refreshed =
     (case command of
        Inl e \<Rightarrow> Inl e
      | Inr envelope \<Rightarrow>
          (case apply envelope of
             Inl _ \<Rightarrow> Inl StaleOrInvalid
           | Inr updated \<Rightarrow> Inr (if refreshed updated then Applied else PanelRefreshFailed)))"

section \<open>The two ways in\<close>

text \<open>Discord's identifiers are not zero.\<close>

definition cache_ids :: "discord_cache \<Rightarrow> bool" where
  "cache_ids cache \<longleftrightarrow> (\<forall>g guild user state. dk_guild cache g = Some guild \<longrightarrow> cg_voice_states guild user = Some state \<longrightarrow>
     vt_channel_id state \<noteq> Some 0)"

text \<open>The Discord side of a command: stopping and leaving need a privilege, the rest is up to the guild's policy.\<close>

definition discord_allows :: "discord_cache \<Rightarrow> request_fault \<Rightarrow> database \<Rightarrow> guild_id \<Rightarrow> user_id \<Rightarrow> player_command \<Rightarrow> bool" where
  "discord_allows cache f db guild actor command \<longleftrightarrow>
     (\<exists>policy voice. postgres_policy f db guild = Inr policy \<and>
        current_voice_context cache (guild_get guild) (user_get actor) policy = Inr voice \<and>
        (\<exists>channel. (if command = Stop \<or> command = Disconnect then authorize_voice_control voice PrivilegedSameVoiceChannel
         else authorize_guild_control voice policy) = Inr channel))"

lemma core_channel_ok: "c \<noteq> Some 0 \<Longrightarrow> core_channel c = Inr (map_option ChannelId c)"
  by (cases c) (simp_all add: core_channel_def channel_id_new_def snowflake_new_def)

lemma voice_channel_ids:
  "cache_ids cache \<Longrightarrow> dk_guild cache g = Some guild \<Longrightarrow> voice_channel guild user \<noteq> Some 0"
  by (auto simp: cache_ids_def voice_channel_def split: option.split)

lemma context_facts:
  assumes "cache_ids cache" and "a \<noteq> 0"
  shows "current_voice_context cache g a policy = Inr voice \<longleftrightarrow>
    (\<exists>guild member'. dk_guild cache g = Some guild \<and>
       current_cached_member guild a (case cg_voice_states guild a of None \<Rightarrow> None | Some state \<Rightarrow> vt_member state) = Some member' \<and>
       voice = \<lparr>vc_actor_user_id = UserId a, vc_actor_voice_channel_id = map_option ChannelId (voice_channel guild a),
         vc_bot_voice_channel_id = map_option ChannelId (voice_channel guild (dk_current_user cache)),
         vc_has_manage_guild = cg_manages guild member', vc_has_dj_role = has_dj_role policy (cm_roles member')\<rparr>)"
  using assms(2) core_channel_ok [OF voice_channel_ids [OF assms(1)]]
  by (auto simp: current_voice_context_def user_id_new_def snowflake_new_def split: option.split_asm option.split)

lemma available_facts:
  "cached_voice_facts cache g a False = FactsAvailable manages roles \<longleftrightarrow>
     (\<exists>guild member' channel. dk_guild cache g = Some guild \<and>
        current_cached_member guild a (case cg_voice_states guild a of None \<Rightarrow> None | Some state \<Rightarrow> vt_member state) = Some member' \<and>
        voice_channel guild a = Some channel \<and> voice_channel guild (dk_current_user cache) = Some channel \<and>
        manages = cg_manages guild member' \<and> roles = cm_roles member')"
  by (auto simp: cached_voice_facts_def voice_channel_def Let_def split: option.split_asm option.split if_split_asm)

text \<open>What a policy grants, from the facts alone.\<close>

definition policy_grants :: "guild_control_policy \<Rightarrow> player_command \<Rightarrow> bool \<Rightarrow> bool \<Rightarrow> bool" where
  "policy_grants policy command manages dj \<longleftrightarrow>
     (if command = Stop \<or> command = Disconnect then manages \<or> dj else allows_control policy manages dj)"

lemma granted_iff:
  "(\<exists>channel. (if command = Stop \<or> command = Disconnect then authorize_voice_control voice PrivilegedSameVoiceChannel
      else authorize_guild_control voice policy) = Inr channel) \<longleftrightarrow>
   (\<exists>channel. vc_actor_voice_channel_id voice = Some channel \<and> vc_bot_voice_channel_id voice = Some channel \<and>
      policy_grants policy command (vc_has_manage_guild voice) (vc_has_dj_role voice))"
  by (cases "vc_actor_voice_channel_id voice"; cases "vc_bot_voice_channel_id voice")
    (simp_all add: authorize_guild_control_def authorize_voice_control_def policy_grants_def)

text \<open>The facts by which either way in decides.\<close>

definition granted :: "discord_cache \<Rightarrow> request_fault \<Rightarrow> database \<Rightarrow> guild_id \<Rightarrow> user_id \<Rightarrow> player_command \<Rightarrow> bool" where
  "granted cache f db guild_key actor command \<longleftrightarrow>
    (\<exists>policy guild member' channel. postgres_policy f db guild_key = Inr policy \<and> dk_guild cache (guild_get guild_key) = Some guild \<and>
       current_cached_member guild (user_get actor)
         (case cg_voice_states guild (user_get actor) of None \<Rightarrow> None | Some state \<Rightarrow> vt_member state) = Some member' \<and>
       voice_channel guild (user_get actor) = Some channel \<and> voice_channel guild (dk_current_user cache) = Some channel \<and>
       policy_grants policy command (cg_manages guild member') (has_dj_role policy (cm_roles member')))"

lemma discord_allows_iff:
  assumes "cache_ids cache" and "user_get actor \<noteq> 0"
  shows "discord_allows cache f db guild_key actor command \<longleftrightarrow> granted cache f db guild_key actor command"
proof
  assume "discord_allows cache f db guild_key actor command"
  then obtain policy voice channel guild member' where facts: "postgres_policy f db guild_key = Inr policy"
    "dk_guild cache (guild_get guild_key) = Some guild"
    "current_cached_member guild (user_get actor)
       (case cg_voice_states guild (user_get actor) of None \<Rightarrow> None | Some state \<Rightarrow> vt_member state) = Some member'"
    "map_option ChannelId (voice_channel guild (user_get actor)) = Some channel"
    "map_option ChannelId (voice_channel guild (dk_current_user cache)) = Some channel"
    "policy_grants policy command (cg_manages guild member') (has_dj_role policy (cm_roles member'))"
    unfolding discord_allows_def granted_iff context_facts [OF assms] by auto
  show "granted cache f db guild_key actor command"
    unfolding granted_def
    by (rule exI [of _ policy], rule exI [of _ guild], rule exI [of _ member'], rule exI [of _ "channel_get channel"])
      (use facts in auto)
next
  assume "granted cache f db guild_key actor command"
  then obtain policy guild member' channel where facts: "postgres_policy f db guild_key = Inr policy"
    "dk_guild cache (guild_get guild_key) = Some guild"
    "current_cached_member guild (user_get actor)
       (case cg_voice_states guild (user_get actor) of None \<Rightarrow> None | Some state \<Rightarrow> vt_member state) = Some member'"
    "voice_channel guild (user_get actor) = Some channel" "voice_channel guild (dk_current_user cache) = Some channel"
    "policy_grants policy command (cg_manages guild member') (has_dj_role policy (cm_roles member'))"
    unfolding granted_def by blast
  obtain voice where voice: "current_voice_context cache (guild_get guild_key) (user_get actor) policy = Inr voice"
    "vc_actor_voice_channel_id voice = Some (ChannelId channel)" "vc_bot_voice_channel_id voice = Some (ChannelId channel)"
    "vc_has_manage_guild voice = cg_manages guild member'" "vc_has_dj_role voice = has_dj_role policy (cm_roles member')"
    unfolding context_facts [OF assms] using facts(2-5) by auto
  show "discord_allows cache f db guild_key actor command"
    unfolding discord_allows_def granted_iff
    by (rule exI [of _ policy], rule exI [of _ voice]) (use facts(1,6) voice in auto)
qed

lemma dashboard_allows_iff:
  assumes "ce_actor_user_id e = Some actor" and "\<not> is_enqueue_media (ce_command e)"
    and "fst owned \<le> shard_id (ce_guild_id e) shards" and "shard_id (ce_guild_id e) shards < snd owned"
  shows "dashboard_authorize cache f db shards owned e = AuthAllowed \<longleftrightarrow> granted cache f db (ce_guild_id e) actor (ce_command e)"
proof (cases "cached_voice_facts cache (guild_get (ce_guild_id e)) (user_get actor) False")
  case (FactsAvailable manages roles)
  then obtain guild member' channel where facts: "dk_guild cache (guild_get (ce_guild_id e)) = Some guild"
    "current_cached_member guild (user_get actor)
       (case cg_voice_states guild (user_get actor) of None \<Rightarrow> None | Some state \<Rightarrow> vt_member state) = Some member'"
    "voice_channel guild (user_get actor) = Some channel" "voice_channel guild (dk_current_user cache) = Some channel"
    "manages = cg_manages guild member'" "roles = cm_roles member'"
    unfolding available_facts by blast
  have "dashboard_authorize cache f db shards owned e = AuthAllowed \<longleftrightarrow>
      (\<exists>policy. postgres_policy f db (ce_guild_id e) = Inr policy \<and>
         policy_grants policy (ce_command e) manages (has_dj_role policy roles))"
    using assms FactsAvailable
    by (auto simp: dashboard_authorize_def Let_def postgres_policy_def guild_control_policy_default_def policy_grants_def
        allows_control_def has_dj_role_def split: sum.split option.split control_policy.split)
  then show ?thesis using facts unfolding granted_def by auto
next
  case FactsDenied
  then have "dashboard_authorize cache f db shards owned e \<noteq> AuthAllowed"
    using assms by (simp add: dashboard_authorize_def Let_def)
  moreover have "\<And>m r. cached_voice_facts cache (guild_get (ce_guild_id e)) (user_get actor) False \<noteq> FactsAvailable m r"
    using FactsDenied by simp
  ultimately show ?thesis unfolding available_facts granted_def by blast
next
  case FactsUnavailable
  then have "dashboard_authorize cache f db shards owned e \<noteq> AuthAllowed"
    using assms by (simp add: dashboard_authorize_def Let_def)
  moreover have "\<And>m r. cached_voice_facts cache (guild_get (ce_guild_id e)) (user_get actor) False \<noteq> FactsAvailable m r"
    using FactsUnavailable by simp
  ultimately show ?thesis unfolding available_facts granted_def by blast
qed

text \<open>Discord and the dashboard agree on who may do what: for every command but the queueing of media, on
  a shard of this process, the dashboard's authorizer allows it exactly when the checks of the
  Discord interactions do, given the same cache and the same stored settings.\<close>

theorem front_ends_authorize_alike:
  assumes "cache_ids cache" and "ce_actor_user_id e = Some actor" and "user_get actor \<noteq> 0"
    and "\<not> is_enqueue_media (ce_command e)"
    and "fst owned \<le> shard_id (ce_guild_id e) shards" and "shard_id (ce_guild_id e) shards < snd owned"
  shows "dashboard_authorize cache f db shards owned e = AuthAllowed \<longleftrightarrow>
    discord_allows cache f db (ce_guild_id e) actor (ce_command e)"
  unfolding discord_allows_iff [OF assms(1,3)] dashboard_allows_iff [OF assms(2,4-6)] ..

lemma map_action_commands:
  assumes "map_action action input snapshot = Inr command"
  shows "command = Stop \<longleftrightarrow> action = ActStop" and "command \<noteq> Disconnect" and "\<not> is_enqueue_media command"
  using assms
  by (auto simp: map_action_def split: component_action.split_asm interaction_input.split_asm if_split_asm option.split_asm
      sum.split_asm)


end
