(* ===== verification/Access_Samples.thy ===== *)
theory Access_Samples
  imports Bot_Access Postgres_Samples
begin

text \<open>A signed button clicked by a member in the bot's voice channel.\<close>

section \<open>Codec\<close>

definition sample_crypto :: component_crypto where
  "sample_crypto = \<lparr>cy_hmac = (\<lambda>key s. replicate 32 (of_nat (length key + length s))),
     cy_encode = map (\<lambda>b. 0x100 + unat b),
     cy_decode = (\<lambda>s. if list_all (\<lambda>c. 0x100 \<le> c \<and> c < 0x200) s then Some (map (\<lambda>c. of_nat (c - 0x100)) s) else None)\<rparr>"

lemma sample_crypto_laws: "crypto_laws sample_crypto"
proof -
  have bound: "unat (b :: u8) < 0x100" for b using unsigned_less [of b] by simp
  have "str_len (map (\<lambda>b. 0x100 + unat b) bytes) \<le> 2 * length bytes" for bytes :: "u8 list"
  proof (induction bytes)
    case (Cons b bytes)
    then show ?case using bound [of b] by (simp add: str_len_def char_len_utf8_def)
  qed (simp add: str_len_def)
  then show ?thesis using bound
    by (auto simp: crypto_laws_def sample_crypto_def list_all_iff comp_def)
qed

definition sample_codec_key :: component_id_codec where "sample_codec_key = \<lparr>cc_key = replicate 32 7\<rparr>"

lemma component_ids_read_back_witness:
  "component_decode sample_crypto sample_codec_key
     (component_encode sample_crypto sample_codec_key ActSkip (GuildId (- 1)) (StateRevision (- 1))) =
   Inr \<lparr>dc_action = ActSkip, dc_guild_id = GuildId (- 1), dc_revision = StateRevision (- 1)\<rparr>"
  using component_ids_read_back [OF sample_crypto_laws, of "GuildId (- 1)"] by simp

definition sample_id :: rstring where
  "sample_id = component_encode sample_crypto sample_codec_key ActSkip (GuildId 5) (StateRevision 3)"

lemma sample_id_decodes:
  "component_decode sample_crypto sample_codec_key sample_id =
   Inr \<lparr>dc_action = ActSkip, dc_guild_id = GuildId 5, dc_revision = StateRevision 3\<rparr>"
  using component_decode_encode(2) [OF sample_crypto_laws, of "GuildId 5"] by (simp add: sample_id_def)

lemma accepted_ids_are_authentic_witness:
  "\<exists>body tag. sample_id = body @ 0x2e # tag \<and>
     cy_decode sample_crypto tag = Some (take TAG_BYTES (cy_hmac sample_crypto (cc_key sample_codec_key) body))"
  using accepted_ids_are_authentic [OF sample_id_decodes] by blast

section \<open>A click\<close>

definition sample_cache :: discord_cache where
  "sample_cache = \<lparr>dk_guild = [5 \<mapsto> \<lparr>
       cg_voice_states = [7 \<mapsto> \<lparr>vt_channel_id = Some 9, vt_member = None\<rparr>, 8 \<mapsto> \<lparr>vt_channel_id = Some 9, vt_member = None\<rparr>],
       cg_members = [7 \<mapsto> \<lparr>cm_user_id = 7, cm_roles = []\<rparr>], cg_manages = (\<lambda>_. False)\<rparr>],
     dk_current_user = 8\<rparr>"

lemma sample_cache_ids: "cache_ids sample_cache"
  by (auto simp: cache_ids_def sample_cache_def split: if_split_asm)

definition sample_click :: component_interaction where
  "sample_click = \<lparr>ci_custom_id = sample_id, ci_guild_id = Some 5, ci_user_id = 7, ci_kind = ButtonKind\<rparr>"

definition sample_player :: "guild_id \<Rightarrow> (player_error + player_snapshot) option" where
  "sample_player g = Some (Inr \<lparr>ps_guild_id = GuildId 5, ps_voice_channel_id = Some (ChannelId 9), ps_revision = StateRevision 3,
     ps_state = Playing, ps_current_track = None, ps_queued_tracks = 0, ps_upcoming_tracks = [], ps_has_previous_track = False,
     ps_volume = Volume 10, ps_repeat_mode = RepeatOff, ps_shuffle_enabled = False, ps_hrir_preset = None,
     ps_spatial_audio_enabled = False, ps_observed_at = UnixTimeMillis 0\<rparr>)"

abbreviation skip_envelope :: command_envelope where
  "skip_envelope \<equiv> command_envelope_new 1 2 (GuildId 5) (Some (UserId 7)) (StateRevision 3) (command_deadline 0) Skip"


lemma front_ends_authorize_alike_witness:
  "dashboard_authorize sample_cache NoFault empty_database 1 (0, 1) (skip_envelope\<lparr>ce_command := Stop\<rparr>) = AuthAllowed \<longleftrightarrow>
     discord_allows sample_cache NoFault empty_database (GuildId 5) (UserId 7) Stop"
  using front_ends_authorize_alike [OF sample_cache_ids, of "skip_envelope\<lparr>ce_command := Stop\<rparr>" "UserId 7" "(0, 1)" 1]
  by (simp add: command_envelope_new_def shard_id_def)

end
