(* ===== verification/Auth_Model.thy ===== *)
theory Auth_Model
  imports Valkey_Store Component_Id
begin

text \<open>
  The data of web authentication (\<open>crates/pepeaudio-auth/src/model.rs\<close>, \<open>config.rs\<close>, \<open>crypto.rs\<close>), its
  cookies (\<open>cookie.rs\<close>) and the Discord side of the login (\<open>discord.rs\<close>). The hash, the JSON of Discord and
  the requests to it are parameters.
\<close>

section \<open>Text\<close>

definition is_base64url :: "rstring \<Rightarrow> bool" where
  "is_base64url value = list_all (\<lambda>c. is_ascii_alphanumeric c \<or> c = 0x2d \<or> c = 0x5f) value"

definition valid_profile_text :: "rstring \<Rightarrow> bool" where
  "valid_profile_text value \<longleftrightarrow> trim value \<noteq> [] \<and> str_len value \<le> 128 \<and> \<not> has_control value"

definition valid_asset_hash :: "rstring \<Rightarrow> bool" where
  "valid_asset_hash value \<longleftrightarrow> value \<noteq> [] \<and> str_len value \<le> 128 \<and>
     list_all (\<lambda>c. is_ascii_alphanumeric c \<or> c = 0x5f) value"

text \<open>The comparison of \<open>subtle\<close> and the one the API writes out: equality of the bytes.\<close>

definition constant_time_eq :: "rstring \<Rightarrow> rstring \<Rightarrow> bool" where
  "constant_time_eq left right \<longleftrightarrow> left = right"

text \<open>A token: 43 characters of base64url.\<close>

definition token_shape :: "rstring \<Rightarrow> bool" where
  "token_shape value \<longleftrightarrow> str_len value = 43 \<and> is_base64url value"

section \<open>Sessions\<close>

record guild_summary =
  gs_id :: guild_id
  gs_name :: rstring
  gs_icon :: "rstring option"
  gs_owner :: bool
  gs_permissions :: u64

record user_profile =
  up_username :: rstring
  up_display_name :: rstring
  up_avatar :: "rstring option"

definition is_none_or :: "('a \<Rightarrow> bool) \<Rightarrow> 'a option \<Rightarrow> bool" where
  "is_none_or P x = (case x of None \<Rightarrow> True | Some v \<Rightarrow> P v)"

definition profile_valid :: "user_profile \<Rightarrow> bool" where
  "profile_valid p \<longleftrightarrow> valid_profile_text (up_username p) \<and> valid_profile_text (up_display_name p) \<and>
     is_none_or valid_asset_hash (up_avatar p)"

definition user_profile_new :: "rstring \<Rightarrow> rstring option \<Rightarrow> rstring option \<Rightarrow> user_profile option" where
  "user_profile_new username global_name avatar =
     (let profile = \<lparr>up_username = username,
                     up_display_name = (case global_name of None \<Rightarrow> username | Some n \<Rightarrow> n), up_avatar = avatar\<rparr>
      in if profile_valid profile then Some profile else None)"

record oauth_projection =
  op_user_id :: user_id
  op_profile :: "user_profile option"
  op_guilds :: "guild_summary list"

record pending_oauth =
  po_verifier :: rstring
  po_created_at_ms :: u64

record session_data =
  sd_schema_version :: u8
  sd_user_id :: user_id
  sd_profile :: "user_profile option"
  sd_csrf_token :: rstring
  sd_guilds :: "guild_summary list"
  sd_created_at_ms :: u64
  sd_expires_at_ms :: u64
  sd_last_seen_at_ms :: u64

definition SCHEMA_VERSION :: u8 where "SCHEMA_VERSION = 1"

fun guilds_valid :: "guild_id set \<Rightarrow> guild_summary list \<Rightarrow> bool" where
  "guilds_valid ids [] = True"
| "guilds_valid ids (g # gs) \<longleftrightarrow>
     gs_id g \<notin> ids \<and> gs_name g \<noteq> [] \<and> str_len (gs_name g) \<le> 256 \<and> \<not> has_control (gs_name g) \<and>
     is_none_or valid_asset_hash (gs_icon g) \<and> guilds_valid (insert (gs_id g) ids) gs"

definition is_valid_shape :: "session_data \<Rightarrow> bool" where
  "is_valid_shape x \<longleftrightarrow>
     sd_schema_version x = SCHEMA_VERSION \<and> str_len (sd_csrf_token x) = 43 \<and> is_base64url (sd_csrf_token x) \<and>
     length (sd_guilds x) \<le> 200 \<and> is_none_or profile_valid (sd_profile x) \<and> guilds_valid {} (sd_guilds x) \<and>
     sd_created_at_ms x \<le> sd_last_seen_at_ms x \<and> sd_last_seen_at_ms x < sd_expires_at_ms x"

definition session_new :: "oauth_projection \<Rightarrow> rstring \<Rightarrow> u64 \<Rightarrow> u64 \<Rightarrow> session_data option" where
  "session_new projection csrf_token now_ms absolute_ttl_ms =
     (case checked_add_u64 now_ms absolute_ttl_ms of
        None \<Rightarrow> None
      | Some expires_at_ms \<Rightarrow>
          let session = \<lparr>sd_schema_version = SCHEMA_VERSION, sd_user_id = op_user_id projection,
                sd_profile = op_profile projection, sd_csrf_token = csrf_token, sd_guilds = op_guilds projection,
                sd_created_at_ms = now_ms, sd_expires_at_ms = expires_at_ms, sd_last_seen_at_ms = now_ms\<rparr>
          in if is_valid_shape session then Some session else None)"

definition has_guild :: "session_data \<Rightarrow> guild_id \<Rightarrow> bool" where
  "has_guild x guild_id = list_ex (\<lambda>g. gs_id g = guild_id) (sd_guilds x)"

record session_view =
  sv_user_id :: user_id
  sv_username :: "rstring option"
  sv_display_name :: "rstring option"
  sv_avatar :: "rstring option"
  sv_csrf_token :: rstring
  sv_created_at_ms :: u64
  sv_expires_at_ms :: u64

definition session_view_from :: "session_data \<Rightarrow> session_view" where
  "session_view_from x =
     \<lparr>sv_user_id = sd_user_id x, sv_username = map_option up_username (sd_profile x),
      sv_display_name = map_option up_display_name (sd_profile x),
      sv_avatar = Option.bind (sd_profile x) up_avatar, sv_csrf_token = sd_csrf_token x,
      sv_created_at_ms = sd_created_at_ms x, sv_expires_at_ms = sd_expires_at_ms x\<rparr>"

record guild_view =
  gv_guild :: guild_summary
  gv_bot_present :: bool

text \<open>The names of the guilds are distinct and each of them is well formed.\<close>

lemma guilds_valid_iff:
  "guilds_valid ids gs \<longleftrightarrow> distinct (map gs_id gs) \<and> (\<forall>g\<in>set gs. gs_id g \<notin> ids \<and> gs_name g \<noteq> [] \<and>
     str_len (gs_name g) \<le> 256 \<and> \<not> has_control (gs_name g) \<and> is_none_or valid_asset_hash (gs_icon g))"
proof (induction ids gs rule: guilds_valid.induct)
  case (2 ids g gs)
  have "gs_id g \<notin> gs_id ` set gs \<longleftrightarrow> (\<forall>x\<in>set gs. gs_id x \<noteq> gs_id g)"
    by (auto simp: image_iff)
  with 2 show ?case by auto
qed simp

lemma session_new_Some:
  assumes "session_new p csrf now ttl = Some x"
  shows "is_valid_shape x" and "sd_user_id x = op_user_id p" and "sd_created_at_ms x = now"
    and "sd_last_seen_at_ms x = now" and "unat (sd_expires_at_ms x) = unat now + unat ttl"
    and "sd_guilds x = op_guilds p" and "sd_csrf_token x = csrf"
  using assms by (auto simp: session_new_def Let_def checked_add_u64_Some unat_add_u64 split: option.splits if_split_asm)

lemma has_guild_iff: "has_guild x g \<longleftrightarrow> g \<in> gs_id ` set (sd_guilds x)"
  by (auto simp: has_guild_def list_ex_iff)

section \<open>Configuration\<close>

datatype auth_config_error =
  InvalidClientId | WeakClientSecret | InvalidRedirectUri | ZeroDuration | IdleExceedsAbsolute
  | AbsoluteLifetimeTooLong | StateLifetimeTooLong | InvalidKeyspace | InvalidSuccessRedirect

text \<open>Durations are in nanoseconds.\<close>

definition from_mins :: "nat \<Rightarrow> nat" where "from_mins n = n * 60 * 10 ^ 9"

definition MAX_SESSION_ABSOLUTE_TTL :: nat where "MAX_SESSION_ABSOLUTE_TTL = from_mins 30"
definition DEFAULT_SESSION_IDLE_TTL :: nat where "DEFAULT_SESSION_IDLE_TTL = from_mins 30"
definition DEFAULT_OAUTH_STATE_TTL :: nat where "DEFAULT_OAUTH_STATE_TTL = from_mins 5"

record session_policy =
  sp_absolute_ttl :: nat
  sp_idle_ttl :: nat
  sp_oauth_state_ttl :: nat

definition session_policy_new :: "nat \<Rightarrow> nat \<Rightarrow> nat \<Rightarrow> auth_config_error + session_policy" where
  "session_policy_new absolute_ttl idle_ttl oauth_state_ttl =
     (if absolute_ttl = 0 \<or> idle_ttl = 0 \<or> oauth_state_ttl = 0 then Inl ZeroDuration
      else if idle_ttl > absolute_ttl then Inl IdleExceedsAbsolute
      else if absolute_ttl > MAX_SESSION_ABSOLUTE_TTL then Inl AbsoluteLifetimeTooLong
      else if oauth_state_ttl > from_mins 10 then Inl StateLifetimeTooLong
      else Inr \<lparr>sp_absolute_ttl = absolute_ttl, sp_idle_ttl = idle_ttl, sp_oauth_state_ttl = oauth_state_ttl\<rparr>)"

definition session_policy_default :: session_policy where
  "session_policy_default = \<lparr>sp_absolute_ttl = MAX_SESSION_ABSOLUTE_TTL, sp_idle_ttl = DEFAULT_SESSION_IDLE_TTL,
     sp_oauth_state_ttl = DEFAULT_OAUTH_STATE_TTL\<rparr>"

text \<open>What \<open>url::Url\<close> finds in a parsed URL.\<close>

record redirect_url =
  ru_scheme :: rstring
  ru_host :: "rstring option"
  ru_username :: rstring
  ru_password :: "rstring option"
  ru_query :: "rstring option"
  ru_fragment :: "rstring option"
  ru_text :: rstring

definition validate_snowflake :: "rstring \<Rightarrow> auth_config_error + unit" where
  "validate_snowflake value =
     (if str_len value > 20 \<or> is_none_or (\<lambda>i. i = 0) (from_str_radix 10 value) then Inl InvalidClientId else Inr ())"

definition validate_redirect_uri :: "redirect_url \<Rightarrow> auth_config_error + unit" where
  "validate_redirect_uri u =
     (if ru_scheme u = str ''https'' \<and> ru_host u \<noteq> None \<and> ru_username u = [] \<and> ru_password u = None \<and>
         ru_query u = None \<and> ru_fragment u = None
      then Inr () else Inl InvalidRedirectUri)"

record discord_oauth_config =
  dc_client_id :: rstring
  dc_client_secret :: rstring
  dc_redirect_uri :: redirect_url

definition discord_oauth_config_new ::
  "rstring \<Rightarrow> rstring \<Rightarrow> redirect_url \<Rightarrow> auth_config_error + discord_oauth_config" where
  "discord_oauth_config_new client_id client_secret redirect_uri =
     (case validate_snowflake client_id of
        Inl e \<Rightarrow> Inl e
      | Inr _ \<Rightarrow>
          if str_len client_secret < 16 then Inl WeakClientSecret
          else case validate_redirect_uri redirect_uri of
                 Inl e \<Rightarrow> Inl e
               | Inr _ \<Rightarrow> Inr \<lparr>dc_client_id = client_id, dc_client_secret = client_secret, dc_redirect_uri = redirect_uri\<rparr>)"

record auth_config =
  ac_discord :: discord_oauth_config
  ac_session :: session_policy
  ac_keyspace :: rstring
  ac_success_redirect :: rstring

definition auth_config_new ::
  "discord_oauth_config \<Rightarrow> session_policy \<Rightarrow> rstring \<Rightarrow> rstring \<Rightarrow> auth_config_error + auth_config" where
  "auth_config_new discord session keyspace success_redirect =
     (if keyspace = [] \<or> str_len keyspace > 64 \<or>
         \<not> list_all (\<lambda>c. is_ascii_alphanumeric c \<or> c = 0x3a \<or> c = 0x2d \<or> c = 0x5f) keyspace
      then Inl InvalidKeyspace
      else if take 1 success_redirect \<noteq> str ''/'' \<or> take 2 success_redirect = str ''//'' \<or>
              list_ex (\<lambda>c. c = 0x0d \<or> c = 0x0a \<or> c = 0x5c) success_redirect
      then Inl InvalidSuccessRedirect
      else Inr \<lparr>ac_discord = discord, ac_session = session, ac_keyspace = keyspace, ac_success_redirect = success_redirect\<rparr>)"

lemma session_policy_new_Inr:
  "session_policy_new a i o_ttl = Inr p \<longleftrightarrow> 0 < i \<and> i \<le> a \<and> a \<le> from_mins 30 \<and> 0 < o_ttl \<and> o_ttl \<le> from_mins 10 \<and>
     p = \<lparr>sp_absolute_ttl = a, sp_idle_ttl = i, sp_oauth_state_ttl = o_ttl\<rparr>"
  by (auto simp: session_policy_new_def MAX_SESSION_ABSOLUTE_TTL_def)

end
