(* ===== verification/Auth_Cookie.thy ===== *)
theory Auth_Cookie
  imports Auth_Model
begin

text \<open>
  The cookies of the authentication routes (\<open>crates/pepeaudio-auth/src/cookie.rs\<close>) and the cookie the
  API reads (\<open>crates/pepeaudio-api/src/auth.rs\<close>), over the header map of a request: pairs of a lower-case
  name and the bytes of a value, in the order they were sent.
\<close>

section \<open>Headers\<close>

type_synonym header_map = "(rstring \<times> rstring) list"

definition COOKIE :: rstring where "COOKIE = str ''cookie''"
definition CSRF_HEADER :: rstring where "CSRF_HEADER = str ''x-csrf-token''"
definition SESSION_COOKIE :: rstring where "SESSION_COOKIE = str ''__Host-pepeaudio_session''"
definition OAUTH_STATE_COOKIE :: rstring where "OAUTH_STATE_COOKIE = str ''__Host-pepeaudio_oauth_state''"

text \<open>\<open>HeaderMap::get\<close> is the first value of a name, \<open>get_all\<close> all of them; \<open>HeaderValue::to_str\<close> accepts
  visible ASCII and the tab.\<close>

definition header_get :: "header_map \<Rightarrow> rstring \<Rightarrow> rstring option" where
  "header_get headers name = map_of headers name"

definition header_get_all :: "header_map \<Rightarrow> rstring \<Rightarrow> rstring list" where
  "header_get_all headers name = map snd (filter (\<lambda>h. fst h = name) headers)"

definition header_to_str :: "rstring \<Rightarrow> rstring option" where
  "header_to_str value = (if list_all (\<lambda>b. b = 9 \<or> 0x20 \<le> b \<and> b < 0x7f) value then Some value else None)"

section \<open>The cookies of the authentication routes\<close>

datatype cookie_error = CookieMalformed

fun scan_pairs :: "rstring \<Rightarrow> rstring option \<Rightarrow> rstring list \<Rightarrow> cookie_error + rstring option" where
  "scan_pairs expected_name found [] = Inr found"
| "scan_pairs expected_name found (pair # pairs) =
     (case split_once 0x3d (trim pair) of
        None \<Rightarrow> scan_pairs expected_name found pairs
      | Some (name, value) \<Rightarrow>
          if name \<noteq> expected_name then scan_pairs expected_name found pairs
          else if found \<noteq> None \<or> str_len value \<noteq> 43 \<or> \<not> is_base64url value then Inl CookieMalformed
          else scan_pairs expected_name (Some value) pairs)"

fun scan_lines :: "rstring \<Rightarrow> rstring option \<Rightarrow> rstring list \<Rightarrow> cookie_error + rstring option" where
  "scan_lines expected_name found [] = Inr found"
| "scan_lines expected_name found (line # lines) =
     (case header_to_str line of
        None \<Rightarrow> Inl CookieMalformed
      | Some text \<Rightarrow>
          (case scan_pairs expected_name found (split_char 0x3b text) of
             Inl e \<Rightarrow> Inl e
           | Inr found' \<Rightarrow> scan_lines expected_name found' lines))"

definition canonical_cookie :: "header_map \<Rightarrow> rstring \<Rightarrow> cookie_error + rstring option" where
  "canonical_cookie headers expected_name = scan_lines expected_name None (header_get_all headers COOKIE)"

definition session_cookie :: "header_map \<Rightarrow> cookie_error + rstring option" where
  "session_cookie headers = canonical_cookie headers SESSION_COOKIE"

definition oauth_state_cookie :: "header_map \<Rightarrow> cookie_error + rstring option" where
  "oauth_state_cookie headers = canonical_cookie headers OAUTH_STATE_COOKIE"

definition validate_csrf :: "header_map \<Rightarrow> rstring \<Rightarrow> bool" where
  "validate_csrf headers expected =
     (case Option.bind (header_get headers CSRF_HEADER) header_to_str of
        None \<Rightarrow> False
      | Some supplied \<Rightarrow> str_len supplied = str_len expected \<and> constant_time_eq supplied expected)"

text \<open>\<open>Duration::as_secs\<close> drops the fraction.\<close>

definition as_secs :: "nat \<Rightarrow> nat" where "as_secs d = d div 10 ^ 9"

definition secure_cookie :: "rstring \<Rightarrow> rstring \<Rightarrow> nat \<Rightarrow> rstring" where
  "secure_cookie name value max_age =
     name @ str ''='' @ value @ str ''; Path=/; Max-Age='' @ decimal_digits max_age @ str ''; Secure; HttpOnly; SameSite=Lax''"

definition session_set_cookie :: "rstring \<Rightarrow> nat \<Rightarrow> rstring" where
  "session_set_cookie token absolute_ttl = secure_cookie SESSION_COOKIE token (as_secs absolute_ttl)"

definition state_set_cookie :: "rstring \<Rightarrow> nat \<Rightarrow> rstring" where
  "state_set_cookie state ttl = secure_cookie OAUTH_STATE_COOKIE state (as_secs ttl)"

definition clear_cookie :: "rstring \<Rightarrow> rstring" where
  "clear_cookie name = name @ str ''=; Path=/; Max-Age=0; Secure; HttpOnly; SameSite=Lax''"

definition clear_session_cookie :: rstring where "clear_session_cookie = clear_cookie SESSION_COOKIE"

definition clear_state_cookie :: rstring where "clear_state_cookie = clear_cookie OAUTH_STATE_COOKIE"

section \<open>The cookie the API reads\<close>

definition api_cookie_value :: "rstring \<Rightarrow> rstring option" where
  "api_cookie_value pair =
     (case split_once 0x3d (trim pair) of
        None \<Rightarrow> None
      | Some (name, value) \<Rightarrow>
          if name = SESSION_COOKIE \<and> value \<noteq> [] \<and> str_len value \<le> 256 \<and> is_base64url value then Some value else None)"

text \<open>\<open>filter_map\<close> over the lines, \<open>flat_map\<close> over their pairs, then \<open>find_map\<close>.\<close>

fun find_map :: "('a \<Rightarrow> 'b option) \<Rightarrow> 'a list \<Rightarrow> 'b option" where
  "find_map f [] = None"
| "find_map f (x # xs) = (case f x of Some y \<Rightarrow> Some y | None \<Rightarrow> find_map f xs)"

definition api_session_cookie :: "header_map \<Rightarrow> rstring option" where
  "api_session_cookie headers =
     find_map api_cookie_value
       (concat (map (\<lambda>v. case header_to_str v of None \<Rightarrow> [] | Some line \<Rightarrow> split_char 0x3b line)
         (header_get_all headers COOKIE)))"

section \<open>The two readings agree\<close>

lemma find_map_append: "find_map f (xs @ ys) = (case find_map f xs of Some y \<Rightarrow> Some y | None \<Rightarrow> find_map f ys)"
  by (induction xs) (auto split: option.split)

text \<open>Once a value is found it is the answer, and a token is found by the API too.\<close>

lemma scan_pairs_found: "scan_pairs n (Some v) ps = Inr r \<Longrightarrow> r = Some v"
  by (induction n "Some v" ps arbitrary: v rule: scan_pairs.induct) (auto split: option.splits if_splits)

lemma scan_lines_found: "scan_lines n (Some v) ls = Inr r \<Longrightarrow> r = Some v"
proof (induction ls)
  case (Cons l ls)
  then show ?case by (auto split: option.splits sum.splits dest: scan_pairs_found)
qed simp

lemma token_nonempty: "str_len v = 43 \<Longrightarrow> v \<noteq> []"
  by auto

lemma scan_pairs_api:
  assumes "scan_pairs SESSION_COOKIE None ps = Inr r"
  shows "find_map api_cookie_value ps = r"
  using assms
proof (induction ps)
  case (Cons p ps)
  show ?case
  proof (cases "split_once 0x3d (trim p)")
    case None
    with Cons show ?thesis by (simp add: api_cookie_value_def)
  next
    case (Some nv)
    obtain name v where nv: "nv = (name, v)" by (cases nv)
    show ?thesis
    proof (cases "name = SESSION_COOKIE")
      case False
      with Cons Some nv show ?thesis by (simp add: api_cookie_value_def)
    next
      case True
      with Cons.prems Some nv have "str_len v = 43" "is_base64url v" "scan_pairs SESSION_COOKIE (Some v) ps = Inr r"
        by (auto split: if_splits)
      with Some nv True show ?thesis
        by (auto simp: api_cookie_value_def token_nonempty dest: scan_pairs_found)
    qed
  qed
qed simp

lemma scan_lines_api:
  assumes "scan_lines SESSION_COOKIE None ls = Inr r"
  shows "find_map api_cookie_value
    (concat (map (\<lambda>v. case header_to_str v of None \<Rightarrow> [] | Some line \<Rightarrow> split_char 0x3b line) ls)) = r"
  using assms
proof (induction ls)
  case (Cons l ls)
  then obtain tx found where tx: "header_to_str l = Some tx"
      and found: "scan_pairs SESSION_COOKIE None (split_char 0x3b tx) = Inr found"
      and rest: "scan_lines SESSION_COOKIE found ls = Inr r"
    by (auto split: option.splits sum.splits)
  show ?case
  proof (cases found)
    case None
    with Cons.IH rest scan_pairs_api [OF found] tx show ?thesis by (simp add: find_map_append)
  next
    case (Some v)
    with rest scan_lines_found have "r = Some v" by blast
    with scan_pairs_api [OF found] tx Some show ?thesis by (simp add: find_map_append)
  qed
qed simp

text \<open>Whenever the authentication routes accept the cookies of a request, the API reads the same session
  cookie from it: the same token, or none.\<close>

lemma cookies_agree:
  assumes "session_cookie headers = Inr found"
  shows "api_session_cookie headers = found"
  using scan_lines_api assms by (simp add: session_cookie_def canonical_cookie_def api_session_cookie_def)

text \<open>What is read is a token.\<close>

lemma scan_pairs_token:
  "scan_pairs n found ps = Inr (Some v) \<Longrightarrow> (\<And>w. found = Some w \<Longrightarrow> token_shape w) \<Longrightarrow> token_shape v"
  by (induction n found ps rule: scan_pairs.induct)
    (auto simp: token_shape_def split: option.splits prod.splits if_splits)

lemma scan_lines_token:
  "scan_lines n found ls = Inr (Some v) \<Longrightarrow> (\<And>w. found = Some w \<Longrightarrow> token_shape w) \<Longrightarrow> token_shape v"
proof (induction ls arbitrary: found)
  case (Cons l ls)
  then obtain tx found' where f: "scan_pairs n found (split_char 0x3b tx) = Inr found'"
      and rest: "scan_lines n found' ls = Inr (Some v)"
    by (auto split: option.splits sum.splits)
  have "\<And>w. found' = Some w \<Longrightarrow> token_shape w" using scan_pairs_token f Cons.prems(2) by blast
  with Cons.IH rest show ?case by blast
qed simp

lemma cookie_is_token: "canonical_cookie headers n = Inr (Some v) \<Longrightarrow> token_shape v"
  unfolding canonical_cookie_def by (rule scan_lines_token) auto

end
