(* ===== verification/Api_Auth.thy ===== *)
theory Api_Auth
  imports Auth_Cookie Player_Snapshot
begin

text \<open>
  The requests of the HTTP API before they reach a handler's work, \<open>crates/pepeaudio-api/src\<close>: identities
  (\<open>auth.rs\<close>, \<open>auth/session_fingerprint.rs\<close>), the headers of a mutation (\<open>validation.rs\<close>), the policy
  (\<open>config.rs\<close>) and the errors (\<open>error.rs\<close>). The parsers of URIs and UUIDs are parameters.
\<close>

section \<open>Bytes\<close>

text \<open>The UTF-8 bytes of a string.\<close>

definition char_bytes :: "rchar \<Rightarrow> u8 list" where
  "char_bytes c =
     (if c < 0x80 then [of_nat c]
      else if c < 0x800 then [of_nat (0xc0 + c div 64), of_nat (0x80 + c mod 64)]
      else if c < 0x10000 then [of_nat (0xe0 + c div 4096), of_nat (0x80 + c div 64 mod 64), of_nat (0x80 + c mod 64)]
      else [of_nat (0xf0 + c div 262144), of_nat (0x80 + c div 4096 mod 64), of_nat (0x80 + c div 64 mod 64),
            of_nat (0x80 + c mod 64)])"

definition as_bytes :: "rstring \<Rightarrow> u8 list" where
  "as_bytes s = concat (map char_bytes s)"

unbundle bit_operations_syntax

text \<open>The difference of the lengths, a \<open>usize\<close>, takes in that of every shared byte.\<close>

fun byte_difference :: "u64 \<Rightarrow> u8 list \<Rightarrow> u8 list \<Rightarrow> u64" where
  "byte_difference difference (l # left) (r # right) = byte_difference (difference OR ucast (l XOR r)) left right"
| "byte_difference difference _ _ = difference"

definition constant_time_equal :: "u8 list \<Rightarrow> u8 list \<Rightarrow> bool" where
  "constant_time_equal left right \<longleftrightarrow> byte_difference (of_nat (length left) XOR of_nat (length right)) left right = 0"

lemma or_zero: "(a OR b :: u64) = 0 \<longleftrightarrow> a = 0 \<and> b = 0"
  by (rule or_eq_0_iff)

lemma xor_zero: "(a XOR b :: 'a::len word) = 0 \<longleftrightarrow> a = b"
proof
  assume "a XOR b = 0"
  then have "(a XOR b) XOR b = 0 XOR b" by simp
  then show "a = b" by (simp add: xor.assoc)
qed simp

lemma ucast_byte_zero: "(ucast (b :: u8) :: u64) = 0 \<longleftrightarrow> b = 0"
proof
  assume "(ucast b :: u64) = 0"
  then have "take_bit 64 (unat b) = 0" by (simp add: unsigned_ucast_eq flip: unat_eq_0)
  moreover have "unat b < 2 ^ 64" by (rule order_less_trans [OF unsigned_less]) simp
  ultimately show "b = 0" by (simp add: take_bit_nat_eq_self unat_eq_0)
qed simp

lemma byte_difference_zero:
  "byte_difference d left right = 0 \<longleftrightarrow> d = 0 \<and> take (length right) left = take (length left) right"
  by (induction d left right rule: byte_difference.induct) (auto simp: or_zero xor_zero ucast_byte_zero)

text \<open>The comparison is equality, for lengths that fit a \<open>usize\<close>.\<close>

lemma constant_time_equal_iff:
  assumes "length left < 2 ^ 64" and "length right < 2 ^ 64"
  shows "constant_time_equal left right \<longleftrightarrow> left = right"
proof -
  have "(of_nat (length left) :: u64) = of_nat (length right) \<longleftrightarrow> length left = length right"
    using assms by (metis unat_u64_of_nat)
  then show ?thesis by (auto simp: constant_time_equal_def byte_difference_zero xor_zero)
qed

lemma char_bytes_ascii: "c < 0x80 \<Longrightarrow> char_bytes c = [of_nat c]"
  by (simp add: char_bytes_def)

lemma as_bytes_ascii: "list_all (\<lambda>c. c < 0x80) s \<Longrightarrow> as_bytes s = map of_nat s"
  by (induction s) (simp_all add: as_bytes_def char_bytes_ascii)

lemma length_char_bytes: "length (char_bytes c) = char_len_utf8 c"
  by (simp add: char_bytes_def char_len_utf8_def)

lemma length_as_bytes: "length (as_bytes s) = str_len s"
  by (induction s) (simp_all add: as_bytes_def length_char_bytes)

lemma ascii_byte_inj: "c < 0x80 \<Longrightarrow> d < 0x80 \<Longrightarrow> (of_nat c :: u8) = of_nat d \<longleftrightarrow> c = d"
proof
  have byte: "n < 0x80 \<Longrightarrow> unat (of_nat n :: u8) = n" for n
    by (simp add: unat_of_nat take_bit_eq_mod)
  assume "c < 0x80" "d < 0x80" "(of_nat c :: u8) = of_nat d"
  then show "c = d" using byte by metis
qed simp

lemma as_bytes_ascii_inject:
  "list_all (\<lambda>c. c < 0x80) s \<Longrightarrow> list_all (\<lambda>c. c < 0x80) t \<Longrightarrow> as_bytes s = as_bytes t \<longleftrightarrow> s = t"
  unfolding as_bytes_ascii
proof (induction s arbitrary: t)
  case (Cons c s)
  then show ?case by (cases t) (auto simp: ascii_byte_inj)
qed auto

section \<open>Identities\<close>

datatype principal_config_error = WeakCsrfToken | InvalidSessionFingerprint

datatype session_fingerprint = SessionFingerprint (fingerprint_str: rstring)

definition has_canonical_final_sextet :: "rstring \<Rightarrow> bool" where
  "has_canonical_final_sextet encoded \<longleftrightarrow> encoded \<noteq> [] \<and> last encoded \<in> set (str ''AEIMQUYcgkosw048'')"

definition session_fingerprint_new :: "rstring \<Rightarrow> principal_config_error + session_fingerprint" where
  "session_fingerprint_new encoded =
     (if str_len encoded \<noteq> 43 \<or> \<not> is_base64url encoded \<or> \<not> has_canonical_final_sextet encoded
      then Inl InvalidSessionFingerprint else Inr (SessionFingerprint encoded))"

record principal =
  pl_user_id :: user_id
  pl_csrf_token :: rstring
  pl_session_fingerprint :: "session_fingerprint option"

definition principal_from_session :: "user_id \<Rightarrow> rstring \<Rightarrow> session_fingerprint \<Rightarrow> principal_config_error + principal" where
  "principal_from_session user csrf_token fingerprint =
     (if str_len csrf_token < 16 then Inl WeakCsrfToken
      else Inr \<lparr>pl_user_id = user, pl_csrf_token = csrf_token, pl_session_fingerprint = Some fingerprint\<rparr>)"

record session_record =
  sr_user_id :: user_id
  sr_csrf_token :: rstring
  sr_session_fingerprint :: session_fingerprint

datatype authentication_error = AuthnUnauthenticated | AuthnUnavailable

text \<open>\<open>SessionAuthenticator\<close>: the store's \<open>load_session\<close> is an argument.\<close>

definition session_authenticate ::
  "(rstring \<Rightarrow> 's \<Rightarrow> (authentication_error + session_record) \<times> 's) \<Rightarrow> header_map \<Rightarrow> 's \<Rightarrow>
     (authentication_error + principal) \<times> 's" where
  "session_authenticate load_session headers s =
     (case api_session_cookie headers of
        None \<Rightarrow> (Inl AuthnUnauthenticated, s)
      | Some token \<Rightarrow>
          (case load_session token s of
             (Inl e, t) \<Rightarrow> (Inl e, t)
           | (Inr session, t) \<Rightarrow>
               (case principal_from_session (sr_user_id session) (sr_csrf_token session) (sr_session_fingerprint session) of
                  Inl _ \<Rightarrow> (Inl AuthnUnavailable, t)
                | Inr p \<Rightarrow> (Inr p, t))))"

definition DEV_USER_HEADER :: rstring where "DEV_USER_HEADER = str ''x-pepeaudio-dev-user-id''"

record dev_header_authenticator =
  dv_user_id :: user_id
  dv_csrf_token :: rstring

definition dev_header_authenticator_new :: "user_id \<Rightarrow> rstring \<Rightarrow> principal_config_error + dev_header_authenticator" where
  "dev_header_authenticator_new user csrf_token =
     (if str_len csrf_token < 16 then Inl WeakCsrfToken else Inr \<lparr>dv_user_id = user, dv_csrf_token = csrf_token\<rparr>)"

definition dev_authenticate :: "dev_header_authenticator \<Rightarrow> header_map \<Rightarrow> authentication_error + principal" where
  "dev_authenticate dev headers =
     (case Option.bind (header_get headers DEV_USER_HEADER) header_to_str of
        None \<Rightarrow> Inl AuthnUnauthenticated
      | Some supplied \<Rightarrow>
          (case snowflake_from_str supplied of
             Inl _ \<Rightarrow> Inl AuthnUnauthenticated
           | Inr n \<Rightarrow>
               if UserId n \<noteq> dv_user_id dev then Inl AuthnUnauthenticated
               else Inr \<lparr>pl_user_id = dv_user_id dev, pl_csrf_token = dv_csrf_token dev, pl_session_fingerprint = None\<rparr>))"

section \<open>Errors\<close>

datatype authorization_error = AuthzForbidden | AuthzUnavailable

datatype port_error = PortNotFound | PortUnavailable | PortInternal

datatype route_error =
  RouteNotFound | RouteRevisionConflict state_revision state_revision | RouteInvalidCommand | RouteIdempotencyConflict
  | RouteRateLimited nat | RouteUnavailable | RouteInternal

datatype api_error =
  ApiBadRequest rstring | ApiUnauthenticated | ApiForbidden | ApiNotFound | ApiCommandResultNotFound
  | ApiRevisionConflict state_revision | ApiIdempotencyConflict | ApiInvalidCommand | ApiCommandRateLimited nat
  | ApiUnavailable | ApiSseCapacityExceeded | ApiInternal

definition invalid_request :: api_error where
  "invalid_request = ApiBadRequest (str ''request validation failed'')"

fun api_from_authentication :: "authentication_error \<Rightarrow> api_error" where
  "api_from_authentication AuthnUnauthenticated = ApiUnauthenticated"
| "api_from_authentication AuthnUnavailable = ApiUnavailable"

fun api_from_authorization :: "authorization_error \<Rightarrow> api_error" where
  "api_from_authorization AuthzForbidden = ApiForbidden"
| "api_from_authorization AuthzUnavailable = ApiUnavailable"

fun api_from_port :: "port_error \<Rightarrow> api_error" where
  "api_from_port PortNotFound = ApiNotFound"
| "api_from_port PortUnavailable = ApiUnavailable"
| "api_from_port PortInternal = ApiInternal"

fun api_from_route :: "route_error \<Rightarrow> api_error" where
  "api_from_route RouteNotFound = ApiNotFound"
| "api_from_route (RouteRevisionConflict _ actual) = ApiRevisionConflict actual"
| "api_from_route RouteInvalidCommand = ApiInvalidCommand"
| "api_from_route RouteIdempotencyConflict = ApiIdempotencyConflict"
| "api_from_route (RouteRateLimited retry_after) = ApiCommandRateLimited retry_after"
| "api_from_route RouteUnavailable = ApiUnavailable"
| "api_from_route RouteInternal = ApiInternal"

text \<open>The status, the code, the message and the revision of an error's document.\<close>

definition response_parts :: "api_error \<Rightarrow> nat \<times> rstring \<times> rstring \<times> state_revision option" where
  "response_parts e =
     (case e of
        ApiBadRequest message \<Rightarrow>
          (400, str ''invalid_request'', message, None)
      | ApiUnauthenticated \<Rightarrow>
          (401, str ''authentication_required'', str ''authentication is required'', None)
      | ApiForbidden \<Rightarrow>
          (403, str ''forbidden'', str ''the operation is not permitted'', None)
      | ApiNotFound \<Rightarrow>
          (404, str ''player_not_found'', str ''the guild player was not found'', None)
      | ApiCommandResultNotFound \<Rightarrow>
          (404, str ''command_result_not_found'', str ''the command result expired or was not found'', None)
      | ApiRevisionConflict actual \<Rightarrow>
          (409, str ''revision_conflict'', str ''the player state changed; fetch a fresh snapshot'', Some actual)
      | ApiIdempotencyConflict \<Rightarrow>
          (409, str ''idempotency_conflict'', str ''the idempotency key was already used for another request'', None)
      | ApiInvalidCommand \<Rightarrow>
          (422, str ''invalid_player_command'', str ''the player command is invalid for the current state'', None)
      | ApiCommandRateLimited _ \<Rightarrow>
          (429, str ''player_command_rate_limited'', str ''too many player commands were submitted; retry later'', None)
      | ApiUnavailable \<Rightarrow>
          (503, str ''service_unavailable'', str ''a required service is temporarily unavailable'', None)
      | ApiSseCapacityExceeded \<Rightarrow>
          (429, str ''sse_capacity_exhausted'', str ''too many live event streams are open; retry later'', None)
      | ApiInternal \<Rightarrow>
          (500, str ''internal_error'', str ''the request could not be completed'', None))"

text \<open>Durations are in nanoseconds; \<open>as_millis\<close> is a \<open>u128\<close>.\<close>

definition retry_after_seconds :: "api_error \<Rightarrow> nat option" where
  "retry_after_seconds e =
     (case e of
        ApiCommandRateLimited retry_after \<Rightarrow>
          let millis = retry_after div 10 ^ 6; rounded_up = min (millis + 999) (2 ^ 128 - 1) div 1000
          in Some (max 1 (min 60 rounded_up))
      | ApiSseCapacityExceeded \<Rightarrow> Some 5
      | _ \<Rightarrow> None)"

lemma retry_after_bounds: "retry_after_seconds e = Some n \<Longrightarrow> 1 \<le> n \<and> n \<le> 60"
  unfolding retry_after_seconds_def Let_def by (cases e) auto

section \<open>The policy\<close>

datatype api_config_error = InvalidOrigin | ZeroCommandTtl

record api_config =
  ap_allowed_origin :: rstring
  ap_command_ttl :: nat

record uri_parts =
  uri_scheme :: "rstring option"
  uri_authority :: "rstring option"
  uri_path :: rstring
  uri_query :: "rstring option"

definition validate_origin :: "(rstring \<Rightarrow> uri_parts option) \<Rightarrow> rstring \<Rightarrow> api_config_error + unit" where
  "validate_origin parse_uri value =
     (if value = str ''*'' \<or> 0x2c \<in> set value \<or> list_ex is_whitespace value then Inl InvalidOrigin
      else case parse_uri value of
             None \<Rightarrow> Inl InvalidOrigin
           | Some uri \<Rightarrow>
               (case uri_scheme uri of
                  None \<Rightarrow> Inl InvalidOrigin
                | Some scheme \<Rightarrow>
                    if scheme \<noteq> str ''http'' \<and> scheme \<noteq> str ''https'' \<or> uri_authority uri = None \<or> uri_path uri \<noteq> str ''/'' \<or>
                       uri_query uri \<noteq> None \<or> (value \<noteq> [] \<and> last value = 0x2f) \<or> 0x23 \<in> set value
                    then Inl InvalidOrigin else Inr ()))"

text \<open>\<open>HeaderValue::from_str\<close> refuses control characters but for the tab.\<close>

definition header_from_str :: "rstring \<Rightarrow> rstring option" where
  "header_from_str value = (if list_all (\<lambda>b. (0x20 \<le> b \<and> b \<noteq> 0x7f) \<or> b = 9) value then Some value else None)"

definition api_config_new :: "(rstring \<Rightarrow> uri_parts option) \<Rightarrow> rstring \<Rightarrow> nat \<Rightarrow> api_config_error + api_config" where
  "api_config_new parse_uri allowed_origin command_ttl =
     (case validate_origin parse_uri allowed_origin of
        Inl e \<Rightarrow> Inl e
      | Inr _ \<Rightarrow>
          if command_ttl = 0 then Inl ZeroCommandTtl
          else case header_from_str allowed_origin of
                 None \<Rightarrow> Inl InvalidOrigin
               | Some origin \<Rightarrow> Inr \<lparr>ap_allowed_origin = origin, ap_command_ttl = command_ttl\<rparr>)"

section \<open>Validation\<close>

definition IDEMPOTENCY_HEADER :: rstring where "IDEMPOTENCY_HEADER = str ''idempotency-key''"
definition LAST_EVENT_ID_HEADER :: rstring where "LAST_EVENT_ID_HEADER = str ''last-event-id''"
definition FETCH_SITE_HEADER :: rstring where "FETCH_SITE_HEADER = str ''sec-fetch-site''"
definition ORIGIN :: rstring where "ORIGIN = str ''origin''"

definition path_guild_id :: "rstring \<Rightarrow> api_error + guild_id" where
  "path_guild_id value =
     (case guild_id_from_str value of Inl _ \<Rightarrow> Inl (ApiBadRequest (str ''invalid guild ID'')) | Inr g \<Rightarrow> Inr g)"

definition validate_mutation_headers ::
  "(rstring \<Rightarrow> uuid option) \<Rightarrow> header_map \<Rightarrow> api_config \<Rightarrow> principal \<Rightarrow> api_error + uuid" where
  "validate_mutation_headers parse_uuid headers config who =
     (case header_get headers ORIGIN of
        None \<Rightarrow> Inl ApiForbidden
      | Some origin \<Rightarrow>
      if origin \<noteq> ap_allowed_origin config then Inl ApiForbidden
      else if header_get headers FETCH_SITE_HEADER \<noteq> Some (str ''same-origin'') then Inl ApiForbidden
      else case header_get headers CSRF_HEADER of
        None \<Rightarrow> Inl ApiForbidden
      | Some csrf \<Rightarrow>
      (case header_to_str csrf of
        None \<Rightarrow> Inl ApiForbidden
      | Some supplied_csrf \<Rightarrow>
      if \<not> constant_time_equal (as_bytes supplied_csrf) (as_bytes (pl_csrf_token who)) then Inl ApiForbidden
      else case header_get headers IDEMPOTENCY_HEADER of
        None \<Rightarrow> Inl (ApiBadRequest (str ''idempotency-key header is required''))
      | Some key \<Rightarrow>
      (case Option.bind (header_to_str key) parse_uuid of
        None \<Rightarrow> Inl (ApiBadRequest (str ''idempotency-key must be a UUID''))
      | Some idempotency \<Rightarrow>
          if idempotency = 0 then Inl (ApiBadRequest (str ''idempotency-key must not be nil'')) else Inr idempotency)))"

definition api_command_deadline :: "unix_time_millis \<Rightarrow> api_config \<Rightarrow> api_error + unix_time_millis" where
  "api_command_deadline now config =
     (let ttl = ap_command_ttl config div 10 ^ 6
      in if ttl \<ge> 2 ^ 64 then Inl ApiInternal
         else case checked_add_u64 (millis_get now) (of_nat ttl) of
                None \<Rightarrow> Inl ApiInternal
              | Some at \<Rightarrow> Inr (UnixTimeMillis at))"

definition last_event_id :: "header_map \<Rightarrow> api_error + state_revision option" where
  "last_event_id headers =
     (case header_get headers LAST_EVENT_ID_HEADER of
        None \<Rightarrow> Inr None
      | Some value \<Rightarrow>
          (case Option.bind (header_to_str value) (from_str_radix 10) of
             None \<Rightarrow> Inl (ApiBadRequest (str ''last-event-id must be a revision''))
           | Some n \<Rightarrow> Inr (Some (StateRevision n))))"

text \<open>A mutation is let through exactly when its origin is the configured one, the browser says it is
  same-origin, its token is the session's, and it carries a UUID.\<close>

lemma mutation_headers_ok:
  assumes "validate_mutation_headers parse_uuid headers config who = Inr key"
    and "list_all (\<lambda>c. c < 0x80) (pl_csrf_token who)" and "str_len (pl_csrf_token who) < 2 ^ 64"
    and "\<forall>v\<in>snd ` set headers. str_len v < 2 ^ 64"
  shows "header_get headers ORIGIN = Some (ap_allowed_origin config)"
    and "header_get headers FETCH_SITE_HEADER = Some (str ''same-origin'')"
    and "header_get headers CSRF_HEADER = Some (pl_csrf_token who)" and "key \<noteq> 0"
proof -
  obtain csrf where csrf: "header_get headers CSRF_HEADER = Some csrf" "header_to_str csrf = Some csrf"
      "constant_time_equal (as_bytes csrf) (as_bytes (pl_csrf_token who))"
    and rest: "header_get headers ORIGIN = Some (ap_allowed_origin config)"
      "header_get headers FETCH_SITE_HEADER = Some (str ''same-origin'')" "key \<noteq> 0"
    using assms(1) by (auto simp: validate_mutation_headers_def header_to_str_def
        split: option.splits if_split_asm Option.bind_splits)
  have "csrf \<in> snd ` set headers" using csrf(1) unfolding header_get_def by (metis map_of_SomeD imageI snd_conv)
  then have len: "str_len csrf < 2 ^ 64" using assms(4) by blast
  have "list_all (\<lambda>c. c < 0x80) csrf" using csrf(2) by (auto simp: header_to_str_def list_all_iff split: if_splits)
  then have "csrf = pl_csrf_token who"
    using csrf(3) len assms(2,3) by (simp add: constant_time_equal_iff length_as_bytes as_bytes_ascii_inject)
  with csrf(1) rest show "header_get headers ORIGIN = Some (ap_allowed_origin config)"
    "header_get headers FETCH_SITE_HEADER = Some (str ''same-origin'')"
    "header_get headers CSRF_HEADER = Some (pl_csrf_token who)" "key \<noteq> 0" by simp_all
qed

end
