(* ===== verification/Api_Stream.thy ===== *)
theory Api_Stream
  imports Api_Auth
begin

text \<open>
  The live event streams of the API: the events of one player (\<open>crates/pepeaudio-api/src/sse.rs\<close>), the
  guards around them, the process-wide admission (\<open>sse_admission.rs\<close>) and the hub the streams subscribe
  to (\<open>crates/pepeaudio-runtime/src/event_hub.rs\<close>). The JSON text of a payload is a parameter, and so is
  the room of a broadcast channel, which its library may round up.
\<close>

section \<open>Admission\<close>

definition MAX_SSE_CONNECTIONS :: nat where "MAX_SSE_CONNECTIONS = 1024"
definition MAX_SSE_CONNECTIONS_PER_USER :: nat where "MAX_SSE_CONNECTIONS_PER_USER = 8"

record admission_state =
  ad_active :: nat
  ad_users :: "user_id \<Rightarrow> nat option"

definition admission_new :: admission_state where
  "admission_new = \<lparr>ad_active = 0, ad_users = (\<lambda>_. None)\<rparr>"

definition user_active :: "admission_state \<Rightarrow> user_id \<Rightarrow> nat" where
  "user_active a user = (case ad_users a user of None \<Rightarrow> 0 | Some n \<Rightarrow> n)"

text \<open>A lease is the user it was given to.\<close>

definition sse_acquire :: "nat \<Rightarrow> nat \<Rightarrow> user_id \<Rightarrow> admission_state \<Rightarrow> user_id option \<times> admission_state" where
  "sse_acquire global_limit user_limit user a =
     (if ad_active a \<ge> global_limit \<or> user_active a user \<ge> user_limit then (None, a)
      else (Some user, \<lparr>ad_active = ad_active a + 1, ad_users = (ad_users a)(user \<mapsto> user_active a user + 1)\<rparr>))"

definition sse_release :: "user_id \<Rightarrow> admission_state \<Rightarrow> admission_state" where
  "sse_release user a =
     \<lparr>ad_active = ad_active a - 1,
      ad_users = (case ad_users a user of
                    None \<Rightarrow> ad_users a
                  | Some active \<Rightarrow> (ad_users a)(user := if active - 1 = 0 then None else Some (active - 1)))\<rparr>"

text \<open>The process: the state and the leases of the open streams. A stream that is dropped releases its own.\<close>

datatype admission_event = Acquire user_id | DropStream nat

fun admission_step :: "nat \<Rightarrow> nat \<Rightarrow> admission_event \<Rightarrow> admission_state \<times> user_id list \<Rightarrow> admission_state \<times> user_id list" where
  "admission_step global_limit user_limit (Acquire user) (a, leases) =
     (case sse_acquire global_limit user_limit user a of
        (None, a') \<Rightarrow> (a', leases)
      | (Some lease, a') \<Rightarrow> (a', lease # leases))"
| "admission_step global_limit user_limit (DropStream i) (a, leases) =
     (if i < length leases then (sse_release (leases ! i) a, remove_at i leases) else (a, leases))"

fun admission_run :: "nat \<Rightarrow> nat \<Rightarrow> admission_event list \<Rightarrow> admission_state \<times> user_id list \<Rightarrow> admission_state \<times> user_id list" where
  "admission_run g u [] s = s"
| "admission_run g u (e # es) s = admission_run g u es (admission_step g u e s)"

definition admission_inv :: "nat \<Rightarrow> nat \<Rightarrow> admission_state \<times> user_id list \<Rightarrow> bool" where
  "admission_inv g u s \<longleftrightarrow> ad_active (fst s) = length (snd s) \<and> length (snd s) \<le> g \<and>
     (\<forall>user. ad_users (fst s) user = (if count_list (snd s) user = 0 then None else Some (count_list (snd s) user)) \<and>
        count_list (snd s) user \<le> u)"

lemma count_remove:
  "i < length xs \<Longrightarrow> count_list (remove_at i xs) y = count_list xs y - (if xs ! i = y then 1 else 0)"
proof -
  assume i: "i < length xs"
  have "count_list xs y = count_list (take i xs @ xs ! i # drop (Suc i) xs) y" by (simp add: id_take_nth_drop [OF i, symmetric])
  then show ?thesis by (simp add: remove_at_def)
qed

lemma count_nth_pos: "i < length xs \<Longrightarrow> 0 < count_list xs (xs ! i)"
  by (metis count_list_0_iff gr0I nth_mem)

lemma admission_step_inv: "admission_inv g u s \<Longrightarrow> admission_inv g u (admission_step g u e s)"
proof (cases e)
  case (Acquire user)
  assume "admission_inv g u s"
  then show ?thesis
    by (cases s) (auto simp: Acquire admission_inv_def sse_acquire_def user_active_def split: if_splits)
next
  case (DropStream i)
  assume inv: "admission_inv g u s"
  obtain a leases where s: "s = (a, leases)" by (cases s)
  show ?thesis
  proof (cases "i < length leases")
    case False
    with inv s DropStream show ?thesis by simp
  next
    case True
    note pos = count_nth_pos [OF True]
    have users: "ad_users a user = (if count_list leases user = 0 then None else Some (count_list leases user))"
      and le: "count_list leases user \<le> u" for user
      using inv s by (auto simp: admission_inv_def)
    have "ad_users (sse_release (leases ! i) a) user =
        (if count_list leases user - (if leases ! i = user then 1 else 0) = 0 then None
         else Some (count_list leases user - (if leases ! i = user then 1 else 0)))" for user
      using users pos by (auto simp: sse_release_def)
    moreover have "count_list leases user - k \<le> u" for user k using le [of user] by simp
    moreover have "ad_active a = length leases" "length leases \<le> g" using inv s by (auto simp: admission_inv_def)
    ultimately show ?thesis using True s DropStream
      by (simp add: admission_inv_def count_remove length_remove_at sse_release_def)
  qed
qed

interpretation admission: invariant_machine "\<lambda>s. s = (admission_new, [])" "\<lambda>s t. \<exists>e. t = admission_step g u e s"
  "admission_inv g u" for g u
  by unfold_locales (auto simp: admission_step_inv, simp add: admission_inv_def admission_new_def)

lemma admission_run_steps: "rtranclp (\<lambda>s t. \<exists>e. t = admission_step g u e s) s (admission_run g u es s)"
proof (induction es arbitrary: s)
  case (Cons e es)
  have "(\<lambda>s t. \<exists>e. t = admission_step g u e s) s (admission_step g u e s)" by blast
  with Cons.IH [of "admission_step g u e s"] show ?case by (simp add: converse_rtranclp_into_rtranclp)
qed simp

section \<open>Events\<close>

datatype sse_event =
  SnapshotEvent rstring player_snapshot
  | ResyncEvent rstring state_revision "u64 option"

text \<open>\<open>payload\<close> is the JSON text of a snapshot with its revision, \<open>None\<close> when it cannot be written.\<close>

definition snapshot_event :: "(player_snapshot \<Rightarrow> rstring option) \<Rightarrow> rstring \<Rightarrow> player_snapshot \<Rightarrow> sse_event option" where
  "snapshot_event payload kind snapshot =
     (case validate_public_shape snapshot of
        Inl _ \<Rightarrow> None
      | Inr _ \<Rightarrow>
          (case payload snapshot of
             None \<Rightarrow> None
           | Some data \<Rightarrow>
               if str_len data > MAX_PLAYER_SNAPSHOT_JSON_BYTES then None else Some (SnapshotEvent kind snapshot)))"

text \<open>What a receiver of the hub gets, in order; past the end of the list it waits.\<close>

datatype received = Notified player_snapshot | LaggedBy u64 | HubClosed

record stream_state =
  st_guild_id :: guild_id
  st_initial :: "sse_event option"
  st_last_revision :: state_revision
  st_close_after_event :: bool

definition player_stream :: "(player_snapshot \<Rightarrow> rstring option) \<Rightarrow> player_snapshot \<Rightarrow> stream_state option" where
  "player_stream payload snapshot =
     (case snapshot_event payload (str ''snapshot'') snapshot of
        None \<Rightarrow> None
      | Some initial \<Rightarrow>
          Some \<lparr>st_guild_id = ps_guild_id snapshot, st_initial = Some initial, st_last_revision = ps_revision snapshot,
                st_close_after_event = False\<rparr>)"

datatype 'a stream_next = StreamItem sse_event 'a | StreamEnd | StreamWaits 'a

definition closing_event :: "rstring \<Rightarrow> u64 option \<Rightarrow> stream_state \<Rightarrow> received list \<Rightarrow> (stream_state \<times> received list) stream_next" where
  "closing_event reason skipped st inbox =
     StreamItem (ResyncEvent reason (st_last_revision st) skipped) (st\<lparr>st_close_after_event := True\<rparr>, inbox)"

fun receive_next ::
  "(player_snapshot \<Rightarrow> rstring option) \<Rightarrow> stream_state \<Rightarrow> received list \<Rightarrow> (stream_state \<times> received list) stream_next" where
  "receive_next payload st [] = StreamWaits (st, [])"
| "receive_next payload st (HubClosed # inbox) = StreamEnd"
| "receive_next payload st (LaggedBy skipped # inbox) = closing_event (str ''bounded_lag'') (Some skipped) st inbox"
| "receive_next payload st (Notified snapshot # inbox) =
     (if ps_guild_id snapshot \<noteq> st_guild_id st then closing_event (str ''guild_mismatch'') None st inbox
      else if ps_revision snapshot \<le> st_last_revision st then receive_next payload st inbox
      else if checked_next (st_last_revision st) \<noteq> Some (ps_revision snapshot)
      then closing_event (str ''revision_gap'') None st inbox
      else case snapshot_event payload (str ''player'') snapshot of
             None \<Rightarrow> closing_event (str ''serialization_failure'') None st inbox
           | Some event \<Rightarrow> StreamItem event (st\<lparr>st_last_revision := ps_revision snapshot\<rparr>, inbox))"

definition stream_poll ::
  "(player_snapshot \<Rightarrow> rstring option) \<Rightarrow> stream_state \<times> received list \<Rightarrow> (stream_state \<times> received list) stream_next" where
  "stream_poll payload s =
     (case s of (st, inbox) \<Rightarrow>
        if st_close_after_event st then StreamEnd
        else case st_initial st of
               Some initial \<Rightarrow> StreamItem initial (st\<lparr>st_initial := None\<rparr>, inbox)
             | None \<Rightarrow> receive_next payload st inbox)"

section \<open>The guards\<close>

text \<open>What the guard around a stream finds ready when it is polled: the stream's item, a check of the
  authorization with its answer, or the end of the longest lifetime. It takes any of those that are
  ready, and goes on after a check that succeeds.\<close>

datatype guard_turn = InnerReady | CheckDue "authorization_error + unit" | LifetimeOver

fun guarded_poll :: "('a \<Rightarrow> 'a stream_next) \<Rightarrow> guard_turn list \<Rightarrow> 'a \<Rightarrow> 'a stream_next" where
  "guarded_poll poll [] s = StreamWaits s"
| "guarded_poll poll (InnerReady # turns) s = poll s"
| "guarded_poll poll (CheckDue (Inl e) # turns) s = StreamEnd"
| "guarded_poll poll (CheckDue (Inr _) # turns) s = guarded_poll poll turns s"
| "guarded_poll poll (LifetimeOver # turns) s = StreamEnd"

text \<open>The shutdown is looked at first.\<close>

definition shutdown_poll :: "bool \<Rightarrow> ('a \<Rightarrow> 'a stream_next) \<Rightarrow> 'a \<Rightarrow> 'a stream_next" where
  "shutdown_poll requested poll s = (if requested then StreamEnd else poll s)"

text \<open>The response: the items of one poll after another, until the stream ends or waits. A poll is the
  shutdown flag and the turns of the guard.\<close>

fun response_items ::
  "(player_snapshot \<Rightarrow> rstring option) \<Rightarrow> (bool \<times> guard_turn list) list \<Rightarrow> stream_state \<times> received list \<Rightarrow> sse_event list" where
  "response_items payload [] s = []"
| "response_items payload ((requested, turns) # polls) s =
     (case shutdown_poll requested (guarded_poll (stream_poll payload) turns) s of
        StreamItem event t \<Rightarrow> event # response_items payload polls t
      | StreamWaits t \<Rightarrow> response_items payload polls t
      | StreamEnd \<Rightarrow> [])"

section \<open>The hub\<close>

text \<open>A channel is the log of what was sent to it; a receiver is a guild and a place in its log. What is
  further back than the room of the channel is lost to a receiver.\<close>

record event_hub =
  eh_room :: nat
  eh_guilds :: "guild_id \<Rightarrow> player_snapshot list option"

definition event_hub_new :: "(nat \<Rightarrow> nat) \<Rightarrow> nat \<Rightarrow> event_hub" where
  "event_hub_new room capacity = \<lparr>eh_room = room (max capacity 1), eh_guilds = (\<lambda>_. None)\<rparr>"

definition hub_subscribe :: "guild_id \<Rightarrow> event_hub \<Rightarrow> nat \<times> event_hub" where
  "hub_subscribe guild hub =
     (case eh_guilds hub guild of
        Some log \<Rightarrow> (length log, hub)
      | None \<Rightarrow> (0, hub\<lparr>eh_guilds := (eh_guilds hub)(guild \<mapsto> [])\<rparr>))"

definition hub_publish :: "player_snapshot \<Rightarrow> event_hub \<Rightarrow> event_hub" where
  "hub_publish snapshot hub =
     (case eh_guilds hub (ps_guild_id snapshot) of
        None \<Rightarrow> hub
      | Some log \<Rightarrow> hub\<lparr>eh_guilds := (eh_guilds hub)(ps_guild_id snapshot \<mapsto> log @ [snapshot])\<rparr>)"

definition hub_recv :: "event_hub \<Rightarrow> guild_id \<Rightarrow> nat \<Rightarrow> (received \<times> nat) option" where
  "hub_recv hub guild at =
     (case eh_guilds hub guild of
        None \<Rightarrow> None
      | Some log \<Rightarrow>
          if at + eh_room hub < length log
          then Some (LaggedBy (of_nat (length log - eh_room hub - at)), length log - eh_room hub)
          else if at < length log then Some (Notified (log ! at), Suc at)
          else None)"

text \<open>A guild's log holds its own snapshots only.\<close>

definition hub_sorted :: "event_hub \<Rightarrow> bool" where
  "hub_sorted hub \<longleftrightarrow> (\<forall>guild log. eh_guilds hub guild = Some log \<longrightarrow> (\<forall>p\<in>set log. ps_guild_id p = guild))"

lemma hub_operations_sorted:
  "hub_sorted (event_hub_new room capacity)"
  "hub_sorted hub \<Longrightarrow> hub_sorted (snd (hub_subscribe guild hub))"
  "hub_sorted hub \<Longrightarrow> hub_sorted (hub_publish snapshot hub)"
  by (auto simp: hub_sorted_def event_hub_new_def hub_subscribe_def hub_publish_def split: option.splits if_splits)

lemma hub_recv_guild:
  "hub_sorted hub \<Longrightarrow> hub_recv hub guild at = Some (Notified p, at') \<Longrightarrow> ps_guild_id p = guild"
  by (auto simp: hub_sorted_def hub_recv_def split: option.splits if_splits)

section \<open>What a stream shows\<close>

text \<open>The items of a stream whose last revision is \<open>r\<close>: the following revisions one by one, and perhaps a
  request to synchronize again, which ends it.\<close>

fun follows :: "guild_id \<Rightarrow> state_revision \<Rightarrow> sse_event list \<Rightarrow> bool" where
  "follows guild r [] \<longleftrightarrow> True"
| "follows guild r (SnapshotEvent kind p # events) \<longleftrightarrow>
     kind = str ''player'' \<and> ps_guild_id p = guild \<and> checked_next r = Some (ps_revision p) \<and> public_shape p \<and>
     follows guild (ps_revision p) events"
| "follows guild r (ResyncEvent reason last_revision skipped # events) \<longleftrightarrow> last_revision = r \<and> events = []"

lemma snapshot_event_Some:
  "snapshot_event payload kind p = Some e \<Longrightarrow> e = SnapshotEvent kind p \<and> public_shape p"
  by (auto simp: snapshot_event_def validate_public_shape_ok split: sum.splits option.splits if_split_asm)

lemma receive_next_item:
  assumes "receive_next payload st inbox = StreamItem event s"
  shows "(\<exists>p. event = SnapshotEvent (str ''player'') p \<and> ps_guild_id p = st_guild_id st \<and> public_shape p \<and>
      checked_next (st_last_revision st) = Some (ps_revision p) \<and> fst s = st\<lparr>st_last_revision := ps_revision p\<rparr>) \<or>
    (\<exists>reason skipped. event = ResyncEvent reason (st_last_revision st) skipped \<and> fst s = st\<lparr>st_close_after_event := True\<rparr>)"
  using assms
proof (induction payload st inbox rule: receive_next.induct)
  case (4 payload st snapshot inbox)
  show ?case
  proof (cases "ps_guild_id snapshot = st_guild_id st \<and> ps_revision snapshot \<le> st_last_revision st")
    case True
    with "4.IH" "4.prems" show ?thesis by simp
  next
    case False
    with "4.prems" show ?thesis
      by (auto simp: closing_event_def dest: snapshot_event_Some split: if_splits option.splits)
  qed
qed (auto simp: closing_event_def)

lemma receive_next_waits: "receive_next payload st inbox = StreamWaits s \<Longrightarrow> fst s = st"
  by (induction payload st inbox rule: receive_next.induct) (auto simp: closing_event_def split: if_splits option.splits)

lemma guarded_poll_cases:
  "guarded_poll poll turns s = StreamItem e t \<Longrightarrow> poll s = StreamItem e t"
  "guarded_poll poll turns s = StreamWaits t \<Longrightarrow> t = s \<or> poll s = StreamWaits t"
  by (induction poll turns s rule: guarded_poll.induct) auto

lemma shutdown_poll_cases:
  "shutdown_poll requested (guarded_poll poll turns) s = StreamItem e t \<Longrightarrow> poll s = StreamItem e t"
  "shutdown_poll requested (guarded_poll poll turns) s = StreamWaits t \<Longrightarrow> t = s \<or> poll s = StreamWaits t"
  using guarded_poll_cases [of poll turns s] by (auto simp: shutdown_poll_def split: if_splits)

lemma closed_stream_ends: "st_close_after_event st \<Longrightarrow> response_items payload polls (st, inbox) = []"
proof (induction polls)
  case (Cons p polls)
  obtain requested turns where p: "p = (requested, turns)" by (cases p)
  have poll: "stream_poll payload (st, inbox) = StreamEnd" using Cons.prems by (simp add: stream_poll_def)
  have "guarded_poll (stream_poll payload) turns (st, inbox) \<in> {StreamEnd, StreamWaits (st, inbox)}"
  proof (cases "guarded_poll (stream_poll payload) turns (st, inbox)")
    case (StreamItem e t)
    with guarded_poll_cases(1) [OF this] poll show ?thesis by simp
  next
    case (StreamWaits t)
    with guarded_poll_cases(2) [OF this] poll show ?thesis by auto
  qed simp
  with Cons p show ?case by (auto simp: shutdown_poll_def)
qed simp

lemma response_follows:
  assumes "st_initial st = None" and "\<not> st_close_after_event st"
  shows "follows (st_guild_id st) (st_last_revision st) (response_items payload polls (st, inbox))"
  using assms
proof (induction polls arbitrary: st inbox)
  case (Cons p polls)
  obtain requested turns where p: "p = (requested, turns)" by (cases p)
  have poll: "stream_poll payload (st, inbox) = receive_next payload st inbox"
    using Cons.prems by (simp add: stream_poll_def)
  show ?case
  proof (cases "shutdown_poll requested (guarded_poll (stream_poll payload) turns) (st, inbox)")
    case (StreamItem event t)
    obtain st' inbox' where t: "t = (st', inbox')" by (cases t)
    have "receive_next payload st inbox = StreamItem event t"
      using shutdown_poll_cases(1) [OF StreamItem] poll by simp
    from receive_next_item [OF this] show ?thesis
    proof (elim disjE exE conjE)
      fix q assume "event = SnapshotEvent (str ''player'') q" "ps_guild_id q = st_guild_id st" "public_shape q"
        "checked_next (st_last_revision st) = Some (ps_revision q)" "fst t = st\<lparr>st_last_revision := ps_revision q\<rparr>"
      then show ?thesis using Cons.IH [of st' inbox'] Cons.prems StreamItem p t by simp
    next
      fix reason skipped assume "event = ResyncEvent reason (st_last_revision st) skipped" "fst t = st\<lparr>st_close_after_event := True\<rparr>"
      then show ?thesis using StreamItem p t closed_stream_ends [of st'] by simp
    qed
  next
    case (StreamWaits t)
    obtain st' inbox' where t: "t = (st', inbox')" by (cases t)
    have "t = (st, inbox) \<or> receive_next payload st inbox = StreamWaits t"
      using shutdown_poll_cases(2) [OF StreamWaits] poll by simp
    then have "st' = st" using receive_next_waits t by fastforce
    with Cons.IH [of st inbox'] Cons.prems StreamWaits p t show ?thesis by simp
  qed (simp add: p)
qed simp

text \<open>C20: A live stream never skips or repeats a state: it shows the full snapshot it began with, and after it
  the player's following revisions one by one, each of the stream's guild and of public shape, until
  it ends, at most after one request to synchronize again; so for whatever the hub delivers, and
  however the polls meet the checks of the authorization, the lifetime and the shutdown.\<close>

theorem streams_show_every_revision:
  assumes "player_stream payload p = Some st"
  shows "response_items payload polls (st, inbox) = [] \<or>
    (\<exists>events. response_items payload polls (st, inbox) = SnapshotEvent (str ''snapshot'') p # events \<and> public_shape p \<and>
       follows (ps_guild_id p) (ps_revision p) events)"
proof (induction polls)
  case (Cons q polls)
  obtain requested turns where q: "q = (requested, turns)" by (cases q)
  obtain initial where initial: "snapshot_event payload (str ''snapshot'') p = Some initial"
    and st: "st = \<lparr>st_guild_id = ps_guild_id p, st_initial = Some initial, st_last_revision = ps_revision p, st_close_after_event = False\<rparr>"
    using assms by (auto simp: player_stream_def split: option.splits)
  have poll: "stream_poll payload (st, inbox) = StreamItem initial (st\<lparr>st_initial := None\<rparr>, inbox)"
    by (simp add: stream_poll_def st)
  show ?case
  proof (cases "shutdown_poll requested (guarded_poll (stream_poll payload) turns) (st, inbox)")
    case (StreamItem event t)
    have t: "event = initial" "t = (st\<lparr>st_initial := None\<rparr>, inbox)"
      using shutdown_poll_cases(1) [OF StreamItem] poll by simp_all
    have "follows (ps_guild_id p) (ps_revision p) (response_items payload polls t)"
      using response_follows [of "st\<lparr>st_initial := None\<rparr>"] by (simp add: t st)
    with StreamItem q t snapshot_event_Some [OF initial] show ?thesis by simp
  next
    case (StreamWaits t)
    have "t = (st, inbox)" using shutdown_poll_cases(2) [OF StreamWaits] poll by simp
    with StreamWaits q Cons.IH show ?thesis by simp
  qed (simp add: q)
qed simp

text \<open>C21: The live streams of a process stay within their limits: at most 1,024 are open and at most 8 of any
  user, whatever the order in which they are asked for and dropped, and what is counted is what is open.\<close>

theorem open_streams_are_bounded:
  "\<exists>a leases. admission_run MAX_SSE_CONNECTIONS MAX_SSE_CONNECTIONS_PER_USER es (admission_new, []) = (a, leases) \<and>
     ad_active a = length leases \<and> length leases \<le> 1024 \<and> count_list leases user \<le> 8 \<and> user_active a user = count_list leases user"
proof -
  obtain a leases where run: "admission_run MAX_SSE_CONNECTIONS MAX_SSE_CONNECTIONS_PER_USER es (admission_new, []) = (a, leases)"
    by fastforce
  have "admission_inv MAX_SSE_CONNECTIONS MAX_SSE_CONNECTIONS_PER_USER (a, leases)"
    unfolding run [symmetric] by (rule admission.reachable_inv [OF refl admission_run_steps])
  then show ?thesis using run
    by (auto simp: admission_inv_def user_active_def MAX_SSE_CONNECTIONS_def MAX_SSE_CONNECTIONS_PER_USER_def)
qed

end
