(* ===== verification/Api_Backend.thy ===== *)
theory Api_Backend
  imports Api_Stream Valkey_Snapshots
begin

text \<open>
  The backend of the API over Valkey, \<open>crates/pepeaudio-runtime/src/api_backend.rs\<close>: the routing of
  commands, the sources of snapshots and results, and the task that follows the snapshot
  notifications and feeds the hub of the live streams. The subscription is a library stream: what it
  delivers is an argument.
\<close>

section \<open>The ports\<close>

text \<open>Twenty-four hours, in nanoseconds.\<close>

definition DEFAULT_COMMAND_RESULT_RETENTION :: nat where
  "DEFAULT_COMMAND_RESULT_RETENTION = 24 * 60 * 60 * 10 ^ 9"

record command_receipt =
  rc_command_id :: uuid
  rc_idempotency_key :: uuid
  rc_resulting_revision :: "state_revision option"
  rc_replayed :: bool

definition backend_snapshot ::
  "'s snapshot_store \<Rightarrow> request_fault \<Rightarrow> guild_id \<Rightarrow> 's \<Rightarrow> port_error + player_snapshot option" where
  "backend_snapshot ss f guild s =
     (case get_snapshot ss f guild s of Inl _ \<Rightarrow> Inl PortUnavailable | Inr found \<Rightarrow> Inr found)"

definition backend_route ::
  "'s valkey_store \<Rightarrow> request_fault \<Rightarrow> u32 \<Rightarrow> command_envelope \<Rightarrow> unix_time_millis \<Rightarrow> 's \<Rightarrow>
     (route_error + command_receipt) \<times> 's" where
  "backend_route vs f shard_total envelope now s =
     (if now \<ge> ce_deadline envelope then (Inl RouteInvalidCommand, s)
      else if ce_actor_user_id envelope = None then (Inl RouteInvalidCommand, s)
      else case enqueue_command vs f envelope shard_total DEFAULT_COMMAND_RESULT_RETENTION s of
             (Inr _, t) \<Rightarrow>
               (Inr \<lparr>rc_command_id = ce_command_id envelope, rc_idempotency_key = ce_idempotency_key envelope,
                     rc_resulting_revision = None, rc_replayed = False\<rparr>, t)
           | (Inl (RateLimited _ retry_after), t) \<Rightarrow> (Inl (RouteRateLimited retry_after), t)
           | (Inl _, t) \<Rightarrow> (Inl RouteUnavailable, t))"

definition backend_command_result ::
  "'s valkey_store \<Rightarrow> request_fault \<Rightarrow> guild_id \<Rightarrow> uuid \<Rightarrow> 's \<Rightarrow> port_error + command_result option" where
  "backend_command_result vs f guild command_id s =
     (case get_command_result vs f guild command_id s of Inl _ \<Rightarrow> Inl PortUnavailable | Inr found \<Rightarrow> Inr found)"

section \<open>The subscription task\<close>

datatype backend_phase = Following | Reconnecting | BackendStopped

record api_backend =
  bk_events :: event_hub
  bk_subscribed_guilds :: "guild_id set"
  bk_subscription_ready :: bool
  bk_phase :: backend_phase

definition backend_start :: "(nat \<Rightarrow> nat) \<Rightarrow> nat \<Rightarrow> api_backend" where
  "backend_start room event_capacity =
     \<lparr>bk_events = event_hub_new room event_capacity, bk_subscribed_guilds = {}, bk_subscription_ready = True,
      bk_phase = Following\<rparr>"

definition is_snapshot_data_error :: "storage_error \<Rightarrow> bool" where
  "is_snapshot_data_error e = (case e of Json \<Rightarrow> True | CorruptData _ _ \<Rightarrow> True | _ \<Rightarrow> False)"

definition backend_subscribe :: "guild_id \<Rightarrow> api_backend \<Rightarrow> nat \<times> api_backend" where
  "backend_subscribe guild b =
     (case hub_subscribe guild (bk_events b) of
        (at, hub) \<Rightarrow> (at, b\<lparr>bk_subscribed_guilds := insert guild (bk_subscribed_guilds b), bk_events := hub\<rparr>))"

definition lose_subscription :: "api_backend \<Rightarrow> api_backend" where
  "lose_subscription b = b\<lparr>bk_subscription_ready := False, bk_phase := Reconnecting\<rparr>"

text \<open>A notification names a guild and a revision; \<open>found\<close> is what the store answers for the guild.\<close>

definition on_notification ::
  "(guild_id \<times> state_revision) option \<Rightarrow> storage_error + player_snapshot option \<Rightarrow> api_backend \<Rightarrow> api_backend" where
  "on_notification event found b =
     (case event of
        None \<Rightarrow> lose_subscription b
      | Some (guild, revision) \<Rightarrow>
          (case found of
             Inr (Some snapshot) \<Rightarrow>
               if ps_revision snapshot \<ge> revision then b\<lparr>bk_events := hub_publish snapshot (bk_events b)\<rparr> else b
           | Inr None \<Rightarrow> b
           | Inl e \<Rightarrow> if is_snapshot_data_error e then b else lose_subscription b))"

fun publish_current ::
  "(guild_id \<times> (storage_error + player_snapshot option)) list \<Rightarrow> event_hub \<Rightarrow> bool \<times> event_hub" where
  "publish_current [] hub = (True, hub)"
| "publish_current ((guild, found) # rest) hub =
     (case found of
        Inr (Some snapshot) \<Rightarrow>
          publish_current rest (if ps_guild_id snapshot = guild then hub_publish snapshot hub else hub)
      | Inr None \<Rightarrow> publish_current rest hub
      | Inl e \<Rightarrow> if is_snapshot_data_error e then publish_current rest hub else (False, hub))"

text \<open>\<open>order\<close> is the order in which the set of the subscribed guilds is walked.\<close>

definition on_retry ::
  "bool \<Rightarrow> guild_id list \<Rightarrow> (guild_id \<Rightarrow> storage_error + player_snapshot option) \<Rightarrow> api_backend \<Rightarrow> api_backend" where
  "on_retry subscribed order found b =
     (if \<not> subscribed then b
      else case publish_current (map (\<lambda>g. (g, found g)) order) (bk_events b) of
             (True, hub) \<Rightarrow> b\<lparr>bk_events := hub, bk_subscription_ready := True, bk_phase := Following\<rparr>
           | (False, hub) \<Rightarrow> b\<lparr>bk_events := hub\<rparr>)"

datatype backend_event =
  Subscribe guild_id
  | Notification "(guild_id \<times> state_revision) option" "storage_error + player_snapshot option"
  | RetryDue bool "guild_id list" "guild_id \<Rightarrow> storage_error + player_snapshot option"
  | BackendShutdown

text \<open>Notifications are read while following, retries made while reconnecting; both loops see the shutdown.\<close>

fun backend_step :: "backend_event \<Rightarrow> api_backend \<Rightarrow> api_backend" where
  "backend_step (Subscribe guild) b = snd (backend_subscribe guild b)"
| "backend_step (Notification event found) b = (if bk_phase b = Following then on_notification event found b else b)"
| "backend_step (RetryDue subscribed order found) b =
     (if bk_phase b = Reconnecting \<and> set order = bk_subscribed_guilds b then on_retry subscribed order found b else b)"
| "backend_step BackendShutdown b =
     (if bk_phase b = Following then b\<lparr>bk_subscription_ready := False, bk_phase := BackendStopped\<rparr>
      else b\<lparr>bk_phase := BackendStopped\<rparr>)"

definition backend_ready :: "storage_error + player_snapshot option \<Rightarrow> api_backend \<Rightarrow> port_error + unit" where
  "backend_ready probe b =
     (if \<not> bk_subscription_ready b then Inl PortUnavailable
      else case probe of
             Inr _ \<Rightarrow> Inr ()
           | Inl e \<Rightarrow> if is_snapshot_data_error e then Inr () else Inl PortUnavailable)"

fun backend_run :: "backend_event list \<Rightarrow> api_backend \<Rightarrow> api_backend" where
  "backend_run [] b = b"
| "backend_run (e # es) b = backend_run es (backend_step e b)"

section \<open>The invariant\<close>

text \<open>Ready means following; every log of the hub is of its own guild, and there is one for every subscribed
  guild.\<close>

definition backend_inv :: "api_backend \<Rightarrow> bool" where
  "backend_inv b \<longleftrightarrow> (bk_subscription_ready b \<longleftrightarrow> bk_phase b = Following) \<and> hub_sorted (bk_events b) \<and>
     dom (eh_guilds (bk_events b)) = bk_subscribed_guilds b"

lemma hub_publish_dom: "dom (eh_guilds (hub_publish p hub)) = dom (eh_guilds hub)"
  by (auto simp: hub_publish_def split: option.splits)

lemma publish_current_keeps:
  "hub_sorted hub \<Longrightarrow> publish_current answers hub = (ok, hub') \<Longrightarrow>
     hub_sorted hub' \<and> dom (eh_guilds hub') = dom (eh_guilds hub)"
proof (induction answers hub rule: publish_current.induct)
  case (2 guild found rest hub)
  then show ?case
    by (auto simp: hub_operations_sorted hub_publish_dom split: sum.splits option.splits if_splits)
qed auto

lemma backend_step_inv:
  assumes "backend_inv b"
  shows "backend_inv (backend_step e b)"
proof (cases e)
  case (Subscribe guild)
  have "dom (eh_guilds (snd (hub_subscribe guild (bk_events b)))) = insert guild (dom (eh_guilds (bk_events b)))"
    by (auto simp: hub_subscribe_def split: option.splits)
  moreover have "hub_sorted (snd (hub_subscribe guild (bk_events b)))"
    using assms hub_operations_sorted(2) by (simp add: backend_inv_def)
  ultimately show ?thesis using assms Subscribe
    by (cases "hub_subscribe guild (bk_events b)") (auto simp: backend_inv_def backend_subscribe_def)
next
  case (Notification event found)
  then show ?thesis using assms
    by (auto simp: backend_inv_def on_notification_def lose_subscription_def hub_operations_sorted hub_publish_dom
        split: option.splits sum.splits)
next
  case (RetryDue subscribed order found)
  obtain ok hub where p: "publish_current (map (\<lambda>g. (g, found g)) order) (bk_events b) = (ok, hub)"
    by (cases "publish_current (map (\<lambda>g. (g, found g)) order) (bk_events b)")
  have sorted: "hub_sorted (bk_events b)" using assms by (simp add: backend_inv_def)
  from publish_current_keeps [OF sorted p] show ?thesis using assms RetryDue p
    by (cases ok) (auto simp: backend_inv_def on_retry_def)
qed (use assms in \<open>auto simp: backend_inv_def\<close>)

interpretation backend: invariant_machine "\<lambda>b. \<exists>room capacity. b = backend_start room capacity"
  "\<lambda>b c. \<exists>e. c = backend_step e b" backend_inv
  by unfold_locales
    (auto simp: backend_step_inv, auto simp: backend_inv_def backend_start_def hub_operations_sorted, simp add: event_hub_new_def)

lemma backend_run_steps: "rtranclp (\<lambda>b c. \<exists>e. c = backend_step e b) b (backend_run es b)"
proof (induction es arbitrary: b)
  case (Cons e es)
  have "(\<lambda>b c. \<exists>e. c = backend_step e b) b (backend_step e b)" by blast
  with Cons.IH [of "backend_step e b"] show ?case by (simp add: converse_rtranclp_into_rtranclp)
qed simp

lemma backend_run_inv: "backend_inv (backend_run es (backend_start room capacity))"
  by (rule backend.reachable_inv [OF _ backend_run_steps]) blast

text \<open>A snapshot the hub publishes is the last one in the log of its guild.\<close>

lemma publish_current_publishes:
  assumes "publish_current answers hub = (True, hub')" and "distinct (map fst answers)" and "hub_sorted hub"
    and "(guild, Inr (Some p)) \<in> set answers" and "ps_guild_id p = guild" and "eh_guilds hub guild \<noteq> None"
  shows "\<exists>log. eh_guilds hub' guild = Some log \<and> log \<noteq> [] \<and> last log = p"
  using assms
proof (induction answers arbitrary: hub)
  case (Cons a answers)
  obtain g found where a: "a = (g, found)" by (cases a)
  have keeps: "eh_guilds hub'' guild = eh_guilds h guild"
    if "publish_current answers h = (True, hub'')" "guild \<notin> fst ` set answers" for h hub''
    using that
  proof (induction answers arbitrary: h)
    case (Cons b answers)
    then show ?case
      by (cases b) (auto simp: hub_publish_def split: sum.splits option.splits if_splits)
  qed simp
  show ?case
  proof (cases "g = guild")
    case True
    then have found: "found = Inr (Some p)" and fresh: "guild \<notin> fst ` set answers"
      using Cons.prems(2,4) a by (force simp: image_iff)+
    obtain log where "eh_guilds hub guild = Some log" using Cons.prems(6) by blast
    then have "eh_guilds (hub_publish p hub) guild = Some (log @ [p])"
      using Cons.prems(5) by (simp add: hub_publish_def)
    with keeps [OF _ fresh, of "hub_publish p hub" hub'] Cons.prems(1,5) a True found show ?thesis by simp
  next
    case False
    then have mem: "(guild, Inr (Some p)) \<in> set answers" using Cons.prems(4) a by auto
    obtain h where h: "publish_current answers h = (True, hub')" "hub_sorted h" "eh_guilds h guild \<noteq> None"
    proof -
      consider "publish_current answers hub = (True, hub')"
        | q where "publish_current answers (hub_publish q hub) = (True, hub')"
        using Cons.prems(1) a by (auto split: sum.splits option.splits if_splits)
      then show thesis
      proof cases
        case 1
        then show ?thesis using that Cons.prems(3,6) by blast
      next
        case (2 q)
        have "eh_guilds (hub_publish q hub) guild \<noteq> None"
          using Cons.prems(6) by (auto simp: hub_publish_def split: option.splits)
        with 2 that Cons.prems(3) hub_operations_sorted(3) show ?thesis by blast
      qed
    qed
    show ?thesis using Cons.IH [OF h(1) _ h(2) mem Cons.prems(5) h(3)] Cons.prems(2) by simp
  qed
qed simp

lemma retry_catches_up:
  assumes inv: "backend_inv b" and "bk_phase b = Reconnecting" and "distinct order"
    and ready: "backend_ready probe (backend_step (RetryDue subscribed order answers) b) = Inr ()"
    and "guild \<in> bk_subscribed_guilds b" and "answers guild = Inr (Some p)" and "ps_guild_id p = guild"
  shows "\<exists>log. eh_guilds (bk_events (backend_step (RetryDue subscribed order answers) b)) guild = Some log \<and>
    log \<noteq> [] \<and> last log = p"
proof -
  let ?b' = "backend_step (RetryDue subscribed order answers) b" and ?found = "map (\<lambda>g. (g, answers g)) order"
  have "bk_subscription_ready ?b'" using ready by (auto simp: backend_ready_def split: if_splits)
  moreover have "\<not> bk_subscription_ready b" using inv assms(2) by (simp add: backend_inv_def)
  ultimately have step: "set order = bk_subscribed_guilds b" "subscribed"
    using assms(2) by (auto simp: on_retry_def split: if_splits)
  obtain hub where hub: "publish_current ?found (bk_events b) = (True, hub)" and b': "bk_events ?b' = hub"
    using \<open>bk_subscription_ready ?b'\<close> \<open>\<not> bk_subscription_ready b\<close> assms(2) step
    by (auto simp: on_retry_def split: prod.splits bool.splits)
  have "distinct (map fst ?found)" using assms(3) by (simp add: comp_def)
  moreover have "(guild, Inr (Some p)) \<in> set ?found" using step(1) assms(5,6) by force
  moreover have "eh_guilds (bk_events b) guild \<noteq> None" using inv assms(5) by (auto simp: backend_inv_def)
  ultimately show ?thesis using publish_current_publishes [OF hub] inv assms(7) b' by (simp add: backend_inv_def)
qed


end
