(* ===== verification/Auth_Discord.thy ===== *)
theory Auth_Discord
  imports Auth_Model
begin

text \<open>
  The Discord side of a login, \<open>crates/pepeaudio-auth/src/discord.rs\<close>: the authorization URL, the exchange
  of the code, and the identity and guilds the token reads. The HTTP client and the JSON parser are
  parameters; a response is its status, the length it declares and the chunks of its body.
\<close>

section \<open>Responses\<close>

datatype oauth_provider_error = ProviderRejected | ProviderUnavailable | ProviderInvalidResponse

record http_reply =
  hr_status :: nat
  hr_content_length :: "u64 option"
  hr_chunks :: "(unit + rstring) list"

datatype endpoint_kind = TokenEndpoint | ResourceEndpoint

definition TOKEN_RESPONSE_LIMIT :: nat where "TOKEN_RESPONSE_LIMIT = 32 * 1024"
definition USER_RESPONSE_LIMIT :: nat where "USER_RESPONSE_LIMIT = 64 * 1024"
definition GUILDS_RESPONSE_LIMIT :: nat where "GUILDS_RESPONSE_LIMIT = 1024 * 1024"

definition status_error :: "nat \<Rightarrow> endpoint_kind \<Rightarrow> oauth_provider_error" where
  "status_error status endpoint =
     (if status = 429 \<or> (500 \<le> status \<and> status < 600) then ProviderUnavailable
      else if endpoint = TokenEndpoint \<and> 400 \<le> status \<and> status < 500 then ProviderRejected
      else ProviderInvalidResponse)"

text \<open>Chunks are lists of bytes.\<close>

fun collect_body :: "nat \<Rightarrow> rstring \<Rightarrow> (unit + rstring) list \<Rightarrow> oauth_provider_error + rstring" where
  "collect_body limit body [] = Inr body"
| "collect_body limit body (Inl e # chunks) = Inl ProviderUnavailable"
| "collect_body limit body (Inr chunk # chunks) =
     (if length body + length chunk > limit then Inl ProviderInvalidResponse
      else collect_body limit (body @ chunk) chunks)"

definition checked_body :: "http_reply \<Rightarrow> nat \<Rightarrow> endpoint_kind \<Rightarrow> oauth_provider_error + rstring" where
  "checked_body response limit endpoint =
     (if \<not> (200 \<le> hr_status response \<and> hr_status response < 300) then Inl (status_error (hr_status response) endpoint)
      else if (case hr_content_length response of None \<Rightarrow> False | Some n \<Rightarrow> n > u64_try_from_or_max limit)
      then Inl ProviderInvalidResponse
      else collect_body limit [] (hr_chunks response))"

lemma collect_body_bound: "collect_body limit body chunks = Inr t \<Longrightarrow> length body \<le> limit \<Longrightarrow> length t \<le> limit"
  by (induction limit body chunks rule: collect_body.induct) (auto split: if_splits)

lemma checked_body_bound: "checked_body r limit endpoint = Inr t \<Longrightarrow> length t \<le> limit"
  by (auto simp: checked_body_def dest: collect_body_bound split: if_splits)

section \<open>Wire data\<close>

record token_wire =
  tw_access_token :: rstring
  tw_token_type :: rstring
  tw_refresh_token :: "rstring option"
  tw_expires_in :: u64
  tw_scope :: rstring

record user_wire =
  uw_id :: rstring
  uw_username :: rstring
  uw_global_name :: "rstring option"
  uw_avatar :: "rstring option"
  uw_bot :: "bool option"

record oauth_token =
  ot_access_token :: rstring
  ot_refresh_token :: "rstring option"

definition is_ascii_whitespace :: "rchar \<Rightarrow> bool" where
  "is_ascii_whitespace c \<longleftrightarrow> c = 0x20 \<or> c = 0x09 \<or> c = 0x0a \<or> c = 0x0c \<or> c = 0x0d"

fun split_ascii_whitespace :: "rstring \<Rightarrow> rstring \<Rightarrow> rstring list" where
  "split_ascii_whitespace item [] = (if item = [] then [] else [item])"
| "split_ascii_whitespace item (c # cs) =
     (if is_ascii_whitespace c then (if item = [] then [] else [item]) @ split_ascii_whitespace [] cs
      else split_ascii_whitespace (item @ [c]) cs)"

definition oauth_token_try_from :: "token_wire \<Rightarrow> oauth_provider_error + oauth_token" where
  "oauth_token_try_from wire =
     (let valid_scope = list_all (\<lambda>required. list_ex (\<lambda>item. item = required) (split_ascii_whitespace [] (tw_scope wire)))
            [str ''identify'', str ''guilds'']
      in if tw_token_type wire \<noteq> str ''Bearer'' \<or> tw_expires_in wire = 0 \<or> str_len (tw_access_token wire) < 16 \<or> \<not> valid_scope
         then Inl ProviderInvalidResponse
         else Inr \<lparr>ot_access_token = tw_access_token wire, ot_refresh_token = tw_refresh_token wire\<rparr>)"

section \<open>The client\<close>

text \<open>The requests the client makes, to fixed endpoints without redirects, and the parsers of their bodies.\<close>

record discord_http =
  dh_post_token :: "rstring \<Rightarrow> rstring \<Rightarrow> (rstring \<times> rstring) list \<Rightarrow> unit + http_reply"
  dh_get_user :: "rstring \<Rightarrow> unit + http_reply"
  dh_get_guilds :: "rstring \<Rightarrow> unit + http_reply"
  dh_parse_token :: "rstring \<Rightarrow> token_wire option"
  dh_parse_user :: "rstring \<Rightarrow> user_wire option"
  dh_parse_guilds :: "rstring \<Rightarrow> guild_summary list option"

record oauth_material =
  om_state :: rstring
  om_verifier :: rstring
  om_challenge :: rstring

text \<open>\<open>random_token\<close> and the hash are parameters: a random source answers a token or fails.\<close>

definition oauth_material_of ::
  "(rstring \<Rightarrow> rstring) \<Rightarrow> rstring option \<Rightarrow> rstring option \<Rightarrow> oauth_material option" where
  "oauth_material_of opaque_hash first second =
     (case first of
        None \<Rightarrow> None
      | Some state \<Rightarrow>
          (case second of
             None \<Rightarrow> None
           | Some verifier \<Rightarrow> Some \<lparr>om_state = state, om_verifier = verifier, om_challenge = opaque_hash verifier\<rparr>))"

definition AUTHORIZE_URL :: rstring where "AUTHORIZE_URL = str ''https://discord.com/oauth2/authorize''"

text \<open>The URL and the pairs of its query.\<close>

definition authorization_url :: "discord_oauth_config \<Rightarrow> oauth_material \<Rightarrow> rstring \<times> (rstring \<times> rstring) list" where
  "authorization_url config material =
     (AUTHORIZE_URL,
      [(str ''response_type'', str ''code''), (str ''client_id'', dc_client_id config),
       (str ''redirect_uri'', ru_text (dc_redirect_uri config)), (str ''scope'', str ''identify guilds''),
       (str ''state'', om_state material), (str ''code_challenge'', om_challenge material),
       (str ''code_challenge_method'', str ''S256'')])"

definition exchange :: "discord_http \<Rightarrow> discord_oauth_config \<Rightarrow> rstring \<Rightarrow> rstring \<Rightarrow> oauth_provider_error + oauth_token" where
  "exchange http config code verifier =
     (case dh_post_token http (dc_client_id config) (dc_client_secret config)
        [(str ''grant_type'', str ''authorization_code''), (str ''code'', code),
         (str ''redirect_uri'', ru_text (dc_redirect_uri config)), (str ''code_verifier'', verifier)] of
        Inl _ \<Rightarrow> Inl ProviderUnavailable
      | Inr response \<Rightarrow>
          (case checked_body response TOKEN_RESPONSE_LIMIT TokenEndpoint of
             Inl e \<Rightarrow> Inl e
           | Inr body \<Rightarrow>
               (case dh_parse_token http body of
                  None \<Rightarrow> Inl ProviderInvalidResponse
                | Some wire \<Rightarrow> oauth_token_try_from wire)))"

definition identity :: "discord_http \<Rightarrow> oauth_token \<Rightarrow> oauth_provider_error + user_id \<times> user_profile" where
  "identity http token =
     (case dh_get_user http (ot_access_token token) of
        Inl _ \<Rightarrow> Inl ProviderUnavailable
      | Inr response \<Rightarrow>
          (case checked_body response USER_RESPONSE_LIMIT ResourceEndpoint of
             Inl e \<Rightarrow> Inl e
           | Inr body \<Rightarrow>
               (case dh_parse_user http body of
                  None \<Rightarrow> Inl ProviderInvalidResponse
                | Some user \<Rightarrow>
                    if uw_bot user = Some True then Inl ProviderInvalidResponse
                    else
                      (case snowflake_from_str (uw_id user) of
                         Inl _ \<Rightarrow> Inl ProviderInvalidResponse
                       | Inr n \<Rightarrow>
                           (case user_profile_new (uw_username user) (uw_global_name user) (uw_avatar user) of
                              None \<Rightarrow> Inl ProviderInvalidResponse
                            | Some profile \<Rightarrow> Inr (UserId n, profile))))))"

definition bad_guild :: "guild_summary \<Rightarrow> bool" where
  "bad_guild g \<longleftrightarrow> gs_name g = [] \<or> str_len (gs_name g) > 256 \<or> has_control (gs_name g) \<or>
     (case gs_icon g of
        None \<Rightarrow> False
      | Some icon \<Rightarrow> str_len icon > 128 \<or> \<not> list_all (\<lambda>c. is_ascii_alphanumeric c \<or> c = 0x5f) icon)"

definition discord_guilds :: "discord_http \<Rightarrow> oauth_token \<Rightarrow> oauth_provider_error + guild_summary list" where
  "discord_guilds http token =
     (case dh_get_guilds http (ot_access_token token) of
        Inl _ \<Rightarrow> Inl ProviderUnavailable
      | Inr response \<Rightarrow>
          (case checked_body response GUILDS_RESPONSE_LIMIT ResourceEndpoint of
             Inl e \<Rightarrow> Inl e
           | Inr body \<Rightarrow>
               (case dh_parse_guilds http body of
                  None \<Rightarrow> Inl ProviderInvalidResponse
                | Some guilds \<Rightarrow>
                    if length guilds > 200 \<or> list_ex bad_guild guilds then Inl ProviderInvalidResponse else Inr guilds)))"

definition exchange_projection ::
  "discord_http \<Rightarrow> discord_oauth_config \<Rightarrow> rstring \<Rightarrow> rstring \<Rightarrow> oauth_provider_error + oauth_projection" where
  "exchange_projection http config code verifier =
     (case exchange http config code verifier of
        Inl e \<Rightarrow> Inl e
      | Inr token \<Rightarrow>
          (case identity http token of
             Inl e \<Rightarrow> Inl e
           | Inr (user_id, profile) \<Rightarrow>
               (case discord_guilds http token of
                  Inl e \<Rightarrow> Inl e
                | Inr guilds \<Rightarrow> Inr \<lparr>op_user_id = user_id, op_profile = Some profile, op_guilds = guilds\<rparr>)))"

text \<open>What the exchange answers already has the shape of a session, but for duplicate guilds and empty
  icons.\<close>

lemma profile_new_valid: "user_profile_new u g a = Some p \<Longrightarrow> profile_valid p"
  by (auto simp: user_profile_new_def Let_def split: if_splits)

lemma exchange_projection_valid:
  assumes "exchange_projection http config code verifier = Inr p"
  shows "length (op_guilds p) \<le> 200" and "is_none_or profile_valid (op_profile p)"
    and "\<forall>g\<in>set (op_guilds p). \<not> bad_guild g"
  using assms profile_new_valid
  by (auto simp: exchange_projection_def discord_guilds_def identity_def is_none_or_def list_ex_iff
      split: sum.splits option.splits if_splits)

lemma good_guild_valid:
  "\<not> bad_guild g \<Longrightarrow> gs_icon g \<noteq> Some [] \<Longrightarrow>
     gs_name g \<noteq> [] \<and> str_len (gs_name g) \<le> 256 \<and> \<not> has_control (gs_name g) \<and> is_none_or valid_asset_hash (gs_icon g)"
  by (auto simp: bad_guild_def is_none_or_def valid_asset_hash_def split: option.splits)

end
