(* ===== verification/Auth_Store.thy ===== *)
theory Auth_Store
  imports Auth_Cookie
begin

text \<open>
  The Valkey repository of web authentication, \<open>crates/pepeaudio-auth/src/valkey\<close>: the Lua scripts
  (\<open>scripts.rs\<close>) statement by statement, sessions (\<open>session.rs\<close>), pending OAuth states (\<open>state.rs\<close>) and
  the store (\<open>store.rs\<close>). The server, the hash, the JSON of serde and of Lua's cjson, the random source
  and the clock are parameters. Each script runs atomically; between the requests of one call the
  server may serve any requests of other clients.
\<close>

section \<open>The server, the encodings and the store\<close>

datatype repository_error = InvalidToken | RepositoryUnavailable | RepositoryCorrupt | RepositoryCollision | RepositoryFull

record 's auth_server =
  as_get :: "'s \<Rightarrow> rstring \<Rightarrow> rstring option"
  as_exists :: "'s \<Rightarrow> rstring \<Rightarrow> bool"
  as_psetex :: "rstring \<Rightarrow> nat \<Rightarrow> rstring \<Rightarrow> 's \<Rightarrow> 's"
  as_set_nx_px :: "rstring \<Rightarrow> rstring \<Rightarrow> nat \<Rightarrow> 's \<Rightarrow> bool \<times> 's"
  as_del :: "rstring \<Rightarrow> 's \<Rightarrow> 's"
  as_time :: "'s \<Rightarrow> nat \<times> nat"
  as_pexpire :: "rstring \<Rightarrow> nat \<Rightarrow> 's \<Rightarrow> 's"
  as_zremrangebyscore :: "rstring \<Rightarrow> nat \<Rightarrow> 's \<Rightarrow> 's"
  as_zcard :: "'s \<Rightarrow> rstring \<Rightarrow> nat"
  as_zadd :: "rstring \<Rightarrow> nat \<Rightarrow> rstring \<Rightarrow> 's \<Rightarrow> 's"
  as_zrem :: "rstring \<Rightarrow> rstring \<Rightarrow> 's \<Rightarrow> 's"

text \<open>\<open>au_lua_session\<close> is what \<open>cjson.decode\<close> finds under \<open>schema_version\<close> and, as a number, under
  \<open>expires_at_ms\<close>: \<open>None\<close> when it raises an error or finds no table. \<open>au_lua_update\<close> is \<open>cjson.encode\<close> of the
  decoded table with its \<open>expires_at_ms\<close> and its \<open>last_seen_at_ms\<close> replaced.\<close>

record auth_codec =
  au_hash :: "rstring \<Rightarrow> rstring"
  au_session :: "session_data \<Rightarrow> rstring"
  au_parse_session :: "rstring \<Rightarrow> session_data option"
  au_lua_session :: "rstring \<Rightarrow> (nat option \<times> nat option) option"
  au_lua_update :: "rstring \<Rightarrow> nat \<Rightarrow> nat \<Rightarrow> rstring"
  au_pending :: "rstring \<Rightarrow> u64 \<Rightarrow> rstring"
  au_parse_pending :: "rstring \<Rightarrow> (rstring \<times> u64) option"

record 's auth_store =
  at_server :: "'s auth_server"
  at_codec :: auth_codec
  at_keyspace :: rstring
  at_state_ttl_ms :: u64
  at_idle_ttl_ms :: u64
  at_absolute_ttl_ms :: u64

definition MAX_PENDING_OAUTH_STATES :: nat where "MAX_PENDING_OAUTH_STATES = 4096"
definition MAX_SESSION_JSON_BYTES :: nat where "MAX_SESSION_JSON_BYTES = 256 * 1024"
definition MAX_PENDING_JSON_BYTES :: nat where "MAX_PENDING_JSON_BYTES = 1024"
definition CREATE_ATTEMPTS :: nat where "CREATE_ATTEMPTS = 3"

definition store_duration_ms :: "nat \<Rightarrow> repository_error + u64" where
  "store_duration_ms d = (let ms = d div 10 ^ 6
     in if ms < 2 ^ 64 \<and> ms \<noteq> 0 then Inr (of_nat ms) else Inl RepositoryCorrupt)"

definition auth_store_new :: "'s auth_server \<Rightarrow> auth_codec \<Rightarrow> auth_config \<Rightarrow> repository_error + 's auth_store" where
  "auth_store_new server codec config =
     (case store_duration_ms (sp_oauth_state_ttl (ac_session config)) of
        Inl e \<Rightarrow> Inl e
      | Inr state_ttl \<Rightarrow>
          (case store_duration_ms (sp_idle_ttl (ac_session config)) of
             Inl e \<Rightarrow> Inl e
           | Inr idle_ttl \<Rightarrow>
               (case store_duration_ms (sp_absolute_ttl (ac_session config)) of
                  Inl e \<Rightarrow> Inl e
                | Inr absolute_ttl \<Rightarrow>
                    Inr \<lparr>at_server = server, at_codec = codec, at_keyspace = ac_keyspace config, at_state_ttl_ms = state_ttl,
                         at_idle_ttl_ms = idle_ttl, at_absolute_ttl_ms = absolute_ttl\<rparr>)))"

definition state_key :: "'s auth_store \<Rightarrow> rstring \<Rightarrow> rstring" where
  "state_key A state_hash = at_keyspace A @ str '':oauth-state:'' @ state_hash"

definition pending_states_key :: "'s auth_store \<Rightarrow> rstring" where
  "pending_states_key A = at_keyspace A @ str '':oauth-pending-states''"

definition session_key :: "'s auth_store \<Rightarrow> rstring \<Rightarrow> rstring" where
  "session_key A session_hash = at_keyspace A @ str '':session:'' @ session_hash"

definition current_user_key :: "'s auth_store \<Rightarrow> user_id \<Rightarrow> rstring" where
  "current_user_key A user_id = at_keyspace A @ str '':user-current-session:'' @ user_text user_id"

section \<open>The scripts\<close>

definition reserve_state_script ::
  "'s auth_store \<Rightarrow> rstring \<Rightarrow> rstring \<Rightarrow> nat \<Rightarrow> nat \<Rightarrow> nat \<Rightarrow> 's \<Rightarrow> int \<times> 's" where
  "reserve_state_script A state_hash encoded ttl counter_ttl capacity s =
     (let sv = at_server A;
          now = (case as_time sv s of (seconds, micros) \<Rightarrow> seconds * 1000 + micros div 1000);
          s1 = as_zremrangebyscore sv (pending_states_key A) now s
      in if as_zcard sv s1 (pending_states_key A) \<ge> capacity then (-1, s1)
         else case as_set_nx_px sv (state_key A state_hash) encoded ttl s1 of
                (True, s2) \<Rightarrow>
                  (1, as_pexpire sv (pending_states_key A) counter_ttl
                        (as_zadd sv (pending_states_key A) (now + ttl) state_hash s2))
              | (False, s2) \<Rightarrow> (0, s2))"

definition consume_state_script :: "'s auth_store \<Rightarrow> rstring \<Rightarrow> 's \<Rightarrow> rstring option \<times> 's" where
  "consume_state_script A state_hash s =
     (let sv = at_server A
      in case as_get sv s (state_key A state_hash) of
           None \<Rightarrow> (None, s)
         | Some v \<Rightarrow>
             let s1 = as_del sv (state_key A state_hash) s;
                 s2 = as_zrem sv (pending_states_key A) state_hash s1
             in (Some v, if as_zcard sv s2 (pending_states_key A) = 0 then as_del sv (pending_states_key A) s2 else s2))"

definition create_session_script ::
  "'s auth_store \<Rightarrow> rstring \<Rightarrow> user_id \<Rightarrow> rstring \<Rightarrow> nat \<Rightarrow> nat \<Rightarrow> 's \<Rightarrow> int \<times> 's" where
  "create_session_script A h user encoded initial_ttl absolute_remaining s =
     (let sv = at_server A
      in if as_exists sv s (session_key A h) then (0, s)
         else let previous = as_get sv s (current_user_key A user);
                  s1 = as_psetex sv (session_key A h) initial_ttl encoded s;
                  s2 = as_psetex sv (current_user_key A user) absolute_remaining h s1
              in (1, case previous of
                       Some p \<Rightarrow> if p \<noteq> h then as_del sv (session_key A p) s2 else s2
                     | None \<Rightarrow> s2))"

datatype load_reply = LoadNil | LoadRaised | Loaded rstring

definition load_and_refresh_script ::
  "'s auth_store \<Rightarrow> rstring \<Rightarrow> user_id \<Rightarrow> nat \<Rightarrow> nat \<Rightarrow> nat \<Rightarrow> 's \<Rightarrow> load_reply \<times> 's" where
  "load_and_refresh_script A h user now idle policy_expires s =
     (let sv = at_server A
      in case as_get sv s (session_key A h) of
           None \<Rightarrow> (LoadNil, s)
         | Some encoded \<Rightarrow>
             if as_get sv s (current_user_key A user) \<noteq> Some h then (LoadNil, s)
             else
               (case au_lua_session (at_codec A) encoded of
                  None \<Rightarrow> (LoadRaised, s)
                | Some (schema_version, expires_field) \<Rightarrow>
                    if schema_version \<noteq> Some 1 then (LoadRaised, s)
                    else
                      (case expires_field of
                         None \<Rightarrow> (LoadRaised, s)
                       | Some expires \<Rightarrow>
                           let effective_expires = min expires policy_expires
                           in if effective_expires \<le> now
                              then let s1 = as_del sv (session_key A h) s
                                   in (LoadNil, if as_get sv s1 (current_user_key A user) = Some h
                                                then as_del sv (current_user_key A user) s1 else s1)
                              else let ttl = min (effective_expires - now) idle;
                                       refreshed = au_lua_update (at_codec A) encoded effective_expires now
                                   in (Loaded refreshed, as_psetex sv (session_key A h) ttl refreshed s))))"

definition destroy_session_script :: "'s auth_store \<Rightarrow> rstring \<Rightarrow> user_id \<Rightarrow> 's \<Rightarrow> int \<times> 's" where
  "destroy_session_script A h user s =
     (let sv = at_server A; s1 = as_del sv (session_key A h) s
      in (1, if as_get sv s1 (current_user_key A user) = Some h then as_del sv (current_user_key A user) s1 else s1))"

section \<open>What other clients have the server do\<close>

text \<open>The requests that change the keys of the authentication, with the arguments the calls below give them,
  and the end of a key's time to live. \<open>OpenSession\<close> carries the session whose encoding is sent.\<close>

datatype auth_request =
  ReserveState rstring rstring nat nat
  | ConsumeState rstring
  | OpenSession session_data nat nat rstring
  | RefreshSession rstring user_id nat nat nat
  | DestroySession rstring user_id
  | KeyExpires rstring

fun serve :: "'s auth_store \<Rightarrow> auth_request \<Rightarrow> 's \<Rightarrow> 's" where
  "serve A (ReserveState state_hash encoded ttl counter_ttl) s =
     snd (reserve_state_script A state_hash encoded ttl counter_ttl MAX_PENDING_OAUTH_STATES s)"
| "serve A (ConsumeState state_hash) s = snd (consume_state_script A state_hash s)"
| "serve A (OpenSession x initial_ttl absolute_remaining h) s =
     snd (create_session_script A h (sd_user_id x) (au_session (at_codec A) x) initial_ttl absolute_remaining s)"
| "serve A (RefreshSession h user now idle policy_expires) s =
     snd (load_and_refresh_script A h user now idle policy_expires s)"
| "serve A (DestroySession h user) s = snd (destroy_session_script A h user s)"
| "serve A (KeyExpires k) s = as_del (at_server A) k s"

fun serve_all :: "'s auth_store \<Rightarrow> auth_request list \<Rightarrow> 's \<Rightarrow> 's" where
  "serve_all A [] s = s"
| "serve_all A (r # rs) s = serve_all A rs (serve A r s)"

lemma serve_all_append [simp]: "serve_all A (xs @ ys) s = serve_all A ys (serve_all A xs s)"
  by (induction xs arbitrary: s) simp_all

text \<open>One request of a call: what the server serves before it, and what becomes of it.\<close>

record store_turn =
  rt_others :: "auth_request list"
  rt_fault :: request_fault

definition ask :: "'s auth_store \<Rightarrow> store_turn \<Rightarrow> ('s \<Rightarrow> 'a \<times> 's) \<Rightarrow> 's \<Rightarrow> 'a option \<times> 's" where
  "ask A turn script s =
     (let s1 = serve_all A (rt_others turn) s
      in case rt_fault turn of
           NoFault \<Rightarrow> (case script s1 of (a, t) \<Rightarrow> (Some a, t))
         | LostBefore \<Rightarrow> (None, s1)
         | LostAfter \<Rightarrow> (None, snd (script s1)))"

definition get_request :: "'s auth_store \<Rightarrow> rstring \<Rightarrow> 's \<Rightarrow> rstring option \<times> 's" where
  "get_request A k s = (as_get (at_server A) s k, s)"

section \<open>Sessions\<close>

definition validate_session :: "session_data \<Rightarrow> repository_error + unit" where
  "validate_session x = (if is_valid_shape x then Inr () else Inl RepositoryCorrupt)"

definition effective_session_expiry :: "session_data \<Rightarrow> u64 \<Rightarrow> repository_error + u64" where
  "effective_session_expiry x absolute_ttl_ms =
     (case checked_add_u64 (sd_created_at_ms x) absolute_ttl_ms of
        None \<Rightarrow> Inl RepositoryCorrupt
      | Some policy_expiry \<Rightarrow> Inr (min (sd_expires_at_ms x) policy_expiry))"

definition validate_opaque_token :: "rstring \<Rightarrow> repository_error + unit" where
  "validate_opaque_token token = (if str_len token = 43 \<and> is_base64url token then Inr () else Inl InvalidToken)"

definition validate_hash :: "rstring \<Rightarrow> repository_error + unit" where
  "validate_hash h = (case validate_opaque_token h of Inl _ \<Rightarrow> Inl RepositoryCorrupt | Inr u \<Rightarrow> Inr u)"

definition decode_session :: "auth_codec \<Rightarrow> rstring \<Rightarrow> repository_error + session_data" where
  "decode_session cd encoded =
     (if str_len encoded > MAX_SESSION_JSON_BYTES then Inl RepositoryCorrupt
      else case au_parse_session cd encoded of
             None \<Rightarrow> Inl RepositoryCorrupt
           | Some session \<Rightarrow> (case validate_session session of Inl e \<Rightarrow> Inl e | Inr _ \<Rightarrow> Inr session))"

definition decode_optional :: "auth_codec \<Rightarrow> rstring option \<Rightarrow> repository_error + session_data option" where
  "decode_optional cd encoded =
     (case encoded of
        None \<Rightarrow> Inr None
      | Some t \<Rightarrow> (case decode_session cd t of Inl e \<Rightarrow> Inl e | Inr x \<Rightarrow> Inr (Some x)))"

definition peek_by_hash ::
  "'s auth_store \<Rightarrow> store_turn \<Rightarrow> rstring \<Rightarrow> 's \<Rightarrow> (repository_error + session_data option) \<times> 's" where
  "peek_by_hash A turn h s =
     (case ask A turn (get_request A (session_key A h)) s of
        (None, t) \<Rightarrow> (Inl RepositoryUnavailable, t)
      | (Some encoded, t) \<Rightarrow> (decode_optional (at_codec A) encoded, t))"

definition load_by_hash ::
  "'s auth_store \<Rightarrow> u64 option \<Rightarrow> rstring \<Rightarrow> user_id option \<Rightarrow> store_turn \<Rightarrow> store_turn \<Rightarrow> 's \<Rightarrow>
     (repository_error + session_data option) \<times> 's" where
  "load_by_hash A clock h expected_user peek refresh s =
     (case peek_by_hash A peek h s of
        (Inl e, s1) \<Rightarrow> (Inl e, s1)
      | (Inr None, s1) \<Rightarrow> (Inr None, s1)
      | (Inr (Some peeked), s1) \<Rightarrow>
          if (case expected_user of None \<Rightarrow> False | Some expected \<Rightarrow> expected \<noteq> sd_user_id peeked)
          then (Inl RepositoryCorrupt, s1)
          else
            (case clock of
               None \<Rightarrow> (Inl RepositoryUnavailable, s1)
             | Some now_ms \<Rightarrow>
                 (case effective_session_expiry peeked (at_absolute_ttl_ms A) of
                    Inl e \<Rightarrow> (Inl e, s1)
                  | Inr effective_expiry \<Rightarrow>
                      (case ask A refresh (load_and_refresh_script A h (sd_user_id peeked) (unat now_ms)
                              (unat (at_idle_ttl_ms A)) (unat effective_expiry)) s1 of
                         (Some (Loaded encoded), s2) \<Rightarrow> (decode_optional (at_codec A) (Some encoded), s2)
                       | (Some LoadNil, s2) \<Rightarrow> (Inr None, s2)
                       | (Some LoadRaised, s2) \<Rightarrow> (Inl RepositoryUnavailable, s2)
                       | (None, s2) \<Rightarrow> (Inl RepositoryUnavailable, s2)))))"

definition load ::
  "'s auth_store \<Rightarrow> u64 option \<Rightarrow> rstring \<Rightarrow> store_turn \<Rightarrow> store_turn \<Rightarrow> store_turn \<Rightarrow> 's \<Rightarrow>
     (repository_error + session_data option) \<times> 's" where
  "load A clock opaque_token peek refresh pointer s =
     (case validate_opaque_token opaque_token of
        Inl e \<Rightarrow> (Inl e, s)
      | Inr _ \<Rightarrow>
          let h = au_hash (at_codec A) opaque_token
          in case load_by_hash A clock h None peek refresh s of
               (Inl e, s1) \<Rightarrow> (Inl e, s1)
             | (Inr None, s1) \<Rightarrow> (Inr None, s1)
             | (Inr (Some loaded), s1) \<Rightarrow>
                 (case ask A pointer (get_request A (current_user_key A (sd_user_id loaded))) s1 of
                    (None, s2) \<Rightarrow> (Inl RepositoryUnavailable, s2)
                  | (Some owner, s2) \<Rightarrow> (Inr (if owner = Some h then Some loaded else None), s2)))"

definition load_bound ::
  "'s auth_store \<Rightarrow> u64 option \<Rightarrow> user_id \<Rightarrow> rstring \<Rightarrow> store_turn \<Rightarrow> store_turn \<Rightarrow> 's \<Rightarrow>
     (repository_error + session_data option) \<times> 's" where
  "load_bound A clock user session_fingerprint peek refresh s =
     (case validate_hash session_fingerprint of
        Inl e \<Rightarrow> (Inl e, s)
      | Inr _ \<Rightarrow> load_by_hash A clock session_fingerprint (Some user) peek refresh s)"

text \<open>One draw of the random source and one request per attempt.\<close>

fun create_attempts ::
  "'s auth_store \<Rightarrow> session_data \<Rightarrow> nat \<Rightarrow> nat \<Rightarrow> nat \<Rightarrow> (rstring option \<times> store_turn) list \<Rightarrow> 's \<Rightarrow>
     (repository_error + rstring) \<times> 's" where
  "create_attempts A x initial_ttl absolute_remaining 0 draws s = (Inl RepositoryCollision, s)"
| "create_attempts A x initial_ttl absolute_remaining (Suc n) [] s = (Inl RepositoryUnavailable, s)"
| "create_attempts A x initial_ttl absolute_remaining (Suc n) ((draw, turn) # draws) s =
     (case draw of
        None \<Rightarrow> (Inl RepositoryUnavailable, s)
      | Some token \<Rightarrow>
          (case ask A turn (create_session_script A (au_hash (at_codec A) token) (sd_user_id x)
                  (au_session (at_codec A) x) initial_ttl absolute_remaining) s of
             (None, t) \<Rightarrow> (Inl RepositoryUnavailable, t)
           | (Some r, t) \<Rightarrow>
               if r = 1 then (Inr token, t)
               else create_attempts A x initial_ttl absolute_remaining n draws t))"

definition create ::
  "'s auth_store \<Rightarrow> u64 option \<Rightarrow> session_data \<Rightarrow> (rstring option \<times> store_turn) list \<Rightarrow> 's \<Rightarrow>
     (repository_error + rstring) \<times> 's" where
  "create A clock x draws s =
     (case validate_session x of
        Inl e \<Rightarrow> (Inl e, s)
      | Inr _ \<Rightarrow>
          (case effective_session_expiry x (at_absolute_ttl_ms A) of
             Inl e \<Rightarrow> (Inl e, s)
           | Inr expiry \<Rightarrow>
               if expiry \<noteq> sd_expires_at_ms x then (Inl RepositoryCorrupt, s)
               else
                 (case clock of
                    None \<Rightarrow> (Inl RepositoryUnavailable, s)
                  | Some now_ms \<Rightarrow>
                      (case checked_sub_u64 (sd_expires_at_ms x) now_ms of
                         None \<Rightarrow> (Inl RepositoryCorrupt, s)
                       | Some absolute_remaining \<Rightarrow>
                           if absolute_remaining = 0 then (Inl RepositoryCorrupt, s)
                           else create_attempts A x (unat (min (at_idle_ttl_ms A) absolute_remaining))
                                  (unat absolute_remaining) CREATE_ATTEMPTS draws s))))"

definition destroy ::
  "'s auth_store \<Rightarrow> rstring \<Rightarrow> store_turn \<Rightarrow> store_turn \<Rightarrow> store_turn \<Rightarrow> 's \<Rightarrow> (repository_error + unit) \<times> 's" where
  "destroy A opaque_token peek pointer removal s =
     (case validate_opaque_token opaque_token of
        Inl e \<Rightarrow> (Inl e, s)
      | Inr _ \<Rightarrow>
          let h = au_hash (at_codec A) opaque_token
          in case peek_by_hash A peek h s of
               (Inl e, s1) \<Rightarrow> (Inl e, s1)
             | (Inr None, s1) \<Rightarrow> (Inr (), s1)
             | (Inr (Some session), s1) \<Rightarrow>
                 (case ask A pointer (get_request A (current_user_key A (sd_user_id session))) s1 of
                    (None, s2) \<Rightarrow> (Inl RepositoryUnavailable, s2)
                  | (Some owner, s2) \<Rightarrow>
                      if owner \<noteq> Some h then (Inr (), s2)
                      else
                        (case ask A removal (destroy_session_script A h (sd_user_id session)) s2 of
                           (None, s3) \<Rightarrow> (Inl RepositoryUnavailable, s3)
                         | (Some _, s3) \<Rightarrow> (Inr (), s3))))"

section \<open>Pending OAuth states\<close>

definition validate_state :: "rstring \<Rightarrow> repository_error + unit" where
  "validate_state state = (if str_len state = 43 \<and> is_base64url state then Inr () else Inl RepositoryCorrupt)"

definition reserve_state ::
  "'s auth_store \<Rightarrow> rstring \<Rightarrow> pending_oauth \<Rightarrow> store_turn \<Rightarrow> 's \<Rightarrow> (repository_error + unit) \<times> 's" where
  "reserve_state A state pending turn s =
     (case validate_state state of
        Inl e \<Rightarrow> (Inl e, s)
      | Inr _ \<Rightarrow>
          if unat (at_state_ttl_ms A) * 2 \<ge> 2 ^ 64 then (Inl RepositoryCorrupt, s)
          else
            (case ask A turn (reserve_state_script A (au_hash (at_codec A) state)
                    (au_pending (at_codec A) (po_verifier pending) (po_created_at_ms pending))
                    (unat (at_state_ttl_ms A)) (unat (at_state_ttl_ms A) * 2) MAX_PENDING_OAUTH_STATES) s of
               (None, t) \<Rightarrow> (Inl RepositoryUnavailable, t)
             | (Some result, t) \<Rightarrow>
                 (if result = 1 then Inr () else if result = 0 then Inl RepositoryCollision
                  else if result = -1 then Inl RepositoryFull else Inl RepositoryCorrupt, t)))"

definition consume ::
  "'s auth_store \<Rightarrow> rstring \<Rightarrow> store_turn \<Rightarrow> 's \<Rightarrow> (repository_error + pending_oauth option) \<times> 's" where
  "consume A state turn s =
     (case validate_state state of
        Inl e \<Rightarrow> (Inl e, s)
      | Inr _ \<Rightarrow>
          (case ask A turn (consume_state_script A (au_hash (at_codec A) state)) s of
             (None, t) \<Rightarrow> (Inl RepositoryUnavailable, t)
           | (Some None, t) \<Rightarrow> (Inr None, t)
           | (Some (Some encoded), t) \<Rightarrow>
               (if str_len encoded > MAX_PENDING_JSON_BYTES then Inl RepositoryCorrupt
                else case au_parse_pending (at_codec A) encoded of
                       None \<Rightarrow> Inl RepositoryCorrupt
                     | Some (verifier, created_at_ms) \<Rightarrow>
                         if str_len verifier \<noteq> 43 \<or> \<not> is_base64url verifier then Inl RepositoryCorrupt
                         else Inr (Some \<lparr>po_verifier = verifier, po_created_at_ms = created_at_ms\<rparr>), t)))"

end
