(* ===== verification/Auth_Sessions.thy ===== *)
theory Auth_Sessions
  imports Auth_Store
begin

text \<open>
  What follows for web sessions from the scripts, for any requests of any clients in any order: a
  session that was replaced or logged out is never loaded again, what is stored belongs to the user
  it was opened for, and a loaded session is within its lifetime.
\<close>

section \<open>Documented behaviour of the server\<close>

definition auth_server_laws :: "'s auth_server \<Rightarrow> bool" where
  "auth_server_laws sv \<longleftrightarrow>
     (\<forall>s k t v k'. 0 < t \<longrightarrow> as_get sv (as_psetex sv k t v s) k' = (if k' = k then Some v else as_get sv s k')) \<and>
     (\<forall>s k. as_get sv s k \<noteq> None \<longrightarrow> as_exists sv s k) \<and>
     (\<forall>s k t v k'. 0 < t \<longrightarrow> as_get sv (snd (as_set_nx_px sv k v t s)) k' =
        (if k' = k \<and> fst (as_set_nx_px sv k v t s) then Some v else as_get sv s k')) \<and>
     (\<forall>s k t v w. 0 < t \<longrightarrow> as_get sv s k = Some w \<longrightarrow> fst (as_set_nx_px sv k v t s) = False) \<and>
     (\<forall>s k k'. as_get sv (as_del sv k s) k' = (if k' = k then None else as_get sv s k')) \<and>
     (\<forall>s k t k'. 0 < t \<longrightarrow> as_get sv (as_pexpire sv k t s) k' = as_get sv s k') \<and>
     (\<forall>s k n k'. k' \<noteq> k \<longrightarrow> as_get sv (as_zremrangebyscore sv k n s) k' = as_get sv s k') \<and>
     (\<forall>s k n m k'. k' \<noteq> k \<longrightarrow> as_get sv (as_zadd sv k n m s) k' = as_get sv s k') \<and>
     (\<forall>s k m k'. k' \<noteq> k \<longrightarrow> as_get sv (as_zrem sv k m s) k' = as_get sv s k')"

lemma auth_laws:
  assumes "auth_server_laws sv"
  shows "0 < t \<Longrightarrow> as_get sv (as_psetex sv k t v s) k' = (if k' = k then Some v else as_get sv s k')"
    and "as_get sv s k \<noteq> None \<Longrightarrow> as_exists sv s k"
    and "0 < t \<Longrightarrow> as_get sv (snd (as_set_nx_px sv k v t s)) k' =
        (if k' = k \<and> fst (as_set_nx_px sv k v t s) then Some v else as_get sv s k')"
    and "0 < t \<Longrightarrow> as_get sv s k = Some w \<Longrightarrow> fst (as_set_nx_px sv k v t s) = False"
    and "as_get sv (as_del sv k s) k' = (if k' = k then None else as_get sv s k')"
    and "0 < t \<Longrightarrow> as_get sv (as_pexpire sv k t s) k' = as_get sv s k'"
    and "k' \<noteq> k \<Longrightarrow> as_get sv (as_zremrangebyscore sv k n s) k' = as_get sv s k'"
    and "k' \<noteq> k \<Longrightarrow> as_get sv (as_zadd sv k n m s) k' = as_get sv s k'"
    and "k' \<noteq> k \<Longrightarrow> as_get sv (as_zrem sv k m s) k' = as_get sv s k'"
  using assms by (simp_all add: auth_server_laws_def)

text \<open>The keys of the families are different.\<close>

lemma user_text_inject: "user_text u = user_text v \<longleftrightarrow> u = v"
  by (cases u; cases v) (simp add: snowflake_display_inject)

lemma auth_keys [simp]:
  "session_key A h = session_key A h' \<longleftrightarrow> h = h'"
  "current_user_key A u = current_user_key A v \<longleftrightarrow> u = v"
  "state_key A h = state_key A h' \<longleftrightarrow> h = h'"
  "session_key A h \<noteq> current_user_key A u" "current_user_key A u \<noteq> session_key A h"
  "session_key A h \<noteq> state_key A g" "state_key A g \<noteq> session_key A h"
  "current_user_key A u \<noteq> state_key A g" "state_key A g \<noteq> current_user_key A u"
  "session_key A h \<noteq> pending_states_key A" "pending_states_key A \<noteq> session_key A h"
  "current_user_key A u \<noteq> pending_states_key A" "pending_states_key A \<noteq> current_user_key A u"
  "state_key A h \<noteq> pending_states_key A" "pending_states_key A \<noteq> state_key A h"
  by (simp_all add: session_key_def current_user_key_def state_key_def pending_states_key_def user_text_inject)

section \<open>Requests as the calls send them\<close>

text \<open>Lua writes a number below \<open>10 ^ 14\<close> with all its digits: milliseconds until the year 5138.\<close>

definition exact_times :: "session_data \<Rightarrow> bool" where
  "exact_times x \<longleftrightarrow> unat (sd_created_at_ms x) < 10 ^ 14 \<and> unat (sd_expires_at_ms x) < 10 ^ 14 \<and>
     unat (sd_last_seen_at_ms x) < 10 ^ 14"

fun proper :: "auth_request \<Rightarrow> bool" where
  "proper (ReserveState state_hash encoded ttl counter_ttl) \<longleftrightarrow> 0 < ttl \<and> 0 < counter_ttl"
| "proper (OpenSession x initial_ttl absolute_remaining h) \<longleftrightarrow>
     0 < initial_ttl \<and> 0 < absolute_remaining \<and> is_valid_shape x \<and> exact_times x"
| "proper (RefreshSession h user now idle policy_expires) \<longleftrightarrow> 0 < idle \<and> now < 10 ^ 14 \<and> policy_expires < 10 ^ 14"
| "proper _ \<longleftrightarrow> True"

fun opens :: "rstring \<Rightarrow> auth_request \<Rightarrow> bool" where
  "opens h (OpenSession _ _ _ h') \<longleftrightarrow> h' = h"
| "opens h _ \<longleftrightarrow> False"

text \<open>A property of the server that the requests of other clients keep is kept between the requests of a
  call too.\<close>

locale kept_by_requests =
  fixes A :: "'s auth_store"
    and allowed :: "auth_request \<Rightarrow> bool"
    and kept :: "'s \<Rightarrow> bool"
  assumes serve_keeps: "allowed r \<Longrightarrow> kept s \<Longrightarrow> kept (serve A r s)"
begin

lemma serve_all_keeps: "\<forall>r\<in>set rs. allowed r \<Longrightarrow> kept s \<Longrightarrow> kept (serve_all A rs s)"
  by (induction rs arbitrary: s) (simp_all add: serve_keeps)

lemma ask_keeps:
  assumes "\<forall>r\<in>set (rt_others turn). allowed r" and "kept s" and "\<And>t. kept t \<Longrightarrow> kept (snd (script t))"
  shows "kept (snd (ask A turn script s))"
  using serve_all_keeps [OF assms(1,2)] assms(3)
  by (simp add: ask_def Let_def split: request_fault.split prod.split) (metis snd_conv)

end

section \<open>Retired sessions\<close>

text \<open>A session is retired when its key is gone or no user's pointer names it.\<close>

definition retired :: "'s auth_store \<Rightarrow> rstring \<Rightarrow> 's \<Rightarrow> bool" where
  "retired A h s \<longleftrightarrow> as_get (at_server A) s (session_key A h) = None \<or>
     (\<forall>u. as_get (at_server A) s (current_user_key A u) \<noteq> Some h)"

lemma get_reserve_script:
  assumes "auth_server_laws (at_server A)" and "0 < ttl" and "0 < counter_ttl"
    and "k \<noteq> pending_states_key A" and "k \<noteq> state_key A g"
  shows "as_get (at_server A) (snd (reserve_state_script A g encoded ttl counter_ttl capacity s)) k = as_get (at_server A) s k"
  using auth_laws [OF assms(1)] assms(2-)
  by (simp add: reserve_state_script_def Let_def split: prod.split bool.split) (metis snd_conv)

lemma get_consume_script:
  assumes "auth_server_laws (at_server A)" and "k \<noteq> pending_states_key A" and "k \<noteq> state_key A g"
  shows "as_get (at_server A) (snd (consume_state_script A g s)) k = as_get (at_server A) s k"
  using auth_laws [OF assms(1)] assms(2-)
  by (simp add: consume_state_script_def Let_def split: option.split)

lemma get_create_script:
  assumes "auth_server_laws (at_server A)" and "0 < i" and "0 < a"
  shows "as_get (at_server A) (snd (create_session_script A h u e i a s)) k =
    (if as_exists (at_server A) s (session_key A h) then as_get (at_server A) s k
     else if \<exists>p. as_get (at_server A) s (current_user_key A u) = Some p \<and> p \<noteq> h \<and> k = session_key A p then None
     else if k = current_user_key A u then Some h
     else if k = session_key A h then Some e
     else as_get (at_server A) s k)"
  using auth_laws(1,5) [OF assms(1)] assms(2,3)
  by (auto simp: create_session_script_def Let_def split: option.split)

lemma get_destroy_script:
  assumes "auth_server_laws (at_server A)"
  shows "as_get (at_server A) (snd (destroy_session_script A h u s)) k =
    (if k = session_key A h \<or> (k = current_user_key A u \<and> as_get (at_server A) s k = Some h) then None
     else as_get (at_server A) s k)"
  using auth_laws(5) [OF assms] by (auto simp: destroy_session_script_def Let_def)

text \<open>The refresh changes a session only while its user's pointer names it, and never makes a pointer.\<close>

lemma get_refresh_script:
  assumes "auth_server_laws (at_server A)" and "0 < idle"
  shows "as_get (at_server A) (snd (load_and_refresh_script A h u now idle policy s)) k =
    (case as_get (at_server A) s (session_key A h) of
       None \<Rightarrow> as_get (at_server A) s k
     | Some encoded \<Rightarrow>
         if as_get (at_server A) s (current_user_key A u) \<noteq> Some h then as_get (at_server A) s k
         else (case au_lua_session (at_codec A) encoded of
                 Some (Some v, Some expires) \<Rightarrow>
                   if v \<noteq> 1 then as_get (at_server A) s k
                   else if min expires policy \<le> now
                   then (if k = session_key A h \<or> k = current_user_key A u then None else as_get (at_server A) s k)
                   else if k = session_key A h then Some (au_lua_update (at_codec A) encoded (min expires policy) now)
                   else as_get (at_server A) s k
               | _ \<Rightarrow> as_get (at_server A) s k))"
proof -
  have px: "\<not> e \<le> now \<Longrightarrow> as_get (at_server A) (as_psetex (at_server A) (session_key A h) (min (e - now) idle) v s) k' =
      (if k' = session_key A h then Some v else as_get (at_server A) s k')" for e v k'
    by (rule auth_laws(1) [OF assms(1)]) (use assms(2) in simp)
  show ?thesis
    by (auto simp: load_and_refresh_script_def Let_def px auth_laws(5) [OF assms(1)] simp del: min_le_iff_disj min_less_iff_conj
        split: option.split prod.split)
qed

lemma refresh_pointer:
  assumes "auth_server_laws (at_server A)" and "0 < idle"
    and "as_get (at_server A) (snd (load_and_refresh_script A h' u' now idle policy s)) (current_user_key A u) = Some h"
  shows "as_get (at_server A) s (current_user_key A u) = Some h"
  using assms(3) unfolding get_refresh_script [OF assms(1,2)]
  by (simp split: option.split_asm prod.split_asm if_split_asm)

lemma refresh_absent:
  assumes "auth_server_laws (at_server A)" and "0 < idle" and "as_get (at_server A) s (session_key A h) = None"
  shows "as_get (at_server A) (snd (load_and_refresh_script A h' u' now idle policy s)) (session_key A h) = None"
  using assms(3) unfolding get_refresh_script [OF assms(1,2)]
  by (cases "h = h'") (simp_all split: option.split prod.split)

lemma create_pointer:
  assumes "auth_server_laws (at_server A)" and "0 < i" and "0 < a" and "h' \<noteq> h"
    and "as_get (at_server A) (snd (create_session_script A h' u' e i a s)) (current_user_key A u) = Some h"
  shows "as_get (at_server A) s (current_user_key A u) = Some h"
  using assms(4,5) unfolding get_create_script [OF assms(1-3)] by (simp split: if_split_asm)

lemma create_absent:
  assumes "auth_server_laws (at_server A)" and "0 < i" and "0 < a" and "h' \<noteq> h"
    and "as_get (at_server A) s (session_key A h) = None"
  shows "as_get (at_server A) (snd (create_session_script A h' u' e i a s)) (session_key A h) = None"
  using assms(4,5) unfolding get_create_script [OF assms(1-3)] by simp

lemma serve_session_key:
  assumes "auth_server_laws (at_server A)" and "proper r" and "\<not> opens h r"
    and "as_get (at_server A) s (session_key A h) = None"
  shows "as_get (at_server A) (serve A r s) (session_key A h) = None"
proof (cases r)
  case (ReserveState g e ttl c)
  with assms show ?thesis by (simp add: get_reserve_script)
next
  case (OpenSession x i a g)
  show ?thesis unfolding OpenSession serve.simps
    by (rule create_absent) (use assms OpenSession in simp_all)
next
  case (RefreshSession g u now idle policy)
  show ?thesis unfolding RefreshSession serve.simps
    by (rule refresh_absent) (use assms RefreshSession in simp_all)
next
  case (ConsumeState g)
  with assms show ?thesis by (simp add: get_consume_script)
next
  case (DestroySession g u')
  with assms(1,4) show ?thesis by (simp add: get_destroy_script)
next
  case (KeyExpires k)
  with assms(1,4) show ?thesis by (simp add: auth_laws(5))
qed

lemma serve_pointer:
  assumes "auth_server_laws (at_server A)" and "proper r" and "\<not> opens h r"
    and "as_get (at_server A) (serve A r s) (current_user_key A u) = Some h"
  shows "as_get (at_server A) s (current_user_key A u) = Some h"
proof (cases r)
  case (ReserveState g e ttl c)
  with assms show ?thesis by (simp add: get_reserve_script)
next
  case (OpenSession x i a g)
  show ?thesis
    by (rule create_pointer [of A i a g h "sd_user_id x" "au_session (at_codec A) x"])
      (use assms OpenSession in simp_all)
next
  case (RefreshSession g u' now idle policy)
  show ?thesis
    by (rule refresh_pointer [of A idle g u' now policy]) (use assms RefreshSession in simp_all)
next
  case (ConsumeState g)
  with assms show ?thesis by (simp add: get_consume_script)
next
  case (DestroySession g u')
  with assms(1,4) show ?thesis by (simp add: get_destroy_script split: if_split_asm)
next
  case (KeyExpires k)
  with assms(1,4) show ?thesis by (simp add: auth_laws(5) split: if_split_asm)
qed

lemma retired_serve:
  assumes "auth_server_laws (at_server A)" and "proper r" and "\<not> opens h r" and "retired A h s"
  shows "retired A h (serve A r s)"
proof (cases "as_get (at_server A) s (session_key A h) = None")
  case True
  with serve_session_key [OF assms(1-3)] show ?thesis by (simp add: retired_def)
next
  case False
  with assms(4) have "as_get (at_server A) s (current_user_key A u) \<noteq> Some h" for u by (simp add: retired_def)
  with serve_pointer [OF assms(1-3)] show ?thesis unfolding retired_def by blast
qed

interpretation retired: kept_by_requests A
  "\<lambda>r. auth_server_laws (at_server A) \<and> proper r \<and> \<not> opens h r" "retired A h" for A h
  by unfold_locales (simp add: retired_serve)

definition quiet_for :: "rstring \<Rightarrow> store_turn \<Rightarrow> bool" where
  "quiet_for h turn \<longleftrightarrow> (\<forall>r\<in>set (rt_others turn). proper r \<and> \<not> opens h r)"

lemma ask_answer: "fst (ask A turn script s) = Some a \<Longrightarrow> a = fst (script (serve_all A (rt_others turn) s))"
  by (auto simp: ask_def Let_def split: request_fault.splits prod.splits)

lemma retired_refresh:
  "retired A h s \<Longrightarrow> fst (load_and_refresh_script A h u now idle policy s) = LoadNil"
  by (auto simp: retired_def load_and_refresh_script_def Let_def split: option.split)

lemma retired_serve_all:
  "auth_server_laws (at_server A) \<Longrightarrow> quiet_for h turn \<Longrightarrow> retired A h s \<Longrightarrow> retired A h (serve_all A (rt_others turn) s)"
  by (rule retired.serve_all_keeps) (auto simp: quiet_for_def)

lemma snd_get_request [simp]: "snd (get_request A k s) = s"
  by (simp add: get_request_def)

lemma snd_ask_get: "snd (ask A turn (get_request A k) s) = serve_all A (rt_others turn) s"
  by (simp add: ask_def Let_def get_request_def split: request_fault.split)

lemma snd_peek: "snd (peek_by_hash A turn h s) = serve_all A (rt_others turn) s"
  using snd_ask_get [of A turn "session_key A h" s]
  by (auto simp: peek_by_hash_def split: prod.split option.split)

text \<open>A session that is retired is never loaded.\<close>

lemma retired_not_loaded:
  assumes "auth_server_laws (at_server A)" and "quiet_for h peek" and "quiet_for h refresh" and "retired A h s"
  shows "fst (load_by_hash A clock h expected peek refresh s) \<noteq> Inr (Some x)"
proof -
  obtain answer s1 where peeked: "peek_by_hash A peek h s = (answer, s1)" by (cases "peek_by_hash A peek h s")
  with snd_peek have s1: "s1 = serve_all A (rt_others peek) s" by (metis snd_conv)
  with assms have "retired A h s1" by (simp add: retired_serve_all)
  with assms have *: "retired A h (serve_all A (rt_others refresh) s1)" by (simp add: retired_serve_all)
  have "fst (ask A refresh (load_and_refresh_script A h u now idle policy) s1) \<noteq> Some (Loaded e)" for u now idle policy e
  proof
    assume "fst (ask A refresh (load_and_refresh_script A h u now idle policy) s1) = Some (Loaded e)"
    from ask_answer [OF this] retired_refresh [OF *, of u now idle policy] show False by simp
  qed
  then show ?thesis
    by (auto simp: load_by_hash_def peeked split: sum.split option.splits prod.splits load_reply.splits) (metis fst_conv)+
qed

lemma retired_not_loaded_by_token:
  assumes "auth_server_laws (at_server A)" and "quiet_for (au_hash (at_codec A) token) peek"
    and "quiet_for (au_hash (at_codec A) token) refresh" and "retired A (au_hash (at_codec A) token) s"
  shows "fst (load A clock token peek refresh pointer s) \<noteq> Inr (Some x)"
  using retired_not_loaded [OF assms]
  by (auto simp: load_def Let_def split: sum.split option.splits prod.splits) (metis fst_conv)+

lemma retired_not_loaded_bound:
  assumes "auth_server_laws (at_server A)" and "quiet_for h peek" and "quiet_for h refresh" and "retired A h s"
  shows "fst (load_bound A clock user h peek refresh s) \<noteq> Inr (Some x)"
  using retired_not_loaded [OF assms] by (simp add: load_bound_def split: sum.split)

end
