(* ===== verification/Auth_History.thy ===== *)
theory Auth_History
  imports Auth_Sessions
begin

text \<open>
  The sessions on the server after any history of requests: every stored session goes back to the
  request that opened it, and every pointer to a session of its own user. From that follow what a
  login and a logout revoke, the lifetime of a session, and when what is stored stays readable.
\<close>

section \<open>Encodings of sessions\<close>

text \<open>What may stand under the key of a session: the encoding of serde, or that of Lua after any number of
  refreshes. \<open>True\<close> marks the encodings of Lua.\<close>

inductive session_blob :: "auth_codec \<Rightarrow> bool \<Rightarrow> session_data \<Rightarrow> rstring \<Rightarrow> bool" for cd where
  written: "session_blob cd False x (au_session cd x)"
| refreshed: "session_blob cd r x t \<Longrightarrow> expires < 10 ^ 14 \<Longrightarrow> now < 10 ^ 14 \<Longrightarrow>
    session_blob cd True (x\<lparr>sd_expires_at_ms := of_nat expires, sd_last_seen_at_ms := of_nat now\<rparr>)
      (au_lua_update cd t expires now)"

text \<open>The shape of a session but for its times.\<close>

definition body_valid :: "session_data \<Rightarrow> bool" where
  "body_valid x \<longleftrightarrow> sd_schema_version x = SCHEMA_VERSION \<and> str_len (sd_csrf_token x) = 43 \<and> is_base64url (sd_csrf_token x) \<and>
     length (sd_guilds x) \<le> 200 \<and> is_none_or profile_valid (sd_profile x) \<and> guilds_valid {} (sd_guilds x)"

lemma is_valid_shape_iff:
  "is_valid_shape x \<longleftrightarrow> body_valid x \<and> sd_created_at_ms x \<le> sd_last_seen_at_ms x \<and> sd_last_seen_at_ms x < sd_expires_at_ms x"
  by (auto simp: is_valid_shape_def body_valid_def)

text \<open>The documented behaviour of the encodings: Lua's tables keep what serde wrote, except that
  \<open>cjson.encode\<close> writes a table without entries as an object, which serde refuses where it expects the
  list of the guilds. A session of valid shape is shorter than the limit.\<close>

definition auth_codec_laws :: "auth_codec \<Rightarrow> bool" where
  "auth_codec_laws cd \<longleftrightarrow>
     (\<forall>r x t. session_blob cd r x t \<longrightarrow> exact_times x \<longrightarrow>
        au_parse_session cd t = (if r \<and> sd_guilds x = [] then None else Some x) \<and>
        au_lua_session cd t = Some (Some (unat (sd_schema_version x)), Some (unat (sd_expires_at_ms x))) \<and>
        (body_valid x \<longrightarrow> str_len t \<le> MAX_SESSION_JSON_BYTES))"

lemma codec_simps:
  assumes "auth_codec_laws cd" and "session_blob cd r x t" and "exact_times x"
  shows "au_parse_session cd t = (if r \<and> sd_guilds x = [] then None else Some x)"
    and "au_lua_session cd t = Some (Some (unat (sd_schema_version x)), Some (unat (sd_expires_at_ms x)))"
    and "body_valid x \<Longrightarrow> str_len t \<le> MAX_SESSION_JSON_BYTES"
  using assms unfolding auth_codec_laws_def by blast+

text \<open>A session that differs in its two times only.\<close>

definition renewal :: "session_data \<Rightarrow> session_data \<Rightarrow> bool" where
  "renewal x y \<longleftrightarrow> (\<exists>e n. y = x\<lparr>sd_expires_at_ms := e, sd_last_seen_at_ms := n\<rparr>)"

lemma renewal_refl [simp]: "renewal x x"
  unfolding renewal_def by (rule exI [of _ "sd_expires_at_ms x"], rule exI [of _ "sd_last_seen_at_ms x"]) simp

lemma renewal_update: "renewal x y \<Longrightarrow> renewal x (y\<lparr>sd_expires_at_ms := e, sd_last_seen_at_ms := n\<rparr>)"
  unfolding renewal_def by (elim exE, intro exI [of _ e] exI [of _ n]) simp

lemma renewal_same:
  assumes "renewal x y"
  shows "sd_user_id y = sd_user_id x" and "sd_guilds y = sd_guilds x" and "sd_created_at_ms y = sd_created_at_ms x"
    and "sd_csrf_token y = sd_csrf_token x" and "sd_profile y = sd_profile x" and "sd_schema_version y = sd_schema_version x"
    and "body_valid y \<longleftrightarrow> body_valid x"
  using assms by (auto simp: renewal_def body_valid_def)

section \<open>What is stored\<close>

text \<open>Only the user \<open>u\<close> may be signed in with \<open>h\<close>.\<close>

definition owned :: "'s auth_store \<Rightarrow> rstring \<Rightarrow> user_id \<Rightarrow> 's \<Rightarrow> bool" where
  "owned A h u s \<longleftrightarrow> (\<forall>v. as_get (at_server A) s (current_user_key A v) = Some h \<longrightarrow> v = u)"

fun opens_for_other :: "rstring \<Rightarrow> user_id \<Rightarrow> auth_request \<Rightarrow> bool" where
  "opens_for_other h u (OpenSession x _ _ h') \<longleftrightarrow> h' = h \<and> sd_user_id x \<noteq> u"
| "opens_for_other h u _ \<longleftrightarrow> False"

lemma create_owned:
  assumes "auth_server_laws (at_server A)" and "0 < i" and "0 < a" and "g = h \<Longrightarrow> v = u" and "owned A h u s"
  shows "owned A h u (snd (create_session_script A g v e i a s))"
  using assms(4,5) unfolding owned_def get_create_script [OF assms(1-3)] by auto

lemma owned_serve:
  assumes "auth_server_laws (at_server A)" and "proper r" and "\<not> opens_for_other h u r" and "owned A h u s"
  shows "owned A h u (serve A r s)"
proof (cases "opens h r")
  case False
  with serve_pointer [OF assms(1,2)] assms(4) show ?thesis unfolding owned_def by blast
next
  case True
  then obtain x i a where r: "r = OpenSession x i a h" by (cases r) auto
  show ?thesis unfolding r serve.simps by (rule create_owned) (use assms r in auto)
qed

interpretation owner: kept_by_requests A
  "\<lambda>r. auth_server_laws (at_server A) \<and> proper r \<and> \<not> opens_for_other h u r" "owned A h u" for A h u
  by unfold_locales (simp add: owned_serve)

text \<open>What stands under the key of \<open>h\<close> is an encoding of the session that was opened with \<open>h\<close>, apart from
  its times; \<open>good\<close> is what else the refreshes keep of it.\<close>

definition stored :: "'s auth_store \<Rightarrow> (session_data \<Rightarrow> bool) \<Rightarrow> rstring \<Rightarrow> session_data \<Rightarrow> 's \<Rightarrow> bool" where
  "stored A good h x s \<longleftrightarrow> (\<forall>t. as_get (at_server A) s (session_key A h) = Some t \<longrightarrow>
     (\<exists>r y. session_blob (at_codec A) r y t \<and> renewal x y \<and> exact_times y \<and> good y))"

fun opens_other :: "rstring \<Rightarrow> session_data \<Rightarrow> auth_request \<Rightarrow> bool" where
  "opens_other h x (OpenSession y _ _ h') \<longleftrightarrow> h' = h \<and> y \<noteq> x"
| "opens_other h x _ \<longleftrightarrow> False"

fun refreshes_badly :: "(session_data \<Rightarrow> bool) \<Rightarrow> rstring \<Rightarrow> auth_request \<Rightarrow> bool" where
  "refreshes_badly good h (RefreshSession h' u now idle policy) \<longleftrightarrow> h' = h \<and>
     (\<exists>y e. good y \<and> now < e \<and> e < 10 ^ 14 \<and> \<not> good (y\<lparr>sd_expires_at_ms := of_nat e, sd_last_seen_at_ms := of_nat now\<rparr>))"
| "refreshes_badly good h _ \<longleftrightarrow> False"

lemma exact_small: "n < 10 ^ 14 \<Longrightarrow> unat (of_nat n :: u64) = n"
  by (rule unat_u64_of_nat) simp

lemma exact_times_update:
  "exact_times y \<Longrightarrow> e < 10 ^ 14 \<Longrightarrow> n < 10 ^ 14 \<Longrightarrow>
     exact_times (y\<lparr>sd_expires_at_ms := of_nat e, sd_last_seen_at_ms := of_nat n\<rparr>)"
  by (simp add: exact_times_def exact_small)

text \<open>One refresh of a stored session.\<close>

lemma refresh_stored:
  assumes "auth_server_laws (at_server A)" and "auth_codec_laws (at_codec A)" and "proper (RefreshSession g u now idle policy)"
    and "\<not> refreshes_badly good h (RefreshSession g u now idle policy)" and "stored A good h x s"
  shows "stored A good h x (snd (load_and_refresh_script A g u now idle policy s))"
proof (cases "g = h")
  case False
  with assms(3,5) show ?thesis
    by (simp add: stored_def get_refresh_script [OF assms(1)] split: option.split prod.split)
next
  case True
  show ?thesis
  proof (cases "as_get (at_server A) s (session_key A h)")
    case None
    with True assms(3,5) show ?thesis by (simp add: stored_def get_refresh_script [OF assms(1)])
  next
    case (Some t)
    with assms(5) obtain r y where y: "session_blob (at_codec A) r y t" "renewal x y" "exact_times y" "good y"
      unfolding stored_def by blast
    let ?e = "min (unat (sd_expires_at_ms y)) policy"
    let ?z = "y\<lparr>sd_expires_at_ms := of_nat ?e, sd_last_seen_at_ms := of_nat now\<rparr>"
    note lua = codec_simps(2) [OF assms(2) y(1,3)]
    have small: "?e < 10 ^ 14" "now < 10 ^ 14" using assms(3) by auto
    have "session_blob (at_codec A) True ?z (au_lua_update (at_codec A) t ?e now)" by (rule refreshed [OF y(1) small])
    moreover have "renewal x ?z" "exact_times ?z" using y small by (auto intro: renewal_update exact_times_update)
    moreover have "now < ?e \<Longrightarrow> good ?z" using assms(4) True y(4) small by auto
    ultimately have z: "now < ?e \<Longrightarrow> \<exists>r z. session_blob (at_codec A) r z (au_lua_update (at_codec A) t ?e now) \<and>
        renewal x z \<and> exact_times z \<and> good z"
      by blast
    have kept: "\<exists>r y. session_blob (at_codec A) r y t \<and> renewal x y \<and> exact_times y \<and> good y" using y by blast
    show ?thesis
      unfolding stored_def True get_refresh_script [OF assms(1) conjunct1 [OF assms(3) [unfolded proper.simps]]] Some
      using z kept by (auto simp: lua not_le simp del: min_less_iff_conj min_le_iff_disj)
  qed
qed

lemma stored_serve:
  assumes "auth_server_laws (at_server A)" and "auth_codec_laws (at_codec A)" and "proper r" and "\<not> opens_other h x r"
    and "\<not> refreshes_badly good h r" and "good x" and "stored A good h x s"
  shows "stored A good h x (serve A r s)"
proof (cases r)
  case (RefreshSession g u now idle policy)
  with refresh_stored [OF assms(1,2) _ _ assms(7)] assms(3,5) show ?thesis by simp
next
  case (OpenSession y i a g)
  have "session_blob (at_codec A) False y (au_session (at_codec A) y)" by (rule written)
  moreover have "0 < i" "0 < a" "exact_times y" "g = h \<Longrightarrow> y = x" using assms(3,4) OpenSession by auto
  moreover have "renewal x x" by simp
  ultimately have "g = h \<Longrightarrow> \<exists>r z. session_blob (at_codec A) r z (au_session (at_codec A) y) \<and>
      renewal x z \<and> exact_times z \<and> good z"
    using assms(6) by blast
  with \<open>0 < i\<close> \<open>0 < a\<close> show ?thesis using assms(7) unfolding OpenSession serve.simps stored_def
    by (auto simp: get_create_script [OF assms(1)])
next
  case (ReserveState g e ttl c)
  with assms show ?thesis by (simp add: stored_def get_reserve_script)
next
  case (ConsumeState g)
  with assms show ?thesis by (simp add: stored_def get_consume_script)
next
  case (DestroySession g u)
  with assms show ?thesis by (simp add: stored_def get_destroy_script)
next
  case (KeyExpires k)
  with assms show ?thesis by (simp add: stored_def auth_laws(5))
qed

interpretation body: kept_by_requests A
  "\<lambda>r. auth_server_laws (at_server A) \<and> auth_codec_laws (at_codec A) \<and> good x \<and> proper r \<and> \<not> opens_other h x r \<and>
     \<not> refreshes_badly good h r" "stored A good h x" for A good h x
  by unfold_locales (simp add: stored_serve)

section \<open>What a login revokes\<close>

text \<open>The turns of a call in which no request opens the session \<open>h\<close> again.\<close>

abbreviation turns_quiet :: "rstring \<Rightarrow> (rstring option \<times> store_turn) list \<Rightarrow> bool" where
  "turns_quiet h draws \<equiv> \<forall>d\<in>set draws. quiet_for h (snd d)"

lemma quiet_owned:
  assumes "auth_server_laws (at_server A)" and "quiet_for h turn" and "owned A h u s"
  shows "owned A h u (serve_all A (rt_others turn) s)"
proof (rule owner.serve_all_keeps [OF _ assms(3)], intro ballI conjI)
  fix r assume "r \<in> set (rt_others turn)"
  then have r: "proper r" "\<not> opens h r" using assms(2) by (auto simp: quiet_for_def)
  show "auth_server_laws (at_server A)" by (fact assms(1))
  show "proper r" by (fact r(1))
  show "\<not> opens_for_other h u r" using r(2) by (cases r) auto
qed

lemma create_retires:
  assumes "auth_server_laws (at_server A)" and "0 < i" and "0 < a" and "g \<noteq> h" and "owned A h u s"
    and "fst (create_session_script A g u e i a s) = 1"
  shows "retired A h (snd (create_session_script A g u e i a s))"
proof -
  have fresh: "\<not> as_exists (at_server A) s (session_key A g)"
    using assms(6) by (auto simp: create_session_script_def Let_def split: if_splits)
  note get = get_create_script [OF assms(1-3), of g u e s]
  have "as_get (at_server A) (snd (create_session_script A g u e i a s)) (current_user_key A v) \<noteq> Some h" for v
  proof (cases "v = u")
    case True
    with fresh assms(4) show ?thesis by (simp add: get)
  next
    case False
    with assms(5) have "as_get (at_server A) s (current_user_key A v) \<noteq> Some h" unfolding owned_def by blast
    with fresh False show ?thesis by (simp add: get)
  qed
  then show ?thesis by (simp add: retired_def)
qed

lemma create_keeps_owned:
  assumes "auth_server_laws (at_server A)" and "0 < i" and "0 < a" and "g \<noteq> h" and "owned A h u s"
  shows "owned A h u (snd (create_session_script A g v e i a s))"
  by (rule create_owned [OF assms(1-3) _ assms(5)]) (use assms(4) in simp)

lemma attempts_retire:
  assumes laws: "auth_server_laws (at_server A)" and "0 < i" and "0 < a"
    and "\<forall>d\<in>set draws. \<forall>k. fst d = Some k \<longrightarrow> au_hash (at_codec A) k \<noteq> h"
    and "turns_quiet h draws" and "owned A h (sd_user_id y) s"
    and "create_attempts A y i a n draws s = (Inr token, t)"
  shows "retired A h t"
  using assms(4-)
proof (induction draws arbitrary: n s)
  case Nil
  then show ?case by (cases n) simp_all
next
  case (Cons d draws)
  obtain m where n: "n = Suc m" using Cons.prems(4) by (cases n) auto
  obtain turn k where d: "d = (Some k, turn)"
    using Cons.prems(4) n by (cases d; cases "fst d") auto
  let ?script = "create_session_script A (au_hash (at_codec A) k) (sd_user_id y) (au_session (at_codec A) y) i a"
  obtain r s' where asked: "ask A turn ?script s = (Some r, s')"
    using Cons.prems(4) d n by (auto split: prod.splits option.splits)
  let ?s1 = "serve_all A (rt_others turn) s"
  have script: "?script ?s1 = (r, s')"
    using asked by (auto simp: ask_def Let_def split: request_fault.splits prod.splits)
  have new: "au_hash (at_codec A) k \<noteq> h" using Cons.prems(1) d by auto
  have "quiet_for h turn" using Cons.prems(2) d by simp
  then have owned: "owned A h (sd_user_id y) ?s1" by (rule quiet_owned [OF laws _ Cons.prems(3)])
  show ?case
  proof (cases "r = 1")
    case True
    with Cons.prems(4) n d asked have "s' = t" by simp
    moreover from script True have "fst (?script ?s1) = 1" by simp
    ultimately show ?thesis using create_retires [OF laws assms(2,3) new owned] script by (metis snd_conv)
  next
    case False
    have "owned A h (sd_user_id y) s'"
      using create_keeps_owned [OF laws assms(2,3) new owned] script by (metis snd_conv)
    moreover have "create_attempts A y i a m draws s' = (Inr token, t)" using Cons.prems(4) n d asked False by simp
    ultimately show ?thesis using Cons.IH Cons.prems(1,2) by simp
  qed
qed

definition store_wf :: "'s auth_store \<Rightarrow> bool" where
  "store_wf A \<longleftrightarrow> at_state_ttl_ms A \<noteq> 0 \<and> at_idle_ttl_ms A \<noteq> 0 \<and> at_absolute_ttl_ms A \<noteq> 0"

lemma auth_store_new_wf:
  assumes "auth_store_new server codec config = Inr A"
  shows "store_wf A"
proof -
  have "store_duration_ms d = Inr n \<Longrightarrow> n \<noteq> 0" for d n
    by (auto simp: store_duration_ms_def Let_def word_unat_eq_iff unat_u64_of_nat split: if_splits)
  with assms show ?thesis by (auto simp: auth_store_new_def store_wf_def split: sum.splits)
qed

lemma create_ok:
  assumes "create A clock y draws s = (Inr token, t)" and "store_wf A"
  obtains i a where "0 < i" and "0 < a" and "create_attempts A y i a CREATE_ATTEMPTS draws s = (Inr token, t)"
    and "is_valid_shape y"
proof -
  obtain now remaining where *: "is_valid_shape y" "clock = Some now" "remaining \<noteq> 0"
      "create_attempts A y (unat (min (at_idle_ttl_ms A) remaining)) (unat remaining) CREATE_ATTEMPTS draws s = (Inr token, t)"
    using assms(1) by (auto simp: create_def validate_session_def split: if_split_asm option.split_asm sum.split_asm)
  have "0 < unat remaining" "0 < unat (min (at_idle_ttl_ms A) remaining)"
    using *(3) assms(2) by (auto simp: store_wf_def unat_gt_0 min_def)
  with * that show ?thesis by blast
qed

text \<open>The session \<open>h\<close> of a user is retired by the next login of that user.\<close>

lemma login_retires:
  assumes "auth_server_laws (at_server A)" and "store_wf A" and "create A clock y draws s = (Inr token, t)"
    and "owned A h (sd_user_id y) s" and "turns_quiet h draws"
    and "\<forall>d\<in>set draws. \<forall>k. fst d = Some k \<longrightarrow> au_hash (at_codec A) k \<noteq> h"
  shows "retired A h t"
proof -
  obtain i a where ia: "0 < i" "0 < a" "create_attempts A y i a CREATE_ATTEMPTS draws s = (Inr token, t)"
    by (rule create_ok [OF assms(3,2)])
  show ?thesis by (rule attempts_retire [OF assms(1) ia(1,2) assms(6,5,4) ia(3)])
qed

section \<open>What a logout revokes\<close>

lemma peek_Inr:
  assumes "peek_by_hash A turn h s = (Inr z, t)"
  shows "t = serve_all A (rt_others turn) s"
    and "z = None \<Longrightarrow> as_get (at_server A) t (session_key A h) = None"
    and "z = Some x \<Longrightarrow> \<exists>e. as_get (at_server A) t (session_key A h) = Some e \<and> decode_session (at_codec A) e = Inr x"
  using assms
  by (auto simp: peek_by_hash_def ask_def get_request_def decode_optional_def Let_def
      split: request_fault.splits option.splits prod.splits sum.splits)

lemma decode_Inr:
  "decode_session cd e = Inr x \<longleftrightarrow> str_len e \<le> MAX_SESSION_JSON_BYTES \<and> au_parse_session cd e = Some x \<and> is_valid_shape x"
  by (auto simp: decode_session_def validate_session_def split: option.split)

lemma stored_decode:
  assumes "auth_codec_laws (at_codec A)" and "stored A good h x s" and "as_get (at_server A) s (session_key A h) = Some e"
    and "decode_session (at_codec A) e = Inr y"
  shows "renewal x y" and "exact_times y" and "good y"
proof -
  obtain r z where z: "session_blob (at_codec A) r z e" "renewal x z" "exact_times z" "good z"
    using assms(2,3) unfolding stored_def by blast
  from codec_simps(1) [OF assms(1) z(1,3)] assms(4) have "y = z" by (auto simp: decode_Inr split: if_splits)
  with z show "renewal x y" "exact_times y" "good y" by simp_all
qed

lemma quiet_stored:
  assumes "auth_server_laws (at_server A)" and "auth_codec_laws (at_codec A)" and "quiet_for h turn"
    and "stored A (\<lambda>_. True) h x s"
  shows "stored A (\<lambda>_. True) h x (serve_all A (rt_others turn) s)"
proof (rule body.serve_all_keeps [OF _ assms(4)], intro ballI conjI)
  fix r assume "r \<in> set (rt_others turn)"
  then have r: "proper r" "\<not> opens h r" using assms(3) by (auto simp: quiet_for_def)
  show "proper r" by (fact r(1))
  show "\<not> opens_other h x r" using r(2) by (cases r) auto
  show "\<not> refreshes_badly (\<lambda>_. True) h r" by (cases r) auto
qed (use assms in simp_all)

lemma get_pointer:
  assumes "ask A turn (get_request A k) s = (Some v, t)"
  shows "t = serve_all A (rt_others turn) s" and "v = as_get (at_server A) t k"
  using assms by (auto simp: ask_def get_request_def Let_def split: request_fault.splits)

lemma ask_served:
  assumes "ask A turn script s = (Some a, t)"
  shows "script (serve_all A (rt_others turn) s) = (a, t)"
  using assms by (auto simp: ask_def Let_def split: request_fault.splits prod.splits)

lemma destroy_retires: "auth_server_laws (at_server A) \<Longrightarrow> retired A h (snd (destroy_session_script A h u s))"
  by (simp add: retired_def get_destroy_script)

lemma logout_retires:
  assumes laws: "auth_server_laws (at_server A)" and codec: "auth_codec_laws (at_codec A)"
    and h: "h = au_hash (at_codec A) token" and ok: "destroy A token peek pointer removal s = (Inr (), t)"
    and owned: "owned A h (sd_user_id x) s" and stored: "stored A (\<lambda>_. True) h x s"
    and quiet: "quiet_for h peek" "quiet_for h pointer"
  shows "retired A h t"
proof -
  have valid: "validate_opaque_token token = Inr ()"
    using ok by (auto simp: destroy_def validate_opaque_token_def split: if_splits)
  obtain z s1 where peeked: "peek_by_hash A peek h s = (Inr z, s1)"
    using ok valid by (auto simp: destroy_def h Let_def split: prod.splits sum.splits option.splits)
  have s1: "s1 = serve_all A (rt_others peek) s" by (rule peek_Inr(1) [OF peeked])
  show ?thesis
  proof (cases z)
    case None
    then have "t = s1" using ok valid peeked by (simp add: destroy_def h)
    with peek_Inr(2) [OF peeked None] show ?thesis by (simp add: retired_def)
  next
    case (Some session)
    have "sd_user_id session = sd_user_id x"
      using peek_Inr(3) [OF peeked Some] stored_decode(1) [OF codec] quiet_stored [OF laws codec quiet(1) stored]
        renewal_same(1) s1 by blast
    then obtain owner s2 where asked: "ask A pointer (get_request A (current_user_key A (sd_user_id x))) s1 = (Some owner, s2)"
      using ok valid peeked Some by (auto simp: destroy_def h Let_def split: prod.splits option.splits)
    note s2 = get_pointer [OF asked]
    have owned2: "owned A h (sd_user_id x) s2"
      unfolding s2(1) s1 by (intro quiet_owned [OF laws] quiet owned)
    show ?thesis
    proof (cases "owner = Some h")
      case False
      then have "t = s2" using ok valid peeked Some asked \<open>sd_user_id session = sd_user_id x\<close> by (simp add: destroy_def h)
      moreover have "as_get (at_server A) s2 (current_user_key A v) \<noteq> Some h" for v
        using owned2 False s2(2) unfolding owned_def by blast
      ultimately show ?thesis by (simp add: retired_def)
    next
      case True
      then obtain b where "ask A removal (destroy_session_script A h (sd_user_id x)) s2 = (Some b, t)"
        using ok valid peeked Some asked \<open>sd_user_id session = sd_user_id x\<close>
        by (auto simp: destroy_def h split: prod.splits option.splits)
      then have "t = snd (destroy_session_script A h (sd_user_id x) (serve_all A (rt_others removal) s2))"
        by (metis ask_served snd_conv)
      then show ?thesis using destroy_retires [OF laws] by simp
    qed
  qed
qed

section \<open>A session within its lifetime\<close>

lemma refresh_loaded:
  assumes "load_and_refresh_script A h u now idle policy s = (Loaded e, t)"
  obtains encoded expires where "as_get (at_server A) s (session_key A h) = Some encoded"
    and "as_get (at_server A) s (current_user_key A u) = Some h"
    and "au_lua_session (at_codec A) encoded = Some (Some 1, Some expires)" and "now < min expires policy"
    and "e = au_lua_update (at_codec A) encoded (min expires policy) now"
  using assms
  by (auto simp: load_and_refresh_script_def Let_def not_le
      simp del: min_less_iff_conj min_le_iff_disj split: option.splits if_splits prod.splits)

lemma effective_expiry_bound:
  assumes "effective_session_expiry x ttl = Inr e"
  shows "unat e \<le> unat (sd_created_at_ms x) + unat ttl" and "e \<le> sd_expires_at_ms x"
  using assms by (auto simp: effective_session_expiry_def checked_add_u64_Some unat_add_u64 min_def word_le_nat_alt
      split: option.splits if_splits)

lemma load_by_hash_Some:
  assumes "load_by_hash A (Some now) h expected peek refresh s = (Inr (Some z), t)"
  obtains peeked policy encoded where
    "peek_by_hash A peek h s = (Inr (Some peeked), serve_all A (rt_others peek) s)"
    and "effective_session_expiry peeked (at_absolute_ttl_ms A) = Inr policy"
    and "load_and_refresh_script A h (sd_user_id peeked) (unat now) (unat (at_idle_ttl_ms A)) (unat policy)
           (serve_all A (rt_others refresh) (serve_all A (rt_others peek) s)) = (Loaded encoded, t)"
    and "decode_session (at_codec A) encoded = Inr z" and "is_none_or (\<lambda>u. u = sd_user_id peeked) expected"
proof -
  obtain peeked s1 where p: "peek_by_hash A peek h s = (Inr (Some peeked), s1)"
    using assms by (auto simp: load_by_hash_def split: prod.splits sum.splits option.splits)
  have s1: "s1 = serve_all A (rt_others peek) s" by (rule peek_Inr(1) [OF p])
  have exp: "is_none_or (\<lambda>u. u = sd_user_id peeked) expected"
    using assms p by (auto simp: load_by_hash_def is_none_or_def split: option.splits if_splits)
  then have "\<not> (case expected of None \<Rightarrow> False | Some e \<Rightarrow> e \<noteq> sd_user_id peeked)"
    by (auto simp: is_none_or_def split: option.splits)
  with assms p obtain policy encoded where
    "effective_session_expiry peeked (at_absolute_ttl_ms A) = Inr policy"
    and asked: "ask A refresh (load_and_refresh_script A h (sd_user_id peeked) (unat now) (unat (at_idle_ttl_ms A)) (unat policy)) s1 =
      (Some (Loaded encoded), t)" and "decode_session (at_codec A) encoded = Inr z"
    by (auto simp: load_by_hash_def decode_optional_def split: sum.splits prod.splits option.splits load_reply.splits)
  with p s1 exp that ask_served [OF asked] show ?thesis by simp
qed

lemma load_by_hash_alive:
  assumes laws: "auth_server_laws (at_server A)" and codec: "auth_codec_laws (at_codec A)"
    and stored: "stored A (\<lambda>_. True) h x s" and quiet: "quiet_for h peek" "quiet_for h refresh"
    and loaded: "load_by_hash A (Some now) h expected peek refresh s = (Inr (Some z), t)" and now: "unat now < 10 ^ 14"
  shows "renewal x z \<and> sd_last_seen_at_ms z = now \<and> sd_created_at_ms x \<le> now \<and> now < sd_expires_at_ms z \<and>
    unat (sd_expires_at_ms z) \<le> unat (sd_created_at_ms x) + unat (at_absolute_ttl_ms A)"
proof -
  let ?s1 = "serve_all A (rt_others peek) s" and ?s2 = "serve_all A (rt_others refresh) (serve_all A (rt_others peek) s)"
  obtain peeked policy encoded where p: "peek_by_hash A peek h s = (Inr (Some peeked), ?s1)"
    and policy: "effective_session_expiry peeked (at_absolute_ttl_ms A) = Inr policy"
    and script: "load_and_refresh_script A h (sd_user_id peeked) (unat now) (unat (at_idle_ttl_ms A)) (unat policy) ?s2 = (Loaded encoded, t)"
    and decoded: "decode_session (at_codec A) encoded = Inr z"
    by (rule load_by_hash_Some [OF loaded])
  have st1: "stored A (\<lambda>_. True) h x ?s1" by (rule quiet_stored [OF laws codec quiet(1) stored])
  have st2: "stored A (\<lambda>_. True) h x ?s2" by (rule quiet_stored [OF laws codec quiet(2) st1])
  have peeked: "renewal x peeked" "exact_times peeked"
    using peek_Inr(3) [OF p refl] stored_decode [OF codec st1] by blast+
  have "unat policy \<le> unat (sd_expires_at_ms peeked)"
    using effective_expiry_bound(2) [OF policy] by (simp add: word_le_nat_alt)
  with peeked(2) have small: "unat policy < 10 ^ 14" by (simp add: exact_times_def)
  obtain old expires where old: "as_get (at_server A) ?s2 (session_key A h) = Some old"
    and lua: "au_lua_session (at_codec A) old = Some (Some 1, Some expires)"
    and alive: "unat now < min expires (unat policy)"
    and enc: "encoded = au_lua_update (at_codec A) old (min expires (unat policy)) (unat now)"
    by (rule refresh_loaded [OF script])
  from st2 old obtain r y where y: "session_blob (at_codec A) r y old" "renewal x y" "exact_times y"
    unfolding stored_def by blast
  let ?e = "min expires (unat policy)"
  let ?z = "y\<lparr>sd_expires_at_ms := of_nat ?e, sd_last_seen_at_ms := of_nat (unat now)\<rparr>"
  have e: "?e < 10 ^ 14" using small by simp
  have blob: "session_blob (at_codec A) True ?z encoded" unfolding enc by (rule refreshed [OF y(1) e now])
  have "exact_times ?z" by (rule exact_times_update [OF y(3) e now])
  from codec_simps(1) [OF codec blob this] decoded have z: "z = ?z" by (auto simp: decode_Inr split: if_splits)
  have valid: "is_valid_shape z" using decoded by (simp add: decode_Inr)
  have ue: "unat (sd_expires_at_ms z) = ?e" using e by (simp add: z exact_small del: of_nat_min)
  have "?e \<le> unat (sd_created_at_ms x) + unat (at_absolute_ttl_ms A)"
    using effective_expiry_bound(1) [OF policy] renewal_same(3) [OF peeked(1)] by simp
  moreover have "renewal x z" unfolding z by (rule renewal_update [OF y(2)])
  moreover have "sd_last_seen_at_ms z = now" by (simp add: z)
  moreover have "sd_created_at_ms z = sd_created_at_ms x" by (rule renewal_same(3) [OF \<open>renewal x z\<close>])
  ultimately show ?thesis using ue valid alive by (auto simp: is_valid_shape_iff)
qed

section \<open>What stays readable\<close>

text \<open>The times of a refreshed session are in order when the clock that refreshes it is not behind the
  clock that opened it.\<close>

definition timely :: "session_data \<Rightarrow> session_data \<Rightarrow> bool" where
  "timely x y \<longleftrightarrow> is_valid_shape y \<and> sd_created_at_ms y = sd_created_at_ms x"

fun refreshes_early :: "rstring \<Rightarrow> session_data \<Rightarrow> auth_request \<Rightarrow> bool" where
  "refreshes_early h x (RefreshSession h' u now idle policy) \<longleftrightarrow> h' = h \<and> now < unat (sd_created_at_ms x)"
| "refreshes_early h x _ \<longleftrightarrow> False"

lemma timely_refresh:
  assumes "timely x y" and "unat (sd_created_at_ms x) \<le> now" and "now < e" and "e < 10 ^ 14"
  shows "timely x (y\<lparr>sd_expires_at_ms := of_nat e, sd_last_seen_at_ms := of_nat now\<rparr>)"
proof -
  have "unat (of_nat e :: u64) = e" "unat (of_nat now :: u64) = now" using assms(3,4) by (simp_all add: exact_small)
  with assms show ?thesis by (auto simp: timely_def is_valid_shape_def word_le_nat_alt word_less_nat_alt)
qed

lemma not_refreshes_badly:
  assumes "\<not> refreshes_early h x r"
  shows "\<not> refreshes_badly (timely x) h r"
proof (cases r)
  case (RefreshSession h' u now idle policy)
  show ?thesis
  proof
    assume "refreshes_badly (timely x) h r"
    then obtain y e where y: "h' = h" "timely x y" "now < e" "e < 10 ^ 14"
        "\<not> timely x (y\<lparr>sd_expires_at_ms := of_nat e, sd_last_seen_at_ms := of_nat now\<rparr>)"
      unfolding RefreshSession refreshes_badly.simps by blast
    have "unat (sd_created_at_ms x) \<le> now" using assms y(1) RefreshSession by simp
    from timely_refresh [OF y(2) this y(3,4)] y(5) show False by blast
  qed
qed simp_all

lemma timely_decodes:
  assumes "auth_codec_laws (at_codec A)" and "stored A (timely x) h x s" and "sd_guilds x \<noteq> []"
    and "as_get (at_server A) s (session_key A h) = Some t"
  shows "\<exists>y. decode_session (at_codec A) t = Inr y \<and> is_valid_shape y \<and> renewal x y"
proof -
  obtain r y where y: "session_blob (at_codec A) r y t" "renewal x y" "exact_times y" "timely x y"
    using assms(2,4) unfolding stored_def by blast
  have "is_valid_shape y" using y(4) by (simp add: timely_def)
  moreover have "body_valid y" using \<open>is_valid_shape y\<close> by (simp add: is_valid_shape_iff)
  ultimately have "decode_session (at_codec A) t = Inr y"
    using codec_simps(1,3) [OF assms(1) y(1,3)] assms(3) renewal_same(2) [OF y(2)] by (simp add: decode_Inr)
  with y(2) \<open>is_valid_shape y\<close> show ?thesis by blast
qed

text \<open>A call on a server that serves nothing else and loses nothing.\<close>

definition alone :: store_turn where "alone = \<lparr>rt_others = [], rt_fault = NoFault\<rparr>"

lemma ask_alone: "ask A alone script s = (case script s of (a, t) \<Rightarrow> (Some a, t))"
  by (simp add: ask_def alone_def)

lemma peek_alone: "peek_by_hash A alone h s = (decode_optional (at_codec A) (as_get (at_server A) s (session_key A h)), s)"
  by (simp add: peek_by_hash_def ask_alone get_request_def)

text \<open>The first refresh of a session without guilds, or by a clock that is behind its creation, leaves what
  no call can read any more.\<close>

lemma refresh_breaks:
  assumes laws: "auth_server_laws (at_server A)" and codec: "auth_codec_laws (at_codec A)" and wf: "store_wf A"
    and x: "is_valid_shape x" "exact_times x" and now: "unat now < 10 ^ 14"
    and get: "as_get (at_server A) s (session_key A h) = Some (au_session (at_codec A) x)"
    and pointer: "as_get (at_server A) s (current_user_key A (sd_user_id x)) = Some h"
    and policy: "effective_session_expiry x (at_absolute_ttl_ms A) = Inr policy" and alive: "now < policy"
    and bad: "sd_guilds x = [] \<or> now < sd_created_at_ms x"
  shows "\<exists>t. load_by_hash A (Some now) h None alone alone s = (Inl RepositoryCorrupt, t) \<and>
    (\<forall>clock. fst (load_by_hash A clock h None alone alone t) = Inl RepositoryCorrupt)"
proof -
  let ?t = "au_session (at_codec A) x"
  have w: "session_blob (at_codec A) False x ?t" by (rule written)
  have body: "body_valid x" using x(1) by (simp add: is_valid_shape_iff)
  have decode: "decode_session (at_codec A) ?t = Inr x"
    using codec_simps [OF codec w x(2)] body x(1) by (simp add: decode_Inr)
  let ?e = "min (unat (sd_expires_at_ms x)) (unat policy)"
  have pe: "unat policy \<le> unat (sd_expires_at_ms x)" using effective_expiry_bound(2) [OF policy] by (simp add: word_le_nat_alt)
  then have e: "?e = unat policy" by simp
  have small: "unat policy < 10 ^ 14" using pe x(2) by (simp add: exact_times_def)
  have alive': "\<not> unat policy \<le> unat now" using alive by (simp add: word_less_nat_alt)
  let ?z = "x\<lparr>sd_expires_at_ms := of_nat (unat policy), sd_last_seen_at_ms := of_nat (unat now)\<rparr>"
  let ?u = "au_lua_update (at_codec A) ?t (unat policy) (unat now)"
  have blob: "session_blob (at_codec A) True ?z ?u" by (rule refreshed [OF w small now])
  have zx: "exact_times ?z" by (rule exact_times_update [OF x(2) small now])
  have broken: "decode_session (at_codec A) ?u = Inl RepositoryCorrupt"
    using bad codec_simps(1) [OF codec blob zx]
    by (auto simp: decode_session_def validate_session_def is_valid_shape_def)
  have lua: "au_lua_session (at_codec A) ?t = Some (Some 1, Some (unat (sd_expires_at_ms x)))"
    using codec_simps(2) [OF codec w x(2)] x(1) by (simp add: is_valid_shape_def SCHEMA_VERSION_def)
  obtain s' where run: "load_and_refresh_script A h (sd_user_id x) (unat now) (unat (at_idle_ttl_ms A)) (unat policy) s = (Loaded ?u, s')"
    by (simp add: load_and_refresh_script_def Let_def get pointer lua e alive')
  have idle: "0 < unat (at_idle_ttl_ms A)" using wf by (simp add: store_wf_def unat_gt_0)
  have "as_get (at_server A) (snd (load_and_refresh_script A h (sd_user_id x) (unat now) (unat (at_idle_ttl_ms A)) (unat policy) s))
      (session_key A h) = Some ?u"
    unfolding get_refresh_script [OF laws idle] by (simp add: get pointer lua e alive')
  then have after: "as_get (at_server A) s' (session_key A h) = Some ?u" by (simp add: run)
  have "load_by_hash A (Some now) h None alone alone s = (Inl RepositoryCorrupt, s')"
    by (simp add: load_by_hash_def peek_alone get decode_optional_def decode policy ask_alone run broken)
  moreover have "fst (load_by_hash A clock h None alone alone s') = Inl RepositoryCorrupt" for clock
    by (simp add: load_by_hash_def peek_alone after decode_optional_def broken)
  ultimately show ?thesis by blast
qed

end
