(* ===== verification/Auth_Service.thy ===== *)
theory Auth_Service
  imports Api_Auth Auth_Discord Auth_History
begin

text \<open>
  The login, the logout and the views of a session (\<open>crates/pepeaudio-auth/src/service.rs\<close>), the routes
  that serve them (\<open>handlers.rs\<close>), the guild authorizer of the API (\<open>authorizer.rs\<close>) and the session
  store it authenticates with (\<open>valkey/session.rs\<close>). The provider, the random source and the clocks are
  parameters; what other clients do to the server stands in the turns of the requests.
\<close>

section \<open>The service\<close>

definition MATERIAL_ATTEMPTS :: nat where "MATERIAL_ATTEMPTS = 3"

datatype auth_service_error = ServiceUnauthenticated | ServiceInvalidCallback | ServiceUnavailable | ServiceFull

fun service_from_repository :: "repository_error \<Rightarrow> auth_service_error" where
  "service_from_repository InvalidToken = ServiceUnauthenticated"
| "service_from_repository RepositoryCollision = ServiceUnavailable"
| "service_from_repository RepositoryUnavailable = ServiceUnavailable"
| "service_from_repository RepositoryCorrupt = ServiceUnavailable"
| "service_from_repository RepositoryFull = ServiceFull"

fun service_from_provider :: "oauth_provider_error \<Rightarrow> auth_service_error" where
  "service_from_provider ProviderRejected = ServiceInvalidCallback"
| "service_from_provider ProviderInvalidResponse = ServiceInvalidCallback"
| "service_from_provider ProviderUnavailable = ServiceUnavailable"

record 's auth_service =
  ax_config :: auth_config
  ax_store :: "'s auth_store"
  ax_provider :: "rstring \<Rightarrow> rstring \<Rightarrow> oauth_provider_error + oauth_projection"
  ax_discord_urls :: "discord_oauth_config option"

definition validate_code :: "rstring \<Rightarrow> auth_service_error + unit" where
  "validate_code code =
     (if code = [] \<or> str_len code > 1024 \<or> has_control code then Inl ServiceInvalidCallback else Inr ())"

definition service_duration_ms :: "nat \<Rightarrow> auth_service_error + u64" where
  "service_duration_ms d = (let ms = d div 10 ^ 6
     in if ms < 2 ^ 64 \<and> ms \<noteq> 0 then Inr (of_nat ms) else Inl ServiceUnavailable)"

type_synonym login_start = "(rstring \<times> (rstring \<times> rstring) list) \<times> rstring"

text \<open>One attempt per entry: the two draws of the random source and the turn of the reservation.\<close>

fun login_attempts ::
  "'s auth_service \<Rightarrow> u64 \<Rightarrow> nat \<Rightarrow> (rstring option \<times> rstring option \<times> store_turn) list \<Rightarrow> 's \<Rightarrow>
     (auth_service_error + login_start) \<times> 's" where
  "login_attempts S now_ms 0 draws s = (Inl ServiceUnavailable, s)"
| "login_attempts S now_ms (Suc n) [] s = (Inl ServiceUnavailable, s)"
| "login_attempts S now_ms (Suc n) ((first, second, turn) # draws) s =
     (case oauth_material_of (au_hash (at_codec (ax_store S))) first second of
        None \<Rightarrow> (Inl ServiceUnavailable, s)
      | Some material \<Rightarrow>
          (case ax_discord_urls S of
             None \<Rightarrow> (Inl ServiceUnavailable, s)
           | Some urls \<Rightarrow>
               (case reserve_state (ax_store S) (om_state material)
                       \<lparr>po_verifier = om_verifier material, po_created_at_ms = now_ms\<rparr> turn s of
                  (Inr _, t) \<Rightarrow> (Inr (authorization_url urls material, om_state material), t)
                | (Inl RepositoryCollision, t) \<Rightarrow> login_attempts S now_ms n draws t
                | (Inl RepositoryFull, t) \<Rightarrow> (Inl ServiceFull, t)
                | (Inl e, t) \<Rightarrow> (Inl (service_from_repository e), t))))"

definition begin_login ::
  "'s auth_service \<Rightarrow> u64 option \<Rightarrow> (rstring option \<times> rstring option \<times> store_turn) list \<Rightarrow> 's \<Rightarrow>
     (auth_service_error + login_start) \<times> 's" where
  "begin_login S clock draws s =
     (case clock of
        None \<Rightarrow> (Inl ServiceUnavailable, s)
      | Some now_ms \<Rightarrow> login_attempts S now_ms MATERIAL_ATTEMPTS draws s)"

text \<open>The circumstances of a callback: the turn of the consumption, the clock of the service, the draw of the
  CSRF token, the clock of the store and the attempts of its session.\<close>

record callback_run =
  cb_consume :: store_turn
  cb_clock :: "u64 option"
  cb_csrf :: "rstring option"
  cb_store_clock :: "u64 option"
  cb_draws :: "(rstring option \<times> store_turn) list"

definition open_session ::
  "'s auth_service \<Rightarrow> callback_run \<Rightarrow> u64 \<Rightarrow> oauth_projection \<Rightarrow> 's \<Rightarrow> (auth_service_error + rstring) \<times> 's" where
  "open_session S run now_ms projection s =
     (if length (op_guilds projection) > 200 then (Inl ServiceInvalidCallback, s)
      else case cb_csrf run of
        None \<Rightarrow> (Inl ServiceUnavailable, s)
      | Some csrf_token \<Rightarrow>
      (case service_duration_ms (sp_absolute_ttl (ac_session (ax_config S))) of
        Inl e \<Rightarrow> (Inl e, s)
      | Inr absolute_ttl_ms \<Rightarrow>
      (case session_new projection csrf_token now_ms absolute_ttl_ms of
        None \<Rightarrow> (Inl ServiceUnavailable, s)
      | Some session \<Rightarrow>
          (case create (ax_store S) (cb_store_clock run) session (cb_draws run) s of
             (Inl e, t) \<Rightarrow> (Inl (service_from_repository e), t)
           | (Inr token, t) \<Rightarrow> (Inr token, t)))))"

definition complete_callback ::
  "'s auth_service \<Rightarrow> callback_run \<Rightarrow> rstring \<Rightarrow> rstring \<Rightarrow> rstring \<Rightarrow> 's \<Rightarrow> (auth_service_error + rstring) \<times> 's" where
  "complete_callback S run code returned_state cookie_state s =
     (case validate_code code of
        Inl e \<Rightarrow> (Inl e, s)
      | Inr _ \<Rightarrow>
      if str_len returned_state \<noteq> str_len cookie_state \<or> \<not> constant_time_eq returned_state cookie_state
      then (Inl ServiceInvalidCallback, s)
      else case consume (ax_store S) returned_state (cb_consume run) s of
        (Inl e, t) \<Rightarrow> (Inl (service_from_repository e), t)
      | (Inr None, t) \<Rightarrow> (Inl ServiceInvalidCallback, t)
      | (Inr (Some pending), t) \<Rightarrow>
      (case cb_clock run of
        None \<Rightarrow> (Inl ServiceUnavailable, t)
      | Some now_ms \<Rightarrow>
      (case service_duration_ms (sp_oauth_state_ttl (ac_session (ax_config S))) of
        Inl e \<Rightarrow> (Inl e, t)
      | Inr state_ttl_ms \<Rightarrow>
      if po_created_at_ms pending > now_ms \<or> saturating_sub_u64 now_ms (po_created_at_ms pending) > state_ttl_ms
      then (Inl ServiceInvalidCallback, t)
      else case ax_provider S code (po_verifier pending) of
        Inl e \<Rightarrow> (Inl (service_from_provider e), t)
      | Inr projection \<Rightarrow> open_session S run now_ms projection t)))"

definition consume_denied_callback :: "'s auth_service \<Rightarrow> store_turn \<Rightarrow> rstring \<Rightarrow> rstring \<Rightarrow> 's \<Rightarrow> 's" where
  "consume_denied_callback S turn returned_state cookie_state s =
     (if str_len returned_state = str_len cookie_state \<and> constant_time_eq returned_state cookie_state
      then snd (consume (ax_store S) returned_state turn s) else s)"

text \<open>The circumstances of the load of a session.\<close>

record load_run =
  lr_clock :: "u64 option"
  lr_peek :: store_turn
  lr_refresh :: store_turn
  lr_pointer :: store_turn

definition service_load_session ::
  "'s auth_service \<Rightarrow> load_run \<Rightarrow> rstring \<Rightarrow> 's \<Rightarrow> (auth_service_error + session_data) \<times> 's" where
  "service_load_session S run token s =
     (case load (ax_store S) (lr_clock run) token (lr_peek run) (lr_refresh run) (lr_pointer run) s of
        (Inl e, t) \<Rightarrow> (Inl (service_from_repository e), t)
      | (Inr None, t) \<Rightarrow> (Inl ServiceUnauthenticated, t)
      | (Inr (Some session), t) \<Rightarrow> (Inr session, t))"

definition service_logout ::
  "'s auth_service \<Rightarrow> rstring \<Rightarrow> store_turn \<Rightarrow> store_turn \<Rightarrow> store_turn \<Rightarrow> 's \<Rightarrow> (auth_service_error + unit) \<times> 's" where
  "service_logout S token peek pointer removal s =
     (case destroy (ax_store S) token peek pointer removal s of
        (Inl e, t) \<Rightarrow> (Inl (service_from_repository e), t)
      | (Inr _, t) \<Rightarrow> (Inr (), t))"

definition service_session_view ::
  "'s auth_service \<Rightarrow> load_run \<Rightarrow> rstring \<Rightarrow> 's \<Rightarrow> (auth_service_error + session_view) \<times> 's" where
  "service_session_view S run token s =
     (case service_load_session S run token s of
        (Inl e, t) \<Rightarrow> (Inl e, t)
      | (Inr session, t) \<Rightarrow> (Inr (session_view_from session), t))"

fun collect_views :: "(guild_id \<Rightarrow> unit + bool) \<Rightarrow> guild_summary list \<Rightarrow> auth_service_error + guild_view list" where
  "collect_views is_present [] = Inr []"
| "collect_views is_present (g # gs) =
     (case is_present (gs_id g) of
        Inl _ \<Rightarrow> Inl ServiceUnavailable
      | Inr bot_present \<Rightarrow>
          (case collect_views is_present gs of
             Inl e \<Rightarrow> Inl e
           | Inr views \<Rightarrow> Inr (\<lparr>gv_guild = g, gv_bot_present = bot_present\<rparr> # views)))"

definition service_guild_views ::
  "'s auth_service \<Rightarrow> (guild_id \<Rightarrow> unit + bool) \<Rightarrow> load_run \<Rightarrow> rstring \<Rightarrow> 's \<Rightarrow>
     (auth_service_error + guild_view list) \<times> 's" where
  "service_guild_views S is_present run token s =
     (case service_load_session S run token s of
        (Inl e, t) \<Rightarrow> (Inl e, t)
      | (Inr session, t) \<Rightarrow> (collect_views is_present (sd_guilds session), t))"

section \<open>The routes\<close>

datatype auth_http_error = HttpUnauthenticated | HttpForbidden | HttpInvalidCallback | HttpUnavailable | HttpFull

fun http_from_service :: "auth_service_error \<Rightarrow> auth_http_error" where
  "http_from_service ServiceUnauthenticated = HttpUnauthenticated"
| "http_from_service ServiceInvalidCallback = HttpInvalidCallback"
| "http_from_service ServiceUnavailable = HttpUnavailable"
| "http_from_service ServiceFull = HttpFull"

datatype auth_body = NoBody | ErrorBody rstring | SessionBody session_view | GuildsBody "guild_view list"

record auth_response =
  ar_status :: nat
  ar_headers :: header_map
  ar_body :: auth_body

definition error_response :: "auth_http_error \<Rightarrow> auth_response" where
  "error_response e =
     (let parts = (case e of
            HttpUnauthenticated \<Rightarrow> (401, str ''authentication_required'')
          | HttpForbidden \<Rightarrow> (403, str ''csrf_rejected'')
          | HttpInvalidCallback \<Rightarrow> (400, str ''invalid_oauth_callback'')
          | HttpUnavailable \<Rightarrow> (503, str ''authentication_unavailable'')
          | HttpFull \<Rightarrow> (429, str ''authentication_capacity_exhausted''))
      in \<lparr>ar_status = fst parts, ar_headers = (if e = HttpFull then [(str ''retry-after'', str ''60'')] else []),
          ar_body = ErrorBody (snd parts)\<rparr>)"

definition SET_COOKIE :: rstring where "SET_COOKIE = str ''set-cookie''"

definition callback_error :: "auth_http_error \<Rightarrow> auth_response" where
  "callback_error e =
     (let response = error_response e in response\<lparr>ar_headers := ar_headers response @ [(SET_COOKIE, clear_state_cookie)]\<rparr>)"

definition required_session_cookie :: "header_map \<Rightarrow> auth_http_error + rstring" where
  "required_session_cookie headers =
     (case session_cookie headers of
        Inl _ \<Rightarrow> Inl HttpUnauthenticated
      | Inr None \<Rightarrow> Inl HttpUnauthenticated
      | Inr (Some token) \<Rightarrow> Inr token)"

text \<open>\<open>url_text\<close> is the text of a URL with a query.\<close>

definition login_route ::
  "'s auth_service \<Rightarrow> (rstring \<times> (rstring \<times> rstring) list \<Rightarrow> rstring) \<Rightarrow> u64 option \<Rightarrow>
   (rstring option \<times> rstring option \<times> store_turn) list \<Rightarrow> 's \<Rightarrow> auth_response \<times> 's" where
  "login_route S url_text clock draws s =
     (case begin_login S clock draws s of
        (Inl e, t) \<Rightarrow> (error_response (http_from_service e), t)
      | (Inr (url, state), t) \<Rightarrow>
          (case header_from_str (url_text url) of
             None \<Rightarrow> (error_response HttpUnavailable, t)
           | Some location \<Rightarrow>
               (\<lparr>ar_status = 303,
                 ar_headers = [(str ''location'', location),
                   (SET_COOKIE, state_set_cookie state (sp_oauth_state_ttl (ac_session (ax_config S))))],
                 ar_body = NoBody\<rparr>, t)))"

record callback_query =
  cq_code :: "rstring option"
  cq_state :: "rstring option"
  cq_error :: "rstring option"

definition callback_route ::
  "'s auth_service \<Rightarrow> callback_run \<Rightarrow> header_map \<Rightarrow> callback_query \<Rightarrow> 's \<Rightarrow> auth_response \<times> 's" where
  "callback_route S run headers query s =
     (let cookie_state = (case oauth_state_cookie headers of Inl _ \<Rightarrow> None | Inr c \<Rightarrow> c)
      in if cq_error query \<noteq> None
         then (callback_error HttpInvalidCallback,
               case (cq_state query, cookie_state) of
                 (Some state, Some cookie) \<Rightarrow> consume_denied_callback S (cb_consume run) state cookie s
               | _ \<Rightarrow> s)
         else case (cq_code query, cq_state query, cookie_state) of
                (Some code, Some returned_state, Some cookie) \<Rightarrow>
                  (case complete_callback S run code returned_state cookie s of
                     (Inl e, t) \<Rightarrow> (callback_error (http_from_service e), t)
                   | (Inr session_token, t) \<Rightarrow>
                       (case header_from_str (ac_success_redirect (ax_config S)) of
                          None \<Rightarrow> (callback_error HttpUnavailable, t)
                        | Some location \<Rightarrow>
                            (\<lparr>ar_status = 303,
                              ar_headers = [(str ''location'', location),
                                (SET_COOKIE, session_set_cookie session_token (sp_absolute_ttl (ac_session (ax_config S)))),
                                (SET_COOKIE, clear_state_cookie)],
                              ar_body = NoBody\<rparr>, t)))
              | _ \<Rightarrow> (callback_error HttpInvalidCallback, s))"

definition logout_route ::
  "'s auth_service \<Rightarrow> load_run \<Rightarrow> store_turn \<Rightarrow> store_turn \<Rightarrow> store_turn \<Rightarrow> header_map \<Rightarrow> 's \<Rightarrow>
     auth_response \<times> 's" where
  "logout_route S run peek pointer removal headers s =
     (case required_session_cookie headers of
        Inl e \<Rightarrow> (error_response e, s)
      | Inr token \<Rightarrow>
          (case service_load_session S run token s of
             (Inl e, t) \<Rightarrow> (error_response (http_from_service e), t)
           | (Inr session, t) \<Rightarrow>
               if \<not> validate_csrf headers (sd_csrf_token session) then (error_response HttpForbidden, t)
               else case service_logout S token peek pointer removal t of
                      (Inl e, t2) \<Rightarrow> (error_response (http_from_service e), t2)
                    | (Inr _, t2) \<Rightarrow>
                        (\<lparr>ar_status = 204, ar_headers = [(SET_COOKIE, clear_session_cookie)], ar_body = NoBody\<rparr>, t2)))"

definition session_route :: "'s auth_service \<Rightarrow> load_run \<Rightarrow> header_map \<Rightarrow> 's \<Rightarrow> auth_response \<times> 's" where
  "session_route S run headers s =
     (case required_session_cookie headers of
        Inl e \<Rightarrow> (error_response e, s)
      | Inr token \<Rightarrow>
          (case service_session_view S run token s of
             (Inl e, t) \<Rightarrow> (error_response (http_from_service e), t)
           | (Inr view, t) \<Rightarrow> (\<lparr>ar_status = 200, ar_headers = [], ar_body = SessionBody view\<rparr>, t)))"

definition guilds_route ::
  "'s auth_service \<Rightarrow> (guild_id \<Rightarrow> unit + bool) \<Rightarrow> load_run \<Rightarrow> header_map \<Rightarrow> 's \<Rightarrow> auth_response \<times> 's" where
  "guilds_route S is_present run headers s =
     (case required_session_cookie headers of
        Inl e \<Rightarrow> (error_response e, s)
      | Inr token \<Rightarrow>
          (case service_guild_views S is_present run token s of
             (Inl e, t) \<Rightarrow> (error_response (http_from_service e), t)
           | (Inr views, t) \<Rightarrow> (\<lparr>ar_status = 200, ar_headers = [], ar_body = GuildsBody views\<rparr>, t)))"

text \<open>\<open>insert\<close> replaces what a response has under the name.\<close>

definition security_headers :: "auth_response \<Rightarrow> auth_response" where
  "security_headers response =
     response\<lparr>ar_headers := filter (\<lambda>h. fst h \<noteq> str ''cache-control'' \<and> fst h \<noteq> str ''referrer-policy'') (ar_headers response) @
       [(str ''cache-control'', str ''private, no-store''), (str ''referrer-policy'', str ''no-referrer'')]\<rparr>"

section \<open>What the API asks of the sessions\<close>

text \<open>\<open>SessionStore::load_session\<close> of the store.\<close>

definition store_load_session ::
  "'s auth_store \<Rightarrow> load_run \<Rightarrow> rstring \<Rightarrow> 's \<Rightarrow> (authentication_error + session_record) \<times> 's" where
  "store_load_session A run token s =
     (case load A (lr_clock run) token (lr_peek run) (lr_refresh run) (lr_pointer run) s of
        (Inl e, t) \<Rightarrow> (Inl (if e = InvalidToken then AuthnUnauthenticated else AuthnUnavailable), t)
      | (Inr None, t) \<Rightarrow> (Inl AuthnUnauthenticated, t)
      | (Inr (Some session), t) \<Rightarrow>
          (case session_fingerprint_new (au_hash (at_codec A) token) of
             Inl _ \<Rightarrow> (Inl AuthnUnavailable, t)
           | Inr fingerprint \<Rightarrow>
               (Inr \<lparr>sr_user_id = sd_user_id session, sr_csrf_token = sd_csrf_token session,
                     sr_session_fingerprint = fingerprint\<rparr>, t)))"

text \<open>\<open>SessionGuildAuthorizer::authorize\<close>; the access asked for plays no part.\<close>

definition session_authorize ::
  "'s auth_store \<Rightarrow> (guild_id \<Rightarrow> unit + bool) \<Rightarrow> load_run \<Rightarrow> principal \<Rightarrow> guild_id \<Rightarrow> 's \<Rightarrow>
     (authorization_error + unit) \<times> 's" where
  "session_authorize A is_present run who guild s =
     (case pl_session_fingerprint who of
        None \<Rightarrow> (Inl AuthzForbidden, s)
      | Some fingerprint \<Rightarrow>
          (case load_bound A (lr_clock run) (pl_user_id who) (fingerprint_str fingerprint) (lr_peek run) (lr_refresh run) s of
             (Inl _, t) \<Rightarrow> (Inl AuthzUnavailable, t)
           | (Inr None, t) \<Rightarrow> (Inl AuthzForbidden, t)
           | (Inr (Some session), t) \<Rightarrow>
               if \<not> has_guild session guild then (Inl AuthzForbidden, t)
               else case is_present guild of
                      Inl _ \<Rightarrow> (Inl AuthzUnavailable, t)
                    | Inr bot_present \<Rightarrow> (if bot_present then Inr () else Inl AuthzForbidden, t)))"

end
