(* ===== verification/Api_Handlers.thy ===== *)
theory Api_Handlers
  imports Api_Backend Auth_Service
begin

text \<open>
  The handlers of the HTTP API, \<open>crates/pepeaudio-api/src/handlers\<close>, over the ports of
  \<open>ports.rs\<close>, with the snapshot of a guild without a player (\<open>initial_snapshot.rs\<close>) and the composite
  readiness probe (\<open>composite_readiness.rs\<close>); and the ports of the production server
  (\<open>crates/pepeaudio-server\<close>): the session authenticator and authorizer over the authentication store,
  the bot's presence and the Valkey backend.
\<close>

section \<open>Ports\<close>

datatype access = ReadPlayer | ControlPlayer | SubscribeEvents

text \<open>A request's extractors run before its handler, so the identity comes first; all ports run on the state
  of the services.\<close>

record 's api_ports =
  po_authenticate :: "header_map \<Rightarrow> 's \<Rightarrow> (authentication_error + principal) \<times> 's"
  po_authorize :: "principal \<Rightarrow> guild_id \<Rightarrow> access \<Rightarrow> 's \<Rightarrow> (authorization_error + unit) \<times> 's"
  po_snapshot :: "guild_id \<Rightarrow> 's \<Rightarrow> port_error + player_snapshot option"
  po_route :: "command_envelope \<Rightarrow> unix_time_millis \<Rightarrow> 's \<Rightarrow> (route_error + command_receipt) \<times> 's"
  po_command_result :: "guild_id \<Rightarrow> uuid \<Rightarrow> 's \<Rightarrow> port_error + command_result option"

definition initial_snapshot :: "guild_id \<Rightarrow> unix_time_millis \<Rightarrow> player_snapshot" where
  "initial_snapshot guild observed_at =
     \<lparr>ps_guild_id = guild, ps_voice_channel_id = None, ps_revision = initial_revision, ps_state = Disconnected,
      ps_current_track = None, ps_queued_tracks = 0, ps_upcoming_tracks = [], ps_has_previous_track = False,
      ps_volume = volume_default, ps_repeat_mode = RepeatOff, ps_shuffle_enabled = False, ps_hrir_preset = None,
      ps_spatial_audio_enabled = False, ps_observed_at = observed_at\<rparr>"

definition composite_ready :: "(port_error + unit) list \<Rightarrow> port_error + unit" where
  "composite_ready probes = fold (\<lambda>probe r. case r of Inl e \<Rightarrow> Inl e | Inr _ \<Rightarrow> probe) probes (Inr ())"

text \<open>The identity and the guild of a request, and the guild's authorization.\<close>

definition authenticated ::
  "'s api_ports \<Rightarrow> header_map \<Rightarrow> 's \<Rightarrow> (principal \<Rightarrow> 's \<Rightarrow> (api_error + 'a) \<times> 's) \<Rightarrow> (api_error + 'a) \<times> 's" where
  "authenticated ports headers s handler =
     (case po_authenticate ports headers s of
        (Inl e, t) \<Rightarrow> (Inl (api_from_authentication e), t)
      | (Inr who, t) \<Rightarrow> handler who t)"

definition authorized ::
  "'s api_ports \<Rightarrow> principal \<Rightarrow> guild_id \<Rightarrow> access \<Rightarrow> 's \<Rightarrow> ('s \<Rightarrow> (api_error + 'a) \<times> 's) \<Rightarrow> (api_error + 'a) \<times> 's" where
  "authorized ports who guild acc s handler =
     (case po_authorize ports who guild acc s of
        (Inl e, t) \<Rightarrow> (Inl (api_from_authorization e), t)
      | (Inr _, t) \<Rightarrow> handler t)"

section \<open>The handlers\<close>

text \<open>\<open>encode\<close> is the JSON text of a snapshot.\<close>

definition snapshot_handler ::
  "'s api_ports \<Rightarrow> (player_snapshot \<Rightarrow> rstring option) \<Rightarrow> unix_time_millis \<Rightarrow> header_map \<Rightarrow> rstring \<Rightarrow> 's \<Rightarrow>
     (api_error + player_snapshot) \<times> 's" where
  "snapshot_handler ports encode now headers guild_path s =
     authenticated ports headers s (\<lambda>who s1.
       case path_guild_id guild_path of
         Inl e \<Rightarrow> (Inl e, s1)
       | Inr guild \<Rightarrow>
           authorized ports who guild ReadPlayer s1 (\<lambda>s2.
             case po_snapshot ports guild s2 of
               Inl e \<Rightarrow> (Inl (api_from_port e), s2)
             | Inr found \<Rightarrow>
                 let snapshot = (case found of None \<Rightarrow> initial_snapshot guild now | Some p \<Rightarrow> p);
                     within_limit = (case encode snapshot of
                         None \<Rightarrow> False | Some encoded \<Rightarrow> str_len encoded \<le> MAX_PLAYER_SNAPSHOT_JSON_BYTES)
                 in if ps_guild_id snapshot \<noteq> guild \<or> isl (validate_public_shape snapshot) \<or> \<not> within_limit
                    then (Inl ApiInternal, s2) else (Inr snapshot, s2)))"

text \<open>\<open>payload\<close> is the parsed body: the expected revision and the command, \<open>None\<close> when it was refused; \<open>fresh\<close>
  are the random identities of the envelope.\<close>

definition mutate_handler ::
  "'s api_ports \<Rightarrow> (rstring \<Rightarrow> uuid option) \<Rightarrow> api_config \<Rightarrow> uuid \<times> uuid \<Rightarrow> unix_time_millis \<Rightarrow> header_map \<Rightarrow> rstring \<Rightarrow>
   (state_revision \<times> player_command) option \<Rightarrow> 's \<Rightarrow> (api_error + command_receipt) \<times> 's" where
  "mutate_handler ports parse_uuid config fresh now headers guild_path payload s =
     authenticated ports headers s (\<lambda>who s1.
       case path_guild_id guild_path of
         Inl e \<Rightarrow> (Inl e, s1)
       | Inr guild \<Rightarrow>
           (case validate_mutation_headers parse_uuid headers config who of
              Inl e \<Rightarrow> (Inl e, s1)
            | Inr key \<Rightarrow>
                authorized ports who guild ControlPlayer s1 (\<lambda>s2.
                  case payload of
                    None \<Rightarrow> (Inl invalid_request, s2)
                  | Some (expected_revision, command) \<Rightarrow>
                      (case api_command_deadline now config of
                         Inl e \<Rightarrow> (Inl e, s2)
                       | Inr deadline \<Rightarrow>
                           let envelope = (command_envelope_new (fst fresh) (snd fresh) guild (Some (pl_user_id who))
                                 expected_revision deadline command)\<lparr>ce_idempotency_key := key\<rparr>
                           in case po_route ports envelope now s2 of
                                (Inl e, s3) \<Rightarrow> (Inl (api_from_route e), s3)
                              | (Inr receipt, s3) \<Rightarrow> (Inr receipt, s3)))))"

text \<open>The status of the response with the result.\<close>

definition command_result_handler ::
  "'s api_ports \<Rightarrow> (rstring \<Rightarrow> uuid option) \<Rightarrow> header_map \<Rightarrow> rstring \<Rightarrow> rstring \<Rightarrow> 's \<Rightarrow>
     (api_error + nat \<times> command_result) \<times> 's" where
  "command_result_handler ports parse_uuid headers guild_path command_text s =
     authenticated ports headers s (\<lambda>who s1.
       case path_guild_id guild_path of
         Inl e \<Rightarrow> (Inl e, s1)
       | Inr guild \<Rightarrow>
           (case parse_uuid command_text of
              None \<Rightarrow> (Inl invalid_request, s1)
            | Some command_id \<Rightarrow>
                if command_id = 0 then (Inl invalid_request, s1)
                else authorized ports who guild ReadPlayer s1 (\<lambda>s2.
                  case po_command_result ports guild command_id s2 of
                    Inl e \<Rightarrow> (Inl (api_from_port e), s2)
                  | Inr None \<Rightarrow> (Inl ApiCommandResultNotFound, s2)
                  | Inr (Some result) \<Rightarrow>
                      if cr_guild_id result \<noteq> guild \<or> cr_command_id result \<noteq> command_id then (Inl ApiInternal, s2)
                      else (Inr (if cr_status result = StatusPending then 202 else 200, result), s2))))"

text \<open>The events of a guild: the stream's state, the lease of its admission and the place it receives from.
  The subscription comes before the snapshot, so what is published in between is not missed.\<close>

definition events_handler ::
  "'s api_ports \<Rightarrow> (player_snapshot \<Rightarrow> rstring option) \<Rightarrow> unix_time_millis \<Rightarrow> header_map \<Rightarrow> rstring \<Rightarrow>
   admission_state \<times> api_backend \<times> 's \<Rightarrow> (api_error + stream_state \<times> user_id \<times> nat) \<times> admission_state \<times> api_backend \<times> 's" where
  "events_handler ports payload now headers guild_path w =
     (case w of (admission, backend, s) \<Rightarrow>
      case po_authenticate ports headers s of
        (Inl e, s1) \<Rightarrow> (Inl (api_from_authentication e), admission, backend, s1)
      | (Inr who, s1) \<Rightarrow>
      (case path_guild_id guild_path of
        Inl e \<Rightarrow> (Inl e, admission, backend, s1)
      | Inr guild \<Rightarrow>
      (case last_event_id headers of
        Inl e \<Rightarrow> (Inl e, admission, backend, s1)
      | Inr _ \<Rightarrow>
      (case po_authorize ports who guild SubscribeEvents s1 of
        (Inl e, s2) \<Rightarrow> (Inl (api_from_authorization e), admission, backend, s2)
      | (Inr _, s2) \<Rightarrow>
      (case sse_acquire MAX_SSE_CONNECTIONS MAX_SSE_CONNECTIONS_PER_USER (pl_user_id who) admission of
        (None, a) \<Rightarrow> (Inl ApiSseCapacityExceeded, a, backend, s2)
      | (Some lease, a) \<Rightarrow>
      (case backend_subscribe guild backend of
        (at, b) \<Rightarrow>
      (case po_snapshot ports guild s2 of
        Inl e \<Rightarrow> (Inl (api_from_port e), sse_release lease a, b, s2)
      | Inr found \<Rightarrow>
      let snapshot = (case found of None \<Rightarrow> initial_snapshot guild now | Some p \<Rightarrow> p)
      in if ps_guild_id snapshot \<noteq> guild then (Inl ApiInternal, sse_release lease a, b, s2)
         else case player_stream payload snapshot of
                None \<Rightarrow> (Inl ApiInternal, sse_release lease a, b, s2)
              | Some st \<Rightarrow> (Inr (st, lease, at), a, b, s2))))))))"

definition private_no_store :: "header_map \<Rightarrow> header_map" where
  "private_no_store headers =
     filter (\<lambda>h. fst h \<noteq> str ''cache-control'') headers @ [(str ''cache-control'', str ''private, no-store'')]"

section \<open>The production server\<close>

text \<open>The bot's presence, from the leases the bot keeps.\<close>

definition presence_port :: "'b valkey_store \<Rightarrow> request_fault \<Rightarrow> 'b \<Rightarrow> guild_id \<Rightarrow> unit + bool" where
  "presence_port vs f s guild = (case is_bot_present vs f guild s of Inl _ \<Rightarrow> Inl () | Inr present \<Rightarrow> Inr present)"

text \<open>The circumstances of one request: the loads of its authentication and its authorization, and the faults
  of its other requests.\<close>

record request_run =
  rq_login :: load_run
  rq_access :: load_run
  rq_presence_fault :: request_fault
  rq_store_fault :: request_fault

text \<open>The services' state is that of the authentication keys and that of the player keys.\<close>

definition production_ports ::
  "'a auth_store \<Rightarrow> 'b snapshot_store \<Rightarrow> u32 \<Rightarrow> request_run \<Rightarrow> ('a \<times> 'b) api_ports" where
  "production_ports A ss shard_total run =
     \<lparr>po_authenticate = (\<lambda>headers (a, b).
        case session_authenticate (store_load_session A (rq_login run)) headers a of (r, a') \<Rightarrow> (r, (a', b))),
      po_authorize = (\<lambda>who guild acc (a, b).
        case session_authorize A (presence_port (valkey_store.truncate ss) (rq_presence_fault run) b) (rq_access run) who guild a of
          (r, a') \<Rightarrow> (r, (a', b))),
      po_snapshot = (\<lambda>guild (a, b). backend_snapshot ss (rq_store_fault run) guild b),
      po_route = (\<lambda>envelope now (a, b).
        case backend_route (valkey_store.truncate ss) (rq_store_fault run) shard_total envelope now b of (r, b') \<Rightarrow> (r, (a, b'))),
      po_command_result = (\<lambda>guild command_id (a, b).
        backend_command_result (valkey_store.truncate ss) (rq_store_fault run) guild command_id b)\<rparr>"

end
