(* ===== verification/Auth_Properties.thy ===== *)
theory Auth_Properties
  imports Auth_Service
begin

text \<open>
  What web authentication promises, for any history of requests by any clients: one current session
  per user, logouts that last, sessions within their lifetime and readable, logins that need the
  browser they began in, and one use of each OAuth state.
\<close>

section \<open>Pending states\<close>

fun reserves :: "rstring \<Rightarrow> auth_request \<Rightarrow> bool" where
  "reserves g (ReserveState g' _ _ _) \<longleftrightarrow> g' = g"
| "reserves g _ \<longleftrightarrow> False"

definition state_gone :: "'s auth_store \<Rightarrow> rstring \<Rightarrow> 's \<Rightarrow> bool" where
  "state_gone A g s \<longleftrightarrow> as_get (at_server A) s (state_key A g) = None"

lemma consume_gone:
  assumes "auth_server_laws (at_server A)"
  shows "state_gone A g (snd (consume_state_script A g s))"
  using auth_laws(5,9) [OF assms] by (simp add: state_gone_def consume_state_script_def Let_def split: option.split)

lemma gone_serve:
  assumes "auth_server_laws (at_server A)" and "proper r" and "\<not> reserves g r" and "state_gone A g s"
  shows "state_gone A g (serve A r s)"
proof (cases r)
  case (ReserveState g' e ttl c)
  with assms show ?thesis by (simp add: state_gone_def get_reserve_script)
next
  case (ConsumeState g')
  with assms(1,4) show ?thesis
    by (cases "g' = g") (use consume_gone [OF assms(1), of g s] in \<open>simp_all add: state_gone_def get_consume_script\<close>)
next
  case (OpenSession x i a h)
  with assms show ?thesis by (simp add: state_gone_def get_create_script)
next
  case (RefreshSession h u now idle policy)
  with assms show ?thesis
    by (simp add: state_gone_def get_refresh_script split: option.split prod.split)
next
  case (DestroySession h u)
  with assms show ?thesis by (simp add: state_gone_def get_destroy_script)
next
  case (KeyExpires k)
  with assms show ?thesis by (simp add: state_gone_def auth_laws(5))
qed

interpretation consumed: kept_by_requests A
  "\<lambda>r. auth_server_laws (at_server A) \<and> proper r \<and> \<not> reserves g r" "state_gone A g" for A g
  by unfold_locales (simp add: gone_serve)

lemma consume_Some:
  assumes "consume A state turn s = (Inr (Some p), t)"
  shows "t = snd (consume_state_script A (au_hash (at_codec A) state) (serve_all A (rt_others turn) s))"
    and "\<not> state_gone A (au_hash (at_codec A) state) (serve_all A (rt_others turn) s)"
    and "\<exists>e. as_get (at_server A) (serve_all A (rt_others turn) s) (state_key A (au_hash (at_codec A) state)) = Some e \<and>
           au_parse_pending (at_codec A) e = Some (po_verifier p, po_created_at_ms p) \<and> token_shape (po_verifier p)"
proof -
  obtain e where asked: "ask A turn (consume_state_script A (au_hash (at_codec A) state)) s = (Some (Some e), t)"
    and parsed: "au_parse_pending (at_codec A) e = Some (po_verifier p, po_created_at_ms p)" "token_shape (po_verifier p)"
    using assms by (auto simp: consume_def token_shape_def split: sum.splits prod.splits option.splits if_split_asm)
  note script = ask_served [OF asked]
  then show "t = snd (consume_state_script A (au_hash (at_codec A) state) (serve_all A (rt_others turn) s))" by simp
  have "as_get (at_server A) (serve_all A (rt_others turn) s) (state_key A (au_hash (at_codec A) state)) = Some e"
    using script by (auto simp: consume_state_script_def Let_def split: option.splits)
  with parsed show "\<not> state_gone A (au_hash (at_codec A) state) (serve_all A (rt_others turn) s)"
    "\<exists>e. as_get (at_server A) (serve_all A (rt_others turn) s) (state_key A (au_hash (at_codec A) state)) = Some e \<and>
           au_parse_pending (at_codec A) e = Some (po_verifier p, po_created_at_ms p) \<and> token_shape (po_verifier p)"
    by (auto simp: state_gone_def)
qed

text \<open>C17: An OAuth state is used once: after a call has consumed it, no call gets it again, whatever other
  clients do but for a new login that draws the same state.\<close>

theorem states_are_consumed_once:
  assumes "auth_server_laws (at_server A)" and "consume A state turn s = (Inr (Some p), t)"
    and "\<forall>r\<in>set (later @ rt_others turn'). proper r \<and> \<not> reserves (au_hash (at_codec A) state) r"
  shows "fst (consume A state turn' (serve_all A later t)) \<noteq> Inr (Some q)"
proof
  assume "fst (consume A state turn' (serve_all A later t)) = Inr (Some q)"
  then obtain t' where again: "consume A state turn' (serve_all A later t) = (Inr (Some q), t')" by (metis prod.collapse)
  let ?g = "au_hash (at_codec A) state"
  have "state_gone A ?g t" using consume_Some(1) [OF assms(2)] consume_gone [OF assms(1)] by simp
  then have "state_gone A ?g (serve_all A (rt_others turn') (serve_all A later t))"
    using assms(1,3) by (intro consumed.serve_all_keeps) auto
  with consume_Some(2) [OF again] show False by blast
qed

section \<open>The number of pending logins\<close>

text \<open>The documented behaviour of the sorted sets.\<close>

definition auth_set_laws :: "'s auth_server \<Rightarrow> bool" where
  "auth_set_laws sv \<longleftrightarrow>
     (\<forall>s k t v k'. k' \<noteq> k \<longrightarrow> as_zcard sv (as_psetex sv k t v s) k' = as_zcard sv s k') \<and>
     (\<forall>s k t v k'. k' \<noteq> k \<longrightarrow> as_zcard sv (snd (as_set_nx_px sv k v t s)) k' = as_zcard sv s k') \<and>
     (\<forall>s k k'. as_zcard sv (as_del sv k s) k' = (if k' = k then 0 else as_zcard sv s k')) \<and>
     (\<forall>s k t k'. as_zcard sv (as_pexpire sv k t s) k' \<le> as_zcard sv s k') \<and>
     (\<forall>s k n. as_zcard sv (as_zremrangebyscore sv k n s) k \<le> as_zcard sv s k) \<and>
     (\<forall>s k n m. as_zcard sv (as_zadd sv k n m s) k \<le> Suc (as_zcard sv s k)) \<and>
     (\<forall>s k m. as_zcard sv (as_zrem sv k m s) k \<le> as_zcard sv s k)"

lemma set_laws:
  assumes "auth_set_laws sv"
  shows "k' \<noteq> k \<Longrightarrow> as_zcard sv (as_psetex sv k t v s) k' = as_zcard sv s k'"
    and "k' \<noteq> k \<Longrightarrow> as_zcard sv (snd (as_set_nx_px sv k v t s)) k' = as_zcard sv s k'"
    and "as_zcard sv (as_del sv k s) k' = (if k' = k then 0 else as_zcard sv s k')"
    and "as_zcard sv (as_pexpire sv k t s) k' \<le> as_zcard sv s k'"
    and "as_zcard sv (as_zremrangebyscore sv k n s) k \<le> as_zcard sv s k"
    and "as_zcard sv (as_zadd sv k n m s) k \<le> Suc (as_zcard sv s k)"
    and "as_zcard sv (as_zrem sv k m s) k \<le> as_zcard sv s k"
  using assms by (simp_all add: auth_set_laws_def)

definition pending_bounded :: "'s auth_store \<Rightarrow> 's \<Rightarrow> bool" where
  "pending_bounded A s \<longleftrightarrow> as_zcard (at_server A) s (pending_states_key A) \<le> MAX_PENDING_OAUTH_STATES"

lemma reserve_bounded:
  assumes laws: "auth_set_laws (at_server A)" and "pending_bounded A s"
  shows "pending_bounded A (snd (reserve_state_script A g e ttl c MAX_PENDING_OAUTH_STATES s))"
proof -
  let ?k = "pending_states_key A" and ?sv = "at_server A"
  obtain now where now: "(case as_time ?sv s of (a, b) \<Rightarrow> a * 1000 + b div 1000) = now" by blast
  let ?s1 = "as_zremrangebyscore ?sv ?k now s"
  have s1: "as_zcard ?sv ?s1 ?k \<le> MAX_PENDING_OAUTH_STATES"
    using set_laws(5) [OF laws, of ?k now s] assms(2) by (simp add: pending_bounded_def)
  obtain ok s2 where nx: "as_set_nx_px ?sv (state_key A g) e ttl ?s1 = (ok, s2)" by (cases "as_set_nx_px ?sv (state_key A g) e ttl ?s1")
  have s2: "as_zcard ?sv s2 ?k = as_zcard ?sv ?s1 ?k"
    using set_laws(2) [OF laws, of ?k "state_key A g" e ttl ?s1] nx by simp
  have "as_zcard ?sv (as_pexpire ?sv ?k c (as_zadd ?sv ?k (now + ttl) g s2)) ?k \<le> Suc (as_zcard ?sv s2 ?k)"
    using set_laws(4) [OF laws] set_laws(6) [OF laws] by (meson le_trans)
  then show ?thesis using s1 s2 nx by (cases ok) (simp_all add: pending_bounded_def reserve_state_script_def now Let_def)
qed

lemma consume_bounded:
  assumes laws: "auth_set_laws (at_server A)" and "pending_bounded A s"
  shows "pending_bounded A (snd (consume_state_script A g s))"
proof -
  let ?k = "pending_states_key A" and ?sv = "at_server A"
  have "as_zcard ?sv (as_zrem ?sv ?k g (as_del ?sv (state_key A g) s)) ?k \<le> as_zcard ?sv s ?k"
    using set_laws(7) [OF laws, of ?k g "as_del ?sv (state_key A g) s"] set_laws(3) [OF laws, of "state_key A g" s ?k] by simp
  then show ?thesis using assms(2) set_laws(3) [OF laws]
    by (simp add: pending_bounded_def consume_state_script_def Let_def split: option.split)
qed

lemma bounded_serve:
  assumes "auth_set_laws (at_server A)" and "pending_bounded A s"
  shows "pending_bounded A (serve A r s)"
proof (cases r)
  case (OpenSession x i a h)
  with assms show ?thesis using set_laws(1,3) [OF assms(1)]
    by (simp add: pending_bounded_def create_session_script_def Let_def split: option.split)
next
  case (RefreshSession h u now idle policy)
  with assms show ?thesis using set_laws(1,3) [OF assms(1)]
    by (simp add: pending_bounded_def load_and_refresh_script_def Let_def split: option.split prod.split)
qed (use assms reserve_bounded consume_bounded set_laws(3) [OF assms(1)] in
    \<open>simp_all add: pending_bounded_def destroy_session_script_def Let_def\<close>)

interpretation pending: kept_by_requests A "\<lambda>_. auth_set_laws (at_server A)" "pending_bounded A" for A
  by unfold_locales (simp add: bounded_serve)

text \<open>However many logins are begun, completed, denied or left to expire, the deployment counts at most
  4096 of them as pending; and the reservation refuses a login for that reason exactly when 4096 are
  counted whose time has not run out.\<close>

theorem pending_logins_are_bounded:
  assumes "auth_set_laws (at_server A)" and "as_zcard (at_server A) s0 (pending_states_key A) = 0"
    and "as_time (at_server A) (serve_all A rs s0) = (seconds, micros)"
  shows "as_zcard (at_server A) (serve_all A rs s0) (pending_states_key A) \<le> 4096 \<and>
    (fst (reserve_state_script A g e ttl c MAX_PENDING_OAUTH_STATES (serve_all A rs s0)) = -1 \<longleftrightarrow>
      as_zcard (at_server A) (as_zremrangebyscore (at_server A) (pending_states_key A) (seconds * 1000 + micros div 1000)
        (serve_all A rs s0)) (pending_states_key A) = 4096)"
proof
  have inv: "pending_bounded A (serve_all A rs s0)"
    using assms by (intro pending.serve_all_keeps) (simp_all add: pending_bounded_def)
  then show "as_zcard (at_server A) (serve_all A rs s0) (pending_states_key A) \<le> 4096"
    by (simp add: pending_bounded_def MAX_PENDING_OAUTH_STATES_def)
  have le: "as_zcard (at_server A) (as_zremrangebyscore (at_server A) (pending_states_key A) n (serve_all A rs s0))
      (pending_states_key A) \<le> 4096" for n
    using set_laws(5) [OF assms(1), of "pending_states_key A" n "serve_all A rs s0"] inv
    by (simp add: pending_bounded_def MAX_PENDING_OAUTH_STATES_def)
  show "fst (reserve_state_script A g e ttl c MAX_PENDING_OAUTH_STATES (serve_all A rs s0)) = -1 \<longleftrightarrow>
      as_zcard (at_server A) (as_zremrangebyscore (at_server A) (pending_states_key A) (seconds * 1000 + micros div 1000)
        (serve_all A rs s0)) (pending_states_key A) = 4096"
    using le [of "seconds * 1000 + micros div 1000"]
    by (auto simp: reserve_state_script_def Let_def MAX_PENDING_OAUTH_STATES_def assms(3) split: prod.split bool.split if_splits)
qed

section \<open>One current session per user\<close>

text \<open>A load of the session that the other requests do not open again.\<close>

definition run_quiet :: "rstring \<Rightarrow> load_run \<Rightarrow> bool" where
  "run_quiet h run \<longleftrightarrow> quiet_for h (lr_peek run) \<and> quiet_for h (lr_refresh run) \<and> quiet_for h (lr_pointer run)"

definition no_pointers :: "'s auth_store \<Rightarrow> 's \<Rightarrow> bool" where
  "no_pointers A s \<longleftrightarrow> (\<forall>u. as_get (at_server A) s (current_user_key A u) = None)"

lemma authorize_loads:
  assumes "session_authorize A is_present run who guild s = (Inr (), t)"
  obtains fingerprint session where "pl_session_fingerprint who = Some fingerprint"
    and "load_bound A (lr_clock run) (pl_user_id who) (fingerprint_str fingerprint) (lr_peek run) (lr_refresh run) s =
      (Inr (Some session), t)"
    and "has_guild session guild" and "is_present guild = Inr True"
  using assms by (auto simp: session_authorize_def split: option.splits prod.splits sum.splits if_split_asm)

lemma retired_is_refused:
  assumes "auth_server_laws (at_server A)" and "run_quiet h run" and "retired A h s"
  shows "fst (load_bound A (lr_clock run) u h (lr_peek run) (lr_refresh run) s) \<noteq> Inr (Some z)"
    and "h = au_hash (at_codec A) token \<Longrightarrow>
      fst (load A (lr_clock run) token (lr_peek run) (lr_refresh run) (lr_pointer run) s) \<noteq> Inr (Some z)"
    and "pl_session_fingerprint who = Some (SessionFingerprint h) \<Longrightarrow>
      fst (session_authorize A is_present run who guild s) \<noteq> Inr ()"
proof -
  have quiet: "quiet_for h (lr_peek run)" "quiet_for h (lr_refresh run)" using assms(2) by (simp_all add: run_quiet_def)
  show bound: "fst (load_bound A (lr_clock run) u h (lr_peek run) (lr_refresh run) s) \<noteq> Inr (Some z)" for u z
    by (rule retired_not_loaded_bound [OF assms(1) quiet assms(3)])
  show "h = au_hash (at_codec A) token \<Longrightarrow>
      fst (load A (lr_clock run) token (lr_peek run) (lr_refresh run) (lr_pointer run) s) \<noteq> Inr (Some z)"
    using retired_not_loaded_by_token [OF assms(1)] quiet assms(3) by blast
  assume who: "pl_session_fingerprint who = Some (SessionFingerprint h)"
  show "fst (session_authorize A is_present run who guild s) \<noteq> Inr ()"
  proof
    assume "fst (session_authorize A is_present run who guild s) = Inr ()"
    then obtain t where "session_authorize A is_present run who guild s = (Inr (), t)" by (metis prod.collapse)
    then obtain fingerprint session where f: "pl_session_fingerprint who = Some fingerprint"
      and "load_bound A (lr_clock run) (pl_user_id who) (fingerprint_str fingerprint) (lr_peek run) (lr_refresh run) s =
        (Inr (Some session), t)"
      by (rule authorize_loads)
    with who bound [of "pl_user_id who" session] show False by simp
  qed
qed

text \<open>C13: A new login ends the user's older session: once a login of the same user has succeeded, the token
  of the older session is never loaded again and its principal never authorized, whatever any clients
  ask of the server before, during and after, as long as no one draws that token again.\<close>

theorem new_login_ends_older_sessions:
  assumes "auth_server_laws (at_server A)" and "store_wf A" and "no_pointers A s0"
    and "\<forall>r\<in>set hist. proper r \<and> \<not> opens_for_other h (sd_user_id y) r"
    and "create A clock y draws (serve_all A hist s0) = (Inr token, t)"
    and "\<forall>d\<in>set draws. quiet_for h (snd d) \<and> (\<forall>k. fst d = Some k \<longrightarrow> au_hash (at_codec A) k \<noteq> h)"
    and "\<forall>r\<in>set later. proper r \<and> \<not> opens h r" and "run_quiet h run"
    and "au_hash (at_codec A) older = h" and "pl_session_fingerprint who = Some (SessionFingerprint h)"
  shows "fst (load A (lr_clock run) older (lr_peek run) (lr_refresh run) (lr_pointer run) (serve_all A later t)) \<noteq> Inr (Some z) \<and>
    fst (session_authorize A is_present run who guild (serve_all A later t)) \<noteq> Inr ()"
proof -
  have "owned A h (sd_user_id y) (serve_all A hist s0)"
    using assms(1,3,4) by (intro owner.serve_all_keeps) (auto simp: owned_def no_pointers_def)
  then have "retired A h t" using assms(6) by (intro login_retires [OF assms(1,2,5)]) auto
  then have "retired A h (serve_all A later t)"
    using assms(1,7) by (intro retired.serve_all_keeps) auto
  from retired_is_refused(2,3) [OF assms(1,8) this] assms(9,10) show ?thesis by blast
qed

text \<open>C14: A logout that reports success lasts: the token is never loaded again and its principal never
  authorized, even when the logout found the session gone or replaced, or other requests came in
  between its own.\<close>

theorem logout_revokes_the_session:
  assumes "auth_server_laws (at_server A)" and "auth_codec_laws (at_codec A)" and "no_pointers A s0"
    and "\<forall>k. as_get (at_server A) s0 (session_key A k) = None"
    and "\<forall>r\<in>set hist. proper r \<and> \<not> opens_other (au_hash (at_codec A) token) x r"
    and "destroy A token peek pointer removal (serve_all A hist s0) = (Inr (), t)"
    and "quiet_for (au_hash (at_codec A) token) peek" and "quiet_for (au_hash (at_codec A) token) pointer"
    and "\<forall>r\<in>set later. proper r \<and> \<not> opens (au_hash (at_codec A) token) r"
    and "run_quiet (au_hash (at_codec A) token) run"
    and "pl_session_fingerprint who = Some (SessionFingerprint (au_hash (at_codec A) token))"
  shows "fst (load A (lr_clock run) token (lr_peek run) (lr_refresh run) (lr_pointer run) (serve_all A later t)) \<noteq> Inr (Some z) \<and>
    fst (session_authorize A is_present run who guild (serve_all A later t)) \<noteq> Inr ()"
proof -
  let ?h = "au_hash (at_codec A) token"
  have other: "\<not> opens_other ?h x r \<Longrightarrow> \<not> opens_for_other ?h (sd_user_id x) r" for r by (cases r) auto
  have owned: "owned A ?h (sd_user_id x) (serve_all A hist s0)"
    using assms(1,3,5) other by (intro owner.serve_all_keeps) (auto simp: owned_def no_pointers_def)
  have "\<not> refreshes_badly (\<lambda>_. True) ?h r" for r by (cases r) auto
  then have stored: "stored A (\<lambda>_. True) ?h x (serve_all A hist s0)"
    using assms(1,2,4,5) by (intro body.serve_all_keeps) (auto simp: stored_def)
  have "retired A ?h t" by (rule logout_retires [OF assms(1,2) refl assms(6) owned stored assms(7,8)])
  then have "retired A ?h (serve_all A later t)"
    using assms(1,9) by (intro retired.serve_all_keeps) auto
  from retired_is_refused(2,3) [OF assms(1,10) this] assms(11) show ?thesis by blast
qed

section \<open>The lifetime and the shape of sessions\<close>

lemma load_Some:
  assumes "load A clock token peek refresh pointer s = (Inr (Some z), t)"
  obtains s1 now where "load_by_hash A (Some now) (au_hash (at_codec A) token) None peek refresh s = (Inr (Some z), s1)"
    and "clock = Some now"
proof -
  obtain s1 where l: "load_by_hash A clock (au_hash (at_codec A) token) None peek refresh s = (Inr (Some z), s1)"
    using assms by (auto simp: load_def Let_def split: sum.splits prod.splits option.splits if_split_asm)
  then obtain now where "clock = Some now"
    by (auto simp: load_by_hash_def split: sum.splits prod.splits option.splits)
  with l that show ?thesis by blast
qed

text \<open>C15: A loaded session is the one that was opened with the token, apart from its two times: it is loaded
  by a clock between its creation and its expiry, that clock is its last sight, and its expiry is
  never later than the absolute lifetime after its creation, however often it was refreshed.\<close>

theorem loaded_sessions_are_alive:
  assumes "auth_server_laws (at_server A)" and "auth_codec_laws (at_codec A)"
    and "\<forall>k. as_get (at_server A) s0 (session_key A k) = None"
    and "\<forall>r\<in>set hist. proper r \<and> \<not> opens_other (au_hash (at_codec A) token) x r"
    and "quiet_for (au_hash (at_codec A) token) peek" and "quiet_for (au_hash (at_codec A) token) refresh"
    and "load A (Some now) token peek refresh pointer (serve_all A hist s0) = (Inr (Some z), t)" and "unat now < 10 ^ 14"
  shows "renewal x z \<and> sd_last_seen_at_ms z = now \<and> sd_created_at_ms x \<le> now \<and> now < sd_expires_at_ms z \<and>
    unat (sd_expires_at_ms z) \<le> unat (sd_created_at_ms x) + unat (at_absolute_ttl_ms A)"
proof -
  let ?h = "au_hash (at_codec A) token"
  have "\<not> refreshes_badly (\<lambda>_. True) ?h r" for r by (cases r) auto
  then have stored: "stored A (\<lambda>_. True) ?h x (serve_all A hist s0)"
    using assms(1-4) by (intro body.serve_all_keeps) (auto simp: stored_def)
  obtain s1 where "load_by_hash A (Some now) ?h None peek refresh (serve_all A hist s0) = (Inr (Some z), s1)"
    by (rule load_Some [OF assms(7)]) auto
  from load_by_hash_alive [OF assms(1,2) stored assms(5,6) this assms(8)] show ?thesis .
qed

text \<open>C16: What the server holds under the key of a session is well formed: as long as the session was opened
  with at least one guild and every clock that refreshes it is at or past its creation, it decodes, to
  a session of valid shape for the same user, after any history of requests.\<close>

theorem stored_sessions_are_well_formed:
  assumes "auth_server_laws (at_server A)" and "auth_codec_laws (at_codec A)"
    and "\<forall>k. as_get (at_server A) s0 (session_key A k) = None"
    and "\<forall>r\<in>set hist. proper r \<and> \<not> opens_other h x r \<and> \<not> refreshes_early h x r"
    and "is_valid_shape x" and "sd_guilds x \<noteq> []"
    and "as_get (at_server A) (serve_all A hist s0) (session_key A h) = Some e"
  shows "\<exists>y. decode_session (at_codec A) e = Inr y \<and> is_valid_shape y \<and> renewal x y"
proof -
  have "timely x x" using assms(5) by (simp add: timely_def)
  then have "stored A (timely x) h x (serve_all A hist s0)"
    using assms(1-4) not_refreshes_badly by (intro body.serve_all_keeps) (auto simp: stored_def)
  from timely_decodes [OF assms(2) this assms(6,7)] show ?thesis .
qed

text \<open>C19: Both conditions of that are needed: a session of a user in no guild, and a session loaded by a clock
  that is behind its creation, is broken by its first load. The load fails, and so does every later
  one, until the key expires: Lua writes the empty list of guilds as an object, and a last sight
  before the creation is no valid shape.\<close>

theorem first_load_can_break_a_session:
  assumes "auth_server_laws (at_server A)" and "auth_codec_laws (at_codec A)" and "store_wf A"
    and "is_valid_shape x" and "exact_times x" and "unat now < 10 ^ 14" and "token_shape token"
    and "as_get (at_server A) s (session_key A (au_hash (at_codec A) token)) = Some (au_session (at_codec A) x)"
    and "as_get (at_server A) s (current_user_key A (sd_user_id x)) = Some (au_hash (at_codec A) token)"
    and "effective_session_expiry x (at_absolute_ttl_ms A) = Inr policy" and "now < policy"
    and "sd_guilds x = [] \<or> now < sd_created_at_ms x"
  shows "\<exists>t. load A (Some now) token alone alone alone s = (Inl RepositoryCorrupt, t) \<and>
    (\<forall>clock. fst (load A clock token alone alone alone t) = Inl RepositoryCorrupt)"
proof -
  have valid: "validate_opaque_token token = Inr ()"
    using assms(7) by (simp add: validate_opaque_token_def token_shape_def)
  obtain t where t: "load_by_hash A (Some now) (au_hash (at_codec A) token) None alone alone s = (Inl RepositoryCorrupt, t)"
    "\<And>clock. fst (load_by_hash A clock (au_hash (at_codec A) token) None alone alone t) = Inl RepositoryCorrupt"
    using refresh_breaks [OF assms(1-6,8-12)] by blast
  have "fst (load A clock token alone alone alone t) = Inl RepositoryCorrupt" for clock
    using t(2) [of clock] by (cases "load_by_hash A clock (au_hash (at_codec A) token) None alone alone t")
      (simp add: load_def valid)
  moreover have "load A (Some now) token alone alone alone s = (Inl RepositoryCorrupt, t)" by (simp add: load_def valid t(1))
  ultimately show ?thesis by blast
qed

section \<open>Authorization\<close>

lemma load_bound_user:
  assumes "auth_server_laws (at_server A)" and "auth_codec_laws (at_codec A)" and "stored A (\<lambda>_. True) h x s"
    and "quiet_for h peek" and "load_by_hash A (Some now) h (Some u) peek refresh s = (Inr (Some z), t)"
  shows "sd_user_id x = u"
proof -
  obtain peeked policy encoded where
    p: "peek_by_hash A peek h s = (Inr (Some peeked), serve_all A (rt_others peek) s)"
    and "effective_session_expiry peeked (at_absolute_ttl_ms A) = Inr policy"
    and "load_and_refresh_script A h (sd_user_id peeked) (unat now) (unat (at_idle_ttl_ms A)) (unat policy)
           (serve_all A (rt_others refresh) (serve_all A (rt_others peek) s)) = (Loaded encoded, t)"
    and "decode_session (at_codec A) encoded = Inr z" and u: "is_none_or (\<lambda>v. v = sd_user_id peeked) (Some u)"
    by (rule load_by_hash_Some [OF assms(5)])
  have "renewal x peeked"
    using peek_Inr(3) [OF p refl] stored_decode(1) [OF assms(2) quiet_stored [OF assms(1,2,4,3)]] by blast
  with u renewal_same(1) show ?thesis by (simp add: is_none_or_def)
qed

text \<open>Whoever the guild authorizer lets through is the user who logged in with that session, was a member
  of the guild when they did, does so within the lifetime of the session, and the bot is in the guild.\<close>

theorem authorized_requests_are_by_members:
  assumes "auth_server_laws (at_server A)" and "auth_codec_laws (at_codec A)"
    and "\<forall>k. as_get (at_server A) s0 (session_key A k) = None"
    and "\<forall>r\<in>set hist. proper r \<and> \<not> opens_other h x r" and "run_quiet h run"
    and "pl_session_fingerprint who = Some (SessionFingerprint h)"
    and "session_authorize A is_present run who guild (serve_all A hist s0) = (Inr (), t)"
    and "lr_clock run = Some now" and "unat now < 10 ^ 14"
  shows "sd_user_id x = pl_user_id who \<and> has_guild x guild \<and> is_present guild = Inr True \<and>
    sd_created_at_ms x \<le> now \<and> unat now < unat (sd_created_at_ms x) + unat (at_absolute_ttl_ms A)"
proof -
  have "\<not> refreshes_badly (\<lambda>_. True) h r" for r by (cases r) auto
  then have stored: "stored A (\<lambda>_. True) h x (serve_all A hist s0)"
    using assms(1-4) by (intro body.serve_all_keeps) (auto simp: stored_def)
  obtain fingerprint z where f: "pl_session_fingerprint who = Some fingerprint"
    and bound: "load_bound A (lr_clock run) (pl_user_id who) (fingerprint_str fingerprint) (lr_peek run) (lr_refresh run)
      (serve_all A hist s0) = (Inr (Some z), t)" and member: "has_guild z guild" and present: "is_present guild = Inr True"
    by (rule authorize_loads [OF assms(7)])
  have loaded: "load_by_hash A (Some now) h (Some (pl_user_id who)) (lr_peek run) (lr_refresh run) (serve_all A hist s0) =
      (Inr (Some z), t)"
    using bound f assms(6,8) by (auto simp: load_bound_def split: sum.splits)
  have quiet: "quiet_for h (lr_peek run)" "quiet_for h (lr_refresh run)" using assms(5) by (simp_all add: run_quiet_def)
  note alive = load_by_hash_alive [OF assms(1,2) stored quiet loaded assms(9)]
  have "sd_user_id x = pl_user_id who" by (rule load_bound_user [OF assms(1,2) stored quiet(1) loaded])
  moreover have "has_guild x guild" using member alive renewal_same(2) [of x z] by (simp add: has_guild_def)
  ultimately show ?thesis using present alive by (auto simp: word_less_nat_alt)
qed

section \<open>The login\<close>

lemma attempts_open:
  assumes "auth_server_laws (at_server A)" and "0 < i" and "0 < a"
    and "create_attempts A y i a n draws s = (Inr token, t)"
  shows "as_get (at_server A) t (session_key A (au_hash (at_codec A) token)) = Some (au_session (at_codec A) y) \<and>
    as_get (at_server A) t (current_user_key A (sd_user_id y)) = Some (au_hash (at_codec A) token)"
  using assms(4)
proof (induction draws arbitrary: n s)
  case Nil
  then show ?case by (cases n) simp_all
next
  case (Cons d draws)
  obtain m where n: "n = Suc m" using Cons.prems by (cases n) auto
  obtain turn k where d: "d = (Some k, turn)" using Cons.prems n by (cases d; cases "fst d") auto
  let ?h = "au_hash (at_codec A) k"
  let ?script = "create_session_script A ?h (sd_user_id y) (au_session (at_codec A) y) i a"
  obtain r s' where asked: "ask A turn ?script s = (Some r, s')"
    using Cons.prems d n by (auto split: prod.splits option.splits)
  note script = ask_served [OF asked]
  show ?case
  proof (cases "r = 1")
    case True
    with Cons.prems n d asked have "s' = t" "token = k" by simp_all
    have "\<not> as_exists (at_server A) (serve_all A (rt_others turn) s) (session_key A ?h)"
      using script True by (auto simp: create_session_script_def Let_def split: if_splits)
    then show ?thesis
      using get_create_script [OF assms(1-3), of ?h "sd_user_id y" "au_session (at_codec A) y" "serve_all A (rt_others turn) s"]
      unfolding script snd_conv \<open>s' = t\<close> \<open>token = k\<close> by simp
  next
    case False
    with Cons.prems n d asked have "create_attempts A y i a m draws s' = (Inr token, t)" by simp
    then show ?thesis by (rule Cons.IH)
  qed
qed

lemma open_session_ok:
  assumes "open_session S run now projection s = (Inr token, t)"
  obtains csrf ttl x where "cb_csrf run = Some csrf" and "service_duration_ms (sp_absolute_ttl (ac_session (ax_config S))) = Inr ttl"
    and "session_new projection csrf now ttl = Some x"
    and "create (ax_store S) (cb_store_clock run) x (cb_draws run) s = (Inr token, t)"
  using assms by (auto simp: open_session_def split: if_split_asm option.splits sum.splits prod.splits)

lemma callback_ok:
  assumes "complete_callback S run code returned cookie s = (Inr token, t)"
  obtains pending s1 now ttl projection where "returned = cookie"
    and "consume (ax_store S) returned (cb_consume run) s = (Inr (Some pending), s1)" and "cb_clock run = Some now"
    and "service_duration_ms (sp_oauth_state_ttl (ac_session (ax_config S))) = Inr ttl"
    and "po_created_at_ms pending \<le> now" and "unat now - unat (po_created_at_ms pending) \<le> unat ttl"
    and "ax_provider S code (po_verifier pending) = Inr projection"
    and "open_session S run now projection s1 = (Inr token, t)"
proof -
  have valid: "\<exists>u. validate_code code = Inr u" and same: "returned = cookie"
    using assms by (auto simp: complete_callback_def constant_time_eq_def split: sum.splits if_split_asm)
  obtain pending s1 where c: "consume (ax_store S) returned (cb_consume run) s = (Inr (Some pending), s1)"
    using assms valid same by (auto simp: complete_callback_def constant_time_eq_def split: prod.splits sum.splits option.splits)
  then obtain now ttl where n: "cb_clock run = Some now" "service_duration_ms (sp_oauth_state_ttl (ac_session (ax_config S))) = Inr ttl"
    using assms valid same by (auto simp: complete_callback_def constant_time_eq_def split: option.splits sum.splits)
  then have t: "\<not> (po_created_at_ms pending > now \<or> saturating_sub_u64 now (po_created_at_ms pending) > ttl)"
    using assms valid same c by (auto simp: complete_callback_def constant_time_eq_def split: if_split_asm)
  then obtain projection where "ax_provider S code (po_verifier pending) = Inr projection"
      "open_session S run now projection s1 = (Inr token, t)"
    using assms valid same c n by (auto simp: complete_callback_def constant_time_eq_def split: sum.splits)
  moreover have "unat now - unat (po_created_at_ms pending) \<le> unat ttl"
    using t by (simp add: not_less word_le_nat_alt unat_saturating_sub_u64)
  ultimately show ?thesis using that same c n t by (simp add: not_less)
qed

text \<open>C18: A login completes only in the browser it began in and within its time: the state of the redirect is
  that of the browser's cookie, the server held it, not older than the state lifetime, the provider
  accepted the code with the verifier that was stored with it, and the new session, of the user the
  provider names, is then the user's current one.\<close>

theorem logins_complete_in_their_browser:
  assumes "auth_server_laws (at_server (ax_store S))" and "store_wf (ax_store S)"
    and "complete_callback S run code returned cookie s = (Inr token, t)"
  shows "returned = cookie \<and>
    (\<exists>e verifier created now ttl projection x.
       as_get (at_server (ax_store S)) (serve_all (ax_store S) (rt_others (cb_consume run)) s)
         (state_key (ax_store S) (au_hash (at_codec (ax_store S)) returned)) = Some e \<and>
       au_parse_pending (at_codec (ax_store S)) e = Some (verifier, created) \<and>
       cb_clock run = Some now \<and> created \<le> now \<and>
       service_duration_ms (sp_oauth_state_ttl (ac_session (ax_config S))) = Inr ttl \<and> unat now - unat created \<le> unat ttl \<and>
       ax_provider S code verifier = Inr projection \<and> sd_user_id x = op_user_id projection \<and>
       sd_guilds x = op_guilds projection \<and> sd_created_at_ms x = now \<and> is_valid_shape x \<and>
       as_get (at_server (ax_store S)) t (current_user_key (ax_store S) (sd_user_id x)) =
         Some (au_hash (at_codec (ax_store S)) token) \<and>
       as_get (at_server (ax_store S)) t (session_key (ax_store S) (au_hash (at_codec (ax_store S)) token)) =
         Some (au_session (at_codec (ax_store S)) x))"
proof -
  obtain pending s1 now ttl projection where same: "returned = cookie"
    and c: "consume (ax_store S) returned (cb_consume run) s = (Inr (Some pending), s1)" and now: "cb_clock run = Some now"
    and ttl: "service_duration_ms (sp_oauth_state_ttl (ac_session (ax_config S))) = Inr ttl"
    and time: "po_created_at_ms pending \<le> now" "unat now - unat (po_created_at_ms pending) \<le> unat ttl"
    and projection: "ax_provider S code (po_verifier pending) = Inr projection"
    and opened: "open_session S run now projection s1 = (Inr token, t)"
    by (rule callback_ok [OF assms(3)])
  obtain csrf attl x where x: "session_new projection csrf now attl = Some x"
    and made: "create (ax_store S) (cb_store_clock run) x (cb_draws run) s1 = (Inr token, t)"
    by (rule open_session_ok [OF opened])
  obtain i a where ia: "0 < i" "0 < a"
    and attempts: "create_attempts (ax_store S) x i a CREATE_ATTEMPTS (cb_draws run) s1 = (Inr token, t)"
    by (rule create_ok [OF made assms(2)])
  from attempts_open [OF assms(1) ia attempts] consume_Some(3) [OF c] session_new_Some [OF x] same now ttl time projection
  show ?thesis by metis
qed

end
