(* ===== verification/Api_Properties.thy ===== *)
theory Api_Properties
  imports Api_Handlers Auth_Properties
begin

text \<open>
  A request to the server as a whole: what must hold for a command that the API accepts, from the
  cookie of the request to the stream the command stands in.
\<close>

section \<open>Loads keep what is stored\<close>

lemma load_by_hash_keeps:
  assumes laws: "auth_server_laws (at_server A)" and codec: "auth_codec_laws (at_codec A)"
    and stored: "stored A (\<lambda>_. True) h x s" and quiet: "quiet_for h peek" "quiet_for h refresh"
    and loaded: "load_by_hash A (Some now) h expected peek refresh s = (Inr (Some z), t)" and now: "unat now < 10 ^ 14"
    and idle: "0 < unat (at_idle_ttl_ms A)"
  shows "stored A (\<lambda>_. True) h x t" and "is_valid_shape z"
proof -
  let ?s1 = "serve_all A (rt_others peek) s" and ?s2 = "serve_all A (rt_others refresh) (serve_all A (rt_others peek) s)"
  obtain peeked policy encoded where p: "peek_by_hash A peek h s = (Inr (Some peeked), ?s1)"
    and policy: "effective_session_expiry peeked (at_absolute_ttl_ms A) = Inr policy"
    and script: "load_and_refresh_script A h (sd_user_id peeked) (unat now) (unat (at_idle_ttl_ms A)) (unat policy) ?s2 = (Loaded encoded, t)"
    and decoded: "decode_session (at_codec A) encoded = Inr z"
    by (rule load_by_hash_Some [OF loaded])
  have st1: "stored A (\<lambda>_. True) h x ?s1" by (rule quiet_stored [OF laws codec quiet(1) stored])
  have st2: "stored A (\<lambda>_. True) h x ?s2" by (rule quiet_stored [OF laws codec quiet(2) st1])
  have "exact_times peeked" using peek_Inr(3) [OF p refl] stored_decode [OF codec st1] by blast
  then have small: "unat policy < 10 ^ 14"
    using effective_expiry_bound(2) [OF policy] by (simp add: word_le_nat_alt exact_times_def)
  have proper: "proper (RefreshSession h (sd_user_id peeked) (unat now) (unat (at_idle_ttl_ms A)) (unat policy))"
    using small now idle by simp
  have "\<not> refreshes_badly (\<lambda>_. True) h
      (RefreshSession h (sd_user_id peeked) (unat now) (unat (at_idle_ttl_ms A)) (unat policy))"
    by simp
  from refresh_stored [OF laws codec proper this st2] script show "stored A (\<lambda>_. True) h x t" by simp
  show "is_valid_shape z" using decoded by (simp add: decode_Inr)
qed

lemma load_keeps:
  assumes laws: "auth_server_laws (at_server A)" and codec: "auth_codec_laws (at_codec A)"
    and stored: "stored A (\<lambda>_. True) h x s" and quiet: "run_quiet h run" and h: "h = au_hash (at_codec A) token"
    and loaded: "load A (lr_clock run) token (lr_peek run) (lr_refresh run) (lr_pointer run) s = (Inr (Some z), t)"
    and now: "\<forall>now. lr_clock run = Some now \<longrightarrow> unat now < 10 ^ 14" and idle: "0 < unat (at_idle_ttl_ms A)"
  shows "stored A (\<lambda>_. True) h x t" and "is_valid_shape z" and "renewal x z"
proof -
  obtain now s1 where clock: "lr_clock run = Some now"
    and by_hash: "load_by_hash A (Some now) h None (lr_peek run) (lr_refresh run) s = (Inr (Some z), s1)"
    and pointer: "ask A (lr_pointer run) (get_request A (current_user_key A (sd_user_id z))) s1 = (Some (Some h), t)"
  proof -
    obtain s1 where l: "load_by_hash A (lr_clock run) h None (lr_peek run) (lr_refresh run) s = (Inr (Some z), s1)"
      and a: "ask A (lr_pointer run) (get_request A (current_user_key A (sd_user_id z))) s1 = (Some (Some h), t)"
      using loaded h by (auto simp: load_def Let_def split: sum.splits prod.splits option.splits if_split_asm)
    obtain now where "lr_clock run = Some now"
      using load_Some [OF loaded] by blast
    with that l a show thesis by simp
  qed
  have q: "quiet_for h (lr_peek run)" "quiet_for h (lr_refresh run)" "quiet_for h (lr_pointer run)"
    using quiet by (simp_all add: run_quiet_def)
  have small: "unat now < 10 ^ 14" using now clock by blast
  note keeps = load_by_hash_keeps [OF laws codec stored q(1,2) by_hash small idle]
  show "is_valid_shape z" by (rule keeps(2))
  have "t = serve_all A (rt_others (lr_pointer run)) s1" by (rule get_pointer(1) [OF pointer])
  with quiet_stored [OF laws codec q(3) keeps(1)] show "stored A (\<lambda>_. True) h x t" by simp
  show "renewal x z" using load_by_hash_alive [OF laws codec stored q(1,2) by_hash small] by blast
qed

lemma api_session_authenticated:
  assumes "session_authenticate (store_load_session A run) headers s = (Inr who, t)" and "api_session_cookie headers = Some token"
  obtains z where "load A (lr_clock run) token (lr_peek run) (lr_refresh run) (lr_pointer run) s = (Inr (Some z), t)"
    and "who = \<lparr>pl_user_id = sd_user_id z, pl_csrf_token = sd_csrf_token z,
           pl_session_fingerprint = Some (SessionFingerprint (au_hash (at_codec A) token))\<rparr>"
proof -
  obtain z where l: "load A (lr_clock run) token (lr_peek run) (lr_refresh run) (lr_pointer run) s = (Inr (Some z), t)"
    and w: "who = \<lparr>pl_user_id = sd_user_id z, pl_csrf_token = sd_csrf_token z,
           pl_session_fingerprint = Some (SessionFingerprint (au_hash (at_codec A) token))\<rparr>"
    using assms
    by (auto simp: session_authenticate_def store_load_session_def principal_from_session_def session_fingerprint_new_def
        split: sum.splits prod.splits option.splits if_split_asm)
  with that show thesis by blast
qed

lemma base64url_ascii: "is_base64url s \<Longrightarrow> list_all (\<lambda>c. c < 0x80) s"
  by (auto simp: is_base64url_def list_all_iff is_ascii_alphanumeric_def is_ascii_lowercase_def is_ascii_uppercase_def
      is_ascii_digit_def)

lemma load_bound_clock:
  assumes "load_bound A clock u h peek refresh s = (Inr (Some w), t)"
  obtains n where "clock = Some n" and "load_by_hash A (Some n) h (Some u) peek refresh s = (Inr (Some w), t)"
proof -
  have l: "load_by_hash A clock h (Some u) peek refresh s = (Inr (Some w), t)"
    using assms by (auto simp: load_bound_def split: sum.splits)
  then obtain n where "clock = Some n"
    by (auto simp: load_by_hash_def split: sum.splits prod.splits option.splits if_split_asm)
  with l that show thesis by blast
qed

section \<open>A mutation from end to end\<close>

text \<open>What an accepted mutation has been through, over any ports.\<close>

lemma mutate_accepted:
  assumes "mutate_handler ports parse_uuid config fresh now headers guild_path payload s = (Inr receipt, t)"
  obtains who s1 guild key s2 expected_revision command deadline where
    "po_authenticate ports headers s = (Inr who, s1)" and "path_guild_id guild_path = Inr guild"
    and "validate_mutation_headers parse_uuid headers config who = Inr key"
    and "po_authorize ports who guild ControlPlayer s1 = (Inr (), s2)"
    and "payload = Some (expected_revision, command)" and "api_command_deadline now config = Inr deadline"
    and "po_route ports ((command_envelope_new (fst fresh) (snd fresh) guild (Some (pl_user_id who)) expected_revision
      deadline command)\<lparr>ce_idempotency_key := key\<rparr>) now s2 = (Inr receipt, t)"
  using assms
  by (auto simp: mutate_handler_def authenticated_def authorized_def Let_def split: sum.splits prod.splits option.splits)

lemma route_accepted:
  assumes "backend_route vs f shard_total envelope now s = (Inr receipt, t)"
  shows "now < ce_deadline envelope \<and> (\<exists>outcome. enqueue_command vs f envelope shard_total DEFAULT_COMMAND_RESULT_RETENTION s =
    (Inr outcome, t)) \<and> rc_command_id receipt = ce_command_id envelope"
  using assms
  by (auto simp: backend_route_def split: if_split_asm prod.splits sum.splits storage_error.splits)


end
