(* ===== verification/Auth_Samples.thy ===== *)
theory Auth_Samples
  imports Auth_Properties "HOL-Library.Countable"
begin

text \<open>
  A server and encodings of which the documented behaviour holds, and the properties of the
  authentication at concrete requests: two logins of one user, a logout, and the loads between them.
\<close>

section \<open>A server\<close>

record auth_memory =
  am_strings :: "rstring \<Rightarrow> rstring option"
  am_sets :: "rstring \<Rightarrow> (rstring \<times> nat) list"
  am_clock :: "nat \<times> nat"

definition auth_memory_server :: "auth_memory auth_server" where
  "auth_memory_server =
     \<lparr>as_get = am_strings, as_exists = (\<lambda>s k. am_strings s k \<noteq> None \<or> am_sets s k \<noteq> []),
      as_psetex = (\<lambda>k _ v s. s\<lparr>am_strings := (am_strings s)(k \<mapsto> v)\<rparr>),
      as_set_nx_px = (\<lambda>k v _ s. if am_strings s k = None then (True, s\<lparr>am_strings := (am_strings s)(k \<mapsto> v)\<rparr>) else (False, s)),
      as_del = (\<lambda>k s. s\<lparr>am_strings := (am_strings s)(k := None), am_sets := (am_sets s)(k := [])\<rparr>),
      as_time = am_clock, as_pexpire = (\<lambda>_ _ s. s),
      as_zremrangebyscore = (\<lambda>k n s. s\<lparr>am_sets := (am_sets s)(k := filter (\<lambda>e. n < snd e) (am_sets s k))\<rparr>),
      as_zcard = (\<lambda>s k. length (am_sets s k)),
      as_zadd = (\<lambda>k n m s. s\<lparr>am_sets := (am_sets s)(k := (m, n) # filter (\<lambda>e. fst e \<noteq> m) (am_sets s k))\<rparr>),
      as_zrem = (\<lambda>k m s. s\<lparr>am_sets := (am_sets s)(k := filter (\<lambda>e. fst e \<noteq> m) (am_sets s k))\<rparr>)\<rparr>"

lemma auth_memory_laws: "auth_server_laws auth_memory_server"
  by (simp add: auth_server_laws_def auth_memory_server_def)

lemma auth_memory_set_laws: "auth_set_laws auth_memory_server"
  by (simp add: auth_set_laws_def auth_memory_server_def)

section \<open>Encodings\<close>

instance guild_id :: countable by countable_datatype
instance user_id :: countable by countable_datatype

instance guild_summary_ext :: (countable) countable
proof (rule countable_classI [where f = "\<lambda>g. to_nat (gs_id g, gs_name g, gs_icon g, gs_owner g, gs_permissions g, guild_summary.more g)"])
  fix g h :: "'a guild_summary_ext"
  show "to_nat (gs_id g, gs_name g, gs_icon g, gs_owner g, gs_permissions g, guild_summary.more g) =
    to_nat (gs_id h, gs_name h, gs_icon h, gs_owner h, gs_permissions h, guild_summary.more h) \<Longrightarrow> g = h"
    by simp
qed

instance user_profile_ext :: (countable) countable
proof (rule countable_classI [where f = "\<lambda>p. to_nat (up_username p, up_display_name p, up_avatar p, user_profile.more p)"])
  fix p q :: "'a user_profile_ext"
  show "to_nat (up_username p, up_display_name p, up_avatar p, user_profile.more p) =
    to_nat (up_username q, up_display_name q, up_avatar q, user_profile.more q) \<Longrightarrow> p = q"
    by simp
qed

instance session_data_ext :: (countable) countable
proof (rule countable_classI [where f = "\<lambda>x. to_nat (sd_schema_version x, sd_user_id x, sd_profile x, sd_csrf_token x,
    sd_guilds x, sd_created_at_ms x, sd_expires_at_ms x, sd_last_seen_at_ms x, session_data.more x)"])
  fix x y :: "'a session_data_ext"
  show "to_nat (sd_schema_version x, sd_user_id x, sd_profile x, sd_csrf_token x,
      sd_guilds x, sd_created_at_ms x, sd_expires_at_ms x, sd_last_seen_at_ms x, session_data.more x) =
    to_nat (sd_schema_version y, sd_user_id y, sd_profile y, sd_csrf_token y,
      sd_guilds y, sd_created_at_ms y, sd_expires_at_ms y, sd_last_seen_at_ms y, session_data.more y) \<Longrightarrow> x = y"
    by simp
qed

text \<open>A session is written as its number, after a mark of who wrote it.\<close>

definition numbered :: "rstring \<Rightarrow> session_data" where
  "numbered t = from_nat (t ! 1)"

definition sample_auth_codec :: auth_codec where
  "sample_auth_codec =
     \<lparr>au_hash = (\<lambda>t. t), au_session = (\<lambda>x. [0, to_nat x]),
      au_parse_session = (\<lambda>t. if t ! 0 = 1 \<and> sd_guilds (numbered t) = [] then None else Some (numbered t)),
      au_lua_session = (\<lambda>t. Some (Some (unat (sd_schema_version (numbered t))), Some (unat (sd_expires_at_ms (numbered t))))),
      au_lua_update = (\<lambda>t e n. [1, to_nat ((numbered t)\<lparr>sd_expires_at_ms := of_nat e, sd_last_seen_at_ms := of_nat n\<rparr>)]),
      au_pending = (\<lambda>v c. unat c # v),
      au_parse_pending = (\<lambda>t. case t of c # v \<Rightarrow> Some (v, of_nat c) | [] \<Rightarrow> None)\<rparr>"

lemma numbered [simp]: "numbered [m, to_nat x] = x"
  by (simp add: numbered_def)

lemma sample_blob:
  assumes "session_blob sample_auth_codec r x t"
  shows "t = [if r then 1 else 0, to_nat x]"
  using assms by induction (simp_all add: sample_auth_codec_def)

lemma char_len_utf8_le: "char_len_utf8 c \<le> 4"
  by (simp add: char_len_utf8_def)

lemma sample_auth_codec_laws: "auth_codec_laws sample_auth_codec"
proof -
  have "str_len [m, n] \<le> MAX_SESSION_JSON_BYTES" for m n
    using char_len_utf8_le [of m] char_len_utf8_le [of n] by (simp add: MAX_SESSION_JSON_BYTES_def)
  moreover have "au_parse_session sample_auth_codec [if r then 1 else 0, to_nat x] = (if r \<and> sd_guilds x = [] then None else Some x)"
    and "au_lua_session sample_auth_codec [if r then 1 else 0, to_nat x] =
      Some (Some (unat (sd_schema_version x)), Some (unat (sd_expires_at_ms x)))" for r x
    by (simp_all add: sample_auth_codec_def)
  ultimately show ?thesis
    unfolding auth_codec_laws_def using sample_blob by blast
qed

section \<open>A store, its users and tokens\<close>

definition sample_auth :: "auth_memory auth_store" where
  "sample_auth = \<lparr>at_server = auth_memory_server, at_codec = sample_auth_codec, at_keyspace = str ''p'',
     at_state_ttl_ms = 300000, at_idle_ttl_ms = 1800000, at_absolute_ttl_ms = 1800000\<rparr>"

lemma sample_auth_parts [simp]:
  "at_server sample_auth = auth_memory_server" "at_codec sample_auth = sample_auth_codec"
  "at_absolute_ttl_ms sample_auth = 1800000" "at_idle_ttl_ms sample_auth = 1800000" "at_state_ttl_ms sample_auth = 300000"
  by (simp_all add: sample_auth_def)

lemma sample_auth_wf: "store_wf sample_auth"
  by (simp add: store_wf_def)

definition empty_auth :: auth_memory where
  "empty_auth = \<lparr>am_strings = (\<lambda>_. None), am_sets = (\<lambda>_. []), am_clock = (1, 0)\<rparr>"

definition token_of :: "rchar \<Rightarrow> rstring" where "token_of c = replicate 43 c"

lemma token_of_shape: "0x61 \<le> c \<Longrightarrow> c \<le> 0x7a \<Longrightarrow> str_len (token_of c) = 43 \<and> is_base64url (token_of c)"
  by (simp add: token_of_def str_len_def char_len_utf8_def sum_list_replicate is_base64url_def list_all_iff
      is_ascii_alphanumeric_def is_ascii_lowercase_def)

lemma tokens_differ: "token_of c = token_of d \<longleftrightarrow> c = d"
  by (simp add: token_of_def)

definition sample_session :: "guild_summary list \<Rightarrow> session_data" where
  "sample_session gs = \<lparr>sd_schema_version = 1, sd_user_id = UserId 7, sd_profile = None, sd_csrf_token = token_of 0x7a,
     sd_guilds = gs, sd_created_at_ms = 1000, sd_expires_at_ms = 1801000, sd_last_seen_at_ms = 1000\<rparr>"

definition home_guild :: guild_summary where
  "home_guild = \<lparr>gs_id = GuildId 5, gs_name = [0x67], gs_icon = None, gs_owner = False, gs_permissions = 0\<rparr>"

lemma home_guild_valid: "guilds_valid {} [home_guild]"
  by (simp add: home_guild_def char_len_utf8_def has_control_def is_control_def is_none_or_def)

lemma sample_session_valid: "guilds_valid {} gs \<Longrightarrow> length gs \<le> 200 \<Longrightarrow> is_valid_shape (sample_session gs)"
  using token_of_shape [of "0x7a"]
  by (simp add: is_valid_shape_def sample_session_def SCHEMA_VERSION_def is_none_or_def)

lemma sample_session_exact: "exact_times (sample_session gs)"
  by (simp add: exact_times_def sample_session_def)

lemma sample_user: "sd_user_id (sample_session gs) = UserId 7"
  by (simp add: sample_session_def)

definition alice :: session_data where "alice = sample_session [home_guild]"

lemma alice_facts: "is_valid_shape alice" "exact_times alice" "sd_user_id alice = UserId 7" "sd_guilds alice = [home_guild]"
  "sd_created_at_ms alice = 1000" "sd_expires_at_ms alice = 1801000" "sd_csrf_token alice = token_of 0x7a"
  using sample_session_valid [OF home_guild_valid] sample_session_exact
  by (simp_all add: alice_def) (simp_all add: sample_session_def)

definition login_history :: "guild_summary list \<Rightarrow> auth_request list" where
  "login_history gs = [OpenSession (sample_session gs) 1800000 1800000 (token_of 0x67)]"

definition opened :: "guild_summary list \<Rightarrow> auth_memory" where
  "opened gs = serve_all sample_auth (login_history gs) empty_auth"

lemma hash_is_token [simp]: "au_hash sample_auth_codec t = t"
  by (simp add: sample_auth_codec_def)

lemma login_history_proper: "guilds_valid {} gs \<Longrightarrow> length gs \<le> 200 \<Longrightarrow> \<forall>r\<in>set (login_history gs). proper r"
  using sample_session_valid sample_session_exact by (simp add: login_history_def)

lemma alice_proper: "\<forall>r\<in>set (login_history [home_guild]). proper r"
  using login_history_proper [OF home_guild_valid] by simp

lemma no_strings: "as_get auth_memory_server empty_auth k = None" "no_pointers sample_auth empty_auth"
  by (simp_all add: auth_memory_server_def empty_auth_def no_pointers_def)

lemma alone_quiet [simp]: "quiet_for h alone"
  by (simp add: quiet_for_def alone_def)

definition load_alone :: "u64 \<Rightarrow> load_run" where
  "load_alone now = \<lparr>lr_clock = Some now, lr_peek = alone, lr_refresh = alone, lr_pointer = alone\<rparr>"

lemma load_alone_simps [simp]:
  "run_quiet h (load_alone now)" "lr_clock (load_alone now) = Some now" "lr_peek (load_alone now) = alone"
  "lr_refresh (load_alone now) = alone" "lr_pointer (load_alone now) = alone"
  by (simp_all add: run_quiet_def load_alone_def)

definition principal_of :: "rstring \<Rightarrow> principal" where
  "principal_of h = \<lparr>pl_user_id = UserId 7, pl_csrf_token = token_of 0x7a, pl_session_fingerprint = Some (SessionFingerprint h)\<rparr>"

section \<open>After the first login\<close>

lemma sample_laws: "auth_server_laws (at_server sample_auth)" "auth_codec_laws (at_codec sample_auth)"
  by (simp_all add: auth_memory_laws sample_auth_codec_laws)

lemma opened_get:
  "as_get auth_memory_server (opened gs) k =
    (if k = current_user_key sample_auth (UserId 7) then Some (token_of 0x67)
     else if k = session_key sample_auth (token_of 0x67) then Some (au_session sample_auth_codec (sample_session gs)) else None)"
proof -
  have "\<not> as_exists auth_memory_server empty_auth k" for k by (simp add: auth_memory_server_def empty_auth_def)
  then show ?thesis
    using get_create_script [OF sample_laws(1), of 1800000 1800000 "token_of 0x67" "UserId 7"
        "au_session sample_auth_codec (sample_session gs)" empty_auth k]
    by (simp add: opened_def login_history_def no_strings sample_user)
qed

lemma sample_expiry: "effective_session_expiry (sample_session gs) 1800000 = Inr 1801000"
  by (simp add: effective_session_expiry_def sample_session_def checked_add_u64_def)

lemma alice_decodes: "decode_session sample_auth_codec (au_session sample_auth_codec alice) = Inr alice"
  using codec_simps [OF sample_auth_codec_laws session_blob.written alice_facts(2)] alice_facts(1)
  by (simp add: decode_Inr is_valid_shape_iff)

lemma second_login:
  "fst (create sample_auth (Some 2000) alice [(Some (token_of 0x62), alone)] (opened [home_guild])) = Inr (token_of 0x62)"
proof -
  have "am_sets (opened gs) k = []" for gs k
    by (simp add: opened_def login_history_def create_session_script_def Let_def auth_memory_server_def empty_auth_def)
  moreover have "am_strings (opened [home_guild]) (session_key sample_auth (token_of 0x62)) = None"
    using opened_get [of "[home_guild]" "session_key sample_auth (token_of 0x62)"]
    by (simp add: tokens_differ auth_memory_server_def)
  ultimately have "\<not> as_exists auth_memory_server (opened [home_guild]) (session_key sample_auth (token_of 0x62))"
    by (simp add: auth_memory_server_def)
  then show ?thesis
    using sample_expiry [of "[home_guild]"]
    by (simp add: create_def validate_session_def alice_facts checked_sub_u64_def CREATE_ATTEMPTS_def numeral_3_eq_3 ask_alone
        create_session_script_def Let_def flip: alice_def split: prod.split)
qed

lemma new_login_ends_older_sessions_witness:
  "fst (create sample_auth (Some 2000) alice [(Some (token_of 0x62), alone)] (opened [home_guild])) = Inr (token_of 0x62) \<and>
   fst (load sample_auth (Some 3000) (token_of 0x67) alone alone alone
     (snd (create sample_auth (Some 2000) alice [(Some (token_of 0x62), alone)] (opened [home_guild])))) \<noteq> Inr (Some alice)"
proof -
  obtain t where t: "create sample_auth (Some 2000) alice [(Some (token_of 0x62), alone)]
      (serve_all sample_auth (login_history [home_guild]) empty_auth) = (Inr (token_of 0x62), t)"
    using second_login unfolding opened_def by (metis prod.collapse)
  have hist: "\<forall>r\<in>set (login_history [home_guild]). proper r \<and> \<not> opens_for_other (token_of 0x67) (sd_user_id alice) r"
    using alice_proper by (simp add: login_history_def alice_def)
  from new_login_ends_older_sessions [OF sample_laws(1) sample_auth_wf no_strings(2) hist t, of "[]" "load_alone 3000"
      "token_of 0x67" "principal_of (token_of 0x67)" alice "\<lambda>_. Inr True" "GuildId 5"] second_login t
  show ?thesis by (simp add: tokens_differ principal_of_def opened_def)
qed

lemma sample_logout: "fst (destroy sample_auth (token_of 0x67) alone alone alone (opened [home_guild])) = Inr ()"
  using token_of_shape [of "0x67"] alice_decodes
  by (simp add: destroy_def validate_opaque_token_def Let_def peek_alone opened_get decode_optional_def ask_alone get_request_def
      alice_facts flip: alice_def split: prod.split)

lemma logout_revokes_the_session_witness:
  "fst (destroy sample_auth (token_of 0x67) alone alone alone (opened [home_guild])) = Inr () \<and>
   fst (session_authorize sample_auth (\<lambda>_. Inr True) (load_alone 3000) (principal_of (token_of 0x67)) (GuildId 5)
     (snd (destroy sample_auth (token_of 0x67) alone alone alone (opened [home_guild])))) \<noteq> Inr ()"
proof -
  obtain t where t: "destroy sample_auth (token_of 0x67) alone alone alone
      (serve_all sample_auth (login_history [home_guild]) empty_auth) = (Inr (), t)"
    using sample_logout unfolding opened_def by (metis prod.collapse)
  have hist: "\<forall>r\<in>set (login_history [home_guild]). proper r \<and> \<not> opens_other (au_hash (at_codec sample_auth) (token_of 0x67)) alice r"
    using alice_proper by (simp add: login_history_def alice_def)
  have none: "\<forall>k. as_get (at_server sample_auth) empty_auth (session_key sample_auth k) = None" by (simp add: no_strings)
  from logout_revokes_the_session [OF sample_laws no_strings(2) none hist t, of "[]" "load_alone 3000"
      "principal_of (token_of 0x67)" alice "\<lambda>_. Inr True" "GuildId 5"] sample_logout t
  show ?thesis by (simp add: principal_of_def opened_def)
qed

section \<open>Loads\<close>

definition alice_later :: session_data where
  "alice_later = alice\<lparr>sd_expires_at_ms := 1801000, sd_last_seen_at_ms := 2000\<rparr>"

lemma alice_later_decodes:
  "decode_session sample_auth_codec (au_lua_update sample_auth_codec (au_session sample_auth_codec alice) 1801000 2000) = Inr alice_later"
proof -
  have blob: "session_blob sample_auth_codec True alice_later
      (au_lua_update sample_auth_codec (au_session sample_auth_codec alice) 1801000 2000)"
    using session_blob.refreshed [OF session_blob.written, of 1801000 2000 sample_auth_codec alice] by (simp add: alice_later_def)
  have "exact_times alice_later" using alice_facts(2) by (simp add: alice_later_def exact_times_def)
  moreover have "is_valid_shape alice_later"
    using alice_facts by (simp add: alice_later_def is_valid_shape_def)
  ultimately show ?thesis
    using codec_simps [OF sample_auth_codec_laws blob] by (simp add: decode_Inr is_valid_shape_iff alice_later_def alice_facts)
qed

lemma alice_lua: "au_lua_session sample_auth_codec (au_session sample_auth_codec alice) = Some (Some 1, Some 1801000)"
  using codec_simps(2) [OF sample_auth_codec_laws session_blob.written alice_facts(2)] alice_facts
  by (simp add: is_valid_shape_def SCHEMA_VERSION_def)

lemma alice_loads: "fst (load_by_hash sample_auth (Some 2000) (token_of 0x67) expected alone alone (opened [home_guild])) =
    Inr (Some alice_later)" if "expected = None \<or> expected = Some (UserId 7)"
  using that alice_decodes alice_later_decodes sample_expiry [of "[home_guild]"]
  by (auto simp: load_by_hash_def peek_alone opened_get decode_optional_def ask_alone load_and_refresh_script_def Let_def
      alice_lua alice_facts simp flip: alice_def)

lemma sample_hist:
  "\<forall>r\<in>set (login_history [home_guild]). proper r \<and> \<not> opens_other (token_of 0x67) alice r"
  "\<forall>r\<in>set (login_history [home_guild]). proper r \<and> \<not> opens_other (token_of 0x67) alice r \<and>
     \<not> refreshes_early (token_of 0x67) alice r"
  using alice_proper by (simp_all add: login_history_def alice_def)

lemma sample_empty: "\<forall>k. as_get (at_server sample_auth) empty_auth (session_key sample_auth k) = None"
  by (simp add: no_strings)

lemma pointer_after_load:
  "as_get auth_memory_server (snd (load_by_hash sample_auth (Some 2000) (token_of 0x67) expected alone alone (opened [home_guild])))
     (current_user_key sample_auth (UserId 7)) = Some (token_of 0x67)" if "expected = None \<or> expected = Some (UserId 7)"
proof -
  have idle: "0 < unat (at_idle_ttl_ms sample_auth)" by simp
  have "snd (load_by_hash sample_auth (Some 2000) (token_of 0x67) expected alone alone (opened [home_guild])) =
      snd (load_and_refresh_script sample_auth (token_of 0x67) (UserId 7) 2000 1800000 1801000 (opened [home_guild]))"
    using that alice_decodes alice_later_decodes sample_expiry [of "[home_guild]"]
    by (auto simp: load_by_hash_def peek_alone opened_get decode_optional_def ask_alone alice_facts simp flip: alice_def
        split: prod.split load_reply.split)
  then show ?thesis
    using get_refresh_script [OF sample_laws(1), of 1800000 "token_of 0x67" "UserId 7" 2000 1801000 "opened [home_guild]"
        "current_user_key sample_auth (UserId 7)"]
    by (simp add: opened_get alice_lua flip: alice_def)
qed

lemma alice_loads_by_token:
  "fst (load sample_auth (Some 2000) (token_of 0x67) alone alone alone (opened [home_guild])) = Inr (Some alice_later)"
proof -
  obtain t where t: "load_by_hash sample_auth (Some 2000) (token_of 0x67) None alone alone (opened [home_guild]) =
      (Inr (Some alice_later), t)"
    using alice_loads [of None] by (metis prod.collapse)
  have "sd_user_id alice_later = UserId 7" by (simp add: alice_later_def alice_facts)
  moreover have "as_get auth_memory_server t (current_user_key sample_auth (UserId 7)) = Some (token_of 0x67)"
    using pointer_after_load [of None] t by simp
  ultimately show ?thesis
    using token_of_shape [of "0x67"] t
    by (simp add: load_def validate_opaque_token_def ask_alone get_request_def)
qed

lemma loaded_sessions_are_alive_witness:
  "\<exists>z. fst (load sample_auth (Some 2000) (token_of 0x67) alone alone alone (opened [home_guild])) = Inr (Some z) \<and>
     sd_last_seen_at_ms z = 2000 \<and> unat (sd_expires_at_ms z) \<le> 1000 + 1800000"
proof -
  obtain t where t: "load sample_auth (Some 2000) (token_of 0x67) alone alone alone
      (serve_all sample_auth (login_history [home_guild]) empty_auth) = (Inr (Some alice_later), t)"
    using alice_loads_by_token unfolding opened_def by (metis prod.collapse)
  have hist: "\<forall>r\<in>set (login_history [home_guild]). proper r \<and>
      \<not> opens_other (au_hash (at_codec sample_auth) (token_of 0x67)) alice r"
    using sample_hist(1) by simp
  from loaded_sessions_are_alive [OF sample_laws sample_empty hist alone_quiet alone_quiet t]
  show ?thesis using alice_loads_by_token alice_facts by auto
qed

lemma stored_sessions_are_well_formed_witness:
  "\<exists>e y. as_get auth_memory_server (opened [home_guild]) (session_key sample_auth (token_of 0x67)) = Some e \<and>
     decode_session sample_auth_codec e = Inr y \<and> is_valid_shape y"
proof -
  have get: "as_get (at_server sample_auth) (serve_all sample_auth (login_history [home_guild]) empty_auth)
      (session_key sample_auth (token_of 0x67)) = Some (au_session sample_auth_codec alice)"
    using opened_get [of "[home_guild]" "session_key sample_auth (token_of 0x67)"] by (simp add: opened_def alice_def)
  from stored_sessions_are_well_formed [OF sample_laws sample_empty sample_hist(2) alice_facts(1) _ get] alice_facts(4)
  show ?thesis using get by (auto simp: opened_def)
qed

text \<open>A user in no guild is locked out by the first load of the session.\<close>

lemma first_load_can_break_a_session_witness:
  "\<exists>t. load sample_auth (Some 2000) (token_of 0x67) alone alone alone (opened []) = (Inl RepositoryCorrupt, t) \<and>
     (\<forall>clock. fst (load sample_auth clock (token_of 0x67) alone alone alone t) = Inl RepositoryCorrupt)"
proof -
  have "token_shape (token_of 0x67)" using token_of_shape [of "0x67"] by (simp add: token_shape_def)
  moreover have "is_valid_shape (sample_session [])" by (rule sample_session_valid) simp_all
  ultimately show ?thesis
    using first_load_can_break_a_session [OF sample_laws sample_auth_wf _ sample_session_exact, of "[]" 2000 "token_of 0x67"
        "opened []" 1801000] sample_expiry [of "[]"]
    by (simp add: opened_get sample_user) (simp add: sample_session_def)
qed

lemma authorized_requests_are_by_members_witness:
  "fst (session_authorize sample_auth (\<lambda>_. Inr True) (load_alone 2000) (principal_of (token_of 0x67)) (GuildId 5)
     (opened [home_guild])) = Inr () \<and> has_guild alice (GuildId 5)"
proof -
  have "has_guild alice_later (GuildId 5)" by (simp add: has_guild_def alice_later_def alice_facts home_guild_def)
  then have ok: "fst (session_authorize sample_auth (\<lambda>_. Inr True) (load_alone 2000) (principal_of (token_of 0x67)) (GuildId 5)
     (opened [home_guild])) = Inr ()"
    using alice_loads [of "Some (UserId 7)"] token_of_shape [of "0x67"]
    by (cases "load_by_hash sample_auth (Some 2000) (token_of 0x67) (Some (UserId 7)) alone alone (opened [home_guild])")
      (simp add: session_authorize_def principal_of_def load_bound_def validate_hash_def validate_opaque_token_def)
  then obtain t where t: "session_authorize sample_auth (\<lambda>_. Inr True) (load_alone 2000) (principal_of (token_of 0x67)) (GuildId 5)
     (serve_all sample_auth (login_history [home_guild]) empty_auth) = (Inr (), t)"
    unfolding opened_def by (metis prod.collapse)
  have "pl_session_fingerprint (principal_of (token_of 0x67)) = Some (SessionFingerprint (token_of 0x67))"
    by (simp add: principal_of_def)
  from authorized_requests_are_by_members [OF sample_laws sample_empty sample_hist(1) load_alone_simps(1) this t
      load_alone_simps(2)] ok
  show ?thesis by simp
qed

section \<open>The login\<close>

definition reserved :: auth_memory where
  "reserved = serve sample_auth (ReserveState (token_of 0x63) (au_pending sample_auth_codec (token_of 0x64) 500) 300000 600000) empty_auth"

lemma reserved_get: "as_get auth_memory_server reserved (state_key sample_auth (token_of 0x63)) = Some (500 # token_of 0x64)"
  by (simp add: reserved_def reserve_state_script_def Let_def auth_memory_server_def empty_auth_def MAX_PENDING_OAUTH_STATES_def
      sample_auth_codec_def)

lemma sample_consumes: "fst (consume sample_auth (token_of 0x63) alone reserved) =
    Inr (Some \<lparr>po_verifier = token_of 0x64, po_created_at_ms = 500\<rparr>)"
  using token_of_shape [of "0x63"] token_of_shape [of "0x64"] reserved_get
  by (simp add: consume_def validate_state_def ask_alone consume_state_script_def Let_def MAX_PENDING_JSON_BYTES_def
      char_len_utf8_def sample_auth_codec_def)

lemma states_are_consumed_once_witness:
  "fst (consume sample_auth (token_of 0x63) alone (snd (consume sample_auth (token_of 0x63) alone reserved))) \<noteq>
     Inr (Some \<lparr>po_verifier = token_of 0x64, po_created_at_ms = 500\<rparr>)"
proof -
  obtain t where t: "consume sample_auth (token_of 0x63) alone reserved =
      (Inr (Some \<lparr>po_verifier = token_of 0x64, po_created_at_ms = 500\<rparr>), t)"
    using sample_consumes by (metis prod.collapse)
  have "\<forall>r\<in>set ([] @ rt_others alone). proper r \<and> \<not> reserves (au_hash (at_codec sample_auth) (token_of 0x63)) r"
    by (simp add: alone_def)
  from states_are_consumed_once [OF sample_laws(1) t this] t show ?thesis by simp
qed

lemma pending_logins_are_bounded_witness:
  "as_zcard auth_memory_server (serve_all sample_auth [ReserveState (token_of 0x63) [] 1 1] empty_auth)
     (pending_states_key sample_auth) \<le> 4096"
proof -
  have count: "as_zcard (at_server sample_auth) empty_auth (pending_states_key sample_auth) = 0"
    by (simp add: auth_memory_server_def empty_auth_def)
  have time: "as_time (at_server sample_auth) (serve_all sample_auth [ReserveState (token_of 0x63) [] 1 1] empty_auth) = (1, 0)"
    by (simp add: auth_memory_server_def empty_auth_def reserve_state_script_def Let_def)
  have laws: "auth_set_laws (at_server sample_auth)" by (simp add: auth_memory_set_laws)
  show ?thesis using conjunct1 [OF pending_logins_are_bounded [OF laws count time]] by simp
qed

definition sample_auth_config :: auth_config where
  "sample_auth_config = \<lparr>ac_discord = \<lparr>dc_client_id = [], dc_client_secret = [], dc_redirect_uri =
       \<lparr>ru_scheme = [], ru_host = None, ru_username = [], ru_password = None, ru_query = None, ru_fragment = None, ru_text = []\<rparr>\<rparr>,
     ac_session = session_policy_default, ac_keyspace = str ''p'', ac_success_redirect = str ''/''\<rparr>"

definition sample_auth_service :: "auth_memory auth_service" where
  "sample_auth_service = \<lparr>ax_config = sample_auth_config, ax_store = sample_auth,
     ax_provider = (\<lambda>_ _. Inr \<lparr>op_user_id = UserId 7, op_profile = None, op_guilds = [home_guild]\<rparr>), ax_discord_urls = None\<rparr>"

definition sample_callback :: callback_run where
  "sample_callback = \<lparr>cb_consume = alone, cb_clock = Some 1000, cb_csrf = Some (token_of 0x7a), cb_store_clock = Some 1000,
     cb_draws = [(Some (token_of 0x67), alone)]\<rparr>"

lemma sample_callback_completes:
  "fst (complete_callback sample_auth_service sample_callback [0x63] (token_of 0x63) (token_of 0x63) reserved) = Inr (token_of 0x67)"
proof -
  obtain t where t: "consume sample_auth (token_of 0x63) alone reserved =
      (Inr (Some \<lparr>po_verifier = token_of 0x64, po_created_at_ms = 500\<rparr>), t)"
    using sample_consumes by (metis prod.collapse)
  have ttl: "service_duration_ms (sp_oauth_state_ttl session_policy_default) = Inr 300000"
    "service_duration_ms (sp_absolute_ttl session_policy_default) = Inr 1800000"
    by (simp_all add: service_duration_ms_def session_policy_default_def DEFAULT_OAUTH_STATE_TTL_def MAX_SESSION_ABSOLUTE_TTL_def
        from_mins_def)
  have new: "session_new \<lparr>op_user_id = UserId 7, op_profile = None, op_guilds = [home_guild]\<rparr> (token_of 0x7a) 1000 1800000 = Some alice"
    using alice_facts(1) by (simp add: session_new_def checked_add_u64_def alice_def sample_session_def SCHEMA_VERSION_def Let_def)
  have "t = snd (consume_state_script sample_auth (token_of 0x63) reserved)" using consume_Some(1) [OF t] by (simp add: alone_def)
  then have "am_strings t (session_key sample_auth (token_of 0x67)) = None \<and> am_sets t (session_key sample_auth (token_of 0x67)) = []"
    by (simp add: consume_state_script_def reserved_def reserve_state_script_def Let_def auth_memory_server_def empty_auth_def
        MAX_PENDING_OAUTH_STATES_def)
  then have "\<not> as_exists auth_memory_server t (session_key sample_auth (token_of 0x67))" by (simp add: auth_memory_server_def)
  then have made: "fst (create sample_auth (Some 1000) alice [(Some (token_of 0x67), alone)] t) = Inr (token_of 0x67)"
    using sample_expiry [of "[home_guild]"]
    by (simp add: create_def validate_session_def alice_facts checked_sub_u64_def CREATE_ATTEMPTS_def numeral_3_eq_3 ask_alone
        create_session_script_def Let_def flip: alice_def split: prod.split)
  show ?thesis
    using t ttl new made
    by (cases "create sample_auth (Some 1000) alice [(Some (token_of 0x67), alone)] t") (simp add: complete_callback_def sample_auth_service_def sample_callback_def sample_auth_config_def validate_code_def
        char_len_utf8_def has_control_def is_control_def constant_time_eq_def saturating_sub_u64_def open_session_def)
qed

lemma logins_complete_in_their_browser_witness:
  "\<exists>t. complete_callback sample_auth_service sample_callback [0x63] (token_of 0x63) (token_of 0x63) reserved = (Inr (token_of 0x67), t) \<and>
     (\<exists>x :: session_data. as_get auth_memory_server t (current_user_key sample_auth (sd_user_id x)) = Some (token_of 0x67))"
proof -
  obtain t where t: "complete_callback sample_auth_service sample_callback [0x63] (token_of 0x63) (token_of 0x63) reserved = (Inr (token_of 0x67), t)"
    using sample_callback_completes by (metis prod.collapse)
  have store: "ax_store sample_auth_service = sample_auth" by (simp add: sample_auth_service_def)
  have "auth_server_laws (at_server (ax_store sample_auth_service))" "store_wf (ax_store sample_auth_service)"
    by (simp_all add: store auth_memory_laws sample_auth_wf)
  from logins_complete_in_their_browser [OF this t]
  have "\<exists>x :: session_data. as_get auth_memory_server t (current_user_key sample_auth (sd_user_id x)) = Some (token_of 0x67)"
    unfolding store sample_auth_parts hash_is_token by blast
  with t show ?thesis by blast
qed

end
