(* ===== verification/Api_Samples.thy ===== *)
theory Api_Samples
  imports Api_Properties Auth_Samples Valkey_Samples
begin

text \<open>
  The properties of the API at concrete requests: a stream and its events, a backend that loses and
  regains its subscription, and a command of a logged-in user that is accepted.
\<close>

section \<open>Streams\<close>

definition shown :: "u64 \<Rightarrow> player_snapshot" where
  "shown n = (initial_snapshot (GuildId 5) (UnixTimeMillis 1))\<lparr>ps_revision := StateRevision n\<rparr>"

lemma shown_facts: "ps_guild_id (shown n) = GuildId 5" "ps_revision (shown n) = StateRevision n" "public_shape (shown n)"
  by (simp_all add: shown_def initial_snapshot_def public_shape_def snapshot_tracks_def option_list_def)

definition poll :: "bool \<times> guard_turn list" where "poll = (False, [InnerReady])"

lemma streams_show_every_revision_witness:
  "\<exists>st. player_stream (\<lambda>_. Some []) (shown 0) = Some st \<and>
     (\<exists>events. response_items (\<lambda>_. Some []) [poll, poll, poll] (st, [Notified (shown 1), Notified (shown 3)]) =
        SnapshotEvent (str ''snapshot'') (shown 0) # events \<and> follows (GuildId 5) (StateRevision 0) events \<and> length events = 2)"
proof -
  have ok: "validate_public_shape (shown n) = Inr ()" for n
    using shown_facts(3) [of n] by (simp add: validate_public_shape_ok)
  obtain st where st: "player_stream (\<lambda>_. Some []) (shown 0) = Some st"
    by (simp add: player_stream_def snapshot_event_def ok)
  let ?items = "response_items (\<lambda>_. Some []) [poll, poll, poll] (st, [Notified (shown 1), Notified (shown 3)])"
  have st': "st = \<lparr>st_guild_id = GuildId 5, st_initial = Some (SnapshotEvent (str ''snapshot'') (shown 0)),
      st_last_revision = StateRevision 0, st_close_after_event = False\<rparr>"
    using st by (simp add: player_stream_def snapshot_event_def ok shown_facts)
  have len: "length ?items = 3"
    by (simp add: poll_def st' shutdown_poll_def stream_poll_def snapshot_event_def ok shown_facts closing_event_def
        checked_next_def checked_add_u64_def less_eq_state_revision_def word_le_nat_alt)
  with streams_show_every_revision [OF st, of "[poll, poll, poll]" "[Notified (shown 1), Notified (shown 3)]"] st
  show ?thesis by (auto simp: shown_facts)
qed

section \<open>The backend\<close>


section \<open>A command of a user\<close>

text \<open>The session after its first refresh; a second one by the same clock leaves it as it is.\<close>

definition refreshed_alice :: rstring where
  "refreshed_alice = au_lua_update sample_auth_codec (au_session sample_auth_codec alice) 1801000 2000"

lemma refreshed_alice_facts:
  "decode_session sample_auth_codec refreshed_alice = Inr alice_later"
  "au_lua_session sample_auth_codec refreshed_alice = Some (Some 1, Some 1801000)"
  "au_lua_update sample_auth_codec refreshed_alice 1801000 2000 = refreshed_alice"
  "effective_session_expiry alice_later 1800000 = Inr 1801000"
proof -
  have written: "refreshed_alice = [1, Countable.to_nat alice_later]"
    by (simp add: refreshed_alice_def sample_auth_codec_def alice_later_def)
  show "decode_session sample_auth_codec refreshed_alice = Inr alice_later"
    unfolding refreshed_alice_def by (rule alice_later_decodes)
  have version: "sd_schema_version alice_later = 1"
    using alice_facts(1) by (simp add: alice_later_def is_valid_shape_def SCHEMA_VERSION_def)
  show "au_lua_session sample_auth_codec refreshed_alice = Some (Some 1, Some 1801000)"
    unfolding written using version by (simp add: sample_auth_codec_def) (simp add: alice_later_def)
  show "au_lua_update sample_auth_codec refreshed_alice 1801000 2000 = refreshed_alice"
    unfolding written by (simp add: sample_auth_codec_def alice_later_def)
  show "effective_session_expiry alice_later 1800000 = Inr 1801000"
    by (simp add: effective_session_expiry_def alice_later_def alice_facts checked_add_u64_def)
qed

lemma refreshed_loads:
  assumes "as_get auth_memory_server s (session_key sample_auth (token_of 0x67)) = Some refreshed_alice"
    and "as_get auth_memory_server s (current_user_key sample_auth (UserId 7)) = Some (token_of 0x67)"
  shows "fst (load_by_hash sample_auth (Some 2000) (token_of 0x67) (Some (UserId 7)) alone alone s) = Inr (Some alice_later)"
  using assms refreshed_alice_facts alice_facts
  by (simp add: load_by_hash_def peek_alone decode_optional_def ask_alone load_and_refresh_script_def Let_def alice_later_def)

lemma alice_logs_in:
  obtains t where "load sample_auth (Some 2000) (token_of 0x67) alone alone alone (opened [home_guild]) = (Inr (Some alice_later), t)"
    and "as_get auth_memory_server t (session_key sample_auth (token_of 0x67)) = Some refreshed_alice"
    and "as_get auth_memory_server t (current_user_key sample_auth (UserId 7)) = Some (token_of 0x67)"
proof -
  let ?t = "snd (load_and_refresh_script sample_auth (token_of 0x67) (UserId 7) 2000 1800000 1801000 (opened [home_guild]))"
  have script: "load_by_hash sample_auth (Some 2000) (token_of 0x67) None alone alone (opened [home_guild]) = (Inr (Some alice_later), ?t)"
    using alice_decodes alice_later_decodes sample_expiry [of "[home_guild]"] alice_lua
    by (simp add: load_by_hash_def peek_alone opened_get decode_optional_def ask_alone alice_facts load_and_refresh_script_def Let_def
        flip: alice_def)
  have get: "as_get auth_memory_server ?t k =
    (if k = session_key sample_auth (token_of 0x67) then Some refreshed_alice else as_get auth_memory_server (opened [home_guild]) k)" for k
    using get_refresh_script [OF sample_laws(1), of 1800000 "token_of 0x67" "UserId 7" 2000 1801000 "opened [home_guild]" k]
    by (simp add: opened_get alice_lua refreshed_alice_def flip: alice_def)
  have pointer: "as_get auth_memory_server ?t (current_user_key sample_auth (UserId 7)) = Some (token_of 0x67)"
    by (simp add: get opened_get)
  have user: "sd_user_id alice_later = UserId 7" by (simp add: alice_later_def alice_facts)
  have "load sample_auth (Some 2000) (token_of 0x67) alone alone alone (opened [home_guild]) = (Inr (Some alice_later), ?t)"
    using token_of_shape [of "0x67"] script pointer user
    by (simp add: load_def validate_opaque_token_def ask_alone get_request_def)
  with that get pointer show thesis by simp
qed

definition sample_headers :: header_map where
  "sample_headers = [(COOKIE, SESSION_COOKIE @ str ''='' @ token_of 0x67), (ORIGIN, str ''https://pepe.test''),
     (FETCH_SITE_HEADER, str ''same-origin''), (CSRF_HEADER, token_of 0x7a), (IDEMPOTENCY_HEADER, str ''9'')]"

lemma split_char_whole: "c \<notin> set s \<Longrightarrow> split_char c s = [s]"
  by (induction s) auto

lemma trim_whole: "s \<noteq> [] \<Longrightarrow> \<not> is_whitespace (hd s) \<Longrightarrow> \<not> is_whitespace (last s) \<Longrightarrow> trim s = s"
proof -
  assume s: "s \<noteq> []" "\<not> is_whitespace (hd s)" "\<not> is_whitespace (last s)"
  then have "dropWhile is_whitespace s = s" "dropWhile is_whitespace (rev s) = rev s"
    by (simp_all add: dropWhile_eq_self_iff hd_rev)
  then show "trim s = s" by (simp add: trim_def trim_start_def)
qed

lemma sample_cookie: "api_session_cookie sample_headers = Some (token_of 0x67)"
proof -
  let ?line = "SESSION_COOKIE @ 0x3d # token_of 0x67"
  have chars: "set (token_of 0x67) = {0x67}" by (simp add: token_of_def)
  have name: "\<forall>c\<in>set SESSION_COOKIE. c \<noteq> 0x3d \<and> c \<noteq> 0x3b \<and> 0x20 \<le> c \<and> c < 0x7f" by (simp add: SESSION_COOKIE_def str_def)
  have line: "header_get_all sample_headers COOKIE = [?line]"
    by (simp add: sample_headers_def header_get_all_def COOKIE_def ORIGIN_def FETCH_SITE_HEADER_def CSRF_HEADER_def
        IDEMPOTENCY_HEADER_def str_def)
  have visible: "header_to_str ?line = Some ?line"
    using name chars by (auto simp: header_to_str_def list_all_iff)
  have whole: "split_char 0x3b ?line = [?line]" by (rule split_char_whole) (use name chars in auto)
  have ends: "hd ?line = 0x5f" "last ?line = 0x67" by (simp_all add: SESSION_COOKIE_def str_def token_of_def last_replicate)
  have "trim ?line = ?line" by (rule trim_whole) (simp_all only: ends, simp_all add: is_whitespace_def)
  moreover have "split_once 0x3d ?line = Some (SESSION_COOKIE, token_of 0x67)"
    using name by (auto simp: split_once_def takeWhile_append2 dropWhile_append2)
  ultimately have "api_cookie_value ?line = Some (token_of 0x67)"
    using token_of_shape [of "0x67"] by (simp add: api_cookie_value_def token_of_def)
  then show ?thesis by (simp add: api_session_cookie_def line visible whole)
qed

lemma sample_header_sizes: "\<forall>v\<in>snd ` set sample_headers. str_len v < 2 ^ 64"
  by (simp add: sample_headers_def SESSION_COOKIE_def str_def token_of_def str_len_def char_len_utf8_def sum_list_replicate)

definition sample_api :: api_config where
  "sample_api = \<lparr>ap_allowed_origin = str ''https://pepe.test'', ap_command_ttl = 10 ^ 10\<rparr>"

lemma sample_mutation_headers:
  "pl_csrf_token who = token_of 0x7a \<Longrightarrow> validate_mutation_headers (\<lambda>_. Some 9) sample_headers sample_api who = Inr 9"
proof -
  have len: "length (as_bytes (token_of 0x7a)) < 2 ^ 64"
    using token_of_shape [of "0x7a"] by (simp add: length_as_bytes)
  have ascii: "header_to_str (token_of 0x7a) = Some (token_of 0x7a)" "header_to_str (str ''9'') = Some (str ''9'')" by code_simp+
  have get: "header_get sample_headers ORIGIN = Some (str ''https://pepe.test'')"
    "header_get sample_headers FETCH_SITE_HEADER = Some (str ''same-origin'')"
    "header_get sample_headers CSRF_HEADER = Some (token_of 0x7a)" "header_get sample_headers IDEMPOTENCY_HEADER = Some (str ''9'')"
    by code_simp+
  assume "pl_csrf_token who = token_of 0x7a"
  then show ?thesis using get ascii constant_time_equal_iff [OF len len]
    by (simp add: validate_mutation_headers_def sample_api_def)
qed

definition sample_backend :: "memory snapshot_store" where
  "sample_backend = \<lparr>vs_server = memory_server, vs_codec = sample_codec, vs_keyspace = str ''p'', ss_set = (\<lambda>_ _ s. s),
     ss_strlen = (\<lambda>_ _. 0), ss_publish = (\<lambda>_ _ s. s), ss_collate_le = (\<lambda>_ _. True), ss_encode = (\<lambda>_. None),
     ss_decode = (\<lambda>_. None), ss_encode_event = (\<lambda>_ _. None)\<rparr>"

lemma sample_backend_store: "valkey_store.truncate sample_backend = sample_store"
  by (simp add: sample_backend_def sample_store_def valkey_store.truncate_def)

definition bot_here :: memory where
  "bot_here = empty_memory\<lparr>mem_strings := [bot_presence_key (str ''p'') (GuildId 5) \<mapsto> str ''1'']\<rparr>"

lemma bot_is_here: "is_bot_present sample_store NoFault (GuildId 5) bot_here = Inr True"
  by (simp add: is_bot_present_def ask_server_def sample_store_def memory_server_def bot_here_def)

lemma key_is_free:
  "mem_strings bot_here (str ''p'' @ 0x3a # c # k) = None" if "c \<noteq> 0x62"
  using that by (auto simp: bot_here_def empty_memory_def bot_presence_key_def str_def)

lemma free_keys:
  "mem_strings bot_here (command_stream_key (str ''p'') n) = None"
  "mem_strings bot_here (result_key sample_store (GuildId 5) c) = None"
  "mem_strings bot_here (actor_rate_key (str ''p'') (GuildId 5) u) = None"
  "mem_strings bot_here (guild_rate_key (str ''p'') (GuildId 5)) = None"
  by (simp_all add: command_stream_key_def command_result_key_def actor_rate_key_def guild_rate_key_def
      sample_store_def key_is_free str_def) (simp_all add: key_is_free [unfolded str_def, simplified])

lemma sample_enqueue:
  assumes "ce_guild_id e = GuildId 5" and "ce_actor_user_id e = Some (UserId 7)"
  shows "fst (enqueue_command sample_store NoFault e 1 DEFAULT_COMMAND_RESULT_RETENTION bot_here) = Inr (Enqueued (str ''1-0''))"
proof -
  have parts: "vs_server sample_store = memory_server" "vs_codec sample_store = sample_codec" "vs_keyspace sample_store = str ''p''"
    by (simp_all add: sample_store_def)
  have hashes: "mem_hashes bot_here k = None" for k by (simp add: bot_here_def empty_memory_def)
  have "str ''1-0'' \<noteq> []" by (simp add: str_def)
  then show ?thesis
    using assms free_keys parts
    by (simp add: enqueue_command_def duration_millis_usize_def DEFAULT_COMMAND_RESULT_RETENTION_def Let_def
        player_command_rate_limit_standard_def invoke_def answer_def admit_and_enqueue_script_def decode_response_def
        read_counter_def COMMAND_STREAM_CAPACITY_def memory_server_def hashes sample_store_def split: prod.split)
qed

definition sample_run :: request_run where
  "sample_run = \<lparr>rq_login = load_alone 2000, rq_access = load_alone 2000, rq_presence_fault = NoFault, rq_store_fault = NoFault\<rparr>"

lemma sample_mutation:
  "\<exists>receipt t. mutate_handler (production_ports sample_auth sample_backend 1 sample_run) (\<lambda>_. Some 9) sample_api (1, 2)
     (UnixTimeMillis 1000) sample_headers (str ''5'') (Some (initial_revision, Stop)) (opened [home_guild], bot_here) =
     (Inr receipt, t)"
proof -
  obtain a where load: "load sample_auth (Some 2000) (token_of 0x67) alone alone alone (opened [home_guild]) = (Inr (Some alice_later), a)"
    and held: "as_get auth_memory_server a (session_key sample_auth (token_of 0x67)) = Some refreshed_alice"
      "as_get auth_memory_server a (current_user_key sample_auth (UserId 7)) = Some (token_of 0x67)"
    by (rule alice_logs_in)
  have later: "sd_user_id alice_later = UserId 7" "sd_csrf_token alice_later = token_of 0x7a"
    by (simp_all add: alice_later_def alice_facts)
  have "session_fingerprint_new (token_of 0x67) = Inr (SessionFingerprint (token_of 0x67))"
    using token_of_shape [of "0x67"]
    by (simp add: session_fingerprint_new_def has_canonical_final_sextet_def token_of_def str_def last_replicate)
  then have login: "session_authenticate (store_load_session sample_auth (load_alone 2000)) sample_headers (opened [home_guild]) =
      (Inr (principal_of (token_of 0x67)), a)"
    using load later token_of_shape [of "0x7a"]
    by (simp add: session_authenticate_def store_load_session_def sample_cookie principal_from_session_def principal_of_def)
  obtain a' where again: "load_by_hash sample_auth (Some 2000) (token_of 0x67) (Some (UserId 7)) alone alone a =
      (Inr (Some alice_later), a')"
    using refreshed_loads [OF held] by (metis prod.collapse)
  have member: "has_guild alice_later (GuildId 5)" by (simp add: has_guild_def alice_later_def alice_facts home_guild_def)
  have present: "presence_port sample_store NoFault bot_here (GuildId 5) = Inr True"
    by (simp add: presence_port_def bot_is_here)
  have access: "session_authorize sample_auth (presence_port sample_store NoFault bot_here) (load_alone 2000)
      (principal_of (token_of 0x67)) (GuildId 5) a = (Inr (), a')"
    using again member present token_of_shape [of "0x67"]
    by (simp add: session_authorize_def principal_of_def load_bound_def validate_hash_def validate_opaque_token_def)
  have guild: "path_guild_id (str ''5'') = Inr (GuildId 5)"
  proof -
    have "str ''5'' = snowflake_display 5" by code_simp
    then show ?thesis by (simp add: path_guild_id_def guild_id_from_str_def snowflake_roundtrip)
  qed
  have csrf: "pl_csrf_token (principal_of (token_of 0x67)) = token_of 0x7a" "pl_user_id (principal_of (token_of 0x67)) = UserId 7"
    by (simp_all add: principal_of_def)
  have deadline: "api_command_deadline (UnixTimeMillis 1000) sample_api = Inr (UnixTimeMillis 11000)"
    by (simp add: api_command_deadline_def sample_api_def checked_add_u64_def)
  let ?e = "(command_envelope_new 1 2 (GuildId 5) (Some (UserId 7)) initial_revision (UnixTimeMillis 11000) Stop)\<lparr>ce_idempotency_key := 9\<rparr>"
  have fields: "ce_guild_id ?e = GuildId 5" "ce_actor_user_id ?e = Some (UserId 7)" "ce_deadline ?e = UnixTimeMillis 11000"
    by (simp_all add: command_envelope_new_def)
  obtain b' where enq: "enqueue_command sample_store NoFault ?e 1 DEFAULT_COMMAND_RESULT_RETENTION bot_here =
      (Inr (Enqueued (str ''1-0'')), b')"
    using sample_enqueue [OF fields(1,2)] by (metis prod.collapse)
  have "\<exists>receipt. backend_route sample_store NoFault 1 ?e (UnixTimeMillis 1000) bot_here = (Inr receipt, b')"
    using enq fields by (simp add: backend_route_def less_eq_unix_time_millis_def word_le_nat_alt)
  then show ?thesis
    using login access guild sample_mutation_headers [OF csrf(1)] deadline csrf(2)
    by (auto simp: mutate_handler_def authenticated_def authorized_def production_ports_def sample_run_def sample_backend_store)
qed


end
