(* ===== verification/Spec2Isabelle.thy ===== *)
theory Spec2Isabelle
  imports Player_Properties Player_Lifecycle Player_Behaviour Player_Moves Media_Cleanup Media_Extractor Media_Fetch
    Command_Samples Command_Shard
    Snapshot_Samples Postgres_Samples Guild_Presence Bot_Samples Bot_Registry Access_Samples Api_Samples
begin

text \<open>
  PepeAudio is a Discord music bot with a web dashboard: a gateway process joins voice channels and plays
  tracks per guild, an API accepts commands and streams state, Valkey carries commands, results, snapshots
  and presence between them, PostgreSQL keeps settings, presets and playlists, and a managed directory
  caches downloaded media. This library models the parts whose correctness is in the program's own code,
  from the Rust sources under \<open>src/crates\<close>, and proves what they guarantee.

  How the parts interact. A browser logs in with Discord (\<open>Auth_Service\<close>) and then reads states, follows events and
  sends commands under its session cookie (\<open>Api_Handlers\<close>, \<open>Api_Stream\<close>). The API side admits a command into the stream of a guild's shard
  (\<open>Api_Backend\<close>; \<open>Valkey_Store\<close>: \<open>enqueue_command\<close>). The bot's shard loop reads the stream and hands each command to a
  dispatcher that keeps commands of one guild in order (\<open>Command_Shard\<close>, \<open>Command_Dispatch\<close>); each command
  is processed under an idempotency lease and answered (\<open>Command_Worker\<close>); its execution reaches the actor of
  the guild (\<open>Player_Runtime\<close>), which answers with a snapshot and publishes one after every change. The
  snapshot is kept newest-only by a worker that writes it to Valkey (\<open>Snapshot_Worker\<close>,
  \<open>Valkey_Snapshots\<close>), and its settings part goes to PostgreSQL by another (\<open>Settings_Worker\<close>,
  \<open>Postgres_Store\<close>). Media come from an extractor (\<open>Media_Extractor\<close>, \<open>Media_Parse\<close>, \<open>Media_Matching\<close>)
  through a network policy (\<open>Media_Url_Policy\<close>) and a bounded downloader (\<open>Media_Fetch\<close>) into a directory
  with an accounting of its bytes (\<open>Media_Capacity\<close>), leases (\<open>Media_Lease\<close>) and a janitor
  (\<open>Media_Janitor\<close>, \<open>Media_Cleanup\<close>).

  Theories and sources:
    \<^item> \<open>Pepe_Prelude\<close>: machine integers, strings as code points, the sequencing of fallible
      operations, deque operations, and the locales \<open>invariant_machine\<close> and \<open>monotone_machine\<close>, the
      contract every machine of the library is proved to meet and interpreted at.
    \<^item> \<open>Core_Types\<close>, \<open>Track_Provenance\<close>, \<open>Player_Snapshot\<close>, \<open>Core_Command\<close>: \<open>pepeaudio-core\<close>.
    \<^item> \<open>Player_Model\<close>, \<open>Player_Shuffle\<close>, \<open>Player_Actor\<close>, \<open>Player_Operations\<close>, \<open>Player_Runtime\<close>:
      \<open>pepeaudio-player\<close>; one record per struct, one definition per handler with its port calls in order.
      \<open>Player_Moves\<close> is the abstract player, \<open>Player_Refinement\<close> and \<open>Player_Refines\<close> the simulation of
      it by every handler, \<open>Player_Properties\<close>, \<open>Player_Behaviour\<close>, \<open>Player_Lifecycle\<close> what follows.
    \<^item> \<open>Media_*\<close>: \<open>pepeaudio-media\<close>.
    \<^item> \<open>Valkey_Store\<close> with \<open>Valkey_Laws\<close>, \<open>Valkey_Admission\<close>, \<open>Valkey_Snapshots\<close>; \<open>Postgres_Rows\<close>,
      \<open>Postgres_Store\<close>: \<open>pepeaudio-storage\<close>. The Lua scripts and the SQL statements are definitions.
    \<^item> \<open>Command_Dispatch\<close>, \<open>Command_Shard\<close>, \<open>Command_Worker\<close>, \<open>Snapshot_Worker\<close>, \<open>Settings_Worker\<close>,
      \<open>Settings_Durability\<close>, \<open>Guild_Presence\<close>: \<open>pepeaudio-runtime\<close>. \<open>Settings_Durability\<close> runs the settings
      worker against the tables of \<open>Postgres_Store\<close>, with the other clients of the row as an environment.
    \<^item> \<open>Bot_Lifecycle\<close>, \<open>Bot_Registry\<close>, \<open>Component_Id\<close>, \<open>Bot_Access\<close>: \<open>pepeaudio-bot\<close>. The lifecycle
      actor is composed with the presence actor and the snapshot store; its claims about the calls it makes are
      instances of the locale \<open>lifecycle_invariant\<close>.
    \<^item> \<open>Auth_Model\<close>, \<open>Auth_Cookie\<close>, \<open>Auth_Discord\<close>, \<open>Auth_Store\<close>, \<open>Auth_Service\<close>: \<open>pepeaudio-auth\<close>, the Lua
      scripts included. \<open>Auth_Sessions\<close> and \<open>Auth_History\<close> say what any history of requests, from this call and
      from all others, keeps (instances of the locale \<open>kept_by_requests\<close>); \<open>Auth_Properties\<close> follows from them.
    \<^item> \<open>Api_Auth\<close>, \<open>Api_Stream\<close>, \<open>Api_Backend\<close>, \<open>Api_Handlers\<close>: \<open>pepeaudio-api\<close>, with the hub and the
      backend of \<open>pepeaudio-runtime\<close> and the ports of \<open>pepeaudio-server\<close>. \<open>Api_Properties\<close> follows a mutation from
      the cookie to the command stream.
    \<^item> \<open>*_Samples\<close>: concrete servers, databases and runs, at which the hypotheses hold.

  Conventions. A Rust struct is a record, an enum a datatype; constructors that would clash are renamed
  (\<open>PlayerError::RevisionConflict\<close> is \<open>RevisionMismatch\<close>, side effects are \<open>Effect...\<close>, result codes
  \<open>Code...\<close>). Integers keep their width wherever the code checks, saturates or wraps; a
  \<open>Result\<close> is a sum with the error on the left; a panic would be a branch of its own, and the refinement
  of the player shows there is none. Asynchronous code is a machine: its state, one step
  for every point where it can be resumed, and runs over any sequence of steps, so that an interleaving is
  an explicit list of events. A request to a server takes a fault that says whether the request or its
  answer is lost.

  Bounds and fuel. No definition needs fuel: recursions are over the data, over the list of events, or over a
  counter of the code (the redirects left to a download, the eight rounds of
  an optimistic settings write, the words of a hash), and end with the code's own answer.

  Parameters, with the documented behaviour they are assumed to have: the Valkey server
  (\<open>valkey_laws\<close>, \<open>auth_server_laws\<close>: what a read returns after a write), the JSON encodings (\<open>codec_laws\<close>, \<open>auth_codec_laws\<close>, decoding what
  was encoded), the PostgreSQL schema (constraints of the migrations), hashing and randomness, the URL parser and the resolver, Unicode
  tables, child processes, clocks, timers, the file system's answers and the voice
  and media ports of the player. Each assumption is shown to hold at a concrete instance by a witness.

  What the lemmas show. Player: the model stays well formed, each request is one move of the abstract player or
  leaves it unchanged, published revisions increase, stale or replayed events do nothing. Commands: order per
  guild, one execution per idempotency key, a terminal result is final, admission limits. Snapshots and
  settings: neither goes back; accepted snapshots are written before shutdown ends or the shutdown reports it, and
  the settings accepted last are those of the database row after a clean shutdown; where the code does not give
  that, a run that shows it. Storage: what was written is read
  back. Media: bytes and files never exceed the limits, no leased object is deleted, only inspected public
  addresses are connected to, user input stands behind the end-of-options marker of the extractor.
  Bot: a guild is advertised only after its snapshot was invalidated, presence agrees with ownership when nothing is
  pending and one tick gets there once the services answer; one live player per guild; a component identifier is
  read back as what it was made for and accepted only with the tag of its text, and Discord and the dashboard authorize alike.
  Authentication and API: a pending login is consumed once, by the browser that began it; a new login and a logout
  end a session for every later load, however the requests interleave; a loaded session is within its lifetime,
  and well formed unless its first load breaks it, which is shown to happen; a command accepted by the API is one of
  the logged-in member; a live stream shows every revision in order, and a backend that is ready again has caught up.

  Not modelled: the process start-up and wiring (\<open>server\<close>), third-party clients (the Discord gateway and
  voice library, reqwest, redis, sqlx), child processes and their pipes, tracing and metrics, Debug output, and
  the floating-point work of the audio path (convolution, resampling, loudness), for which
  HOL's exact reals would not be the program's arithmetic.
\<close>

end
